(* ===== verification/Prelude.thy ===== *)
theory Prelude
  imports Main "HOL-Library.Word" "HOL-Library.Monad_Syntax"
begin

unbundle bit_operations_syntax

text \<open>
  Shared vocabulary of the development: the machine integers of the 32-bit targets
  (\<open>size_t\<close> and \<open>uintptr_t\<close> are 32 bits wide on every supported MCU), C pointers,
  null-terminated linked lists in a store, bounded array searches, and the word
  arithmetic lemmas that the components use.

  Conventions.  A C pointer that may be \<open>NULL\<close> is an \<^typ>\<open>'a option\<close>.  A C function that can
  run into undefined behaviour (a wild read or write, a \<open>NULL\<close> dereference) or that may loop
  forever returns an \<^typ>\<open>'a option\<close>: \<^term>\<open>None\<close> means that the call has no defined result.
  C return codes are of type \<^typ>\<open>int\<close>.
\<close>

type_synonym u8 = "8 word"
type_synonym u16 = "16 word"
type_synonym u32 = "32 word"
type_synonym u64 = "64 word"
type_synonym size_t = "32 word"
type_synonym uintptr = "32 word"

named_theorems store_simps \<open>read-over-write facts of the stores\<close>

section \<open>Word arithmetic\<close>

lemma unat_add_no_overflow [intro]:
  fixes a b :: "'a::len word"
  assumes "unat a + unat b < 2 ^ LENGTH('a)"
  shows "unat (a + b) = unat a + unat b"
  using assms by (simp add: unat_add_lem)

lemma unat_mult_no_overflow [intro]:
  fixes a b :: "'a::len word"
  assumes "unat a * unat b < 2 ^ LENGTH('a)"
  shows "unat (a * b) = unat a * unat b"
  using assms by (simp add: unat_mult_lem)

lemma unat_bound: "unat (w :: 'a::len word) < 2 ^ LENGTH('a)"
  by (fact unsigned_less)

lemma unat_Suc_less:
  fixes a b :: "'a::len word"
  assumes "a < b"
  shows "unat (a + 1) = Suc (unat a)"
  proof -
  from assms have "unat a + 1 < 2 ^ LENGTH('a)"
    using unat_bound [of b] assms unfolding word_less_nat_alt by linarith
  then show ?thesis by (simp add: unat_add_no_overflow)
qed

lemma unat_less_2p32: "unat (a :: u32) < 4294967296"
  using unat_bound [of a] by simp

lemma ucast_diff_u32: "(ucast (a - b :: u64) :: u32) = ucast a - ucast b"
proof -
  have "uint (ucast (a - b) :: u32) = uint (ucast a - ucast b :: u32)"
    by (simp add: unsigned_ucast_eq uint_word_ariths take_bit_eq_mod mod_mod_cancel mod_diff_eq)
  then show ?thesis by (simp only: word_uint_eq_iff)
qed

lemma unat_ucast_u32: "unat (ucast (x :: u64) :: u32) = unat x mod 2 ^ 32"
  by (simp add: unsigned_ucast_eq take_bit_eq_mod)

section \<open>Bounded searches\<close>

text \<open>A loop \<open>for (i = 0; i < n; i++) if (P(i)) { ...; return; }\<close> is \<open>find P [0..<n]\<close>.\<close>

lemma find_upt_Some: "find P [0..<n] = Some k \<Longrightarrow> k < n \<and> P k"
  by (auto simp: find_Some_iff)

lemma find_upt_None: "find P [0..<n] = None \<longleftrightarrow> (\<forall>k < n. \<not> P k)"
  by (auto simp: find_None_iff)

lemma find_upt_prefix:
  assumes "k < n" and "P k" and "\<And>j. j < k \<Longrightarrow> \<not> P j"
  shows "find P [0..<n] = Some k"
  using assms by (auto simp: find_Some_iff)

lemma find_upt_first:
  assumes "i < n" and "P i" and "\<And>j. j < n \<Longrightarrow> P j \<Longrightarrow> j = i"
  shows "find P [0..<n] = Some i"
proof (cases "find P [0..<n]")
  case None
  then show ?thesis using assms(1,2) by (auto simp: find_upt_None)
next
  case (Some k)
  then show ?thesis using assms(3) find_upt_Some [of P n k] by auto
qed

section \<open>Byte buffers\<close>

text \<open>\<open>memcpy\<close> out of and into a buffer: undefined (\<^term>\<open>None\<close>) outside the buffer's bounds.\<close>

definition mem_read :: "u8 list \<Rightarrow> nat \<Rightarrow> nat \<Rightarrow> u8 list option" where
  "mem_read b off n = (if off + n \<le> length b then Some (take n (drop off b)) else None)"

definition mem_write :: "u8 list \<Rightarrow> nat \<Rightarrow> u8 list \<Rightarrow> u8 list option" where
  "mem_write b off d =
     (if off + length d \<le> length b then Some (take off b @ d @ drop (off + length d) b) else None)"

lemma mem_write_length: "mem_write b off d = Some b' \<Longrightarrow> length b' = length b"
  by (auto simp: mem_write_def split: if_splits)

lemma mem_read_write_same: "mem_write b off d = Some b' \<Longrightarrow> mem_read b' off (length d) = Some d"
  by (auto simp: mem_write_def mem_read_def split: if_splits)

lemma mem_read_write_other:
  assumes w: "mem_write b off d = Some b'" and dj: "off' + n \<le> off \<or> off + length d \<le> off'"
  shows "mem_read b' off' n = mem_read b off' n"
proof -
  have b': "b' = take off b @ d @ drop (off + length d) b" and fit: "off + length d \<le> length b"
    using w by (auto simp: mem_write_def split: if_splits)
  have nth: "b' ! i = b ! i" if "i < off \<or> off + length d \<le> i" "i < length b" for i
    using that fit by (auto simp: b' nth_append)
  have "take n (drop off' b') = take n (drop off' b)" if "off' + n \<le> length b"
    using that dj nth mem_write_length [OF w] by (intro nth_equalityI) auto
  then show ?thesis using mem_write_length [OF w] by (simp add: mem_read_def)
qed

lemma mem_write_Some: "off + length d \<le> length b \<Longrightarrow> \<exists>b'. mem_write b off d = Some b'"
  by (simp add: mem_write_def)

lemma mem_read_Some: "off + n \<le> length b \<Longrightarrow> mem_read b off n = Some (take n (drop off b))"
  by (simp add: mem_read_def)

section \<open>Calls of a platform\<close>

text \<open>Calls in order up to the first whose result is not 0; whether all succeeded.\<close>

fun calls_until :: "('c \<Rightarrow> 'e \<Rightarrow> int \<times> 'e) \<Rightarrow> 'c list \<Rightarrow> 'e \<Rightarrow> bool \<times> 'e" where
  "calls_until f [] e = (True, e)"
| "calls_until f (c # cs) e = (let (r, e1) = f c e in if r \<noteq> 0 then (False, e1) else calls_until f cs e1)"

section \<open>Null-terminated linked lists\<close>

text \<open>
  \<open>seg nx p xs q\<close>: following the \<open>next\<close> field \<open>nx\<close> from pointer \<open>p\<close> visits exactly the nodes \<open>xs\<close>
  and arrives at pointer \<open>q\<close>.  \<open>linked\<close> is the case of a list that ends in \<open>NULL\<close>.
\<close>

fun seg :: "('p \<Rightarrow> 'p option) \<Rightarrow> 'p option \<Rightarrow> 'p list \<Rightarrow> 'p option \<Rightarrow> bool" where
  "seg nx p [] q = (p = q)"
| "seg nx p (x # xs) q = (p = Some x \<and> seg nx (nx x) xs q)"

definition linked :: "('p \<Rightarrow> 'p option) \<Rightarrow> 'p option \<Rightarrow> 'p list \<Rightarrow> bool" where
  "linked nx p xs = seg nx p xs None"

lemma linked_Nil [simp]: "linked nx p [] = (p = None)"
  by (simp add: linked_def)

lemma linked_Cons [simp]: "linked nx p (x # xs) = (p = Some x \<and> linked nx (nx x) xs)"
  by (simp add: linked_def)

lemma linked_null [simp]: "linked nx None xs = (xs = [])"
  by (cases xs) auto

lemma linked_at: "linked nx (Some a) xs = (\<exists>ys. xs = a # ys \<and> linked nx (nx a) ys)"
  by (cases xs) auto

lemma seg_append: "seg nx p (xs @ ys) q = (\<exists>m. seg nx p xs m \<and> seg nx m ys q)"
  by (induction xs arbitrary: p) auto

lemma linked_append: "linked nx p (xs @ ys) = (\<exists>m. seg nx p xs m \<and> linked nx m ys)"
  by (simp add: linked_def seg_append)

lemma seg_frame: "\<forall>x \<in> set xs. nx' x = nx x \<Longrightarrow> seg nx' p xs q = seg nx p xs q"
  by (induction xs arbitrary: p) simp_all

lemma linked_frame:
  "\<forall>x \<in> set xs. nx' x = nx x \<Longrightarrow> linked nx' p xs = linked nx p xs"
  by (simp add: linked_def seg_frame)

lemma seg_upd [simp]: "a \<notin> set xs \<Longrightarrow> seg (nx(a := b)) p xs q = seg nx p xs q"
  by (rule seg_frame) auto

lemma linked_upd [simp]: "a \<notin> set xs \<Longrightarrow> linked (nx(a := b)) p xs = linked nx p xs"
  by (simp add: linked_def)

lemma linked_unique: "linked nx p xs \<Longrightarrow> linked nx p ys \<Longrightarrow> xs = ys"
proof (induction xs arbitrary: p ys)
  case Nil
  then show ?case by simp
next
  case (Cons x xs)
  then show ?case by (cases ys) auto
qed

lemma linked_head_fresh: "linked nx (nx a) xs \<Longrightarrow> a \<notin> set xs"
proof
  assume l: "linked nx (nx a) xs" and "a \<in> set xs"
  then obtain ys zs where xs: "xs = ys @ a # zs"
    by (meson split_list)
  with l have "linked nx (nx a) zs" by (auto simp: linked_append)
  with l have "xs = zs" by (rule linked_unique)
  with xs show False by simp
qed

lemma linked_distinct: "linked nx p xs \<Longrightarrow> distinct xs"
  by (induction xs arbitrary: p) (auto dest: linked_head_fresh)

lemma linked_same_head: "linked nx p xs \<Longrightarrow> linked nx' p' xs \<Longrightarrow> p' = p"
  by (cases xs) auto

lemma linked_push: "linked nx p xs \<Longrightarrow> a \<notin> set xs \<Longrightarrow> linked (nx(a := p)) (Some a) (a # xs)"
  by simp

lemma linked_unlink:
  assumes "linked nx p (xs @ a # b # ys)"
  shows "linked (nx(a := nx b)) p (xs @ a # ys)"
proof -
  from assms have "distinct (xs @ a # b # ys)" by (rule linked_distinct)
  with assms show ?thesis by (auto simp: linked_append)
qed

section \<open>Lists threaded through a store\<close>

text \<open>
  The interface of a component that keeps one singly linked list in its state: the \<open>next\<close>
  field of a node and the head pointer, and the removal loop both \<open>mp_sched_remove_thread\<close> and
  \<open>mp_timer_stop\<close> are written with (find the node while remembering its predecessor, bypass
  it).  The laws are read-over-write facts and the loop's equation.
\<close>

locale threaded_list =
  fixes nxt :: "'s \<Rightarrow> 'p \<Rightarrow> 'p option"
    and set_nxt :: "'p \<Rightarrow> 'p option \<Rightarrow> 's \<Rightarrow> 's"
    and head :: "'s \<Rightarrow> 'p option"
    and set_head :: "'p option \<Rightarrow> 's \<Rightarrow> 's"
    and unlink_loop :: "'p \<Rightarrow> 'p option \<Rightarrow> 'p option \<Rightarrow> 's \<Rightarrow> 's option"
  assumes nxt_set_nxt: "nxt (set_nxt p q s) = (nxt s)(p := q)"
    and nxt_set_head: "nxt (set_head h s) = nxt s"
    and head_set_head: "head (set_head h s) = h"
    and head_set_nxt: "head (set_nxt p q s) = head s"
    and unlink_loop_eq: "unlink_loop t cu prev s =
      (case cu of None \<Rightarrow> Some s
       | Some c \<Rightarrow>
           if c = t
           then Some (case prev of None \<Rightarrow> set_head (nxt s c) s
                      | Some q \<Rightarrow> set_nxt q (nxt s c) s)
           else unlink_loop t (nxt s c) (Some c) s)"
begin

lemma push_front:
  assumes "linked (nxt s) (head s) xs" and "a \<notin> set xs"
  shows "linked (nxt (set_head (Some a) (set_nxt a (head s) s)))
    (head (set_head (Some a) (set_nxt a (head s) s))) (a # xs)"
  using assms by (simp add: nxt_set_head nxt_set_nxt head_set_head)

lemma unlink_absent:
  "linked (nxt s) p xs \<Longrightarrow> t \<notin> set xs \<Longrightarrow> unlink_loop t p prev s = Some s"
  by (induction xs arbitrary: p prev) (subst unlink_loop_eq, auto)+

lemma unlink_after:
  "seg (nxt s) p zs (Some t) \<Longrightarrow> t \<notin> set zs \<Longrightarrow>
   unlink_loop t p (Some q) s = Some (set_nxt (last (q # zs)) (nxt s t) s)"
  by (induction zs arbitrary: p q) (subst unlink_loop_eq, auto)+

text \<open>The loop removes exactly the node asked for and keeps the order of the others.\<close>

lemma unlink_list:
  assumes l: "linked (nxt s) (head s) xs"
  obtains s' where "unlink_loop t (head s) None s = Some s'"
    and "linked (nxt s') (head s') (remove1 t xs)"
    and "s' = s \<or> (\<exists>h. s' = set_head h s) \<or> (\<exists>q v. q \<in> set xs \<and> q \<noteq> t \<and> s' = set_nxt q v s)"
proof (cases "t \<in> set xs")
  case False
  have "unlink_loop t (head s) None s = Some s"
    using l False by (rule unlink_absent)
  with l False show ?thesis using that by (simp add: remove1_idem)
next
  case True
  then obtain ys zs where xs: "xs = ys @ t # zs" and ty: "t \<notin> set ys"
    by (meson split_list_first)
  have rm: "remove1 t xs = ys @ zs"
    using xs ty by (simp add: remove1_append)
  show ?thesis
  proof (cases ys rule: rev_cases)
    case Nil
    then have "head s = Some t" "linked (nxt s) (nxt s t) zs" using l xs by simp_all
    then show ?thesis
      using that [of "set_head (nxt s t) s"] rm Nil
      by (simp add: unlink_loop_eq [of t] nxt_set_head head_set_head) blast
  next
    case (snoc ws q)
    obtain y ys' where ys: "ys = y # ys'" using snoc by (metis list.exhaust snoc_eq_iff_butlast)
    from l xs obtain m where "seg (nxt s) (head s) ys m" "linked (nxt s) m (t # zs)"
      by (auto simp: linked_append)
    then have "head s = Some y" "seg (nxt s) (nxt s y) ys' (Some t)" "y \<noteq> t" "t \<notin> set ys'"
      using ys ty by auto
    then have "unlink_loop t (head s) None s = Some (set_nxt (last ys) (nxt s t) s)"
      using unlink_after [of s "nxt s y" ys' t y] ys by (subst unlink_loop_eq) simp
    moreover have "linked ((nxt s)(q := nxt s t)) (head s) (ws @ q # zs)"
      using l xs snoc by (intro linked_unlink) simp
    ultimately show ?thesis
      using that [of "set_nxt q (nxt s t) s"] rm snoc xs ty
      by (simp add: nxt_set_nxt head_set_nxt) blast
  qed
qed

end

end
