(* ===== verification/Scheduler.thy ===== *)
theory Scheduler
  imports Prelude
begin

text \<open>
  The scheduler of \<open>src/kernel/scheduler.c\<close> with the thread control blocks of
  \<open>include/microposix/kernel/thread.h\<close> (hardware profile 1).  The state is one record: the TCBs
  behind their pointers, the ready list threaded through their \<open>next\<close> fields, the current and
  next thread, the clock, the stack memory that the high-water-mark scan reads, and the
  allocation table and id counter of \<open>thread.c\<close>.

  A TCB pointer is either \<open>&idle_tcb\<close> or \<open>&tcb_pool[i]\<close> of \<open>thread.c\<close>.  (The second
  \<open>tcb_pool\<close>/\<open>tcb_used\<close> pair, the statics of \<open>scheduler.c\<close>, is only cleared by
  \<open>mp_sched_init\<close> and never read, so it has no counterpart here.)  Walks over the ready list are
  \<^theory_text>\<open>partial_function (option)\<close>: on a cyclic list they do not return.
\<close>

section \<open>State\<close>

datatype mp_thread_state =
    MP_THREAD_READY | MP_THREAD_RUNNING | MP_THREAD_BLOCKED
  | MP_THREAD_SLEEPING | MP_THREAD_TERMINATED

datatype tcb_ref = Idle_tcb | Tcb_pool nat

record mp_tcb =
  stack_ptr :: uintptr
  stack_base :: uintptr
  stack_size :: u32
  tcb_id :: u32
  tcb_name :: string
  priority :: u8
  tcb_state :: mp_thread_state
  sleep_ticks :: u32
  cpu_cycles :: u64
  context_switches :: u32
  stack_hwm :: uintptr
  heap_bytes :: u32
  tcb_next :: "tcb_ref option"

datatype mp_sched_state = MP_SCHED_INITIALIZING | MP_SCHED_RUNNING | MP_SCHED_SUSPENDED

record sched =
  tcbs :: "tcb_ref \<Rightarrow> mp_tcb"
  current_thread :: "tcb_ref option"
  next_thread :: "tcb_ref option"
  ready_list :: "tcb_ref option"
  sched_state :: mp_sched_state
  monotonic_ms :: u64
  stack_mem :: "uintptr \<Rightarrow> u8"
  tcb_used :: "bool list"
  next_thread_id :: u32

definition MAX_THREADS :: nat where
  "MAX_THREADS = 32"

text \<open>The statics as the C runtime leaves them: all zero, with the initialisers of the source.\<close>

definition zero_tcb :: mp_tcb where
  "zero_tcb = \<lparr>stack_ptr = 0, stack_base = 0, stack_size = 0, tcb_id = 0, tcb_name = [],
     priority = 0, tcb_state = MP_THREAD_READY, sleep_ticks = 0, cpu_cycles = 0,
     context_switches = 0, stack_hwm = 0, heap_bytes = 0, tcb_next = None\<rparr>"

definition boot_state :: "(uintptr \<Rightarrow> u8) \<Rightarrow> sched" where
  "boot_state mem = \<lparr>tcbs = (\<lambda>_. zero_tcb), current_thread = None, next_thread = None,
     ready_list = None, sched_state = MP_SCHED_INITIALIZING, monotonic_ms = 0, stack_mem = mem,
     tcb_used = replicate MAX_THREADS False, next_thread_id = 1\<rparr>"

definition upd_tcb :: "tcb_ref \<Rightarrow> (mp_tcb \<Rightarrow> mp_tcb) \<Rightarrow> sched \<Rightarrow> sched" where
  "upd_tcb p f s = s\<lparr>tcbs := (tcbs s)(p := f (tcbs s p))\<rparr>"

definition next_of :: "sched \<Rightarrow> tcb_ref \<Rightarrow> tcb_ref option" where
  "next_of s p = tcb_next (tcbs s p)"

definition set_next :: "tcb_ref \<Rightarrow> tcb_ref option \<Rightarrow> sched \<Rightarrow> sched" where
  "set_next p q = upd_tcb p (\<lambda>t. t\<lparr>tcb_next := q\<rparr>)"

definition set_ready :: "tcb_ref option \<Rightarrow> sched \<Rightarrow> sched" where
  "set_ready h s = s\<lparr>ready_list := h\<rparr>"

section \<open>Operations\<close>

definition mp_clock_get_monotonic_ms :: "sched \<Rightarrow> u64" where
  "mp_clock_get_monotonic_ms s = monotonic_ms s"

definition mp_clock_get_monotonic_us :: "sched \<Rightarrow> u64" where
  "mp_clock_get_monotonic_us s = monotonic_ms s * 1000"

partial_function (option) calc_sleep_loop :: "sched \<Rightarrow> tcb_ref option \<Rightarrow> u32 \<Rightarrow> u32 option" where
  "calc_sleep_loop s cu ticks =
     (case cu of None \<Rightarrow> Some ticks
      | Some c \<Rightarrow>
          calc_sleep_loop s (next_of s c)
            (if tcb_state (tcbs s c) = MP_THREAD_SLEEPING
             then if sleep_ticks (tcbs s c) < ticks then sleep_ticks (tcbs s c) else ticks
             else ticks))"

definition mp_sched_calculate_sleep :: "sched \<Rightarrow> u32 option" where
  "mp_sched_calculate_sleep s =
     do { ticks \<leftarrow> calc_sleep_loop s (ready_list s) 0xFFFFFFFF;
          Some (if ticks = 0xFFFFFFFF then 0 else ticks) }"

text \<open>\<open>idle_stack\<close> is the address the linker gives the static array of 256 words.\<close>

definition mp_sched_init :: "uintptr \<Rightarrow> sched \<Rightarrow> sched" where
  "mp_sched_init idle_stack s =
     (upd_tcb Idle_tcb (\<lambda>t. t\<lparr>tcb_id := 0, tcb_name := ''idle'', priority := 0,
          tcb_state := MP_THREAD_READY, stack_base := idle_stack, stack_size := 1024,
          stack_ptr := idle_stack + 4 * (256 - 1)\<rparr>) s)
       \<lparr>ready_list := Some Idle_tcb, current_thread := Some Idle_tcb,
        sched_state := MP_SCHED_RUNNING\<rparr>"

definition mp_sched_start :: "sched \<Rightarrow> sched" where
  "mp_sched_start s = s\<lparr>sched_state := MP_SCHED_RUNNING\<rparr>"

definition runnable :: "mp_tcb \<Rightarrow> bool" where
  "runnable t \<longleftrightarrow> tcb_state t = MP_THREAD_READY \<or> tcb_state t = MP_THREAD_RUNNING"

partial_function (option) reschedule_loop ::
  "sched \<Rightarrow> tcb_ref option \<Rightarrow> tcb_ref option \<Rightarrow> u8 \<Rightarrow> tcb_ref option option" where
  "reschedule_loop s cu best_thread highest_priority =
     (case cu of None \<Rightarrow> Some best_thread
      | Some c \<Rightarrow>
          if runnable (tcbs s c) \<and> priority (tcbs s c) \<ge> highest_priority
          then reschedule_loop s (next_of s c) (Some c) (priority (tcbs s c))
          else reschedule_loop s (next_of s c) best_thread highest_priority)"

definition mp_sched_reschedule :: "sched \<Rightarrow> sched option" where
  "mp_sched_reschedule s =
     do { best_thread \<leftarrow> reschedule_loop s (ready_list s) None 0;
          Some (if best_thread \<noteq> current_thread s then s\<lparr>next_thread := best_thread\<rparr> else s) }"

text \<open>The stack scan counts the bytes from the stack base that still hold the fill pattern.\<close>

function hwm_scan :: "(uintptr \<Rightarrow> u8) \<Rightarrow> uintptr \<Rightarrow> u32 \<Rightarrow> u32 \<Rightarrow> u32" where
  "hwm_scan mem base sz unused =
     (if unused < sz \<and> mem (base + unused) = 0xAA then hwm_scan mem base sz (unused + 1)
      else unused)"
  by pat_completeness auto
termination
proof (relation "measure (\<lambda>(mem, base, sz, unused). unat sz - unat unused)")
  fix mem :: "uintptr \<Rightarrow> u8" and base :: uintptr and sz unused :: u32
  assume "unused < sz \<and> mem (base + unused) = 0xAA"
  then show "((mem, base, sz, unused + 1), mem, base, sz, unused)
      \<in> measure (\<lambda>(mem, base, sz, unused). unat sz - unat unused)"
    using unat_Suc_less [of unused sz] diff_less_mono2 [of "unat unused" "Suc (unat unused)" "unat sz"]
    by (simp add: word_less_nat_alt)
qed simp

declare hwm_scan.simps [simp del]

definition tick_sleep :: "mp_tcb \<Rightarrow> mp_tcb" where
  "tick_sleep t =
     (if tcb_state t = MP_THREAD_SLEEPING
      then let t1 = (if sleep_ticks t > 0 then t\<lparr>sleep_ticks := sleep_ticks t - 1\<rparr> else t)
           in if sleep_ticks t1 = 0 then t1\<lparr>tcb_state := MP_THREAD_READY\<rparr> else t1
      else t)"

definition tick_hwm :: "(uintptr \<Rightarrow> u8) \<Rightarrow> mp_tcb \<Rightarrow> mp_tcb" where
  "tick_hwm mem t =
     (if stack_base t \<noteq> 0
      then t\<lparr>stack_hwm := stack_size t - hwm_scan mem (stack_base t) (stack_size t) 0\<rparr>
      else t)"

definition tick_tcb :: "(uintptr \<Rightarrow> u8) \<Rightarrow> mp_tcb \<Rightarrow> mp_tcb" where
  "tick_tcb mem t = tick_hwm mem (tick_sleep t)"

partial_function (option) tick_loop :: "tcb_ref option \<Rightarrow> sched \<Rightarrow> sched option" where
  "tick_loop cu s =
     (case cu of None \<Rightarrow> Some s
      | Some c \<Rightarrow> let s' = upd_tcb c (tick_tcb (stack_mem s)) s in tick_loop (next_of s' c) s')"

definition mp_sched_tick :: "sched \<Rightarrow> sched option" where
  "mp_sched_tick s =
     do { let s1 = s\<lparr>monotonic_ms := monotonic_ms s + 1\<rparr>;
          s2 \<leftarrow> tick_loop (ready_list s1) s1;
          mp_sched_reschedule s2 }"

definition mp_sched_get_current_thread :: "sched \<Rightarrow> tcb_ref option" where
  "mp_sched_get_current_thread s = current_thread s"

definition mp_sched_get_next_thread :: "sched \<Rightarrow> tcb_ref option" where
  "mp_sched_get_next_thread s = next_thread s"

definition mp_sched_add_thread :: "tcb_ref \<Rightarrow> sched \<Rightarrow> sched" where
  "mp_sched_add_thread tcb s = set_ready (Some tcb) (set_next tcb (ready_list s) s)"

partial_function (option) remove_loop ::
  "tcb_ref \<Rightarrow> tcb_ref option \<Rightarrow> tcb_ref option \<Rightarrow> sched \<Rightarrow> sched option" where
  "remove_loop tcb cu prev s =
     (case cu of None \<Rightarrow> Some s
      | Some c \<Rightarrow>
          if c = tcb
          then Some (case prev of None \<Rightarrow> set_ready (next_of s c) s
                     | Some q \<Rightarrow> set_next q (next_of s c) s)
          else remove_loop tcb (next_of s c) (Some c) s)"

definition mp_sched_remove_thread :: "tcb_ref \<Rightarrow> sched \<Rightarrow> sched option" where
  "mp_sched_remove_thread tcb s = remove_loop tcb (ready_list s) None s"

section \<open>The ready list as an instance of the threaded-list interface\<close>

lemma upd_tcb_sel [simp, store_simps]:
  "tcbs (upd_tcb p f s) = (tcbs s)(p := f (tcbs s p))"
  "ready_list (upd_tcb p f s) = ready_list s"
  "current_thread (upd_tcb p f s) = current_thread s"
  "next_thread (upd_tcb p f s) = next_thread s"
  "monotonic_ms (upd_tcb p f s) = monotonic_ms s"
  "stack_mem (upd_tcb p f s) = stack_mem s"
  "tcb_used (upd_tcb p f s) = tcb_used s"
  "next_thread_id (upd_tcb p f s) = next_thread_id s"
  by (simp_all add: upd_tcb_def)

interpretation ready: threaded_list next_of set_next ready_list set_ready remove_loop
proof
  fix s p q h t cu prev
  show "next_of (set_next p q s) = (next_of s)(p := q)"
    by (auto simp: next_of_def set_next_def)
  show "next_of (set_ready h s) = next_of s" by (auto simp: next_of_def set_ready_def)
  show "ready_list (set_ready h s) = h" by (simp add: set_ready_def)
  show "ready_list (set_next p q s) = ready_list s" by (simp add: set_next_def)
  show "remove_loop t cu prev s =
      (case cu of None \<Rightarrow> Some s
       | Some c \<Rightarrow> if c = t
           then Some (case prev of None \<Rightarrow> set_ready (next_of s c) s
                      | Some q \<Rightarrow> set_next q (next_of s c) s)
           else remove_loop t (next_of s c) (Some c) s)"
    by (rule remove_loop.simps)
qed

text \<open>The threads on the ready list, in list order.\<close>

definition ready_threads :: "sched \<Rightarrow> tcb_ref list \<Rightarrow> bool" where
  "ready_threads s xs \<longleftrightarrow> linked (next_of s) (ready_list s) xs"

lemma ready_threads_distinct: "ready_threads s xs \<Longrightarrow> distinct xs"
  unfolding ready_threads_def by (rule linked_distinct)

lemma ready_threads_init:
  "tcb_next (tcbs s Idle_tcb) = None \<Longrightarrow> ready_threads (mp_sched_init st s) [Idle_tcb]"
  by (simp add: ready_threads_def mp_sched_init_def next_of_def)

lemma add_thread_ready:
  "ready_threads s xs \<Longrightarrow> t \<notin> set xs \<Longrightarrow> ready_threads (mp_sched_add_thread t s) (t # xs)"
  unfolding ready_threads_def mp_sched_add_thread_def by (rule ready.push_front)

lemma next_of_next_thread [simp]: "next_of (s\<lparr>next_thread := x\<rparr>) = next_of s"
  by (simp add: next_of_def fun_eq_iff)

lemma next_of_clock [simp]: "next_of (s\<lparr>monotonic_ms := x\<rparr>) = next_of s"
  by (simp add: next_of_def fun_eq_iff)

lemma ready_threads_next_thread [simp]:
  "ready_threads (s\<lparr>next_thread := x\<rparr>) xs = ready_threads s xs"
  by (simp add: ready_threads_def)

section \<open>Choosing the next thread\<close>

text \<open>
  One pass of the loop is a fold with the candidate and its priority; \<open>highest\<close> is what the
  candidate is: a runnable thread that no runnable thread outranks, the last such one of the
  list (\<open>>=\<close> in the code), hence the one added first.
\<close>

definition resched_step :: "sched \<Rightarrow> tcb_ref option \<times> u8 \<Rightarrow> tcb_ref \<Rightarrow> tcb_ref option \<times> u8" where
  "resched_step s a c =
     (if runnable (tcbs s c) \<and> priority (tcbs s c) \<ge> snd a then (Some c, priority (tcbs s c)) else a)"

definition highest :: "sched \<Rightarrow> tcb_ref list \<Rightarrow> tcb_ref \<Rightarrow> bool" where
  "highest s xs t \<longleftrightarrow> runnable (tcbs s t) \<and> (\<exists>ys zs. xs = ys @ t # zs \<and>
     (\<forall>y \<in> set ys. runnable (tcbs s y) \<longrightarrow> priority (tcbs s y) \<le> priority (tcbs s t)) \<and>
     (\<forall>z \<in> set zs. runnable (tcbs s z) \<longrightarrow> priority (tcbs s z) < priority (tcbs s t)))"

lemma reschedule_loop_foldl:
  "linked (next_of s) cu xs \<Longrightarrow>
   reschedule_loop s cu best hp = Some (fst (foldl (resched_step s) (best, hp) xs))"
proof (induction xs arbitrary: cu best hp)
  case Nil
  then show ?case by (simp add: reschedule_loop.simps)
next
  case (Cons x xs)
  then have "linked (next_of s) (next_of s x) xs" and "cu = Some x" by auto
  then show ?case
    using Cons.IH by (simp add: reschedule_loop.simps [of s "Some x"] resched_step_def)
qed

lemma highest_snoc_new:
  assumes "runnable (tcbs s x)"
    and "\<forall>y \<in> set xs. runnable (tcbs s y) \<longrightarrow> priority (tcbs s y) \<le> priority (tcbs s x)"
  shows "highest s (xs @ [x]) x"
  using assms unfolding highest_def by (intro conjI exI [of _ xs] exI [of _ "[]"]) auto

lemma highest_snoc_old:
  assumes "highest s xs t" and "runnable (tcbs s x) \<longrightarrow> priority (tcbs s x) < priority (tcbs s t)"
  shows "highest s (xs @ [x]) t"
proof -
  from assms(1) obtain ys zs where "runnable (tcbs s t)" "xs = ys @ t # zs"
    "\<forall>y \<in> set ys. runnable (tcbs s y) \<longrightarrow> priority (tcbs s y) \<le> priority (tcbs s t)"
    "\<forall>z \<in> set zs. runnable (tcbs s z) \<longrightarrow> priority (tcbs s z) < priority (tcbs s t)"
    unfolding highest_def by blast
  then show ?thesis using assms(2)
    unfolding highest_def by (intro conjI exI [of _ ys] exI [of _ "zs @ [x]"]) auto
qed

lemma highest_max:
  "highest s xs t \<Longrightarrow> x \<in> set xs \<Longrightarrow> runnable (tcbs s x) \<Longrightarrow> priority (tcbs s x) \<le> priority (tcbs s t)"
  unfolding highest_def by (auto simp: order_less_imp_le)

lemma resched_foldl_highest:
  assumes "foldl (resched_step s) (None, 0) xs = (b, h)"
  shows "(case b of None \<Rightarrow> h = 0 \<and> (\<forall>x \<in> set xs. \<not> runnable (tcbs s x))
    | Some t \<Rightarrow> h = priority (tcbs s t) \<and> highest s xs t)"
  using assms
proof (induction xs arbitrary: b h rule: rev_induct)
  case Nil
  then show ?case by auto
next
  case (snoc x xs)
  obtain b' h' where f: "foldl (resched_step s) (None, 0) xs = (b', h')" by fastforce
  note IH = snoc.IH [OF f]
  have step: "(b, h) = resched_step s (b', h') x" using snoc.prems f by simp
  show ?case
  proof (cases "runnable (tcbs s x) \<and> h' \<le> priority (tcbs s x)")
    case True
    have "\<forall>y \<in> set xs. runnable (tcbs s y) \<longrightarrow> priority (tcbs s y) \<le> priority (tcbs s x)"
      using IH True by (cases b') (auto intro: order_trans dest: highest_max)
    then show ?thesis using True step highest_snoc_new [of s x xs] by (simp add: resched_step_def)
  next
    case False
    then have "b = b'" "h = h'" using step by (simp_all add: resched_step_def split: if_splits)
    then show ?thesis using False IH
      by (cases b') (auto intro!: highest_snoc_old)
  qed
qed

lemma reschedule_result:
  assumes "ready_threads s xs"
  obtains b where "mp_sched_reschedule s = Some (if b \<noteq> current_thread s then s\<lparr>next_thread := b\<rparr> else s)"
    and "case b of None \<Rightarrow> \<forall>x \<in> set xs. \<not> runnable (tcbs s x) | Some t \<Rightarrow> highest s xs t"
proof -
  obtain b h where f: "foldl (resched_step s) (None, 0) xs = (b, h)" by fastforce
  show ?thesis
  proof (rule that [of b])
    show "mp_sched_reschedule s = Some (if b \<noteq> current_thread s then s\<lparr>next_thread := b\<rparr> else s)"
      using assms f by (simp add: mp_sched_reschedule_def ready_threads_def reschedule_loop_foldl)
    show "case b of None \<Rightarrow> \<forall>x \<in> set xs. \<not> runnable (tcbs s x) | Some t \<Rightarrow> highest s xs t"
      using resched_foldl_highest [OF f] by (cases b) simp_all
  qed
qed

lemma reschedule_frame:
  assumes "mp_sched_reschedule s = Some s'"
  shows "\<exists>b. s' = s\<lparr>next_thread := b\<rparr>"
  using assms by (auto simp: mp_sched_reschedule_def split: option.splits bind_splits if_splits
    intro: exI [of _ "next_thread s"])

section \<open>The clock tick\<close>

lemma tick_sleep_next [simp]: "tcb_next (tick_sleep t) = tcb_next t"
  by (simp add: tick_sleep_def Let_def)

lemma tick_tcb_next [simp]: "tcb_next (tick_tcb m t) = tcb_next t"
  by (simp add: tick_tcb_def tick_hwm_def)

lemma tick_hwm_sel [simp]:
  "tcb_state (tick_hwm m t) = tcb_state t" "sleep_ticks (tick_hwm m t) = sleep_ticks t"
  by (simp_all add: tick_hwm_def)

lemma tick_next_of [simp]: "next_of (upd_tcb c (tick_tcb m) s) = next_of s"
  by (simp add: next_of_def fun_eq_iff)

definition tick_all :: "tcb_ref list \<Rightarrow> sched \<Rightarrow> sched" where
  "tick_all xs s =
     s\<lparr>tcbs := (\<lambda>t. if t \<in> set xs then tick_tcb (stack_mem s) (tcbs s t) else tcbs s t)\<rparr>"

lemma tick_loop_all:
  "linked (next_of s) cu xs \<Longrightarrow> tick_loop cu s = Some (tick_all xs s)"
proof (induction xs arbitrary: cu s)
  case Nil
  then show ?case by (simp add: tick_loop.simps tick_all_def)
next
  case (Cons x xs)
  let ?s = "upd_tcb x (tick_tcb (stack_mem s)) s"
  from Cons.prems have cu: "cu = Some x" and tl: "linked (next_of ?s) (next_of ?s x) xs" by auto
  have "x \<notin> set xs" using Cons.prems linked_distinct [of "next_of s" cu "x # xs"] by simp
  then have "tick_all xs ?s = tick_all (x # xs) s"
    by (auto simp: tick_all_def upd_tcb_def fun_eq_iff)
  with cu Cons.IH [OF tl] show ?case by (simp add: tick_loop.simps [of "Some x"] Let_def)
qed

lemma tick_all_next_of [simp]: "next_of (tick_all xs s) = next_of s"
  by (simp add: tick_all_def next_of_def fun_eq_iff)

lemma ready_threads_tick_all:
  "ready_threads s xs \<Longrightarrow> ready_threads (tick_all xs (s\<lparr>monotonic_ms := m\<rparr>)) xs"
proof -
  have "ready_list (tick_all xs (s\<lparr>monotonic_ms := m\<rparr>)) = ready_list s"
    by (simp add: tick_all_def)
  then show "ready_threads s xs \<Longrightarrow> ?thesis"
    by (simp add: ready_threads_def)
qed

lemma tick_result:
  assumes "ready_threads s xs"
  obtains b where
    "mp_sched_tick s = Some ((tick_all xs (s\<lparr>monotonic_ms := monotonic_ms s + 1\<rparr>))\<lparr>next_thread := b\<rparr>)"
proof -
  let ?s1 = "s\<lparr>monotonic_ms := monotonic_ms s + 1\<rparr>"
  have "linked (next_of ?s1) (ready_list ?s1) xs"
    using assms by (simp add: ready_threads_def)
  then have t: "tick_loop (ready_list ?s1) ?s1 = Some (tick_all xs ?s1)" by (rule tick_loop_all)
  obtain b where b: "mp_sched_reschedule (tick_all xs ?s1) =
      Some (if b \<noteq> current_thread (tick_all xs ?s1) then (tick_all xs ?s1)\<lparr>next_thread := b\<rparr>
        else tick_all xs ?s1)"
    using reschedule_result [OF ready_threads_tick_all [OF assms]] by blast
  then obtain b' where "mp_sched_reschedule (tick_all xs ?s1) = Some ((tick_all xs ?s1)\<lparr>next_thread := b'\<rparr>)"
    using reschedule_frame [OF b] by auto
  then show ?thesis using t by (intro that [of b']) (simp add: mp_sched_tick_def)
qed

section \<open>Ticks and sleeping threads\<close>

primrec sched_ticks :: "nat \<Rightarrow> sched \<Rightarrow> sched option" where
  "sched_ticks 0 s = Some s"
| "sched_ticks (Suc n) s = do { s' \<leftarrow> sched_ticks n s; mp_sched_tick s' }"

lemma tick_thread:
  assumes "ready_threads s xs"
  obtains s' where "mp_sched_tick s = Some s'" and "ready_threads s' xs"
    and "monotonic_ms s' = monotonic_ms s + 1"
    and "\<forall>t \<in> set xs. tcbs s' t = tick_tcb (stack_mem s) (tcbs s t)"
    and "\<forall>t. t \<notin> set xs \<longrightarrow> tcbs s' t = tcbs s t"
    and "current_thread s' = current_thread s" and "ready_list s' = ready_list s"
    and "stack_mem s' = stack_mem s"
proof -
  let ?m = "monotonic_ms s + 1"
  obtain b where t: "mp_sched_tick s = Some ((tick_all xs (s\<lparr>monotonic_ms := ?m\<rparr>))\<lparr>next_thread := b\<rparr>)"
    using tick_result [OF assms] .
  show ?thesis
    by (rule that [OF t]) (use ready_threads_tick_all [OF assms, of ?m] in \<open>auto simp: tick_all_def\<close>)
qed

lemma tick_sleep_cases:
  assumes "tcb_state t = MP_THREAD_SLEEPING"
  shows "if unat (sleep_ticks t) \<le> 1
    then tcb_state (tick_tcb m t) = MP_THREAD_READY
    else tcb_state (tick_tcb m t) = MP_THREAD_SLEEPING \<and>
      unat (sleep_ticks (tick_tcb m t)) = unat (sleep_ticks t) - 1"
proof (cases "sleep_ticks t = 0")
  case True
  then show ?thesis using assms by (simp add: tick_tcb_def tick_sleep_def Let_def)
next
  case False
  then have u: "unat (sleep_ticks t - 1) = unat (sleep_ticks t) - 1" and p: "sleep_ticks t > 0"
    by (simp_all add: unat_minus_one word_neq_0_conv)
  then show ?thesis
    using assms by (auto simp: tick_tcb_def tick_sleep_def Let_def unat_eq_0 [symmetric])
qed

lemma tick_awake: "tcb_state t \<noteq> MP_THREAD_SLEEPING \<Longrightarrow> tcb_state (tick_tcb m t) = tcb_state t"
  by (simp add: tick_tcb_def tick_sleep_def)

lemma ticks_sleeping:
  assumes rt: "ready_threads s xs"
  shows "\<exists>s'. sched_ticks n s = Some s' \<and> ready_threads s' xs \<and>
    (\<forall>t \<in> set xs. tcb_state (tcbs s t) = MP_THREAD_SLEEPING \<and> n < max 1 (unat (sleep_ticks (tcbs s t))) \<longrightarrow>
      tcb_state (tcbs s' t) = MP_THREAD_SLEEPING \<and>
      unat (sleep_ticks (tcbs s' t)) = unat (sleep_ticks (tcbs s t)) - n)"
proof (induction n)
  case 0
  then show ?case using rt by simp
next
  case (Suc n)
  then obtain s1 where s1: "sched_ticks n s = Some s1" and rt1: "ready_threads s1 xs"
    and sl: "\<forall>t \<in> set xs. tcb_state (tcbs s t) = MP_THREAD_SLEEPING \<and> n < max 1 (unat (sleep_ticks (tcbs s t))) \<longrightarrow>
      tcb_state (tcbs s1 t) = MP_THREAD_SLEEPING \<and>
      unat (sleep_ticks (tcbs s1 t)) = unat (sleep_ticks (tcbs s t)) - n"
    by blast
  obtain s' where s': "mp_sched_tick s1 = Some s'" "ready_threads s' xs"
    and upd: "\<forall>t \<in> set xs. tcbs s' t = tick_tcb (stack_mem s1) (tcbs s1 t)"
    by (rule tick_thread [OF rt1]) blast
  have "tcb_state (tcbs s' t) = MP_THREAD_SLEEPING \<and>
      unat (sleep_ticks (tcbs s' t)) = unat (sleep_ticks (tcbs s t)) - Suc n"
    if t: "t \<in> set xs" "tcb_state (tcbs s t) = MP_THREAD_SLEEPING"
      and n: "Suc n < max 1 (unat (sleep_ticks (tcbs s t)))" for t
    using sl t n upd tick_sleep_cases [of "tcbs s1 t" "stack_mem s1"] by (auto split: if_splits)
  then show ?case using s1 s' by auto
qed

lemma ticks_wake:
  assumes "ready_threads s xs" and "t \<in> set xs" and "tcb_state (tcbs s t) = MP_THREAD_SLEEPING"
  shows "\<exists>s'. sched_ticks (max 1 (unat (sleep_ticks (tcbs s t)))) s = Some s' \<and>
    tcb_state (tcbs s' t) = MP_THREAD_READY"
proof -
  let ?k = "max 1 (unat (sleep_ticks (tcbs s t)))"
  obtain n where n: "?k = Suc n" by (cases ?k) auto
  then have "n < ?k" by simp
  then obtain s1 where s1: "sched_ticks n s = Some s1" "ready_threads s1 xs"
    and sl: "tcb_state (tcbs s1 t) = MP_THREAD_SLEEPING"
      "unat (sleep_ticks (tcbs s1 t)) = unat (sleep_ticks (tcbs s t)) - n"
    using ticks_sleeping [OF assms(1), of n] assms(2,3) by blast
  obtain s' where s': "mp_sched_tick s1 = Some s'"
    and upd: "\<forall>t \<in> set xs. tcbs s' t = tick_tcb (stack_mem s1) (tcbs s1 t)"
    by (rule tick_thread [OF s1(2)]) blast
  have "unat (sleep_ticks (tcbs s1 t)) \<le> 1" using sl(2) n by auto
  then have "tcb_state (tcbs s' t) = MP_THREAD_READY"
    using upd assms(2) sl(1) tick_sleep_cases [of "tcbs s1 t" "stack_mem s1"] by auto
  then show ?thesis using s1 s' unfolding n by auto
qed

section \<open>Tickless idle\<close>

lemma calc_sleep_loop_result:
  assumes "linked (next_of s) cu xs"
  obtains r where "calc_sleep_loop s cu acc = Some r" and "r \<le> acc"
    and "\<forall>x \<in> set xs. tcb_state (tcbs s x) = MP_THREAD_SLEEPING \<longrightarrow> r \<le> sleep_ticks (tcbs s x)"
    and "r = acc \<or> (\<exists>x \<in> set xs. tcb_state (tcbs s x) = MP_THREAD_SLEEPING \<and> r = sleep_ticks (tcbs s x))"
  using assms
proof (induction xs arbitrary: cu acc thesis)
  case Nil
  show ?case by (rule Nil.prems(1) [of acc]) (use Nil.prems(2) in \<open>simp_all add: calc_sleep_loop.simps\<close>)
next
  case (Cons x xs)
  define a where "a = (if tcb_state (tcbs s x) = MP_THREAD_SLEEPING
    then if sleep_ticks (tcbs s x) < acc then sleep_ticks (tcbs s x) else acc else acc)"
  have cu: "cu = Some x" and tl: "linked (next_of s) (next_of s x) xs" using Cons.prems(2) by auto
  have le: "a \<le> acc" by (simp add: a_def order_less_imp_le)
  obtain r where r: "calc_sleep_loop s (next_of s x) a = Some r" "r \<le> a"
    "\<forall>x \<in> set xs. tcb_state (tcbs s x) = MP_THREAD_SLEEPING \<longrightarrow> r \<le> sleep_ticks (tcbs s x)"
    "r = a \<or> (\<exists>x \<in> set xs. tcb_state (tcbs s x) = MP_THREAD_SLEEPING \<and> r = sleep_ticks (tcbs s x))"
    using Cons.IH [OF _ tl, of a] by blast
  have ax: "tcb_state (tcbs s x) = MP_THREAD_SLEEPING \<longrightarrow> a \<le> sleep_ticks (tcbs s x)"
    by (auto simp: a_def)
  show ?case
  proof (rule Cons.prems(1) [of r])
    show "calc_sleep_loop s cu acc = Some r"
      using r(1) cu by (simp add: calc_sleep_loop.simps [of s "Some x"] a_def)
    show "r \<le> acc" using r(2) le by simp
    show "\<forall>y \<in> set (x # xs). tcb_state (tcbs s y) = MP_THREAD_SLEEPING \<longrightarrow> r \<le> sleep_ticks (tcbs s y)"
      using r(2,3) ax by auto
    show "r = acc \<or> (\<exists>y \<in> set (x # xs). tcb_state (tcbs s y) = MP_THREAD_SLEEPING \<and> r = sleep_ticks (tcbs s y))"
      using r(4) by (auto simp: a_def split: if_splits)
  qed
qed

section \<open>The stack high-water-mark scan\<close>

lemma hwm_scan_result:
  assumes "unused \<le> sz"
  shows "unused \<le> hwm_scan mem base sz unused" (is "?A")
    and "hwm_scan mem base sz unused \<le> sz" (is "?B")
    and "\<forall>i. unused \<le> i \<and> i < hwm_scan mem base sz unused \<longrightarrow> mem (base + i) = 0xAA" (is "?C")
    and "hwm_scan mem base sz unused < sz \<longrightarrow> mem (base + hwm_scan mem base sz unused) \<noteq> 0xAA" (is "?D")
proof -
  have "?A \<and> ?B \<and> ?C \<and> ?D"
    using assms
  proof (induction mem base sz unused rule: hwm_scan.induct)
    case (1 mem base sz unused)
    show ?case
    proof (cases "unused < sz \<and> mem (base + unused) = 0xAA")
      case True
      then have lt: "unused < sz" by simp
      have "unused + 1 \<le> sz" using unat_Suc_less [OF lt] lt by (simp add: word_le_nat_alt word_less_nat_alt)
      moreover have "unused < unused + 1" using unat_Suc_less [OF lt] by (simp add: word_less_nat_alt)
      moreover have "unused < i \<longrightarrow> unused + 1 \<le> i" for i
        using unat_Suc_less [OF lt] by (simp add: word_less_nat_alt word_le_nat_alt)
      ultimately show ?thesis
        using "1.IH" True by (subst (1 2 3 4 5) hwm_scan.simps) (auto simp: le_less)
    next
      case False
      then show ?thesis using "1.prems" by (subst (1 2 3 4 5) hwm_scan.simps) auto
    qed
  qed
  then show ?A ?B ?C ?D by blast+
qed

section \<open>Properties\<close>

text \<open>
  A small system for the witnesses: after \<open>mp_sched_init\<close>, thread 0 sleeps for 3 ticks and thread
  1 is ready at priority 5.
\<close>

definition demo_sched :: sched where
  "demo_sched =
     upd_tcb (Tcb_pool 1) (\<lambda>t. t\<lparr>priority := 5, tcb_state := MP_THREAD_READY\<rparr>)
    (upd_tcb (Tcb_pool 0) (\<lambda>t. t\<lparr>priority := 7, tcb_state := MP_THREAD_SLEEPING, sleep_ticks := 3\<rparr>)
    (mp_sched_add_thread (Tcb_pool 1) (mp_sched_add_thread (Tcb_pool 0)
    (mp_sched_init 0x20000000 (boot_state (\<lambda>_. 0xAA))))))"

lemma demo_sched_ready: "ready_threads demo_sched [Tcb_pool 1, Tcb_pool 0, Idle_tcb]"
  by (simp add: ready_threads_def demo_sched_def mp_sched_add_thread_def set_ready_def set_next_def
      next_of_def mp_sched_init_def boot_state_def upd_tcb_def zero_tcb_def)

lemma demo_sched_tcbs:
  "tcb_state (tcbs demo_sched (Tcb_pool 1)) = MP_THREAD_READY"
  "tcb_state (tcbs demo_sched (Tcb_pool 0)) = MP_THREAD_SLEEPING"
  "sleep_ticks (tcbs demo_sched (Tcb_pool 0)) = 3"
  "stack_base (tcbs demo_sched Idle_tcb) = 0x20000000"
  by (simp_all add: demo_sched_def mp_sched_add_thread_def set_ready_def set_next_def
      next_of_def mp_sched_init_def boot_state_def upd_tcb_def zero_tcb_def)

text \<open>
  C1. \<open>mp_sched_reschedule\<close> always returns on a well-formed ready list and selects the runnable
  thread of highest priority, the earliest-added one among equals; if no thread is runnable it
  selects none.  The selection is published in \<open>next_thread\<close> exactly when it differs from the
  running thread; nothing else changes.
\<close>

theorem sched_reschedule_picks_highest:
  assumes "ready_threads s xs"
  shows "\<exists>b. mp_sched_reschedule s = Some (if b \<noteq> current_thread s then s\<lparr>next_thread := b\<rparr> else s) \<and>
    (case b of None \<Rightarrow> \<forall>x \<in> set xs. \<not> runnable (tcbs s x)
     | Some t \<Rightarrow> runnable (tcbs s t) \<and> (\<exists>ys zs. xs = ys @ t # zs \<and>
         (\<forall>y \<in> set ys. runnable (tcbs s y) \<longrightarrow> priority (tcbs s y) \<le> priority (tcbs s t)) \<and>
         (\<forall>z \<in> set zs. runnable (tcbs s z) \<longrightarrow> priority (tcbs s z) < priority (tcbs s t))))"
  by (rule reschedule_result [OF assms]) (auto simp: highest_def split: option.splits)

theorem sched_reschedule_picks_highest_witness:
  "\<exists>b. mp_sched_reschedule demo_sched =
    Some (if b \<noteq> current_thread demo_sched then demo_sched\<lparr>next_thread := b\<rparr> else demo_sched)"
  using sched_reschedule_picks_highest [OF demo_sched_ready] by blast

text \<open>
  C2. A thread put to sleep for \<open>k\<close> ticks stays asleep, its counter decreasing by one per tick,
  for the first \<open>k - 1\<close> clock ticks and becomes ready at tick \<open>max 1 k\<close>, never earlier and never
  later; every tick returns.
\<close>

theorem sched_sleep_wakes_on_time:
  assumes "ready_threads s xs" and "t \<in> set xs" and "tcb_state (tcbs s t) = MP_THREAD_SLEEPING"
  shows "(\<forall>n < max 1 (unat (sleep_ticks (tcbs s t))). \<exists>s'. sched_ticks n s = Some s' \<and>
      tcb_state (tcbs s' t) = MP_THREAD_SLEEPING \<and>
      unat (sleep_ticks (tcbs s' t)) = unat (sleep_ticks (tcbs s t)) - n) \<and>
    (\<exists>s'. sched_ticks (max 1 (unat (sleep_ticks (tcbs s t)))) s = Some s' \<and>
      tcb_state (tcbs s' t) = MP_THREAD_READY)"
  using ticks_sleeping [OF assms(1)] ticks_wake [OF assms] assms(2,3) by blast

theorem sched_sleep_wakes_on_time_witness:
  "\<exists>s'. sched_ticks 3 demo_sched = Some s' \<and> tcb_state (tcbs s' (Tcb_pool 0)) = MP_THREAD_READY"
  using sched_sleep_wakes_on_time [OF demo_sched_ready, of "Tcb_pool 0"]
  by (simp add: demo_sched_tcbs)

text \<open>
  C8. The tickless-idle computation is safe and tight.  \<open>mp_sched_calculate_sleep\<close> returns the least remaining sleep of the
  sleeping threads, and 0 exactly when no thread sleeps for less than the greatest number of ticks or one has no ticks
  left; during fewer ticks than it returns no sleeping thread wakes up, and at the number it returns one does.
\<close>

theorem sched_calculate_sleep_safe:
  assumes "ready_threads s xs"
  shows "\<exists>n. mp_sched_calculate_sleep s = Some n \<and>
    (if \<forall>t \<in> set xs. tcb_state (tcbs s t) = MP_THREAD_SLEEPING \<longrightarrow> sleep_ticks (tcbs s t) = 0xFFFFFFFF then n = 0
     else (\<exists>t \<in> set xs. tcb_state (tcbs s t) = MP_THREAD_SLEEPING \<and> sleep_ticks (tcbs s t) = n)) \<and>
    (\<forall>t \<in> set xs. tcb_state (tcbs s t) = MP_THREAD_SLEEPING \<longrightarrow> n \<le> sleep_ticks (tcbs s t)) \<and>
    (\<forall>j < unat n. \<exists>s'. sched_ticks j s = Some s' \<and>
      (\<forall>t \<in> set xs. tcb_state (tcbs s t) = MP_THREAD_SLEEPING \<longrightarrow>
        tcb_state (tcbs s' t) = MP_THREAD_SLEEPING)) \<and>
    (0 < n \<longrightarrow> (\<exists>s'. sched_ticks (unat n) s = Some s' \<and>
      (\<exists>t \<in> set xs. tcb_state (tcbs s t) = MP_THREAD_SLEEPING \<and> tcb_state (tcbs s' t) = MP_THREAD_READY)))"
proof -
  have l: "linked (next_of s) (ready_list s) xs" using assms by (simp add: ready_threads_def)
  obtain r where r: "calc_sleep_loop s (ready_list s) 0xFFFFFFFF = Some r"
    and min: "\<forall>x \<in> set xs. tcb_state (tcbs s x) = MP_THREAD_SLEEPING \<longrightarrow> r \<le> sleep_ticks (tcbs s x)"
    and wit: "r = 0xFFFFFFFF \<or>
      (\<exists>x \<in> set xs. tcb_state (tcbs s x) = MP_THREAD_SLEEPING \<and> r = sleep_ticks (tcbs s x))"
    using calc_sleep_loop_result [OF l, of "0xFFFFFFFF"] by blast
  let ?n = "if r = 0xFFFFFFFF then 0 else r"
  have n: "mp_sched_calculate_sleep s = Some ?n" using r by (simp add: mp_sched_calculate_sleep_def)
  have least: "\<forall>t \<in> set xs. tcb_state (tcbs s t) = MP_THREAD_SLEEPING \<longrightarrow> ?n \<le> sleep_ticks (tcbs s t)"
    using min by auto
  have top: "(0xFFFFFFFF :: u32) = -1" by simp
  have all: "(\<forall>t \<in> set xs. tcb_state (tcbs s t) = MP_THREAD_SLEEPING \<longrightarrow> sleep_ticks (tcbs s t) = 0xFFFFFFFF) \<longleftrightarrow> r = 0xFFFFFFFF"
    using min wit word_order.extremum_unique unfolding top by metis
  have "\<exists>s'. sched_ticks j s = Some s' \<and> (\<forall>t \<in> set xs. tcb_state (tcbs s t) = MP_THREAD_SLEEPING \<longrightarrow>
        tcb_state (tcbs s' t) = MP_THREAD_SLEEPING)" if j: "j < unat ?n" for j
  proof -
    have "j < max 1 (unat (sleep_ticks (tcbs s t)))"
      if "t \<in> set xs" "tcb_state (tcbs s t) = MP_THREAD_SLEEPING" for t
      using least that j by (fastforce simp: word_le_nat_alt)
    then show ?thesis using ticks_sleeping [OF assms, of j] by blast
  qed
  moreover have "\<exists>s'. sched_ticks (unat ?n) s = Some s' \<and>
      (\<exists>t \<in> set xs. tcb_state (tcbs s t) = MP_THREAD_SLEEPING \<and> tcb_state (tcbs s' t) = MP_THREAD_READY)" if p: "0 < ?n"
  proof -
    obtain t where t: "t \<in> set xs" "tcb_state (tcbs s t) = MP_THREAD_SLEEPING" "?n = sleep_ticks (tcbs s t)"
      using wit p by (auto split: if_splits)
    have "max 1 (unat (sleep_ticks (tcbs s t))) = unat ?n" using p t(3) by (simp add: word_less_nat_alt)
    then show ?thesis using ticks_wake [OF assms t(1,2)] t(1,2) by auto
  qed
  ultimately show ?thesis using n least wit all by (intro exI [of _ ?n]) auto
qed

theorem sched_calculate_sleep_safe_witness:
  "mp_sched_calculate_sleep demo_sched = Some 3 \<and>
   (\<exists>s'. sched_ticks 3 demo_sched = Some s' \<and> tcb_state (tcbs s' (Tcb_pool 0)) = MP_THREAD_READY)"
proof -
  have i: "tcb_state (tcbs demo_sched Idle_tcb) \<noteq> MP_THREAD_SLEEPING"
    by (simp add: demo_sched_def mp_sched_add_thread_def set_ready_def set_next_def next_of_def mp_sched_init_def boot_state_def
        upd_tcb_def zero_tcb_def)
  have p: "tcb_state (tcbs demo_sched (Tcb_pool (Suc 0))) \<noteq> MP_THREAD_SLEEPING" using demo_sched_tcbs(1) by simp
  show ?thesis using sched_calculate_sleep_safe [OF demo_sched_ready] i p by (auto simp: demo_sched_tcbs)
qed

text \<open>
  After a clock tick the high-water mark of every listed thread with a stack is its stack
  size minus the length of the unbroken run of fill bytes \<open>0xAA\<close> at the stack base: all bytes
  below the mark's complement are untouched and the next one (if inside the stack) is not.
\<close>

theorem sched_tick_stack_hwm:
  assumes "ready_threads s xs" and "t \<in> set xs" and "stack_base (tcbs s t) \<noteq> 0"
  shows "\<exists>s' u. mp_sched_tick s = Some s' \<and> u \<le> stack_size (tcbs s t) \<and>
    stack_hwm (tcbs s' t) = stack_size (tcbs s t) - u \<and>
    (\<forall>i < u. stack_mem s (stack_base (tcbs s t) + i) = 0xAA) \<and>
    (u < stack_size (tcbs s t) \<longrightarrow> stack_mem s (stack_base (tcbs s t) + u) \<noteq> 0xAA)"
proof -
  let ?t = "tcbs s t"
  let ?u = "hwm_scan (stack_mem s) (stack_base ?t) (stack_size ?t) 0"
  obtain s' where s': "mp_sched_tick s = Some s'"
    and upd: "\<forall>t \<in> set xs. tcbs s' t = tick_tcb (stack_mem s) (tcbs s t)"
    by (rule tick_thread [OF assms(1)]) blast
  have "stack_hwm (tcbs s' t) = stack_size ?t - ?u"
    using upd assms(2,3) by (simp add: tick_tcb_def tick_hwm_def tick_sleep_def Let_def)
  then show ?thesis
    using s' hwm_scan_result [of 0 "stack_size ?t" "stack_mem s" "stack_base ?t"]
    by (intro exI [of _ s'] exI [of _ ?u]) auto
qed

theorem sched_tick_stack_hwm_witness:
  "\<exists>s'. mp_sched_tick demo_sched = Some s' \<and>
    stack_hwm (tcbs s' Idle_tcb) \<le> stack_size (tcbs demo_sched Idle_tcb)"
proof -
  have "Idle_tcb \<in> set [Tcb_pool 1, Tcb_pool 0, Idle_tcb]" "stack_base (tcbs demo_sched Idle_tcb) \<noteq> 0"
    by (simp_all add: demo_sched_tcbs)
  from sched_tick_stack_hwm [OF demo_sched_ready this] show ?thesis
    by (auto intro: word_sub_le)
qed

text \<open>
  The ready list is a set of threads with add and remove: adding a thread that is not on
  the list puts it in front, removing a thread deletes exactly that thread and keeps the order
  of the others (and does nothing if it is not there); both return on every well-formed list.
\<close>

theorem sched_add_remove_thread:
  assumes "ready_threads s xs" and "t \<notin> set xs"
  shows "ready_threads (mp_sched_add_thread t s) (t # xs) \<and>
    (\<forall>u. \<exists>s'. mp_sched_remove_thread u (mp_sched_add_thread t s) = Some s' \<and>
      ready_threads s' (remove1 u (t # xs)))"
proof (intro conjI)
  show a: "ready_threads (mp_sched_add_thread t s) (t # xs)"
    using assms by (rule add_thread_ready)
  show "\<forall>u. \<exists>s'. mp_sched_remove_thread u (mp_sched_add_thread t s) = Some s' \<and>
      ready_threads s' (remove1 u (t # xs))"
  proof
    fix u
    obtain s' where "remove_loop u (ready_list (mp_sched_add_thread t s)) None (mp_sched_add_thread t s) = Some s'"
      "linked (next_of s') (ready_list s') (remove1 u (t # xs))"
      using ready.unlink_list [OF a [unfolded ready_threads_def], of u] by blast
    then show "\<exists>s'. mp_sched_remove_thread u (mp_sched_add_thread t s) = Some s' \<and>
      ready_threads s' (remove1 u (t # xs))"
      by (simp add: mp_sched_remove_thread_def ready_threads_def)
  qed
qed

theorem sched_add_remove_thread_witness:
  "\<exists>s'. mp_sched_remove_thread Idle_tcb (mp_sched_add_thread (Tcb_pool 2) demo_sched) = Some s' \<and>
    ready_threads s' [Tcb_pool 2, Tcb_pool 1, Tcb_pool 0]"
  using sched_add_remove_thread [OF demo_sched_ready, of "Tcb_pool 2"] by force

end
