(* ===== verification/Thread.thy ===== *)
theory Thread
  imports Scheduler
begin

text \<open>
  Thread creation, sleep, exit and join of \<open>src/kernel/thread.c\<close> over the scheduler state.  The
  address of the static array \<open>thread_stacks\<close> is an argument.  \<open>mp_thread_join\<close> polls; what the
  other threads and the tick interrupt do between two polls is an argument (\<open>env\<close>).
\<close>

section \<open>Operations\<close>

record mp_thread_attr =
  attr_stack_size :: u32
  attr_priority :: u8
  attr_name :: "string option"

definition MICROPOSIX_STACK_SIZE_DEFAULT :: u32 where
  "MICROPOSIX_STACK_SIZE_DEFAULT = 1024"

text \<open>The decimal rendering of \<open>%d\<close>.\<close>

fun dec_nat :: "nat \<Rightarrow> string" where
  "dec_nat n = (if n < 10 then [char_of (48 + n)] else dec_nat (n div 10) @ [char_of (48 + n mod 10)])"

declare dec_nat.simps [simp del]

definition dec_int :: "int \<Rightarrow> string" where
  "dec_int i = (if i < 0 then CHR ''-'' # dec_nat (nat (- i)) else dec_nat (nat i))"

definition thread_name :: "mp_thread_attr option \<Rightarrow> u32 \<Rightarrow> string" where
  "thread_name attr i =
     (case attr of
        Some a \<Rightarrow> (case attr_name a of Some n \<Rightarrow> take 15 n
                   | None \<Rightarrow> take 15 (''thread_'' @ dec_int (sint i)))
      | None \<Rightarrow> take 15 (''thread_'' @ dec_int (sint i)))"

definition find_free_tcb :: "sched \<Rightarrow> nat option" where
  "find_free_tcb s = find (\<lambda>i. \<not> tcb_used s ! i) [0..<MAX_THREADS]"

text \<open>The fields \<open>mp_thread_create\<close> fills in, for slot \<open>idx\<close> and id \<open>i\<close>.\<close>

definition init_tcb :: "uintptr \<Rightarrow> mp_thread_attr option \<Rightarrow> u32 \<Rightarrow> nat \<Rightarrow> mp_tcb \<Rightarrow> mp_tcb" where
  "init_tcb thread_stacks attr i idx t =
     t\<lparr>tcb_id := i,
       tcb_name := thread_name attr i,
       priority := (case attr of Some a \<Rightarrow> attr_priority a | None \<Rightarrow> 1),
       tcb_state := MP_THREAD_READY,
       stack_size := (case attr of Some a \<Rightarrow> attr_stack_size a | None \<Rightarrow> MICROPOSIX_STACK_SIZE_DEFAULT),
       stack_base := thread_stacks + of_nat idx * 4096,
       stack_ptr := thread_stacks + of_nat idx * 4096 + 4 * (1024 - 1)\<rparr>"

definition mp_thread_create ::
  "uintptr \<Rightarrow> mp_thread_attr option \<Rightarrow> sched \<Rightarrow> (u32 \<times> sched) option" where
  "mp_thread_create thread_stacks attr s =
     (case find_free_tcb s of
        None \<Rightarrow> Some (0, s)
      | Some idx \<Rightarrow>
          let i = next_thread_id s;
              s1 = s\<lparr>tcb_used := (tcb_used s)[idx := True], next_thread_id := i + 1\<rparr>;
              s2 = upd_tcb (Tcb_pool idx) (init_tcb thread_stacks attr i idx) s1
          in do { s3 \<leftarrow> mp_sched_reschedule (mp_sched_add_thread (Tcb_pool idx) s2);
                  Some (tcb_id (tcbs s3 (Tcb_pool idx)), s3) })"

definition mp_thread_yield :: "sched \<Rightarrow> sched option" where
  "mp_thread_yield s = mp_sched_reschedule s"

definition mp_thread_sleep :: "u32 \<Rightarrow> sched \<Rightarrow> sched option" where
  "mp_thread_sleep ticks s =
     (case mp_sched_get_current_thread s of
        None \<Rightarrow> Some s
      | Some c \<Rightarrow> mp_sched_reschedule
          (upd_tcb c (\<lambda>t. t\<lparr>tcb_state := MP_THREAD_SLEEPING, sleep_ticks := ticks\<rparr>) s))"

definition mp_thread_exit :: "sched \<Rightarrow> sched option" where
  "mp_thread_exit s =
     (case mp_sched_get_current_thread s of
        None \<Rightarrow> Some s
      | Some c \<Rightarrow> mp_sched_reschedule (upd_tcb c (\<lambda>t. t\<lparr>tcb_state := MP_THREAD_TERMINATED\<rparr>) s))"

definition find_thread :: "u32 \<Rightarrow> sched \<Rightarrow> nat option" where
  "find_thread tid s =
     find (\<lambda>i. tcb_used s ! i \<and> tcb_id (tcbs s (Tcb_pool i)) = tid) [0..<MAX_THREADS]"

partial_function (option) join_loop ::
  "(nat \<Rightarrow> sched \<Rightarrow> sched) \<Rightarrow> nat \<Rightarrow> tcb_ref \<Rightarrow> sched \<Rightarrow> (int \<times> sched) option" where
  "join_loop env k target s =
     (if tcb_state (tcbs s target) = MP_THREAD_TERMINATED then Some (0, s)
      else do { s' \<leftarrow> mp_thread_yield s; join_loop env (Suc k) target (env k s') })"

definition mp_thread_join ::
  "(nat \<Rightarrow> sched \<Rightarrow> sched) \<Rightarrow> u32 \<Rightarrow> sched \<Rightarrow> (int \<times> sched) option" where
  "mp_thread_join env tid s =
     (case find_thread tid s of
        None \<Rightarrow> Some (-1, s)
      | Some i \<Rightarrow> join_loop env 0 (Tcb_pool i) s)"

section \<open>The thread table\<close>

text \<open>
  After \<open>k\<close> creations: slots \<open>0..k-1\<close> are used and carry the ids \<open>1..k\<close>, the id counter is
  \<open>k + 1\<close>, and the ready list is the threads in reverse order of creation, then the idle thread.
\<close>

definition created :: "nat \<Rightarrow> tcb_ref list" where
  "created k = rev (map Tcb_pool [0..<k]) @ [Idle_tcb]"

definition thread_table :: "sched \<Rightarrow> nat \<Rightarrow> bool" where
  "thread_table s k \<longleftrightarrow> k \<le> MAX_THREADS \<and>
     tcb_used s = map (\<lambda>i. i < k) [0..<MAX_THREADS] \<and>
     next_thread_id s = of_nat (Suc k) \<and>
     ready_threads s (created k) \<and>
     (\<forall>i < k. tcb_id (tcbs s (Tcb_pool i)) = of_nat (Suc i))"

lemma created_Suc: "created (Suc k) = Tcb_pool k # created k"
  by (simp add: created_def)

lemma Tcb_pool_in_created [simp]: "Tcb_pool i \<in> set (created k) \<longleftrightarrow> i < k"
  by (auto simp: created_def)

lemma Idle_in_created [simp]: "Idle_tcb \<in> set (created k)"
  by (simp add: created_def)

lemma thread_table_ready: "thread_table s k \<Longrightarrow> ready_threads s (created k)"
  by (simp add: thread_table_def)

lemma find_free_tcb_table:
  assumes "thread_table s k"
  shows "find_free_tcb s = (if k < MAX_THREADS then Some k else None)"
proof (cases "k < MAX_THREADS")
  case True
  then have "find (\<lambda>i. \<not> tcb_used s ! i) [0..<MAX_THREADS] = Some k"
    using assms by (intro find_upt_prefix) (auto simp: thread_table_def)
  with True show ?thesis by (simp add: find_free_tcb_def)
next
  case False
  then show ?thesis
    using assms by (auto simp: find_free_tcb_def thread_table_def find_None_iff)
qed

text \<open>Updates of TCB fields other than \<open>next\<close> and \<open>id\<close>, and of the run pointers, keep the table.\<close>

lemma next_of_upd [simp]:
  "(\<And>t. tcb_next (f t) = tcb_next t) \<Longrightarrow> next_of (upd_tcb c f s) = next_of s"
  by (auto simp: next_of_def fun_eq_iff)

lemma ready_threads_upd:
  "(\<And>t. tcb_next (f t) = tcb_next t) \<Longrightarrow> ready_threads (upd_tcb c f s) xs = ready_threads s xs"
  by (simp add: ready_threads_def)

lemma thread_table_upd:
  "(\<And>t. tcb_next (f t) = tcb_next t) \<Longrightarrow> (\<And>t. tcb_id (f t) = tcb_id t) \<Longrightarrow>
   thread_table (upd_tcb c f s) k = thread_table s k"
  by (auto simp: thread_table_def ready_threads_upd)

lemma next_of_current [simp]: "next_of (s\<lparr>current_thread := x\<rparr>) = next_of s"
  by (simp add: next_of_def fun_eq_iff)

lemma thread_table_run [simp]:
  "thread_table (s\<lparr>next_thread := x\<rparr>) k = thread_table s k"
  "thread_table (s\<lparr>current_thread := x\<rparr>) k = thread_table s k"
  by (simp_all add: thread_table_def ready_threads_def)

lemma reschedule_table:
  assumes "thread_table s k"
  obtains b where "mp_sched_reschedule s = Some (if b \<noteq> current_thread s then s\<lparr>next_thread := b\<rparr> else s)"
    and "case b of None \<Rightarrow> True | Some t \<Rightarrow> runnable (tcbs s t)"
  by (rule reschedule_result [OF thread_table_ready [OF assms]])
    (auto simp: highest_def split: option.splits)

lemma tick_tcb_id [simp]: "tcb_id (tick_tcb m t) = tcb_id t"
  by (simp add: tick_tcb_def tick_hwm_def tick_sleep_def Let_def)

lemma tick_table:
  assumes "thread_table s k"
  obtains b where
    "mp_sched_tick s = Some ((tick_all (created k) (s\<lparr>monotonic_ms := monotonic_ms s + 1\<rparr>))\<lparr>next_thread := b\<rparr>)"
    and "thread_table ((tick_all (created k) (s\<lparr>monotonic_ms := monotonic_ms s + 1\<rparr>))\<lparr>next_thread := b\<rparr>) k"
proof (rule tick_result [OF thread_table_ready [OF assms]])
  fix b
  let ?s = "tick_all (created k) (s\<lparr>monotonic_ms := monotonic_ms s + 1\<rparr>)"
  assume t: "mp_sched_tick s = Some (?s\<lparr>next_thread := b\<rparr>)"
  have "ready_threads ?s (created k)"
    by (rule ready_threads_tick_all [OF thread_table_ready [OF assms]])
  then have "thread_table ?s k"
    using assms by (simp add: thread_table_def tick_all_def)
  then show thesis by (intro that [OF t]) simp
qed

lemma tick_next_runnable:
  assumes "mp_sched_tick s = Some s'" and "thread_table s k"
  shows "next_thread s' = next_thread s \<or>
    (case next_thread s' of None \<Rightarrow> True | Some t \<Rightarrow> runnable (tcbs s' t))"
proof -
  let ?s1 = "s\<lparr>monotonic_ms := monotonic_ms s + 1\<rparr>"
  have l: "linked (next_of ?s1) (ready_list ?s1) (created k)"
    using thread_table_ready [OF assms(2)] by (simp add: ready_threads_def)
  have t: "mp_sched_reschedule (tick_all (created k) ?s1) = Some s'"
    using assms(1) tick_loop_all [OF l] by (simp add: mp_sched_tick_def)
  have rt: "ready_threads (tick_all (created k) ?s1) (created k)"
    by (rule ready_threads_tick_all [OF thread_table_ready [OF assms(2)]])
  obtain b where b: "mp_sched_reschedule (tick_all (created k) ?s1) =
      Some (if b \<noteq> current_thread (tick_all (created k) ?s1)
            then (tick_all (created k) ?s1)\<lparr>next_thread := b\<rparr> else tick_all (created k) ?s1)"
    and r: "case b of None \<Rightarrow> \<forall>x \<in> set (created k). \<not> runnable (tcbs (tick_all (created k) ?s1) x)
      | Some t \<Rightarrow> highest (tick_all (created k) ?s1) (created k) t"
    by (rule reschedule_result [OF rt])
  have "next_thread (tick_all (created k) ?s1) = next_thread s" by (simp add: tick_all_def)
  then show ?thesis using t b r by (auto simp: highest_def split: option.splits if_splits)
qed

lemma thread_create_table:
  assumes tt: "thread_table s k" and k: "k < MAX_THREADS"
  obtains b s2 where "mp_thread_create st attr s =
      Some (of_nat (Suc k), if b \<noteq> current_thread s then s2\<lparr>next_thread := b\<rparr> else s2)"
    and "thread_table s2 (Suc k)"
    and "tcb_state (tcbs s2 (Tcb_pool k)) = MP_THREAD_READY"
    and "stack_base (tcbs s2 (Tcb_pool k)) = st + of_nat k * 4096"
    and "priority (tcbs s2 (Tcb_pool k)) = (case attr of Some a \<Rightarrow> attr_priority a | None \<Rightarrow> 1)"
    and "\<forall>t. t \<noteq> Tcb_pool k \<longrightarrow> tcbs s2 t = tcbs s t"
    and "current_thread s2 = current_thread s" and "next_thread s2 = next_thread s"
    and "case b of None \<Rightarrow> True | Some t \<Rightarrow> runnable (tcbs s2 t)"
proof -
  define f :: "mp_tcb \<Rightarrow> mp_tcb" where "f = init_tcb st attr (next_thread_id s) k"
  define s1 where "s1 = s\<lparr>tcb_used := (tcb_used s)[k := True], next_thread_id := next_thread_id s + 1\<rparr>"
  define s2 where "s2 = mp_sched_add_thread (Tcb_pool k) (upd_tcb (Tcb_pool k) f s1)"
  have "next_of s1 = next_of s" by (simp add: s1_def next_of_def fun_eq_iff)
  then have "ready_threads s1 (created k)"
    using thread_table_ready [OF tt] by (simp add: s1_def ready_threads_def)
  then have "ready_threads (upd_tcb (Tcb_pool k) f s1) (created k)"
    by (subst ready_threads_upd) (simp_all add: f_def init_tcb_def)
  then have rt: "ready_threads s2 (created (Suc k))"
    unfolding s2_def created_Suc by (rule add_thread_ready) simp
  have used: "(tcb_used s)[k := True] = map (\<lambda>i. i < Suc k) [0..<MAX_THREADS]"
    using tt k by (auto simp: thread_table_def list_eq_iff_nth_eq nth_list_update less_Suc_eq)
  have sel: "tcbs s2 (Tcb_pool k) = (f (tcbs s (Tcb_pool k)))\<lparr>tcb_next := ready_list s\<rparr>"
    "\<forall>t. t \<noteq> Tcb_pool k \<longrightarrow> tcbs s2 t = tcbs s t"
    "current_thread s2 = current_thread s" "next_thread s2 = next_thread s"
    "tcb_used s2 = (tcb_used s)[k := True]" "next_thread_id s2 = next_thread_id s + 1"
    by (simp_all add: s2_def s1_def mp_sched_add_thread_def set_ready_def set_next_def)
  have tt2: "thread_table s2 (Suc k)"
    unfolding thread_table_def
  proof (intro conjI allI impI)
    fix i assume "i < Suc k"
    then show "tcb_id (tcbs s2 (Tcb_pool i)) = of_nat (Suc i)"
      using tt sel by (cases "i = k") (auto simp: thread_table_def f_def init_tcb_def)
  qed (use tt k rt sel used in \<open>simp_all add: thread_table_def\<close>)
  obtain b where b: "mp_sched_reschedule s2 = Some (if b \<noteq> current_thread s2 then s2\<lparr>next_thread := b\<rparr> else s2)"
    and r: "case b of None \<Rightarrow> True | Some t \<Rightarrow> runnable (tcbs s2 t)"
    by (rule reschedule_table [OF tt2])
  have id: "tcb_id (tcbs s2 (Tcb_pool k)) = of_nat (Suc k)"
    using tt2 unfolding thread_table_def by blast
  have "mp_thread_create st attr s =
      Some (of_nat (Suc k), if b \<noteq> current_thread s then s2\<lparr>next_thread := b\<rparr> else s2)"
    using find_free_tcb_table [OF tt] k b id sel(3)
    by (simp add: mp_thread_create_def Let_def f_def [symmetric] s1_def [symmetric] s2_def [symmetric])
  then show ?thesis
    by (rule that) (use tt2 sel r in \<open>simp_all add: f_def init_tcb_def\<close>)
qed

lemma thread_exit_table:
  assumes "thread_table s k" and "mp_thread_exit s = Some s'"
  shows "thread_table s' k"
proof (cases "current_thread s")
  case None
  then show ?thesis using assms by (simp add: mp_thread_exit_def mp_sched_get_current_thread_def)
next
  case (Some c)
  let ?s = "upd_tcb c (\<lambda>t. t\<lparr>tcb_state := MP_THREAD_TERMINATED\<rparr>) s"
  have tt: "thread_table ?s k" using assms(1) by (simp add: thread_table_upd)
  moreover obtain b where "s' = ?s\<lparr>next_thread := b\<rparr>"
    using assms(2) Some reschedule_frame [of ?s s']
    by (auto simp: mp_thread_exit_def mp_sched_get_current_thread_def)
  ultimately show ?thesis by simp
qed

lemma thread_sleep_table:
  assumes "thread_table s k" and "mp_thread_sleep n s = Some s'"
  shows "thread_table s' k"
proof (cases "current_thread s")
  case None
  then show ?thesis using assms by (simp add: mp_thread_sleep_def mp_sched_get_current_thread_def)
next
  case (Some c)
  let ?s = "upd_tcb c (\<lambda>t. t\<lparr>tcb_state := MP_THREAD_SLEEPING, sleep_ticks := n\<rparr>) s"
  have tt: "thread_table ?s k" using assms(1) by (simp add: thread_table_upd)
  moreover obtain b where "s' = ?s\<lparr>next_thread := b\<rparr>"
    using assms(2) Some reschedule_frame [of ?s s']
    by (auto simp: mp_thread_sleep_def mp_sched_get_current_thread_def)
  ultimately show ?thesis by simp
qed

lemma thread_table_boot: "thread_table (mp_sched_init st (boot_state mem)) 0"
proof -
  have "tcb_next (tcbs (boot_state mem) Idle_tcb) = None" by (simp add: boot_state_def zero_tcb_def)
  then have "ready_threads (mp_sched_init st (boot_state mem)) (created 0)"
    using ready_threads_init by (simp add: created_def)
  then show ?thesis
    by (simp add: thread_table_def mp_sched_init_def boot_state_def upd_tcb_def map_replicate_const)
qed

section \<open>Join as polling\<close>

primrec polls :: "(nat \<Rightarrow> sched \<Rightarrow> sched) \<Rightarrow> nat \<Rightarrow> sched \<Rightarrow> sched option" where
  "polls env 0 s = Some s"
| "polls env (Suc n) s = do { s1 \<leftarrow> polls env n s; s2 \<leftarrow> mp_thread_yield s1; Some (env n s2) }"

text \<open>The same polls unrolled from the front, with the poll counter started at \<open>k\<close>.\<close>

primrec polls_from :: "(nat \<Rightarrow> sched \<Rightarrow> sched) \<Rightarrow> nat \<Rightarrow> nat \<Rightarrow> sched \<Rightarrow> sched option" where
  "polls_from env k 0 s = Some s"
| "polls_from env k (Suc n) s = do { s1 \<leftarrow> mp_thread_yield s; polls_from env (Suc k) n (env k s1) }"

lemma polls_from_Suc:
  "polls_from env k (Suc n) s =
    do { s1 \<leftarrow> polls_from env k n s; s2 \<leftarrow> mp_thread_yield s1; Some (env (k + n) s2) }"
proof (induction n arbitrary: k s)
  case 0
  then show ?case by simp
next
  case (Suc n)
  have "polls_from env k (Suc (Suc n)) s =
      do { s1 \<leftarrow> mp_thread_yield s; polls_from env (Suc k) (Suc n) (env k s1) }"
    by simp
  also have "\<dots> = do { s1 \<leftarrow> mp_thread_yield s; s2 \<leftarrow> polls_from env (Suc k) n (env k s1);
      s3 \<leftarrow> mp_thread_yield s2; Some (env (k + Suc n) s3) }"
    by (subst Suc.IH) simp
  finally show ?case by (simp add: bind_assoc)
qed

lemma polls_eq_from: "polls env n s = polls_from env 0 n s"
proof (induction n)
  case (Suc n)
  then show ?case by (simp only: polls.simps polls_from_Suc) simp
qed simp

definition terminated :: "tcb_ref \<Rightarrow> sched \<Rightarrow> bool" where
  "terminated t s \<longleftrightarrow> tcb_state (tcbs s t) = MP_THREAD_TERMINATED"

lemma join_loop_returns:
  "polls_from env k n s = Some s' \<Longrightarrow> terminated t s' \<Longrightarrow>
   (\<forall>m < n. \<forall>sm. polls_from env k m s = Some sm \<longrightarrow> \<not> terminated t sm) \<Longrightarrow>
   join_loop env k t s = Some (0, s')"
proof (induction n arbitrary: k s)
  case 0
  then show ?case by (simp add: join_loop.simps terminated_def)
next
  case (Suc n)
  from Suc.prems(1) obtain s1 where y: "mp_thread_yield s = Some s1"
    and p: "polls_from env (Suc k) n (env k s1) = Some s'"
    by (auto split: bind_splits)
  have "\<not> terminated t s" using Suc.prems(3) by fastforce
  moreover have "\<forall>m < n. \<forall>sm. polls_from env (Suc k) m (env k s1) = Some sm \<longrightarrow> \<not> terminated t sm"
  proof (intro allI impI)
    fix m sm assume "m < n" "polls_from env (Suc k) m (env k s1) = Some sm"
    then show "\<not> terminated t sm" using Suc.prems(3) [rule_format, of "Suc m" sm] y by simp
  qed
  ultimately show ?case
    using Suc.IH [OF p Suc.prems(2)] y by (simp add: join_loop.simps [of env k] terminated_def)
qed

lemma join_loop_sound_aux:
  assumes "join_loop env k t s = Some q"
  shows "fst q = 0 \<and> (\<exists>n. polls_from env k n s = Some (snd q) \<and> terminated t (snd q) \<and>
    (\<forall>m < n. \<forall>sm. polls_from env k m s = Some sm \<longrightarrow> \<not> terminated t sm))"
proof (rule join_loop.raw_induct [where P = "\<lambda>env k t s q. fst q = 0 \<and>
    (\<exists>n. polls_from env k n s = Some (snd q) \<and> terminated t (snd q) \<and>
      (\<forall>m < n. \<forall>sm. polls_from env k m s = Some sm \<longrightarrow> \<not> terminated t sm))", OF _ assms])
  fix jl env k t s q
  assume IH: "\<And>env k t s q. jl env k t s = Some q \<Longrightarrow> fst q = 0 \<and>
    (\<exists>n. polls_from env k n s = Some (snd q) \<and> terminated t (snd q) \<and>
      (\<forall>m < n. \<forall>sm. polls_from env k m s = Some sm \<longrightarrow> \<not> terminated t sm))"
    and eq: "(if tcb_state (tcbs s t) = MP_THREAD_TERMINATED then Some (0, s)
      else do { s' \<leftarrow> mp_thread_yield s; jl env (Suc k) t (env k s') }) = Some q"
  show "fst q = 0 \<and> (\<exists>n. polls_from env k n s = Some (snd q) \<and> terminated t (snd q) \<and>
      (\<forall>m < n. \<forall>sm. polls_from env k m s = Some sm \<longrightarrow> \<not> terminated t sm))"
  proof (cases "terminated t s")
    case True
    then show ?thesis using eq by (auto simp: terminated_def intro: exI [of _ 0])
  next
    case False
    then obtain s1 where y: "mp_thread_yield s = Some s1" and j: "jl env (Suc k) t (env k s1) = Some q"
      using eq by (auto simp: terminated_def split: bind_splits)
    from IH [OF j] obtain n where r: "fst q = 0" and n: "polls_from env (Suc k) n (env k s1) = Some (snd q)"
      "terminated t (snd q)"
      "\<forall>m < n. \<forall>sm. polls_from env (Suc k) m (env k s1) = Some sm \<longrightarrow> \<not> terminated t sm"
      by blast
    have "\<not> terminated t sm" if "m < Suc n" "polls_from env k m s = Some sm" for m sm
      using that False n(3) y by (cases m) auto
    then show ?thesis using r n y by (auto intro!: exI [of _ "Suc n"])
  qed
qed

lemma join_loop_sound:
  assumes "join_loop env k t s = Some (r, s')"
  shows "r = 0 \<and> (\<exists>n. polls_from env k n s = Some s' \<and> terminated t s' \<and>
    (\<forall>m < n. \<forall>sm. polls_from env k m s = Some sm \<longrightarrow> \<not> terminated t sm))"
  using join_loop_sound_aux [OF assms] by simp

section \<open>Properties\<close>

text \<open>
  The \<open>k+1\<close>-st thread creation takes slot \<open>k\<close>, returns the fresh id \<open>k+1\<close>, makes the thread
  READY with the requested priority and its own stack, puts it at the head of the ready list,
  touches no other TCB and keeps the table invariant; with all \<open>MAX_THREADS\<close> slots taken it
  returns 0 and changes nothing.
\<close>

theorem thread_create_correct:
  assumes "thread_table s k"
  shows "(k < MAX_THREADS \<longrightarrow> (\<exists>s'. mp_thread_create st attr s = Some (of_nat (Suc k), s') \<and>
      thread_table s' (Suc k) \<and>
      tcb_state (tcbs s' (Tcb_pool k)) = MP_THREAD_READY \<and>
      priority (tcbs s' (Tcb_pool k)) = (case attr of Some a \<Rightarrow> attr_priority a | None \<Rightarrow> 1) \<and>
      stack_base (tcbs s' (Tcb_pool k)) = st + of_nat k * 4096 \<and>
      (\<forall>t. t \<noteq> Tcb_pool k \<longrightarrow> tcbs s' t = tcbs s t))) \<and>
    (k = MAX_THREADS \<longrightarrow> mp_thread_create st attr s = Some (0, s))"
proof (intro conjI impI)
  assume k: "k < MAX_THREADS"
  obtain b s2 where s2: "mp_thread_create st attr s =
      Some (of_nat (Suc k), if b \<noteq> current_thread s then s2\<lparr>next_thread := b\<rparr> else s2)"
    "thread_table s2 (Suc k)" "tcb_state (tcbs s2 (Tcb_pool k)) = MP_THREAD_READY"
    "stack_base (tcbs s2 (Tcb_pool k)) = st + of_nat k * 4096"
    "priority (tcbs s2 (Tcb_pool k)) = (case attr of Some a \<Rightarrow> attr_priority a | None \<Rightarrow> 1)"
    "\<forall>t. t \<noteq> Tcb_pool k \<longrightarrow> tcbs s2 t = tcbs s t"
    by (rule thread_create_table [OF assms k])
  then show "\<exists>s'. mp_thread_create st attr s = Some (of_nat (Suc k), s') \<and>
      thread_table s' (Suc k) \<and> tcb_state (tcbs s' (Tcb_pool k)) = MP_THREAD_READY \<and>
      priority (tcbs s' (Tcb_pool k)) = (case attr of Some a \<Rightarrow> attr_priority a | None \<Rightarrow> 1) \<and>
      stack_base (tcbs s' (Tcb_pool k)) = st + of_nat k * 4096 \<and>
      (\<forall>t. t \<noteq> Tcb_pool k \<longrightarrow> tcbs s' t = tcbs s t)"
    by (intro exI [of _ "if b \<noteq> current_thread s then s2\<lparr>next_thread := b\<rparr> else s2"]) auto
next
  assume "k = MAX_THREADS"
  then show "mp_thread_create st attr s = Some (0, s)"
    using find_free_tcb_table [OF assms] by (simp add: mp_thread_create_def)
qed

theorem thread_create_correct_witness:
  "\<exists>s'. mp_thread_create 0x20001000 None (mp_sched_init 0x20000000 (boot_state (\<lambda>_. 0xAA)))
     = Some (1, s') \<and> thread_table s' 1"
  using thread_create_correct [OF thread_table_boot, of "0x20001000" None "0x20000000" "\<lambda>_. 0xAA"]
  by (auto simp: MAX_THREADS_def)

text \<open>Any sequence of exits and sleeps of the running thread.\<close>

fun exits_and_sleeps :: "u32 option list \<Rightarrow> sched \<Rightarrow> sched option" where
  "exits_and_sleeps [] s = Some s"
| "exits_and_sleeps (None # es) s = do { s' \<leftarrow> mp_thread_exit s; exits_and_sleeps es s' }"
| "exits_and_sleeps (Some n # es) s = do { s' \<leftarrow> mp_thread_sleep n s; exits_and_sleeps es s' }"

lemma exits_and_sleeps_table:
  "exits_and_sleeps es s = Some s' \<Longrightarrow> thread_table s k \<Longrightarrow> thread_table s' k"
  by (induction es s rule: exits_and_sleeps.induct)
    (auto split: bind_splits dest: thread_exit_table thread_sleep_table)

text \<open>
  A slot is never given back: after \<open>MAX_THREADS\<close> creations, exiting a thread (any number of
  times, interleaved with sleeps) leaves every later creation failing with id 0.
\<close>

theorem thread_slots_never_reclaimed:
  assumes "thread_table s MAX_THREADS" and "exits_and_sleeps es s = Some s'"
  shows "mp_thread_create st attr s' = Some (0, s')"
  using find_free_tcb_table [OF exits_and_sleeps_table [OF assms(2,1)]]
  by (simp add: mp_thread_create_def)

fun creations :: "nat \<Rightarrow> sched \<Rightarrow> sched option" where
  "creations 0 s = Some s"
| "creations (Suc n) s = do { (_, s') \<leftarrow> mp_thread_create 0x20001000 None s; creations n s' }"

lemma creations_table:
  "thread_table s k \<Longrightarrow> k + n \<le> MAX_THREADS \<Longrightarrow> \<exists>s'. creations n s = Some s' \<and> thread_table s' (k + n)"
proof (induction n arbitrary: s k)
  case (Suc n)
  obtain b s2 where "mp_thread_create 0x20001000 None s =
      Some (of_nat (Suc k), if b \<noteq> current_thread s then s2\<lparr>next_thread := b\<rparr> else s2)"
    "thread_table s2 (Suc k)"
    using thread_create_table [OF Suc.prems(1)] Suc.prems(2) by (metis add_lessD1 add_Suc_right less_eq_Suc_le)
  then show ?case
    using Suc.IH [of "if b \<noteq> current_thread s then s2\<lparr>next_thread := b\<rparr> else s2" "Suc k"] Suc.prems(2)
    by auto
qed simp

theorem thread_slots_never_reclaimed_witness:
  "\<exists>s s'. creations 32 (mp_sched_init 0x20000000 (boot_state (\<lambda>_. 0xAA))) = Some s \<and>
     mp_thread_exit s = Some s' \<and> mp_thread_create 0x20001000 None s' = Some (0, s')"
proof -
  obtain s where s: "creations 32 (mp_sched_init 0x20000000 (boot_state (\<lambda>_. 0xAA))) = Some s"
    "thread_table s MAX_THREADS"
    using creations_table [OF thread_table_boot, of 32] by (auto simp: MAX_THREADS_def)
  have "\<exists>s'. mp_thread_exit s = Some s'"
  proof (cases "current_thread s")
    case (Some c)
    have "thread_table (upd_tcb c (\<lambda>t. t\<lparr>tcb_state := MP_THREAD_TERMINATED\<rparr>) s) MAX_THREADS"
      using s(2) by (simp add: thread_table_upd)
    from reschedule_table [OF this] Some show ?thesis
      by (metis mp_thread_exit_def mp_sched_get_current_thread_def option.simps(5))
  qed (simp add: mp_thread_exit_def mp_sched_get_current_thread_def)
  then obtain s' where "mp_thread_exit s = Some s'" by blast
  then show ?thesis
    using s thread_slots_never_reclaimed [OF s(2), of "[None]" s' "0x20001000" None] by auto
qed

text \<open>The ids of the thread table: a thread is found in the slot it was created in, and nothing else is found.\<close>

lemma find_thread_table:
  assumes "thread_table s k"
  shows "find_thread tid s = (if 0 < unat tid \<and> unat tid \<le> k then Some (unat tid - 1) else None)"
proof -
  have k: "k \<le> MAX_THREADS" and used: "\<And>i. i < MAX_THREADS \<Longrightarrow> tcb_used s ! i \<longleftrightarrow> i < k"
    and id: "\<And>i. i < k \<Longrightarrow> tcb_id (tcbs s (Tcb_pool i)) = of_nat (Suc i)"
    using assms by (auto simp: thread_table_def)
  have u: "unat (of_nat (Suc i) :: u32) = Suc i" if "i < k" for i
  proof -
    have "Suc i < 2 ^ 32" using that k by (simp add: MAX_THREADS_def)
    then show ?thesis by (simp only: unsigned_of_nat take_bit_eq_mod) simp
  qed
  have iff: "tcb_used s ! i \<and> tcb_id (tcbs s (Tcb_pool i)) = tid \<longleftrightarrow> i < k \<and> Suc i = unat tid" if "i < MAX_THREADS" for i
  proof (cases "i < k")
    case True
    have "of_nat (Suc i) = tid" if "Suc i = unat tid" unfolding that by simp
    then have "of_nat (Suc i) = tid \<longleftrightarrow> Suc i = unat tid" using u [OF True] by metis
    then show ?thesis using used [OF that] id [OF True] True by simp
  qed (use used [OF that] in simp)
  show ?thesis
  proof (cases "0 < unat tid \<and> unat tid \<le> k")
    case True
    then have "unat tid - 1 < MAX_THREADS" using k by linarith
    then show ?thesis using True iff unfolding find_thread_def by (subst find_upt_prefix [where k = "unat tid - 1"]) auto
  next
    case False
    then have "\<not> (tcb_used s ! i \<and> tcb_id (tcbs s (Tcb_pool i)) = tid)" if "i < MAX_THREADS" for i
      using iff [OF that] by linarith
    then have "find_thread tid s = None" unfolding find_thread_def find_None_iff by simp
    then show ?thesis using False by simp
  qed
qed

text \<open>
  C7. After \<open>k\<close> creations the threads have the ids 1 to \<open>k\<close>.  \<open>mp_thread_join\<close> of any other id returns -1 at once and
  changes nothing; of id \<open>i + 1\<close> it returns 0 exactly when the thread in slot \<open>i\<close> is found terminated at some poll, in the
  state of the first such poll, whatever the rest of the system does between two polls.  In particular it never returns
  when the thread is never terminated.
\<close>

theorem thread_join_waits_for_termination:
  assumes "thread_table s k"
  shows "(unat tid = 0 \<or> k < unat tid \<longrightarrow> mp_thread_join env tid s = Some (-1, s)) \<and>
   (\<forall>i < k. unat tid = Suc i \<longrightarrow>
     (mp_thread_join env tid s = Some (r, s')) =
       (r = 0 \<and> (\<exists>n. polls env n s = Some s' \<and> terminated (Tcb_pool i) s' \<and>
          (\<forall>m < n. \<forall>sm. polls env m s = Some sm \<longrightarrow> \<not> terminated (Tcb_pool i) sm))))"
proof (intro conjI impI allI)
  assume "unat tid = 0 \<or> k < unat tid"
  then show "mp_thread_join env tid s = Some (-1, s)"
    using find_thread_table [OF assms, of tid] by (auto simp: mp_thread_join_def)
next
  fix i assume "i < k" "unat tid = Suc i"
  then have "mp_thread_join env tid s = join_loop env 0 (Tcb_pool i) s"
    using find_thread_table [OF assms, of tid] by (simp add: mp_thread_join_def)
  then show "(mp_thread_join env tid s = Some (r, s')) =
       (r = 0 \<and> (\<exists>n. polls env n s = Some s' \<and> terminated (Tcb_pool i) s' \<and>
          (\<forall>m < n. \<forall>sm. polls env m s = Some sm \<longrightarrow> \<not> terminated (Tcb_pool i) sm)))"
    unfolding polls_eq_from
    using join_loop_returns [of env 0 _ s s' "Tcb_pool i"] join_loop_sound [of env 0 "Tcb_pool i" s r s'] by auto
qed

text \<open>A thread is created, and the rest of the system ends it before the first poll after the first yield.\<close>

theorem thread_join_waits_for_termination_witness:
  "\<exists>s s'. mp_thread_create 0x20001000 None (mp_sched_init 0x20000000 (boot_state (\<lambda>_. 0xAA))) = Some (1, s) \<and>
     \<not> terminated (Tcb_pool 0) s \<and>
     mp_thread_join (\<lambda>_. upd_tcb (Tcb_pool 0) (\<lambda>t. t\<lparr>tcb_state := MP_THREAD_TERMINATED\<rparr>)) 1 s = Some (0, s') \<and>
     mp_thread_join (\<lambda>_ s. s) 2 s = Some (-1, s) \<and> mp_thread_join (\<lambda>_ s. s) 0 s = Some (-1, s)"
proof -
  let ?ends_it = "\<lambda>_ :: nat. upd_tcb (Tcb_pool 0) (\<lambda>t. t\<lparr>tcb_state := MP_THREAD_TERMINATED\<rparr>)"
  let ?boot = "mp_sched_init 0x20000000 (boot_state (\<lambda>_. 0xAA))"
  obtain b s2 where s2: "mp_thread_create 0x20001000 None ?boot =
      Some (of_nat (Suc 0), if b \<noteq> current_thread ?boot then s2\<lparr>next_thread := b\<rparr> else s2)"
    "thread_table s2 (Suc 0)" "tcb_state (tcbs s2 (Tcb_pool 0)) = MP_THREAD_READY"
  proof (rule thread_create_table [OF thread_table_boot])
    show "0 < MAX_THREADS" by (simp add: MAX_THREADS_def)
  qed (rule that)
  define s where "s = (if b \<noteq> current_thread ?boot then s2\<lparr>next_thread := b\<rparr> else s2)"
  have s: "thread_table s 1" "\<not> terminated (Tcb_pool 0) s" using s2(2,3) by (simp_all add: s_def terminated_def)
  obtain s1 where s1: "mp_thread_yield s = Some s1"
    using reschedule_table [OF s(1)] by (metis mp_thread_yield_def)
  have "\<forall>m < 1. \<forall>sm. polls ?ends_it m s = Some sm \<longrightarrow> \<not> terminated (Tcb_pool 0) sm" using s(2) by simp
  moreover have "polls ?ends_it 1 s = Some (?ends_it 0 s1)" using s1 by simp
  moreover have "terminated (Tcb_pool 0) (?ends_it 0 s1)" by (simp add: terminated_def upd_tcb_def)
  ultimately have "\<exists>n. polls ?ends_it n s = Some (?ends_it 0 s1) \<and> terminated (Tcb_pool 0) (?ends_it 0 s1) \<and>
      (\<forall>m < n. \<forall>sm. polls ?ends_it m s = Some sm \<longrightarrow> \<not> terminated (Tcb_pool 0) sm)" by blast
  then have "mp_thread_join ?ends_it 1 s = Some (0, ?ends_it 0 s1)"
    using thread_join_waits_for_termination [OF s(1), of 1 ?ends_it 0 "?ends_it 0 s1"] by (simp del: polls.simps)
  then show ?thesis
    using s2(1) s(2) thread_join_waits_for_termination [OF s(1), of 2 "\<lambda>_ s. s"] thread_join_waits_for_termination [OF s(1), of 0 "\<lambda>_ s. s"]
    by (auto simp: s_def)
qed

end
