(* ===== verification/Sync.thy ===== *)
theory Sync
  imports Thread
begin

text \<open>
  Mutexes and counting semaphores of \<open>src/kernel/ipc.c\<close> (structures of
  \<open>include/microposix/kernel/ipc.h\<close>), and the kernel as a transition system: every call the
  running thread can make, the clock tick, and the context switch that makes the selected thread
  current.  The result of \<open>malloc\<close> in \<open>pthread_mutex_init\<close> is an argument.
\<close>

section \<open>Operations\<close>

record mp_mutex =
  owner :: "tcb_ref option"
  mutex_waiting :: "tcb_ref option"
  mutex_count :: u8
  priority_inheritance :: bool

record mp_sem =
  sem_count :: u32
  sem_waiting :: "tcb_ref option"

definition pthread_mutex_init :: "bool \<Rightarrow> mp_mutex option \<Rightarrow> int \<times> mp_mutex option" where
  "pthread_mutex_init malloc_ok mutex =
     (if \<not> malloc_ok then (-1, mutex)
      else (0, Some \<lparr>owner = None, mutex_waiting = None, mutex_count = 0,
                     priority_inheritance = True\<rparr>))"

definition pthread_mutex_lock :: "mp_mutex \<Rightarrow> sched \<Rightarrow> (int \<times> mp_mutex \<times> sched) option" where
  "pthread_mutex_lock m s =
     (let current = mp_sched_get_current_thread s in
      if owner m = None then Some (0, m\<lparr>owner := current, mutex_count := 1\<rparr>, s)
      else if owner m = current then Some (0, m\<lparr>mutex_count := mutex_count m + 1\<rparr>, s)
      else (case current of
              None \<Rightarrow> None
            | Some c \<Rightarrow> do { s' \<leftarrow> mp_sched_reschedule (upd_tcb c (\<lambda>t. t\<lparr>tcb_state := MP_THREAD_BLOCKED\<rparr>) s);
                            Some (0, m, s') }))"

definition pthread_mutex_unlock :: "mp_mutex \<Rightarrow> sched \<Rightarrow> (int \<times> mp_mutex \<times> sched) option" where
  "pthread_mutex_unlock m s =
     (let current = mp_sched_get_current_thread s in
      if owner m \<noteq> current then Some (-1, m, s)
      else let m1 = m\<lparr>mutex_count := mutex_count m - 1\<rparr> in
           if mutex_count m1 = 0
           then do { s' \<leftarrow> mp_sched_reschedule s; Some (0, m1\<lparr>owner := None\<rparr>, s') }
           else Some (0, m1, s))"

definition sem_init :: "u32 \<Rightarrow> int \<times> mp_sem" where
  "sem_init val = (0, \<lparr>sem_count = val, sem_waiting = None\<rparr>)"

definition sem_wait :: "mp_sem \<Rightarrow> sched \<Rightarrow> (int \<times> mp_sem \<times> sched) option" where
  "sem_wait sem s =
     (if sem_count sem > 0 then Some (0, sem\<lparr>sem_count := sem_count sem - 1\<rparr>, s)
      else (case mp_sched_get_current_thread s of
              None \<Rightarrow> None
            | Some c \<Rightarrow> do { s' \<leftarrow> mp_sched_reschedule (upd_tcb c (\<lambda>t. t\<lparr>tcb_state := MP_THREAD_BLOCKED\<rparr>) s);
                            Some (0, sem, s') }))"

definition sem_post :: "mp_sem \<Rightarrow> sched \<Rightarrow> (int \<times> mp_sem \<times> sched) option" where
  "sem_post sem s =
     do { s' \<leftarrow> mp_sched_reschedule s; Some (0, sem\<lparr>sem_count := sem_count sem + 1\<rparr>, s') }"

section \<open>The kernel as a transition system\<close>

record kern =
  ksched :: sched
  mutexes :: "nat \<Rightarrow> mp_mutex"
  sems :: "nat \<Rightarrow> mp_sem"

inductive kstep :: "kern \<Rightarrow> kern \<Rightarrow> bool" where
  k_lock: "pthread_mutex_lock (mutexes k i) (ksched k) = Some (r, m, s) \<Longrightarrow>
     kstep k (k\<lparr>ksched := s, mutexes := (mutexes k)(i := m)\<rparr>)"
| k_unlock: "pthread_mutex_unlock (mutexes k i) (ksched k) = Some (r, m, s) \<Longrightarrow>
     kstep k (k\<lparr>ksched := s, mutexes := (mutexes k)(i := m)\<rparr>)"
| k_wait: "sem_wait (sems k j) (ksched k) = Some (r, sm, s) \<Longrightarrow>
     kstep k (k\<lparr>ksched := s, sems := (sems k)(j := sm)\<rparr>)"
| k_post: "sem_post (sems k j) (ksched k) = Some (r, sm, s) \<Longrightarrow>
     kstep k (k\<lparr>ksched := s, sems := (sems k)(j := sm)\<rparr>)"
| k_sleep: "mp_thread_sleep n (ksched k) = Some s \<Longrightarrow> kstep k (k\<lparr>ksched := s\<rparr>)"
| k_yield: "mp_thread_yield (ksched k) = Some s \<Longrightarrow> kstep k (k\<lparr>ksched := s\<rparr>)"
| k_exit: "mp_thread_exit (ksched k) = Some s \<Longrightarrow> kstep k (k\<lparr>ksched := s\<rparr>)"
| k_create: "mp_thread_create st attr (ksched k) = Some (i, s) \<Longrightarrow> kstep k (k\<lparr>ksched := s\<rparr>)"
| k_tick: "mp_sched_tick (ksched k) = Some s \<Longrightarrow> kstep k (k\<lparr>ksched := s\<rparr>)"
| k_switch: "next_thread (ksched k) = Some t \<Longrightarrow>
     kstep k (k\<lparr>ksched := (ksched k)\<lparr>current_thread := Some t\<rparr>\<rparr>)"

inductive ksteps :: "kern \<Rightarrow> kern \<Rightarrow> bool" where
  ksteps_refl: "ksteps k k"
| ksteps_step: "ksteps k k' \<Longrightarrow> kstep k' k'' \<Longrightarrow> ksteps k k''"

section \<open>Blocked threads\<close>

text \<open>
  \<open>stuck s t\<close>: thread \<open>t\<close> is on the ready list of a well-formed thread table, blocked, neither
  running nor selected to run.  Every kernel step keeps it so.
\<close>

definition stuck :: "sched \<Rightarrow> tcb_ref \<Rightarrow> bool" where
  "stuck s t \<longleftrightarrow> (\<exists>k. thread_table s k \<and> t \<in> set (created k)) \<and>
     tcb_state (tcbs s t) = MP_THREAD_BLOCKED \<and>
     current_thread s \<noteq> Some t \<and> next_thread s \<noteq> Some t"

lemma stuck_reschedule:
  assumes st: "stuck s t" and r: "mp_sched_reschedule s = Some s'"
  shows "stuck s' t"
proof -
  obtain k where tt: "thread_table s k" "t \<in> set (created k)" using st by (auto simp: stuck_def)
  obtain b where b: "mp_sched_reschedule s = Some (if b \<noteq> current_thread s then s\<lparr>next_thread := b\<rparr> else s)"
    and run: "case b of None \<Rightarrow> True | Some u \<Rightarrow> runnable (tcbs s u)"
    by (rule reschedule_table [OF tt(1)])
  have "b \<noteq> Some t" using run st by (auto simp: stuck_def runnable_def)
  then show ?thesis using st tt b r by (auto simp: stuck_def)
qed

lemma stuck_upd:
  assumes "stuck s t" and "c \<noteq> t"
    and "\<And>x. tcb_next (f x) = tcb_next x" and "\<And>x. tcb_id (f x) = tcb_id x"
  shows "stuck (upd_tcb c f s) t"
  using assms by (auto simp: stuck_def thread_table_upd)

lemma stuck_block_current:
  assumes "stuck s t" and "current_thread s = Some c"
  shows "stuck (upd_tcb c (\<lambda>x. x\<lparr>tcb_state := st\<rparr>) s) t"
  using assms by (intro stuck_upd) (auto simp: stuck_def)

lemma stuck_tick:
  assumes st: "stuck s t" and r: "mp_sched_tick s = Some s'"
  shows "stuck s' t"
proof -
  obtain k where tt: "thread_table s k" "t \<in> set (created k)" using st by (auto simp: stuck_def)
  obtain b where s': "s' = (tick_all (created k) (s\<lparr>monotonic_ms := monotonic_ms s + 1\<rparr>))\<lparr>next_thread := b\<rparr>"
    and tt': "thread_table s' k"
    using tick_table [OF tt(1)] r by (metis option.inject)
  have t: "tcb_state (tcbs s' t) = MP_THREAD_BLOCKED"
    using st tt(2) tick_awake [of "tcbs s t"] by (simp add: s' tick_all_def stuck_def)
  have "next_thread s' \<noteq> Some t"
    using tick_next_runnable [OF r tt(1)] st t by (auto simp: stuck_def runnable_def split: option.splits)
  moreover have "current_thread s' = current_thread s" by (simp add: s' tick_all_def)
  ultimately show ?thesis using tt' tt(2) t st by (auto simp: stuck_def)
qed

lemma stuck_create:
  assumes st: "stuck s t" and r: "mp_thread_create a attr s = Some (i, s')"
  shows "stuck s' t"
proof -
  obtain k where tt: "thread_table s k" "t \<in> set (created k)" using st by (auto simp: stuck_def)
  show ?thesis
  proof (cases "k < MAX_THREADS")
    case False
    then show ?thesis using find_free_tcb_table [OF tt(1)] r st by (simp add: mp_thread_create_def)
  next
    case True
    obtain b s2 where e: "mp_thread_create a attr s =
        Some (of_nat (Suc k), if b \<noteq> current_thread s then s2\<lparr>next_thread := b\<rparr> else s2)"
      and s2: "thread_table s2 (Suc k)" "\<forall>u. u \<noteq> Tcb_pool k \<longrightarrow> tcbs s2 u = tcbs s u"
        "current_thread s2 = current_thread s" "next_thread s2 = next_thread s"
        "case b of None \<Rightarrow> True | Some u \<Rightarrow> runnable (tcbs s2 u)"
      by (rule thread_create_table [OF tt(1) True])
    have "t \<noteq> Tcb_pool k" using tt(2) by auto
    then have t: "tcb_state (tcbs s2 t) = MP_THREAD_BLOCKED" using s2(2) st by (simp add: stuck_def)
    then have "b \<noteq> Some t" using s2(5) by (auto simp: runnable_def)
    moreover have "s' = (if b \<noteq> current_thread s then s2\<lparr>next_thread := b\<rparr> else s2)"
      using e r by simp
    moreover have "t \<in> set (created (Suc k))" using tt(2) by (simp add: created_Suc)
    ultimately show ?thesis using s2(1,3,4) t st unfolding stuck_def by auto
  qed
qed

lemmas current_defs = mp_sched_get_current_thread_def

lemma kstep_stuck: "kstep k k' \<Longrightarrow> stuck (ksched k) t \<Longrightarrow> stuck (ksched k') t"
proof (induction rule: kstep.induct)
  case (k_lock k i r m s)
  then show ?case
    by (auto simp: pthread_mutex_lock_def Let_def current_defs
        split: if_splits option.splits bind_splits
        intro: stuck_reschedule stuck_block_current)
next
  case (k_unlock k i r m s)
  then show ?case
    by (auto simp: pthread_mutex_unlock_def Let_def split: if_splits bind_splits intro: stuck_reschedule)
next
  case (k_wait k j r sm s)
  then show ?case
    by (auto simp: sem_wait_def current_defs split: if_splits option.splits bind_splits
        intro: stuck_reschedule stuck_block_current)
next
  case (k_post k j r sm s)
  then show ?case by (auto simp: sem_post_def split: bind_splits intro: stuck_reschedule)
next
  case (k_sleep n k s)
  then show ?case
  proof (cases "current_thread (ksched k)")
    case (Some c)
    have "stuck (upd_tcb c (\<lambda>x. x\<lparr>tcb_state := MP_THREAD_SLEEPING, sleep_ticks := n\<rparr>) (ksched k)) t"
      using k_sleep Some by (intro stuck_upd) (auto simp: stuck_def)
    then show ?thesis
      using k_sleep Some by (auto simp: mp_thread_sleep_def current_defs intro: stuck_reschedule)
  qed (simp add: mp_thread_sleep_def current_defs)
next
  case (k_yield k s)
  then show ?case by (auto simp: mp_thread_yield_def intro: stuck_reschedule)
next
  case (k_exit k s)
  then show ?case
    by (auto simp: mp_thread_exit_def current_defs split: option.splits
        intro: stuck_reschedule stuck_block_current)
next
  case (k_create st attr k i s)
  then show ?case by (auto intro: stuck_create)
next
  case (k_tick k s)
  then show ?case by (auto intro: stuck_tick)
next
  case (k_switch k u)
  then show ?case by (auto simp: stuck_def)
qed

section \<open>The mutex as a recursive lock\<close>

text \<open>
  What a recursive lock promises: it is free or held by one thread with a nesting depth; the
  holder may lock again, and the last unlock of the holder frees it.
\<close>

type_synonym lock_state = "(tcb_ref \<times> nat) option"

definition spec_lock :: "tcb_ref \<Rightarrow> lock_state \<Rightarrow> lock_state" where
  "spec_lock c l =
     (case l of None \<Rightarrow> Some (c, 1) | Some (h, n) \<Rightarrow> if h = c then Some (h, Suc n) else l)"

definition spec_unlock :: "tcb_ref \<Rightarrow> lock_state \<Rightarrow> int \<times> lock_state" where
  "spec_unlock c l =
     (case l of None \<Rightarrow> (-1, None)
      | Some (h, n) \<Rightarrow> if h \<noteq> c then (-1, l) else (0, if n = 1 then None else Some (h, n - 1)))"

definition lock_abs :: "mp_mutex \<Rightarrow> lock_state" where
  "lock_abs m = map_option (\<lambda>h. (h, unat (mutex_count m))) (owner m)"

definition mutex_inv :: "mp_mutex \<Rightarrow> bool" where
  "mutex_inv m \<longleftrightarrow> (owner m \<noteq> None \<longrightarrow> mutex_count m \<noteq> 0)"

lemma unat_eq_one: "unat (x :: 'a::len word) = Suc 0 \<longleftrightarrow> x = 1"
  by (metis One_nat_def unat_1 word_unat_eq_iff)

lemma u8_succ_nonzero: "(x :: u8) \<noteq> 255 \<Longrightarrow> x + 1 \<noteq> 0"
proof
  assume "x \<noteq> 255" and "x + 1 = 0"
  moreover have "(- 1 :: u8) = 255" by code_simp
  ultimately show False by (metis eq_neg_iff_add_eq_0)
qed

lemma unat_Suc_u8: "(x :: u8) \<noteq> 255 \<Longrightarrow> unat (x + 1) = Suc (unat x)"
  using u8_succ_nonzero [of x] by (simp add: unatSuc add.commute)

lemma lock_refines:
  assumes "mutex_inv m" and c: "current_thread s = Some c" and "ready_threads s xs"
    and "owner m = Some c \<Longrightarrow> mutex_count m \<noteq> 255"
  obtains m' s' where "pthread_mutex_lock m s = Some (0, m', s')"
    and "lock_abs m' = spec_lock c (lock_abs m)" and "mutex_inv m'"
proof -
  have rt: "ready_threads (upd_tcb c (\<lambda>t. t\<lparr>tcb_state := MP_THREAD_BLOCKED\<rparr>) s) xs"
    using assms(3) by (simp add: ready_threads_upd)
  show ?thesis
  proof (cases "owner m = None \<or> owner m = Some c")
    case True
    have "owner m = Some c \<Longrightarrow> unat (mutex_count m + 1) = Suc (unat (mutex_count m))"
      using assms(4) by (intro unat_Suc_u8) simp
    moreover have "owner m = Some c \<Longrightarrow> mutex_count m + 1 \<noteq> 0"
      using assms(4) by (intro u8_succ_nonzero) simp
    ultimately show ?thesis
      using True c assms(4)
      by (intro that [of "if owner m = None then m\<lparr>owner := Some c, mutex_count := 1\<rparr>
            else m\<lparr>mutex_count := mutex_count m + 1\<rparr>" s])
        (auto simp: pthread_mutex_lock_def current_defs lock_abs_def spec_lock_def mutex_inv_def Let_def)
  next
    case False
    obtain s' where "mp_sched_reschedule (upd_tcb c (\<lambda>t. t\<lparr>tcb_state := MP_THREAD_BLOCKED\<rparr>) s) = Some s'"
      by (rule reschedule_result [OF rt]) blast
    then show ?thesis using False c assms(1)
      by (intro that [of m s'])
        (auto simp: pthread_mutex_lock_def current_defs lock_abs_def spec_lock_def Let_def)
  qed
qed

lemma unlock_refines:
  assumes "mutex_inv m" and c: "current_thread s = Some c" and rt: "ready_threads s xs"
  obtains r m' s' where "pthread_mutex_unlock m s = Some (r, m', s')"
    and "(r, lock_abs m') = spec_unlock c (lock_abs m)" and "mutex_inv m'"
proof -
  obtain s' where s': "mp_sched_reschedule s = Some s'"
    by (rule reschedule_result [OF rt]) blast
  show ?thesis
  proof (cases "owner m = Some c")
    case False
    then show ?thesis using c assms(1)
      by (intro that [of "-1" m s])
        (auto simp: pthread_mutex_unlock_def current_defs lock_abs_def spec_unlock_def Let_def split: option.splits)
  next
    case True
    then have nz: "mutex_count m \<noteq> 0" using assms(1) by (simp add: mutex_inv_def)
    then have u: "unat (mutex_count m - 1) = unat (mutex_count m) - 1" by (rule unat_minus_one)
    have one: "mutex_count m - 1 = 0 \<longleftrightarrow> unat (mutex_count m) = 1"
      by (simp add: unat_eq_one)
    show ?thesis
    proof (cases "mutex_count m - 1 = 0")
      case True
      then show ?thesis using \<open>owner m = Some c\<close> c s' one
        by (intro that [of 0 "m\<lparr>mutex_count := mutex_count m - 1, owner := None\<rparr>" s'])
          (auto simp: pthread_mutex_unlock_def current_defs lock_abs_def spec_unlock_def Let_def mutex_inv_def)
    next
      case False
      then show ?thesis using \<open>owner m = Some c\<close> c one u
        by (intro that [of 0 "m\<lparr>mutex_count := mutex_count m - 1\<rparr>" s])
          (auto simp: pthread_mutex_unlock_def current_defs lock_abs_def spec_unlock_def Let_def mutex_inv_def)
    qed
  qed
qed

section \<open>Properties\<close>

definition demo_mutex :: mp_mutex where
  "demo_mutex = \<lparr>owner = Some (Tcb_pool 1), mutex_waiting = None, mutex_count = 1,
     priority_inheritance = True\<rparr>"

text \<open>
  C5. The mutex implements a recursive lock: up to 255 nested acquisitions, lock and unlock by the
  current thread commute with the abstract lock (holder and depth), report success and failure
  as it does, and keep the invariant that a held mutex has a positive count.
\<close>

theorem mutex_refines_recursive_lock:
  assumes "mutex_inv m" and "current_thread s = Some c" and "ready_threads s xs"
    and "owner m = Some c \<longrightarrow> mutex_count m \<noteq> 255"
  shows "(\<exists>m' s'. pthread_mutex_lock m s = Some (0, m', s') \<and>
      lock_abs m' = spec_lock c (lock_abs m) \<and> mutex_inv m') \<and>
    (\<exists>r m' s'. pthread_mutex_unlock m s = Some (r, m', s') \<and>
      (r, lock_abs m') = spec_unlock c (lock_abs m) \<and> mutex_inv m')"
proof (intro conjI)
  have n: "owner m = Some c \<Longrightarrow> mutex_count m \<noteq> 255" using assms(4) by simp
  show "\<exists>m' s'. pthread_mutex_lock m s = Some (0, m', s') \<and>
      lock_abs m' = spec_lock c (lock_abs m) \<and> mutex_inv m'"
    by (rule lock_refines [OF assms(1-3) n]) blast+
  show "\<exists>r m' s'. pthread_mutex_unlock m s = Some (r, m', s') \<and>
      (r, lock_abs m') = spec_unlock c (lock_abs m) \<and> mutex_inv m'"
    by (rule unlock_refines [OF assms(1-3)]) blast
qed

lemma demo_sched_running:
  "ready_threads (demo_sched\<lparr>current_thread := Some (Tcb_pool 1)\<rparr>) [Tcb_pool 1, Tcb_pool 0, Idle_tcb]"
  using demo_sched_ready by (simp add: ready_threads_def)

theorem mutex_refines_recursive_lock_witness:
  "\<exists>m' s'. pthread_mutex_lock demo_mutex (demo_sched\<lparr>current_thread := Some (Tcb_pool 1)\<rparr>) = Some (0, m', s') \<and>
     lock_abs m' = Some (Tcb_pool 1, 2)"
proof -
  have "mutex_inv demo_mutex" by (simp add: mutex_inv_def demo_mutex_def)
  from mutex_refines_recursive_lock [OF this _ demo_sched_running, of "Tcb_pool 1"]
  show ?thesis by (auto simp: demo_mutex_def lock_abs_def spec_lock_def)
qed

text \<open>
  The recursion depth wraps: the holder's acquisition number 256 leaves the mutex held with
  count 0 (breaking the invariant), so that after one more acquisition (257 in all) a single
  unlock frees the mutex although 256 acquisitions are outstanding.
\<close>

theorem mutex_recursion_wraps:
  assumes "owner m = Some c" and "mutex_count m = 255" and "current_thread s = Some c"
    and "ready_threads s xs"
  shows "\<exists>m1 m2 m3 s'. pthread_mutex_lock m s = Some (0, m1, s) \<and> owner m1 = Some c \<and>
    \<not> mutex_inv m1 \<and> pthread_mutex_lock m1 s = Some (0, m2, s) \<and>
    pthread_mutex_unlock m2 s = Some (0, m3, s') \<and> owner m3 = None"
proof -
  let ?m1 = "m\<lparr>mutex_count := mutex_count m + 1\<rparr>" and ?m2 = "m\<lparr>mutex_count := 1\<rparr>"
  obtain s' where "mp_sched_reschedule s = Some s'"
    by (rule reschedule_result [OF assms(4)]) blast
  then show ?thesis using assms(1-3)
    by (intro exI [of _ ?m1] exI [of _ ?m2] exI [of _ "?m2\<lparr>mutex_count := 0, owner := None\<rparr>"]
        exI [of _ s'])
      (simp add: pthread_mutex_lock_def pthread_mutex_unlock_def current_defs mutex_inv_def Let_def)
qed

theorem mutex_recursion_wraps_witness:
  "\<exists>m1. pthread_mutex_lock (demo_mutex\<lparr>mutex_count := 255\<rparr>)
       (demo_sched\<lparr>current_thread := Some (Tcb_pool 1)\<rparr>)
     = Some (0, m1, demo_sched\<lparr>current_thread := Some (Tcb_pool 1)\<rparr>) \<and> \<not> mutex_inv m1"
proof -
  have "owner (demo_mutex\<lparr>mutex_count := 255\<rparr>) = Some (Tcb_pool 1)"
    "mutex_count (demo_mutex\<lparr>mutex_count := 255\<rparr>) = 255"
    by (simp_all add: demo_mutex_def)
  from mutex_recursion_wraps [OF this _ demo_sched_running] show ?thesis by auto
qed

text \<open>
  Locking a mutex another thread holds reports success (0) although the caller does not
  obtain it: the mutex is unchanged, and the caller has been marked BLOCKED and is not the
  thread selected to run next.
\<close>

theorem mutex_contended_lock_reports_success:
  assumes "owner m = Some h" and "h \<noteq> c" and "current_thread s = Some c" and "ready_threads s xs"
  shows "\<exists>s'. pthread_mutex_lock m s = Some (0, m, s') \<and> owner m \<noteq> Some c \<and>
    tcb_state (tcbs s' c) = MP_THREAD_BLOCKED \<and> next_thread s' \<noteq> Some c"
proof -
  let ?s = "upd_tcb c (\<lambda>t. t\<lparr>tcb_state := MP_THREAD_BLOCKED\<rparr>) s"
  have rt: "ready_threads ?s xs" using assms(4) by (simp add: ready_threads_upd)
  obtain b where b: "mp_sched_reschedule ?s = Some (if b \<noteq> current_thread ?s then ?s\<lparr>next_thread := b\<rparr> else ?s)"
    and run: "case b of None \<Rightarrow> \<forall>x \<in> set xs. \<not> runnable (tcbs ?s x) | Some t \<Rightarrow> highest ?s xs t"
    by (rule reschedule_result [OF rt])
  have "b \<noteq> Some c" using run by (auto simp: highest_def runnable_def)
  then show ?thesis using b assms(1-3)
    by (auto simp: pthread_mutex_lock_def current_defs)
qed

theorem mutex_contended_lock_reports_success_witness:
  "\<exists>s'. pthread_mutex_lock (demo_mutex\<lparr>owner := Some Idle_tcb\<rparr>)
      (demo_sched\<lparr>current_thread := Some (Tcb_pool 1)\<rparr>)
    = Some (0, demo_mutex\<lparr>owner := Some Idle_tcb\<rparr>, s') \<and>
    tcb_state (tcbs s' (Tcb_pool 1)) = MP_THREAD_BLOCKED"
proof -
  have "owner (demo_mutex\<lparr>owner := Some Idle_tcb\<rparr>) = Some Idle_tcb" by (simp add: demo_mutex_def)
  from mutex_contended_lock_reports_success [OF this _ _ demo_sched_running, of "Tcb_pool 1"]
  show ?thesis by auto
qed

text \<open>
  C6. A blocked thread never runs again: once a thread blocked on a mutex or a semaphore is
  neither running nor selected, no sequence of kernel steps (unlocks and posts by other
  threads, ticks, yields, exits, creations, context switches) makes it ready, selects it or
  runs it.
\<close>

theorem blocked_thread_never_wakes:
  assumes "ksteps k k'" and "thread_table (ksched k) n" and "t \<in> set (created n)"
    and "tcb_state (tcbs (ksched k) t) = MP_THREAD_BLOCKED"
    and "current_thread (ksched k) \<noteq> Some t" and "next_thread (ksched k) \<noteq> Some t"
  shows "tcb_state (tcbs (ksched k') t) = MP_THREAD_BLOCKED \<and>
    current_thread (ksched k') \<noteq> Some t \<and> next_thread (ksched k') \<noteq> Some t"
proof -
  have "stuck (ksched k) t" using assms(2-) by (auto simp: stuck_def)
  with assms(1) have "stuck (ksched k') t"
    by (induction rule: ksteps.induct) (auto intro: kstep_stuck)
  then show ?thesis by (simp add: stuck_def)
qed

text \<open>A kernel with one created thread, blocked; the idle thread posts a semaphore.\<close>

definition blocked_kern :: kern where
  "blocked_kern = \<lparr>
     ksched = upd_tcb (Tcb_pool 0) (\<lambda>t. t\<lparr>tcb_state := MP_THREAD_BLOCKED, tcb_id := 1\<rparr>)
       ((mp_sched_add_thread (Tcb_pool 0) (mp_sched_init 0x20000000 (boot_state (\<lambda>_. 0))))
         \<lparr>tcb_used := map (\<lambda>i. i < 1) [0..<MAX_THREADS], next_thread_id := 2\<rparr>),
     mutexes = (\<lambda>_. demo_mutex), sems = (\<lambda>_. \<lparr>sem_count = 0, sem_waiting = None\<rparr>)\<rparr>"

lemma blocked_kern_table: "thread_table (ksched blocked_kern) 1"
  by (simp add: thread_table_def blocked_kern_def ready_threads_def created_def MAX_THREADS_def
      mp_sched_add_thread_def set_ready_def set_next_def next_of_def mp_sched_init_def boot_state_def
      upd_tcb_def zero_tcb_def)

lemma blocked_kern_thread:
  "tcb_state (tcbs (ksched blocked_kern) (Tcb_pool 0)) = MP_THREAD_BLOCKED"
  "current_thread (ksched blocked_kern) = Some Idle_tcb" "next_thread (ksched blocked_kern) = None"
  by (simp_all add: blocked_kern_def mp_sched_add_thread_def set_ready_def set_next_def
      mp_sched_init_def boot_state_def)

theorem blocked_thread_never_wakes_witness:
  "\<exists>k'. ksteps blocked_kern k' \<and> kstep blocked_kern k' \<and> sem_count (sems k' 0) = 1 \<and>
     tcb_state (tcbs (ksched k') (Tcb_pool 0)) = MP_THREAD_BLOCKED"
proof -
  obtain s where "mp_sched_reschedule (ksched blocked_kern) = Some s"
    by (rule reschedule_table [OF blocked_kern_table])
  then have "sem_post (sems blocked_kern 0) (ksched blocked_kern) =
      Some (0, \<lparr>sem_count = 1, sem_waiting = None\<rparr>, s)"
    by (simp add: sem_post_def blocked_kern_def)
  from kstep.k_post [OF this] obtain k' where k': "kstep blocked_kern k'" "sem_count (sems k' 0) = 1"
    by auto
  then have "ksteps blocked_kern k'" by (blast intro: ksteps.intros)
  then show ?thesis
    using k' blocked_thread_never_wakes [OF _ blocked_kern_table, of k' "Tcb_pool 0"] blocked_kern_thread
    by auto
qed

end
