(* ===== verification/MsgQueue.thy ===== *)
theory MsgQueue
  imports Scheduler
begin

text \<open>
  The message queue of \<open>src/kernel/mq.c\<close>: a ring buffer of \<open>max_msgs\<close> messages of \<open>msg_size\<close> bytes
  in caller-supplied storage, its refinement to a bounded first-in-first-out queue, and the
  interface of such a queue.
\<close>

section \<open>Operations\<close>

record mp_mq =
  mq_buffer :: "u8 list"
  msg_size :: size_t
  max_msgs :: size_t
  cur_msgs :: size_t
  mq_head :: size_t
  mq_tail :: size_t
  waiting_send :: "tcb_ref option"
  waiting_recv :: "tcb_ref option"

definition mp_mq_init ::
  "mp_mq option \<Rightarrow> u8 list option \<Rightarrow> size_t \<Rightarrow> size_t \<Rightarrow> int \<times> mp_mq option" where
  "mp_mq_init mq buffer sz n =
     (case (mq, buffer) of
        (Some q, Some b) \<Rightarrow>
          (0, Some \<lparr>mq_buffer = b, msg_size = sz, max_msgs = n, cur_msgs = 0, mq_head = 0,
                    mq_tail = 0, waiting_send = None, waiting_recv = None\<rparr>)
      | _ \<Rightarrow> (-1, mq))"

text \<open>\<open>msg\<close> is the memory the message pointer points into; \<open>msg_size\<close> bytes of it are copied.\<close>

definition mp_mq_send :: "mp_mq \<Rightarrow> u8 list \<Rightarrow> u32 \<Rightarrow> (int \<times> mp_mq) option" where
  "mp_mq_send mq msg timeout_ms =
     (if cur_msgs mq \<ge> max_msgs mq then Some (-1, mq)
      else do {
        d \<leftarrow> mem_read msg 0 (unat (msg_size mq));
        b \<leftarrow> mem_write (mq_buffer mq) (unat (mq_head mq * msg_size mq)) d;
        Some (0, mq\<lparr>mq_buffer := b,
                    mq_head := (mq_head mq + 1) mod max_msgs mq,
                    cur_msgs := cur_msgs mq + 1\<rparr>) })"

text \<open>The message received is the third component, \<^term>\<open>None\<close> when nothing is written to \<open>*msg\<close>.\<close>

definition mp_mq_receive :: "mp_mq \<Rightarrow> u32 \<Rightarrow> (int \<times> mp_mq \<times> u8 list option) option" where
  "mp_mq_receive mq timeout_ms =
     (if cur_msgs mq = 0 then Some (-1, mq, None)
      else do {
        d \<leftarrow> mem_read (mq_buffer mq) (unat (mq_tail mq * msg_size mq)) (unat (msg_size mq));
        Some (0, mq\<lparr>mq_tail := (mq_tail mq + 1) mod max_msgs mq,
                    cur_msgs := cur_msgs mq - 1\<rparr>, Some d) })"

section \<open>Bounded FIFO queues\<close>

datatype 'a fifo_op = Put 'a | Get

datatype 'a fifo_out = Accepted bool | Got "'a option"

fun fifo_run ::
  "('a \<Rightarrow> 'q \<Rightarrow> (bool \<times> 'q) option) \<Rightarrow> ('q \<Rightarrow> ('a option \<times> 'q) option) \<Rightarrow>
   'a fifo_op list \<Rightarrow> 'q \<Rightarrow> ('a fifo_out list \<times> 'q) option" where
  "fifo_run put get [] q = Some ([], q)"
| "fifo_run put get (Put x # ops) q =
     do { (b, q1) \<leftarrow> put x q; (rs, q2) \<leftarrow> fifo_run put get ops q1; Some (Accepted b # rs, q2) }"
| "fifo_run put get (Get # ops) q =
     do { (r, q1) \<leftarrow> get q; (rs, q2) \<leftarrow> fifo_run put get ops q1; Some (Got r # rs, q2) }"

text \<open>The specification: the same operations on a list of at most \<open>n\<close> items.\<close>

fun fifo_spec :: "nat \<Rightarrow> 'a fifo_op list \<Rightarrow> 'a list \<Rightarrow> 'a fifo_out list \<times> 'a list" where
  "fifo_spec n [] xs = ([], xs)"
| "fifo_spec n (Put x # ops) xs =
     (let (rs, ys) = fifo_spec n ops (if length xs < n then xs @ [x] else xs)
      in (Accepted (length xs < n) # rs, ys))"
| "fifo_spec n (Get # ops) xs =
     (case xs of [] \<Rightarrow> (let (rs, ys) = fifo_spec n ops [] in (Got None # rs, ys))
      | x # xs' \<Rightarrow> (let (rs, ys) = fifo_spec n ops xs' in (Got (Some x) # rs, ys)))"

fun op_items :: "'a fifo_op list \<Rightarrow> 'a set" where
  "op_items [] = {}"
| "op_items (Put x # ops) = insert x (op_items ops)"
| "op_items (Get # ops) = op_items ops"

locale bounded_fifo =
  fixes inv :: "'q \<Rightarrow> bool"
    and items :: "'q \<Rightarrow> 'a list"
    and cap :: "'q \<Rightarrow> nat"
    and fits :: "'q \<Rightarrow> 'a \<Rightarrow> bool"
    and put :: "'a \<Rightarrow> 'q \<Rightarrow> (bool \<times> 'q) option"
    and get :: "'q \<Rightarrow> ('a option \<times> 'q) option"
  assumes put_full: "inv q \<Longrightarrow> fits q x \<Longrightarrow> \<not> length (items q) < cap q \<Longrightarrow> put x q = Some (False, q)"
    and put_room: "inv q \<Longrightarrow> fits q x \<Longrightarrow> length (items q) < cap q \<Longrightarrow>
      \<exists>q'. put x q = Some (True, q') \<and> inv q' \<and> items q' = items q @ [x] \<and>
        cap q' = cap q \<and> fits q' = fits q"
    and get_empty: "inv q \<Longrightarrow> items q = [] \<Longrightarrow> get q = Some (None, q)"
    and get_item: "inv q \<Longrightarrow> items q = x # xs \<Longrightarrow>
      \<exists>q'. get q = Some (Some x, q') \<and> inv q' \<and> items q' = xs \<and> cap q' = cap q \<and> fits q' = fits q"
begin

text \<open>Every sequence of operations behaves as on the bounded list.\<close>

lemma run_refines:
  "inv q \<Longrightarrow> \<forall>x \<in> op_items ops. fits q x \<Longrightarrow>
   \<exists>q'. fifo_run put get ops q = Some (fst (fifo_spec (cap q) ops (items q)), q') \<and>
     inv q' \<and> items q' = snd (fifo_spec (cap q) ops (items q))"
proof (induction ops arbitrary: q rule: op_items.induct)
  case 1
  then show ?case by simp
next
  case (2 x ops)
  show ?case
  proof (cases "length (items q) < cap q")
    case True
    then obtain q1 where "put x q = Some (True, q1)" "inv q1" "items q1 = items q @ [x]"
      "cap q1 = cap q" "fits q1 = fits q"
      using put_room [of q x] 2 by auto
    then show ?thesis using "2.IH" [of q1] "2.prems" True by (auto simp: split_beta)
  next
    case False
    then show ?thesis using put_full [of q x] "2.IH" [of q] "2.prems" by (auto simp: split_beta)
  qed
next
  case (3 ops)
  show ?case
  proof (cases "items q")
    case Nil
    then show ?thesis using get_empty [of q] "3.IH" [of q] "3.prems" by (auto simp: split_beta)
  next
    case (Cons x xs)
    then obtain q1 where "get q = Some (Some x, q1)" "inv q1" "items q1 = xs"
      "cap q1 = cap q" "fits q1 = fits q"
      using get_item [of q x xs] 3 by auto
    then show ?thesis using "3.IH" [of q1] "3.prems" Cons by (auto simp: split_beta)
  qed
qed

end

section \<open>The ring buffer implements a bounded FIFO queue\<close>

definition slot :: "mp_mq \<Rightarrow> nat \<Rightarrow> u8 list" where
  "slot q i = take (unat (msg_size q)) (drop (i * unat (msg_size q)) (mq_buffer q))"

definition mq_items :: "mp_mq \<Rightarrow> u8 list list" where
  "mq_items q = map (\<lambda>i. slot q ((unat (mq_tail q) + i) mod unat (max_msgs q))) [0..<unat (cur_msgs q)]"

definition mq_cap :: "mp_mq \<Rightarrow> nat" where
  "mq_cap q = unat (max_msgs q)"

definition mq_fits :: "mp_mq \<Rightarrow> u8 list \<Rightarrow> bool" where
  "mq_fits q msg \<longleftrightarrow> length msg = unat (msg_size q)"

definition mq_inv :: "mp_mq \<Rightarrow> bool" where
  "mq_inv q \<longleftrightarrow> unat (max_msgs q) * unat (msg_size q) \<le> length (mq_buffer q) \<and>
     length (mq_buffer q) < 2 ^ 32 \<and> cur_msgs q \<le> max_msgs q \<and>
     (max_msgs q \<noteq> 0 \<longrightarrow> mq_head q < max_msgs q \<and> mq_tail q < max_msgs q \<and>
       unat (mq_head q) = (unat (mq_tail q) + unat (cur_msgs q)) mod unat (max_msgs q))"

definition mq_put :: "u8 list \<Rightarrow> mp_mq \<Rightarrow> (bool \<times> mp_mq) option" where
  "mq_put msg q = do { (r, q') \<leftarrow> mp_mq_send q msg 0; Some (r = 0, q') }"

definition mq_get :: "mp_mq \<Rightarrow> (u8 list option \<times> mp_mq) option" where
  "mq_get q = do { (r, q', d) \<leftarrow> mp_mq_receive q 0; Some (d, q') }"

lemma slot_bound:
  assumes "mq_inv q" and "i < unat (max_msgs q)"
  shows "i * unat (msg_size q) + unat (msg_size q) \<le> length (mq_buffer q)"
proof -
  have "Suc i * unat (msg_size q) \<le> unat (max_msgs q) * unat (msg_size q)"
    using assms(2) by (intro mult_le_mono1) simp
  then show ?thesis using assms(1) by (simp add: mq_inv_def)
qed

lemma slot_offset:
  assumes "mq_inv q" and "h < max_msgs q"
  shows "unat (h * msg_size q) = unat h * unat (msg_size q)"
proof -
  have "unat h * unat (msg_size q) \<le> length (mq_buffer q)"
    using slot_bound [OF assms(1), of "unat h"] assms(2) by (simp add: word_less_nat_alt)
  also have "\<dots> < 2 ^ 32" using assms(1) by (simp add: mq_inv_def)
  finally show ?thesis by (intro unat_mult_no_overflow) simp
qed

lemma unat_ring_Suc:
  fixes h m :: size_t
  assumes "h < m"
  shows "unat ((h + 1) mod m) = Suc (unat h) mod unat m"
  using unat_Suc_less [OF assms] by (simp add: unat_mod)

lemma ring_index_fresh:
  fixes t m c i :: nat
  assumes "i < c" and "c < m"
  shows "(t + i) mod m \<noteq> (t + c) mod m"
proof
  assume "(t + i) mod m = (t + c) mod m"
  then have "m dvd (t + c) - (t + i)"
    using assms by (subst mod_eq_dvd_iff_nat [symmetric]) simp_all
  then show False using assms by (auto dest: dvd_imp_le)
qed

lemma send_room:
  assumes i: "mq_inv q" and msg: "mq_fits q msg" and room: "cur_msgs q < max_msgs q"
  obtains q' where "mp_mq_send q msg t = Some (0, q')" and "mq_inv q'"
    and "mq_items q' = mq_items q @ [msg]" and "max_msgs q' = max_msgs q" and "msg_size q' = msg_size q"
proof -
  let ?m = "unat (max_msgs q)" and ?z = "unat (msg_size q)" and ?t = "unat (mq_tail q)"
    and ?c = "unat (cur_msgs q)" and ?h = "unat (mq_head q)"
  have nz: "max_msgs q \<noteq> 0" using room by auto
  then have h: "mq_head q < max_msgs q" and tl: "mq_tail q < max_msgs q"
    and hm: "?h = (?t + ?c) mod ?m" using i by (auto simp: mq_inv_def)
  have cm: "?c < ?m" and hlt: "?h < ?m" using room h by (simp_all add: word_less_nat_alt)
  obtain b where b: "mem_write (mq_buffer q) (?h * ?z) msg = Some b"
    using mem_write_Some slot_bound [OF i hlt] msg by (metis mq_fits_def)
  define q' where "q' = q\<lparr>mq_buffer := b, mq_head := (mq_head q + 1) mod max_msgs q,
    cur_msgs := cur_msgs q + 1\<rparr>"
  have c': "unat (cur_msgs q + 1) = Suc ?c" using room by (rule unat_Suc_less)
  have h': "unat ((mq_head q + 1) mod max_msgs q) = Suc ?h mod ?m" using h by (rule unat_ring_Suc)
  have "mp_mq_send q msg t = Some (0, q')"
    using room b msg slot_offset [OF i h]
    by (simp add: mp_mq_send_def q'_def mem_read_def mq_fits_def not_le [symmetric])
  moreover have "mq_inv q'"
    using i nz cm h' c' mem_write_length [OF b] hm tl
    by (simp add: mq_inv_def q'_def word_le_nat_alt word_less_nat_alt mod_Suc_eq)
  moreover have "mq_items q' = mq_items q @ [msg]"
  proof -
    have new: "slot q' ?h = msg"
      using mem_read_write_same [OF b] slot_bound [OF i hlt] mem_write_length [OF b] msg
      by (simp add: slot_def q'_def mem_read_def mq_fits_def)
    have old: "slot q' j = slot q j" if "j < ?m" "j \<noteq> ?h" for j
    proof -
      have "j * ?z + ?z \<le> ?h * ?z \<or> ?h * ?z + length msg \<le> j * ?z"
        using that(2) msg mult_le_mono1 [of "Suc j" ?h ?z] mult_le_mono1 [of "Suc ?h" j ?z]
        by (cases "j < ?h") (simp_all add: mq_fits_def)
      from mem_read_write_other [OF b this] slot_bound [OF i that(1)] mem_write_length [OF b]
      show ?thesis by (simp add: slot_def q'_def mem_read_def)
    qed
    have "slot q' ((?t + j) mod ?m) = slot q ((?t + j) mod ?m)" if "j < ?c" for j
      using old [of "(?t + j) mod ?m"] ring_index_fresh [OF that cm, of ?t] hm cm by simp
    then have "map (\<lambda>j. slot q' ((?t + j) mod ?m)) [0..<?c] = mq_items q"
      by (simp add: mq_items_def)
    moreover have "mq_items q' = map (\<lambda>j. slot q' ((?t + j) mod ?m)) [0..<Suc ?c]"
      unfolding mq_items_def using c' by (simp add: q'_def)
    ultimately show ?thesis using new hm by simp
  qed
  ultimately show ?thesis by (rule that) (simp_all add: q'_def)
qed

lemma send_full:
  "\<not> cur_msgs q < max_msgs q \<Longrightarrow> mp_mq_send q msg t = Some (-1, q)"
  by (simp add: mp_mq_send_def not_less)

lemma receive_empty: "cur_msgs q = 0 \<Longrightarrow> mp_mq_receive q t = Some (-1, q, None)"
  by (simp add: mp_mq_receive_def)

lemma receive_item:
  assumes i: "mq_inv q" and ne: "cur_msgs q \<noteq> 0"
  obtains q' where "mp_mq_receive q t = Some (0, q', Some (hd (mq_items q)))" and "mq_inv q'"
    and "mq_items q' = tl (mq_items q)" and "max_msgs q' = max_msgs q" and "msg_size q' = msg_size q"
proof -
  let ?m = "unat (max_msgs q)" and ?z = "unat (msg_size q)" and ?t = "unat (mq_tail q)"
    and ?c = "unat (cur_msgs q)"
  have cm: "?c \<le> ?m" using i by (simp add: mq_inv_def word_le_nat_alt)
  obtain c0 where c0: "?c = Suc c0" using ne by (cases ?c) (simp_all add: unat_eq_0)
  have nz: "max_msgs q \<noteq> 0" using cm c0 by auto
  then have tl: "mq_tail q < max_msgs q" and hm: "unat (mq_head q) = (?t + ?c) mod ?m"
    using i by (auto simp: mq_inv_def)
  have tm: "?t < ?m" using tl by (simp add: word_less_nat_alt)
  define q' where "q' = q\<lparr>mq_tail := (mq_tail q + 1) mod max_msgs q, cur_msgs := cur_msgs q - 1\<rparr>"
  have c': "unat (cur_msgs q - 1) = c0" using ne c0 by (simp add: unat_minus_one)
  have t': "unat ((mq_tail q + 1) mod max_msgs q) = Suc ?t mod ?m" using tl by (rule unat_ring_Suc)
  have upt0: "[0..<?c] = 0 # map Suc [0..<c0]" using c0 by (simp add: upt_conv_Cons map_Suc_upt)
  have items: "mq_items q = slot q ?t # map (\<lambda>j. slot q ((?t + Suc j) mod ?m)) [0..<c0]"
    using tm unfolding mq_items_def upt0 by (simp add: comp_def)
  have "mp_mq_receive q t = Some (0, q', Some (slot q ?t))"
    using ne slot_offset [OF i tl] slot_bound [OF i tm]
    by (simp add: mp_mq_receive_def q'_def mem_read_def slot_def)
  moreover have "mq_inv q'"
    using i nz hm tm t' c' c0 cm
    by (simp add: mq_inv_def q'_def word_le_nat_alt word_less_nat_alt mod_simps)
  moreover have "mq_items q' = tl (mq_items q)"
  proof -
    have "(Suc ?t mod ?m + j) mod ?m = (?t + Suc j) mod ?m" for j by (simp add: mod_simps)
    then show ?thesis using items t' c' by (simp add: mq_items_def q'_def slot_def)
  qed
  ultimately show ?thesis using items by (intro that [of q']) (simp_all add: q'_def)
qed

lemma length_mq_items [simp]: "length (mq_items q) = unat (cur_msgs q)"
  by (simp add: mq_items_def)

interpretation mq: bounded_fifo mq_inv mq_items mq_cap mq_fits mq_put mq_get
proof
  fix q x xs
  assume i: "mq_inv q"
  show "mq_fits q x \<Longrightarrow> \<not> length (mq_items q) < mq_cap q \<Longrightarrow> mq_put x q = Some (False, q)"
    by (simp add: mq_put_def send_full mq_cap_def word_less_nat_alt)
  show "mq_fits q x \<Longrightarrow> length (mq_items q) < mq_cap q \<Longrightarrow>
      \<exists>q'. mq_put x q = Some (True, q') \<and> mq_inv q' \<and> mq_items q' = mq_items q @ [x] \<and>
        mq_cap q' = mq_cap q \<and> mq_fits q' = mq_fits q"
    by (rule send_room [OF i, of x 0])
      (auto simp: mq_put_def mq_cap_def mq_fits_def word_less_nat_alt fun_eq_iff)
  show "mq_items q = [] \<Longrightarrow> mq_get q = Some (None, q)"
  proof -
    assume "mq_items q = []"
    then have "unat (cur_msgs q) = 0" by (metis length_mq_items list.size(3))
    then show ?thesis by (simp add: mq_get_def receive_empty unat_eq_0)
  qed
  show "mq_items q = x # xs \<Longrightarrow>
      \<exists>q'. mq_get q = Some (Some x, q') \<and> mq_inv q' \<and> mq_items q' = xs \<and>
        mq_cap q' = mq_cap q \<and> mq_fits q' = mq_fits q"
  proof -
    assume it: "mq_items q = x # xs"
    then have "cur_msgs q \<noteq> 0" by (metis length_mq_items list.size(3) list.distinct(1) length_0_conv unsigned_0)
    then show ?thesis
      by (rule receive_item [OF i, of 0]) (auto simp: mq_get_def mq_cap_def mq_fits_def fun_eq_iff it)
  qed
qed

section \<open>Properties\<close>

text \<open>
  C3. A queue set up by \<open>mp_mq_init\<close> on a buffer large enough for \<open>n\<close> messages of \<open>z\<close> bytes is,
  for every sequence of sends of \<open>z\<close>-byte messages and receives, indistinguishable from a bounded
  FIFO queue of \<open>n\<close> messages: sends are refused exactly when it is full, receives exactly when it
  is empty, messages come out unmodified and in order, and the buffer bounds are never exceeded.
\<close>

theorem mq_is_bounded_fifo:
  assumes "unat n * unat z \<le> length buf" and "length buf < 2 ^ 32"
    and "\<forall>x \<in> op_items ops. length x = unat z"
  shows "\<exists>q q'. mp_mq_init (Some q0) (Some buf) z n = (0, Some q) \<and>
    fifo_run (\<lambda>msg q. do { (r, q') \<leftarrow> mp_mq_send q msg 0; Some (r = 0, q') })
      (\<lambda>q. do { (r, q', d) \<leftarrow> mp_mq_receive q 0; Some (d, q') }) ops q
    = Some (fst (fifo_spec (unat n) ops []), q')"
proof -
  define q where "q = \<lparr>mq_buffer = buf, msg_size = z, max_msgs = n, cur_msgs = 0, mq_head = 0,
    mq_tail = 0, waiting_send = None, waiting_recv = None\<rparr>"
  have "mq_inv q" using assms(1,2) by (simp add: q_def mq_inv_def word_neq_0_conv)
  moreover have "\<forall>x \<in> op_items ops. mq_fits q x" using assms(3) by (simp add: q_def mq_fits_def)
  moreover have "mq_items q = []" "mq_cap q = unat n"
    by (simp_all add: q_def mq_items_def mq_cap_def)
  ultimately obtain q' where "fifo_run mq_put mq_get ops q = Some (fst (fifo_spec (unat n) ops []), q')"
    using mq.run_refines [of q ops] by auto
  then show ?thesis
    by (intro exI [of _ q] exI [of _ q']) (simp add: mp_mq_init_def q_def mq_put_def [abs_def] mq_get_def [abs_def])
qed

theorem mq_is_bounded_fifo_witness:
  "\<exists>q q'. mp_mq_init (Some (undefined :: mp_mq)) (Some (replicate 6 0)) 3 2 = (0, Some q) \<and>
    fifo_run (\<lambda>msg q. do { (r, q') \<leftarrow> mp_mq_send q msg 0; Some (r = 0, q') })
      (\<lambda>q. do { (r, q', d) \<leftarrow> mp_mq_receive q 0; Some (d, q') })
      [Put [1, 2, 3], Put [4, 5, 6], Put [7, 8, 9], Get, Get, Get] q
    = Some ([Accepted True, Accepted True, Accepted False, Got (Some [1, 2, 3]), Got (Some [4, 5, 6]), Got None], q')"
  using mq_is_bounded_fifo [of 2 3 "replicate 6 0"
    "[Put [1, 2, 3], Put [4, 5, 6], Put [7, 8, 9], Get, Get, Get]" undefined]
  by simp

end
