(* ===== verification/Timer.thy ===== *)
theory Timer
  imports Prelude
begin

text \<open>
  The software timers of \<open>src/kernel/timer.c\<close>: timer structures linked into one list, expired by a
  tick.  A timer is named by its address; a callback pointer is a number, and what calling it
  does to the system is the argument \<open>invoke\<close> of the tick.  The monotonic clock the source reads
  from the scheduler is the argument \<open>now\<close>.
\<close>

section \<open>Operations\<close>

record mp_timer =
  expiry_ms :: u64
  period_ms :: u32
  periodic :: bool
  callback :: "nat option"
  cb_arg :: u32
  timer_next :: "nat option"

record 'w timer_sys =
  timers :: "nat \<Rightarrow> mp_timer"
  timer_list :: "nat option"
  world :: 'w

definition upd_timer :: "nat \<Rightarrow> (mp_timer \<Rightarrow> mp_timer) \<Rightarrow> 'w timer_sys \<Rightarrow> 'w timer_sys" where
  "upd_timer p f s = s\<lparr>timers := (timers s)(p := f (timers s p))\<rparr>"

definition tnext :: "'w timer_sys \<Rightarrow> nat \<Rightarrow> nat option" where
  "tnext s p = timer_next (timers s p)"

definition set_tnext :: "nat \<Rightarrow> nat option \<Rightarrow> 'w timer_sys \<Rightarrow> 'w timer_sys" where
  "set_tnext p q = upd_timer p (\<lambda>t. t\<lparr>timer_next := q\<rparr>)"

definition set_thead :: "nat option \<Rightarrow> 'w timer_sys \<Rightarrow> 'w timer_sys" where
  "set_thead h s = s\<lparr>timer_list := h\<rparr>"

definition mp_timer_init :: "'w timer_sys \<Rightarrow> 'w timer_sys" where
  "mp_timer_init s = set_thead None s"

definition mp_timer_create ::
  "u64 \<Rightarrow> nat \<Rightarrow> u32 \<Rightarrow> u32 \<Rightarrow> bool \<Rightarrow> nat option \<Rightarrow> u32 \<Rightarrow> 'w timer_sys \<Rightarrow> 'w timer_sys" where
  "mp_timer_create now timer delay_ms period is_periodic cb arg s =
     upd_timer timer (\<lambda>t. \<lparr>expiry_ms = now + ucast delay_ms, period_ms = period,
       periodic = is_periodic, callback = cb, cb_arg = arg, timer_next = None\<rparr>) s"

partial_function (option) timer_listed :: "nat \<Rightarrow> nat option \<Rightarrow> 'w timer_sys \<Rightarrow> bool option" where
  "timer_listed timer cu s =
     (case cu of None \<Rightarrow> Some False
      | Some c \<Rightarrow> if c = timer then Some True else timer_listed timer (tnext s c) s)"

definition mp_timer_start :: "nat \<Rightarrow> 'w timer_sys \<Rightarrow> 'w timer_sys option" where
  "mp_timer_start timer s =
     do { found \<leftarrow> timer_listed timer (timer_list s) s;
          Some (if found then s else set_thead (Some timer) (set_tnext timer (timer_list s) s)) }"

partial_function (option) timer_unlink ::
  "nat \<Rightarrow> nat option \<Rightarrow> nat option \<Rightarrow> 'w timer_sys \<Rightarrow> 'w timer_sys option" where
  "timer_unlink timer cu prev s =
     (case cu of None \<Rightarrow> Some s
      | Some c \<Rightarrow>
          if c = timer
          then Some (case prev of None \<Rightarrow> set_thead (tnext s c) s
                     | Some q \<Rightarrow> set_tnext q (tnext s c) s)
          else timer_unlink timer (tnext s c) (Some c) s)"

definition mp_timer_stop :: "nat \<Rightarrow> 'w timer_sys \<Rightarrow> 'w timer_sys option" where
  "mp_timer_stop timer s = timer_unlink timer (timer_list s) None s"

text \<open>One iteration of the tick: what happens to the timer under the cursor.\<close>

definition timer_expire ::
  "(nat \<Rightarrow> u32 \<Rightarrow> 'w timer_sys \<Rightarrow> 'w timer_sys) \<Rightarrow> u64 \<Rightarrow> nat \<Rightarrow> 'w timer_sys \<Rightarrow> 'w timer_sys option" where
  "timer_expire invoke now c s =
     (if now \<ge> expiry_ms (timers s c)
      then let s1 = (case callback (timers s c) of None \<Rightarrow> s
                     | Some f \<Rightarrow> invoke f (cb_arg (timers s c)) s)
           in if periodic (timers s1 c)
              then Some (upd_timer c (\<lambda>t. t\<lparr>expiry_ms := now + ucast (period_ms t)\<rparr>) s1)
              else mp_timer_stop c s1
      else Some s)"

partial_function (option) timer_tick_loop ::
  "(nat \<Rightarrow> u32 \<Rightarrow> 'w timer_sys \<Rightarrow> 'w timer_sys) \<Rightarrow> u64 \<Rightarrow> nat option \<Rightarrow> 'w timer_sys \<Rightarrow> 'w timer_sys option" where
  "timer_tick_loop invoke now cu s =
     (case cu of None \<Rightarrow> Some s
      | Some c \<Rightarrow> do { s' \<leftarrow> timer_expire invoke now c s;
                      timer_tick_loop invoke now (tnext s' c) s' })"

definition mp_timer_tick ::
  "(nat \<Rightarrow> u32 \<Rightarrow> 'w timer_sys \<Rightarrow> 'w timer_sys) \<Rightarrow> u64 \<Rightarrow> 'w timer_sys \<Rightarrow> 'w timer_sys option" where
  "mp_timer_tick invoke now s = timer_tick_loop invoke now (timer_list s) s"

section \<open>The timer list as an instance of the threaded-list interface\<close>

lemma upd_timer_sel [simp]:
  "timers (upd_timer p f s) = (timers s)(p := f (timers s p))"
  "timer_list (upd_timer p f s) = timer_list s"
  "world (upd_timer p f s) = world s"
  by (simp_all add: upd_timer_def)

lemma tnext_upd [simp]:
  "(\<And>t. timer_next (f t) = timer_next t) \<Longrightarrow> tnext (upd_timer p f s) = tnext s"
  by (auto simp: tnext_def fun_eq_iff)

lemma tnext_world [simp]: "tnext (s\<lparr>world := w\<rparr>) = tnext s"
  by (simp add: tnext_def fun_eq_iff)

interpretation tl: threaded_list tnext set_tnext timer_list set_thead timer_unlink
proof
  fix s :: "'w timer_sys" and p q h t cu prev
  show "tnext (set_tnext p q s) = (tnext s)(p := q)"
    by (auto simp: tnext_def set_tnext_def)
  show "tnext (set_thead h s) = tnext s" by (auto simp: tnext_def set_thead_def)
  show "timer_list (set_thead h s) = h" by (simp add: set_thead_def)
  show "timer_list (set_tnext p q s) = timer_list s" by (simp add: set_tnext_def)
  show "timer_unlink t cu prev s =
      (case cu of None \<Rightarrow> Some s
       | Some c \<Rightarrow> if c = t
           then Some (case prev of None \<Rightarrow> set_thead (tnext s c) s
                      | Some q \<Rightarrow> set_tnext q (tnext s c) s)
           else timer_unlink t (tnext s c) (Some c) s)"
    by (rule timer_unlink.simps)
qed

definition active_timers :: "'w timer_sys \<Rightarrow> nat list \<Rightarrow> bool" where
  "active_timers s xs \<longleftrightarrow> linked (tnext s) (timer_list s) xs"

lemma timer_listed_result:
  "linked (tnext s) cu xs \<Longrightarrow> timer_listed t cu s = Some (t \<in> set xs)"
  by (induction xs arbitrary: cu) (simp_all add: timer_listed.simps)

lemma timer_start_result:
  assumes "active_timers s xs"
  shows "\<exists>s'. mp_timer_start t s = Some s' \<and> active_timers s' (if t \<in> set xs then xs else t # xs) \<and>
    world s' = world s"
proof -
  have l: "linked (tnext s) (timer_list s) xs" using assms by (simp add: active_timers_def)
  then have f: "timer_listed t (timer_list s) s = Some (t \<in> set xs)" by (rule timer_listed_result)
  show ?thesis
  proof (cases "t \<in> set xs")
    case True
    then show ?thesis using assms f by (simp add: mp_timer_start_def)
  next
    case False
    then show ?thesis
      using f tl.push_front [OF l False]
      by (simp add: mp_timer_start_def active_timers_def set_thead_def set_tnext_def)
  qed
qed

section \<open>One tick\<close>

text \<open>The contents of a timer without its link.\<close>

definition tdata :: "'w timer_sys \<Rightarrow> nat \<Rightarrow> mp_timer" where
  "tdata s c = (timers s c)\<lparr>timer_next := None\<rparr>"

lemma tdata_set [simp]:
  "tdata (set_tnext q v s) = tdata s" "tdata (set_thead h s) = tdata s"
  "world (set_tnext q v s) = world s" "world (set_thead h s) = world s"
  by (auto simp: tdata_def set_tnext_def set_thead_def fun_eq_iff)

lemma tdata_sel [simp]:
  "expiry_ms (tdata s c) = expiry_ms (timers s c)" "period_ms (tdata s c) = period_ms (timers s c)"
  "periodic (tdata s c) = periodic (timers s c)" "callback (tdata s c) = callback (timers s c)"
  "cb_arg (tdata s c) = cb_arg (timers s c)"
  by (simp_all add: tdata_def)

lemma tdata_world [simp]: "tdata (s\<lparr>world := w\<rparr>) = tdata s"
  by (simp add: tdata_def fun_eq_iff)

definition expired :: "u64 \<Rightarrow> mp_timer \<Rightarrow> bool" where
  "expired now t \<longleftrightarrow> expiry_ms t \<le> now"

definition fire :: "(nat \<Rightarrow> u32 \<Rightarrow> 'w \<Rightarrow> 'w) \<Rightarrow> mp_timer \<Rightarrow> 'w \<Rightarrow> 'w" where
  "fire eff t w = (case callback t of None \<Rightarrow> w | Some f \<Rightarrow> eff f (cb_arg t) w)"

definition rearm :: "u64 \<Rightarrow> mp_timer \<Rightarrow> mp_timer" where
  "rearm now t = (if expired now t \<and> periodic t then t\<lparr>expiry_ms := now + ucast (period_ms t)\<rparr> else t)"

text \<open>
  One iteration from the state where the cursor is at \<open>c\<close>, \<open>ys\<close> is the part of the list already
  passed and \<open>zs\<close> the part ahead.
\<close>

lemma timer_expire_step:
  assumes inv: "\<And>f a s. invoke f a s = s\<lparr>world := eff f a (world s)\<rparr>"
    and l: "linked (tnext s) (timer_list s) (ys @ c # zs)"
  defines "t \<equiv> tdata s c"
  obtains s' where "timer_expire invoke now c s = Some s'"
    and "linked (tnext s') (timer_list s') (ys @ (if expired now t \<and> \<not> periodic t then zs else c # zs))"
    and "tnext s' c = tnext s c"
    and "tdata s' = (tdata s)(c := rearm now t)"
    and "world s' = (if expired now t then fire eff t (world s) else world s)"
proof (cases "expired now t")
  case False
  then show ?thesis using l
    by (intro that [of s]) (auto simp: timer_expire_def expired_def t_def rearm_def fun_eq_iff)
next
  case True
  define s1 where "s1 = s\<lparr>world := fire eff t (world s)\<rparr>"
  have s1: "(case callback (timers s c) of None \<Rightarrow> s | Some f \<Rightarrow> invoke f (cb_arg (timers s c)) s) = s1"
    by (simp add: s1_def fire_def t_def inv split: option.splits)
  have nx: "tnext s1 = tnext s" and td: "tdata s1 = tdata s" and hd: "timer_list s1 = timer_list s"
    by (simp_all add: s1_def)
  have per: "periodic (timers s1 c) = periodic t" by (simp add: s1_def t_def)
  show ?thesis
  proof (cases "periodic t")
    case True
    let ?s' = "upd_timer c (\<lambda>t. t\<lparr>expiry_ms := now + ucast (period_ms t)\<rparr>) s1"
    show ?thesis
    proof (rule that [of ?s'])
      show "timer_expire invoke now c s = Some ?s'"
        using \<open>expired now t\<close> True s1 per by (simp add: timer_expire_def expired_def t_def)
      show "tdata ?s' = (tdata s)(c := rearm now t)"
        using \<open>expired now t\<close> True td by (auto simp: tdata_def rearm_def t_def s1_def fun_eq_iff)
    qed (use \<open>expired now t\<close> True l nx hd in \<open>simp_all add: s1_def\<close>)
  next
    case False
    have dist: "distinct (ys @ c # zs)" using l by (rule linked_distinct)
    then have rm: "remove1 c (ys @ c # zs) = ys @ zs" by (simp add: remove1_append)
    obtain s' where s': "timer_unlink c (timer_list s1) None s1 = Some s'"
      and l': "linked (tnext s') (timer_list s') (ys @ zs)"
      and form: "s' = s1 \<or> (\<exists>h. s' = set_thead h s1) \<or> (\<exists>q v. q \<in> set (ys @ c # zs) \<and> q \<noteq> c \<and> s' = set_tnext q v s1)"
      using tl.unlink_list [of s1 "ys @ c # zs" c] l nx hd rm by auto
    have "tnext s' c = tnext s c"
      using form nx by (auto simp: tl.nxt_set_nxt tl.nxt_set_head)
    moreover have "tdata s' = tdata s" "world s' = world s1" using form td by auto
    ultimately show ?thesis
      using \<open>expired now t\<close> False s1 per s' l'
      by (intro that [of s']) (auto simp: timer_expire_def expired_def t_def mp_timer_stop_def rearm_def s1_def fun_eq_iff)
  qed
qed

lemma timer_tick_loop_result:
  assumes inv: "\<And>f a s. invoke f a s = s\<lparr>world := eff f a (world s)\<rparr>"
  shows "linked (tnext s) (timer_list s) (ys @ zs) \<Longrightarrow> linked (tnext s) cu zs \<Longrightarrow>
    \<exists>s'. timer_tick_loop invoke now cu s = Some s' \<and>
      linked (tnext s') (timer_list s') (ys @ filter (\<lambda>c. \<not> (expired now (tdata s c) \<and> \<not> periodic (tdata s c))) zs) \<and>
      (\<forall>c. tdata s' c = (if c \<in> set zs then rearm now (tdata s c) else tdata s c)) \<and>
      world s' = fold (\<lambda>c. fire eff (tdata s c)) (filter (\<lambda>c. expired now (tdata s c)) zs) (world s)"
proof (induction zs arbitrary: ys cu s)
  case Nil
  then show ?case by (simp add: timer_tick_loop.simps)
next
  case (Cons c zs)
  have cu: "cu = Some c" and cn: "linked (tnext s) (tnext s c) zs" using Cons.prems(2) by auto
  have dist: "distinct (ys @ c # zs)" using Cons.prems(1) by (rule linked_distinct)
  let ?t = "tdata s c"
  let ?ys = "if expired now ?t \<and> \<not> periodic ?t then ys else ys @ [c]"
  obtain s1 where s1: "timer_expire invoke now c s = Some s1"
    and l0: "linked (tnext s1) (timer_list s1) (ys @ (if expired now ?t \<and> \<not> periodic ?t then zs else c # zs))"
    and n1: "tnext s1 c = tnext s c"
    and d1: "tdata s1 = (tdata s)(c := rearm now ?t)"
    and w1: "world s1 = (if expired now ?t then fire eff ?t (world s) else world s)"
    by (rule timer_expire_step [where invoke = invoke and eff = eff and now = now, OF inv Cons.prems(1)])
  have l1: "linked (tnext s1) (timer_list s1) (?ys @ zs)" using l0 by (cases "expired now ?t \<and> \<not> periodic ?t") auto
  obtain m where m: "linked (tnext s1) m zs" using l1 by (auto simp: linked_append)
  have "linked (tnext s1) (tnext s1 c) zs"
    using m linked_same_head [OF cn m] n1 by simp
  from Cons.IH [OF l1 this] obtain s' where
    s': "timer_tick_loop invoke now (tnext s1 c) s1 = Some s'"
      "linked (tnext s') (timer_list s') (?ys @ filter (\<lambda>c. \<not> (expired now (tdata s1 c) \<and> \<not> periodic (tdata s1 c))) zs)"
      "\<forall>x. tdata s' x = (if x \<in> set zs then rearm now (tdata s1 x) else tdata s1 x)"
      "world s' = fold (\<lambda>c. fire eff (tdata s1 c)) (filter (\<lambda>c. expired now (tdata s1 c)) zs) (world s1)"
    by blast
  have same: "\<forall>x \<in> set zs. tdata s1 x = tdata s x" using dist d1 by auto
  have f1: "filter (\<lambda>c. \<not> (expired now (tdata s1 c) \<and> \<not> periodic (tdata s1 c))) zs
      = filter (\<lambda>c. \<not> (expired now (tdata s c) \<and> \<not> periodic (tdata s c))) zs"
    "filter (\<lambda>c. expired now (tdata s1 c)) zs = filter (\<lambda>c. expired now (tdata s c)) zs"
    using same by (simp_all del: tdata_sel cong: filter_cong)
  have f2: "fold (\<lambda>c. fire eff (tdata s1 c)) (filter (\<lambda>c. expired now (tdata s c)) zs) w
      = fold (\<lambda>c. fire eff (tdata s c)) (filter (\<lambda>c. expired now (tdata s c)) zs) w" for w
    using same by (intro List.fold_cong) (auto simp del: tdata_sel)
  show ?case
  proof (intro exI [of _ s'] conjI allI)
    show "timer_tick_loop invoke now cu s = Some s'"
      using s1 s'(1) cu by (simp add: timer_tick_loop.simps [of invoke now "Some c"])
    fix x
    show "tdata s' x = (if x \<in> set (c # zs) then rearm now (tdata s x) else tdata s x)"
      using s'(3) d1 dist by auto
  qed (use s'(2,4) f1 f2 w1 in \<open>auto split: if_splits\<close>)
qed

section \<open>Properties\<close>

text \<open>
  C4. One tick at time \<open>now\<close>, with callbacks that act on the rest of the system, fires exactly the
  expired timers with a callback, once each and in list order; it removes the expired one-shot
  timers from the list, keeps the order of the others, sets each expired periodic timer to
  \<open>now + period\<close> and changes no other timer.  It returns for every well-formed list, although
  timers are removed during the walk.
\<close>

theorem timer_tick_fires_expired:
  assumes "active_timers s xs" and "\<forall>f a s. invoke f a s = s\<lparr>world := eff f a (world s)\<rparr>"
  shows "\<exists>s'. mp_timer_tick invoke now s = Some s' \<and>
    active_timers s' (filter (\<lambda>c. now < expiry_ms (timers s c) \<or> periodic (timers s c)) xs) \<and>
    (\<forall>c \<in> set xs. expiry_ms (timers s' c) =
      (if expiry_ms (timers s c) \<le> now \<and> periodic (timers s c)
       then now + ucast (period_ms (timers s c)) else expiry_ms (timers s c))) \<and>
    (\<forall>c. c \<notin> set xs \<longrightarrow> tdata s' c = tdata s c) \<and>
    world s' = fold (\<lambda>c w. case callback (timers s c) of None \<Rightarrow> w | Some f \<Rightarrow> eff f (cb_arg (timers s c)) w)
      (filter (\<lambda>c. expiry_ms (timers s c) \<le> now) xs) (world s)"
proof -
  have inv: "\<And>f a s. invoke f a s = s\<lparr>world := eff f a (world s)\<rparr>" using assms(2) by blast
  have l: "linked (tnext s) (timer_list s) ([] @ xs)" "linked (tnext s) (timer_list s) xs"
    using assms(1) by (simp_all add: active_timers_def)
  obtain s' where s': "timer_tick_loop invoke now (timer_list s) s = Some s'"
    "linked (tnext s') (timer_list s') (filter (\<lambda>c. \<not> (expired now (tdata s c) \<and> \<not> periodic (tdata s c))) xs)"
    "\<forall>c. tdata s' c = (if c \<in> set xs then rearm now (tdata s c) else tdata s c)"
    "world s' = fold (\<lambda>c. fire eff (tdata s c)) (filter (\<lambda>c. expired now (tdata s c)) xs) (world s)"
    using timer_tick_loop_result [where invoke = invoke and eff = eff and now = now, OF inv l] by auto
  have "expiry_ms (timers s' c) = expiry_ms (tdata s' c)" for c by simp
  moreover have "(\<lambda>c. fire eff (tdata s c)) =
      (\<lambda>c w. case callback (timers s c) of None \<Rightarrow> w | Some f \<Rightarrow> eff f (cb_arg (timers s c)) w)"
    by (auto simp: fire_def fun_eq_iff split: option.splits)
  moreover have "filter (\<lambda>c. \<not> (expired now (tdata s c) \<and> \<not> periodic (tdata s c))) xs
      = filter (\<lambda>c. now < expiry_ms (timers s c) \<or> periodic (timers s c)) xs"
    by (auto simp: expired_def not_le intro!: filter_cong)
  ultimately show ?thesis using s'
    by (intro exI [of _ s']) (auto simp: mp_timer_tick_def active_timers_def rearm_def expired_def)
qed

definition demo_timers :: "(nat \<times> u32) list timer_sys" where
  "demo_timers = \<lparr>timers = (\<lambda>i. if i = 1
       then \<lparr>expiry_ms = 10, period_ms = 5, periodic = True, callback = Some 7, cb_arg = 1, timer_next = Some 2\<rparr>
       else \<lparr>expiry_ms = 8, period_ms = 0, periodic = False, callback = Some 9, cb_arg = 2, timer_next = None\<rparr>),
     timer_list = Some 1, world = []\<rparr>"

theorem timer_tick_fires_expired_witness:
  "\<exists>s'. mp_timer_tick (\<lambda>f a s. s\<lparr>world := world s @ [(f, a)]\<rparr>) 12 demo_timers = Some s' \<and>
     active_timers s' [1] \<and> expiry_ms (timers s' 1) = 17 \<and> world s' = [(7, 1), (9, 2)]"
proof -
  have "active_timers demo_timers [1, 2]"
    by (simp add: active_timers_def demo_timers_def tnext_def)
  from timer_tick_fires_expired [OF this, of "\<lambda>f a s. s\<lparr>world := world s @ [(f, a)]\<rparr>"
      "\<lambda>f a w. w @ [(f, a)]" 12]
  show ?thesis by (auto simp: demo_timers_def)
qed

text \<open>
  Starting a timer is idempotent and puts a timer that is not active at the front of the list
  without disturbing the others; stopping removes exactly that timer; both return on every
  well-formed list.
\<close>

theorem timer_start_stop:
  assumes "active_timers s xs"
  shows "\<exists>s1. mp_timer_start t s = Some s1 \<and> active_timers s1 (if t \<in> set xs then xs else t # xs) \<and>
    mp_timer_start t s1 = Some s1 \<and>
    (\<forall>u. \<exists>s2. mp_timer_stop u s1 = Some s2 \<and>
      active_timers s2 (remove1 u (if t \<in> set xs then xs else t # xs)))"
proof -
  obtain s1 where s1: "mp_timer_start t s = Some s1" "active_timers s1 (if t \<in> set xs then xs else t # xs)"
    using timer_start_result [OF assms] by blast
  have "timer_listed t (timer_list s1) s1 = Some True"
    using timer_listed_result [OF s1(2) [unfolded active_timers_def]] by (simp split: if_splits)
  then have "mp_timer_start t s1 = Some s1" by (simp add: mp_timer_start_def)
  moreover have "\<exists>s2. mp_timer_stop u s1 = Some s2 \<and>
      active_timers s2 (remove1 u (if t \<in> set xs then xs else t # xs))" for u
    using tl.unlink_list [OF s1(2) [unfolded active_timers_def], of u]
    by (metis mp_timer_stop_def active_timers_def)
  ultimately show ?thesis using s1 by blast
qed

theorem timer_start_stop_witness:
  "\<exists>s1. mp_timer_start 3 demo_timers = Some s1 \<and> active_timers s1 [3, 1, 2]"
proof -
  have "active_timers demo_timers [1, 2]"
    by (simp add: active_timers_def demo_timers_def tnext_def)
  from timer_start_stop [OF this, of 3] show ?thesis by auto
qed

end
