(* ===== verification/Watchdog.thy ===== *)
theory Watchdog
  imports Prelude
begin

text \<open>
  The software watchdog of \<open>src/kernel/watchdog.c\<close>: a table of \<open>MAX_WDT_ENTRIES\<close> check-in times.
  The 64-bit monotonic clock is the argument \<open>now\<close>; the code truncates it to 32 bits.  The log
  messages of the supervisor are its result, the list of the thread ids reported.
\<close>

section \<open>Operations\<close>

record mp_wdt_entry =
  wdt_thread_id :: u32
  last_check_in :: u32
  wdt_active :: bool

record wdt =
  wdt_table :: "mp_wdt_entry list"
  wdt_timeout_ms :: u32

definition MAX_WDT_ENTRIES :: nat where
  "MAX_WDT_ENTRIES = 32"

definition mp_wdt_init :: "u32 \<Rightarrow> wdt \<Rightarrow> wdt" where
  "mp_wdt_init timeout_ms w =
     w\<lparr>wdt_timeout_ms := timeout_ms, wdt_table := map (\<lambda>e. e\<lparr>wdt_active := False\<rparr>) (wdt_table w)\<rparr>"

definition mp_wdt_register :: "u64 \<Rightarrow> u32 \<Rightarrow> wdt \<Rightarrow> wdt" where
  "mp_wdt_register now thread_id w =
     (case find (\<lambda>i. \<not> wdt_active (wdt_table w ! i)) [0..<MAX_WDT_ENTRIES] of
        None \<Rightarrow> w
      | Some i \<Rightarrow> w\<lparr>wdt_table := (wdt_table w)[i :=
          (wdt_table w ! i)\<lparr>wdt_thread_id := thread_id, last_check_in := ucast now, wdt_active := True\<rparr>]\<rparr>)"

definition mp_wdt_check_in :: "u64 \<Rightarrow> u32 \<Rightarrow> wdt \<Rightarrow> wdt" where
  "mp_wdt_check_in now thread_id w =
     (case find (\<lambda>i. wdt_active (wdt_table w ! i) \<and> wdt_thread_id (wdt_table w ! i) = thread_id)
             [0..<MAX_WDT_ENTRIES] of
        None \<Rightarrow> w
      | Some i \<Rightarrow> w\<lparr>wdt_table := (wdt_table w)[i := (wdt_table w ! i)\<lparr>last_check_in := ucast now\<rparr>]\<rparr>)"

definition mp_wdt_supervisor_tick :: "u64 \<Rightarrow> wdt \<Rightarrow> u32 list" where
  "mp_wdt_supervisor_tick now64 w =
     (let now = ucast now64 :: u32 in
      map (\<lambda>i. wdt_thread_id (wdt_table w ! i))
        (filter (\<lambda>i. wdt_active (wdt_table w ! i) \<and> now - last_check_in (wdt_table w ! i) > wdt_timeout_ms w)
          [0..<MAX_WDT_ENTRIES]))"

section \<open>Watched threads\<close>

text \<open>
  \<open>watched w t c\<close>: thread \<open>t\<close> has exactly one active entry, last checked in at 64-bit time \<open>c\<close>.
\<close>

definition entry_of :: "wdt \<Rightarrow> u32 \<Rightarrow> u64 \<Rightarrow> nat \<Rightarrow> bool" where
  "entry_of w t c i \<longleftrightarrow> length (wdt_table w) = MAX_WDT_ENTRIES \<and> i < MAX_WDT_ENTRIES \<and>
     wdt_active (wdt_table w ! i) \<and> wdt_thread_id (wdt_table w ! i) = t \<and>
     last_check_in (wdt_table w ! i) = ucast c \<and>
     (\<forall>j < MAX_WDT_ENTRIES. wdt_active (wdt_table w ! j) \<longrightarrow> wdt_thread_id (wdt_table w ! j) = t \<longrightarrow> j = i)"

definition watched :: "wdt \<Rightarrow> u32 \<Rightarrow> u64 \<Rightarrow> bool" where
  "watched w t c = (\<exists>i. entry_of w t c i)"

text \<open>The 32-bit difference of truncated clocks is the true elapsed time while that fits 32 bits.\<close>

lemma elapsed_truncated:
  fixes c now :: u64
  assumes "c \<le> now" and "unat now - unat c < 2 ^ 32"
  shows "unat (ucast now - ucast c :: u32) = unat now - unat c"
proof -
  have "unat (ucast now - ucast c :: u32) = unat (now - c) mod 2 ^ 32"
    by (simp only: ucast_diff_u32 [symmetric] unat_ucast_u32)
  also have "unat (now - c) = unat now - unat c" using assms(1) by (rule unat_sub)
  finally show ?thesis using assms(2) by simp
qed

lemma register_new:
  assumes len: "length (wdt_table w) = MAX_WDT_ENTRIES"
    and free: "i < MAX_WDT_ENTRIES" "\<not> wdt_active (wdt_table w ! i)"
    and fresh: "\<And>j. j < MAX_WDT_ENTRIES \<Longrightarrow> wdt_active (wdt_table w ! j) \<Longrightarrow> wdt_thread_id (wdt_table w ! j) \<noteq> t"
  shows "watched (mp_wdt_register now t w) t now"
proof -
  let ?f = "find (\<lambda>i. \<not> wdt_active (wdt_table w ! i)) [0..<MAX_WDT_ENTRIES]"
  obtain k where k: "?f = Some k" using free by (cases ?f) (auto simp: find_upt_None)
  then have "k < MAX_WDT_ENTRIES" by (auto dest: find_upt_Some)
  then have "entry_of (mp_wdt_register now t w) t now k"
    using k len fresh by (auto simp: entry_of_def mp_wdt_register_def nth_list_update)
  then show ?thesis unfolding watched_def by blast
qed

lemma check_in_watched:
  assumes "watched w t c"
  shows "watched (mp_wdt_check_in now t w) t now"
proof -
  obtain i where i: "entry_of w t c i" using assms unfolding watched_def by blast
  have f: "find (\<lambda>i. wdt_active (wdt_table w ! i) \<and> wdt_thread_id (wdt_table w ! i) = t)
      [0..<MAX_WDT_ENTRIES] = Some i"
    using i by (intro find_upt_first) (auto simp: entry_of_def)
  have "entry_of (mp_wdt_check_in now t w) t now i"
    using i f by (auto simp: entry_of_def mp_wdt_check_in_def nth_list_update)
  then show ?thesis unfolding watched_def by blast
qed

lemma check_in_other:
  assumes "watched w t c" and "u \<noteq> t"
  shows "watched (mp_wdt_check_in now u w) t c"
proof -
  let ?f = "find (\<lambda>i. wdt_active (wdt_table w ! i) \<and> wdt_thread_id (wdt_table w ! i) = u) [0..<MAX_WDT_ENTRIES]"
  obtain i where i: "entry_of w t c i" using assms(1) unfolding watched_def by blast
  show ?thesis
  proof (cases ?f)
    case None
    then show ?thesis using assms(1) by (simp add: mp_wdt_check_in_def)
  next
    case (Some k)
    then have k: "k < MAX_WDT_ENTRIES" "wdt_thread_id (wdt_table w ! k) = u" by (auto dest: find_upt_Some)
    then have "k \<noteq> i" using i assms(2) by (auto simp: entry_of_def)
    then have "entry_of (mp_wdt_check_in now u w) t c i"
      using i k assms(2) Some by (auto simp: entry_of_def mp_wdt_check_in_def nth_list_update)
    then show ?thesis unfolding watched_def by blast
  qed
qed

lemma tick_reports:
  "t \<in> set (mp_wdt_supervisor_tick now w) \<longleftrightarrow>
     (\<exists>i. i < MAX_WDT_ENTRIES \<and> wdt_active (wdt_table w ! i) \<and> wdt_thread_id (wdt_table w ! i) = t \<and>
        ucast now - last_check_in (wdt_table w ! i) > wdt_timeout_ms w)"
  by (auto simp add: mp_wdt_supervisor_tick_def Let_def simp del: not_less)

section \<open>Properties\<close>

text \<open>
  C9. The supervisor reports a watched thread exactly when more than the timeout has really
  elapsed since its last check-in, across any number of wrap-arounds of the truncated 32-bit
  clock, as long as it is polled less than \<open>2^32\<close> ms after that check-in; a check-in of the
  thread restarts the period, and check-ins of other threads do not.
\<close>

theorem wdt_reports_exactly_late_threads:
  assumes "watched w t c" and "c \<le> now" and "unat now - unat c < 2 ^ 32"
  shows "(t \<in> set (mp_wdt_supervisor_tick now w) \<longleftrightarrow> unat now - unat c > unat (wdt_timeout_ms w)) \<and>
    watched (mp_wdt_check_in now t w) t now \<and>
    (\<forall>u. u \<noteq> t \<longrightarrow> watched (mp_wdt_check_in now u w) t c)"
proof (intro conjI allI impI)
  obtain i where i: "entry_of w t c i" using assms(1) unfolding watched_def by blast
  have "t \<in> set (mp_wdt_supervisor_tick now w) \<longleftrightarrow> (ucast now - ucast c :: u32) > wdt_timeout_ms w"
    unfolding tick_reports using i unfolding entry_of_def by metis
  then show "t \<in> set (mp_wdt_supervisor_tick now w) \<longleftrightarrow> unat now - unat c > unat (wdt_timeout_ms w)"
    using elapsed_truncated [OF assms(2,3)] by (simp add: word_less_nat_alt)
  show "watched (mp_wdt_check_in now t w) t now" by (rule check_in_watched [OF assms(1)])
  show "watched (mp_wdt_check_in now u w) t c" if "u \<noteq> t" for u
    by (rule check_in_other [OF assms(1) that])
qed

definition empty_wdt :: wdt where
  "empty_wdt = \<lparr>wdt_table = replicate MAX_WDT_ENTRIES \<lparr>wdt_thread_id = 0, last_check_in = 0, wdt_active = False\<rparr>,
     wdt_timeout_ms = 5000\<rparr>"

lemma empty_wdt_register: "watched (mp_wdt_register now t empty_wdt) t now"
  by (rule register_new [of _ 0]) (simp_all add: empty_wdt_def MAX_WDT_ENTRIES_def)

lemma empty_wdt_timeout: "wdt_timeout_ms empty_wdt = 5000"
  by (simp add: empty_wdt_def)

lemma register_timeout [simp]: "wdt_timeout_ms (mp_wdt_register now t w) = wdt_timeout_ms w"
  by (simp add: mp_wdt_register_def split: option.splits)

text \<open>Registered just before the 32-bit clock wraps, polled just after it.\<close>

theorem wdt_reports_exactly_late_threads_witness:
  "4 \<notin> set (mp_wdt_supervisor_tick 0x100000010 (mp_wdt_register 0xFFFFFFF0 4 empty_wdt)) \<and>
   4 \<in> set (mp_wdt_supervisor_tick 0x100002000 (mp_wdt_register 0xFFFFFFF0 4 empty_wdt))"
  using wdt_reports_exactly_late_threads [OF empty_wdt_register, of "0xFFFFFFF0" "0x100000010" 4]
    wdt_reports_exactly_late_threads [OF empty_wdt_register, of "0xFFFFFFF0" "0x100002000" 4]
  by (simp add: empty_wdt_timeout)

end
