(* ===== verification/Memory.thy ===== *)
theory Memory
  imports Prelude
begin

text \<open>
  The byte-addressed memory the memory managers work on.  An address is a 32-bit word, \<open>NULL\<close>
  is address 0, and an address outside every object is unmapped: an access to it is undefined
  (\<^term>\<open>None\<close>).  Multi-byte values are little-endian, as on every supported MCU.
\<close>

type_synonym memory = "uintptr \<Rightarrow> u8 option"

definition NULL :: uintptr where
  "NULL = 0"

section \<open>Little-endian values\<close>

primrec le_bytes :: "nat \<Rightarrow> nat \<Rightarrow> u8 list" where
  "le_bytes 0 x = []"
| "le_bytes (Suc n) x = of_nat x # le_bytes n (x div 256)"

fun le_val :: "u8 list \<Rightarrow> nat" where
  "le_val [] = 0"
| "le_val (b # bs) = unat b + 256 * le_val bs"

lemma length_le_bytes [simp]: "length (le_bytes n x) = n"
  by (induction n arbitrary: x) simp_all

lemma unat_u8_of_nat [simp]: "unat (of_nat x :: u8) = x mod 256"
  by (simp add: unsigned_of_nat take_bit_eq_mod)

lemma le_val_bytes: "le_val (le_bytes n x) = x mod 256 ^ n"
proof (induction n arbitrary: x)
  case (Suc n)
  then show ?case by (simp add: mod_mult2_eq)
qed simp

lemma le_bytes_val: "le_bytes (length bs) (le_val bs) = bs"
proof (induction bs)
  case (Cons b bs)
  have "unat b < 256" using unat_bound [of b] by simp
  then have "(of_nat (unat b + 256 * le_val bs) :: u8) = b"
    by (simp only: word_unat_eq_iff unat_u8_of_nat) simp
  moreover have "(unat b + 256 * le_val bs) div 256 = le_val bs"
    using \<open>unat b < 256\<close> by simp
  ultimately show ?case using Cons by (simp only: le_bytes.simps le_val.simps list.size) simp
qed simp

lemma le_val_bound: "le_val bs < 256 ^ length bs"
proof (induction bs)
  case (Cons b bs)
  have "unat b < 256" using unat_bound [of b] by simp
  with Cons show ?case by simp
qed simp

section \<open>Blocks of bytes\<close>

primrec load_bytes :: "memory \<Rightarrow> nat \<Rightarrow> uintptr \<Rightarrow> u8 list option" where
  "load_bytes m 0 p = Some []"
| "load_bytes m (Suc n) p = do { b \<leftarrow> m p; bs \<leftarrow> load_bytes m n (p + 1); Some (b # bs) }"

fun store_bytes :: "u8 list \<Rightarrow> uintptr \<Rightarrow> memory \<Rightarrow> memory option" where
  "store_bytes [] p m = Some m"
| "store_bytes (b # bs) p m =
     (case m p of None \<Rightarrow> None | Some _ \<Rightarrow> store_bytes bs (p + 1) (m(p \<mapsto> b)))"

definition span :: "uintptr \<Rightarrow> nat \<Rightarrow> uintptr set" where
  "span p n = (\<lambda>i. p + of_nat i) ` {..<n}"

definition fits :: "uintptr \<Rightarrow> nat \<Rightarrow> bool" where
  "fits p n \<longleftrightarrow> unat p + n \<le> 2 ^ 32"

lemma span_0 [simp]: "span p 0 = {}"
  by (simp add: span_def)

lemma span_Suc: "span p (Suc n) = insert p (span (p + 1) n)"
proof -
  have "{..<Suc n} = insert 0 (Suc ` {..<n})" by (rule lessThan_Suc_eq_insert_0)
  then show ?thesis by (simp add: span_def image_image add.assoc)
qed

lemma span_mono: "n \<le> k \<Longrightarrow> span p n \<subseteq> span p k"
  by (auto simp: span_def)

lemma span_in: "i < n \<Longrightarrow> p + of_nat i \<in> span p n"
  by (auto simp: span_def)

lemma unat_offset: "fits p n \<Longrightarrow> i < n \<Longrightarrow> unat (p + of_nat i) = unat p + i"
  by (simp add: fits_def unat_word_ariths unsigned_of_nat take_bit_eq_mod)

lemma in_span_iff:
  assumes "fits p n"
  shows "q \<in> span p n \<longleftrightarrow> unat p \<le> unat q \<and> unat q < unat p + n"
proof
  assume "q \<in> span p n"
  then show "unat p \<le> unat q \<and> unat q < unat p + n"
    using unat_offset [OF assms] by (auto simp: span_def)
next
  assume q: "unat p \<le> unat q \<and> unat q < unat p + n"
  then have "unat (p + of_nat (unat q - unat p)) = unat q"
    using unat_offset [OF assms, of "unat q - unat p"] by simp
  then have "q = p + of_nat (unat q - unat p)" by (simp only: word_unat_eq_iff)
  then show "q \<in> span p n" using q span_in [of "unat q - unat p" n p] by (metis less_diff_conv2 add.commute)
qed

lemma span_disjoint:
  "fits p n \<Longrightarrow> fits q k \<Longrightarrow> unat p + n \<le> unat q \<or> unat q + k \<le> unat p \<Longrightarrow> span p n \<inter> span q k = {}"
  by (auto simp: in_span_iff)

lemma load_bytes_iff:
  "load_bytes m n p = Some bs \<longleftrightarrow> length bs = n \<and> (\<forall>i < n. m (p + of_nat i) = Some (bs ! i))"
proof (induction n arbitrary: p bs)
  case (Suc n)
  show ?case
  proof (cases bs)
    case (Cons b cs)
    have "load_bytes m (Suc n) p = Some (b # cs) \<longleftrightarrow> m p = Some b \<and> load_bytes m n (p + 1) = Some cs"
      by (auto split: bind_splits)
    also have "\<dots> \<longleftrightarrow> length cs = n \<and> (\<forall>i < Suc n. m (p + of_nat i) = Some ((b # cs) ! i))"
      unfolding Suc by (auto simp: All_less_Suc2 add.assoc)
    finally show ?thesis using Cons by simp
  qed (auto split: bind_splits)
qed auto

lemma load_bytes_length: "load_bytes m n p = Some bs \<Longrightarrow> length bs = n"
  by (simp add: load_bytes_iff)

lemma load_bytes_cong:
  "(\<And>q. q \<in> span p n \<Longrightarrow> m q = m' q) \<Longrightarrow> load_bytes m n p = load_bytes m' n p"
  by (induction n arbitrary: p) (simp_all add: span_Suc)

lemma load_bytes_mapped: "load_bytes m n p \<noteq> None \<longleftrightarrow> span p n \<subseteq> dom m"
proof (induction n arbitrary: p)
  case (Suc n)
  show ?case
    using Suc [of "p + 1"] by (cases "m p"; cases "load_bytes m n (p + 1)") (simp_all add: span_Suc domIff)
qed simp

lemma load_bytes_part:
  assumes "load_bytes m n p = Some bs" and "a + k \<le> n"
  shows "load_bytes m k (p + of_nat a) = Some (take k (drop a bs))"
  using assms by (auto simp: load_bytes_iff add.assoc simp flip: of_nat_add)

lemma dom_overwrite: "m p = Some x \<Longrightarrow> dom (m(p \<mapsto> b)) = dom m"
  by (auto simp: insert_absorb)

lemma store_bytes_dom: "store_bytes bs p m = Some m' \<Longrightarrow> dom m' = dom m"
proof (induction bs p m rule: store_bytes.induct)
  case (2 b bs p m)
  then show ?case by (cases "m p") (auto simp only: store_bytes.simps option.case dom_overwrite)
qed simp

lemma store_bytes_defined: "store_bytes bs p m \<noteq> None \<longleftrightarrow> span p (length bs) \<subseteq> dom m"
proof (induction bs p m rule: store_bytes.induct)
  case (2 b bs p m)
  show ?case
  proof (cases "m p")
    case (Some x)
    then have "p \<in> dom m" by blast
    then show ?thesis using 2 [OF Some] Some
      by (simp only: store_bytes.simps option.case dom_overwrite span_Suc list.size insert_subset)
        (simp add: add.commute span_Suc)
  qed (auto simp: span_Suc)
qed simp

lemma store_bytes_other: "store_bytes bs p m = Some m' \<Longrightarrow> q \<notin> span p (length bs) \<Longrightarrow> m' q = m q"
  by (induction bs p m rule: store_bytes.induct) (auto simp: span_Suc split: option.splits)

lemma store_bytes_same:
  "store_bytes bs p m = Some m' \<Longrightarrow> fits p (length bs) \<Longrightarrow> load_bytes m' (length bs) p = Some bs"
proof (induction bs p m rule: store_bytes.induct)
  case (2 b bs p m)
  have np: "p \<notin> span (p + 1) (length bs)"
  proof (cases bs)
    case (Cons c cs)
    then have "unat (p + 1) = unat p + 1" using 2(3) unat_offset [of p "length (b # bs)" 1] by simp
    moreover have "fits (p + 1) (length bs)" using 2(3) calculation by (simp add: fits_def)
    ultimately show ?thesis by (simp add: in_span_iff)
  qed simp
  have f: "fits (p + 1) (length bs)"
  proof (cases bs)
    case (Cons c cs)
    then have "unat (p + 1) = unat p + 1" using 2(3) unat_offset [of p "length (b # bs)" 1] by simp
    then show ?thesis using 2(3) by (simp add: fits_def)
  qed (use unat_bound [of "p + 1"] in \<open>simp add: fits_def\<close>)
  obtain x where x: "m p = Some x" and s: "store_bytes bs (p + 1) (m(p \<mapsto> b)) = Some m'"
    using 2(2) by (auto split: option.splits)
  have "m' p = Some b" using store_bytes_other [OF s np] by simp
  then show ?case using 2(1) [OF x s f] by simp
qed simp

lemma load_store_other:
  "store_bytes bs p m = Some m' \<Longrightarrow> span p (length bs) \<inter> span q n = {} \<Longrightarrow>
   load_bytes m' n q = load_bytes m n q"
  by (rule load_bytes_cong) (auto dest: store_bytes_other)

section \<open>The string functions of the C library\<close>

definition memmove :: "memory \<Rightarrow> uintptr \<Rightarrow> uintptr \<Rightarrow> nat \<Rightarrow> memory option" where
  "memmove m dst src n = do { bs \<leftarrow> load_bytes m n src; store_bytes bs dst m }"

text \<open>\<open>memcpy\<close> on overlapping regions is undefined.\<close>

definition overlapping :: "uintptr \<Rightarrow> uintptr \<Rightarrow> nat \<Rightarrow> bool" where
  "overlapping p q n \<longleftrightarrow> unat (p - q) < n \<or> unat (q - p) < n"

definition memcpy :: "memory \<Rightarrow> uintptr \<Rightarrow> uintptr \<Rightarrow> nat \<Rightarrow> memory option" where
  "memcpy m dst src n = (if overlapping dst src n then None else memmove m dst src n)"

definition memset :: "memory \<Rightarrow> uintptr \<Rightarrow> u8 \<Rightarrow> nat \<Rightarrow> memory option" where
  "memset m dst b n = store_bytes (replicate n b) dst m"

fun byte_cmp :: "u8 list \<Rightarrow> u8 list \<Rightarrow> int" where
  "byte_cmp (a # as) (b # bs) = (if a = b then byte_cmp as bs else uint a - uint b)"
| "byte_cmp _ _ = 0"

text \<open>The result of \<open>memcmp\<close> is the difference of the first two bytes that differ.\<close>

definition memcmp :: "memory \<Rightarrow> uintptr \<Rightarrow> uintptr \<Rightarrow> nat \<Rightarrow> int option" where
  "memcmp m p q n = do { as \<leftarrow> load_bytes m n p; bs \<leftarrow> load_bytes m n q; Some (byte_cmp as bs) }"

lemma not_overlapping:
  assumes "span p n \<inter> span q n = {}"
  shows "\<not> overlapping p q n"
proof
  assume "overlapping p q n"
  then consider "unat (p - q) < n" | "unat (q - p) < n" unfolding overlapping_def by blast
  then show False
  proof cases
    case 1
    then have "q + of_nat (unat (p - q)) \<in> span q n" by (rule span_in)
    moreover have "p + of_nat 0 \<in> span p n" using 1 by (intro span_in) simp
    ultimately show False using assms by auto
  next
    case 2
    then have "p + of_nat (unat (q - p)) \<in> span p n" by (rule span_in)
    moreover have "q + of_nat 0 \<in> span q n" using 2 by (intro span_in) simp
    ultimately show False using assms by auto
  qed
qed

section \<open>32-bit words in memory\<close>

definition load32 :: "memory \<Rightarrow> uintptr \<Rightarrow> u32 option" where
  "load32 m p = map_option (\<lambda>bs. of_nat (le_val bs)) (load_bytes m 4 p)"

definition store32 :: "u32 \<Rightarrow> uintptr \<Rightarrow> memory \<Rightarrow> memory option" where
  "store32 w p m = store_bytes (le_bytes 4 (unat w)) p m"

lemma load32_mapped: "span p 4 \<subseteq> dom m \<Longrightarrow> \<exists>w. load32 m p = Some w"
  using load_bytes_mapped [of m 4 p] by (auto simp: load32_def)

lemma store32_defined: "span p 4 \<subseteq> dom m \<Longrightarrow> \<exists>m'. store32 w p m = Some m'"
  using store_bytes_defined [of "le_bytes 4 (unat w)" p m] by (auto simp: store32_def)

lemma store32_unmapped: "m p = None \<Longrightarrow> store32 w p m = None"
proof -
  assume "m p = None"
  moreover have "\<exists>b bs. le_bytes 4 (unat w) = b # bs"
    using length_le_bytes [of 4 "unat w"] by (cases "le_bytes 4 (unat w)") auto
  ultimately show ?thesis by (auto simp: store32_def)
qed

lemma store32_dom: "store32 w p m = Some m' \<Longrightarrow> dom m' = dom m"
  unfolding store32_def by (rule store_bytes_dom)

lemma store32_other: "store32 w p m = Some m' \<Longrightarrow> q \<notin> span p 4 \<Longrightarrow> m' q = m q"
  by (auto simp: store32_def dest: store_bytes_other)

lemma load32_store32_same:
  assumes "store32 w p m = Some m'" and "fits p 4"
  shows "load32 m' p = Some w"
proof -
  have "load_bytes m' 4 p = Some (le_bytes 4 (unat w))"
    using store_bytes_same [of "le_bytes 4 (unat w)" p m m'] assms by (simp add: store32_def)
  moreover have "unat w mod 256 ^ 4 = unat w" using unat_bound [of w] by simp
  ultimately show ?thesis by (simp add: load32_def le_val_bytes)
qed

lemma load32_store32_other:
  "store32 w p m = Some m' \<Longrightarrow> span p 4 \<inter> span q 4 = {} \<Longrightarrow> load32 m' q = load32 m q"
  by (auto simp: store32_def load32_def load_store_other)

lemma load_store32_other:
  "store32 w p m = Some m' \<Longrightarrow> span p 4 \<inter> span q n = {} \<Longrightarrow> load_bytes m' n q = load_bytes m n q"
  by (auto simp: store32_def load_store_other)

section \<open>Allocators\<close>

text \<open>
  The contract of an allocator: blocks it hands out lie in its home region and do not meet a
  live block.  \<open>inv s bs\<close> is the provider's invariant with the live blocks \<open>bs\<close> (address and
  size), \<open>ok s r\<close> says that request \<open>r\<close> is one the contract covers, and \<open>need s r\<close> is the number of
  bytes it asks for.  An exhausted allocator returns \<open>NULL\<close> and stays as it is.
\<close>

definition fresh_block :: "uintptr set \<Rightarrow> (uintptr \<times> nat) list \<Rightarrow> uintptr \<Rightarrow> nat \<Rightarrow> bool" where
  "fresh_block H bs p n \<longleftrightarrow> span p n \<subseteq> H \<and> (\<forall>(q, k) \<in> set bs. span p n \<inter> span q k = {})"

fun disjoint_blocks :: "uintptr set \<Rightarrow> (uintptr \<times> nat) list \<Rightarrow> bool" where
  "disjoint_blocks H [] = True"
| "disjoint_blocks H ((p, n) # bs) = (fresh_block H bs p n \<and> disjoint_blocks H bs)"

lemma fresh_block_subset: "fresh_block H bs p n \<Longrightarrow> set cs \<subseteq> set bs \<Longrightarrow> fresh_block H cs p n"
  unfolding fresh_block_def by blast

lemma disjoint_blocks_remove: "disjoint_blocks H bs \<Longrightarrow> disjoint_blocks H (remove1 b bs)"
  by (induction bs rule: disjoint_blocks.induct)
    (auto elim!: fresh_block_subset [OF _ set_remove1_subset])

locale allocator =
  fixes inv :: "'s \<Rightarrow> (uintptr \<times> nat) list \<Rightarrow> bool"
    and ok :: "'s \<Rightarrow> 'r \<Rightarrow> bool"
    and need :: "'s \<Rightarrow> 'r \<Rightarrow> nat"
    and home :: "'s \<Rightarrow> uintptr set"
    and alloc :: "'r \<Rightarrow> 's \<Rightarrow> (uintptr \<times> 's) option"
    and alloc_run :: "'r list \<Rightarrow> 's \<Rightarrow> (uintptr \<times> nat) list \<Rightarrow> ('s \<times> (uintptr \<times> nat) list) option"
  assumes alloc_law: "inv s bs \<Longrightarrow> ok s r \<Longrightarrow>
      \<exists>p s'. alloc r s = Some (p, s') \<and> home s' = home s \<and> ok s' = ok s \<and> need s' = need s \<and>
        (if p = NULL then inv s' bs
         else fresh_block (home s) bs p (need s r) \<and> inv s' ((p, need s r) # bs))"
    and run_Nil: "alloc_run [] s bs = Some (s, bs)"
    and run_Cons: "alloc_run (r # rs) s bs =
      do { (p, s') \<leftarrow> alloc r s; alloc_run rs s' (if p = NULL then bs else (p, need s r) # bs) }"
begin

lemma run_disjoint:
  assumes "inv s bs" and "\<And>r. r \<in> set rs \<Longrightarrow> ok s r" and "disjoint_blocks (home s) bs"
  shows "\<exists>s' bs'. alloc_run rs s bs = Some (s', bs') \<and> inv s' bs' \<and> home s' = home s \<and>
    disjoint_blocks (home s) bs'"
  using assms
proof (induction rs arbitrary: s bs)
  case Nil
  then show ?case by (simp add: run_Nil)
next
  case (Cons r rs)
  obtain p s' where a: "alloc r s = Some (p, s')" "home s' = home s" "ok s' = ok s"
    "if p = NULL then inv s' bs
     else fresh_block (home s) bs p (need s r) \<and> inv s' ((p, need s r) # bs)"
    using alloc_law [OF Cons.prems(1) Cons.prems(2) [of r]] by auto
  let ?cs = "if p = NULL then bs else (p, need s r) # bs"
  have "inv s' ?cs" "disjoint_blocks (home s') ?cs" using a Cons.prems(3) by (auto split: if_splits)
  then have "\<exists>s'' bs'. alloc_run rs s' ?cs = Some (s'', bs') \<and> inv s'' bs' \<and> home s'' = home s' \<and>
      disjoint_blocks (home s') bs'"
    using Cons.prems(2) a(3) by (intro Cons.IH) auto
  then show ?case using a(1,2) by (simp add: run_Cons)
qed

end

text \<open>
  An allocator whose blocks can be given back.  A history is a list of requests (\<open>Inl\<close>) and of
  releases (\<open>Inr i\<close>: the block that is the \<open>i\<close>-th newest of the live ones).
\<close>

locale recycling_allocator = allocator +
  fixes release :: "uintptr \<Rightarrow> 's \<Rightarrow> 's option"
    and history :: "('r + nat) list \<Rightarrow> 's \<Rightarrow> (uintptr \<times> nat) list \<Rightarrow> ('s \<times> (uintptr \<times> nat) list) option"
  assumes release_law: "inv s bs \<Longrightarrow> (p, n) \<in> set bs \<Longrightarrow>
      \<exists>s'. release p s = Some s' \<and> inv s' (remove1 (p, n) bs) \<and> home s' = home s \<and> ok s' = ok s \<and> need s' = need s"
    and history_Nil: "history [] s bs = Some (s, bs)"
    and history_alloc: "history (Inl r # es) s bs =
      do { (p, s') \<leftarrow> alloc r s; history es s' (if p = NULL then bs else (p, need s r) # bs) }"
    and history_release: "history (Inr i # es) s bs =
      (if i < length bs
       then do { s' \<leftarrow> release (fst (bs ! i)) s; history es s' (remove1 (bs ! i) bs) }
       else history es s bs)"
begin

lemma history_disjoint:
  assumes "inv s bs" and "\<And>r. Inl r \<in> set es \<Longrightarrow> ok s r" and "disjoint_blocks (home s) bs"
  shows "\<exists>s' bs'. history es s bs = Some (s', bs') \<and> inv s' bs' \<and> home s' = home s \<and>
    disjoint_blocks (home s) bs'"
  using assms
proof (induction es arbitrary: s bs)
  case Nil
  then show ?case by (simp add: history_Nil)
next
  case (Cons e es)
  note IH = Cons.IH and prems = Cons.prems
  show ?case
  proof (cases e)
    case (Inl r)
    obtain p s' where a: "alloc r s = Some (p, s')" "home s' = home s" "ok s' = ok s"
      "if p = NULL then inv s' bs
       else fresh_block (home s) bs p (need s r) \<and> inv s' ((p, need s r) # bs)"
      using alloc_law [OF prems(1) prems(2) [of r]] Inl by auto
    let ?cs = "if p = NULL then bs else (p, need s r) # bs"
    have "inv s' ?cs" "disjoint_blocks (home s') ?cs" using a prems(3) by (auto split: if_splits)
    then have "\<exists>s'' bs'. history es s' ?cs = Some (s'', bs') \<and> inv s'' bs' \<and> home s'' = home s' \<and>
        disjoint_blocks (home s') bs'"
      using prems(2) a(3) by (intro IH) auto
    then show ?thesis using a(1,2) Inl by (simp add: history_alloc)
  next
    case (Inr i)
    show ?thesis
    proof (cases "i < length bs")
      case True
      obtain p n where b: "bs ! i = (p, n)" by (cases "bs ! i")
      then have "(p, n) \<in> set bs" using True by (metis nth_mem)
      then obtain s' where s': "release p s = Some s'" "inv s' (remove1 (p, n) bs)" "home s' = home s" "ok s' = ok s"
        using release_law [OF prems(1)] by blast
      then have "\<exists>s'' bs'. history es s' (remove1 (p, n) bs) = Some (s'', bs') \<and> inv s'' bs' \<and>
          home s'' = home s' \<and> disjoint_blocks (home s') bs'"
        using prems(2,3) disjoint_blocks_remove by (intro IH) auto
      then show ?thesis using s' b True Inr by (simp add: history_release)
    next
      case False
      then show ?thesis using IH [OF prems(1) _ prems(3)] prems(2) Inr by (simp add: history_release)
    qed
  qed
qed

end

end
