(* ===== verification/MemoryView.thy ===== *)
theory MemoryView
  imports Memory
begin

text \<open>
  Zero-copy views, typed slices and the bump-pointer arena of \<open>src/mm/memory_view.c\<close> over the
  byte-addressed memory.  A struct pointer that the code compares with \<open>NULL\<close> is an option; a data
  pointer is an address.  A \<open>free_fn\<close> is a number, and what calling it does to the rest of the
  system is the argument \<open>call\<close>.
\<close>

section \<open>Views and slices\<close>

record mp_memory_view =
  view_data :: uintptr
  view_length :: size_t
  view_capacity :: size_t
  view_offset :: size_t
  view_owns_data :: bool
  view_free_fn :: "nat option"

record mp_memory_slice =
  slice_data :: uintptr
  element_size :: size_t
  element_count :: size_t
  slice_capacity :: size_t
  slice_owns_data :: bool
  slice_free_fn :: "nat option"

record mp_memory_arena =
  arena_buffer :: uintptr
  arena_size :: size_t
  arena_used :: size_t
  arena_alignment :: size_t

definition align_up :: "uintptr \<Rightarrow> size_t \<Rightarrow> uintptr" where
  "align_up p alignment = (p + alignment - 1) AND NOT (alignment - 1)"

definition mp_memory_view_init ::
  "mp_memory_view option \<Rightarrow> uintptr \<Rightarrow> size_t \<Rightarrow> size_t \<Rightarrow> size_t \<Rightarrow> bool \<Rightarrow> nat option \<Rightarrow>
   int \<times> mp_memory_view option" where
  "mp_memory_view_init view data len cap off owns free_fn =
     (if view = None \<or> (data = NULL \<and> len > 0) then (-1, view)
      else (0, Some \<lparr>view_data = data, view_length = len, view_capacity = cap, view_offset = off,
                     view_owns_data = owns, view_free_fn = free_fn\<rparr>))"

text \<open>\<open>garbage\<close> is what the uninitialised local \<open>view\<close> holds; it is returned when \<open>init\<close> refuses.\<close>

definition mp_memory_view_from_buffer :: "mp_memory_view \<Rightarrow> uintptr \<Rightarrow> size_t \<Rightarrow> mp_memory_view" where
  "mp_memory_view_from_buffer garbage data len =
     the (snd (mp_memory_view_init (Some garbage) data len len 0 False None))"

definition mp_memory_view_owning ::
  "mp_memory_view \<Rightarrow> uintptr \<Rightarrow> size_t \<Rightarrow> nat option \<Rightarrow> mp_memory_view" where
  "mp_memory_view_owning garbage data len free_fn =
     the (snd (mp_memory_view_init (Some garbage) data len len 0 True free_fn))"

definition mp_memory_view_free ::
  "(nat \<Rightarrow> uintptr \<Rightarrow> 'w \<Rightarrow> 'w) \<Rightarrow> mp_memory_view option \<Rightarrow> 'w \<Rightarrow> mp_memory_view option \<times> 'w" where
  "mp_memory_view_free call view w =
     (case view of None \<Rightarrow> (view, w)
      | Some v \<Rightarrow>
          if view_owns_data v \<and> view_data v \<noteq> NULL
          then (case view_free_fn v of None \<Rightarrow> (view, w)
                | Some f \<Rightarrow> (Some (v\<lparr>view_data := NULL, view_length := 0, view_capacity := 0,
                                   view_owns_data := False\<rparr>), call f (view_data v) w))
          else (view, w))"

definition empty_view :: mp_memory_view where
  "empty_view = \<lparr>view_data = NULL, view_length = 0, view_capacity = 0, view_offset = 0,
     view_owns_data = False, view_free_fn = None\<rparr>"

definition empty_slice :: mp_memory_slice where
  "empty_slice = \<lparr>slice_data = NULL, element_size = 0, element_count = 0, slice_capacity = 0,
     slice_owns_data = False, slice_free_fn = None\<rparr>"

definition mp_memory_view_slice :: "mp_memory_view option \<Rightarrow> size_t \<Rightarrow> size_t \<Rightarrow> mp_memory_view" where
  "mp_memory_view_slice view start len =
     (case view of None \<Rightarrow> empty_view
      | Some v \<Rightarrow>
          if start \<ge> view_length v then empty_view
          else
            let len' = (if start + len > view_length v then view_length v - start else len)
            in \<lparr>view_data = view_data v + start, view_length = len',
                view_capacity = view_capacity v - start, view_offset = view_offset v + start,
                view_owns_data = False, view_free_fn = None\<rparr>)"

definition mp_memory_view_as_slice :: "mp_memory_view option \<Rightarrow> size_t \<Rightarrow> size_t \<Rightarrow> mp_memory_slice" where
  "mp_memory_view_as_slice view esize ecount =
     (case view of None \<Rightarrow> empty_slice
      | Some v \<Rightarrow>
          if esize = 0 then empty_slice
          else
            let max_elements = view_length v div esize;
                n = (if ecount > max_elements then max_elements else ecount)
            in \<lparr>slice_data = view_data v, element_size = esize, element_count = n,
                slice_capacity = max_elements, slice_owns_data = False, slice_free_fn = None\<rparr>)"

definition mp_memory_slice_init ::
  "mp_memory_slice option \<Rightarrow> uintptr \<Rightarrow> size_t \<Rightarrow> size_t \<Rightarrow> size_t \<Rightarrow> bool \<Rightarrow> nat option \<Rightarrow>
   mp_memory_slice option" where
  "mp_memory_slice_init sl data esize ecount cap owns free_fn =
     map_option (\<lambda>_. \<lparr>slice_data = data, element_size = esize, element_count = ecount,
       slice_capacity = cap, slice_owns_data = owns, slice_free_fn = free_fn\<rparr>) sl"

definition mp_memory_slice_free ::
  "(nat \<Rightarrow> uintptr \<Rightarrow> 'w \<Rightarrow> 'w) \<Rightarrow> mp_memory_slice option \<Rightarrow> 'w \<Rightarrow> mp_memory_slice option \<times> 'w" where
  "mp_memory_slice_free call sl w =
     (case sl of None \<Rightarrow> (sl, w)
      | Some s \<Rightarrow>
          if slice_owns_data s \<and> slice_data s \<noteq> NULL
          then (case slice_free_fn s of None \<Rightarrow> (sl, w)
                | Some f \<Rightarrow> (Some (s\<lparr>slice_data := NULL, element_count := 0, slice_capacity := 0,
                                   slice_owns_data := False\<rparr>), call f (slice_data s) w))
          else (sl, w))"

definition mp_memory_slice_get :: "mp_memory_slice option \<Rightarrow> size_t \<Rightarrow> uintptr" where
  "mp_memory_slice_get sl i =
     (case sl of None \<Rightarrow> NULL
      | Some s \<Rightarrow> if i \<ge> element_count s then NULL else slice_data s + i * element_size s)"

definition mp_memory_slice_subslice :: "mp_memory_slice option \<Rightarrow> size_t \<Rightarrow> size_t \<Rightarrow> mp_memory_slice" where
  "mp_memory_slice_subslice sl start n =
     (case sl of None \<Rightarrow> empty_slice
      | Some s \<Rightarrow>
          if element_size s = 0 \<or> start \<ge> element_count s then empty_slice
          else
            let n' = (if start + n > element_count s then element_count s - start else n)
            in \<lparr>slice_data = slice_data s + start * element_size s, element_size = element_size s,
                element_count = n', slice_capacity = slice_capacity s - start,
                slice_owns_data = False, slice_free_fn = None\<rparr>)"

definition mp_memory_slice_as_view :: "mp_memory_slice option \<Rightarrow> mp_memory_view" where
  "mp_memory_slice_as_view sl =
     (case sl of None \<Rightarrow> empty_view
      | Some s \<Rightarrow> \<lparr>view_data = slice_data s, view_length = element_count s * element_size s,
          view_capacity = slice_capacity s * element_size s, view_offset = 0,
          view_owns_data = False, view_free_fn = None\<rparr>)"

definition mp_memory_view_valid :: "mp_memory_view option \<Rightarrow> bool" where
  "mp_memory_view_valid view =
     (case view of None \<Rightarrow> False | Some v \<Rightarrow> view_data v \<noteq> NULL \<and> view_length v > 0)"

definition mp_memory_slice_valid :: "mp_memory_slice option \<Rightarrow> bool" where
  "mp_memory_slice_valid sl =
     (case sl of None \<Rightarrow> False | Some s \<Rightarrow> slice_data s \<noteq> NULL \<and> element_count s > 0)"

definition mp_memory_view_end :: "mp_memory_view \<Rightarrow> uintptr" where
  "mp_memory_view_end v = view_data v + view_length v"

definition mp_memory_slice_end :: "mp_memory_slice \<Rightarrow> uintptr" where
  "mp_memory_slice_end s = slice_data s + element_count s * element_size s"

definition mp_memory_view_overlaps :: "mp_memory_view option \<Rightarrow> mp_memory_view option \<Rightarrow> bool" where
  "mp_memory_view_overlaps a b =
     (case (a, b) of
        (Some v, Some w) \<Rightarrow>
          if view_data v = NULL \<or> view_data w = NULL then False
          else view_data v < view_data w + view_length w \<and> view_data w < view_data v + view_length v
      | _ \<Rightarrow> False)"

text \<open>The result: the return value, the destination view and the memory.\<close>

definition mp_memory_view_copy ::
  "memory \<Rightarrow> mp_memory_view option \<Rightarrow> mp_memory_view option \<Rightarrow>
   (int \<times> mp_memory_view option \<times> memory) option" where
  "mp_memory_view_copy m dest src =
     (case (dest, src) of
        (Some d, Some s) \<Rightarrow>
          if view_data d = NULL \<or> view_data s = NULL then Some (-1, dest, m)
          else if view_offset d + view_length d + view_length s > view_capacity d
          then Some (-1, dest, m)
          else
            let room = view_capacity d - view_offset d - view_length d;
                copy_len = (if view_length s < room then view_length s else room);
                move = (if mp_memory_view_overlaps dest src then memmove else memcpy)
            in do {
                 m' \<leftarrow> move m (view_data d + view_length d) (view_data s) (unat copy_len);
                 Some (sint copy_len, Some (d\<lparr>view_length := view_length d + copy_len\<rparr>), m') }
      | _ \<Rightarrow> Some (-1, dest, m))"

definition mp_memory_view_compare ::
  "memory \<Rightarrow> mp_memory_view option \<Rightarrow> mp_memory_view option \<Rightarrow> int option" where
  "mp_memory_view_compare m a b =
     (case (a, b) of
        (None, None) \<Rightarrow> Some 0
      | (Some _, None) \<Rightarrow> Some 1
      | (None, Some _) \<Rightarrow> Some (-1)
      | (Some v, Some w) \<Rightarrow>
          let min_len = (if view_length v < view_length w then view_length v else view_length w)
          in do {
               cmp \<leftarrow> memcmp m (view_data v) (view_data w) (unat min_len);
               Some (if cmp \<noteq> 0 then cmp
                     else if view_length v < view_length w then -1
                     else if view_length v > view_length w then 1 else 0) })"

text \<open>The loops count up from \<open>i\<close>; the last argument is the number of iterations left.\<close>

primrec find_byte_loop :: "memory \<Rightarrow> uintptr \<Rightarrow> u8 \<Rightarrow> nat \<Rightarrow> size_t \<Rightarrow> int option" where
  "find_byte_loop m data b 0 i = Some (-1)"
| "find_byte_loop m data b (Suc k) i =
     do { x \<leftarrow> m (data + i); if x = b then Some (sint i) else find_byte_loop m data b k (i + 1) }"

definition mp_memory_view_find_byte :: "memory \<Rightarrow> mp_memory_view option \<Rightarrow> u8 \<Rightarrow> int option" where
  "mp_memory_view_find_byte m view b =
     (case view of None \<Rightarrow> Some (-1)
      | Some v \<Rightarrow>
          if view_data v = NULL then Some (-1)
          else find_byte_loop m (view_data v) b (unat (view_length v)) 0)"

primrec find_pattern_loop :: "memory \<Rightarrow> uintptr \<Rightarrow> uintptr \<Rightarrow> nat \<Rightarrow> nat \<Rightarrow> size_t \<Rightarrow> int option" where
  "find_pattern_loop m data pat n 0 i = Some (-1)"
| "find_pattern_loop m data pat n (Suc k) i =
     do { c \<leftarrow> memcmp m (data + i) pat n;
          if c = 0 then Some (sint i) else find_pattern_loop m data pat n k (i + 1) }"

definition mp_memory_view_find_pattern ::
  "memory \<Rightarrow> mp_memory_view option \<Rightarrow> uintptr \<Rightarrow> size_t \<Rightarrow> int option" where
  "mp_memory_view_find_pattern m view pat n =
     (case view of None \<Rightarrow> Some (-1)
      | Some v \<Rightarrow>
          if view_data v = NULL \<or> pat = NULL \<or> n = 0 \<or> n > view_length v then Some (-1)
          else find_pattern_loop m (view_data v) pat (unat n) (Suc (unat (view_length v - n))) 0)"

section \<open>Arenas\<close>

definition mp_memory_arena_init ::
  "mp_memory_arena option \<Rightarrow> uintptr \<Rightarrow> size_t \<Rightarrow> size_t \<Rightarrow> int \<times> mp_memory_arena option" where
  "mp_memory_arena_init arena buffer sz alignment =
     (if arena = None \<or> buffer = NULL \<or> sz = 0 then (-1, arena)
      else if alignment = 0 \<or> alignment AND (alignment - 1) \<noteq> 0 then (-1, arena)
      else (0, Some \<lparr>arena_buffer = buffer, arena_size = sz, arena_used = 0,
                     arena_alignment = alignment\<rparr>))"

definition mp_memory_arena_alloc ::
  "mp_memory_arena option \<Rightarrow> size_t \<Rightarrow> size_t \<Rightarrow> uintptr \<times> mp_memory_arena option" where
  "mp_memory_arena_alloc arena sz alignment0 =
     (case arena of None \<Rightarrow> (NULL, arena)
      | Some a \<Rightarrow>
          if sz = 0 then (NULL, arena)
          else
            let alignment = (if alignment0 = 0 then arena_alignment a else alignment0)
            in if alignment AND (alignment - 1) \<noteq> 0 then (NULL, arena)
               else
                 let current_ptr = arena_buffer a + arena_used a;
                     aligned_ptr = align_up current_ptr alignment;
                     padding = aligned_ptr - current_ptr;
                     total_needed = padding + sz
                 in if arena_used a + total_needed > arena_size a then (NULL, arena)
                    else (aligned_ptr, Some (a\<lparr>arena_used := arena_used a + total_needed\<rparr>)))"

definition mp_memory_arena_zalloc ::
  "memory \<Rightarrow> mp_memory_arena option \<Rightarrow> size_t \<Rightarrow> size_t \<Rightarrow>
   (uintptr \<times> mp_memory_arena option \<times> memory) option" where
  "mp_memory_arena_zalloc m arena sz alignment =
     (case mp_memory_arena_alloc arena sz alignment of (p, arena') \<Rightarrow>
        if p \<noteq> NULL then do { m' \<leftarrow> memset m p 0 (unat sz); Some (p, arena', m') }
        else Some (p, arena', m))"

definition mp_memory_arena_reset :: "mp_memory_arena option \<Rightarrow> mp_memory_arena option" where
  "mp_memory_arena_reset arena = map_option (\<lambda>a. a\<lparr>arena_used := 0\<rparr>) arena"

definition mp_memory_arena_remaining :: "mp_memory_arena option \<Rightarrow> size_t" where
  "mp_memory_arena_remaining arena =
     (case arena of None \<Rightarrow> 0 | Some a \<Rightarrow> arena_size a - arena_used a)"

definition mp_memory_arena_used :: "mp_memory_arena option \<Rightarrow> size_t" where
  "mp_memory_arena_used arena = (case arena of None \<Rightarrow> 0 | Some a \<Rightarrow> arena_used a)"

definition mp_memory_arena_contains :: "mp_memory_arena option \<Rightarrow> uintptr \<Rightarrow> bool" where
  "mp_memory_arena_contains arena p =
     (case arena of None \<Rightarrow> False
      | Some a \<Rightarrow>
          if p = NULL then False
          else p \<ge> arena_buffer a \<and> p < arena_buffer a + arena_size a)"

definition mp_memory_arena_alloc_view ::
  "mp_memory_view \<Rightarrow> mp_memory_arena option \<Rightarrow> size_t \<Rightarrow> size_t \<Rightarrow>
   mp_memory_view \<times> mp_memory_arena option" where
  "mp_memory_arena_alloc_view garbage arena sz alignment =
     (case mp_memory_arena_alloc arena sz alignment of (p, arena') \<Rightarrow>
        if p = NULL then (empty_view, arena')
        else (the (snd (mp_memory_view_init (Some garbage) p sz sz
                (p - arena_buffer (the arena)) False None)), arena'))"

section \<open>Arenas: alignment and the allocator contract\<close>

lemma and_split: "(x :: 'a::len word) = (x AND m) + (x AND NOT m)"
proof -
  have "(x AND m) + (x AND NOT m) = (x AND m) OR (x AND NOT m)"
    by (rule disjunctive_add_eq_or) (simp add: bit_eq_iff bit_simps)
  also have "\<dots> = x" by (rule bit_word_eqI) (auto simp: bit_simps)
  finally show ?thesis by simp
qed

lemma align_up_bounds:
  assumes "unat p + unat (al - 1) < 2 ^ 32"
  shows "unat p \<le> unat (align_up p al)" and "unat (align_up p al) \<le> unat p + unat (al - 1)"
    and "align_up p al AND (al - 1) = 0"
proof -
  let ?m = "al - 1" and ?x = "p + (al - 1)"
  have x: "unat ?x = unat p + unat ?m" using assms by (intro unat_add_no_overflow) simp
  have al: "align_up p al = ?x AND NOT ?m" by (simp add: align_up_def algebra_simps)
  have le: "unat (?x AND ?m) \<le> unat ?m" using word_and_le1 [of ?x ?m] by (simp add: word_le_nat_alt)
  have "align_up p al = ?x - (?x AND ?m)" using and_split [of ?x ?m] al by (simp add: algebra_simps)
  then have "unat (align_up p al) = unat ?x - unat (?x AND ?m)"
    using word_and_le2 [of ?x ?m] by (simp add: unat_sub)
  then show "unat p \<le> unat (align_up p al)" "unat (align_up p al) \<le> unat p + unat (al - 1)"
    using x le by simp_all
  show "align_up p al AND (al - 1) = 0"
    unfolding al by (rule bit_word_eqI) (auto simp: bit_simps)
qed

type_synonym arena_request = "size_t \<times> size_t"

definition arena_request_alignment :: "mp_memory_arena \<Rightarrow> arena_request \<Rightarrow> size_t" where
  "arena_request_alignment a r = (if snd r = 0 then arena_alignment a else snd r)"

text \<open>Requests whose size and alignment do not wrap the 32-bit address arithmetic.\<close>

fun arena_ok :: "mp_memory_arena option \<Rightarrow> arena_request \<Rightarrow> bool" where
  "arena_ok None r = True"
| "arena_ok (Some a) r =
     (unat (arena_buffer a) + unat (arena_size a) + unat (arena_request_alignment a r - 1) + unat (fst r) < 2 ^ 32)"

fun arena_inv :: "mp_memory_arena option \<Rightarrow> (uintptr \<times> nat) list \<Rightarrow> bool" where
  "arena_inv None bs = True"
| "arena_inv (Some a) bs =
     (arena_buffer a \<noteq> NULL \<and> fits (arena_buffer a) (unat (arena_size a)) \<and> arena_used a \<le> arena_size a \<and>
      (\<forall>(q, k) \<in> set bs. span q k \<subseteq> span (arena_buffer a) (unat (arena_used a))))"

fun arena_home :: "mp_memory_arena option \<Rightarrow> uintptr set" where
  "arena_home None = {}"
| "arena_home (Some a) = span (arena_buffer a) (unat (arena_size a))"

definition arena_alloc :: "arena_request \<Rightarrow> mp_memory_arena option \<Rightarrow> (uintptr \<times> mp_memory_arena option) option" where
  "arena_alloc r s = Some (mp_memory_arena_alloc s (fst r) (snd r))"

fun arena_run ::
  "arena_request list \<Rightarrow> mp_memory_arena option \<Rightarrow> (uintptr \<times> nat) list \<Rightarrow>
   (mp_memory_arena option \<times> (uintptr \<times> nat) list) option" where
  "arena_run [] s bs = Some (s, bs)"
| "arena_run (r # rs) s bs =
     do { (p, s') \<leftarrow> arena_alloc r s; arena_run rs s' (if p = NULL then bs else (p, unat (fst r)) # bs) }"

text \<open>A successful allocation: the block lies between the old and the new fill level.\<close>

lemma arena_alloc_success:
  assumes inv: "arena_inv (Some a) bs" and ok: "arena_ok (Some a) (sz, al)"
    and r: "mp_memory_arena_alloc (Some a) sz al = (p, Some a')" and p: "p \<noteq> NULL"
  shows "a' = a\<lparr>arena_used := arena_used a'\<rparr>" and "arena_used a' \<le> arena_size a"
    and "unat (arena_buffer a) + unat (arena_used a) \<le> unat p"
    and "unat p + unat sz = unat (arena_buffer a) + unat (arena_used a')"
    and "p AND (arena_request_alignment a (sz, al) - 1) = 0"
proof -
  let ?al = "arena_request_alignment a (sz, al)" and ?b = "unat (arena_buffer a)"
  let ?c = "arena_buffer a + arena_used a"
  have u: "unat (arena_used a) \<le> unat (arena_size a)" using inv by (simp add: word_le_nat_alt)
  have okn: "?b + unat (arena_size a) + unat (?al - 1) + unat sz < 2 ^ 32" using ok by simp
  have c: "unat ?c = ?b + unat (arena_used a)" using okn u by (intro unat_add_no_overflow) simp
  have pp: "p = align_up ?c ?al"
    and a': "a' = a\<lparr>arena_used := arena_used a + (align_up ?c ?al - ?c + sz)\<rparr>"
    and le: "arena_used a + (align_up ?c ?al - ?c + sz) \<le> arena_size a"
    using r p by (auto simp: mp_memory_arena_alloc_def arena_request_alignment_def Let_def split: if_splits)
  have "unat ?c + unat (?al - 1) < 2 ^ 32" using c u okn by simp
  note al = align_up_bounds [OF this, folded pp]
  have pad: "unat (p - ?c) = unat p - unat ?c" using al(1) by (simp add: unat_sub word_le_nat_alt)
  have "unat (p - ?c + sz) = unat p - unat ?c + unat sz"
    unfolding pad [symmetric] using pad al c u okn by (intro unat_add_no_overflow) simp
  moreover from this have "unat (arena_used a + (p - ?c + sz)) = unat (arena_used a) + unat (p - ?c + sz)"
    using al c u okn by (intro unat_add_no_overflow) simp
  ultimately have used: "unat (arena_used a') = unat (arena_used a) + (unat p - unat ?c + unat sz)"
    using a' pp by simp
  show "a' = a\<lparr>arena_used := arena_used a'\<rparr>" "arena_used a' \<le> arena_size a" using a' le by simp_all
  show "?b + unat (arena_used a) \<le> unat p" using al(1) c by simp
  show "unat p + unat sz = ?b + unat (arena_used a')" using used al(1) c by simp
  show "p AND (?al - 1) = 0" by (rule al(3))
qed

lemma arena_alloc_result: "\<exists>p a'. mp_memory_arena_alloc (Some a) sz al = (p, Some a')"
  by (simp add: mp_memory_arena_alloc_def Let_def)

lemma arena_alloc_null:
  assumes "arena_inv (Some a) bs" and "arena_ok (Some a) (sz, al)"
    and "mp_memory_arena_alloc (Some a) sz al = (NULL, s')"
  shows "s' = Some a"
proof (rule ccontr)
  let ?al = "arena_request_alignment a (sz, al)" and ?c = "arena_buffer a + arena_used a"
  assume "s' \<noteq> Some a"
  with assms(3) have n: "align_up ?c ?al = NULL"
    by (auto simp: mp_memory_arena_alloc_def arena_request_alignment_def Let_def split: if_splits)
  have u: "unat (arena_used a) \<le> unat (arena_size a)" using assms(1) by (simp add: word_le_nat_alt)
  have c: "unat ?c = unat (arena_buffer a) + unat (arena_used a)"
    using assms(2) u by (intro unat_add_no_overflow) simp
  then have "unat ?c + unat (?al - 1) < 2 ^ 32" using assms(2) u by simp
  then have "unat (arena_buffer a) = 0" using align_up_bounds(1) [of ?c ?al] c n by (simp add: NULL_def)
  then have "arena_buffer a = 0" by (simp only: unsigned_eq_0_iff)
  then show False using assms(1) by (simp add: NULL_def)
qed

lemma arena_alloc_fresh:
  assumes inv: "arena_inv (Some a) bs" and ok: "arena_ok (Some a) (sz, al)"
    and r: "mp_memory_arena_alloc (Some a) sz al = (p, Some a')" and p: "p \<noteq> NULL"
  shows "fresh_block (arena_home (Some a)) bs p (unat sz)" and "arena_inv (Some a') ((p, unat sz) # bs)"
proof -
  note s = arena_alloc_success [OF assms]
  have fb: "fits (arena_buffer a) (unat (arena_size a))" "fits (arena_buffer a) (unat (arena_used a))"
    "fits (arena_buffer a) (unat (arena_used a'))" "fits p (unat sz)"
    using inv s(2,4) by (auto simp: fits_def word_le_nat_alt)
  have sub: "span p (unat sz) \<subseteq> span (arena_buffer a) (unat (arena_used a'))"
    "span (arena_buffer a) (unat (arena_used a')) \<subseteq> span (arena_buffer a) (unat (arena_size a))"
    "span (arena_buffer a) (unat (arena_used a)) \<subseteq> span (arena_buffer a) (unat (arena_used a'))"
    using s(2,3,4) fb by (auto simp: in_span_iff word_le_nat_alt)
  have dj: "span p (unat sz) \<inter> span (arena_buffer a) (unat (arena_used a)) = {}"
    using fb s(3) by (intro span_disjoint) auto
  have live: "\<forall>(q, k) \<in> set bs. span q k \<subseteq> span (arena_buffer a) (unat (arena_used a))"
    using inv by simp
  have "span p (unat sz) \<inter> span q k = {}" if "(q, k) \<in> set bs" for q k
    using live that dj by blast
  then show "fresh_block (arena_home (Some a)) bs p (unat sz)"
    using sub(1,2) unfolding fresh_block_def arena_home.simps by blast
  have "arena_buffer a' = arena_buffer a" "arena_size a' = arena_size a"
    by (subst s(1), simp)+
  then show "arena_inv (Some a') ((p, unat sz) # bs)"
    using inv s(2) sub(1,3) live unfolding arena_inv.simps list.set by (auto simp del: split_paired_All) blast+
qed

lemma arena_alloc_law:
  assumes "arena_inv s bs" and "arena_ok s r"
  shows "\<exists>p s'. arena_alloc r s = Some (p, s') \<and> arena_home s' = arena_home s \<and> arena_ok s' = arena_ok s \<and>
    (if p = NULL then arena_inv s' bs
     else fresh_block (arena_home s) bs p (unat (fst r)) \<and> arena_inv s' ((p, unat (fst r)) # bs))"
proof (cases s)
  case None
  then show ?thesis by (simp add: arena_alloc_def mp_memory_arena_alloc_def)
next
  case (Some a)
  obtain sz al where r: "r = (sz, al)" by (cases r)
  have fr: "arena_home (Some (a\<lparr>arena_used := u\<rparr>)) = arena_home (Some a)"
    "arena_ok (Some (a\<lparr>arena_used := u\<rparr>)) = arena_ok (Some a)" for u
    by (simp_all add: fun_eq_iff arena_request_alignment_def)
  obtain p a' where al: "mp_memory_arena_alloc (Some a) sz al = (p, Some a')"
    using arena_alloc_result by blast
  have i: "arena_inv (Some a) bs" "arena_ok (Some a) (sz, al)" using assms Some r by simp_all
  show ?thesis
  proof (cases "p = NULL")
    case True
    then show ?thesis using arena_alloc_null [OF i] al Some r i by (simp add: arena_alloc_def)
  next
    case False
    have "arena_home (Some a') = arena_home (Some a)" "arena_ok (Some a') = arena_ok (Some a)"
      using fr [of "arena_used a'"] arena_alloc_success(1) [OF i al False] by metis+
    then show ?thesis
      using arena_alloc_fresh [OF i al False] False al Some r unfolding arena_alloc_def by simp
  qed
qed

interpretation arena: allocator arena_inv arena_ok "\<lambda>_ r. unat (fst r)" arena_home arena_alloc arena_run
  by unfold_locales (use arena_alloc_law in \<open>simp_all\<close>)

section \<open>Contents of views\<close>

definition view_bytes :: "memory \<Rightarrow> mp_memory_view \<Rightarrow> u8 list option" where
  "view_bytes m v = load_bytes m (unat (view_length v)) (view_data v)"

lemma byte_cmp_lex:
  "length as = length bs \<Longrightarrow> (byte_cmp as bs < 0) = ord_class.lexordp as bs"
  "length as = length bs \<Longrightarrow> (byte_cmp as bs = 0) = (as = bs)"
proof (induction as bs rule: byte_cmp.induct)
  case (1 a as b bs)
  {
    case 1
    have "uint a < uint b \<or> uint b < uint a" if "a \<noteq> b" using that by (auto simp: word_uint_eq_iff)
    then show ?case using 1 "1.IH"(1) by (cases "a = b") (auto simp: word_less_def)
  next
    case 2
    then show ?case using "1.IH" by (auto simp: word_uint_eq_iff)
  }
qed auto

lemma byte_cmp_prefix:
  assumes "length as = n" and "length bs = n" and "byte_cmp as bs \<noteq> 0"
  shows "ord_class.lexordp (as @ cs) (bs @ ds) = ord_class.lexordp as bs"
  using assms by (induction as bs arbitrary: n rule: byte_cmp.induct) (auto split: if_splits)

lemma lexordp_append_same: "ord_class.lexordp (as @ bs) (as @ cs) = ord_class.lexordp bs (cs :: u8 list)"
  by (induction as) auto

lemma lex_after_prefix:
  fixes as bs :: "u8 list"
  assumes "take k as = take k bs" and "k = min (length as) (length bs)"
  shows "ord_class.lexordp as bs = (length as < length bs)"
proof -
  have "ord_class.lexordp as bs = ord_class.lexordp (drop k as) (drop k bs)"
    by (metis append_take_drop_id assms(1) lexordp_append_same)
  also have "\<dots> = (length as < length bs)"
  proof (cases "length as < length bs")
    case True
    then have "drop k as = []" "drop k bs = bs ! k # drop (Suc k) bs"
      using assms(2) by (simp_all add: Cons_nth_drop_Suc)
    then show ?thesis using True by simp
  qed (use assms(2) in simp)
  finally show ?thesis .
qed

lemma load_prefix:
  "load_bytes m n p = Some bs \<Longrightarrow> k \<le> n \<Longrightarrow> load_bytes m k p = Some (take k bs)"
  using load_bytes_part [of m n p bs 0 k] by simp

text \<open>The range behind the first \<open>n\<close> bytes of a window of \<open>c\<close> bytes at \<open>p\<close>.\<close>

lemma append_range:
  fixes w :: size_t
  assumes "fits p c" and "unat w = n" and "n + k \<le> c"
  shows "fits (p + w) k" and "unat (p + w) = unat p + n \<or> k = 0" and "span (p + w) k \<subseteq> span p c"
proof -
  have u: "unat (p + w) = unat p + n" if "0 < k"
    using assms that by (auto simp: fits_def intro: unat_add_no_overflow)
  show f: "fits (p + w) k" using u assms unat_bound [of "p + w"] by (cases k) (auto simp: fits_def)
  show "unat (p + w) = unat p + n \<or> k = 0" using u by auto
  show "span (p + w) k \<subseteq> span p c"
    using u assms f by (cases k) (auto simp: in_span_iff simp del: span_Suc)
qed

lemma append_disjoint:
  fixes w :: size_t
  assumes "fits p c" and "unat w = n" and "n + k \<le> c"
  shows "span (p + w) k \<inter> span p n = {}"
proof (cases k)
  case (Suc j)
  have "fits p n" using assms by (simp add: fits_def)
  then show ?thesis using append_range [OF assms] Suc by (auto simp: in_span_iff)
qed simp

lemma load_bytes_append:
  assumes "load_bytes m a p = Some xs" and "load_bytes m b (p + of_nat a) = Some ys"
  shows "load_bytes m (a + b) p = Some (xs @ ys)"
  using assms
proof (induction a arbitrary: p xs)
  case (Suc a)
  then show ?case by (auto split: bind_splits simp: add.assoc)
qed simp

section \<open>Properties\<close>

text \<open>
  C13. Every sequence of allocations from an initialised arena, of any sizes and alignments whose
  32-bit arithmetic does not wrap, returns blocks that lie in the arena's buffer and are
  pairwise disjoint.
\<close>

theorem arena_allocations_disjoint:
  assumes "mp_memory_arena_init (Some a0) buffer sz al = (0, Some a)" and "fits buffer (unat sz)"
    and "\<And>r. r \<in> set rs \<Longrightarrow> arena_ok (Some a) r"
  shows "\<exists>s' bs. arena_run rs (Some a) [] = Some (s', bs) \<and> disjoint_blocks (span buffer (unat sz)) bs"
proof -
  have a: "a = \<lparr>arena_buffer = buffer, arena_size = sz, arena_used = 0, arena_alignment = al\<rparr>" "buffer \<noteq> NULL"
    using assms(1) by (auto simp: mp_memory_arena_init_def split: if_splits)
  have "arena_inv (Some a) []" using a assms(2) by simp
  from arena.run_disjoint [OF this, of rs] show ?thesis using a assms(3) by fastforce
qed

theorem arena_allocations_disjoint_witness:
  "\<exists>s' bs. arena_run [(3, 1), (8, 8), (100, 0), (4, 0)]
     (Some \<lparr>arena_buffer = 0x20000001, arena_size = 64, arena_used = 0, arena_alignment = 4\<rparr>) [] = Some (s', bs) \<and>
   disjoint_blocks (span 0x20000001 (unat (64 :: size_t))) bs"
proof (rule arena_allocations_disjoint)
  show "mp_memory_arena_init (Some \<lparr>arena_buffer = 0, arena_size = 0, arena_used = 0, arena_alignment = 0\<rparr>)
      0x20000001 64 4 = (0, Some \<lparr>arena_buffer = 0x20000001, arena_size = 64, arena_used = 0, arena_alignment = 4\<rparr>)"
    by (simp add: mp_memory_arena_init_def NULL_def)
qed (auto simp: fits_def arena_request_alignment_def)

text \<open>
  A single allocation that succeeds returns an aligned block at or above the current fill
  level, ends exactly at the new fill level, and stays within the size of the arena; the zeroing
  variant clears exactly the block's bytes.
\<close>

theorem arena_zalloc_correct:
  assumes "arena_inv (Some a) bs" and "arena_ok (Some a) (sz, al)"
    and "span (arena_buffer a) (unat (arena_size a)) \<subseteq> dom m"
    and "mp_memory_arena_alloc (Some a) sz al = (p, Some a')" and "p \<noteq> NULL"
  shows "p AND (arena_request_alignment a (sz, al) - 1) = 0 \<and>
    unat (arena_buffer a) + unat (arena_used a) \<le> unat p \<and>
    unat p + unat sz = unat (arena_buffer a) + unat (arena_used a') \<and> arena_used a' \<le> arena_size a \<and>
    (\<exists>m'. mp_memory_arena_zalloc m (Some a) sz al = Some (p, Some a', m') \<and>
       load_bytes m' (unat sz) p = Some (replicate (unat sz) 0) \<and> (\<forall>q. q \<notin> span p (unat sz) \<longrightarrow> m' q = m q))"
proof -
  note s = arena_alloc_success [OF assms(1,2,4,5)]
  have "span p (unat sz) \<subseteq> dom m"
    using arena_alloc_fresh(1) [OF assms(1,2,4,5)] assms(3) by (auto simp: fresh_block_def)
  then obtain m' where m': "memset m p 0 (unat sz) = Some m'"
    using store_bytes_defined [of "replicate (unat sz) 0" p m] by (auto simp: memset_def)
  have "fits p (unat sz)" using assms(1) s(2,4) by (auto simp: fits_def word_le_nat_alt)
  then have "load_bytes m' (unat sz) p = Some (replicate (unat sz) 0)"
    using store_bytes_same [of "replicate (unat sz) 0" p m m'] m' by (simp add: memset_def)
  moreover have "\<forall>q. q \<notin> span p (unat sz) \<longrightarrow> m' q = m q"
    using store_bytes_other [of "replicate (unat sz) 0" p m m'] m' by (simp add: memset_def)
  ultimately show ?thesis
    using s(2-) m' assms(4,5) by (simp add: mp_memory_arena_zalloc_def)
qed

theorem arena_zalloc_correct_witness:
  "\<exists>a' m'. mp_memory_arena_zalloc (\<lambda>_. Some 0xFF)
     (Some \<lparr>arena_buffer = 0x20000001, arena_size = 64, arena_used = 3, arena_alignment = 4\<rparr>) 8 0 =
     Some (0x20000004, a', m') \<and> load_bytes m' 8 0x20000004 = Some (replicate 8 0)"
proof -
  let ?a = "\<lparr>arena_buffer = 0x20000001, arena_size = 64, arena_used = 3, arena_alignment = 4\<rparr> :: mp_memory_arena"
  have r: "mp_memory_arena_alloc (Some ?a) 8 0 = (0x20000004, Some (?a\<lparr>arena_used := 11\<rparr>))"
    by (simp add: mp_memory_arena_alloc_def align_up_def Let_def)
  have "arena_inv (Some ?a) []" "arena_ok (Some ?a) (8, 0)"
    by (simp_all add: NULL_def fits_def arena_request_alignment_def)
  from arena_zalloc_correct [OF this _ r, of "\<lambda>_. Some 0xFF"]
  show ?thesis by (auto simp: NULL_def dom_def)
qed

text \<open>
  The space check wraps: asking a partly used arena for \<open>2^32 - used\<close> bytes succeeds although
  that is more than the arena holds, empties the fill level, and so makes the next allocation
  return the start of the buffer again.
\<close>

theorem arena_alloc_size_wraps:
  assumes "arena_used a \<noteq> 0" and "arena_used a \<le> arena_size a" and "n \<noteq> 0" and "n \<le> arena_size a"
  shows "\<exists>a'. mp_memory_arena_alloc (Some a) (- arena_used a) 1 = (arena_buffer a + arena_used a, Some a') \<and>
    fst (mp_memory_arena_alloc (Some a') n 1) = arena_buffer a"
proof -
  have n: "- arena_used a \<noteq> 0" "\<not> arena_size a < n" using assms(1,4) by simp_all
  then have "mp_memory_arena_alloc (Some a) (- arena_used a) 1 =
      (arena_buffer a + arena_used a, Some (a\<lparr>arena_used := 0\<rparr>))"
    using n(1) by (simp add: mp_memory_arena_alloc_def align_up_def Let_def)
  moreover have "mp_memory_arena_alloc (Some (a\<lparr>arena_used := 0\<rparr>)) n 1 =
      (arena_buffer a, Some (a\<lparr>arena_used := n\<rparr>))"
    using assms(3) n(2) by (simp add: mp_memory_arena_alloc_def align_up_def Let_def)
  ultimately show ?thesis by simp
qed

lemma minus_1_size: "(- 1 :: size_t) = 0xFFFFFFFF"
  by code_simp

lemma minus_32: "(- 32 :: size_t) = 0xFFFFFFE0"
  by code_simp

theorem arena_alloc_size_wraps_witness:
  "\<exists>a'. mp_memory_arena_alloc
      (Some \<lparr>arena_buffer = 0x20000000, arena_size = 64, arena_used = 32, arena_alignment = 4\<rparr>) 0xFFFFFFE0 1 =
      (0x20000020, Some a') \<and> fst (mp_memory_arena_alloc (Some a') 16 1) = 0x20000000"
  using arena_alloc_size_wraps
    [of "\<lparr>arena_buffer = 0x20000000, arena_size = 64, arena_used = 32, arena_alignment = 4\<rparr>" 16]
  by (simp add: minus_32)

text \<open>
  Slicing is zero-copy substring extraction: whatever \<open>start\<close> and \<open>length\<close> (as long as their
  sum does not wrap), the slice of a view shows exactly the bytes of the view from \<open>start\<close>, cut off
  at its end, does not own them, and stays inside the view's bytes.
\<close>

theorem view_slice_contents:
  assumes "view_bytes m v = Some bs" and "unat start + unat len < 2 ^ 32"
  shows "view_bytes m (mp_memory_view_slice (Some v) start len) = Some (take (unat len) (drop (unat start) bs)) \<and>
    \<not> view_owns_data (mp_memory_view_slice (Some v) start len)"
proof -
  have l: "length bs = unat (view_length v)" using assms(1) by (simp add: view_bytes_def load_bytes_length)
  show ?thesis
  proof (cases "start \<ge> view_length v")
    case True
    then show ?thesis using l by (simp add: mp_memory_view_slice_def empty_view_def view_bytes_def word_le_nat_alt)
  next
    case False
    let ?n = "if start + len > view_length v then view_length v - start else len"
    have s: "unat (start + len) = unat start + unat len" using assms(2) by (intro unat_add_no_overflow) simp
    have d: "unat (view_length v - start) = unat (view_length v) - unat start" using False by (simp add: unat_sub)
    have n: "unat start + unat ?n \<le> unat (view_length v)"
      and tk: "take (unat ?n) (drop (unat start) bs) = take (unat len) (drop (unat start) bs)"
      using False s d l by (auto simp: word_less_nat_alt word_le_nat_alt)
    have "load_bytes m (unat ?n) (view_data v + of_nat (unat start)) = Some (take (unat ?n) (drop (unat start) bs))"
      using assms(1) n unfolding view_bytes_def by (rule load_bytes_part)
    then show ?thesis using False tk by (simp add: mp_memory_view_slice_def view_bytes_def Let_def)
  qed
qed

theorem view_slice_contents_witness:
  "view_bytes (\<lambda>p. Some (ucast p)) (mp_memory_view_slice (Some (mp_memory_view_from_buffer empty_view 0x1000 4)) 1 9) =
     Some [1, 2, 3]"
proof -
  have "view_bytes (\<lambda>p. Some (ucast p)) (mp_memory_view_from_buffer empty_view 0x1000 4) = Some [0, 1, 2, 3]"
    unfolding view_bytes_def mp_memory_view_from_buffer_def mp_memory_view_init_def NULL_def by code_simp
  from view_slice_contents [OF this, of 1 9] show ?thesis by simp
qed

text \<open>
  The clamp of \<open>mp_memory_view_slice\<close> wraps: with \<open>length = 2^32 - 1\<close> and any nonzero \<open>start\<close>
  inside the view, the slice's length is not cut and exceeds that of the view it was cut from.
\<close>

theorem view_slice_length_wraps:
  assumes "0 < start" and "start < view_length v"
  shows "view_length (mp_memory_view_slice (Some v) start (- 1)) = - 1 \<and>
    unat (view_length v) < unat (view_length (mp_memory_view_slice (Some v) start (- 1))) + unat start"
proof -
  have l: "unat (view_length v) \<le> unat (- 1 :: u32)"
    unfolding word_le_nat_alt [symmetric] by simp
  have "start - 1 < view_length v"
    using assms unat_minus_one [of start] by (cases "start = 0") (auto simp: word_less_nat_alt)
  then show ?thesis
    using assms l by (auto simp: mp_memory_view_slice_def Let_def word_less_nat_alt word_le_nat_alt)
qed

theorem view_slice_length_wraps_witness:
  "view_length (mp_memory_view_slice (Some (mp_memory_view_from_buffer empty_view 0x1000 4)) 1 0xFFFFFFFF) = 0xFFFFFFFF"
proof -
  have "view_length (mp_memory_view_from_buffer empty_view 0x1000 4) = 4"
    by (simp add: mp_memory_view_from_buffer_def mp_memory_view_init_def NULL_def)
  then show ?thesis
    using view_slice_length_wraps [of 1 "mp_memory_view_from_buffer empty_view 0x1000 4"]
    unfolding minus_1_size by simp
qed

text \<open>
  Copying appends: when the source's bytes fit behind the destination's, all of them are
  appended to the destination view, nothing outside the appended range is written, and the
  return value is their number; otherwise -1 is returned and nothing changes.  (The source must
  not meet the range written to, unless the code notices an overlap and uses \<open>memmove\<close>.)
\<close>

theorem view_copy_appends:
  assumes "view_bytes m d = Some old" and "view_bytes m s = Some new"
    and "view_data d \<noteq> NULL" and "view_data s \<noteq> NULL"
    and "unat (view_offset d) + length old + length new < 2 ^ 32"
    and "fits (view_data d) (unat (view_capacity d))"
    and "span (view_data d) (unat (view_capacity d)) \<subseteq> dom m"
    and "mp_memory_view_overlaps (Some d) (Some s) \<or>
      span (view_data d + view_length d) (length new) \<inter> span (view_data s) (length new) = {}"
  shows "if unat (view_offset d) + length old + length new \<le> unat (view_capacity d)
    then \<exists>d' m'. mp_memory_view_copy m (Some d) (Some s) = Some (sint (view_length s), Some d', m') \<and>
      view_bytes m' d' = Some (old @ new) \<and>
      (\<forall>q. q \<notin> span (view_data d + view_length d) (length new) \<longrightarrow> m' q = m q)
    else mp_memory_view_copy m (Some d) (Some s) = Some (-1, Some d, m)"
proof -
  let ?e = "view_data d + view_length d" and ?o = "view_offset d + view_length d"
  have l: "unat (view_length d) = length old" "unat (view_length s) = length new"
    using assms(1,2) by (simp_all add: view_bytes_def load_bytes_length)
  have o: "unat ?o = unat (view_offset d) + length old"
    using assms(5) l by (simp add: unat_add_no_overflow)
  have t: "unat (?o + view_length s) = unat (view_offset d) + length old + length new"
    using assms(5) l o by (simp add: unat_add_no_overflow)
  show ?thesis
  proof (cases "unat (view_offset d) + length old + length new \<le> unat (view_capacity d)")
    case False
    then have "?o + view_length s > view_capacity d" using t by (simp add: word_less_nat_alt)
    then show ?thesis using False assms(3,4) by (simp add: mp_memory_view_copy_def)
  next
    case True
    then have fit: "\<not> ?o + view_length s > view_capacity d" using t by (simp add: word_less_nat_alt)
    have ol: "?o \<le> view_capacity d" using True o by (simp add: word_le_nat_alt)
    have room: "unat (view_capacity d - view_offset d - view_length d) = unat (view_capacity d) - unat ?o"
      using unat_sub [OF ol] by (simp add: algebra_simps)
    have copy: "(if view_length s < view_capacity d - view_offset d - view_length d then view_length s
        else view_capacity d - view_offset d - view_length d) = view_length s"
      using room True o l by (auto simp: word_less_nat_alt word_unat_eq_iff)
    have e: "fits ?e (length new)" "unat ?e = unat (view_data d) + length old \<or> new = []"
      "span ?e (length new) \<subseteq> span (view_data d) (unat (view_capacity d))"
      using append_range [OF assms(6) l(1), of "length new"] True by auto
    have "span ?e (length new) \<subseteq> dom m" using e(3) assms(7) by blast
    then obtain m' where m': "store_bytes new ?e m = Some m'"
      using store_bytes_defined [of new ?e m] by auto
    have ns: "load_bytes m (length new) (view_data s) = Some new"
      using assms(2) l by (simp add: view_bytes_def)
    have mv: "(if mp_memory_view_overlaps (Some d) (Some s) then memmove else memcpy) m ?e (view_data s) (length new) = Some m'"
      using assms(8) not_overlapping [of ?e "length new" "view_data s"] m' ns
      by (auto simp: memcpy_def memmove_def)
    have dj: "span ?e (length new) \<inter> span (view_data d) (length old) = {}"
      using append_disjoint [OF assms(6) l(1), of "length new"] True by auto
    have "load_bytes m' (length old) (view_data d) = Some old"
      using load_store_other [OF m'] dj assms(1) l by (simp add: view_bytes_def)
    moreover have "load_bytes m' (length new) ?e = Some new" using store_bytes_same [OF m' e(1)] .
    moreover have "of_nat (length old) = view_length d" using l(1) [symmetric] by simp
    ultimately have "load_bytes m' (length old + length new) (view_data d) = Some (old @ new)"
      using load_bytes_append [of m' "length old" "view_data d" old "length new" new] by simp
    moreover have "unat (view_length d + view_length s) = length old + length new"
      using assms(5) l by (simp add: unat_add_no_overflow)
    ultimately have "view_bytes m' (d\<lparr>view_length := view_length d + view_length s\<rparr>) = Some (old @ new)"
      by (simp add: view_bytes_def)
    moreover have "mp_memory_view_copy m (Some d) (Some s) =
        Some (sint (view_length s), Some (d\<lparr>view_length := view_length d + view_length s\<rparr>), m')"
      using assms(3,4) fit mv l(2) copy by (simp add: mp_memory_view_copy_def Let_def)
    ultimately show ?thesis using True store_bytes_other [OF m'] by auto
  qed
qed

theorem view_copy_appends_witness:
  "\<exists>d' m'. mp_memory_view_copy (\<lambda>p. Some (ucast p))
      (Some \<lparr>view_data = 0x1000, view_length = 2, view_capacity = 8, view_offset = 0,
        view_owns_data = False, view_free_fn = None\<rparr>)
      (Some (mp_memory_view_from_buffer empty_view 0x2005 3)) = Some (3, Some d', m') \<and>
    view_bytes m' d' = Some [0, 1, 5, 6, 7]"
proof -
  let ?d = "\<lparr>view_data = 0x1000, view_length = 2, view_capacity = 8, view_offset = 0,
    view_owns_data = False, view_free_fn = None\<rparr> :: mp_memory_view"
  let ?s = "\<lparr>view_data = 0x2005, view_length = 3, view_capacity = 3, view_offset = 0,
    view_owns_data = False, view_free_fn = None\<rparr> :: mp_memory_view"
  have s: "mp_memory_view_from_buffer empty_view 0x2005 3 = ?s"
    by (simp add: mp_memory_view_from_buffer_def mp_memory_view_init_def NULL_def)
  have "view_bytes (\<lambda>p. Some (ucast p)) ?d = Some [0, 1]" "view_bytes (\<lambda>p. Some (ucast p)) ?s = Some [5, 6, 7]"
    unfolding view_bytes_def by code_simp+
  moreover have "span (view_data ?d + view_length ?d) (length [5, 6, 7 :: u8]) \<inter>
      span (view_data ?s) (length [5, 6, 7 :: u8]) = {}"
    by (rule span_disjoint) (simp_all add: fits_def)
  ultimately show ?thesis
    unfolding s using view_copy_appends [of "\<lambda>p. Some (ucast p)" ?d "[0, 1]" ?s "[5, 6, 7]"]
    by (auto simp: NULL_def fits_def dom_def)
qed

text \<open>
  The overlap test of \<open>mp_memory_view_copy\<close> looks at the destination's present bytes, not at
  the range written to: appending the bytes that follow a view in its own buffer is an
  overlapping \<open>memcpy\<close>, which is undefined.
\<close>

theorem view_copy_misses_overlap:
  assumes "view_data s = view_data d + view_length d" and "view_data d \<noteq> NULL" and "view_data s \<noteq> NULL"
    and "0 < view_length s" and "unat (view_offset d) + unat (view_length d) + unat (view_length s) \<le> unat (view_capacity d)"
  shows "mp_memory_view_copy m (Some d) (Some s) = None"
proof -
  let ?o = "view_offset d + view_length d"
  have b: "unat (view_capacity d) < 4294967296" by (rule unat_less_2p32)
  have o: "unat ?o = unat (view_offset d) + unat (view_length d)"
    using assms(5) b by (intro unat_add_no_overflow) simp
  have t: "unat (?o + view_length s) = unat (view_offset d) + unat (view_length d) + unat (view_length s)"
    unfolding o [symmetric] using assms(5) b o by (intro unat_add_no_overflow) simp
  have ol: "?o \<le> view_capacity d" using assms(5) o by (simp add: word_le_nat_alt)
  have room: "view_length s \<le> view_capacity d - view_offset d - view_length d"
    using unat_sub [OF ol] assms(5) o by (simp add: word_le_nat_alt algebra_simps)
  then have cl: "(if view_length s < view_capacity d - view_offset d - view_length d then view_length s
      else view_capacity d - view_offset d - view_length d) = view_length s" by auto
  have "\<not> mp_memory_view_overlaps (Some d) (Some s)" "\<not> ?o + view_length s > view_capacity d"
    using assms t by (simp_all add: mp_memory_view_overlaps_def word_less_nat_alt)
  moreover have "overlapping (view_data d + view_length d) (view_data s) (unat (view_length s))"
    using assms(1,4) by (simp add: overlapping_def word_less_nat_alt)
  ultimately show ?thesis using assms(2,3) cl by (simp add: mp_memory_view_copy_def memcpy_def Let_def)
qed

theorem view_copy_misses_overlap_witness:
  "mp_memory_view_copy m
     (Some \<lparr>view_data = 0x1000, view_length = 4, view_capacity = 16, view_offset = 0,
       view_owns_data = False, view_free_fn = None\<rparr>)
     (Some \<lparr>view_data = 0x1004, view_length = 4, view_capacity = 4, view_offset = 0,
       view_owns_data = False, view_free_fn = None\<rparr>) = None"
  by (rule view_copy_misses_overlap) (simp_all add: NULL_def)

text \<open>
  C15. Comparison is the lexicographic order of the views' bytes: zero exactly for equal contents,
  negative exactly when the first is smaller.
\<close>

theorem view_compare_lexicographic:
  assumes "view_bytes m a = Some as" and "view_bytes m b = Some bs"
  shows "\<exists>r. mp_memory_view_compare m (Some a) (Some b) = Some r \<and>
    (r = 0 \<longleftrightarrow> as = bs) \<and> (r < 0 \<longleftrightarrow> ord_class.lexordp as bs)"
proof -
  let ?l = "if view_length a < view_length b then view_length a else view_length b"
  have l: "unat (view_length a) = length as" "unat (view_length b) = length bs"
    using assms by (simp_all add: view_bytes_def load_bytes_length)
  then have n: "unat ?l = min (length as) (length bs)" by (auto simp: word_less_nat_alt)
  let ?as = "take (unat ?l) as" and ?bs = "take (unat ?l) bs"
  have "memcmp m (view_data a) (view_data b) (unat ?l) = Some (byte_cmp ?as ?bs)"
    using assms l n load_prefix [of m "length as" "view_data a" as "unat ?l"]
      load_prefix [of m "length bs" "view_data b" bs "unat ?l"]
    by (simp add: memcmp_def view_bytes_def)
  then have r: "mp_memory_view_compare m (Some a) (Some b) = Some (if byte_cmp ?as ?bs \<noteq> 0 then byte_cmp ?as ?bs
      else if view_length a < view_length b then -1 else if view_length a > view_length b then 1 else 0)"
    by (simp add: mp_memory_view_compare_def Let_def)
  have len: "length ?as = unat ?l" "length ?bs = unat ?l" using n by simp_all
  have split: "as = ?as @ drop (unat ?l) as" "bs = ?bs @ drop (unat ?l) bs" by simp_all
  show ?thesis
  proof (cases "byte_cmp ?as ?bs = 0")
    case False
    then have "as \<noteq> bs" by (auto simp: byte_cmp_lex)
    moreover have "ord_class.lexordp as bs = ord_class.lexordp ?as ?bs"
      using byte_cmp_prefix [OF len False, of "drop (unat ?l) as" "drop (unat ?l) bs"] by simp
    ultimately show ?thesis using r False byte_cmp_lex(1) [of ?as ?bs] len by auto
  next
    case True
    then have eq: "?as = ?bs" using byte_cmp_lex(2) [of ?as ?bs] len by simp
    then have "ord_class.lexordp as bs = (length as < length bs)"
      using lex_after_prefix n by metis
    moreover have "as = bs \<longleftrightarrow> length as = length bs" using eq n by (auto simp: min_def)
    ultimately show ?thesis using r True l by (auto simp: word_less_nat_alt)
  qed
qed

theorem view_compare_lexicographic_witness:
  "\<exists>r < 0. mp_memory_view_compare (\<lambda>p. Some (ucast p))
     (Some (mp_memory_view_from_buffer empty_view 0x1001 4)) (Some (mp_memory_view_from_buffer empty_view 0x2003 2)) = Some r"
proof -
  have "view_bytes (\<lambda>p. Some (ucast p)) (mp_memory_view_from_buffer empty_view 0x1001 4) = Some [1, 2, 3, 4]"
    "view_bytes (\<lambda>p. Some (ucast p)) (mp_memory_view_from_buffer empty_view 0x2003 2) = Some [3, 4]"
    unfolding view_bytes_def mp_memory_view_from_buffer_def mp_memory_view_init_def NULL_def by code_simp+
  from view_compare_lexicographic [OF this] show ?thesis by auto
qed

lemma sint_of_nat_small: "i < 2 ^ 31 \<Longrightarrow> sint (of_nat i :: u32) = int i"
  by (simp add: signed_of_nat signed_take_bit_int_eq_self)

lemma upt_Suc_first: "[i..<i + Suc k] = i # [Suc i..<Suc i + k]"
  by (simp add: upt_conv_Cons)

lemma find_pattern_loop_find:
  assumes "load_bytes m (length bs) d = Some bs" and "load_bytes m (length ps) pat = Some ps"
    and "i + k + length ps \<le> Suc (length bs)" and "length bs < 2 ^ 31" and "ps \<noteq> []"
  shows "find_pattern_loop m d pat (length ps) k (of_nat i) =
    Some (case find (\<lambda>i. take (length ps) (drop i bs) = ps) [i..<i + k] of None \<Rightarrow> -1 | Some i \<Rightarrow> int i)"
  using assms
proof (induction k arbitrary: i)
  case (Suc k)
  have "i + length ps \<le> length bs" using Suc.prems(3) by simp
  then have l: "load_bytes m (length ps) (d + of_nat i) = Some (take (length ps) (drop i bs))"
    using load_bytes_part [OF Suc.prems(1)] by blast
  have e: "byte_cmp (take (length ps) (drop i bs)) ps = 0 \<longleftrightarrow> take (length ps) (drop i bs) = ps"
    using \<open>i + length ps \<le> length bs\<close> by (intro byte_cmp_lex(2)) simp
  have "sint (of_nat i :: u32) = int i" using Suc.prems by (intro sint_of_nat_small) simp
  moreover have "find_pattern_loop m d pat (length ps) k (of_nat i + 1) = Some (case find
      (\<lambda>i. take (length ps) (drop i bs) = ps) [Suc i..<Suc i + k] of None \<Rightarrow> -1 | Some i \<Rightarrow> int i)"
    using Suc.IH [of "Suc i"] Suc.prems by (simp add: add.commute del: upt_Suc)
  ultimately show ?case
    using l e Suc.prems(2) unfolding upt_Suc_first by (simp add: memcmp_def)
qed simp

lemma find_byte_loop_find:
  assumes "load_bytes m (length bs) d = Some bs" and "i + k = length bs" and "length bs < 2 ^ 31"
  shows "find_byte_loop m d b k (of_nat i) =
    Some (case find (\<lambda>i. bs ! i = b) [i..<i + k] of None \<Rightarrow> -1 | Some i \<Rightarrow> int i)"
  using assms
proof (induction k arbitrary: i)
  case (Suc k)
  have "m (d + of_nat i) = Some (bs ! i)" using Suc.prems by (simp add: load_bytes_iff)
  moreover have "sint (of_nat i :: u32) = int i" using Suc.prems by (intro sint_of_nat_small) simp
  moreover have "find_byte_loop m d b k (of_nat i + 1) =
      Some (case find (\<lambda>i. bs ! i = b) [Suc i..<Suc i + k] of None \<Rightarrow> -1 | Some i \<Rightarrow> int i)"
    using Suc.IH [of "Suc i"] Suc.prems by (simp add: add.commute del: upt_Suc)
  ultimately show ?case unfolding upt_Suc_first by simp
qed simp

text \<open>
  The searches return the first position: \<open>mp_memory_view_find_pattern\<close> the least offset at
  which the pattern's bytes occur in the view, \<open>mp_memory_view_find_byte\<close> the least offset of the
  byte, and -1 exactly when there is none; neither reads outside the view or the pattern.
\<close>

theorem view_search_first_match:
  assumes "view_bytes m v = Some bs" and "load_bytes m (unat n) pat = Some ps"
    and "view_data v \<noteq> NULL" and "pat \<noteq> NULL" and "n \<noteq> 0" and "length bs < 2 ^ 31"
  shows "mp_memory_view_find_pattern m (Some v) pat n = Some
      (case find (\<lambda>i. take (length ps) (drop i bs) = ps) [0..<Suc (length bs) - length ps] of
         None \<Rightarrow> -1 | Some i \<Rightarrow> int i) \<and>
    mp_memory_view_find_byte m (Some v) b = Some
      (case find (\<lambda>i. bs ! i = b) [0..<length bs] of None \<Rightarrow> -1 | Some i \<Rightarrow> int i)"
proof
  have l: "unat (view_length v) = length bs" "unat n = length ps"
    using assms(1,2) by (simp_all add: view_bytes_def load_bytes_length)
  have v: "load_bytes m (length bs) (view_data v) = Some bs" using assms(1) l by (simp add: view_bytes_def)
  have ps: "ps \<noteq> []" using l(2) assms(5) by (auto simp: unsigned_eq_0_iff)
  show "mp_memory_view_find_pattern m (Some v) pat n = Some
      (case find (\<lambda>i. take (length ps) (drop i bs) = ps) [0..<Suc (length bs) - length ps] of
         None \<Rightarrow> -1 | Some i \<Rightarrow> int i)"
  proof (cases "n > view_length v")
    case True
    then show ?thesis using l by (simp add: mp_memory_view_find_pattern_def word_less_nat_alt)
  next
    case False
    then have "n \<le> view_length v" by simp
    from unat_sub [OF this] this
    have k: "Suc (unat (view_length v - n)) = Suc (length bs) - length ps" "length ps \<le> length bs"
      using l by (simp_all add: word_le_nat_alt Suc_diff_le)
    then show ?thesis
      using find_pattern_loop_find [OF v, of ps pat 0 "Suc (length bs) - length ps"] assms False l ps
      by (simp add: mp_memory_view_find_pattern_def)
  qed
  show "mp_memory_view_find_byte m (Some v) b = Some
      (case find (\<lambda>i. bs ! i = b) [0..<length bs] of None \<Rightarrow> -1 | Some i \<Rightarrow> int i)"
    using find_byte_loop_find [OF v, of 0 "length bs" b] assms(3,6) l
    by (simp add: mp_memory_view_find_byte_def)
qed

theorem view_search_first_match_witness:
  "mp_memory_view_find_pattern (\<lambda>p. Some (ucast p)) (Some (mp_memory_view_from_buffer empty_view 0x1000 4)) 0x2002 2 = Some 2"
proof -
  have "view_bytes (\<lambda>p. Some (ucast p)) (mp_memory_view_from_buffer empty_view 0x1000 4) = Some [0, 1, 2, 3]"
    "load_bytes (\<lambda>p. Some (ucast p)) (unat (2 :: size_t)) 0x2002 = Some [2, 3]"
    "view_data (mp_memory_view_from_buffer empty_view 0x1000 4) \<noteq> NULL"
    unfolding view_bytes_def mp_memory_view_from_buffer_def mp_memory_view_init_def NULL_def by code_simp+
  moreover have "find (\<lambda>i. take (length [2, 3 :: u8]) (drop i [0, 1, 2, 3]) = [2, 3 :: u8])
      [0..<Suc (length [0, 1, 2, 3 :: u8]) - length [2, 3 :: u8]] = Some 2"
    by code_simp
  ultimately show ?thesis
    using view_search_first_match [of "\<lambda>p. Some (ucast p)" "mp_memory_view_from_buffer empty_view 0x1000 4"
        "[0, 1, 2, 3]" 2 "0x2002" "[2, 3]"]
    by (simp add: NULL_def)
qed

text \<open>
  A typed slice of a view gives access to whole elements only: element \<open>i\<close> is the \<open>i\<close>-th group of
  \<open>element_size\<close> bytes of the view, an index past the clamped count gives \<open>NULL\<close>, and a subslice
  shows the elements of the slice from \<open>start\<close> on.
\<close>

theorem slice_elements_of_view:
  fixes n start count i :: size_t
  assumes "view_bytes m v = Some bs" and "esize \<noteq> 0" and "view_data v \<noteq> NULL"
    and "unat start + unat count < 2 ^ 32" and s_def: "s = mp_memory_view_as_slice (Some v) esize n"
  shows "unat (element_count s) = min (unat n) (length bs div unat esize) \<and>
    (i < element_count s \<longrightarrow> load_bytes m (unat esize) (mp_memory_slice_get (Some s) i) =
       Some (take (unat esize) (drop (unat i * unat esize) bs))) \<and>
    (i \<ge> element_count s \<longrightarrow> mp_memory_slice_get (Some s) i = NULL) \<and>
    (start < element_count s \<longrightarrow> mp_memory_slice_get (Some (mp_memory_slice_subslice (Some s) start count)) i =
       (if unat i < unat count \<and> unat start + unat i < unat (element_count s)
        then mp_memory_slice_get (Some s) (start + i) else NULL))"
proof -
  have l: "unat (view_length v) = length bs" using assms(1) by (simp add: view_bytes_def load_bytes_length)
  have dv: "unat (view_length v div esize) = length bs div unat esize" using l by (simp add: unat_div)
  have s: "s = \<lparr>slice_data = view_data v, element_size = esize,
      element_count = (if n > view_length v div esize then view_length v div esize else n),
      slice_capacity = view_length v div esize, slice_owns_data = False, slice_free_fn = None\<rparr>"
    using assms(2) by (simp add: s_def mp_memory_view_as_slice_def Let_def)
  have c: "unat (element_count s) = min (unat n) (length bs div unat esize)"
    using s dv by (auto simp: word_less_nat_alt)
  have el: "load_bytes m (unat esize) (mp_memory_slice_get (Some s) i) =
      Some (take (unat esize) (drop (unat i * unat esize) bs))" if "i < element_count s"
  proof -
    have "Suc (unat i) \<le> length bs div unat esize" using that c by (simp add: word_less_nat_alt)
    then have "Suc (unat i) * unat esize \<le> length bs div unat esize * unat esize" by (rule mult_le_mono1)
    also have "\<dots> \<le> length bs" by (rule div_times_less_eq_dividend)
    finally have b: "unat i * unat esize + unat esize \<le> length bs" by simp
    have "load_bytes m (length bs) (view_data v) = Some bs" using assms(1) l by (simp add: view_bytes_def)
    from load_bytes_part [OF this b]
    have "load_bytes m (unat esize) (view_data v + of_nat (unat i * unat esize)) =
        Some (take (unat esize) (drop (unat i * unat esize) bs))" .
    moreover have "\<not> element_count s \<le> i" "slice_data s = view_data v" "element_size s = esize"
      using that s by simp_all
    ultimately show ?thesis by (simp add: mp_memory_slice_get_def)
  qed
  have st: "unat (start + count) = unat start + unat count" using assms(4) by (intro unat_add_no_overflow) simp
  have sub: "mp_memory_slice_get (Some (mp_memory_slice_subslice (Some s) start count)) i =
      (if unat i < unat count \<and> unat start + unat i < unat (element_count s)
       then mp_memory_slice_get (Some s) (start + i) else NULL)" if lt: "start < element_count s"
  proof -
    define k where "k = (if start + count > element_count s then element_count s - start else count)"
    have "mp_memory_slice_subslice (Some s) start count = \<lparr>slice_data = slice_data s + start * element_size s,
        element_size = element_size s, element_count = k, slice_capacity = slice_capacity s - start,
        slice_owns_data = False, slice_free_fn = None\<rparr>"
      using lt s assms(2) by (simp add: mp_memory_slice_subslice_def k_def Let_def)
    moreover have "unat k = min (unat count) (unat (element_count s) - unat start)"
      using st lt by (auto simp: k_def word_less_nat_alt unat_sub word_le_nat_alt)
    moreover from this have "i < k \<longleftrightarrow> unat i < unat count \<and> unat start + unat i < unat (element_count s)"
      using lt by (auto simp: word_less_nat_alt)
    moreover have "start + i < element_count s" if "unat i < unat count \<and> unat start + unat i < unat (element_count s)"
      using that assms(4) by (simp add: word_less_nat_alt unat_add_no_overflow)
    ultimately show ?thesis by (auto simp: mp_memory_slice_get_def algebra_simps not_less [symmetric] simp del: not_less)
  qed
  show ?thesis using c el sub by (auto simp: mp_memory_slice_get_def)
qed

theorem slice_elements_of_view_witness:
  "load_bytes (\<lambda>p. Some (ucast p)) 2 (mp_memory_slice_get
     (Some (mp_memory_view_as_slice (Some (mp_memory_view_from_buffer empty_view 0x1000 5)) 2 9)) 1) = Some [2, 3]"
proof -
  have "view_bytes (\<lambda>p. Some (ucast p)) (mp_memory_view_from_buffer empty_view 0x1000 5) = Some [0, 1, 2, 3, 4]"
    "view_data (mp_memory_view_from_buffer empty_view 0x1000 5) \<noteq> NULL"
    unfolding view_bytes_def mp_memory_view_from_buffer_def mp_memory_view_init_def NULL_def by code_simp+
  from slice_elements_of_view [OF this(1) _ this(2) _ refl, of 2 0 0 9 1] show ?thesis
    by (simp add: word_less_nat_alt)
qed

end
