(* ===== verification/Pool.thy ===== *)
theory Pool
  imports Memory "HOL-Library.Multiset"
begin

text \<open>
  The fixed-size block pool of \<open>src/mm/pool.c\<close>: the free blocks form a list linked through their
  first word, in the byte-addressed memory.
\<close>

section \<open>Operations\<close>

record mp_pool =
  pool_buffer :: uintptr
  block_size :: size_t
  num_blocks :: size_t
  pool_bitmap :: uintptr
  free_blocks :: u32

text \<open>The linking loop of \<open>mp_pool_init\<close>, with the number of iterations left.\<close>

primrec init_links :: "size_t \<Rightarrow> nat \<Rightarrow> uintptr \<Rightarrow> memory \<Rightarrow> (uintptr \<times> memory) option" where
  "init_links sz 0 ptr m = Some (ptr, m)"
| "init_links sz (Suc k) ptr m =
     do { m' \<leftarrow> store32 (ptr + sz) ptr m;
          ptr' \<leftarrow> load32 m' ptr;
          init_links sz k ptr' m' }"

definition mp_pool_init ::
  "mp_pool option \<Rightarrow> uintptr \<Rightarrow> size_t \<Rightarrow> size_t \<Rightarrow> memory \<Rightarrow> (int \<times> mp_pool option \<times> memory) option" where
  "mp_pool_init pool buffer sz n m =
     (if pool = None \<or> buffer = NULL then Some (-1, pool, m)
      else do {
        (ptr, m1) \<leftarrow> init_links sz (unat (n - 1)) buffer m;
        m2 \<leftarrow> store32 NULL ptr m1;
        Some (0, Some \<lparr>pool_buffer = buffer, block_size = sz, num_blocks = n, pool_bitmap = buffer,
                       free_blocks = n\<rparr>, m2) })"

definition mp_pool_alloc :: "mp_pool \<Rightarrow> memory \<Rightarrow> (uintptr \<times> mp_pool) option" where
  "mp_pool_alloc pool m =
     (if free_blocks pool = 0 then Some (NULL, pool)
      else do {
        next \<leftarrow> load32 m (pool_bitmap pool);
        Some (pool_bitmap pool, pool\<lparr>pool_bitmap := next, free_blocks := free_blocks pool - 1\<rparr>) })"

definition mp_pool_free :: "mp_pool option \<Rightarrow> uintptr \<Rightarrow> memory \<Rightarrow> (mp_pool option \<times> memory) option" where
  "mp_pool_free pool ptr m =
     (case pool of None \<Rightarrow> Some (pool, m)
      | Some p \<Rightarrow>
          if ptr = NULL then Some (pool, m)
          else do {
            m' \<leftarrow> store32 (pool_bitmap p) ptr m;
            Some (Some (p\<lparr>pool_bitmap := ptr, free_blocks := free_blocks p + 1\<rparr>), m') })"

section \<open>The free list\<close>

definition to_ptr :: "u32 \<Rightarrow> uintptr option" where
  "to_ptr w = (if w = NULL then None else Some w)"

definition link :: "memory \<Rightarrow> uintptr \<Rightarrow> uintptr option" where
  "link m p = (case load32 m p of None \<Rightarrow> None | Some w \<Rightarrow> to_ptr w)"

definition block_at :: "uintptr \<Rightarrow> size_t \<Rightarrow> nat \<Rightarrow> uintptr" where
  "block_at base sz i = base + of_nat (i * unat sz)"

definition pool_area :: "uintptr \<Rightarrow> size_t \<Rightarrow> nat \<Rightarrow> memory \<Rightarrow> bool" where
  "pool_area base sz n m \<longleftrightarrow> base \<noteq> NULL \<and> 4 \<le> unat sz \<and> fits base (n * unat sz) \<and>
     span base (n * unat sz) \<subseteq> dom m"

lemma block_unat:
  assumes "pool_area base sz n m" and "i < n"
  shows "unat (block_at base sz i) = unat base + i * unat sz"
    and "unat base + i * unat sz + unat sz \<le> 2 ^ 32"
    and "i * unat sz + unat sz \<le> n * unat sz"
proof -
  have "Suc i * unat sz \<le> n * unat sz" using assms(2) by (intro mult_le_mono1) simp
  then show le: "i * unat sz + unat sz \<le> n * unat sz" by simp
  have f: "unat base + n * unat sz \<le> 2 ^ 32" using assms(1) by (simp add: pool_area_def fits_def)
  show "unat base + i * unat sz + unat sz \<le> 2 ^ 32" using f le by linarith
  have "4 \<le> unat sz" using assms(1) by (simp add: pool_area_def)
  then have "i * unat sz < n * unat sz" using le by linarith
  moreover have "fits base (n * unat sz)" using assms(1) by (simp add: pool_area_def)
  ultimately show "unat (block_at base sz i) = unat base + i * unat sz"
    unfolding block_at_def by (intro unat_offset)
qed

lemma block_fits:
  assumes "pool_area base sz n m" and "i < n" and "k \<le> unat sz"
  shows "fits (block_at base sz i) k" and "span (block_at base sz i) k \<subseteq> span base (n * unat sz)"
proof -
  note u = block_unat [OF assms(1,2)]
  show f: "fits (block_at base sz i) k" using u assms(3) by (simp add: fits_def)
  have "fits base (n * unat sz)" using assms(1) by (simp add: pool_area_def)
  then show "span (block_at base sz i) k \<subseteq> span base (n * unat sz)"
    using u f assms(3) by (auto simp: in_span_iff)
qed

lemma block_disjoint:
  assumes "pool_area base sz n m" and "i < n" and "j < n" and "i \<noteq> j" and "k \<le> unat sz" and "l \<le> unat sz"
  shows "span (block_at base sz i) k \<inter> span (block_at base sz j) l = {}"
proof (rule span_disjoint)
  note u = block_unat [OF assms(1,2)] block_unat [OF assms(1,3)]
  show "fits (block_at base sz i) k" "fits (block_at base sz j) l"
    using block_fits assms by blast+
  consider "i < j" | "j < i" using assms(4) by linarith
  then show "unat (block_at base sz i) + k \<le> unat (block_at base sz j) \<or>
      unat (block_at base sz j) + l \<le> unat (block_at base sz i)"
  proof cases
    case 1
    then have "Suc i * unat sz \<le> j * unat sz" by (intro mult_le_mono1) simp
    then show ?thesis using u(1,4) assms(5) by simp
  next
    case 2
    then have "Suc j * unat sz \<le> i * unat sz" by (intro mult_le_mono1) simp
    then show ?thesis using u(1,4) assms(6) by simp
  qed
qed

lemma block_inj: "pool_area base sz n m \<Longrightarrow> i < n \<Longrightarrow> j < n \<Longrightarrow> block_at base sz i = block_at base sz j \<Longrightarrow> i = j"
  using block_disjoint [of base sz n m i j 1 1] by (auto simp: pool_area_def span_Suc)

lemma block_not_null: "pool_area base sz n m \<Longrightarrow> i < n \<Longrightarrow> block_at base sz i \<noteq> NULL"
  using block_unat(1) [of base sz n m i] by (auto simp: pool_area_def NULL_def unsigned_eq_0_iff)

lemma block_Suc: "block_at base sz i + sz = block_at base sz (Suc i)"
  by (simp add: block_at_def algebra_simps)

lemma init_links_result:
  assumes "pool_area base sz n m" and "j + k < n"
  shows "\<exists>m'. init_links sz k (block_at base sz j) m = Some (block_at base sz (j + k), m') \<and> dom m' = dom m \<and>
    (\<forall>i. j \<le> i \<and> i < j + k \<longrightarrow> load32 m' (block_at base sz i) = Some (block_at base sz (Suc i))) \<and>
    (\<forall>i < j. load32 m' (block_at base sz i) = load32 m (block_at base sz i))"
  using assms
proof (induction k arbitrary: j m)
  case (Suc k)
  let ?p = "block_at base sz j"
  have area: "4 \<le> unat sz" "span base (n * unat sz) \<subseteq> dom m" using Suc.prems(1) by (simp_all add: pool_area_def)
  have j: "j < n" using Suc.prems(2) by simp
  note b = block_fits [OF Suc.prems(1) j area(1)]
  obtain m1 where m1: "store32 (block_at base sz (Suc j)) ?p m = Some m1"
    using store32_defined [of ?p m "block_at base sz (Suc j)"] b(2) area(2) by blast
  have d1: "dom m1 = dom m" using store32_dom [OF m1] .
  have l1: "load32 m1 ?p = Some (block_at base sz (Suc j))" using load32_store32_same [OF m1 b(1)] .
  have "pool_area base sz n m1" using Suc.prems(1) d1 by (simp add: pool_area_def)
  then obtain m' where m': "init_links sz k (block_at base sz (Suc j)) m1 = Some (block_at base sz (Suc j + k), m')"
    "dom m' = dom m1"
    "\<forall>i. Suc j \<le> i \<and> i < Suc j + k \<longrightarrow> load32 m' (block_at base sz i) = Some (block_at base sz (Suc i))"
    "\<forall>i < Suc j. load32 m' (block_at base sz i) = load32 m1 (block_at base sz i)"
    using Suc.IH [of m1 "Suc j"] Suc.prems(2) by auto
  have fr: "load32 m1 (block_at base sz i) = load32 m (block_at base sz i)" if "i < j" for i
    using load32_store32_other [OF m1] block_disjoint [OF Suc.prems(1) j, of i 4 4] that j area(1) by simp
  have "load32 m' (block_at base sz i) = Some (block_at base sz (Suc i))" if "j \<le> i" "i < j + Suc k" for i
    using that m'(3,4) l1 by (cases "i = j") auto
  moreover have "init_links sz (Suc k) ?p m = Some (block_at base sz (j + Suc k), m')"
    using m1 l1 m'(1) by (simp add: block_Suc)
  ultimately show ?case using m'(2,4) d1 fr by auto
qed auto

lemma linked_chain:
  assumes "\<And>i. j \<le> i \<Longrightarrow> Suc i < n \<Longrightarrow> nx (b i) = Some (b (Suc i))" and "nx (b (n - 1)) = None" and "j < n"
  shows "linked nx (Some (b j)) (map b [j..<n])"
  using assms
proof (induction "n - j" arbitrary: j)
  case (Suc k)
  show ?case
  proof (cases "Suc j = n")
    case True
    then show ?thesis using Suc.prems by (auto simp: upt_conv_Cons)
  next
    case False
    then show ?thesis using Suc.hyps(1) [of "Suc j"] Suc.hyps(2) Suc.prems by (simp add: upt_conv_Cons)
  qed
qed simp

section \<open>The pool as a recycling allocator\<close>

type_synonym pool_state = "mp_pool \<times> memory"

definition pool_blocks :: "mp_pool \<Rightarrow> uintptr list" where
  "pool_blocks p = map (block_at (pool_buffer p) (block_size p)) [0..<unat (num_blocks p)]"

definition pool_inv :: "pool_state \<Rightarrow> (uintptr \<times> nat) list \<Rightarrow> bool" where
  "pool_inv s live \<longleftrightarrow> (case s of (p, m) \<Rightarrow>
     pool_area (pool_buffer p) (block_size p) (unat (num_blocks p)) m \<and>
     (\<exists>fl. linked (link m) (to_ptr (pool_bitmap p)) fl \<and> length fl = unat (free_blocks p) \<and>
        mset fl + mset (map fst live) = mset (pool_blocks p)) \<and>
     (\<forall>(q, k) \<in> set live. k = unat (block_size p)))"

definition pool_home :: "pool_state \<Rightarrow> uintptr set" where
  "pool_home s = span (pool_buffer (fst s)) (unat (num_blocks (fst s)) * unat (block_size (fst s)))"

definition pool_need :: "pool_state \<Rightarrow> unit \<Rightarrow> nat" where
  "pool_need s r = unat (block_size (fst s))"

text \<open>A client that overwrites each block it gets, with \<open>fill\<close>, before it does anything else.\<close>

definition pool_alloc :: "(uintptr \<Rightarrow> u8 list) \<Rightarrow> unit \<Rightarrow> pool_state \<Rightarrow> (uintptr \<times> pool_state) option" where
  "pool_alloc fill r s = (case s of (p, m) \<Rightarrow>
     do { (q, p') \<leftarrow> mp_pool_alloc p m;
          if q = NULL then Some (q, (p', m))
          else do { m' \<leftarrow> store_bytes (take (unat (block_size p)) (fill q)) q m; Some (q, (p', m')) } })"

definition pool_release :: "uintptr \<Rightarrow> pool_state \<Rightarrow> pool_state option" where
  "pool_release q s = (case s of (p, m) \<Rightarrow>
     do { (po, m') \<leftarrow> mp_pool_free (Some p) q m; case po of None \<Rightarrow> None | Some p' \<Rightarrow> Some (p', m') })"

fun pool_run ::
  "(uintptr \<Rightarrow> u8 list) \<Rightarrow> unit list \<Rightarrow> pool_state \<Rightarrow> (uintptr \<times> nat) list \<Rightarrow>
   (pool_state \<times> (uintptr \<times> nat) list) option" where
  "pool_run fill [] s bs = Some (s, bs)"
| "pool_run fill (r # rs) s bs =
     do { (p, s') \<leftarrow> pool_alloc fill r s; pool_run fill rs s' (if p = NULL then bs else (p, pool_need s r) # bs) }"

fun pool_history ::
  "(uintptr \<Rightarrow> u8 list) \<Rightarrow> (unit + nat) list \<Rightarrow> pool_state \<Rightarrow> (uintptr \<times> nat) list \<Rightarrow>
   (pool_state \<times> (uintptr \<times> nat) list) option" where
  "pool_history fill [] s bs = Some (s, bs)"
| "pool_history fill (Inl r # es) s bs =
     do { (p, s') \<leftarrow> pool_alloc fill r s;
          pool_history fill es s' (if p = NULL then bs else (p, pool_need s r) # bs) }"
| "pool_history fill (Inr i # es) s bs =
     (if i < length bs
      then do { s' \<leftarrow> pool_release (fst (bs ! i)) s; pool_history fill es s' (remove1 (bs ! i) bs) }
      else pool_history fill es s bs)"

lemma pool_partition:
  assumes "pool_area (pool_buffer p) (block_size p) (unat (num_blocks p)) m"
    and "mset fl + mset (map fst live) = mset (pool_blocks p)"
  shows "distinct (fl @ map fst live)" and "set fl \<union> set (map fst live) = set (pool_blocks p)"
    and "length fl + length live = unat (num_blocks p)"
proof -
  have d: "distinct (pool_blocks p)"
    unfolding pool_blocks_def distinct_map using block_inj [OF assms(1)] by (auto intro!: inj_onI)
  have e: "mset (fl @ map fst live) = mset (pool_blocks p)" using assms(2) by simp
  show "distinct (fl @ map fst live)" using d mset_eq_imp_distinct_iff [OF e] by blast
  show "set fl \<union> set (map fst live) = set (pool_blocks p)" using mset_eq_setD [OF e] by simp
  show "length fl + length live = unat (num_blocks p)"
    using mset_eq_length [OF e] by (simp add: pool_blocks_def)
qed

lemma pool_block_cases:
  assumes "q \<in> set (pool_blocks p)"
  obtains i where "i < unat (num_blocks p)" "q = block_at (pool_buffer p) (block_size p) i"
  using assms by (auto simp: pool_blocks_def)

lemma pool_blocks_disjoint:
  assumes "pool_area (pool_buffer p) (block_size p) (unat (num_blocks p)) m"
    and "q \<in> set (pool_blocks p)" and "r \<in> set (pool_blocks p)" and "q \<noteq> r"
    and "k \<le> unat (block_size p)" and "l \<le> unat (block_size p)"
  shows "span q k \<inter> span r l = {}"
proof -
  obtain i j where "i < unat (num_blocks p)" "q = block_at (pool_buffer p) (block_size p) i"
    "j < unat (num_blocks p)" "r = block_at (pool_buffer p) (block_size p) j"
    using assms(2,3) by (auto elim!: pool_block_cases)
  then show ?thesis using block_disjoint [OF assms(1), of i j k l] assms(4-6) by auto
qed

lemma pool_block_facts:
  assumes "pool_area (pool_buffer p) (block_size p) (unat (num_blocks p)) m" and "q \<in> set (pool_blocks p)"
  shows "q \<noteq> NULL" and "4 \<le> unat (block_size p)"
    and "fits q 4" and "span q 4 \<subseteq> dom m" and "span q (unat (block_size p)) \<subseteq> dom m"
    and "span q (unat (block_size p)) \<subseteq> pool_home (p, m)"
proof -
  obtain i where i: "i < unat (num_blocks p)" "q = block_at (pool_buffer p) (block_size p) i"
    using assms(2) by (rule pool_block_cases)
  show f: "4 \<le> unat (block_size p)" using assms(1) by (simp add: pool_area_def)
  show "q \<noteq> NULL" using block_not_null [OF assms(1) i(1)] i(2) by simp
  show "fits q 4" using block_fits(1) [OF assms(1) i(1) f] i(2) by simp
  have d: "span (pool_buffer p) (unat (num_blocks p) * unat (block_size p)) \<subseteq> dom m"
    using assms(1) by (simp add: pool_area_def)
  show h: "span q (unat (block_size p)) \<subseteq> pool_home (p, m)"
    using block_fits(2) [OF assms(1) i(1) order_refl] i(2) by (simp add: pool_home_def)
  then show "span q (unat (block_size p)) \<subseteq> dom m" using d by (simp add: pool_home_def)
  then show "span q 4 \<subseteq> dom m" using span_mono [OF f] by blast
qed

lemma link_frame:
  assumes "span q k \<inter> span x 4 = {}" and "\<And>r. r \<notin> span q k \<Longrightarrow> m' r = m r"
  shows "link m' x = link m x"
proof -
  have "load_bytes m' 4 x = load_bytes m 4 x" using assms by (intro load_bytes_cong) blast
  then show ?thesis by (simp add: link_def load32_def)
qed

text \<open>Writing into a block that is not free keeps the free list.\<close>

lemma free_list_frame:
  assumes "pool_area (pool_buffer p) (block_size p) (unat (num_blocks p)) m"
    and "set fl \<subseteq> set (pool_blocks p)" and "q \<in> set (pool_blocks p)" and "q \<notin> set fl"
    and "\<And>r. r \<notin> span q (unat (block_size p)) \<Longrightarrow> m' r = m r"
  shows "linked (link m') h fl = linked (link m) h fl"
proof (rule linked_frame, rule ballI)
  fix x assume x: "x \<in> set fl"
  have "4 \<le> unat (block_size p)" using assms(1) by (simp add: pool_area_def)
  then have "span q (unat (block_size p)) \<inter> span x 4 = {}"
    using x assms(2,3,4) by (intro pool_blocks_disjoint [OF assms(1)]) auto
  then show "link m' x = link m x" using assms(5) by (rule link_frame)
qed

lemma pool_alloc_law:
  assumes "pool_inv s live"
  shows "\<exists>q s'. pool_alloc fill r s = Some (q, s') \<and> pool_home s' = pool_home s \<and> pool_need s' = pool_need s \<and>
    (if q = NULL then pool_inv s' live
     else fresh_block (pool_home s) live q (pool_need s r) \<and> pool_inv s' ((q, pool_need s r) # live))"
proof -
  obtain p m where s: "s = (p, m)" by (cases s)
  let ?sz = "unat (block_size p)"
  obtain fl where area: "pool_area (pool_buffer p) (block_size p) (unat (num_blocks p)) m"
    and fl: "linked (link m) (to_ptr (pool_bitmap p)) fl" "length fl = unat (free_blocks p)"
      "mset fl + mset (map fst live) = mset (pool_blocks p)"
    and sz: "\<forall>(q, k) \<in> set live. k = ?sz"
    using assms unfolding pool_inv_def s by auto
  note part = pool_partition [OF area fl(3)]
  show ?thesis
  proof (cases "free_blocks p = 0")
    case True
    then show ?thesis using assms by (auto simp: s pool_alloc_def mp_pool_alloc_def)
  next
    case False
    then obtain x xs where x: "fl = x # xs" using fl(2) by (cases fl) (auto simp: unsigned_eq_0_iff)
    then have xb: "x \<in> set (pool_blocks p)" using part(2) by auto
    note f = pool_block_facts [OF area xb]
    have hd: "pool_bitmap p = x" "linked (link m) (link m x) xs"
      using fl(1) x by (auto simp: to_ptr_def split: if_splits)
    obtain w where w: "load32 m x = Some w" using load32_mapped [OF f(4)] by blast
    let ?p' = "p\<lparr>pool_bitmap := w, free_blocks := free_blocks p - 1\<rparr>" and ?bs = "take ?sz (fill x)"
    have sp: "span x (length ?bs) \<subseteq> span x ?sz" by (intro span_mono) simp
    then obtain m' where m': "store_bytes ?bs x m = Some m'"
      using store_bytes_defined [of ?bs x m] f(5) by auto
    have al: "pool_alloc fill r s = Some (x, (?p', m'))"
      using False hd w m' f(1) by (simp add: s pool_alloc_def mp_pool_alloc_def)
    have "fresh_block (pool_home s) live x ?sz"
    proof -
      have "span x ?sz \<inter> span q k = {}" if "(q, k) \<in> set live" for q k
      proof -
        have "q \<in> set (pool_blocks p)" using that part(2) by force
        moreover have "q \<noteq> x" using that part(1) x by force
        moreover have "k = ?sz" using that sz by blast
        ultimately show ?thesis using pool_blocks_disjoint [OF area xb, of q ?sz k] by auto
      qed
      then show ?thesis using f(6) s unfolding fresh_block_def by blast
    qed
    moreover have "pool_inv (?p', m') ((x, ?sz) # live)"
    proof -
      have "linked (link m') (to_ptr w) xs = linked (link m) (to_ptr w) xs"
        using part(1,2) x xb sp store_bytes_other [OF m'] by (intro free_list_frame [OF area, of xs x]) auto
      moreover have "link m x = to_ptr w" using w by (simp add: link_def)
      ultimately have "linked (link m') (to_ptr w) xs" using hd(2) by simp
      moreover have "length xs = unat (free_blocks p - 1)" using fl(2) x False by (simp add: unat_minus_one)
      moreover have "pool_area (pool_buffer p) (block_size p) (unat (num_blocks p)) m'"
        using area store_bytes_dom [OF m'] by (simp add: pool_area_def)
      moreover have "mset xs + mset (x # map fst live) = mset (pool_blocks p)" using fl(3) x by simp
      ultimately show ?thesis using sz by (auto simp: pool_inv_def pool_blocks_def)
    qed
    ultimately show ?thesis using al f(1) by (simp add: s pool_home_def pool_need_def fun_eq_iff)
  qed
qed

lemma pool_release_law:
  assumes "pool_inv s live" and "(q, k) \<in> set live"
  shows "\<exists>s'. pool_release q s = Some s' \<and> pool_inv s' (remove1 (q, k) live) \<and> pool_home s' = pool_home s \<and>
    pool_need s' = pool_need s"
proof -
  obtain p m where s: "s = (p, m)" by (cases s)
  obtain fl where area: "pool_area (pool_buffer p) (block_size p) (unat (num_blocks p)) m"
    and fl: "linked (link m) (to_ptr (pool_bitmap p)) fl" "length fl = unat (free_blocks p)"
      "mset fl + mset (map fst live) = mset (pool_blocks p)"
    and sz: "\<forall>(q, k) \<in> set live. k = unat (block_size p)"
    using assms(1) unfolding pool_inv_def s by auto
  note part = pool_partition [OF area fl(3)]
  have q: "q \<in> set (map fst live)" using assms(2) by force
  then have qb: "q \<in> set (pool_blocks p)" and qf: "q \<notin> set fl" using part(1,2) by auto
  note f = pool_block_facts [OF area qb]
  obtain m' where m': "store32 (pool_bitmap p) q m = Some m'" using store32_defined [OF f(4)] by blast
  let ?p' = "p\<lparr>pool_bitmap := q, free_blocks := free_blocks p + 1\<rparr>"
  have rel: "pool_release q s = Some (?p', m')" using m' f(1) by (simp add: s pool_release_def mp_pool_free_def)
  have "linked (link m') (to_ptr (pool_bitmap p)) fl"
    using fl(1) free_list_frame [OF area _ qb qf, of m'] part(2) store32_other [OF m'] span_mono [OF f(2)] by blast
  moreover have "link m' q = to_ptr (pool_bitmap p)"
    using load32_store32_same [OF m' f(3)] by (simp add: link_def)
  ultimately have "linked (link m') (to_ptr q) (q # fl)" using f(1) by (simp add: to_ptr_def)
  moreover have "length (q # fl) = unat (free_blocks p + 1)"
  proof -
    have "0 < length live" using assms(2) by (auto intro: length_pos_if_in_set)
    then have "length fl + 1 < 4294967296" using part(3) unat_less_2p32 [of "num_blocks p"] by linarith
    then show ?thesis using fl(2) by (simp add: unat_add_no_overflow)
  qed
  moreover have "pool_area (pool_buffer p) (block_size p) (unat (num_blocks p)) m'"
    using area store32_dom [OF m'] by (simp add: pool_area_def)
  moreover have "mset (q # fl) + mset (map fst (remove1 (q, k) live)) = mset (pool_blocks p)"
  proof -
    have "mset (map fst live) = add_mset q (mset (map fst (remove1 (q, k) live)))"
      using assms(2) q by (simp add: mset_remove1 image_mset_Diff insert_DiffM)
    then show ?thesis using fl(3) by simp
  qed
  moreover have "\<forall>(q, k) \<in> set (remove1 (q, k) live). k = unat (block_size p)"
    using sz set_remove1_subset by fastforce
  ultimately have "pool_inv (?p', m') (remove1 (q, k) live)"
    unfolding pool_inv_def pool_blocks_def by (auto intro!: exI [of _ "q # fl"])
  then show ?thesis using rel by (simp add: s pool_home_def pool_need_def fun_eq_iff)
qed

interpretation pool: recycling_allocator pool_inv "\<lambda>_ _. True" pool_need pool_home "pool_alloc fill" "pool_run fill"
    pool_release "pool_history fill" for fill
proof (unfold_locales, goal_cases)
  case (1 s bs r)
  then show ?case using pool_alloc_law [of s bs fill r] by simp
next
  case (4 s bs p n)
  then show ?case using pool_release_law [of s bs p n] by simp
qed (simp_all add: pool_need_def cong: if_cong)

section \<open>Properties\<close>

lemma pool_init_inv:
  assumes "pool_area buffer sz (unat n) m" and "n \<noteq> 0"
  shows "\<exists>p m'. mp_pool_init (Some p0) buffer sz n m = Some (0, Some p, m') \<and> pool_inv (p, m') [] \<and>
    p = \<lparr>pool_buffer = buffer, block_size = sz, num_blocks = n, pool_bitmap = buffer, free_blocks = n\<rparr>"
proof -
  let ?p = "\<lparr>pool_buffer = buffer, block_size = sz, num_blocks = n, pool_bitmap = buffer, free_blocks = n\<rparr>"
  let ?b = "block_at buffer sz" and ?n = "unat n"
  have n: "unat (n - 1) = ?n - 1" "0 < ?n" using assms(2) unat_minus_one [of n] by (auto simp: unat_gt_0)
  have b0: "?b 0 = buffer" by (simp add: block_at_def)
  obtain m1 where m1: "init_links sz (?n - 1) buffer m = Some (?b (?n - 1), m1)" "dom m1 = dom m"
    "\<forall>i. i < ?n - 1 \<longrightarrow> load32 m1 (?b i) = Some (?b (Suc i))"
    using init_links_result [OF assms(1), of 0 "?n - 1"] n(2) b0 by auto
  have area1: "pool_area buffer sz ?n m1" using assms(1) m1(2) by (simp add: pool_area_def)
  have sz: "4 \<le> unat sz" using assms(1) by (simp add: pool_area_def)
  have last: "?n - 1 < ?n" using n(2) by simp
  note lf = block_fits [OF area1 last sz]
  obtain m2 where m2: "store32 NULL (?b (?n - 1)) m1 = Some m2"
    using store32_defined [of "?b (?n - 1)" m1] lf(2) area1 unfolding pool_area_def by blast
  have area2: "pool_area buffer sz ?n m2" using area1 store32_dom [OF m2] by (simp add: pool_area_def)
  have l1: "load32 m2 (?b i) = Some (?b (Suc i))" if "Suc i < ?n" for i
    using m1(3) that load32_store32_other [OF m2] block_disjoint [OF area1 last, of i 4 4] sz by simp
  have "linked (link m2) (Some (?b 0)) (map ?b [0..<?n])"
  proof (rule linked_chain)
    show "link m2 (?b i) = Some (?b (Suc i))" if "Suc i < ?n" for i
      using l1 [OF that] block_not_null [OF area2 that] by (simp add: link_def to_ptr_def)
    show "link m2 (?b (?n - 1)) = None"
      using load32_store32_same [OF m2 lf(1)] by (simp add: link_def to_ptr_def)
  qed (use n in simp)
  moreover have "to_ptr buffer = Some (?b 0)" using assms(1) b0 by (simp add: to_ptr_def pool_area_def)
  ultimately have "pool_inv (?p, m2) []"
    using area2 unfolding pool_inv_def pool_blocks_def
    by (auto intro!: exI [of _ "map ?b [0..<?n]"] simp del: mset_map)
  moreover have "mp_pool_init (Some p0) buffer sz n m = Some (0, Some ?p, m2)"
    using m1(1) m2 n(1) assms(1) by (simp add: mp_pool_init_def pool_area_def)
  ultimately show ?thesis by blast
qed

lemma pool_inv_accounting: "pool_inv (p, m) live \<Longrightarrow> length live + unat (free_blocks p) = unat (num_blocks p)"
  using pool_partition(3) by (fastforce simp: pool_inv_def)

lemma pool_alloc_null_iff:
  assumes "pool_inv (p, m) live"
  shows "\<exists>q p'. mp_pool_alloc p m = Some (q, p') \<and> (q = NULL \<longleftrightarrow> length live = unat (num_blocks p))"
proof (cases "free_blocks p = 0")
  case True
  then show ?thesis using pool_inv_accounting [OF assms] by (simp add: mp_pool_alloc_def)
next
  case False
  then have l: "length live \<noteq> unat (num_blocks p)"
    using pool_inv_accounting [OF assms] by (auto simp: unsigned_eq_0_iff)
  obtain fl where area: "pool_area (pool_buffer p) (block_size p) (unat (num_blocks p)) m"
    and fl: "linked (link m) (to_ptr (pool_bitmap p)) fl" "length fl = unat (free_blocks p)"
      "mset fl + mset (map fst live) = mset (pool_blocks p)"
    using assms unfolding pool_inv_def by auto
  obtain x xs where x: "fl = x # xs" using fl(2) False by (cases fl) (auto simp: unsigned_eq_0_iff)
  then have b: "pool_bitmap p = x" "x \<in> set (pool_blocks p)"
    using fl(1) pool_partition(2) [OF area fl(3)] by (auto simp: to_ptr_def split: if_splits)
  obtain w where "load32 m x = Some w" using load32_mapped [OF pool_block_facts(4) [OF area b(2)]] by blast
  then show ?thesis using False b(1) l pool_block_facts(1) [OF area b(2)] by (simp add: mp_pool_alloc_def)
qed

lemma pool_history_num_blocks:
  "pool_history fill es s bs = Some (s', bs') \<Longrightarrow> num_blocks (fst s') = num_blocks (fst s)"
proof (induction fill es s bs rule: pool_history.induct)
  case (2 fill r es s bs)
  then show ?case
    by (auto simp: pool_alloc_def mp_pool_alloc_def split: bind_splits prod.splits if_splits)
next
  case (3 fill i es s bs)
  then show ?case
    by (auto simp: pool_release_def mp_pool_free_def split: bind_splits prod.splits if_splits)
qed simp

text \<open>
  C10. After \<open>mp_pool_init\<close> on a buffer of \<open>n\<close> blocks, every history of allocations and frees runs
  without an undefined access, whatever clients write into the blocks they hold: live blocks lie
  in the buffer and never overlap, together with the free count they make up all \<open>n\<close> blocks, and
  the next allocation fails exactly when \<open>n\<close> blocks are live.
\<close>

theorem pool_history_safe:
  assumes "pool_area buffer sz (unat n) m" and "n \<noteq> 0"
  shows "\<exists>p m1 p' m' live q p''. mp_pool_init (Some p0) buffer sz n m = Some (0, Some p, m1) \<and>
    pool_history fill es (p, m1) [] = Some ((p', m'), live) \<and>
    disjoint_blocks (span buffer (unat n * unat sz)) live \<and>
    length live + unat (free_blocks p') = unat n \<and>
    mp_pool_alloc p' m' = Some (q, p'') \<and> (q = NULL \<longleftrightarrow> length live = unat n)"
proof -
  obtain p m1 where p: "mp_pool_init (Some p0) buffer sz n m = Some (0, Some p, m1)" "pool_inv (p, m1) []"
    "p = \<lparr>pool_buffer = buffer, block_size = sz, num_blocks = n, pool_bitmap = buffer, free_blocks = n\<rparr>"
    using pool_init_inv [OF assms] by blast
  obtain p' m' live where h: "pool_history fill es (p, m1) [] = Some ((p', m'), live)" "pool_inv (p', m') live"
    "disjoint_blocks (pool_home (p, m1)) live"
    using pool.history_disjoint [OF p(2), of es fill] by auto
  have "num_blocks p' = n" using pool_history_num_blocks [OF h(1)] p(3) by simp
  then show ?thesis
    using p h pool_inv_accounting [OF h(2)] pool_alloc_null_iff [OF h(2)]
    by (simp add: pool_home_def)
qed

theorem pool_history_safe_witness:
  "\<exists>p m1 s' live. mp_pool_init (Some \<lparr>pool_buffer = 0, block_size = 0, num_blocks = 0, pool_bitmap = 0, free_blocks = 0\<rparr>)
      0x20000000 16 3 (\<lambda>_. Some 0) = Some (0, Some p, m1) \<and>
    pool_history (\<lambda>_. replicate 16 0xFF) [Inl (), Inl (), Inr 1, Inl (), Inl (), Inl ()] (p, m1) [] = Some (s', live) \<and>
    disjoint_blocks (span 0x20000000 48) live"
proof -
  have "pool_area 0x20000000 16 (unat (3 :: size_t)) (\<lambda>_. Some 0)"
    by (simp add: pool_area_def NULL_def fits_def dom_def)
  from pool_history_safe [OF this, of _ "\<lambda>_. replicate 16 0xFF" "[Inl (), Inl (), Inr 1, Inl (), Inl (), Inl ()]"]
  show ?thesis by (simp del: pool_history.simps) blast
qed

text \<open>
  \<open>mp_pool_init\<close> with \<open>num_blocks = 0\<close> does not stop: \<open>num_blocks - 1\<close> wraps, the linking loop
  runs off the buffer, and the call is undefined as soon as the memory behind the first block
  is not mapped.
\<close>

theorem pool_init_zero_blocks_undefined:
  assumes "m (buffer + sz) = None" and "fits buffer 4" and "buffer \<noteq> NULL"
  shows "mp_pool_init (Some p) buffer sz 0 m = None"
proof -
  have "(0 - 1 :: size_t) = 0xFFFFFFFF" by code_simp
  then have "unat (0 - 1 :: size_t) = unat (0xFFFFFFFF :: size_t)" by (rule arg_cong)
  then have "unat (0 - 1 :: size_t) = Suc (Suc 0xFFFFFFFD)" by (simp del: diff_0)
  then obtain k where k: "unat (0 - 1 :: size_t) = Suc (Suc k)" by blast
  have "init_links sz (Suc (Suc j)) buffer m = None" for j
  proof (cases "store32 (buffer + sz) buffer m")
    case (Some m1)
    have "load32 m1 buffer = Some (buffer + sz)" using load32_store32_same [OF Some assms(2)] .
    moreover have "m1 (buffer + sz) = None" using store32_dom [OF Some] assms(1) by (metis domIff)
    ultimately show ?thesis using Some store32_unmapped by simp
  qed simp
  from this [of k] show ?thesis using assms(3) unfolding mp_pool_init_def k by (simp del: init_links.simps)
qed

theorem pool_init_zero_blocks_undefined_witness:
  "mp_pool_init (Some \<lparr>pool_buffer = 0, block_size = 0, num_blocks = 0, pool_bitmap = 0, free_blocks = 0\<rparr>)
     0x20000000 16 0 (\<lambda>p. if p < 0x20000010 then Some 0 else None) = None"
  by (rule pool_init_zero_blocks_undefined) (simp_all add: fits_def NULL_def)

end
