(* ===== verification/Tlsf.thy ===== *)
theory Tlsf
  imports Memory
begin

text \<open>
  The first-fit allocator of \<open>src/mm/tlsf.c\<close>: blocks with a 20-byte header (size, next, thread id,
  caller, magic, each a 32-bit word) tile the pool in the byte-addressed memory.
\<close>

section \<open>Operations\<close>

record mp_tlsf =
  tlsf_pool :: uintptr
  tlsf_size :: size_t

definition TLSF_HEADER :: size_t where
  "TLSF_HEADER = 20"

definition TLSF_MAGIC :: u32 where
  "TLSF_MAGIC = 0xDEAD1234"

definition mp_tlsf_init ::
  "mp_tlsf option \<Rightarrow> uintptr \<Rightarrow> size_t \<Rightarrow> memory \<Rightarrow> (int \<times> mp_tlsf option \<times> memory) option" where
  "mp_tlsf_init tlsf pool sz m =
     (if tlsf = None \<or> pool = NULL \<or> sz < TLSF_HEADER then Some (-1, tlsf, m)
      else do {
        m1 \<leftarrow> store32 (sz - TLSF_HEADER) pool m;
        m2 \<leftarrow> store32 NULL (pool + 4) m1;
        m3 \<leftarrow> store32 TLSF_MAGIC (pool + 16) m2;
        Some (0, Some \<lparr>tlsf_pool = pool, tlsf_size = sz\<rparr>, m3) })"

definition tlsf_split :: "uintptr \<Rightarrow> u32 \<Rightarrow> size_t \<Rightarrow> memory \<Rightarrow> (uintptr \<times> memory) option" where
  "tlsf_split cu csize sz m =
     (let new_block = cu + TLSF_HEADER + sz in
      do {
        m1 \<leftarrow> store32 (csize - sz - TLSF_HEADER) new_block m;
        nx \<leftarrow> load32 m1 (cu + 4);
        m2 \<leftarrow> store32 nx (new_block + 4) m1;
        m3 \<leftarrow> store32 TLSF_MAGIC (new_block + 16) m2;
        m4 \<leftarrow> store32 sz cu m3;
        m5 \<leftarrow> store32 new_block (cu + 4) m4;
        Some (cu + TLSF_HEADER, m5) })"

partial_function (option) tlsf_alloc_loop :: "uintptr \<Rightarrow> size_t \<Rightarrow> memory \<Rightarrow> (uintptr \<times> memory) option" where
  "tlsf_alloc_loop cu sz m =
     (if cu = NULL then Some (NULL, m)
      else do {
        csize \<leftarrow> load32 m cu;
        if csize \<ge> sz + TLSF_HEADER then tlsf_split cu csize sz m
        else do { nx \<leftarrow> load32 m (cu + 4); tlsf_alloc_loop nx sz m } })"

definition mp_tlsf_alloc :: "mp_tlsf \<Rightarrow> size_t \<Rightarrow> memory \<Rightarrow> (uintptr \<times> memory) option" where
  "mp_tlsf_alloc tlsf sz m = tlsf_alloc_loop (tlsf_pool tlsf) sz m"

text \<open>Freeing reads the magic number of the header and changes nothing on either branch.\<close>

definition mp_tlsf_free :: "uintptr \<Rightarrow> memory \<Rightarrow> memory option" where
  "mp_tlsf_free ptr m =
     (if ptr = NULL then Some m
      else do {
        magic \<leftarrow> load32 m (ptr - TLSF_HEADER + 16);
        if magic \<noteq> TLSF_MAGIC then Some m else Some m })"

section \<open>The tiling of the pool\<close>

definition w32 :: "nat \<Rightarrow> u32" where
  "w32 x = of_nat x"

lemma w32_unat [simp]: "w32 (unat w) = w"
  by (simp add: w32_def)

lemma w32_add: "w32 x + w32 y = w32 (x + y)" "w32 x + sz = w32 (x + unat sz)"
  by (simp_all add: w32_def)

lemma w32_numeral: "w32 x + numeral k = w32 (x + numeral k)"
  by (simp add: w32_def)

text \<open>
  \<open>tiles m a ss e\<close>: headers with payload sizes \<open>ss\<close> lie one after the other from address \<open>a\<close> to
  address \<open>e\<close>, linked in that order.
\<close>

fun tiles :: "memory \<Rightarrow> nat \<Rightarrow> nat list \<Rightarrow> nat \<Rightarrow> bool" where
  "tiles m a [] e = False"
| "tiles m a (s # ss) e =
     (load32 m (w32 a) = Some (w32 s) \<and> a + 20 + s \<le> e \<and>
      (if ss = [] then load32 m (w32 (a + 4)) = Some NULL \<and> a + 20 + s = e
       else load32 m (w32 (a + 4)) = Some (w32 (a + 20 + s)) \<and> tiles m (a + 20 + s) ss e))"

definition pool_mapped :: "memory \<Rightarrow> nat \<Rightarrow> nat \<Rightarrow> bool" where
  "pool_mapped m a e \<longleftrightarrow> 0 < a \<and> a < e \<and> e \<le> 2 ^ 32 \<and> (\<forall>x. a \<le> x \<and> x < e \<longrightarrow> w32 x \<in> dom m)"

lemma unat_addr [simp]: "x < 2 ^ 32 \<Longrightarrow> unat (w32 x) = x"
  by (simp add: w32_def unsigned_of_nat take_bit_nat_eq_self)

lemma span_addr: "x + n \<le> 2 ^ 32 \<Longrightarrow> q \<in> span (w32 x) n \<Longrightarrow> x \<le> unat q \<and> unat q < x + n"
  using in_span_iff [of "w32 x" n q] by (cases n) (auto simp: fits_def)

lemma store_at:
  assumes "pool_mapped m a e" and "a \<le> x" and "x + 4 \<le> e"
  obtains m' where "store32 w (w32 x) m = Some m'" and "pool_mapped m' a e" and "dom m' = dom m"
    and "load32 m' (w32 x) = Some w"
    and "\<And>y. y + 4 \<le> 2 ^ 32 \<Longrightarrow> y + 4 \<le> x \<or> x + 4 \<le> y \<Longrightarrow> load32 m' (w32 y) = load32 m (w32 y)"
    and "\<And>q. unat q < x \<or> x + 4 \<le> unat q \<Longrightarrow> m' q = m q"
proof -
  have e: "e \<le> 2 ^ 32" using assms(1) by (simp add: pool_mapped_def)
  have sp: "\<And>q. q \<in> span (w32 x) 4 \<Longrightarrow> x \<le> unat q \<and> unat q < x + 4"
    using assms(3) e by (intro span_addr) auto
  have "q \<in> dom m" if "q \<in> span (w32 x) 4" for q
  proof -
    have "a \<le> unat q" "unat q < e" using sp [OF that] assms(2,3) by simp_all
    then have "w32 (unat q) \<in> dom m" using assms(1) unfolding pool_mapped_def by blast
    then show ?thesis by (simp only: w32_unat)
  qed
  then obtain m' where m': "store32 w (w32 x) m = Some m'" using store32_defined [of "w32 x" m w] by blast
  have f: "fits (w32 x) 4" using assms(3) e by (simp add: fits_def)
  have "load32 m' (w32 y) = load32 m (w32 y)" if "y + 4 \<le> 2 ^ 32" "y + 4 \<le> x \<or> x + 4 \<le> y" for y
  proof (rule load32_store32_other [OF m'])
    have "fits (w32 y) 4" using that(1) by (simp add: fits_def)
    then show "span (w32 x) 4 \<inter> span (w32 y) 4 = {}"
      using f that assms(3) e by (intro span_disjoint) auto
  qed
  moreover have "m' q = m q" if "unat q < x \<or> x + 4 \<le> unat q" for q
    using store32_other [OF m'] sp [of q] that by fastforce
  moreover have "pool_mapped m' a e" using assms(1) store32_dom [OF m'] by (simp add: pool_mapped_def)
  ultimately show ?thesis using that m' store32_dom [OF m'] load32_store32_same [OF m' f] by blast
qed

lemma tiles_frame:
  assumes "tiles m a ss e" and "e \<le> 2 ^ 32"
    and "\<And>y. a \<le> y \<Longrightarrow> y + 4 \<le> 2 ^ 32 \<Longrightarrow> load32 m' (w32 y) = load32 m (w32 y)"
  shows "tiles m' a ss e"
  using assms
proof (induction ss arbitrary: a)
  case (Cons s ss)
  have "a + 20 + s \<le> 2 ^ 32" using Cons.prems(1,2) by auto
  then have "load32 m' (w32 a) = load32 m (w32 a)" "load32 m' (w32 (a + 4)) = load32 m (w32 (a + 4))"
    using Cons.prems(3) [of a] Cons.prems(3) [of "a + 4"] by simp_all
  moreover have "tiles m' (a + 20 + s) ss e" if "ss \<noteq> []"
    using Cons.prems that by (intro Cons.IH) auto
  ultimately show ?case using Cons.prems(1) by auto
qed simp

lemma tlsf_split_tiles:
  assumes "pool_mapped m a e" and t: "tiles m a (s # ss) e" and "unat sz + 20 \<le> s"
  shows "\<exists>m'. tlsf_split (w32 a) (w32 s) sz m = Some (w32 (a + 20), m') \<and> pool_mapped m' a e \<and>
    tiles m' a (unat sz # (s - unat sz - 20) # ss) e \<and> (\<forall>q. unat q < a \<longrightarrow> m' q = m q)"
proof -
  let ?n = "unat sz" and ?b = "a + 20 + unat sz"
  have e: "e \<le> 2 ^ 32" "a + 20 + s \<le> e" using assms(1) t by (auto simp: pool_mapped_def)
  have bw: "w32 a + TLSF_HEADER + sz = w32 ?b" "w32 a + (4) = w32 (a + 4)"
    "w32 ?b + (4) = w32 (?b + 4)" "w32 ?b + (16) = w32 (?b + 16)"
    "w32 a + TLSF_HEADER = w32 (a + 20)" "w32 (a + 20) + sz = w32 ?b"
    by (simp_all add: TLSF_HEADER_def w32_add w32_numeral)
  have sw: "w32 s - sz - TLSF_HEADER = w32 (s - ?n - 20)"
    using assms(3) by (simp add: TLSF_HEADER_def w32_def of_nat_diff)
  obtain m1 where m1: "store32 (w32 (s - ?n - 20)) (w32 ?b) m = Some m1" "pool_mapped m1 a e"
    "load32 m1 (w32 ?b) = Some (w32 (s - ?n - 20))"
    "\<And>y. y + 4 \<le> 2 ^ 32 \<Longrightarrow> y + 4 \<le> ?b \<or> ?b + 4 \<le> y \<Longrightarrow> load32 m1 (w32 y) = load32 m (w32 y)"
    "\<And>q. unat q < ?b \<or> ?b + 4 \<le> unat q \<Longrightarrow> m1 q = m q"
    by (rule store_at [OF assms(1), of ?b]) (use assms(3) e in auto)
  obtain nx where nx: "load32 m (w32 (a + 4)) = Some nx" using t by (auto split: if_splits)
  have nx1: "load32 m1 (w32 (a + 4)) = Some nx" using m1(4) [of "a + 4"] e assms(3) nx by simp
  obtain m2 where m2: "store32 nx (w32 (?b + 4)) m1 = Some m2" "pool_mapped m2 a e"
    "load32 m2 (w32 (?b + 4)) = Some nx"
    "\<And>y. y + 4 \<le> 2 ^ 32 \<Longrightarrow> y + 4 \<le> ?b + 4 \<or> ?b + 4 + 4 \<le> y \<Longrightarrow> load32 m2 (w32 y) = load32 m1 (w32 y)"
    "\<And>q. unat q < ?b + 4 \<or> ?b + 4 + 4 \<le> unat q \<Longrightarrow> m2 q = m1 q"
    by (rule store_at [OF m1(2), of "?b + 4"]) (use assms(3) e in auto)
  obtain m3 where m3: "store32 TLSF_MAGIC (w32 (?b + 16)) m2 = Some m3" "pool_mapped m3 a e"
    "\<And>y. y + 4 \<le> 2 ^ 32 \<Longrightarrow> y + 4 \<le> ?b + 16 \<or> ?b + 16 + 4 \<le> y \<Longrightarrow> load32 m3 (w32 y) = load32 m2 (w32 y)"
    "\<And>q. unat q < ?b + 16 \<or> ?b + 16 + 4 \<le> unat q \<Longrightarrow> m3 q = m2 q"
    by (rule store_at [OF m2(2), of "?b + 16"]) (use assms(3) e in auto)
  obtain m4 where m4: "store32 sz (w32 a) m3 = Some m4" "pool_mapped m4 a e" "load32 m4 (w32 a) = Some sz"
    "\<And>y. y + 4 \<le> 2 ^ 32 \<Longrightarrow> y + 4 \<le> a \<or> a + 4 \<le> y \<Longrightarrow> load32 m4 (w32 y) = load32 m3 (w32 y)"
    "\<And>q. unat q < a \<or> a + 4 \<le> unat q \<Longrightarrow> m4 q = m3 q"
    by (rule store_at [OF m3(2), of a]) (use assms(3) e in auto)
  obtain m5 where m5: "store32 (w32 ?b) (w32 (a + 4)) m4 = Some m5" "pool_mapped m5 a e"
    "load32 m5 (w32 (a + 4)) = Some (w32 ?b)"
    "\<And>y. y + 4 \<le> 2 ^ 32 \<Longrightarrow> y + 4 \<le> a + 4 \<or> a + 4 + 4 \<le> y \<Longrightarrow> load32 m5 (w32 y) = load32 m4 (w32 y)"
    "\<And>q. unat q < a + 4 \<or> a + 4 + 4 \<le> unat q \<Longrightarrow> m5 q = m4 q"
    by (rule store_at [OF m4(2), of "a + 4"]) (use assms(3) e in auto)
  have split: "tlsf_split (w32 a) (w32 s) sz m = Some (w32 (a + 20), m5)"
    unfolding tlsf_split_def Let_def bw sw using m1(1) nx1 m2(1) m3(1) m4(1) m5(1) by simp
  have ld: "load32 m5 (w32 a) = Some sz" "load32 m5 (w32 ?b) = Some (w32 (s - ?n - 20))"
    "load32 m5 (w32 (?b + 4)) = Some nx"
    using m1(3) m2(3,4) m3(3) m4(3,4) m5(4) e assms(3) by simp_all
  have far: "load32 m5 (w32 y) = load32 m (w32 y)" if "a + 20 + s \<le> y" "y + 4 \<le> 2 ^ 32" for y
    using that m1(4) m2(4) m3(3) m4(4) m5(4) assms(3) by simp
  have "tiles m5 (a + 20 + s) ss e" if "ss \<noteq> []"
    by (rule tiles_frame [OF _ e(1) far]) (use t that in simp)
  then have "tiles m5 a (?n # (s - ?n - 20) # ss) e"
    using ld m5(3) t nx assms(3) by (auto simp: ac_simps)
  moreover have "m5 q = m q" if "unat q < a" for q
    using that m1(5) m2(5) m3(4) m4(5) m5(5) by simp
  ultimately show ?thesis using split m5(2) by blast
qed

section \<open>First fit\<close>

text \<open>
  First fit over the sizes of the blocks that tile a pool from address \<open>a\<close>: the first block with room for the request and
  another header is cut in two; the address is the one behind the header.  A block that was handed out is taken again when
  a request fits in it.
\<close>

fun first_fit :: "nat \<Rightarrow> nat list \<Rightarrow> nat \<Rightarrow> nat option \<times> nat list" where
  "first_fit a [] n = (None, [])"
| "first_fit a (s # ss) n =
     (if n + 20 \<le> s then (Some (a + 20), n # (s - n - 20) # ss)
      else let (p, ss') = first_fit (a + 20 + s) ss n in (p, s # ss'))"


lemma first_fit_none: "fst (first_fit a ss n) = None \<longleftrightarrow> (\<forall>s \<in> set ss. s < n + 20)"
  by (induction ss arbitrary: a) (auto simp: split_beta)

lemma first_fit_none_same: "fst (first_fit a ss n) = None \<Longrightarrow> snd (first_fit a ss n) = ss"
  by (induction ss arbitrary: a) (auto simp: split_beta split: if_splits)


text \<open>Which block it is, and where.\<close>

lemma first_fit_some:
  "fst (first_fit a ss n) = Some p \<Longrightarrow> \<exists>ys s zs. ss = ys @ s # zs \<and> (\<forall>y \<in> set ys. y < n + 20) \<and> n + 20 \<le> s \<and>
     p = a + (\<Sum>y \<leftarrow> ys. y + 20) + 20 \<and> snd (first_fit a ss n) = ys @ n # (s - n - 20) # zs"
proof (induction ss arbitrary: a)
  case (Cons s ss)
  show ?case
  proof (cases "n + 20 \<le> s")
    case True
    then show ?thesis using Cons.prems by (intro exI [of _ "[]"] exI [of _ s] exI [of _ ss]) simp
  next
    case False
    then have "fst (first_fit (a + 20 + s) ss n) = Some p" using Cons.prems by (simp add: split_beta)
    from Cons.IH [OF this] obtain ys u zs where "ss = ys @ u # zs" "\<forall>y \<in> set ys. y < n + 20" "n + 20 \<le> u"
        "p = a + 20 + s + (\<Sum>y \<leftarrow> ys. y + 20) + 20" "snd (first_fit (a + 20 + s) ss n) = ys @ n # (u - n - 20) # zs"
      by blast
    then show ?thesis using False by (intro exI [of _ "s # ys"] exI [of _ u] exI [of _ zs]) (simp add: split_beta)
  qed
qed simp

text \<open>An address as a pointer, \<open>NULL\<close> when there is none.\<close>

definition block_ptr :: "nat option \<Rightarrow> uintptr" where
  "block_ptr p = (case p of None \<Rightarrow> NULL | Some x \<Rightarrow> w32 x)"

lemma block_ptr_simps [simp]: "block_ptr None = NULL" "block_ptr (Some x) = w32 x"
  by (simp_all add: block_ptr_def)


section \<open>Properties\<close>

lemma tlsf_init_tiles:
  assumes "pool_mapped m a (a + unat sz)" and "20 \<le> unat sz"
  shows "\<exists>m'. mp_tlsf_init (Some t) (w32 a) sz m = Some (0, Some \<lparr>tlsf_pool = w32 a, tlsf_size = sz\<rparr>, m') \<and>
    pool_mapped m' a (a + unat sz) \<and> tiles m' a [unat sz - 20] (a + unat sz)"
proof -
  let ?e = "a + unat sz"
  have e: "?e \<le> 2 ^ 32" "0 < a" using assms(1) by (simp_all add: pool_mapped_def)
  have a: "a < 2 ^ 32" using e assms(2) by simp
  have nn: "w32 a \<noteq> NULL" using e(2) unat_addr [OF a] by (auto simp: NULL_def simp del: unat_addr)
  have sw: "sz - TLSF_HEADER = w32 (unat sz - 20)" "\<not> sz < TLSF_HEADER"
    using assms(2) by (simp_all add: w32_def TLSF_HEADER_def of_nat_diff word_less_nat_alt)
  obtain m1 where m1: "store32 (w32 (unat sz - 20)) (w32 a) m = Some m1" "pool_mapped m1 a ?e"
    "load32 m1 (w32 a) = Some (w32 (unat sz - 20))"
    by (rule store_at [OF assms(1), of a]) (use assms(2) in auto)
  obtain m2 where m2: "store32 NULL (w32 (a + 4)) m1 = Some m2" "pool_mapped m2 a ?e"
    "load32 m2 (w32 (a + 4)) = Some NULL"
    "\<And>y. y + 4 \<le> 2 ^ 32 \<Longrightarrow> y + 4 \<le> a + 4 \<or> a + 4 + 4 \<le> y \<Longrightarrow> load32 m2 (w32 y) = load32 m1 (w32 y)"
    by (rule store_at [OF m1(2), of "a + 4"]) (use assms(2) in auto)
  obtain m3 where m3: "store32 TLSF_MAGIC (w32 (a + 16)) m2 = Some m3" "pool_mapped m3 a ?e"
    "\<And>y. y + 4 \<le> 2 ^ 32 \<Longrightarrow> y + 4 \<le> a + 16 \<or> a + 16 + 4 \<le> y \<Longrightarrow> load32 m3 (w32 y) = load32 m2 (w32 y)"
    by (rule store_at [OF m2(2), of "a + 16"]) (use assms(2) in auto)
  have "load32 m3 (w32 a) = Some (w32 (unat sz - 20))" "load32 m3 (w32 (a + 4)) = Some NULL"
    using m1(3) m2(3,4) m3(3) e assms(2) by simp_all
  then have "tiles m3 a [unat sz - 20] ?e" using assms(2) by simp
  then show ?thesis
    using m1(1) m2(1) m3(1,2) nn sw by (simp add: mp_tlsf_init_def w32_numeral)
qed





text \<open>
  Allocated blocks are not marked as such: after an allocation of \<open>n\<close> bytes from the first
  block, a request that is at least a header smaller is answered with the very same address,
  while the first block is still in use.
\<close>

theorem tlsf_alloc_returns_live_block:
  assumes "pool_mapped m a (a + unat sz)" and "unat n + 40 \<le> unat sz" and "unat k + 20 \<le> unat n"
  shows "\<exists>t m1 m2 m3. mp_tlsf_init (Some t0) (w32 a) sz m = Some (0, Some t, m1) \<and>
    mp_tlsf_alloc t n m1 = Some (w32 (a + 20), m2) \<and> mp_tlsf_alloc t k m2 = Some (w32 (a + 20), m3)"
proof -
  have bound: "unat sz < 4294967296" by (rule unat_less_2p32)
  have a0: "w32 a \<noteq> NULL"
    using assms(1,2) unat_addr [of a] by (auto simp: pool_mapped_def NULL_def simp del: unat_addr)
  have step: "tlsf_alloc_loop (w32 a) r m' = tlsf_split (w32 a) (w32 s) r m'"
    if "load32 m' (w32 a) = Some (w32 s)" "unat r + 20 \<le> s" "s < 2 ^ 32" for r s m'
  proof -
    have "unat (r + TLSF_HEADER) = unat r + 20"
      using that by (simp add: TLSF_HEADER_def unat_add_no_overflow)
    then have "r + TLSF_HEADER \<le> w32 s" using that by (simp add: word_le_nat_alt)
    then show ?thesis using a0 that(1) by (subst tlsf_alloc_loop.simps) simp
  qed
  obtain m1 where m1: "mp_tlsf_init (Some t0) (w32 a) sz m = Some (0, Some \<lparr>tlsf_pool = w32 a, tlsf_size = sz\<rparr>, m1)"
    "pool_mapped m1 a (a + unat sz)" "tiles m1 a [unat sz - 20] (a + unat sz)"
    using tlsf_init_tiles [OF assms(1)] assms(2) by auto
  have n: "unat n + 20 \<le> unat sz - 20" using assms(2) by simp
  obtain m2 where m2: "tlsf_split (w32 a) (w32 (unat sz - 20)) n m1 = Some (w32 (a + 20), m2)"
    "pool_mapped m2 a (a + unat sz)" "tiles m2 a [unat n, unat sz - 20 - unat n - 20] (a + unat sz)"
    using tlsf_split_tiles [OF m1(2,3) n] by blast
  obtain m3 where m3: "tlsf_split (w32 a) (w32 (unat n)) k m2 = Some (w32 (a + 20), m3)"
    using tlsf_split_tiles [OF m2(2,3), of k] assms(3) by blast
  have "tlsf_alloc_loop (w32 a) n m1 = Some (w32 (a + 20), m2)"
    using step [of m1 "unat sz - 20" n] m1(3) m2(1) assms(2) bound by simp
  moreover have "tlsf_alloc_loop (w32 a) k m2 = Some (w32 (a + 20), m3)"
    using step [of m2 "unat n" k] m2(3) m3 assms(2,3) bound by simp
  ultimately show ?thesis using m1(1) by (simp add: mp_tlsf_alloc_def)
qed

theorem tlsf_alloc_returns_live_block_witness:
  "\<exists>t m1 m2 m3. mp_tlsf_init (Some \<lparr>tlsf_pool = 0, tlsf_size = 0\<rparr>) (w32 0x20000000) 256 (\<lambda>_. Some 0) = Some (0, Some t, m1) \<and>
     mp_tlsf_alloc t 100 m1 = Some (w32 (0x20000000 + 20), m2) \<and> mp_tlsf_alloc t 64 m2 = Some (w32 (0x20000000 + 20), m3)"
  by (rule tlsf_alloc_returns_live_block) (simp_all add: pool_mapped_def dom_def)

end
