(* ===== verification/SharedHeap.thy ===== *)
theory SharedHeap
  imports Memory
begin

text \<open>
  The shared heap of \<open>src/mm/shared_heap.c\<close>: a best-fit allocator over one buffer with a sorted,
  doubly linked free list, statistics and allocation tracking.

  A block header is a struct of 32 bytes (8 fields on a 32-bit target).  The memory of a heap is the
  buffer's bytes and the headers that lie in it, by address: storing a header or user data ends the
  life of every header it overlaps, and an access to an address where no header is, or outside the
  mapped bytes, is undefined.  The mutex operations of \<open>heap_lock\<close> and \<open>heap_unlock\<close> are
  placeholders in the source and have no effect.
\<close>

section \<open>Data\<close>

record block_header =
  bh_size :: size_t
  bh_next :: uintptr
  bh_prev :: uintptr
  bh_magic :: u32
  bh_is_free :: bool
  bh_thread :: uintptr
  bh_file :: uintptr
  bh_line :: int

record mp_shared_heap_config =
  cfg_buffer :: uintptr
  cfg_size :: size_t
  cfg_min_block_size :: size_t
  cfg_alignment :: size_t
  cfg_thread_safe :: bool
  cfg_max_threads :: u32

record mp_shared_heap_stats =
  total_size :: size_t
  used_size :: size_t
  free_size :: size_t
  stat_peak_used :: size_t
  stat_num_allocations :: size_t
  num_frees :: size_t
  num_reallocs :: size_t
  largest_free :: size_t
  fragmentation :: size_t

record mp_allocation_info =
  info_ptr :: uintptr
  info_size :: size_t
  info_alignment :: size_t
  info_thread :: uintptr
  info_file :: uintptr
  info_line :: int
  info_timestamp :: u32

text \<open>\<open>allocations\<close> is the tracking array; an element not yet written is \<^term>\<open>None\<close>.\<close>

record mp_shared_heap =
  heap_buffer :: uintptr
  heap_size :: size_t
  used :: size_t
  peak_used :: size_t
  alignment :: size_t
  thread_safe :: bool
  mutex :: uintptr
  stats :: mp_shared_heap_stats
  allocations :: "mp_allocation_info option list option"
  max_allocations :: size_t
  num_allocations :: size_t
  thread_caches :: uintptr
  impl_data :: uintptr
  free_list :: uintptr

definition MP_SHARED_HEAP_MAGIC :: u32 where
  "MP_SHARED_HEAP_MAGIC = 0x48454150"

text \<open>\<open>sizeof(block_header_t)\<close> and \<open>sizeof(mp_allocation_info_t)\<close>.\<close>

definition SH_HEADER :: size_t where
  "SH_HEADER = 32"

definition SH_INFO :: size_t where
  "SH_INFO = 28"

section \<open>Memory with block headers\<close>

record heap_mem =
  headers :: "uintptr \<Rightarrow> block_header option"
  heap_bytes :: memory

definition header_at :: "heap_mem \<Rightarrow> uintptr \<Rightarrow> block_header option" where
  "header_at m p = (if p = NULL then None else headers m p)"

text \<open>Dropping the headers that meet the \<open>n > 0\<close> bytes from \<open>p\<close>.\<close>

definition clobber :: "uintptr \<Rightarrow> size_t \<Rightarrow> (uintptr \<Rightarrow> block_header option) \<Rightarrow> uintptr \<Rightarrow> block_header option" where
  "clobber p n hs = (\<lambda>q. if q - p < n \<or> p - q < SH_HEADER then None else hs q)"

definition put_header :: "uintptr \<Rightarrow> block_header \<Rightarrow> heap_mem \<Rightarrow> heap_mem option" where
  "put_header p h m =
     (if p \<noteq> NULL \<and> load_bytes (heap_bytes m) (unat SH_HEADER) p \<noteq> None
      then Some (m\<lparr>headers := (clobber p SH_HEADER (headers m))(p \<mapsto> h)\<rparr>)
      else None)"

definition set_header :: "uintptr \<Rightarrow> (block_header \<Rightarrow> block_header) \<Rightarrow> heap_mem \<Rightarrow> heap_mem option" where
  "set_header p f m = do { h \<leftarrow> header_at m p; Some (m\<lparr>headers := (headers m)(p \<mapsto> f h)\<rparr>) }"

definition user_memset :: "uintptr \<Rightarrow> u8 \<Rightarrow> size_t \<Rightarrow> heap_mem \<Rightarrow> heap_mem option" where
  "user_memset p x n m =
     do { b \<leftarrow> memset (heap_bytes m) p x (unat n);
          Some (if n = 0 then m else m\<lparr>headers := clobber p n (headers m), heap_bytes := b\<rparr>) }"

definition user_memcpy :: "uintptr \<Rightarrow> uintptr \<Rightarrow> size_t \<Rightarrow> heap_mem \<Rightarrow> heap_mem option" where
  "user_memcpy dst src n m =
     do { b \<leftarrow> memcpy (heap_bytes m) dst src (unat n);
          Some (if n = 0 then m else m\<lparr>headers := clobber dst n (headers m), heap_bytes := b\<rparr>) }"

section \<open>Blocks and the free list\<close>

definition heap_align_up :: "uintptr \<Rightarrow> size_t \<Rightarrow> uintptr" where
  "heap_align_up ptr al = (ptr + al - 1) AND NOT (al - 1)"

definition get_block_header :: "uintptr \<Rightarrow> uintptr" where
  "get_block_header ptr = ptr - SH_HEADER"

definition init_block_header ::
  "uintptr \<Rightarrow> size_t \<Rightarrow> bool \<Rightarrow> uintptr \<Rightarrow> uintptr \<Rightarrow> int \<Rightarrow> heap_mem \<Rightarrow> heap_mem option" where
  "init_block_header block sz is_free thread file line m =
     put_header block \<lparr>bh_size = sz, bh_next = NULL, bh_prev = NULL, bh_magic = MP_SHARED_HEAP_MAGIC,
       bh_is_free = is_free, bh_thread = thread, bh_file = file, bh_line = line\<rparr> m"

definition split_block :: "uintptr \<Rightarrow> size_t \<Rightarrow> heap_mem \<Rightarrow> (uintptr \<times> heap_mem) option" where
  "split_block block requested_size m =
     do { h \<leftarrow> header_at m block;
          let remaining = bh_size h - requested_size - SH_HEADER;
          if remaining \<ge> SH_HEADER + 8
          then do {
            let new_block = block + SH_HEADER + requested_size;
            m1 \<leftarrow> init_block_header new_block remaining True NULL NULL 0 m;
            m2 \<leftarrow> set_header block (bh_size_update (\<lambda>_. requested_size)) m1;
            Some (new_block, m2) }
          else Some (NULL, m) }"

text \<open>The body of the loop of \<open>merge_free_blocks\<close> for a \<open>current\<close> that ends where \<open>block\<close> starts.\<close>

definition merge_into_current :: "uintptr \<Rightarrow> uintptr \<Rightarrow> uintptr \<Rightarrow> heap_mem \<Rightarrow> heap_mem option" where
  "merge_into_current current block block_end m =
     do { b \<leftarrow> header_at m block;
          m1 \<leftarrow> set_header current (bh_size_update (\<lambda>s. s + (SH_HEADER + bh_size b))) m;
          c \<leftarrow> header_at m1 current;
          if bh_next c \<noteq> NULL \<and> bh_next c = block_end
          then do {
            n \<leftarrow> header_at m1 (bh_next c);
            m2 \<leftarrow> set_header current (bh_size_update (\<lambda>s. s + (SH_HEADER + bh_size n))) m1;
            n' \<leftarrow> header_at m2 (bh_next c);
            m3 \<leftarrow> set_header current (bh_next_update (\<lambda>_. bh_next n')) m2;
            (if bh_next n' \<noteq> NULL then set_header (bh_next n') (bh_prev_update (\<lambda>_. current)) m3 else Some m3) }
          else Some m1 }"

text \<open>The same for a \<open>current\<close> that starts where \<open>block\<close> ends; every pointer is read again.\<close>

definition merge_into_block ::
  "uintptr \<Rightarrow> uintptr \<Rightarrow> mp_shared_heap \<Rightarrow> heap_mem \<Rightarrow> (mp_shared_heap \<times> heap_mem) option" where
  "merge_into_block current block heap m =
     do { c \<leftarrow> header_at m current;
          m1 \<leftarrow> set_header block (\<lambda>b. b\<lparr>bh_size := bh_size b + (SH_HEADER + bh_size c), bh_next := bh_next c\<rparr>) m;
          m2 \<leftarrow> (if bh_next c \<noteq> NULL then set_header (bh_next c) (bh_prev_update (\<lambda>_. block)) m1 else Some m1);
          c2 \<leftarrow> header_at m2 current;
          (heap1, m3) \<leftarrow> (if bh_prev c2 \<noteq> NULL
            then do { m' \<leftarrow> set_header (bh_prev c2) (bh_next_update (\<lambda>_. bh_next c2)) m2; Some (heap, m') }
            else Some (heap\<lparr>free_list := bh_next c2\<rparr>, m2));
          c3 \<leftarrow> header_at m3 current;
          m4 \<leftarrow> set_header block (bh_prev_update (\<lambda>_. bh_prev c3)) m3;
          c4 \<leftarrow> header_at m4 current;
          if bh_prev c4 \<noteq> NULL
          then do { m5 \<leftarrow> set_header (bh_prev c4) (bh_next_update (\<lambda>_. block)) m4; Some (heap1, m5) }
          else Some (heap1\<lparr>free_list := block\<rparr>, m4) }"

partial_function (option) merge_loop ::
  "uintptr \<Rightarrow> uintptr \<Rightarrow> mp_shared_heap \<Rightarrow> heap_mem \<Rightarrow> (mp_shared_heap \<times> heap_mem) option" where
  "merge_loop current block heap m =
     (if current = NULL then Some (heap, m)
      else Option.bind (header_at m current) (\<lambda>c. Option.bind (header_at m block) (\<lambda>b.
        let current_end = current + SH_HEADER + bh_size c; block_end = block + SH_HEADER + bh_size b
        in if current_end = block
           then Option.bind (merge_into_current current block block_end m) (\<lambda>m'. Some (heap, m'))
           else if block_end = current then merge_into_block current block heap m
           else merge_loop (bh_next c) block heap m)))"

definition merge_free_blocks ::
  "uintptr \<Rightarrow> mp_shared_heap \<Rightarrow> heap_mem \<Rightarrow> (mp_shared_heap \<times> heap_mem) option" where
  "merge_free_blocks block heap m = merge_loop (free_list heap) block heap m"

text \<open>The search of \<open>add_to_free_list\<close>: the predecessor and the successor of the new block.\<close>

partial_function (option) insert_position ::
  "uintptr \<Rightarrow> uintptr \<Rightarrow> uintptr \<Rightarrow> heap_mem \<Rightarrow> (uintptr \<times> uintptr) option" where
  "insert_position block prev current m =
     (if current \<noteq> NULL \<and> current < block
      then Option.bind (header_at m current) (\<lambda>c. insert_position block current (bh_next c) m)
      else Some (prev, current))"

definition add_to_free_list ::
  "uintptr \<Rightarrow> mp_shared_heap \<Rightarrow> heap_mem \<Rightarrow> (mp_shared_heap \<times> heap_mem) option" where
  "add_to_free_list block heap m =
     do { m1 \<leftarrow> set_header block (\<lambda>b. b\<lparr>bh_is_free := True, bh_next := NULL, bh_prev := NULL\<rparr>) m;
          if free_list heap = NULL then Some (heap\<lparr>free_list := block\<rparr>, m1)
          else do {
            (prev, current) \<leftarrow> insert_position block NULL (free_list heap) m1;
            (heap1, m2) \<leftarrow> (if prev \<noteq> NULL
              then do { m' \<leftarrow> set_header prev (bh_next_update (\<lambda>_. block)) m1;
                        m'' \<leftarrow> set_header block (bh_prev_update (\<lambda>_. prev)) m';
                        Some (heap, m'') }
              else Some (heap\<lparr>free_list := block\<rparr>, m1));
            m3 \<leftarrow> set_header block (bh_next_update (\<lambda>_. current)) m2;
            m4 \<leftarrow> (if current \<noteq> NULL then set_header current (bh_prev_update (\<lambda>_. block)) m3 else Some m3);
            Some (heap1, m4) } }"

definition remove_from_free_list ::
  "uintptr \<Rightarrow> mp_shared_heap \<Rightarrow> heap_mem \<Rightarrow> (mp_shared_heap \<times> heap_mem) option" where
  "remove_from_free_list block heap m =
     do { b \<leftarrow> header_at m block;
          (heap1, m1) \<leftarrow> (if bh_prev b \<noteq> NULL
            then do { m' \<leftarrow> set_header (bh_prev b) (bh_next_update (\<lambda>_. bh_next b)) m; Some (heap, m') }
            else Some (heap\<lparr>free_list := bh_next b\<rparr>, m));
          b1 \<leftarrow> header_at m1 block;
          m2 \<leftarrow> (if bh_next b1 \<noteq> NULL then set_header (bh_next b1) (bh_prev_update (\<lambda>_. bh_prev b1)) m1 else Some m1);
          m3 \<leftarrow> set_header block (\<lambda>b. b\<lparr>bh_is_free := False, bh_next := NULL, bh_prev := NULL\<rparr>) m2;
          Some (heap1, m3) }"

text \<open>The best-fit search of \<open>find_free_block\<close>.\<close>

partial_function (option) find_free_loop ::
  "size_t \<Rightarrow> size_t \<Rightarrow> uintptr \<Rightarrow> uintptr \<Rightarrow> heap_mem \<Rightarrow> uintptr option" where
  "find_free_loop sz al current best_fit m =
     (if current = NULL then Some best_fit
      else Option.bind (header_at m current) (\<lambda>c.
        let block_addr = current + SH_HEADER; padding = heap_align_up block_addr al - block_addr
        in if bh_size c \<ge> sz + padding
           then (if best_fit = NULL then find_free_loop sz al (bh_next c) current m
                 else Option.bind (header_at m best_fit) (\<lambda>b.
                        find_free_loop sz al (bh_next c) (if bh_size c < bh_size b then current else best_fit) m))
           else find_free_loop sz al (bh_next c) best_fit m))"

definition find_free_block :: "mp_shared_heap \<Rightarrow> size_t \<Rightarrow> size_t \<Rightarrow> heap_mem \<Rightarrow> uintptr option" where
  "find_free_block heap sz al m = find_free_loop sz al (free_list heap) NULL m"

section \<open>Initialisation\<close>

definition empty_stats :: mp_shared_heap_stats where
  "empty_stats = \<lparr>total_size = 0, used_size = 0, free_size = 0, stat_peak_used = 0, stat_num_allocations = 0,
     num_frees = 0, num_reallocs = 0, largest_free = 0, fragmentation = 0\<rparr>"

definition mp_shared_heap_init ::
  "mp_shared_heap option \<Rightarrow> mp_shared_heap_config option \<Rightarrow> heap_mem \<Rightarrow>
   (int \<times> mp_shared_heap option \<times> heap_mem) option" where
  "mp_shared_heap_init heap config m =
     (case (heap, config) of
        (Some h, Some cfg) \<Rightarrow>
          if cfg_buffer cfg = NULL \<or> cfg_size cfg = 0 then Some (-1, heap, m)
          else do {
            let h' = \<lparr>heap_buffer = cfg_buffer cfg, heap_size = cfg_size cfg, used = 0, peak_used = 0,
              alignment = (if cfg_alignment cfg > 0 then cfg_alignment cfg else 8),
              thread_safe = cfg_thread_safe cfg, mutex = NULL,
              stats = empty_stats\<lparr>total_size := cfg_size cfg, free_size := cfg_size cfg\<rparr>,
              allocations = None, max_allocations = 0, num_allocations = 0, thread_caches = NULL, impl_data = NULL,
              free_list = NULL\<rparr>;
            m' \<leftarrow> init_block_header (cfg_buffer cfg) (cfg_size cfg - SH_HEADER) True NULL NULL 0 m;
            Some (0, Some (h'\<lparr>free_list := cfg_buffer cfg\<rparr>), m') }
      | _ \<Rightarrow> Some (-1, heap, m))"

definition mp_shared_heap_destroy :: "mp_shared_heap option \<Rightarrow> mp_shared_heap option" where
  "mp_shared_heap_destroy heap =
     map_option (\<lambda>h. h\<lparr>mutex := NULL, allocations := None, thread_caches := NULL\<rparr>) heap"

section \<open>Allocation\<close>

definition mp_shared_heap_aligned_alloc ::
  "mp_shared_heap option \<Rightarrow> size_t \<Rightarrow> size_t \<Rightarrow> heap_mem \<Rightarrow> (uintptr \<times> mp_shared_heap option \<times> heap_mem) option" where
  "mp_shared_heap_aligned_alloc heap sz al m =
     (case heap of None \<Rightarrow> Some (NULL, heap, m)
      | Some h \<Rightarrow>
          if sz = 0 then Some (NULL, heap, m)
          else if al AND (al - 1) \<noteq> 0 then Some (NULL, heap, m)
          else do {
            block \<leftarrow> find_free_block h sz al m;
            if block = NULL then Some (NULL, heap, m)
            else do {
              let block_addr = block + SH_HEADER;
              let aligned_addr = heap_align_up block_addr al;
              let padding = aligned_addr - block_addr;
              let total_needed = sz + padding;
              (new_free_block, m1) \<leftarrow> split_block block total_needed m;
              (h1, m2) \<leftarrow> remove_from_free_list block h m1;
              let u = used h1 + (SH_HEADER + total_needed);
              let h2 = h1\<lparr>used := u, peak_used := (if u > peak_used h1 then u else peak_used h1),
                stats := (stats h1)\<lparr>used_size := u, free_size := heap_size h1 - u,
                                    stat_num_allocations := stat_num_allocations (stats h1) + 1\<rparr>\<rparr>;
              (h3, m3) \<leftarrow> (if new_free_block \<noteq> NULL then add_to_free_list new_free_block h2 m2 else Some (h2, m2));
              m4 \<leftarrow> set_header block (\<lambda>b. b\<lparr>bh_size := total_needed, bh_magic := MP_SHARED_HEAP_MAGIC,
                bh_is_free := False, bh_thread := NULL, bh_file := NULL, bh_line := 0\<rparr>) m3;
              Some (aligned_addr, Some h3, m4) } })"

text \<open>\<open>mp_shared_heap_alloc\<close> reads \<open>heap->alignment\<close> before any check: it is undefined for \<open>NULL\<close>.\<close>

definition mp_shared_heap_alloc ::
  "mp_shared_heap option \<Rightarrow> size_t \<Rightarrow> heap_mem \<Rightarrow> (uintptr \<times> mp_shared_heap option \<times> heap_mem) option" where
  "mp_shared_heap_alloc heap sz m =
     do { h \<leftarrow> heap; mp_shared_heap_aligned_alloc heap sz (alignment h) m }"

definition mp_shared_heap_zalloc ::
  "mp_shared_heap option \<Rightarrow> size_t \<Rightarrow> heap_mem \<Rightarrow> (uintptr \<times> mp_shared_heap option \<times> heap_mem) option" where
  "mp_shared_heap_zalloc heap sz m =
     do { (ptr, heap', m1) \<leftarrow> mp_shared_heap_alloc heap sz m;
          if ptr \<noteq> NULL then do { m2 \<leftarrow> user_memset ptr 0 sz m1; Some (ptr, heap', m2) }
          else Some (ptr, heap', m1) }"

definition mp_shared_heap_alloc_tracked ::
  "mp_shared_heap option \<Rightarrow> size_t \<Rightarrow> uintptr \<Rightarrow> int \<Rightarrow> heap_mem \<Rightarrow>
   (uintptr \<times> mp_shared_heap option \<times> heap_mem) option" where
  "mp_shared_heap_alloc_tracked heap sz file line m =
     (case heap of None \<Rightarrow> Some (NULL, heap, m)
      | Some h0 \<Rightarrow>
          if sz = 0 then Some (NULL, heap, m)
          else do {
            (ptr, heap', m1) \<leftarrow> mp_shared_heap_aligned_alloc heap sz (alignment h0) m;
            if ptr = NULL then Some (ptr, heap', m1)
            else do {
              h \<leftarrow> heap';
              m2 \<leftarrow> set_header (get_block_header ptr) (\<lambda>b. b\<lparr>bh_file := file, bh_line := line\<rparr>) m1;
              case allocations h of None \<Rightarrow> Some (ptr, heap', m2)
              | Some arr \<Rightarrow>
                  if num_allocations h < max_allocations h
                  then (if unat (num_allocations h) < length arr
                        then Some (ptr, Some (h\<lparr>allocations := Some (arr[unat (num_allocations h) :=
                               Some \<lparr>info_ptr = ptr, info_size = sz, info_alignment = alignment h, info_thread = NULL,
                                     info_file = file, info_line = line, info_timestamp = 0\<rparr>]),
                               num_allocations := num_allocations h + 1\<rparr>), m2)
                        else None)
                  else Some (ptr, heap', m2) } })"

section \<open>Release and reallocation\<close>

definition mp_shared_heap_free_tracked ::
  "mp_shared_heap option \<Rightarrow> uintptr \<Rightarrow> uintptr \<Rightarrow> int \<Rightarrow> heap_mem \<Rightarrow> (mp_shared_heap option \<times> heap_mem) option" where
  "mp_shared_heap_free_tracked heap ptr file line m =
     (case heap of None \<Rightarrow> Some (heap, m)
      | Some h \<Rightarrow>
          if ptr = NULL then Some (heap, m)
          else do {
            let block = get_block_header ptr;
            b \<leftarrow> header_at m block;
            if bh_magic b \<noteq> MP_SHARED_HEAP_MAGIC \<or> bh_is_free b then Some (heap, m)
            else do {
              let u = used h - (SH_HEADER + bh_size b);
              let h1 = h\<lparr>used := u, stats := (stats h)\<lparr>used_size := u, free_size := heap_size h - u,
                                                      num_frees := num_frees (stats h) + 1\<rparr>\<rparr>;
              (h2, m1) \<leftarrow> add_to_free_list block h1 m;
              (h3, m2) \<leftarrow> merge_free_blocks block h2 m1;
              Some (Some h3, m2) } })"

definition mp_shared_heap_free ::
  "mp_shared_heap option \<Rightarrow> uintptr \<Rightarrow> heap_mem \<Rightarrow> (mp_shared_heap option \<times> heap_mem) option" where
  "mp_shared_heap_free heap ptr m = mp_shared_heap_free_tracked heap ptr NULL 0 m"

definition count_realloc :: "mp_shared_heap \<Rightarrow> mp_shared_heap" where
  "count_realloc h = h\<lparr>stats := (stats h)\<lparr>num_reallocs := num_reallocs (stats h) + 1\<rparr>\<rparr>"

definition mp_shared_heap_realloc ::
  "mp_shared_heap option \<Rightarrow> uintptr \<Rightarrow> size_t \<Rightarrow> heap_mem \<Rightarrow> (uintptr \<times> mp_shared_heap option \<times> heap_mem) option" where
  "mp_shared_heap_realloc heap ptr new_size m =
     (case heap of None \<Rightarrow> Some (NULL, heap, m)
      | Some h \<Rightarrow>
          if ptr = NULL then mp_shared_heap_alloc heap new_size m
          else do {
            let block = get_block_header ptr;
            b \<leftarrow> header_at m block;
            if bh_magic b \<noteq> MP_SHARED_HEAP_MAGIC \<or> bh_is_free b then Some (NULL, heap, m)
            else if new_size \<le> bh_size b then Some (ptr, Some (count_realloc h), m)
            else do {
              (new_ptr, heap1, m1) \<leftarrow> mp_shared_heap_alloc heap new_size m;
              if new_ptr = NULL then Some (NULL, heap1, m1)
              else do {
                b1 \<leftarrow> header_at m1 block;
                let copy_size = (if bh_size b1 < new_size then bh_size b1 else new_size);
                m2 \<leftarrow> user_memcpy new_ptr ptr copy_size m1;
                (heap2, m3) \<leftarrow> mp_shared_heap_free heap1 ptr m2;
                Some (new_ptr, map_option count_realloc heap2, m3) } } })"

section \<open>Queries\<close>

text \<open>\<open>*stats\<close> after the call; \<^term>\<open>None\<close> for a \<open>NULL\<close> pointer.\<close>

definition mp_shared_heap_get_stats ::
  "mp_shared_heap option \<Rightarrow> mp_shared_heap_stats option \<Rightarrow> mp_shared_heap_stats option" where
  "mp_shared_heap_get_stats heap out =
     (case (heap, out) of (Some h, Some _) \<Rightarrow> Some (stats h) | _ \<Rightarrow> out)"

definition mp_shared_heap_reset :: "mp_shared_heap option \<Rightarrow> heap_mem \<Rightarrow> (mp_shared_heap option \<times> heap_mem) option" where
  "mp_shared_heap_reset heap m =
     (case heap of None \<Rightarrow> Some (heap, m)
      | Some h \<Rightarrow> do {
          let h1 = h\<lparr>used := 0, peak_used := 0, num_allocations := 0,
            stats := (stats h)\<lparr>used_size := 0, free_size := heap_size h, stat_num_allocations := 0,
                               num_frees := 0, num_reallocs := 0\<rparr>\<rparr>;
          m' \<leftarrow> init_block_header (heap_buffer h) (heap_size h - SH_HEADER) True NULL NULL 0 m;
          Some (Some (h1\<lparr>free_list := heap_buffer h\<rparr>), m') })"

definition mp_shared_heap_contains :: "mp_shared_heap option \<Rightarrow> uintptr \<Rightarrow> bool" where
  "mp_shared_heap_contains heap ptr =
     (case heap of None \<Rightarrow> False
      | Some h \<Rightarrow> ptr \<noteq> NULL \<and> ptr \<ge> heap_buffer h \<and> ptr < heap_buffer h + heap_size h)"

definition mp_shared_heap_get_block_size :: "mp_shared_heap option \<Rightarrow> uintptr \<Rightarrow> heap_mem \<Rightarrow> size_t option" where
  "mp_shared_heap_get_block_size heap ptr m =
     (if heap = None \<or> ptr = NULL then Some 0
      else do { b \<leftarrow> header_at m (ptr - SH_HEADER);
                Some (if bh_magic b = MP_SHARED_HEAP_MAGIC \<and> \<not> bh_is_free b then bh_size b else 0) })"

section \<open>Allocation tracking\<close>

text \<open>\<open>malloc n\<close> tells whether the C heap provides \<open>n\<close> bytes; the product wraps to 32 bits.\<close>

definition mp_shared_heap_enable_tracking ::
  "(size_t \<Rightarrow> bool) \<Rightarrow> mp_shared_heap option \<Rightarrow> size_t \<Rightarrow> int \<times> mp_shared_heap option" where
  "mp_shared_heap_enable_tracking malloc heap n =
     (case heap of None \<Rightarrow> (-1, heap)
      | Some h \<Rightarrow>
          if n = 0 then (-1, heap)
          else if \<not> malloc (n * SH_INFO) then (-1, Some (h\<lparr>allocations := None\<rparr>))
          else (0, Some (h\<lparr>allocations := Some (replicate (unat (n * SH_INFO) div unat SH_INFO) None),
                           max_allocations := n, num_allocations := 0\<rparr>)))"

definition mp_shared_heap_disable_tracking :: "mp_shared_heap option \<Rightarrow> mp_shared_heap option" where
  "mp_shared_heap_disable_tracking heap =
     map_option (\<lambda>h. h\<lparr>allocations := None, max_allocations := 0, num_allocations := 0\<rparr>) heap"

text \<open>The tracking array is only read at written elements: anything else is undefined.\<close>

definition mp_shared_heap_get_allocation_info ::
  "mp_shared_heap option \<Rightarrow> size_t \<Rightarrow> mp_allocation_info option \<Rightarrow> (int \<times> mp_allocation_info option) option" where
  "mp_shared_heap_get_allocation_info heap index info =
     (case (heap, info) of
        (Some h, Some _) \<Rightarrow>
          if index \<ge> num_allocations h then Some (-1, info)
          else do { arr \<leftarrow> allocations h;
                    x \<leftarrow> (if unat index < length arr then arr ! unat index else None);
                    Some (0, Some x) }
      | _ \<Rightarrow> Some (-1, info))"

section \<open>Diagnosis\<close>

text \<open>A line of the dump: its format with its arguments.\<close>

datatype dump_line =
    Dump_title
  | Dump_total size_t
  | Dump_used size_t size_t
  | Dump_free size_t size_t
  | Dump_peak size_t
  | Dump_allocations size_t
  | Dump_frees size_t
  | Dump_reallocs size_t
  | Dump_largest size_t
  | Dump_fragmentation size_t
  | Dump_free_title
  | Dump_block nat size_t uintptr
  | Dump_tracked_title
  | Dump_tracked nat mp_allocation_info

definition percent :: "size_t \<Rightarrow> size_t \<Rightarrow> size_t" where
  "percent part whole = (if whole > 0 then (part * 100) div whole else 0)"

partial_function (option) dump_blocks :: "nat \<Rightarrow> uintptr \<Rightarrow> heap_mem \<Rightarrow> dump_line list option" where
  "dump_blocks count block m =
     (if block = NULL then Some []
      else Option.bind (header_at m block) (\<lambda>b.
        Option.bind (dump_blocks (count + 1) (bh_next b) m) (\<lambda>ls.
          Some (Dump_block count (bh_size b) block # ls))))"

definition dump_tracked :: "mp_shared_heap \<Rightarrow> dump_line list option" where
  "dump_tracked h =
     (case allocations h of None \<Rightarrow> Some []
      | Some arr \<Rightarrow>
          if num_allocations h = 0 then Some []
          else if \<exists>i \<in> set [0..<unat (num_allocations h)]. i \<ge> length arr \<or> arr ! i = None then None
          else Some (Dump_tracked_title # map (\<lambda>i. Dump_tracked i (the (arr ! i))) [0..<unat (num_allocations h)]))"

text \<open>\<open>mp_shared_heap_dump\<close>: the lines given to the callback, in order.\<close>

definition mp_shared_heap_dump :: "mp_shared_heap option \<Rightarrow> bool \<Rightarrow> heap_mem \<Rightarrow> dump_line list option" where
  "mp_shared_heap_dump heap has_callback m =
     (case heap of None \<Rightarrow> Some []
      | Some h \<Rightarrow>
          if \<not> has_callback then Some []
          else do {
            let s = stats h;
            blocks \<leftarrow> dump_blocks 0 (free_list h) m;
            tracked \<leftarrow> dump_tracked h;
            Some ([Dump_title, Dump_total (total_size s),
                   Dump_used (used_size s) (percent (used_size s) (total_size s)),
                   Dump_free (free_size s) (percent (free_size s) (total_size s)),
                   Dump_peak (stat_peak_used s), Dump_allocations (stat_num_allocations s), Dump_frees (num_frees s),
                   Dump_reallocs (num_reallocs s), Dump_largest (largest_free s), Dump_fragmentation (fragmentation s),
                   Dump_free_title] @ blocks @ tracked) })"

partial_function (option) validate_loop :: "uintptr \<Rightarrow> uintptr \<Rightarrow> heap_mem \<Rightarrow> bool option" where
  "validate_loop block end_ptr m =
     (if block < end_ptr
      then Option.bind (header_at m block) (\<lambda>b.
        if bh_magic b \<noteq> MP_SHARED_HEAP_MAGIC then Some False
        else if bh_size b = 0 then Some False
        else validate_loop (block + SH_HEADER + bh_size b) end_ptr m)
      else Some True)"

definition mp_shared_heap_validate :: "mp_shared_heap option \<Rightarrow> heap_mem \<Rightarrow> bool option" where
  "mp_shared_heap_validate heap m =
     (case heap of None \<Rightarrow> Some False
      | Some h \<Rightarrow> validate_loop (heap_buffer h) (heap_buffer h + heap_size h) m)"

partial_function (option) defrag_loop :: "uintptr \<Rightarrow> size_t \<Rightarrow> heap_mem \<Rightarrow> (size_t \<times> heap_mem) option" where
  "defrag_loop current coalesced m =
     (if current = NULL then Some (coalesced, m)
      else Option.bind (header_at m current) (\<lambda>c.
        let nxt = bh_next c
        in if nxt \<noteq> NULL \<and> current + SH_HEADER + bh_size c = nxt
           then Option.bind (header_at m nxt) (\<lambda>n.
                Option.bind (set_header current (bh_size_update (\<lambda>s. s + (SH_HEADER + bh_size n))) m) (\<lambda>m1.
                Option.bind (set_header current (bh_next_update (\<lambda>_. bh_next n)) m1) (\<lambda>m2.
                Option.bind (if bh_next n \<noteq> NULL then set_header (bh_next n) (bh_prev_update (\<lambda>_. current)) m2
                             else Some m2) (\<lambda>m3.
                  defrag_loop current (coalesced + 1) m3))))
           else defrag_loop nxt coalesced m))"

definition mp_shared_heap_defrag :: "mp_shared_heap option \<Rightarrow> heap_mem \<Rightarrow> (size_t \<times> heap_mem) option" where
  "mp_shared_heap_defrag heap m =
     (case heap of None \<Rightarrow> Some (0, m) | Some h \<Rightarrow> defrag_loop (free_list h) 0 m)"

text \<open>Thread caches are not implemented in the source.\<close>

definition mp_shared_heap_create_thread_cache :: "mp_shared_heap option \<Rightarrow> uintptr \<Rightarrow> int \<times> mp_shared_heap option" where
  "mp_shared_heap_create_thread_cache heap thread = (0, heap)"

definition mp_shared_heap_destroy_thread_cache :: "mp_shared_heap option \<Rightarrow> uintptr \<Rightarrow> mp_shared_heap option" where
  "mp_shared_heap_destroy_thread_cache heap thread = heap"

section \<open>The global heap\<close>

text \<open>
  \<open>mp_shared_heap_global\<close> is the heap the pointer points to; \<open>alloc\<close> is the struct \<open>malloc\<close>
  provides, with indeterminate contents, or \<^term>\<open>None\<close>.
\<close>

definition mp_shared_heap_global_init ::
  "mp_shared_heap option \<Rightarrow> mp_shared_heap option \<Rightarrow> uintptr \<Rightarrow> size_t \<Rightarrow> heap_mem \<Rightarrow>
   (int \<times> mp_shared_heap option \<times> heap_mem) option" where
  "mp_shared_heap_global_init alloc global buffer sz m =
     (if global \<noteq> None then Some (-1, global, m)
      else if alloc = None then Some (-1, None, m)
      else mp_shared_heap_init alloc (Some \<lparr>cfg_buffer = buffer, cfg_size = sz, cfg_min_block_size = 16,
             cfg_alignment = 8, cfg_thread_safe = True, cfg_max_threads = 32\<rparr>) m)"

definition mp_shared_heap_global_alloc ::
  "mp_shared_heap option \<Rightarrow> size_t \<Rightarrow> heap_mem \<Rightarrow> (uintptr \<times> mp_shared_heap option \<times> heap_mem) option" where
  "mp_shared_heap_global_alloc global sz m =
     (if global = None then Some (NULL, global, m) else mp_shared_heap_alloc global sz m)"

definition mp_shared_heap_global_free ::
  "mp_shared_heap option \<Rightarrow> uintptr \<Rightarrow> heap_mem \<Rightarrow> (mp_shared_heap option \<times> heap_mem) option" where
  "mp_shared_heap_global_free global ptr m =
     (if global = None then Some (global, m) else mp_shared_heap_free global ptr m)"

definition mp_shared_heap_global_alloc_tracked ::
  "mp_shared_heap option \<Rightarrow> size_t \<Rightarrow> uintptr \<Rightarrow> int \<Rightarrow> heap_mem \<Rightarrow>
   (uintptr \<times> mp_shared_heap option \<times> heap_mem) option" where
  "mp_shared_heap_global_alloc_tracked global sz file line m =
     (if global = None then Some (NULL, global, m) else mp_shared_heap_alloc_tracked global sz file line m)"

definition mp_shared_heap_global_free_tracked ::
  "mp_shared_heap option \<Rightarrow> uintptr \<Rightarrow> uintptr \<Rightarrow> int \<Rightarrow> heap_mem \<Rightarrow> (mp_shared_heap option \<times> heap_mem) option" where
  "mp_shared_heap_global_free_tracked global ptr file line m =
     (if global = None then Some (global, m) else mp_shared_heap_free_tracked global ptr file line m)"

definition mp_shared_heap_global_get_stats ::
  "mp_shared_heap option \<Rightarrow> mp_shared_heap_stats option \<Rightarrow> mp_shared_heap_stats option" where
  "mp_shared_heap_global_get_stats global out =
     (if global = None then map_option (\<lambda>_. empty_stats) out else mp_shared_heap_get_stats global out)"

definition mp_shared_heap_global_contains :: "mp_shared_heap option \<Rightarrow> uintptr \<Rightarrow> bool" where
  "mp_shared_heap_global_contains global ptr =
     (if global = None then False else mp_shared_heap_contains global ptr)"

end
