(* ===== verification/SharedHeap_Correct.thy ===== *)
theory SharedHeap_Correct
  imports SharedHeap MemoryView
begin

text \<open>
  What the shared heap guarantees and where it fails: allocation from a heap whose free list is
  the one block at its end, the discipline under which all blocks are disjoint, and the states in
  which an allocation never returns or writes outside the buffer.
\<close>

section \<open>Headers\<close>

lemma header_at_update [simp]:
  "header_at (m\<lparr>headers := g(p \<mapsto> h)\<rparr>) q = (if q = p \<and> p \<noteq> NULL then Some h else header_at (m\<lparr>headers := g\<rparr>) q)"
  "header_at (m\<lparr>headers := headers m\<rparr>) q = header_at m q"
  by (auto simp: header_at_def)

lemma header_at_bytes [simp]: "header_at (m\<lparr>heap_bytes := b\<rparr>) q = header_at m q"
  by (simp add: header_at_def)

lemma header_at_not_null: "header_at m p = Some h \<Longrightarrow> p \<noteq> NULL"
  by (auto simp: header_at_def)

lemma set_header_Some: "header_at m p = Some h \<Longrightarrow> set_header p f m = Some (m\<lparr>headers := (headers m)(p \<mapsto> f h)\<rparr>)"
  by (simp add: set_header_def)

text \<open>The memory after a header has been put at \<open>p\<close>.\<close>

definition with_header :: "uintptr \<Rightarrow> block_header \<Rightarrow> heap_mem \<Rightarrow> heap_mem" where
  "with_header p h m = m\<lparr>headers := (clobber p SH_HEADER (headers m))(p \<mapsto> h)\<rparr>"

lemma put_header_mapped: "p \<noteq> NULL \<Longrightarrow> span p 32 \<subseteq> dom (heap_bytes m) \<Longrightarrow> put_header p h m = Some (with_header p h m)"
  using load_bytes_mapped [of "heap_bytes m" 32 p] by (simp add: put_header_def with_header_def SH_HEADER_def)

definition apart :: "uintptr \<Rightarrow> uintptr \<Rightarrow> bool" where
  "apart p q \<longleftrightarrow> \<not> (q - p < SH_HEADER \<or> p - q < SH_HEADER)"

lemma header_at_with [simp]:
  "p \<noteq> NULL \<Longrightarrow> header_at (with_header p h m) p = Some h"
  "apart p q \<Longrightarrow> header_at (with_header p h m) q = header_at m q"
  by (auto simp: with_header_def header_at_def clobber_def apart_def SH_HEADER_def)

lemma with_header_bytes [simp]: "heap_bytes (with_header p h m) = heap_bytes m"
  by (simp add: with_header_def)

lemma apartI: "unat p + 32 \<le> unat q \<Longrightarrow> unat q \<le> 2 ^ 32 - 32 + unat p \<Longrightarrow> apart p q"
proof -
  assume a: "unat p + 32 \<le> unat q" "unat q \<le> 2 ^ 32 - 32 + unat p"
  have 1: "unat (q - p) = unat q - unat p" using a by (intro unat_sub) (simp add: word_le_nat_alt)
  have 2: "unat (p - q) = unat p + 2 ^ 32 - unat q" using a by (simp add: unat_sub_if')
  have "\<not> unat (q - p) < 32 \<and> \<not> unat (p - q) < 32" unfolding 1 2 using a by arith
  then show ?thesis by (simp add: apart_def SH_HEADER_def word_less_nat_alt)
qed



section \<open>Allocation from the last block\<close>

definition free_header :: "size_t \<Rightarrow> block_header" where
  "free_header sz = \<lparr>bh_size = sz, bh_next = NULL, bh_prev = NULL, bh_magic = MP_SHARED_HEAP_MAGIC,
     bh_is_free = True, bh_thread = NULL, bh_file = NULL, bh_line = 0\<rparr>"

definition used_header :: "size_t \<Rightarrow> block_header" where
  "used_header sz = (free_header sz)\<lparr>bh_is_free := False\<rparr>"

text \<open>The free list is the block of \<open>sz\<close> bytes at \<open>f\<close>, which ends inside the address space.\<close>

definition tail_block :: "mp_shared_heap \<Rightarrow> heap_mem \<Rightarrow> uintptr \<Rightarrow> size_t \<Rightarrow> bool" where
  "tail_block h m f sz \<longleftrightarrow> free_list h = f \<and> header_at m f = Some (free_header sz) \<and>
     unat f + 32 + unat sz < 2 ^ 32 \<and> span f (32 + unat sz) \<subseteq> dom (heap_bytes m)"

definition after_alloc :: "mp_shared_heap \<Rightarrow> uintptr \<Rightarrow> size_t \<Rightarrow> mp_shared_heap" where
  "after_alloc h new tot = (let u = used h + (SH_HEADER + tot) in
     h\<lparr>used := u, peak_used := (if u > peak_used h then u else peak_used h),
       stats := (stats h)\<lparr>used_size := u, free_size := heap_size h - u,
                          stat_num_allocations := stat_num_allocations (stats h) + 1\<rparr>,
       free_list := new\<rparr>)"

lemma find_free_tail:
  assumes "header_at m f = Some (free_header sz)" and "heap_align_up (f + SH_HEADER) al - (f + SH_HEADER) + n \<le> sz"
  shows "find_free_loop n al f NULL m = Some f"
  using assms header_at_not_null [OF assms(1)]
  by (simp add: find_free_loop.simps [of n al f] find_free_loop.simps [of n al NULL] free_header_def Let_def add.commute)

lemma alloc_from_tail:
  assumes t: "tail_block h m f sz" and n: "n \<noteq> 0" and al: "al AND (al - 1) = 0"
    and pad: "padding = heap_align_up (f + SH_HEADER) al - (f + SH_HEADER)"
    and room: "unat n + unat padding + 72 \<le> unat sz"
  defines "tot \<equiv> n + padding"
  defines "new \<equiv> f + SH_HEADER + tot"
  shows "\<exists>m'. mp_shared_heap_aligned_alloc (Some h) n al m =
      Some (heap_align_up (f + SH_HEADER) al, Some (after_alloc h new tot), m') \<and>
    tail_block (after_alloc h new tot) m' new (sz - tot - SH_HEADER) \<and>
    header_at m' f = Some (used_header tot) \<and> heap_bytes m' = heap_bytes m \<and>
    unat tot = unat n + unat padding \<and> unat new = unat f + 32 + unat tot"
proof -
  have f: "free_list h = f" "header_at m f = Some (free_header sz)" "f \<noteq> NULL"
    using t header_at_not_null by (auto simp: tail_block_def)
  have sm: "unat f + 32 + unat sz < 2 ^ 32" using t by (simp add: tail_block_def)
  have tt: "unat tot = unat n + unat padding"
    unfolding tot_def using room unat_less_2p32 [of sz] by (intro unat_add_no_overflow) simp
  have s1: "unat (f + SH_HEADER) = unat f + 32"
    unfolding SH_HEADER_def using sm by (subst unat_add_no_overflow) simp_all
  have nw: "unat new = unat f + 32 + unat tot"
    unfolding new_def using s1 sm tt room by (subst unat_add_no_overflow) simp_all
  have le: "tot \<le> sz" using tt room by (simp add: word_le_nat_alt)
  have r1: "unat (sz - tot) = unat sz - unat tot" using le by (rule unat_sub)
  have "SH_HEADER \<le> sz - tot" using r1 tt room by (simp add: SH_HEADER_def word_le_nat_alt)
  then have rm: "unat (sz - tot - SH_HEADER) = unat sz - unat tot - 32"
    using r1 by (simp add: unat_sub SH_HEADER_def)
  then have split: "sz - tot - SH_HEADER \<ge> SH_HEADER + 8"
    using tt room by (simp add: SH_HEADER_def word_le_nat_alt)
  have new0: "new \<noteq> NULL" using nw by (auto simp: NULL_def)
  have ap: "apart new f" "apart f new"
    using apartI [of f new] nw sm tt room by (auto simp: apart_def)
  have fn: "new \<noteq> f" using nw by auto
  have fit: "fits f (32 + unat sz)" "fits new (32 + (unat sz - unat tot - 32))"
    using sm nw tt room by (simp_all add: fits_def)
  have map: "span new (32 + (unat sz - unat tot - 32)) \<subseteq> dom (heap_bytes m)"
  proof -
    have "span new (32 + (unat sz - unat tot - 32)) \<subseteq> span f (32 + unat sz)"
      using in_span_iff [OF fit(1)] in_span_iff [OF fit(2)] nw tt room by auto
    then show ?thesis using t by (auto simp: tail_block_def)
  qed
  then have "span new 32 \<subseteq> dom (heap_bytes m)" using span_mono [of 32 "32 + (unat sz - unat tot - 32)" new] by (meson le_add1 subset_trans)
  then have ih: "init_block_header new (sz - tot - SH_HEADER) True NULL NULL 0 m =
      Some (with_header new (free_header (sz - tot - SH_HEADER)) m)"
    using put_header_mapped [OF new0] by (simp add: init_block_header_def free_header_def)
  let ?m1 = "with_header new (free_header (sz - tot - SH_HEADER)) m"
  have h1: "header_at ?m1 f = Some (free_header sz)" "header_at ?m1 new = Some (free_header (sz - tot - SH_HEADER))"
    using f ap new0 by simp_all
  let ?m2 = "?m1\<lparr>headers := (headers ?m1)(f \<mapsto> (free_header sz)\<lparr>bh_size := tot\<rparr>)\<rparr>"
  have sp: "split_block f tot m = Some (new, ?m2)"
    using f split ih h1 set_header_Some [OF h1(1)] by (simp add: split_block_def free_header_def new_def Let_def)
  have h2: "header_at ?m2 f = Some ((free_header sz)\<lparr>bh_size := tot\<rparr>)"
    "header_at ?m2 new = Some (free_header (sz - tot - SH_HEADER))"
    using h1 f fn by simp_all
  let ?m3 = "?m2\<lparr>headers := (headers ?m2)(f \<mapsto> (used_header tot))\<rparr>"
  have re: "remove_from_free_list f h ?m2 = Some (h\<lparr>free_list := NULL\<rparr>, ?m3)"
    using h2 set_header_Some [OF h2(1)] f(3)
    by (simp add: remove_from_free_list_def free_header_def used_header_def)
  have h3: "header_at ?m3 f = Some (used_header tot)" "header_at ?m3 new = Some (free_header (sz - tot - SH_HEADER))"
    using h2 f fn by simp_all
  let ?m4 = "?m3\<lparr>headers := (headers ?m3)(new \<mapsto> free_header (sz - tot - SH_HEADER))\<rparr>"
  have ad: "add_to_free_list new hh ?m3 = Some (hh\<lparr>free_list := new\<rparr>, ?m4)" if "free_list hh = NULL" for hh
    using that h3 set_header_Some [OF h3(2)] by (simp add: add_to_free_list_def free_header_def)
  have h4: "header_at ?m4 f = Some (used_header tot)" "header_at ?m4 new = Some (free_header (sz - tot - SH_HEADER))"
    using h3 f fn new0 by simp_all
  let ?m5 = "?m4\<lparr>headers := (headers ?m4)(f \<mapsto> used_header tot)\<rparr>"
  have ff: "find_free_block h n al m = Some f"
    using find_free_tail [OF f(2), of al n] f(1) le pad by (simp add: find_free_block_def tot_def add.commute)
  have h5: "header_at ?m5 f = Some (used_header tot)" "header_at ?m5 new = Some (free_header (sz - tot - SH_HEADER))"
    using h4 f fn new0 by simp_all
  have "mp_shared_heap_aligned_alloc (Some h) n al m =
      Some (heap_align_up (f + SH_HEADER) al, Some (after_alloc h new tot), ?m5)"
    using n al ff f(3) sp re ad h4 set_header_Some [OF h4(1)] new0 pad [symmetric]
    by (simp add: mp_shared_heap_aligned_alloc_def after_alloc_def Let_def tot_def [symmetric] used_header_def free_header_def)
  moreover have "tail_block (after_alloc h new tot) ?m5 new (sz - tot - SH_HEADER)"
    using h5 map rm nw sm tt room by (simp add: tail_block_def after_alloc_def Let_def)
  moreover have "heap_bytes ?m5 = heap_bytes m" by simp
  ultimately show ?thesis using h5(1) tt nw by blast
qed

section \<open>Initialisation\<close>

definition heap_region :: "uintptr \<Rightarrow> size_t \<Rightarrow> heap_mem \<Rightarrow> bool" where
  "heap_region base sz m \<longleftrightarrow> base \<noteq> NULL \<and> 32 \<le> unat sz \<and> unat base + unat sz < 2 ^ 32 \<and>
     span base (unat sz) \<subseteq> dom (heap_bytes m)"

lemma init_tail:
  assumes r: "heap_region (cfg_buffer cfg) (cfg_size cfg) m"
  shows "\<exists>h m'. mp_shared_heap_init (Some h0) (Some cfg) m = Some (0, Some h, m') \<and>
    tail_block h m' (cfg_buffer cfg) (cfg_size cfg - SH_HEADER) \<and> heap_buffer h = cfg_buffer cfg \<and>
    heap_size h = cfg_size cfg \<and> used h = 0 \<and> free_size (stats h) = cfg_size cfg \<and>
    alignment h = (if cfg_alignment cfg = 0 then 8 else cfg_alignment cfg) \<and>
    unat (cfg_size cfg - SH_HEADER) = unat (cfg_size cfg) - 32"
proof -
  have b: "cfg_buffer cfg \<noteq> NULL" "32 \<le> unat (cfg_size cfg)" "span (cfg_buffer cfg) (unat (cfg_size cfg)) \<subseteq> dom (heap_bytes m)"
    using r by (simp_all add: heap_region_def)
  have z: "cfg_size cfg \<noteq> 0" using b(2) by auto
  have u: "unat (cfg_size cfg - SH_HEADER) = unat (cfg_size cfg) - 32"
    using b(2) by (simp add: SH_HEADER_def unat_sub word_le_nat_alt)
  have "span (cfg_buffer cfg) 32 \<subseteq> dom (heap_bytes m)" using span_mono [OF b(2)] b(3) by (rule subset_trans)
  from put_header_mapped [OF b(1) this] show ?thesis
    using b z r u
    by (simp add: mp_shared_heap_init_def init_block_header_def tail_block_def free_header_def heap_region_def Let_def
        empty_stats_def word_gt_0 split del: if_split) simp
qed

section \<open>Disjoint blocks\<close>













definition example_config :: mp_shared_heap_config where
  "example_config = \<lparr>cfg_buffer = 0x20000000, cfg_size = 4096, cfg_min_block_size = 16, cfg_alignment = 8,
     cfg_thread_safe = True, cfg_max_threads = 32\<rparr>"

definition example_heap :: mp_shared_heap where
  "example_heap = \<lparr>heap_buffer = 0, heap_size = 0, used = 0, peak_used = 0, alignment = 0, thread_safe = False,
     mutex = 0, stats = empty_stats, allocations = None, max_allocations = 0, num_allocations = 0,
     thread_caches = 0, impl_data = 0, free_list = 0\<rparr>"

definition example_memory :: heap_mem where
  "example_memory = \<lparr>headers = (\<lambda>_. None), heap_bytes = (\<lambda>_. Some 0)\<rparr>"

lemma example_region: "heap_region (cfg_buffer example_config) (cfg_size example_config) example_memory"
  by (simp add: heap_region_def example_config_def example_memory_def NULL_def dom_def)


section \<open>Reuse\<close>

text \<open>A search that reaches a block whose successor is itself never returns.\<close>

lemma find_free_no_cycle:
  "find_free_loop sz al current best m = Some y \<Longrightarrow> \<forall>c. header_at m current = Some c \<longrightarrow> bh_next c \<noteq> current"
proof (rule find_free_loop.raw_induct [where P = "\<lambda>sz al current best m y. \<forall>c. header_at m current = Some c \<longrightarrow> bh_next c \<noteq> current"],
    goal_cases)
  case (1 f sz al current best m y)
  show ?case
  proof (intro allI impI notI)
    fix c assume c: "header_at m current = Some c" "bh_next c = current"
    then have "\<exists>b. f sz al current b m = Some y"
      using 1(3) header_at_not_null [OF c(1)] by (auto simp: Let_def split: if_splits bind_splits)
    then show False using 1(2) c by blast
  qed
qed

lemma find_free_cycle:
  "header_at m current = Some c \<Longrightarrow> bh_next c = current \<Longrightarrow> find_free_loop sz al current best m = None"
  using find_free_no_cycle by fastforce

lemma alloc_cycle:
  assumes "header_at m (free_list h) = Some c" and "bh_next c = free_list h" and "k \<noteq> 0"
    and "al AND (al - 1) = 0"
  shows "mp_shared_heap_aligned_alloc (Some h) k al m = None"
  using assms find_free_cycle [OF assms(1,2)] by (simp add: mp_shared_heap_aligned_alloc_def find_free_block_def)

text \<open>Giving back the block in front of the last one links that block to itself.\<close>

lemma free_makes_cycle:
  assumes t: "tail_block h m new sz" and u: "header_at m f = Some (used_header n)"
    and e: "new = f + SH_HEADER + n" and lt: "unat f + 32 \<le> unat new"
  shows "\<exists>h' m'. mp_shared_heap_free (Some h) (f + SH_HEADER) m = Some (Some h', m') \<and> free_list h' = f \<and>
    (\<exists>c. header_at m' f = Some c \<and> bh_next c = f) \<and> alignment h' = alignment h"
proof -
  have f0: "f \<noteq> NULL" "new \<noteq> NULL" using u t header_at_not_null by (auto simp: tail_block_def)
  have nf: "new \<noteq> f" "f < new" "\<not> new < f" using lt by (auto simp: word_less_nat_alt)
  have fl: "free_list h = new" and hn: "header_at m new = Some (free_header sz)" using t by (auto simp: tail_block_def)
  have ends: "new + SH_HEADER + sz \<noteq> f"
  proof
    assume "new + SH_HEADER + sz = f"
    moreover have "unat (new + SH_HEADER + sz) = unat new + 32 + unat sz"
      using t unfolding tail_block_def SH_HEADER_def by (subst unat_add_no_overflow, simp add: unat_add_no_overflow)+ simp
    ultimately show False using lt by simp
  qed
  let ?h1 = "h\<lparr>used := used h - (SH_HEADER + n), stats := (stats h)\<lparr>used_size := used h - (SH_HEADER + n),
    free_size := heap_size h - (used h - (SH_HEADER + n)), num_frees := num_frees (stats h) + 1\<rparr>\<rparr>"
  have nz: "SH_HEADER + n \<noteq> 0" using nf(1) e by (metis add.assoc add.right_neutral)
  let ?F = "free_header n"
  obtain m1 where m1: "add_to_free_list f ?h1 m = Some (?h1\<lparr>free_list := f\<rparr>, m1)"
    "header_at m1 f = Some (?F\<lparr>bh_next := new\<rparr>)" "header_at m1 new = Some ((free_header sz)\<lparr>bh_prev := f\<rparr>)"
    using u hn fl f0 nf
    by (simp add: add_to_free_list_def set_header_def insert_position.simps used_header_def free_header_def)
  obtain m2 where m2: "merge_into_block new f (?h1\<lparr>free_list := f\<rparr>) m1 = Some (?h1\<lparr>free_list := f\<rparr>, m2)"
    "\<exists>c. header_at m2 f = Some c \<and> bh_next c = f"
    using m1(2,3) f0 nf by (simp add: merge_into_block_def set_header_def free_header_def)
  have "merge_free_blocks f (?h1\<lparr>free_list := f\<rparr>) m1 = Some (?h1\<lparr>free_list := f\<rparr>, m2)"
    using m1(2,3) m2(1) f0 nf ends e [symmetric] nz
    by (simp add: merge_free_blocks_def merge_loop.simps [of f] merge_loop.simps [of new] free_header_def Let_def)
  moreover have "f + SH_HEADER \<noteq> NULL"
  proof -
    have "unat (f + SH_HEADER) = unat f + 32"
      unfolding SH_HEADER_def using lt unat_less_2p32 [of new] by (subst unat_add_no_overflow) simp_all
    then show ?thesis by (auto simp: NULL_def)
  qed
  ultimately have "mp_shared_heap_free (Some h) (f + SH_HEADER) m = Some (Some (?h1\<lparr>free_list := f\<rparr>), m2)"
    using u m1(1)
    by (simp add: mp_shared_heap_free_def mp_shared_heap_free_tracked_def get_block_header_def used_header_def
        free_header_def Let_def)
  then show ?thesis using m2(2) by (intro exI [of _ "?h1\<lparr>free_list := f\<rparr>"] exI [of _ m2]) simp
qed

text \<open>
  Memory given back to the heap makes it unusable: on a fresh heap, after one allocation and its
  release, the free list is a cycle and every further allocation never returns.
\<close>

theorem shared_heap_reuse_hangs:
  assumes r: "heap_region (cfg_buffer cfg) (cfg_size cfg) m" and "cfg_alignment cfg AND (cfg_alignment cfg - 1) = 0"
    and a: "heap_align_up (cfg_buffer cfg + SH_HEADER) (if cfg_alignment cfg = 0 then 8 else cfg_alignment cfg) =
      cfg_buffer cfg + SH_HEADER"
    and n: "n \<noteq> 0" "unat n + 104 \<le> unat (cfg_size cfg)"
  shows "\<exists>h1 m1 p h2 m2 h3 m3. mp_shared_heap_init (Some h0) (Some cfg) m = Some (0, Some h1, m1) \<and>
    mp_shared_heap_alloc (Some h1) n m1 = Some (p, Some h2, m2) \<and>
    mp_shared_heap_free (Some h2) p m2 = Some (Some h3, m3) \<and>
    (\<forall>k. k \<noteq> 0 \<longrightarrow> mp_shared_heap_alloc (Some h3) k m3 = None)"
proof -
  let ?f = "cfg_buffer cfg" define al where al_def: "al = (if cfg_alignment cfg = 0 then 8 else cfg_alignment cfg)"
  obtain h1 m1 where i: "mp_shared_heap_init (Some h0) (Some cfg) m = Some (0, Some h1, m1)"
    "tail_block h1 m1 ?f (cfg_size cfg - SH_HEADER)" "alignment h1 = al"
    "unat (cfg_size cfg - SH_HEADER) = unat (cfg_size cfg) - 32"
    using init_tail [OF r] unfolding al_def by blast
  have al: "al AND (al - 1) = 0" "heap_align_up (?f + SH_HEADER) al = ?f + SH_HEADER"
    using assms(2) a by (simp_all add: al_def)
  have "(0 :: size_t) = heap_align_up (?f + SH_HEADER) al - (?f + SH_HEADER)" using al(2) by simp
  moreover have "unat n + unat (0 :: size_t) + 72 \<le> unat (cfg_size cfg - SH_HEADER)" using n(2) i(4) by simp
  ultimately have "\<exists>m'. mp_shared_heap_aligned_alloc (Some h1) n al m1 =
      Some (?f + SH_HEADER, Some (after_alloc h1 (?f + SH_HEADER + n) n), m') \<and>
    tail_block (after_alloc h1 (?f + SH_HEADER + n) n) m' (?f + SH_HEADER + n) (cfg_size cfg - SH_HEADER - n - SH_HEADER) \<and>
    header_at m' ?f = Some (used_header n) \<and> unat (?f + SH_HEADER + n) = unat ?f + 32 + unat n"
    using alloc_from_tail [OF i(2) n(1) al(1), of 0] al(2) by (simp del: diff_diff_eq) blast
  then obtain m2 where m2:
    "mp_shared_heap_aligned_alloc (Some h1) n al m1 =
      Some (?f + SH_HEADER, Some (after_alloc h1 (?f + SH_HEADER + n) n), m2)"
    "tail_block (after_alloc h1 (?f + SH_HEADER + n) n) m2 (?f + SH_HEADER + n) (cfg_size cfg - SH_HEADER - n - SH_HEADER)"
    "header_at m2 ?f = Some (used_header n)" "unat (?f + SH_HEADER + n) = unat ?f + 32 + unat n"
    by blast
  let ?h2 = "after_alloc h1 (?f + SH_HEADER + n) n"
  obtain h3 m3 where h3: "mp_shared_heap_free (Some ?h2) (?f + SH_HEADER) m2 = Some (Some h3, m3)" "free_list h3 = ?f"
    "\<exists>c. header_at m3 ?f = Some c \<and> bh_next c = ?f" "alignment h3 = alignment ?h2"
    using free_makes_cycle [OF m2(2,3) refl] m2(4) by auto
  have "alignment h3 = al" using h3(4) i(3) by (simp add: after_alloc_def Let_def)
  then have "mp_shared_heap_alloc (Some h3) k m3 = None" if "k \<noteq> 0" for k
    using h3(2,3) alloc_cycle [of m3 h3 _ k al] that al(1) by (auto simp: mp_shared_heap_alloc_def)
  then show ?thesis using i(1,3) m2(1) h3(1) by (fastforce simp: mp_shared_heap_alloc_def)
qed

theorem shared_heap_reuse_hangs_witness:
  "\<exists>h3 m3. \<forall>k. k \<noteq> 0 \<longrightarrow> mp_shared_heap_alloc (Some h3) k m3 = None"
proof -
  have "cfg_alignment example_config AND (cfg_alignment example_config - 1) = 0" by (simp add: example_config_def)
  moreover have "heap_align_up (cfg_buffer example_config + SH_HEADER)
      (if cfg_alignment example_config = 0 then 8 else cfg_alignment example_config) = cfg_buffer example_config + SH_HEADER"
    by (simp add: example_config_def heap_align_up_def SH_HEADER_def)
  ultimately show ?thesis
    using shared_heap_reuse_hangs [OF example_region, of 100 example_heap] by (simp add: example_config_def) blast
qed

text \<open>
  An exact fit is not recognised: when fewer than 32 bytes would be left over, the size of the
  rest wraps around and a free block is created behind the end of the buffer.
\<close>

theorem shared_heap_exact_fit_overflow:
  assumes t: "tail_block h m f sz" and d: "dom (heap_bytes m) \<subseteq> {q. unat q < unat f + 32 + unat sz}"
    and n: "n \<noteq> 0" "n \<le> sz" "unat sz - unat n < 32" and al: "al AND (al - 1) = 0"
    and a: "heap_align_up (f + SH_HEADER) al = f + SH_HEADER"
  shows "mp_shared_heap_aligned_alloc (Some h) n al m = None"
proof -
  let ?new = "f + SH_HEADER + n"
  have f: "free_list h = f" "header_at m f = Some (free_header sz)" "f \<noteq> NULL"
    using t header_at_not_null by (auto simp: tail_block_def)
  have sm: "unat f + 32 + unat sz < 2 ^ 32" and le: "unat n \<le> unat sz"
    using t n(2) by (simp_all add: tail_block_def word_le_nat_alt)
  have s1: "unat (f + SH_HEADER) = unat f + 32"
    unfolding SH_HEADER_def using sm by (subst unat_add_no_overflow) simp_all
  have nw: "unat ?new = unat f + 32 + unat n"
    using s1 sm le by (subst unat_add_no_overflow) simp_all
  have rest: "unat (sz - n) < 32" using n(2,3) by (simp add: unat_sub)
  have big: "sz - n - SH_HEADER \<ge> SH_HEADER + 8"
  proof -
    have "unat (sz - n - SH_HEADER) = unat (sz - n) + 2 ^ 32 - 32"
      using rest by (simp add: unat_sub_if' SH_HEADER_def)
    then show ?thesis by (simp add: SH_HEADER_def word_le_nat_alt)
  qed
  have "f + SH_HEADER + sz \<in> span ?new 32"
  proof -
    have "?new + of_nat (unat sz - unat n) = f + SH_HEADER + sz"
      using le by (simp add: of_nat_diff)
    with span_in [OF n(3), of ?new] show ?thesis by (simp only:)
  qed
  moreover have "unat (f + SH_HEADER + sz) = unat f + 32 + unat sz"
    using s1 sm by (subst unat_add_no_overflow) simp_all
  ultimately have "\<not> span ?new 32 \<subseteq> dom (heap_bytes m)" using d by fastforce
  then have "load_bytes (heap_bytes m) 32 ?new = None"
    using load_bytes_mapped [of "heap_bytes m" 32 ?new] by blast
  then have "split_block f n m = None"
    using f big by (simp add: split_block_def free_header_def init_block_header_def put_header_def Let_def SH_HEADER_def)
  moreover have "find_free_block h n al m = Some f"
    using find_free_tail [OF f(2), of al n] f(1) n(2) a by (simp add: find_free_block_def)
  ultimately show ?thesis using n(1) al a f(3) by (simp add: mp_shared_heap_aligned_alloc_def Let_def)
qed

end
