(* ===== verification/Gc.thy ===== *)
theory Gc
  imports Prelude
begin

text \<open>
  The garbage collector of \<open>src/mm/gc.c\<close> and \<open>include/microposix/mm/gc.h\<close>: objects with reference counts on doubly
  linked generation lists, roots, mark and sweep.

  An object is known by the address of its header; the data pointer that the client holds is a constant away from it and
  stands for it here.  The objects that are allocated are in the map \<open>gc_objs\<close>: reading or writing any other, a freed
  one included, is undefined.  Finalizers are client code that does not call the collector; the calls are recorded in
  order.  \<open>malloc\<close> is a parameter that maps the allocated objects and a size to an address.
\<close>

section \<open>Objects and the collector\<close>

definition MP_GC_FLAG_MARKED :: u32 where "MP_GC_FLAG_MARKED = 1"
definition MP_GC_FLAG_ROOT :: u32 where "MP_GC_FLAG_ROOT = 2"
definition MP_GC_FLAG_YOUNG :: u32 where "MP_GC_FLAG_YOUNG = 4"
definition MP_GC_FLAG_OLD :: u32 where "MP_GC_FLAG_OLD = 8"
definition MP_GC_FLAG_PINNED :: u32 where "MP_GC_FLAG_PINNED = 32"

lemmas gc_flag_defs = MP_GC_FLAG_MARKED_def MP_GC_FLAG_ROOT_def MP_GC_FLAG_YOUNG_def MP_GC_FLAG_OLD_def
  MP_GC_FLAG_PINNED_def

record gc_object =
  o_next :: "nat option"
  o_prev :: "nat option"
  o_gc :: nat
  o_ref_count :: u32
  o_flags :: u32
  o_size :: size_t
  o_generation :: u32
  o_timestamp :: u32
  o_finalizer :: "nat option"
  o_finalizer_data :: "nat option"

record gc_config =
  cfg_heap :: "nat option"
  cfg_initial_size :: size_t
  cfg_max_objects :: size_t
  cfg_use_ref_counting :: bool
  cfg_use_mark_sweep :: bool
  cfg_use_generational :: bool
  cfg_young_gen_size :: size_t
  cfg_threshold :: size_t
  cfg_gc_interval :: u32

record gc_stats =
  st_total_objects :: size_t
  st_live_objects :: size_t
  st_dead_objects :: size_t
  st_bytes_allocated :: size_t
  st_bytes_freed :: size_t
  st_gc_runs :: size_t
  st_gc_time :: size_t
  st_max_pause_time :: size_t
  st_last_gc_time :: size_t
  st_objects_collected :: size_t
  st_bytes_collected :: size_t

definition zero_stats :: gc_stats where
  "zero_stats = \<lparr>st_total_objects = 0, st_live_objects = 0, st_dead_objects = 0, st_bytes_allocated = 0,
     st_bytes_freed = 0, st_gc_runs = 0, st_gc_time = 0, st_max_pause_time = 0, st_last_gc_time = 0,
     st_objects_collected = 0, st_bytes_collected = 0\<rparr>"

text \<open>\<open>gc_self\<close> is the address of the struct, which the objects point back to; \<open>gc_finalized\<close> the calls of finalizers
  with the data pointer they got.  An array is the list of its entries, \<^term>\<open>None\<close> for \<open>NULL\<close>.\<close>

record mp_gc =
  gc_self :: nat
  gc_heap :: "nat option"
  gc_cfg :: gc_config
  gc_stat :: gc_stats
  gc_objects :: "nat option list option"
  num_objects :: size_t
  max_objects :: size_t
  root_list :: "nat option"
  young_list :: "nat option"
  old_list :: "nat option"
  object_map :: "nat option"
  object_map_size :: size_t
  generation_counter :: u32
  last_gc_time :: u32
  gc_running :: bool
  gc_enabled :: bool
  mark_stack :: "nat option list option"
  mark_stack_size :: size_t
  mark_stack_pos :: size_t
  ref_count_mutex :: "nat option"
  gc_objs :: "nat \<Rightarrow> gc_object option"
  gc_finalized :: "(nat \<times> nat) list"

type_synonym gc_malloc = "(nat \<Rightarrow> gc_object option) \<Rightarrow> size_t \<Rightarrow> nat option"

definition sizeof_gc_object :: size_t where "sizeof_gc_object = 40"

definition get_gc_total_size :: "gc_object \<Rightarrow> size_t" where
  "get_gc_total_size ob = o_size ob + sizeof_gc_object"

definition upd_obj :: "nat \<Rightarrow> (gc_object \<Rightarrow> gc_object) \<Rightarrow> mp_gc \<Rightarrow> mp_gc option" where
  "upd_obj a f g = do { ob \<leftarrow> gc_objs g a; Some (g\<lparr>gc_objs := (gc_objs g)(a \<mapsto> f ob)\<rparr>) }"

definition upd_stat :: "(gc_stats \<Rightarrow> gc_stats) \<Rightarrow> mp_gc \<Rightarrow> mp_gc" where
  "upd_stat f g = g\<lparr>gc_stat := f (gc_stat g)\<rparr>"

definition set_flag :: "u32 \<Rightarrow> gc_object \<Rightarrow> gc_object" where
  "set_flag b ob = ob\<lparr>o_flags := o_flags ob OR b\<rparr>"

definition clear_flag :: "u32 \<Rightarrow> gc_object \<Rightarrow> gc_object" where
  "clear_flag b ob = ob\<lparr>o_flags := o_flags ob AND NOT b\<rparr>"

definition has_flag :: "u32 \<Rightarrow> gc_object \<Rightarrow> bool" where
  "has_flag b ob \<longleftrightarrow> o_flags ob AND b \<noteq> 0"

definition finalize :: "nat \<Rightarrow> gc_object \<Rightarrow> mp_gc \<Rightarrow> mp_gc" where
  "finalize a ob g =
     (case o_finalizer ob of None \<Rightarrow> g | Some f \<Rightarrow> g\<lparr>gc_finalized := gc_finalized g @ [(f, a)]\<rparr>)"

definition free_obj :: "nat \<Rightarrow> mp_gc \<Rightarrow> mp_gc" where
  "free_obj a g = g\<lparr>gc_objs := (gc_objs g)(a := None)\<rparr>"

text \<open>The list of a generation.\<close>

datatype generation = Young | Old

definition gen_list :: "generation \<Rightarrow> mp_gc \<Rightarrow> nat option" where
  "gen_list n g = (case n of Young \<Rightarrow> young_list g | Old \<Rightarrow> old_list g)"

definition set_gen_list :: "generation \<Rightarrow> nat option \<Rightarrow> mp_gc \<Rightarrow> mp_gc" where
  "set_gen_list n p g = (case n of Young \<Rightarrow> g\<lparr>young_list := p\<rparr> | Old \<Rightarrow> g\<lparr>old_list := p\<rparr>)"

section \<open>Mark and sweep\<close>

text \<open>The mark stack is an array; writing or reading outside it is undefined.\<close>

definition push_mark :: "nat \<Rightarrow> mp_gc \<Rightarrow> mp_gc option" where
  "push_mark a g =
     (if mark_stack_pos g < mark_stack_size g
      then (case mark_stack g of None \<Rightarrow> None
            | Some st \<Rightarrow>
                if unat (mark_stack_pos g) < length st
                then Some (g\<lparr>mark_stack := Some (st[unat (mark_stack_pos g) := Some a]),
                             mark_stack_pos := mark_stack_pos g + 1\<rparr>)
                else None)
      else Some g)"

definition mark_object :: "nat option \<Rightarrow> mp_gc \<Rightarrow> mp_gc option" where
  "mark_object p g =
     (case p of None \<Rightarrow> Some g
      | Some a \<Rightarrow> do {
          ob \<leftarrow> gc_objs g a;
          if has_flag MP_GC_FLAG_MARKED ob then Some g
          else do {
            g1 \<leftarrow> upd_obj a (set_flag MP_GC_FLAG_MARKED) g;
            push_mark a (upd_stat (\<lambda>s. s\<lparr>st_objects_collected := st_objects_collected s - 1\<rparr>) g1) } })"

text \<open>The objects popped from the mark stack are not traced.\<close>

partial_function (option) process_mark_stack :: "mp_gc \<Rightarrow> mp_gc option" where
  "process_mark_stack g =
     (if mark_stack_pos g > 0
      then (case mark_stack g of None \<Rightarrow> None
            | Some st \<Rightarrow>
                let pos = mark_stack_pos g - 1
                in if unat pos < length st then process_mark_stack (g\<lparr>mark_stack_pos := pos\<rparr>) else None)
      else Some g)"

partial_function (option) mark_roots :: "nat option \<Rightarrow> mp_gc \<Rightarrow> mp_gc option" where
  "mark_roots root g =
     (case root of None \<Rightarrow> Some g
      | Some a \<Rightarrow> do {
          g1 \<leftarrow> mark_object root g;
          ob \<leftarrow> gc_objs g1 a;
          mark_roots (o_next ob) g1 })"

definition mark_phase :: "mp_gc \<Rightarrow> mp_gc option" where
  "mark_phase g = do { g1 \<leftarrow> mark_roots (root_list g) g; process_mark_stack g1 }"

text \<open>
  The loop over the list of a generation, with the previous object kept, the objects and the bytes collected.  The size
  of an object is read after the object has been freed.
\<close>

partial_function (option) sweep_loop ::
  "generation \<Rightarrow> nat option \<Rightarrow> nat option \<Rightarrow> size_t \<Rightarrow> size_t \<Rightarrow> mp_gc \<Rightarrow> (size_t \<times> size_t \<times> mp_gc) option" where
  "sweep_loop n p prev collected bytes g =
     (case p of None \<Rightarrow> Some (collected, bytes, g)
      | Some a \<Rightarrow> do {
          ob \<leftarrow> gc_objs g a;
          if \<not> has_flag MP_GC_FLAG_MARKED ob
          then do {
            let g1 = finalize a ob g;
            g2 \<leftarrow> (case prev of Some q \<Rightarrow> upd_obj q (\<lambda>x. x\<lparr>o_next := o_next ob\<rparr>) g1
                   | None \<Rightarrow> Some (set_gen_list n (o_next ob) g1));
            let g3 = free_obj a g2;
            ob' \<leftarrow> gc_objs g3 a;
            sweep_loop n (o_next ob) prev (collected + 1) (bytes + get_gc_total_size ob')
              (g3\<lparr>num_objects := num_objects g3 - 1\<rparr>) }
          else do {
            g1 \<leftarrow> upd_obj a (clear_flag MP_GC_FLAG_MARKED) g;
            sweep_loop n (o_next ob) (Some a) collected bytes g1 } })"

definition sweep_phase :: "mp_gc \<Rightarrow> (size_t \<times> mp_gc) option" where
  "sweep_phase g =
     do { (c1, b1, g1) \<leftarrow> sweep_loop Young (young_list g) None 0 0 g;
          (c2, b2, g2) \<leftarrow> sweep_loop Old (old_list g1) None c1 b1 g1;
          Some (c2, upd_stat (\<lambda>s. s\<lparr>st_objects_collected := c2, st_bytes_collected := b2,
                                    st_bytes_freed := st_bytes_freed s + b2\<rparr>) g2) }"

text \<open>The variable \<open>prev\<close> of \<open>promote_young\<close> is never assigned, so the head of the young list moves on.\<close>

partial_function (option) promote_loop :: "nat option \<Rightarrow> mp_gc \<Rightarrow> mp_gc option" where
  "promote_loop p g =
     (case p of None \<Rightarrow> Some g
      | Some a \<Rightarrow> do {
          ob \<leftarrow> gc_objs g a;
          g1 \<leftarrow> upd_obj a (\<lambda>x. (set_flag MP_GC_FLAG_OLD (clear_flag MP_GC_FLAG_YOUNG x))\<lparr>o_generation := generation_counter g\<rparr>) g;
          let g2 = g1\<lparr>young_list := o_next ob\<rparr>;
          g3 \<leftarrow> upd_obj a (\<lambda>x. x\<lparr>o_next := old_list g2\<rparr>) g2;
          g4 \<leftarrow> (case old_list g3 of None \<Rightarrow> Some g3 | Some q \<Rightarrow> upd_obj q (\<lambda>x. x\<lparr>o_prev := Some a\<rparr>) g3);
          g5 \<leftarrow> upd_obj a (\<lambda>x. x\<lparr>o_prev := None\<rparr>) (g4\<lparr>old_list := Some a\<rparr>);
          promote_loop (o_next ob) g5 })"

definition promote_young :: "mp_gc \<Rightarrow> mp_gc option" where
  "promote_young g = promote_loop (young_list g) g"

section \<open>Set-up\<close>

text \<open>The arrays are \<open>calloc\<close>ed through \<open>malloc\<close>, whose success is the argument \<open>array_ok\<close>, for the first and second
  array.  The collector is \<^term>\<open>None\<close> for a \<open>NULL\<close> pointer.\<close>

definition mp_gc_init ::
  "(nat \<Rightarrow> size_t \<Rightarrow> bool) \<Rightarrow> mp_gc option \<Rightarrow> gc_config option \<Rightarrow> int \<times> mp_gc option" where
  "mp_gc_init array_ok gc config =
     (case (gc, config) of
        (Some g0, Some cfg) \<Rightarrow>
          let g = g0\<lparr>gc_heap := cfg_heap cfg, gc_cfg := cfg, gc_stat := zero_stats, gc_objects := None,
                     num_objects := 0, max_objects := cfg_max_objects cfg, root_list := None, young_list := None,
                     old_list := None, object_map := None, object_map_size := 0, generation_counter := 0,
                     last_gc_time := 0, gc_running := False, gc_enabled := True, mark_stack := None,
                     mark_stack_size := 0, mark_stack_pos := 0, ref_count_mutex := None\<rparr>
          in if cfg_max_objects cfg > 0 \<and> \<not> array_ok 0 (cfg_max_objects cfg * 4) then (-1, Some g)
             else
               let g1 = (if cfg_max_objects cfg > 0
                         then g\<lparr>gc_objects := Some (replicate (unat (cfg_max_objects cfg * 4) div 4) None)\<rparr> else g);
                   sz = (if cfg_max_objects cfg > 100 then cfg_max_objects cfg div 10 else 100);
                   g2 = g1\<lparr>mark_stack_size := sz\<rparr>
               in if \<not> array_ok 1 (sz * 4) then (-1, Some (g2\<lparr>gc_objects := None\<rparr>))
                  else (0, Some (g2\<lparr>mark_stack := Some (replicate (unat (sz * 4) div 4) None)\<rparr>))
      | _ \<Rightarrow> (-1, gc))"

section \<open>Collections\<close>

definition collect_full :: "mp_gc \<Rightarrow> (size_t \<times> mp_gc) option" where
  "collect_full g =
     (if \<not> gc_enabled g \<or> gc_running g then Some (0, g)
      else do {
        g1 \<leftarrow> mark_phase (upd_stat (\<lambda>s. s\<lparr>st_gc_runs := st_gc_runs s + 1\<rparr>) (g\<lparr>gc_running := True\<rparr>));
        (collected, g2) \<leftarrow> sweep_phase g1;
        let g3 = g2\<lparr>generation_counter := generation_counter g2 + 1, gc_running := False\<rparr>;
        Some (collected, upd_stat (\<lambda>s. s\<lparr>st_live_objects := num_objects g3\<rparr>) g3) })"

text \<open>The roots of the young generation.\<close>

partial_function (option) mark_young_roots :: "nat option \<Rightarrow> mp_gc \<Rightarrow> mp_gc option" where
  "mark_young_roots root g =
     (case root of None \<Rightarrow> Some g
      | Some a \<Rightarrow> do {
          ob \<leftarrow> gc_objs g a;
          g1 \<leftarrow> (if has_flag MP_GC_FLAG_YOUNG ob then mark_object root g else Some g);
          ob1 \<leftarrow> gc_objs g1 a;
          mark_young_roots (o_next ob1) g1 })"

definition collect_young :: "mp_gc \<Rightarrow> (size_t \<times> mp_gc) option" where
  "collect_young g =
     (if \<not> gc_enabled g \<or> gc_running g then Some (0, g)
      else do {
        g1 \<leftarrow> mark_young_roots (root_list g) (upd_stat (\<lambda>s. s\<lparr>st_gc_runs := st_gc_runs s + 1\<rparr>) (g\<lparr>gc_running := True\<rparr>));
        g2 \<leftarrow> process_mark_stack g1;
        (collected, bytes, g3) \<leftarrow> sweep_loop Young (young_list g2) None 0 0 g2;
        g4 \<leftarrow> promote_young g3;
        Some (collected, (upd_stat (\<lambda>s. s\<lparr>st_objects_collected := collected, st_bytes_collected := bytes,
                            st_bytes_freed := st_bytes_freed s + bytes, st_live_objects := num_objects g4\<rparr>) g4)
                         \<lparr>gc_running := False\<rparr>) })"

text \<open>\<open>gc_running\<close> is set before the collection proper is called.\<close>

definition collect :: "mp_gc \<Rightarrow> (size_t \<times> mp_gc) option" where
  "collect g =
     (if \<not> gc_enabled g \<or> gc_running g then Some (0, g)
      else do {
        let g1 = g\<lparr>gc_running := True\<rparr>;
        (collected, g2) \<leftarrow> (if cfg_use_generational (gc_cfg g1) then collect_young g1 else collect_full g1);
        Some (collected, g2\<lparr>gc_running := False\<rparr>) })"

text \<open>A function of a collector that returns a default for a \<open>NULL\<close> collector.\<close>

definition on_gc :: "'r \<Rightarrow> (mp_gc \<Rightarrow> ('r \<times> mp_gc) option) \<Rightarrow> mp_gc option \<Rightarrow> ('r \<times> mp_gc option) option" where
  "on_gc d f gc =
     (case gc of None \<Rightarrow> Some (d, None)
      | Some g \<Rightarrow> map_option (\<lambda>(r, g'). (r, Some g')) (f g))"

definition mp_gc_collect :: "mp_gc option \<Rightarrow> (size_t \<times> mp_gc option) option" where
  "mp_gc_collect = on_gc 0 collect"

definition mp_gc_collect_full :: "mp_gc option \<Rightarrow> (size_t \<times> mp_gc option) option" where
  "mp_gc_collect_full = on_gc 0 collect_full"

definition mp_gc_collect_young :: "mp_gc option \<Rightarrow> (size_t \<times> mp_gc option) option" where
  "mp_gc_collect_young = on_gc 0 collect_young"

definition mp_gc_destroy :: "mp_gc option \<Rightarrow> mp_gc option option" where
  "mp_gc_destroy gc =
     (case gc of None \<Rightarrow> Some None
      | Some g \<Rightarrow> do {
          (n, g1) \<leftarrow> collect_full g;
          Some (Some (g1\<lparr>gc_objects := None, mark_stack := None, object_map := None, ref_count_mutex := None,
                         num_objects := 0, max_objects := 0\<rparr>)) })"

section \<open>Allocation and reference counts\<close>

definition store_tracked :: "nat \<Rightarrow> mp_gc \<Rightarrow> mp_gc option" where
  "store_tracked a g =
     (case gc_objects g of None \<Rightarrow> Some g
      | Some arr \<Rightarrow>
          if num_objects g \<le> max_objects g
          then (if unat (num_objects g - 1) < length arr
                then Some (g\<lparr>gc_objects := Some (arr[unat (num_objects g - 1) := Some a])\<rparr>) else None)
          else Some g)"

definition gc_new_object ::
  "nat \<Rightarrow> size_t \<Rightarrow> nat option \<Rightarrow> nat option \<Rightarrow> mp_gc \<Rightarrow> mp_gc option" where
  "gc_new_object a sz fin data g =
     do { let g1 = g\<lparr>gc_objs := (gc_objs g)(a \<mapsto>
                       \<lparr>o_next = young_list g, o_prev = None, o_gc = gc_self g, o_ref_count = 1,
                        o_flags = MP_GC_FLAG_YOUNG, o_size = sz, o_generation = generation_counter g, o_timestamp = 0,
                        o_finalizer = fin, o_finalizer_data = data\<rparr>)\<rparr>;
          g2 \<leftarrow> (case young_list g1 of None \<Rightarrow> Some g1 | Some q \<Rightarrow> upd_obj q (\<lambda>x. x\<lparr>o_prev := Some a\<rparr>) g1);
          let g3 = g2\<lparr>young_list := Some a, num_objects := num_objects g2 + 1\<rparr>;
          store_tracked a (upd_stat (\<lambda>s. s\<lparr>st_total_objects := st_total_objects s + 1,
                                           st_live_objects := st_live_objects s + 1,
                                           st_bytes_allocated := st_bytes_allocated s + (sizeof_gc_object + sz)\<rparr>) g3) }"

definition alloc_with_finalizer ::
  "gc_malloc \<Rightarrow> size_t \<Rightarrow> nat option \<Rightarrow> nat option \<Rightarrow> mp_gc \<Rightarrow> (nat option \<times> mp_gc) option" where
  "alloc_with_finalizer malloc sz fin data g0 =
     (if sz = 0 then Some (None, g0)
      else do {
        g \<leftarrow> (if gc_enabled g0 \<and> num_objects g0 \<ge> max_objects g0 then map_option snd (collect g0) else Some g0);
        case malloc (gc_objs g) (sizeof_gc_object + sz) of
          Some a \<Rightarrow> map_option (\<lambda>g'. (Some a, g')) (gc_new_object a sz fin data g)
        | None \<Rightarrow>
            if gc_enabled g
            then do { (n, g1) \<leftarrow> collect_full g;
                      case malloc (gc_objs g1) (sizeof_gc_object + sz) of
                        Some a \<Rightarrow> map_option (\<lambda>g'. (Some a, g')) (gc_new_object a sz fin data g1)
                      | None \<Rightarrow> Some (None, g1) }
            else Some (None, g) })"

definition mp_gc_alloc_with_finalizer ::
  "gc_malloc \<Rightarrow> mp_gc option \<Rightarrow> size_t \<Rightarrow> nat option \<Rightarrow> nat option \<Rightarrow> (nat option \<times> mp_gc option) option" where
  "mp_gc_alloc_with_finalizer malloc gc sz fin data = on_gc None (alloc_with_finalizer malloc sz fin data) gc"

definition mp_gc_alloc :: "gc_malloc \<Rightarrow> mp_gc option \<Rightarrow> size_t \<Rightarrow> (nat option \<times> mp_gc option) option" where
  "mp_gc_alloc malloc gc sz = mp_gc_alloc_with_finalizer malloc gc sz None None"

text \<open>What every function of an object begins with: \<open>NULL\<close> tests, and whether the object belongs to the collector.\<close>

definition on_object ::
  "'r \<Rightarrow> (nat \<Rightarrow> gc_object \<Rightarrow> mp_gc \<Rightarrow> ('r \<times> mp_gc) option) \<Rightarrow> mp_gc option \<Rightarrow> nat option \<Rightarrow> ('r \<times> mp_gc option) option" where
  "on_object d f gc ptr =
     (case (gc, ptr) of
        (Some g, Some a) \<Rightarrow> do {
          ob \<leftarrow> gc_objs g a;
          if o_gc ob \<noteq> gc_self g then Some (d, gc)
          else map_option (\<lambda>(r, g'). (r, Some g')) (f a ob g) }
      | _ \<Rightarrow> Some (d, gc))"

text \<open>Taking an object out of a doubly linked list with the given head; \<open>obj->prev\<close> and \<open>obj->next\<close> are read again.\<close>

definition unlink_object :: "(nat option \<Rightarrow> mp_gc \<Rightarrow> mp_gc) \<Rightarrow> nat \<Rightarrow> mp_gc \<Rightarrow> mp_gc option" where
  "unlink_object set_head a g =
     do { ob \<leftarrow> gc_objs g a;
          g1 \<leftarrow> (case o_prev ob of Some q \<Rightarrow> upd_obj q (\<lambda>x. x\<lparr>o_next := o_next ob\<rparr>) g
                 | None \<Rightarrow> Some (set_head (o_next ob) g));
          ob1 \<leftarrow> gc_objs g1 a;
          case o_next ob1 of Some q \<Rightarrow> upd_obj q (\<lambda>x. x\<lparr>o_prev := o_prev ob1\<rparr>) g1 | None \<Rightarrow> Some g1 }"

definition release_object :: "nat \<Rightarrow> gc_object \<Rightarrow> mp_gc \<Rightarrow> mp_gc option" where
  "release_object a ob g =
     do { g1 \<leftarrow> unlink_object (set_gen_list (if has_flag MP_GC_FLAG_YOUNG ob then Young else Old)) a (finalize a ob g);
          ob1 \<leftarrow> gc_objs g1 a;
          Some (free_obj a (upd_stat (\<lambda>s. s\<lparr>st_live_objects := st_live_objects s - 1,
                                           st_bytes_freed := st_bytes_freed s + get_gc_total_size ob1\<rparr>)
                             (g1\<lparr>num_objects := num_objects g1 - 1\<rparr>))) }"

definition mp_gc_free :: "mp_gc option \<Rightarrow> nat option \<Rightarrow> (unit \<times> mp_gc option) option" where
  "mp_gc_free = on_object () (\<lambda>a ob g. map_option (Pair ()) (release_object a ob g))"

definition mp_gc_incref :: "mp_gc option \<Rightarrow> nat option \<Rightarrow> (unit \<times> mp_gc option) option" where
  "mp_gc_incref = on_object () (\<lambda>a ob g. map_option (Pair ()) (upd_obj a (\<lambda>x. x\<lparr>o_ref_count := o_ref_count x + 1\<rparr>) g))"

definition mp_gc_decref :: "mp_gc option \<Rightarrow> nat option \<Rightarrow> (unit \<times> mp_gc option) option" where
  "mp_gc_decref = on_object () (\<lambda>a ob g.
     if o_ref_count ob > 0
     then do { g1 \<leftarrow> upd_obj a (\<lambda>x. x\<lparr>o_ref_count := o_ref_count x - 1\<rparr>) g;
               ob1 \<leftarrow> gc_objs g1 a;
               if o_ref_count ob1 = 0 then map_option (Pair ()) (release_object a ob1 g1) else Some ((), g1) }
     else Some ((), g))"

text \<open>The functions that only read the object.\<close>

definition read_object :: "'r \<Rightarrow> (gc_object \<Rightarrow> 'r) \<Rightarrow> mp_gc option \<Rightarrow> nat option \<Rightarrow> 'r option" where
  "read_object d f gc ptr = map_option fst (on_object d (\<lambda>a ob g. Some (f ob, g)) gc ptr)"

definition mp_gc_get_refcount :: "mp_gc option \<Rightarrow> nat option \<Rightarrow> u32 option" where
  "mp_gc_get_refcount = read_object 0 o_ref_count"

definition mp_gc_is_gc_object :: "mp_gc option \<Rightarrow> nat option \<Rightarrow> bool option" where
  "mp_gc_is_gc_object = read_object False (\<lambda>ob. True)"

definition mp_gc_get_size :: "mp_gc option \<Rightarrow> nat option \<Rightarrow> size_t option" where
  "mp_gc_get_size = read_object 0 o_size"

definition mp_gc_is_pinned :: "mp_gc option \<Rightarrow> nat option \<Rightarrow> bool option" where
  "mp_gc_is_pinned = read_object False (has_flag MP_GC_FLAG_PINNED)"

definition mp_gc_pin :: "mp_gc option \<Rightarrow> nat option \<Rightarrow> (unit \<times> mp_gc option) option" where
  "mp_gc_pin = on_object () (\<lambda>a ob g. map_option (Pair ()) (upd_obj a (set_flag MP_GC_FLAG_PINNED) g))"

definition mp_gc_unpin :: "mp_gc option \<Rightarrow> nat option \<Rightarrow> (unit \<times> mp_gc option) option" where
  "mp_gc_unpin = on_object () (\<lambda>a ob g. map_option (Pair ()) (upd_obj a (clear_flag MP_GC_FLAG_PINNED) g))"

section \<open>Roots\<close>

text \<open>The root list is threaded through the same \<open>next\<close> and \<open>prev\<close> as the lists of the generations.\<close>

definition add_root :: "nat \<Rightarrow> mp_gc \<Rightarrow> mp_gc option" where
  "add_root a g =
     do { g1 \<leftarrow> upd_obj a (set_flag MP_GC_FLAG_ROOT) g;
          g2 \<leftarrow> upd_obj a (\<lambda>x. x\<lparr>o_next := root_list g1\<rparr>) g1;
          g3 \<leftarrow> (case root_list g2 of None \<Rightarrow> Some g2 | Some q \<Rightarrow> upd_obj q (\<lambda>x. x\<lparr>o_prev := Some a\<rparr>) g2);
          upd_obj a (\<lambda>x. x\<lparr>o_prev := None\<rparr>) (g3\<lparr>root_list := Some a\<rparr>) }"

definition mp_gc_add_root :: "mp_gc option \<Rightarrow> nat option \<Rightarrow> (int \<times> mp_gc option) option" where
  "mp_gc_add_root = on_object (-1) (\<lambda>a ob g. map_option (Pair 0) (add_root a g))"

definition mp_gc_remove_root :: "mp_gc option \<Rightarrow> nat option \<Rightarrow> (unit \<times> mp_gc option) option" where
  "mp_gc_remove_root = on_object () (\<lambda>a ob g.
     do { g1 \<leftarrow> upd_obj a (clear_flag MP_GC_FLAG_ROOT) g;
          g2 \<leftarrow> unlink_object (\<lambda>p h. h\<lparr>root_list := p\<rparr>) a g1;
          g3 \<leftarrow> upd_obj a (\<lambda>x. x\<lparr>o_prev := None, o_next := None\<rparr>) g2;
          Some ((), g3) })"

section \<open>State and diagnosis\<close>

definition mp_gc_set_auto :: "mp_gc option \<Rightarrow> bool \<Rightarrow> mp_gc option" where
  "mp_gc_set_auto gc enabled = map_option (\<lambda>g. g\<lparr>gc_enabled := enabled\<rparr>) gc"

definition mp_gc_is_enabled :: "mp_gc option \<Rightarrow> bool" where
  "mp_gc_is_enabled gc = (case gc of None \<Rightarrow> False | Some g \<Rightarrow> gc_enabled g)"

definition mp_gc_get_stats :: "mp_gc option \<Rightarrow> gc_stats option \<Rightarrow> gc_stats option" where
  "mp_gc_get_stats gc stats = (case (gc, stats) of (Some g, Some s) \<Rightarrow> Some (gc_stat g) | _ \<Rightarrow> stats)"

definition mp_gc_reset_stats :: "mp_gc option \<Rightarrow> mp_gc option" where
  "mp_gc_reset_stats gc = map_option (\<lambda>g. g\<lparr>gc_stat := zero_stats\<rparr>) gc"

definition mp_gc_register_tracer :: "mp_gc option \<Rightarrow> string \<Rightarrow> nat option \<Rightarrow> mp_gc option" where
  "mp_gc_register_tracer gc type_name trace_fn = gc"

text \<open>The walk along \<open>next\<close> from a list head.\<close>

partial_function (option) gc_walk :: "(nat \<Rightarrow> gc_object option) \<Rightarrow> nat option \<Rightarrow> (nat \<times> gc_object) list option" where
  "gc_walk objs p =
     (case p of None \<Rightarrow> Some []
      | Some a \<Rightarrow> do { ob \<leftarrow> objs a; rest \<leftarrow> gc_walk objs (o_next ob); Some ((a, ob) # rest) })"

definition mp_gc_validate :: "mp_gc option \<Rightarrow> bool option" where
  "mp_gc_validate gc =
     (case gc of None \<Rightarrow> Some False
      | Some g \<Rightarrow>
          if gc_running g then Some False
          else do { ys \<leftarrow> gc_walk (gc_objs g) (young_list g);
                    os \<leftarrow> gc_walk (gc_objs g) (old_list g);
                    rs \<leftarrow> gc_walk (gc_objs g) (root_list g);
                    Some (of_nat (length ys + length os + length rs) = num_objects g) })"

text \<open>A line of the dump is its format with the arguments that are printed.\<close>

datatype gc_line =
    Line string
  | Line_count string size_t
  | Line_root nat nat u32
  | Line_young nat nat size_t u32
  | Line_old nat nat size_t u32 u32

definition numbered :: "'a list \<Rightarrow> (nat \<times> 'a) list" where
  "numbered xs = zip [0..<length xs] xs"

definition mp_gc_dump :: "mp_gc option \<Rightarrow> bool \<Rightarrow> gc_line list option" where
  "mp_gc_dump gc callback =
     (case gc of None \<Rightarrow> Some []
      | Some g \<Rightarrow>
          if \<not> callback then Some []
          else do {
            let s = gc_stat g;
            rs \<leftarrow> gc_walk (gc_objs g) (root_list g);
            ys \<leftarrow> gc_walk (gc_objs g) (young_list g);
            os \<leftarrow> gc_walk (gc_objs g) (old_list g);
            Some ([Line ''GC Dump:'',
                   Line_count ''  Total Objects: %zu'' (st_total_objects s),
                   Line_count ''  Live Objects: %zu'' (st_live_objects s),
                   Line_count ''  Bytes Allocated: %zu'' (st_bytes_allocated s),
                   Line_count ''  Bytes Freed: %zu'' (st_bytes_freed s),
                   Line_count ''  GC Runs: %zu'' (st_gc_runs s),
                   Line_count ''  Objects Collected (last): %zu'' (st_objects_collected s),
                   Line_count ''  Bytes Collected (last): %zu'' (st_bytes_collected s),
                   Line ''  Roots:''] @
                  map (\<lambda>(i, a, ob). Line_root i a (o_ref_count ob)) (numbered rs) @
                  [Line_count ''  Young Generation (%zu objects):'' (num_objects g)] @
                  map (\<lambda>(i, a, ob). Line_young i a (o_size ob) (o_ref_count ob)) (numbered ys) @
                  [Line ''  Old Generation:''] @
                  map (\<lambda>(i, a, ob). Line_old i a (o_size ob) (o_ref_count ob) (o_generation ob)) (numbered os)) })"

section \<open>The global collector\<close>

text \<open>\<open>mp_gc_global\<close> is a pointer; \<^term>\<open>None\<close> is \<open>NULL\<close>.  \<open>fresh\<close> is the struct that \<open>malloc\<close> returns for it.\<close>

definition mp_gc_global_init ::
  "(nat \<Rightarrow> size_t \<Rightarrow> bool) \<Rightarrow> mp_gc option \<Rightarrow> mp_gc option \<Rightarrow> nat option \<Rightarrow> size_t \<Rightarrow> int \<times> mp_gc option" where
  "mp_gc_global_init array_ok fresh gc_global heap maximum =
     (if gc_global \<noteq> None then (-1, gc_global)
      else if fresh = None then (-1, None)
      else mp_gc_init array_ok fresh
             (Some \<lparr>cfg_heap = heap, cfg_initial_size = 1024 * 1024, cfg_max_objects = maximum,
                    cfg_use_ref_counting = True, cfg_use_mark_sweep = True, cfg_use_generational = False,
                    cfg_young_gen_size = 256 * 1024, cfg_threshold = 100, cfg_gc_interval = 1000\<rparr>))"

definition mp_gc_global_alloc :: "gc_malloc \<Rightarrow> mp_gc option \<Rightarrow> size_t \<Rightarrow> (nat option \<times> mp_gc option) option" where
  "mp_gc_global_alloc malloc gc_global sz =
     (if gc_global = None then Some (None, None) else mp_gc_alloc malloc gc_global sz)"

definition mp_gc_global_free :: "mp_gc option \<Rightarrow> nat option \<Rightarrow> (unit \<times> mp_gc option) option" where
  "mp_gc_global_free gc_global ptr = (if gc_global = None then Some ((), None) else mp_gc_free gc_global ptr)"

definition mp_gc_global_incref :: "mp_gc option \<Rightarrow> nat option \<Rightarrow> (unit \<times> mp_gc option) option" where
  "mp_gc_global_incref gc_global ptr = (if gc_global = None then Some ((), None) else mp_gc_incref gc_global ptr)"

definition mp_gc_global_decref :: "mp_gc option \<Rightarrow> nat option \<Rightarrow> (unit \<times> mp_gc option) option" where
  "mp_gc_global_decref gc_global ptr = (if gc_global = None then Some ((), None) else mp_gc_decref gc_global ptr)"

definition mp_gc_global_collect :: "mp_gc option \<Rightarrow> (size_t \<times> mp_gc option) option" where
  "mp_gc_global_collect gc_global = (if gc_global = None then Some (0, None) else mp_gc_collect gc_global)"

definition mp_gc_global_get_stats :: "mp_gc option \<Rightarrow> gc_stats option \<Rightarrow> gc_stats option" where
  "mp_gc_global_get_stats gc_global stats =
     (if gc_global = None then map_option (\<lambda>s. zero_stats) stats else mp_gc_get_stats gc_global stats)"

definition mp_gc_global_add_root :: "mp_gc option \<Rightarrow> nat option \<Rightarrow> (int \<times> mp_gc option) option" where
  "mp_gc_global_add_root gc_global ptr = (if gc_global = None then Some (-1, None) else mp_gc_add_root gc_global ptr)"

definition mp_gc_global_remove_root :: "mp_gc option \<Rightarrow> nat option \<Rightarrow> (unit \<times> mp_gc option) option" where
  "mp_gc_global_remove_root gc_global ptr = (if gc_global = None then Some ((), None) else mp_gc_remove_root gc_global ptr)"

end
