(* ===== verification/Gc_Correct.thy ===== *)
theory Gc_Correct
  imports Gc
begin

text \<open>
  Reference counting of the collector is correct: without roots, an object is alive exactly as long as the client holds
  a reference to it.  The automatic collection never collects, a full one that finds an object to free reads it after
  the release, and a root registered twice makes the next collection endless.
\<close>

section \<open>Doubly linked lists\<close>

text \<open>\<open>dls m pv p xs pv' p'\<close>: from pointer \<open>p\<close>, reached from \<open>pv\<close>, the objects \<open>xs\<close> are linked in both directions up to
  pointer \<open>p'\<close>, reached from \<open>pv'\<close>.\<close>

fun dls :: "(nat \<Rightarrow> gc_object option) \<Rightarrow> nat option \<Rightarrow> nat option \<Rightarrow> nat list \<Rightarrow> nat option \<Rightarrow> nat option \<Rightarrow> bool" where
  "dls m pv p [] pv' p' = (pv' = pv \<and> p' = p)"
| "dls m pv p (x # xs) pv' p' =
     (p = Some x \<and> (\<exists>ob. m x = Some ob \<and> o_prev ob = pv \<and> dls m (Some x) (o_next ob) xs pv' p'))"

definition dlinked :: "(nat \<Rightarrow> gc_object option) \<Rightarrow> nat option \<Rightarrow> nat list \<Rightarrow> bool" where
  "dlinked m p xs \<longleftrightarrow> (\<exists>pv. dls m None p xs pv None)"

definition links :: "gc_object \<Rightarrow> nat option \<times> nat option" where
  "links ob = (o_prev ob, o_next ob)"

lemma dls_append: "dls m pv p (xs @ ys) pv' p' = (\<exists>a b. dls m pv p xs a b \<and> dls m a b ys pv' p')"
  by (induction xs arbitrary: pv p) auto

lemma dls_frame:
  "\<forall>x \<in> set xs. map_option links (m' x) = map_option links (m x) \<Longrightarrow> dls m' pv p xs pv' p' = dls m pv p xs pv' p'"
proof (induction xs arbitrary: pv p)
  case (Cons x xs)
  have l: "map_option links (m' x) = map_option links (m x)"
    and IH: "\<And>pv p. dls m' pv p xs pv' p' = dls m pv p xs pv' p'" using Cons by auto
  show ?case using l IH by (cases "m x"; cases "m' x") (auto simp: links_def)
qed simp

lemma dls_upd [simp]: "a \<notin> set xs \<Longrightarrow> dls (m(a := v)) pv p xs pv' p' = dls m pv p xs pv' p'"
  by (rule dls_frame) auto

lemma dls_reached: "dls m pv p xs pv' p' \<Longrightarrow> pv' = (if xs = [] then pv else Some (last xs))"
  by (induction xs arbitrary: pv p) (auto split: if_splits)

lemma dls_last_next:
  "dls m pv p (xs @ [q]) pv' p' \<Longrightarrow> q \<notin> set xs \<Longrightarrow> m q = Some ob \<Longrightarrow> dls (m(q \<mapsto> ob\<lparr>o_next := r\<rparr>)) pv p (xs @ [q]) pv' r"
  by (auto simp: dls_append)

text \<open>Adding an object in front.\<close>

lemma dlinked_push:
  assumes "dlinked m p xs" "a \<notin> set xs" "o_prev ob = None" "o_next ob = p"
  shows "dlinked (case p of None \<Rightarrow> m(a \<mapsto> ob) | Some q \<Rightarrow> (m(a \<mapsto> ob))(q := map_option (o_prev_update (\<lambda>_. Some a)) (m q)))
    (Some a) (a # xs)"
proof (cases xs)
  case Nil
  then show ?thesis using assms by (simp add: dlinked_def)
next
  case (Cons q ys)
  obtain pv obq where q: "p = Some q" "m q = Some obq" "dls m (Some q) (o_next obq) ys pv None"
    using assms(1) Cons by (auto simp: dlinked_def)
  have d: "a \<noteq> q" "a \<notin> set ys" using assms(2) Cons by auto
  show ?thesis
  proof (cases "q \<in> set ys")
    case True
    then obtain us vs where ys: "ys = us @ q # vs" by (meson split_list)
    with q(3) obtain w x obq' where "m q = Some obq'" "dls m (Some q) (o_next obq') vs pv None" "o_prev obq' = w"
      by (auto simp: dls_append)
    with q have "dls m (Some q) (o_next obq) vs pv None" "dls m (Some q) (o_next obq) (us @ q # vs) pv None" using ys by auto
    moreover have "dls m a1 b1 xs1 pv None \<Longrightarrow> dls m a2 b1 ys1 pv None \<Longrightarrow> length xs1 = length ys1" for a1 a2 b1 xs1 ys1
    proof (induction xs1 arbitrary: a1 a2 b1 ys1)
      case Nil
      then show ?case by (cases ys1) auto
    next
      case (Cons z zs)
      then show ?case by (cases ys1) auto
    qed
    ultimately have "length vs = length (us @ q # vs)" by blast
    then show ?thesis by simp
  next
    case False
    then show ?thesis using assms(3,4) q d Cons by (auto simp: dlinked_def)
  qed
qed

text \<open>Taking an object out.\<close>

definition unlinked :: "nat \<Rightarrow> gc_object \<Rightarrow> (nat \<Rightarrow> gc_object option) \<Rightarrow> (nat \<Rightarrow> gc_object option)" where
  "unlinked a ob m =
     (let m1 = (case o_prev ob of Some q \<Rightarrow> m(q := map_option (o_next_update (\<lambda>_. o_next ob)) (m q)) | None \<Rightarrow> m)
      in case o_next ob of Some q \<Rightarrow> m1(q := map_option (o_prev_update (\<lambda>_. o_prev ob)) (m1 q)) | None \<Rightarrow> m1)"

lemma dlinked_unlink:
  assumes l: "dlinked m p (ys @ a # zs)" and d: "distinct (ys @ a # zs)" and a: "m a = Some ob"
  shows "dlinked (unlinked a ob m) (if o_prev ob = None then o_next ob else p) (ys @ zs)"
    and "o_prev ob = (if ys = [] then None else Some (last ys))"
    and "o_next ob = (if zs = [] then None else Some (hd zs))"
    and "ys = [] \<Longrightarrow> p = Some a"
proof -
  obtain pv where l': "dls m None p ys (o_prev ob) (Some a)" "dls m (Some a) (o_next ob) zs pv None"
    using l a by (auto simp: dlinked_def dls_append)
  show pr: "o_prev ob = (if ys = [] then None else Some (last ys))" using dls_reached [OF l'(1)] by simp
  show nx: "o_next ob = (if zs = [] then None else Some (hd zs))" using l'(2) by (cases zs) auto
  show "ys = [] \<Longrightarrow> p = Some a" using l'(1) by simp
  let ?m1 = "case o_prev ob of Some q \<Rightarrow> m(q := map_option (o_next_update (\<lambda>_. o_next ob)) (m q)) | None \<Rightarrow> m"
  have s1: "dls ?m1 None (if o_prev ob = None then o_next ob else p) ys (o_prev ob) (o_next ob) \<and>
      dls ?m1 (Some a) (o_next ob) zs pv None"
  proof (cases ys rule: rev_cases)
    case Nil
    then show ?thesis using l' pr by simp
  next
    case (snoc ws q)
    then have q: "o_prev ob = Some q" "q \<notin> set ws" "q \<notin> set zs" using pr d by auto
    moreover obtain obq where "m q = Some obq" using l'(1) snoc by (auto simp: dls_append)
    ultimately show ?thesis using l' snoc dls_last_next [of m None p ws q "o_prev ob" "Some a" obq "o_next ob"] by auto
  qed
  show "dlinked (unlinked a ob m) (if o_prev ob = None then o_next ob else p) (ys @ zs)"
  proof (cases zs)
    case Nil
    then have n: "o_next ob = None" using nx by simp
    have "dls (unlinked a ob m) None (if o_prev ob = None then o_next ob else p) ys (o_prev ob) None"
      using s1 n by (simp add: unlinked_def Let_def)
    then show ?thesis using Nil unfolding dlinked_def by auto
  next
    case (Cons z us)
    then have z: "o_next ob = Some z" "z \<notin> set ys" "z \<notin> set us" using nx d by auto
    obtain obz where obz: "?m1 z = Some obz" "dls ?m1 (Some z) (o_next obz) us pv None" using s1 Cons by auto
    have u: "unlinked a ob m = ?m1(z \<mapsto> obz\<lparr>o_prev := o_prev ob\<rparr>)"
      using z(1) obz(1) by (simp add: unlinked_def Let_def)
    have "dls (unlinked a ob m) (o_prev ob) (o_next ob) zs pv None"
      using Cons z obz(2) by (simp add: u)
    moreover have "dls (unlinked a ob m) None (if o_prev ob = None then o_next ob else p) ys (o_prev ob) (o_next ob)"
      using s1 z(2) by (simp add: u)
    ultimately show ?thesis unfolding dlinked_def dls_append by blast
  qed
qed

section \<open>What a client sees of reference counting\<close>

text \<open>
  A client holds references, a list \<open>rs\<close> in which an object stands once for each of them.  It creates objects, copies
  references that it holds and gives them back; it touches no object to which it holds none.
\<close>

datatype 'x ref_op = Create 'x | Retain nat | Release nat

fun ref_step ::
  "('x \<Rightarrow> 's \<Rightarrow> (nat option \<times> 's) option) \<Rightarrow> (nat \<Rightarrow> 's \<Rightarrow> 's option) \<Rightarrow> (nat \<Rightarrow> 's \<Rightarrow> 's option) \<Rightarrow>
   'x ref_op \<Rightarrow> 's \<times> nat list \<Rightarrow> ('s \<times> nat list) option" where
  "ref_step create retain release (Create x) (s, rs) =
     map_option (\<lambda>(r, s'). (s', (case r of None \<Rightarrow> rs | Some a \<Rightarrow> a # rs))) (create x s)"
| "ref_step create retain release (Retain a) (s, rs) =
     (if a \<in> set rs then map_option (\<lambda>s'. (s', a # rs)) (retain a s) else Some (s, rs))"
| "ref_step create retain release (Release a) (s, rs) =
     (if a \<in> set rs then map_option (\<lambda>s'. (s', remove1 a rs)) (release a s) else Some (s, rs))"

primrec ref_run ::
  "('x \<Rightarrow> 's \<Rightarrow> (nat option \<times> 's) option) \<Rightarrow> (nat \<Rightarrow> 's \<Rightarrow> 's option) \<Rightarrow> (nat \<Rightarrow> 's \<Rightarrow> 's option) \<Rightarrow>
   'x ref_op list \<Rightarrow> 's \<times> nat list \<Rightarrow> ('s \<times> nat list) option" where
  "ref_run create retain release [] c = Some c"
| "ref_run create retain release (x # xs) c =
     do { c' \<leftarrow> ref_step create retain release x c; ref_run create retain release xs c' }"

lemma ref_run_append:
  "ref_run c t r (xs @ ys) s = do { s' \<leftarrow> ref_run c t r xs s; ref_run c t r ys s' }"
  by (induction xs arbitrary: s) (auto split: Option.bind_splits)

locale counted_store =
  fixes inv :: "'s \<Rightarrow> nat list \<Rightarrow> bool"
    and alive :: "'s \<Rightarrow> nat set"
    and create :: "'x \<Rightarrow> 's \<Rightarrow> (nat option \<times> 's) option"
    and retain :: "nat \<Rightarrow> 's \<Rightarrow> 's option"
    and release :: "nat \<Rightarrow> 's \<Rightarrow> 's option"
    and limit :: nat
  assumes alive: "inv s rs \<Longrightarrow> alive s = set rs"
    and create: "inv s rs \<Longrightarrow> length rs < limit \<Longrightarrow>
      \<exists>r s'. create x s = Some (r, s') \<and> inv s' (case r of None \<Rightarrow> rs | Some a \<Rightarrow> a # rs)"
    and retain: "inv s rs \<Longrightarrow> length rs < limit \<Longrightarrow> a \<in> set rs \<Longrightarrow> \<exists>s'. retain a s = Some s' \<and> inv s' (a # rs)"
    and release: "inv s rs \<Longrightarrow> a \<in> set rs \<Longrightarrow> \<exists>s'. release a s = Some s' \<and> inv s' (remove1 a rs)"
begin

lemma step_ok:
  assumes i: "inv s rs" and l: "length rs < limit"
  shows "\<exists>s' rs'. ref_step create retain release x (s, rs) = Some (s', rs') \<and> inv s' rs' \<and> length rs' \<le> Suc (length rs)"
proof (cases x)
  case (Create y)
  obtain r s' where "create y s = Some (r, s')" "inv s' (case r of None \<Rightarrow> rs | Some a \<Rightarrow> a # rs)"
    using create [OF i l] by blast
  then show ?thesis using Create by (auto split: option.splits)
next
  case (Retain a)
  then show ?thesis using retain [OF i l, of a] i by (cases "a \<in> set rs") auto
next
  case (Release a)
  then show ?thesis using release [OF i, of a] i by (cases "a \<in> set rs") (auto simp: length_remove1)
qed

lemma run_ok:
  "inv s rs \<Longrightarrow> length rs + length xs \<le> limit \<Longrightarrow>
   \<exists>s' rs'. ref_run create retain release xs (s, rs) = Some (s', rs') \<and> inv s' rs' \<and> length rs' \<le> length rs + length xs"
proof (induction xs arbitrary: s rs)
  case (Cons x xs)
  have l: "length rs < limit" using Cons.prems(2) by simp
  obtain s1 rs1 where 1: "ref_step create retain release x (s, rs) = Some (s1, rs1)" "inv s1 rs1" "length rs1 \<le> Suc (length rs)"
    using step_ok [OF Cons.prems(1) l] by blast
  then obtain s2 rs2 where "ref_run create retain release xs (s1, rs1) = Some (s2, rs2)" "inv s2 rs2"
      "length rs2 \<le> length rs1 + length xs"
    using Cons.IH [of s1 rs1] Cons.prems(2) by auto
  then show ?case using 1 by auto
qed auto

text \<open>Giving every reference back leaves nothing alive.\<close>

lemma drain: "inv s rs \<Longrightarrow> \<exists>s'. ref_run create retain release (map Release rs) (s, rs) = Some (s', []) \<and> inv s' []"
proof (induction rs arbitrary: s)
  case (Cons a rs)
  then obtain s1 where "release a s = Some s1" "inv s1 rs" using release [of s "a # rs" a] by auto
  then show ?case using Cons.IH [of s1] by simp
qed auto

theorem no_leak:
  assumes i: "inv s []" and l: "length xs \<le> limit"
  shows "\<exists>s' rs s''. ref_run create retain release xs (s, []) = Some (s', rs) \<and> alive s' = set rs \<and>
    inv s' rs \<and> ref_run create retain release (xs @ map Release rs) (s, []) = Some (s'', []) \<and> alive s'' = {}"
proof -
  obtain s' rs where 1: "ref_run create retain release xs (s, []) = Some (s', rs)" "inv s' rs"
    using run_ok [OF i, of xs] l by auto
  obtain s'' where 2: "ref_run create retain release (map Release rs) (s', rs) = Some (s'', [])" "inv s'' []"
    using drain [OF 1(2)] by blast
  show ?thesis using 1 2 alive [OF 1(2)] alive [OF 2(2)] by (simp add: ref_run_append)
qed

end

section \<open>The collector is such a store\<close>

text \<open>\<open>malloc\<close> finds a free address.\<close>

definition good_gc_malloc :: "gc_malloc \<Rightarrow> bool" where
  "good_gc_malloc malloc \<longleftrightarrow> (\<forall>m n. finite (dom m) \<longrightarrow> (\<exists>a. malloc m n = Some a \<and> m a = None))"

definition core :: "gc_object \<Rightarrow> nat \<times> u32 \<times> u32" where
  "core ob = (o_gc ob, o_flags ob, o_ref_count ob)"

lemma core_links [simp]:
  "core (o_next_update f ob) = core ob" "core (o_prev_update f ob) = core ob"
  by (simp_all add: core_def)

definition gc_inv :: "gc_malloc \<Rightarrow> mp_gc \<Rightarrow> nat list \<Rightarrow> bool" where
  "gc_inv malloc g rs \<longleftrightarrow> good_gc_malloc malloc \<and> length rs < 2 ^ 32 \<and> dom (gc_objs g) = set rs \<and>
     (\<forall>a \<in> set rs. map_option core (gc_objs g a) = Some (gc_self g, MP_GC_FLAG_YOUNG, of_nat (count_list rs a))) \<and>
     (\<exists>xs. distinct xs \<and> set xs = set rs \<and> dlinked (gc_objs g) (young_list g) xs) \<and>
     old_list g = None \<and> root_list g = None \<and> mark_stack_pos g = 0 \<and> gc_enabled g \<and> \<not> gc_running g \<and>
     num_objects g = of_nat (card (set rs)) \<and> st_live_objects (gc_stat g) = num_objects g \<and>
     (\<forall>arr. gc_objects g = Some arr \<longrightarrow> unat (max_objects g) \<le> length arr)"

lemma collect_zero: "collect g = Some (0, g)"
proof (cases "\<not> gc_enabled g \<or> gc_running g")
  case True
  then show ?thesis by (simp add: collect_def)
next
  case False
  then have "g\<lparr>gc_running := True, gc_running := False\<rparr> = g" by simp
  then show ?thesis using False by (simp add: collect_def collect_young_def collect_full_def Let_def)
qed

lemma gc_invD:
  assumes "gc_inv malloc g rs"
  shows "good_gc_malloc malloc" "length rs < 2 ^ 32" "dom (gc_objs g) = set rs"
    "a \<in> set rs \<Longrightarrow> map_option core (gc_objs g a) = Some (gc_self g, MP_GC_FLAG_YOUNG, of_nat (count_list rs a))"
    "\<exists>xs. distinct xs \<and> set xs = set rs \<and> dlinked (gc_objs g) (young_list g) xs"
    "num_objects g = of_nat (card (set rs))" "st_live_objects (gc_stat g) = num_objects g"
    "gc_objects g = Some arr \<Longrightarrow> unat (max_objects g) \<le> length arr"
    "old_list g = None" "root_list g = None" "mark_stack_pos g = 0" "gc_enabled g" "\<not> gc_running g"
  using assms by (auto simp: gc_inv_def)

lemma store_tracked_ok:
  assumes "\<And>arr. gc_objects g = Some arr \<Longrightarrow> unat (max_objects g) \<le> length arr" and "num_objects g \<noteq> 0"
  shows "\<exists>arr. store_tracked a g = Some (g\<lparr>gc_objects := arr\<rparr>) \<and>
    (\<forall>arr'. arr = Some arr' \<longrightarrow> unat (max_objects g) \<le> length arr')"
proof (cases "gc_objects g")
  case None
  then show ?thesis by (intro exI [of _ None]) (simp add: store_tracked_def)
next
  case (Some arr)
  have l: "unat (max_objects g) \<le> length arr" using assms(1) Some by blast
  have "unat (num_objects g - 1) < length arr" if "num_objects g \<le> max_objects g"
  proof -
    have "unat (num_objects g - 1) = unat (num_objects g) - 1" "0 < unat (num_objects g)"
      using assms(2) by (simp_all add: unat_minus_one unat_gt_0)
    then show ?thesis using that l by (simp add: word_le_nat_alt)
  qed
  then show ?thesis using l Some
    by (cases "num_objects g \<le> max_objects g") (auto simp: store_tracked_def intro!: exI [of _ "Some _"])
qed

text \<open>A new object.\<close>

lemma gc_new_object_ok:
  assumes i: "gc_inv malloc g rs" and l: "length rs < 2 ^ 32 - 1" and a: "gc_objs g a = None"
  shows "\<exists>g'. gc_new_object a sz fin data g = Some g' \<and> gc_inv malloc g' (a # rs) \<and> gc_finalized g' = gc_finalized g"
proof -
  note inv = gc_invD [OF i]
  obtain xs where xs: "distinct xs" "set xs = set rs" "dlinked (gc_objs g) (young_list g) xs" using inv(5) by blast
  have fresh: "a \<notin> set rs" using a inv(3) by (metis domIff)
  define ob where "ob = \<lparr>o_next = young_list g, o_prev = None, o_gc = gc_self g, o_ref_count = 1,
    o_flags = MP_GC_FLAG_YOUNG, o_size = sz, o_generation = generation_counter g, o_timestamp = 0,
    o_finalizer = fin, o_finalizer_data = data\<rparr>"
  define m where "m = (case young_list g of None \<Rightarrow> (gc_objs g)(a \<mapsto> ob)
    | Some q \<Rightarrow> ((gc_objs g)(a \<mapsto> ob))(q := map_option (o_prev_update (\<lambda>_. Some a)) (gc_objs g q)))"
  have head: "q \<in> set rs" if "young_list g = Some q" for q
    using xs that by (cases xs) (auto simp: dlinked_def)
  have core_m: "map_option core (m x) = (if x = a then Some (core ob) else map_option core (gc_objs g x))" for x
  proof (cases "young_list g")
    case (Some q)
    then have "q \<noteq> a" using head fresh by blast
    then show ?thesis using Some by (cases "gc_objs g q") (simp_all add: m_def)
  qed (simp add: m_def)
  have dl: "dlinked m (Some a) (a # xs)"
    unfolding m_def by (rule dlinked_push [OF xs(3)]) (use fresh xs(2) in \<open>auto simp: ob_def\<close>)
  have dom: "dom m = set (a # rs)"
  proof -
    have "x \<in> dom m \<longleftrightarrow> x = a \<or> x \<in> dom (gc_objs g)" for x
      using core_m [of x] by (cases "m x"; cases "gc_objs g x") (auto split: if_splits)
    then show ?thesis using inv(3) by auto
  qed
  have card: "card (set (a # rs)) = Suc (card (set rs))" and lt: "card (set rs) < 2 ^ 32 - 1"
    using fresh card_length [of rs] l by auto
  define h where "h = upd_stat (\<lambda>s. s\<lparr>st_total_objects := st_total_objects s + 1, st_live_objects := st_live_objects s + 1,
      st_bytes_allocated := st_bytes_allocated s + (sizeof_gc_object + sz)\<rparr>)
    (g\<lparr>gc_objs := m, young_list := Some a, num_objects := num_objects g + 1\<rparr>)"
  have new: "gc_new_object a sz fin data g = store_tracked a h"
  proof (cases "young_list g")
    case None
    then show ?thesis by (simp add: gc_new_object_def h_def m_def ob_def Let_def upd_stat_def)
  next
    case (Some q)
    then obtain obq where "gc_objs g q = Some obq" "q \<noteq> a" using head [of q] inv(3) fresh by blast
    then show ?thesis using Some by (simp add: gc_new_object_def upd_obj_def h_def m_def ob_def Let_def upd_stat_def)
  qed
  have nz: "num_objects h \<noteq> 0"
  proof -
    have "num_objects h = of_nat (Suc (card (set rs)))" using inv(6) by (simp add: h_def upd_stat_def)
    moreover have "unat (of_nat (Suc (card (set rs))) :: size_t) = Suc (card (set rs))"
      using lt by (simp add: unat_of_nat del: of_nat_Suc)
    ultimately show ?thesis by (metis nat.distinct(1) unat_0)
  qed
  have arr: "unat (max_objects h) \<le> length arr" if "gc_objects h = Some arr" for arr
    using inv(8) that by (simp add: h_def upd_stat_def)
  obtain arr where st: "store_tracked a h = Some (h\<lparr>gc_objects := arr\<rparr>)"
      "\<forall>arr'. arr = Some arr' \<longrightarrow> unat (max_objects h) \<le> length arr'"
    using store_tracked_ok [OF arr nz] by blast
  have "gc_inv malloc (h\<lparr>gc_objects := arr\<rparr>) (a # rs)"
    unfolding gc_inv_def
  proof (intro conjI)
    show "\<forall>x \<in> set (a # rs). map_option core (gc_objs (h\<lparr>gc_objects := arr\<rparr>) x) =
        Some (gc_self (h\<lparr>gc_objects := arr\<rparr>), MP_GC_FLAG_YOUNG, of_nat (count_list (a # rs) x))"
      using core_m inv(4) fresh by (auto simp: h_def upd_stat_def core_def ob_def)
    show "\<exists>ys. distinct ys \<and> set ys = set (a # rs) \<and>
        dlinked (gc_objs (h\<lparr>gc_objects := arr\<rparr>)) (young_list (h\<lparr>gc_objects := arr\<rparr>)) ys"
      by (intro exI [of _ "a # xs"]) (use xs fresh dl in \<open>auto simp: h_def upd_stat_def\<close>)
  qed (use inv l dom st card in \<open>auto simp: h_def upd_stat_def\<close>)
  then show ?thesis using new st by (auto simp: h_def upd_stat_def)
qed

text \<open>An object that is released.\<close>

lemma core_unlinked: "map_option core (unlinked a ob m x) = map_option core (m x)"
proof -
  have u: "map_option core ((m'(q := map_option f (m' q))) x) = map_option core (m' x)"
    if "\<And>ob. core (f ob) = core ob" for m' q f
    using that by (cases "m' q") auto
  show ?thesis by (auto simp: unlinked_def Let_def u simp del: fun_upd_apply split: option.splits)
qed

lemma dom_unlinked: "dom (unlinked a ob m) = dom m"
proof -
  have "x \<in> dom (unlinked a ob m) \<longleftrightarrow> x \<in> dom m" for x
    using core_unlinked [of a ob m x] by (cases "m x"; cases "unlinked a ob m x") auto
  then show ?thesis by blast
qed

definition finalizer_call :: "nat \<Rightarrow> gc_object \<Rightarrow> (nat \<times> nat) list" where
  "finalizer_call a ob = (case o_finalizer ob of None \<Rightarrow> [] | Some f \<Rightarrow> [(f, a)])"

lemma finalize_eq: "finalize a ob g = g\<lparr>gc_finalized := gc_finalized g @ finalizer_call a ob\<rparr>"
  by (simp add: finalize_def finalizer_call_def split: option.splits)

lemma unlink_young:
  assumes l: "dlinked (gc_objs g) (young_list g) xs" and d: "distinct xs" and x: "a \<in> set xs"
    and a: "gc_objs g a = Some ob"
  shows "unlink_object (set_gen_list Young) a g = Some (g\<lparr>gc_objs := unlinked a ob (gc_objs g),
      young_list := (if o_prev ob = None then o_next ob else young_list g)\<rparr>)"
    and "dlinked (unlinked a ob (gc_objs g)) (if o_prev ob = None then o_next ob else young_list g) (remove1 a xs)"
proof -
  obtain ys zs where xs: "xs = ys @ a # zs" using x by (meson split_list)
  have l': "dlinked (gc_objs g) (young_list g) (ys @ a # zs)" and d': "distinct (ys @ a # zs)" using l d xs by auto
  note u = dlinked_unlink [OF l' d' a]
  show "dlinked (unlinked a ob (gc_objs g)) (if o_prev ob = None then o_next ob else young_list g) (remove1 a xs)"
    using u(1) d' xs by (simp add: remove1_append)
  have mem: "\<exists>ob. gc_objs g q = Some ob" if "q \<in> set (ys @ a # zs)" for q
    using that l' by (auto simp: dlinked_def dls_append dest!: split_list)
  have prev: "q \<noteq> a" "\<exists>ob. gc_objs g q = Some ob" if "o_prev ob = Some q" for q
    using that u(2) d' mem [of q] by (auto split: if_splits)
  have nxt: "q \<noteq> a" "\<exists>ob. gc_objs g q = Some ob" "o_prev ob \<noteq> Some q" if "o_next ob = Some q" for q
    using that u(2,3) d' mem [of q] by (auto split: if_splits)
      (metis last_in_set disjoint_iff hd_in_set)+
  show "unlink_object (set_gen_list Young) a g = Some (g\<lparr>gc_objs := unlinked a ob (gc_objs g),
      young_list := (if o_prev ob = None then o_next ob else young_list g)\<rparr>)"
  proof (cases "o_prev ob")
    case None
    then show ?thesis using a nxt
      by (auto simp: unlink_object_def upd_obj_def set_gen_list_def unlinked_def Let_def split: option.splits)
  next
    case (Some q)
    obtain obq where q: "gc_objs g q = Some obq" "q \<noteq> a" using prev Some by blast
    show ?thesis
    proof (cases "o_next ob")
      case None
      then show ?thesis using a q Some by (simp add: unlink_object_def upd_obj_def unlinked_def Let_def)
    next
      case (Some r)
      then obtain obr where "gc_objs g r = Some obr" "r \<noteq> a" "r \<noteq> q" using nxt \<open>o_prev ob = Some q\<close> by blast
      then show ?thesis using a q Some \<open>o_prev ob = Some q\<close>
        by (simp add: unlink_object_def upd_obj_def unlinked_def Let_def)
    qed
  qed
qed

text \<open>The effect of the release of an object on the young list.\<close>

lemma release_young:
  assumes l: "dlinked (gc_objs g) (young_list g) xs" and d: "distinct xs" and x: "a \<in> set xs"
    and a: "gc_objs g a = Some ob" and y: "o_flags ob = MP_GC_FLAG_YOUNG"
  shows "\<exists>p st. release_object a ob g = Some (g\<lparr>gc_objs := (unlinked a ob (gc_objs g))(a := None), young_list := p,
      num_objects := num_objects g - 1, gc_stat := (gc_stat g)\<lparr>st_live_objects := st_live_objects (gc_stat g) - 1,
        st_bytes_freed := st\<rparr>, gc_finalized := gc_finalized g @ finalizer_call a ob\<rparr>) \<and>
      dlinked ((unlinked a ob (gc_objs g))(a := None)) p (remove1 a xs)"
proof -
  let ?g = "finalize a ob g"
  have g: "gc_objs ?g = gc_objs g" "young_list ?g = young_list g" "num_objects ?g = num_objects g" "gc_stat ?g = gc_stat g"
    by (simp_all add: finalize_eq)
  note u = unlink_young [of ?g xs a ob, unfolded g, OF l d x a]
  have "a \<in> dom (unlinked a ob (gc_objs g))" using a by (auto simp: dom_unlinked)
  then obtain ob1 where "unlinked a ob (gc_objs g) a = Some ob1" by blast
  moreover have "a \<notin> set (remove1 a xs)" using d by simp
  moreover have "has_flag MP_GC_FLAG_YOUNG ob" using y by (simp add: has_flag_def MP_GC_FLAG_YOUNG_def)
  ultimately show ?thesis using u
    by (intro exI [of _ "if o_prev ob = None then o_next ob else young_list g"]
        exI [of _ "st_bytes_freed (gc_stat g) + get_gc_total_size ob1"])
      (simp add: release_object_def g free_obj_def upd_stat_def dlinked_def finalize_eq)
qed

text \<open>Counting up and down.\<close>

lemma dlinked_frame:
  "\<forall>x \<in> set xs. map_option links (m' x) = map_option links (m x) \<Longrightarrow> dlinked m' p xs = dlinked m p xs"
  unfolding dlinked_def using dls_frame [of xs m' m None p] by simp

lemma dlinked_ref_count [simp]:
  "m a = Some ob \<Longrightarrow> dlinked (m(a \<mapsto> ob\<lparr>o_ref_count := c\<rparr>)) p xs = dlinked m p xs"
  by (rule dlinked_frame) (auto simp: links_def)

lemma count_remove1: "count_list (remove1 a xs) b = (if a = b then count_list xs b - 1 else count_list xs b)"
  by (induction xs) auto

lemma count_in_set: "a \<in> set xs \<Longrightarrow> 0 < count_list xs a"
  by (induction xs) auto

lemma set_remove1_count: "set (remove1 a xs) = (if count_list xs a = 1 then set xs - {a} else set xs)"
proof (induction xs)
  case (Cons x xs)
  then show ?case by (cases "a \<in> set xs") (auto dest: count_in_set)
qed simp

lemma gc_inv_object:
  assumes i: "gc_inv malloc g rs" and a: "a \<in> set rs"
  obtains ob where "gc_objs g a = Some ob" "o_gc ob = gc_self g" "o_flags ob = MP_GC_FLAG_YOUNG"
    "o_ref_count ob = of_nat (count_list rs a)" "unat (o_ref_count ob) = count_list rs a"
proof -
  obtain ob where ob: "gc_objs g a = Some ob" "core ob = (gc_self g, MP_GC_FLAG_YOUNG, of_nat (count_list rs a))"
    using gc_invD(4) [OF i a] by (cases "gc_objs g a") auto
  have "count_list rs a < 2 ^ 32" using count_le_length [of rs a] gc_invD(2) [OF i] by simp
  then have "unat (of_nat (count_list rs a) :: u32) = count_list rs a" by (simp add: unat_of_nat)
  with ob show thesis by (intro that [of ob]) (auto simp: core_def)
qed

lemma incref_ok:
  assumes i: "gc_inv malloc g rs" and l: "length rs < 2 ^ 32 - 1" and a: "a \<in> set rs"
  shows "\<exists>g'. mp_gc_incref (Some g) (Some a) = Some ((), Some g') \<and> gc_inv malloc g' (a # rs) \<and>
    gc_finalized g' = gc_finalized g"
proof -
  obtain ob where ob: "gc_objs g a = Some ob" "o_gc ob = gc_self g" "o_flags ob = MP_GC_FLAG_YOUNG"
    "o_ref_count ob = of_nat (count_list rs a)" by (rule gc_inv_object [OF i a])
  let ?g = "g\<lparr>gc_objs := (gc_objs g)(a \<mapsto> ob\<lparr>o_ref_count := o_ref_count ob + 1\<rparr>)\<rparr>"
  note inv = gc_invD [OF i]
  have s: "set (a # rs) = set rs" using a by auto
  have "gc_inv malloc ?g (a # rs)"
    unfolding gc_inv_def s
  proof (intro conjI)
    show "dom (gc_objs ?g) = set rs" using inv(3) a by auto
    show "\<forall>x \<in> set rs. map_option core (gc_objs ?g x) = Some (gc_self ?g, MP_GC_FLAG_YOUNG, of_nat (count_list (a # rs) x))"
      using inv(4) ob by (auto simp: core_def add.commute)
    show "\<exists>xs. distinct xs \<and> set xs = set rs \<and> dlinked (gc_objs ?g) (young_list ?g) xs"
      using inv(5) ob(1) by simp
  qed (use inv l in auto)
  then show ?thesis using ob by (simp add: mp_gc_incref_def on_object_def upd_obj_def)
qed

lemma decref_ok:
  assumes i: "gc_inv malloc g rs" and a: "a \<in> set rs" and o: "gc_objs g a = Some ob"
  shows "\<exists>g'. mp_gc_decref (Some g) (Some a) = Some ((), Some g') \<and> gc_inv malloc g' (remove1 a rs) \<and>
    gc_finalized g' = gc_finalized g @ (if count_list rs a = 1 then finalizer_call a ob else []) \<and> gc_self g' = gc_self g"
proof -
  have ob: "o_gc ob = gc_self g" "o_flags ob = MP_GC_FLAG_YOUNG" "o_ref_count ob = of_nat (count_list rs a)"
    "unat (o_ref_count ob) = count_list rs a"
    using o by (metis gc_inv_object [OF i a] option.inject)+
  define ob1 where "ob1 = ob\<lparr>o_ref_count := o_ref_count ob - 1\<rparr>"
  define g1 where "g1 = g\<lparr>gc_objs := (gc_objs g)(a \<mapsto> ob1)\<rparr>"
  note inv = gc_invD [OF i]
  obtain xs where xs: "distinct xs" "set xs = set rs" "dlinked (gc_objs g) (young_list g) xs" using inv(5) by blast
  have pos: "0 < o_ref_count ob" using ob(4) count_in_set [OF a] by (metis unat_gt_0 word_gt_0)
  have unat1: "unat (o_ref_count ob1) = count_list rs a - 1"
    using pos ob(4) by (simp add: ob1_def unat_minus_one word_gt_0)
  have count1: "o_ref_count ob1 = of_nat (count_list rs a - 1)" 
    using ob(3) count_in_set [OF a] by (simp add: ob1_def of_nat_diff)
  have z: "o_ref_count ob1 = 0 \<longleftrightarrow> count_list rs a = 1"
  proof -
    have "o_ref_count ob1 = 0 \<longleftrightarrow> unat (o_ref_count ob1) = 0" by (metis gr0I unat_gt_0 unat_0)
    then show ?thesis unfolding unat1 using count_in_set [OF a] by linarith
  qed
  have "upd_obj a (\<lambda>x. x\<lparr>o_ref_count := o_ref_count x - 1\<rparr>) g = Some g1" and g1a: "gc_objs g1 a = Some ob1"
    using o by (simp_all add: upd_obj_def g1_def ob1_def)
  then have dec: "mp_gc_decref (Some g) (Some a) =
      (if count_list rs a = 1 then map_option (\<lambda>g'. ((), Some g')) (release_object a ob1 g1) else Some ((), Some g1))"
    using o ob(1) pos z by (simp add: mp_gc_decref_def on_object_def option.map_comp comp_def)
  have dl: "dlinked (gc_objs g1) (young_list g1) xs" using xs(3) o by (simp add: g1_def ob1_def)
  have r: "length (remove1 a rs) < 2 ^ 32" using inv(2) by (auto simp: length_remove1)
  show ?thesis
  proof (cases "count_list rs a = 1")
    case False
    have "gc_inv malloc g1 (remove1 a rs)"
      unfolding gc_inv_def set_remove1_count if_not_P [OF False]
    proof (intro conjI)
      show "\<forall>x \<in> set rs. map_option core (gc_objs g1 x) =
          Some (gc_self g1, MP_GC_FLAG_YOUNG, of_nat (count_list (remove1 a rs) x))"
        using inv(4) ob count1 by (auto simp: g1_def ob1_def core_def count_remove1)
      show "\<exists>xs. distinct xs \<and> set xs = set rs \<and> dlinked (gc_objs g1) (young_list g1) xs" using xs dl by blast
    qed (use inv r a in \<open>auto simp: g1_def\<close>)
    then show ?thesis using dec False by (simp add: g1_def)
  next
    case True
    have o1: "gc_objs g1 a = Some ob1" "o_flags ob1 = MP_GC_FLAG_YOUNG" using ob by (simp_all add: g1_def ob1_def)
    have ax: "a \<in> set xs" using a xs(2) by simp
    obtain p st where rel: "release_object a ob1 g1 = Some (g1\<lparr>gc_objs := (unlinked a ob1 (gc_objs g1))(a := None),
        young_list := p, num_objects := num_objects g1 - 1, gc_stat := (gc_stat g1)\<lparr>st_live_objects :=
        st_live_objects (gc_stat g1) - 1, st_bytes_freed := st\<rparr>, gc_finalized := gc_finalized g1 @ finalizer_call a ob1\<rparr>)"
      "dlinked ((unlinked a ob1 (gc_objs g1))(a := None)) p (remove1 a xs)"
      using release_young [OF dl xs(1) ax o1] by blast
    let ?h = "g1\<lparr>gc_objs := (unlinked a ob1 (gc_objs g1))(a := None), young_list := p, num_objects := num_objects g1 - 1,
        gc_stat := (gc_stat g1)\<lparr>st_live_objects := st_live_objects (gc_stat g1) - 1, st_bytes_freed := st\<rparr>,
        gc_finalized := gc_finalized g1 @ finalizer_call a ob1\<rparr>"
    have "gc_inv malloc ?h (remove1 a rs)"
      unfolding gc_inv_def set_remove1_count if_P [OF True]
    proof (intro conjI)
      show "dom (gc_objs ?h) = set rs - {a}" using inv(3) a by (auto simp: dom_unlinked g1_def)
      show "\<forall>x \<in> set rs - {a}. map_option core (gc_objs ?h x) =
          Some (gc_self ?h, MP_GC_FLAG_YOUNG, of_nat (count_list (remove1 a rs) x))"
        using inv(4) by (auto simp: core_unlinked g1_def count_remove1)
      show "\<exists>xs. distinct xs \<and> set xs = set rs - {a} \<and> dlinked (gc_objs ?h) (young_list ?h) xs"
        using rel(2) xs(1,2) by (intro exI [of _ "remove1 a xs"]) (simp add: set_remove1_eq)
      have "of_nat (card (set rs)) - 1 = (of_nat (card (set rs - {a})) :: size_t)"
        using a by (simp add: card_Diff_singleton) (metis Suc_pred card_gt_0_iff empty_iff finite_set add_diff_cancel_left' of_nat_Suc)
      then show "num_objects ?h = of_nat (card (set rs - {a}))" using inv(6) by (simp add: g1_def)
    qed (use inv r in \<open>auto simp: g1_def\<close>)
    then show ?thesis using dec True rel(1) by (simp add: g1_def finalizer_call_def ob1_def)
  qed
qed

text \<open>Allocation.\<close>

lemma alloc_ok:
  assumes i: "gc_inv malloc g rs" and l: "length rs < 2 ^ 32 - 1"
  shows "\<exists>r g'. mp_gc_alloc_with_finalizer malloc (Some g) sz fin data = Some (r, Some g') \<and>
    gc_inv malloc g' (case r of None \<Rightarrow> rs | Some a \<Rightarrow> a # rs) \<and> (r = None \<longleftrightarrow> sz = 0) \<and>
    (\<forall>a. r = Some a \<longrightarrow> a \<notin> set rs) \<and> gc_finalized g' = gc_finalized g"
proof (cases "sz = 0")
  case True
  then show ?thesis using i by (simp add: mp_gc_alloc_with_finalizer_def on_gc_def alloc_with_finalizer_def)
next
  case False
  have "finite (dom (gc_objs g))" using gc_invD(3) [OF i] by simp
  then obtain a where a: "malloc (gc_objs g) (sizeof_gc_object + sz) = Some a" "gc_objs g a = None"
    using gc_invD(1) [OF i] unfolding good_gc_malloc_def by blast
  obtain g' where "gc_new_object a sz fin data g = Some g'" "gc_inv malloc g' (a # rs)" "gc_finalized g' = gc_finalized g"
    using gc_new_object_ok [OF i l a(2)] by blast
  moreover have "a \<notin> set rs" using a(2) gc_invD(3) [OF i] by (metis domIff)
  ultimately show ?thesis using False a(1)
    by (simp add: mp_gc_alloc_with_finalizer_def on_gc_def alloc_with_finalizer_def collect_zero)
qed

definition gc_store_inv :: "gc_malloc \<Rightarrow> mp_gc option \<Rightarrow> nat list \<Rightarrow> bool" where
  "gc_store_inv malloc gc rs \<longleftrightarrow> (\<exists>g. gc = Some g \<and> gc_inv malloc g rs)"

definition gc_alive :: "mp_gc option \<Rightarrow> nat set" where
  "gc_alive gc = (case gc of None \<Rightarrow> {} | Some g \<Rightarrow> dom (gc_objs g))"

type_synonym gc_request = "size_t \<times> nat option \<times> nat option"

definition gc_create :: "gc_malloc \<Rightarrow> gc_request \<Rightarrow> mp_gc option \<Rightarrow> (nat option \<times> mp_gc option) option" where
  "gc_create malloc = (\<lambda>(sz, fin, data) gc. mp_gc_alloc_with_finalizer malloc gc sz fin data)"

definition gc_retain :: "nat \<Rightarrow> mp_gc option \<Rightarrow> mp_gc option option" where
  "gc_retain a gc = map_option snd (mp_gc_incref gc (Some a))"

definition gc_release :: "nat \<Rightarrow> mp_gc option \<Rightarrow> mp_gc option option" where
  "gc_release a gc = map_option snd (mp_gc_decref gc (Some a))"

interpretation gc_refs: counted_store "gc_store_inv malloc" gc_alive "gc_create malloc" gc_retain gc_release "2 ^ 32 - 1"
  for malloc
proof unfold_locales
  show "gc_store_inv malloc s rs \<Longrightarrow> gc_alive s = set rs" for s rs
    by (auto simp: gc_store_inv_def gc_alive_def gc_invD(3))
  show "\<exists>r s'. gc_create malloc x s = Some (r, s') \<and> gc_store_inv malloc s' (case r of None \<Rightarrow> rs | Some a \<Rightarrow> a # rs)"
    if i: "gc_store_inv malloc s rs" and l: "length rs < 2 ^ 32 - 1" for s rs x
  proof -
    obtain g sz fin data where g: "s = Some g" "gc_inv malloc g rs" "x = (sz, fin, data)"
      using i by (cases x) (auto simp: gc_store_inv_def)
    show ?thesis using alloc_ok [OF g(2) l, of sz fin data] g(1,3) by (auto simp: gc_create_def gc_store_inv_def)
  qed
  show "\<exists>s'. gc_retain a s = Some s' \<and> gc_store_inv malloc s' (a # rs)"
    if "gc_store_inv malloc s rs" "length rs < 2 ^ 32 - 1" "a \<in> set rs" for s rs a
    using that incref_ok [of malloc _ rs a] by (fastforce simp: gc_store_inv_def gc_retain_def)
  show "\<exists>s'. gc_release a s = Some s' \<and> gc_store_inv malloc s' (remove1 a rs)"
    if i: "gc_store_inv malloc s rs" and a: "a \<in> set rs" for s rs a
  proof -
    obtain g where g: "s = Some g" "gc_inv malloc g rs" using i by (auto simp: gc_store_inv_def)
    then obtain ob where "gc_objs g a = Some ob" using a gc_invD(3) by blast
    then show ?thesis using decref_ok [OF g(2) a] g(1) by (fastforce simp: gc_store_inv_def gc_release_def)
  qed
qed

text \<open>The initial state.\<close>

lemma gc_init_inv:
  assumes init: "mp_gc_init array_ok (Some g0) (Some cfg) = (0, Some g)" and e: "gc_objs g0 = Map.empty"
    and m: "good_gc_malloc malloc" and s: "unat (cfg_max_objects cfg) < 2 ^ 30"
  shows "gc_inv malloc g []"
proof -
  have mul: "unat (cfg_max_objects cfg * 4) div 4 = unat (cfg_max_objects cfg)"
    using s by (simp add: unat_word_ariths)
  then show ?thesis using init e m
    by (auto simp: mp_gc_init_def Let_def gc_inv_def dlinked_def zero_stats_def split: if_splits intro!: exI [of _ "[]"])
qed

section \<open>The walks\<close>

lemma gc_walk_dls: "dls m pv p xs pv' None \<Longrightarrow> \<exists>ys. gc_walk m p = Some ys \<and> map fst ys = xs"
proof (induction xs arbitrary: pv p)
  case Nil
  then show ?case by (simp add: gc_walk.simps)
next
  case (Cons x xs)
  then obtain ob where ob: "p = Some x" "m x = Some ob" "dls m (Some x) (o_next ob) xs pv' None" by auto
  then show ?case using Cons.IH [OF ob(3)] by (auto simp: gc_walk.simps [of m "Some x"])
qed

lemma gc_inv_validates:
  assumes i: "gc_inv malloc g rs"
  shows "mp_gc_validate (Some g) = Some True"
proof -
  note inv = gc_invD [OF i]
  obtain xs pv where xs: "distinct xs" "set xs = set rs" "dls (gc_objs g) None (young_list g) xs pv None"
    using inv(5) by (auto simp: dlinked_def)
  obtain ys where ys: "gc_walk (gc_objs g) (young_list g) = Some ys" "map fst ys = xs" using gc_walk_dls [OF xs(3)] by blast
  have "length ys = card (set rs)" using xs(1,2) ys(2) by (metis distinct_card length_map)
  then show ?thesis using inv ys by (simp add: mp_gc_validate_def gc_walk.simps)
qed

text \<open>Without roots a full collection finds every object garbage, and the first one is read after it has been freed.\<close>

lemma sweep_unmarked:
  "gc_objs g a = Some ob \<Longrightarrow> \<not> has_flag MP_GC_FLAG_MARKED ob \<Longrightarrow> sweep_loop n (Some a) None c b g = None"
  by (simp add: sweep_loop.simps Let_def free_obj_def finalize_eq set_gen_list_def split: generation.splits)

lemma mark_phase_no_roots:
  "root_list g = None \<Longrightarrow> mark_stack_pos g = 0 \<Longrightarrow> mark_phase g = Some g"
  by (simp add: mark_phase_def mark_roots.simps process_mark_stack.simps)

lemma collect_full_defined:
  assumes i: "gc_inv malloc g rs"
  shows "collect_full g \<noteq> None \<longleftrightarrow> rs = []"
proof -
  note inv = gc_invD [OF i]
  define g1 where "g1 = upd_stat (\<lambda>s. s\<lparr>st_gc_runs := st_gc_runs s + 1\<rparr>) (g\<lparr>gc_running := True\<rparr>)"
  have m: "mark_phase g1 = Some g1" using inv by (intro mark_phase_no_roots) (simp_all add: g1_def upd_stat_def)
  obtain xs where xs: "set xs = set rs" "dlinked (gc_objs g) (young_list g) xs" using inv(5) by blast
  show ?thesis
  proof (cases xs)
    case Nil
    then have "young_list g1 = None" "old_list g1 = None" "rs = []"
      using xs inv by (simp_all add: dlinked_def g1_def upd_stat_def)
    then show ?thesis using inv m
      by (simp add: collect_full_def g1_def [symmetric] sweep_phase_def sweep_loop.simps Let_def)
  next
    case (Cons a ys)
    then have a: "young_list g1 = Some a" "a \<in> set rs" using xs by (auto simp: dlinked_def g1_def upd_stat_def)
    obtain ob where "gc_objs g a = Some ob" "o_flags ob = MP_GC_FLAG_YOUNG" by (rule gc_inv_object [OF i a(2)])
    then have "gc_objs g1 a = Some ob" "\<not> has_flag MP_GC_FLAG_MARKED ob"
      by (simp_all add: has_flag_def gc_flag_defs g1_def upd_stat_def)
    then have "sweep_loop Young (young_list g1) None 0 0 g1 = None" unfolding a(1) by (rule sweep_unmarked)
    then show ?thesis using inv m a(2)
      by (auto simp: collect_full_def g1_def [symmetric] sweep_phase_def)
  qed
qed

section \<open>What is wrong with roots\<close>

text \<open>A marked object that is its own successor.\<close>

lemma mark_roots_self_aux:
  "mark_roots p g = Some g' \<Longrightarrow> \<not> (\<exists>ob. p = Some a \<and> gc_objs g a = Some ob \<and> o_next ob = Some a \<and> has_flag MP_GC_FLAG_MARKED ob)"
  by (erule mark_roots.raw_induct [rotated])
    (fastforce simp: mark_object_def split: option.splits Option.bind_splits if_splits)

lemma mark_roots_self:
  "gc_objs g a = Some ob \<Longrightarrow> o_next ob = Some a \<Longrightarrow> has_flag MP_GC_FLAG_MARKED ob \<Longrightarrow> mark_roots (Some a) g = None"
  using mark_roots_self_aux [of "Some a" g _ a] by (cases "mark_roots (Some a) g") auto

theorem gc_root_twice_endless:
  assumes a: "gc_objs g a = Some ob" "o_gc ob = gc_self g" and r: "root_list g = None"
    and e: "gc_enabled g" "\<not> gc_running g"
  shows "\<exists>g1 g2. mp_gc_add_root (Some g) (Some a) = Some (0, Some g1) \<and>
    mp_gc_add_root (Some g1) (Some a) = Some (0, Some g2) \<and> mp_gc_collect_full (Some g2) = None"
proof -
  define ob2 where "ob2 = (set_flag MP_GC_FLAG_ROOT ob)\<lparr>o_next := Some a, o_prev := None\<rparr>"
  define g2 where "g2 = g\<lparr>root_list := Some a, gc_objs := (gc_objs g)(a \<mapsto> ob2)\<rparr>"
  define g1 where "g1 = g\<lparr>root_list := Some a, gc_objs := (gc_objs g)(a \<mapsto> (set_flag MP_GC_FLAG_ROOT ob)\<lparr>o_next := None, o_prev := None\<rparr>)\<rparr>"
  have 1: "mp_gc_add_root (Some g) (Some a) = Some (0, Some g1)"
    using a r by (simp add: mp_gc_add_root_def on_object_def add_root_def upd_obj_def g1_def ob2_def set_flag_def)
  have 2: "mp_gc_add_root (Some g1) (Some a) = Some (0, Some g2)"
    using a by (simp add: mp_gc_add_root_def on_object_def add_root_def upd_obj_def g1_def g2_def ob2_def set_flag_def
        word_bw_assocs)
  have "mark_roots (Some a) h = None" if h: "gc_objs h a = Some ob2" for h
  proof (cases "mark_object (Some a) h")
    case (Some h1)
    have m: "\<exists>ob'. gc_objs h1 a = Some ob' \<and> o_next ob' = Some a \<and> has_flag MP_GC_FLAG_MARKED ob'"
      using Some h by (auto simp: mark_object_def upd_obj_def push_mark_def upd_stat_def ob2_def set_flag_def has_flag_def
          gc_flag_defs bit.conj_disj_distrib2 split: if_splits option.splits)
    then show ?thesis using Some mark_roots_self by (subst mark_roots.simps) auto
  qed (simp add: mark_roots.simps)
  then have "mark_phase (upd_stat f (g2\<lparr>gc_running := True\<rparr>)) = None" for f
    by (simp add: mark_phase_def g2_def upd_stat_def)
  then have "mp_gc_collect_full (Some g2) = None"
    using e by (simp add: mp_gc_collect_full_def on_gc_def collect_full_def) (simp add: g2_def)
  then show ?thesis using 1 2 by blast
qed

text \<open>A root that is the first young object leaves no other object on the young list.\<close>

theorem gc_root_drops_young:
  assumes i: "gc_inv malloc g rs" and y: "young_list g = Some a"
  shows "\<exists>g'. mp_gc_add_root (Some g) (Some a) = Some (0, Some g') \<and> num_objects g' = num_objects g \<and>
    map_option (map fst) (gc_walk (gc_objs g') (young_list g')) = Some [a]"
proof -
  obtain xs where "set xs = set rs" "dlinked (gc_objs g) (young_list g) xs" using gc_invD(5) [OF i] by blast
  then have a: "a \<in> set rs" using y by (cases xs) (auto simp: dlinked_def)
  obtain ob where "gc_objs g a = Some ob" "o_gc ob = gc_self g" by (rule gc_inv_object [OF i a])
  then show ?thesis using y gc_invD(10) [OF i]
    by (simp add: mp_gc_add_root_def on_object_def add_root_def upd_obj_def set_flag_def gc_walk.simps)
qed

section \<open>The properties\<close>

lemma gc_history_inv:
  assumes "mp_gc_init array_ok (Some g0) (Some cfg) = (0, Some g)" "gc_objs g0 = Map.empty" "good_gc_malloc malloc"
    and "unat (cfg_max_objects cfg) < 2 ^ 30" "length xs < 2 ^ 32"
  shows "\<exists>g' rs. ref_run (gc_create malloc) gc_retain gc_release xs (Some g, []) = Some (Some g', rs) \<and> gc_inv malloc g' rs"
proof -
  have "gc_store_inv malloc (Some g) []" using gc_init_inv [OF assms(1-4)] by (simp add: gc_store_inv_def)
  then show ?thesis using gc_refs.run_ok [of malloc "Some g" "[]" xs] assms(5) by (fastforce simp: gc_store_inv_def)
qed

text \<open>
  C19. Reference counting is right for a client that only counts.  From a collector that \<open>mp_gc_init\<close> has set up, with a
  \<open>malloc\<close> that finds a free address, every sequence of fewer than \<open>2 ^ 32\<close> allocations, increments and decrements by a
  client that uses only references it holds is defined.  After it the objects allocated are exactly those the client
  holds a reference to, each with the number of its references as its count, and \<open>mp_gc_validate\<close> says true; giving
  every reference back is defined too and frees every object.
\<close>

theorem gc_reference_counting:
  assumes "mp_gc_init array_ok (Some g0) (Some cfg) = (0, Some g)" "gc_objs g0 = Map.empty" "good_gc_malloc malloc"
    and "unat (cfg_max_objects cfg) < 2 ^ 30" "length xs < 2 ^ 32"
  shows "\<exists>g' rs g''. ref_run (gc_create malloc) gc_retain gc_release xs (Some g, []) = Some (Some g', rs) \<and>
    dom (gc_objs g') = set rs \<and>
    (\<forall>a \<in> set rs. mp_gc_get_refcount (Some g') (Some a) = Some (of_nat (count_list rs a))) \<and>
    mp_gc_validate (Some g') = Some True \<and>
    ref_run (gc_create malloc) gc_retain gc_release (map Release rs) (Some g', rs) = Some (Some g'', []) \<and>
    gc_objs g'' = Map.empty \<and> num_objects g'' = 0"
proof -
  obtain g' rs where 1: "ref_run (gc_create malloc) gc_retain gc_release xs (Some g, []) = Some (Some g', rs)"
      "gc_inv malloc g' rs" using gc_history_inv [OF assms] by blast
  have "gc_store_inv malloc (Some g') rs" using 1(2) by (simp add: gc_store_inv_def)
  then obtain g'' where 2: "ref_run (gc_create malloc) gc_retain gc_release (map Release rs) (Some g', rs) = Some (Some g'', [])"
      "gc_inv malloc g'' []" using gc_refs.drain [of malloc "Some g'" rs] by (auto simp: gc_store_inv_def)
  have "mp_gc_get_refcount (Some g') (Some a) = Some (of_nat (count_list rs a))" if a: "a \<in> set rs" for a
  proof -
    obtain ob where "gc_objs g' a = Some ob" "o_gc ob = gc_self g'" "o_ref_count ob = of_nat (count_list rs a)"
      by (rule gc_inv_object [OF 1(2) a])
    then show ?thesis by (simp add: mp_gc_get_refcount_def read_object_def on_object_def)
  qed
  then show ?thesis using 1 2 gc_invD(3) [OF 1(2)] gc_invD(3,6) [OF 2(2)] gc_inv_validates [OF 1(2)] by simp
qed

text \<open>An allocator for concrete histories: above every address in use.\<close>

definition top_malloc :: gc_malloc where
  "top_malloc m n = Some (Suc (Max (insert 0 (dom m))))"

lemma good_top_malloc: "good_gc_malloc top_malloc"
proof -
  have "m (Suc (Max (insert 0 (dom m)))) = None" if "finite (dom m)" for m :: "nat \<Rightarrow> gc_object option"
  proof (rule ccontr)
    assume "m (Suc (Max (insert 0 (dom m)))) \<noteq> None"
    then have "Suc (Max (insert 0 (dom m))) \<le> Max (insert 0 (dom m))" using that by (intro Max_ge) auto
    then show False by simp
  qed
  then show ?thesis by (simp add: good_gc_malloc_def top_malloc_def)
qed

definition blank_gc :: mp_gc where
  "blank_gc = \<lparr>gc_self = 7, gc_heap = None, gc_cfg = \<lparr>cfg_heap = None, cfg_initial_size = 0, cfg_max_objects = 0,
     cfg_use_ref_counting = True, cfg_use_mark_sweep = True, cfg_use_generational = False, cfg_young_gen_size = 0,
     cfg_threshold = 0, cfg_gc_interval = 0\<rparr>, gc_stat = zero_stats, gc_objects = None, num_objects = 0, max_objects = 0,
     root_list = None, young_list = None, old_list = None, object_map = None, object_map_size = 0,
     generation_counter = 0, last_gc_time = 0, gc_running = False, gc_enabled = False, mark_stack = None,
     mark_stack_size = 0, mark_stack_pos = 0, ref_count_mutex = None, gc_objs = Map.empty, gc_finalized = []\<rparr>"

definition sample_gc :: mp_gc where
  "sample_gc = the (snd (mp_gc_init (\<lambda>i n. True) (Some blank_gc) (Some ((gc_cfg blank_gc)\<lparr>cfg_max_objects := 10\<rparr>))))"

lemma sample_init:
  "mp_gc_init (\<lambda>i n. True) (Some blank_gc) (Some ((gc_cfg blank_gc)\<lparr>cfg_max_objects := 10\<rparr>)) = (0, Some sample_gc)"
  by (simp add: sample_gc_def mp_gc_init_def Let_def)

lemma sample_conditions:
  "gc_objs blank_gc = Map.empty" "unat (cfg_max_objects ((gc_cfg blank_gc)\<lparr>cfg_max_objects := 10\<rparr>)) < 2 ^ 30"
  by (simp_all add: blank_gc_def)

lemma gc_reference_counting_witness:
  "\<exists>g' rs g''. ref_run (gc_create top_malloc) gc_retain gc_release
      [Create (16, Some 3, None), Create (8, None, None), Retain 1, Release 2, Release 1] (Some sample_gc, []) =
      Some (Some g', rs) \<and> dom (gc_objs g') = set rs \<and>
    ref_run (gc_create top_malloc) gc_retain gc_release (map Release rs) (Some g', rs) = Some (Some g'', []) \<and>
    gc_objs g'' = Map.empty"
  using gc_reference_counting [OF sample_init sample_conditions(1) good_top_malloc sample_conditions(2),
      of "[Create (16, Some 3, None), Create (8, None, None), Retain 1, Release 2, Release 1]"] by auto

text \<open>
  After any such history, giving back a reference to an object is defined and frees it exactly when it was the last
  one: then the object is gone and its finalizer, if it has one, has been called once, with the object's data pointer;
  otherwise the count is one lower and no finalizer is called.  Every other object keeps its owner, its flags and its
  count.
\<close>

theorem gc_decref_last_reference:
  assumes "mp_gc_init array_ok (Some g0) (Some cfg) = (0, Some g)" "gc_objs g0 = Map.empty" "good_gc_malloc malloc"
    and "unat (cfg_max_objects cfg) < 2 ^ 30" "length xs < 2 ^ 32"
    and run: "ref_run (gc_create malloc) gc_retain gc_release xs (Some g, []) = Some (Some g', rs)" and a: "a \<in> set rs"
  shows "\<exists>ob g''. gc_objs g' a = Some ob \<and> mp_gc_decref (Some g') (Some a) = Some ((), Some g'') \<and>
    (if count_list rs a = 1
     then gc_objs g'' a = None \<and> gc_finalized g'' = gc_finalized g' @ finalizer_call a ob
     else mp_gc_get_refcount (Some g'') (Some a) = Some (o_ref_count ob - 1) \<and> gc_finalized g'' = gc_finalized g') \<and>
    (\<forall>b. b \<noteq> a \<longrightarrow> map_option core (gc_objs g'' b) = map_option core (gc_objs g' b))"
proof -
  have i: "gc_inv malloc g' rs" using gc_history_inv [OF assms(1-5)] run by auto
  obtain ob where ob: "gc_objs g' a = Some ob" "o_gc ob = gc_self g'" "o_flags ob = MP_GC_FLAG_YOUNG"
      "o_ref_count ob = of_nat (count_list rs a)" by (rule gc_inv_object [OF i a])
  obtain g'' where g'': "mp_gc_decref (Some g') (Some a) = Some ((), Some g'')" "gc_inv malloc g'' (remove1 a rs)"
      "gc_finalized g'' = gc_finalized g' @ (if count_list rs a = 1 then finalizer_call a ob else [])"
      and self: "gc_self g'' = gc_self g'" using decref_ok [OF i a ob(1)] by blast
  have "gc_objs g'' a = None" if "count_list rs a = 1"
    using gc_invD(3) [OF g''(2)] that by (auto simp: set_remove1_count)
  moreover have "mp_gc_get_refcount (Some g'') (Some a) = Some (o_ref_count ob - 1)" if n: "count_list rs a \<noteq> 1"
  proof -
    have "a \<in> set (remove1 a rs)" using a n by (simp add: set_remove1_count)
    then obtain ob1 where "gc_objs g'' a = Some ob1" "o_gc ob1 = gc_self g''"
        "o_ref_count ob1 = of_nat (count_list (remove1 a rs) a)" by (rule gc_inv_object [OF g''(2)])
    then show ?thesis using ob(4) count_in_set [OF a]
      by (simp add: mp_gc_get_refcount_def read_object_def on_object_def count_remove1 of_nat_diff)
  qed
  moreover have "map_option core (gc_objs g'' b) = map_option core (gc_objs g' b)" if b: "b \<noteq> a" for b
  proof (cases "b \<in> set rs")
    case True
    then have "b \<in> set (remove1 a rs)" using b by simp
    then show ?thesis using gc_invD(4) [OF i True] gc_invD(4) [OF g''(2), of b] self b by (auto simp: count_remove1)
  next
    case False
    then have "gc_objs g' b = None" "gc_objs g'' b = None"
      using gc_invD(3) [OF i] gc_invD(3) [OF g''(2)] by (auto simp: set_remove1_count domIff [symmetric] split: if_splits)
    then show ?thesis by simp
  qed
  ultimately show ?thesis using ob(1) g''(1,3) by (intro exI [of _ ob] exI [of _ g'']) simp
qed

lemma sample_run:
  "\<exists>g'. ref_run (gc_create top_malloc) gc_retain gc_release [Create (16, Some 3, None)] (Some sample_gc, []) =
    Some (Some g', [1])"
  by (simp add: gc_create_def sample_gc_def mp_gc_init_def blank_gc_def Let_def mp_gc_alloc_with_finalizer_def on_gc_def
      alloc_with_finalizer_def collect_zero top_malloc_def gc_new_object_def store_tracked_def upd_stat_def)

lemma gc_decref_last_reference_witness:
  "\<exists>g' ob g''. ref_run (gc_create top_malloc) gc_retain gc_release [Create (16, Some 3, None)] (Some sample_gc, []) =
      Some (Some g', [1]) \<and> gc_objs g' 1 = Some ob \<and> mp_gc_decref (Some g') (Some 1) = Some ((), Some g'') \<and>
    gc_objs g'' 1 = None \<and> gc_finalized g'' = gc_finalized g' @ finalizer_call 1 ob"
proof -
  obtain g' where r: "ref_run (gc_create top_malloc) gc_retain gc_release [Create (16, Some 3, None)] (Some sample_gc, []) =
      Some (Some g', [1])" using sample_run by blast
  show ?thesis
    using gc_decref_last_reference [OF sample_init sample_conditions(1) good_top_malloc sample_conditions(2) _ r, of 1] r by auto
qed

text \<open>
  The automatic collection collects nothing, in no state of any collector: \<open>mp_gc_collect\<close> sets \<open>gc_running\<close>
  before it calls the collection, which gives up when it finds the flag set, so an allocation beyond \<open>max_objects\<close> frees
  nothing and \<open>max_objects\<close> is no limit.  A full collection, and \<open>mp_gc_destroy\<close> with it, is defined after a history
  without roots only when no object is left: the sweep reads the size of the object it has just freed.
\<close>

theorem gc_collections:
  assumes "mp_gc_init array_ok (Some g0) (Some cfg) = (0, Some g)" "gc_objs g0 = Map.empty" "good_gc_malloc malloc"
    and "unat (cfg_max_objects cfg) < 2 ^ 30" "length xs < 2 ^ 32"
    and run: "ref_run (gc_create malloc) gc_retain gc_release xs (Some g, []) = Some (Some g', rs)"
  shows "mp_gc_collect gc = Some (0, gc) \<and> (mp_gc_collect_full (Some g') \<noteq> None \<longleftrightarrow> rs = []) \<and>
    (mp_gc_destroy (Some g') \<noteq> None \<longleftrightarrow> rs = [])"
proof (intro conjI)
  have i: "gc_inv malloc g' rs" using gc_history_inv [OF assms(1-5)] run by auto
  show "mp_gc_collect gc = Some (0, gc)" by (cases gc) (simp_all add: mp_gc_collect_def on_gc_def collect_zero)
  show "mp_gc_collect_full (Some g') \<noteq> None \<longleftrightarrow> rs = []" "mp_gc_destroy (Some g') \<noteq> None \<longleftrightarrow> rs = []"
    using collect_full_defined [OF i]
    by (auto simp: mp_gc_collect_full_def on_gc_def mp_gc_destroy_def split: Option.bind_splits)
qed

lemma gc_collections_witness:
  "\<exists>g'. ref_run (gc_create top_malloc) gc_retain gc_release [Create (16, Some 3, None)] (Some sample_gc, []) =
      Some (Some g', [1]) \<and> mp_gc_collect_full (Some g') = None \<and> mp_gc_collect (Some g') = Some (0, Some g')"
proof -
  obtain g' where r: "ref_run (gc_create top_malloc) gc_retain gc_release [Create (16, Some 3, None)] (Some sample_gc, []) =
      Some (Some g', [1])" using sample_run by blast
  show ?thesis
    using gc_collections [OF sample_init sample_conditions(1) good_top_malloc sample_conditions(2) _ r, of "Some g'"] r
    by (intro exI [of _ g']) (simp del: not_None_eq not_Some_eq ref_run.simps)
qed

end
