(* ===== verification/Codec.thy ===== *)
theory Codec
  imports Prelude
begin

text \<open>
  What the binary serialisers share: the writer and reader structs, byte access through
  \<open>buffer[position++]\<close>, the abstract view of a writer (the bytes written so far) and of a reader
  (the bytes that remain), and the interface of a pair of write and read operations.

  A buffer is the list of bytes of the object the buffer pointer points to, \<^term>\<open>None\<close> for \<open>NULL\<close>;
  an access outside it is undefined.  An output parameter is its pointee's value, \<^term>\<open>None\<close> for a
  \<open>NULL\<close> pointer.  A reallocation function maps the old buffer and a size to the new buffer.
\<close>

section \<open>Writers and readers\<close>

record mp_writer =
  wbuf :: "u8 list option"
  wpos :: size_t
  wcap :: size_t
  wowns :: bool
  wrealloc :: "(u8 list option \<Rightarrow> size_t \<Rightarrow> u8 list option) option"
  walloc_data :: "nat option"

record mp_reader =
  rbuf :: "u8 list option"
  rpos :: size_t
  rlen :: size_t
  rowns :: bool

text \<open>A memory view of a buffer, as the writers hand it out and the readers take it.\<close>

record buffer_view =
  bv_data :: "u8 list option"
  bv_length :: size_t
  bv_capacity :: size_t
  bv_offset :: size_t
  bv_owns_data :: bool

type_synonym wresult = "(int \<times> mp_writer option) option"
type_synonym 'v rresult = "(int \<times> mp_reader option \<times> 'v option) option"

definition put_byte :: "u8 \<Rightarrow> mp_writer \<Rightarrow> mp_writer option" where
  "put_byte x w =
     (case wbuf w of None \<Rightarrow> None
      | Some b \<Rightarrow>
          if unat (wpos w) < length b
          then Some (w\<lparr>wbuf := Some (b[unat (wpos w) := x]), wpos := wpos w + 1\<rparr>)
          else None)"

definition get_byte :: "mp_reader \<Rightarrow> (u8 \<times> mp_reader) option" where
  "get_byte r =
     (case rbuf r of None \<Rightarrow> None
      | Some b \<Rightarrow>
          if unat (rpos r) < length b
          then Some (b ! unat (rpos r), r\<lparr>rpos := rpos r + 1\<rparr>)
          else None)"

fun put_bytes :: "u8 list \<Rightarrow> mp_writer \<Rightarrow> mp_writer option" where
  "put_bytes [] w = Some w"
| "put_bytes (x # xs) w = do { w' \<leftarrow> put_byte x w; put_bytes xs w' }"

fun get_bytes :: "nat \<Rightarrow> mp_reader \<Rightarrow> (u8 list \<times> mp_reader) option" where
  "get_bytes 0 r = Some ([], r)"
| "get_bytes (Suc n) r = do { (x, r1) \<leftarrow> get_byte r; (xs, r2) \<leftarrow> get_bytes n r1; Some (x # xs, r2) }"

text \<open>\<open>memcpy(writer->buffer + writer->position, data, length); writer->position += length\<close>\<close>

definition put_block :: "u8 list option \<Rightarrow> size_t \<Rightarrow> mp_writer \<Rightarrow> mp_writer option" where
  "put_block data len w =
     do { b \<leftarrow> wbuf w;
          d \<leftarrow> (case data of None \<Rightarrow> if len = 0 then Some [] else None | Some d \<Rightarrow> mem_read d 0 (unat len));
          b' \<leftarrow> mem_write b (unat (wpos w)) d;
          Some (w\<lparr>wbuf := Some b', wpos := wpos w + len\<rparr>) }"

section \<open>Words and strings as bytes\<close>

definition fixed16_bytes :: "u16 \<Rightarrow> u8 list" where
  "fixed16_bytes v = [ucast (v AND 0xFF), ucast (drop_bit 8 v AND 0xFF)]"

definition fixed32_bytes :: "u32 \<Rightarrow> u8 list" where
  "fixed32_bytes v = [ucast (v AND 0xFF), ucast (drop_bit 8 v AND 0xFF), ucast (drop_bit 16 v AND 0xFF),
     ucast (drop_bit 24 v AND 0xFF)]"

definition fixed64_bytes :: "u64 \<Rightarrow> u8 list" where
  "fixed64_bytes v = [ucast (v AND 0xFF), ucast (drop_bit 8 v AND 0xFF), ucast (drop_bit 16 v AND 0xFF),
     ucast (drop_bit 24 v AND 0xFF), ucast (drop_bit 32 v AND 0xFF), ucast (drop_bit 40 v AND 0xFF),
     ucast (drop_bit 48 v AND 0xFF), ucast (drop_bit 56 v AND 0xFF)]"

text \<open>\<open>result |= (uint32_t)byte << shift\<close> for the bytes in order, from shift 0 in steps of 8.\<close>

fun or_bytes :: "nat \<Rightarrow> u8 list \<Rightarrow> 'a::len word" where
  "or_bytes shift [] = 0"
| "or_bytes shift (b # bs) = push_bit shift (ucast b) OR or_bytes (shift + 8) bs"

definition c_strlen :: "u8 list \<Rightarrow> nat option" where
  "c_strlen s = find (\<lambda>i. s ! i = 0) [0..<length s]"

text \<open>Putting the bytes of a word together again, eight bits at a time.\<close>

lemma or_byte:
  fixes v :: "'a::len word"
  assumes "8 \<le> LENGTH('a)"
  shows "push_bit s (ucast (ucast (drop_bit s v AND 0xFF) :: u8)) OR push_bit (s + 8) (drop_bit (s + 8) v) =
    push_bit s (drop_bit s v)"
proof (rule bit_word_eqI)
  fix n
  have m: "(0xFF :: 'a word) = mask 8" by (simp add: mask_eq_exp_minus_1)
  assume n: "n < LENGTH('a)"
  consider "n < s" | "s \<le> n" "n < s + 8" | "s + 8 \<le> n" by linarith
  then show "bit (push_bit s (ucast (ucast (drop_bit s v AND 0xFF) :: u8)) OR push_bit (s + 8) (drop_bit (s + 8) v)) n =
      bit (push_bit s (drop_bit s v)) n"
    unfolding m using n assms by cases (auto simp: bit_simps)
qed

lemma or_fixed32: "or_bytes 0 (fixed32_bytes v) = v"
  using or_byte [of 0 v] or_byte [of 8 v] or_byte [of 16 v] or_byte [of 24 v]
  by (simp add: fixed32_bytes_def drop_bit_word_beyond)

lemma or_fixed64: "or_bytes 0 (fixed64_bytes v) = v"
  using or_byte [of 0 v] or_byte [of 8 v] or_byte [of 16 v] or_byte [of 24 v] or_byte [of 32 v]
    or_byte [of 40 v] or_byte [of 48 v] or_byte [of 56 v]
  by (simp add: fixed64_bytes_def drop_bit_word_beyond)

section \<open>Varints\<close>

lemma drop7_decreases:
  fixes v :: "'a::len word"
  assumes "v \<ge> 0x80" and "8 \<le> LENGTH('a)"
  shows "unat (drop_bit 7 v) < unat v"
proof -
  have "(128 :: nat) < 2 ^ LENGTH('a)"
    using power_increasing [OF assms(2), of "2 :: nat"] by simp
  then have "unat (0x80 :: 'a word) = 128" by (simp add: unsigned_numeral take_bit_nat_eq_self)
  then have "128 \<le> unat v" using assms(1) by (simp add: word_le_nat_alt)
  moreover have "unat (drop_bit 7 v) = unat v div 128"
    by (simp only: unat_drop_bit_eq) (simp add: drop_bit_eq_div)
  ultimately show ?thesis by simp
qed

function varint_bytes :: "u64 \<Rightarrow> u8 list" where
  "varint_bytes v = (if v \<ge> 0x80 then ucast (v OR 0x80) # varint_bytes (drop_bit 7 v) else [ucast v])"
  by pat_completeness auto

termination varint_bytes
  by (relation "measure unat") (auto intro: drop7_decreases)

declare varint_bytes.simps [simp del]

lemma unat_ucast_u64 [simp]: "unat (ucast (x :: u32) :: u64) = unat x"
  using unat_bound [of x] by (simp add: unsigned_ucast_eq take_bit_nat_eq_self)

lemma ucast_up_down [simp]: "ucast (ucast (v :: u32) :: u64) = v"
  by (rule bit_word_eqI) (auto simp: bit_simps)

lemma unat_drop7: "unat (drop_bit 7 v) = unat v div 128"
  by (simp only: unat_drop_bit_eq) (simp add: drop_bit_eq_div)

lemma word64_ge80: "(v :: u64) \<ge> 0x80 \<longleftrightarrow> 128 \<le> unat v"
  by (simp add: word_le_nat_alt)

text \<open>The length of the encoding: one byte for each started group of seven bits.\<close>

lemma varint_bytes_length: "unat v < 128 ^ Suc n \<Longrightarrow> length (varint_bytes v) \<le> Suc n"
proof (induction n arbitrary: v)
  case 0
  then show ?case by (subst varint_bytes.simps) (simp add: word64_ge80)
next
  case (Suc n)
  have "unat (drop_bit 7 v) < 128 ^ Suc n" using Suc.prems by (simp add: unat_drop7 less_mult_imp_div_less)
  then show ?case using Suc.IH by (subst varint_bytes.simps) simp
qed

lemma varint_bytes_le_10: "length (varint_bytes v) \<le> 10"
  using varint_bytes_length [of v 9] unat_bound [of v] by simp

lemma varint_bytes_nonempty [simp]: "varint_bytes v \<noteq> []"
  by (subst varint_bytes.simps) simp

lemma varint_bytes_pos: "0 < length (varint_bytes v)"
  by simp

lemma low_bits_clear: "unat (v :: u64) < 2 ^ k \<Longrightarrow> k \<le> n \<Longrightarrow> \<not> bit v n"
proof -
  assume v: "unat v < 2 ^ k" and "k \<le> n"
  then have "unat v < 2 ^ n" by (meson less_le_trans one_le_numeral power_increasing)
  then have "\<not> bit (unat v) n" by (simp add: bit_iff_odd)
  then show ?thesis by (simp add: bit_unsigned_iff)
qed

lemma bit_80: "bit (0x80 :: 'a::len word) n \<longleftrightarrow> n = 7 \<and> n < LENGTH('a)" "bit (0x80 :: int) n \<longleftrightarrow> n = 7"
proof -
  have e: "(0x80 :: 'a word) = 2 ^ 7" "(0x80 :: int) = 2 ^ 7" by simp_all
  show "bit (0x80 :: 'a word) n \<longleftrightarrow> n = 7 \<and> n < LENGTH('a)"
    unfolding e by (simp only: bit_exp_iff possible_bit_word) auto
  show "bit (0x80 :: int) n \<longleftrightarrow> n = 7"
    unfolding e by (simp only: bit_exp_iff) auto
qed

lemma varint_low_byte:
  fixes v :: "'a::len word"
  assumes "8 \<le> LENGTH('a)"
  shows "(ucast ((ucast (v OR 0x80) :: u8) AND 0x7F) :: 'a word) OR push_bit 7 (drop_bit 7 v) = v"
    and "(ucast (v OR 0x80) :: u8) AND 0x80 \<noteq> 0"
proof -
  have m: "(0x7F :: u8) = mask 7" by (simp add: mask_eq_exp_minus_1)
  show "(ucast ((ucast (v OR 0x80) :: u8) AND 0x7F) :: 'a word) OR push_bit 7 (drop_bit 7 v) = v"
    unfolding m
  proof (rule bit_word_eqI)
    fix n
    show "bit ((ucast ((ucast (v OR 0x80) :: u8) AND mask 7) :: 'a word) OR push_bit 7 (drop_bit 7 v)) n = bit v n"
      if "n < LENGTH('a)"
      using that assms by (cases "n < 7") (auto simp: bit_simps bit_80)
  qed
  have "bit ((ucast (v OR 0x80) :: u8) AND 0x80) 7"
    using assms by (simp add: bit_simps bit_80)
  then show "(ucast (v OR 0x80) :: u8) AND 0x80 \<noteq> 0" by auto
qed

lemma varint_last_byte:
  assumes "\<not> (v :: u64) \<ge> 0x80"
  shows "(ucast ((ucast v :: u8) AND 0x7F) :: u64) = v" and "(ucast v :: u8) AND 0x80 = 0"
proof -
  have v: "unat v < 2 ^ 7" using assms by (simp add: word64_ge80)
  have m: "(0x7F :: u8) = mask 7" by (simp add: mask_eq_exp_minus_1)
  have c: "bit v n \<Longrightarrow> n < 7" for n using low_bits_clear [OF v, of n] by (meson not_le)
  show "(ucast ((ucast v :: u8) AND 0x7F) :: u64) = v"
    unfolding m by (rule bit_word_eqI) (auto simp: bit_simps dest: c)
  show "(ucast v :: u8) AND 0x80 = 0"
    by (rule bit_word_eqI) (auto simp: bit_simps bit_80 dest: c)
qed

section \<open>Capacity\<close>

partial_function (option) grow_loop :: "size_t \<Rightarrow> size_t \<Rightarrow> size_t option" where
  "grow_loop wanted new_capacity =
     (if wanted > new_capacity then grow_loop wanted (new_capacity * 2) else Some new_capacity)"

text \<open>\<open>ensure_capacity\<close> (the same code in both serialisers), for a writer that is not \<open>NULL\<close>.\<close>

definition ensure_capacity :: "mp_writer \<Rightarrow> size_t \<Rightarrow> mp_writer option" where
  "ensure_capacity w needed =
     (if wpos w + needed \<le> wcap w then Some w
      else do {
        new_capacity \<leftarrow> grow_loop (wpos w + needed) (if wcap w = 0 then 256 else wcap w * 2);
        case wrealloc w of None \<Rightarrow> Some w
        | Some f \<Rightarrow>
            (case f (wbuf w) new_capacity of None \<Rightarrow> Some w
             | Some b \<Rightarrow> Some (w\<lparr>wbuf := Some b, wcap := new_capacity, wowns := True\<rparr>)) })"

section \<open>The bytes written\<close>

definition contents :: "mp_writer \<Rightarrow> u8 list" where
  "contents w = (case wbuf w of None \<Rightarrow> [] | Some b \<Rightarrow> b)"

definition writer_ok :: "mp_writer \<Rightarrow> bool" where
  "writer_ok w \<longleftrightarrow> length (contents w) = unat (wcap w) \<and> wpos w \<le> wcap w"

definition written :: "mp_writer \<Rightarrow> u8 list" where
  "written w = take (unat (wpos w)) (contents w)"

text \<open>The documented behaviour of \<open>realloc\<close> when memory is available.\<close>

definition good_realloc :: "(u8 list option \<Rightarrow> size_t \<Rightarrow> u8 list option) \<Rightarrow> bool" where
  "good_realloc f \<longleftrightarrow> (\<forall>ob n. n \<noteq> 0 \<longrightarrow> (\<exists>b. f ob n = Some b \<and> length b = unat n \<and>
     (\<forall>c. ob = Some c \<longrightarrow> length c \<le> unat n \<longrightarrow> take (length c) b = c)))"

text \<open>\<open>accepts w n\<close>: another \<open>n\<close> bytes fit the buffer or the buffer can be grown.\<close>

definition accepts :: "mp_writer \<Rightarrow> nat \<Rightarrow> bool" where
  "accepts w n \<longleftrightarrow> writer_ok w \<and> (\<forall>f. wrealloc w = Some f \<longrightarrow> good_realloc f) \<and>
     unat (wpos w) + n + 16 \<le> 2 ^ 31 \<and> (unat (wpos w) + n \<le> unat (wcap w) \<or> wrealloc w \<noteq> None)"

definition appends :: "mp_writer \<Rightarrow> u8 list \<Rightarrow> mp_writer \<Rightarrow> bool" where
  "appends w bs w' \<longleftrightarrow> writer_ok w' \<and> written w' = written w @ bs \<and> wrealloc w' = wrealloc w \<and>
     unat (wpos w') = unat (wpos w) + length bs \<and> unat (wcap w) \<le> unat (wcap w')"

lemma appends_refl: "writer_ok w \<Longrightarrow> appends w [] w"
  by (simp add: appends_def)

lemma appends_trans: "appends w as w1 \<Longrightarrow> appends w1 bs w2 \<Longrightarrow> appends w (as @ bs) w2"
  by (auto simp: appends_def)

lemma accepts_after: "accepts w (length bs + n) \<Longrightarrow> appends w bs w' \<Longrightarrow> accepts w' n"
  by (auto simp: accepts_def appends_def)

lemma accepts_mono: "accepts w n \<Longrightarrow> k \<le> n \<Longrightarrow> accepts w k"
  by (auto simp: accepts_def)

lemma put_byte_appends:
  assumes "writer_ok w" and "unat (wpos w) < unat (wcap w)"
  shows "\<exists>w'. put_byte x w = Some w' \<and> appends w [x] w' \<and> wcap w' = wcap w"
proof -
  obtain b where b: "wbuf w = Some b" "length b = unat (wcap w)"
    using assms by (cases "wbuf w") (auto simp: writer_ok_def contents_def)
  have p: "unat (wpos w + 1) = Suc (unat (wpos w))"
    using assms(2) by (intro unat_Suc_less) (simp add: word_less_nat_alt)
  have "take (Suc (unat (wpos w))) (b[unat (wpos w) := x]) = take (unat (wpos w)) b @ [x]"
    using assms(2) b(2) by (simp add: take_Suc_conv_app_nth)
  then show ?thesis
    using b p assms by (auto simp: put_byte_def appends_def writer_ok_def written_def contents_def word_le_nat_alt)
qed

lemma put_bytes_appends:
  assumes "writer_ok w" and "unat (wpos w) + length xs \<le> unat (wcap w)"
  shows "\<exists>w'. put_bytes xs w = Some w' \<and> appends w xs w' \<and> wcap w' = wcap w"
  using assms
proof (induction xs arbitrary: w)
  case Nil
  then show ?case by (simp add: appends_refl)
next
  case (Cons x xs)
  then obtain w1 where w1: "put_byte x w = Some w1" "appends w [x] w1" "wcap w1 = wcap w"
    using put_byte_appends [of w x] by auto
  then obtain w2 where "put_bytes xs w1 = Some w2" "appends w1 xs w2" "wcap w2 = wcap w1"
    using Cons.IH [of w1] Cons.prems by (auto simp: appends_def)
  then show ?case using w1 appends_trans [OF w1(2)] by auto
qed

lemma put_bytes_append: "put_bytes (xs @ ys) w = do { w' \<leftarrow> put_bytes xs w; put_bytes ys w' }"
  by (induction xs arbitrary: w) (simp_all cong: Option.bind_cong)

lemma put_bytes_single: "put_bytes [x] w = put_byte x w"
  by (cases "put_byte x w") simp_all

lemma put_block_appends:
  assumes "writer_ok w" and "unat (wpos w) + unat len \<le> unat (wcap w)" and "wbuf w \<noteq> None"
    and "mem_read d 0 (unat len) = Some bs"
  shows "\<exists>w'. put_block (Some d) len w = Some w' \<and> appends w bs w' \<and> wcap w' = wcap w"
proof -
  obtain b where b: "wbuf w = Some b" "length b = unat (wcap w)"
    using assms(1,3) by (auto simp: writer_ok_def contents_def)
  have l: "length bs = unat len" using assms(4) by (auto simp: mem_read_def split: if_splits)
  let ?b = "take (unat (wpos w)) b @ bs @ drop (unat (wpos w) + unat len) b"
  have p: "unat (wpos w + len) = unat (wpos w) + unat len"
    using assms(2) unat_less_2p32 [of "wcap w"] by (intro unat_add_no_overflow) simp
  have "put_block (Some d) len w = Some (w\<lparr>wbuf := Some ?b, wpos := wpos w + len\<rparr>)"
    using b assms(2,4) l by (simp add: put_block_def mem_write_def)
  moreover have "take (unat (wpos w) + unat len) ?b = take (unat (wpos w)) b @ bs"
    using assms(2) b l by simp
  ultimately show ?thesis
    using assms(2) b l p
    by (auto simp: appends_def writer_ok_def written_def contents_def word_le_nat_alt)
qed

lemma grow_loop_reaches:
  assumes "new_capacity \<noteq> 0" and "unat wanted \<le> 2 ^ 31"
  shows "\<exists>c. grow_loop wanted new_capacity = Some c \<and> wanted \<le> c \<and> new_capacity \<le> c"
  using assms(1)
proof (induction "unat wanted - unat new_capacity" arbitrary: new_capacity rule: less_induct)
  case less
  show ?case
  proof (cases "wanted > new_capacity")
    case False
    then show ?thesis by (subst grow_loop.simps) simp
  next
    case True
    then have lt: "unat new_capacity < unat wanted" by (simp add: word_less_nat_alt)
    then have d: "unat (new_capacity * 2) = unat new_capacity * 2"
      using assms(2) by (intro unat_mult_no_overflow [of new_capacity 2, simplified]) simp
    have pos: "0 < unat new_capacity" using less.prems by (simp add: unat_gt_0)
    then have "unat wanted - unat (new_capacity * 2) < unat wanted - unat new_capacity" using d lt by simp
    moreover have "new_capacity * 2 \<noteq> 0" using d pos by (metis mult_is_0 neq0_conv unat_0 zero_neq_numeral)
    ultimately obtain c where "grow_loop wanted (new_capacity * 2) = Some c" "wanted \<le> c" "new_capacity * 2 \<le> c"
      using less.hyps by blast
    then show ?thesis using True d by (subst grow_loop.simps) (auto simp: word_le_nat_alt)
  qed
qed

lemma ensure_capacity_room:
  assumes a: "accepts w k" and n: "k \<le> unat needed" "unat needed \<le> k + 16"
  shows "\<exists>w'. ensure_capacity w needed = Some w' \<and> appends w [] w' \<and> wpos w' = wpos w \<and>
    unat (wpos w') + k \<le> unat (wcap w') \<and> (wbuf w \<noteq> None \<longrightarrow> wbuf w' \<noteq> None)"
proof -
  have ok: "writer_ok w" and fr: "\<forall>f. wrealloc w = Some f \<longrightarrow> good_realloc f"
    and sm: "unat (wpos w) + k + 16 \<le> 2 ^ 31" and rm: "unat (wpos w) + k \<le> unat (wcap w) \<or> wrealloc w \<noteq> None"
    using a by (simp_all add: accepts_def)
  have s: "unat (wpos w + needed) = unat (wpos w) + unat needed"
    using sm n by (intro unat_add_no_overflow) simp
  show ?thesis
  proof (cases "wpos w + needed \<le> wcap w")
    case True
    then have "unat (wpos w) + k \<le> unat (wcap w)" using s n by (simp add: word_le_nat_alt)
    then show ?thesis using True ok by (simp add: ensure_capacity_def appends_refl)
  next
    case False
    then have lt: "unat (wcap w) < unat (wpos w) + unat needed" using s by (simp add: word_le_nat_alt)
    let ?c0 = "if wcap w = 0 then 256 else wcap w * 2"
    have c2: "unat (wcap w * 2) = unat (wcap w) * 2"
      using lt sm n by (intro unat_mult_no_overflow [of "wcap w" 2, simplified]) simp
    have c0: "?c0 \<noteq> 0" "wcap w \<le> ?c0"
    proof -
      have "wcap w * 2 \<noteq> 0" if "wcap w \<noteq> 0"
        using c2 that by (metis mult_is_0 unat_0 unsigned_eq_0_iff zero_neq_numeral)
      then show "?c0 \<noteq> 0" by simp
      show "wcap w \<le> ?c0" using c2 by (simp add: word_le_nat_alt)
    qed
    obtain c where c: "grow_loop (wpos w + needed) ?c0 = Some c" "wpos w + needed \<le> c" "?c0 \<le> c"
      using grow_loop_reaches [OF c0(1), of "wpos w + needed"] s sm n by auto
    show ?thesis
    proof (cases "wrealloc w")
      case None
      then have "ensure_capacity w needed = Some w" using False c(1) by (simp add: ensure_capacity_def)
      then show ?thesis using None rm ok by (simp add: appends_refl)
    next
      case (Some f)
      have "0 < unat ?c0" using c0(1) unat_gt_0 [of ?c0] by (rule iffD2 [rotated])
      then have "0 < unat c" using c(3) unfolding word_le_nat_alt by linarith
      then have "c \<noteq> 0" by auto
      then obtain b where b: "f (wbuf w) c = Some b" "length b = unat c"
        "\<forall>d. wbuf w = Some d \<longrightarrow> length d \<le> unat c \<longrightarrow> take (length d) b = d"
        using fr Some unfolding good_realloc_def by blast
      let ?w = "w\<lparr>wbuf := Some b, wcap := c, wowns := True\<rparr>"
      have le: "unat (wcap w) \<le> unat c" using c0(2) c(3) by (simp add: word_le_nat_alt)
      have "written ?w = written w"
      proof (cases "wbuf w")
        case None
        then have "wcap w = 0" using ok by (simp add: writer_ok_def contents_def unsigned_eq_0_iff)
        then have "wpos w = 0" using ok by (simp add: writer_ok_def)
        then show ?thesis by (simp add: written_def)
      next
        case (Some d)
        then have d: "length d = unat (wcap w)" "unat (wpos w) \<le> length d"
          using ok by (simp_all add: writer_ok_def contents_def word_le_nat_alt)
        then have "take (length d) b = d" using b(3) Some le by simp
        then have "take (unat (wpos w)) b = take (unat (wpos w)) d"
          using d(2) by (metis min.absorb1 take_take)
        then show ?thesis using Some by (simp add: written_def contents_def)
      qed
      moreover have "writer_ok ?w"
        using b(2) le ok by (simp add: writer_ok_def contents_def word_le_nat_alt)
      ultimately have "appends w [] ?w" using le by (simp add: appends_def)
      moreover have "ensure_capacity w needed = Some ?w" using False c(1) Some b(1) by (simp add: ensure_capacity_def)
      moreover have "unat (wpos w) + k \<le> unat c" using c(2) s n by (simp add: word_le_nat_alt)
      ultimately show ?thesis by simp
    qed
  qed
qed

lemma appends_wbuf: "appends w bs w' \<Longrightarrow> bs \<noteq> [] \<Longrightarrow> wbuf w' \<noteq> None"
  by (auto simp: appends_def written_def contents_def split: option.splits)

text \<open>Reserving room and then writing bytes.\<close>

lemma reserve_put_bytes:
  assumes "accepts w (length bs)" and "length bs \<le> unat needed" and "unat needed \<le> length bs + 16"
  shows "\<exists>w1 w2. ensure_capacity w needed = Some w1 \<and> put_bytes bs w1 = Some w2 \<and> appends w bs w2"
proof -
  obtain w1 where w1: "ensure_capacity w needed = Some w1" "appends w [] w1" "wpos w1 = wpos w"
    "unat (wpos w1) + length bs \<le> unat (wcap w1)"
    using ensure_capacity_room [OF assms] by blast
  then obtain w2 where "put_bytes bs w1 = Some w2" "appends w1 bs w2"
    using put_bytes_appends [of w1 bs] by (auto simp: appends_def)
  then show ?thesis using w1 appends_trans [OF w1(2)] by auto
qed

definition fresh_writer :: "size_t \<Rightarrow> mp_writer" where
  "fresh_writer n = \<lparr>wbuf = Some (replicate (unat n) 0), wpos = 0, wcap = n, wowns = False, wrealloc = None,
     walloc_data = None\<rparr>"

lemma fresh_writer_accepts: "k \<le> unat n \<Longrightarrow> k + 16 \<le> 2 ^ 31 \<Longrightarrow> accepts (fresh_writer n) k"
  by (simp add: accepts_def fresh_writer_def writer_ok_def contents_def)

text \<open>The documented behaviour of \<open>malloc\<close> when memory is available.\<close>

definition good_malloc :: "(size_t \<Rightarrow> u8 list option) \<Rightarrow> bool" where
  "good_malloc malloc \<longleftrightarrow> (\<forall>n. \<exists>b. malloc n = Some b \<and> length b = unat n)"

lemma good_malloc_zeros: "good_malloc (\<lambda>n. Some (replicate (unat n) 0))"
  by (simp add: good_malloc_def)

lemma unat_length: "length bs < 2 ^ 32 \<Longrightarrow> unat (of_nat (length bs) :: size_t) = length bs"
  by (simp add: unsigned_of_nat take_bit_nat_eq_self)

section \<open>The bytes that remain\<close>

definition remaining :: "mp_reader \<Rightarrow> u8 list \<Rightarrow> bool" where
  "remaining r bs \<longleftrightarrow> (\<exists>b. rbuf r = Some b \<and> unat (rlen r) \<le> length b \<and> rpos r \<le> rlen r \<and>
     bs = drop (unat (rpos r)) (take (unat (rlen r)) b))"

lemma remaining_length: "remaining r bs \<Longrightarrow> length bs = unat (rlen r) - unat (rpos r)"
  by (auto simp: remaining_def)

lemma remaining_Nil: "remaining r [] \<Longrightarrow> rpos r \<ge> rlen r"
  by (auto simp: remaining_def word_le_nat_alt)

lemma remaining_pos: "remaining r bs \<Longrightarrow> bs \<noteq> [] \<Longrightarrow> \<not> rpos r \<ge> rlen r"
  by (auto simp: remaining_def word_le_nat_alt)

definition advance :: "nat \<Rightarrow> mp_reader \<Rightarrow> mp_reader" where
  "advance n r = r\<lparr>rpos := rpos r + of_nat n\<rparr>"

lemma advance_0 [simp]: "advance 0 r = r"
  by (simp add: advance_def)

lemma advance_advance [simp]: "advance k (advance n r) = advance (n + k) r"
  by (simp add: advance_def add.assoc)

lemma remaining_advance:
  assumes "remaining r (xs @ bs)"
  shows "remaining (advance (length xs) r) bs" and "unat (rpos (advance (length xs) r)) = unat (rpos r) + length xs"
proof -
  have l: "unat (rpos r) + length xs + length bs = unat (rlen r)"
    using remaining_length [OF assms] assms by (auto simp: remaining_def word_le_nat_alt)
  show u: "unat (rpos (advance (length xs) r)) = unat (rpos r) + length xs"
    using l unat_less_2p32 [of "rlen r"]
    by (simp add: advance_def unat_word_ariths unsigned_of_nat take_bit_eq_mod)
  obtain b where b: "rbuf r = Some b" "unat (rlen r) \<le> length b"
    "xs @ bs = drop (unat (rpos r)) (take (unat (rlen r)) b)"
    using assms by (auto simp: remaining_def)
  have "drop (length xs) (drop (unat (rpos r)) (take (unat (rlen r)) b)) = bs"
    unfolding b(3) [symmetric] by simp
  then show "remaining (advance (length xs) r) bs"
    using b u l by (simp add: remaining_def word_le_nat_alt) (simp add: advance_def add.commute)
qed

lemma remaining_room: "remaining r (bs @ rest) \<Longrightarrow> length bs = unat n \<Longrightarrow> \<not> rpos r + n > rlen r"
proof -
  assume r: "remaining r (bs @ rest)" and n: "length bs = unat n"
  have "unat (rpos r) + unat n \<le> unat (rlen r)"
    using remaining_length [OF r] r n by (auto simp: remaining_def word_le_nat_alt)
  moreover from this have "unat (rpos r + n) = unat (rpos r) + unat n"
    using unat_less_2p32 [of "rlen r"] by (intro unat_add_no_overflow) simp
  ultimately show ?thesis by (simp add: word_less_nat_alt)
qed

lemma get_byte_remaining:
  assumes "remaining r (x # bs)"
  shows "get_byte r = Some (x, advance 1 r)"
proof -
  obtain b where b: "rbuf r = Some b" "unat (rlen r) \<le> length b"
    "x # bs = drop (unat (rpos r)) (take (unat (rlen r)) b)"
    using assms by (auto simp: remaining_def)
  have lt: "unat (rpos r) < unat (rlen r)"
  proof (rule ccontr)
    assume "\<not> unat (rpos r) < unat (rlen r)"
    then have "drop (unat (rpos r)) (take (unat (rlen r)) b) = []" by simp
    then show False using b(3) by simp
  qed
  then have "x = take (unat (rlen r)) b ! unat (rpos r)"
    using b(2,3) by (metis length_take min.absorb2 nth_via_drop)
  then have "x = b ! unat (rpos r)" using lt by simp
  then show ?thesis using b lt by (simp add: get_byte_def advance_def)
qed

lemma get_bytes_remaining: "remaining r (xs @ bs) \<Longrightarrow> get_bytes (length xs) r = Some (xs, advance (length xs) r)"
proof (induction xs arbitrary: r)
  case (Cons x xs)
  then have "get_byte r = Some (x, advance 1 r)" by (intro get_byte_remaining) simp
  moreover have "remaining (advance 1 r) (xs @ bs)"
    using remaining_advance(1) [of r "[x]" "xs @ bs"] Cons.prems by simp
  ultimately show ?case using Cons.IH by simp
qed simp

lemma remaining_drop:
  assumes "remaining r bs" and "n \<le> length bs"
  shows "remaining (advance n r) (drop n bs)"
  using remaining_advance(1) [of r "take n bs" "drop n bs"] assms by (simp add: min_absorb2)

lemma remaining_slice:
  assumes "remaining r (xs @ ys)"
  shows "\<exists>b. rbuf r = Some b \<and> mem_read b (unat (rpos r)) (length xs) = Some xs"
proof -
  obtain b where b: "rbuf r = Some b" "unat (rlen r) \<le> length b"
    "xs @ ys = drop (unat (rpos r)) (take (unat (rlen r)) b)"
    using assms by (auto simp: remaining_def)
  have l: "unat (rpos r) + length xs + length ys = unat (rlen r)"
    using remaining_length [OF assms] assms by (auto simp: remaining_def word_le_nat_alt)
  have "take (length xs) (drop (unat (rpos r)) (take (unat (rlen r)) b)) = xs" unfolding b(3) [symmetric] by simp
  then have "take (length xs) (drop (unat (rpos r)) b) = xs" using l by (simp add: take_drop min_def)
  then show ?thesis using b l by (simp add: mem_read_def)
qed

section \<open>Write and read operations as codecs\<close>

text \<open>\<open>v\<close> survives a write by \<open>wr\<close>, which appends at most \<open>n\<close> bytes, and a read by \<open>rd\<close>.\<close>

definition roundtrips ::
  "nat \<Rightarrow> (mp_writer option \<Rightarrow> 'v \<Rightarrow> wresult) \<Rightarrow> (mp_reader option \<Rightarrow> 'v option \<Rightarrow> 'v rresult) \<Rightarrow> 'v \<Rightarrow> bool" where
  "roundtrips n wr rd v \<longleftrightarrow> (\<forall>w x. accepts w n \<longrightarrow> (\<exists>w' bs. wr (Some w) v = Some (0, Some w') \<and>
     written w' = written w @ bs \<and> length bs \<le> n \<and>
     (\<forall>r rest. remaining r (bs @ rest) \<longrightarrow>
        (\<exists>r'. rd (Some r) (Some x) = Some (0, Some r', Some v) \<and> remaining r' rest))))"

text \<open>
  The contract of a pair of operations on values: \<open>wr\<close> appends the encoding of a valid value
  whenever the writer accepts that many bytes, and \<open>rd\<close>, on a reader whose remaining bytes start
  with the encoding of a valid value, succeeds with that value and moves behind the encoding.
\<close>

locale wire_codec =
  fixes valid :: "'v \<Rightarrow> bool"
    and enc :: "'v \<Rightarrow> u8 list"
    and wr :: "mp_writer option \<Rightarrow> 'v \<Rightarrow> (int \<times> mp_writer option) option"
    and rd :: "mp_reader option \<Rightarrow> 'v option \<Rightarrow> (int \<times> mp_reader option \<times> 'v option) option"
  assumes write_law: "valid v \<Longrightarrow> accepts w (length (enc v)) \<Longrightarrow>
      \<exists>w'. wr (Some w) v = Some (0, Some w') \<and> appends w (enc v) w'"
    and read_law: "valid v \<Longrightarrow> remaining r (enc v @ rest) \<Longrightarrow>
      rd (Some r) (Some x) = Some (0, Some (advance (length (enc v)) r), Some v)"
begin

text \<open>What is written is read back.\<close>

lemma roundtrip:
  assumes "valid v" and "accepts w (length (enc v))"
  shows "\<exists>w'. wr (Some w) v = Some (0, Some w') \<and>
    (\<forall>r rest x. remaining r (drop (length (written w)) (written w') @ rest) \<longrightarrow>
       (\<exists>r'. rd (Some r) (Some x) = Some (0, Some r', Some v) \<and> remaining r' rest))"
proof -
  obtain w' where w': "wr (Some w) v = Some (0, Some w')" "appends w (enc v) w'"
    using write_law [OF assms] by blast
  then have "drop (length (written w)) (written w') = enc v" by (simp add: appends_def)
  then show ?thesis using w'(1) read_law [OF assms(1)] remaining_advance(1) by metis
qed

lemma roundtrips_enc: "valid v \<Longrightarrow> length (enc v) \<le> n \<Longrightarrow> roundtrips n wr rd v"
  unfolding roundtrips_def
proof (intro allI impI)
  fix w x assume v: "valid v" "length (enc v) \<le> n" and a: "accepts w n"
  obtain w' where "wr (Some w) v = Some (0, Some w')" "appends w (enc v) w'"
    using write_law [OF v(1) accepts_mono [OF a v(2)]] by blast
  moreover have "\<exists>r'. rd (Some r) (Some x) = Some (0, Some r', Some v) \<and> remaining r' rest"
    if "remaining r (enc v @ rest)" for r rest
    using read_law [OF v(1) that] remaining_advance(1) [OF that] by blast
  ultimately show "\<exists>w' bs. wr (Some w) v = Some (0, Some w') \<and> written w' = written w @ bs \<and> length bs \<le> n \<and>
     (\<forall>r rest. remaining r (bs @ rest) \<longrightarrow>
        (\<exists>r'. rd (Some r) (Some x) = Some (0, Some r', Some v) \<and> remaining r' rest))"
    using v(2) by (auto simp: appends_def)
qed

end

end
