(* ===== verification/Protobuf.thy ===== *)
theory Protobuf
  imports Codec
begin

text \<open>
  The Protocol Buffers wire format of \<open>src/serialization/protobuf.c\<close>: writers and readers over byte
  buffers, varints, fixed-width integers, length-delimited data, field headers, zig-zag integers
  and skipping.  A \<open>double\<close> or \<open>float\<close> is its bit pattern, which is all the code uses of it.  The C
  heap is two parameters: \<open>libc_realloc\<close> (old buffer and size to new buffer) and \<open>malloc\<close> (size to a
  fresh block of arbitrary bytes, or \<^term>\<open>None\<close>).
\<close>

section \<open>Writers and readers\<close>

definition mp_protobuf_writer_init ::
  "mp_writer option \<Rightarrow> u8 list option \<Rightarrow> size_t \<Rightarrow> int \<times> mp_writer option" where
  "mp_protobuf_writer_init writer buffer capacity =
     (if writer = None then (-1, writer)
      else (0, Some \<lparr>wbuf = buffer, wpos = 0, wcap = capacity, wowns = False, wrealloc = None,
                     walloc_data = None\<rparr>))"

definition mp_protobuf_writer_init_dynamic ::
  "(u8 list option \<Rightarrow> size_t \<Rightarrow> u8 list option) \<Rightarrow> mp_writer option \<Rightarrow> size_t \<Rightarrow>
   (u8 list option \<Rightarrow> size_t \<Rightarrow> u8 list option) option \<Rightarrow> nat option \<Rightarrow> int \<times> mp_writer option" where
  "mp_protobuf_writer_init_dynamic libc_realloc writer initial_capacity realloc_fn data =
     (if writer = None then (-1, writer)
      else
        let f = (case realloc_fn of None \<Rightarrow> libc_realloc | Some g \<Rightarrow> g);
            w = \<lparr>wbuf = None, wpos = 0, wcap = 0, wowns = True, wrealloc = Some f, walloc_data = data\<rparr>
        in if initial_capacity > 0
           then (case f None initial_capacity of
                   None \<Rightarrow> (-1, Some w)
                 | Some b \<Rightarrow> (0, Some (w\<lparr>wbuf := Some b, wcap := initial_capacity\<rparr>)))
           else (0, Some w))"

text \<open>The second component tells whether the buffer was released (\<open>realloc_fn(buffer, 0)\<close>).\<close>

definition mp_protobuf_writer_destroy :: "mp_writer option \<Rightarrow> mp_writer option \<times> bool" where
  "mp_protobuf_writer_destroy writer =
     (case writer of None \<Rightarrow> (writer, False)
      | Some w \<Rightarrow> (Some (w\<lparr>wbuf := None, wpos := 0, wcap := 0, wowns := False\<rparr>),
                   wowns w \<and> wbuf w \<noteq> None \<and> wrealloc w \<noteq> None))"

definition mp_protobuf_writer_reset :: "mp_writer option \<Rightarrow> mp_writer option" where
  "mp_protobuf_writer_reset writer = map_option (\<lambda>w. w\<lparr>wpos := 0\<rparr>) writer"

definition mp_protobuf_writer_get_data :: "mp_writer option \<Rightarrow> buffer_view" where
  "mp_protobuf_writer_get_data writer =
     (case writer of
        Some w \<Rightarrow>
          if wbuf w = None
          then \<lparr>bv_data = None, bv_length = 0, bv_capacity = 0, bv_offset = 0, bv_owns_data = False\<rparr>
          else \<lparr>bv_data = wbuf w, bv_length = wpos w, bv_capacity = wcap w, bv_offset = 0, bv_owns_data = False\<rparr>
      | None \<Rightarrow> \<lparr>bv_data = None, bv_length = 0, bv_capacity = 0, bv_offset = 0, bv_owns_data = False\<rparr>)"

definition mp_protobuf_writer_get_length :: "mp_writer option \<Rightarrow> size_t" where
  "mp_protobuf_writer_get_length writer = (case writer of None \<Rightarrow> 0 | Some w \<Rightarrow> wpos w)"

definition mp_protobuf_reader_init ::
  "mp_reader option \<Rightarrow> u8 list option \<Rightarrow> size_t \<Rightarrow> int \<times> mp_reader option" where
  "mp_protobuf_reader_init reader buffer len =
     (if reader = None then (-1, reader)
      else (0, Some \<lparr>rbuf = buffer, rpos = 0, rlen = len, rowns = False\<rparr>))"

definition mp_protobuf_reader_init_from_view ::
  "mp_reader option \<Rightarrow> buffer_view option \<Rightarrow> int \<times> mp_reader option" where
  "mp_protobuf_reader_init_from_view reader view =
     (case (reader, view) of
        (Some r, Some v) \<Rightarrow>
          if bv_data v = None then (-1, reader)
          else mp_protobuf_reader_init reader (bv_data v) (bv_length v)
      | _ \<Rightarrow> (-1, reader))"

text \<open>The second component tells whether the buffer was freed.\<close>

definition mp_protobuf_reader_destroy :: "mp_reader option \<Rightarrow> mp_reader option \<times> bool" where
  "mp_protobuf_reader_destroy reader =
     (case reader of None \<Rightarrow> (reader, False)
      | Some r \<Rightarrow> (Some \<lparr>rbuf = None, rpos = 0, rlen = 0, rowns = False\<rparr>, rowns r \<and> rbuf r \<noteq> None))"

definition mp_protobuf_reader_remaining :: "mp_reader option \<Rightarrow> size_t" where
  "mp_protobuf_reader_remaining reader = (case reader of None \<Rightarrow> 0 | Some r \<Rightarrow> rlen r - rpos r)"

definition mp_protobuf_reader_position :: "mp_reader option \<Rightarrow> size_t" where
  "mp_protobuf_reader_position reader = (case reader of None \<Rightarrow> 0 | Some r \<Rightarrow> rpos r)"

definition mp_protobuf_reader_set_position :: "mp_reader option \<Rightarrow> size_t \<Rightarrow> int \<times> mp_reader option" where
  "mp_protobuf_reader_set_position reader position =
     (case reader of None \<Rightarrow> (-1, reader)
      | Some r \<Rightarrow> if position > rlen r then (-1, reader) else (0, Some (r\<lparr>rpos := position\<rparr>)))"

section \<open>Varints\<close>

function write_varint_loop :: "u64 \<Rightarrow> mp_writer \<Rightarrow> mp_writer option" where
  "write_varint_loop v w =
     (if v \<ge> 0x80
      then do { w' \<leftarrow> put_byte (ucast (v OR 0x80)) w; write_varint_loop (drop_bit 7 v) w' }
      else put_byte (ucast v) w)"
  by pat_completeness auto

termination write_varint_loop
  by (relation "measure (\<lambda>(v, w). unat v)") (auto intro: drop7_decreases)

definition mp_protobuf_write_varint :: "mp_writer option \<Rightarrow> u64 \<Rightarrow> wresult" where
  "mp_protobuf_write_varint writer v =
     (case writer of None \<Rightarrow> Some (-1, writer)
      | Some w \<Rightarrow> do { w1 \<leftarrow> ensure_capacity w 10; w2 \<leftarrow> write_varint_loop v w1; Some (0, Some w2) })"

text \<open>The loop of \<open>mp_protobuf_read_varint\<close>: return code, reader and \<open>result\<close>.\<close>

function read_varint_loop :: "nat \<Rightarrow> u64 \<Rightarrow> mp_reader \<Rightarrow> (int \<times> mp_reader \<times> u64) option" where
  "read_varint_loop shift result r =
     (if rpos r \<ge> rlen r then Some (-1, r, result)
      else do {
        (byte, r') \<leftarrow> get_byte r;
        let result' = result OR push_bit shift (ucast (byte AND 0x7F));
        if byte AND 0x80 = 0 then Some (0, r', result')
        else if shift + 7 \<ge> 64 then Some (-1, r', result')
        else read_varint_loop (shift + 7) result' r' })"
  by pat_completeness auto

termination read_varint_loop
  by (relation "measure (\<lambda>(shift, result, r). 64 - shift)") auto

definition mp_protobuf_read_varint :: "mp_reader option \<Rightarrow> u64 option \<Rightarrow> u64 rresult" where
  "mp_protobuf_read_varint reader val =
     (case (reader, val) of
        (Some r, Some x) \<Rightarrow>
          do { (ret, r', result) \<leftarrow> read_varint_loop 0 0 r;
               Some (ret, Some r', Some (if ret = 0 then result else x)) }
      | _ \<Rightarrow> Some (-1, reader, val))"

section \<open>Fixed-width integers\<close>

definition mp_protobuf_write_fixed32 :: "mp_writer option \<Rightarrow> u32 \<Rightarrow> wresult" where
  "mp_protobuf_write_fixed32 writer v =
     (case writer of None \<Rightarrow> Some (-1, writer)
      | Some w \<Rightarrow> do { w1 \<leftarrow> ensure_capacity w 4; w2 \<leftarrow> put_bytes (fixed32_bytes v) w1; Some (0, Some w2) })"

definition mp_protobuf_read_fixed32 :: "mp_reader option \<Rightarrow> u32 option \<Rightarrow> u32 rresult" where
  "mp_protobuf_read_fixed32 reader val =
     (case (reader, val) of
        (Some r, Some x) \<Rightarrow>
          if rpos r + 4 > rlen r then Some (-1, reader, val)
          else do { (bs, r') \<leftarrow> get_bytes 4 r; Some (0, Some r', Some (or_bytes 0 bs)) }
      | _ \<Rightarrow> Some (-1, reader, val))"

definition mp_protobuf_write_fixed64 :: "mp_writer option \<Rightarrow> u64 \<Rightarrow> wresult" where
  "mp_protobuf_write_fixed64 writer v =
     (case writer of None \<Rightarrow> Some (-1, writer)
      | Some w \<Rightarrow> do { w1 \<leftarrow> ensure_capacity w 8; w2 \<leftarrow> put_bytes (fixed64_bytes v) w1; Some (0, Some w2) })"

definition mp_protobuf_read_fixed64 :: "mp_reader option \<Rightarrow> u64 option \<Rightarrow> u64 rresult" where
  "mp_protobuf_read_fixed64 reader val =
     (case (reader, val) of
        (Some r, Some x) \<Rightarrow>
          if rpos r + 8 > rlen r then Some (-1, reader, val)
          else do { (bs, r') \<leftarrow> get_bytes 8 r; Some (0, Some r', Some (or_bytes 0 bs)) }
      | _ \<Rightarrow> Some (-1, reader, val))"

section \<open>Length-delimited data\<close>

definition mp_protobuf_write_length_delimited ::
  "mp_writer option \<Rightarrow> u8 list option \<Rightarrow> size_t \<Rightarrow> wresult" where
  "mp_protobuf_write_length_delimited writer data len =
     (if writer = None \<or> (data = None \<and> len > 0) then Some (-1, writer)
      else do {
        (ret, writer1) \<leftarrow> mp_protobuf_write_varint writer (ucast len);
        if ret \<noteq> 0 then Some (-1, writer1)
        else do {
          w1 \<leftarrow> writer1;
          w2 \<leftarrow> ensure_capacity w1 len;
          if wpos w2 + len > wcap w2 then Some (-1, Some w2)
          else do { w3 \<leftarrow> put_block data len w2; Some (0, Some w3) } } })"

text \<open>\<open>*data\<close>, a pointer into the reader's buffer, is its offset in the buffer.\<close>

definition mp_protobuf_read_length_delimited ::
  "mp_reader option \<Rightarrow> size_t option \<Rightarrow> size_t option \<Rightarrow>
   (int \<times> mp_reader option \<times> size_t option \<times> size_t option) option" where
  "mp_protobuf_read_length_delimited reader data len =
     (if reader = None \<or> len = None then Some (-1, reader, data, len)
      else do {
        (ret, reader1, val) \<leftarrow> mp_protobuf_read_varint reader (Some 0);
        r \<leftarrow> reader1;
        n \<leftarrow> val;
        if ret \<noteq> 0 then Some (-1, reader1, data, len)
        else if n > ucast (rlen r - rpos r) then Some (-1, reader1, data, len)
        else Some (0, Some (r\<lparr>rpos := rpos r + ucast n\<rparr>), map_option (\<lambda>_. rpos r) data, Some (ucast n)) })"

definition mp_protobuf_write_string_with_length ::
  "mp_writer option \<Rightarrow> u8 list option \<Rightarrow> size_t \<Rightarrow> wresult" where
  "mp_protobuf_write_string_with_length writer str len =
     (if writer = None \<or> (str = None \<and> len > 0) then Some (-1, writer)
      else mp_protobuf_write_length_delimited writer str len)"

definition mp_protobuf_write_string :: "mp_writer option \<Rightarrow> u8 list option \<Rightarrow> wresult" where
  "mp_protobuf_write_string writer str =
     (case (writer, str) of
        (Some w, Some s) \<Rightarrow> do { n \<leftarrow> c_strlen s; mp_protobuf_write_string_with_length writer str (of_nat n) }
      | _ \<Rightarrow> Some (-1, writer))"

text \<open>\<open>*str\<close> is a pointer to a fresh block: its bytes, or \<^term>\<open>None\<close> for \<open>NULL\<close>.\<close>

definition mp_protobuf_read_string ::
  "(size_t \<Rightarrow> u8 list option) \<Rightarrow> mp_reader option \<Rightarrow> u8 list option option \<Rightarrow> size_t option \<Rightarrow>
   (int \<times> mp_reader option \<times> u8 list option option \<times> size_t option) option" where
  "mp_protobuf_read_string malloc reader str len =
     (if reader = None \<or> len = None then Some (-1, reader, str, len)
      else do {
        (ret, reader1, data, len1) \<leftarrow> mp_protobuf_read_length_delimited reader (Some 0) len;
        if ret \<noteq> 0 then Some (-1, reader1, str, len1)
        else if str = None then Some (0, reader1, str, len1)
        else do {
          r \<leftarrow> reader1; b \<leftarrow> rbuf r; off \<leftarrow> data; n \<leftarrow> len1;
          case malloc (n + 1) of None \<Rightarrow> Some (-1, reader1, Some None, len1)
          | Some block \<Rightarrow> do {
              d \<leftarrow> mem_read b (unat off) (unat n);
              block1 \<leftarrow> mem_write block 0 d;
              block2 \<leftarrow> mem_write block1 (unat n) [0];
              Some (0, reader1, Some (Some block2), len1) } } })"

definition mp_protobuf_write_bytes :: "mp_writer option \<Rightarrow> u8 list option \<Rightarrow> size_t \<Rightarrow> wresult" where
  "mp_protobuf_write_bytes writer data len =
     (if writer = None \<or> (data = None \<and> len > 0) then Some (-1, writer)
      else mp_protobuf_write_length_delimited writer data len)"

definition mp_protobuf_read_bytes ::
  "(size_t \<Rightarrow> u8 list option) \<Rightarrow> mp_reader option \<Rightarrow> u8 list option option \<Rightarrow> size_t option \<Rightarrow>
   (int \<times> mp_reader option \<times> u8 list option option \<times> size_t option) option" where
  "mp_protobuf_read_bytes malloc reader data len =
     (if reader = None \<or> len = None then Some (-1, reader, data, len)
      else do {
        (ret, reader1, internal_data, len1) \<leftarrow> mp_protobuf_read_length_delimited reader (Some 0) len;
        if ret \<noteq> 0 then Some (-1, reader1, data, len1)
        else if data = None then Some (0, reader1, data, len1)
        else do {
          r \<leftarrow> reader1; b \<leftarrow> rbuf r; off \<leftarrow> internal_data; n \<leftarrow> len1;
          case malloc n of None \<Rightarrow> Some (-1, reader1, Some None, len1)
          | Some block \<Rightarrow> do {
              d \<leftarrow> mem_read b (unat off) (unat n);
              block1 \<leftarrow> mem_write block 0 d;
              Some (0, reader1, Some (Some block1), len1) } } })"

section \<open>Scalars on top of varints and fixed-width integers\<close>

text \<open>
  The readers of the scalar types share one shape: refuse \<open>NULL\<close> arguments, read the underlying
  integer into a local, return -1 if that fails and otherwise store the converted value.
\<close>

definition read_converted ::
  "(mp_reader option \<Rightarrow> 'a option \<Rightarrow> 'a rresult) \<Rightarrow> 'a \<Rightarrow> ('a \<Rightarrow> 'b) \<Rightarrow> mp_reader option \<Rightarrow> 'b option \<Rightarrow> 'b rresult" where
  "read_converted rd uninit conv reader val =
     (if reader = None \<or> val = None then Some (-1, reader, val)
      else do {
        (ret, reader1, x) \<leftarrow> rd reader (Some uninit);
        if ret \<noteq> 0 then Some (-1, reader1, val)
        else Some (0, reader1, map_option conv x) })"

definition mp_protobuf_write_bool :: "mp_writer option \<Rightarrow> bool \<Rightarrow> wresult" where
  "mp_protobuf_write_bool writer v =
     (if writer = None then Some (-1, writer) else mp_protobuf_write_varint writer (if v then 1 else 0))"

definition mp_protobuf_read_bool :: "mp_reader option \<Rightarrow> bool option \<Rightarrow> bool rresult" where
  "mp_protobuf_read_bool = read_converted mp_protobuf_read_varint 0 (\<lambda>x. x \<noteq> 0)"

definition mp_protobuf_write_enum :: "mp_writer option \<Rightarrow> u32 \<Rightarrow> wresult" where
  "mp_protobuf_write_enum writer v = mp_protobuf_write_varint writer (ucast v)"

definition mp_protobuf_read_enum :: "mp_reader option \<Rightarrow> u32 option \<Rightarrow> u32 rresult" where
  "mp_protobuf_read_enum = read_converted mp_protobuf_read_varint 0 ucast"

definition MP_PROTOBUF_VARINT :: u32 where
  "MP_PROTOBUF_VARINT = 0"

definition MP_PROTOBUF_FIXED64 :: u32 where
  "MP_PROTOBUF_FIXED64 = 1"

definition MP_PROTOBUF_LENGTH_DELIMITED :: u32 where
  "MP_PROTOBUF_LENGTH_DELIMITED = 2"

definition MP_PROTOBUF_FIXED32 :: u32 where
  "MP_PROTOBUF_FIXED32 = 5"

lemmas wire_type_defs = MP_PROTOBUF_VARINT_def MP_PROTOBUF_FIXED64_def MP_PROTOBUF_LENGTH_DELIMITED_def
  MP_PROTOBUF_FIXED32_def

text \<open>The tag is computed in 32 bits and then widened.\<close>

definition field_tag :: "u32 \<Rightarrow> u32 \<Rightarrow> u64" where
  "field_tag field_number wire_type = ucast (push_bit 3 field_number OR wire_type)"

definition mp_protobuf_write_field_header :: "mp_writer option \<Rightarrow> u32 \<Rightarrow> u32 \<Rightarrow> wresult" where
  "mp_protobuf_write_field_header writer field_number wire_type =
     (if writer = None then Some (-1, writer)
      else mp_protobuf_write_varint writer (field_tag field_number wire_type))"

definition mp_protobuf_read_field_header ::
  "mp_reader option \<Rightarrow> u32 option \<Rightarrow> u32 option \<Rightarrow> (int \<times> mp_reader option \<times> u32 option \<times> u32 option) option" where
  "mp_protobuf_read_field_header reader field_number wire_type =
     (if reader = None \<or> field_number = None \<or> wire_type = None
      then Some (-1, reader, field_number, wire_type)
      else do {
        (ret, reader1, val) \<leftarrow> mp_protobuf_read_varint reader (Some 0);
        tag \<leftarrow> val;
        if ret \<noteq> 0 then Some (-1, reader1, field_number, wire_type)
        else Some (0, reader1, Some (ucast (drop_bit 3 tag)), Some (ucast (tag AND 0x07))) })"

definition mp_protobuf_write_double :: "mp_writer option \<Rightarrow> u64 \<Rightarrow> wresult" where
  "mp_protobuf_write_double writer bits =
     (if writer = None then Some (-1, writer) else mp_protobuf_write_fixed64 writer bits)"

definition mp_protobuf_read_double :: "mp_reader option \<Rightarrow> u64 option \<Rightarrow> u64 rresult" where
  "mp_protobuf_read_double = read_converted mp_protobuf_read_fixed64 0 (\<lambda>bits. bits)"

definition mp_protobuf_write_float :: "mp_writer option \<Rightarrow> u32 \<Rightarrow> wresult" where
  "mp_protobuf_write_float writer bits =
     (if writer = None then Some (-1, writer) else mp_protobuf_write_fixed32 writer bits)"

definition mp_protobuf_read_float :: "mp_reader option \<Rightarrow> u32 option \<Rightarrow> u32 rresult" where
  "mp_protobuf_read_float = read_converted mp_protobuf_read_fixed32 0 (\<lambda>bits. bits)"

definition mp_protobuf_write_int32 :: "mp_writer option \<Rightarrow> u32 \<Rightarrow> wresult" where
  "mp_protobuf_write_int32 writer v = mp_protobuf_write_varint writer (ucast v)"

definition mp_protobuf_read_int32 :: "mp_reader option \<Rightarrow> u32 option \<Rightarrow> u32 rresult" where
  "mp_protobuf_read_int32 = read_converted mp_protobuf_read_varint 0 ucast"

definition mp_protobuf_write_int64 :: "mp_writer option \<Rightarrow> u64 \<Rightarrow> wresult" where
  "mp_protobuf_write_int64 writer v = mp_protobuf_write_varint writer v"

definition mp_protobuf_read_int64 :: "mp_reader option \<Rightarrow> u64 option \<Rightarrow> u64 rresult" where
  "mp_protobuf_read_int64 = read_converted mp_protobuf_read_varint 0 (\<lambda>x. x)"

definition mp_protobuf_write_uint32 :: "mp_writer option \<Rightarrow> u32 \<Rightarrow> wresult" where
  "mp_protobuf_write_uint32 writer v = mp_protobuf_write_varint writer (ucast v)"

definition mp_protobuf_read_uint32 :: "mp_reader option \<Rightarrow> u32 option \<Rightarrow> u32 rresult" where
  "mp_protobuf_read_uint32 = read_converted mp_protobuf_read_varint 0 ucast"

definition mp_protobuf_write_uint64 :: "mp_writer option \<Rightarrow> u64 \<Rightarrow> wresult" where
  "mp_protobuf_write_uint64 writer v = mp_protobuf_write_varint writer v"

definition mp_protobuf_read_uint64 :: "mp_reader option \<Rightarrow> u64 option \<Rightarrow> u64 rresult" where
  "mp_protobuf_read_uint64 reader val = mp_protobuf_read_varint reader val"

text \<open>Signed integers are words; \<open>>>\<close> on them is the arithmetic shift.\<close>

definition mp_protobuf_zigzag32 :: "u32 \<Rightarrow> u32" where
  "mp_protobuf_zigzag32 n = push_bit 1 n XOR signed_drop_bit 31 n"

definition mp_protobuf_unzigzag32 :: "u32 \<Rightarrow> u32" where
  "mp_protobuf_unzigzag32 n = drop_bit 1 n XOR - (n AND 1)"

definition mp_protobuf_zigzag64 :: "u64 \<Rightarrow> u64" where
  "mp_protobuf_zigzag64 n = push_bit 1 n XOR signed_drop_bit 63 n"

definition mp_protobuf_unzigzag64 :: "u64 \<Rightarrow> u64" where
  "mp_protobuf_unzigzag64 n = drop_bit 1 n XOR - (n AND 1)"

definition mp_protobuf_write_sint32 :: "mp_writer option \<Rightarrow> u32 \<Rightarrow> wresult" where
  "mp_protobuf_write_sint32 writer v = mp_protobuf_write_varint writer (ucast (mp_protobuf_zigzag32 v))"

definition mp_protobuf_read_sint32 :: "mp_reader option \<Rightarrow> u32 option \<Rightarrow> u32 rresult" where
  "mp_protobuf_read_sint32 = read_converted mp_protobuf_read_varint 0 (\<lambda>x. mp_protobuf_unzigzag32 (ucast x))"

definition mp_protobuf_write_sint64 :: "mp_writer option \<Rightarrow> u64 \<Rightarrow> wresult" where
  "mp_protobuf_write_sint64 writer v = mp_protobuf_write_varint writer (mp_protobuf_zigzag64 v)"

definition mp_protobuf_read_sint64 :: "mp_reader option \<Rightarrow> u64 option \<Rightarrow> u64 rresult" where
  "mp_protobuf_read_sint64 = read_converted mp_protobuf_read_varint 0 mp_protobuf_unzigzag64"

definition mp_protobuf_write_sfixed32 :: "mp_writer option \<Rightarrow> u32 \<Rightarrow> wresult" where
  "mp_protobuf_write_sfixed32 writer v = mp_protobuf_write_fixed32 writer v"

definition mp_protobuf_read_sfixed32 :: "mp_reader option \<Rightarrow> u32 option \<Rightarrow> u32 rresult" where
  "mp_protobuf_read_sfixed32 = read_converted mp_protobuf_read_fixed32 0 (\<lambda>x. x)"

definition mp_protobuf_write_sfixed64 :: "mp_writer option \<Rightarrow> u64 \<Rightarrow> wresult" where
  "mp_protobuf_write_sfixed64 writer v = mp_protobuf_write_fixed64 writer v"

definition mp_protobuf_read_sfixed64 :: "mp_reader option \<Rightarrow> u64 option \<Rightarrow> u64 rresult" where
  "mp_protobuf_read_sfixed64 = read_converted mp_protobuf_read_fixed64 0 (\<lambda>x. x)"

section \<open>Skipping, sizes and messages\<close>

definition mp_protobuf_skip_field :: "mp_reader option \<Rightarrow> u32 \<Rightarrow> (int \<times> mp_reader option) option" where
  "mp_protobuf_skip_field reader wire_type =
     (if reader = None then Some (-1, reader)
      else if wire_type = MP_PROTOBUF_VARINT
      then do { (ret, reader1, _) \<leftarrow> mp_protobuf_read_varint reader (Some 0); Some (ret, reader1) }
      else if wire_type = MP_PROTOBUF_FIXED64
      then do { (ret, reader1, _) \<leftarrow> mp_protobuf_read_fixed64 reader (Some 0); Some (ret, reader1) }
      else if wire_type = MP_PROTOBUF_LENGTH_DELIMITED
      then do {
        (ret, reader1, val) \<leftarrow> mp_protobuf_read_varint reader (Some 0);
        r \<leftarrow> reader1;
        len \<leftarrow> val;
        if ret \<noteq> 0 then Some (-1, reader1)
        else if len > ucast (rlen r - rpos r) then Some (-1, reader1)
        else Some (0, Some (r\<lparr>rpos := rpos r + ucast len\<rparr>)) }
      else if wire_type = MP_PROTOBUF_FIXED32
      then do { (ret, reader1, _) \<leftarrow> mp_protobuf_read_fixed32 reader (Some 0); Some (ret, reader1) }
      else Some (-1, reader))"

definition mp_protobuf_skip_unknown :: "mp_reader option \<Rightarrow> (int \<times> mp_reader option) option" where
  "mp_protobuf_skip_unknown reader =
     (if reader = None then Some (-1, reader)
      else do {
        (ret, reader1, _, wire_type) \<leftarrow> mp_protobuf_read_field_header reader (Some 0) (Some 0);
        wt \<leftarrow> wire_type;
        if ret \<noteq> 0 then Some (-1, reader1) else mp_protobuf_skip_field reader1 wt })"

function varint_size_loop :: "u64 \<Rightarrow> size_t \<Rightarrow> size_t" where
  "varint_size_loop v sz = (if v \<ge> 0x80 then varint_size_loop (drop_bit 7 v) (sz + 1) else sz)"
  by pat_completeness auto

termination varint_size_loop
  by (relation "measure (\<lambda>(v, sz). unat v)") (auto intro: drop7_decreases)

definition mp_protobuf_varint_size :: "u64 \<Rightarrow> size_t" where
  "mp_protobuf_varint_size v = varint_size_loop v 1"

definition mp_protobuf_field_header_size :: "u32 \<Rightarrow> u32 \<Rightarrow> size_t" where
  "mp_protobuf_field_header_size field_number wire_type = mp_protobuf_varint_size (field_tag field_number wire_type)"

definition mp_protobuf_length_delimited_size :: "u32 \<Rightarrow> size_t \<Rightarrow> size_t" where
  "mp_protobuf_length_delimited_size field_number len =
     mp_protobuf_field_header_size field_number MP_PROTOBUF_LENGTH_DELIMITED + mp_protobuf_varint_size (ucast len) + len"

text \<open>Descriptor-driven encoding is not implemented in the source: the functions refuse.\<close>

definition mp_protobuf_message_size :: "'d \<Rightarrow> 'm \<Rightarrow> int" where
  "mp_protobuf_message_size descriptor message = -1"

definition mp_protobuf_encode_message :: "mp_writer option \<Rightarrow> 'd \<Rightarrow> 'm \<Rightarrow> int \<times> mp_writer option" where
  "mp_protobuf_encode_message writer descriptor message = (-1, writer)"

definition mp_protobuf_decode_message :: "mp_reader option \<Rightarrow> 'd \<Rightarrow> 'm \<Rightarrow> int \<times> mp_reader option" where
  "mp_protobuf_decode_message reader descriptor message = (-1, reader)"

definition mp_protobuf_encode_to_buffer :: "mp_writer \<Rightarrow> u8 list option \<Rightarrow> size_t \<Rightarrow> 'd \<Rightarrow> 'm \<Rightarrow> int" where
  "mp_protobuf_encode_to_buffer uninit buffer capacity descriptor message =
     (case mp_protobuf_writer_init (Some uninit) buffer capacity of (ret, writer) \<Rightarrow>
        if ret \<noteq> 0 then -1
        else (case mp_protobuf_encode_message writer descriptor message of (ret, writer') \<Rightarrow>
                if ret \<noteq> 0 then -1 else sint (mp_protobuf_writer_get_length writer')))"

definition mp_protobuf_decode_from_buffer :: "mp_reader \<Rightarrow> u8 list option \<Rightarrow> size_t \<Rightarrow> 'd \<Rightarrow> 'm \<Rightarrow> int" where
  "mp_protobuf_decode_from_buffer uninit buffer len descriptor message =
     (case mp_protobuf_reader_init (Some uninit) buffer len of (ret, reader) \<Rightarrow>
        if ret \<noteq> 0 then -1
        else (case mp_protobuf_decode_message reader descriptor message of (ret, reader') \<Rightarrow>
                if ret \<noteq> 0 then -1 else sint (mp_protobuf_reader_position reader')))"

end
