(* ===== verification/Protobuf_Correct.thy ===== *)
theory Protobuf_Correct
  imports Protobuf
begin

text \<open>
  Correctness of the Protocol Buffers operations: the encodings they append, the codec
  interpretations, round trips of scalars and of whole messages, and safety of the readers on
  arbitrary input.
\<close>

section \<open>Varints\<close>

declare write_varint_loop.simps [simp del] read_varint_loop.simps [simp del]
  varint_size_loop.simps [simp del]

lemma write_varint_loop_bytes: "write_varint_loop v w = put_bytes (varint_bytes v) w"
proof (induction v arbitrary: w rule: varint_bytes.induct)
  case (1 v)
  show ?case
  proof (cases "v \<ge> 0x80")
    case True
    then have "write_varint_loop (drop_bit 7 v) = put_bytes (varint_bytes (drop_bit 7 v))"
      using 1 by (intro ext) simp
    then show ?thesis
      using True by (simp add: write_varint_loop.simps [of v] varint_bytes.simps [of v])
  next
    case False
    then show ?thesis
      by (simp add: write_varint_loop.simps [of v] varint_bytes.simps [of v] put_bytes_single del: put_bytes.simps(2))
  qed
qed

lemma read_varint_loop_bytes:
  assumes "remaining r (varint_bytes v @ rest)" and "unat v < 2 ^ (64 - shift)" and "shift < 64"
  shows "read_varint_loop shift res r =
    Some (0, advance (length (varint_bytes v)) r, res OR push_bit shift v)"
  using assms
proof (induction v arbitrary: shift res r rule: varint_bytes.induct)
  case (1 v)
  obtain x xs where b: "varint_bytes v = x # xs" by (cases "varint_bytes v") auto
  have g: "get_byte r = Some (x, advance 1 r)" and np: "\<not> rpos r \<ge> rlen r"
    using get_byte_remaining [of r x "xs @ rest"] remaining_pos [OF 1(2)] 1(2) b by auto
  show ?case
  proof (cases "v \<ge> 0x80")
    case True
    then have x: "x = ucast (v OR 0x80)" "xs = varint_bytes (drop_bit 7 v)"
      using b by (subst (asm) varint_bytes.simps, simp)+
    have s: "shift + 7 < 64"
    proof (rule ccontr)
      assume "\<not> shift + 7 < 64"
      then have "(2 :: nat) ^ (64 - shift) \<le> 2 ^ 7" by (intro power_increasing) auto
      then show False using True 1(3) by (simp add: word64_ge80)
    qed
    have e: "64 - shift = 7 + (64 - (shift + 7))" using s by simp
    have "(2 :: nat) ^ (64 - shift) = 2 ^ 7 * 2 ^ (64 - (shift + 7))" by (subst e) (rule power_add)
    then have "unat v < 128 * 2 ^ (64 - (shift + 7))" using 1(3) by simp
    then have d: "unat (drop_bit 7 v) < 2 ^ (64 - (shift + 7))"
      by (simp add: unat_drop7 less_mult_imp_div_less mult.commute)
    have "remaining (advance 1 r) (xs @ rest)" using remaining_advance(1) [of r "[x]"] 1(2) b by simp
    then have "read_varint_loop (shift + 7) (res OR push_bit shift (ucast (x AND 0x7F))) (advance 1 r) =
        Some (0, advance (length xs) (advance 1 r), (res OR push_bit shift (ucast (x AND 0x7F))) OR
          push_bit (shift + 7) (drop_bit 7 v))"
      using 1(1) [OF True _ d s] x(2) by simp
    moreover have "(res OR push_bit shift (ucast (x AND 0x7F))) OR push_bit (shift + 7) (drop_bit 7 v) =
        res OR push_bit shift v"
    proof -
      have "push_bit shift (ucast (x AND 0x7F)) OR push_bit (shift + 7) (drop_bit 7 v) =
          push_bit shift (ucast (x AND 0x7F) OR push_bit 7 (drop_bit 7 v))"
        by (simp add: push_bit_or add.commute)
      then show ?thesis using varint_low_byte(1) [of v] x(1) by (simp add: or.assoc)
    qed
    ultimately show ?thesis
      using g np s x(1) varint_low_byte(2) [of v] b
      by (subst read_varint_loop.simps) (simp add: Let_def)
  next
    case False
    then have x: "x = ucast v" "xs = []" using b by (subst (asm) varint_bytes.simps, simp)+
    then show ?thesis
      using g np b varint_last_byte [OF False]
      by (subst read_varint_loop.simps) (simp add: Let_def)
  qed
qed

interpretation varint: wire_codec "\<lambda>_. True" varint_bytes mp_protobuf_write_varint mp_protobuf_read_varint
proof (unfold_locales, goal_cases)
  case (1 v w)
  obtain w1 w2 where "ensure_capacity w 10 = Some w1" "put_bytes (varint_bytes v) w1 = Some w2"
    "appends w (varint_bytes v) w2"
    using reserve_put_bytes [OF 1(2), of 10] varint_bytes_le_10 [of v] by auto
  then show ?case by (simp add: mp_protobuf_write_varint_def write_varint_loop_bytes)
next
  case (2 v r rest x)
  have "unat v < 2 ^ (64 - 0)" using unat_bound [of v] by simp
  from read_varint_loop_bytes [OF 2(2) this] show ?case by (simp add: mp_protobuf_read_varint_def)
qed

section \<open>Fixed-width integers\<close>

interpretation fixed32: wire_codec "\<lambda>_. True" fixed32_bytes mp_protobuf_write_fixed32 mp_protobuf_read_fixed32
proof (unfold_locales, goal_cases)
  case (1 v w)
  obtain w1 w2 where "ensure_capacity w 4 = Some w1" "put_bytes (fixed32_bytes v) w1 = Some w2"
    "appends w (fixed32_bytes v) w2"
    using reserve_put_bytes [OF 1(2), of 4] by (auto simp: fixed32_bytes_def)
  then show ?case by (simp add: mp_protobuf_write_fixed32_def)
next
  case (2 v r rest x)
  have l: "length (fixed32_bytes v) = 4" by (simp add: fixed32_bytes_def)
  have "get_bytes 4 r = Some (fixed32_bytes v, advance 4 r)" using get_bytes_remaining [OF 2(2)] l by simp
  moreover have "\<not> rpos r + 4 > rlen r" using remaining_room [OF 2(2), of 4] l by simp
  ultimately show ?case using l by (simp add: mp_protobuf_read_fixed32_def or_fixed32)
qed

interpretation fixed64: wire_codec "\<lambda>_. True" fixed64_bytes mp_protobuf_write_fixed64 mp_protobuf_read_fixed64
proof (unfold_locales, goal_cases)
  case (1 v w)
  obtain w1 w2 where "ensure_capacity w 8 = Some w1" "put_bytes (fixed64_bytes v) w1 = Some w2"
    "appends w (fixed64_bytes v) w2"
    using reserve_put_bytes [OF 1(2), of 8] by (auto simp: fixed64_bytes_def)
  then show ?case by (simp add: mp_protobuf_write_fixed64_def)
next
  case (2 v r rest x)
  have l: "length (fixed64_bytes v) = 8" by (simp add: fixed64_bytes_def)
  have "get_bytes 8 r = Some (fixed64_bytes v, advance 8 r)" using get_bytes_remaining [OF 2(2)] l by simp
  moreover have "\<not> rpos r + 8 > rlen r" using remaining_room [OF 2(2), of 8] l by simp
  ultimately show ?case using l by (simp add: mp_protobuf_read_fixed64_def or_fixed64)
qed

section \<open>Scalars as conversions of a codec\<close>

context wire_codec begin

text \<open>A codec for another type of values, converted to and from this one's.\<close>

lemma converted:
  assumes "\<And>v. valid' v \<Longrightarrow> valid (f v)" and "\<And>v. valid' v \<Longrightarrow> g (f v) = v"
    and "\<And>w v. wr' (Some w) v = wr (Some w) (f v)"
  shows "wire_codec valid' (\<lambda>v. enc (f v)) wr' (read_converted rd uninit g)"
proof (unfold_locales, goal_cases)
  case (1 v w)
  then show ?case using write_law [of "f v" w] assms by simp
next
  case (2 v r rest x)
  then show ?case using read_law [of "f v" r rest uninit] assms by (simp add: read_converted_def)
qed

end

text \<open>Zig-zag codes.\<close>

lemma sign_extension:
  "signed_drop_bit 31 (n :: u32) = (if bit n 31 then - 1 else 0)"
  "signed_drop_bit 63 (k :: u64) = (if bit k 63 then - 1 else 0)"
proof -
  have "bit (signed_drop_bit 31 n) i = bit n 31" if "i < 32" for i
    using that by (cases "i = 0") (simp_all add: bit_simps)
  then show "signed_drop_bit 31 n = (if bit n 31 then - 1 else 0)"
    by (intro bit_word_eqI) (simp add: bit_simps)
  have "bit (signed_drop_bit 63 k) i = bit k 63" if "i < 64" for i
    using that by (cases "i = 0") (simp_all add: bit_simps)
  then show "signed_drop_bit 63 k = (if bit k 63 then - 1 else 0)"
    by (intro bit_word_eqI) (simp add: bit_simps)
qed

lemma bit_shifted_left: "bit (push_bit 1 (n :: 'a::len word)) i \<longleftrightarrow> 0 < i \<and> i < LENGTH('a) \<and> bit n (i - 1)"
  by (simp only: bit_push_bit_iff possible_bit_word) auto

lemma unzigzag_zigzag32: "mp_protobuf_unzigzag32 (mp_protobuf_zigzag32 n) = n"
proof -
  let ?z = "mp_protobuf_zigzag32 n"
  have z: "bit ?z i = ((0 < i \<and> bit n (i - 1)) \<noteq> bit n 31)" if "i < 32" for i
    using that unfolding mp_protobuf_zigzag32_def sign_extension bit_xor_iff bit_shifted_left
    by (cases "bit n 31") simp_all
  have "?z AND 1 = (if bit n 31 then 1 else 0)"
    using z [of 0] by (simp add: and_one_eq mod_2_eq_odd bit_0)
  then have m: "- (?z AND 1) = (if bit n 31 then - 1 else 0)" by simp
  show ?thesis
    unfolding mp_protobuf_unzigzag32_def m
  proof (rule bit_word_eqI)
    fix i assume "i < LENGTH(32)"
    then consider "Suc i < 32" | "i = 31" by fastforce
    then show "bit (drop_bit 1 ?z XOR (if bit n 31 then - 1 else 0)) i = bit n i"
    proof cases
      case 1
      then show ?thesis using z [of "Suc i"] by (simp add: bit_simps)
    next
      case 2
      then have "\<not> bit ?z (Suc i)" using bit_imp_le_length [of ?z "Suc i"] by auto
      then show ?thesis using 2 by (simp add: bit_simps)
    qed
  qed
qed

lemma unzigzag_zigzag64: "mp_protobuf_unzigzag64 (mp_protobuf_zigzag64 n) = n"
proof -
  let ?z = "mp_protobuf_zigzag64 n"
  have z: "bit ?z i = ((0 < i \<and> bit n (i - 1)) \<noteq> bit n 63)" if "i < 64" for i
    using that unfolding mp_protobuf_zigzag64_def sign_extension bit_xor_iff bit_shifted_left
    by (cases "bit n 63") simp_all
  have "?z AND 1 = (if bit n 63 then 1 else 0)"
    using z [of 0] by (simp add: and_one_eq mod_2_eq_odd bit_0)
  then have m: "- (?z AND 1) = (if bit n 63 then - 1 else 0)" by simp
  show ?thesis
    unfolding mp_protobuf_unzigzag64_def m
  proof (rule bit_word_eqI)
    fix i assume "i < LENGTH(64)"
    then consider "Suc i < 64" | "i = 63" by fastforce
    then show "bit (drop_bit 1 ?z XOR (if bit n 63 then - 1 else 0)) i = bit n i"
    proof cases
      case 1
      then show ?thesis using z [of "Suc i"] by (simp add: bit_simps)
    next
      case 2
      then have "\<not> bit ?z (Suc i)" using bit_imp_le_length [of ?z "Suc i"] by auto
      then show ?thesis using 2 by (simp add: bit_simps)
    qed
  qed
qed

interpretation pb_bool: wire_codec "\<lambda>_. True" "\<lambda>v. varint_bytes (if v then 1 else 0)"
    mp_protobuf_write_bool mp_protobuf_read_bool
  unfolding mp_protobuf_read_bool_def
  by (rule varint.converted) (auto simp: mp_protobuf_write_bool_def)

interpretation pb_enum: wire_codec "\<lambda>_. True" "\<lambda>v. varint_bytes (ucast v)"
    mp_protobuf_write_enum mp_protobuf_read_enum
  unfolding mp_protobuf_read_enum_def
  by (rule varint.converted) (auto simp: mp_protobuf_write_enum_def)

interpretation pb_int32: wire_codec "\<lambda>_. True" "\<lambda>v. varint_bytes (ucast v)"
    mp_protobuf_write_int32 mp_protobuf_read_int32
  unfolding mp_protobuf_read_int32_def
  by (rule varint.converted) (auto simp: mp_protobuf_write_int32_def)

interpretation pb_uint32: wire_codec "\<lambda>_. True" "\<lambda>v. varint_bytes (ucast v)"
    mp_protobuf_write_uint32 mp_protobuf_read_uint32
  unfolding mp_protobuf_read_uint32_def
  by (rule varint.converted) (auto simp: mp_protobuf_write_uint32_def)

interpretation pb_sint32: wire_codec "\<lambda>_. True" "\<lambda>v. varint_bytes (ucast (mp_protobuf_zigzag32 v))"
    mp_protobuf_write_sint32 mp_protobuf_read_sint32
  unfolding mp_protobuf_read_sint32_def
  by (rule varint.converted) (auto simp: mp_protobuf_write_sint32_def unzigzag_zigzag32)

interpretation pb_int64: wire_codec "\<lambda>_. True" varint_bytes mp_protobuf_write_int64 mp_protobuf_read_int64
  unfolding mp_protobuf_read_int64_def
  by (rule varint.converted) (auto simp: mp_protobuf_write_int64_def)

interpretation pb_uint64: wire_codec "\<lambda>_. True" varint_bytes mp_protobuf_write_uint64 mp_protobuf_read_uint64
  by unfold_locales
    (simp_all add: mp_protobuf_write_uint64_def mp_protobuf_read_uint64_def varint.write_law varint.read_law)

interpretation pb_sint64: wire_codec "\<lambda>_. True" "\<lambda>v. varint_bytes (mp_protobuf_zigzag64 v)"
    mp_protobuf_write_sint64 mp_protobuf_read_sint64
  unfolding mp_protobuf_read_sint64_def
  by (rule varint.converted) (auto simp: mp_protobuf_write_sint64_def unzigzag_zigzag64)

interpretation pb_sfixed32: wire_codec "\<lambda>_. True" fixed32_bytes mp_protobuf_write_sfixed32 mp_protobuf_read_sfixed32
  unfolding mp_protobuf_read_sfixed32_def
  by (rule fixed32.converted) (auto simp: mp_protobuf_write_sfixed32_def)

interpretation pb_sfixed64: wire_codec "\<lambda>_. True" fixed64_bytes mp_protobuf_write_sfixed64 mp_protobuf_read_sfixed64
  unfolding mp_protobuf_read_sfixed64_def
  by (rule fixed64.converted) (auto simp: mp_protobuf_write_sfixed64_def)

interpretation pb_float: wire_codec "\<lambda>_. True" fixed32_bytes mp_protobuf_write_float mp_protobuf_read_float
  unfolding mp_protobuf_read_float_def
  by (rule fixed32.converted) (auto simp: mp_protobuf_write_float_def)

interpretation pb_double: wire_codec "\<lambda>_. True" fixed64_bytes mp_protobuf_write_double mp_protobuf_read_double
  unfolding mp_protobuf_read_double_def
  by (rule fixed64.converted) (auto simp: mp_protobuf_write_double_def)

section \<open>Field headers\<close>

definition read_header :: "mp_reader option \<Rightarrow> (u32 \<times> u32) option \<Rightarrow> (u32 \<times> u32) rresult" where
  "read_header reader val =
     do { (ret, r, fn, wt) \<leftarrow> mp_protobuf_read_field_header reader (map_option fst val) (map_option snd val);
          Some (ret, r, do { a \<leftarrow> fn; b \<leftarrow> wt; Some (a, b) }) }"

definition header_ok :: "u32 \<times> u32 \<Rightarrow> bool" where
  "header_ok h \<longleftrightarrow> unat (fst h) < 2 ^ 29 \<and> unat (snd h) < 8"

lemma small_bits: "unat (v :: u32) < 2 ^ k \<Longrightarrow> k \<le> n \<Longrightarrow> \<not> bit v n"
proof -
  assume v: "unat v < 2 ^ k" and "k \<le> n"
  then have "unat v < 2 ^ n" by (meson less_le_trans one_le_numeral power_increasing)
  then have "\<not> bit (unat v) n" by (simp add: bit_iff_odd)
  then show ?thesis by (simp add: bit_unsigned_iff)
qed

lemma field_tag_parts:
  assumes "header_ok (fn, wt)"
  shows "ucast (drop_bit 3 (field_tag fn wt)) = fn" and "ucast (field_tag fn wt AND 0x07) = wt"
proof -
  have f: "bit fn i \<Longrightarrow> i < 29" and t: "bit wt i \<Longrightarrow> i < 3" for i
    using small_bits [of fn 29 i] small_bits [of wt 3 i] assms by (auto simp: header_ok_def not_less [symmetric])
  show "ucast (drop_bit 3 (field_tag fn wt)) = fn"
    by (rule bit_word_eqI) (auto simp: field_tag_def bit_simps dest: f t)
  have m: "(0x07 :: u64) = mask 3" by (simp add: mask_eq_exp_minus_1)
  show "ucast (field_tag fn wt AND 0x07) = wt"
    unfolding m by (rule bit_word_eqI) (auto simp: field_tag_def bit_simps dest: f t)
qed

interpretation header: wire_codec header_ok "\<lambda>h. varint_bytes (field_tag (fst h) (snd h))"
    "\<lambda>w h. mp_protobuf_write_field_header w (fst h) (snd h)" read_header
proof (unfold_locales, goal_cases)
  case (1 v w)
  then show ?case using varint.write_law [where v = "field_tag (fst v) (snd v)" and w = w]
    by (simp add: mp_protobuf_write_field_header_def)
next
  case (2 v r rest x)
  then show ?case
    using varint.read_law [where v = "field_tag (fst v) (snd v)" and r = r and rest = rest and x = 0] field_tag_parts [of "fst v" "snd v"]
    by (simp add: read_header_def mp_protobuf_read_field_header_def)
qed

section \<open>Length-delimited data\<close>

lemma write_length_delimited_law:
  assumes "mem_read d 0 (unat len) = Some bs"
    and "accepts w (length (varint_bytes (ucast len)) + length bs)"
  shows "\<exists>w'. mp_protobuf_write_length_delimited (Some w) (Some d) len = Some (0, Some w') \<and>
    appends w (varint_bytes (ucast len) @ bs) w'"
proof -
  have l: "length bs = unat len" using assms(1) by (auto simp: mem_read_def split: if_splits)
  obtain w1 where w1: "mp_protobuf_write_varint (Some w) (ucast len) = Some (0, Some w1)"
    "appends w (varint_bytes (ucast len)) w1"
    using varint.write_law [where v = "ucast len" and w = w] accepts_mono [OF assms(2)] by auto
  have "accepts w1 (length bs)" using accepts_after [OF assms(2) w1(2)] .
  then obtain w2 where w2: "ensure_capacity w1 len = Some w2" "appends w1 [] w2" "wpos w2 = wpos w1"
    "unat (wpos w2) + unat len \<le> unat (wcap w2)" "wbuf w1 \<noteq> None \<longrightarrow> wbuf w2 \<noteq> None"
    using ensure_capacity_room [of w1 "length bs" len] l by auto
  then have b: "wbuf w2 \<noteq> None" "writer_ok w2" using appends_wbuf [OF w1(2)] by (auto simp: appends_def)
  obtain w3 where w3: "put_block (Some d) len w2 = Some w3" "appends w2 bs w3"
    using put_block_appends [OF b(2) w2(4) b(1) assms(1)] by blast
  have "unat (wpos w2 + len) = unat (wpos w2) + unat len"
    using w2(4) unat_less_2p32 [of "wcap w2"] by (intro unat_add_no_overflow) simp
  then have "\<not> wpos w2 + len > wcap w2" using w2(4) by (simp add: word_less_nat_alt)
  moreover have "appends w (varint_bytes (ucast len) @ [] @ bs) w3"
    using appends_trans [OF w1(2) appends_trans [OF w2(2) w3(2)]] .
  ultimately show ?thesis using w1(1) w2(1) w3(1) by (simp add: mp_protobuf_write_length_delimited_def)
qed

lemma read_length_delimited_law:
  assumes "remaining r (varint_bytes (ucast len) @ bs @ rest)" and "length bs = unat len"
  shows "mp_protobuf_read_length_delimited (Some r) data (Some x) =
    Some (0, Some (advance (length (varint_bytes (ucast len)) + length bs) r),
      map_option (\<lambda>_. rpos (advance (length (varint_bytes (ucast len))) r)) data, Some len)"
proof -
  let ?r = "advance (length (varint_bytes (ucast len))) r"
  have v: "mp_protobuf_read_varint (Some r) (Some 0) = Some (0, Some ?r, Some (ucast len))"
    using varint.read_law [OF _ assms(1)] by simp
  have rem: "remaining ?r (bs @ rest)" using remaining_advance(1) [OF assms(1)] .
  have le: "rpos ?r \<le> rlen ?r" using rem by (auto simp: remaining_def)
  have "unat (rlen ?r - rpos ?r) = length bs + length rest"
    using remaining_length [OF rem] unat_sub [OF le] by simp
  then have "\<not> (ucast len :: u64) > ucast (rlen ?r - rpos ?r)" using assms(2) by (simp add: word_less_nat_alt)
  moreover have "?r\<lparr>rpos := rpos ?r + len\<rparr> = advance (length (varint_bytes (ucast len)) + length bs) r"
    using assms(2) by (simp add: advance_def add.assoc)
  ultimately show ?thesis using v by (simp add: mp_protobuf_read_length_delimited_def)
qed

lemma read_bytes_law:
  assumes "good_malloc malloc" and "remaining r (varint_bytes (ucast len) @ bs @ rest)" and "length bs = unat len"
  shows "mp_protobuf_read_bytes malloc (Some r) (Some d) (Some x) =
    Some (0, Some (advance (length (varint_bytes (ucast len)) + length bs) r), Some (Some bs), Some len)"
proof -
  obtain block where block: "malloc len = Some block" "length block = unat len"
    using assms(1) unfolding good_malloc_def by blast
  obtain b where b: "rbuf (advance (length (varint_bytes (ucast len))) r) = Some b"
    "mem_read b (unat (rpos (advance (length (varint_bytes (ucast len))) r))) (unat len) = Some bs"
    using remaining_slice [OF remaining_advance(1) [OF assms(2)]] assms(3) by auto
  have "rbuf (advance (length (varint_bytes (ucast len)) + length bs) r) = Some b"
    using b(1) by (simp add: advance_def)
  then show ?thesis
    using read_length_delimited_law [OF assms(2,3), of "Some 0" x] b(2) block assms(3)
    by (simp add: mp_protobuf_read_bytes_def mem_write_def)
qed

section \<open>Messages\<close>

text \<open>
  A message is a sequence of fields.  A client writes a field with its header operation and the
  operation of its wire type, and reads one back by the wire type the header gives.
\<close>

datatype pb_value = PB_varint u64 | PB_fixed64 u64 | PB_bytes "u8 list" | PB_fixed32 u32

type_synonym pb_field = "u32 \<times> pb_value"

fun wire_of :: "pb_value \<Rightarrow> u32" where
  "wire_of (PB_varint _) = MP_PROTOBUF_VARINT"
| "wire_of (PB_fixed64 _) = MP_PROTOBUF_FIXED64"
| "wire_of (PB_bytes _) = MP_PROTOBUF_LENGTH_DELIMITED"
| "wire_of (PB_fixed32 _) = MP_PROTOBUF_FIXED32"

fun write_value :: "mp_writer option \<Rightarrow> pb_value \<Rightarrow> wresult" where
  "write_value w (PB_varint v) = mp_protobuf_write_uint64 w v"
| "write_value w (PB_fixed64 v) = mp_protobuf_write_fixed64 w v"
| "write_value w (PB_bytes bs) = mp_protobuf_write_bytes w (Some bs) (of_nat (length bs))"
| "write_value w (PB_fixed32 v) = mp_protobuf_write_fixed32 w v"

fun write_message :: "mp_writer option \<Rightarrow> pb_field list \<Rightarrow> wresult" where
  "write_message w [] = Some (0, w)"
| "write_message w ((fn, v) # fs) =
     do { (ret, w1) \<leftarrow> mp_protobuf_write_field_header w fn (wire_of v);
          if ret \<noteq> 0 then Some (ret, w1)
          else do { (ret, w2) \<leftarrow> write_value w1 v;
                    if ret \<noteq> 0 then Some (ret, w2) else write_message w2 fs } }"

definition read_value ::
  "(size_t \<Rightarrow> u8 list option) \<Rightarrow> u32 \<Rightarrow> mp_reader option \<Rightarrow> (mp_reader option \<times> pb_value) option" where
  "read_value malloc wt r =
     (if wt = MP_PROTOBUF_VARINT
      then do { (ret, r1, v) \<leftarrow> mp_protobuf_read_uint64 r (Some 0); x \<leftarrow> v;
                if ret = 0 then Some (r1, PB_varint x) else None }
      else if wt = MP_PROTOBUF_FIXED64
      then do { (ret, r1, v) \<leftarrow> mp_protobuf_read_fixed64 r (Some 0); x \<leftarrow> v;
                if ret = 0 then Some (r1, PB_fixed64 x) else None }
      else if wt = MP_PROTOBUF_LENGTH_DELIMITED
      then do { (ret, r1, d, n) \<leftarrow> mp_protobuf_read_bytes malloc r (Some None) (Some 0); p \<leftarrow> d; bs \<leftarrow> p;
                if ret = 0 then Some (r1, PB_bytes bs) else None }
      else if wt = MP_PROTOBUF_FIXED32
      then do { (ret, r1, v) \<leftarrow> mp_protobuf_read_fixed32 r (Some 0); x \<leftarrow> v;
                if ret = 0 then Some (r1, PB_fixed32 x) else None }
      else None)"

primrec read_message ::
  "(size_t \<Rightarrow> u8 list option) \<Rightarrow> nat \<Rightarrow> mp_reader option \<Rightarrow> (mp_reader option \<times> pb_field list) option" where
  "read_message malloc 0 r = Some (r, [])"
| "read_message malloc (Suc n) r =
     do { (ret, r1, fn, wt) \<leftarrow> mp_protobuf_read_field_header r (Some 0) (Some 0); k \<leftarrow> fn; t \<leftarrow> wt;
          if ret \<noteq> 0 then None
          else do { (r2, v) \<leftarrow> read_value malloc t r1; (r3, fs) \<leftarrow> read_message malloc n r2;
                    Some (r3, (k, v) # fs) } }"

primrec skip_fields :: "nat \<Rightarrow> mp_reader option \<Rightarrow> mp_reader option option" where
  "skip_fields 0 r = Some r"
| "skip_fields (Suc n) r =
     do { (ret, r1) \<leftarrow> mp_protobuf_skip_unknown r; if ret \<noteq> 0 then None else skip_fields n r1 }"

fun value_bytes :: "pb_value \<Rightarrow> u8 list" where
  "value_bytes (PB_varint v) = varint_bytes v"
| "value_bytes (PB_fixed64 v) = fixed64_bytes v"
| "value_bytes (PB_bytes bs) = varint_bytes (ucast (of_nat (length bs) :: size_t)) @ bs"
| "value_bytes (PB_fixed32 v) = fixed32_bytes v"

definition field_bytes :: "pb_field \<Rightarrow> u8 list" where
  "field_bytes f = varint_bytes (field_tag (fst f) (wire_of (snd f))) @ value_bytes (snd f)"

definition message_bytes :: "pb_field list \<Rightarrow> u8 list" where
  "message_bytes fs = concat (map field_bytes fs)"

fun value_ok :: "pb_value \<Rightarrow> bool" where
  "value_ok (PB_bytes bs) = (length bs < 2 ^ 32)"
| "value_ok _ = True"

definition field_ok :: "pb_field \<Rightarrow> bool" where
  "field_ok f \<longleftrightarrow> unat (fst f) < 2 ^ 29 \<and> value_ok (snd f)"

lemma wire_of_header: "field_ok (fn, v) \<Longrightarrow> header_ok (fn, wire_of v)"
  by (cases v) (auto simp: field_ok_def header_ok_def wire_type_defs)

lemma write_value_law:
  assumes "value_ok v" and "accepts w (length (value_bytes v))"
  shows "\<exists>w'. write_value (Some w) v = Some (0, Some w') \<and> appends w (value_bytes v) w'"
proof (cases v)
  case (PB_bytes bs)
  then have "mem_read bs 0 (unat (of_nat (length bs) :: size_t)) = Some bs"
    using assms(1) by (simp add: mem_read_def unat_length)
  from write_length_delimited_law [OF this] show ?thesis
    using assms(2) PB_bytes by (simp add: mp_protobuf_write_bytes_def)
qed (use assms(2) pb_uint64.write_law fixed64.write_law fixed32.write_law in \<open>simp_all\<close>)

lemma read_value_law:
  assumes "good_malloc malloc" and "value_ok v" and "remaining r (value_bytes v @ rest)"
  shows "read_value malloc (wire_of v) (Some r) = Some (Some (advance (length (value_bytes v)) r), v)"
proof (cases v)
  case (PB_varint x)
  then show ?thesis using assms(3) pb_uint64.read_law [where v = x and r = r and rest = rest and x = 0]
    by (simp add: read_value_def)
next
  case (PB_fixed64 x)
  then show ?thesis using assms(3) fixed64.read_law [where v = x and r = r and rest = rest and x = 0]
    by (simp add: read_value_def wire_type_defs)
next
  case (PB_bytes bs)
  then show ?thesis
    using assms(2,3) read_bytes_law [OF assms(1), of r "of_nat (length bs)" bs rest None 0]
    by (simp add: read_value_def wire_type_defs unat_length)
next
  case (PB_fixed32 x)
  then show ?thesis using assms(3) fixed32.read_law [where v = x and r = r and rest = rest and x = 0]
    by (simp add: read_value_def wire_type_defs)
qed

lemma skip_value_law:
  assumes "value_ok v" and "remaining r (value_bytes v @ rest)"
  shows "mp_protobuf_skip_field (Some r) (wire_of v) = Some (0, Some (advance (length (value_bytes v)) r))"
proof (cases v)
  case (PB_varint x)
  then show ?thesis using assms(2) varint.read_law [where v = x and r = r and rest = rest and x = 0]
    by (simp add: mp_protobuf_skip_field_def)
next
  case (PB_fixed64 x)
  then show ?thesis using assms(2) fixed64.read_law [where v = x and r = r and rest = rest and x = 0]
    by (simp add: mp_protobuf_skip_field_def wire_type_defs)
next
  case (PB_bytes bs)
  let ?n = "of_nat (length bs) :: size_t"
  have "mp_protobuf_read_length_delimited (Some r) None (Some 0) =
      Some (0, Some (advance (length (value_bytes v)) r), None, Some ?n)"
    using read_length_delimited_law [of r ?n bs rest None 0] assms PB_bytes by (simp add: unat_length)
  then show ?thesis
    using PB_bytes
    by (auto simp: mp_protobuf_skip_field_def mp_protobuf_read_length_delimited_def wire_type_defs
        split: bind_splits prod.splits if_splits)
next
  case (PB_fixed32 x)
  then show ?thesis using assms(2) fixed32.read_law [where v = x and r = r and rest = rest and x = 0]
    by (simp add: mp_protobuf_skip_field_def wire_type_defs)
qed

lemma read_header_law:
  assumes "field_ok (fn, v)" and "remaining r (varint_bytes (field_tag fn (wire_of v)) @ rest)"
  shows "mp_protobuf_read_field_header (Some r) (Some a) (Some b) =
    Some (0, Some (advance (length (varint_bytes (field_tag fn (wire_of v)))) r), Some fn, Some (wire_of v))"
  using varint.read_law [OF _ assms(2), of 0] field_tag_parts [OF wire_of_header [OF assms(1)]]
  by (simp add: mp_protobuf_read_field_header_def)

lemma write_message_law:
  assumes "\<forall>f \<in> set fs. field_ok f" and "accepts w (length (message_bytes fs))"
  shows "\<exists>w'. write_message (Some w) fs = Some (0, Some w') \<and> appends w (message_bytes fs) w'"
  using assms
proof (induction fs arbitrary: w)
  case Nil
  then show ?case by (simp add: message_bytes_def appends_refl accepts_def)
next
  case (Cons f fs)
  obtain fn v where f: "f = (fn, v)" by (cases f)
  let ?h = "varint_bytes (field_tag fn (wire_of v))"
  have a: "accepts w (length ?h + (length (value_bytes v) + length (message_bytes fs)))"
    using Cons.prems(2) f by (simp add: message_bytes_def field_bytes_def add.assoc)
  obtain w1 where w1: "mp_protobuf_write_field_header (Some w) fn (wire_of v) = Some (0, Some w1)" "appends w ?h w1"
    using header.write_law [of "(fn, wire_of v)" w] wire_of_header [of fn v] Cons.prems(1) f
      accepts_mono [OF a] by auto
  have a1: "accepts w1 (length (value_bytes v) + length (message_bytes fs))" using accepts_after [OF a w1(2)] .
  obtain w2 where w2: "write_value (Some w1) v = Some (0, Some w2)" "appends w1 (value_bytes v) w2"
    using write_value_law [of v w1] accepts_mono [OF a1] Cons.prems(1) f by (auto simp: field_ok_def)
  have "accepts w2 (length (message_bytes fs))" using accepts_after [OF a1 w2(2)] .
  then obtain w3 where w3: "write_message (Some w2) fs = Some (0, Some w3)" "appends w2 (message_bytes fs) w3"
    using Cons.IH [of w2] Cons.prems(1) by auto
  have "appends w (?h @ value_bytes v @ message_bytes fs) w3"
    using appends_trans [OF w1(2) appends_trans [OF w2(2) w3(2)]] .
  then show ?case using w1(1) w2(1) w3(1) f by (simp add: message_bytes_def field_bytes_def)
qed

lemma read_message_law:
  assumes "good_malloc malloc" and "\<forall>f \<in> set fs. field_ok f" and "remaining r (message_bytes fs @ rest)"
  shows "read_message malloc (length fs) (Some r) = Some (Some (advance (length (message_bytes fs)) r), fs) \<and>
    skip_fields (length fs) (Some r) = Some (Some (advance (length (message_bytes fs)) r))"
  using assms(2,3)
proof (induction fs arbitrary: r)
  case Nil
  then show ?case by (simp add: message_bytes_def)
next
  case (Cons f fs)
  obtain fn v where f: "f = (fn, v)" by (cases f)
  let ?h = "varint_bytes (field_tag fn (wire_of v))"
  let ?r1 = "advance (length ?h) r" and ?r2 = "advance (length (value_bytes v)) (advance (length ?h) r)"
  have rem: "remaining r (?h @ value_bytes v @ message_bytes fs @ rest)"
    using Cons.prems(2) f by (simp add: message_bytes_def field_bytes_def)
  have rem1: "remaining ?r1 (value_bytes v @ message_bytes fs @ rest)" using remaining_advance(1) [OF rem] .
  have rem2: "remaining ?r2 (message_bytes fs @ rest)" using remaining_advance(1) [OF rem1] .
  have ok: "field_ok (fn, v)" "value_ok v" using Cons.prems(1) f by (auto simp: field_ok_def)
  have "length (message_bytes (f # fs)) = length ?h + length (value_bytes v) + length (message_bytes fs)"
    using f by (simp add: message_bytes_def field_bytes_def)
  then show ?case
    using read_header_law [OF ok(1) rem, of 0 0] read_value_law [OF assms(1) ok(2) rem1]
      skip_value_law [OF ok(2) rem1] Cons.IH [OF _ rem2] Cons.prems(1) f
    by (simp add: mp_protobuf_skip_unknown_def)
qed

section \<open>Readers on arbitrary input\<close>

text \<open>On any input the varint loop stops inside the buffer, and a success consumes a byte.\<close>

lemma read_varint_loop_safe:
  assumes "remaining r bs"
  shows "\<exists>ret n res'. read_varint_loop shift res r = Some (ret, advance n r, res') \<and> n \<le> length bs \<and>
    (ret = 0 \<longrightarrow> 0 < n)"
  using assms
proof (induction shift res r arbitrary: bs rule: read_varint_loop.induct)
  case (1 shift res r)
  show ?case
  proof (cases bs)
    case Nil
    then have "rpos r \<ge> rlen r" using remaining_Nil 1(2) by simp
    then show ?thesis
      by (subst read_varint_loop.simps) (auto intro!: exI [of _ 0])
  next
    case (Cons x xs)
    have np: "\<not> rpos r \<ge> rlen r" using remaining_pos [OF 1(2)] Cons by simp
    have g: "get_byte r = Some (x, advance 1 r)" using get_byte_remaining 1(2) Cons by simp
    show ?thesis
    proof (cases "x AND 0x80 = 0 \<or> shift + 7 \<ge> 64")
      case True
      then show ?thesis
        using np g Cons by (subst read_varint_loop.simps) (auto simp: Let_def intro!: exI [of _ 1])
    next
      case False
      have "remaining (advance 1 r) xs" using remaining_drop [OF 1(2), of 1] Cons by simp
      then obtain ret n res' where "read_varint_loop (shift + 7) (res OR push_bit shift (ucast (x AND 0x7F))) (advance 1 r) =
          Some (ret, advance n (advance 1 r), res')" "n \<le> length xs"
        using 1(1) [OF np g refl refl _ _ , of xs] False by (auto simp: Let_def)
      then show ?thesis
        using np g Cons False by (subst read_varint_loop.simps) (auto simp: Let_def intro!: exI [of _ "Suc n"])
    qed
  qed
qed

lemma read_varint_safe:
  assumes "remaining r bs"
  shows "\<exists>ret n v. mp_protobuf_read_varint (Some r) (Some x) = Some (ret, Some (advance n r), Some v) \<and>
    n \<le> length bs \<and> (ret = 0 \<longrightarrow> 0 < n)"
  using read_varint_loop_safe [OF assms, of 0 0] by (auto simp: mp_protobuf_read_varint_def)

lemma get_bytes_safe:
  assumes "remaining r bs" and "n \<le> length bs"
  shows "get_bytes n r = Some (take n bs, advance n r)"
  using get_bytes_remaining [of r "take n bs" "drop n bs"] assms by (simp add: min_absorb2)

lemma room_check:
  assumes "remaining r bs" and "unat (rlen r) + unat k < 2 ^ 32" and "\<not> rpos r + k > rlen r"
  shows "unat k \<le> length bs"
proof -
  have "unat (rpos r) \<le> unat (rlen r)" using assms(1) by (auto simp: remaining_def word_le_nat_alt)
  then have "unat (rpos r + k) = unat (rpos r) + unat k" using assms(2) by (intro unat_add_no_overflow) simp
  then show ?thesis using assms(3) remaining_length [OF assms(1)] by (simp add: word_less_nat_alt)
qed

lemma read_fixed32_safe:
  assumes "remaining r bs" and "unat (rlen r) + 8 < 2 ^ 32"
  shows "\<exists>ret n v. mp_protobuf_read_fixed32 (Some r) (Some x) = Some (ret, Some (advance n r), Some v) \<and> n \<le> length bs"
proof (cases "rpos r + 4 > rlen r")
  case True
  then show ?thesis by (auto simp: mp_protobuf_read_fixed32_def intro!: exI [of _ 0])
next
  case False
  then have "4 \<le> length bs" using room_check [OF assms(1), of 4] assms(2) by simp
  then show ?thesis using False get_bytes_safe [OF assms(1)]
    by (auto simp: mp_protobuf_read_fixed32_def intro!: exI [of _ 4])
qed

lemma read_fixed64_safe:
  assumes "remaining r bs" and "unat (rlen r) + 8 < 2 ^ 32"
  shows "\<exists>ret n v. mp_protobuf_read_fixed64 (Some r) (Some x) = Some (ret, Some (advance n r), Some v) \<and> n \<le> length bs"
proof (cases "rpos r + 8 > rlen r")
  case True
  then show ?thesis by (auto simp: mp_protobuf_read_fixed64_def intro!: exI [of _ 0])
next
  case False
  then have "8 \<le> length bs" using room_check [OF assms(1), of 8] assms(2) by simp
  then show ?thesis using False get_bytes_safe [OF assms(1)]
    by (auto simp: mp_protobuf_read_fixed64_def intro!: exI [of _ 8])
qed

lemma skip_field_safe:
  assumes "remaining r bs" and "unat (rlen r) + 8 < 2 ^ 32"
  shows "\<exists>ret n. mp_protobuf_skip_field (Some r) wt = Some (ret, Some (advance n r)) \<and> n \<le> length bs"
proof -
  obtain ret n v where v: "mp_protobuf_read_varint (Some r) (Some 0) = Some (ret, Some (advance n r), Some v)"
    "n \<le> length bs"
    using read_varint_safe [OF assms(1)] by blast
  consider "wt = MP_PROTOBUF_VARINT" | "wt = MP_PROTOBUF_FIXED64" | "wt = MP_PROTOBUF_LENGTH_DELIMITED"
    | "wt = MP_PROTOBUF_FIXED32"
    | "wt \<noteq> MP_PROTOBUF_VARINT" "wt \<noteq> MP_PROTOBUF_FIXED64" "wt \<noteq> MP_PROTOBUF_LENGTH_DELIMITED"
      "wt \<noteq> MP_PROTOBUF_FIXED32" by blast
  then show ?thesis
  proof cases
    case 1
    then show ?thesis using v(1,2) by (simp add: mp_protobuf_skip_field_def) blast
  next
    case 2
    then show ?thesis using read_fixed64_safe [OF assms, of 0]
      by (auto simp: mp_protobuf_skip_field_def wire_type_defs)
  next
    case 4
    then show ?thesis using read_fixed32_safe [OF assms, of 0]
      by (auto simp: mp_protobuf_skip_field_def wire_type_defs)
  next
    case 5
    then show ?thesis by (auto simp: mp_protobuf_skip_field_def intro!: exI [of _ 0])
  next
    case 3
    let ?r = "advance n r"
    have rem: "remaining ?r (drop n bs)" using remaining_drop [OF assms(1) v(2)] .
    show ?thesis
    proof (cases "ret \<noteq> 0 \<or> v > ucast (rlen ?r - rpos ?r)")
      case True
      then have "mp_protobuf_skip_field (Some r) wt = Some (-1, Some ?r)"
        using v(1) 3 by (simp add: mp_protobuf_skip_field_def wire_type_defs)
      then show ?thesis using v(2) by blast
    next
      case False
      have "rpos ?r \<le> rlen ?r" using rem by (auto simp: remaining_def)
      then have "unat (rlen ?r - rpos ?r) = length (drop n bs)"
        using remaining_length [OF rem] by (simp add: unat_sub)
      then have le: "unat v \<le> length bs - n" using False by (simp add: word_less_nat_alt)
      have "(ucast v :: size_t) = of_nat (unat v)" by (simp add: unsigned_ucast_eq)
      then have "?r\<lparr>rpos := rpos ?r + ucast v\<rparr> = advance (n + unat v) r"
        by (simp add: advance_def add.assoc)
      then have "mp_protobuf_skip_field (Some r) wt = Some (0, Some (advance (n + unat v) r))"
        using v(1) 3 False by (simp add: mp_protobuf_skip_field_def wire_type_defs)
      then show ?thesis using le v(2) by (intro exI [of _ 0] exI [of _ "n + unat v"]) simp
    qed
  qed
qed

section \<open>Properties\<close>

text \<open>
  C11. A message of any fields (field numbers below \<open>2^29\<close>) that fits the writer's buffer or can
  grow it is written completely, and the bytes written read back, field by field through the
  wire types in the headers, as exactly the same message, leaving what follows; skipping as many
  unknown fields ends at the same place.
\<close>

theorem protobuf_message_roundtrip:
  assumes "\<forall>f \<in> set fs. field_ok f" and "accepts w (length (message_bytes fs))" and "good_malloc malloc"
  shows "\<exists>w' bs. write_message (Some w) fs = Some (0, Some w') \<and> written w' = written w @ bs \<and>
    (\<forall>r rest. remaining r (bs @ rest) \<longrightarrow>
       (\<exists>r'. read_message malloc (length fs) (Some r) = Some (Some r', fs) \<and>
             skip_fields (length fs) (Some r) = Some (Some r') \<and> remaining r' rest))"
proof -
  obtain w' where w': "write_message (Some w) fs = Some (0, Some w')" "appends w (message_bytes fs) w'"
    using write_message_law [OF assms(1,2)] by blast
  have "\<exists>r'. read_message malloc (length fs) (Some r) = Some (Some r', fs) \<and>
      skip_fields (length fs) (Some r) = Some (Some r') \<and> remaining r' rest"
    if "remaining r (message_bytes fs @ rest)" for r rest
    using read_message_law [OF assms(3,1) that] remaining_advance(1) [OF that] by blast
  then show ?thesis using w' by (auto simp: appends_def)
qed

theorem protobuf_message_roundtrip_witness:
  "\<exists>w' bs. write_message (Some (fresh_writer 64)) [(1, PB_varint 300), (2, PB_bytes [7, 8, 9]), (3, PB_fixed32 5)] =
     Some (0, Some w') \<and> written w' = written (fresh_writer 64) @ bs"
proof -
  let ?fs = "[(1, PB_varint 300), (2, PB_bytes [7, 8, 9]), (3, PB_fixed32 5)] :: pb_field list"
  have ok: "\<forall>f \<in> set ?fs. field_ok f" by (simp add: field_ok_def)
  have v: "length (varint_bytes x) \<le> 10" for x by (rule varint_bytes_le_10)
  have "length (message_bytes ?fs) \<le> 64"
    using v [of "field_tag 1 MP_PROTOBUF_VARINT"] v [of 300] v [of "field_tag 2 MP_PROTOBUF_LENGTH_DELIMITED"]
      v [of 3] v [of "field_tag 3 MP_PROTOBUF_FIXED32"]
    by (simp add: message_bytes_def field_bytes_def fixed32_bytes_def)
  then have "accepts (fresh_writer 64) (length (message_bytes ?fs))" by (intro fresh_writer_accepts) auto
  from protobuf_message_roundtrip [OF ok this good_malloc_zeros] show ?thesis by blast
qed

lemma varint32_length: "length (varint_bytes (ucast (x :: u32))) \<le> 5"
  using varint_bytes_length [of "ucast x" 4] unat_less_2p32 [of x] by simp

text \<open>
  Every scalar value of every type survives a write and a read, within the size the type
  promises: at most 10 bytes for 64-bit varints, 5 for 32-bit ones, 1 for a boolean, 4 and 8 for
  the fixed-width types.
\<close>

theorem protobuf_scalar_roundtrips:
  "roundtrips 10 mp_protobuf_write_uint64 mp_protobuf_read_uint64 a \<and>
   roundtrips 10 mp_protobuf_write_int64 mp_protobuf_read_int64 a \<and>
   roundtrips 10 mp_protobuf_write_sint64 mp_protobuf_read_sint64 a \<and>
   roundtrips 5 mp_protobuf_write_uint32 mp_protobuf_read_uint32 b \<and>
   roundtrips 5 mp_protobuf_write_int32 mp_protobuf_read_int32 b \<and>
   roundtrips 5 mp_protobuf_write_sint32 mp_protobuf_read_sint32 b \<and>
   roundtrips 5 mp_protobuf_write_enum mp_protobuf_read_enum b \<and>
   roundtrips 1 mp_protobuf_write_bool mp_protobuf_read_bool c \<and>
   roundtrips 4 mp_protobuf_write_fixed32 mp_protobuf_read_fixed32 b \<and>
   roundtrips 4 mp_protobuf_write_sfixed32 mp_protobuf_read_sfixed32 b \<and>
   roundtrips 4 mp_protobuf_write_float mp_protobuf_read_float b \<and>
   roundtrips 8 mp_protobuf_write_fixed64 mp_protobuf_read_fixed64 a \<and>
   roundtrips 8 mp_protobuf_write_sfixed64 mp_protobuf_read_sfixed64 a \<and>
   roundtrips 8 mp_protobuf_write_double mp_protobuf_read_double a"
proof -
  have "length (varint_bytes (if c then 1 else 0)) \<le> 1"
    using varint_bytes_length [of "if c then 1 else 0" 0] by simp
  then show ?thesis
    by (intro conjI pb_uint64.roundtrips_enc pb_int64.roundtrips_enc pb_sint64.roundtrips_enc
        pb_uint32.roundtrips_enc pb_int32.roundtrips_enc pb_sint32.roundtrips_enc pb_enum.roundtrips_enc
        pb_bool.roundtrips_enc fixed32.roundtrips_enc pb_sfixed32.roundtrips_enc pb_float.roundtrips_enc
        fixed64.roundtrips_enc pb_sfixed64.roundtrips_enc pb_double.roundtrips_enc
        varint_bytes_le_10 varint32_length)
      (simp_all add: fixed32_bytes_def fixed64_bytes_def)
qed

text \<open>
  Skipping an unknown field is safe on arbitrary bytes: it always returns, reads nothing
  outside the buffer, and leaves the reader at a position inside it; when it succeeds it has
  moved forward, so that a loop that skips fields until the end stops.
\<close>

theorem protobuf_skip_unknown_safe:
  assumes "remaining r bs" and "unat (rlen r) + 8 < 2 ^ 32"
  shows "\<exists>ret r' n. mp_protobuf_skip_unknown (Some r) = Some (ret, Some r') \<and> remaining r' (drop n bs) \<and>
    n \<le> length bs \<and> (ret = 0 \<longrightarrow> 0 < n)"
proof -
  obtain ret n v where v: "mp_protobuf_read_varint (Some r) (Some 0) = Some (ret, Some (advance n r), Some v)"
    "n \<le> length bs" "ret = 0 \<longrightarrow> 0 < n"
    using read_varint_safe [OF assms(1)] by blast
  let ?r = "advance n r"
  have rem: "remaining ?r (drop n bs)" using remaining_drop [OF assms(1) v(2)] .
  show ?thesis
  proof (cases "ret = 0")
    case False
    then show ?thesis
      using v rem by (auto simp: mp_protobuf_skip_unknown_def mp_protobuf_read_field_header_def)
  next
    case True
    have "unat (rlen ?r) + 8 < 2 ^ 32" using assms(2) by (simp add: advance_def)
    then obtain ret' k where k: "mp_protobuf_skip_field (Some ?r) (ucast (v AND 0x07)) = Some (ret', Some (advance k ?r))"
      "k \<le> length (drop n bs)"
      using skip_field_safe [OF rem] by blast
    have "remaining (advance (n + k) r) (drop (n + k) bs)"
      using remaining_drop [OF assms(1), of "n + k"] k(2) v(2) by simp
    moreover have "mp_protobuf_skip_unknown (Some r) = Some (ret', Some (advance (n + k) r))"
      using v(1) True k(1) by (simp add: mp_protobuf_skip_unknown_def mp_protobuf_read_field_header_def)
    ultimately show ?thesis using k(2) v(2,3) True by (intro exI [of _ ret'] exI) auto
  qed
qed

theorem protobuf_skip_unknown_safe_witness:
  "\<exists>ret r'. mp_protobuf_skip_unknown (Some \<lparr>rbuf = Some [0x0A, 0xFF, 0x01, 0x00], rpos = 0, rlen = 4, rowns = False\<rparr>) =
     Some (ret, Some r')"
proof -
  have "remaining \<lparr>rbuf = Some [0x0A, 0xFF, 0x01, 0x00], rpos = 0, rlen = 4, rowns = False\<rparr> [0x0A, 0xFF, 0x01, 0x00]"
    by (simp add: remaining_def)
  from protobuf_skip_unknown_safe [OF this] show ?thesis by auto
qed

text \<open>
  A writer on a fixed buffer has no overflow check: when the buffer is full, writing a varint
  (and with it every varint-encoded scalar) is an out-of-bounds store.
\<close>

theorem protobuf_full_buffer_overflow:
  assumes "writer_ok w" and "wrealloc w = None" and "wpos w = wcap w" and "unat (wcap w) + 10 \<le> 2 ^ 31"
  shows "mp_protobuf_write_varint (Some w) v = None"
proof (cases "ensure_capacity w 10")
  case (Some w')
  then have "w' = w" using assms(2) by (auto simp: ensure_capacity_def split: if_splits bind_splits)
  moreover have "put_byte x w = None" for x
    using assms(1,3) by (auto simp: put_byte_def writer_ok_def contents_def split: option.splits)
  moreover obtain x xs where "varint_bytes v = x # xs" by (cases "varint_bytes v") auto
  ultimately show ?thesis using Some by (simp add: mp_protobuf_write_varint_def write_varint_loop_bytes)
qed (simp add: mp_protobuf_write_varint_def)

theorem protobuf_full_buffer_overflow_witness:
  "mp_protobuf_write_varint (Some (fresh_writer 0)) 1 = None"
  by (rule protobuf_full_buffer_overflow) (simp_all add: fresh_writer_def writer_ok_def contents_def)

end
