(* ===== verification/Edf.thy ===== *)
theory Edf
  imports Codec
begin

text \<open>
  The Extensible Data Format of \<open>src/serialization/edf.c\<close>: typed scalars, strings, arrays and
  objects in a self-describing byte format, skipping of nested values, and the schema registry.
  The writer and reader structs have the fields of the shared ones of \<open>Codec\<close>.  A type tag is its
  byte; \<open>float\<close> and \<open>double\<close> are bit patterns; \<open>libc_realloc\<close> and \<open>malloc\<close> are the C heap.
\<close>

section \<open>Types\<close>

definition MP_EDF_NULL :: u8 where "MP_EDF_NULL = 0"
definition MP_EDF_BOOL :: u8 where "MP_EDF_BOOL = 1"
definition MP_EDF_INT8 :: u8 where "MP_EDF_INT8 = 2"
definition MP_EDF_INT16 :: u8 where "MP_EDF_INT16 = 3"
definition MP_EDF_INT32 :: u8 where "MP_EDF_INT32 = 4"
definition MP_EDF_INT64 :: u8 where "MP_EDF_INT64 = 5"
definition MP_EDF_UINT8 :: u8 where "MP_EDF_UINT8 = 6"
definition MP_EDF_UINT16 :: u8 where "MP_EDF_UINT16 = 7"
definition MP_EDF_UINT32 :: u8 where "MP_EDF_UINT32 = 8"
definition MP_EDF_UINT64 :: u8 where "MP_EDF_UINT64 = 9"
definition MP_EDF_FLOAT :: u8 where "MP_EDF_FLOAT = 10"
definition MP_EDF_DOUBLE :: u8 where "MP_EDF_DOUBLE = 11"
definition MP_EDF_STRING :: u8 where "MP_EDF_STRING = 12"
definition MP_EDF_BYTES :: u8 where "MP_EDF_BYTES = 13"
definition MP_EDF_ARRAY :: u8 where "MP_EDF_ARRAY = 14"
definition MP_EDF_OBJECT :: u8 where "MP_EDF_OBJECT = 15"
definition MP_EDF_FIXED32 :: u8 where "MP_EDF_FIXED32 = 17"
definition MP_EDF_FIXED64 :: u8 where "MP_EDF_FIXED64 = 18"
definition MP_EDF_SFIXED32 :: u8 where "MP_EDF_SFIXED32 = 19"
definition MP_EDF_SFIXED64 :: u8 where "MP_EDF_SFIXED64 = 20"

lemmas edf_type_defs = MP_EDF_NULL_def MP_EDF_BOOL_def MP_EDF_INT8_def MP_EDF_INT16_def MP_EDF_INT32_def
  MP_EDF_INT64_def MP_EDF_UINT8_def MP_EDF_UINT16_def MP_EDF_UINT32_def MP_EDF_UINT64_def MP_EDF_FLOAT_def
  MP_EDF_DOUBLE_def MP_EDF_STRING_def MP_EDF_BYTES_def MP_EDF_ARRAY_def MP_EDF_OBJECT_def
  MP_EDF_FIXED32_def MP_EDF_FIXED64_def MP_EDF_SFIXED32_def MP_EDF_SFIXED64_def

section \<open>Writers and readers\<close>

definition edf_ensure_capacity :: "mp_writer \<Rightarrow> size_t \<Rightarrow> mp_writer option" where
  "edf_ensure_capacity w needed =
     (if wpos w + needed \<le> wcap w then Some w
      else do {
        new_capacity \<leftarrow> grow_loop (wpos w + needed) (if wcap w = 0 then 256 else wcap w * 2);
        case wrealloc w of None \<Rightarrow> Some w
        | Some f \<Rightarrow>
            (case f (wbuf w) new_capacity of None \<Rightarrow> Some w
             | Some b \<Rightarrow> Some (w\<lparr>wbuf := Some b, wcap := new_capacity, wowns := True\<rparr>)) })"

definition mp_edf_writer_init ::
  "mp_writer option \<Rightarrow> u8 list option \<Rightarrow> size_t \<Rightarrow> int \<times> mp_writer option" where
  "mp_edf_writer_init writer buffer capacity =
     (if writer = None then (-1, writer)
      else (0, Some \<lparr>wbuf = buffer, wpos = 0, wcap = capacity, wowns = False, wrealloc = None,
                     walloc_data = None\<rparr>))"

definition mp_edf_writer_init_dynamic ::
  "(u8 list option \<Rightarrow> size_t \<Rightarrow> u8 list option) \<Rightarrow> mp_writer option \<Rightarrow> size_t \<Rightarrow>
   (u8 list option \<Rightarrow> size_t \<Rightarrow> u8 list option) option \<Rightarrow> nat option \<Rightarrow> int \<times> mp_writer option" where
  "mp_edf_writer_init_dynamic libc_realloc writer initial_capacity realloc_fn data =
     (if writer = None then (-1, writer)
      else
        let f = (case realloc_fn of None \<Rightarrow> libc_realloc | Some g \<Rightarrow> g);
            w = \<lparr>wbuf = None, wpos = 0, wcap = 0, wowns = True, wrealloc = Some f, walloc_data = data\<rparr>
        in if initial_capacity > 0
           then (case f None initial_capacity of
                   None \<Rightarrow> (-1, Some w)
                 | Some b \<Rightarrow> (0, Some (w\<lparr>wbuf := Some b, wcap := initial_capacity\<rparr>)))
           else (0, Some w))"

definition mp_edf_writer_destroy :: "mp_writer option \<Rightarrow> mp_writer option \<times> bool" where
  "mp_edf_writer_destroy writer =
     (case writer of None \<Rightarrow> (writer, False)
      | Some w \<Rightarrow> (Some (w\<lparr>wbuf := None, wpos := 0, wcap := 0, wowns := False\<rparr>),
                   wowns w \<and> wbuf w \<noteq> None \<and> wrealloc w \<noteq> None))"

definition mp_edf_writer_reset :: "mp_writer option \<Rightarrow> mp_writer option" where
  "mp_edf_writer_reset writer = map_option (\<lambda>w. w\<lparr>wpos := 0\<rparr>) writer"

definition mp_edf_writer_get_data :: "mp_writer option \<Rightarrow> buffer_view" where
  "mp_edf_writer_get_data writer =
     (case writer of
        Some w \<Rightarrow>
          if wbuf w = None
          then \<lparr>bv_data = None, bv_length = 0, bv_capacity = 0, bv_offset = 0, bv_owns_data = False\<rparr>
          else \<lparr>bv_data = wbuf w, bv_length = wpos w, bv_capacity = wcap w, bv_offset = 0, bv_owns_data = False\<rparr>
      | None \<Rightarrow> \<lparr>bv_data = None, bv_length = 0, bv_capacity = 0, bv_offset = 0, bv_owns_data = False\<rparr>)"

definition mp_edf_writer_get_length :: "mp_writer option \<Rightarrow> size_t" where
  "mp_edf_writer_get_length writer = (case writer of None \<Rightarrow> 0 | Some w \<Rightarrow> wpos w)"

definition mp_edf_reader_init ::
  "mp_reader option \<Rightarrow> u8 list option \<Rightarrow> size_t \<Rightarrow> int \<times> mp_reader option" where
  "mp_edf_reader_init reader buffer len =
     (if reader = None then (-1, reader)
      else (0, Some \<lparr>rbuf = buffer, rpos = 0, rlen = len, rowns = False\<rparr>))"

definition mp_edf_reader_init_from_view :: "mp_reader option \<Rightarrow> buffer_view option \<Rightarrow> int \<times> mp_reader option" where
  "mp_edf_reader_init_from_view reader view =
     (case (reader, view) of
        (Some r, Some v) \<Rightarrow>
          if bv_data v = None then (-1, reader) else mp_edf_reader_init reader (bv_data v) (bv_length v)
      | _ \<Rightarrow> (-1, reader))"

definition mp_edf_reader_destroy :: "mp_reader option \<Rightarrow> mp_reader option \<times> bool" where
  "mp_edf_reader_destroy reader =
     (case reader of None \<Rightarrow> (reader, False)
      | Some r \<Rightarrow> (Some \<lparr>rbuf = None, rpos = 0, rlen = 0, rowns = False\<rparr>, rowns r \<and> rbuf r \<noteq> None))"

definition mp_edf_reader_remaining :: "mp_reader option \<Rightarrow> size_t" where
  "mp_edf_reader_remaining reader = (case reader of None \<Rightarrow> 0 | Some r \<Rightarrow> rlen r - rpos r)"

definition mp_edf_reader_position :: "mp_reader option \<Rightarrow> size_t" where
  "mp_edf_reader_position reader = (case reader of None \<Rightarrow> 0 | Some r \<Rightarrow> rpos r)"

definition mp_edf_reader_set_position :: "mp_reader option \<Rightarrow> size_t \<Rightarrow> int \<times> mp_reader option" where
  "mp_edf_reader_set_position reader position =
     (case reader of None \<Rightarrow> (-1, reader)
      | Some r \<Rightarrow> if position > rlen r then (-1, reader) else (0, Some (r\<lparr>rpos := position\<rparr>)))"

section \<open>Bytes and type tags\<close>

text \<open>The operations that store or load one byte differ only in its conversion.\<close>

definition edf_write_byte :: "mp_writer option \<Rightarrow> u8 \<Rightarrow> wresult" where
  "edf_write_byte writer x =
     (case writer of None \<Rightarrow> Some (-1, writer)
      | Some w \<Rightarrow> do { w1 \<leftarrow> edf_ensure_capacity w 1; w2 \<leftarrow> put_byte x w1; Some (0, Some w2) })"

definition edf_read_byte :: "(u8 \<Rightarrow> 'v) \<Rightarrow> mp_reader option \<Rightarrow> 'v option \<Rightarrow> 'v rresult" where
  "edf_read_byte conv reader val =
     (case (reader, val) of
        (Some r, Some x) \<Rightarrow>
          if rpos r \<ge> rlen r then Some (-1, reader, val)
          else do { (b, r') \<leftarrow> get_byte r; Some (0, Some r', Some (conv b)) }
      | _ \<Rightarrow> Some (-1, reader, val))"

definition mp_edf_write_type :: "mp_writer option \<Rightarrow> u8 \<Rightarrow> wresult" where
  "mp_edf_write_type writer t = edf_write_byte writer t"

definition mp_edf_read_type :: "mp_reader option \<Rightarrow> u8 option \<Rightarrow> u8 rresult" where
  "mp_edf_read_type = edf_read_byte (\<lambda>b. b)"

definition mp_edf_write_bool :: "mp_writer option \<Rightarrow> bool \<Rightarrow> wresult" where
  "mp_edf_write_bool writer v = edf_write_byte writer (if v then 1 else 0)"

definition mp_edf_read_bool :: "mp_reader option \<Rightarrow> bool option \<Rightarrow> bool rresult" where
  "mp_edf_read_bool = edf_read_byte (\<lambda>b. b \<noteq> 0)"

definition mp_edf_write_int8 :: "mp_writer option \<Rightarrow> u8 \<Rightarrow> wresult" where
  "mp_edf_write_int8 writer v = edf_write_byte writer v"

definition mp_edf_read_int8 :: "mp_reader option \<Rightarrow> u8 option \<Rightarrow> u8 rresult" where
  "mp_edf_read_int8 = edf_read_byte (\<lambda>b. b)"

definition mp_edf_write_uint8 :: "mp_writer option \<Rightarrow> u8 \<Rightarrow> wresult" where
  "mp_edf_write_uint8 writer v = edf_write_byte writer v"

definition mp_edf_read_uint8 :: "mp_reader option \<Rightarrow> u8 option \<Rightarrow> u8 rresult" where
  "mp_edf_read_uint8 = edf_read_byte (\<lambda>b. b)"

definition mp_edf_write_object_end :: "mp_writer option \<Rightarrow> wresult" where
  "mp_edf_write_object_end writer = edf_write_byte writer 0xFF"

definition mp_edf_read_object_end :: "mp_reader option \<Rightarrow> (int \<times> mp_reader option) option" where
  "mp_edf_read_object_end reader =
     (case reader of None \<Rightarrow> Some (-1, reader)
      | Some r \<Rightarrow>
          if rpos r \<ge> rlen r then Some (-1, reader)
          else do { (b, r') \<leftarrow> get_byte r; if b \<noteq> 0xFF then Some (-1, Some r') else Some (0, Some r') })"

section \<open>Varints\<close>

text \<open>The loop of \<open>mp_edf_write_field_header\<close> and \<open>mp_edf_write_length\<close>; both count in 32 bits.\<close>

function edf_varint_loop :: "u32 \<Rightarrow> mp_writer \<Rightarrow> mp_writer option" where
  "edf_varint_loop v w =
     (if v \<ge> 0x80
      then do { w1 \<leftarrow> edf_ensure_capacity w 1; w2 \<leftarrow> put_byte (ucast (v OR 0x80)) w1; edf_varint_loop (drop_bit 7 v) w2 }
      else do { w1 \<leftarrow> edf_ensure_capacity w 1; put_byte (ucast v) w1 })"
  by pat_completeness auto

lemma drop7_decreases_u32: "(v :: u32) \<ge> 0x80 \<Longrightarrow> unat (drop_bit 7 v) < unat v"
proof -
  assume "v \<ge> 0x80"
  then have "128 \<le> unat v" by (simp add: word_le_nat_alt)
  moreover have "unat (drop_bit 7 v) = unat v div 128"
    by (simp only: unat_drop_bit_eq) (simp add: drop_bit_eq_div)
  ultimately show ?thesis by simp
qed

termination edf_varint_loop
  by (relation "measure (\<lambda>(v, w). unat v)") (auto intro: drop7_decreases_u32)

function read_id_loop :: "nat \<Rightarrow> u32 \<Rightarrow> mp_reader \<Rightarrow> (int \<times> mp_reader \<times> u32) option" where
  "read_id_loop shift result r =
     (if rpos r \<ge> rlen r then Some (-1, r, result)
      else do {
        (byte, r') \<leftarrow> get_byte r;
        let result' = result OR push_bit shift (ucast (byte AND 0x7F));
        if byte AND 0x80 = 0 then Some (0, r', result')
        else if shift + 7 \<ge> 32 then Some (-1, r', result')
        else read_id_loop (shift + 7) result' r' })"
  by pat_completeness auto

termination read_id_loop
  by (relation "measure (\<lambda>(shift, result, r). 32 - shift)") auto

text \<open>\<open>size_t\<close> has 32 bits but the overflow check allows shifts up to 63: a shift of 32 or more is undefined.\<close>

function read_length_loop :: "nat \<Rightarrow> size_t \<Rightarrow> mp_reader \<Rightarrow> (int \<times> mp_reader \<times> size_t) option" where
  "read_length_loop shift result r =
     (if rpos r \<ge> rlen r then Some (-1, r, result)
      else do {
        (byte, r') \<leftarrow> get_byte r;
        (if shift \<ge> 32 then None
         else
           let result' = result OR push_bit shift (ucast (byte AND 0x7F))
           in if byte AND 0x80 = 0 then Some (0, r', result')
              else if shift + 7 \<ge> 64 then Some (-1, r', result')
              else read_length_loop (shift + 7) result' r') })"
  by pat_completeness auto

termination read_length_loop
  by (relation "measure (\<lambda>(shift, result, r). 64 - shift)") auto

definition mp_edf_write_length :: "mp_writer option \<Rightarrow> size_t \<Rightarrow> wresult" where
  "mp_edf_write_length writer len =
     (case writer of None \<Rightarrow> Some (-1, writer)
      | Some w \<Rightarrow> do { w' \<leftarrow> edf_varint_loop len w; Some (0, Some w') })"

definition mp_edf_read_length :: "mp_reader option \<Rightarrow> size_t option \<Rightarrow> size_t rresult" where
  "mp_edf_read_length reader len =
     (case (reader, len) of
        (Some r, Some x) \<Rightarrow>
          do { (ret, r', result) \<leftarrow> read_length_loop 0 0 r;
               Some (ret, Some r', Some (if ret = 0 then result else x)) }
      | _ \<Rightarrow> Some (-1, reader, len))"

definition mp_edf_write_field_header :: "mp_writer option \<Rightarrow> u32 \<Rightarrow> u8 \<Rightarrow> wresult" where
  "mp_edf_write_field_header writer field_id t =
     (case writer of None \<Rightarrow> Some (-1, writer)
      | Some w \<Rightarrow> do { w' \<leftarrow> edf_varint_loop field_id w; mp_edf_write_type (Some w') t })"

definition mp_edf_read_field_header ::
  "mp_reader option \<Rightarrow> u32 option \<Rightarrow> u8 option \<Rightarrow> (int \<times> mp_reader option \<times> u32 option \<times> u8 option) option" where
  "mp_edf_read_field_header reader field_id t =
     (case (reader, field_id, t) of
        (Some r, Some f, Some y) \<Rightarrow>
          do { (ret, r', ident) \<leftarrow> read_id_loop 0 0 r;
               if ret \<noteq> 0 then Some (-1, Some r', field_id, t)
               else do { (ret, r2, t') \<leftarrow> mp_edf_read_type (Some r') t; Some (ret, r2, Some ident, t') } }
      | _ \<Rightarrow> Some (-1, reader, field_id, t))"

section \<open>Fixed-width integers\<close>

text \<open>
  The bytes of an integer are written after one \<open>ensure_capacity\<close>.  The readers combine them with
  \<open>|\<close> and \<open><<\<close> on promoted \<open>int\<close>s: a shift by 32 or more is undefined.
\<close>

definition edf_write_raw :: "size_t \<Rightarrow> mp_writer option \<Rightarrow> u8 list \<Rightarrow> wresult" where
  "edf_write_raw n writer bs =
     (case writer of None \<Rightarrow> Some (-1, writer)
      | Some w \<Rightarrow> do { w1 \<leftarrow> edf_ensure_capacity w n; w2 \<leftarrow> put_bytes bs w1; Some (0, Some w2) })"

fun or_int_bytes :: "nat \<Rightarrow> u8 list \<Rightarrow> u32 option" where
  "or_int_bytes shift [] = Some 0"
| "or_int_bytes shift (b # bs) =
     (if shift \<ge> 32 then None
      else do { v \<leftarrow> or_int_bytes (shift + 8) bs; Some (push_bit shift (ucast b) OR v) })"

definition edf_read_raw :: "size_t \<Rightarrow> (u32 \<Rightarrow> 'v) \<Rightarrow> mp_reader option \<Rightarrow> 'v option \<Rightarrow> 'v rresult" where
  "edf_read_raw n conv reader val =
     (case (reader, val) of
        (Some r, Some x) \<Rightarrow>
          if rpos r + n > rlen r then Some (-1, reader, val)
          else do { (bs, r') \<leftarrow> get_bytes (unat n) r; v \<leftarrow> or_int_bytes 0 bs; Some (0, Some r', Some (conv v)) }
      | _ \<Rightarrow> Some (-1, reader, val))"

definition mp_edf_write_int16 :: "mp_writer option \<Rightarrow> u16 \<Rightarrow> wresult" where
  "mp_edf_write_int16 writer v = edf_write_raw 2 writer (fixed16_bytes v)"

definition mp_edf_read_int16 :: "mp_reader option \<Rightarrow> u16 option \<Rightarrow> u16 rresult" where
  "mp_edf_read_int16 = edf_read_raw 2 ucast"

definition mp_edf_write_int32 :: "mp_writer option \<Rightarrow> u32 \<Rightarrow> wresult" where
  "mp_edf_write_int32 writer v = edf_write_raw 4 writer (fixed32_bytes v)"

definition mp_edf_read_int32 :: "mp_reader option \<Rightarrow> u32 option \<Rightarrow> u32 rresult" where
  "mp_edf_read_int32 = edf_read_raw 4 (\<lambda>v. v)"

definition mp_edf_write_int64 :: "mp_writer option \<Rightarrow> u64 \<Rightarrow> wresult" where
  "mp_edf_write_int64 writer v = edf_write_raw 8 writer (fixed64_bytes v)"

definition mp_edf_read_int64 :: "mp_reader option \<Rightarrow> u64 option \<Rightarrow> u64 rresult" where
  "mp_edf_read_int64 = edf_read_raw 8 scast"

definition mp_edf_write_uint16 :: "mp_writer option \<Rightarrow> u16 \<Rightarrow> wresult" where
  "mp_edf_write_uint16 writer v = edf_write_raw 2 writer (fixed16_bytes v)"

definition mp_edf_read_uint16 :: "mp_reader option \<Rightarrow> u16 option \<Rightarrow> u16 rresult" where
  "mp_edf_read_uint16 = edf_read_raw 2 ucast"

definition mp_edf_write_uint32 :: "mp_writer option \<Rightarrow> u32 \<Rightarrow> wresult" where
  "mp_edf_write_uint32 writer v = edf_write_raw 4 writer (fixed32_bytes v)"

definition mp_edf_read_uint32 :: "mp_reader option \<Rightarrow> u32 option \<Rightarrow> u32 rresult" where
  "mp_edf_read_uint32 = edf_read_raw 4 (\<lambda>v. v)"

definition mp_edf_write_uint64 :: "mp_writer option \<Rightarrow> u64 \<Rightarrow> wresult" where
  "mp_edf_write_uint64 writer v = edf_write_raw 8 writer (fixed64_bytes v)"

definition mp_edf_read_uint64 :: "mp_reader option \<Rightarrow> u64 option \<Rightarrow> u64 rresult" where
  "mp_edf_read_uint64 = edf_read_raw 8 scast"

definition mp_edf_write_float :: "mp_writer option \<Rightarrow> u32 \<Rightarrow> wresult" where
  "mp_edf_write_float writer bits = (if writer = None then Some (-1, writer) else mp_edf_write_uint32 writer bits)"

definition mp_edf_read_float :: "mp_reader option \<Rightarrow> u32 option \<Rightarrow> u32 rresult" where
  "mp_edf_read_float reader val =
     (if reader = None \<or> val = None then Some (-1, reader, val)
      else do { (ret, reader1, bits) \<leftarrow> mp_edf_read_uint32 reader (Some 0);
                if ret \<noteq> 0 then Some (-1, reader1, val) else Some (0, reader1, bits) })"

definition mp_edf_write_double :: "mp_writer option \<Rightarrow> u64 \<Rightarrow> wresult" where
  "mp_edf_write_double writer bits = (if writer = None then Some (-1, writer) else mp_edf_write_uint64 writer bits)"

definition mp_edf_read_double :: "mp_reader option \<Rightarrow> u64 option \<Rightarrow> u64 rresult" where
  "mp_edf_read_double reader val =
     (if reader = None \<or> val = None then Some (-1, reader, val)
      else do { (ret, reader1, bits) \<leftarrow> mp_edf_read_uint64 reader (Some 0);
                if ret \<noteq> 0 then Some (-1, reader1, val) else Some (0, reader1, bits) })"

section \<open>Strings and bytes\<close>

definition mp_edf_write_string_with_length :: "mp_writer option \<Rightarrow> u8 list option \<Rightarrow> size_t \<Rightarrow> wresult" where
  "mp_edf_write_string_with_length writer str len =
     (if writer = None \<or> (str = None \<and> len > 0) then Some (-1, writer)
      else do {
        (ret, writer1) \<leftarrow> mp_edf_write_length writer len;
        if ret \<noteq> 0 then Some (-1, writer1)
        else do {
          w1 \<leftarrow> writer1;
          w2 \<leftarrow> edf_ensure_capacity w1 len;
          if wpos w2 + len > wcap w2 then Some (-1, Some w2)
          else do { w3 \<leftarrow> put_block str len w2; Some (0, Some w3) } } })"

definition mp_edf_write_string :: "mp_writer option \<Rightarrow> u8 list option \<Rightarrow> wresult" where
  "mp_edf_write_string writer str =
     (case (writer, str) of
        (Some w, Some s) \<Rightarrow> do { n \<leftarrow> c_strlen s; mp_edf_write_string_with_length writer str (of_nat n) }
      | _ \<Rightarrow> Some (-1, writer))"

text \<open>\<open>*str\<close> is a pointer to a fresh block: its bytes, or \<^term>\<open>None\<close> for \<open>NULL\<close>.\<close>

definition mp_edf_read_string ::
  "(size_t \<Rightarrow> u8 list option) \<Rightarrow> mp_reader option \<Rightarrow> u8 list option option \<Rightarrow> size_t option \<Rightarrow>
   (int \<times> mp_reader option \<times> u8 list option option \<times> size_t option) option" where
  "mp_edf_read_string malloc reader str len =
     (if reader = None \<or> len = None then Some (-1, reader, str, len)
      else do {
        (ret, reader1, len1) \<leftarrow> mp_edf_read_length reader len;
        r \<leftarrow> reader1;
        n \<leftarrow> len1;
        if ret \<noteq> 0 then Some (-1, reader1, str, len1)
        else if rpos r + n > rlen r then Some (-1, reader1, str, len1)
        else if str = None then Some (0, Some (r\<lparr>rpos := rpos r + n\<rparr>), str, len1)
        else (case malloc (n + 1) of None \<Rightarrow> Some (-1, reader1, Some None, len1)
              | Some block \<Rightarrow> do {
                  b \<leftarrow> rbuf r;
                  d \<leftarrow> mem_read b (unat (rpos r)) (unat n);
                  block1 \<leftarrow> mem_write block 0 d;
                  block2 \<leftarrow> mem_write block1 (unat n) [0];
                  Some (0, Some (r\<lparr>rpos := rpos r + n\<rparr>), Some (Some block2), len1) }) })"

definition mp_edf_write_bytes :: "mp_writer option \<Rightarrow> u8 list option \<Rightarrow> size_t \<Rightarrow> wresult" where
  "mp_edf_write_bytes writer data len =
     (if writer = None \<or> (data = None \<and> len > 0) then Some (-1, writer)
      else do {
        (ret, writer1) \<leftarrow> mp_edf_write_length writer len;
        if ret \<noteq> 0 then Some (-1, writer1)
        else do {
          w1 \<leftarrow> writer1;
          w2 \<leftarrow> edf_ensure_capacity w1 len;
          if wpos w2 + len > wcap w2 then Some (-1, Some w2)
          else do { w3 \<leftarrow> put_block data len w2; Some (0, Some w3) } } })"

definition mp_edf_read_bytes ::
  "(size_t \<Rightarrow> u8 list option) \<Rightarrow> mp_reader option \<Rightarrow> u8 list option option \<Rightarrow> size_t option \<Rightarrow>
   (int \<times> mp_reader option \<times> u8 list option option \<times> size_t option) option" where
  "mp_edf_read_bytes malloc reader data len =
     (if reader = None \<or> len = None then Some (-1, reader, data, len)
      else do {
        (ret, reader1, len1) \<leftarrow> mp_edf_read_length reader len;
        r \<leftarrow> reader1;
        n \<leftarrow> len1;
        if ret \<noteq> 0 then Some (-1, reader1, data, len1)
        else if rpos r + n > rlen r then Some (-1, reader1, data, len1)
        else if data = None then Some (0, Some (r\<lparr>rpos := rpos r + n\<rparr>), data, len1)
        else (case malloc n of None \<Rightarrow> Some (-1, reader1, Some None, len1)
              | Some block \<Rightarrow> do {
                  b \<leftarrow> rbuf r;
                  d \<leftarrow> mem_read b (unat (rpos r)) (unat n);
                  block1 \<leftarrow> mem_write block 0 d;
                  Some (0, Some (r\<lparr>rpos := rpos r + n\<rparr>), Some (Some block1), len1) }) })"

section \<open>Null, arrays and objects\<close>

definition mp_edf_write_null :: "mp_writer option \<Rightarrow> wresult" where
  "mp_edf_write_null writer =
     (if writer = None then Some (-1, writer) else mp_edf_write_type writer MP_EDF_NULL)"

definition mp_edf_read_null :: "mp_reader option \<Rightarrow> (int \<times> mp_reader option) option" where
  "mp_edf_read_null reader =
     (if reader = None then Some (-1, reader)
      else do { (ret, reader1, t) \<leftarrow> mp_edf_read_type reader (Some 0);
                if ret \<noteq> 0 then Some (-1, reader1)
                else if t \<noteq> Some MP_EDF_NULL then Some (-1, reader1) else Some (0, reader1) })"

definition mp_edf_write_array_header :: "mp_writer option \<Rightarrow> u8 \<Rightarrow> size_t \<Rightarrow> wresult" where
  "mp_edf_write_array_header writer element_type count =
     (if writer = None then Some (-1, writer)
      else do {
        (ret, writer1) \<leftarrow> mp_edf_write_type writer MP_EDF_ARRAY;
        if ret \<noteq> 0 then Some (-1, writer1)
        else do {
          (ret, writer2) \<leftarrow> mp_edf_write_type writer1 element_type;
          if ret \<noteq> 0 then Some (-1, writer2) else mp_edf_write_length writer2 count } })"

definition mp_edf_read_array_header ::
  "mp_reader option \<Rightarrow> u8 option \<Rightarrow> size_t option \<Rightarrow> (int \<times> mp_reader option \<times> u8 option \<times> size_t option) option" where
  "mp_edf_read_array_header reader element_type count =
     (if reader = None \<or> element_type = None \<or> count = None then Some (-1, reader, element_type, count)
      else do {
        (ret, reader1, t) \<leftarrow> mp_edf_read_type reader (Some 0);
        if ret \<noteq> 0 then Some (-1, reader1, element_type, count)
        else if t \<noteq> Some MP_EDF_ARRAY then Some (-1, reader1, element_type, count)
        else do {
          (ret, reader2, et) \<leftarrow> mp_edf_read_type reader1 element_type;
          if ret \<noteq> 0 then Some (-1, reader2, et, count)
          else do { (ret, reader3, n) \<leftarrow> mp_edf_read_length reader2 count; Some (ret, reader3, et, n) } } })"

definition mp_edf_write_object_header :: "mp_writer option \<Rightarrow> u32 \<Rightarrow> wresult" where
  "mp_edf_write_object_header writer schema_id =
     (if writer = None then Some (-1, writer)
      else do {
        (ret, writer1) \<leftarrow> mp_edf_write_type writer MP_EDF_OBJECT;
        if ret \<noteq> 0 then Some (-1, writer1) else mp_edf_write_uint32 writer1 schema_id })"

definition mp_edf_read_object_header :: "mp_reader option \<Rightarrow> u32 option \<Rightarrow> u32 rresult" where
  "mp_edf_read_object_header reader schema_id =
     (if reader = None \<or> schema_id = None then Some (-1, reader, schema_id)
      else do {
        (ret, reader1, t) \<leftarrow> mp_edf_read_type reader (Some 0);
        if ret \<noteq> 0 then Some (-1, reader1, schema_id)
        else if t \<noteq> Some MP_EDF_OBJECT then Some (-1, reader1, schema_id)
        else mp_edf_read_uint32 reader1 schema_id })"

section \<open>Skipping\<close>

text \<open>
  \<open>mp_edf_skip_value\<close> and its two loops, as jobs of one recursive function: a value of a type, the
  array elements from \<open>i\<close> to \<open>count\<close>, the fields of an object up to the end marker.  The position
  is advanced without a check, so it may pass the end of the buffer or wrap around; the result is
  \<^term>\<open>None\<close> when the call reads outside the buffer or never returns.
\<close>

datatype skip_job = Skip_value u8 | Skip_elements u8 size_t size_t | Skip_fields

definition scalar_width :: "u8 \<Rightarrow> size_t option" where
  "scalar_width t =
     (if t = MP_EDF_NULL then Some 0
      else if t = MP_EDF_BOOL \<or> t = MP_EDF_INT8 \<or> t = MP_EDF_UINT8 then Some 1
      else if t = MP_EDF_INT16 \<or> t = MP_EDF_UINT16 then Some 2
      else if t = MP_EDF_INT32 \<or> t = MP_EDF_UINT32 \<or> t = MP_EDF_FLOAT \<or> t = MP_EDF_FIXED32 \<or> t = MP_EDF_SFIXED32
      then Some 4
      else if t = MP_EDF_INT64 \<or> t = MP_EDF_UINT64 \<or> t = MP_EDF_DOUBLE \<or> t = MP_EDF_FIXED64 \<or> t = MP_EDF_SFIXED64
      then Some 8
      else None)"

partial_function (option) skip_run :: "skip_job \<Rightarrow> mp_reader \<Rightarrow> (int \<times> mp_reader) option" where
  "skip_run job r =
     (case job of
        Skip_value t \<Rightarrow>
          (case scalar_width t of
             Some n \<Rightarrow> Some (0, r\<lparr>rpos := rpos r + n\<rparr>)
           | None \<Rightarrow>
               if t = MP_EDF_STRING \<or> t = MP_EDF_BYTES
               then Option.bind (mp_edf_read_length (Some r) (Some 0)) (\<lambda>(ret, reader1, len).
                      Option.bind reader1 (\<lambda>r1. Option.bind len (\<lambda>n.
                        if ret \<noteq> 0 then Some (-1, r1) else Some (0, r1\<lparr>rpos := rpos r1 + n\<rparr>))))
               else if t = MP_EDF_ARRAY
               then Option.bind (mp_edf_read_array_header (Some r) (Some 0) (Some 0)) (\<lambda>(ret, reader1, element_type, count).
                      Option.bind reader1 (\<lambda>r1. Option.bind element_type (\<lambda>et. Option.bind count (\<lambda>n.
                        if ret \<noteq> 0 then Some (-1, r1) else skip_run (Skip_elements et 0 n) r1))))
               else if t = MP_EDF_OBJECT
               then Option.bind (mp_edf_read_object_header (Some r) (Some 0)) (\<lambda>(ret, reader1, schema_id).
                      Option.bind reader1 (\<lambda>r1.
                        if ret \<noteq> 0 then Some (-1, r1) else skip_run Skip_fields r1))
               else Some (-1, r))
      | Skip_elements t i count \<Rightarrow>
          if i < count
          then Option.bind (skip_run (Skip_value t) r) (\<lambda>(ret, r1).
                 if ret \<noteq> 0 then Some (-1, r1) else skip_run (Skip_elements t (i + 1) count) r1)
          else Some (0, r)
      | Skip_fields \<Rightarrow>
          if rpos r < rlen r
          then Option.bind (get_byte r) (\<lambda>(b, r0).
                 if b = 0xFF then Some (0, r0)
                 else Option.bind (mp_edf_read_field_header (Some r) (Some 0) (Some 0)) (\<lambda>(ret, reader1, field_id, field_type).
                        Option.bind reader1 (\<lambda>r1. Option.bind field_type (\<lambda>t.
                          if ret \<noteq> 0 then Some (-1, r1)
                          else Option.bind (skip_run (Skip_value t) r1) (\<lambda>(ret, r2).
                                 if ret \<noteq> 0 then Some (-1, r2) else skip_run Skip_fields r2)))))
          else Some (0, r))"

definition mp_edf_skip_value :: "mp_reader option \<Rightarrow> u8 \<Rightarrow> (int \<times> mp_reader option) option" where
  "mp_edf_skip_value reader t =
     (case reader of None \<Rightarrow> Some (-1, reader)
      | Some r \<Rightarrow> do { (ret, r') \<leftarrow> skip_run (Skip_value t) r; Some (ret, Some r') })"

definition mp_edf_skip_field :: "mp_reader option \<Rightarrow> (int \<times> mp_reader option) option" where
  "mp_edf_skip_field reader =
     (if reader = None then Some (-1, reader)
      else do {
        (ret, reader1, _, t) \<leftarrow> mp_edf_read_field_header reader (Some 0) (Some 0);
        ty \<leftarrow> t;
        if ret \<noteq> 0 then Some (-1, reader1) else mp_edf_skip_value reader1 ty })"

section \<open>Schema registry\<close>

text \<open>
  A schema is known by its address; \<open>heap\<close> holds the structs.  \<open>registered_schemas\<close> is the array of
  \<open>MAX_REGISTERED_SCHEMAS\<close> pointers.
\<close>

record mp_edf_field =
  field_name :: "string option"
  field_id :: u32
  field_type :: u8
  field_required :: bool
  field_repeated :: bool
  field_type_name :: "string option"
  field_offset :: size_t
  field_size :: size_t

record mp_edf_schema =
  schema_name :: "string option"
  schema_version :: u32
  schema_fields :: "mp_edf_field list"
  schema_field_count :: size_t
  schema_struct_size :: size_t

record schema_registry =
  registered_schemas :: "nat option list"
  registered_schema_count :: nat

definition MAX_REGISTERED_SCHEMAS :: nat where "MAX_REGISTERED_SCHEMAS = 64"

definition empty_registry :: schema_registry where
  "empty_registry = \<lparr>registered_schemas = replicate MAX_REGISTERED_SCHEMAS None, registered_schema_count = 0\<rparr>"

definition mp_edf_register_schema :: "schema_registry \<Rightarrow> nat option \<Rightarrow> int \<times> schema_registry" where
  "mp_edf_register_schema g schema =
     (if schema = None \<or> registered_schema_count g \<ge> MAX_REGISTERED_SCHEMAS then (-1, g)
      else if \<exists>i \<in> set [0..<registered_schema_count g]. registered_schemas g ! i = schema then (0, g)
      else (0, \<lparr>registered_schemas = (registered_schemas g)[registered_schema_count g := schema],
                registered_schema_count = registered_schema_count g + 1\<rparr>))"

definition mp_edf_get_schema :: "schema_registry \<Rightarrow> u32 \<Rightarrow> nat option" where
  "mp_edf_get_schema g schema_id = None"

definition named_schema :: "(nat \<Rightarrow> mp_edf_schema) \<Rightarrow> schema_registry \<Rightarrow> string \<Rightarrow> nat \<Rightarrow> bool" where
  "named_schema heap g name i \<longleftrightarrow>
     (case registered_schemas g ! i of None \<Rightarrow> False
      | Some p \<Rightarrow> schema_name (heap p) = Some name)"

definition mp_edf_get_schema_by_name ::
  "(nat \<Rightarrow> mp_edf_schema) \<Rightarrow> schema_registry \<Rightarrow> string option \<Rightarrow> nat option" where
  "mp_edf_get_schema_by_name heap g name =
     (case name of None \<Rightarrow> None
      | Some s \<Rightarrow>
          (case find (named_schema heap g s) [0..<registered_schema_count g] of
             None \<Rightarrow> None | Some i \<Rightarrow> registered_schemas g ! i))"

section \<open>Messages\<close>

text \<open>Schema-driven encoding is not implemented in the source: the functions refuse.\<close>

definition mp_edf_encode_message :: "mp_writer option \<Rightarrow> nat option \<Rightarrow> 'd \<Rightarrow> int \<times> mp_writer option" where
  "mp_edf_encode_message writer schema data = (-1, writer)"

definition mp_edf_decode_message :: "mp_reader option \<Rightarrow> nat option \<Rightarrow> 'd \<Rightarrow> int \<times> mp_reader option" where
  "mp_edf_decode_message reader schema data = (-1, reader)"

definition mp_edf_encode_to_buffer :: "mp_writer \<Rightarrow> u8 list option \<Rightarrow> size_t \<Rightarrow> nat option \<Rightarrow> 'd \<Rightarrow> int" where
  "mp_edf_encode_to_buffer uninit buffer capacity schema data =
     (case mp_edf_writer_init (Some uninit) buffer capacity of (ret, writer) \<Rightarrow>
        if ret \<noteq> 0 then -1
        else (case mp_edf_encode_message writer schema data of (ret, writer') \<Rightarrow>
                if ret \<noteq> 0 then -1 else sint (mp_edf_writer_get_length writer')))"

definition mp_edf_decode_from_buffer :: "mp_reader \<Rightarrow> u8 list option \<Rightarrow> size_t \<Rightarrow> nat option \<Rightarrow> 'd \<Rightarrow> int" where
  "mp_edf_decode_from_buffer uninit buffer len schema data =
     (case mp_edf_reader_init (Some uninit) buffer len of (ret, reader) \<Rightarrow>
        if ret \<noteq> 0 then -1
        else (case mp_edf_decode_message reader schema data of (ret, reader') \<Rightarrow>
                if ret \<noteq> 0 then -1 else sint (mp_edf_reader_position reader')))"

end
