(* ===== verification/Edf_Correct.thy ===== *)
theory Edf_Correct
  imports Edf
begin

text \<open>
  Correctness of the Extensible Data Format: round trips of the scalars, strings and headers, the
  encoding of nested values and the skipping of exactly one value, the schema registry, and the
  inputs on which the readers and \<open>mp_edf_skip_value\<close> go wrong.
\<close>

section \<open>Varints\<close>

lemma edf_ensure_capacity_eq: "edf_ensure_capacity = ensure_capacity"
  by (intro ext) (simp add: edf_ensure_capacity_def ensure_capacity_def)

lemma fixed_lengths [simp]: "length (fixed16_bytes a) = 2" "length (fixed32_bytes b) = 4" "length (fixed64_bytes c) = 8"
  by (simp_all add: fixed16_bytes_def fixed32_bytes_def fixed64_bytes_def)

text \<open>A 32-bit number is written with the bytes of its 64-bit extension.\<close>

definition id_bytes :: "u32 \<Rightarrow> u8 list" where
  "id_bytes v = varint_bytes (ucast v)"

lemma ucast_ucast_u8: "(ucast (ucast (v :: u32) :: u64) :: u8) = ucast v"
  by (rule bit_word_eqI) (auto simp: bit_simps)

lemma u8_u32_u64: "(ucast (x :: u8) :: u64) = ucast (ucast x :: u32)"
  by (rule bit_word_eqI) (auto simp: bit_simps dest: bit_imp_le_length)

declare edf_varint_loop.simps [simp del] read_id_loop.simps [simp del] read_length_loop.simps [simp del]

lemma id_bytes_simps:
  "id_bytes v = (if v \<ge> 0x80 then ucast (v OR 0x80) # id_bytes (drop_bit 7 v) else [ucast v])"
proof -
  have m: "(ucast (v :: u32) :: u64) \<ge> 0x80 \<longleftrightarrow> v \<ge> 0x80"
    by (simp add: word_le_nat_alt)
  have b: "(ucast ((ucast v :: u64) OR 0x80) :: u8) = ucast (v OR 0x80)"
    by (rule bit_word_eqI) (auto simp: bit_simps bit_80)
  have d: "drop_bit 7 (ucast v :: u64) = ucast (drop_bit 7 v)"
    by (rule bit_word_eqI) (auto simp: bit_simps dest: bit_imp_le_length)
  have l: "(ucast (ucast v :: u64) :: u8) = ucast v"
    by (rule bit_word_eqI) (auto simp: bit_simps)
  show ?thesis
    unfolding id_bytes_def by (subst varint_bytes.simps) (simp add: m b d l)
qed

lemma id_bytes_length: "length (id_bytes v) \<le> 5"
  using varint_bytes_length [of "ucast v" 4] unat_less_2p32 [of v] by (simp add: id_bytes_def)

lemma id_bytes_nonempty [simp]: "id_bytes v \<noteq> []"
  by (simp add: id_bytes_def)

lemma edf_put_byte:
  assumes "accepts w (Suc n)"
  shows "\<exists>w1 w2. edf_ensure_capacity w 1 = Some w1 \<and> put_byte x w1 = Some w2 \<and> appends w [x] w2"
  using reserve_put_bytes [of w "[x]" 1] accepts_mono [OF assms, of 1]
  by (auto simp: edf_ensure_capacity_eq put_bytes_single simp del: put_bytes.simps(2))

lemma edf_varint_loop_appends:
  "accepts w (length (id_bytes v)) \<Longrightarrow> \<exists>w'. edf_varint_loop v w = Some w' \<and> appends w (id_bytes v) w'"
proof (induction v w rule: edf_varint_loop.induct)
  case (1 v w)
  show ?case
  proof (cases "v \<ge> 0x80")
    case False
    then show ?thesis
      using edf_put_byte [of w 0 "ucast v"] 1(2) by (subst edf_varint_loop.simps) (auto simp: id_bytes_simps [of v])
  next
    case True
    then have b: "id_bytes v = ucast (v OR 0x80) # id_bytes (drop_bit 7 v)" using id_bytes_simps [of v] by simp
    then obtain w1 w2 where w: "edf_ensure_capacity w 1 = Some w1" "put_byte (ucast (v OR 0x80)) w1 = Some w2"
      "appends w [ucast (v OR 0x80)] w2"
      using edf_put_byte [of w "length (id_bytes (drop_bit 7 v))" "ucast (v OR 0x80)"] 1(2) by auto
    have "accepts w2 (length (id_bytes (drop_bit 7 v)))" using accepts_after [OF _ w(3)] 1(2) b by simp
    then obtain w3 where w3: "edf_varint_loop (drop_bit 7 v) w2 = Some w3" "appends w2 (id_bytes (drop_bit 7 v)) w3"
      using 1(1) [OF True w(1,2)] by blast
    then show ?thesis
      using True w appends_trans [OF w(3) w3(2)] b by (subst edf_varint_loop.simps) simp
  qed
qed

lemma unat_lt_pow: "unat (v :: u32) < 2 ^ (32 - 0)"
  using unat_less_2p32 [of v] by simp

lemma read_id_loop_bytes:
  assumes "remaining r (id_bytes v @ rest)" and "unat v < 2 ^ (32 - shift)" and "shift < 32"
  shows "read_id_loop shift res r = Some (0, advance (length (id_bytes v)) r, res OR push_bit shift v)"
  using assms
proof (induction "unat v" arbitrary: v shift res r rule: less_induct)
  case less
  obtain x xs where b: "id_bytes v = x # xs" by (cases "id_bytes v") auto
  have g: "get_byte r = Some (x, advance 1 r)" and np: "\<not> rpos r \<ge> rlen r"
    using get_byte_remaining [of r x "xs @ rest"] remaining_pos [OF less(2)] less(2) b by auto
  show ?case
  proof (cases "v \<ge> 0x80")
    case True
    then have x: "x = ucast (v OR 0x80)" "xs = id_bytes (drop_bit 7 v)"
      using b id_bytes_simps [of v] by auto
    have ge: "128 \<le> unat v" using True by (simp add: word_le_nat_alt)
    have s: "shift + 7 < 32"
    proof (rule ccontr)
      assume "\<not> shift + 7 < 32"
      then have "(2 :: nat) ^ (32 - shift) \<le> 2 ^ 7" by (intro power_increasing) auto
      then show False using ge less(3) by simp
    qed
    have "32 - shift = 7 + (32 - (shift + 7))" using s by simp
    then have "(2 :: nat) ^ (32 - shift) = 2 ^ 7 * 2 ^ (32 - (shift + 7))" by (metis power_add)
    then have "unat v < 128 * 2 ^ (32 - (shift + 7))" using less(3) by simp
    then have d: "unat (drop_bit 7 v) < 2 ^ (32 - (shift + 7))"
      by (simp add: unat_drop7 less_mult_imp_div_less mult.commute)
    have "remaining (advance 1 r) (xs @ rest)" using remaining_advance(1) [of r "[x]"] less(2) b by simp
    then have "read_id_loop (shift + 7) (res OR push_bit shift (ucast (x AND 0x7F))) (advance 1 r) =
        Some (0, advance (length xs) (advance 1 r), (res OR push_bit shift (ucast (x AND 0x7F))) OR
          push_bit (shift + 7) (drop_bit 7 v))"
      using less(1) [OF drop7_decreases_u32 [OF True] _ d s] x(2) by simp
    moreover have "push_bit shift (ucast (x AND 0x7F)) OR push_bit (shift + 7) (drop_bit 7 v) = push_bit shift v"
    proof -
      have "push_bit shift (ucast (x AND 0x7F)) OR push_bit (shift + 7) (drop_bit 7 v) =
          push_bit shift (ucast (x AND 0x7F) OR push_bit 7 (drop_bit 7 v))"
        by (simp add: push_bit_or add.commute)
      then show ?thesis using varint_low_byte(1) [of v] x(1) by simp
    qed
    ultimately show ?thesis
      using g np s x(1) varint_low_byte(2) [of v] b
      by (subst read_id_loop.simps) (simp add: Let_def or.assoc)
  next
    case False
    then have x: "x = ucast v" "xs = []" using b id_bytes_simps [of v] by auto
    have "\<not> (ucast v :: u64) \<ge> 0x80" using False by (simp add: word_le_nat_alt)
    from varint_last_byte [OF this] have "(ucast ((ucast v :: u8) AND 0x7F) :: u64) = ucast v" "(ucast v :: u8) AND 0x80 = 0"
      by (simp_all add: ucast_ucast_u8)
    moreover from this(1) have "(ucast ((ucast v :: u8) AND 0x7F) :: u32) = v"
      by (metis ucast_up_down u8_u32_u64)
    ultimately show ?thesis
      using g np b x by (subst read_id_loop.simps) (simp add: Let_def)
  qed
qed

text \<open>Within 32 bits \<open>mp_edf_read_length\<close> decodes like \<open>mp_edf_read_field_header\<close>.\<close>

lemma read_length_loop_agrees:
  "read_id_loop shift res r = Some (0, r', v) \<Longrightarrow> shift < 32 \<Longrightarrow> read_length_loop shift res r = Some (0, r', v)"
proof (induction shift res r rule: read_id_loop.induct)
  case (1 shift res r)
  from 1(2) obtain x r1 where np: "\<not> rpos r \<ge> rlen r" and g: "get_byte r = Some (x, r1)"
    by (subst (asm) read_id_loop.simps) (auto split: if_splits bind_splits)
  show ?case
  proof (cases "x AND 0x80 = 0")
    case True
    then show ?thesis
      using 1(2,3) np g by (subst (asm) read_id_loop.simps, subst read_length_loop.simps) (simp add: Let_def)
  next
    case False
    then have s: "shift + 7 < 32" and
      e: "read_id_loop (shift + 7) (res OR push_bit shift (ucast (x AND 0x7F))) r1 = Some (0, r', v)"
      using 1(2) np g by (subst (asm) read_id_loop.simps, simp add: Let_def split: if_splits)+
    have "read_length_loop (shift + 7) (res OR push_bit shift (ucast (x AND 0x7F))) r1 = Some (0, r', v)"
      using 1(1) [OF np g refl refl False _ e s] s by simp
    then show ?thesis
      using np g False s 1(3) by (subst read_length_loop.simps) (simp add: Let_def)
  qed
qed

lemma edf_read_length_bytes:
  assumes "remaining r (id_bytes v @ rest)"
  shows "mp_edf_read_length (Some r) (Some x) = Some (0, Some (advance (length (id_bytes v)) r), Some v)"
  using read_length_loop_agrees [OF read_id_loop_bytes [OF assms unat_lt_pow, of 0]]
  by (simp add: mp_edf_read_length_def)

interpretation edf_length: wire_codec "\<lambda>_. True" id_bytes mp_edf_write_length mp_edf_read_length
proof (unfold_locales, goal_cases)
  case (1 v w)
  then show ?case using edf_varint_loop_appends [OF 1(2)] by (auto simp: mp_edf_write_length_def)
next
  case (2 v r rest x)
  then show ?case by (simp add: edf_read_length_bytes)
qed

section \<open>Scalars\<close>

lemma byte_codec:
  assumes "\<And>v. conv (f v) = v" and "\<And>w v. wr (Some w) v = edf_write_byte (Some w) (f v)"
  shows "wire_codec (\<lambda>_. True) (\<lambda>v. [f v]) wr (edf_read_byte conv)"
proof (unfold_locales, goal_cases)
  case (1 v w)
  then show ?case using edf_put_byte [of w 0 "f v"] assms(2) by (auto simp: edf_write_byte_def)
next
  case (2 v r rest x)
  then have "get_byte r = Some (f v, advance 1 r)" using get_byte_remaining [of r "f v" rest] by simp
  then show ?case using 2(2) remaining_pos [OF 2(2)] assms(1) by (simp add: edf_read_byte_def)
qed

interpretation edf_type: wire_codec "\<lambda>_. True" "\<lambda>v. [v]" mp_edf_write_type mp_edf_read_type
  unfolding mp_edf_read_type_def by (rule byte_codec) (simp_all add: mp_edf_write_type_def)

interpretation edf_bool: wire_codec "\<lambda>_. True" "\<lambda>v. [if v then 1 else 0]" mp_edf_write_bool mp_edf_read_bool
  unfolding mp_edf_read_bool_def by (rule byte_codec) (simp_all add: mp_edf_write_bool_def)

interpretation edf_int8: wire_codec "\<lambda>_. True" "\<lambda>v. [v]" mp_edf_write_int8 mp_edf_read_int8
  unfolding mp_edf_read_int8_def by (rule byte_codec) (simp_all add: mp_edf_write_int8_def)

interpretation edf_uint8: wire_codec "\<lambda>_. True" "\<lambda>v. [v]" mp_edf_write_uint8 mp_edf_read_uint8
  unfolding mp_edf_read_uint8_def by (rule byte_codec) (simp_all add: mp_edf_write_uint8_def)

lemma edf_write_raw_appends:
  assumes "accepts w (length bs)" and "length bs = unat n"
  shows "\<exists>w'. edf_write_raw n (Some w) bs = Some (0, Some w') \<and> appends w bs w'"
  using reserve_put_bytes [OF assms(1), of n] assms(2) by (auto simp: edf_write_raw_def edf_ensure_capacity_eq)

lemma raw_codec:
  assumes "\<And>v. length (f v) = unat n" and "\<And>v. \<exists>u. or_int_bytes 0 (f v) = Some u \<and> conv u = v"
    and "\<And>w v. wr (Some w) v = edf_write_raw n (Some w) (f v)"
  shows "wire_codec (\<lambda>_. True) f wr (edf_read_raw n conv)"
proof (unfold_locales, goal_cases)
  case (1 v w)
  then show ?case using edf_write_raw_appends [of w "f v" n] assms by simp
next
  case (2 v r rest x)
  obtain u where u: "or_int_bytes 0 (f v) = Some u" "conv u = v" using assms(2) by blast
  have "get_bytes (unat n) r = Some (f v, advance (length (f v)) r)"
    using get_bytes_remaining [OF 2(2)] assms(1) by simp
  moreover have "\<not> rpos r + n > rlen r" using remaining_room [OF 2(2)] assms(1) by simp
  ultimately show ?case using u by (simp add: edf_read_raw_def)
qed

lemma or_int_fixed16: "\<exists>u. or_int_bytes 0 (fixed16_bytes v) = Some u \<and> ucast u = v"
proof -
  have m: "(0xFF :: u16) = mask 8" by (simp add: mask_eq_exp_minus_1)
  have "ucast (push_bit 0 (ucast (ucast (v AND 0xFF) :: u8)) OR
      push_bit 8 (ucast (ucast (drop_bit 8 v AND 0xFF) :: u8)) :: u32) = v"
    unfolding m by (rule bit_word_eqI) (auto simp: bit_simps)
  then show ?thesis by (simp add: fixed16_bytes_def)
qed

lemma or_int_fixed32: "or_int_bytes 0 (fixed32_bytes v) = Some v"
  using or_fixed32 [of v] by (simp add: fixed32_bytes_def)

interpretation edf_int16: wire_codec "\<lambda>_. True" fixed16_bytes mp_edf_write_int16 mp_edf_read_int16
  unfolding mp_edf_read_int16_def
  by (rule raw_codec) (simp_all add: mp_edf_write_int16_def or_int_fixed16)

interpretation edf_uint16: wire_codec "\<lambda>_. True" fixed16_bytes mp_edf_write_uint16 mp_edf_read_uint16
  unfolding mp_edf_read_uint16_def
  by (rule raw_codec) (simp_all add: mp_edf_write_uint16_def or_int_fixed16)

interpretation edf_int32: wire_codec "\<lambda>_. True" fixed32_bytes mp_edf_write_int32 mp_edf_read_int32
  unfolding mp_edf_read_int32_def
  by (rule raw_codec) (simp_all add: mp_edf_write_int32_def or_int_fixed32)

interpretation edf_uint32: wire_codec "\<lambda>_. True" fixed32_bytes mp_edf_write_uint32 mp_edf_read_uint32
  unfolding mp_edf_read_uint32_def
  by (rule raw_codec) (simp_all add: mp_edf_write_uint32_def or_int_fixed32)

interpretation edf_float: wire_codec "\<lambda>_. True" fixed32_bytes mp_edf_write_float mp_edf_read_float
proof (unfold_locales, goal_cases)
  case (1 v w)
  then show ?case using edf_uint32.write_law [where v = v and w = w] by (simp add: mp_edf_write_float_def)
next
  case (2 v r rest x)
  then show ?case
    using edf_uint32.read_law [where v = v and r = r and rest = rest and x = 0] by (simp add: mp_edf_read_float_def)
qed

section \<open>Strings and byte arrays\<close>

lemma edf_write_bytes_law:
  assumes "mem_read d 0 (unat len) = Some bs" and "accepts w (length (id_bytes len) + length bs)"
  shows "\<exists>w'. mp_edf_write_bytes (Some w) (Some d) len = Some (0, Some w') \<and> appends w (id_bytes len @ bs) w'"
proof -
  have l: "length bs = unat len" using assms(1) by (auto simp: mem_read_def split: if_splits)
  obtain w1 where w1: "mp_edf_write_length (Some w) len = Some (0, Some w1)" "appends w (id_bytes len) w1"
    using edf_length.write_law [where v = len and w = w] accepts_mono [OF assms(2)] by auto
  have "accepts w1 (length bs)" using accepts_after [OF assms(2) w1(2)] .
  then obtain w2 where w2: "edf_ensure_capacity w1 len = Some w2" "appends w1 [] w2" "wpos w2 = wpos w1"
    "unat (wpos w2) + unat len \<le> unat (wcap w2)" "wbuf w1 \<noteq> None \<longrightarrow> wbuf w2 \<noteq> None"
    using ensure_capacity_room [of w1 "length bs" len] l by (auto simp: edf_ensure_capacity_eq)
  then have b: "wbuf w2 \<noteq> None" "writer_ok w2" using appends_wbuf [OF w1(2)] by (auto simp: appends_def)
  obtain w3 where w3: "put_block (Some d) len w2 = Some w3" "appends w2 bs w3"
    using put_block_appends [OF b(2) w2(4) b(1) assms(1)] by blast
  have "unat (wpos w2 + len) = unat (wpos w2) + unat len"
    using w2(4) unat_less_2p32 [of "wcap w2"] by (intro unat_add_no_overflow) simp
  then have "\<not> wpos w2 + len > wcap w2" using w2(4) by (simp add: word_less_nat_alt)
  moreover have "appends w (id_bytes len @ [] @ bs) w3"
    using appends_trans [OF w1(2) appends_trans [OF w2(2) w3(2)]] .
  ultimately show ?thesis using w1(1) w2(1) w3(1) by (simp add: mp_edf_write_bytes_def)
qed

lemma edf_write_string_with_length_eq: "mp_edf_write_string_with_length = mp_edf_write_bytes"
  by (intro ext) (simp add: mp_edf_write_string_with_length_def mp_edf_write_bytes_def)

lemma edf_length_room:
  assumes "remaining r (id_bytes len @ bs @ rest)" and "length bs = unat len"
  shows "mp_edf_read_length (Some r) (Some x) = Some (0, Some (advance (length (id_bytes len)) r), Some len)"
    and "\<not> rpos (advance (length (id_bytes len)) r) + len > rlen r"
    and "advance (length (id_bytes len)) r\<lparr>rpos := rpos (advance (length (id_bytes len)) r) + len\<rparr> =
      advance (length (id_bytes len) + length bs) r"
    and "\<exists>b. rbuf r = Some b \<and> mem_read b (unat (rpos (advance (length (id_bytes len)) r))) (unat len) = Some bs"
proof -
  let ?r = "advance (length (id_bytes len)) r"
  have rem: "remaining ?r (bs @ rest)" using remaining_advance(1) [OF assms(1)] .
  show "mp_edf_read_length (Some r) (Some x) = Some (0, Some ?r, Some len)" by (rule edf_read_length_bytes) (rule assms(1))
  show "\<not> rpos ?r + len > rlen r" using remaining_room [OF rem assms(2)] by (simp add: advance_def)
  show "?r\<lparr>rpos := rpos ?r + len\<rparr> = advance (length (id_bytes len) + length bs) r"
    using assms(2) by (simp add: advance_def add.assoc)
  show "\<exists>b. rbuf r = Some b \<and> mem_read b (unat (rpos ?r)) (unat len) = Some bs"
    using remaining_slice [OF rem] assms(2) by (simp add: advance_def)
qed

lemma advance_fields [simp]: "rbuf (advance n r) = rbuf r" "rlen (advance n r) = rlen r" "rowns (advance n r) = rowns r"
  by (simp_all add: advance_def)

lemma edf_read_bytes_law:
  assumes "good_malloc malloc" and "remaining r (id_bytes len @ bs @ rest)" and "length bs = unat len"
  shows "mp_edf_read_bytes malloc (Some r) (Some d) (Some x) =
    Some (0, Some (advance (length (id_bytes len) + length bs) r), Some (Some bs), Some len)"
proof -
  obtain block where block: "malloc len = Some block" "length block = unat len"
    using assms(1) unfolding good_malloc_def by blast
  show ?thesis
    using edf_length_room(1) [OF assms(2,3), of x] edf_length_room(2-4) [OF assms(2,3)] block assms(3)
    by (auto simp: mp_edf_read_bytes_def mem_write_def)
qed

section \<open>Nested values\<close>

text \<open>
  A value as a client writes it: scalars and strings with their operations, an array with its header
  and elements, an object with its header, its fields (header, then value) and the end marker.
\<close>

datatype edf_value =
    E_bool bool | E_int8 u8 | E_int16 u16 | E_int32 u32 | E_int64 u64
  | E_uint8 u8 | E_uint16 u16 | E_uint32 u32 | E_uint64 u64 | E_float u32 | E_double u64
  | E_string "u8 list" | E_bytes "u8 list" | E_array u8 edf_values | E_object u32 edf_fields
  and edf_values = VNil | VCons edf_value edf_values
  and edf_fields = FNil | FCons u32 edf_value edf_fields

fun type_of_value :: "edf_value \<Rightarrow> u8" where
  "type_of_value (E_bool _) = MP_EDF_BOOL"
| "type_of_value (E_int8 _) = MP_EDF_INT8"
| "type_of_value (E_int16 _) = MP_EDF_INT16"
| "type_of_value (E_int32 _) = MP_EDF_INT32"
| "type_of_value (E_int64 _) = MP_EDF_INT64"
| "type_of_value (E_uint8 _) = MP_EDF_UINT8"
| "type_of_value (E_uint16 _) = MP_EDF_UINT16"
| "type_of_value (E_uint32 _) = MP_EDF_UINT32"
| "type_of_value (E_uint64 _) = MP_EDF_UINT64"
| "type_of_value (E_float _) = MP_EDF_FLOAT"
| "type_of_value (E_double _) = MP_EDF_DOUBLE"
| "type_of_value (E_string _) = MP_EDF_STRING"
| "type_of_value (E_bytes _) = MP_EDF_BYTES"
| "type_of_value (E_array _ _) = MP_EDF_ARRAY"
| "type_of_value (E_object _ _) = MP_EDF_OBJECT"

primrec count_values :: "edf_values \<Rightarrow> nat" where
  "count_values VNil = 0"
| "count_values (VCons v vs) = Suc (count_values vs)"

primrec edf_write_value :: "edf_value \<Rightarrow> mp_writer option \<Rightarrow> wresult"
  and edf_write_values :: "edf_values \<Rightarrow> mp_writer option \<Rightarrow> wresult"
  and edf_write_fields :: "edf_fields \<Rightarrow> mp_writer option \<Rightarrow> wresult" where
  "edf_write_value (E_bool b) w = mp_edf_write_bool w b"
| "edf_write_value (E_int8 x) w = mp_edf_write_int8 w x"
| "edf_write_value (E_int16 x) w = mp_edf_write_int16 w x"
| "edf_write_value (E_int32 x) w = mp_edf_write_int32 w x"
| "edf_write_value (E_int64 x) w = mp_edf_write_int64 w x"
| "edf_write_value (E_uint8 x) w = mp_edf_write_uint8 w x"
| "edf_write_value (E_uint16 x) w = mp_edf_write_uint16 w x"
| "edf_write_value (E_uint32 x) w = mp_edf_write_uint32 w x"
| "edf_write_value (E_uint64 x) w = mp_edf_write_uint64 w x"
| "edf_write_value (E_float x) w = mp_edf_write_float w x"
| "edf_write_value (E_double x) w = mp_edf_write_double w x"
| "edf_write_value (E_string s) w = mp_edf_write_string_with_length w (Some s) (of_nat (length s))"
| "edf_write_value (E_bytes s) w = mp_edf_write_bytes w (Some s) (of_nat (length s))"
| "edf_write_value (E_array t vs) w =
     do { (ret, w1) \<leftarrow> mp_edf_write_array_header w t (of_nat (count_values vs));
          if ret \<noteq> 0 then Some (ret, w1) else edf_write_values vs w1 }"
| "edf_write_value (E_object s fs) w =
     do { (ret, w1) \<leftarrow> mp_edf_write_object_header w s;
          if ret \<noteq> 0 then Some (ret, w1) else edf_write_fields fs w1 }"
| "edf_write_values VNil w = Some (0, w)"
| "edf_write_values (VCons v vs) w =
     do { (ret, w1) \<leftarrow> edf_write_value v w;
          if ret \<noteq> 0 then Some (ret, w1) else edf_write_values vs w1 }"
| "edf_write_fields FNil w = mp_edf_write_object_end w"
| "edf_write_fields (FCons k v fs) w =
     do { (ret, w1) \<leftarrow> mp_edf_write_field_header w k (type_of_value v);
          if ret \<noteq> 0 then Some (ret, w1)
          else do { (ret, w2) \<leftarrow> edf_write_value v w1;
                    if ret \<noteq> 0 then Some (ret, w2) else edf_write_fields fs w2 } }"

primrec edf_bytes :: "edf_value \<Rightarrow> u8 list" and edf_bytes_list :: "edf_values \<Rightarrow> u8 list"
  and edf_field_bytes :: "edf_fields \<Rightarrow> u8 list" where
  "edf_bytes (E_bool b) = [if b then 1 else 0]"
| "edf_bytes (E_int8 x) = [x]"
| "edf_bytes (E_int16 x) = fixed16_bytes x"
| "edf_bytes (E_int32 x) = fixed32_bytes x"
| "edf_bytes (E_int64 x) = fixed64_bytes x"
| "edf_bytes (E_uint8 x) = [x]"
| "edf_bytes (E_uint16 x) = fixed16_bytes x"
| "edf_bytes (E_uint32 x) = fixed32_bytes x"
| "edf_bytes (E_uint64 x) = fixed64_bytes x"
| "edf_bytes (E_float x) = fixed32_bytes x"
| "edf_bytes (E_double x) = fixed64_bytes x"
| "edf_bytes (E_string s) = id_bytes (of_nat (length s)) @ s"
| "edf_bytes (E_bytes s) = id_bytes (of_nat (length s)) @ s"
| "edf_bytes (E_array t vs) = MP_EDF_ARRAY # t # id_bytes (of_nat (count_values vs)) @ edf_bytes_list vs"
| "edf_bytes (E_object s fs) = MP_EDF_OBJECT # fixed32_bytes s @ edf_field_bytes fs"
| "edf_bytes_list VNil = []"
| "edf_bytes_list (VCons v vs) = edf_bytes v @ edf_bytes_list vs"
| "edf_field_bytes FNil = [0xFF]"
| "edf_field_bytes (FCons k v fs) = id_bytes k @ type_of_value v # edf_bytes v @ edf_field_bytes fs"

text \<open>
  Well-formed values: lengths and counts fit 32 bits, elements have the array's type, and no
  field identifier starts with the byte of the end marker.
\<close>

primrec edf_ok :: "edf_value \<Rightarrow> bool" and edf_list_ok :: "u8 \<Rightarrow> edf_values \<Rightarrow> bool"
  and edf_fields_ok :: "edf_fields \<Rightarrow> bool" where
  "edf_ok (E_bool b) = True"
| "edf_ok (E_int8 x) = True"
| "edf_ok (E_int16 x) = True"
| "edf_ok (E_int32 x) = True"
| "edf_ok (E_int64 x) = True"
| "edf_ok (E_uint8 x) = True"
| "edf_ok (E_uint16 x) = True"
| "edf_ok (E_uint32 x) = True"
| "edf_ok (E_uint64 x) = True"
| "edf_ok (E_float x) = True"
| "edf_ok (E_double x) = True"
| "edf_ok (E_string s) = (length s < 2 ^ 32)"
| "edf_ok (E_bytes s) = (length s < 2 ^ 32)"
| "edf_ok (E_array t vs) = (count_values vs < 2 ^ 32 \<and> edf_list_ok t vs)"
| "edf_ok (E_object s fs) = edf_fields_ok fs"
| "edf_list_ok t VNil = True"
| "edf_list_ok t (VCons v vs) = (type_of_value v = t \<and> edf_ok v \<and> edf_list_ok t vs)"
| "edf_fields_ok FNil = True"
| "edf_fields_ok (FCons k v fs) = (hd (id_bytes k) \<noteq> 0xFF \<and> edf_ok v \<and> edf_fields_ok fs)"

lemma edf_write_field_header_law:
  assumes "accepts w (length (id_bytes k) + 1)"
  shows "\<exists>w'. mp_edf_write_field_header (Some w) k t = Some (0, Some w') \<and> appends w (id_bytes k @ [t]) w'"
proof -
  obtain w1 where w1: "edf_varint_loop k w = Some w1" "appends w (id_bytes k) w1"
    using edf_varint_loop_appends [of w k] accepts_mono [OF assms] by auto
  obtain w2 where "mp_edf_write_type (Some w1) t = Some (0, Some w2)" "appends w1 [t] w2"
    using edf_type.write_law [where v = t and w = w1] accepts_after [OF assms w1(2)] by auto
  then show ?thesis using w1 appends_trans [OF w1(2)] by (auto simp: mp_edf_write_field_header_def)
qed

lemma edf_read_field_header_law:
  assumes "remaining r (id_bytes k @ t # rest)"
  shows "mp_edf_read_field_header (Some r) (Some a) (Some b) =
    Some (0, Some (advance (length (id_bytes k) + 1) r), Some k, Some t)"
proof -
  let ?r = "advance (length (id_bytes k)) r"
  have "remaining ?r ([t] @ rest)" using remaining_advance(1) [OF assms] by simp
  then have "mp_edf_read_type (Some ?r) (Some b) = Some (0, Some (advance 1 ?r), Some t)"
    using edf_type.read_law [where v = t and r = ?r and rest = rest and x = b] by simp
  then show ?thesis
    using read_id_loop_bytes [OF assms unat_lt_pow, of 0] by (simp add: mp_edf_read_field_header_def)
qed

lemma edf_write_array_header_law:
  assumes "accepts w (2 + length (id_bytes n))"
  shows "\<exists>w'. mp_edf_write_array_header (Some w) t n = Some (0, Some w') \<and> appends w (MP_EDF_ARRAY # t # id_bytes n) w'"
proof -
  have a: "accepts w (length [MP_EDF_ARRAY] + (1 + length (id_bytes n)))" using assms by simp
  obtain w1 where w1: "mp_edf_write_type (Some w) MP_EDF_ARRAY = Some (0, Some w1)" "appends w [MP_EDF_ARRAY] w1"
    using edf_type.write_law [where v = MP_EDF_ARRAY and w = w] accepts_mono [OF a] by auto
  have a1: "accepts w1 (length [t] + length (id_bytes n))" using accepts_after [OF a w1(2)] by simp
  obtain w2 where w2: "mp_edf_write_type (Some w1) t = Some (0, Some w2)" "appends w1 [t] w2"
    using edf_type.write_law [where v = t and w = w1] accepts_mono [OF a1] by auto
  obtain w3 where w3: "mp_edf_write_length (Some w2) n = Some (0, Some w3)" "appends w2 (id_bytes n) w3"
    using edf_length.write_law [where v = n and w = w2] accepts_after [OF a1 w2(2)] by auto
  show ?thesis
    using w1(1) w2(1) w3(1) appends_trans [OF w1(2) appends_trans [OF w2(2) w3(2)]]
    by (simp add: mp_edf_write_array_header_def)
qed

lemma edf_read_array_header_law:
  assumes "remaining r (MP_EDF_ARRAY # t # id_bytes n @ rest)"
  shows "mp_edf_read_array_header (Some r) (Some a) (Some b) =
    Some (0, Some (advance (2 + length (id_bytes n)) r), Some t, Some n)"
proof -
  have r1: "remaining (advance 1 r) ([t] @ id_bytes n @ rest)"
    using remaining_advance(1) [of r "[MP_EDF_ARRAY]"] assms by simp
  have r2: "remaining (advance 2 r) (id_bytes n @ rest)" using remaining_advance(1) [OF r1] by (simp add: numeral_2_eq_2)
  show ?thesis
    using edf_type.read_law [where v = MP_EDF_ARRAY and r = r and x = 0] assms
      edf_type.read_law [where v = t and r = "advance 1 r" and x = a] r1 edf_read_length_bytes [OF r2, of b]
    by (simp add: mp_edf_read_array_header_def numeral_2_eq_2)
qed

lemma edf_write_object_header_law:
  assumes "accepts w 5"
  shows "\<exists>w'. mp_edf_write_object_header (Some w) s = Some (0, Some w') \<and> appends w (MP_EDF_OBJECT # fixed32_bytes s) w'"
proof -
  have l: "length (fixed32_bytes s) = 4" by (simp add: fixed32_bytes_def)
  have a: "accepts w (length [MP_EDF_OBJECT] + 4)" using assms by simp
  obtain w1 where w1: "mp_edf_write_type (Some w) MP_EDF_OBJECT = Some (0, Some w1)" "appends w [MP_EDF_OBJECT] w1"
    using edf_type.write_law [where v = MP_EDF_OBJECT and w = w] accepts_mono [OF a] by auto
  obtain w2 where w2: "mp_edf_write_uint32 (Some w1) s = Some (0, Some w2)" "appends w1 (fixed32_bytes s) w2"
    using edf_uint32.write_law [where v = s and w = w1] accepts_after [OF a w1(2)] l by auto
  show ?thesis
    using w1(1) w2(1) appends_trans [OF w1(2) w2(2)] by (simp add: mp_edf_write_object_header_def)
qed

lemma edf_read_object_header_law:
  assumes "remaining r (MP_EDF_OBJECT # fixed32_bytes s @ rest)"
  shows "mp_edf_read_object_header (Some r) (Some a) = Some (0, Some (advance 5 r), Some s)"
proof -
  have l: "length (fixed32_bytes s) = 4" by (simp add: fixed32_bytes_def)
  have r1: "remaining (advance 1 r) (fixed32_bytes s @ rest)"
    using remaining_advance(1) [of r "[MP_EDF_OBJECT]"] assms by simp
  show ?thesis
    using edf_type.read_law [where v = MP_EDF_OBJECT and r = r and x = 0] assms
      edf_uint32.read_law [where v = s and r = "advance 1 r" and x = a] r1 l
    by (simp add: mp_edf_read_object_header_def)
qed

lemma edf_write_raw64_law:
  assumes "accepts w 8"
  shows "\<exists>w'. edf_write_raw 8 (Some w) (fixed64_bytes x) = Some (0, Some w') \<and> appends w (fixed64_bytes x) w'"
  using edf_write_raw_appends [of w "fixed64_bytes x" 8] assms by simp

lemma edf_write_blob_law:
  assumes "length s < 2 ^ 32" and "accepts w (length (id_bytes (of_nat (length s)) @ s))"
  shows "\<exists>w'. mp_edf_write_bytes (Some w) (Some s) (of_nat (length s)) = Some (0, Some w') \<and>
    appends w (id_bytes (of_nat (length s)) @ s) w'"
  using edf_write_bytes_law [of s "of_nat (length s)" s w] assms by (simp add: mem_read_def unat_length)

lemma edf_write_value_law:
  shows "edf_ok v \<Longrightarrow> accepts w (length (edf_bytes v)) \<Longrightarrow>
      \<exists>w'. edf_write_value v (Some w) = Some (0, Some w') \<and> appends w (edf_bytes v) w'"
    and "edf_list_ok t vs \<Longrightarrow> accepts w (length (edf_bytes_list vs)) \<Longrightarrow>
      \<exists>w'. edf_write_values vs (Some w) = Some (0, Some w') \<and> appends w (edf_bytes_list vs) w'"
    and "edf_fields_ok fs \<Longrightarrow> accepts w (length (edf_field_bytes fs)) \<Longrightarrow>
      \<exists>w'. edf_write_fields fs (Some w) = Some (0, Some w') \<and> appends w (edf_field_bytes fs) w'"
proof (induction v and vs and fs arbitrary: w and t w and w)
  case (E_bool b)
  then show ?case using edf_bool.write_law [where v = b and w = w] by simp
next
  case (E_int8 x)
  then show ?case using edf_int8.write_law [where v = x and w = w] by simp
next
  case (E_int16 x)
  then show ?case using edf_int16.write_law [where v = x and w = w] by simp
next
  case (E_int32 x)
  then show ?case using edf_int32.write_law [where v = x and w = w] by simp
next
  case (E_int64 x)
  then show ?case using edf_write_raw64_law [of w x] by (simp add: mp_edf_write_int64_def)
next
  case (E_uint8 x)
  then show ?case using edf_uint8.write_law [where v = x and w = w] by simp
next
  case (E_uint16 x)
  then show ?case using edf_uint16.write_law [where v = x and w = w] by simp
next
  case (E_uint32 x)
  then show ?case using edf_uint32.write_law [where v = x and w = w] by simp
next
  case (E_uint64 x)
  then show ?case using edf_write_raw64_law [of w x] by (simp add: mp_edf_write_uint64_def)
next
  case (E_float x)
  then show ?case using edf_float.write_law [where v = x and w = w] by simp
next
  case (E_double x)
  then show ?case using edf_write_raw64_law [of w x]
    by (simp add: mp_edf_write_double_def mp_edf_write_uint64_def)
next
  case (E_string s)
  then show ?case using edf_write_blob_law [of s w] by (simp add: edf_write_string_with_length_eq)
next
  case (E_bytes s)
  then show ?case using edf_write_blob_law [of s w] by simp
next
  case (E_array t vs)
  let ?h = "MP_EDF_ARRAY # t # id_bytes (of_nat (count_values vs))"
  have a: "accepts w (length ?h + length (edf_bytes_list vs))" using E_array.prems(2) by simp
  obtain w1 where w1: "mp_edf_write_array_header (Some w) t (of_nat (count_values vs)) = Some (0, Some w1)" "appends w ?h w1"
    using edf_write_array_header_law [of w "of_nat (count_values vs)" t] accepts_mono [OF a] by auto
  then show ?case
    using E_array.IH [OF _ accepts_after [OF a w1(2)], of t] E_array.prems(1) appends_trans [OF w1(2)] by fastforce
next
  case (E_object s fs)
  let ?h = "MP_EDF_OBJECT # fixed32_bytes s"
  have a: "accepts w (length ?h + length (edf_field_bytes fs))" using E_object.prems(2) by simp
  have "accepts w 5" using accepts_mono [OF a, of 5] by (simp add: fixed32_bytes_def)
  then obtain w1 where w1: "mp_edf_write_object_header (Some w) s = Some (0, Some w1)" "appends w ?h w1"
    using edf_write_object_header_law by blast
  then show ?case
    using E_object.IH [OF _ accepts_after [OF a w1(2)]] E_object.prems(1) appends_trans [OF w1(2)] by fastforce
next
  case VNil
  then show ?case by (simp add: appends_refl accepts_def)
next
  case (VCons v vs)
  have a: "accepts w (length (edf_bytes v) + length (edf_bytes_list vs))" using VCons.prems(2) by simp
  obtain w1 where w1: "edf_write_value v (Some w) = Some (0, Some w1)" "appends w (edf_bytes v) w1"
    using VCons.IH(1) [of w] VCons.prems(1) accepts_mono [OF a, of "length (edf_bytes v)"] by auto
  then show ?case
    using VCons.IH(2) [OF _ accepts_after [OF a w1(2)]] VCons.prems(1) appends_trans [OF w1(2)] by fastforce
next
  case FNil
  then show ?case using edf_put_byte [of w 0 "0xFF"] by (auto simp: mp_edf_write_object_end_def edf_write_byte_def)
next
  case (FCons k v fs)
  let ?h = "id_bytes k @ [type_of_value v]"
  have a: "accepts w (length ?h + (length (edf_bytes v) + length (edf_field_bytes fs)))" using FCons.prems(2) by simp
  obtain w1 where w1: "mp_edf_write_field_header (Some w) k (type_of_value v) = Some (0, Some w1)" "appends w ?h w1"
    using edf_write_field_header_law [of w k] accepts_mono [OF a] by auto
  have a1: "accepts w1 (length (edf_bytes v) + length (edf_field_bytes fs))" using accepts_after [OF a w1(2)] .
  obtain w2 where w2: "edf_write_value v (Some w1) = Some (0, Some w2)" "appends w1 (edf_bytes v) w2"
    using FCons.IH(1) [of w1] FCons.prems(1) accepts_mono [OF a1] by auto
  obtain w3 where w3: "edf_write_fields fs (Some w2) = Some (0, Some w3)" "appends w2 (edf_field_bytes fs) w3"
    using FCons.IH(2) [OF _ accepts_after [OF a1 w2(2)]] FCons.prems(1) by auto
  then show ?case
    using w1(1) w2(1) appends_trans [OF w1(2) appends_trans [OF w2(2) w3(2)]] by simp
qed

lemmas skip_value_simps = skip_run.simps [of "Skip_value t" for t, simplified]
lemmas skip_elements_simps = skip_run.simps [of "Skip_elements t i n" for t i n, simplified]
lemmas skip_fields_simps = skip_run.simps [of Skip_fields, simplified]

lemma skip_scalar:
  assumes "scalar_width t = Some n"
  shows "skip_run (Skip_value t) r = Some (0, advance (unat n) r)"
  using assms by (simp add: skip_value_simps advance_def)

lemma skip_blob:
  assumes "t = MP_EDF_STRING \<or> t = MP_EDF_BYTES" and "length s < 2 ^ 32"
    and "remaining r (id_bytes (of_nat (length s)) @ s @ rest)"
  shows "skip_run (Skip_value t) r = Some (0, advance (length (id_bytes (of_nat (length s)) @ s)) r)"
proof -
  have "scalar_width t = None" using assms(1) by (auto simp: scalar_width_def edf_type_defs)
  then show ?thesis
    using assms(1) edf_read_length_bytes [OF assms(3), of 0] edf_length_room(3) [OF assms(3)] assms(2)
    by (simp add: skip_value_simps unat_length)
qed

lemma skip_run_law:
  shows "edf_ok v \<Longrightarrow> remaining r (edf_bytes v @ rest) \<Longrightarrow>
      skip_run (Skip_value (type_of_value v)) r = Some (0, advance (length (edf_bytes v)) r)"
    and "edf_list_ok t vs \<Longrightarrow> unat i + count_values vs = unat n \<Longrightarrow> remaining r (edf_bytes_list vs @ rest) \<Longrightarrow>
      skip_run (Skip_elements t i n) r = Some (0, advance (length (edf_bytes_list vs)) r)"
    and "edf_fields_ok fs \<Longrightarrow> remaining r (edf_field_bytes fs @ rest) \<Longrightarrow>
      skip_run Skip_fields r = Some (0, advance (length (edf_field_bytes fs)) r)"
proof (induction v and vs and fs arbitrary: r rest and t i n r rest and r rest)
  case (E_string s)
  then show ?case using skip_blob [of MP_EDF_STRING s r rest] by simp
next
  case (E_bytes s)
  then show ?case using skip_blob [of MP_EDF_BYTES s r rest] by simp
next
  case (E_array t vs)
  let ?h = "MP_EDF_ARRAY # t # id_bytes (of_nat (count_values vs))"
  have rem: "remaining r (?h @ edf_bytes_list vs @ rest)" using E_array.prems(2) by simp
  have "skip_run (Skip_elements t 0 (of_nat (count_values vs))) (advance (length ?h) r) =
      Some (0, advance (length (edf_bytes_list vs)) (advance (length ?h) r))"
    using E_array.IH [OF _ _ remaining_advance(1) [OF rem], of t 0 "of_nat (count_values vs)"] E_array.prems(1)
    by (simp add: unsigned_of_nat take_bit_nat_eq_self)
  moreover have "scalar_width MP_EDF_ARRAY = None" by (simp add: scalar_width_def edf_type_defs)
  moreover have "MP_EDF_ARRAY \<noteq> MP_EDF_STRING" "MP_EDF_ARRAY \<noteq> MP_EDF_BYTES" by (simp_all add: edf_type_defs)
  ultimately show ?case
    using edf_read_array_header_law [of r t "of_nat (count_values vs)" "edf_bytes_list vs @ rest" 0 0] rem
    by (simp add: skip_value_simps)
next
  case (E_object s fs)
  let ?h = "MP_EDF_OBJECT # fixed32_bytes s"
  have l: "length ?h = 5" by (simp add: fixed32_bytes_def)
  have rem: "remaining r (?h @ edf_field_bytes fs @ rest)" using E_object.prems(2) by simp
  have "skip_run Skip_fields (advance 5 r) = Some (0, advance (length (edf_field_bytes fs)) (advance 5 r))"
    using E_object.IH [OF _ remaining_advance(1) [OF rem, unfolded l]] E_object.prems(1) by simp
  moreover have "scalar_width MP_EDF_OBJECT = None" by (simp add: scalar_width_def edf_type_defs)
  moreover have "MP_EDF_OBJECT \<noteq> MP_EDF_STRING" "MP_EDF_OBJECT \<noteq> MP_EDF_BYTES" "MP_EDF_OBJECT \<noteq> MP_EDF_ARRAY"
    by (simp_all add: edf_type_defs)
  ultimately show ?case
    using edf_read_object_header_law [of r s "edf_field_bytes fs @ rest" 0] rem l
    by (simp add: skip_value_simps)
next
  case VNil
  then have "i = n" by (simp add: word_unat_eq_iff)
  then show ?case by (simp add: skip_elements_simps)
next
  case (VCons v vs)
  have rem: "remaining r (edf_bytes v @ edf_bytes_list vs @ rest)" using VCons.prems(3) by simp
  have lt: "i < n" using VCons.prems(2) by (simp add: word_less_nat_alt)
  then have "unat (i + 1) = Suc (unat i)" by (rule unat_Suc_less)
  then show ?case
    using lt VCons.IH(1) [OF _ rem] VCons.IH(2) [OF _ _ remaining_advance(1) [OF rem], of t "i + 1"] VCons.prems
    by (auto simp: skip_elements_simps [of _ i])
next
  case FNil
  then have "get_byte r = Some (0xFF, advance 1 r)" "\<not> rpos r \<ge> rlen r"
    using get_byte_remaining [of r "0xFF" rest] remaining_pos [of r] by auto
  then show ?case by (simp add: skip_fields_simps)
next
  case (FCons k v fs)
  obtain x xs where x: "id_bytes k = x # xs" by (cases "id_bytes k") auto
  let ?h = "id_bytes k @ [type_of_value v]"
  have rem: "remaining r (?h @ edf_bytes v @ edf_field_bytes fs @ rest)" using FCons.prems(2) by simp
  have rem1: "remaining (advance (length ?h) r) (edf_bytes v @ edf_field_bytes fs @ rest)"
    using remaining_advance(1) [OF rem] .
  have rem2: "remaining (advance (length (edf_bytes v)) (advance (length ?h) r)) (edf_field_bytes fs @ rest)"
    using remaining_advance(1) [OF rem1] .
  have g: "get_byte r = Some (x, advance 1 r)" "rpos r < rlen r" "x \<noteq> 0xFF"
    using get_byte_remaining [of r x] remaining_pos [OF rem] rem x FCons.prems(1) by auto
  have "mp_edf_read_field_header (Some r) (Some 0) (Some 0) =
      Some (0, Some (advance (length ?h) r), Some k, Some (type_of_value v))"
    using edf_read_field_header_law [of r k "type_of_value v" "edf_bytes v @ edf_field_bytes fs @ rest"] rem by simp
  then show ?case
    using g FCons.IH(1) [OF _ rem1] FCons.IH(2) [OF _ rem2] FCons.prems(1)
    by (subst skip_fields_simps) (simp add: add.assoc)
qed (simp_all add: skip_scalar scalar_width_def edf_type_defs)

section \<open>Properties\<close>

text \<open>
  C12. Any well-formed value, however deeply its arrays and objects nest, is written completely when
  the writer accepts its bytes, and \<open>mp_edf_skip_value\<close> on those bytes succeeds and ends exactly
  behind them.
\<close>

theorem edf_value_skipped:
  assumes "edf_ok v" and "accepts w (length (edf_bytes v))"
  shows "\<exists>w' bs. edf_write_value v (Some w) = Some (0, Some w') \<and> written w' = written w @ bs \<and>
    (\<forall>r rest. remaining r (bs @ rest) \<longrightarrow>
       (\<exists>r'. mp_edf_skip_value (Some r) (type_of_value v) = Some (0, Some r') \<and> remaining r' rest))"
proof -
  obtain w' where w': "edf_write_value v (Some w) = Some (0, Some w')" "appends w (edf_bytes v) w'"
    using edf_write_value_law(1) [OF assms] by blast
  have "\<exists>r'. mp_edf_skip_value (Some r) (type_of_value v) = Some (0, Some r') \<and> remaining r' rest"
    if "remaining r (edf_bytes v @ rest)" for r rest
    using skip_run_law(1) [OF assms(1) that] remaining_advance(1) [OF that] by (simp add: mp_edf_skip_value_def)
  then show ?thesis using w' by (auto simp: appends_def)
qed

theorem edf_value_skipped_witness:
  "\<exists>w'. edf_write_value (E_object 9 (FCons 1 (E_array MP_EDF_UINT16 (VCons (E_uint16 500) VNil)) FNil))
     (Some (fresh_writer 64)) = Some (0, Some w')"
proof -
  let ?v = "E_object 9 (FCons 1 (E_array MP_EDF_UINT16 (VCons (E_uint16 500) VNil)) FNil)"
  have "id_bytes 1 = [1]" by (subst id_bytes_simps) (simp add: word_le_nat_alt)
  then have ok: "edf_ok ?v" by simp
  have "length (edf_bytes ?v) \<le> 64" using id_bytes_length [of 1] by simp
  then have "accepts (fresh_writer 64) (length (edf_bytes ?v))" by (intro fresh_writer_accepts) auto
  from edf_value_skipped [OF ok this] show ?thesis by blast
qed

text \<open>
  Every value of a type up to 32 bits survives a write and a read, in exactly the bytes its
  type promises (at most five for a length).
\<close>

theorem edf_scalar_roundtrips:
  "roundtrips 1 mp_edf_write_type mp_edf_read_type a \<and>
   roundtrips 1 mp_edf_write_bool mp_edf_read_bool b \<and>
   roundtrips 1 mp_edf_write_int8 mp_edf_read_int8 a \<and>
   roundtrips 1 mp_edf_write_uint8 mp_edf_read_uint8 a \<and>
   roundtrips 2 mp_edf_write_int16 mp_edf_read_int16 c \<and>
   roundtrips 2 mp_edf_write_uint16 mp_edf_read_uint16 c \<and>
   roundtrips 4 mp_edf_write_int32 mp_edf_read_int32 d \<and>
   roundtrips 4 mp_edf_write_uint32 mp_edf_read_uint32 d \<and>
   roundtrips 4 mp_edf_write_float mp_edf_read_float d \<and>
   roundtrips 5 mp_edf_write_length mp_edf_read_length d"
  by (intro conjI edf_type.roundtrips_enc edf_bool.roundtrips_enc edf_int8.roundtrips_enc edf_uint8.roundtrips_enc
      edf_int16.roundtrips_enc edf_uint16.roundtrips_enc edf_int32.roundtrips_enc edf_uint32.roundtrips_enc
      edf_float.roundtrips_enc edf_length.roundtrips_enc id_bytes_length) simp_all

text \<open>
  The readers of 64-bit integers shift a promoted \<open>int\<close> by 32 and more: whenever eight bytes are
  available they have no defined result.
\<close>

theorem edf_read_int64_undefined:
  assumes "rpos r + 8 \<le> rlen r"
  shows "mp_edf_read_int64 (Some r) (Some x) = None \<and> mp_edf_read_uint64 (Some r) (Some x) = None \<and>
    mp_edf_read_double (Some r) (Some x) = None"
proof -
  have "or_int_bytes 0 bs = None" if "get_bytes 8 r = Some (bs, r')" for bs r'
  proof -
    have "length bs = n" if "get_bytes n s = Some (bs, s')" for n s bs s'
      using that by (induction n arbitrary: s bs s') (auto split: bind_splits)
    then have "length bs = 8" using that by blast
    then obtain a b c d e f g h where "bs = [a, b, c, d, e, f, g, h]" by (auto simp: length_Suc_conv eval_nat_numeral)
    then show ?thesis by simp
  qed
  then have "edf_read_raw 8 conv (Some r) (Some y) = None" for conv :: "u32 \<Rightarrow> u64" and y
    using assms by (cases "get_bytes 8 r") (auto simp: edf_read_raw_def not_less)
  then show ?thesis by (simp add: mp_edf_read_int64_def mp_edf_read_uint64_def mp_edf_read_double_def)
qed

theorem edf_read_int64_undefined_witness:
  "mp_edf_read_int64 (Some \<lparr>rbuf = Some [1, 0, 0, 0, 0, 0, 0, 0], rpos = 0, rlen = 8, rowns = False\<rparr>) (Some 0) = None"
  using edf_read_int64_undefined [of "\<lparr>rbuf = Some [1, 0, 0, 0, 0, 0, 0, 0], rpos = 0, rlen = 8, rowns = False\<rparr>" 0]
  by simp

text \<open>
  \<open>mp_edf_write_null\<close> writes a type tag that \<open>mp_edf_skip_value\<close> does not skip: after a null
  field written with its header the reader stands before the tag, not behind the field.
\<close>

theorem edf_null_not_skipped:
  assumes "accepts w 1"
  shows "(\<exists>w'. mp_edf_write_null (Some w) = Some (0, Some w') \<and> written w' = written w @ [MP_EDF_NULL]) \<and>
    (\<forall>s. remaining s (id_bytes k @ [MP_EDF_NULL, MP_EDF_NULL] @ rest) \<longrightarrow>
       (\<exists>s'. mp_edf_skip_field (Some s) = Some (0, Some s') \<and> remaining s' (MP_EDF_NULL # rest)))"
proof -
  obtain w' where "mp_edf_write_type (Some w) MP_EDF_NULL = Some (0, Some w')" "appends w [MP_EDF_NULL] w'"
    using edf_type.write_law [where v = MP_EDF_NULL and w = w] assms by auto
  moreover have "\<exists>s'. mp_edf_skip_field (Some s) = Some (0, Some s') \<and> remaining s' (MP_EDF_NULL # rest)"
    if s: "remaining s (id_bytes k @ [MP_EDF_NULL, MP_EDF_NULL] @ rest)" for s
  proof -
    let ?s = "advance (length (id_bytes k) + 1) s"
    have "skip_run (Skip_value MP_EDF_NULL) ?s = Some (0, ?s)"
      using skip_scalar [of MP_EDF_NULL 0] by (simp add: scalar_width_def)
    moreover have "remaining ?s (MP_EDF_NULL # rest)"
      using remaining_advance(1) [of s "id_bytes k @ [MP_EDF_NULL]" "MP_EDF_NULL # rest"] s by simp
    ultimately show ?thesis
      using edf_read_field_header_law [of s k MP_EDF_NULL "MP_EDF_NULL # rest" 0 0] s
      by (simp add: mp_edf_skip_field_def mp_edf_skip_value_def)
  qed
  ultimately show ?thesis by (auto simp: mp_edf_write_null_def appends_def)
qed

definition looping_object :: mp_reader where
  "looping_object = \<lparr>rbuf = Some [15, 0, 0, 0, 0, 1, 12, 0xF9, 0xFF, 0xFF, 0xFF, 0x0F], rpos = 0, rlen = 12, rowns = False\<rparr>"

definition loop_claim :: "skip_job \<Rightarrow> mp_reader \<Rightarrow> int \<times> mp_reader \<Rightarrow> bool" where
  "loop_claim job r y \<longleftrightarrow> (job = Skip_fields \<longrightarrow> r \<noteq> looping_object\<lparr>rpos := 5\<rparr>) \<and>
    (job = Skip_value MP_EDF_STRING \<and> r = looping_object\<lparr>rpos := 7\<rparr> \<longrightarrow> y = (0, looping_object\<lparr>rpos := 5\<rparr>))"

lemma looping_fields: "skip_run job r = Some y \<Longrightarrow> loop_claim job r y"
proof (rule skip_run.raw_induct [where P = loop_claim], goal_cases)
  case (1 f job r y)
  have h: "mp_edf_read_field_header (Some (looping_object\<lparr>rpos := 5\<rparr>)) (Some 0) (Some 0) =
      Some (0, Some (looping_object\<lparr>rpos := 7\<rparr>), Some 1, Some MP_EDF_STRING)"
    by (simp add: mp_edf_read_field_header_def read_id_loop.simps looping_object_def get_byte_def
        mp_edf_read_type_def edf_read_byte_def edf_type_defs)
  have l: "mp_edf_read_length (Some (looping_object\<lparr>rpos := 7\<rparr>)) (Some 0) =
      Some (0, Some (looping_object\<lparr>rpos := 12\<rparr>), Some 0xFFFFFFF9)"
    by (simp add: mp_edf_read_length_def read_length_loop.simps looping_object_def get_byte_def)
  have g: "get_byte (looping_object\<lparr>rpos := 5\<rparr>) = Some (1, looping_object\<lparr>rpos := 6\<rparr>)"
    by (simp add: looping_object_def get_byte_def)
  have wrap: "(4294967301 :: size_t) = 5" by simp
  show ?case
    unfolding loop_claim_def
  proof (intro conjI impI notI)
    assume "job = Skip_fields" and "r = looping_object\<lparr>rpos := 5\<rparr>"
    then have "Option.bind (f (Skip_value MP_EDF_STRING) (looping_object\<lparr>rpos := 7\<rparr>)) (\<lambda>(ret, r2).
        if ret \<noteq> 0 then Some (-1, r2) else f Skip_fields r2) = Some y"
      using 1(3) h g by (simp add: looping_object_def)
    then obtain z where z: "f (Skip_value MP_EDF_STRING) (looping_object\<lparr>rpos := 7\<rparr>) = Some z"
      and k: "(case z of (ret, r2) \<Rightarrow> if ret \<noteq> 0 then Some (-1, r2) else f Skip_fields r2) = Some y"
      by (auto split: bind_splits)
    have "z = (0, looping_object\<lparr>rpos := 5\<rparr>)" using 1(2) [OF z] by (simp add: loop_claim_def)
    then have "f Skip_fields (looping_object\<lparr>rpos := 5\<rparr>) = Some y" using k by simp
    then show False using 1(2) [of Skip_fields] by (cases y) (auto simp: loop_claim_def)
  next
    assume "job = Skip_value MP_EDF_STRING \<and> r = looping_object\<lparr>rpos := 7\<rparr>"
    then show "y = (0, looping_object\<lparr>rpos := 5\<rparr>)"
      using 1(3) l wrap by (auto simp: scalar_width_def edf_type_defs looping_object_def)
  qed
qed

text \<open>
  \<open>mp_edf_skip_value\<close> adds an unchecked length to the position: on this 12-byte object, whose
  string field claims \<open>2^32 - 7\<close> bytes, the position wraps around to the start of the field and the
  call has no result, it never returns.
\<close>

theorem edf_skip_value_hangs: "mp_edf_skip_value (Some looping_object) MP_EDF_OBJECT = None"
proof -
  have h: "mp_edf_read_object_header (Some looping_object) (Some 0) = Some (0, Some (looping_object\<lparr>rpos := 5\<rparr>), Some 0)"
    using edf_read_object_header_law [of looping_object 0 "[1, 12, 0xF9, 0xFF, 0xFF, 0xFF, 0x0F]" 0]
    by (simp add: looping_object_def remaining_def fixed32_bytes_def edf_type_defs advance_def)
  have "skip_run Skip_fields (looping_object\<lparr>rpos := 5\<rparr>) = None"
    using looping_fields [of Skip_fields "looping_object\<lparr>rpos := 5\<rparr>"]
    by (cases "skip_run Skip_fields (looping_object\<lparr>rpos := 5\<rparr>)") (auto simp: loop_claim_def)
  then have "skip_run (Skip_value MP_EDF_OBJECT) looping_object = None"
    using h by (simp add: skip_value_simps scalar_width_def edf_type_defs)
  then show ?thesis by (simp add: mp_edf_skip_value_def)
qed

text \<open>
  A field whose identifier starts with the byte \<open>0xFF\<close> in its encoding (identifier 255, for
  example) is taken for the end marker: skipping the object ends one byte into the field.
\<close>

theorem edf_field_id_taken_for_end:
  assumes "hd (id_bytes k) = 0xFF"
    and "remaining r (MP_EDF_OBJECT # fixed32_bytes s @ edf_field_bytes (FCons k v fs) @ rest)"
  shows "\<exists>r'. mp_edf_skip_value (Some r) MP_EDF_OBJECT = Some (0, Some r') \<and>
    remaining r' (tl (edf_field_bytes (FCons k v fs)) @ rest)"
proof -
  let ?f = "edf_field_bytes (FCons k v fs)"
  obtain xs where x: "?f = 0xFF # xs" using assms(1) by (cases "id_bytes k") auto
  have rem: "remaining (advance 5 r) (0xFF # xs @ rest)"
    using remaining_advance(1) [of r "MP_EDF_OBJECT # fixed32_bytes s" "?f @ rest"] assms(2) x by (simp del: edf_field_bytes.simps)
  have "skip_run Skip_fields (advance 5 r) = Some (0, advance 1 (advance 5 r))"
    using get_byte_remaining [OF rem] remaining_pos [OF rem] by (subst skip_fields_simps) (simp add: not_le)
  then have "skip_run (Skip_value MP_EDF_OBJECT) r = Some (0, advance 1 (advance 5 r))"
    using edf_read_object_header_law [of r s "?f @ rest" 0] assms(2)
    by (simp add: skip_value_simps scalar_width_def edf_type_defs)
  moreover have "remaining (advance 1 (advance 5 r)) (xs @ rest)"
    using remaining_advance(1) [of "advance 5 r" "[0xFF]"] rem by simp
  ultimately show ?thesis using x by (simp add: mp_edf_skip_value_def)
qed

theorem edf_null_not_skipped_witness:
  "\<exists>w'. mp_edf_write_null (Some (fresh_writer 4)) = Some (0, Some w')"
  using edf_null_not_skipped [of "fresh_writer 4" 1 "[]"] fresh_writer_accepts [of 1 4] by auto

theorem edf_field_id_taken_for_end_witness:
  "hd (id_bytes 255) = 0xFF \<and>
   (\<exists>r'. mp_edf_skip_value (Some \<lparr>rbuf = Some [15, 0, 0, 0, 0, 0xFF, 1, 1, 1, 0xFF], rpos = 0, rlen = 10, rowns = False\<rparr>)
      MP_EDF_OBJECT = Some (0, Some r') \<and> remaining r' [1, 1, 1, 0xFF])"
proof -
  let ?r = "\<lparr>rbuf = Some [15, 0, 0, 0, 0, 0xFF, 1, 1, 1, 0xFF], rpos = 0, rlen = 10, rowns = False\<rparr>"
  have b: "id_bytes 255 = [0xFF, 1]"
    by (subst id_bytes_simps, subst id_bytes_simps) (simp add: word_le_nat_alt)
  have "remaining ?r (MP_EDF_OBJECT # fixed32_bytes 0 @ edf_field_bytes (FCons 255 (E_bool True) FNil) @ [])"
    by (simp add: remaining_def b fixed32_bytes_def edf_type_defs)
  from edf_field_id_taken_for_end [OF _ this] show ?thesis by (simp add: b edf_type_defs)
qed

section \<open>Schema registry\<close>

lemma find_map: "find P (map f xs) = map_option f (find (\<lambda>x. P (f x)) xs)"
  by (induction xs) auto

lemma find_Some_bound: "find P [0..<n] = Some i \<Longrightarrow> i < n"
  by (auto simp: find_Some_iff)

lemma find_nth: "map_option ((!) qs) (find (\<lambda>i. P (qs ! i)) [0..<length qs]) = find P qs"
  using find_map [of P "(!) qs" "[0..<length qs]"] by (simp add: map_nth)

text \<open>The registry's entries: distinct addresses, in the first \<open>registered_schema_count\<close> slots.\<close>

definition registry_ok :: "schema_registry \<Rightarrow> nat list \<Rightarrow> bool" where
  "registry_ok g ps \<longleftrightarrow> distinct ps \<and> length (registered_schemas g) = MAX_REGISTERED_SCHEMAS \<and>
     registered_schema_count g = length ps \<and> length ps \<le> MAX_REGISTERED_SCHEMAS \<and>
     take (length ps) (registered_schemas g) = map Some ps"

lemma registry_nth: "registry_ok g ps \<Longrightarrow> i < length ps \<Longrightarrow> registered_schemas g ! i = Some (ps ! i)"
  unfolding registry_ok_def by (metis length_map nth_map nth_take)

lemma empty_registry_ok: "registry_ok empty_registry []"
  by (simp add: registry_ok_def empty_registry_def)

lemma register_schema_cases:
  assumes g: "registry_ok g ps"
  shows "mp_edf_register_schema g (Some p) =
    (if length ps = MAX_REGISTERED_SCHEMAS then (-1, g)
     else if p \<in> set ps then (0, g)
     else (0, \<lparr>registered_schemas = (registered_schemas g)[length ps := Some p],
               registered_schema_count = length ps + 1\<rparr>))"
proof -
  have n: "registered_schema_count g = length ps" "length ps \<le> MAX_REGISTERED_SCHEMAS"
    using g by (auto simp: registry_ok_def)
  have "(\<exists>i \<in> set [0..<length ps]. registered_schemas g ! i = Some p) \<longleftrightarrow> p \<in> set ps"
    using registry_nth [OF g] by (auto simp: in_set_conv_nth)
  then show ?thesis using n by (auto simp: mp_edf_register_schema_def)
qed

lemma register_schema_ok:
  assumes g: "registry_ok g ps" and "mp_edf_register_schema g (Some p) = (0, g')"
  shows "registry_ok g' (if p \<in> set ps then ps else ps @ [p])"
proof (cases "p \<in> set ps")
  case True
  then show ?thesis using assms register_schema_cases [OF g] by (auto split: if_splits)
next
  case False
  then have l: "length ps \<noteq> MAX_REGISTERED_SCHEMAS" and
    e: "g' = \<lparr>registered_schemas = (registered_schemas g)[length ps := Some p], registered_schema_count = length ps + 1\<rparr>"
    using assms(2) register_schema_cases [OF g] by (auto split: if_splits)
  then have lt: "length ps < length (registered_schemas g)" using g by (simp add: registry_ok_def)
  then have "take (Suc (length ps)) ((registered_schemas g)[length ps := Some p]) = map Some ps @ [Some p]"
    using g by (simp add: take_Suc_conv_app_nth registry_ok_def)
  then show ?thesis using g e l False by (auto simp: registry_ok_def)
qed

text \<open>
  The registry keeps one entry per schema: registering is idempotent, a success makes the
  schema's name resolvable to the first registered schema of that name, and only a full registry
  of 64 refuses.
\<close>

theorem edf_registry_correct:
  assumes "registry_ok g ps" and "schema_name (heap p) = Some name"
  shows "(case mp_edf_register_schema g (Some p) of (ret, g') \<Rightarrow>
     (ret = -1 \<longleftrightarrow> length ps = MAX_REGISTERED_SCHEMAS) \<and> (ret = -1 \<longrightarrow> g' = g) \<and>
     (ret = 0 \<longrightarrow> (\<exists>ps'. registry_ok g' ps' \<and> set ps' = insert p (set ps) \<and>
        mp_edf_get_schema_by_name heap g' (Some name) = find (\<lambda>q. schema_name (heap q) = Some name) ps' \<and>
        mp_edf_get_schema_by_name heap g' (Some name) \<noteq> None)))"
proof -
  have lookup: "mp_edf_get_schema_by_name heap h (Some name) = find (\<lambda>q. schema_name (heap q) = Some name) qs"
    if h: "registry_ok h qs" for h qs
  proof -
    have "find (named_schema heap h name) [0..<length qs] =
        find (\<lambda>i. schema_name (heap (qs ! i)) = Some name) [0..<length qs]"
      by (rule find_cong) (auto simp: named_schema_def registry_nth [OF h])
    then have "mp_edf_get_schema_by_name heap h (Some name) =
        map_option ((!) qs) (find (\<lambda>i. schema_name (heap (qs ! i)) = Some name) [0..<length qs])"
      using h
      by (cases "find (\<lambda>i. schema_name (heap (qs ! i)) = Some name) [0..<length qs]")
        (auto simp: mp_edf_get_schema_by_name_def registry_ok_def registry_nth [OF h] dest: find_Some_bound)
    then show ?thesis using find_nth [of qs "\<lambda>q. schema_name (heap q) = Some name"] by simp
  qed
  show ?thesis
  proof (cases "length ps = MAX_REGISTERED_SCHEMAS")
    case True
    then show ?thesis using register_schema_cases [OF assms(1)] by simp
  next
    case False
    obtain g' where g': "mp_edf_register_schema g (Some p) = (0, g')"
      using False register_schema_cases [OF assms(1)] by (cases "p \<in> set ps") auto
    let ?ps = "if p \<in> set ps then ps else ps @ [p]"
    have "find (\<lambda>q. schema_name (heap q) = Some name) ?ps \<noteq> None"
      using assms(2) by (auto simp: find_None_iff)
    then show ?thesis
      using g' False register_schema_ok [OF assms(1) g'] lookup [OF register_schema_ok [OF assms(1) g']]
      by (auto intro!: exI [of _ ?ps])
  qed
qed

theorem edf_registry_correct_witness: "fst (mp_edf_register_schema empty_registry (Some 7)) \<noteq> -1"
  using edf_registry_correct [OF empty_registry_ok, of
      "\<lambda>_. \<lparr>schema_name = Some ''msg'', schema_version = 1, schema_fields = [], schema_field_count = 0, schema_struct_size = 0\<rparr>"
      7 "''msg''"]
  by (auto simp: MAX_REGISTERED_SCHEMAS_def)

end
