(* ===== verification/Json.thy ===== *)
theory Json
  imports Codec
begin

text \<open>
  The JSON library of \<open>src/serialization/json.c\<close> and \<open>include/microposix/serialization/json.h\<close>: values, the
  recursive-descent parser, the generator with its growing buffer, and the operations on values.

  A value is a tree: every node is owned by exactly one parent, as \<open>mp_json_free\<close> requires.  A \<open>double\<close> is its
  IEEE bit pattern; the conversions of the C library (\<open>strtod\<close>, \<open>printf\<close>'s \<open>%.15g\<close>, and the casts between
  \<open>double\<close> and \<open>int64_t\<close>) are a parameter of type \<open>c_double\<close>.  Positions in the input are natural numbers,
  because the input is an object that fits the address space.  Whether the \<open>k\<close>-th call of the allocator with a
  given size succeeds is an oracle, and the parser counts the blocks that it holds.
\<close>

section \<open>Characters\<close>

definition ascii :: "string \<Rightarrow> u8 list" where
  "ascii s = map of_char s"

abbreviation ch_quote :: u8 where "ch_quote \<equiv> 0x22"
abbreviation ch_apostrophe :: u8 where "ch_apostrophe \<equiv> 0x27"
abbreviation ch_star :: u8 where "ch_star \<equiv> 0x2A"
abbreviation ch_plus :: u8 where "ch_plus \<equiv> 0x2B"
abbreviation ch_comma :: u8 where "ch_comma \<equiv> 0x2C"
abbreviation ch_minus :: u8 where "ch_minus \<equiv> 0x2D"
abbreviation ch_dot :: u8 where "ch_dot \<equiv> 0x2E"
abbreviation ch_slash :: u8 where "ch_slash \<equiv> 0x2F"
abbreviation ch_0 :: u8 where "ch_0 \<equiv> 0x30"
abbreviation ch_9 :: u8 where "ch_9 \<equiv> 0x39"
abbreviation ch_colon :: u8 where "ch_colon \<equiv> 0x3A"
abbreviation ch_E :: u8 where "ch_E \<equiv> 0x45"
abbreviation ch_open_array :: u8 where "ch_open_array \<equiv> 0x5B"
abbreviation ch_backslash :: u8 where "ch_backslash \<equiv> 0x5C"
abbreviation ch_close_array :: u8 where "ch_close_array \<equiv> 0x5D"
abbreviation ch_b :: u8 where "ch_b \<equiv> 0x62"
abbreviation ch_e :: u8 where "ch_e \<equiv> 0x65"
abbreviation ch_f :: u8 where "ch_f \<equiv> 0x66"
abbreviation ch_n :: u8 where "ch_n \<equiv> 0x6E"
abbreviation ch_r :: u8 where "ch_r \<equiv> 0x72"
abbreviation ch_t :: u8 where "ch_t \<equiv> 0x74"
abbreviation ch_u :: u8 where "ch_u \<equiv> 0x75"
abbreviation ch_open_object :: u8 where "ch_open_object \<equiv> 0x7B"
abbreviation ch_close_object :: u8 where "ch_close_object \<equiv> 0x7D"
abbreviation ch_backspace :: u8 where "ch_backspace \<equiv> 8"
abbreviation ch_tab :: u8 where "ch_tab \<equiv> 9"
abbreviation ch_newline :: u8 where "ch_newline \<equiv> 10"
abbreviation ch_formfeed :: u8 where "ch_formfeed \<equiv> 12"
abbreviation ch_return :: u8 where "ch_return \<equiv> 13"
abbreviation ch_space :: u8 where "ch_space \<equiv> 0x20"

definition is_whitespace :: "u8 \<Rightarrow> bool" where
  "is_whitespace c \<longleftrightarrow> c = ch_space \<or> c = ch_tab \<or> c = ch_newline \<or> c = ch_return"

definition is_digit :: "u8 \<Rightarrow> bool" where
  "is_digit c \<longleftrightarrow> c \<ge> ch_0 \<and> c \<le> ch_9"

definition is_hex_digit :: "u8 \<Rightarrow> bool" where
  "is_hex_digit c \<longleftrightarrow> is_digit c \<or> c \<ge> 0x61 \<and> c \<le> 0x66 \<or> c \<ge> 0x41 \<and> c \<le> 0x46"

section \<open>Values\<close>

text \<open>
  The tag of \<open>mp_json_value_t\<close> is the constructor.  A number holds its \<open>double\<close>, \<open>is_integer\<close> and its
  \<open>int64_t\<close>; a string its buffer, its length and whether it owns the buffer; an object its key and value arrays
  (whose common length is \<open>count\<close>) and their capacity; an array its elements and their capacity.
\<close>

datatype json =
    J_null
  | J_boolean bool
  | J_number u64 bool u64
  | J_string "u8 list option" nat bool
  | J_object "(json \<times> json) list" nat
  | J_array "json list" nat
  | J_error

fun is_string :: "json \<Rightarrow> bool" where
  "is_string (J_string s n own) = True"
| "is_string _ = False"

record c_double =
  of_int64 :: "u64 \<Rightarrow> u64"
  to_int64 :: "u64 \<Rightarrow> u64"
  c_strtod :: "u8 list \<Rightarrow> u64"
  show_15g :: "u64 \<Rightarrow> u8 list"

text \<open>\<open>==\<close> on doubles: false when one is a NaN, true for the two zeros.\<close>

definition is_nan :: "u64 \<Rightarrow> bool" where
  "is_nan d \<longleftrightarrow> (d AND 0x7FFFFFFFFFFFFFFF) > 0x7FF0000000000000"

definition double_eq :: "u64 \<Rightarrow> u64 \<Rightarrow> bool" where
  "double_eq a b \<longleftrightarrow> \<not> is_nan a \<and> \<not> is_nan b \<and> (a = b \<or> (a OR b) AND 0x7FFFFFFFFFFFFFFF = 0)"

text \<open>\<open>mp_json_free\<close>, as the number of blocks that it releases: the node, the string it owns, the two key and
  value arrays or the element array, and everything below.\<close>

function json_blocks :: "json \<Rightarrow> nat" and member_blocks :: "(json \<times> json) list \<Rightarrow> nat"
  and element_blocks :: "json list \<Rightarrow> nat" where
  "json_blocks (J_string s n own) = (if own \<and> s \<noteq> None then 1 else 0) + 1"
| "json_blocks (J_object es cap) = member_blocks es + (if cap = 0 then 0 else 2) + 1"
| "json_blocks (J_array xs cap) = element_blocks xs + (if cap = 0 then 0 else 1) + 1"
| "json_blocks J_null = 1"
| "json_blocks (J_boolean b) = 1"
| "json_blocks (J_number d i n) = 1"
| "json_blocks J_error = 1"
| "member_blocks [] = 0"
| "member_blocks ((k, v) # es) = json_blocks k + json_blocks v + member_blocks es"
| "element_blocks [] = 0"
| "element_blocks (x # xs) = json_blocks x + element_blocks xs"
  by pat_completeness auto

termination json_blocks
  by (relation "measure (case_sum size (case_sum (size_list (size_prod size size)) (size_list size)))") auto

definition mp_json_free :: "json option \<Rightarrow> nat" where
  "mp_json_free v = (case v of None \<Rightarrow> 0 | Some x \<Rightarrow> json_blocks x)"

section \<open>The parser\<close>

definition MP_JSON_PARSE_ALLOW_COMMENTS :: u32 where "MP_JSON_PARSE_ALLOW_COMMENTS = 1"
definition MP_JSON_PARSE_ALLOW_SINGLE_QUOTES :: u32 where "MP_JSON_PARSE_ALLOW_SINGLE_QUOTES = 4"
definition MP_JSON_PARSE_ALLOW_UNQUOTED_KEYS :: u32 where "MP_JSON_PARSE_ALLOW_UNQUOTED_KEYS = 8"

text \<open>\<open>jp_alloc k n\<close> tells whether the \<open>k\<close>-th call of \<open>alloc_fn\<close>, for \<open>n\<close> bytes, succeeds; \<open>jp_calls\<close> counts the
  calls and \<open>jp_live\<close> the blocks allocated and not released.\<close>

record json_parser =
  jp_input :: "u8 list"
  jp_position :: nat
  jp_length :: nat
  jp_root :: "json option"
  jp_error :: "string option"
  jp_error_position :: nat
  jp_alloc :: "nat \<Rightarrow> nat \<Rightarrow> bool"
  jp_calls :: nat
  jp_live :: int

definition sizeof_json_value :: nat where "sizeof_json_value = 32"
definition sizeof_pointer :: nat where "sizeof_pointer = 4"

definition jp_at :: "json_parser \<Rightarrow> u8" where
  "jp_at p = jp_input p ! jp_position p"

definition jp_more :: "json_parser \<Rightarrow> bool" where
  "jp_more p \<longleftrightarrow> jp_position p < jp_length p"

definition jp_sees :: "u8 \<Rightarrow> json_parser \<Rightarrow> bool" where
  "jp_sees c p \<longleftrightarrow> jp_more p \<and> jp_at p = c"

definition jp_advance :: "nat \<Rightarrow> json_parser \<Rightarrow> json_parser" where
  "jp_advance n p = p\<lparr>jp_position := jp_position p + n\<rparr>"

text \<open>\<open>parser->error = msg; parser->error_position = pos\<close>\<close>

definition set_error :: "string \<Rightarrow> nat \<Rightarrow> json_parser \<Rightarrow> json_parser" where
  "set_error msg pos p = p\<lparr>jp_error := Some msg, jp_error_position := pos\<rparr>"

definition error_here :: "string \<Rightarrow> json_parser \<Rightarrow> json_parser" where
  "error_here msg p = set_error msg (jp_position p) p"

definition json_alloc :: "nat \<Rightarrow> json_parser \<Rightarrow> bool \<times> json_parser" where
  "json_alloc n p =
     (let ok = jp_alloc p (jp_calls p) n
      in (ok, p\<lparr>jp_calls := jp_calls p + 1, jp_live := jp_live p + (if ok then 1 else 0)\<rparr>))"

definition json_release :: "nat \<Rightarrow> json_parser \<Rightarrow> json_parser" where
  "json_release n p = p\<lparr>jp_live := jp_live p - int n\<rparr>"

text \<open>An allocation that fails with \<open>Out of memory\<close> at the current position.\<close>

definition alloc_node :: "json_parser \<Rightarrow> bool \<times> json_parser" where
  "alloc_node p =
     (let (ok, p') = json_alloc sizeof_json_value p
      in if ok then (True, p') else (False, error_here ''Out of memory'' p'))"

subsection \<open>White space and comments\<close>

function skip_while :: "(u8 \<Rightarrow> bool) \<Rightarrow> u8 list \<Rightarrow> nat \<Rightarrow> nat \<Rightarrow> nat" where
  "skip_while P s n i = (if i < n \<and> P (s ! i) then skip_while P s n (i + 1) else i)"
  by pat_completeness auto

termination skip_while
  by (relation "measure (\<lambda>(P, s, n, i). n - i)") auto

definition skip_whitespace :: "json_parser \<Rightarrow> json_parser" where
  "skip_whitespace p = p\<lparr>jp_position := skip_while is_whitespace (jp_input p) (jp_length p) (jp_position p)\<rparr>"

declare skip_while.simps [simp del]

text \<open>The search for the end of a block comment: where it stops and whether it found the end.\<close>

function block_comment_end :: "u8 list \<Rightarrow> nat \<Rightarrow> nat \<Rightarrow> bool \<times> nat" where
  "block_comment_end s n i =
     (if i + 1 < n
      then if s ! i = ch_star \<and> s ! (i + 1) = ch_slash then (True, i + 2) else block_comment_end s n (i + 1)
      else (False, i))"
  by pat_completeness auto

termination block_comment_end
  by (relation "measure (\<lambda>(s, n, i). n - i)") auto

declare block_comment_end.simps [simp del]

definition skip_comments :: "json_parser \<Rightarrow> u32 \<Rightarrow> bool \<times> json_parser" where
  "skip_comments p flags =
     (if flags AND MP_JSON_PARSE_ALLOW_COMMENTS = 0 then (False, p)
      else if jp_position p + 1 < jp_length p \<and> jp_at p = ch_slash
      then if jp_input p ! (jp_position p + 1) = ch_slash
           then (True, p\<lparr>jp_position :=
                   skip_while (\<lambda>c. c \<noteq> ch_newline) (jp_input p) (jp_length p) (jp_position p + 2)\<rparr>)
           else if jp_input p ! (jp_position p + 1) = ch_star
           then (case block_comment_end (jp_input p) (jp_length p) (jp_position p + 2) of
                   (True, i) \<Rightarrow> (True, p\<lparr>jp_position := i\<rparr>)
                 | (False, i) \<Rightarrow> (False, error_here ''Unterminated comment'' (p\<lparr>jp_position := i\<rparr>)))
           else (False, p)
      else (False, p))"

lemma skip_while_ge: "i \<le> skip_while P s n i"
  by (induction P s n i rule: skip_while.induct) (subst skip_while.simps, auto)

lemma block_comment_end_ge: "i \<le> snd (block_comment_end s n i)"
  by (induction s n i rule: block_comment_end.induct) (subst block_comment_end.simps, auto)

lemma skip_comments_progress:
  assumes "skip_comments p flags = (True, p')"
  shows "jp_position p < jp_position p' \<and> jp_length p' = jp_length p \<and> jp_position p < jp_length p"
  using assms skip_while_ge [of "jp_position p + 2" "\<lambda>c. c \<noteq> ch_newline" "jp_input p" "jp_length p"]
    block_comment_end_ge [of "jp_position p + 2" "jp_input p" "jp_length p"]
  by (auto simp: skip_comments_def split: if_splits prod.splits bool.splits)

lemma skip_whitespace_progress:
  "jp_position p \<le> jp_position (skip_whitespace p) \<and> jp_length (skip_whitespace p) = jp_length p"
  by (simp add: skip_whitespace_def skip_while_ge)

text \<open>\<open>while (skip_comments(parser, flags)) { skip_whitespace(parser); }\<close>\<close>

function comments_loop :: "u32 \<Rightarrow> json_parser \<Rightarrow> json_parser" where
  "comments_loop flags p =
     (case skip_comments p flags of
        (True, p') \<Rightarrow> comments_loop flags (skip_whitespace p')
      | (False, p') \<Rightarrow> p')"
  by pat_completeness auto

termination comments_loop
proof (relation "measure (\<lambda>(flags, p). jp_length p - jp_position p)", goal_cases)
  case 1
  then show ?case by simp
next
  case (2 flags p r p')
  then have "skip_comments p flags = (True, p')" by simp
  from skip_comments_progress [OF this] skip_whitespace_progress [of p']
  show ?case by (simp; linarith)
qed

declare comments_loop.simps [simp del]

definition skip_trivia :: "u32 \<Rightarrow> json_parser \<Rightarrow> json_parser" where
  "skip_trivia flags p = comments_loop flags (skip_whitespace p)"

subsection \<open>Strings\<close>

text \<open>The scan for the closing quote: whether it is found, and the position reached.\<close>

function string_end :: "u8 list \<Rightarrow> nat \<Rightarrow> u8 \<Rightarrow> nat \<Rightarrow> bool \<times> nat" where
  "string_end s n q i =
     (if i < n \<and> s ! i \<noteq> q
      then if s ! i = ch_backslash
           then if i + 1 \<ge> n then (False, i + 1) else string_end s n q (i + 2)
           else string_end s n q (i + 1)
      else (i < n, i))"
  by pat_completeness auto

termination string_end
  by (relation "measure (\<lambda>(s, n, q, i). n - i)") auto

declare string_end.simps [simp del]

definition escaped_char :: "u8 \<Rightarrow> u8" where
  "escaped_char c =
     (if c = ch_b then ch_backspace else if c = ch_f then ch_formfeed else if c = ch_n then ch_newline
      else if c = ch_r then ch_return else if c = ch_t then ch_tab else c)"

text \<open>The unescaping loop over the input from \<open>i\<close> to the closing quote at \<open>e\<close>.  A \<open>\u\<close> escape with its four digits
  is copied as it is; one cut short loses its backslash.\<close>

function unescape :: "u8 list \<Rightarrow> nat \<Rightarrow> nat \<Rightarrow> u8 list" where
  "unescape s e i =
     (if i < e
      then if s ! i = ch_backslash \<and> i + 1 < e
           then if s ! (i + 1) = ch_u
                then if i + 5 < e
                     then [ch_backslash, ch_u] @ map (\<lambda>j. s ! (i + 2 + j)) [0..<4] @ unescape s e (i + 6)
                     else unescape s e (i + 1)
                else escaped_char (s ! (i + 1)) # unescape s e (i + 2)
           else s ! i # unescape s e (i + 1)
      else [])"
  by pat_completeness auto

termination unescape
  by (relation "measure (\<lambda>(s, e, i). e - i)") auto

declare unescape.simps [simp del]

definition parse_string :: "json_parser \<Rightarrow> u32 \<Rightarrow> (json option \<times> json_parser) option" where
  "parse_string p flags =
     (if \<not> jp_more p then Some (None, error_here ''Unexpected end of input'' p)
      else if jp_at p \<noteq> ch_quote \<and> flags AND MP_JSON_PARSE_ALLOW_SINGLE_QUOTES = 0 \<or> jp_at p \<noteq> ch_apostrophe
      then Some (None, error_here ''Expected string'' p)
      else
        let start = jp_position p + 1;
            (found, i) = string_end (jp_input p) (jp_length p) (jp_at p) start;
            p1 = p\<lparr>jp_position := i\<rparr>
        in if \<not> found then Some (None, set_error ''Unterminated string'' start p1)
           else case alloc_node p1 of
                  (False, p2) \<Rightarrow> Some (None, p2)
                | (True, p2) \<Rightarrow>
                    (case json_alloc (i - start + 1) p2 of
                       (False, p3) \<Rightarrow> Some (None, json_release 1 (error_here ''Out of memory'' p3))
                     | (True, p3) \<Rightarrow>
                         let out = unescape (jp_input p) i start
                         in if length out + 1 \<le> i - start + 1
                            then Some (Some (J_string (Some (out @ [0])) (length out) True), jp_advance 1 p3)
                            else None))"

subsection \<open>Numbers and literals\<close>

definition number_char :: "u8 \<Rightarrow> bool" where
  "number_char c \<longleftrightarrow> is_digit c \<or> c = ch_dot \<or> c = ch_e \<or> c = ch_E \<or> c = ch_plus \<or> c = ch_minus"

text \<open>\<open>strtoll(s, NULL, 10)\<close>: an optional sign, the longest run of digits, clamped to the range of \<open>long long\<close>.\<close>

fun digits_value :: "int \<Rightarrow> u8 list \<Rightarrow> int" where
  "digits_value n [] = n"
| "digits_value n (c # s) = (if is_digit c then digits_value (10 * n + (uint c - 0x30)) s else n)"

definition clamp_int64 :: "int \<Rightarrow> int" where
  "clamp_int64 n = max (- (2 ^ 63)) (min n (2 ^ 63 - 1))"

definition c_strtoll :: "u8 list \<Rightarrow> int" where
  "c_strtoll s =
     clamp_int64
       (case s of [] \<Rightarrow> 0
        | c # t \<Rightarrow> if c = ch_minus then - digits_value 0 t
                  else if c = ch_plus then digits_value 0 t else digits_value 0 s)"

definition number_value :: "c_double \<Rightarrow> u8 list \<Rightarrow> json" where
  "number_value D s =
     (if ch_dot \<in> set s \<or> ch_e \<in> set s \<or> ch_E \<in> set s
      then J_number (c_strtod D s) False (to_int64 D (c_strtod D s))
      else J_number (of_int64 D (word_of_int (c_strtoll s))) True (word_of_int (c_strtoll s)))"

definition parse_number :: "c_double \<Rightarrow> json_parser \<Rightarrow> json option \<times> json_parser" where
  "parse_number D p =
     (let start = jp_position p;
          e = skip_while number_char (jp_input p) (jp_length p) start;
          p1 = p\<lparr>jp_position := e\<rparr>
      in case json_alloc (e - start + 1) p1 of
           (False, p2) \<Rightarrow> (None, set_error ''Out of memory'' start p2)
         | (True, p2) \<Rightarrow>
             (case json_alloc sizeof_json_value p2 of
                (False, p3) \<Rightarrow> (None, set_error ''Out of memory'' start (json_release 1 p3))
              | (True, p3) \<Rightarrow>
                  (Some (number_value D (take (e - start) (drop start (jp_input p)))), json_release 1 p3)))"

text \<open>The cases \<open>null\<close>, \<open>true\<close> and \<open>false\<close> of \<open>parse_value\<close>: \<open>memcmp\<close>, advance, allocate.\<close>

definition parse_literal :: "u8 list \<Rightarrow> json \<Rightarrow> json_parser \<Rightarrow> json option \<times> json_parser" where
  "parse_literal kw v p =
     (if jp_position p + (length kw - 1) < jp_length p \<and>
         take (length kw) (drop (jp_position p) (jp_input p)) = kw
      then (case alloc_node (jp_advance (length kw) p) of
              (False, p1) \<Rightarrow> (None, p1)
            | (True, p1) \<Rightarrow> (Some v, p1))
      else (None, error_here ''Unexpected character'' p))"

definition starts_number :: "u8 \<Rightarrow> bool" where
  "starts_number c \<longleftrightarrow> c = ch_minus \<or> c = ch_plus \<or> c = ch_dot \<or> is_digit c"

text \<open>The cases of \<open>parse_value\<close> that are not containers, at the character that starts the value.\<close>

definition parse_scalar :: "c_double \<Rightarrow> u32 \<Rightarrow> json_parser \<Rightarrow> (json option \<times> json_parser) option" where
  "parse_scalar D flags p =
     (let c = jp_at p
      in if c = ch_quote \<or> c = ch_apostrophe then parse_string p flags
         else if c = ch_n then Some (parse_literal (ascii ''null'') J_null p)
         else if c = ch_t then Some (parse_literal (ascii ''true'') (J_boolean True) p)
         else if c = ch_f then Some (parse_literal (ascii ''false'') (J_boolean False) p)
         else if starts_number c then Some (parse_number D p)
         else if flags AND MP_JSON_PARSE_ALLOW_UNQUOTED_KEYS \<noteq> 0 then parse_string p flags
         else Some (None, error_here ''Unexpected character'' p))"

subsection \<open>Objects and arrays\<close>

definition quoted :: "string \<Rightarrow> string" where
  "quoted s = [CHR 0x27] @ s @ [CHR 0x27]"

text \<open>The start of \<open>parse_object\<close>.  When the brace is missing the code allocates a second node where it means to
  free the first one.\<close>

definition begin_object :: "json_parser \<Rightarrow> bool \<times> json_parser" where
  "begin_object p =
     (case alloc_node p of
        (False, p1) \<Rightarrow> (False, p1)
      | (True, p1) \<Rightarrow>
          if \<not> jp_sees ch_open_object p1
          then (False, snd (json_alloc sizeof_json_value (error_here (''Expected '' @ quoted ''{'') p1)))
          else (True, jp_advance 1 p1))"

definition begin_array :: "json_parser \<Rightarrow> bool \<times> json_parser" where
  "begin_array p =
     (case alloc_node p of
        (False, p1) \<Rightarrow> (False, p1)
      | (True, p1) \<Rightarrow>
          if \<not> jp_sees ch_open_array p1
          then (False, json_release 1 (error_here (''Expected '' @ quoted ''['') p1))
          else (True, jp_advance 1 p1))"

text \<open>The end of the two loops: \<open>Some\<close> of the parser when the loop breaks.\<close>

definition container_end :: "u8 \<Rightarrow> string \<Rightarrow> json_parser \<Rightarrow> json_parser option" where
  "container_end closing msg p =
     (if \<not> jp_more p then Some (error_here msg p)
      else if jp_at p = closing then Some (jp_advance 1 p)
      else None)"

text \<open>What follows a key: it has to be a string, and a colon comes next.  \<open>False\<close> means that the key was released
  and the parser failed.\<close>

definition after_key :: "json \<Rightarrow> json_parser \<Rightarrow> bool \<times> json_parser" where
  "after_key key p =
     (if \<not> is_string key then (False, json_release 1 (error_here ''Object key must be a string'' p))
      else
        let p' = skip_whitespace p
        in if \<not> jp_sees ch_colon p' then (False, json_release 1 (error_here (''Expected '' @ quoted '':'') p'))
           else (True, jp_advance 1 p'))"

text \<open>The capacity after a reallocation.\<close>

definition grown_capacity :: "nat \<Rightarrow> nat" where
  "grown_capacity cap = (if cap = 0 then 8 else cap * 2)"

definition room_for_member :: "nat \<Rightarrow> nat \<Rightarrow> json_parser \<Rightarrow> nat option \<times> json_parser" where
  "room_for_member count cap p =
     (if count \<ge> cap
      then
        let new_capacity = grown_capacity cap;
            (keys_ok, p1) = json_alloc (new_capacity * sizeof_pointer) p;
            (values_ok, p2) = json_alloc (new_capacity * sizeof_pointer) p1
        in if \<not> keys_ok \<or> \<not> values_ok
           then (None, json_release (2 + (if keys_ok then 1 else 0) + (if values_ok then 1 else 0))
                         (error_here ''Out of memory'' p2))
           else (Some new_capacity, json_release (if cap = 0 then 0 else 2) p2)
      else (Some cap, p))"

definition room_for_element :: "nat \<Rightarrow> nat \<Rightarrow> json_parser \<Rightarrow> nat option \<times> json_parser" where
  "room_for_element count cap p =
     (if count \<ge> cap
      then
        let new_capacity = grown_capacity cap;
            (ok, p1) = json_alloc (new_capacity * sizeof_pointer) p
        in if \<not> ok then (None, json_release 1 (error_here ''Out of memory'' p1))
           else (Some new_capacity, json_release (if cap = 0 then 0 else 1) p1)
      else (Some cap, p))"

text \<open>The clean-up of a container that is abandoned releases the nodes of its children, not what they own.\<close>

definition drop_object :: "(json \<times> json) list \<Rightarrow> nat \<Rightarrow> json_parser \<Rightarrow> json_parser" where
  "drop_object es cap p = json_release (2 * length es + (if cap = 0 then 0 else 2) + 1) p"

definition drop_array :: "json list \<Rightarrow> nat \<Rightarrow> json_parser \<Rightarrow> json_parser" where
  "drop_array xs cap p = json_release (length xs + (if cap = 0 then 0 else 1) + 1) p"

text \<open>The end of the loop body: a comma is skipped when there is one; every other branch, the one under
  \<open>MP_JSON_PARSE_ALLOW_TRAILING_COMMA\<close> included, starts the next round of the loop where it is.\<close>

definition skip_comma :: "json_parser \<Rightarrow> json_parser" where
  "skip_comma p = (let p' = skip_whitespace p in if jp_sees ch_comma p' then jp_advance 1 p' else p')"

text \<open>
  \<open>parse_value\<close>, \<open>parse_object\<close> and \<open>parse_array\<close> call each other and the last two loop: the three kinds of job are
  a value, the loop of an object with the members read so far, and the loop of an array.
\<close>

datatype json_job =
    Parse_value
  | Parse_members "(json \<times> json) list" nat
  | Parse_elements "json list" nat

partial_function (option) json_run ::
  "c_double \<Rightarrow> u32 \<Rightarrow> json_job \<Rightarrow> json_parser \<Rightarrow> (json option \<times> json_parser) option" where
  "json_run D flags job p0 =
     (let p = skip_trivia flags p0
      in case job of
        Parse_value \<Rightarrow>
          if \<not> jp_more p then Some (None, error_here ''Unexpected end of input'' p)
          else if jp_at p = ch_open_object
          then (case begin_object p of
                  (ok, p1) \<Rightarrow> if ok then json_run D flags (Parse_members [] 0) p1 else Some (None, p1))
          else if jp_at p = ch_open_array
          then (case begin_array p of
                  (ok, p1) \<Rightarrow> if ok then json_run D flags (Parse_elements [] 0) p1 else Some (None, p1))
          else parse_scalar D flags p
      | Parse_members es cap \<Rightarrow>
          (case container_end ch_close_object ''Unterminated object'' p of
             Some p' \<Rightarrow> Some (Some (J_object es cap), p')
           | None \<Rightarrow> do {
               (okey, p1) \<leftarrow> json_run D flags Parse_value p;
               case okey of
                 None \<Rightarrow> Some (None, drop_object es cap p1)
               | Some key \<Rightarrow>
                   (case after_key key p1 of
                      (ok, p2) \<Rightarrow> if \<not> ok then Some (None, drop_object es cap p2) else do {
                        (oval, p3) \<leftarrow> json_run D flags Parse_value p2;
                        case oval of
                          None \<Rightarrow> Some (None, drop_object es cap (json_release 1 p3))
                        | Some val \<Rightarrow>
                            (case room_for_member (length es) cap p3 of
                               (None, p4) \<Rightarrow> Some (None, drop_object es cap p4)
                             | (Some cap', p4) \<Rightarrow>
                                 json_run D flags (Parse_members (es @ [(key, val)]) cap') (skip_comma p4)) }) })
      | Parse_elements xs cap \<Rightarrow>
          (case container_end ch_close_array ''Unterminated array'' p of
             Some p' \<Rightarrow> Some (Some (J_array xs cap), p')
           | None \<Rightarrow> do {
               (oval, p1) \<leftarrow> json_run D flags Parse_value p;
               case oval of
                 None \<Rightarrow> Some (None, drop_array xs cap p1)
               | Some val \<Rightarrow>
                   (case room_for_element (length xs) cap p1 of
                      (None, p2) \<Rightarrow> Some (None, drop_array xs cap p2)
                    | (Some cap', p2) \<Rightarrow> json_run D flags (Parse_elements (xs @ [val]) cap') (skip_comma p2)) }))"

definition parse_value :: "c_double \<Rightarrow> json_parser \<Rightarrow> u32 \<Rightarrow> (json option \<times> json_parser) option" where
  "parse_value D p flags = json_run D flags Parse_value p"

subsection \<open>The operations of the parser\<close>

definition default_alloc :: "(nat \<Rightarrow> nat \<Rightarrow> bool) \<Rightarrow> nat \<Rightarrow> nat \<Rightarrow> bool" where
  "default_alloc malloc = malloc"

definition mp_json_parser_init_with_allocator ::
  "(nat \<Rightarrow> nat \<Rightarrow> bool) \<Rightarrow> json_parser option \<Rightarrow> u8 list option \<Rightarrow> (nat \<Rightarrow> nat \<Rightarrow> bool) option \<Rightarrow>
   (int \<times> json_parser option) option" where
  "mp_json_parser_init_with_allocator malloc parser input alloc_fn =
     (if parser = None then Some (-1, parser)
      else do {
        n \<leftarrow> (case input of None \<Rightarrow> Some 0 | Some s \<Rightarrow> c_strlen s);
        Some (0, Some \<lparr>jp_input = (case input of None \<Rightarrow> [] | Some s \<Rightarrow> s), jp_position = 0, jp_length = n,
                       jp_root = None, jp_error = None, jp_error_position = 0,
                       jp_alloc = (case alloc_fn of None \<Rightarrow> default_alloc malloc | Some f \<Rightarrow> f),
                       jp_calls = 0, jp_live = 0\<rparr>) })"

definition mp_json_parser_init ::
  "(nat \<Rightarrow> nat \<Rightarrow> bool) \<Rightarrow> json_parser option \<Rightarrow> u8 list option \<Rightarrow> (int \<times> json_parser option) option" where
  "mp_json_parser_init malloc parser input =
     mp_json_parser_init_with_allocator malloc parser input (Some (default_alloc malloc))"

text \<open>The length of the view is not used: the input is read up to its first zero byte.\<close>

definition mp_json_parser_init_from_view ::
  "(nat \<Rightarrow> nat \<Rightarrow> bool) \<Rightarrow> json_parser option \<Rightarrow> buffer_view option \<Rightarrow> (int \<times> json_parser option) option" where
  "mp_json_parser_init_from_view malloc parser view =
     (case (parser, view) of
        (Some p, Some v) \<Rightarrow>
          if bv_data v = None then Some (-1, parser)
          else mp_json_parser_init_with_allocator malloc parser (bv_data v) (Some (default_alloc malloc))
      | _ \<Rightarrow> Some (-1, parser))"

definition mp_json_parse ::
  "c_double \<Rightarrow> json_parser option \<Rightarrow> u32 \<Rightarrow> (json option \<times> json_parser option) option" where
  "mp_json_parse D parser flags =
     (case parser of None \<Rightarrow> Some (None, None)
      | Some p0 \<Rightarrow> do {
          (oval, p1) \<leftarrow> parse_value D (p0\<lparr>jp_error := None, jp_error_position := 0, jp_position := 0\<rparr>) flags;
          case oval of
            None \<Rightarrow> Some (None, Some p1)
          | Some val \<Rightarrow>
              let p2 = comments_loop flags (skip_whitespace p1)
              in if jp_more p2
                 then Some (None, Some (json_release (mp_json_free (Some val))
                                          (error_here ''Unexpected trailing data'' p2)))
                 else Some (Some val, Some (p2\<lparr>jp_root := Some val\<rparr>)) })"

definition mp_json_parser_destroy :: "json_parser option \<Rightarrow> json_parser option" where
  "mp_json_parser_destroy parser =
     (case parser of None \<Rightarrow> None
      | Some p \<Rightarrow>
          if jp_root p = None then Some p
          else Some ((json_release (mp_json_free (jp_root p)) p)\<lparr>jp_root := None\<rparr>))"

definition mp_json_parser_get_root :: "json_parser option \<Rightarrow> json option" where
  "mp_json_parser_get_root parser = (case parser of None \<Rightarrow> None | Some p \<Rightarrow> jp_root p)"

definition mp_json_parser_get_error :: "json_parser option \<Rightarrow> string option" where
  "mp_json_parser_get_error parser = (case parser of None \<Rightarrow> None | Some p \<Rightarrow> jp_error p)"

definition mp_json_parser_get_error_position :: "json_parser option \<Rightarrow> nat" where
  "mp_json_parser_get_error_position parser = (case parser of None \<Rightarrow> 0 | Some p \<Rightarrow> jp_error_position p)"

section \<open>The generator\<close>

definition MP_JSON_GEN_PRETTY :: u32 where "MP_JSON_GEN_PRETTY = 1"

record json_generator =
  jg_buffer :: "u8 list option"
  jg_position :: size_t
  jg_capacity :: size_t
  jg_pretty :: bool
  jg_indent :: int
  jg_realloc :: "(u8 list option \<Rightarrow> size_t \<Rightarrow> u8 list option) option"
  jg_alloc_data :: "nat option"

text \<open>\<open>generator->buffer[i] = c\<close>, undefined outside the buffer.\<close>

definition jg_store :: "size_t \<Rightarrow> u8 \<Rightarrow> json_generator \<Rightarrow> json_generator option" where
  "jg_store i c g =
     (case jg_buffer g of None \<Rightarrow> None
      | Some b \<Rightarrow> if unat i < length b then Some (g\<lparr>jg_buffer := Some (b[unat i := c])\<rparr>) else None)"

text \<open>\<open>if (buffer && capacity > 0) buffer[0] = '\0'\<close>\<close>

definition jg_clear :: "json_generator \<Rightarrow> json_generator option" where
  "jg_clear g = (if jg_buffer g \<noteq> None \<and> jg_capacity g > 0 then jg_store 0 0 g else Some g)"

definition mp_json_generator_init ::
  "json_generator option \<Rightarrow> u8 list option \<Rightarrow> size_t \<Rightarrow> (int \<times> json_generator option) option" where
  "mp_json_generator_init generator buffer capacity =
     (if generator = None then Some (-1, generator)
      else do {
        g \<leftarrow> jg_clear \<lparr>jg_buffer = buffer, jg_position = 0, jg_capacity = capacity, jg_pretty = False,
                       jg_indent = 0, jg_realloc = None, jg_alloc_data = None\<rparr>;
        Some (0, Some g) })"

definition mp_json_generator_init_with_allocator ::
  "(u8 list option \<Rightarrow> size_t \<Rightarrow> u8 list option) \<Rightarrow> json_generator option \<Rightarrow> size_t \<Rightarrow>
   (u8 list option \<Rightarrow> size_t \<Rightarrow> u8 list option) option \<Rightarrow> nat option \<Rightarrow> (int \<times> json_generator option) option" where
  "mp_json_generator_init_with_allocator libc_realloc generator capacity realloc_fn alloc_data =
     (if generator = None then Some (-1, generator)
      else
        let f = (case realloc_fn of None \<Rightarrow> libc_realloc | Some h \<Rightarrow> h);
            g = \<lparr>jg_buffer = None, jg_position = 0, jg_capacity = 0, jg_pretty = False, jg_indent = 0,
                 jg_realloc = Some f, jg_alloc_data = alloc_data\<rparr>
        in if capacity > 0
           then (case f None capacity of
                   None \<Rightarrow> Some (-1, Some g)
                 | Some b \<Rightarrow> do { g' \<leftarrow> jg_store 0 0 (g\<lparr>jg_buffer := Some b, jg_capacity := capacity\<rparr>);
                                  Some (0, Some g') })
           else Some (0, Some g))"

text \<open>\<open>mp_json_generator_destroy\<close>, and whether it calls \<open>realloc_fn(buffer, 0)\<close>.\<close>

definition mp_json_generator_destroy :: "json_generator option \<Rightarrow> json_generator option \<times> bool" where
  "mp_json_generator_destroy generator =
     (case generator of None \<Rightarrow> (None, False)
      | Some g \<Rightarrow> (Some (g\<lparr>jg_buffer := None, jg_position := 0, jg_capacity := 0\<rparr>),
                   jg_buffer g \<noteq> None \<and> jg_realloc g \<noteq> None))"

definition mp_json_generator_set_flags :: "json_generator option \<Rightarrow> u32 \<Rightarrow> json_generator option" where
  "mp_json_generator_set_flags generator flags =
     map_option (\<lambda>g. g\<lparr>jg_pretty := (flags AND MP_JSON_GEN_PRETTY \<noteq> 0)\<rparr>) generator"

definition mp_json_generator_set_indent :: "json_generator option \<Rightarrow> int \<Rightarrow> json_generator option" where
  "mp_json_generator_set_indent generator indent = map_option (\<lambda>g. g\<lparr>jg_indent := indent\<rparr>) generator"

text \<open>The doubling loop asks for one byte more than those of the serialisers; it may not end when the capacity wraps
  to 0.\<close>

partial_function (option) json_grow_loop :: "size_t \<Rightarrow> size_t \<Rightarrow> size_t option" where
  "json_grow_loop wanted new_capacity =
     (if wanted \<ge> new_capacity then json_grow_loop wanted (new_capacity * 2) else Some new_capacity)"

definition json_ensure_capacity :: "json_generator \<Rightarrow> size_t \<Rightarrow> json_generator option" where
  "json_ensure_capacity g needed =
     (if jg_position g + needed < jg_capacity g then Some g
      else do {
        new_capacity \<leftarrow> json_grow_loop (jg_position g + needed)
                         (if jg_capacity g = 0 then 256 else jg_capacity g * 2);
        case jg_realloc g of None \<Rightarrow> Some g
        | Some f \<Rightarrow>
            (case f (jg_buffer g) new_capacity of None \<Rightarrow> Some g
             | Some b \<Rightarrow> Some (g\<lparr>jg_buffer := Some b, jg_capacity := new_capacity\<rparr>)) })"

definition write_char :: "json_generator \<Rightarrow> u8 \<Rightarrow> json_generator option" where
  "write_char g0 c =
     do { g \<leftarrow> json_ensure_capacity g0 1;
          if jg_position g < jg_capacity g
          then do { g1 \<leftarrow> jg_store (jg_position g) c g;
                    jg_store (jg_position g1 + 1) 0 (g1\<lparr>jg_position := jg_position g1 + 1\<rparr>) }
          else Some g }"

text \<open>\<open>write_string\<close> of a string without a zero byte, given without its terminator.\<close>

definition write_string :: "json_generator \<Rightarrow> u8 list \<Rightarrow> json_generator option" where
  "write_string g0 str =
     do { let len = of_nat (length str);
          g \<leftarrow> json_ensure_capacity g0 len;
          if jg_position g + len < jg_capacity g
          then do { b \<leftarrow> jg_buffer g;
                    b' \<leftarrow> mem_write b (unat (jg_position g)) str;
                    jg_store (jg_position g + len) 0
                      (g\<lparr>jg_buffer := Some b', jg_position := jg_position g + len\<rparr>) }
          else Some g }"

fun write_times :: "nat \<Rightarrow> u8 list \<Rightarrow> json_generator \<Rightarrow> json_generator option" where
  "write_times 0 str g = Some g"
| "write_times (Suc n) str g = do { g' \<leftarrow> write_string g str; write_times n str g' }"

definition write_indent :: "json_generator \<Rightarrow> json_generator option" where
  "write_indent g = (if jg_pretty g then write_times (nat (jg_indent g)) [ch_space, ch_space] g else Some g)"

definition write_newline :: "json_generator \<Rightarrow> json_generator option" where
  "write_newline g = (if jg_pretty g then write_char g ch_newline else Some g)"

definition hex_digit :: "nat \<Rightarrow> u8" where
  "hex_digit n = of_nat (if n < 10 then 0x30 + n else 0x57 + n)"

text \<open>\<open>snprintf(buf, 8, "\u%04x", c)\<close> of a control character.\<close>

definition unicode_escape :: "u8 \<Rightarrow> u8 list" where
  "unicode_escape c = [ch_backslash, ch_u, ch_0, ch_0, hex_digit (unat c div 16), hex_digit (unat c mod 16)]"

definition write_escaped_char :: "json_generator \<Rightarrow> u8 \<Rightarrow> json_generator option" where
  "write_escaped_char g c =
     (if c = ch_quote then write_string g [ch_backslash, ch_quote]
      else if c = ch_backslash then write_string g [ch_backslash, ch_backslash]
      else if c = ch_backspace then write_string g [ch_backslash, ch_b]
      else if c = ch_formfeed then write_string g [ch_backslash, ch_f]
      else if c = ch_newline then write_string g [ch_backslash, ch_n]
      else if c = ch_return then write_string g [ch_backslash, ch_r]
      else if c = ch_tab then write_string g [ch_backslash, ch_t]
      else if c < 32 then write_string g (unicode_escape c)
      else write_char g c)"

fun write_escaped_chars :: "u8 list \<Rightarrow> json_generator \<Rightarrow> json_generator option" where
  "write_escaped_chars [] g = Some g"
| "write_escaped_chars (c # cs) g = do { g' \<leftarrow> write_escaped_char g c; write_escaped_chars cs g' }"

definition write_escaped_string :: "json_generator \<Rightarrow> u8 list option \<Rightarrow> nat \<Rightarrow> json_generator option" where
  "write_escaped_string g str len =
     (case str of None \<Rightarrow> write_string g (ascii ''null'')
      | Some s \<Rightarrow> do {
          g1 \<leftarrow> write_char g ch_quote;
          chars \<leftarrow> mem_read s 0 len;
          g2 \<leftarrow> write_escaped_chars chars g1;
          write_char g2 ch_quote })"

text \<open>\<open>%lld\<close>\<close>

fun decimal :: "nat \<Rightarrow> u8 list" where
  "decimal n = (if n < 10 then [of_nat (0x30 + n)] else decimal (n div 10) @ [of_nat (0x30 + n mod 10)])"

declare decimal.simps [simp del]

definition print_lld :: "u64 \<Rightarrow> u8 list" where
  "print_lld n = (if sint n < 0 then ch_minus # decimal (nat (- sint n)) else decimal (nat (sint n)))"

text \<open>The environment of the generator: the C heap's \<open>realloc\<close>, whether \<open>strdup\<close> can allocate a string of a given
  size, and the conversions of doubles.\<close>

record json_env =
  env_realloc :: "u8 list option \<Rightarrow> size_t \<Rightarrow> u8 list option"
  env_strdup :: "nat \<Rightarrow> bool"
  env_double :: c_double

definition number_text :: "c_double \<Rightarrow> u64 \<Rightarrow> bool \<Rightarrow> u64 \<Rightarrow> u8 list" where
  "number_text D value is_integer integer_value =
     (if is_integer \<or> double_eq value (of_int64 D integer_value) then print_lld integer_value
      else show_15g D value)"

text \<open>What starts a container (\<open>write_char\<close> of the brace, new line, deeper level), what separates its children,
  and what ends it.\<close>

definition open_container :: "u8 \<Rightarrow> json_generator \<Rightarrow> json_generator option" where
  "open_container c g =
     do { g1 \<leftarrow> write_char g c;
          if jg_pretty g1
          then do { g2 \<leftarrow> write_newline g1; Some (g2\<lparr>jg_indent := jg_indent g2 + 1\<rparr>) }
          else Some g1 }"

definition next_child :: "bool \<Rightarrow> json_generator \<Rightarrow> json_generator option" where
  "next_child is_first g =
     do { g1 \<leftarrow> (if is_first then Some g
                else do { g' \<leftarrow> write_char g ch_comma; write_newline g' });
          write_indent g1 }"

definition close_container :: "u8 \<Rightarrow> json_generator \<Rightarrow> json_generator option" where
  "close_container c g =
     do { g1 \<leftarrow> (if jg_pretty g
                then do { g' \<leftarrow> write_newline g; write_indent (g'\<lparr>jg_indent := jg_indent g' - 1\<rparr>) }
                else Some g);
          write_char g1 c }"

text \<open>After the key.\<close>

definition write_colon :: "json_generator \<Rightarrow> json_generator option" where
  "write_colon g =
     do { g1 \<leftarrow> write_char g ch_colon;
          if jg_pretty g1 then write_char g1 ch_space else Some g1 }"

text \<open>
  \<open>strdup(generator.buffer)\<close>: the bytes up to the terminator; \<^term>\<open>Some None\<close> is a \<open>NULL\<close> result.
\<close>

definition dup_output :: "json_env \<Rightarrow> json_generator \<Rightarrow> u8 list option option" where
  "dup_output E g =
     do { b \<leftarrow> jg_buffer g;
          n \<leftarrow> c_strlen b;
          Some (if env_strdup E (n + 1) then Some (take n b) else None) }"

text \<open>The local struct of \<open>mp_json_to_string\<close>, before its initialisation.\<close>

definition blank_generator :: json_generator where
  "blank_generator = \<lparr>jg_buffer = None, jg_position = 0, jg_capacity = 0, jg_pretty = False, jg_indent = 0,
     jg_realloc = None, jg_alloc_data = None\<rparr>"

text \<open>
  \<open>generate_value\<close>, the loops of \<open>generate_object\<close> and \<open>generate_array\<close>, and \<open>mp_json_to_string\<close>, which
  \<open>generate_object\<close> calls for a key that is not a string.  None of them has a failing branch of its own, so the code
  always returns 0; \<^term>\<open>None\<close> is undefined behaviour: a write outside the buffer, or \<open>strlen\<close> of the \<open>NULL\<close> that
  \<open>mp_json_to_string\<close> returns when memory is short.
\<close>

function generate_value :: "json_env \<Rightarrow> json \<Rightarrow> json_generator \<Rightarrow> json_generator option"
  and generate_members :: "json_env \<Rightarrow> bool \<Rightarrow> (json \<times> json) list \<Rightarrow> json_generator \<Rightarrow> json_generator option"
  and generate_elements :: "json_env \<Rightarrow> bool \<Rightarrow> json list \<Rightarrow> json_generator \<Rightarrow> json_generator option"
  and value_to_string :: "json_env \<Rightarrow> json \<Rightarrow> u32 \<Rightarrow> u8 list option option" where
  "generate_value E J_null g = write_string g (ascii ''null'')"
| "generate_value E (J_boolean b) g = write_string g (if b then ascii ''true'' else ascii ''false'')"
| "generate_value E (J_number d i n) g = write_string g (number_text (env_double E) d i n)"
| "generate_value E (J_string s n own) g = write_escaped_string g s n"
| "generate_value E (J_object es cap) g =
     do { g1 \<leftarrow> open_container ch_open_object g;
          g2 \<leftarrow> generate_members E True es g1;
          close_container ch_close_object g2 }"
| "generate_value E (J_array xs cap) g =
     do { g1 \<leftarrow> open_container ch_open_array g;
          g2 \<leftarrow> generate_elements E True xs g1;
          close_container ch_close_array g2 }"
| "generate_value E J_error g = write_string g (ascii ''null'')"
| "generate_members E is_first [] g = Some g"
| "generate_members E is_first ((k, v) # es) g =
     do { g1 \<leftarrow> next_child is_first g;
          g2 \<leftarrow> (case k of
                  J_string s n own \<Rightarrow> write_escaped_string g1 s n
                | _ \<Rightarrow> do { t \<leftarrow> value_to_string E k 0;
                           key_str \<leftarrow> t;
                           write_escaped_string g1 (Some key_str) (length key_str) });
          g3 \<leftarrow> write_colon g2;
          g4 \<leftarrow> generate_value E v g3;
          generate_members E False es g4 }"
| "generate_elements E is_first [] g = Some g"
| "generate_elements E is_first (x # xs) g =
     do { g1 \<leftarrow> next_child is_first g;
          g2 \<leftarrow> generate_value E x g1;
          generate_elements E False xs g2 }"
| "value_to_string E v flags =
     do { (ret, og) \<leftarrow> mp_json_generator_init_with_allocator (env_realloc E) (Some blank_generator) 256
                        (Some (env_realloc E)) None;
          g \<leftarrow> og;
          if ret \<noteq> 0 then Some None
          else do { g1 \<leftarrow> jg_clear (g\<lparr>jg_pretty := (flags AND MP_JSON_GEN_PRETTY \<noteq> 0), jg_position := 0\<rparr>);
                    g2 \<leftarrow> generate_value E v g1;
                    dup_output E g2 } }"
  by pat_completeness auto

termination generate_value
  by (relation "measure (case_sum
        (case_sum (\<lambda>(E, v, g). 2 * size v) (\<lambda>(E, f, es, g). 2 * size_list (size_prod size size) es + 1))
        (case_sum (\<lambda>(E, f, xs, g). 2 * size_list size xs + 1) (\<lambda>(E, v, flags). 2 * size v + 1)))") auto

declare value_to_string.simps [simp del]

text \<open>A \<open>NULL\<close> value is written like a null.\<close>

definition mp_json_to_string :: "json_env \<Rightarrow> json option \<Rightarrow> u32 \<Rightarrow> u8 list option option" where
  "mp_json_to_string E v flags = value_to_string E (case v of None \<Rightarrow> J_null | Some x \<Rightarrow> x) flags"

definition generate_optional :: "json_env \<Rightarrow> json option \<Rightarrow> json_generator \<Rightarrow> json_generator option" where
  "generate_optional E v g = (case v of None \<Rightarrow> write_string g (ascii ''null'') | Some x \<Rightarrow> generate_value E x g)"

definition mp_json_generate ::
  "json_env \<Rightarrow> json_generator option \<Rightarrow> json option \<Rightarrow> (int \<times> json_generator option) option" where
  "mp_json_generate E generator v =
     (case generator of None \<Rightarrow> Some (-1, None)
      | Some g \<Rightarrow> do { g1 \<leftarrow> jg_clear (g\<lparr>jg_position := 0\<rparr>);
                       g2 \<leftarrow> generate_optional E v g1;
                       Some (0, Some g2) })"

definition mp_json_generator_get_output :: "json_generator option \<Rightarrow> u8 list option" where
  "mp_json_generator_get_output generator = (case generator of None \<Rightarrow> None | Some g \<Rightarrow> jg_buffer g)"

definition mp_json_generator_get_length :: "json_generator option \<Rightarrow> size_t" where
  "mp_json_generator_get_length generator = (case generator of None \<Rightarrow> 0 | Some g \<Rightarrow> jg_position g)"

definition mp_json_generator_reset :: "json_generator option \<Rightarrow> json_generator option option" where
  "mp_json_generator_reset generator =
     (case generator of None \<Rightarrow> Some None
      | Some g \<Rightarrow> do { g' \<leftarrow> jg_clear (g\<lparr>jg_position := 0\<rparr>); Some (Some g') })"

section \<open>Creating values\<close>

text \<open>
  The constructors and the operations that grow a value use the C heap: \<open>jh_avail k n\<close> tells whether the \<open>k\<close>-th
  allocation, of \<open>n\<close> bytes, succeeds; \<open>jh_calls\<close> counts the calls and \<open>jh_live\<close> the blocks not yet released.
\<close>

record json_heap =
  jh_avail :: "nat \<Rightarrow> nat \<Rightarrow> bool"
  jh_calls :: nat
  jh_live :: int

definition jh_malloc :: "nat \<Rightarrow> json_heap \<Rightarrow> bool \<times> json_heap" where
  "jh_malloc n h =
     (let ok = jh_avail h (jh_calls h) n
      in (ok, h\<lparr>jh_calls := jh_calls h + 1, jh_live := jh_live h + (if ok then 1 else 0)\<rparr>))"

text \<open>\<open>realloc\<close> of a block, or of \<open>NULL\<close>.\<close>

definition jh_realloc :: "bool \<Rightarrow> nat \<Rightarrow> json_heap \<Rightarrow> bool \<times> json_heap" where
  "jh_realloc is_null n h =
     (let ok = jh_avail h (jh_calls h) n
      in (ok, h\<lparr>jh_calls := jh_calls h + 1, jh_live := jh_live h + (if ok \<and> is_null then 1 else 0)\<rparr>))"

definition jh_free :: "nat \<Rightarrow> json_heap \<Rightarrow> json_heap" where
  "jh_free n h = h\<lparr>jh_live := jh_live h - int n\<rparr>"

definition new_value :: "json \<Rightarrow> json_heap \<Rightarrow> json option \<times> json_heap" where
  "new_value v h = (case jh_malloc sizeof_json_value h of (ok, h') \<Rightarrow> (if ok then Some v else None, h'))"

definition mp_json_null :: "json_heap \<Rightarrow> json option \<times> json_heap" where
  "mp_json_null h = new_value J_null h"

definition mp_json_boolean :: "bool \<Rightarrow> json_heap \<Rightarrow> json option \<times> json_heap" where
  "mp_json_boolean b h = new_value (J_boolean b) h"

definition mp_json_number :: "c_double \<Rightarrow> u64 \<Rightarrow> json_heap \<Rightarrow> json option \<times> json_heap" where
  "mp_json_number D d h = new_value (J_number d False (to_int64 D d)) h"

definition mp_json_integer :: "c_double \<Rightarrow> u64 \<Rightarrow> json_heap \<Rightarrow> json option \<times> json_heap" where
  "mp_json_integer D n h = new_value (J_number (of_int64 D n) True n) h"

definition mp_json_string_with_length ::
  "u8 list option \<Rightarrow> nat \<Rightarrow> json_heap \<Rightarrow> (json option \<times> json_heap) option" where
  "mp_json_string_with_length val len h =
     (case jh_malloc sizeof_json_value h of (ok, h1) \<Rightarrow>
        if \<not> ok then Some (None, h1)
        else (case jh_malloc (len + 1) h1 of (ok, h2) \<Rightarrow>
          if \<not> ok then Some (None, jh_free 1 h2)
          else do { s \<leftarrow> val;
                    d \<leftarrow> mem_read s 0 len;
                    Some (Some (J_string (Some (d @ [0])) len True), h2) }))"

definition mp_json_string :: "u8 list option \<Rightarrow> json_heap \<Rightarrow> (json option \<times> json_heap) option" where
  "mp_json_string val h =
     (case val of None \<Rightarrow> Some (mp_json_null h)
      | Some s \<Rightarrow> do { n \<leftarrow> c_strlen s; mp_json_string_with_length val n h })"

definition mp_json_string_owning :: "u8 list option \<Rightarrow> nat \<Rightarrow> json_heap \<Rightarrow> json option \<times> json_heap" where
  "mp_json_string_owning val len h = new_value (J_string val len True) h"

definition mp_json_object :: "json_heap \<Rightarrow> json option \<times> json_heap" where
  "mp_json_object h = new_value (J_object [] 0) h"

definition mp_json_array :: "json_heap \<Rightarrow> json option \<times> json_heap" where
  "mp_json_array h = new_value (J_array [] 0) h"

section \<open>Objects\<close>

text \<open>The end of \<open>mp_json_object_add_owning\<close>, once the arrays have room.\<close>

definition add_member ::
  "(json \<times> json) list \<Rightarrow> nat \<Rightarrow> u8 list option \<Rightarrow> json \<Rightarrow> json_heap \<Rightarrow> (int \<times> json option \<times> json_heap) option" where
  "add_member es cap key v h =
     do { (key_value, h') \<leftarrow> mp_json_string key h;
          case key_value of
            None \<Rightarrow> Some (-1, Some (J_object es cap), jh_free (mp_json_free (Some v)) h')
          | Some k \<Rightarrow> Some (0, Some (J_object (es @ [(k, v)]) cap), h') }"

text \<open>
  \<open>mp_json_object_add_owning\<close>: the return code, the object and the heap.  The object is \<^term>\<open>None\<close> when it is left
  with key and value arrays that have been released: one of the two reallocations failed and the code freed the other,
  which replaced an array the object still points to.
\<close>

definition mp_json_object_add_owning ::
  "json option \<Rightarrow> u8 list option \<Rightarrow> json option \<Rightarrow> json_heap \<Rightarrow> (int \<times> json option \<times> json_heap) option" where
  "mp_json_object_add_owning object key val h =
     (case (object, val) of
        (Some (J_object es cap), Some v) \<Rightarrow>
          if length es \<ge> cap
          then (case jh_realloc (cap = 0) (grown_capacity cap * sizeof_pointer) h of (kok, h1) \<Rightarrow>
                case jh_realloc (cap = 0) (grown_capacity cap * sizeof_pointer) h1 of (vok, h2) \<Rightarrow>
                if \<not> kok \<or> \<not> vok
                then Some (-1, if cap \<noteq> 0 \<and> (kok \<or> vok) then None else object,
                           jh_free (mp_json_free val + (if kok then 1 else 0) + (if vok then 1 else 0)) h2)
                else add_member es (grown_capacity cap) key v h2)
          else add_member es cap key v h
      | _ \<Rightarrow> Some (-1, object, jh_free (mp_json_free val) h))"

definition mp_json_object_add ::
  "json option \<Rightarrow> u8 list option \<Rightarrow> json option \<Rightarrow> json_heap \<Rightarrow> (int \<times> json option \<times> json_heap) option" where
  "mp_json_object_add object key val h =
     (case object of
        Some (J_object es cap) \<Rightarrow>
          if key = None then Some (-1, object, h)
          else do { (key_value, h') \<leftarrow> mp_json_string key h;
                    if key_value = None then Some (-1, object, h')
                    else mp_json_object_add_owning object key val h' }
      | _ \<Rightarrow> Some (-1, object, h))"

text \<open>The bytes of a C string up to its terminator, and \<open>strcmp(s, t) == 0\<close>.\<close>

definition c_str :: "u8 list option \<Rightarrow> u8 list option" where
  "c_str b = do { s \<leftarrow> b; n \<leftarrow> c_strlen s; Some (take n s) }"

definition str_equal :: "u8 list option \<Rightarrow> u8 list option \<Rightarrow> bool option" where
  "str_equal s t = do { a \<leftarrow> c_str s; b \<leftarrow> c_str t; Some (a = b) }"

text \<open>The search loop of \<open>mp_json_object_get\<close> and \<open>mp_json_object_remove\<close>: the index of the first match.\<close>

fun find_member :: "(json \<times> json) list \<Rightarrow> u8 list option \<Rightarrow> nat option option" where
  "find_member [] key = Some None"
| "find_member ((k, v) # es) key =
     do { found \<leftarrow> (case k of J_string s n own \<Rightarrow> str_equal s key | _ \<Rightarrow> Some False);
          if found then Some (Some 0)
          else do { r \<leftarrow> find_member es key; Some (map_option Suc r) } }"

definition mp_json_object_get :: "json option \<Rightarrow> u8 list option \<Rightarrow> json option option" where
  "mp_json_object_get object key =
     (case (object, key) of
        (Some (J_object es cap), Some s) \<Rightarrow>
          do { r \<leftarrow> find_member es key; Some (map_option (\<lambda>i. snd (es ! i)) r) }
      | _ \<Rightarrow> Some None)"

definition mp_json_object_has :: "json option \<Rightarrow> u8 list option \<Rightarrow> bool option" where
  "mp_json_object_has object key = map_option (\<lambda>r. r \<noteq> None) (mp_json_object_get object key)"

text \<open>The loop that moves the entries after \<open>i\<close> down by one, and the new count.\<close>

definition remove_at :: "nat \<Rightarrow> 'a list \<Rightarrow> 'a list" where
  "remove_at i xs = take i xs @ drop (i + 1) xs"

definition mp_json_object_remove ::
  "json option \<Rightarrow> u8 list option \<Rightarrow> json_heap \<Rightarrow> (json option \<times> json option \<times> json_heap) option" where
  "mp_json_object_remove object key h =
     (case (object, key) of
        (Some (J_object es cap), Some s) \<Rightarrow>
          do { r \<leftarrow> find_member es key;
               case r of None \<Rightarrow> Some (None, object, h)
               | Some i \<Rightarrow> Some (Some (snd (es ! i)), Some (J_object (remove_at i es) cap),
                                jh_free (mp_json_free (Some (fst (es ! i)))) h) }
      | _ \<Rightarrow> Some (None, object, h))"

definition mp_json_object_size :: "json option \<Rightarrow> nat" where
  "mp_json_object_size object = (case object of Some (J_object es cap) \<Rightarrow> length es | _ \<Rightarrow> 0)"

text \<open>\<open>key->data.string.value\<close>: undefined for a key that is not a string.\<close>

fun string_value :: "json \<Rightarrow> u8 list option option" where
  "string_value (J_string s n own) = Some s"
| "string_value _ = None"

fun key_values :: "(json \<times> json) list \<Rightarrow> u8 list option list option" where
  "key_values [] = Some []"
| "key_values ((k, v) # es) = do { s \<leftarrow> string_value k; t \<leftarrow> key_values es; Some (s # t) }"

definition mp_json_object_keys :: "json option \<Rightarrow> json_heap \<Rightarrow> (u8 list option list option \<times> json_heap) option" where
  "mp_json_object_keys object h =
     (case object of
        Some (J_object es cap) \<Rightarrow>
          (case jh_malloc (length es * sizeof_pointer) h of (ok, h') \<Rightarrow>
             if \<not> ok then Some (None, h') else do { ks \<leftarrow> key_values es; Some (Some ks, h') })
      | _ \<Rightarrow> Some (None, h))"

section \<open>Arrays\<close>

definition mp_json_array_add ::
  "json option \<Rightarrow> json option \<Rightarrow> json_heap \<Rightarrow> int \<times> json option \<times> json_heap" where
  "mp_json_array_add array val h =
     (case (array, val) of
        (Some (J_array xs cap), Some v) \<Rightarrow>
          if length xs \<ge> cap
          then (case jh_realloc (cap = 0) (grown_capacity cap * sizeof_pointer) h of (ok, h') \<Rightarrow>
                  if \<not> ok then (-1, array, h')
                  else (0, Some (J_array (xs @ [v]) (grown_capacity cap)), h'))
          else (0, Some (J_array (xs @ [v]) cap), h)
      | _ \<Rightarrow> (-1, array, h))"

definition mp_json_array_get :: "json option \<Rightarrow> nat \<Rightarrow> json option" where
  "mp_json_array_get array index =
     (case array of Some (J_array xs cap) \<Rightarrow> if index \<ge> length xs then None else Some (xs ! index) | _ \<Rightarrow> None)"

definition mp_json_array_size :: "json option \<Rightarrow> nat" where
  "mp_json_array_size array = (case array of Some (J_array xs cap) \<Rightarrow> length xs | _ \<Rightarrow> 0)"

section \<open>Reading values\<close>

datatype json_type =
    MP_JSON_NULL | MP_JSON_BOOLEAN | MP_JSON_NUMBER | MP_JSON_STRING | MP_JSON_OBJECT | MP_JSON_ARRAY | MP_JSON_ERROR

fun json_tag :: "json \<Rightarrow> json_type" where
  "json_tag J_null = MP_JSON_NULL"
| "json_tag (J_boolean b) = MP_JSON_BOOLEAN"
| "json_tag (J_number d i n) = MP_JSON_NUMBER"
| "json_tag (J_string s n own) = MP_JSON_STRING"
| "json_tag (J_object es cap) = MP_JSON_OBJECT"
| "json_tag (J_array xs cap) = MP_JSON_ARRAY"
| "json_tag J_error = MP_JSON_ERROR"

definition mp_json_get_type :: "json option \<Rightarrow> json_type" where
  "mp_json_get_type v = (case v of None \<Rightarrow> MP_JSON_NULL | Some x \<Rightarrow> json_tag x)"

definition mp_json_get_boolean :: "json option \<Rightarrow> bool" where
  "mp_json_get_boolean v = (case v of Some (J_boolean b) \<Rightarrow> b | _ \<Rightarrow> False)"

definition mp_json_get_number :: "json option \<Rightarrow> u64" where
  "mp_json_get_number v = (case v of Some (J_number d i n) \<Rightarrow> d | _ \<Rightarrow> 0)"

definition mp_json_get_integer :: "json option \<Rightarrow> u64" where
  "mp_json_get_integer v = (case v of Some (J_number d i n) \<Rightarrow> n | _ \<Rightarrow> 0)"

definition mp_json_get_string :: "json option \<Rightarrow> u8 list option" where
  "mp_json_get_string v = (case v of Some (J_string s n own) \<Rightarrow> s | _ \<Rightarrow> None)"

definition mp_json_get_string_length :: "json option \<Rightarrow> nat" where
  "mp_json_get_string_length v = (case v of Some (J_string s n own) \<Rightarrow> n | _ \<Rightarrow> 0)"

definition has_type :: "json option \<Rightarrow> json_type \<Rightarrow> bool" where
  "has_type v t \<longleftrightarrow> v \<noteq> None \<and> mp_json_get_type v = t"

definition mp_json_is_null :: "json option \<Rightarrow> bool" where
  "mp_json_is_null v = has_type v MP_JSON_NULL"

definition mp_json_is_boolean :: "json option \<Rightarrow> bool" where
  "mp_json_is_boolean v = has_type v MP_JSON_BOOLEAN"

definition mp_json_is_number :: "json option \<Rightarrow> bool" where
  "mp_json_is_number v = has_type v MP_JSON_NUMBER"

definition mp_json_is_string :: "json option \<Rightarrow> bool" where
  "mp_json_is_string v = has_type v MP_JSON_STRING"

definition mp_json_is_object :: "json option \<Rightarrow> bool" where
  "mp_json_is_object v = has_type v MP_JSON_OBJECT"

definition mp_json_is_array :: "json option \<Rightarrow> bool" where
  "mp_json_is_array v = has_type v MP_JSON_ARRAY"

section \<open>Copies and comparison\<close>

text \<open>
  \<open>mp_json_deep_copy\<close> and its loops, which continue a copy with the children left.  When
  \<open>mp_json_object_add_owning\<close> fails it has freed the value, and the loop frees it again: undefined, as is the key of a
  member that is not a string.
\<close>

function deep_copy :: "c_double \<Rightarrow> json \<Rightarrow> json_heap \<Rightarrow> (json option \<times> json_heap) option"
  and copy_members :: "c_double \<Rightarrow> (json \<times> json) list \<Rightarrow> json \<Rightarrow> json_heap \<Rightarrow> (json option \<times> json_heap) option"
  and copy_elements :: "c_double \<Rightarrow> json list \<Rightarrow> json \<Rightarrow> json_heap \<Rightarrow> (json option \<times> json_heap) option" where
  "deep_copy D J_null h = Some (mp_json_null h)"
| "deep_copy D (J_boolean b) h = Some (mp_json_boolean b h)"
| "deep_copy D (J_number d i n) h = Some (if i then mp_json_integer D n h else mp_json_number D d h)"
| "deep_copy D (J_string s n own) h = mp_json_string_with_length s n h"
| "deep_copy D (J_object es cap) h =
     (case mp_json_object h of (copy, h1) \<Rightarrow>
        case copy of None \<Rightarrow> Some (None, h1) | Some c \<Rightarrow> copy_members D es c h1)"
| "deep_copy D (J_array xs cap) h =
     (case mp_json_array h of (copy, h1) \<Rightarrow>
        case copy of None \<Rightarrow> Some (None, h1) | Some c \<Rightarrow> copy_elements D xs c h1)"
| "deep_copy D J_error h = Some (None, h)"
| "copy_members D [] copy h = Some (Some copy, h)"
| "copy_members D ((k, v) # es) copy h =
     do { (key_copy, h1) \<leftarrow> deep_copy D k h;
          (val_copy, h2) \<leftarrow> deep_copy D v h1;
          case key_copy of
            None \<Rightarrow> Some (None, jh_free (json_blocks copy + mp_json_free val_copy) h2)
          | Some kc \<Rightarrow>
              if val_copy = None then Some (None, jh_free (json_blocks copy + json_blocks kc) h2)
              else do { s \<leftarrow> string_value kc;
                        (ret, copy', h3) \<leftarrow> mp_json_object_add_owning (Some copy) s val_copy h2;
                        c \<leftarrow> copy';
                        if ret \<noteq> 0 then None else copy_members D es c h3 } }"
| "copy_elements D [] copy h = Some (Some copy, h)"
| "copy_elements D (x # xs) copy h =
     do { (val_copy, h1) \<leftarrow> deep_copy D x h;
          case val_copy of
            None \<Rightarrow> Some (None, jh_free (json_blocks copy) h1)
          | Some v \<Rightarrow>
              (case mp_json_array_add (Some copy) val_copy h1 of (ret, copy', h2) \<Rightarrow>
                 if ret \<noteq> 0 then Some (None, jh_free (json_blocks copy + json_blocks v) h2)
                 else do { c \<leftarrow> copy'; copy_elements D xs c h2 }) }"
  by pat_completeness auto

termination deep_copy
  by (relation "measure (case_sum (\<lambda>(D, v, h). size v)
        (case_sum (\<lambda>(D, es, c, h). size_list (size_prod size size) es) (\<lambda>(D, xs, c, h). size_list size xs)))") auto

definition mp_json_deep_copy ::
  "c_double \<Rightarrow> json option \<Rightarrow> json_heap \<Rightarrow> (json option \<times> json_heap) option" where
  "mp_json_deep_copy D v h = (case v of None \<Rightarrow> Some (None, h) | Some x \<Rightarrow> deep_copy D x h)"

text \<open>\<open>mp_json_equal\<close> of two values that are not \<open>NULL\<close>; an object is compared by looking the keys of the first up
  in the second.\<close>

function json_equal :: "json \<Rightarrow> json \<Rightarrow> bool option"
  and equal_members :: "(json \<times> json) list \<Rightarrow> json \<Rightarrow> bool option"
  and equal_elements :: "json list \<Rightarrow> json list \<Rightarrow> bool option" where
  "json_equal J_null b = Some (b = J_null)"
| "json_equal (J_boolean x) b = Some (b = J_boolean x)"
| "json_equal (J_number d i n) b =
     Some (case b of J_number d' i' n' \<Rightarrow> if i \<and> i' then n = n' else double_eq d d' | _ \<Rightarrow> False)"
| "json_equal (J_string s n own) b =
     (case b of
        J_string s' n' own' \<Rightarrow>
          if n \<noteq> n' then Some False
          else do { x \<leftarrow> s; y \<leftarrow> s'; u \<leftarrow> mem_read x 0 n; w \<leftarrow> mem_read y 0 n; Some (u = w) }
      | _ \<Rightarrow> Some False)"
| "json_equal (J_object es cap) b =
     (case b of J_object es' cap' \<Rightarrow> if length es \<noteq> length es' then Some False else equal_members es b
      | _ \<Rightarrow> Some False)"
| "json_equal (J_array xs cap) b =
     (case b of J_array ys cap' \<Rightarrow> if length xs \<noteq> length ys then Some False else equal_elements xs ys
      | _ \<Rightarrow> Some False)"
| "json_equal J_error b = Some False"
| "equal_members [] b = Some True"
| "equal_members ((k, v) # es) b =
     do { s \<leftarrow> string_value k;
          ow \<leftarrow> mp_json_object_get (Some b) s;
          case ow of None \<Rightarrow> Some False
          | Some w \<Rightarrow> do { e \<leftarrow> json_equal v w; if e then equal_members es b else Some False } }"
| "equal_elements [] ys = Some True"
| "equal_elements (x # xs) [] = Some True"
| "equal_elements (x # xs) (y # ys) = do { e \<leftarrow> json_equal x y; if e then equal_elements xs ys else Some False }"
  by pat_completeness auto

termination json_equal
  by (relation "measure (case_sum (\<lambda>(a, b). size a)
        (case_sum (\<lambda>(es, b). size_list (size_prod size size) es) (\<lambda>(xs, ys). size_list size xs)))") auto

definition mp_json_equal :: "json option \<Rightarrow> json option \<Rightarrow> bool option" where
  "mp_json_equal a b =
     (case (a, b) of
        (Some x, Some y) \<Rightarrow> json_equal x y
      | _ \<Rightarrow> Some (a = None \<and> b = None))"

section \<open>Files\<close>

definition mp_json_parse_file :: "string \<Rightarrow> u32 \<Rightarrow> json option" where
  "mp_json_parse_file filename flags = None"

definition mp_json_write_file :: "string \<Rightarrow> json option \<Rightarrow> u32 \<Rightarrow> int" where
  "mp_json_write_file filename v flags = -1"

end
