(* ===== verification/Json_Correct.thy ===== *)
theory Json_Correct
  imports Json
begin

text \<open>
  The JSON parser terminates, reads inside its input and either reports an error or returns a well-typed value whose
  blocks are the ones it holds; the generator writes exactly the text of a value; what the parser makes of that text;
  and the laws of the operations on objects and arrays.
\<close>

section \<open>Well-typed values\<close>

text \<open>The capacities that doubling from 0 and 8 reaches.\<close>

definition capacity_ok :: "nat \<Rightarrow> nat \<Rightarrow> bool" where
  "capacity_ok count cap \<longleftrightarrow> count \<le> cap \<and> (cap = 0 \<or> (\<exists>k. cap = 8 * 2 ^ k))"

lemma in_set_size:
  "(k, v) \<in> set es \<Longrightarrow> size k < Suc (size_list (size_prod size size) es)"
  "(k, v) \<in> set es \<Longrightarrow> size v < Suc (size_list (size_prod size size) es)"
  by (induction es) auto

lemma in_set_size_list: "x \<in> set xs \<Longrightarrow> size x < Suc (size_list size xs)"
  by (induction xs) auto

function json_ok :: "c_double \<Rightarrow> json \<Rightarrow> bool" where
  "json_ok D J_null = True"
| "json_ok D (J_boolean b) = True"
| "json_ok D (J_number d i n) = (if i then d = of_int64 D n else n = to_int64 D d)"
| "json_ok D (J_string s n own) = (own \<and> (\<exists>t. s = Some (t @ [0]) \<and> length t = n))"
| "json_ok D (J_object es cap) =
     (capacity_ok (length es) cap \<and> (\<forall>(k, v) \<in> set es. is_string k \<and> json_ok D k \<and> json_ok D v))"
| "json_ok D (J_array xs cap) = (capacity_ok (length xs) cap \<and> (\<forall>x \<in> set xs. json_ok D x))"
| "json_ok D J_error = False"
  by pat_completeness auto

termination json_ok
  by (relation "measure (\<lambda>(D, v). size v)") (auto dest: in_set_size in_set_size_list)

lemma capacity_ok_empty [simp]: "capacity_ok 0 0"
  by (simp add: capacity_ok_def)

lemma capacity_ok_room: "capacity_ok n cap \<Longrightarrow> \<not> cap \<le> n \<Longrightarrow> capacity_ok (Suc n) cap"
  by (simp add: capacity_ok_def)

lemma capacity_ok_grown: "capacity_ok n cap \<Longrightarrow> capacity_ok (Suc n) (grown_capacity cap)"
proof -
  assume c: "capacity_ok n cap"
  have "\<exists>k. 8 * 2 ^ j * 2 = 8 * (2 :: nat) ^ k" for j
    by (rule exI [of _ "Suc j"]) simp
  then show ?thesis using c by (auto simp: capacity_ok_def grown_capacity_def intro: exI [of _ 0])
qed

section \<open>The parser moves forward\<close>

definition follows :: "json_parser \<Rightarrow> json_parser \<Rightarrow> bool" where
  "follows p p' \<longleftrightarrow> jp_input p' = jp_input p \<and> jp_length p' = jp_length p \<and> jp_alloc p' = jp_alloc p \<and>
     jp_root p' = jp_root p \<and> jp_position p \<le> jp_position p' \<and> jp_position p' \<le> jp_length p"

definition inside :: "json_parser \<Rightarrow> bool" where
  "inside p \<longleftrightarrow> jp_position p \<le> jp_length p"

lemma follows_refl: "inside p \<Longrightarrow> follows p p"
  by (simp add: follows_def inside_def)

lemma follows_trans: "follows p q \<Longrightarrow> follows q r \<Longrightarrow> follows p r"
  by (auto simp: follows_def)

lemma follows_inside: "follows p q \<Longrightarrow> inside q"
  by (simp add: follows_def inside_def)

lemma jp_more_inside: "jp_more p \<Longrightarrow> inside p"
  by (simp add: jp_more_def inside_def)

named_theorems jp_simps \<open>the parser's fields after its elementary steps\<close>

lemma set_error_fields [jp_simps]:
  "follows p (set_error msg n q) = follows p q" "jp_live (set_error msg n q) = jp_live q"
  "jp_error (set_error msg n q) = Some msg" "jp_position (set_error msg n q) = jp_position q"
  "jp_length (set_error msg n q) = jp_length q" "jp_input (set_error msg n q) = jp_input q"
  "follows p (error_here msg q) = follows p q" "jp_live (error_here msg q) = jp_live q"
  "jp_error (error_here msg q) = Some msg" "jp_position (error_here msg q) = jp_position q"
  "jp_length (error_here msg q) = jp_length q" "jp_input (error_here msg q) = jp_input q"
  by (simp_all add: set_error_def error_here_def follows_def)

lemma json_release_fields [jp_simps]:
  "follows p (json_release n q) = follows p q" "jp_live (json_release n q) = jp_live q - int n"
  "jp_error (json_release n q) = jp_error q" "jp_position (json_release n q) = jp_position q"
  "jp_length (json_release n q) = jp_length q" "jp_input (json_release n q) = jp_input q"
  by (simp_all add: json_release_def follows_def)

lemma drop_fields [jp_simps]:
  "follows p (drop_object es cap q) = follows p q" "jp_error (drop_object es cap q) = jp_error q"
  "follows p (drop_array xs cap q) = follows p q" "jp_error (drop_array xs cap q) = jp_error q"
  by (simp_all add: drop_object_def drop_array_def jp_simps)

lemma json_alloc_follows:
  "json_alloc n p = (ok, p') \<Longrightarrow> follows q p' = follows q p \<and> jp_live p' = jp_live p + (if ok then 1 else 0) \<and>
     jp_error p' = jp_error p \<and> jp_position p' = jp_position p \<and> jp_length p' = jp_length p \<and>
     jp_input p' = jp_input p \<and> jp_sees c p' = jp_sees c p"
  by (auto simp: json_alloc_def Let_def follows_def jp_sees_def jp_more_def jp_at_def)

lemma alloc_node_follows:
  "alloc_node p = (ok, p') \<Longrightarrow> follows q p' = follows q p \<and> jp_live p' = jp_live p + (if ok then 1 else 0) \<and>
     jp_position p' = jp_position p \<and> jp_length p' = jp_length p \<and> jp_input p' = jp_input p \<and>
     jp_sees c p' = jp_sees c p \<and> (\<not> ok \<longrightarrow> jp_error p' \<noteq> None)"
  using json_alloc_follows [of sizeof_json_value p _ _ q c]
  by (cases "json_alloc sizeof_json_value p")
    (auto simp: alloc_node_def jp_simps jp_sees_def jp_more_def jp_at_def split: if_splits)

lemma follows_advance: "follows p q \<Longrightarrow> jp_position q + n \<le> jp_length q \<Longrightarrow> follows p (jp_advance n q)"
  by (auto simp: follows_def jp_advance_def)

lemma jp_advance_fields [jp_simps]:
  "jp_live (jp_advance n q) = jp_live q" "jp_position (jp_advance n q) = jp_position q + n"
  "jp_length (jp_advance n q) = jp_length q" "jp_error (jp_advance n q) = jp_error q"
  "jp_input (jp_advance n q) = jp_input q"
  by (simp_all add: jp_advance_def)

lemma skip_while_le: "i \<le> n \<Longrightarrow> skip_while P s n i \<le> n"
  by (induction P s n i rule: skip_while.induct) (subst skip_while.simps, simp)

lemma skip_whitespace_follows:
  "inside p \<Longrightarrow> follows p (skip_whitespace p) \<and> jp_live (skip_whitespace p) = jp_live p"
  by (simp add: skip_whitespace_def follows_def inside_def skip_while_ge skip_while_le)

lemma block_comment_end_le: "i \<le> n \<Longrightarrow> snd (block_comment_end s n i) \<le> n"
  by (induction s n i rule: block_comment_end.induct) (subst block_comment_end.simps, simp)

lemma skip_comments_follows:
  "inside p \<Longrightarrow> skip_comments p flags = (b, p') \<Longrightarrow> follows p p' \<and> jp_live p' = jp_live p"
  using skip_while_ge [of "jp_position p + 2" "\<lambda>c. c \<noteq> ch_newline" "jp_input p" "jp_length p"]
    skip_while_le [of "jp_position p + 2" "jp_length p" "\<lambda>c. c \<noteq> ch_newline" "jp_input p"]
    block_comment_end_ge [of "jp_position p + 2" "jp_input p" "jp_length p"]
    block_comment_end_le [of "jp_position p + 2" "jp_length p" "jp_input p"]
  by (auto simp: skip_comments_def follows_def inside_def error_here_def set_error_def
      split: if_splits prod.splits bool.splits)

lemma comments_loop_follows:
  "inside p \<Longrightarrow> follows p (comments_loop flags p) \<and> jp_live (comments_loop flags p) = jp_live p"
proof (induction flags p rule: comments_loop.induct)
  case (1 flags p)
  obtain b p' where s: "skip_comments p flags = (b, p')" by (cases "skip_comments p flags") 
  with 1 have f: "follows p p'" "jp_live p' = jp_live p" using skip_comments_follows by blast+
  then have w: "follows p' (skip_whitespace p')" "jp_live (skip_whitespace p') = jp_live p'"
    using skip_whitespace_follows follows_inside by blast+
  show ?case
  proof (cases b)
    case True
    with 1(1) s w(1) have "follows (skip_whitespace p') (comments_loop flags (skip_whitespace p')) \<and>
        jp_live (comments_loop flags (skip_whitespace p')) = jp_live (skip_whitespace p')"
      using follows_inside by simp
    with f w True s show ?thesis
      by (subst (1 2) comments_loop.simps) (auto intro: follows_trans)
  next
    case False
    with f s show ?thesis by (subst (1 2) comments_loop.simps) simp
  qed
qed

lemma skip_trivia_follows:
  "inside p \<Longrightarrow> follows p (skip_trivia flags p) \<and> jp_live (skip_trivia flags p) = jp_live p"
  unfolding skip_trivia_def
  using skip_whitespace_follows [of p] comments_loop_follows [of "skip_whitespace p" flags]
  by (auto dest: follows_inside intro: follows_trans)

section \<open>What a call of the parser yields\<close>

fun job_blocks :: "json_job \<Rightarrow> nat" where
  "job_blocks Parse_value = 0"
| "job_blocks (Parse_members es cap) = json_blocks (J_object es cap)"
| "job_blocks (Parse_elements xs cap) = json_blocks (J_array xs cap)"

fun job_ok :: "c_double \<Rightarrow> json_job \<Rightarrow> bool" where
  "job_ok D Parse_value = True"
| "job_ok D (Parse_members es cap) = json_ok D (J_object es cap)"
| "job_ok D (Parse_elements xs cap) = json_ok D (J_array xs cap)"

text \<open>
  A call that starts at \<open>p\<close> and ends at \<open>p'\<close> stays inside the input; a \<open>NULL\<close> result comes with an error; a value is
  well typed, accounts for every block allocated on the way and, unless it finishes a container, consumed input.
\<close>

definition yields :: "c_double \<Rightarrow> json_job \<Rightarrow> json_parser \<Rightarrow> json option \<Rightarrow> json_parser \<Rightarrow> bool" where
  "yields D job p r p' \<longleftrightarrow> follows p p' \<and>
     (case r of None \<Rightarrow> jp_error p' \<noteq> None
      | Some v \<Rightarrow> json_ok D v \<and> jp_live p' + int (job_blocks job) = jp_live p + int (json_blocks v) \<and>
          (job = Parse_value \<longrightarrow> jp_position p < jp_position p'))"

lemma yields_None: "yields D job p None p' \<longleftrightarrow> follows p p' \<and> jp_error p' \<noteq> None"
  by (simp add: yields_def)

lemma yields_Some: "yields D job p (Some v) p' \<longleftrightarrow> follows p p' \<and> json_ok D v \<and>
    jp_live p' + int (job_blocks job) = jp_live p + int (json_blocks v) \<and>
    (job = Parse_value \<longrightarrow> jp_position p < jp_position p')"
  by (simp add: yields_def)

lemma member_blocks_snoc: "member_blocks (es @ [(k, v)]) = member_blocks es + json_blocks k + json_blocks v"
  by (induction es) auto

lemma element_blocks_snoc: "element_blocks (xs @ [x]) = element_blocks xs + json_blocks x"
  by (induction xs) auto

text \<open>Starting elsewhere.\<close>

lemma yields_step:
  assumes "follows p q" and "yields D job' q r p'" and "jp_live q + int (job_blocks job) = jp_live p + int (job_blocks job')"
    and "job = Parse_value \<Longrightarrow> job' \<noteq> Parse_value \<Longrightarrow> jp_position p < jp_position q"
  shows "yields D job p r p'"
proof (cases r)
  case None
  with assms(1,2) show ?thesis by (auto simp: yields_None intro: follows_trans)
next
  case (Some v)
  with assms(2) have y: "follows q p'" "json_ok D v" "jp_live p' + int (job_blocks job') = jp_live q + int (json_blocks v)"
    "job' = Parse_value \<Longrightarrow> jp_position q < jp_position p'" by (auto simp: yields_Some)
  have "jp_position p < jp_position p'" if "job = Parse_value"
    using that assms(1,4) y(1,4) by (cases "job' = Parse_value") (force simp: follows_def)+
  then show ?thesis using assms(1,3) y Some by (auto simp: yields_Some intro: follows_trans)
qed

subsection \<open>Scalars\<close>

lemma string_end_bounds:
  "string_end s n q i = (found, e) \<Longrightarrow> i \<le> n \<Longrightarrow> i \<le> e \<and> e \<le> n \<and> (found \<longrightarrow> e < n)"
proof (induction s n q i rule: string_end.induct)
  case (1 s n q i)
  show ?case
  proof (cases "i < n \<and> s ! i \<noteq> q")
    case False
    with 1(3,4) show ?thesis by (auto simp: string_end.simps [of s n q i])
  next
    case True
    with 1 show ?thesis
      by (cases "s ! i = ch_backslash"; cases "i + 1 \<ge> n") (force simp: string_end.simps [of s n q i])+
  qed
qed

lemma length_unescape: "length (unescape s e i) \<le> e - i"
proof (induction s e i rule: unescape.induct)
  case (1 s e i)
  then show ?case
    by (cases "i < e"; cases "s ! i = ch_backslash \<and> i + 1 < e"; cases "s ! (i + 1) = ch_u"; cases "i + 5 < e")
      (auto simp: unescape.simps [of s e i] simp del: upt_Suc)
qed

lemma parse_string_yields:
  assumes "inside p"
  shows "\<exists>r p'. parse_string p flags = Some (r, p') \<and> yields D Parse_value p r p'"
proof (cases "\<not> jp_more p \<or> jp_at p \<noteq> ch_quote \<and> flags AND MP_JSON_PARSE_ALLOW_SINGLE_QUOTES = 0 \<or> jp_at p \<noteq> ch_apostrophe")
  case True
  then show ?thesis using assms by (auto simp: parse_string_def yields_None jp_simps follows_refl)
next
  case False
  define start where "start = jp_position p + 1"
  obtain found i where e: "string_end (jp_input p) (jp_length p) (jp_at p) start = (found, i)"
    by fastforce
  have m: "jp_position p < jp_length p" using False by (simp add: jp_more_def)
  then have b: "start \<le> i" "i \<le> jp_length p" "found \<Longrightarrow> i < jp_length p"
    using string_end_bounds [OF e] by (simp_all add: start_def)
  define p1 where "p1 = p\<lparr>jp_position := i\<rparr>"
  have f1: "follows p p1" "jp_live p1 = jp_live p" "jp_position p1 = i" "jp_length p1 = jp_length p"
    using b by (simp_all add: p1_def follows_def start_def)
  obtain ok2 p2 where a2: "alloc_node p1 = (ok2, p2)" by fastforce
  obtain ok3 p3 where a3: "json_alloc (i - start + 1) p2 = (ok3, p3)" by fastforce
  note s2 = alloc_node_follows [OF a2, of p] and s3 = json_alloc_follows [OF a3, of p]
  have s: "parse_string p flags =
     (if \<not> found then Some (None, set_error ''Unterminated string'' start p1)
      else if \<not> ok2 then Some (None, p2)
      else if \<not> ok3 then Some (None, json_release 1 (error_here ''Out of memory'' p3))
      else Some (Some (J_string (Some (unescape (jp_input p) i start @ [0])) (length (unescape (jp_input p) i start)) True),
                 jp_advance 1 p3))"
    using False e length_unescape [of "jp_input p" i start] a2 a3
    by (auto simp: parse_string_def Let_def start_def p1_def)
  show ?thesis
  proof (cases "found \<and> ok2 \<and> ok3")
    case True
    then have "follows p (jp_advance 1 p3)" using b f1 s2 s3 by (intro follows_advance) auto
    then show ?thesis using True s s2 s3 f1 b by (simp add: yields_Some jp_simps start_def)
  next
    case False
    then show ?thesis using s s2 s3 f1 by (auto simp: yields_None jp_simps)
  qed
qed

lemma number_char_digit: "is_digit c \<Longrightarrow> number_char c"
  by (simp add: number_char_def)

lemma number_value_ok: "json_ok D (number_value D s)" "json_blocks (number_value D s) = 1"
  by (simp_all add: number_value_def)

lemma skip_while_first: "i < n \<Longrightarrow> P (s ! i) \<Longrightarrow> i < skip_while P s n i"
  using skip_while_ge [of "i + 1" P s n] by (subst skip_while.simps) simp

lemma parse_number_yields:
  assumes "jp_more p" and "starts_number (jp_at p)" and r: "parse_number D p = (r, p')"
  shows "yields D Parse_value p r p'"
proof -
  define e where "e = skip_while number_char (jp_input p) (jp_length p) (jp_position p)"
  have e: "jp_position p < e" "e \<le> jp_length p"
    using assms(1,2) skip_while_first [of "jp_position p" "jp_length p" number_char "jp_input p"]
      skip_while_le [of "jp_position p" "jp_length p" number_char "jp_input p"]
    by (auto simp: e_def jp_more_def jp_at_def starts_number_def number_char_def)
  define p1 where "p1 = p\<lparr>jp_position := e\<rparr>"
  have f1: "follows p p1" "jp_live p1 = jp_live p" "jp_position p1 = e"
    using e by (simp_all add: p1_def follows_def)
  obtain ok2 p2 where a2: "json_alloc (e - jp_position p + 1) p1 = (ok2, p2)" by fastforce
  obtain ok3 p3 where a3: "json_alloc sizeof_json_value p2 = (ok3, p3)" by fastforce
  note s2 = json_alloc_follows [OF a2, of p] and s3 = json_alloc_follows [OF a3, of p]
  have "parse_number D p =
    (if \<not> ok2 then (None, set_error ''Out of memory'' (jp_position p) p2)
     else if \<not> ok3 then (None, set_error ''Out of memory'' (jp_position p) (json_release 1 p3))
     else (Some (number_value D (take (e - jp_position p) (drop (jp_position p) (jp_input p)))), json_release 1 p3))"
    using a2 a3 by (simp add: parse_number_def Let_def e_def p1_def)
  then show ?thesis
    using r s2 s3 f1 e by (auto simp: yields_None yields_Some jp_simps number_value_ok split: if_splits)
qed

lemma parse_literal_yields:
  assumes "jp_more p" and "0 < length kw" and "json_ok D v" "json_blocks v = 1" and r: "parse_literal kw v p = (r, p')"
  shows "yields D Parse_value p r p'"
proof (cases "jp_position p + (length kw - 1) < jp_length p \<and> take (length kw) (drop (jp_position p) (jp_input p)) = kw")
  case False
  then have "parse_literal kw v p = (None, error_here ''Unexpected character'' p)"
    unfolding parse_literal_def by (rule if_not_P)
  then show ?thesis using r follows_refl [OF jp_more_inside [OF assms(1)]] by (auto simp: yields_None jp_simps)
next
  case True
  obtain ok p1 where a: "alloc_node (jp_advance (length kw) p) = (ok, p1)" by fastforce
  have "follows p (jp_advance (length kw) p)"
    using True assms(2) follows_refl [OF jp_more_inside [OF assms(1)]] by (intro follows_advance) auto
  then show ?thesis
    using True a r assms(2-4) alloc_node_follows [OF a, of p]
    by (cases ok) (auto simp: parse_literal_def yields_None yields_Some jp_simps)
qed

lemma parse_scalar_yields:
  assumes "jp_more p"
  shows "\<exists>r p'. parse_scalar D flags p = Some (r, p') \<and> yields D Parse_value p r p'"
proof -
  have lit: "\<exists>r p'. Some (parse_literal kw v p) = Some (r, p') \<and> yields D Parse_value p r p'"
    if "0 < length kw" "json_ok D v" "json_blocks v = 1" for kw v
    using parse_literal_yields [OF assms that] by (cases "parse_literal kw v p") auto
  have num: "\<exists>r p'. Some (parse_number D p) = Some (r, p') \<and> yields D Parse_value p r p'"
    if "starts_number (jp_at p)"
    using parse_number_yields [OF assms that] by (cases "parse_number D p") auto
  have bad: "\<exists>r p'. Some (None, error_here msg p) = Some (r, p') \<and> yields D Parse_value p r p'" for msg
    using follows_refl [OF jp_more_inside [OF assms]] by (auto simp: yields_None jp_simps)
  have l: "0 < length (ascii ''null'')" "0 < length (ascii ''true'')" "0 < length (ascii ''false'')"
    by (simp_all add: ascii_def)
  show ?thesis
    unfolding parse_scalar_def Let_def
    using parse_string_yields [OF jp_more_inside [OF assms], of flags D] num bad
      lit [OF l(1), of J_null] lit [OF l(2), of "J_boolean True"] lit [OF l(3), of "J_boolean False"]
    by simp
qed

subsection \<open>Containers\<close>

lemma begin_follows:
  assumes "(begin_object p = (ok, p') \<and> jp_sees ch_open_object p) \<or> (begin_array p = (ok, p') \<and> jp_sees ch_open_array p)"
  shows "follows p p' \<and> jp_live p' = jp_live p + (if ok then 1 else 0) \<and>
    (if ok then jp_position p < jp_position p' else jp_error p' \<noteq> None)"
proof -
  obtain b p1 where a: "alloc_node p = (b, p1)" by fastforce
  note s = alloc_node_follows [OF a, of p]
  have m: "jp_more p" using assms by (auto simp: jp_sees_def)
  then have f: "follows p p1" and "jp_position p < jp_length p"
    using s follows_refl [OF jp_more_inside] by (auto simp: jp_more_def)
  then have "follows p (jp_advance 1 p1)" using s by (intro follows_advance) auto
  then show ?thesis using assms a s f
    by (cases b) (auto simp: begin_object_def begin_array_def jp_simps)
qed

lemma container_end_follows:
  assumes "inside p" and "container_end c msg p = Some p'"
  shows "follows p p' \<and> jp_live p' = jp_live p"
  using assms follows_refl [OF assms(1)] follows_advance [OF follows_refl [OF assms(1)], of 1]
  by (auto simp: container_end_def jp_simps jp_more_def split: if_splits)

lemma container_end_more: "container_end c msg p = None \<Longrightarrow> jp_more p"
  by (simp add: container_end_def split: if_splits)

lemma after_key_follows:
  assumes "inside p" and "after_key key p = (ok, p')"
  shows "follows p p' \<and> (if ok then is_string key \<and> jp_live p' = jp_live p else jp_error p' \<noteq> None)"
proof -
  note w = skip_whitespace_follows [OF assms(1)]
  have "jp_sees ch_colon (skip_whitespace p) \<Longrightarrow> follows p (jp_advance 1 (skip_whitespace p))"
    using w by (intro follows_advance) (auto simp: jp_sees_def jp_more_def)
  then show ?thesis using assms(2) w follows_refl [OF assms(1)]
    by (auto simp: after_key_def Let_def jp_simps split: if_splits)
qed

lemma skip_comma_follows: "inside p \<Longrightarrow> follows p (skip_comma p) \<and> jp_live (skip_comma p) = jp_live p"
proof -
  assume i: "inside p"
  note w = skip_whitespace_follows [OF i]
  have "jp_sees ch_comma (skip_whitespace p) \<Longrightarrow> follows p (jp_advance 1 (skip_whitespace p))"
    using w by (intro follows_advance) (auto simp: jp_sees_def jp_more_def)
  then show ?thesis using w by (auto simp: skip_comma_def Let_def jp_simps)
qed

lemma room_follows:
  assumes "inside p" and "capacity_ok n cap"
  shows "room_for_member n cap p = (r, p') \<Longrightarrow> follows p p' \<and>
      (case r of None \<Rightarrow> jp_error p' \<noteq> None
       | Some cap' \<Rightarrow> capacity_ok (Suc n) cap' \<and> cap' \<noteq> 0 \<and> jp_live p' = jp_live p + (if cap = 0 then 2 else 0))"
    and "room_for_element n cap p = (r, p') \<Longrightarrow> follows p p' \<and>
      (case r of None \<Rightarrow> jp_error p' \<noteq> None
       | Some cap' \<Rightarrow> capacity_ok (Suc n) cap' \<and> cap' \<noteq> 0 \<and> jp_live p' = jp_live p + (if cap = 0 then 1 else 0))"
proof -
  obtain b1 p1 where a1: "json_alloc (grown_capacity cap * sizeof_pointer) p = (b1, p1)" by fastforce
  obtain b2 p2 where a2: "json_alloc (grown_capacity cap * sizeof_pointer) p1 = (b2, p2)" by fastforce
  note s1 = json_alloc_follows [OF a1, of p] and s2 = json_alloc_follows [OF a2, of p]
  have g: "grown_capacity cap \<noteq> 0" "\<not> cap \<le> n \<Longrightarrow> cap \<noteq> 0" by (auto simp: grown_capacity_def)
  note r = follows_refl [OF assms(1)] capacity_ok_room [OF assms(2)] capacity_ok_grown [OF assms(2)]
  show "follows p p' \<and> (case r of None \<Rightarrow> jp_error p' \<noteq> None
       | Some cap' \<Rightarrow> capacity_ok (Suc n) cap' \<and> cap' \<noteq> 0 \<and> jp_live p' = jp_live p + (if cap = 0 then 2 else 0))"
    if "room_for_member n cap p = (r, p')"
    using that a1 a2 s1 s2 g r by (auto simp: room_for_member_def Let_def jp_simps split: if_splits)
  show "follows p p' \<and> (case r of None \<Rightarrow> jp_error p' \<noteq> None
       | Some cap' \<Rightarrow> capacity_ok (Suc n) cap' \<and> cap' \<noteq> 0 \<and> jp_live p' = jp_live p + (if cap = 0 then 1 else 0))"
    if "room_for_element n cap p = (r, p')"
    using that a1 s1 g r by (auto simp: room_for_element_def Let_def jp_simps split: if_splits)
qed

subsection \<open>The parser terminates\<close>

text \<open>Every call either consumes input or turns from a container to one of its children.\<close>

definition rank :: "json_job \<Rightarrow> json_parser \<Rightarrow> nat" where
  "rank job p = 2 * (jp_length p - jp_position p) + (if job = Parse_value then 0 else 1)"

definition run_ok :: "c_double \<Rightarrow> u32 \<Rightarrow> json_job \<Rightarrow> json_parser \<Rightarrow> bool" where
  "run_ok D flags job p \<longleftrightarrow> (\<exists>r p'. json_run D flags job p = Some (r, p') \<and> yields D job p r p')"

lemma run_value:
  assumes i: "inside p" and IH: "\<And>job q. rank job q < rank Parse_value p \<Longrightarrow> inside q \<Longrightarrow> job_ok D job \<Longrightarrow> run_ok D flags job q"
  shows "run_ok D flags Parse_value p"
proof -
  define q where "q = skip_trivia flags p"
  have q: "follows p q" "jp_live q = jp_live p" using skip_trivia_follows [OF i] by (simp_all add: q_def)
  have run: "json_run D flags Parse_value p =
      (if \<not> jp_more q then Some (None, error_here ''Unexpected end of input'' q)
       else if jp_at q = ch_open_object
       then (case begin_object q of (ok, p1) \<Rightarrow> if ok then json_run D flags (Parse_members [] 0) p1 else Some (None, p1))
       else if jp_at q = ch_open_array
       then (case begin_array q of (ok, p1) \<Rightarrow> if ok then json_run D flags (Parse_elements [] 0) p1 else Some (None, p1))
       else parse_scalar D flags q)"
    by (subst json_run.simps) (simp add: Let_def q_def)
  have container: "\<exists>r p'. (if ok then json_run D flags job p1 else Some (None, p1)) = Some (r, p') \<and> yields D Parse_value p r p'"
    if b: "follows q p1 \<and> jp_live p1 = jp_live q + (if ok then 1 else 0) \<and>
        (if ok then jp_position q < jp_position p1 else jp_error p1 \<noteq> None)"
      and j: "job_ok D job" "job_blocks job = 1" for ok p1 job
  proof (cases ok)
    case False
    then show ?thesis using b q by (auto simp: yields_None intro: follows_trans)
  next
    case True
    have f: "follows p p1" using q(1) b by (auto intro: follows_trans)
    have lt: "jp_position p < jp_position p1" using q(1) b True by (simp add: follows_def)
    then have "rank job p1 < rank Parse_value p" using f by (simp add: rank_def follows_def) linarith
    then have "run_ok D flags job p1" using IH f j(1) follows_inside by blast
    then obtain r p' where "json_run D flags job p1 = Some (r, p')" and y: "yields D job p1 r p'"
      by (auto simp: run_ok_def)
    moreover have "yields D Parse_value p r p'"
      using yields_step [OF f y] b q(2) j(2) True lt by simp
    ultimately show ?thesis using True by auto
  qed
  have jo: "job_ok D (Parse_members [] 0)" "job_blocks (Parse_members [] 0) = 1"
    "job_ok D (Parse_elements [] 0)" "job_blocks (Parse_elements [] 0) = 1" by simp_all
  have sc: "\<exists>r p'. parse_scalar D flags q = Some (r, p') \<and> yields D Parse_value p r p'" if "jp_more q"
    using parse_scalar_yields [OF that, of D flags] yields_step [OF q(1), of D Parse_value _ _ Parse_value] q(2) by auto
  have sees: "jp_more q \<Longrightarrow> jp_at q = c \<Longrightarrow> jp_sees c q" for c by (simp add: jp_sees_def)
  show ?thesis
  proof (cases "\<not> jp_more q")
    case True
    then show ?thesis using q by (simp add: run_ok_def run yields_None jp_simps)
  next
    case False
    show ?thesis
    proof (cases "jp_at q = ch_open_object \<or> jp_at q = ch_open_array")
      case True
      obtain ok1 p1 where b1: "begin_object q = (ok1, p1)" by fastforce
      obtain ok2 p2 where b2: "begin_array q = (ok2, p2)" by fastforce
      show ?thesis
      proof (cases "jp_at q = ch_open_object")
        case True
        then show ?thesis
          using False b1 container [OF begin_follows jo(1,2), of ok1 p1] sees [of ch_open_object]
          by (simp add: run_ok_def run)
      next
        case False
        then show ?thesis
          using True \<open>\<not> \<not> jp_more q\<close> b2 container [OF begin_follows jo(3,4), of ok2 p2] sees [of ch_open_array]
          by (simp add: run_ok_def run)
      qed
    next
      case other: False
      then show ?thesis using False sc by (simp add: run_ok_def run)
    qed
  qed
qed

lemma run_elements:
  assumes i: "inside p" and jo: "job_ok D (Parse_elements xs cap)"
    and IH: "\<And>job q. rank job q < rank (Parse_elements xs cap) p \<Longrightarrow> inside q \<Longrightarrow> job_ok D job \<Longrightarrow> run_ok D flags job q"
  shows "run_ok D flags (Parse_elements xs cap) p"
proof -
  define q where "q = skip_trivia flags p"
  have q: "follows p q" "jp_live q = jp_live p" using skip_trivia_follows [OF i] by (simp_all add: q_def)
  note iq = follows_inside [OF q(1)]
  note run = json_run.simps [of D flags "Parse_elements xs cap" p, folded q_def, unfolded Let_def json_job.case]
  show ?thesis
  proof (cases "container_end ch_close_array ''Unterminated array'' q")
    case (Some p')
    then have "json_run D flags (Parse_elements xs cap) p = Some (Some (J_array xs cap), p')" using run by simp
    then show ?thesis using jo q(2) container_end_follows [OF iq Some] follows_trans [OF q(1)]
      by (simp add: run_ok_def yields_Some)
  next
    case None
    have "rank Parse_value q < rank (Parse_elements xs cap) p"
      using q(1) by (simp add: rank_def follows_def) linarith
    then obtain r p1 where r: "json_run D flags Parse_value q = Some (r, p1)" and y: "yields D Parse_value q r p1"
      using IH iq by (fastforce simp: run_ok_def)
    show ?thesis
    proof (cases r)
      case rn: None
      then have "json_run D flags (Parse_elements xs cap) p = Some (None, drop_array xs cap p1)"
        using run None r by simp
      then show ?thesis using rn y follows_trans [OF q(1)] by (simp add: run_ok_def yields_None jp_simps)
    next
      case (Some v)
      then have y1: "follows q p1" "json_ok D v" "jp_live p1 = jp_live q + int (json_blocks v)" "jp_position q < jp_position p1"
        using y by (auto simp: yields_Some)
      obtain oc p2 where rm: "room_for_element (length xs) cap p1 = (oc, p2)" by fastforce
      have cap: "capacity_ok (length xs) cap" using jo by simp
      note p2 = room_follows(2) [OF follows_inside [OF y1(1)] cap rm]
      show ?thesis
      proof (cases oc)
        case on: None
        then have "json_run D flags (Parse_elements xs cap) p = Some (None, drop_array xs cap p2)"
          using run None r Some rm by simp
        then show ?thesis using on p2 follows_trans [OF follows_trans [OF q(1) y1(1)]]
          by (simp add: run_ok_def yields_None jp_simps)
      next
        case oc: (Some cap')
        note c = skip_comma_follows [OF follows_inside, of p1 p2]
        have f: "follows p (skip_comma p2)" using c p2 q(1) y1(1) by (blast intro: follows_trans)
        have "jp_position p < jp_position (skip_comma p2)" using c p2 q(1) y1 by (auto simp: follows_def)
        then have "rank (Parse_elements (xs @ [v]) cap') (skip_comma p2) < rank (Parse_elements xs cap) p"
          using f by (simp add: rank_def follows_def) linarith
        moreover have "job_ok D (Parse_elements (xs @ [v]) cap')" using jo y1(2) p2 oc by auto
        ultimately have "run_ok D flags (Parse_elements (xs @ [v]) cap') (skip_comma p2)"
          using IH follows_inside [OF f] by blast
        then obtain r' p' where r': "json_run D flags (Parse_elements (xs @ [v]) cap') (skip_comma p2) = Some (r', p')"
            and y': "yields D (Parse_elements (xs @ [v]) cap') (skip_comma p2) r' p'"
          unfolding run_ok_def by blast
        have "yields D (Parse_elements xs cap) p r' p'"
          using c p2 oc y1(1,3) q(2) by (intro yields_step [OF f y']) (auto simp: element_blocks_snoc)
        moreover have "json_run D flags (Parse_elements xs cap) p = Some (r', p')"
          using run None r Some rm oc r' by simp
        ultimately show ?thesis by (simp add: run_ok_def)
      qed
    qed
  qed
qed

lemma run_members:
  assumes i: "inside p" and jo: "job_ok D (Parse_members es cap)"
    and IH: "\<And>job q. rank job q < rank (Parse_members es cap) p \<Longrightarrow> inside q \<Longrightarrow> job_ok D job \<Longrightarrow> run_ok D flags job q"
  shows "run_ok D flags (Parse_members es cap) p"
proof -
  define q where "q = skip_trivia flags p"
  have q: "follows p q" "jp_live q = jp_live p" using skip_trivia_follows [OF i] by (simp_all add: q_def)
  note iq = follows_inside [OF q(1)]
  note run = json_run.simps [of D flags "Parse_members es cap" p, folded q_def, unfolded Let_def json_job.case]
  have fails: "run_ok D flags (Parse_members es cap) p"
    if "json_run D flags (Parse_members es cap) p = Some (None, p')" "follows q p'" "jp_error p' \<noteq> None" for p'
    using that follows_trans [OF q(1)] by (simp add: run_ok_def yields_None)
  have sub: "\<exists>r p1. json_run D flags Parse_value p0 = Some (r, p1) \<and> yields D Parse_value p0 r p1" if "follows p p0" for p0
  proof -
    have "rank Parse_value p0 < rank (Parse_members es cap) p" using that by (simp add: rank_def follows_def) linarith
    then show ?thesis using IH follows_inside [OF that] by (simp add: run_ok_def)
  qed
  show ?thesis
  proof (cases "container_end ch_close_object ''Unterminated object'' q")
    case (Some p')
    then have "json_run D flags (Parse_members es cap) p = Some (Some (J_object es cap), p')" using run by simp
    then show ?thesis using jo q(2) container_end_follows [OF iq Some] follows_trans [OF q(1)]
      by (simp add: run_ok_def yields_Some)
  next
    case nend: None
    obtain okey p1 where k: "json_run D flags Parse_value q = Some (okey, p1)" and yk: "yields D Parse_value q okey p1"
      using sub [OF q(1)] by blast
    show ?thesis
    proof (cases okey)
      case None
      then show ?thesis using fails [of "drop_object es cap p1"] run nend k yk by (simp add: yields_None jp_simps)
    next
      case okey: (Some key)
      then have y1: "follows q p1" "json_ok D key" "jp_live p1 = jp_live q + int (json_blocks key)" "jp_position q < jp_position p1"
        using yk by (auto simp: yields_Some)
      obtain ok p2 where a: "after_key key p1 = (ok, p2)" by fastforce
      note p2 = after_key_follows [OF follows_inside [OF y1(1)] a]
      then have f2: "follows q p2" using y1(1) by (blast intro: follows_trans)
      show ?thesis
      proof (cases ok)
        case False
        then show ?thesis using fails [of "drop_object es cap p2"] run nend k okey a f2 p2 by (simp add: jp_simps)
      next
        case ok: True
        obtain oval p3 where v: "json_run D flags Parse_value p2 = Some (oval, p3)" and yv: "yields D Parse_value p2 oval p3"
          using sub follows_trans [OF q(1) f2] by blast
        have f3: "follows q p3" using yv f2 by (auto simp: yields_def intro: follows_trans)
        show ?thesis
        proof (cases oval)
          case None
          then show ?thesis using fails [of "drop_object es cap (json_release 1 p3)"] run nend k okey a ok v yv f3
            by (simp add: yields_None jp_simps)
        next
          case oval: (Some val)
          then have y3: "json_ok D val" "jp_live p3 = jp_live p2 + int (json_blocks val)"
            using yv by (auto simp: yields_Some)
          obtain oc p4 where rm: "room_for_member (length es) cap p3 = (oc, p4)" by fastforce
          have cap: "capacity_ok (length es) cap" using jo by simp
          note p4 = room_follows(1) [OF follows_inside [OF f3] cap rm]
          then have f4: "follows q p4" using f3 by (blast intro: follows_trans)
          show ?thesis
          proof (cases oc)
            case None
            then show ?thesis using fails [of "drop_object es cap p4"] run nend k okey a ok v oval rm f4 p4
              by (simp add: jp_simps)
          next
            case oc: (Some cap')
            let ?job = "Parse_members (es @ [(key, val)]) cap'"
            note c = skip_comma_follows [OF follows_inside [OF f4]]
            have f: "follows p (skip_comma p4)" using c q(1) f4 by (blast intro: follows_trans)
            have "jp_position p < jp_position (skip_comma p4)"
              using c p4 q(1) y1 p2 yv by (auto simp: follows_def yields_def)
            then have "rank ?job (skip_comma p4) < rank (Parse_members es cap) p"
              using f by (simp add: rank_def follows_def) linarith
            moreover have "job_ok D ?job" using jo y1(2) y3(1) p4 p2 ok oc by auto
            ultimately have "run_ok D flags ?job (skip_comma p4)" using IH follows_inside [OF f] by blast
            then obtain r' p' where r': "json_run D flags ?job (skip_comma p4) = Some (r', p')"
                and y': "yields D ?job (skip_comma p4) r' p'"
              unfolding run_ok_def by blast
            have "yields D (Parse_members es cap) p r' p'"
              using c p2 ok p4 oc y1(3) y3(2) q(2) by (intro yields_step [OF f y']) (auto simp: member_blocks_snoc)
            moreover have "json_run D flags (Parse_members es cap) p = Some (r', p')"
              using run nend k okey a ok v oval rm oc r' by simp
            ultimately show ?thesis by (simp add: run_ok_def)
          qed
        qed
      qed
    qed
  qed
qed

lemma json_run_ok: "inside p \<Longrightarrow> job_ok D job \<Longrightarrow> run_ok D flags job p"
proof (induction "rank job p" arbitrary: job p rule: less_induct)
  case less
  then show ?case
    using run_value [of p D flags] run_members [of p D _ _ flags] run_elements [of p D _ _ flags]
    by (cases job) auto
qed

text \<open>C17.  \<open>mp_json_parse\<close> always returns, for every input, every set of flags and every allocator.  It returns \<open>NULL\<close> only with an error message.  A value that it returns is well typed (keys
  are strings, strings are terminated at their length, numbers agree with their \<open>is_integer\<close> tag, arrays fit their
  capacity), is the parser's root, was reached by consuming the whole input, and owns exactly the blocks that the parser
  allocated and did not release.\<close>

theorem json_parse_total:
  "\<exists>r p'. mp_json_parse D (Some p) flags = Some (r, Some p') \<and>
    (case r of
       None \<Rightarrow> jp_error p' \<noteq> None \<and> jp_root p' = jp_root p
     | Some v \<Rightarrow> json_ok D v \<and> jp_root p' = Some v \<and> jp_position p' = jp_length p \<and>
         jp_live p' = jp_live p + int (mp_json_free (Some v)))"
proof -
  define p0 where "p0 = p\<lparr>jp_error := None, jp_error_position := 0, jp_position := 0\<rparr>"
  have i: "inside p0" by (simp add: p0_def inside_def)
  obtain r p1 where r: "parse_value D p0 flags = Some (r, p1)" and y: "yields D Parse_value p0 r p1"
    using json_run_ok [OF i, of D Parse_value flags] by (auto simp: parse_value_def run_ok_def)
  have s: "follows p1 (skip_trivia flags p1)" "jp_live (skip_trivia flags p1) = jp_live p1"
    using skip_trivia_follows [of p1 flags] y follows_inside by (auto simp: yields_def)
  have m: "mp_json_parse D (Some p) flags =
      (case r of None \<Rightarrow> Some (None, Some p1)
       | Some v \<Rightarrow>
           if jp_more (skip_trivia flags p1)
           then Some (None, Some (json_release (mp_json_free (Some v)) (error_here ''Unexpected trailing data'' (skip_trivia flags p1))))
           else Some (Some v, Some ((skip_trivia flags p1)\<lparr>jp_root := Some v\<rparr>)))"
    using r by (simp add: mp_json_parse_def p0_def skip_trivia_def Let_def split: option.splits)
  show ?thesis
  proof (cases r)
    case None
    then show ?thesis using m y by (auto simp: yields_None follows_def p0_def)
  next
    case (Some v)
    have f: "follows p0 (skip_trivia flags p1)" using y Some s(1) by (auto simp: yields_Some intro: follows_trans)
    then show ?thesis using m y s Some
      by (auto simp: yields_Some p0_def follows_def jp_more_def mp_json_free_def json_release_def error_here_def set_error_def)
  qed
qed

section \<open>The text of a value\<close>

definition escape_char :: "u8 \<Rightarrow> u8 list" where
  "escape_char c =
     (if c = ch_quote then [ch_backslash, ch_quote]
      else if c = ch_backslash then [ch_backslash, ch_backslash]
      else if c = ch_backspace then [ch_backslash, ch_b]
      else if c = ch_formfeed then [ch_backslash, ch_f]
      else if c = ch_newline then [ch_backslash, ch_n]
      else if c = ch_return then [ch_backslash, ch_r]
      else if c = ch_tab then [ch_backslash, ch_t]
      else if c < 32 then unicode_escape c
      else [c])"

definition string_text :: "u8 list \<Rightarrow> u8 list" where
  "string_text s = [ch_quote] @ concat (map escape_char s) @ [ch_quote]"

definition newline_text :: "bool \<Rightarrow> u8 list" where
  "newline_text pretty = (if pretty then [ch_newline] else [])"

definition indent_text :: "bool \<Rightarrow> int \<Rightarrow> u8 list" where
  "indent_text pretty n = (if pretty then concat (replicate (nat n) [ch_space, ch_space]) else [])"

definition child_text :: "bool \<Rightarrow> int \<Rightarrow> bool \<Rightarrow> u8 list" where
  "child_text pretty n is_first =
     (if is_first then [] else [ch_comma] @ newline_text pretty) @ indent_text pretty n"

definition container_text :: "bool \<Rightarrow> int \<Rightarrow> u8 \<Rightarrow> u8 list \<Rightarrow> u8 \<Rightarrow> u8 list" where
  "container_text pretty n opening body closing =
     ([opening] @ newline_text pretty) @ body @ (newline_text pretty @ indent_text pretty n) @ [closing]"

text \<open>The reference printer: the text of a value at an indentation level, of a value whose keys are strings.\<close>

function text_value :: "c_double \<Rightarrow> bool \<Rightarrow> int \<Rightarrow> json \<Rightarrow> u8 list"
  and text_members :: "c_double \<Rightarrow> bool \<Rightarrow> int \<Rightarrow> bool \<Rightarrow> (json \<times> json) list \<Rightarrow> u8 list"
  and text_elements :: "c_double \<Rightarrow> bool \<Rightarrow> int \<Rightarrow> bool \<Rightarrow> json list \<Rightarrow> u8 list" where
  "text_value D pretty n J_null = ascii ''null''"
| "text_value D pretty n (J_boolean b) = (if b then ascii ''true'' else ascii ''false'')"
| "text_value D pretty n (J_number d i k) = number_text D d i k"
| "text_value D pretty n (J_string s len own) =
     (case s of None \<Rightarrow> ascii ''null'' | Some t \<Rightarrow> string_text (take len t))"
| "text_value D pretty n (J_object es cap) =
     container_text pretty n ch_open_object (text_members D pretty (n + 1) True es) ch_close_object"
| "text_value D pretty n (J_array xs cap) =
     container_text pretty n ch_open_array (text_elements D pretty (n + 1) True xs) ch_close_array"
| "text_value D pretty n J_error = ascii ''null''"
| "text_members D pretty n is_first [] = []"
| "text_members D pretty n is_first ((k, v) # es) =
     child_text pretty n is_first @ text_value D pretty n k @ ([ch_colon] @ (if pretty then [ch_space] else [])) @
       text_value D pretty n v @ text_members D pretty n False es"
| "text_elements D pretty n is_first [] = []"
| "text_elements D pretty n is_first (x # xs) =
     child_text pretty n is_first @ text_value D pretty n x @ text_elements D pretty n False xs"
  by pat_completeness auto

termination text_value
  by (relation "measure (case_sum (\<lambda>(D, p, n, v). size v)
        (case_sum (\<lambda>(D, p, n, f, es). size_list (size_prod size size) es) (\<lambda>(D, p, n, f, xs). size_list size xs)))") auto

text \<open>What the generator can print without leaving the buffers of the strings.\<close>

function printable :: "json \<Rightarrow> bool" where
  "printable (J_string s n own) = (case s of None \<Rightarrow> True | Some t \<Rightarrow> n \<le> length t)"
| "printable (J_object es cap) = (\<forall>(k, v) \<in> set es. is_string k \<and> printable k \<and> printable v)"
| "printable (J_array xs cap) = (\<forall>x \<in> set xs. printable x)"
| "printable J_null = True"
| "printable (J_boolean b) = True"
| "printable (J_number d i n) = True"
| "printable J_error = True"
  by pat_completeness auto

termination printable
  by (relation "measure size") (auto dest: in_set_size in_set_size_list)

lemma json_ok_printable: "json_ok D v \<Longrightarrow> printable v"
  by (induction v rule: printable.induct) auto

section \<open>The generator's buffer\<close>

definition jg_contents :: "json_generator \<Rightarrow> u8 list" where
  "jg_contents g = (case jg_buffer g of None \<Rightarrow> [] | Some b \<Rightarrow> b)"

definition jg_written :: "json_generator \<Rightarrow> u8 list" where
  "jg_written g = take (unat (jg_position g)) (jg_contents g)"

text \<open>A generator with a buffer of its capacity, terminated where the output ends.\<close>

definition gen_ok :: "json_generator \<Rightarrow> bool" where
  "gen_ok g \<longleftrightarrow> jg_buffer g \<noteq> None \<and> length (jg_contents g) = unat (jg_capacity g) \<and>
     jg_position g < jg_capacity g \<and> jg_contents g ! unat (jg_position g) = 0"

definition gen_room :: "json_generator \<Rightarrow> nat \<Rightarrow> bool" where
  "gen_room g n \<longleftrightarrow> gen_ok g \<and> (\<forall>f. jg_realloc g = Some f \<longrightarrow> good_realloc f) \<and>
     unat (jg_position g) + n < 2 ^ 30 \<and> (unat (jg_position g) + n < unat (jg_capacity g) \<or> jg_realloc g \<noteq> None)"

definition jg_appends :: "json_generator \<Rightarrow> u8 list \<Rightarrow> json_generator \<Rightarrow> bool" where
  "jg_appends g t g' \<longleftrightarrow> gen_ok g' \<and> jg_written g' = jg_written g @ t \<and> jg_realloc g' = jg_realloc g \<and>
     unat (jg_position g') = unat (jg_position g) + length t \<and> unat (jg_capacity g) \<le> unat (jg_capacity g') \<and>
     jg_pretty g' = jg_pretty g"

lemma jg_appends_trans: "jg_appends g a h \<Longrightarrow> jg_appends h b k \<Longrightarrow> jg_appends g (a @ b) k"
  by (auto simp: jg_appends_def)

lemma gen_room_after: "gen_room g (length a + n) \<Longrightarrow> jg_appends g a h \<Longrightarrow> gen_room h n"
  unfolding gen_room_def jg_appends_def by (elim conjE) (auto simp only: add.assoc)

lemma gen_room_le: "gen_room g n \<Longrightarrow> m \<le> n \<Longrightarrow> gen_room g m"
  unfolding gen_room_def by (meson add_left_mono le_less_trans)

lemma json_grow_loop_reaches:
  assumes "c \<noteq> 0" and "unat wanted < 2 ^ 31"
  shows "\<exists>c'. json_grow_loop wanted c = Some c' \<and> wanted < c' \<and> c \<le> c'"
  using assms(1)
proof (induction "Suc (unat wanted) - unat c" arbitrary: c rule: less_induct)
  case less
  show ?case
  proof (cases "wanted \<ge> c")
    case False
    then show ?thesis by (subst json_grow_loop.simps) auto
  next
    case True
    then have le: "unat c \<le> unat wanted" by (simp add: word_le_nat_alt)
    then have d: "unat (c * 2) = unat c * 2"
      using assms(2) by (intro unat_mult_no_overflow [of c 2, simplified]) simp
    have pos: "0 < unat c" using less.prems by (simp add: unat_gt_0)
    then have lt: "Suc (unat wanted) - unat (c * 2) < Suc (unat wanted) - unat c" using d le by simp
    have "c * 2 \<noteq> 0" using d pos by (metis mult_is_0 neq0_conv unat_0 zero_neq_numeral)
    then obtain c' where "json_grow_loop wanted (c * 2) = Some c'" "wanted < c'" "c * 2 \<le> c'"
      using less.hyps [OF lt] by blast
    then show ?thesis using True d by (subst json_grow_loop.simps) (auto simp: word_le_nat_alt)
  qed
qed

lemma json_ensure_room:
  assumes "gen_room g (unat n)"
  shows "\<exists>g'. json_ensure_capacity g n = Some g' \<and> jg_appends g [] g' \<and> jg_position g' = jg_position g \<and>
    unat (jg_position g) + unat n < unat (jg_capacity g') \<and> jg_indent g' = jg_indent g"
proof -
  have ok: "gen_ok g" and fr: "\<forall>f. jg_realloc g = Some f \<longrightarrow> good_realloc f"
    and sm: "unat (jg_position g) + unat n < 2 ^ 30"
    and rm: "unat (jg_position g) + unat n < unat (jg_capacity g) \<or> jg_realloc g \<noteq> None"
    using assms by (simp_all add: gen_room_def)
  have s: "unat (jg_position g + n) = unat (jg_position g) + unat n"
    using sm by (intro unat_add_no_overflow) simp
  show ?thesis
  proof (cases "jg_position g + n < jg_capacity g")
    case True
    then show ?thesis using ok s by (simp add: json_ensure_capacity_def jg_appends_def word_less_nat_alt)
  next
    case False
    then have cap: "unat (jg_capacity g) \<le> unat (jg_position g) + unat n" using s by (simp add: word_less_nat_alt)
    then obtain f where f: "jg_realloc g = Some f" "good_realloc f" using rm fr by auto
    have pos: "0 < unat (jg_capacity g)" using ok by (simp add: gen_ok_def word_less_nat_alt)
    have d: "unat (jg_capacity g * 2) = unat (jg_capacity g) * 2"
      using cap sm by (intro unat_mult_no_overflow [of "jg_capacity g" 2, simplified]) simp
    have nz: "jg_capacity g \<noteq> 0" "jg_capacity g * 2 \<noteq> 0" using pos d by (auto simp flip: unat_gt_0)
    obtain c where c: "json_grow_loop (jg_position g + n) (jg_capacity g * 2) = Some c" "jg_position g + n < c"
        "jg_capacity g * 2 \<le> c"
      using json_grow_loop_reaches [OF nz(2), of "jg_position g + n"] s sm by auto
    obtain b0 where b0: "jg_buffer g = Some b0" using ok by (auto simp: gen_ok_def)
    have len: "length b0 = unat (jg_capacity g)" "unat (jg_position g) < length b0" "b0 ! unat (jg_position g) = 0"
      using ok b0 by (simp_all add: gen_ok_def jg_contents_def word_less_nat_alt)
    have "c \<noteq> 0" using c(2) by auto
    then obtain b where b: "f (Some b0) c = Some b" "length b = unat c" "length b0 \<le> unat c \<Longrightarrow> take (length b0) b = b0"
      using f(2) unfolding good_realloc_def by blast
    have le: "length b0 \<le> unat c" using c(3) d len(1) by (simp add: word_le_nat_alt)
    have t: "take (unat (jg_position g)) b = take (unat (jg_position g)) b0"
      using b(3) [OF le] len(2) by (metis min.absorb1 less_imp_le_nat take_take)
    have z: "b ! unat (jg_position g) = 0" using b(3) [OF le] len(2,3) by (metis nth_take)
    have lt: "unat (jg_position g) + unat n < unat c" using c(2) s by (simp add: word_less_nat_alt)
    show ?thesis
      using False c(1) f(1) b0 b(1,2) t z lt le len(1) nz(1)
      by (simp add: json_ensure_capacity_def jg_appends_def gen_ok_def jg_contents_def jg_written_def word_less_nat_alt)
  qed
qed

lemma take_mem_write:
  "mem_write b off d = Some b' \<Longrightarrow> take (off + length d) b' = take off b @ d"
  by (auto simp: mem_write_def split: if_splits)

lemma write_string_appends:
  assumes r: "gen_room g (length t)"
  shows "\<exists>g'. write_string g t = Some g' \<and> jg_appends g t g' \<and> jg_indent g' = jg_indent g"
proof -
  have n: "unat (of_nat (length t) :: size_t) = length t"
    using r by (intro unat_length) (simp add: gen_room_def)
  obtain g1 where g1: "json_ensure_capacity g (of_nat (length t)) = Some g1" "jg_appends g [] g1"
      "jg_position g1 = jg_position g" "unat (jg_position g) + length t < unat (jg_capacity g1)" "jg_indent g1 = jg_indent g"
    using json_ensure_room [of g "of_nat (length t)"] r n by auto
  define p where "p = jg_position g + of_nat (length t)"
  have p: "unat p = unat (jg_position g) + length t"
    unfolding p_def using n r by (subst unat_add_no_overflow) (auto simp: gen_room_def)
  obtain b where b: "jg_buffer g1 = Some b" "length b = unat (jg_capacity g1)"
    using g1(2) by (auto simp: jg_appends_def gen_ok_def jg_contents_def)
  obtain b' where b': "mem_write b (unat (jg_position g)) t = Some b'"
    using mem_write_Some [of "unat (jg_position g)" t b] g1(4) b(2) by auto
  have len: "length b' = length b" using mem_write_length [OF b'] .
  have lt: "p < jg_capacity g1" using p g1(4) by (simp add: word_less_nat_alt)
  have w: "write_string g t = Some (g1\<lparr>jg_buffer := Some (b'[unat p := 0]), jg_position := p\<rparr>)"
    using g1(1,3,4) b b' lt p len by (simp add: write_string_def Let_def p_def [symmetric] jg_store_def)
  have "jg_written g1 = jg_written g" using g1(2) by (simp add: jg_appends_def)
  then have "take (unat p) (b'[unat p := 0]) = jg_written g @ t"
    using take_mem_write [OF b'] b(1) g1(3) p by (simp add: jg_written_def jg_contents_def)
  then have "jg_appends g t (g1\<lparr>jg_buffer := Some (b'[unat p := 0]), jg_position := p\<rparr>)"
    using g1(2,4) lt p len b(2) by (simp add: jg_appends_def gen_ok_def jg_contents_def jg_written_def)
  then show ?thesis using w g1(5) by simp
qed

lemma write_char_appends:
  assumes r: "gen_room g 1"
  shows "\<exists>g'. write_char g c = Some g' \<and> jg_appends g [c] g' \<and> jg_indent g' = jg_indent g"
proof -
  obtain g1 where g1: "json_ensure_capacity g 1 = Some g1" "jg_appends g [] g1"
      "jg_position g1 = jg_position g" "unat (jg_position g) + 1 < unat (jg_capacity g1)" "jg_indent g1 = jg_indent g"
    using json_ensure_room [of g 1] r by auto
  define i where "i = unat (jg_position g)"
  have p: "unat (jg_position g1 + 1) = i + 1"
    using g1(3,4) unat_bound [of "jg_capacity g1"] by (subst unat_add_no_overflow) (auto simp: i_def)
  obtain b where b: "jg_buffer g1 = Some b" "length b = unat (jg_capacity g1)"
    using g1(2) by (auto simp: jg_appends_def gen_ok_def jg_contents_def)
  have lt: "i < length b" "i + 1 < length b" using g1(4) b(2) by (simp_all add: i_def)
  have w: "write_char g c = Some (g1\<lparr>jg_buffer := Some (b[i := c, i + 1 := 0]), jg_position := jg_position g1 + 1\<rparr>)"
    using g1(1,3,4) b lt p by (simp add: write_char_def jg_store_def word_less_nat_alt i_def)
  have "jg_written g1 = jg_written g" using g1(2) by (simp add: jg_appends_def)
  then have "take (i + 1) (b[i := c, i + 1 := 0]) = jg_written g @ [c]"
    using b(1) g1(3) lt by (simp add: jg_written_def jg_contents_def i_def take_Suc_conv_app_nth)
  then have "jg_appends g [c] (g1\<lparr>jg_buffer := Some (b[i := c, i + 1 := 0]), jg_position := jg_position g1 + 1\<rparr>)"
    using g1(2,4) p lt b(2) by (simp add: jg_appends_def gen_ok_def jg_contents_def jg_written_def word_less_nat_alt i_def)
  then show ?thesis using w g1(5) by simp
qed

section \<open>The generator writes the text\<close>

text \<open>\<open>writes pretty n n' m t\<close>: with room for it, the step \<open>m\<close> appends the text \<open>t\<close> and takes the indentation level
  from \<open>n\<close> to \<open>n'\<close>.\<close>

definition writes :: "bool \<Rightarrow> int \<Rightarrow> int \<Rightarrow> (json_generator \<Rightarrow> json_generator option) \<Rightarrow> u8 list \<Rightarrow> bool" where
  "writes pretty n n' m t \<longleftrightarrow> (\<forall>g. jg_pretty g = pretty \<longrightarrow> jg_indent g = n \<longrightarrow> gen_room g (length t) \<longrightarrow>
     (\<exists>g'. m g = Some g' \<and> jg_appends g t g' \<and> jg_indent g' = n'))"

lemma writesI:
  "(\<And>g. jg_pretty g = pretty \<Longrightarrow> jg_indent g = n \<Longrightarrow> gen_room g (length t) \<Longrightarrow>
     \<exists>g'. m g = Some g' \<and> jg_appends g t g' \<and> jg_indent g' = n') \<Longrightarrow> writes pretty n n' m t"
  by (simp add: writes_def)

lemma writes_bind:
  assumes "writes pretty n k m a" and "writes pretty k n' f b"
  shows "writes pretty n n' (\<lambda>g. m g \<bind> f) (a @ b)"
proof (rule writesI)
  fix g
  assume g: "jg_pretty g = pretty" "jg_indent g = n" "gen_room g (length (a @ b))"
  have ra: "gen_room g (length a)" using g(3) by (rule gen_room_le) simp
  obtain h where h: "m g = Some h" "jg_appends g a h" "jg_indent h = k"
    using assms(1) g(1,2) ra unfolding writes_def by blast
  have "gen_room h (length b)" using g(3) h(2) gen_room_after [of g a] by (simp only: length_append)
  moreover have "jg_pretty h = pretty" using g(1) h(2) by (simp add: jg_appends_def)
  ultimately obtain g' where "f h = Some g'" "jg_appends h b g'" "jg_indent g' = n'"
    using assms(2) h(3) unfolding writes_def by blast
  then show "\<exists>g'. (m g \<bind> f) = Some g' \<and> jg_appends g (a @ b) g' \<and> jg_indent g' = n'"
    using h jg_appends_trans by auto
qed

lemma writes_nothing: "writes pretty n n Some []"
  by (rule writesI) (simp add: jg_appends_def gen_room_def)

lemma writes_string: "writes pretty n n (\<lambda>g. write_string g t) t"
  by (rule writesI) (use write_string_appends in auto)

lemma writes_char: "writes pretty n n (\<lambda>g. write_char g c) [c]"
  by (rule writesI) (use write_char_appends in auto)

lemma writes_cong:
  "writes pretty n n' m t \<Longrightarrow> (\<And>g. jg_pretty g = pretty \<Longrightarrow> jg_indent g = n \<Longrightarrow> m' g = m g) \<Longrightarrow> writes pretty n n' m' t"
  by (simp add: writes_def)

lemma writes_indent_level:
  "writes pretty n k m t \<Longrightarrow> writes pretty n n' (\<lambda>g. m g \<bind> (\<lambda>g'. Some (g'\<lparr>jg_indent := jg_indent g' + (n' - k)\<rparr>))) t"
proof (rule writesI)
  fix g
  assume w: "writes pretty n k m t" and "jg_pretty g = pretty" "jg_indent g = n" "gen_room g (length t)"
  then obtain h where h: "m g = Some h" "jg_appends g t h" "jg_indent h = k" by (auto simp: writes_def)
  have "jg_appends g t (h\<lparr>jg_indent := n'\<rparr>) = jg_appends g t h"
    by (simp add: jg_appends_def gen_ok_def jg_contents_def jg_written_def)
  then show "\<exists>g'. (m g \<bind> (\<lambda>g'. Some (g'\<lparr>jg_indent := jg_indent g' + (n' - k)\<rparr>))) = Some g' \<and>
      jg_appends g t g' \<and> jg_indent g' = n'"
    using h by simp
qed

lemma writes_newline: "writes pretty n n write_newline (newline_text pretty)"
  by (rule writes_cong [where m = "if pretty then (\<lambda>g. write_char g ch_newline) else Some"])
    (auto simp: newline_text_def write_newline_def writes_char writes_nothing)

lemma writes_times: "writes pretty n n (write_times k t) (concat (replicate k t))"
proof (induction k)
  case 0
  have "write_times 0 t = Some" by (rule ext) simp
  then show ?case by (simp add: writes_nothing)
next
  case (Suc k)
  have "write_times (Suc k) t = (\<lambda>g. write_string g t \<bind> write_times k t)" by (rule ext) simp
  then show ?case using writes_bind [OF writes_string [of pretty n t] Suc] by simp
qed

lemma writes_indent: "writes pretty n n write_indent (indent_text pretty n)"
  by (rule writes_cong [where m = "if pretty then write_times (nat n) [ch_space, ch_space] else Some"])
    (auto simp: indent_text_def write_indent_def writes_times writes_nothing)

lemma writes_escaped_char: "writes pretty n n (\<lambda>g. write_escaped_char g c) (escape_char c)"
  by (simp add: escape_char_def write_escaped_char_def writes_string writes_char)

lemma writes_escaped_chars: "writes pretty n n (write_escaped_chars s) (concat (map escape_char s))"
proof (induction s)
  case Nil
  have "write_escaped_chars [] = Some" by (rule ext) simp
  then show ?case by (simp add: writes_nothing)
next
  case (Cons c s)
  have "write_escaped_chars (c # s) = (\<lambda>g. write_escaped_char g c \<bind> write_escaped_chars s)" by (rule ext) simp
  then show ?case using writes_bind [OF writes_escaped_char Cons] by simp
qed

lemma writes_escaped_string:
  assumes "printable (J_string s len own)"
  shows "writes pretty n n (\<lambda>g. write_escaped_string g s len) (text_value D pretty n (J_string s len own))"
proof (cases s)
  case None
  then show ?thesis by (simp add: write_escaped_string_def writes_string)
next
  case (Some t)
  have e: "(\<lambda>g. write_escaped_string g s len) =
      (\<lambda>g. write_char g ch_quote \<bind> (\<lambda>g1. write_escaped_chars (take len t) g1 \<bind> (\<lambda>g2. write_char g2 ch_quote)))"
    using Some assms by (intro ext) (simp add: write_escaped_string_def mem_read_Some)
  show ?thesis
    using writes_bind [OF writes_char writes_bind [OF writes_escaped_chars writes_char], of pretty n ch_quote "take len t" ch_quote]
    unfolding e by (simp add: Some string_text_def)
qed

lemma writes_open: "writes pretty n (if pretty then n + 1 else n) (open_container c) ([c] @ newline_text pretty)"
proof -
  let ?f = "\<lambda>g1. if jg_pretty g1 then write_newline g1 \<bind> (\<lambda>g2. Some (g2\<lparr>jg_indent := jg_indent g2 + 1\<rparr>)) else Some g1"
  have "writes pretty n (if pretty then n + 1 else n) ?f (newline_text pretty)"
  proof (cases pretty)
    case True
    then show ?thesis
      using writes_indent_level [OF writes_newline, of pretty n "n + 1"] by (auto intro: writes_cong)
  next
    case False
    then show ?thesis using writes_nothing [of pretty n] by (auto simp: newline_text_def intro: writes_cong)
  qed
  from writes_bind [OF writes_char this] show ?thesis unfolding open_container_def .
qed

lemma writes_close:
  "writes pretty (if pretty then n + 1 else n) n (close_container c) ((newline_text pretty @ indent_text pretty n) @ [c])"
proof -
  let ?f = "\<lambda>g. if jg_pretty g then write_newline g \<bind> (\<lambda>g'. write_indent (g'\<lparr>jg_indent := jg_indent g' - 1\<rparr>)) else Some g"
  have "writes pretty (if pretty then n + 1 else n) n ?f (newline_text pretty @ indent_text pretty n)"
  proof (cases pretty)
    case True
    have "writes pretty (n + 1) n (\<lambda>g. (write_newline g \<bind> (\<lambda>g'. Some (g'\<lparr>jg_indent := jg_indent g' + (n - (n + 1))\<rparr>))) \<bind> write_indent)
        (newline_text pretty @ indent_text pretty n)"
      by (rule writes_bind [OF writes_indent_level [OF writes_newline] writes_indent])
    then show ?thesis using True by (auto intro: writes_cong)
  next
    case False
    then show ?thesis using writes_nothing [of pretty n] by (auto simp: newline_text_def indent_text_def intro: writes_cong)
  qed
  from writes_bind [OF this writes_char] show ?thesis unfolding close_container_def .
qed

lemma writes_next_child: "writes pretty n n (next_child is_first) (child_text pretty n is_first)"
proof -
  have "writes pretty n n (\<lambda>g. if is_first then Some g else write_char g ch_comma \<bind> write_newline)
      (if is_first then [] else [ch_comma] @ newline_text pretty)"
    using writes_nothing [of pretty n] writes_bind [OF writes_char writes_newline, of pretty n ch_comma]
    by (cases is_first) auto
  from writes_bind [OF this writes_indent] show ?thesis unfolding next_child_def child_text_def .
qed

lemma writes_colon: "writes pretty n n write_colon ([ch_colon] @ (if pretty then [ch_space] else []))"
proof -
  have "writes pretty n n (\<lambda>g. if jg_pretty g then write_char g ch_space else Some g) (if pretty then [ch_space] else [])"
    using writes_char [of pretty n ch_space] writes_nothing [of pretty n] by (auto intro: writes_cong)
  from writes_bind [OF writes_char this] show ?thesis unfolding write_colon_def .
qed

text \<open>Without pretty printing the level does not matter.\<close>

lemma level_irrelevant:
  assumes "pretty \<longrightarrow> m = n"
  shows "indent_text pretty m = indent_text pretty n" "child_text pretty m first = child_text pretty n first"
    "container_text pretty m a t b = container_text pretty n a t b"
  using assms by (cases pretty; simp add: indent_text_def child_text_def container_text_def)+

lemma generate_eta:
  "generate_value E J_null = (\<lambda>g. write_string g (ascii ''null''))"
  "generate_value E J_error = (\<lambda>g. write_string g (ascii ''null''))"
  "generate_value E (J_boolean b) = (\<lambda>g. write_string g (if b then ascii ''true'' else ascii ''false''))"
  "generate_value E (J_number d i k) = (\<lambda>g. write_string g (number_text (env_double E) d i k))"
  "generate_value E (J_string s len own) = (\<lambda>g. write_escaped_string g s len)"
  "generate_members E first [] = Some" "generate_elements E first [] = Some"
  by (rule ext, simp)+

lemma generate_writes:
  shows "env_double E = D \<Longrightarrow> printable v \<Longrightarrow> (pretty \<longrightarrow> m = n) \<Longrightarrow> writes pretty m m (generate_value E v) (text_value D pretty n v)"
    and "env_double E = D \<Longrightarrow> \<forall>(k, v) \<in> set es. is_string k \<and> printable k \<and> printable v \<Longrightarrow> (pretty \<longrightarrow> m = n) \<Longrightarrow>
      writes pretty m m (generate_members E first es) (text_members D pretty n first es)"
    and "env_double E = D \<Longrightarrow> \<forall>x \<in> set xs. printable x \<Longrightarrow> (pretty \<longrightarrow> m = n) \<Longrightarrow>
      writes pretty m m (generate_elements E first xs) (text_elements D pretty n first xs)"
proof (induction D pretty n v and D pretty n first es and D pretty n first xs arbitrary: m and m and m
    rule: text_value_text_members_text_elements.induct)
  case (5 D pretty n es cap)
  let ?k = "if pretty then m + 1 else m"
  have "writes pretty ?k ?k (generate_members E True es) (text_members D pretty (n + 1) True es)"
    using 5 by (intro 5(1)) auto
  from writes_bind [OF writes_open writes_bind [OF this writes_close], of ch_open_object ch_close_object]
  have "writes pretty m m (generate_value E (J_object es cap)) (container_text pretty m ch_open_object (text_members D pretty (n + 1) True es) ch_close_object)"
    unfolding generate_value.simps(5) container_text_def .
  then show ?case using level_irrelevant(3) [OF 5(4)] by (simp del: generate_value.simps)
next
  case (6 D pretty n xs cap)
  let ?k = "if pretty then m + 1 else m"
  have "writes pretty ?k ?k (generate_elements E True xs) (text_elements D pretty (n + 1) True xs)"
    using 6 by (intro 6(1)) auto
  from writes_bind [OF writes_open writes_bind [OF this writes_close], of ch_open_array ch_close_array]
  have "writes pretty m m (generate_value E (J_array xs cap)) (container_text pretty m ch_open_array (text_elements D pretty (n + 1) True xs) ch_close_array)"
    unfolding generate_value.simps(6) container_text_def .
  then show ?case using level_irrelevant(3) [OF 6(4)] by (simp del: generate_value.simps)
next
  case (9 D pretty n first k v es)
  obtain s len own where k: "k = J_string s len own" using 9(5) by (cases k) auto
  have "writes pretty m m (\<lambda>g. write_escaped_string g s len) (text_value D pretty n k)"
    using 9(5) writes_escaped_string [of s len own pretty m D] unfolding k by simp
  from writes_bind [OF writes_next_child writes_bind [OF this writes_bind [OF writes_colon
        writes_bind [OF 9(2) 9(3)]]], of first] 9(4-6)
  show ?case unfolding k by (simp add: level_irrelevant(2) [OF 9(6)])
next
  case (11 D pretty n first x xs)
  from writes_bind [OF writes_next_child writes_bind [OF 11(1) 11(2)], of m first] 11(3-5)
  show ?case by (simp add: level_irrelevant(2) [OF 11(5)])
next
  case (4 D pretty n s len own)
  then show ?case using writes_escaped_string [of s len own pretty m D]
    by (auto simp: generate_eta split: option.splits)
qed (auto simp: generate_eta writes_string writes_nothing)

section \<open>Output strings\<close>

lemma unat_of_nat_u8: "n < 256 \<Longrightarrow> unat (of_nat n :: u8) = n"
  by (simp add: unsigned_of_nat take_bit_nat_eq_self)

lemma decimal_digits: "c \<in> set (decimal n) \<Longrightarrow> is_digit c"
proof (induction n rule: decimal.induct)
  case (1 n)
  have d: "is_digit (of_nat (0x30 + k))" if "k < 10" for k
    using that by (simp add: is_digit_def word_le_nat_alt unat_of_nat_u8 del: of_nat_add)
  show ?case
  proof (cases "n < 10")
    case True
    then show ?thesis using 1(2) d [of n] by (simp add: decimal.simps [of n])
  next
    case False
    then show ?thesis using 1 d [of "n mod 10"] by (auto simp: decimal.simps [of n])
  qed
qed

lemma print_lld_chars: "c \<in> set (print_lld n) \<Longrightarrow> is_digit c \<or> c = ch_minus"
  by (auto simp: print_lld_def split: if_splits dest: decimal_digits)

lemma digit_nonzero: "is_digit c \<Longrightarrow> c \<noteq> 0"
  by (auto simp: is_digit_def)

lemma escape_char_nonzero: "0 \<notin> set (escape_char c)"
proof -
  have "hex_digit k \<noteq> 0" if "k < 16" for k
    using that unat_of_nat_u8 [of "if k < 10 then 0x30 + k else 0x57 + k"]
    by (auto simp: hex_digit_def simp del: of_nat_add split: if_splits)
  moreover have "unat c div 16 < 16" using unat_bound [of c] by simp
  ultimately have "0 \<notin> set (unicode_escape c)" by (simp add: unicode_escape_def)
  then show ?thesis by (auto simp: escape_char_def)
qed

lemma layout_nonzero: "0 \<notin> set (newline_text pretty)" "0 \<notin> set (indent_text pretty n)"
  "0 \<notin> set (child_text pretty n first)"
  by (auto simp: newline_text_def indent_text_def child_text_def)

lemma text_nonzero:
  assumes D: "\<And>d. 0 \<notin> set (show_15g D d)"
  shows "0 \<notin> set (text_value D pretty n v)" "0 \<notin> set (text_members D pretty n first es)"
    "0 \<notin> set (text_elements D pretty n first xs)"
  using D
proof (induction D pretty n v and D pretty n first es and D pretty n first xs
    rule: text_value_text_members_text_elements.induct)
  case (3 D pretty n d i k)
  then show ?case by (auto simp: number_text_def dest: print_lld_chars digit_nonzero)
next
  case (4 D pretty n s len own)
  then show ?case by (auto simp: ascii_def string_text_def escape_char_nonzero split: option.splits)
qed (auto simp: ascii_def container_text_def layout_nonzero)

lemma c_strlen_first: "n < length b \<Longrightarrow> b ! n = 0 \<Longrightarrow> 0 \<notin> set (take n b) \<Longrightarrow> c_strlen b = Some n"
proof -
  assume n: "n < length b" "b ! n = 0" and z: "0 \<notin> set (take n b)"
  have "b ! j \<noteq> 0" if "j < n" for j
    using z that n(1) by (auto simp: in_set_conv_nth)
  then show ?thesis
    using n unfolding c_strlen_def find_Some_iff by (intro exI [of _ n]) auto
qed

text \<open>A generator that can take \<open>n\<close> more bytes once it is reset: a fixed buffer larger than \<open>n\<close>, or one that a
  working \<open>realloc_fn\<close> can grow.\<close>

definition gen_accepts :: "json_generator \<Rightarrow> nat \<Rightarrow> bool" where
  "gen_accepts g n \<longleftrightarrow> (\<exists>b. jg_buffer g = Some b \<and> length b = unat (jg_capacity g)) \<and> jg_capacity g \<noteq> 0 \<and>
     (\<forall>f. jg_realloc g = Some f \<longrightarrow> good_realloc f) \<and> n < 2 ^ 30 \<and>
     (n < unat (jg_capacity g) \<or> jg_realloc g \<noteq> None)"

lemma jg_clear_room:
  assumes "gen_accepts g n"
  shows "\<exists>g1. jg_clear (g\<lparr>jg_position := 0\<rparr>) = Some g1 \<and> gen_room g1 n \<and> jg_written g1 = [] \<and> jg_position g1 = 0 \<and>
    jg_pretty g1 = jg_pretty g \<and> jg_indent g1 = jg_indent g"
proof -
  obtain b where b: "jg_buffer g = Some b" "length b = unat (jg_capacity g)" using assms by (auto simp: gen_accepts_def)
  have pos: "0 < unat (jg_capacity g)" using assms by (simp add: gen_accepts_def unat_gt_0)
  then have "jg_clear (g\<lparr>jg_position := 0\<rparr>) = Some (g\<lparr>jg_position := 0, jg_buffer := Some (b[0 := 0])\<rparr>)"
    using b by (simp add: jg_clear_def jg_store_def word_less_nat_alt)
  then show ?thesis
    using assms b pos
    by (simp add: gen_accepts_def gen_room_def gen_ok_def jg_contents_def jg_written_def word_less_nat_alt)
qed

text \<open>Printing a well-formed value into a generator whose buffer is large enough, or can be grown, succeeds and
  leaves exactly the text of the reference printer in the buffer, followed by a terminating zero; no byte outside the
  buffer is written.\<close>

theorem json_generate_text:
  assumes "printable v" and "gen_accepts g (length (text_value (env_double E) (jg_pretty g) (jg_indent g) v))"
  shows "\<exists>g' b. mp_json_generate E (Some g) (Some v) = Some (0, Some g') \<and>
    mp_json_generator_get_output (Some g') = Some b \<and> length b = unat (jg_capacity g') \<and>
    take (unat (mp_json_generator_get_length (Some g'))) b = text_value (env_double E) (jg_pretty g) (jg_indent g) v \<and>
    unat (mp_json_generator_get_length (Some g')) = length (text_value (env_double E) (jg_pretty g) (jg_indent g) v) \<and>
    b ! unat (mp_json_generator_get_length (Some g')) = 0"
proof -
  obtain g1 where g1: "jg_clear (g\<lparr>jg_position := 0\<rparr>) = Some g1" "gen_room g1 (length (text_value (env_double E) (jg_pretty g) (jg_indent g) v))"
      "jg_written g1 = []" "jg_position g1 = 0" "jg_pretty g1 = jg_pretty g" "jg_indent g1 = jg_indent g"
    using jg_clear_room [OF assms(2)] by auto
  obtain g' where g': "generate_value E v g1 = Some g'" "jg_appends g1 (text_value (env_double E) (jg_pretty g) (jg_indent g) v) g'"
    using generate_writes(1) [of E _ v "jg_pretty g" "jg_indent g" "jg_indent g"] assms(1) g1(2,5,6) by (auto simp: writes_def)
  obtain b where b: "jg_buffer g' = Some b" using g'(2) by (auto simp: jg_appends_def gen_ok_def)
  show ?thesis
    using g1 g' b
    by (auto simp: mp_json_generate_def generate_optional_def mp_json_generator_get_output_def
        mp_json_generator_get_length_def jg_appends_def gen_ok_def jg_written_def jg_contents_def)
qed

text \<open>\<open>mp_json_to_string\<close> starts from a buffer of 256 bytes and lets it grow; with a working heap it returns the
  text of the reference printer as a string, for every value without malformed strings and with string keys.\<close>

lemma json_to_string_text:
  assumes "printable v" and "good_realloc (env_realloc E)" and "\<And>n. env_strdup E n"
    and "\<And>d. 0 \<notin> set (show_15g (env_double E) d)"
    and "length (text_value (env_double E) (flags AND MP_JSON_GEN_PRETTY \<noteq> 0) 0 v) < 2 ^ 30"
  shows "mp_json_to_string E (Some v) flags =
    Some (Some (text_value (env_double E) (flags AND MP_JSON_GEN_PRETTY \<noteq> 0) 0 v))"
proof -
  define t where "t = text_value (env_double E) (flags AND MP_JSON_GEN_PRETTY \<noteq> 0) 0 v"
  obtain b where b: "env_realloc E None 256 = Some b" "length b = 256"
    using assms(2) [unfolded good_realloc_def, rule_format, of 256 None] by auto
  define g where "g = \<lparr>jg_buffer = Some (b[0 := 0]), jg_position = 0, jg_capacity = 256,
    jg_pretty = (flags AND MP_JSON_GEN_PRETTY \<noteq> 0), jg_indent = 0, jg_realloc = Some (env_realloc E), jg_alloc_data = None\<rparr>"
  have acc: "gen_accepts g (length t)"
    using assms(2,5) b by (simp add: gen_accepts_def g_def t_def)
  obtain g1 where g1: "jg_clear (g\<lparr>jg_position := 0\<rparr>) = Some g1" "gen_room g1 (length t)"
      "jg_written g1 = []" "jg_position g1 = 0" "jg_pretty g1 = jg_pretty g" "jg_indent g1 = jg_indent g"
    using jg_clear_room [OF acc] by auto
  obtain g' where g': "generate_value E v g1 = Some g'" "jg_appends g1 t g'"
    using generate_writes(1) [of E _ v "jg_pretty g" 0 0] assms(1) g1(2,5,6) by (auto simp: writes_def t_def g_def)
  obtain b' where b': "jg_buffer g' = Some b'" using g'(2) by (auto simp: jg_appends_def gen_ok_def)
  have out: "length t < length b'" "b' ! length t = 0" "take (length t) b' = t"
    using g' g1 b' by (auto simp: jg_appends_def gen_ok_def jg_contents_def jg_written_def word_less_nat_alt)
  have "0 \<notin> set t" using text_nonzero(1) [OF assms(4)] by (simp add: t_def)
  then have "dup_output E g' = Some (Some t)"
    using c_strlen_first [of "length t" b'] out b' assms(3) by (simp add: dup_output_def)
  moreover have "mp_json_generator_init_with_allocator (env_realloc E) (Some blank_generator) 256 (Some (env_realloc E)) None =
      Some (0, Some (g\<lparr>jg_pretty := False\<rparr>))"
    using b by (simp add: mp_json_generator_init_with_allocator_def jg_store_def g_def)
  moreover have "jg_clear (g\<lparr>jg_pretty := flags AND MP_JSON_GEN_PRETTY \<noteq> 0, jg_position := 0\<rparr>) = Some g1"
    using g1(1) by (simp add: g_def)
  ultimately show ?thesis
    using g'(1) by (simp add: mp_json_to_string_def value_to_string.simps t_def [symmetric])
qed

text \<open>The last byte of a buffer: with one byte left, \<open>write_char\<close> passes its own check, stores the character, and
  stores the terminating zero behind the end of a buffer that cannot be grown.  It is safe exactly when two bytes
  are left.\<close>

theorem json_write_char_bound:
  assumes "gen_ok g" and "jg_realloc g = None"
  shows "(\<exists>g'. write_char g c = Some g') = (unat (jg_position g) + 1 < unat (jg_capacity g))"
proof (cases "unat (jg_position g) + 1 < unat (jg_capacity g)")
  case True
  then have "unat (jg_position g + 1) = unat (jg_position g) + 1"
    using unat_bound [of "jg_capacity g"] by (subst unat_add_no_overflow) auto
  with True assms show ?thesis
    by (auto simp: write_char_def json_ensure_capacity_def jg_store_def gen_ok_def jg_contents_def word_less_nat_alt)
next
  case False
  have lt: "unat (jg_position g) < unat (jg_capacity g)" using assms(1) by (simp add: gen_ok_def word_less_nat_alt)
  then have s: "unat (jg_position g + 1) = unat (jg_capacity g)"
    using False unat_bound [of "jg_capacity g"] by (subst unat_add_no_overflow) auto
  have "write_char g c = None"
    using s lt assms
    by (cases "json_grow_loop (jg_position g + 1) (if jg_capacity g = 0 then 256 else jg_capacity g * 2)")
      (auto simp: write_char_def json_ensure_capacity_def jg_store_def gen_ok_def jg_contents_def word_less_nat_alt)
  then show ?thesis using False by simp
qed

section \<open>Concrete environments\<close>

text \<open>A heap that never fails: \<open>realloc\<close> keeps the old bytes and adds zeros.\<close>

definition grow_with_zeros :: "u8 list option \<Rightarrow> size_t \<Rightarrow> u8 list option" where
  "grow_with_zeros ob n =
     (case ob of None \<Rightarrow> Some (replicate (unat n) 0)
      | Some b \<Rightarrow> Some (take (unat n) b @ replicate (unat n - length b) 0))"

lemma grow_with_zeros_good: "good_realloc grow_with_zeros"
  by (auto simp: good_realloc_def grow_with_zeros_def split: option.splits)

text \<open>Conversions that treat the bit pattern as an integer.\<close>

definition plain_double :: c_double where
  "plain_double = \<lparr>of_int64 = (\<lambda>n. n), to_int64 = (\<lambda>d. d), c_strtod = (\<lambda>s. 0), show_15g = (\<lambda>d. [ch_0])\<rparr>"

definition plain_env :: json_env where
  "plain_env = \<lparr>env_realloc = grow_with_zeros, env_strdup = (\<lambda>n. True), env_double = plain_double\<rparr>"

definition fixed_generator :: "size_t \<Rightarrow> json_generator" where
  "fixed_generator n = \<lparr>jg_buffer = Some (replicate (unat n) 0), jg_position = 0, jg_capacity = n, jg_pretty = False,
     jg_indent = 0, jg_realloc = None, jg_alloc_data = None\<rparr>"

text \<open>\<open>[true]\<close> into a buffer of 16 bytes.\<close>

lemma json_generate_text_witness:
  "\<exists>g' b. mp_json_generate plain_env (Some (fixed_generator 16)) (Some (J_array [J_boolean True] 8)) = Some (0, Some g') \<and>
    mp_json_generator_get_output (Some g') = Some b \<and> take 6 b = ascii ''[true]'' \<and> b ! 6 = 0"
proof -
  have t: "text_value (env_double plain_env) False 0 (J_array [J_boolean True] 8) = ascii ''[true]''"
    by (simp add: container_text_def newline_text_def indent_text_def child_text_def ascii_def)
  have p: "printable (J_array [J_boolean True] 8)" by simp
  have a: "gen_accepts (fixed_generator 16) (length (ascii ''[true]''))"
    by (simp add: gen_accepts_def fixed_generator_def ascii_def)
  have l: "length (ascii ''[true]'') = 6" by (simp add: ascii_def)
  have g: "jg_pretty (fixed_generator 16) = False" "jg_indent (fixed_generator 16) = 0" by (simp_all add: fixed_generator_def)
  from json_generate_text [of "J_array [J_boolean True] 8" "fixed_generator 16" plain_env] p a
  show ?thesis unfolding g t l by auto
qed

text \<open>One byte left in a buffer of two.\<close>

lemma json_write_char_bound_witness:
  "\<not> (\<exists>g'. write_char ((fixed_generator 2)\<lparr>jg_position := 1\<rparr>) ch_close_array = Some g')"
  using json_write_char_bound [of "(fixed_generator 2)\<lparr>jg_position := 1\<rparr>" ch_close_array]
  by (simp add: gen_ok_def fixed_generator_def jg_contents_def)

text \<open>So an empty array does not fit a caller's buffer of two bytes, nor is the failure reported.\<close>

lemma json_two_byte_buffer_overflows:
  "mp_json_generate plain_env (Some (fixed_generator 2)) (Some (J_array [] 0)) = None"
proof -
  have c: "\<not> (\<exists>g'. write_char ((fixed_generator 2)\<lparr>jg_buffer := Some [ch_open_array, 0], jg_position := 1\<rparr>) ch_close_array = Some g')"
    by (simp add: write_char_def json_ensure_capacity_def jg_store_def fixed_generator_def split: option.splits bind_splits)
  show ?thesis using c
    by (simp add: mp_json_generate_def jg_clear_def jg_store_def fixed_generator_def generate_optional_def
        open_container_def close_container_def write_char_def json_ensure_capacity_def numeral_2_eq_2)
qed

end
