(* ===== verification/Json_Roundtrip.thy ===== *)
theory Json_Roundtrip
  imports Json_Correct
begin

text \<open>
  Printing and parsing again.  The printer and the parser agree on values without strings: what the parser makes of the
  text of such a value is equal to it.  They do not agree on strings: the parser rejects every double-quoted string.
  The file also holds the laws of the operations on objects, copies and comparison.
\<close>

section \<open>The input that remains\<close>

text \<open>A parser that has \<open>bs\<close> before it, has not failed, and whose allocator works.\<close>

definition at_input :: "json_parser \<Rightarrow> u8 list \<Rightarrow> bool" where
  "at_input p bs \<longleftrightarrow> bs = drop (jp_position p) (take (jp_length p) (jp_input p)) \<and> jp_position p \<le> jp_length p \<and>
     jp_length p \<le> length (jp_input p) \<and> jp_error p = None \<and> (\<forall>k n. jp_alloc p k n)"

lemma at_input_Cons:
  assumes "at_input p (c # bs)"
  shows "jp_more p" "jp_at p = c" "at_input (jp_advance 1 p) bs" "jp_sees d p = (c = d)"
proof -
  have d: "c # bs = drop (jp_position p) (take (jp_length p) (jp_input p))" and "jp_length p \<le> length (jp_input p)"
    using assms by (simp_all add: at_input_def)
  then show m: "jp_more p" unfolding jp_more_def
    by (metis (no_types, lifting) drop_all length_take list.distinct(1) min.absorb2 not_le)
  then show a: "jp_at p = c" using d \<open>jp_length p \<le> length (jp_input p)\<close> unfolding jp_at_def jp_more_def
    by (metis (no_types, lifting) drop_eq_Nil2 hd_drop_conv_nth length_take linorder_not_le list.sel(1) min.absorb2 nth_take)
  have "bs = drop (Suc (jp_position p)) (take (jp_length p) (jp_input p))"
    using d by (metis drop_Suc list.sel(3) tl_drop)
  then show "at_input (jp_advance 1 p) bs" using assms m by (simp add: at_input_def jp_advance_def jp_more_def)
  show "jp_sees d p = (c = d)" using m a by (simp add: jp_sees_def)
qed

lemma at_input_Nil: "at_input p [] \<Longrightarrow> \<not> jp_more p"
  by (auto simp: at_input_def jp_more_def)

lemma at_input_advance: "at_input p (a @ bs) \<Longrightarrow> at_input (jp_advance (length a) p) bs"
proof (induction a arbitrary: p)
  case Nil
  then show ?case by (simp add: jp_advance_def)
next
  case (Cons c a)
  then have "at_input (jp_advance (length a) (jp_advance 1 p)) bs" using at_input_Cons(3) by simp
  then show ?case by (simp add: jp_advance_def)
qed

lemma at_input_take: "at_input p (a @ bs) \<Longrightarrow> take (length a) (drop (jp_position p) (jp_input p)) = a"
  and at_input_room: "at_input p (a @ bs) \<Longrightarrow> jp_position p + length a \<le> jp_length p"
proof -
  assume "at_input p (a @ bs)"
  then have d: "a @ bs = take (jp_length p - jp_position p) (drop (jp_position p) (jp_input p))"
      and l: "length (a @ bs) = jp_length p - jp_position p" "jp_position p \<le> jp_length p"
    by (auto simp: at_input_def drop_take)
  show le: "jp_position p + length a \<le> jp_length p" using l by simp
  have "take (length a) (a @ bs) = take (length a) (take (jp_length p - jp_position p) (drop (jp_position p) (jp_input p)))"
    using d by simp
  then show "take (length a) (drop (jp_position p) (jp_input p)) = a" using le by simp
qed

lemma at_input_alloc:
  assumes "at_input p bs"
  shows "\<exists>p'. json_alloc n p = (True, p') \<and> at_input p' bs \<and> jp_position p' = jp_position p \<and> jp_input p' = jp_input p"
  using assms by (auto simp: json_alloc_def at_input_def)

lemma at_input_node: "at_input p bs \<Longrightarrow> \<exists>p'. alloc_node p = (True, p') \<and> at_input p' bs"
  using at_input_alloc [of p bs sizeof_json_value] by (auto simp: alloc_node_def)

lemma at_input_release: "at_input (json_release n p) bs = at_input p bs"
  by (simp add: at_input_def json_release_def)

subsection \<open>White space\<close>

definition whitespace :: "u8 list \<Rightarrow> bool" where
  "whitespace ws \<longleftrightarrow> (\<forall>c \<in> set ws. is_whitespace c)"

text \<open>A rest of the input that a scan for the characters of \<open>P\<close> does not enter.\<close>

definition stops :: "(u8 \<Rightarrow> bool) \<Rightarrow> u8 list \<Rightarrow> bool" where
  "stops P bs \<longleftrightarrow> bs = [] \<or> \<not> P (hd bs)"

lemma skip_while_run:
  assumes "at_input p (a @ bs)" and "\<forall>c \<in> set a. P c" and "stops P bs"
  shows "skip_while P (jp_input p) (jp_length p) (jp_position p) = jp_position p + length a"
  using assms
proof (induction a arbitrary: p)
  case Nil
  show ?case
  proof (cases bs)
    case bs: Nil
    then have "\<not> jp_more p" using Nil(1) at_input_Nil by simp
    then show ?thesis by (subst skip_while.simps) (simp add: jp_more_def)
  next
    case (Cons c cs)
    then have "jp_at p = c" using Nil(1) at_input_Cons(2) by simp
    then show ?thesis using Nil(3) Cons by (subst skip_while.simps) (simp add: jp_at_def stops_def)
  qed
next
  case (Cons c a)
  then have at: "jp_more p" "jp_at p = c" "at_input (jp_advance 1 p) (a @ bs)" using at_input_Cons [of p c] by simp_all
  from Cons(1) [OF at(3)] Cons(3,4) at(1,2) show ?case
    by (subst skip_while.simps) (simp add: jp_more_def jp_at_def jp_advance_def)
qed

lemma skip_whitespace_at:
  assumes "at_input p (ws @ bs)" and "whitespace ws" and "stops is_whitespace bs"
  shows "at_input (skip_whitespace p) bs"
  using skip_while_run [OF assms(1), of is_whitespace] assms at_input_advance [OF assms(1)]
  by (simp add: skip_whitespace_def whitespace_def jp_advance_def)

lemma comments_loop_at:
  assumes "at_input p bs" and "stops (\<lambda>c. c = ch_slash) bs"
  shows "comments_loop flags p = p"
proof -
  have "skip_comments p flags = (False, p)"
  proof (cases bs)
    case Nil
    then show ?thesis using assms(1) at_input_Nil [of p] by (auto simp: skip_comments_def jp_more_def)
  next
    case (Cons c cs)
    then show ?thesis using assms at_input_Cons(2) [of p c cs] by (auto simp: skip_comments_def stops_def)
  qed
  then show ?thesis by (subst comments_loop.simps) simp
qed

definition stops_trivia :: "u8 list \<Rightarrow> bool" where
  "stops_trivia bs \<longleftrightarrow> stops is_whitespace bs \<and> stops (\<lambda>c. c = ch_slash) bs"

lemma skip_trivia_at:
  "at_input p (ws @ bs) \<Longrightarrow> whitespace ws \<Longrightarrow> stops_trivia bs \<Longrightarrow> at_input (skip_trivia flags p) bs"
  using skip_whitespace_at [of p ws bs] comments_loop_at by (simp add: skip_trivia_def stops_trivia_def)

section \<open>Numbers\<close>

lemma digits_value_append: "\<forall>c \<in> set a. is_digit c \<Longrightarrow> digits_value n (a @ b) = digits_value (digits_value n a) b"
  by (induction a arbitrary: n) simp_all

lemma digit_value: "k < 10 \<Longrightarrow> is_digit (of_nat (0x30 + k)) \<and> uint (of_nat (0x30 + k) :: u8) - 0x30 = int k"
  by (simp add: is_digit_def word_le_nat_alt unat_of_nat_u8 uint_nat del: of_nat_add)

lemma digits_value_decimal: "digits_value 0 (decimal n) = int n"
proof (induction n rule: decimal.induct)
  case (1 n)
  show ?case
  proof (cases "n < 10")
    case True
    then show ?thesis using digit_value [of n] by (simp add: decimal.simps [of n] del: of_nat_add)
  next
    case False
    have "digits_value 0 (decimal (n div 10) @ [of_nat (0x30 + n mod 10)]) = 10 * int (n div 10) + int (n mod 10)"
      using digit_value [of "n mod 10"] 1 False decimal_digits
      by (subst digits_value_append) (simp_all del: of_nat_add)
    also have "\<dots> = int n" by presburger
    finally show ?thesis using False by (simp add: decimal.simps [of n])
  qed
qed

lemma decimal_nonempty: "decimal n \<noteq> []"
  by (simp add: decimal.simps [of n])

lemma decimal_head: "decimal n = c # s \<Longrightarrow> is_digit c"
  using decimal_digits [of c n] by simp

lemma strtoll_print: "c_strtoll (print_lld k) = sint k"
proof -
  have r: "- (2 ^ 63) \<le> sint k" "sint k < 2 ^ 63" using sint_range_size [of k] by (simp_all add: word_size)
  then have c: "clamp_int64 (sint k) = sint k" by (simp add: clamp_int64_def)
  show ?thesis
  proof (cases "sint k < 0")
    case True
    then show ?thesis using c digits_value_decimal [of "nat (- sint k)"] by (simp add: c_strtoll_def print_lld_def)
  next
    case False
    obtain d s where d: "decimal (nat (sint k)) = d # s" using decimal_nonempty by (cases "decimal (nat (sint k))") auto
    then have "is_digit d" by (rule decimal_head)
    then have "d \<noteq> ch_minus" "d \<noteq> ch_plus" by (auto simp: is_digit_def)
    moreover have "digits_value 0 (d # s) = sint k" using digits_value_decimal [of "nat (sint k)"] d False by simp
    ultimately show ?thesis using False c d by (simp add: c_strtoll_def print_lld_def)
  qed
qed

lemma digit_cases: "is_digit c \<Longrightarrow> c \<noteq> ch_dot \<and> c \<noteq> ch_e \<and> c \<noteq> ch_E"
  by (auto simp: is_digit_def)

lemma number_value_print: "number_value D (print_lld k) = J_number (of_int64 D k) True k"
  using print_lld_chars [of _ k] digit_cases by (fastforce simp: number_value_def strtoll_print)

lemma print_lld_head: "\<exists>c s. print_lld k = c # s \<and> starts_number c"
proof (cases "sint k < 0")
  case True
  then show ?thesis by (simp add: print_lld_def starts_number_def)
next
  case False
  then show ?thesis using decimal_nonempty decimal_head
    by (cases "decimal (nat (sint k))") (auto simp: print_lld_def starts_number_def)
qed

lemma parse_number_at:
  assumes "at_input p (print_lld k @ bs)" and "stops number_char bs"
  shows "\<exists>p'. parse_number D p = (Some (J_number (of_int64 D k) True k), p') \<and> at_input p' bs"
proof -
  have "\<forall>c \<in> set (print_lld k). number_char c"
    using print_lld_chars [of _ k] by (auto simp: number_char_def)
  then have e: "skip_while number_char (jp_input p) (jp_length p) (jp_position p) = jp_position p + length (print_lld k)"
    by (rule skip_while_run [OF assms(1) _ assms(2)])
  have t: "take (length (print_lld k)) (drop (jp_position p) (jp_input p)) = print_lld k"
    using assms(1) by (rule at_input_take)
  have "at_input (jp_advance (length (print_lld k)) p) bs" using assms(1) by (rule at_input_advance)
  then obtain p1 where p1: "json_alloc (length (print_lld k) + 1) (jp_advance (length (print_lld k)) p) = (True, p1)" "at_input p1 bs"
    using at_input_alloc by blast
  then obtain p2 where p2: "json_alloc sizeof_json_value p1 = (True, p2)" "at_input p2 bs"
    using at_input_alloc by blast
  have "parse_number D p = (Some (J_number (of_int64 D k) True k), json_release 1 p2)"
    using p1(1) p2(1) e t by (simp add: parse_number_def Let_def jp_advance_def number_value_print)
  then show ?thesis using p2(2) at_input_release by auto
qed

lemma parse_literal_at:
  assumes "at_input p (kw @ bs)" and "kw \<noteq> []"
  shows "\<exists>p'. parse_literal kw v p = (Some v, p') \<and> at_input p' bs"
proof -
  have "jp_position p + (length kw - 1) < jp_length p" using at_input_room [OF assms(1)] assms(2) by (cases kw) auto
  moreover obtain p' where "alloc_node (jp_advance (length kw) p) = (True, p')" "at_input p' bs"
    using at_input_node [OF at_input_advance [OF assms(1)]] by blast
  ultimately show ?thesis using at_input_take [OF assms(1)] by (simp add: parse_literal_def)
qed

section \<open>Values without strings\<close>

text \<open>A value without strings, errors and numbers that are not integers; so its objects are empty.\<close>

fun json_plain :: "c_double \<Rightarrow> json \<Rightarrow> bool" where
  "json_plain D J_null = True"
| "json_plain D (J_boolean b) = True"
| "json_plain D (J_number d i k) = (i \<and> d = of_int64 D k)"
| "json_plain D (J_object es cap) = (es = [])"
| "json_plain D (J_array xs cap) = (\<forall>x \<in> set xs. json_plain D x)"
| "json_plain D (J_string s len own) = False"
| "json_plain D J_error = False"

lemma plain_printable: "json_plain D v \<Longrightarrow> printable v"
  by (induction v rule: printable.induct) auto

text \<open>The characters that start the text of a plain value.\<close>

definition value_head :: "u8 \<Rightarrow> bool" where
  "value_head c \<longleftrightarrow> c = ch_n \<or> c = ch_t \<or> c = ch_f \<or> c = ch_open_object \<or> c = ch_open_array \<or> starts_number c"

lemma text_head:
  assumes "json_plain D v"
  shows "\<exists>c s. text_value D pretty n v = c # s \<and> value_head c"
  using assms print_lld_head
  by (cases v) (auto simp: ascii_def value_head_def container_text_def number_text_def, blast)

lemma value_head_stops:
  assumes "value_head c"
  shows "stops_trivia (c # s)" "c \<noteq> ch_close_array" "c \<noteq> ch_close_object" "c \<noteq> ch_quote" "c \<noteq> ch_apostrophe"
proof -
  have "c \<noteq> ch_space \<and> c \<noteq> ch_tab \<and> c \<noteq> ch_newline \<and> c \<noteq> ch_return \<and> c \<noteq> ch_slash \<and> c \<noteq> ch_close_array \<and>
      c \<noteq> ch_close_object \<and> c \<noteq> ch_quote \<and> c \<noteq> ch_apostrophe"
    using assms unfolding value_head_def starts_number_def is_digit_def by auto
  then show "stops_trivia (c # s)" "c \<noteq> ch_close_array" "c \<noteq> ch_close_object" "c \<noteq> ch_quote" "c \<noteq> ch_apostrophe"
    by (simp_all add: stops_trivia_def stops_def is_whitespace_def)
qed

lemma layout_whitespace: "whitespace (newline_text pretty)" "whitespace (indent_text pretty n)" "whitespace []"
    "whitespace a \<Longrightarrow> whitespace b \<Longrightarrow> whitespace (a @ b)"
  by (auto simp: whitespace_def newline_text_def indent_text_def is_whitespace_def)

subsection \<open>Arrays\<close>

lemma at_input_room_for_element:
  assumes "at_input p bs"
  shows "\<exists>cap' p'. room_for_element n cap p = (Some cap', p') \<and> at_input p' bs"
  using at_input_alloc [OF assms, of "grown_capacity cap * sizeof_pointer"] assms
  by (auto simp: room_for_element_def Let_def at_input_release)

lemma whitespace_stops:
  "whitespace ws \<Longrightarrow> \<not> number_char c \<Longrightarrow> stops number_char (ws @ c # s)"
  by (cases ws) (auto simp: stops_def whitespace_def is_whitespace_def number_char_def is_digit_def)

lemma separators_stop:
  "\<not> number_char ch_comma" "\<not> number_char ch_close_array"
  "stops_trivia (ch_close_array # s)" "stops_trivia (ch_close_object # s)" "stops is_whitespace (ch_comma # s)"
  by (simp_all add: number_char_def is_digit_def stops_trivia_def stops_def is_whitespace_def)

lemma elements_end:
  assumes "at_input p (ws @ ch_close_array # rest)" and "whitespace ws"
  shows "\<exists>p'. json_run D flags (Parse_elements acc cap) p = Some (Some (J_array acc cap), p') \<and> at_input p' rest"
proof -
  have "at_input (skip_trivia flags p) (ch_close_array # rest)"
    using skip_trivia_at [OF assms separators_stop(3)] .
  from at_input_Cons(1-3) [OF this] show ?thesis
    by (subst json_run.simps) (simp add: Let_def container_end_def)
qed

text \<open>What a value parses back to: an equal value.\<close>

definition parses :: "c_double \<Rightarrow> bool \<Rightarrow> u32 \<Rightarrow> json \<Rightarrow> bool" where
  "parses D pretty flags v \<longleftrightarrow> (\<forall>p ws n bs. at_input p (ws @ text_value D pretty n v @ bs) \<longrightarrow> whitespace ws \<longrightarrow> stops number_char bs \<longrightarrow>
     (\<exists>v' p'. json_run D flags Parse_value p = Some (Some v', p') \<and> json_equal v v' = Some True \<and> at_input p' bs))"

lemma parsesD:
  "parses D pretty flags v \<Longrightarrow> at_input p (ws @ text_value D pretty n v @ bs) \<Longrightarrow> whitespace ws \<Longrightarrow> stops number_char bs \<Longrightarrow>
    \<exists>v' p'. json_run D flags Parse_value p = Some (Some v', p') \<and> json_equal v v' = Some True \<and> at_input p' bs"
  unfolding parses_def by blast

lemma after_element:
  assumes "at_input p (text_elements D pretty n False xs @ ws @ ch_close_array # rest)" and "whitespace ws"
  shows "case xs of
      [] \<Rightarrow> at_input (skip_comma p) (ch_close_array # rest)
    | x # ys \<Rightarrow> at_input (skip_comma p) ((newline_text pretty @ indent_text pretty n) @ text_value D pretty n x @
        text_elements D pretty n False ys @ ws @ ch_close_array # rest)"
proof (cases xs)
  case Nil
  have "at_input (skip_whitespace p) (ch_close_array # rest)"
    using skip_whitespace_at [of p ws "ch_close_array # rest"] assms Nil
    by (simp add: stops_def is_whitespace_def)
  then show ?thesis using Nil at_input_Cons(4) [of "skip_whitespace p" ch_close_array rest ch_comma]
    by (simp add: skip_comma_def Let_def)
next
  case (Cons x ys)
  let ?bs = "(newline_text pretty @ indent_text pretty n) @ text_value D pretty n x @
        text_elements D pretty n False ys @ ws @ ch_close_array # rest"
  have "at_input (skip_whitespace p) (ch_comma # ?bs)"
    using skip_whitespace_at [of p "[]" "ch_comma # ?bs"] assms Cons separators_stop(5)
    by (simp add: child_text_def layout_whitespace)
  then show ?thesis using Cons at_input_Cons(3,4) [of "skip_whitespace p" ch_comma ?bs]
    by (simp add: skip_comma_def Let_def)
qed

text \<open>One round of the loop.\<close>

lemma element_step:
  assumes x: "parses D pretty flags x" "json_plain D x"
    and at: "at_input p (ws @ text_value D pretty n x @ tail)" "whitespace ws" and tl: "stops number_char tail"
  shows "\<exists>v' cap' p'. json_equal x v' = Some True \<and> at_input p' tail \<and>
    json_run D flags (Parse_elements acc cap) p = json_run D flags (Parse_elements (acc @ [v']) cap') (skip_comma p')"
proof -
  obtain c s where c: "text_value D pretty n x = c # s" "value_head c" using text_head [OF x(2)] by blast
  have t: "at_input (skip_trivia flags p) (text_value D pretty n x @ tail)"
    using skip_trivia_at [OF at] c value_head_stops(1) [OF c(2)] by simp
  have ne: "container_end ch_close_array ''Unterminated array'' (skip_trivia flags p) = None"
    using t c at_input_Cons(1,2) [of "skip_trivia flags p" c] value_head_stops(2) [OF c(2)] by (simp add: container_end_def)
  obtain v' p1 where v': "json_run D flags Parse_value (skip_trivia flags p) = Some (Some v', p1)"
      "json_equal x v' = Some True" "at_input p1 tail"
    using parsesD [OF x(1), of "skip_trivia flags p" "[]" n tail] t tl layout_whitespace(3) by auto
  obtain cap' p2 where p2: "room_for_element (length acc) cap p1 = (Some cap', p2)" "at_input p2 tail"
    using at_input_room_for_element [OF v'(3)] by blast
  have "json_run D flags (Parse_elements acc cap) p = json_run D flags (Parse_elements (acc @ [v']) cap') (skip_comma p2)"
    by (subst json_run.simps) (simp add: Let_def ne v'(1) p2(1))
  then show ?thesis using v'(2) p2(2) by blast
qed

lemma elements_run:
  assumes "\<forall>y \<in> set (x # xs). parses D pretty flags y \<and> json_plain D y"
    and "at_input p (ws0 @ text_value D pretty n x @ text_elements D pretty n False xs @ ws @ ch_close_array # rest)"
    and "whitespace ws0" "whitespace ws"
  shows "\<exists>ys cap' p'. json_run D flags (Parse_elements acc cap) p = Some (Some (J_array (acc @ ys) cap'), p') \<and>
    length ys = length (x # xs) \<and> equal_elements (x # xs) ys = Some True \<and> at_input p' rest"
  using assms
proof (induction xs arbitrary: x p ws0 acc cap)
  case Nil
  let ?tail = "ws @ ch_close_array # rest"
  have "stops number_char ?tail" using separators_stop(2) Nil(4) by (intro whitespace_stops)
  then obtain v' cap1 p2 where v': "json_equal x v' = Some True" "at_input p2 ?tail"
      "json_run D flags (Parse_elements acc cap) p = json_run D flags (Parse_elements (acc @ [v']) cap1) (skip_comma p2)"
    using element_step [of D pretty flags x p ws0 n ?tail acc cap] Nil(1-3) by auto
  have "at_input (skip_comma p2) (ch_close_array # rest)"
    using after_element [of p2 D pretty n "[]" ws rest] v'(2) Nil(4) by simp
  then obtain p' where
      "json_run D flags (Parse_elements (acc @ [v']) cap1) (skip_comma p2) = Some (Some (J_array (acc @ [v']) cap1), p')"
      "at_input p' rest"
    using elements_end [of "skip_comma p2" "[]" rest] layout_whitespace(3) by fastforce
  then show ?case using v'(1,3) by (intro exI [of _ "[v']"]) auto
next
  case (Cons y xs)
  let ?tail = "text_elements D pretty n False (y # xs) @ ws @ ch_close_array # rest"
  have "stops number_char ?tail" using separators_stop(1) by (simp add: child_text_def stops_def)
  then obtain v' cap1 p2 where v': "json_equal x v' = Some True" "at_input p2 ?tail"
      "json_run D flags (Parse_elements acc cap) p = json_run D flags (Parse_elements (acc @ [v']) cap1) (skip_comma p2)"
    using element_step [of D pretty flags x p ws0 n ?tail acc cap] Cons(2-4) by auto
  have "at_input (skip_comma p2) ((newline_text pretty @ indent_text pretty n) @ text_value D pretty n y @
        text_elements D pretty n False xs @ ws @ ch_close_array # rest)"
    using after_element [OF v'(2) Cons(5)] by simp
  from Cons(1) [OF _ this, of "acc @ [v']" cap1] obtain ys cap' p' where
      "json_run D flags (Parse_elements (acc @ [v']) cap1) (skip_comma p2) = Some (Some (J_array ((acc @ [v']) @ ys) cap'), p')"
      "length ys = length (y # xs)" "equal_elements (y # xs) ys = Some True" "at_input p' rest"
    using Cons(2,5) layout_whitespace by auto
  then show ?case using v'(1,3) by (intro exI [of _ "v' # ys"]) auto
qed

lemma members_end:
  assumes "at_input p (ws @ ch_close_object # rest)" and "whitespace ws"
  shows "\<exists>p'. json_run D flags (Parse_members es cap) p = Some (Some (J_object es cap), p') \<and> at_input p' rest"
proof -
  have "at_input (skip_trivia flags p) (ch_close_object # rest)"
    using skip_trivia_at [OF assms separators_stop(4)] .
  from at_input_Cons(1-3) [OF this] show ?thesis
    by (subst json_run.simps) (simp add: Let_def container_end_def)
qed

lemma begin_at:
  assumes "at_input p (c # bs)"
  shows "c = ch_open_object \<Longrightarrow> \<exists>p'. begin_object p = (True, p') \<and> at_input p' bs"
    and "c = ch_open_array \<Longrightarrow> \<exists>p'. begin_array p = (True, p') \<and> at_input p' bs"
proof -
  obtain p1 where p1: "alloc_node p = (True, p1)" "at_input p1 (c # bs)" using at_input_node [OF assms] by blast
  note at_input_Cons(3,4) [OF p1(2)]
  then show "c = ch_open_object \<Longrightarrow> \<exists>p'. begin_object p = (True, p') \<and> at_input p' bs"
    and "c = ch_open_array \<Longrightarrow> \<exists>p'. begin_array p = (True, p') \<and> at_input p' bs"
    using p1(1) by (simp_all add: begin_object_def begin_array_def)
qed

lemma run_container:
  assumes "at_input (skip_trivia flags p) (c # bs)"
  shows "c = ch_open_object \<Longrightarrow> \<exists>p'. at_input p' bs \<and> json_run D flags Parse_value p = json_run D flags (Parse_members [] 0) p'"
    and "c = ch_open_array \<Longrightarrow> \<exists>p'. at_input p' bs \<and> json_run D flags Parse_value p = json_run D flags (Parse_elements [] 0) p'"
proof -
  note c = at_input_Cons(1,2) [OF assms]
  show "\<exists>p'. at_input p' bs \<and> json_run D flags Parse_value p = json_run D flags (Parse_members [] 0) p'"
    if "c = ch_open_object"
    using begin_at(1) [OF assms that] c that by (subst json_run.simps) (auto simp: Let_def)
  show "\<exists>p'. at_input p' bs \<and> json_run D flags Parse_value p = json_run D flags (Parse_elements [] 0) p'"
    if "c = ch_open_array"
    using begin_at(2) [OF assms that] c that by (subst json_run.simps) (auto simp: Let_def)
qed

lemma run_scalar:
  assumes "at_input (skip_trivia flags p) (c # bs)" and "c \<noteq> ch_open_object" "c \<noteq> ch_open_array"
  shows "json_run D flags Parse_value p = parse_scalar D flags (skip_trivia flags p)"
  using at_input_Cons(1,2) [OF assms(1)] assms(2,3) by (subst json_run.simps) (simp add: Let_def)

lemma starts_number_cases: "starts_number c \<Longrightarrow> c \<noteq> ch_open_object \<and> c \<noteq> ch_open_array \<and> c \<noteq> ch_n \<and> c \<noteq> ch_t \<and> c \<noteq> ch_f \<and> c \<noteq> ch_quote \<and> c \<noteq> ch_apostrophe"
  by (auto simp: starts_number_def is_digit_def)

lemma literal_parses:
  assumes c: "kw = c # cs" "stops_trivia kw" "c \<noteq> ch_open_object" "c \<noteq> ch_open_array"
    and s: "\<And>q. jp_at q = c \<Longrightarrow> parse_scalar D flags q = Some (parse_literal kw v q)"
    and v: "\<And>n. text_value D pretty n v = kw" "json_equal v v = Some True"
  shows "parses D pretty flags v"
  unfolding parses_def
proof (intro allI impI)
  fix p ws n bs
  assume a: "at_input p (ws @ text_value D pretty n v @ bs)" "whitespace ws" "stops number_char bs"
  have st: "stops_trivia (kw @ bs)" using c(1,2) by (simp add: stops_trivia_def stops_def)
  have q: "at_input (skip_trivia flags p) (kw @ bs)"
    using a st unfolding v(1) by (intro skip_trivia_at)
  then obtain p' where "parse_literal kw v (skip_trivia flags p) = (Some v, p')" "at_input p' bs"
    using parse_literal_at [of _ kw bs v] c(1) by blast
  moreover have "json_run D flags Parse_value p = parse_scalar D flags (skip_trivia flags p)"
      "jp_at (skip_trivia flags p) = c"
    using q run_scalar [of flags p c "cs @ bs" D] at_input_Cons(2) [of _ c "cs @ bs"] c by simp_all
  ultimately show "\<exists>v' p'. json_run D flags Parse_value p = Some (Some v', p') \<and> json_equal v v' = Some True \<and> at_input p' bs"
    using s v(2) by auto
qed

lemma plain_parses: "json_plain D v \<Longrightarrow> parses D pretty flags v"
proof (induction v rule: printable.induct)
  case (3 xs cap)
  show ?case
    unfolding parses_def
  proof (intro allI impI)
    fix p ws n bs
    assume a: "at_input p (ws @ text_value D pretty n (J_array xs cap) @ bs)" "whitespace ws" "stops number_char bs"
    let ?fin = "(newline_text pretty @ indent_text pretty n) @ ch_close_array # bs"
    have e: "text_value D pretty n (J_array xs cap) @ bs =
        ch_open_array # newline_text pretty @ text_elements D pretty (n + 1) True xs @ ?fin"
      by (simp add: container_text_def)
    have "at_input (skip_trivia flags p) (ch_open_array # newline_text pretty @ text_elements D pretty (n + 1) True xs @ ?fin)"
      using a(1,2) value_head_stops(1) [of ch_open_array] unfolding e by (intro skip_trivia_at) (simp_all add: value_head_def)
    then obtain q where q: "at_input q (newline_text pretty @ text_elements D pretty (n + 1) True xs @ ?fin)"
        "json_run D flags Parse_value p = json_run D flags (Parse_elements [] 0) q"
      using run_container(2) by blast
    show "\<exists>v' p'. json_run D flags Parse_value p = Some (Some v', p') \<and> json_equal (J_array xs cap) v' = Some True \<and> at_input p' bs"
    proof (cases xs)
      case Nil
      then show ?thesis
        using elements_end [of q "newline_text pretty @ newline_text pretty @ indent_text pretty n" bs D flags "[]" 0] q layout_whitespace
        by auto
    next
      case (Cons x ys)
      have "\<exists>zs cap' p'. json_run D flags (Parse_elements [] 0) q = Some (Some (J_array ([] @ zs) cap'), p') \<and>
          length zs = length (x # ys) \<and> equal_elements (x # ys) zs = Some True \<and> at_input p' bs"
        using q(1) 3 Cons layout_whitespace
        by (intro elements_run [of x ys D pretty flags q "newline_text pretty @ indent_text pretty (n + 1)" "n + 1"
              "newline_text pretty @ indent_text pretty n"]) (auto simp: child_text_def)
      then show ?thesis using q(2) Cons by fastforce
    qed
  qed
next
  case (2 es cap)
  show ?case
    unfolding parses_def
  proof (intro allI impI)
    fix p ws n bs
    assume a: "at_input p (ws @ text_value D pretty n (J_object es cap) @ bs)" "whitespace ws" "stops number_char bs"
    have es: "es = []" using 2(3) by simp
    let ?ws = "newline_text pretty @ newline_text pretty @ indent_text pretty n"
    have e: "text_value D pretty n (J_object es cap) @ bs = ch_open_object # ?ws @ ch_close_object # bs"
      by (simp add: container_text_def es)
    have "at_input (skip_trivia flags p) (ch_open_object # ?ws @ ch_close_object # bs)"
      using a(1,2) value_head_stops(1) [of ch_open_object] unfolding e by (intro skip_trivia_at) (simp_all add: value_head_def)
    then obtain q where q: "at_input q (?ws @ ch_close_object # bs)"
        "json_run D flags Parse_value p = json_run D flags (Parse_members [] 0) q"
      using run_container(1) by blast
    then show "\<exists>v' p'. json_run D flags Parse_value p = Some (Some v', p') \<and> json_equal (J_object es cap) v' = Some True \<and> at_input p' bs"
      using members_end [OF q(1)] layout_whitespace es by fastforce
  qed
next
  case (6 d i k)
  then have dk: "i" "d = of_int64 D k" by simp_all
  show ?case
    unfolding parses_def
  proof (intro allI impI)
    fix p ws n bs
    assume a: "at_input p (ws @ text_value D pretty n (J_number d i k) @ bs)" "whitespace ws" "stops number_char bs"
    obtain c s where c: "print_lld k = c # s" "starts_number c" using print_lld_head by blast
    then have "value_head c" by (simp add: value_head_def)
    then have q: "at_input (skip_trivia flags p) (print_lld k @ bs)"
      using a(1,2) dk c(1) value_head_stops(1) by (intro skip_trivia_at [of p ws]) (simp_all add: number_text_def)
    then have "json_run D flags Parse_value p = parse_scalar D flags (skip_trivia flags p)" "jp_at (skip_trivia flags p) = c"
      using run_scalar [of flags p c "s @ bs" D] at_input_Cons(2) [of _ c "s @ bs"] starts_number_cases [OF c(2)] c(1) by simp_all
    then show "\<exists>v' p'. json_run D flags Parse_value p = Some (Some v', p') \<and> json_equal (J_number d i k) v' = Some True \<and> at_input p' bs"
      using parse_number_at [OF q a(3), of D] starts_number_cases [OF c(2)] c(2) dk by (auto simp: parse_scalar_def)
  qed
next
  case 4
  show ?case
    by (rule literal_parses [of "ascii ''null''" ch_n "ascii ''ull''"])
      (simp_all add: ascii_def parse_scalar_def stops_trivia_def stops_def is_whitespace_def)
next
  case (5 b)
  show ?case
  proof (cases b)
    case True
    show ?thesis
      by (rule literal_parses [of "ascii ''true''" ch_t "ascii ''rue''"])
        (simp_all add: True ascii_def parse_scalar_def stops_trivia_def stops_def is_whitespace_def)
  next
    case False
    show ?thesis
      by (rule literal_parses [of "ascii ''false''" ch_f "ascii ''alse''"])
        (simp_all add: False ascii_def parse_scalar_def stops_trivia_def stops_def is_whitespace_def)
  qed
qed auto

section \<open>Printing and parsing again\<close>

definition json_input :: "(nat \<Rightarrow> nat \<Rightarrow> bool) \<Rightarrow> u8 list \<Rightarrow> nat \<Rightarrow> json_parser" where
  "json_input alloc s n = \<lparr>jp_input = s, jp_position = 0, jp_length = n, jp_root = None, jp_error = None,
     jp_error_position = 0, jp_alloc = alloc, jp_calls = 0, jp_live = 0\<rparr>"

lemma parser_init_string:
  assumes "0 \<notin> set t"
  shows "mp_json_parser_init_with_allocator malloc (Some p) (Some (t @ 0 # junk)) (Some alloc) =
    Some (0, Some (json_input alloc (t @ 0 # junk) (length t)))"
  using c_strlen_first [of "length t" "t @ 0 # junk"] assms
  by (simp add: mp_json_parser_init_with_allocator_def json_input_def)

lemma at_json_input: "(\<And>k n. alloc k n) \<Longrightarrow> at_input (json_input alloc (t @ 0 # junk) (length t)) t"
  by (simp add: at_input_def json_input_def)

lemma parse_json_input:
  "mp_json_parse D (Some (json_input alloc s n)) flags =
     do { (oval, p1) \<leftarrow> json_run D flags Parse_value (json_input alloc s n);
          case oval of None \<Rightarrow> Some (None, Some p1)
          | Some val \<Rightarrow>
              if jp_more (skip_trivia flags p1)
              then Some (None, Some (json_release (mp_json_free (Some val)) (error_here ''Unexpected trailing data'' (skip_trivia flags p1))))
              else Some (Some val, Some ((skip_trivia flags p1)\<lparr>jp_root := Some val\<rparr>)) }"
  unfolding mp_json_parse_def parse_value_def json_input_def skip_trivia_def Let_def by simp

lemma at_input_end: "at_input p [] \<Longrightarrow> \<not> jp_more (skip_trivia flags p) \<and> jp_error (skip_trivia flags p) = None"
proof -
  assume "at_input p []"
  then have "at_input (skip_trivia flags p) []"
    using skip_trivia_at [of p "[]" "[]" flags] layout_whitespace(3) by (simp add: stops_trivia_def stops_def)
  then show ?thesis using at_input_Nil by (auto simp: at_input_def)
qed

text \<open>C18.  What the generator prints the parser reads back: for a value of nulls, booleans, integers, arrays and empty
  objects, \<open>mp_json_to_string\<close>, compact or pretty, returns a string that the parser accepts under all flags, and
  \<open>mp_json_equal\<close> finds the result equal to the value.\<close>

theorem json_print_parse_roundtrip:
  assumes v: "json_plain (env_double E) v"
    and E: "good_realloc (env_realloc E)" "\<And>n. env_strdup E n" "\<And>d. 0 \<notin> set (show_15g (env_double E) d)"
    and small: "length (text_value (env_double E) (gflags AND MP_JSON_GEN_PRETTY \<noteq> 0) 0 v) < 2 ^ 30"
    and alloc: "\<And>k n. alloc k n"
  shows "\<exists>t p0 v' p'. mp_json_to_string E (Some v) gflags = Some (Some t) \<and>
    mp_json_parser_init_with_allocator malloc (Some p) (Some (t @ 0 # junk)) (Some alloc) = Some (0, Some p0) \<and>
    mp_json_parse (env_double E) (Some p0) flags = Some (Some v', Some p') \<and>
    mp_json_equal (Some v) (Some v') = Some True \<and> mp_json_parser_get_error (Some p') = None"
proof -
  define t where "t = text_value (env_double E) (gflags AND MP_JSON_GEN_PRETTY \<noteq> 0) 0 v"
  have s: "mp_json_to_string E (Some v) gflags = Some (Some t)"
    unfolding t_def using json_to_string_text [OF plain_printable [OF v] E small] .
  have "0 \<notin> set t" using text_nonzero(1) [OF E(3)] by (simp add: t_def)
  note i = parser_init_string [OF this, of malloc p junk alloc]
  have "at_input (json_input alloc (t @ 0 # junk) (length t)) ([] @ t @ [])"
    using at_json_input [OF alloc] by simp
  then obtain v' p' where r: "json_run (env_double E) flags Parse_value (json_input alloc (t @ 0 # junk) (length t)) = Some (Some v', p')"
      "json_equal v v' = Some True" "at_input p' []"
    using parsesD [OF plain_parses [OF v], of _ "[]"] layout_whitespace(3) unfolding t_def stops_def by blast
  have "mp_json_parse (env_double E) (Some (json_input alloc (t @ 0 # junk) (length t))) flags =
      Some (Some v', Some ((skip_trivia flags p')\<lparr>jp_root := Some v'\<rparr>))"
    using r(1) at_input_end [OF r(3)] by (simp add: parse_json_input)
  then show ?thesis
    using s i r(2) at_input_end [OF r(3)] by (simp add: mp_json_equal_def mp_json_parser_get_error_def)
qed

lemma json_print_parse_roundtrip_witness:
  "\<exists>t p0 v' p'. mp_json_to_string plain_env (Some (J_array [J_number 5 True 5, J_null] 8)) 1 = Some (Some t) \<and>
    mp_json_parser_init_with_allocator (\<lambda>k n. True) (Some (json_input (\<lambda>k n. True) [] 0)) (Some (t @ 0 # [])) (Some (\<lambda>k n. True)) =
      Some (0, Some p0) \<and>
    mp_json_parse (env_double plain_env) (Some p0) 0 = Some (Some v', Some p') \<and>
    mp_json_equal (Some (J_array [J_number 5 True 5, J_null] 8)) (Some v') = Some True \<and>
    mp_json_parser_get_error (Some p') = None"
proof (rule json_print_parse_roundtrip)
  show "json_plain (env_double plain_env) (J_array [J_number 5 True 5, J_null] 8)"
    by (simp add: plain_env_def plain_double_def)
  show "good_realloc (env_realloc plain_env)" by (simp add: plain_env_def grow_with_zeros_good)
  show "env_strdup plain_env n" for n by (simp add: plain_env_def)
  show "0 \<notin> set (show_15g (env_double plain_env) d)" for d by (simp add: plain_env_def plain_double_def)
  show "length (text_value (env_double plain_env) (1 AND MP_JSON_GEN_PRETTY \<noteq> 0) 0 (J_array [J_number 5 True 5, J_null] 8)) < 2 ^ 30"
    by (simp add: MP_JSON_GEN_PRETTY_def container_text_def newline_text_def indent_text_def child_text_def ascii_def
        number_text_def print_lld_def decimal.simps)
qed simp

section \<open>Strings are not parsed\<close>

lemma double_quote_rejected:
  assumes "at_input q (ch_quote # bs)"
  shows "parse_scalar D flags q = Some (None, error_here ''Expected string'' q)"
  using at_input_Cons(1,2) [OF assms] by (simp add: parse_scalar_def parse_string_def)

lemma run_quote:
  assumes "at_input p (ws @ ch_quote # bs)" and "whitespace ws"
  shows "json_run D flags Parse_value p = Some (None, error_here ''Expected string'' (skip_trivia flags p))"
proof -
  have "at_input (skip_trivia flags p) (ch_quote # bs)"
    using assms by (intro skip_trivia_at) (simp_all add: stops_trivia_def stops_def is_whitespace_def)
  then show ?thesis using run_scalar [of flags p ch_quote bs D] double_quote_rejected by simp
qed

text \<open>The texts that are a string, or an object whose first key is one.\<close>

fun needs_string :: "json \<Rightarrow> bool" where
  "needs_string (J_string s n own) = (s \<noteq> None)"
| "needs_string (J_object ((J_string s n own, v) # es) cap) = (s \<noteq> None)"
| "needs_string _ = False"

text \<open>No double-quoted string is ever parsed: the test of \<open>parse_string\<close> accepts only an apostrophe, whatever the
  flags.  So the text that \<open>mp_json_to_string\<close> produces for a string, or for any object with a member, is rejected with
  \<open>Expected string\<close> by the library's own parser.\<close>

theorem json_strings_rejected:
  assumes "printable v" "needs_string v"
    and E: "good_realloc (env_realloc E)" "\<And>n. env_strdup E n" "\<And>d. 0 \<notin> set (show_15g (env_double E) d)"
    and small: "length (text_value (env_double E) (gflags AND MP_JSON_GEN_PRETTY \<noteq> 0) 0 v) < 2 ^ 30"
    and alloc: "\<And>k n. alloc k n"
  shows "\<exists>t p0 p'. mp_json_to_string E (Some v) gflags = Some (Some t) \<and>
    mp_json_parser_init_with_allocator malloc (Some p) (Some (t @ 0 # junk)) (Some alloc) = Some (0, Some p0) \<and>
    mp_json_parse (env_double E) (Some p0) flags = Some (None, Some p') \<and>
    mp_json_parser_get_error (Some p') = Some ''Expected string''"
proof -
  define t where "t = text_value (env_double E) (gflags AND MP_JSON_GEN_PRETTY \<noteq> 0) 0 v"
  have s: "mp_json_to_string E (Some v) gflags = Some (Some t)"
    unfolding t_def using json_to_string_text [OF assms(1) E small] .
  have "0 \<notin> set t" using text_nonzero(1) [OF E(3)] by (simp add: t_def)
  note i = parser_init_string [OF this, of malloc p junk alloc]
  define q where "q = json_input alloc (t @ 0 # junk) (length t)"
  have at: "at_input q t" unfolding q_def using at_json_input [OF alloc] .
  have "\<exists>p'. json_run (env_double E) flags Parse_value q = Some (None, p') \<and> jp_error p' = Some ''Expected string''"
    using assms(2)
  proof (cases v rule: needs_string.cases)
    case (1 s n own)
    then obtain bs where "t = ch_quote # bs" using assms(2) by (auto simp: t_def string_text_def)
    then show ?thesis using run_quote [of q "[]" bs] at layout_whitespace(3) by (auto simp: jp_simps)
  next
    case (2 s n own w es cap)
    let ?P = "gflags AND MP_JSON_GEN_PRETTY \<noteq> 0"
    obtain bs where t: "t = ch_open_object # (newline_text ?P @ indent_text ?P 1) @ ch_quote # bs"
      using 2 assms(2) by (auto simp: t_def container_text_def child_text_def string_text_def)
    have "at_input (skip_trivia flags q) (ch_open_object # (newline_text ?P @ indent_text ?P 1) @ ch_quote # bs)"
      using skip_trivia_at [of q "[]" t flags] at layout_whitespace(3) value_head_stops(1) [of ch_open_object]
      by (simp add: t value_head_def)
    then obtain q1 where q1: "at_input q1 ((newline_text ?P @ indent_text ?P 1) @ ch_quote # bs)"
        "json_run (env_double E) flags Parse_value q = json_run (env_double E) flags (Parse_members [] 0) q1"
      using run_container(1) by blast
    have q2: "at_input (skip_trivia flags q1) (ch_quote # bs)"
      using layout_whitespace
      by (intro skip_trivia_at [OF q1(1)]) (simp_all add: stops_trivia_def stops_def is_whitespace_def)
    then have "container_end ch_close_object ''Unterminated object'' (skip_trivia flags q1) = None"
      using at_input_Cons(1,2) [OF q2] by (simp add: container_end_def)
    moreover have "json_run (env_double E) flags Parse_value (skip_trivia flags q1) =
        Some (None, error_here ''Expected string'' (skip_trivia flags (skip_trivia flags q1)))"
      using run_quote [of "skip_trivia flags q1" "[]" bs] q2 layout_whitespace(3) by simp
    ultimately show ?thesis unfolding q1(2) by (subst (1) json_run.simps) (simp add: Let_def jp_simps)
  qed simp_all
  then obtain p' where "json_run (env_double E) flags Parse_value q = Some (None, p')" "jp_error p' = Some ''Expected string''"
    by blast
  then have "mp_json_parse (env_double E) (Some q) flags = Some (None, Some p')"
    unfolding q_def by (simp add: parse_json_input)
  then show ?thesis
    using s i \<open>jp_error p' = Some ''Expected string''\<close> by (simp add: q_def mp_json_parser_get_error_def)
qed

lemma json_strings_rejected_witness:
  "\<exists>t p0 p'. mp_json_to_string plain_env (Some (J_string (Some [0x61, 0]) 1 True)) 0 = Some (Some t) \<and>
    mp_json_parser_init_with_allocator (\<lambda>k n. True) (Some (json_input (\<lambda>k n. True) [] 0)) (Some (t @ 0 # [])) (Some (\<lambda>k n. True)) =
      Some (0, Some p0) \<and>
    mp_json_parse (env_double plain_env) (Some p0) 4 = Some (None, Some p') \<and>
    mp_json_parser_get_error (Some p') = Some ''Expected string''"
proof (rule json_strings_rejected)
  show "printable (J_string (Some [0x61, 0]) 1 True)" "needs_string (J_string (Some [0x61, 0]) 1 True)" by simp_all
  show "good_realloc (env_realloc plain_env)" by (simp add: plain_env_def grow_with_zeros_good)
  show "env_strdup plain_env n" for n by (simp add: plain_env_def)
  show "0 \<notin> set (show_15g (env_double plain_env) d)" for d by (simp add: plain_env_def plain_double_def)
  show "length (text_value (env_double plain_env) (0 AND MP_JSON_GEN_PRETTY \<noteq> 0) 0 (J_string (Some [0x61, 0]) 1 True)) < 2 ^ 30"
    by (simp add: string_text_def escape_char_def unicode_escape_def)
qed simp

section \<open>Texts that are no JSON and are accepted\<close>

lemma skip_comma_at:
  "at_input p bs \<Longrightarrow> stops is_whitespace bs \<Longrightarrow> stops (\<lambda>c. c = ch_comma) bs \<Longrightarrow> at_input (skip_comma p) bs"
proof -
  assume a: "at_input p bs" "stops is_whitespace bs" "stops (\<lambda>c. c = ch_comma) bs"
  then have w: "at_input (skip_whitespace p) bs" using skip_whitespace_at [of p "[]" bs] layout_whitespace(3) by simp
  then have "\<not> jp_sees ch_comma (skip_whitespace p)"
    using a(3) at_input_Nil at_input_Cons(4) by (cases bs) (auto simp: stops_def jp_sees_def)
  then show ?thesis using w by (simp add: skip_comma_def Let_def)
qed

text \<open>An array that ends with the input is returned; only the error message tells.\<close>

theorem json_unterminated_array_accepted:
  assumes v: "json_plain D v" and alloc: "\<And>k n. alloc k n"
  shows "\<exists>v' cap p'. mp_json_parse D (Some (json_input alloc ((ch_open_array # text_value D False n v) @ 0 # junk)
      (length (ch_open_array # text_value D False n v)))) flags = Some (Some (J_array [v'] cap), Some p') \<and>
    json_equal v v' = Some True \<and> jp_error p' = Some ''Unterminated array''"
proof -
  let ?t = "ch_open_array # text_value D False n v"
  define q where "q = json_input alloc (?t @ 0 # junk) (length ?t)"
  have "at_input q ?t" unfolding q_def using at_json_input [OF alloc] .
  then have "at_input (skip_trivia flags q) ?t"
    using skip_trivia_at [of q "[]" ?t flags] layout_whitespace(3) value_head_stops(1) [of ch_open_array] by (simp add: value_head_def)
  then obtain q1 where q1: "at_input q1 (text_value D False n v)"
      "json_run D flags Parse_value q = json_run D flags (Parse_elements [] 0) q1"
    using run_container(2) by blast
  have "at_input q1 ([] @ text_value D False n v @ [])" using q1(1) by simp
  moreover have "stops number_char []" by (simp add: stops_def)
  ultimately obtain v' cap p' where s: "json_equal v v' = Some True" "at_input p' []"
      "json_run D flags (Parse_elements [] 0) q1 = json_run D flags (Parse_elements [v'] cap) (skip_comma p')"
    using element_step [OF plain_parses [OF v] v _ layout_whitespace(3), of q1 False n "[]" flags "[]" 0] by auto
  have c: "at_input (skip_comma p') []" using skip_comma_at [OF s(2)] by (simp add: stops_def)
  have m: "\<not> jp_more (skip_trivia flags (skip_comma p'))" using at_input_end [OF c] by simp
  have r: "json_run D flags Parse_value q =
      Some (Some (J_array [v'] cap), error_here ''Unterminated array'' (skip_trivia flags (skip_comma p')))"
    unfolding q1(2) s(3) using m by (subst json_run.simps) (simp add: Let_def container_end_def)
  have i: "inside (error_here ''Unterminated array'' (skip_trivia flags (skip_comma p')))"
    using follows_inside [OF conjunct1 [OF skip_trivia_follows]] c
    by (auto simp: at_input_def inside_def jp_simps)
  define p2 where "p2 = error_here ''Unterminated array'' (skip_trivia flags (skip_comma p'))"
  have "jp_position p2 = jp_length p2"
    using m i by (simp add: p2_def jp_more_def inside_def jp_simps)
  then have st: "skip_trivia flags p2 = p2"
    by (simp add: skip_trivia_def skip_whitespace_def skip_while.simps comments_loop.simps [of flags] skip_comments_def)
  have "mp_json_parse D (Some q) flags = Some (Some (J_array [v'] cap), Some (p2\<lparr>jp_root := Some (J_array [v'] cap)\<rparr>))"
    using r st \<open>jp_position p2 = jp_length p2\<close> unfolding q_def parse_json_input p2_def [symmetric] by (simp add: jp_more_def)
  then show ?thesis using s(1) by (simp add: q_def p2_def jp_simps)
qed

lemma json_unterminated_array_accepted_witness:
  "\<exists>v' cap p'. mp_json_parse plain_double (Some (json_input (\<lambda>k n. True) ((ch_open_array # text_value plain_double False 0 J_null) @ 0 # [])
      (length (ch_open_array # text_value plain_double False 0 J_null)))) 0 = Some (Some (J_array [v'] cap), Some p') \<and>
    json_equal J_null v' = Some True \<and> jp_error p' = Some ''Unterminated array''"
  by (rule json_unterminated_array_accepted) simp_all

text \<open>The comma between two elements may be missing, whatever the flags: a space will do.\<close>

theorem json_missing_comma_accepted:
  assumes v: "json_plain D v" "json_plain D w" and alloc: "\<And>k n. alloc k n"
    and t: "t = ch_open_array # text_value D False n v @ [ch_space] @ text_value D False n w @ [ch_close_array]"
  shows "\<exists>v' w' cap p'. mp_json_parse D (Some (json_input alloc (t @ 0 # junk) (length t))) flags =
      Some (Some (J_array [v', w'] cap), Some p') \<and>
    json_equal v v' = Some True \<and> json_equal w w' = Some True \<and> jp_error p' = None"
proof -
  define q where "q = json_input alloc (t @ 0 # junk) (length t)"
  let ?t2 = "text_value D False n w @ [ch_close_array]"
  have "at_input q (ch_open_array # text_value D False n v @ [ch_space] @ ?t2)"
    unfolding t [symmetric] q_def using at_json_input [OF alloc] .
  then have "at_input (skip_trivia flags q) (ch_open_array # text_value D False n v @ [ch_space] @ ?t2)"
    using skip_trivia_at [of q "[]"] layout_whitespace(3) value_head_stops(1) [of ch_open_array] by (simp add: value_head_def)
  then obtain q1 where q1: "at_input q1 (text_value D False n v @ [ch_space] @ ?t2)"
      "json_run D flags Parse_value q = json_run D flags (Parse_elements [] 0) q1"
    using run_container(2) by blast
  have sp: "stops number_char ([ch_space] @ ?t2)" "whitespace [ch_space]"
    by (simp_all add: stops_def number_char_def is_digit_def whitespace_def is_whitespace_def)
  obtain v' cap p' where s: "json_equal v v' = Some True" "at_input p' ([ch_space] @ ?t2)"
      "json_run D flags (Parse_elements [] 0) q1 = json_run D flags (Parse_elements [v'] cap) (skip_comma p')"
    using element_step [OF plain_parses [OF v(1)] v(1) _ layout_whitespace(3) sp(1), of q1 False n flags "[]" 0] q1(1) by auto
  obtain c cs where c: "text_value D False n w = c # cs" "value_head c" using text_head [OF v(2)] by blast
  have "at_input (skip_whitespace p') ?t2"
    using skip_whitespace_at [OF s(2) sp(2)] c value_head_stops(1) [OF c(2)] by (simp add: stops_trivia_def)
  moreover have "c \<noteq> ch_comma" using c(2) by (auto simp: value_head_def starts_number_def is_digit_def)
  ultimately have c2: "at_input (skip_comma p') ([] @ text_value D False n w @ [ch_close_array])"
    using at_input_Cons(4) [of "skip_whitespace p'" c] c(1) by (simp add: skip_comma_def Let_def)
  obtain w' cap' p2 where s2: "json_equal w w' = Some True" "at_input p2 [ch_close_array]"
      "json_run D flags (Parse_elements [v'] cap) (skip_comma p') = json_run D flags (Parse_elements [v', w'] cap') (skip_comma p2)"
    using element_step [OF plain_parses [OF v(2)] v(2) c2 layout_whitespace(3), of flags "[v']" cap] separators_stop(2)
    by (auto simp: stops_def)
  have "at_input (skip_comma p2) ([] @ ch_close_array # [])"
    using skip_comma_at [OF s2(2)] by (simp add: stops_def is_whitespace_def)
  then obtain p3 where e: "json_run D flags (Parse_elements [v', w'] cap') (skip_comma p2) = Some (Some (J_array [v', w'] cap'), p3)"
      "at_input p3 []"
    using elements_end [OF _ layout_whitespace(3)] by blast
  have "mp_json_parse D (Some q) flags = Some (Some (J_array [v', w'] cap'), Some ((skip_trivia flags p3)\<lparr>jp_root := Some (J_array [v', w'] cap')\<rparr>))"
    using q1(2) s(3) s2(3) e(1) at_input_end [OF e(2)] unfolding q_def by (simp add: parse_json_input)
  then show ?thesis using s(1) s2(1) at_input_end [OF e(2)] by (simp add: q_def)
qed

text \<open>The characters of a number are collected in any order, and \<open>strtoll\<close> stops where they make no sense: \<open>1-2\<close> is 1.\<close>

lemma json_number_tail_ignored: "number_value D (ascii ''1-2'') = J_number (of_int64 D 1) True 1"
  by (simp add: number_value_def ascii_def c_strtoll_def clamp_int64_def is_digit_def)

end
