(* ===== verification/Json_Objects.thy ===== *)
theory Json_Objects
  imports Json_Correct
begin

text \<open>
  Objects as dictionaries: the operations on objects refine those of an association list in which the first entry of a
  key counts.  Copies and comparison: a deep copy is equal to the original, and leaks two blocks for each member.
\<close>

section \<open>Objects as association lists\<close>

fun key_chars :: "json \<Rightarrow> u8 list option" where
  "key_chars (J_string s n own) = c_str s"
| "key_chars _ = None"

text \<open>The entries of an object with their keys as strings; \<^term>\<open>None\<close> when a key is not a terminated string.\<close>

fun assoc_of :: "(json \<times> json) list \<Rightarrow> (u8 list \<times> json) list option" where
  "assoc_of [] = Some []"
| "assoc_of ((k, v) # es) = do { s \<leftarrow> key_chars k; al \<leftarrow> assoc_of es; Some ((s, v) # al) }"

fun object_entries :: "json \<Rightarrow> (u8 list \<times> json) list option" where
  "object_entries (J_object es cap) = assoc_of es"
| "object_entries _ = None"

fun delete_first :: "'k \<Rightarrow> ('k \<times> 'v) list \<Rightarrow> ('k \<times> 'v) list" where
  "delete_first k [] = []"
| "delete_first k ((j, v) # al) = (if j = k then al else (j, v) # delete_first k al)"

text \<open>
  What a client of a dictionary relies on: lookups return the first entry, additions go to the end, and a removal takes
  the first entry of a key out.  \<open>valid\<close> are the keys the client may use.
\<close>

locale dictionary =
  fixes entries :: "'o \<Rightarrow> ('k \<times> 'v) list option"
    and valid :: "'k \<Rightarrow> bool"
    and lookup :: "'o \<Rightarrow> 'k \<Rightarrow> 'v option option"
    and add :: "'o \<Rightarrow> 'k \<Rightarrow> 'v \<Rightarrow> 'o \<Rightarrow> bool"
    and take_out :: "'o \<Rightarrow> 'k \<Rightarrow> ('v option \<times> 'o) option"
  assumes lookup_entries: "entries d = Some al \<Longrightarrow> valid k \<Longrightarrow> lookup d k = Some (map_of al k)"
    and add_entries: "entries d = Some al \<Longrightarrow> valid k \<Longrightarrow> add d k v d' \<Longrightarrow> entries d' = Some (al @ [(k, v)])"
    and take_out_entries: "entries d = Some al \<Longrightarrow> valid k \<Longrightarrow>
      \<exists>d'. take_out d k = Some (map_of al k, d') \<and> entries d' = Some (delete_first k al)"
begin

lemma lookup_added:
  assumes "entries d = Some al" "valid k" "add d k v d'"
  shows "lookup d' k = Some (Some (case map_of al k of None \<Rightarrow> v | Some w \<Rightarrow> w))"
  using lookup_entries [OF add_entries [OF assms] assms(2)] by (simp add: map_add_def split: option.splits)

lemma lookup_other:
  assumes "entries d = Some al" "valid k" "add d k v d'" "valid j" "j \<noteq> k"
  shows "lookup d' j = lookup d j"
  using lookup_entries [OF add_entries [OF assms(1-3)] assms(4)] lookup_entries [OF assms(1,4)] assms(5)
  by (simp add: map_add_def split: option.splits)

lemma map_of_delete_other: "j \<noteq> k \<Longrightarrow> map_of (delete_first k al) j = map_of al j"
  by (induction k al rule: delete_first.induct) auto

lemma map_of_delete_same: "distinct (map fst al) \<Longrightarrow> map_of (delete_first k al) k = None"
  by (induction k al rule: delete_first.induct) (auto simp: map_of_eq_None_iff)

lemma lookup_taken:
  assumes "entries d = Some al" "valid k" "distinct (map fst al)"
  shows "\<exists>d'. take_out d k = Some (map_of al k, d') \<and> lookup d' k = Some None \<and>
    (\<forall>j. valid j \<longrightarrow> j \<noteq> k \<longrightarrow> lookup d' j = lookup d j)"
proof -
  obtain d' where d': "take_out d k = Some (map_of al k, d')" "entries d' = Some (delete_first k al)"
    using take_out_entries [OF assms(1,2)] by blast
  then show ?thesis
    using lookup_entries [OF d'(2)] lookup_entries [OF assms(1)] assms(2,3) map_of_delete_other map_of_delete_same
    by auto
qed

end

lemma c_str_zero: "0 \<notin> set k \<Longrightarrow> c_str (Some (k @ [0])) = Some k"
  using c_strlen_first [of "length k" "k @ [0]"] by (simp add: c_str_def)

lemma assoc_of_snoc:
  "assoc_of es = Some al \<Longrightarrow> key_chars k = Some s \<Longrightarrow> assoc_of (es @ [(k, v)]) = Some (al @ [(s, v)])"
  by (induction es arbitrary: al rule: assoc_of.induct) (auto split: bind_splits)

lemma find_member_assoc:
  assumes "assoc_of es = Some al" "0 \<notin> set k"
  shows "\<exists>r. find_member es (Some (k @ [0])) = Some r \<and> map_option (\<lambda>i. snd (es ! i)) r = map_of al k \<and>
    (\<forall>i. r = Some i \<longrightarrow> assoc_of (remove_at i es) = Some (delete_first k al)) \<and>
    (r = None \<longrightarrow> delete_first k al = al)"
  using assms(1)
proof (induction es arbitrary: al rule: assoc_of.induct)
  case 1
  then show ?case by simp
next
  case (2 key v es)
  obtain s al' where s: "key_chars key = Some s" and al: "assoc_of es = Some al'" "al = (s, v) # al'"
    using 2(2) by (auto split: bind_splits)
  obtain b n own where key: "key = J_string b n own" using s by (cases key) auto
  have eq: "str_equal b (Some (k @ [0])) = Some (s = k)"
    using s key c_str_zero [OF assms(2)] by (simp add: str_equal_def)
  obtain r where r: "find_member es (Some (k @ [0])) = Some r" "map_option (\<lambda>i. snd (es ! i)) r = map_of al' k"
      "\<forall>i. r = Some i \<longrightarrow> assoc_of (remove_at i es) = Some (delete_first k al')" "r = None \<longrightarrow> delete_first k al' = al'"
    using 2(1) [OF s al(1)] by blast
  show ?case
  proof (cases "s = k")
    case True
    then show ?thesis using key eq al by (simp add: remove_at_def)
  next
    case False
    have "assoc_of (remove_at (Suc i) ((key, v) # es)) = Some (delete_first k al)" if "r = Some i" for i
      using that r(3) s al False by (simp add: remove_at_def)
    then show ?thesis using False key eq al r s by (cases r) auto
  qed
qed

text \<open>An addition that succeeds, with some heap.\<close>

definition added :: "json \<Rightarrow> u8 list \<Rightarrow> json \<Rightarrow> json \<Rightarrow> bool" where
  "added d k v d' \<longleftrightarrow> (\<exists>h h'. mp_json_object_add_owning (Some d) (Some (k @ [0])) (Some v) h = Some (0, Some d', h'))"

definition removed :: "json \<Rightarrow> u8 list \<Rightarrow> (json option \<times> json) option" where
  "removed d k =
     do { (v, d', h) \<leftarrow> mp_json_object_remove (Some d) (Some (k @ [0])) \<lparr>jh_avail = (\<lambda>k n. True), jh_calls = 0, jh_live = 0\<rparr>;
          d'' \<leftarrow> d';
          Some (v, d'') }"

lemma add_member_success:
  assumes "add_member es cap (Some (k @ [0])) v h = Some (0, Some d', h')" "0 \<notin> set k"
  shows "d' = J_object (es @ [(J_string (Some (k @ [0])) (length k) True, v)]) cap"
  using assms c_strlen_first [of "length k" "k @ [0]"]
  by (auto simp: add_member_def mp_json_string_def mp_json_string_with_length_def mem_read_Some
      split: bind_splits option.splits prod.splits if_splits)

lemma object_add_success:
  assumes "mp_json_object_add_owning (Some (J_object es cap)) (Some (k @ [0])) (Some v) h = Some (0, Some d', h')" "0 \<notin> set k"
  shows "\<exists>cap'. d' = J_object (es @ [(J_string (Some (k @ [0])) (length k) True, v)]) cap'"
  using assms(1)
  by (auto simp: mp_json_object_add_owning_def split: if_splits prod.splits dest!: add_member_success [OF _ assms(2)])

lemma removed_any_heap:
  "removed d k = Some (v, d') \<Longrightarrow> \<exists>h'. mp_json_object_remove (Some d) (Some (k @ [0])) h = Some (v, Some d', h')"
  by (cases d) (auto simp: removed_def mp_json_object_remove_def split: bind_splits option.splits)

interpretation json_dict: dictionary object_entries "\<lambda>k. 0 \<notin> set k" "\<lambda>d k. mp_json_object_get (Some d) (Some (k @ [0]))" added removed
proof
  fix d al and k :: "u8 list"
  assume e: "object_entries d = Some al" and k: "0 \<notin> set k"
  obtain es cap where d: "d = J_object es cap" "assoc_of es = Some al" using e by (cases d) auto
  show "mp_json_object_get (Some d) (Some (k @ [0])) = Some (map_of al k)"
    using find_member_assoc [OF d(2) k] d(1) by (auto simp: mp_json_object_get_def)
  show "object_entries d' = Some (al @ [(k, v)])" if "added d k v d'" for v d'
    using that object_add_success [OF _ k] assoc_of_snoc [OF d(2), of "J_string (Some (k @ [0])) (length k) True" k v] c_str_zero [OF k] d(1)
    by (fastforce simp: added_def)
  show "\<exists>d'. removed d k = Some (map_of al k, d') \<and> object_entries d' = Some (delete_first k al)"
    using find_member_assoc [OF d(2) k] d by (fastforce simp: removed_def mp_json_object_remove_def split: option.splits)
qed

text \<open>Objects are dictionaries.  After a successful \<open>mp_json_object_add_owning\<close> of a key that was absent,
  \<open>mp_json_object_get\<close> returns the new value; of a key that was present, still the old one; other keys are unaffected.
  \<open>mp_json_object_remove\<close> returns the value of the key; when keys are distinct the key is absent afterwards and the
  others are unaffected.\<close>

theorem json_object_dictionary:
  assumes "assoc_of es = Some al" "0 \<notin> set k"
  shows "(\<forall>v h d' h'. mp_json_object_add_owning (Some (J_object es cap)) (Some (k @ [0])) (Some v) h = Some (0, Some d', h') \<longrightarrow>
      mp_json_object_get (Some d') (Some (k @ [0])) = Some (Some (case map_of al k of None \<Rightarrow> v | Some w \<Rightarrow> w)) \<and>
      (\<forall>j. 0 \<notin> set j \<longrightarrow> j \<noteq> k \<longrightarrow>
         mp_json_object_get (Some d') (Some (j @ [0])) = mp_json_object_get (Some (J_object es cap)) (Some (j @ [0])))) \<and>
    (distinct (map fst al) \<longrightarrow> (\<exists>d' h'. mp_json_object_remove (Some (J_object es cap)) (Some (k @ [0])) h = Some (map_of al k, Some d', h') \<and>
      mp_json_object_get (Some d') (Some (k @ [0])) = Some None \<and>
      (\<forall>j. 0 \<notin> set j \<longrightarrow> j \<noteq> k \<longrightarrow>
         mp_json_object_get (Some d') (Some (j @ [0])) = mp_json_object_get (Some (J_object es cap)) (Some (j @ [0])))))"
proof -
  have e: "object_entries (J_object es cap) = Some al" using assms(1) by simp
  show ?thesis
    using json_dict.lookup_added [OF e assms(2)] json_dict.lookup_other [OF e assms(2)]
      json_dict.lookup_taken [OF e assms(2)] removed_any_heap [of "J_object es cap" k _ _ h]
    unfolding added_def by blast
qed

lemma json_object_dictionary_witness:
  "\<exists>d' h'. mp_json_object_remove (Some (J_object [(J_string (Some [0x61, 0]) 1 True, J_null)] 8)) (Some [0x61, 0])
      \<lparr>jh_avail = (\<lambda>k n. True), jh_calls = 0, jh_live = 4\<rparr> = Some (Some J_null, Some d', h') \<and>
    mp_json_object_get (Some d') (Some [0x61, 0]) = Some None"
  using json_object_dictionary [of "[(J_string (Some [0x61, 0]) 1 True, J_null)]" "[([0x61], J_null)]" "[0x61]" 8
      "\<lparr>jh_avail = (\<lambda>k n. True), jh_calls = 0, jh_live = 4\<rparr>"] c_str_zero [of "[0x61]"]
  by auto

section \<open>Copies\<close>

text \<open>A heap whose allocations succeed.\<close>

definition heap_works :: "json_heap \<Rightarrow> bool" where
  "heap_works h \<longleftrightarrow> (\<forall>k n. jh_avail h k n)"

text \<open>A key as \<open>mp_json_string\<close> makes them: a terminated string of its length without zero bytes.\<close>

fun plain_key :: "json \<Rightarrow> bool" where
  "plain_key (J_string (Some t) n own) = (t = take n t @ [0] \<and> 0 \<notin> set (take n t) \<and> length t = n + 1)"
| "plain_key _ = False"

text \<open>What \<open>mp_json_deep_copy\<close> copies faithfully: keys are plain and distinct, and no number is a NaN.\<close>

function copyable :: "json \<Rightarrow> bool" where
  "copyable (J_object es cap) = ((\<forall>(k, v) \<in> set es. plain_key k \<and> copyable v) \<and> distinct (map (key_chars \<circ> fst) es))"
| "copyable (J_array xs cap) = (\<forall>x \<in> set xs. copyable x)"
| "copyable (J_string s n own) = (case s of None \<Rightarrow> False | Some t \<Rightarrow> n \<le> length t)"
| "copyable (J_number d i n) = (i \<or> \<not> is_nan d)"
| "copyable J_null = True"
| "copyable (J_boolean b) = True"
| "copyable J_error = False"
  by pat_completeness auto

termination copyable
  by (relation "measure size") (auto dest: in_set_size in_set_size_list)

text \<open>The number of members of all objects of a value.\<close>

function count_members :: "json \<Rightarrow> nat" and members_in :: "(json \<times> json) list \<Rightarrow> nat" and elements_in :: "json list \<Rightarrow> nat" where
  "count_members (J_object es cap) = members_in es"
| "count_members (J_array xs cap) = elements_in xs"
| "count_members (J_string s n own) = 0"
| "count_members (J_number d i n) = 0"
| "count_members J_null = 0"
| "count_members (J_boolean b) = 0"
| "count_members J_error = 0"
| "members_in [] = 0"
| "members_in ((k, v) # es) = 1 + count_members v + members_in es"
| "elements_in [] = 0"
| "elements_in (x # xs) = count_members x + elements_in xs"
  by pat_completeness auto

termination count_members
  by (relation "measure (case_sum size (case_sum (size_list (size_prod size size)) (size_list size)))") auto

definition copies :: "c_double \<Rightarrow> json \<Rightarrow> bool" where
  "copies D v \<longleftrightarrow> (\<forall>h. heap_works h \<longrightarrow> (\<exists>c h'. deep_copy D v h = Some (Some c, h') \<and> heap_works h' \<and>
     json_equal v c = Some True \<and> jh_live h' = jh_live h + int (json_blocks c) + 2 * int (count_members v)))"

lemma copiesD:
  "copies D v \<Longrightarrow> heap_works h \<Longrightarrow> \<exists>c h'. deep_copy D v h = Some (Some c, h') \<and> heap_works h' \<and>
     json_equal v c = Some True \<and> jh_live h' = jh_live h + int (json_blocks c) + 2 * int (count_members v)"
  unfolding copies_def by blast

lemma new_value_works:
  "heap_works h \<Longrightarrow> \<exists>h'. new_value v h = (Some v, h') \<and> heap_works h' \<and> jh_live h' = jh_live h + 1"
  by (auto simp: new_value_def jh_malloc_def heap_works_def)

lemma string_works:
  "heap_works h \<Longrightarrow> n \<le> length t \<Longrightarrow>
   \<exists>h'. mp_json_string_with_length (Some t) n h = Some (Some (J_string (Some (take n t @ [0])) n True), h') \<and>
     heap_works h' \<and> jh_live h' = jh_live h + 2"
  by (auto simp: mp_json_string_with_length_def jh_malloc_def heap_works_def mem_read_Some)

lemma array_add_works:
  assumes "heap_works h"
  shows "\<exists>cap' h'. mp_json_array_add (Some (J_array xs cap)) (Some v) h = (0, Some (J_array (xs @ [v]) cap'), h') \<and>
    heap_works h' \<and> jh_live h' + int (json_blocks (J_array xs cap)) + int (json_blocks v) =
      jh_live h + int (json_blocks (J_array (xs @ [v]) cap'))"
  using assms
  by (auto simp: mp_json_array_add_def jh_realloc_def heap_works_def element_blocks_snoc grown_capacity_def)

lemma object_add_works:
  assumes "heap_works h" "0 \<notin> set k"
  shows "\<exists>cap' h'. mp_json_object_add_owning (Some (J_object es cap)) (Some (k @ [0])) (Some v) h =
      Some (0, Some (J_object (es @ [(J_string (Some (k @ [0])) (length k) True, v)]) cap'), h') \<and>
    heap_works h' \<and> jh_live h' + int (json_blocks (J_object es cap)) + int (json_blocks v) =
      jh_live h + int (json_blocks (J_object (es @ [(J_string (Some (k @ [0])) (length k) True, v)]) cap'))"
  using assms c_strlen_first [of "length k" "k @ [0]"]
  by (auto simp: mp_json_object_add_owning_def add_member_def mp_json_string_def mp_json_string_with_length_def
      jh_realloc_def jh_malloc_def heap_works_def member_blocks_snoc grown_capacity_def mem_read_Some)

lemma copy_elements_works:
  assumes "\<forall>x \<in> set xs. copies D x" "heap_works h"
  shows "\<exists>ys cap' h'. copy_elements D xs (J_array acc cap) h = Some (Some (J_array (acc @ ys) cap'), h') \<and> heap_works h' \<and>
    length ys = length xs \<and> equal_elements xs ys = Some True \<and>
    jh_live h' + int (json_blocks (J_array acc cap)) =
      jh_live h + int (json_blocks (J_array (acc @ ys) cap')) + 2 * int (elements_in xs)"
  using assms
proof (induction xs arbitrary: acc cap h)
  case Nil
  then show ?case by auto
next
  case (Cons x xs)
  obtain c h1 where c: "deep_copy D x h = Some (Some c, h1)" "heap_works h1" "json_equal x c = Some True"
      "jh_live h1 = jh_live h + int (json_blocks c) + 2 * int (count_members x)"
    using Cons(2,3) copiesD by fastforce
  obtain cap1 h2 where a: "mp_json_array_add (Some (J_array acc cap)) (Some c) h1 = (0, Some (J_array (acc @ [c]) cap1), h2)"
      "heap_works h2" "jh_live h2 + int (json_blocks (J_array acc cap)) + int (json_blocks c) =
      jh_live h1 + int (json_blocks (J_array (acc @ [c]) cap1))"
    using array_add_works [OF c(2)] by blast
  obtain ys cap' h' where r: "copy_elements D xs (J_array (acc @ [c]) cap1) h2 = Some (Some (J_array ((acc @ [c]) @ ys) cap'), h')"
      "heap_works h'" "length ys = length xs" "equal_elements xs ys = Some True"
      "jh_live h' + int (json_blocks (J_array (acc @ [c]) cap1)) =
        jh_live h2 + int (json_blocks (J_array ((acc @ [c]) @ ys) cap')) + 2 * int (elements_in xs)"
    using Cons(1) [of h2 "acc @ [c]" cap1] Cons(2) a(2) by auto
  have "copy_elements D (x # xs) (J_array acc cap) h = Some (Some (J_array (acc @ c # ys) cap'), h')"
    using c(1) a(1) r(1) by simp
  moreover have "jh_live h' + int (json_blocks (J_array acc cap)) =
      jh_live h + int (json_blocks (J_array (acc @ c # ys) cap')) + 2 * int (elements_in (x # xs))"
    using c(4) a(3) r(5) by simp
  ultimately show ?case using c(3) r(2-4) by (intro exI [of _ "c # ys"]) auto
qed

text \<open>The members of the copy have the same keys and equal values.\<close>

definition same_members :: "(json \<times> json) list \<Rightarrow> (json \<times> json) list \<Rightarrow> bool" where
  "same_members es fs \<longleftrightarrow> list_all2 (\<lambda>(k, v) (k', v'). key_chars k' = key_chars k \<and> json_equal v v' = Some True) es fs"

lemma plain_key_cases:
  assumes "plain_key k"
  obtains s own where "k = J_string (Some (s @ [0])) (length s) own" "0 \<notin> set s" "key_chars k = Some s"
proof (cases k rule: plain_key.cases)
  case (1 t n own)
  then have "t = take n t @ [0]" "0 \<notin> set (take n t)" "length (take n t) = n" using assms by auto
  then show ?thesis using that [of "take n t" own] 1 c_str_zero [of "take n t"] by simp
qed (use assms in simp_all)

lemma copy_members_works:
  assumes "\<forall>(k, v) \<in> set es. plain_key k \<and> copies D v" "heap_works h"
  shows "\<exists>fs cap' h'. copy_members D es (J_object acc cap) h = Some (Some (J_object (acc @ fs) cap'), h') \<and> heap_works h' \<and>
    same_members es fs \<and>
    jh_live h' + int (json_blocks (J_object acc cap)) =
      jh_live h + int (json_blocks (J_object (acc @ fs) cap')) + 2 * int (members_in es)"
  using assms
proof (induction es arbitrary: acc cap h)
  case Nil
  then show ?case by (auto simp: same_members_def)
next
  case (Cons e es)
  obtain k v where e: "e = (k, v)" by fastforce
  obtain s own where s: "k = J_string (Some (s @ [0])) (length s) own" "0 \<notin> set s" "key_chars k = Some s"
    using Cons(2) e plain_key_cases by auto
  let ?k = "J_string (Some (s @ [0])) (length s) True"
  obtain h1 where k: "deep_copy D k h = Some (Some ?k, h1)" "heap_works h1" "jh_live h1 = jh_live h + 2"
    using string_works [OF Cons(3), of "length s" "s @ [0]"] s(1) by auto
  obtain c h2 where c: "deep_copy D v h1 = Some (Some c, h2)" "heap_works h2" "json_equal v c = Some True"
      "jh_live h2 = jh_live h1 + int (json_blocks c) + 2 * int (count_members v)"
    using Cons(2) e k(2) copiesD by fastforce
  obtain cap1 h3 where a: "mp_json_object_add_owning (Some (J_object acc cap)) (Some (s @ [0])) (Some c) h2 =
        Some (0, Some (J_object (acc @ [(?k, c)]) cap1), h3)" "heap_works h3"
      "jh_live h3 + int (json_blocks (J_object acc cap)) + int (json_blocks c) =
        jh_live h2 + int (json_blocks (J_object (acc @ [(?k, c)]) cap1))"
    using object_add_works [OF c(2) s(2)] by blast
  obtain fs cap' h' where r: "copy_members D es (J_object (acc @ [(?k, c)]) cap1) h3 = Some (Some (J_object ((acc @ [(?k, c)]) @ fs) cap'), h')"
      "heap_works h'" "same_members es fs"
      "jh_live h' + int (json_blocks (J_object (acc @ [(?k, c)]) cap1)) =
        jh_live h3 + int (json_blocks (J_object ((acc @ [(?k, c)]) @ fs) cap')) + 2 * int (members_in es)"
    using Cons(1) [of h3 "acc @ [(?k, c)]" cap1] Cons(2) a(2) by auto
  have "copy_members D (e # es) (J_object acc cap) h = Some (Some (J_object (acc @ (?k, c) # fs) cap'), h')"
    using k(1) c(1) a(1) r(1) e by simp
  moreover have "jh_live h' + int (json_blocks (J_object acc cap)) =
      jh_live h + int (json_blocks (J_object (acc @ (?k, c) # fs) cap')) + 2 * int (members_in (e # es))"
    using k(3) c(4) a(3) r(4) e by simp
  moreover have "same_members (e # es) ((?k, c) # fs)"
    using r(3) c(3) s c_str_zero [OF s(2)] e by (simp add: same_members_def)
  ultimately show ?case using r(2) by blast
qed

lemma same_members_lookup:
  assumes "same_members es fs" and "\<forall>(k, v) \<in> set es. plain_key k" and "distinct (map (key_chars \<circ> fst) es)"
  shows "\<exists>al. assoc_of fs = Some al \<and> (\<forall>(k, v) \<in> set es. \<forall>s. key_chars k = Some s \<longrightarrow>
    (\<exists>w. map_of al s = Some w \<and> json_equal v w = Some True)) \<and> fst ` set al = {s. Some s \<in> key_chars ` fst ` set es}"
  using assms unfolding same_members_def
proof (induction es fs rule: list_all2_induct)
  case Nil
  then show ?case by simp
next
  case (Cons e es f fs)
  obtain k v k' v' where e: "e = (k, v)" "f = (k', v')" by (cases e; cases f) auto
  then have kv: "key_chars k' = key_chars k" "json_equal v v' = Some True" using Cons(1) by auto
  have "plain_key k" using Cons(4) e by simp
  then obtain s where s: "key_chars k = Some s" using plain_key_cases by blast
  obtain al where al: "assoc_of fs = Some al" "\<forall>(k, v) \<in> set es. \<forall>s. key_chars k = Some s \<longrightarrow>
      (\<exists>w. map_of al s = Some w \<and> json_equal v w = Some True)" "fst ` set al = {s. Some s \<in> key_chars ` fst ` set es}"
    using Cons(3-5) by auto
  have a: "assoc_of (f # fs) = Some ((s, v') # al)" using e kv(1) s al(1) by simp
  have fresh: "t \<noteq> s" if "(j, u) \<in> set es" "key_chars j = Some t" for j u t
    using that s Cons(5) e by (auto simp: image_iff)
  have "\<forall>(j, u) \<in> set (e # es). \<forall>t. key_chars j = Some t \<longrightarrow>
      (\<exists>w. map_of ((s, v') # al) t = Some w \<and> json_equal u w = Some True)"
    using al(2) kv(2) s e fresh by fastforce
  moreover have "fst ` set ((s, v') # al) = {t. Some t \<in> key_chars ` fst ` set (e # es)}"
    using al(3) s e by auto
  ultimately show ?case using a by blast
qed

lemma equal_membersI:
  assumes "\<forall>(k, v) \<in> set es. \<exists>s w. string_value k = Some s \<and> mp_json_object_get (Some b) s = Some (Some w) \<and> json_equal v w = Some True"
  shows "equal_members es b = Some True"
  using assms by (induction es) auto

lemma same_members_equal:
  assumes sm: "same_members es fs" and k: "\<forall>(k, v) \<in> set es. plain_key k" and d: "distinct (map (key_chars \<circ> fst) es)"
  shows "json_equal (J_object es cap) (J_object fs cap') = Some True"
proof -
  obtain al where al: "assoc_of fs = Some al" "\<forall>(k, v) \<in> set es. \<forall>s. key_chars k = Some s \<longrightarrow>
    (\<exists>w. map_of al s = Some w \<and> json_equal v w = Some True)"
    using same_members_lookup [OF assms] by blast
  have "\<exists>s w. string_value k = Some s \<and> mp_json_object_get (Some (J_object fs cap')) s = Some (Some w) \<and> json_equal v w = Some True"
    if kv: "(k, v) \<in> set es" for k v
  proof -
    obtain s own where s: "k = J_string (Some (s @ [0])) (length s) own" "0 \<notin> set s" "key_chars k = Some s"
      using k kv plain_key_cases by blast
    then obtain w where w: "map_of al s = Some w" "json_equal v w = Some True" using al(2) kv by blast
    have "mp_json_object_get (Some (J_object fs cap')) (Some (s @ [0])) = Some (Some w)"
      using json_dict.lookup_entries [of "J_object fs cap'" al s] al(1) s(2) w(1) by simp
    then show ?thesis using s(1) w(2) by simp
  qed
  then have "equal_members es (J_object fs cap') = Some True" by (intro equal_membersI) auto
  moreover have "length es = length fs" using sm by (auto simp: same_members_def dest: list_all2_lengthD)
  ultimately show ?thesis by simp
qed

lemma copyable_copies: "copyable v \<Longrightarrow> copies D v"
proof (induction v rule: copyable.induct)
  case (1 es cap)
  have k: "\<forall>(k, v) \<in> set es. plain_key k \<and> copies D v" "\<forall>(k, v) \<in> set es. plain_key k" using 1 by auto
  show ?case
    unfolding copies_def
  proof (intro allI impI)
    fix h
    assume "heap_works h"
    then obtain h1 where h1: "mp_json_object h = (Some (J_object [] 0), h1)" "heap_works h1" "jh_live h1 = jh_live h + 1"
      using new_value_works unfolding mp_json_object_def by blast
    from copy_members_works [OF k(1) h1(2), of "[]" 0] obtain fs cap' h' where
        r: "copy_members D es (J_object [] 0) h1 = Some (Some (J_object fs cap'), h')" "heap_works h'" "same_members es fs"
        "jh_live h' + int (json_blocks (J_object [] 0)) =
          jh_live h1 + int (json_blocks (J_object fs cap')) + 2 * int (members_in es)"
      by auto
    have "json_equal (J_object es cap) (J_object fs cap') = Some True"
      using same_members_equal [OF r(3) k(2)] 1(2) by simp
    then show "\<exists>c h'. deep_copy D (J_object es cap) h = Some (Some c, h') \<and> heap_works h' \<and>
        json_equal (J_object es cap) c = Some True \<and>
        jh_live h' = jh_live h + int (json_blocks c) + 2 * int (count_members (J_object es cap))"
      using h1 r(1,2,4) by (intro exI [of _ "J_object fs cap'"] exI [of _ h']) (simp del: json_equal.simps)
  qed
next
  case (2 xs cap)
  have k: "\<forall>x \<in> set xs. copies D x" using 2 by auto
  show ?case
    unfolding copies_def
  proof (intro allI impI)
    fix h
    assume "heap_works h"
    then obtain h1 where h1: "mp_json_array h = (Some (J_array [] 0), h1)" "heap_works h1" "jh_live h1 = jh_live h + 1"
      using new_value_works unfolding mp_json_array_def by blast
    from copy_elements_works [OF k h1(2), of "[]" 0] obtain ys cap' h' where
        r: "copy_elements D xs (J_array [] 0) h1 = Some (Some (J_array ys cap'), h')" "heap_works h'"
        "length ys = length xs" "equal_elements xs ys = Some True"
        "jh_live h' + int (json_blocks (J_array [] 0)) =
          jh_live h1 + int (json_blocks (J_array ys cap')) + 2 * int (elements_in xs)"
      by auto
    show "\<exists>c h'. deep_copy D (J_array xs cap) h = Some (Some c, h') \<and> heap_works h' \<and>
        json_equal (J_array xs cap) c = Some True \<and>
        jh_live h' = jh_live h + int (json_blocks c) + 2 * int (count_members (J_array xs cap))"
      using h1 r by (intro exI [of _ "J_array ys cap'"] exI [of _ h']) simp
  qed
next
  case (3 s n own)
  then obtain t where t: "s = Some t" "n \<le> length t" by (auto split: option.splits)
  show ?case
    unfolding copies_def using string_works [OF _ t(2)] t by (fastforce simp: mem_read_Some)
next
  case (4 d i n)
  then show ?case
    unfolding copies_def mp_json_integer_def mp_json_number_def
    using new_value_works by (fastforce simp: mp_json_integer_def mp_json_number_def double_eq_def)
next
  case 5
  show ?case unfolding copies_def using new_value_works by (fastforce simp: mp_json_null_def)
next
  case (6 b)
  show ?case unfolding copies_def using new_value_works by (fastforce simp: mp_json_boolean_def)
qed simp

text \<open>A deep copy is equal to the original: with a working heap, \<open>mp_json_deep_copy\<close> of a value whose objects
  have distinct keys and whose numbers are not NaNs returns a value that \<open>mp_json_equal\<close> accepts.  But the copy costs
  more than it owns: for every object member the code makes a copy of the key that it then copies again and drops, so
  two blocks for each member stay allocated with nothing pointing to them.\<close>

theorem json_deep_copy_equal_and_leaks:
  assumes "copyable v" and "heap_works h"
  shows "\<exists>c h'. mp_json_deep_copy D (Some v) h = Some (Some c, h') \<and> mp_json_equal (Some v) (Some c) = Some True \<and>
    jh_live h' = jh_live h + int (mp_json_free (Some c)) + 2 * int (count_members v)"
  using copiesD [OF copyable_copies [OF assms(1)] assms(2), of D]
  by (auto simp: mp_json_deep_copy_def mp_json_equal_def mp_json_free_def)

lemma json_deep_copy_equal_and_leaks_witness:
  "\<exists>c h'. mp_json_deep_copy plain_double (Some (J_object [(J_string (Some [0x61, 0]) 1 True, J_null)] 8))
      \<lparr>jh_avail = (\<lambda>k n. True), jh_calls = 0, jh_live = 0\<rparr> = Some (Some c, h') \<and>
    mp_json_equal (Some (J_object [(J_string (Some [0x61, 0]) 1 True, J_null)] 8)) (Some c) = Some True \<and>
    jh_live h' = int (mp_json_free (Some c)) + 2"
  using json_deep_copy_equal_and_leaks [of "J_object [(J_string (Some [0x61, 0]) 1 True, J_null)] 8"
      "\<lparr>jh_avail = (\<lambda>k n. True), jh_calls = 0, jh_live = 0\<rparr>" plain_double]
  by (auto simp: heap_works_def)

text \<open>\<open>mp_json_equal\<close> is not reflexive: with a key that occurs twice the second member is compared to the first.\<close>

lemma json_equal_duplicate_keys:
  assumes "json_equal v w = Some False" "json_equal w w = Some True"
  shows "json_equal (J_object [(J_string (Some [0x61, 0]) 1 True, w), (J_string (Some [0x61, 0]) 1 True, v)] 8)
      (J_object [(J_string (Some [0x61, 0]) 1 True, w), (J_string (Some [0x61, 0]) 1 True, v)] 8) = Some False"
  using assms c_str_zero [of "[0x61]"] by (simp add: mp_json_object_get_def str_equal_def)

end
