(* ===== verification/TwoCores.thy ===== *)
theory TwoCores
  imports Prelude
begin

text \<open>
  Programs that run on the two cores of the nRF54L15 and share memory, for the code under
  \<open>src/platform/nrf54l15/shared\<close>: the actions of a program, loops that may not end, and the interleaving of the cores.

  A program is a possibly infinite tree of actions.  Every access to a variable or register that the cores share is an
  action of its own, so the cores interleave between any two accesses.  \<open>mp_hal_cpu_enter_critical\<close> masks the interrupts of
  the core that calls it and does not stop the other core; what would happen if it did is the other value of the flag
  \<open>excl\<close> of the semantics.
\<close>

section \<open>Variables and registers\<close>

text \<open>A spinlock is the global one or that of a cross-core mutex.\<close>

datatype spin = Global_lock | Mutex_lock nat

text \<open>
  The words that both cores can reach: the fields of \<open>shared_memory_t\<close>, the barrier and the rendezvous in
  \<open>.shared_ram\<close>, and the registers of the IPC peripheral.  \<open>Core_ready c i\<close> is the entry \<open>i\<close> of the static
  array \<open>core_ready\<close> in the image of core \<open>c\<close>: the images of the two cores are built and linked separately.
\<close>

datatype loc =
    Spin_locked spin | Spin_owner spin
  | Mutex_owner_core nat | Mutex_owner_thread nat | Mutex_recursion nat | Mutex_waiting nat
  | Mailbox_message nat | Mailbox_sender_core nat | Mailbox_has_message nat
  | Semaphore_count nat | Semaphore_waiting nat | Event_flags
  | Core_ready_flags | System_tick | Last_activity nat
  | Cores_arrived | Cores_released
  | Rendezvous_ready nat | Rendezvous_data nat
  | Core_ready nat nat
  | Ipc_mailbox_sender | Ipc_mailbox_receiver | Ipc_semaphore nat | Ipc_event_send | Ipc_event_receive
  | Ipc_intenset | Ipc_corestart

type_synonym memory = "loc \<Rightarrow> u32"

text \<open>The registers are those words that the hardware changes too.\<close>

fun is_register :: "loc \<Rightarrow> bool" where
  "is_register Ipc_mailbox_sender = True"
| "is_register Ipc_mailbox_receiver = True"
| "is_register (Ipc_semaphore n) = True"
| "is_register Ipc_event_send = True"
| "is_register Ipc_event_receive = True"
| "is_register Ipc_intenset = True"
| "is_register Ipc_corestart = True"
| "is_register l = False"

section \<open>Programs\<close>

text \<open>
  An action gives the program a word: the value it reads, or the clock, and nothing of interest otherwise.  \<open>Yield\<close> is a
  call of \<open>mp_scheduler_yield\<close> or \<open>mp_hal_cpu_delay\<close>, \<open>Next\<close> the jump back to the head of a loop.
\<close>

datatype action = Read loc | Write loc u32 | Enter_critical | Leave_critical | Get_ticks | Give_way | Again

codatatype 'a prog = Ret 'a | Do action "u32 \<Rightarrow> 'a prog"

abbreviation Rd :: "loc \<Rightarrow> (u32 \<Rightarrow> 'a prog) \<Rightarrow> 'a prog" where "Rd l k \<equiv> Do (Read l) k"
abbreviation Wr :: "loc \<Rightarrow> u32 \<Rightarrow> 'a prog \<Rightarrow> 'a prog" where "Wr l v p \<equiv> Do (Write l v) (\<lambda>_. p)"
abbreviation Enter :: "'a prog \<Rightarrow> 'a prog" where "Enter p \<equiv> Do Enter_critical (\<lambda>_. p)"
abbreviation Leave :: "'a prog \<Rightarrow> 'a prog" where "Leave p \<equiv> Do Leave_critical (\<lambda>_. p)"
abbreviation Ticks :: "(u32 \<Rightarrow> 'a prog) \<Rightarrow> 'a prog" where "Ticks k \<equiv> Do Get_ticks k"
abbreviation Yield :: "'a prog \<Rightarrow> 'a prog" where "Yield p \<equiv> Do Give_way (\<lambda>_. p)"

primcorec bind_prog :: "'a prog \<Rightarrow> ('a \<Rightarrow> 'b prog) \<Rightarrow> 'b prog" where
  "bind_prog p f = (case p of Ret a \<Rightarrow> f a | Do x k \<Rightarrow> Do x (\<lambda>v. bind_prog (k v) f))"

text \<open>A loop: a round of the body returns the state of the next round, or the result.\<close>

primcorec loop_from :: "('s \<Rightarrow> ('s + 'a) prog) \<Rightarrow> ('s + 'a) prog \<Rightarrow> 'a prog" where
  "loop_from body p =
     (case p of
        Ret r \<Rightarrow> (case r of Inl s \<Rightarrow> Do Again (\<lambda>_. loop_from body (body s)) | Inr a \<Rightarrow> Ret a)
      | Do x k \<Rightarrow> Do x (\<lambda>v. loop_from body (k v)))"

definition loop_prog :: "('s \<Rightarrow> ('s + 'a) prog) \<Rightarrow> 's \<Rightarrow> 'a prog" where
  "loop_prog body s = loop_from body (body s)"

lemma bind_prog_simps [simp]:
  "bind_prog (Ret a) f = f a"
  "bind_prog (Do x k) f = Do x (\<lambda>v. bind_prog (k v) f)"
  by (subst bind_prog.code, simp)+

lemma loop_from_simps [simp]:
  "loop_from b (Ret (Inl s)) = Do Again (\<lambda>_. loop_prog b s)"
  "loop_from b (Ret (Inr a)) = Ret a"
  "loop_from b (Do x k) = Do x (\<lambda>v. loop_from b (k v))"
  by (subst loop_from.code, simp add: loop_prog_def)+

lemma prog_if [simp]:
  "bind_prog (if c then p else q) f = (if c then bind_prog p f else bind_prog q f)"
  "loop_from b (if c then p' else q') = (if c then loop_from b p' else loop_from b q')"
  by simp_all

text \<open>What an action gives, and what it does to the memory, with the value \<open>t\<close> of the clock.\<close>

definition action_word :: "u32 \<Rightarrow> memory \<Rightarrow> action \<Rightarrow> u32" where
  "action_word t m x = (case x of Read l \<Rightarrow> m l | Get_ticks \<Rightarrow> t | _ \<Rightarrow> 0)"

definition action_memory :: "action \<Rightarrow> memory \<Rightarrow> memory" where
  "action_memory x m = (case x of Write l v \<Rightarrow> m(l := v) | _ \<Rightarrow> m)"

lemma action_simps [simp]:
  "action_word t m (Read l) = m l" "action_word t m (Write l v) = 0" "action_word t m Enter_critical = 0"
  "action_word t m Leave_critical = 0" "action_word t m Get_ticks = t" "action_word t m Give_way = 0"
  "action_word t m Again = 0"
  "action_memory (Read l) m = m" "action_memory (Write l v) m = m(l := v)" "action_memory Enter_critical m = m"
  "action_memory Leave_critical m = m" "action_memory Get_ticks m = m" "action_memory Give_way m = m"
  "action_memory Again m = m"
  by (simp_all add: action_word_def action_memory_def)

section \<open>One core\<close>

text \<open>A program that has returned stays as it is.\<close>

definition step_prog :: "u32 \<Rightarrow> 'a prog \<times> memory \<Rightarrow> 'a prog \<times> memory" where
  "step_prog t s =
     (case s of (p, m) \<Rightarrow>
        (case p of Ret a \<Rightarrow> (p, m) | Do x k \<Rightarrow> (k (action_word t m x), action_memory x m)))"

text \<open>A core that runs while the other one is idle, one step for each value of the clock.\<close>

definition run_alone :: "u32 list \<Rightarrow> 'a prog \<times> memory \<Rightarrow> 'a prog \<times> memory" where
  "run_alone ts s = fold step_prog ts s"

section \<open>Two cores\<close>

record 'a cores =
  core_prog :: "nat \<Rightarrow> 'a prog"
  critical :: "nat option"
  mem :: memory

text \<open>An event is a step of a core with the value of its clock, or a change of a register by the hardware.\<close>

datatype event = Run nat u32 | Device loc u32

definition step_core :: "bool \<Rightarrow> nat \<Rightarrow> u32 \<Rightarrow> 'a cores \<Rightarrow> 'a cores" where
  "step_core excl c t s =
     (case core_prog s c of
        Ret a \<Rightarrow> s
      | Do x k \<Rightarrow>
          if x = Enter_critical \<and> excl \<and> (\<exists>d. critical s = Some d \<and> d \<noteq> c) then s
          else s\<lparr>core_prog := (core_prog s)(c := k (action_word t (mem s) x)),
                 critical := (if x = Enter_critical then Some c else if x = Leave_critical then None else critical s),
                 mem := action_memory x (mem s)\<rparr>)"

definition step_event :: "bool \<Rightarrow> event \<Rightarrow> 'a cores \<Rightarrow> 'a cores" where
  "step_event excl e s =
     (case e of
        Run c t \<Rightarrow> step_core excl c t s
      | Device l v \<Rightarrow> if is_register l then s\<lparr>mem := (mem s)(l := v)\<rparr> else s)"

definition run_cores :: "bool \<Rightarrow> event list \<Rightarrow> 'a cores \<Rightarrow> 'a cores" where
  "run_cores excl es s = fold (step_event excl) es s"

definition start_cores :: "(nat \<Rightarrow> 'a prog) \<Rightarrow> memory \<Rightarrow> 'a cores" where
  "start_cores ps m = \<lparr>core_prog = ps, critical = None, mem = m\<rparr>"

lemma run_cores_simps [simp]:
  "run_cores excl [] s = s"
  "run_cores excl (e # es) s = run_cores excl es (step_event excl e s)"
  by (simp_all add: run_cores_def)

lemma run_cores_invariant:
  assumes "I s" and "\<And>e s. I s \<Longrightarrow> I (step_event excl e s)"
  shows "I (run_cores excl es s)"
  using assms(1) by (induction es arbitrary: s) (auto intro: assms(2))

section \<open>Properties of the memory that every core keeps\<close>

text \<open>
  \<open>keeps A Q p\<close>: as long as every word \<open>l\<close> has only values in \<open>A l\<close>, program \<open>p\<close> writes only such values, and if it
  returns, its result is in \<open>Q\<close>.  When all cores do so the assumption holds in every interleaving.
\<close>

coinductive keeps :: "(loc \<Rightarrow> u32 \<Rightarrow> bool) \<Rightarrow> ('a \<Rightarrow> bool) \<Rightarrow> 'a prog \<Rightarrow> bool" for A Q where
  keeps_Ret: "Q a \<Longrightarrow> keeps A Q (Ret a)"
| keeps_Do: "(\<And>l v. x = Write l v \<Longrightarrow> A l v) \<Longrightarrow> (\<And>w. (\<forall>l. x = Read l \<longrightarrow> A l w) \<Longrightarrow> keeps A Q (k w)) \<Longrightarrow>
    keeps A Q (Do x k)"

inductive_simps keeps_Ret_simp [simp]: "keeps A Q (Ret a)"
inductive_simps keeps_Do_iff: "keeps A Q (Do x k)"

lemma keeps_simps [simp]:
  "keeps A Q (Rd l k) \<longleftrightarrow> (\<forall>v. A l v \<longrightarrow> keeps A Q (k v))"
  "keeps A Q (Wr l v p) \<longleftrightarrow> A l v \<and> keeps A Q p"
  "keeps A Q (Enter p) \<longleftrightarrow> keeps A Q p"
  "keeps A Q (Leave p) \<longleftrightarrow> keeps A Q p"
  "keeps A Q (Ticks h) \<longleftrightarrow> (\<forall>t. keeps A Q (h t))"
  "keeps A Q (Yield p) \<longleftrightarrow> keeps A Q p"
  by (auto simp: keeps_Do_iff)

lemma keeps_mono: "keeps A Q p \<Longrightarrow> (\<And>a. Q a \<Longrightarrow> R a) \<Longrightarrow> keeps A R p"
proof (coinduction arbitrary: p)
  case keeps
  then show ?case by (cases p) (auto simp: keeps_Do_iff)
qed

lemma keeps_bind:
  assumes "keeps A R p" and "\<And>a. R a \<Longrightarrow> keeps A Q (f a)"
  shows "keeps A Q (bind_prog p f)"
  using assms(1)
proof (coinduction arbitrary: p)
  case keeps
  show ?case
  proof (cases p)
    case (Ret a)
    then have "keeps A Q (f a)" using keeps assms(2) by simp
    then show ?thesis using Ret by (cases "f a") (auto simp: keeps_Do_iff)
  next
    case (Do x k)
    then show ?thesis using keeps by (auto simp: keeps_Do_iff)
  qed
qed

lemma keeps_loop:
  assumes body: "\<And>s. I s \<Longrightarrow> keeps A (case_sum I Q) (body s)" and i: "I s"
  shows "keeps A Q (loop_prog body s)"
proof -
  have "keeps A Q (loop_from body p)" if "keeps A (case_sum I Q) p" for p
    using that
  proof (coinduction arbitrary: p)
    case keeps
    show ?case
    proof (cases p)
      case (Ret r)
      show ?thesis
      proof (cases r)
        case (Inl s')
        then have "keeps A (case_sum I Q) (body s')" using keeps Ret by (simp add: body)
        then show ?thesis using Ret Inl by (auto simp: loop_prog_def)
      next
        case (Inr a)
        then show ?thesis using keeps Ret by simp
      qed
    next
      case (Do x k)
      then show ?thesis using keeps by (auto simp: keeps_Do_iff)
    qed
  qed
  then show ?thesis using body [OF i] by (simp add: loop_prog_def)
qed

theorem keeps_interleaved:
  assumes "\<And>c. keeps A (Q c) (core_prog s c)" and "\<And>l. A l (mem s l)" and dev: "\<And>l v. is_register l \<Longrightarrow> A l v"
  shows "keeps A (Q c) (core_prog (run_cores excl es s) c) \<and> A l (mem (run_cores excl es s) l)"
proof -
  let ?I = "\<lambda>s. (\<forall>c. keeps A (Q c) (core_prog s c)) \<and> (\<forall>l. A l (mem s l))"
  have "?I (run_cores excl es s)"
  proof (rule run_cores_invariant)
    show "?I s" using assms(1,2) by blast
    fix e :: event and s :: "'a cores"
    assume i: "?I s"
    have "?I (step_core excl d t s)" for d t
    proof (cases "core_prog s d")
      case (Ret a)
      then show ?thesis using i by (simp add: step_core_def)
    next
      case (Do x k)
      then have k: "keeps A (Q d) (Do x k)" using i by metis
      have "keeps A (Q d) (k (action_word t (mem s) x))" using k i by (auto simp: keeps_Do_iff)
      moreover have "A l (action_memory x (mem s) l)" for l
        using k i by (auto simp: keeps_Do_iff action_memory_def split: action.splits)
      ultimately show ?thesis using i Do by (auto simp: step_core_def)
    qed
    then show "?I (step_event excl e s)" using i dev by (auto simp: step_event_def split: event.splits)
  qed
  then show ?thesis by blast
qed

text \<open>If no result is allowed, no core returns.\<close>

corollary keeps_never_returns:
  assumes "\<And>c. keeps A (Q c) (core_prog s c)" and "\<And>l. A l (mem s l)" and "\<And>l v. is_register l \<Longrightarrow> A l v"
    and "core_prog (run_cores excl es s) c = Ret a"
  shows "Q c a"
  using keeps_interleaved [of A Q s c excl es] assms by simp

section \<open>A core that runs alone\<close>

text \<open>\<open>ends p m Q\<close>: whatever the clock says, the program returns, with a result and a memory in \<open>Q\<close>; \<open>endless p m\<close>:
  it does not, whatever the clock says.\<close>

inductive ends :: "'a prog \<Rightarrow> memory \<Rightarrow> ('a \<Rightarrow> memory \<Rightarrow> bool) \<Rightarrow> bool" where
  ends_Ret: "Q a m \<Longrightarrow> ends (Ret a) m Q"
| ends_Do: "(\<And>t. ends (k (action_word t m x)) (action_memory x m) Q) \<Longrightarrow> ends (Do x k) m Q"

coinductive endless :: "'a prog \<Rightarrow> memory \<Rightarrow> bool" where
  endless_Do: "(\<And>t. endless (k (action_word t m x)) (action_memory x m)) \<Longrightarrow> endless (Do x k) m"

inductive_simps ends_Ret_simp [simp]: "ends (Ret a) m Q"
inductive_simps ends_Do_simp [simp]: "ends (Do x k) m Q"
inductive_simps endless_Ret_simp [simp]: "endless (Ret a) m"
inductive_simps endless_Do_simp [simp]: "endless (Do x k) m"

lemma ends_mono: "ends p m Q \<Longrightarrow> (\<And>a m'. Q a m' \<Longrightarrow> R a m') \<Longrightarrow> ends p m R"
  by (induction rule: ends.induct) auto

lemma ends_bind: "ends p m R \<Longrightarrow> (\<And>a m'. R a m' \<Longrightarrow> ends (f a) m' Q) \<Longrightarrow> ends (bind_prog p f) m Q"
  by (induction rule: ends.induct) auto

lemma ends_loop_from:
  "ends p m (\<lambda>r m'. case r of Inl s \<Rightarrow> ends (loop_prog body s) m' Q | Inr a \<Rightarrow> Q a m') \<Longrightarrow> ends (loop_from body p) m Q"
proof (induction p m "\<lambda>r m'. case r of Inl s \<Rightarrow> ends (loop_prog body s) m' Q | Inr a \<Rightarrow> Q a m'" rule: ends.induct)
  case (ends_Ret r m)
  then show ?case by (cases r) auto
qed auto

lemma endless_bind1: "endless p m \<Longrightarrow> endless (bind_prog p f) m"
proof (coinduction arbitrary: p m)
  case endless
  then show ?case by (cases p) auto
qed

lemma endless_bind2:
  assumes "ends p m (\<lambda>a m'. endless (f a) m')"
  shows "endless (bind_prog p f) m"
  using assms by (induction p m "\<lambda>a m'. endless (f a) m'" rule: ends.induct) auto

lemma endless_loop:
  assumes body: "\<And>s m. I s m \<Longrightarrow> ends (body s) m (\<lambda>r m'. \<exists>s'. r = Inl s' \<and> I s' m')" and i: "I s m"
  shows "endless (loop_prog body s) m"
proof -
  have "endless (loop_from body p) m" if "ends p m (\<lambda>r m'. \<exists>s'. r = Inl s' \<and> I s' m')" for p m
    using that
  proof (coinduction arbitrary: p m)
    case endless
    show ?case
    proof (cases p)
      case (Ret r)
      then obtain s' where "r = Inl s'" "I s' m" using endless by auto
      then show ?thesis using Ret body [of s' m] by (auto simp: loop_prog_def)
    qed (use endless in auto)
  qed
  then show ?thesis using body [OF i] by (simp add: loop_prog_def)
qed

text \<open>What these mean for the steps of a core.\<close>

lemma run_alone_simps [simp]:
  "run_alone [] s = s" "run_alone (t # ts) s = run_alone ts (step_prog t s)"
  "step_prog t (Ret a, m) = (Ret a, m)"
  "step_prog t (Do x k, m) = (k (action_word t m x), action_memory x m)"
  by (simp_all add: run_alone_def step_prog_def)

lemma ends_run_alone:
  "ends p m Q \<Longrightarrow> \<exists>n a m'. run_alone (map clock [k..<k + n]) (p, m) = (Ret a, m') \<and> Q a m'"
proof (induction arbitrary: k rule: ends.induct)
  case (ends_Ret Q a m)
  then show ?case by (intro exI [of _ 0]) simp
next
  case (ends_Do h m x Q)
  obtain n a m' where
    "run_alone (map clock [Suc k..<Suc k + n]) (h (action_word (clock k) m x), action_memory x m) = (Ret a, m')" "Q a m'"
    using ends_Do.IH by blast
  moreover have "[k..<k + Suc n] = k # [Suc k..<Suc k + n]" by (simp add: upt_conv_Cons)
  ultimately show ?case by (intro exI [of _ "Suc n"]) (simp del: upt_Suc)
qed

lemma endless_run_alone: "endless p m \<Longrightarrow> fst (run_alone ts (p, m)) \<noteq> Ret a"
proof (induction ts arbitrary: p m)
  case (Cons t ts)
  then show ?case by (cases p) auto
qed auto

section \<open>Critical sections that exclude the other core\<close>

text \<open>
  If \<open>mp_hal_cpu_enter_critical\<close> stopped the other core (\<open>excl\<close>), a program that touches shared words in critical
  sections only could be checked one section at a time.  \<open>J G m\<close> is an invariant of the memory outside critical
  sections and of a ghost state \<open>G c\<close> of each core; a section starts in any memory with the invariant, and core \<open>c\<close> may
  change its ghost state when it leaves.
\<close>

datatype 'g mode = Outside 'g | Inside "nat \<Rightarrow> 'g" memory

coinductive guarded ::
  "((nat \<Rightarrow> 'g) \<Rightarrow> memory \<Rightarrow> bool) \<Rightarrow> nat \<Rightarrow> ('a \<Rightarrow> 'g \<Rightarrow> bool) \<Rightarrow> 'g mode \<Rightarrow> 'a prog \<Rightarrow> bool" for J c Q where
  guarded_Ret: "Q a h \<Longrightarrow> guarded J c Q (Outside h) (Ret a)"
| guarded_Do: "x \<in> {Get_ticks, Give_way, Again} \<Longrightarrow> (\<And>w. guarded J c Q (Outside h) (k w)) \<Longrightarrow>
    guarded J c Q (Outside h) (Do x k)"
| guarded_Enter: "(\<And>G m. J G m \<Longrightarrow> G c = h \<Longrightarrow> guarded J c Q (Inside G m) (k 0)) \<Longrightarrow>
    guarded J c Q (Outside h) (Do Enter_critical k)"
| guarded_In: "x \<notin> {Enter_critical, Leave_critical} \<Longrightarrow>
    (\<And>t. guarded J c Q (Inside G (action_memory x m)) (k (action_word t m x))) \<Longrightarrow> guarded J c Q (Inside G m) (Do x k)"
| guarded_Leave: "J (G(c := h)) m \<Longrightarrow> guarded J c Q (Outside h) (k 0) \<Longrightarrow>
    guarded J c Q (Inside G m) (Do Leave_critical k)"

inductive_simps guarded_Ret_out [simp]: "guarded J c Q (Outside h) (Ret a)"
inductive_simps guarded_Ret_in [simp]: "guarded J c Q (Inside G m) (Ret a)"
inductive_simps guarded_Do_out: "guarded J c Q (Outside h) (Do x k)"
inductive_simps guarded_Do_in: "guarded J c Q (Inside G m) (Do x k)"

lemma guarded_simps [simp]:
  "guarded J c Q (Outside h) (Ticks f) \<longleftrightarrow> (\<forall>t. guarded J c Q (Outside h) (f t))"
  "guarded J c Q (Outside h) (Yield p) \<longleftrightarrow> guarded J c Q (Outside h) p"
  "guarded J c Q (Outside h) (Enter p) \<longleftrightarrow> (\<forall>G m. J G m \<longrightarrow> G c = h \<longrightarrow> guarded J c Q (Inside G m) p)"
  "guarded J c Q (Inside G m) (Rd l f) \<longleftrightarrow> guarded J c Q (Inside G m) (f (m l))"
  "guarded J c Q (Inside G m) (Wr l v p) \<longleftrightarrow> guarded J c Q (Inside G (m(l := v))) p"
  "guarded J c Q (Inside G m) (Leave p) \<longleftrightarrow> (\<exists>h. J (G(c := h)) m \<and> guarded J c Q (Outside h) p)"
  by (auto simp: guarded_Do_out guarded_Do_in)

lemma guarded_loop:
  assumes body: "\<And>s h. I s h \<Longrightarrow> guarded J c (\<lambda>r h. case r of Inl s' \<Rightarrow> I s' h | Inr a \<Rightarrow> Q a h) (Outside h) (body s)"
    and i: "I s h"
  shows "guarded J c Q (Outside h) (loop_prog body s)"
proof -
  let ?Q = "\<lambda>r h. case r of Inl s' \<Rightarrow> I s' h | Inr a \<Rightarrow> Q a h"
  have "guarded J c Q md (loop_from body p)" if "guarded J c ?Q md p" for md p
    using that
  proof (coinduction arbitrary: md p)
    case guarded
    show ?case
    proof (cases p)
      case (Ret r)
      then obtain h where h: "md = Outside h" "?Q r h" using guarded by (cases md) auto
      show ?thesis
      proof (cases r)
        case (Inl s')
        then show ?thesis using Ret h body [of s' h] by (auto simp: loop_prog_def)
      qed (use Ret h in auto)
    next
      case (Do x k)
      then show ?thesis using guarded by (cases md) (auto simp: guarded_Do_out guarded_Do_in)
    qed
  qed
  then show ?thesis using body [OF i] by (simp add: loop_prog_def)
qed

definition steps :: "(nat \<times> u32) list \<Rightarrow> event list" where
  "steps = map (\<lambda>(c, t). Run c t)"

definition guarded_state ::
  "((nat \<Rightarrow> 'g) \<Rightarrow> memory \<Rightarrow> bool) \<Rightarrow> (nat \<Rightarrow> 'a \<Rightarrow> 'g \<Rightarrow> bool) \<Rightarrow> (nat \<Rightarrow> 'g) \<Rightarrow> 'a cores \<Rightarrow> bool" where
  "guarded_state J Q G s \<longleftrightarrow> (\<exists>m. J G m) \<and>
     (case critical s of
        None \<Rightarrow> J G (mem s) \<and> (\<forall>c. guarded J c (Q c) (Outside (G c)) (core_prog s c))
      | Some d \<Rightarrow> guarded J d (Q d) (Inside G (mem s)) (core_prog s d) \<and>
                  (\<forall>c. c \<noteq> d \<longrightarrow> guarded J c (Q c) (Outside (G c)) (core_prog s c)))"

lemma guarded_step:
  assumes g: "guarded_state J Q G s"
  shows "\<exists>G'. guarded_state J Q G' (step_core True d t s)"
proof (cases "core_prog s d")
  case (Ret a)
  then show ?thesis using g by (auto simp: step_core_def)
next
  case (Do x k)
  show ?thesis
  proof (cases "critical s")
    case None
    then have j: "J G (mem s)" and out: "\<And>c. guarded J c (Q c) (Outside (G c)) (core_prog s c)"
      using g by (auto simp: guarded_state_def)
    have k: "guarded J d (Q d) (Outside (G d)) (Do x k)" using out [of d] Do by simp
    show ?thesis
    proof (cases "x = Enter_critical")
      case True
      then have "guarded J d (Q d) (Inside G (mem s)) (k 0)" using k j by (auto simp: guarded_Do_out)
      then show ?thesis using True Do None j out
        by (intro exI [of _ G]) (auto simp: guarded_state_def step_core_def)
    next
      case False
      then have "x \<in> {Get_ticks, Give_way, Again}" "\<And>w. guarded J d (Q d) (Outside (G d)) (k w)"
        using k by (auto simp: guarded_Do_out)
      then show ?thesis using Do None j out
        by (intro exI [of _ G]) (auto simp: guarded_state_def step_core_def)
    qed
  next
    case (Some e)
    then have j: "\<exists>m. J G m" and ins: "guarded J e (Q e) (Inside G (mem s)) (core_prog s e)"
      and out: "\<And>c. c \<noteq> e \<Longrightarrow> guarded J c (Q c) (Outside (G c)) (core_prog s c)"
      using g by (auto simp: guarded_state_def)
    show ?thesis
    proof (cases "d = e")
      case False
      then have k: "guarded J d (Q d) (Outside (G d)) (Do x k)" using out [of d] Do by simp
      show ?thesis
      proof (cases "x = Enter_critical")
        case True
        then show ?thesis using g Do Some False by (intro exI [of _ G]) (simp add: step_core_def)
      next
        case nE: False
        then have "x \<in> {Get_ticks, Give_way, Again}" "\<And>w. guarded J d (Q d) (Outside (G d)) (k w)"
          using k by (auto simp: guarded_Do_out)
        then show ?thesis using Do Some j ins out False
          by (intro exI [of _ G]) (auto simp: guarded_state_def step_core_def)
      qed
    next
      case True
      then have k: "guarded J d (Q d) (Inside G (mem s)) (Do x k)" using ins Do by simp
      show ?thesis
      proof (cases "x = Leave_critical")
        case x: True
        then obtain h where "J (G(d := h)) (mem s)" "guarded J d (Q d) (Outside h) (k 0)"
          using k by (auto simp: guarded_Do_in)
        then show ?thesis using Do Some x out True
          by (intro exI [of _ "G(d := h)"]) (auto simp: guarded_state_def step_core_def)
      next
        case nL: False
        then have "x \<noteq> Enter_critical"
            "guarded J d (Q d) (Inside G (action_memory x (mem s))) (k (action_word t (mem s) x))"
          using k by (auto simp: guarded_Do_in)
        then show ?thesis using Do Some nL out True j
          by (intro exI [of _ G]) (auto simp: guarded_state_def step_core_def)
      qed
    qed
  qed
qed

lemma guarded_result:
  assumes g: "guarded_state J Q G s" and r: "core_prog s c = Ret a"
  shows "Q c a (G c)"
proof (cases "critical s")
  case None
  then have "guarded J c (Q c) (Outside (G c)) (core_prog s c)" using g by (simp add: guarded_state_def)
  then show ?thesis using r by simp
next
  case (Some d)
  then have "guarded J d (Q d) (Inside G (mem s)) (core_prog s d)"
    "c \<noteq> d \<Longrightarrow> guarded J c (Q c) (Outside (G c)) (core_prog s c)" using g by (simp_all add: guarded_state_def)
  then show ?thesis using r by (cases "c = d") auto
qed

theorem guarded_interleaved:
  assumes "\<And>c. guarded J c (Q c) (Outside (G c)) (ps c)" and "J G m"
  shows "\<exists>G' m'. J G' m' \<and>
    (\<forall>c a. core_prog (run_cores True (steps es) (start_cores ps m)) c = Ret a \<longrightarrow> Q c a (G' c))"
proof -
  have "\<exists>G'. guarded_state J Q G' (run_cores True (steps es) s)" if "guarded_state J Q G s" for s G
    using that
  proof (induction es arbitrary: s G)
    case (Cons e es)
    obtain d t where e: "e = (d, t)" by (cases e) auto
    obtain G' where "guarded_state J Q G' (step_core True d t s)" using guarded_step [OF Cons.prems] by blast
    then show ?case using Cons.IH e by (auto simp: steps_def step_event_def)
  qed (auto simp: steps_def)
  moreover have "guarded_state J Q G (start_cores ps m)"
    using assms by (auto simp: guarded_state_def start_cores_def)
  ultimately obtain G' where g: "guarded_state J Q G' (run_cores True (steps es) (start_cores ps m))" by blast
  have "Q c a (G' c)" if "core_prog (run_cores True (steps es) (start_cores ps m)) c = Ret a" for c a
    by (rule guarded_result [OF g that])
  then show ?thesis using g by (auto simp: guarded_state_def)
qed

end
