(* ===== verification/CoreShared.thy ===== *)
theory CoreShared
  imports TwoCores Scheduler
begin

text \<open>
  The layer between the cores of the nRF54L15: \<open>src/platform/nrf54l15/shared/ipc.c\<close>, \<open>core_sync.c\<close>,
  \<open>shared_memory.c\<close> and their headers.

  Every function takes the id of the core it runs on, where the code calls \<open>mp_hal_nrf54l15_get_core_id\<close>.  Functions
  that touch words both cores reach are programs of \<open>TwoCores\<close>.  The thread registry takes no lock; its functions are
  modelled as running to their end.
\<close>

section \<open>Cores and messages\<close>

definition CORE_ID_M33 :: nat where "CORE_ID_M33 = 0"
definition CORE_ID_RV32 :: nat where "CORE_ID_RV32 = 1"
definition CORE_ID_COUNT :: u32 where "CORE_ID_COUNT = 2"

lemmas core_id_defs = CORE_ID_M33_def CORE_ID_RV32_def CORE_ID_COUNT_def

definition mp_hal_nrf54l15_get_other_core_id :: "nat \<Rightarrow> nat" where
  "mp_hal_nrf54l15_get_other_core_id c = (if c = CORE_ID_M33 then CORE_ID_RV32 else CORE_ID_M33)"

definition core_bit :: "nat \<Rightarrow> u32" where
  "core_bit c = push_bit c 1"

record ipc_message =
  ipc_type :: u32
  ipc_sender_core :: u32
  ipc_receiver_core :: u32
  ipc_param1 :: u32
  ipc_param2 :: u32
  ipc_param3 :: u32
  ipc_checksum :: u32

definition IPC_MSG_TYPE_CORE_READY :: u32 where "IPC_MSG_TYPE_CORE_READY = 1"
definition IPC_EVENT_MAILBOX_RECEIVED :: u32 where "IPC_EVENT_MAILBOX_RECEIVED = 1"
definition IPC_EVENT_SEMAPHORE_AVAILABLE :: u32 where "IPC_EVENT_SEMAPHORE_AVAILABLE = 2"
definition IPC_EVENT_CORE_READY :: u32 where "IPC_EVENT_CORE_READY = 4"
definition IPC_BLOCKING_TIMEOUT_CYCLES :: u32 where "IPC_BLOCKING_TIMEOUT_CYCLES = 1000000"

definition mp_hal_nrf54l15_ipc_calculate_checksum :: "ipc_message \<Rightarrow> u32" where
  "mp_hal_nrf54l15_ipc_calculate_checksum msg =
     (let sum = ipc_type msg + ipc_sender_core msg + ipc_receiver_core msg + ipc_param1 msg + ipc_param2 msg + ipc_param3 msg
      in sum XOR drop_bit 16 sum)"

definition mp_hal_nrf54l15_ipc_validate_checksum :: "ipc_message \<Rightarrow> bool" where
  "mp_hal_nrf54l15_ipc_validate_checksum msg \<longleftrightarrow> ipc_checksum msg = mp_hal_nrf54l15_ipc_calculate_checksum msg"

definition mp_hal_nrf54l15_ipc_init_message :: "nat \<Rightarrow> u32 \<Rightarrow> ipc_message" where
  "mp_hal_nrf54l15_ipc_init_message c ty =
     (let msg = \<lparr>ipc_type = ty, ipc_sender_core = of_nat c,
                 ipc_receiver_core = of_nat (mp_hal_nrf54l15_get_other_core_id c),
                 ipc_param1 = 0, ipc_param2 = 0, ipc_param3 = 0, ipc_checksum = 0\<rparr>
      in msg\<lparr>ipc_checksum := mp_hal_nrf54l15_ipc_calculate_checksum msg\<rparr>)"

section \<open>Events\<close>

definition mp_hal_nrf54l15_ipc_event_set :: "u32 \<Rightarrow> unit prog" where
  "mp_hal_nrf54l15_ipc_event_set event =
     Enter (Rd Ipc_event_send (\<lambda>v. Wr Ipc_event_send (v OR event) (Leave (Ret ()))))"

definition mp_hal_nrf54l15_ipc_event_clear :: "u32 \<Rightarrow> unit prog" where
  "mp_hal_nrf54l15_ipc_event_clear event =
     Enter (Rd Ipc_event_send (\<lambda>v. Wr Ipc_event_send (v AND NOT event) (Leave (Ret ()))))"

text \<open>The loops that count \<open>timeout\<close> down: \<open>while (timeout-- > 0)\<close>.\<close>

definition countdown :: "'a \<Rightarrow> (u32 \<Rightarrow> (u32 + 'a) prog) \<Rightarrow> 'a prog" where
  "countdown late round = loop_prog (\<lambda>n. if n > 0 then round (n - 1) else Ret (Inr late)) IPC_BLOCKING_TIMEOUT_CYCLES"

definition mp_hal_nrf54l15_ipc_event_wait :: "u32 \<Rightarrow> bool \<Rightarrow> unit prog" where
  "mp_hal_nrf54l15_ipc_event_wait events clear_on_exit =
     countdown () (\<lambda>n. Enter (Rd Ipc_event_receive (\<lambda>v.
       if v AND events = events
       then (if clear_on_exit
             then Rd Ipc_event_receive (\<lambda>w. Wr Ipc_event_receive (w AND NOT events) (Leave (Ret (Inr ()))))
             else Leave (Ret (Inr ())))
       else Leave (Yield (Ret (Inl n))))))"

definition mp_hal_nrf54l15_ipc_event_check :: "u32 \<Rightarrow> bool prog" where
  "mp_hal_nrf54l15_ipc_event_check event =
     Enter (Rd Ipc_event_receive (\<lambda>v. Leave (Ret (v AND event \<noteq> 0))))"

section \<open>Mailbox\<close>

text \<open>A message is sent as its first word, the type; the others stay with the sender.\<close>

definition mp_hal_nrf54l15_ipc_send_nonblocking :: "ipc_message \<Rightarrow> int prog" where
  "mp_hal_nrf54l15_ipc_send_nonblocking msg =
     Enter (Rd Ipc_mailbox_sender (\<lambda>v.
       if v = 0
       then Wr Ipc_mailbox_sender (ipc_type msg)
              (Leave (bind_prog (mp_hal_nrf54l15_ipc_event_set IPC_EVENT_MAILBOX_RECEIVED) (\<lambda>_. Ret 0)))
       else Leave (Ret (-1))))"

definition mp_hal_nrf54l15_ipc_send_blocking :: "ipc_message \<Rightarrow> int prog" where
  "mp_hal_nrf54l15_ipc_send_blocking msg =
     countdown (-1) (\<lambda>n. Enter (Rd Ipc_mailbox_sender (\<lambda>v.
       if v = 0
       then Wr Ipc_mailbox_sender (ipc_type msg)
              (Leave (bind_prog (mp_hal_nrf54l15_ipc_event_set IPC_EVENT_MAILBOX_RECEIVED) (\<lambda>_. Ret (Inr 0))))
       else Leave (Yield (Ret (Inl n))))))"

text \<open>Receiving into the message buffer \<open>msg\<close>: the return value with the buffer after the call.\<close>

definition read_mailbox :: "ipc_message \<Rightarrow> (int \<times> ipc_message) prog" where
  "read_mailbox msg =
     Rd Ipc_mailbox_receiver (\<lambda>w.
       let msg' = msg\<lparr>ipc_type := w\<rparr>
       in if \<not> mp_hal_nrf54l15_ipc_validate_checksum msg' then Leave (Ret (-1, msg'))
          else Wr Ipc_mailbox_receiver 0 (Leave (Ret (0, msg'))))"

definition mp_hal_nrf54l15_ipc_receive_nonblocking :: "ipc_message \<Rightarrow> (int \<times> ipc_message) prog" where
  "mp_hal_nrf54l15_ipc_receive_nonblocking msg =
     Enter (Rd Ipc_mailbox_receiver (\<lambda>v. if v \<noteq> 0 then read_mailbox msg else Leave (Ret (-1, msg))))"

definition mp_hal_nrf54l15_ipc_receive_blocking :: "ipc_message \<Rightarrow> (int \<times> ipc_message) prog" where
  "mp_hal_nrf54l15_ipc_receive_blocking msg =
     countdown (-1, msg) (\<lambda>n. Enter (Rd Ipc_mailbox_receiver (\<lambda>v.
       if v \<noteq> 0 then bind_prog (read_mailbox msg) (\<lambda>r. Ret (Inr r)) else Leave (Yield (Ret (Inl n))))))"

definition mp_hal_nrf54l15_ipc_message_available :: "bool prog" where
  "mp_hal_nrf54l15_ipc_message_available = Enter (Rd Ipc_mailbox_receiver (\<lambda>v. Leave (Ret (v \<noteq> 0))))"

section \<open>Semaphores\<close>

definition mp_hal_nrf54l15_ipc_semaphore_give :: "nat \<Rightarrow> unit prog" where
  "mp_hal_nrf54l15_ipc_semaphore_give sem_id =
     (if sem_id < 4
      then Enter (Wr (Ipc_semaphore sem_id) 1 (Leave (mp_hal_nrf54l15_ipc_event_set IPC_EVENT_SEMAPHORE_AVAILABLE)))
      else Ret ())"

definition mp_hal_nrf54l15_ipc_semaphore_take :: "nat \<Rightarrow> unit prog" where
  "mp_hal_nrf54l15_ipc_semaphore_take sem_id =
     (if sem_id < 4
      then countdown () (\<lambda>n. Enter (Rd (Ipc_semaphore sem_id) (\<lambda>v.
             if v \<noteq> 0 then Wr (Ipc_semaphore sem_id) 0 (Leave (Ret (Inr ()))) else Leave (Yield (Ret (Inl n))))))
      else Ret ())"

definition mp_hal_nrf54l15_ipc_semaphore_try_take :: "nat \<Rightarrow> bool prog" where
  "mp_hal_nrf54l15_ipc_semaphore_try_take sem_id =
     (if sem_id < 4
      then Enter (Rd (Ipc_semaphore sem_id) (\<lambda>v.
             if v \<noteq> 0 then Wr (Ipc_semaphore sem_id) 0 (Leave (Ret True)) else Leave (Ret False)))
      else Ret False)"

section \<open>Readiness of the cores\<close>

definition mp_hal_nrf54l15_ipc_init :: "unit prog \<Rightarrow> nat \<Rightarrow> unit prog" where
  "mp_hal_nrf54l15_ipc_init enable_interrupts c = bind_prog enable_interrupts (\<lambda>_. Wr (Core_ready c c) 0 (Ret ()))"

definition mp_hal_nrf54l15_ipc_enable_interrupts :: "unit prog" where
  "mp_hal_nrf54l15_ipc_enable_interrupts = Wr Ipc_intenset 0xFFFFFFFF (Ret ())"

definition mp_hal_nrf54l15_start_other_core :: "unit prog" where
  "mp_hal_nrf54l15_start_other_core = Wr Ipc_corestart 1 (Ret ())"

definition mp_hal_nrf54l15_signal_core_ready :: "nat \<Rightarrow> unit prog" where
  "mp_hal_nrf54l15_signal_core_ready c =
     Wr (Core_ready c c) 1
       (bind_prog (mp_hal_nrf54l15_ipc_send_nonblocking (mp_hal_nrf54l15_ipc_init_message c IPC_MSG_TYPE_CORE_READY))
          (\<lambda>_. mp_hal_nrf54l15_ipc_event_set IPC_EVENT_CORE_READY))"

text \<open>The timeout test of the waiting loops; zero is no timeout.\<close>

definition on_timeout :: "u32 \<Rightarrow> u32 \<Rightarrow> 'a prog \<Rightarrow> 'a prog \<Rightarrow> 'a prog" where
  "on_timeout timeout start late p =
     (if timeout > 0 then Ticks (\<lambda>now. if now - start \<ge> timeout then late else p) else p)"

definition mp_hal_nrf54l15_wait_for_other_core_ready :: "nat \<Rightarrow> u32 \<Rightarrow> bool prog" where
  "mp_hal_nrf54l15_wait_for_other_core_ready c timeout_ms =
     Ticks (\<lambda>start. loop_prog (\<lambda>_. Rd (Core_ready c (mp_hal_nrf54l15_get_other_core_id c)) (\<lambda>v.
       if v \<noteq> 0 then Ret (Inr True)
       else on_timeout timeout_ms start (Ret (Inr False)) (Yield (Ret (Inl ()))))) ())"

definition mp_hal_nrf54l15_core_handshake :: "nat \<Rightarrow> u32 \<Rightarrow> bool prog" where
  "mp_hal_nrf54l15_core_handshake c timeout_cycles =
     Ticks (\<lambda>start. bind_prog (mp_hal_nrf54l15_signal_core_ready c) (\<lambda>_.
       loop_prog (\<lambda>_. bind_prog (mp_hal_nrf54l15_wait_for_other_core_ready c timeout_cycles) (\<lambda>r.
         if r then Ret (Inr True)
         else on_timeout timeout_cycles start (Ret (Inr False)) (Yield (Ret (Inl ()))))) ()))"

section \<open>Barrier\<close>

definition mp_hal_nrf54l15_core_barrier_init :: "unit prog" where
  "mp_hal_nrf54l15_core_barrier_init = Wr Cores_arrived 0 (Wr Cores_released 0 (Ret ()))"

definition arrive_loop :: "nat \<Rightarrow> u32 \<Rightarrow> u32 \<Rightarrow> bool prog" where
  "arrive_loop c timeout start =
     loop_prog (\<lambda>_. Enter (Rd Cores_arrived (\<lambda>v.
       if v = push_bit (unat CORE_ID_COUNT) 1 - 1 then Leave (Ret (Inr True))
       else Leave (on_timeout timeout start
              (Enter (Rd Cores_arrived (\<lambda>w. Wr Cores_arrived (w AND NOT (core_bit c)) (Leave (Ret (Inr False))))))
              (Yield (Ret (Inl ()))))))) ()"

definition release_loop :: "nat \<Rightarrow> bool prog" where
  "release_loop c =
     loop_prog (\<lambda>_. Enter (Rd Cores_released (\<lambda>v.
       if v AND core_bit c \<noteq> 0 then Leave (Ret (Inr True)) else Leave (Yield (Ret (Inl ())))))) ()"

definition mp_hal_nrf54l15_core_barrier_wait :: "nat \<Rightarrow> u32 \<Rightarrow> bool prog" where
  "mp_hal_nrf54l15_core_barrier_wait c timeout_cycles =
     Ticks (\<lambda>start. Enter (Rd Cores_arrived (\<lambda>v. Wr Cores_arrived (v OR core_bit c) (Leave
       (bind_prog (arrive_loop c timeout_cycles start) (\<lambda>arrived. if arrived then release_loop c else Ret False))))))"

definition mp_hal_nrf54l15_core_barrier_release :: "unit prog" where
  "mp_hal_nrf54l15_core_barrier_release =
     Enter (Wr Cores_released (push_bit (unat CORE_ID_COUNT) 1 - 1) (Leave (Ret ())))"

section \<open>Rendezvous\<close>

definition mp_hal_nrf54l15_core_rendezvous_init :: "unit prog" where
  "mp_hal_nrf54l15_core_rendezvous_init =
     Wr (Rendezvous_ready 0) 0 (Wr (Rendezvous_data 0) 0 (Wr (Rendezvous_ready 1) 0 (Wr (Rendezvous_data 1) 0 (Ret ()))))"

definition mp_hal_nrf54l15_core_sync_init :: "unit prog" where
  "mp_hal_nrf54l15_core_sync_init =
     bind_prog mp_hal_nrf54l15_core_barrier_init (\<lambda>_. mp_hal_nrf54l15_core_rendezvous_init)"

definition mp_hal_nrf54l15_core_rendezvous :: "nat \<Rightarrow> u32 \<Rightarrow> u32 \<Rightarrow> u32 prog" where
  "mp_hal_nrf54l15_core_rendezvous c data timeout_cycles =
     (let d = mp_hal_nrf54l15_get_other_core_id c
      in Ticks (\<lambda>start. Enter (Wr (Rendezvous_data c) data (Wr (Rendezvous_ready c) 1 (Leave
           (loop_prog (\<lambda>_. Enter (Rd (Rendezvous_ready d) (\<lambda>v.
              if v \<noteq> 0
              then Rd (Rendezvous_data d) (\<lambda>other_data.
                     Wr (Rendezvous_ready c) 0 (Wr (Rendezvous_ready d) 0 (Leave (Ret (Inr other_data)))))
              else Leave (on_timeout timeout_cycles start
                     (Enter (Wr (Rendezvous_ready c) 0 (Leave (Ret (Inr 0)))))
                     (Yield (Ret (Inl ()))))))) ()))))))"

section \<open>Spinlocks\<close>

definition mp_hal_nrf54l15_spinlock_acquire :: "nat \<Rightarrow> spin \<Rightarrow> u32 \<Rightarrow> bool prog" where
  "mp_hal_nrf54l15_spinlock_acquire c lock timeout_cycles =
     Ticks (\<lambda>start. loop_prog (\<lambda>_. Enter (Rd (Spin_locked lock) (\<lambda>v.
       if v = 0 then Wr (Spin_locked lock) 1 (Wr (Spin_owner lock) (of_nat c) (Leave (Ret (Inr True))))
       else Leave (on_timeout timeout_cycles start (Ret (Inr False)) (Yield (Ret (Inl ()))))))) ())"

definition mp_hal_nrf54l15_spinlock_release :: "nat \<Rightarrow> spin \<Rightarrow> unit prog" where
  "mp_hal_nrf54l15_spinlock_release c lock =
     Enter (Rd (Spin_owner lock) (\<lambda>ow.
       if ow = of_nat c
       then Rd (Spin_locked lock) (\<lambda>v.
              if v \<noteq> 0 then Wr (Spin_locked lock) 0 (Wr (Spin_owner lock) CORE_ID_COUNT (Leave (Ret ())))
              else Leave (Ret ()))
       else Leave (Ret ())))"

definition mp_hal_nrf54l15_spinlock_try_acquire :: "nat \<Rightarrow> spin \<Rightarrow> bool prog" where
  "mp_hal_nrf54l15_spinlock_try_acquire c lock =
     Enter (Rd (Spin_locked lock) (\<lambda>v.
       if v = 0 then Wr (Spin_locked lock) 1 (Wr (Spin_owner lock) (of_nat c) (Leave (Ret True)))
       else Leave (Ret False)))"

section \<open>Cross-core mutexes\<close>

text \<open>Mutex \<open>i\<close> of the shared memory; \<open>tid\<close> is \<open>mp_scheduler_get_current_thread_id()\<close>.\<close>

definition take_mutex :: "nat \<Rightarrow> u32 \<Rightarrow> nat \<Rightarrow> 'a prog \<Rightarrow> 'a prog" where
  "take_mutex c tid i p = Wr (Mutex_owner_core i) (of_nat c) (Wr (Mutex_owner_thread i) tid (Wr (Mutex_recursion i) 1 p))"

definition clear_waiting :: "nat \<Rightarrow> nat \<Rightarrow> 'a prog \<Rightarrow> 'a prog" where
  "clear_waiting c i p = Rd (Mutex_waiting i) (\<lambda>w. Wr (Mutex_waiting i) (w AND NOT (core_bit c)) p)"

definition unlock_and :: "nat \<Rightarrow> nat \<Rightarrow> 'a prog \<Rightarrow> 'a prog" where
  "unlock_and c i p = bind_prog (mp_hal_nrf54l15_spinlock_release c (Mutex_lock i)) (\<lambda>_. p)"

definition mutex_wait :: "nat \<Rightarrow> u32 \<Rightarrow> nat \<Rightarrow> u32 \<Rightarrow> u32 \<Rightarrow> bool prog" where
  "mutex_wait c tid i timeout start =
     loop_prog (\<lambda>_. bind_prog (mp_hal_nrf54l15_spinlock_acquire c (Mutex_lock i) 100) (\<lambda>ok.
       if \<not> ok
       then on_timeout timeout start (clear_waiting c i (unlock_and c i (Ret (Inr False)))) (Ret (Inl ()))
       else Rd (Mutex_owner_core i) (\<lambda>oc.
              if oc = CORE_ID_COUNT then take_mutex c tid i (clear_waiting c i (unlock_and c i (Ret (Inr True))))
              else unlock_and c i (Yield (Ret (Inl ())))))) ()"

definition mutex_contend :: "nat \<Rightarrow> u32 \<Rightarrow> nat \<Rightarrow> u32 \<Rightarrow> u32 \<Rightarrow> bool prog" where
  "mutex_contend c tid i timeout start =
     Rd (Mutex_owner_core i) (\<lambda>oc.
       if oc = CORE_ID_COUNT then take_mutex c tid i (unlock_and c i (Ret True))
       else Rd (Mutex_waiting i) (\<lambda>w. Wr (Mutex_waiting i) (w OR core_bit c)
              (unlock_and c i (mutex_wait c tid i timeout start))))"

definition mp_hal_nrf54l15_cross_core_mutex_lock :: "nat \<Rightarrow> u32 \<Rightarrow> nat \<Rightarrow> u32 \<Rightarrow> bool prog" where
  "mp_hal_nrf54l15_cross_core_mutex_lock c tid i timeout_cycles =
     Ticks (\<lambda>start. bind_prog (mp_hal_nrf54l15_spinlock_acquire c (Mutex_lock i) timeout_cycles) (\<lambda>ok.
       if \<not> ok then Ret False
       else Rd (Mutex_owner_core i) (\<lambda>oc.
              if oc = of_nat c
              then Rd (Mutex_owner_thread i) (\<lambda>ot.
                     if ot = tid
                     then Rd (Mutex_recursion i) (\<lambda>r. Wr (Mutex_recursion i) (r + 1) (unlock_and c i (Ret True)))
                     else mutex_contend c tid i timeout_cycles start)
              else mutex_contend c tid i timeout_cycles start)))"

definition mp_hal_nrf54l15_cross_core_mutex_unlock :: "nat \<Rightarrow> u32 \<Rightarrow> nat \<Rightarrow> unit prog" where
  "mp_hal_nrf54l15_cross_core_mutex_unlock c tid i =
     bind_prog (mp_hal_nrf54l15_spinlock_acquire c (Mutex_lock i) 0) (\<lambda>_.
       Rd (Mutex_owner_core i) (\<lambda>oc.
         if oc = of_nat c
         then Rd (Mutex_owner_thread i) (\<lambda>ot.
                if ot = tid
                then Rd (Mutex_recursion i) (\<lambda>r.
                       if r > 1 then Rd (Mutex_recursion i) (\<lambda>r'. Wr (Mutex_recursion i) (r' - 1) (unlock_and c i (Ret ())))
                       else Wr (Mutex_owner_core i) CORE_ID_COUNT (Wr (Mutex_owner_thread i) 0
                              (Wr (Mutex_recursion i) 0 (unlock_and c i (Ret ())))))
                else unlock_and c i (Ret ()))
         else unlock_and c i (Ret ())))"

section \<open>Thread registry\<close>

text \<open>Names are C strings, without the terminator, cut to the fifteen characters of the field.\<close>

record shared_thread_entry =
  e_tcb :: "tcb_ref option"
  e_core_id :: u32
  e_global_thread_id :: u32
  e_local_thread_id :: u32
  e_name :: string
  e_state :: mp_thread_state
  e_priority :: u32
  e_is_active :: bool

record shared_thread_registry =
  reg_threads :: "shared_thread_entry list"
  thread_count :: u32
  next_global_id :: u32

definition MAX_SHARED_THREADS :: nat where "MAX_SHARED_THREADS = 64"

definition init_registry :: "shared_thread_registry \<Rightarrow> shared_thread_registry" where
  "init_registry r =
     r\<lparr>thread_count := 0, next_global_id := 0,
       reg_threads := map (\<lambda>e. e\<lparr>e_tcb := None, e_is_active := False\<rparr>) (take MAX_SHARED_THREADS (reg_threads r)) @
                      drop MAX_SHARED_THREADS (reg_threads r)\<rparr>"

definition shared_memory_words :: "(loc \<times> u32) list" where
  "shared_memory_words =
     concat (map (\<lambda>i. [(Mailbox_message i, 0), (Mailbox_sender_core i, CORE_ID_COUNT), (Mailbox_has_message i, 0)]) [0, 1]) @
     concat (map (\<lambda>i. [(Semaphore_count i, 0), (Semaphore_waiting i, CORE_ID_COUNT)]) [0..<4]) @
     [(Event_flags, 0), (Spin_locked Global_lock, 0), (Spin_owner Global_lock, CORE_ID_COUNT)] @
     concat (map (\<lambda>i. [(Mutex_owner_core i, CORE_ID_COUNT), (Mutex_owner_thread i, 0), (Mutex_recursion i, 0),
                       (Mutex_waiting i, 0), (Spin_locked (Mutex_lock i), 0), (Spin_owner (Mutex_lock i), CORE_ID_COUNT)])
                 [0..<8]) @
     [(Core_ready_flags, 0), (System_tick, 0), (Last_activity 0, 0), (Last_activity 1, 0)]"

definition mp_hal_nrf54l15_shared_memory_init ::
  "shared_thread_registry \<times> memory \<Rightarrow> shared_thread_registry \<times> memory" where
  "mp_hal_nrf54l15_shared_memory_init s =
     (init_registry (fst s), fold (\<lambda>(l, v) m. m(l := v)) shared_memory_words (snd s))"

text \<open>The accessors of the shared memory: mailbox 0 is \<open>mailbox_m33_to_rv32\<close>, mailbox 1 the other one.\<close>

definition mp_hal_nrf54l15_get_send_mailbox :: "nat \<Rightarrow> nat" where
  "mp_hal_nrf54l15_get_send_mailbox from_core = (if from_core = CORE_ID_M33 then 0 else 1)"

definition mp_hal_nrf54l15_get_receive_mailbox :: "nat \<Rightarrow> nat" where
  "mp_hal_nrf54l15_get_receive_mailbox to_core = (if to_core = CORE_ID_M33 then 1 else 0)"

definition mp_hal_nrf54l15_get_semaphore :: "u32 \<Rightarrow> nat option" where
  "mp_hal_nrf54l15_get_semaphore sem_id = (if sem_id \<ge> 4 then None else Some (unat sem_id))"

definition mp_hal_nrf54l15_get_cross_core_mutex :: "u32 \<Rightarrow> nat option" where
  "mp_hal_nrf54l15_get_cross_core_mutex mutex_id = (if mutex_id \<ge> 8 then None else Some (unat mutex_id))"

text \<open>The loops over the entries look for the first one; an entry is known by its index.\<close>

definition find_entry :: "(shared_thread_entry \<Rightarrow> bool) \<Rightarrow> shared_thread_registry \<Rightarrow> nat option" where
  "find_entry P r = find (\<lambda>i. P (reg_threads r ! i)) [0..<MAX_SHARED_THREADS]"

definition has_id :: "u32 \<Rightarrow> shared_thread_entry \<Rightarrow> bool" where
  "has_id g e \<longleftrightarrow> e_global_thread_id e = g \<and> e_is_active e"

definition mp_hal_nrf54l15_register_shared_thread ::
  "(tcb_ref \<Rightarrow> mp_tcb) \<Rightarrow> tcb_ref \<Rightarrow> u32 \<Rightarrow> string \<Rightarrow> shared_thread_registry \<Rightarrow> int \<times> shared_thread_registry" where
  "mp_hal_nrf54l15_register_shared_thread tcb_store tcb core_id name r =
     (case find_entry (\<lambda>e. \<not> e_is_active e) r of
        None \<Rightarrow> (-1, r)
      | Some i \<Rightarrow>
          let g = next_global_id r; t = tcb_store tcb
          in (sint g,
              r\<lparr>next_global_id := g + 1, thread_count := thread_count r + 1,
                reg_threads := (reg_threads r)[i :=
                  \<lparr>e_tcb = Some tcb, e_core_id = core_id, e_global_thread_id = g, e_local_thread_id = tcb_id t,
                   e_name = take 15 name, e_state = tcb_state t, e_priority = ucast (priority t), e_is_active = True\<rparr>]\<rparr>))"

definition mp_hal_nrf54l15_unregister_shared_thread ::
  "u32 \<Rightarrow> shared_thread_registry \<Rightarrow> int \<times> shared_thread_registry" where
  "mp_hal_nrf54l15_unregister_shared_thread g r =
     (case find_entry (has_id g) r of
        None \<Rightarrow> (-1, r)
      | Some i \<Rightarrow>
          (0, r\<lparr>thread_count := thread_count r - 1,
                reg_threads := (reg_threads r)[i := (reg_threads r ! i)\<lparr>e_is_active := False, e_tcb := None\<rparr>]\<rparr>))"

definition mp_hal_nrf54l15_lookup_shared_thread :: "u32 \<Rightarrow> shared_thread_registry \<Rightarrow> nat option" where
  "mp_hal_nrf54l15_lookup_shared_thread g r = find_entry (has_id g) r"

end
