(* ===== verification/CoreShared_Correct.thy ===== *)
theory CoreShared_Correct
  imports CoreShared
begin

text \<open>
  What the layer between the cores does.  Two cores exclude each other with a spinlock only if a critical section of one
  core stopped the other; the barrier lets nobody pass until somebody who does not wait releases it, and is spent after
  one use; the handshake cannot succeed; a message cannot be received; a waiting core ignores its timeout.
\<close>

section \<open>Spinlocks\<close>

definition spin_inv :: "spin \<Rightarrow> (nat \<Rightarrow> bool) \<Rightarrow> memory \<Rightarrow> bool" where
  "spin_inv L G m \<longleftrightarrow> (\<forall>c d. G c \<longrightarrow> G d \<longrightarrow> c = d) \<and> (m (Spin_locked L) = 0 \<longrightarrow> (\<forall>c. \<not> G c))"

lemma spin_acquire_guarded:
  "guarded (spin_inv L) c (\<lambda>r h. r = h) (Outside False) (mp_hal_nrf54l15_spinlock_acquire c L T)"
  unfolding mp_hal_nrf54l15_spinlock_acquire_def guarded_simps
proof (intro allI guarded_loop [where I = "\<lambda>_ h. \<not> h"])
  fix start :: u32 and s :: unit and h :: bool
  assume h: "\<not> h"
  show "guarded (spin_inv L) c (\<lambda>r h. case r of Inl s' \<Rightarrow> \<not> h | Inr a \<Rightarrow> a = h) (Outside h)
    (Enter (Rd (Spin_locked L) (\<lambda>v.
       if v = 0 then Wr (Spin_locked L) 1 (Wr (Spin_owner L) (of_nat c) (Leave (Ret (Inr True))))
       else Leave (on_timeout T start (Ret (Inr False)) (Yield (Ret (Inl ())))))))"
    unfolding guarded_simps
  proof (intro allI impI)
    fix G m
    assume j: "spin_inv L G m" and g: "G c = h"
    show "guarded (spin_inv L) c (\<lambda>r h. case r of Inl s' \<Rightarrow> \<not> h | Inr a \<Rightarrow> a = h) (Inside G m)
       (if m (Spin_locked L) = 0 then Wr (Spin_locked L) 1 (Wr (Spin_owner L) (of_nat c) (Leave (Ret (Inr True))))
       else Leave (on_timeout T start (Ret (Inr False)) (Yield (Ret (Inl ())))))"
    proof (cases "m (Spin_locked L) = 0")
      case True
      then have "spin_inv L (G(c := True)) (m(Spin_locked L := 1, Spin_owner L := of_nat c))"
        using j by (simp add: spin_inv_def)
      then show ?thesis using True by auto
    next
      case False
      have "spin_inv L (G(c := False)) m" using j g h by (simp add: fun_upd_idem)
      moreover have "guarded (spin_inv L) c (\<lambda>r h. case r of Inl s' \<Rightarrow> \<not> h | Inr a \<Rightarrow> a = h) (Outside False)
          (on_timeout T start (Ret (Inr False)) (Yield (Ret (Inl ()))))" by (simp add: on_timeout_def)
      ultimately show ?thesis using False by auto
    qed
  qed
qed simp

text \<open>The core has returned \<open>r\<close> after the steps \<open>es\<close>, when core \<open>c\<close> runs \<open>ps c\<close>.\<close>

definition returned :: "bool \<Rightarrow> (nat \<Rightarrow> 'a prog) \<Rightarrow> memory \<Rightarrow> (nat \<times> u32) list \<Rightarrow> nat \<Rightarrow> 'a \<Rightarrow> bool" where
  "returned excl ps m es c r \<longleftrightarrow> core_prog (run_cores excl (steps es) (start_cores ps m)) c = Ret r"

lemma guarded_returned:
  assumes "\<And>c. guarded J c (Q c) (Outside (G c)) (ps c)" and "J G m"
  shows "\<exists>G' m'. J G' m' \<and> (\<forall>c a. returned True ps m es c a \<longrightarrow> Q c a (G' c))"
  using guarded_interleaved [OF assms] by (simp add: returned_def)

text \<open>
  C20. Spinlocks need what the code does not give them.  If a critical section kept the other core out, then of the
  programs that acquire a free spinlock at most one would get it, in every interleaving.  But
  \<open>mp_hal_cpu_enter_critical\<close> only masks the interrupts of its own core, and with that there is an interleaving in which
  both cores read the lock as free and both acquire it.
\<close>

theorem spinlock_exclusion:
  assumes "m (Spin_locked L) = 0"
  shows "(\<forall>es c d. returned True (\<lambda>c. mp_hal_nrf54l15_spinlock_acquire c L (T c)) m es c True \<and>
      returned True (\<lambda>c. mp_hal_nrf54l15_spinlock_acquire c L (T c)) m es d True \<longrightarrow> c = d) \<and>
    (\<exists>es. returned False (\<lambda>c. mp_hal_nrf54l15_spinlock_acquire c L (T c)) m es CORE_ID_M33 True \<and>
      returned False (\<lambda>c. mp_hal_nrf54l15_spinlock_acquire c L (T c)) m es CORE_ID_RV32 True)"
proof (intro conjI allI impI)
  fix es c d
  let ?ps = "\<lambda>c. mp_hal_nrf54l15_spinlock_acquire c L (T c)"
  assume r: "returned True ?ps m es c True \<and> returned True ?ps m es d True"
  have "spin_inv L (\<lambda>_. False) m" by (simp add: spin_inv_def)
  then obtain G m' where "spin_inv L G m'" "\<And>c a. returned True ?ps m es c a \<Longrightarrow> a = G c"
    using guarded_returned [where J = "spin_inv L" and Q = "\<lambda>c r h. r = h" and G = "\<lambda>_. False" and ps = ?ps]
      spin_acquire_guarded by blast
  then show "c = d" using r by (auto simp: spin_inv_def)
next
  show "\<exists>es. returned False (\<lambda>c. mp_hal_nrf54l15_spinlock_acquire c L (T c)) m es CORE_ID_M33 True \<and>
      returned False (\<lambda>c. mp_hal_nrf54l15_spinlock_acquire c L (T c)) m es CORE_ID_RV32 True"
    using assms
    by (intro exI [of _ "[(0, 0), (1, 0), (0, 0), (1, 0), (0, 0), (1, 0), (0, 0), (1, 0), (0, 0), (1, 0), (0, 0), (1, 0)]"])
      (simp add: returned_def steps_def start_cores_def step_event_def step_core_def
        mp_hal_nrf54l15_spinlock_acquire_def loop_prog_def core_id_defs)
qed

lemma spinlock_exclusion_witness:
  "\<exists>es. returned False (\<lambda>c. mp_hal_nrf54l15_spinlock_acquire c Global_lock 100)
      (snd (mp_hal_nrf54l15_shared_memory_init (\<lparr>reg_threads = [], thread_count = 0, next_global_id = 0\<rparr>, \<lambda>_. 7))) es
      CORE_ID_RV32 True"
  using spinlock_exclusion [of "snd (mp_hal_nrf54l15_shared_memory_init
      (\<lparr>reg_threads = [], thread_count = 0, next_global_id = 0\<rparr>, \<lambda>_. 7))" Global_lock "\<lambda>_. 100"]
  by (auto simp: mp_hal_nrf54l15_shared_memory_init_def shared_memory_words_def upt_rec)

section \<open>Rendezvous\<close>

datatype meeting = Away | Waiting | Met | Given_up

definition meet_inv :: "(nat \<Rightarrow> u32) \<Rightarrow> (nat \<Rightarrow> meeting) \<Rightarrow> memory \<Rightarrow> bool" where
  "meet_inv D G m \<longleftrightarrow>
     (\<forall>c < 2. (m (Rendezvous_ready c) \<noteq> 0 \<longrightarrow> G c = Waiting) \<and> (G c = Waiting \<longrightarrow> m (Rendezvous_data c) = D c)) \<and>
     \<not> (G 0 = Met \<and> G 1 = Met)"

definition meet_result :: "(nat \<Rightarrow> u32) \<Rightarrow> u32 \<Rightarrow> nat \<Rightarrow> u32 \<Rightarrow> meeting \<Rightarrow> bool" where
  "meet_result D T c r h \<longleftrightarrow>
     h = Met \<and> r = D (mp_hal_nrf54l15_get_other_core_id c) \<or> h = Given_up \<and> r = 0 \<and> T \<noteq> 0"

lemma other_core:
  "c < 2 \<Longrightarrow> mp_hal_nrf54l15_get_other_core_id c < 2 \<and> mp_hal_nrf54l15_get_other_core_id c = 1 - c \<and>
    mp_hal_nrf54l15_get_other_core_id c \<noteq> c"
  by (auto simp: mp_hal_nrf54l15_get_other_core_id_def core_id_defs less_2_cases_iff)

lemma meet_inv_step:
  assumes "meet_inv D G m" and c: "c < 2"
  shows "meet_inv D (G(c := Waiting)) (m(Rendezvous_data c := D c, Rendezvous_ready c := 1))"
    and "meet_inv D (G(c := Given_up)) (m(Rendezvous_ready c := 0))"
    and "m (Rendezvous_ready (1 - c)) \<noteq> 0 \<Longrightarrow>
      meet_inv D (G(c := Met)) (m(Rendezvous_ready c := 0, Rendezvous_ready (1 - c) := 0))"
  using assms by (auto simp: meet_inv_def less_2_cases_iff numeral_2_eq_2)

lemma rendezvous_guarded:
  assumes c: "c < 2"
  shows "guarded (meet_inv D) c (meet_result D T c) (Outside Away) (mp_hal_nrf54l15_core_rendezvous c (D c) T)"
  unfolding mp_hal_nrf54l15_core_rendezvous_def Let_def guarded_simps
proof (intro allI impI exI [of _ Waiting] conjI guarded_loop [where I = "\<lambda>_ h. h = Waiting"])
  fix start G m
  assume "meet_inv D G m" "G c = Away"
  then show "meet_inv D (G(c := Waiting)) (m(Rendezvous_data c := D c, Rendezvous_ready c := 1))"
    using meet_inv_step(1) c by blast
next
  fix start G m and s :: unit and h
  assume h: "h = Waiting"
  let ?d = "mp_hal_nrf54l15_get_other_core_id c"
  let ?Q = "\<lambda>r h. case r of Inl s' \<Rightarrow> h = Waiting | Inr a \<Rightarrow> meet_result D T c a h"
  show "guarded (meet_inv D) c ?Q (Outside h) (Enter (Rd (Rendezvous_ready ?d) (\<lambda>v.
      if v \<noteq> 0
      then Rd (Rendezvous_data ?d) (\<lambda>other_data.
        Wr (Rendezvous_ready c) 0 (Wr (Rendezvous_ready ?d) 0 (Leave (Ret (Inr other_data)))))
      else Leave (on_timeout T start (Enter (Wr (Rendezvous_ready c) 0 (Leave (Ret (Inr 0))))) (Yield (Ret (Inl ())))))))"
    unfolding guarded_simps
  proof (intro allI impI)
    fix G m
    assume j: "meet_inv D G m" and g: "G c = h"
    note d = other_core [OF c]
    show "guarded (meet_inv D) c ?Q (Inside G m)
     (if m (Rendezvous_ready ?d) \<noteq> 0
      then Rd (Rendezvous_data ?d) (\<lambda>other_data.
        Wr (Rendezvous_ready c) 0 (Wr (Rendezvous_ready ?d) 0 (Leave (Ret (Inr other_data)))))
      else Leave (on_timeout T start (Enter (Wr (Rendezvous_ready c) 0 (Leave (Ret (Inr 0))))) (Yield (Ret (Inl ())))))"
    proof (cases "m (Rendezvous_ready ?d) = 0")
      case False
      then have "meet_inv D (G(c := Met)) (m(Rendezvous_ready c := 0, Rendezvous_ready ?d := 0))"
        using meet_inv_step(3) [OF j c] d by simp
      moreover have "m (Rendezvous_data ?d) = D ?d" using j False d by (auto simp: meet_inv_def)
      ultimately show ?thesis using False by (auto simp: meet_result_def intro!: exI [of _ Met])
    next
      case True
      have "meet_inv D (G(c := Waiting)) m" using j g h by (simp add: fun_upd_idem)
      moreover have "guarded (meet_inv D) c ?Q (Outside Waiting)
          (on_timeout T start (Enter (Wr (Rendezvous_ready c) 0 (Leave (Ret (Inr 0))))) (Yield (Ret (Inl ()))))"
        using meet_inv_step(2) c by (auto simp: on_timeout_def meet_result_def intro!: exI [of _ Given_up])
      ultimately show ?thesis using True by auto
    qed
  qed
qed simp

text \<open>There are two cores; a third index runs nothing.\<close>

definition idle_prog :: "'a prog" where
  "idle_prog = loop_prog (\<lambda>_. Yield (Ret (Inl ()))) ()"

definition both :: "(nat \<Rightarrow> 'a prog) \<Rightarrow> nat \<Rightarrow> 'a prog" where
  "both ps c = (if c < 2 then ps c else idle_prog)"

lemma idle_guarded: "guarded J c Q (Outside h) idle_prog"
  unfolding idle_prog_def by (rule guarded_loop [where I = "\<lambda>_ _. True"]) simp_all

lemma idle_keeps: "keeps A Q idle_prog"
  unfolding idle_prog_def by (rule keeps_loop [where I = "\<lambda>_. True"]) simp_all

text \<open>
  At a rendezvous somebody is left behind.  With critical sections that kept the other core out, a core that returns
  from \<open>mp_hal_nrf54l15_core_rendezvous\<close> has the data of the other core, or zero after a timeout; but the core that
  finds its partner ready clears the ready flags of both, so without a timeout the two cores never both return, in any
  interleaving: the partner waits for a flag that is no longer set.
\<close>

theorem rendezvous_one_returns:
  assumes "m (Rendezvous_ready 0) = 0" "m (Rendezvous_ready 1) = 0" and "c < 2"
  shows "(returned True (both (\<lambda>c. mp_hal_nrf54l15_core_rendezvous c (D c) (T c))) m es c r \<longrightarrow>
      r = D (1 - c) \<or> r = 0 \<and> T c \<noteq> 0) \<and>
    (T 0 = 0 \<and> T 1 = 0 \<longrightarrow>
      \<not> (returned True (both (\<lambda>c. mp_hal_nrf54l15_core_rendezvous c (D c) (T c))) m es 0 r0 \<and>
         returned True (both (\<lambda>c. mp_hal_nrf54l15_core_rendezvous c (D c) (T c))) m es 1 r1))"
proof -
  let ?ps = "both (\<lambda>c. mp_hal_nrf54l15_core_rendezvous c (D c) (T c))"
  have j: "meet_inv D (\<lambda>_. Away) m" using assms by (simp add: meet_inv_def less_2_cases_iff)
  have g: "guarded (meet_inv D) c (meet_result D (T c) c) (Outside Away) (?ps c)" for c
    using rendezvous_guarded [of c D "T c"] idle_guarded by (auto simp: both_def)
  obtain G m' where G: "meet_inv D G m'" "\<And>c a. returned True ?ps m es c a \<Longrightarrow> meet_result D (T c) c a (G c)"
    using guarded_returned [where J = "meet_inv D" and Q = "\<lambda>c. meet_result D (T c) c" and G = "\<lambda>_. Away" and ps = ?ps,
        OF g j] by blast
  have "r = D (1 - c) \<or> r = 0 \<and> T c \<noteq> 0" if "returned True ?ps m es c r"
    using G(2) [OF that] other_core [OF assms(3)] by (auto simp: meet_result_def)
  moreover have False if "T 0 = 0" "T 1 = 0" "returned True ?ps m es 0 r0" "returned True ?ps m es 1 r1"
    using G(1) G(2) [OF that(3)] G(2) [OF that(4)] that(1,2) by (simp add: meet_result_def meet_inv_def)
  ultimately show ?thesis by blast
qed

lemma rendezvous_one_returns_witness:
  "\<forall>r0 r1. \<not> (returned True (both (\<lambda>c. mp_hal_nrf54l15_core_rendezvous c (of_nat c + 5) 0)) (\<lambda>_. 0) [(0, 1), (1, 1), (0, 2)] 0 r0 \<and>
      returned True (both (\<lambda>c. mp_hal_nrf54l15_core_rendezvous c (of_nat c + 5) 0)) (\<lambda>_. 0) [(0, 1), (1, 1), (0, 2)] 1 r1)"
  using rendezvous_one_returns [where m = "\<lambda>_. 0" and c = 0 and D = "\<lambda>c. of_nat c + 5" and T = "\<lambda>_. 0"] by simp

section \<open>Barrier\<close>

text \<open>Nobody writes the release mask.\<close>

definition unreleased :: "loc \<Rightarrow> u32 \<Rightarrow> bool" where
  "unreleased l v \<longleftrightarrow> l = Cores_released \<longrightarrow> v = 0"

lemma unreleased_simps [simp]:
  "unreleased Cores_released v \<longleftrightarrow> v = 0" "unreleased Cores_arrived v"
  by (simp_all add: unreleased_def)

lemma barrier_wait_keeps: "keeps unreleased (\<lambda>r. \<not> r \<and> T \<noteq> 0) (mp_hal_nrf54l15_core_barrier_wait c T)"
proof -
  have "keeps unreleased (\<lambda>r. T = 0 \<longrightarrow> r) (arrive_loop c T start)" for start
    unfolding arrive_loop_def by (rule keeps_loop [where I = "\<lambda>_. True"]) (auto simp: on_timeout_def word_gt_0)
  moreover have "keeps unreleased (\<lambda>r. False) (release_loop c)"
    unfolding release_loop_def by (rule keeps_loop [where I = "\<lambda>_. True"]) simp_all
  ultimately show ?thesis
    by (auto simp: mp_hal_nrf54l15_core_barrier_wait_def intro!: keeps_bind [where R = "\<lambda>r. T = 0 \<longrightarrow> r"] elim!: keeps_mono)
qed

lemma keeps_returned:
  assumes "\<And>c. keeps A (Q c) (ps c)" and "\<And>l. A l (m l)" and "\<And>l v. is_register l \<Longrightarrow> A l v"
    and "returned excl ps m es c r"
  shows "Q c r"
  using assms keeps_never_returns [of A Q "start_cores ps m" excl "steps es" c r] by (simp add: returned_def start_cores_def)

lemma arrive_loop_passes: "m Cores_arrived = 3 \<Longrightarrow> ends (arrive_loop c T st) m (\<lambda>r m'. r \<and> m' = m)"
  by (simp add: arrive_loop_def loop_prog_def core_id_defs)

lemma release_loop_passes:
  "m Cores_released AND core_bit c \<noteq> 0 \<Longrightarrow> ends (release_loop c) m (\<lambda>r m'. r \<and> m' = m)"
  by (simp add: release_loop_def loop_prog_def)

text \<open>The use of the barrier in \<open>src/platform/nrf54l15/README.md\<close>, with the timeout as a parameter.\<close>

definition synchronize_cores :: "u32 \<Rightarrow> nat \<Rightarrow> bool prog" where
  "synchronize_cores T c =
     bind_prog (mp_hal_nrf54l15_core_barrier_wait c T) (\<lambda>r.
       if c = CORE_ID_M33 then bind_prog mp_hal_nrf54l15_core_barrier_release (\<lambda>_. Ret r) else Ret r)"

text \<open>
  The protocol in two phases: until the M33 core has left its wait nobody releases the barrier; from then on the M33 core
  returns what its wait returned.
\<close>

definition before_release :: "u32 \<Rightarrow> bool cores \<Rightarrow> bool" where
  "before_release T s \<longleftrightarrow>
     (\<exists>p. core_prog s 0 = bind_prog p (\<lambda>r. bind_prog mp_hal_nrf54l15_core_barrier_release (\<lambda>_. Ret r)) \<and>
        keeps unreleased (\<lambda>r. \<not> r \<and> T \<noteq> 0) p) \<and>
     (\<forall>d. d \<noteq> 0 \<longrightarrow> keeps unreleased (\<lambda>_. True) (core_prog s d)) \<and> (\<forall>l. unreleased l (mem s l))"

definition after_wait :: "u32 \<Rightarrow> bool cores \<Rightarrow> bool" where
  "after_wait T s \<longleftrightarrow> keeps (\<lambda>_ _. True) (\<lambda>r. \<not> r \<and> T \<noteq> 0) (core_prog s 0)"

lemma after_wait_step: "after_wait T s \<Longrightarrow> after_wait T (step_event excl e s)"
  by (cases e) (auto simp: after_wait_def step_event_def step_core_def keeps_Do_iff split: prog.splits)

lemma keeps_step:
  assumes "keeps A Q (Do x k)" and "\<forall>l. A l (m l)"
  shows "keeps A Q (k (action_word t m x))" and "\<forall>l. A l (action_memory x m l)"
  using assms by (auto simp: keeps_Do_iff action_memory_def split: action.splits)

lemma before_release_step:
  assumes i: "before_release T s"
  shows "before_release T (step_event excl e s) \<or> after_wait T (step_event excl e s)"
proof (cases e)
  case (Device l v)
  have "is_register l \<Longrightarrow> unreleased l v" by (cases l) (simp_all add: unreleased_def)
  then show ?thesis using i Device by (auto simp: before_release_def step_event_def)
next
  case (Run c t)
  obtain p where p: "core_prog s 0 = bind_prog p (\<lambda>r. bind_prog mp_hal_nrf54l15_core_barrier_release (\<lambda>_. Ret r))"
      "keeps unreleased (\<lambda>r. \<not> r \<and> T \<noteq> 0) p"
    and o: "\<And>d. d \<noteq> 0 \<Longrightarrow> keeps unreleased (\<lambda>_. True) (core_prog s d)" and m: "\<forall>l. unreleased l (mem s l)"
    using i unfolding before_release_def by blast
  show ?thesis
  proof (cases p)
    case (Ret a)
    then have "after_wait T s" using p by (simp add: after_wait_def mp_hal_nrf54l15_core_barrier_release_def)
    then show ?thesis using after_wait_step by blast
  next
    case p0: (Do x k)
    have z: "core_prog s 0 = Do x (\<lambda>v. bind_prog (k v) (\<lambda>r. bind_prog mp_hal_nrf54l15_core_barrier_release (\<lambda>_. Ret r)))"
      using p(1) p0 by simp
    show ?thesis
    proof (cases "c = 0")
      case True
      then show ?thesis
        using keeps_step(1) [OF p(2) [unfolded p0] m, where t = t] keeps_step(2) [OF p(2) [unfolded p0] m] i o z Run unfolding before_release_def step_event_def step_core_def
        by auto
    next
      case False
      show ?thesis
      proof (cases "core_prog s c")
        case (Ret a)
        then show ?thesis using i Run by (simp add: step_event_def step_core_def)
      next
        case (Do y h)
        then have "keeps unreleased (\<lambda>_. True) (Do y h)" using o [OF False] by simp
        from keeps_step(1) [OF this m, where t = t] keeps_step(2) [OF this m] show ?thesis
          using p o m False Do Run i by (auto simp: before_release_def step_event_def step_core_def)
      qed
    qed
  qed
qed

lemma synchronize_m33:
  assumes "m Cores_released = 0" and "returned excl (synchronize_cores T) m es CORE_ID_M33 r"
  shows "\<not> r \<and> T \<noteq> 0"
proof -
  let ?s = "run_cores excl (steps es) (start_cores (synchronize_cores T) m)"
  have "before_release T (start_cores (synchronize_cores T) m)"
  proof -
    have "unreleased l (m l)" for l using assms(1) by (simp add: unreleased_def)
    moreover have "keeps unreleased (\<lambda>_. True) (synchronize_cores T d)" if "d \<noteq> 0" for d
      using that unfolding synchronize_cores_def core_id_defs by (intro keeps_bind [OF barrier_wait_keeps]) simp
    ultimately show ?thesis
      using barrier_wait_keeps [of T 0] by (auto simp: before_release_def start_cores_def synchronize_cores_def core_id_defs)
  qed
  then have "before_release T ?s \<or> after_wait T ?s"
  proof (intro run_cores_invariant [where I = "\<lambda>s. before_release T s \<or> after_wait T s"])
    fix e s assume "before_release T s \<or> after_wait T s"
    then show "before_release T (step_event excl e s) \<or> after_wait T (step_event excl e s)"
      using before_release_step after_wait_step by blast
  qed simp
  moreover have "core_prog ?s 0 = Ret r" using assms(2) by (simp add: returned_def core_id_defs)
  ultimately consider p where "bind_prog p (\<lambda>r. bind_prog mp_hal_nrf54l15_core_barrier_release (\<lambda>_. Ret r)) = Ret r"
    | "keeps (\<lambda>_ _. True) (\<lambda>r. \<not> r \<and> T \<noteq> 0) (Ret r)"
    unfolding before_release_def after_wait_def by metis
  then show ?thesis
  proof cases
    case (1 p)
    then show ?thesis by (cases p) (simp_all add: mp_hal_nrf54l15_core_barrier_release_def)
  next
    case 2
    then show ?thesis by simp
  qed
qed

text \<open>
  The M33 core arrives and finds itself alone; the RV32 core arrives and finds both; the M33 core's time is over, it takes
  its arrival back and releases.
\<close>

definition late_release :: "(nat \<times> u32) list" where
  "late_release =
    [(0, 0), (0, 0), (0, 0), (0, 0), (0, 0), (0, 0), (0, 0), (0, 0),
     (1, 0), (1, 0), (1, 0), (1, 0), (1, 0), (1, 0), (1, 0), (1, 0),
     (0, 1000000), (0, 1000000), (0, 1000000), (0, 1000000), (0, 1000000), (0, 1000000), (0, 1000000), (0, 1000000),
     (1, 0), (1, 0), (1, 0)]"

lemma late_release_returns:
  assumes "m Cores_released = 0" and "m Cores_arrived = 0"
  shows "returned excl (synchronize_cores 1000000) m late_release CORE_ID_M33 False \<and>
    returned excl (synchronize_cores 1000000) m late_release CORE_ID_RV32 True"
  using assms
  by (simp add: late_release_def returned_def steps_def start_cores_def step_event_def step_core_def synchronize_cores_def
      mp_hal_nrf54l15_core_barrier_wait_def mp_hal_nrf54l15_core_barrier_release_def arrive_loop_def release_loop_def
      loop_prog_def on_timeout_def core_bit_def core_id_defs)

text \<open>
  C22. Nobody passes the barrier by waiting.  While the barrier is not released, no core that only waits at it ever returns
  true, in any interleaving and however the critical sections work, and without a timeout it never returns.  In the protocol
  of the README, where the M33 core releases the barrier after its own wait, the M33 core never gets past the barrier
  because both have arrived: it gets past it only by its timeout, and without a timeout nobody does.  With the timeout of the
  README there is a run in which the M33 core gives up and its release then tells the other core that both have met.  A barrier
  that has been used is spent: with all cores recorded as arrived and released, a core passes it at once, alone.
\<close>

theorem barrier_wait_stuck:
  assumes "m Cores_released = 0"
  shows "(returned excl (\<lambda>c. mp_hal_nrf54l15_core_barrier_wait c (T c)) m es c r \<longrightarrow> \<not> r \<and> T c \<noteq> 0) \<and>
    (returned excl (synchronize_cores to) m es CORE_ID_M33 r \<longrightarrow> \<not> r \<and> to \<noteq> 0) \<and>
    \<not> returned excl (synchronize_cores 0) m es c r \<and>
    (m Cores_arrived = 0 \<longrightarrow> (\<exists>es. returned excl (synchronize_cores 1000000) m es CORE_ID_M33 False \<and>
      returned excl (synchronize_cores 1000000) m es CORE_ID_RV32 True)) \<and>
    (d < 2 \<and> m' Cores_arrived = 3 \<and> m' Cores_released = 3 \<longrightarrow>
      ends (mp_hal_nrf54l15_core_barrier_wait d t) m' (\<lambda>r m''. r \<and> m'' = m'))"
proof (intro conjI impI)
  have u: "unreleased l (m l)" for l using assms by (simp add: unreleased_def)
  have dev: "is_register l \<Longrightarrow> unreleased l v" for l v by (cases l) (simp_all add: unreleased_def)
  assume w: "returned excl (\<lambda>c. mp_hal_nrf54l15_core_barrier_wait c (T c)) m es c r"
  have "\<not> r \<and> T c \<noteq> 0"
  proof (rule keeps_returned [where Q = "\<lambda>c r. \<not> r \<and> T c \<noteq> 0" and A = unreleased])
    show "keeps unreleased (\<lambda>r. \<not> r \<and> T c \<noteq> 0) (mp_hal_nrf54l15_core_barrier_wait c (T c))" for c
      by (rule barrier_wait_keeps)
  qed (use u dev w in blast)+
  then show "\<not> r" "T c \<noteq> 0" by blast+
next
  assume "returned excl (synchronize_cores to) m es CORE_ID_M33 r"
  then show "\<not> r" "to \<noteq> 0" using synchronize_m33 [where m = m, OF assms] by blast+
next
  have u: "unreleased l (m l)" for l using assms by (simp add: unreleased_def)
  have dev: "is_register l \<Longrightarrow> unreleased l v" for l v by (cases l) (simp_all add: unreleased_def)
  have "keeps unreleased (\<lambda>_. False) (synchronize_cores 0 c)" for c
    unfolding synchronize_cores_def by (rule keeps_bind [OF barrier_wait_keeps]) simp
  then show "\<not> returned excl (synchronize_cores 0) m es c r"
    by (intro notI, elim keeps_returned [where Q = "\<lambda>_ _. False" and A = unreleased and m = m, rotated 3]) (use u dev in blast)+
next
  assume "m Cores_arrived = 0"
  then show "\<exists>es. returned excl (synchronize_cores 1000000) m es CORE_ID_M33 False \<and>
      returned excl (synchronize_cores 1000000) m es CORE_ID_RV32 True"
    using late_release_returns [where m = m, OF assms] by blast
next
  assume a: "d < 2 \<and> m' Cores_arrived = 3 \<and> m' Cores_released = 3"
  then have b: "3 OR core_bit d = 3" "3 AND core_bit d \<noteq> 0" by (auto simp: core_bit_def less_2_cases_iff)
  have "m'(Cores_arrived := 3) = m'" using a by (metis fun_upd_triv)
  moreover have "ends (bind_prog (arrive_loop d t st) (\<lambda>arrived. if arrived then release_loop d else Ret False)) m'
      (\<lambda>r m''. r \<and> m'' = m')" for st
    by (rule ends_bind [OF arrive_loop_passes]) (use a b release_loop_passes [of m' d] in auto)
  ultimately show "ends (mp_hal_nrf54l15_core_barrier_wait d t) m' (\<lambda>r m''. r \<and> m'' = m')"
    using a b by (simp add: mp_hal_nrf54l15_core_barrier_wait_def)
qed

lemma barrier_wait_stuck_witness:
  "(\<forall>r. \<not> returned False (synchronize_cores 0) (\<lambda>_. 0) [(0, 1), (1, 1), (0, 2), (1, 2)] 0 r) \<and>
    (\<forall>es. \<not> returned False (synchronize_cores 1000000) (\<lambda>_. 0) es CORE_ID_M33 True) \<and>
    (\<exists>es. returned False (synchronize_cores 1000000) (\<lambda>_. 0) es CORE_ID_RV32 True) \<and>
    ends (mp_hal_nrf54l15_core_barrier_wait 1 0) (\<lambda>_. 3) (\<lambda>r m''. r \<and> m'' = (\<lambda>_. 3))"
proof -
  note b = barrier_wait_stuck [where m = "\<lambda>_. 0" and excl = False and T = "\<lambda>_. 0" and to = 1000000 and d = 1 and
      m' = "\<lambda>_. 3" and t = 0, OF refl]
  from b [where es = "[(0, 1), (1, 1), (0, 2), (1, 2)]" and c = 0] have "\<forall>r. \<not> returned False (synchronize_cores 0) (\<lambda>_. 0)
      [(0, 1), (1, 1), (0, 2), (1, 2)] 0 r" by blast
  moreover have "\<forall>es. \<not> returned False (synchronize_cores 1000000) (\<lambda>_. 0) es CORE_ID_M33 True"
    using b [where r = True] by blast
  ultimately show ?thesis using b [where es = "[]" and c = 0 and r = True] by auto
qed

text \<open>Two cores that arrive at the same time can lose an arrival: the mask is read and written in two steps.\<close>

theorem barrier_arrival_lost:
  "\<exists>es k. mem (run_cores False (steps es) (start_cores (\<lambda>c. mp_hal_nrf54l15_core_barrier_wait c T) (\<lambda>_. 0))) Cores_arrived = 2 \<and>
    (\<forall>c \<in> {0, 1}. core_prog (run_cores False (steps es) (start_cores (\<lambda>c. mp_hal_nrf54l15_core_barrier_wait c T) (\<lambda>_. 0))) c =
      bind_prog (arrive_loop c T 0) (\<lambda>r. if r then release_loop c else Ret False))"
  by (intro exI [of _ "[(0, 0), (1, 0), (0, 0), (1, 0), (0, 0), (1, 0), (0, 0), (1, 0), (0, 0), (1, 0)]"])
    (simp add: steps_def start_cores_def step_event_def step_core_def mp_hal_nrf54l15_core_barrier_wait_def core_bit_def)

section \<open>Handshake\<close>

text \<open>In the image of a core the entry of the other core is never set.\<close>

definition own_ready :: "loc \<Rightarrow> u32 \<Rightarrow> bool" where
  "own_ready l v \<longleftrightarrow> (\<forall>c i. l = Core_ready c i \<and> i \<noteq> c \<longrightarrow> v = 0)"

lemma own_ready_simps [simp]:
  "own_ready (Core_ready c i) v \<longleftrightarrow> i = c \<or> v = 0" "own_ready Ipc_mailbox_sender v" "own_ready Ipc_event_send v"
  by (auto simp: own_ready_def)

lemma other_core_neq [simp]: "mp_hal_nrf54l15_get_other_core_id c \<noteq> c"
  by (simp add: mp_hal_nrf54l15_get_other_core_id_def core_id_defs)

lemma wait_ready_keeps:
  "keeps own_ready (\<lambda>r. \<not> r \<and> T \<noteq> 0) (mp_hal_nrf54l15_wait_for_other_core_ready c T)"
  unfolding mp_hal_nrf54l15_wait_for_other_core_ready_def keeps_simps
  by (intro allI keeps_loop [where I = "\<lambda>_. True"]) (simp_all add: on_timeout_def word_gt_0)

lemma handshake_keeps: "keeps own_ready (\<lambda>r. \<not> r \<and> T \<noteq> 0) (mp_hal_nrf54l15_core_handshake c T)"
proof -
  have s: "keeps own_ready (\<lambda>_. True) (mp_hal_nrf54l15_signal_core_ready c)"
    by (simp add: mp_hal_nrf54l15_signal_core_ready_def mp_hal_nrf54l15_ipc_send_nonblocking_def
        mp_hal_nrf54l15_ipc_event_set_def)
  show ?thesis
    unfolding mp_hal_nrf54l15_core_handshake_def keeps_simps
    by (intro allI keeps_bind [OF s] keeps_loop [where I = "\<lambda>_. True"] keeps_bind [OF wait_ready_keeps])
      (simp_all add: on_timeout_def word_gt_0)
qed

text \<open>
  The handshake cannot succeed.  \<open>core_ready\<close> is a static variable of each core's own image, in which a core sets
  only its own entry, and the message that announces it is never read; so in every interleaving of two cores that shake
  hands, with any behaviour of the registers, no core ever returns true, and without a timeout none returns.
\<close>

theorem handshake_never_succeeds:
  assumes "\<And>c i. i \<noteq> c \<Longrightarrow> m (Core_ready c i) = 0"
    and "core_prog (run_cores excl es (start_cores (\<lambda>c. mp_hal_nrf54l15_core_handshake c (T c)) m)) c = Ret r"
  shows "\<not> r \<and> T c \<noteq> 0"
proof (rule keeps_never_returns [OF _ _ _ assms(2)])
  show "keeps own_ready (\<lambda>r. \<not> r \<and> T c \<noteq> 0) (core_prog (start_cores (\<lambda>c. mp_hal_nrf54l15_core_handshake c (T c)) m) c)" for c
    using handshake_keeps by (simp add: start_cores_def)
  show "own_ready l (mem (start_cores (\<lambda>c. mp_hal_nrf54l15_core_handshake c (T c)) m) l)" for l
    using assms(1) by (auto simp: own_ready_def start_cores_def)
  show "is_register l \<Longrightarrow> own_ready l v" for l v by (cases l) (simp_all add: own_ready_def)
qed

text \<open>A core that shakes hands with a timeout of one tick, while the clock counts up, gives up.\<close>

lemma handshake_times_out:
  "core_prog (run_cores False (map (Run 0) [1, 0, 0, 0, 0, 0, 0, 0, 0, 0, 0, 0, 0, 0, 2, 0, 3, 4])
     (start_cores (\<lambda>c. mp_hal_nrf54l15_core_handshake c 1) (\<lambda>_. 0))) 0 = Ret False"
  by (simp add: start_cores_def step_event_def step_core_def mp_hal_nrf54l15_core_handshake_def on_timeout_def
      mp_hal_nrf54l15_signal_core_ready_def mp_hal_nrf54l15_ipc_send_nonblocking_def mp_hal_nrf54l15_ipc_event_set_def
      mp_hal_nrf54l15_wait_for_other_core_ready_def loop_prog_def)

lemma handshake_never_succeeds_witness:
  "\<exists>r. core_prog (run_cores False (map (Run 0) [1, 0, 0, 0, 0, 0, 0, 0, 0, 0, 0, 0, 0, 0, 2, 0, 3, 4])
     (start_cores (\<lambda>c. mp_hal_nrf54l15_core_handshake c 1) (\<lambda>_. 0))) 0 = Ret r \<and> \<not> r"
  using handshake_never_succeeds [OF _ handshake_times_out] handshake_times_out by blast

section \<open>Cross-core mutexes\<close>

lemma spin_acquire_free:
  "m (Spin_locked L) = 0 \<Longrightarrow> ends (mp_hal_nrf54l15_spinlock_acquire c L T) m
     (\<lambda>r m'. r \<and> m' = m(Spin_locked L := 1, Spin_owner L := of_nat c))"
  by (simp add: mp_hal_nrf54l15_spinlock_acquire_def loop_prog_def)

lemma unlock_and_ends:
  "m (Spin_owner (Mutex_lock i)) = of_nat c \<Longrightarrow> m (Spin_locked (Mutex_lock i)) \<noteq> 0 \<Longrightarrow>
   ends (unlock_and c i p) m Q = ends p (m(Spin_locked (Mutex_lock i) := 0, Spin_owner (Mutex_lock i) := CORE_ID_COUNT)) Q"
  by (simp add: unlock_and_def mp_hal_nrf54l15_spinlock_release_def)

lemma unlock_and_endless:
  "m (Spin_owner (Mutex_lock i)) = of_nat c \<Longrightarrow> m (Spin_locked (Mutex_lock i)) \<noteq> 0 \<Longrightarrow>
   endless (unlock_and c i p) m = endless p (m(Spin_locked (Mutex_lock i) := 0, Spin_owner (Mutex_lock i) := CORE_ID_COUNT))"
  by (simp add: unlock_and_def mp_hal_nrf54l15_spinlock_release_def)

text \<open>The mutex as its owner, a core and a thread, with the depth of its recursion.  A lock that has no result waits.\<close>

definition mutex_state :: "nat \<Rightarrow> memory \<Rightarrow> (u32 \<times> u32 \<times> u32) option" where
  "mutex_state i m =
     (if m (Mutex_owner_core i) = CORE_ID_COUNT then None
      else Some (m (Mutex_owner_core i), m (Mutex_owner_thread i), m (Mutex_recursion i)))"

definition lock_spec :: "u32 \<Rightarrow> u32 \<Rightarrow> (u32 \<times> u32 \<times> u32) option \<Rightarrow> (u32 \<times> u32 \<times> u32) option" where
  "lock_spec c t st =
     (case st of None \<Rightarrow> Some (c, t, 1) | Some (oc, ot, n) \<Rightarrow> if oc = c \<and> ot = t then Some (c, t, n + 1) else None)"

definition unlock_spec :: "u32 \<Rightarrow> u32 \<Rightarrow> (u32 \<times> u32 \<times> u32) option \<Rightarrow> (u32 \<times> u32 \<times> u32) option" where
  "unlock_spec c t st =
     (case st of None \<Rightarrow> None
      | Some (oc, ot, n) \<Rightarrow> if oc = c \<and> ot = t then if n > 1 then Some (c, t, n - 1) else None else st)"

definition mutex_words :: "nat \<Rightarrow> loc set" where
  "mutex_words i = {Mutex_owner_core i, Mutex_owner_thread i, Mutex_recursion i, Spin_locked (Mutex_lock i),
     Spin_owner (Mutex_lock i)}"

definition same_outside :: "loc set \<Rightarrow> memory \<Rightarrow> memory \<Rightarrow> bool" where
  "same_outside W m m' \<longleftrightarrow> (\<forall>l. l \<notin> W \<longrightarrow> m' l = m l)"

lemmas mutex_defs = mutex_state_def lock_spec_def unlock_spec_def mutex_words_def same_outside_def take_mutex_def
  clear_waiting_def mutex_contend_def core_id_defs

lemma core_word: "c < 2 \<Longrightarrow> CORE_ID_COUNT \<noteq> of_nat c"
  by (auto simp: core_id_defs less_2_cases_iff)

abbreviation taken :: "nat \<Rightarrow> nat \<Rightarrow> memory \<Rightarrow> memory" where
  "taken c i m \<equiv> m(Spin_locked (Mutex_lock i) := 1, Spin_owner (Mutex_lock i) := of_nat c)"

lemma acquire_then_ends:
  assumes "m (Spin_locked (Mutex_lock i)) = 0" "ends (f True) (taken c i m) Q"
  shows "ends (bind_prog (mp_hal_nrf54l15_spinlock_acquire c (Mutex_lock i) T) f) m Q"
  by (rule ends_bind [OF spin_acquire_free [where m = m, OF assms(1)]]) (use assms(2) in auto)

lemma acquire_then_endless:
  assumes "m (Spin_locked (Mutex_lock i)) = 0" "endless (f True) (taken c i m)"
  shows "endless (bind_prog (mp_hal_nrf54l15_spinlock_acquire c (Mutex_lock i) T) f) m"
  by (rule endless_bind2, rule ends_mono [OF spin_acquire_free [where m = m, OF assms(1)]]) (use assms(2) in auto)

text \<open>The mutex afterwards: in state \<open>st\<close>, its spinlock free, everything else as before.\<close>

definition mutex_left :: "nat \<Rightarrow> memory \<Rightarrow> (u32 \<times> u32 \<times> u32) option \<Rightarrow> memory \<Rightarrow> bool" where
  "mutex_left i m st m' \<longleftrightarrow>
     mutex_state i m' = st \<and> m' (Spin_locked (Mutex_lock i)) = 0 \<and> same_outside (mutex_words i) m m'"

lemma mutex_lock_alone:
  assumes c: "c < 2" and s: "m (Spin_locked (Mutex_lock i)) = 0"
    and l: "lock_spec (of_nat c) tid (mutex_state i m) = Some st"
  shows "ends (mp_hal_nrf54l15_cross_core_mutex_lock c tid i T) m (\<lambda>r m'. r \<and> mutex_left i m (Some st) m')"
  unfolding mp_hal_nrf54l15_cross_core_mutex_lock_def
  using l core_word [OF c]
  by (auto simp: mutex_contend_def take_mutex_def unlock_and_ends mutex_left_def mutex_state_def lock_spec_def
      mutex_words_def same_outside_def intro!: acquire_then_ends [where m = m, OF s] split: if_splits option.splits)

lemma mutex_unlock_alone:
  assumes c: "c < 2" and s: "m (Spin_locked (Mutex_lock i)) = 0"
  shows "ends (mp_hal_nrf54l15_cross_core_mutex_unlock c tid i) m
    (\<lambda>_ m'. mutex_left i m (unlock_spec (of_nat c) tid (mutex_state i m)) m')"
  unfolding mp_hal_nrf54l15_cross_core_mutex_unlock_def
  using core_word [OF c]
  by (auto simp: unlock_and_ends mutex_left_def mutex_state_def unlock_spec_def
      mutex_words_def same_outside_def intro!: acquire_then_ends [where m = m, OF s] split: if_splits option.splits)

lemma mutex_wait_endless:
  assumes "m (Spin_locked (Mutex_lock i)) = 0" "m (Mutex_owner_core i) \<noteq> CORE_ID_COUNT"
  shows "endless (mutex_wait c tid i T st) m"
  unfolding mutex_wait_def
proof (rule endless_loop [where I = "\<lambda>_ m. m (Spin_locked (Mutex_lock i)) = 0 \<and> m (Mutex_owner_core i) \<noteq> CORE_ID_COUNT"])
  fix s :: unit and m :: memory
  assume m: "m (Spin_locked (Mutex_lock i)) = 0 \<and> m (Mutex_owner_core i) \<noteq> CORE_ID_COUNT"
  then show "ends (bind_prog (mp_hal_nrf54l15_spinlock_acquire c (Mutex_lock i) 100) (\<lambda>ok.
       if \<not> ok
       then on_timeout T st (clear_waiting c i (unlock_and c i (Ret (Inr False)))) (Ret (Inl ()))
       else Rd (Mutex_owner_core i) (\<lambda>oc.
              if oc = CORE_ID_COUNT then take_mutex c tid i (clear_waiting c i (unlock_and c i (Ret (Inr True))))
              else unlock_and c i (Yield (Ret (Inl ())))))) m
      (\<lambda>r m'. \<exists>s'. r = Inl s' \<and> m' (Spin_locked (Mutex_lock i)) = 0 \<and> m' (Mutex_owner_core i) \<noteq> CORE_ID_COUNT)"
    by (intro acquire_then_ends) (auto simp: unlock_and_ends)
qed (use assms in blast)

lemma mutex_lock_endless:
  assumes c: "c < 2" and s: "m (Spin_locked (Mutex_lock i)) = 0"
    and l: "lock_spec (of_nat c) tid (mutex_state i m) = None"
  shows "endless (mp_hal_nrf54l15_cross_core_mutex_lock c tid i T) m"
  unfolding mp_hal_nrf54l15_cross_core_mutex_lock_def
  using l core_word [OF c]
  by (auto simp: mutex_contend_def unlock_and_endless mutex_state_def lock_spec_def
      intro!: acquire_then_endless [where m = m, OF s] mutex_wait_endless split: if_splits option.splits)

text \<open>
  Alone, a cross-core mutex is a recursive lock, and a lock that has to wait ignores its timeout.  Whenever the
  spinlock of the mutex is free, locking and unlocking by a thread of a core return with the state that the
  specification of a recursive lock gives, leave the spinlock free and touch no other word.  If another thread or core
  owns the mutex, the call of lock never returns, whatever its timeout: the timeout is looked at only when the spinlock
  cannot be had.
\<close>

theorem cross_core_mutex_recursive:
  assumes "c < 2" and "m (Spin_locked (Mutex_lock i)) = 0"
  shows "(case lock_spec (of_nat c) tid (mutex_state i m) of
       Some st \<Rightarrow> ends (mp_hal_nrf54l15_cross_core_mutex_lock c tid i T) m (\<lambda>r m'. r \<and> mutex_left i m (Some st) m')
     | None \<Rightarrow> endless (mp_hal_nrf54l15_cross_core_mutex_lock c tid i T) m) \<and>
    ends (mp_hal_nrf54l15_cross_core_mutex_unlock c tid i) m
      (\<lambda>_ m'. mutex_left i m (unlock_spec (of_nat c) tid (mutex_state i m)) m')"
  using mutex_lock_alone [where m = m, OF assms] mutex_unlock_alone [where m = m, OF assms]
    mutex_lock_endless [where m = m, OF assms]
  by (simp split: option.splits)

lemma cross_core_mutex_recursive_witness:
  "endless (mp_hal_nrf54l15_cross_core_mutex_lock 1 0 3 1000) (\<lambda>_. 0) \<and>
   ends (mp_hal_nrf54l15_cross_core_mutex_lock 0 0 3 1000) (\<lambda>_. 0) (\<lambda>r m'. r \<and> mutex_left 3 (\<lambda>_. 0) (Some (0, 0, 1)) m')"
  using cross_core_mutex_recursive [of 1 "\<lambda>_. 0" 3 0 1000] cross_core_mutex_recursive [of 0 "\<lambda>_. 0" 3 0 1000]
  by (simp add: mutex_state_def lock_spec_def core_id_defs)

section \<open>Messages\<close>

definition cleared_message :: ipc_message where
  "cleared_message = \<lparr>ipc_type = 0, ipc_sender_core = 0, ipc_receiver_core = 0, ipc_param1 = 0, ipc_param2 = 0,
     ipc_param3 = 0, ipc_checksum = 0\<rparr>"

lemma init_message_valid: "mp_hal_nrf54l15_ipc_validate_checksum (mp_hal_nrf54l15_ipc_init_message c ty)"
  by (simp add: mp_hal_nrf54l15_ipc_validate_checksum_def mp_hal_nrf54l15_ipc_init_message_def
      mp_hal_nrf54l15_ipc_calculate_checksum_def Let_def)

lemma drop_bit_small: "unat (w :: u32) < 2 ^ 16 \<Longrightarrow> drop_bit 16 w = 0"
  by (simp add: drop_bit_eq_div word_arith_nat_div)

lemma cleared_invalid:
  "t \<noteq> 0 \<Longrightarrow> unat t < 2 ^ 16 \<Longrightarrow> \<not> mp_hal_nrf54l15_ipc_validate_checksum (cleared_message\<lparr>ipc_type := t\<rparr>)"
  by (simp add: mp_hal_nrf54l15_ipc_validate_checksum_def cleared_message_def
      mp_hal_nrf54l15_ipc_calculate_checksum_def drop_bit_small)

text \<open>
  A message does not arrive.  Sending into the free mailbox register succeeds, but stores only the type of the
  message.  When the receiver finds that type in its register, both receiving functions, into a cleared buffer, report
  an error and leave the register as it is, for every message type below \<open>2 ^ 16\<close>: the checksum they compare with was
  not sent.  The checksum that the sender computed was right.
\<close>

theorem message_not_received:
  assumes "m Ipc_mailbox_sender = 0" and "ipc_type msg \<noteq> 0" "unat (ipc_type msg) < 2 ^ 16"
    and "m' Ipc_mailbox_receiver = ipc_type msg"
  shows "ends (mp_hal_nrf54l15_ipc_send_nonblocking msg) m (\<lambda>r m''. r = 0 \<and> m'' Ipc_mailbox_sender = ipc_type msg) \<and>
    ends (mp_hal_nrf54l15_ipc_send_blocking msg) m (\<lambda>r m''. r = 0 \<and> m'' Ipc_mailbox_sender = ipc_type msg) \<and>
    ends (mp_hal_nrf54l15_ipc_receive_nonblocking cleared_message) m' (\<lambda>(r, buf) m''. r = -1 \<and> m'' = m') \<and>
    ends (mp_hal_nrf54l15_ipc_receive_blocking cleared_message) m' (\<lambda>(r, buf) m''. r = -1 \<and> m'' = m') \<and>
    mp_hal_nrf54l15_ipc_validate_checksum (mp_hal_nrf54l15_ipc_init_message c ty)"
  using assms cleared_invalid [OF assms(2,3)] init_message_valid
  by (simp add: mp_hal_nrf54l15_ipc_send_nonblocking_def mp_hal_nrf54l15_ipc_send_blocking_def
      mp_hal_nrf54l15_ipc_receive_nonblocking_def mp_hal_nrf54l15_ipc_receive_blocking_def countdown_def loop_prog_def
      IPC_BLOCKING_TIMEOUT_CYCLES_def read_mailbox_def Let_def mp_hal_nrf54l15_ipc_event_set_def)

lemma message_not_received_witness:
  "ends (mp_hal_nrf54l15_ipc_receive_nonblocking cleared_message) (\<lambda>_. IPC_MSG_TYPE_CORE_READY)
    (\<lambda>(r, buf) m''. r = -1 \<and> m'' = (\<lambda>_. IPC_MSG_TYPE_CORE_READY))"
  using message_not_received [of "\<lambda>_. 0" "mp_hal_nrf54l15_ipc_init_message 0 IPC_MSG_TYPE_CORE_READY"
      "\<lambda>_. IPC_MSG_TYPE_CORE_READY"]
  by (simp add: mp_hal_nrf54l15_ipc_init_message_def Let_def IPC_MSG_TYPE_CORE_READY_def)

text \<open>A semaphore that was given once can be taken by both cores.\<close>

theorem semaphore_taken_twice:
  assumes "sem < 4" "m (Ipc_semaphore sem) = 1"
  shows "\<exists>es. returned False (\<lambda>c. mp_hal_nrf54l15_ipc_semaphore_try_take sem) m es 0 True \<and>
    returned False (\<lambda>c. mp_hal_nrf54l15_ipc_semaphore_try_take sem) m es 1 True"
  using assms
  by (intro exI [of _ "[(0, 0), (1, 0), (0, 0), (1, 0), (0, 0), (1, 0), (0, 0), (1, 0)]"])
    (simp add: returned_def steps_def start_cores_def step_event_def step_core_def mp_hal_nrf54l15_ipc_semaphore_try_take_def)

section \<open>Thread registry\<close>

definition entry_of :: "shared_thread_registry \<Rightarrow> u32 \<Rightarrow> shared_thread_entry option" where
  "entry_of r g = map_option (\<lambda>i. reg_threads r ! i) (mp_hal_nrf54l15_lookup_shared_thread g r)"

definition active :: "shared_thread_registry \<Rightarrow> nat set" where
  "active r = {i. i < MAX_SHARED_THREADS \<and> e_is_active (reg_threads r ! i)}"

definition registry_inv :: "shared_thread_registry \<Rightarrow> bool" where
  "registry_inv r \<longleftrightarrow> length (reg_threads r) = MAX_SHARED_THREADS \<and>
     (\<forall>i \<in> active r. e_global_thread_id (reg_threads r ! i) < next_global_id r) \<and>
     inj_on (\<lambda>i. e_global_thread_id (reg_threads r ! i)) (active r) \<and> thread_count r = of_nat (card (active r))"

lemma find_entry_Some: "find_entry P r = Some i \<Longrightarrow> i < MAX_SHARED_THREADS \<and> P (reg_threads r ! i)"
  unfolding find_entry_def by (rule find_upt_Some)

lemma find_entry_None: "find_entry P r = None \<longleftrightarrow> (\<forall>i < MAX_SHARED_THREADS. \<not> P (reg_threads r ! i))"
  by (simp add: find_entry_def find_upt_None)

lemma entry_of_iff:
  assumes "inj_on (\<lambda>i. e_global_thread_id (reg_threads r ! i)) (active r)"
  shows "entry_of r g = Some e \<longleftrightarrow>
    (\<exists>i \<in> active r. e_global_thread_id (reg_threads r ! i) = g \<and> reg_threads r ! i = e)"
proof
  assume "entry_of r g = Some e"
  then obtain i where "find_entry (has_id g) r = Some i" "reg_threads r ! i = e"
    by (auto simp: entry_of_def mp_hal_nrf54l15_lookup_shared_thread_def)
  then show "\<exists>i \<in> active r. e_global_thread_id (reg_threads r ! i) = g \<and> reg_threads r ! i = e"
    using find_entry_Some [of "has_id g" r i] by (auto simp: active_def has_id_def)
next
  assume "\<exists>i \<in> active r. e_global_thread_id (reg_threads r ! i) = g \<and> reg_threads r ! i = e"
  then obtain i where i: "i \<in> active r" "e_global_thread_id (reg_threads r ! i) = g" "reg_threads r ! i = e" by blast
  obtain j where j: "find_entry (has_id g) r = Some j"
    using i find_entry_None [of "has_id g" r] by (cases "find_entry (has_id g) r") (auto simp: active_def has_id_def)
  then have "j \<in> active r" "e_global_thread_id (reg_threads r ! j) = g"
    using find_entry_Some [of "has_id g" r j] by (auto simp: active_def has_id_def)
  then have "j = i" using assms i by (auto dest: inj_onD)
  then show "entry_of r g = Some e" using j i by (simp add: entry_of_def mp_hal_nrf54l15_lookup_shared_thread_def)
qed

lemma entry_of_dom:
  "registry_inv r \<Longrightarrow> dom (entry_of r) = (\<lambda>i. e_global_thread_id (reg_threads r ! i)) ` active r"
  using entry_of_iff [of r] by (fastforce simp: registry_inv_def)

lemma entry_of_card: "registry_inv r \<Longrightarrow> card (dom (entry_of r)) = card (active r)"
  by (simp add: entry_of_dom card_image registry_inv_def)

lemma active_card_max: "card (active r) \<le> MAX_SHARED_THREADS" "finite (active r)"
proof -
  have "active r \<subseteq> {..<MAX_SHARED_THREADS}" by (auto simp: active_def)
  then show "card (active r) \<le> MAX_SHARED_THREADS" "finite (active r)"
    using card_mono [of "{..<MAX_SHARED_THREADS}" "active r"] finite_subset by auto
qed

lemma register_full:
  "find_entry (\<lambda>e. \<not> e_is_active e) r = None \<longleftrightarrow> card (active r) = MAX_SHARED_THREADS"
proof
  assume "find_entry (\<lambda>e. \<not> e_is_active e) r = None"
  then have "active r = {..<MAX_SHARED_THREADS}" by (auto simp: find_entry_None active_def)
  then show "card (active r) = MAX_SHARED_THREADS" by simp
next
  assume "card (active r) = MAX_SHARED_THREADS"
  then have "active r = {..<MAX_SHARED_THREADS}" by (intro card_subset_eq) (auto simp: active_def)
  then show "find_entry (\<lambda>e. \<not> e_is_active e) r = None" by (auto simp: find_entry_None active_def)
qed

definition new_entry :: "(tcb_ref \<Rightarrow> mp_tcb) \<Rightarrow> tcb_ref \<Rightarrow> u32 \<Rightarrow> string \<Rightarrow> u32 \<Rightarrow> shared_thread_entry" where
  "new_entry tcb_store tcb core_id name g =
     \<lparr>e_tcb = Some tcb, e_core_id = core_id, e_global_thread_id = g, e_local_thread_id = tcb_id (tcb_store tcb),
      e_name = take 15 name, e_state = tcb_state (tcb_store tcb), e_priority = ucast (priority (tcb_store tcb)),
      e_is_active = True\<rparr>"

lemma register_ok:
  assumes inv: "registry_inv r" and i: "find_entry (\<lambda>e. \<not> e_is_active e) r = Some i"
    and w: "unat (next_global_id r) < 2 ^ 32 - 1"
    and r': "mp_hal_nrf54l15_register_shared_thread store tcb core name r = (res, r')"
  shows "res = sint (next_global_id r) \<and> registry_inv r' \<and> next_global_id r' = next_global_id r + 1 \<and>
    entry_of r' = (entry_of r)(next_global_id r \<mapsto> new_entry store tcb core name (next_global_id r))"
proof -
  let ?g = "next_global_id r" and ?e = "new_entry store tcb core name (next_global_id r)"
  have eqs: "res = sint ?g" "next_global_id r' = ?g + 1" "thread_count r' = thread_count r + 1"
    "reg_threads r' = (reg_threads r)[i := ?e]"
    using r' i by (auto simp: mp_hal_nrf54l15_register_shared_thread_def new_entry_def Let_def)
  have lt: "?g < ?g + 1" using w by (simp add: word_less_nat_alt unat_add_no_overflow)
  have fi: "i < MAX_SHARED_THREADS" "i \<notin> active r" using find_entry_Some [OF i] by (auto simp: active_def)
  have len: "length (reg_threads r) = MAX_SHARED_THREADS" and old: "\<And>j. j \<in> active r \<Longrightarrow> e_global_thread_id (reg_threads r ! j) < ?g"
    and inj: "inj_on (\<lambda>i. e_global_thread_id (reg_threads r ! i)) (active r)" and cnt: "thread_count r = of_nat (card (active r))"
    using inv by (auto simp: registry_inv_def)
  have nth: "reg_threads r' ! j = (if j = i then ?e else reg_threads r ! j)" if "j < MAX_SHARED_THREADS" for j
    using that len by (simp add: eqs(4) nth_list_update)
  have act: "active r' = insert i (active r)"
    using fi(1) nth by (auto simp: active_def new_entry_def split: if_splits)
  have ids: "e_global_thread_id (reg_threads r' ! j) = (if j = i then ?g else e_global_thread_id (reg_threads r ! j))"
    if "j \<in> insert i (active r)" for j
    using nth that fi by (auto simp: active_def new_entry_def)
  have inj': "inj_on (\<lambda>i. e_global_thread_id (reg_threads r' ! i)) (active r')"
  proof -
    have same: "e_global_thread_id (reg_threads r' ! j) = e_global_thread_id (reg_threads r ! j)" if "j \<in> active r" for j
      using ids [of j] that fi(2) by auto
    then have "inj_on (\<lambda>i. e_global_thread_id (reg_threads r' ! i)) (active r)" using inj by (simp cong: inj_on_cong)
    moreover have "e_global_thread_id (reg_threads r' ! i) \<notin> (\<lambda>i. e_global_thread_id (reg_threads r' ! i)) ` (active r - {i})"
      using ids [of i] same old fi(2) by force
    ultimately show ?thesis unfolding act inj_on_insert by blast
  qed
  have "registry_inv r'"
    unfolding registry_inv_def
    using inj' ids old lt len fi active_card_max(2) [of r] cnt
    by (auto simp: act eqs card_insert_if intro: less_trans)
  moreover have "entry_of r' = (entry_of r)(?g \<mapsto> ?e)"
  proof
    fix h
    have "entry_of r' h = Some e \<longleftrightarrow> ((entry_of r)(?g \<mapsto> ?e)) h = Some e" for e
    proof -
      have *: "entry_of r' h = Some e \<longleftrightarrow>
          (\<exists>j \<in> insert i (active r). e_global_thread_id (reg_threads r' ! j) = h \<and> reg_threads r' ! j = e)"
        using entry_of_iff [OF inj', of h e] by (simp add: act)
      have other: "(\<exists>j \<in> active r. e_global_thread_id (reg_threads r' ! j) = h \<and> reg_threads r' ! j = e) \<longleftrightarrow> entry_of r h = Some e"
        unfolding entry_of_iff [OF inj, of h e] using nth fi(2) by (intro bex_cong) (auto simp: active_def)
      have "entry_of r ?g \<noteq> Some e"
        unfolding entry_of_iff [OF inj, of ?g e] by (metis less_irrefl old)
      moreover have "e_global_thread_id (reg_threads r' ! i) = ?g" "reg_threads r' ! i = ?e"
        using nth [OF fi(1)] by (simp_all add: new_entry_def)
      ultimately show ?thesis unfolding * using other by (cases "h = ?g") auto
    qed
    then show "entry_of r' h = ((entry_of r)(?g \<mapsto> ?e)) h" by (metis not_None_eq)
  qed
  ultimately show ?thesis using eqs by simp
qed

lemma unregister_ok:
  assumes inv: "registry_inv r" and r': "mp_hal_nrf54l15_unregister_shared_thread g r = (res, r')"
  shows "registry_inv r' \<and> next_global_id r' = next_global_id r \<and>
    (if entry_of r g = None then res = -1 \<and> entry_of r' = entry_of r else res = 0 \<and> entry_of r' = (entry_of r)(g := None))"
proof (cases "find_entry (has_id g) r")
  case None
  then show ?thesis using r' inv
    by (simp add: mp_hal_nrf54l15_unregister_shared_thread_def entry_of_def mp_hal_nrf54l15_lookup_shared_thread_def)
next
  case (Some i)
  have eqs: "res = 0" "next_global_id r' = next_global_id r" "thread_count r' = thread_count r - 1"
    "reg_threads r' = (reg_threads r)[i := (reg_threads r ! i)\<lparr>e_is_active := False, e_tcb := None\<rparr>]"
    using r' Some by (auto simp: mp_hal_nrf54l15_unregister_shared_thread_def)
  have i: "i < MAX_SHARED_THREADS" "i \<in> active r" "e_global_thread_id (reg_threads r ! i) = g"
    using find_entry_Some [OF Some] by (auto simp: active_def has_id_def)
  have len: "length (reg_threads r) = MAX_SHARED_THREADS" and old: "\<And>j. j \<in> active r \<Longrightarrow> e_global_thread_id (reg_threads r ! j) < next_global_id r"
    and inj: "inj_on (\<lambda>i. e_global_thread_id (reg_threads r ! i)) (active r)" and cnt: "thread_count r = of_nat (card (active r))"
    using inv by (auto simp: registry_inv_def)
  have nth: "reg_threads r' ! j = reg_threads r ! j" if "j \<noteq> i" for j using that by (simp add: eqs(4))
  have act: "active r' = active r - {i}"
    using i(1) len nth by (auto simp: active_def eqs(4) nth_list_update split: if_splits)
  have same: "reg_threads r' ! j = reg_threads r ! j" if "j \<in> active r - {i}" for j using that nth by simp
  have inj': "inj_on (\<lambda>i. e_global_thread_id (reg_threads r' ! i)) (active r')"
    using inj same unfolding act inj_on_def by simp
  have "of_nat (card (active r)) - 1 = (of_nat (card (active r - {i})) :: u32)"
    using i(2) active_card_max(2) [of r] card_gt_0_iff [of "active r"] by (auto simp: card_Diff_singleton of_nat_diff Suc_leI)
  then have "registry_inv r'"
    unfolding registry_inv_def using inj' old same len cnt by (simp add: act eqs(2,3)) (simp add: eqs(4))
  moreover have "entry_of r' = (entry_of r)(g := None)"
  proof
    fix h
    have "entry_of r' h = Some e \<longleftrightarrow> ((entry_of r)(g := None)) h = Some e" for e
    proof -
      have *: "entry_of r' h = Some e \<longleftrightarrow> (\<exists>j \<in> active r - {i}. e_global_thread_id (reg_threads r ! j) = h \<and> reg_threads r ! j = e)"
        using entry_of_iff [OF inj', of h e] same by (simp add: act)
      show ?thesis unfolding * fun_upd_apply
        using entry_of_iff [OF inj, of h e] i(2,3) inj by (auto dest: inj_onD)
    qed
    then show "entry_of r' h = ((entry_of r)(g := None)) h" by (metis not_None_eq)
  qed
  moreover have "entry_of r g \<noteq> None"
    using Some by (simp add: entry_of_def mp_hal_nrf54l15_lookup_shared_thread_def)
  ultimately show ?thesis using eqs by simp
qed

text \<open>The reference: a map with at most 64 entries and the next id.\<close>

datatype registry_op = Register tcb_ref u32 string | Unregister u32

fun registry_step ::
  "(tcb_ref \<Rightarrow> mp_tcb) \<Rightarrow> registry_op \<Rightarrow> shared_thread_registry \<Rightarrow> int \<times> shared_thread_registry" where
  "registry_step store (Register tcb core name) r = mp_hal_nrf54l15_register_shared_thread store tcb core name r"
| "registry_step store (Unregister g) r = mp_hal_nrf54l15_unregister_shared_thread g r"

type_synonym id_table = "(u32 \<Rightarrow> shared_thread_entry option) \<times> u32"

fun table_step :: "(tcb_ref \<Rightarrow> mp_tcb) \<Rightarrow> registry_op \<Rightarrow> id_table \<Rightarrow> int \<times> id_table" where
  "table_step store (Register tcb core name) (t, n) =
     (if card (dom t) < MAX_SHARED_THREADS then (sint n, t(n \<mapsto> new_entry store tcb core name n), n + 1) else (-1, t, n))"
| "table_step store (Unregister g) (t, n) = (if t g = None then (-1, t, n) else (0, t(g := None), n))"

primrec outputs :: "('o \<Rightarrow> 's \<Rightarrow> int \<times> 's) \<Rightarrow> 'o list \<Rightarrow> 's \<Rightarrow> int list \<times> 's" where
  "outputs step [] s = ([], s)"
| "outputs step (x # xs) s =
     (case step x s of (y, s') \<Rightarrow> case outputs step xs s' of (ys, s'') \<Rightarrow> (y # ys, s''))"

definition table_of :: "shared_thread_registry \<Rightarrow> id_table" where
  "table_of r = (entry_of r, next_global_id r)"

lemma registry_step_refines:
  assumes inv: "registry_inv r" and w: "unat (next_global_id r) < 2 ^ 32 - 1" and s: "registry_step store x r = (res, r')"
  shows "registry_inv r' \<and> unat (next_global_id r') \<le> Suc (unat (next_global_id r)) \<and>
    table_step store x (table_of r) = (res, table_of r')"
proof (cases x)
  case (Register tcb core name)
  show ?thesis
  proof (cases "find_entry (\<lambda>e. \<not> e_is_active e) r")
    case None
    then have "card (dom (entry_of r)) = MAX_SHARED_THREADS" using inv by (simp add: register_full entry_of_card)
    then show ?thesis using Register s None inv
      by (auto simp: table_of_def mp_hal_nrf54l15_register_shared_thread_def)
  next
    case (Some i)
    then have "card (dom (entry_of r)) \<noteq> MAX_SHARED_THREADS" using inv by (simp add: register_full [symmetric] entry_of_card)
    then have "card (dom (entry_of r)) < MAX_SHARED_THREADS"
      using active_card_max(1) [of r] inv by (simp add: entry_of_card)
    moreover have "unat (next_global_id r + 1) = Suc (unat (next_global_id r))" using w by (simp add: unat_add_no_overflow)
    ultimately show ?thesis using register_ok [OF inv Some w, of store tcb core name res r'] s Register
      by (simp add: table_of_def)
  qed
next
  case (Unregister g)
  then show ?thesis using unregister_ok [OF inv, of g res r'] s by (auto simp: table_of_def split: if_splits)
qed

lemma registry_run_refines:
  "registry_inv r \<Longrightarrow> unat (next_global_id r) + length xs < 2 ^ 32 \<Longrightarrow>
   (case outputs (registry_step store) xs r of (ys, r') \<Rightarrow>
      registry_inv r' \<and> outputs (table_step store) xs (table_of r) = (ys, table_of r'))"
proof (induction xs arbitrary: r)
  case (Cons x xs)
  obtain y r1 where 1: "registry_step store x r = (y, r1)" by (cases "registry_step store x r") auto
  have "registry_inv r1 \<and> unat (next_global_id r1) \<le> Suc (unat (next_global_id r)) \<and>
      table_step store x (table_of r) = (y, table_of r1)"
    using registry_step_refines [OF Cons.prems(1) _ 1] Cons.prems(2) by simp
  then show ?case using Cons.IH [of r1] Cons.prems(2) 1 by (auto split: prod.splits)
qed simp

lemma registry_init:
  assumes "length (reg_threads r) = MAX_SHARED_THREADS"
  shows "registry_inv (init_registry r) \<and> table_of (init_registry r) = (Map.empty, 0)"
proof -
  have a: "active (init_registry r) = {}" using assms by (auto simp: active_def init_registry_def)
  then have "registry_inv (init_registry r)" using assms by (simp add: registry_inv_def init_registry_def)
  then show ?thesis using entry_of_dom [of "init_registry r"] a by (simp add: table_of_def init_registry_def)
qed

text \<open>
  C21. The thread registry is a table with 64 entries and fresh ids.  After \<open>mp_hal_nrf54l15_shared_memory_init\<close> every
  sequence of fewer than \<open>2 ^ 32\<close> registrations and removals returns what a map from ids to entries returns that gives out
  the ids in order and refuses the entry that is one too many; a lookup then finds exactly the entries of the map.
\<close>

theorem registry_refines_table:
  assumes "length (reg_threads r) = MAX_SHARED_THREADS" and "length xs < 2 ^ 32"
  shows "(case outputs (registry_step store) xs (fst (mp_hal_nrf54l15_shared_memory_init (r, m))) of (ys, r') \<Rightarrow>
      \<exists>t n. outputs (table_step store) xs (Map.empty, 0) = (ys, t, n) \<and>
        (\<forall>g. map_option (\<lambda>i. reg_threads r' ! i) (mp_hal_nrf54l15_lookup_shared_thread g r') = t g))"
proof -
  obtain ys r' where o: "outputs (registry_step store) xs (init_registry r) = (ys, r')"
    by (cases "outputs (registry_step store) xs (init_registry r)") auto
  have i: "registry_inv (init_registry r)" "table_of (init_registry r) = (Map.empty, 0)" using registry_init [OF assms(1)] by auto
  then have "unat (next_global_id (init_registry r)) + length xs < 2 ^ 32" using assms(2) by (simp add: table_of_def)
  then have "outputs (table_step store) xs (Map.empty, 0) = (ys, table_of r')"
    using registry_run_refines [OF i(1), of xs store] o i(2) by simp
  then show ?thesis using o by (simp add: mp_hal_nrf54l15_shared_memory_init_def table_of_def entry_of_def [symmetric])
qed

definition blank_registry :: shared_thread_registry where
  "blank_registry = \<lparr>reg_threads = replicate MAX_SHARED_THREADS \<lparr>e_tcb = None, e_core_id = 0, e_global_thread_id = 0,
     e_local_thread_id = 0, e_name = [], e_state = MP_THREAD_READY, e_priority = 0, e_is_active = False\<rparr>,
     thread_count = 0, next_global_id = 0\<rparr>"

definition sample_ops :: "registry_op list" where
  "sample_ops = [Register (Tcb_pool 0) 0 ''a'', Register (Tcb_pool 1) 1 ''b'', Unregister 0, Unregister 0]"

lemma sample_ops_table:
  "\<exists>t. outputs (table_step (\<lambda>_. zero_tcb)) sample_ops (Map.empty, 0) = ([0, 1, 0, -1], t, 2) \<and> t 1 \<noteq> None"
  by (simp add: sample_ops_def MAX_SHARED_THREADS_def)

lemma registry_refines_table_witness:
  "\<exists>r'. outputs (registry_step (\<lambda>_. zero_tcb)) sample_ops (fst (mp_hal_nrf54l15_shared_memory_init (blank_registry, \<lambda>_. 0))) =
      ([0, 1, 0, -1], r') \<and> mp_hal_nrf54l15_lookup_shared_thread 1 r' \<noteq> None"
proof -
  have b: "length (reg_threads blank_registry) = MAX_SHARED_THREADS" by (simp add: blank_registry_def)
  have l: "length sample_ops < 2 ^ 32" by (simp add: sample_ops_def)
  obtain ys r' where o: "outputs (registry_step (\<lambda>_. zero_tcb)) sample_ops
      (fst (mp_hal_nrf54l15_shared_memory_init (blank_registry, \<lambda>_. 0))) = (ys, r')" by fastforce
  then obtain t n where t: "outputs (table_step (\<lambda>_. zero_tcb)) sample_ops (Map.empty, 0) = (ys, t, n)"
      "map_option (\<lambda>i. reg_threads r' ! i) (mp_hal_nrf54l15_lookup_shared_thread 1 r') = t 1"
    using registry_refines_table [OF b l, of "\<lambda>_. zero_tcb" "\<lambda>_. 0"] by auto
  then have "ys = [0, 1, 0, -1]" "t 1 \<noteq> None" using sample_ops_table by auto
  then show ?thesis using o t(2) by (cases "mp_hal_nrf54l15_lookup_shared_thread 1 r'") auto
qed

end
