(* ===== verification/CString.thy ===== *)
theory CString
  imports Json
begin

text \<open>
  What the components that handle text use of the C library, on strings given by their bytes before the terminator:
  \<open>strtok\<close>, \<open>strcmp\<close>, \<open>strstr\<close>, \<open>atoi\<close> and \<open>atoll\<close>, the truncation of \<open>snprintf\<close>, and the order of doubles on their
  bit patterns, with the facts that the clients share.
\<close>

type_synonym cstring = "u8 list"

text \<open>The buffer of a string, as the JSON library takes it.\<close>

definition cbuf :: "cstring \<Rightarrow> u8 list option" where
  "cbuf s = Some (s @ [0])"

section \<open>Tokens\<close>

text \<open>
  One call of \<open>strtok\<close> with the delimiters \<open>ds\<close> on what is left of the string: the token, and what the next call
  scans.  With no delimiters the token is the rest of the string, if there is any.
\<close>

definition strtok :: "u8 list \<Rightarrow> cstring \<Rightarrow> (cstring \<times> cstring) option" where
  "strtok ds s =
     (let t = dropWhile (\<lambda>c. c \<in> set ds) s; token = takeWhile (\<lambda>c. c \<notin> set ds) t
      in if t = [] then None else Some (token, drop (length token + 1) t))"

lemma strtok_shorter: "strtok ds s = Some (t, r) \<Longrightarrow> length r < length s"
  using length_dropWhile_le [of "\<lambda>c. c \<in> set ds" s]
  by (cases "dropWhile (\<lambda>c. c \<in> set ds) s") (auto simp: strtok_def Let_def)

function tokens :: "u8 list \<Rightarrow> cstring \<Rightarrow> cstring list" where
  "tokens ds s = (case strtok ds s of None \<Rightarrow> [] | Some (t, r) \<Rightarrow> t # tokens ds r)"
  by pat_completeness auto

termination tokens
  by (relation "measure (\<lambda>(ds, s). length s)") (auto dest: strtok_shorter)

declare tokens.simps [simp del]

lemma tokens_Nil [simp]: "tokens ds [] = []"
  by (subst tokens.simps) (simp add: strtok_def)

lemma strtok_token:
  assumes "strtok ds s = Some (t, r)"
  shows "t \<noteq> []" "set t \<inter> set ds = {}" "set t \<subseteq> set s" "set r \<subseteq> set s"
proof -
  define u where "u = dropWhile (\<lambda>c. c \<in> set ds) s"
  have u: "u \<noteq> []" "t = takeWhile (\<lambda>c. c \<notin> set ds) u" "r = drop (length t + 1) u"
    using assms by (auto simp: strtok_def u_def Let_def split: if_splits)
  have "hd u \<notin> set ds" using u(1) hd_dropWhile [of "\<lambda>c. c \<in> set ds" s] by (auto simp: u_def)
  then show "t \<noteq> []" using u(1,2) by (cases u) auto
  show "set t \<inter> set ds = {}" unfolding u(2) by (auto dest: set_takeWhileD)
  have "set u \<subseteq> set s" unfolding u_def using set_dropWhileD by fast
  then show "set t \<subseteq> set s" "set r \<subseteq> set s"
    unfolding u(2,3) using set_takeWhileD set_drop_subset by fast+
qed

lemma tokens_clean: "t \<in> set (tokens ds s) \<Longrightarrow> t \<noteq> [] \<and> set t \<inter> set ds = {} \<and> set t \<subseteq> set s"
proof (induction ds s rule: tokens.induct)
  case (1 ds s)
  show ?case
  proof (cases "strtok ds s")
    case None
    then show ?thesis using 1(2) by (subst (asm) tokens.simps) simp
  next
    case (Some p)
    obtain a r where p: "p = (a, r)" by force
    then have e: "tokens ds s = a # tokens ds r" using Some by (subst tokens.simps) simp
    note tk = strtok_token [OF Some [unfolded p]]
    show ?thesis
    proof (cases "t = a")
      case True
      then show ?thesis using tk by simp
    next
      case False
      then show ?thesis using 1(1) [OF Some p [symmetric]] 1(2) e tk(4) by auto
    qed
  qed
qed

lemma strtok_whole: "s \<noteq> [] \<Longrightarrow> set s \<inter> set ds = {} \<Longrightarrow> strtok ds s = Some (s, [])"
proof -
  assume s: "s \<noteq> []" "set s \<inter> set ds = {}"
  then have d: "dropWhile (\<lambda>c. c \<in> set ds) s = s" by (cases s) auto
  have t: "takeWhile (\<lambda>c. c \<notin> set ds) s = s" using s(2) by (auto simp: takeWhile_eq_all_conv)
  show ?thesis unfolding strtok_def Let_def d t using s(1) by simp
qed

lemma strtok_append:
  assumes "s \<noteq> []" "set s \<inter> set ds = {}" "d \<in> set ds"
  shows "strtok ds (s @ d # r) = Some (s, r)"
proof -
  obtain c s' where s: "s = c # s'" using assms(1) by (cases s) auto
  have d: "dropWhile (\<lambda>c. c \<in> set ds) (s @ d # r) = s @ d # r" using s assms(2) by simp
  have "takeWhile (\<lambda>c. c \<notin> set ds) (s @ d # r) = s"
    using assms(2,3) by (subst takeWhile_append2) auto
  then show ?thesis using d s by (simp add: strtok_def Let_def)
qed

section \<open>Comparison and search\<close>

text \<open>The sign of \<open>strcmp\<close>.\<close>

fun strcmp :: "cstring \<Rightarrow> cstring \<Rightarrow> int" where
  "strcmp [] [] = 0"
| "strcmp [] (b # t) = -1"
| "strcmp (a # s) [] = 1"
| "strcmp (a # s) (b # t) = (if a < b then -1 else if b < a then 1 else strcmp s t)"

lemma strcmp_zero_iff: "strcmp s t = 0 \<longleftrightarrow> s = t"
  by (induction s t rule: strcmp.induct) auto

lemma strcmp_swap: "strcmp t s = - strcmp s t"
  by (induction s t rule: strcmp.induct) auto

lemma strcmp_trans: "strcmp s t \<le> 0 \<Longrightarrow> strcmp t u \<le> 0 \<Longrightarrow> strcmp s u \<le> 0"
proof (induction s t arbitrary: u rule: strcmp.induct)
  case (4 a s b t)
  then show ?case by (cases u) (auto split: if_splits)
qed (auto split: if_splits, (case_tac u, auto)+)

definition strstr :: "cstring \<Rightarrow> cstring \<Rightarrow> nat option" where
  "strstr s t = find (\<lambda>i. take (length t) (drop i s) = t) [0..<length s + 1]"

definition strchr :: "cstring \<Rightarrow> u8 \<Rightarrow> nat option" where
  "strchr s c = find (\<lambda>i. s ! i = c) [0..<length s]"

lemma strchr_None: "strchr s c = None \<longleftrightarrow> c \<notin> set s"
  by (auto simp: strchr_def find_upt_None in_set_conv_nth)

lemma strchr_Some: "strchr s c = Some i \<Longrightarrow> i < length s \<and> s ! i = c \<and> c \<notin> set (take i s)"
  by (auto simp: strchr_def find_Some_iff in_set_conv_nth)

section \<open>Numbers\<close>

definition is_space :: "u8 \<Rightarrow> bool" where
  "is_space c \<longleftrightarrow> c = ch_space \<or> ch_tab \<le> c \<and> c \<le> ch_return"

text \<open>\<open>atoll\<close> is \<open>strtoll\<close> in base ten; \<open>atoi\<close> is \<open>strtol\<close>, which clamps to the 32 bits of a \<open>long\<close>.\<close>

definition c_atoll :: "cstring \<Rightarrow> int" where
  "c_atoll s = c_strtoll (dropWhile is_space s)"

definition c_atoi :: "cstring \<Rightarrow> int" where
  "c_atoi s = max (- (2 ^ 31)) (min (c_atoll s) (2 ^ 31 - 1))"

text \<open>What \<open>snprintf\<close> leaves in a buffer of \<open>n\<close> bytes when the formatted text is \<open>s\<close>.\<close>

definition printed :: "nat \<Rightarrow> cstring \<Rightarrow> cstring" where
  "printed n s = take (n - 1) s"

lemma printed_fits: "length s < n \<Longrightarrow> printed n s = s"
  by (simp add: printed_def)

section \<open>The order of doubles\<close>

text \<open>A double that is not a NaN, as an integer in the same order: its magnitude bits, negated when the sign bit is
  set.\<close>

definition double_rank :: "u64 \<Rightarrow> int" where
  "double_rank d =
     (if d AND 0x8000000000000000 = 0 then uint (d AND 0x7FFFFFFFFFFFFFFF) else - uint (d AND 0x7FFFFFFFFFFFFFFF))"

definition double_less :: "u64 \<Rightarrow> u64 \<Rightarrow> bool" where
  "double_less a b \<longleftrightarrow> \<not> is_nan a \<and> \<not> is_nan b \<and> double_rank a < double_rank b"

definition double_le :: "u64 \<Rightarrow> u64 \<Rightarrow> bool" where
  "double_le a b \<longleftrightarrow> \<not> is_nan a \<and> \<not> is_nan b \<and> double_rank a \<le> double_rank b"

text \<open>The sign bit and the magnitude bits of a word determine it.\<close>

lemma sign_and_magnitude:
  fixes a :: u64
  assumes "a AND 0x8000000000000000 = b AND 0x8000000000000000" and "a AND 0x7FFFFFFFFFFFFFFF = b AND 0x7FFFFFFFFFFFFFFF"
  shows "a = b"
proof -
  have "(0x8000000000000000 :: u64) OR 0x7FFFFFFFFFFFFFFF = - 1" by simp
  then have "x = (x AND 0x8000000000000000) OR (x AND 0x7FFFFFFFFFFFFFFF)" for x :: u64
    by (metis bit.conj_disj_distrib bit.conj_one_right)
  then show ?thesis using assms by metis
qed

lemma sign_cases: "(d :: u64) AND 0x8000000000000000 = 0 \<or> d AND 0x8000000000000000 = 0x8000000000000000"
proof -
  have e: "(0x8000000000000000 :: u64) = push_bit 63 1" by simp
  have b: "bit (d AND push_bit 63 1) n \<longleftrightarrow> n = 63 \<and> bit d 63" for n
    by (cases "n = 63") (auto simp: bit_and_iff bit_push_bit_iff simp del: push_bit_of_1 push_bit_numeral)
  have p: "bit (push_bit 63 1 :: u64) n \<longleftrightarrow> n = 63" for n
    by (cases "n = 63") (auto simp: bit_push_bit_iff simp del: push_bit_of_1 push_bit_numeral)
  show ?thesis unfolding e
  proof (cases "bit d 63")
    case True
    show "d AND push_bit 63 1 = 0 \<or> d AND push_bit 63 1 = push_bit 63 1"
      by (intro disjI2 bit_word_eqI; simp only: b p True simp_thms)
  next
    case False
    show "d AND push_bit 63 1 = 0 \<or> d AND push_bit 63 1 = push_bit 63 1"
      by (intro disjI1 bit_word_eqI; simp only: b False; auto)
  qed
qed

lemma double_eq_rank: "double_eq a b \<longleftrightarrow> \<not> is_nan a \<and> \<not> is_nan b \<and> double_rank a = double_rank b"
proof -
  define s where "s = (0x8000000000000000 :: u64)"
  define m where "m = (0x7FFFFFFFFFFFFFFF :: u64)"
  have s: "x AND s = 0 \<or> x AND s = s" for x using sign_cases by (simp add: s_def)
  have z: "(a OR b) AND m = 0 \<longleftrightarrow> a AND m = 0 \<and> b AND m = 0"
    by (simp add: bit.conj_disj_distrib2 or_eq_0_iff)
  have r: "double_rank x = (if x AND s = 0 then uint (x AND m) else - uint (x AND m))" for x
    by (simp add: double_rank_def s_def m_def)
  have same: "a AND s = b AND s \<Longrightarrow> uint (a AND m) = uint (b AND m) \<Longrightarrow> a = b"
    using sign_and_magnitude [of a b] unfolding s_def m_def word_uint_eq_iff [of "a AND 0x7FFFFFFFFFFFFFFF"] by blast
  have nz: "uint x \<ge> 0" "uint x = 0 \<longleftrightarrow> x = 0" for x :: u64 by (simp_all add: uint_0_iff)
  have "a = b \<or> (a OR b) AND m = 0 \<longleftrightarrow> double_rank a = double_rank b"
  proof (cases "a AND s = b AND s")
    case True
    then show ?thesis using same by (auto simp: r z)
  next
    case False
    then show ?thesis
      using nz(1) [of "a AND m"] nz(1) [of "b AND m"] nz(2) [of "a AND m"] nz(2) [of "b AND m"] s [of a] s [of b]
      unfolding r z by (smt (verit))
  qed
  then show ?thesis by (simp add: double_eq_def m_def)
qed

end
