(* ===== verification/Odata.thy ===== *)
theory Odata
  imports CString
begin

text \<open>
  The OData library of \<open>src/serialization/odata.c\<close> and \<open>include/microposix/serialization/odata.h\<close>: the service and its
  entity model, the parser of query options, the generated documents, the query options applied to entities, and the
  responses.

  Strings are their bytes before the terminator.  Every allocation goes through the heap of the JSON library; a
  result \<^term>\<open>None\<close> is undefined behaviour.  The lists of the model are the linked lists of the code; a node is added
  once.  An array of entities is the list of its pointers, so its count is the length of the list.
\<close>

abbreviation ch_ampersand :: u8 where "ch_ampersand \<equiv> 0x26"
abbreviation ch_equals :: u8 where "ch_equals \<equiv> 0x3D"
abbreviation ch_question :: u8 where "ch_question \<equiv> 0x3F"

section \<open>The data model\<close>

datatype mp_odata_type =
    MP_ODATA_TYPE_STRING | MP_ODATA_TYPE_INT32 | MP_ODATA_TYPE_INT64 | MP_ODATA_TYPE_DOUBLE | MP_ODATA_TYPE_BOOLEAN
  | MP_ODATA_TYPE_DATETIME_OFFSET | MP_ODATA_TYPE_DATE | MP_ODATA_TYPE_TIME_OF_DAY | MP_ODATA_TYPE_DURATION
  | MP_ODATA_TYPE_GUID | MP_ODATA_TYPE_BINARY | MP_ODATA_TYPE_COMPLEX | MP_ODATA_TYPE_ENTITY
  | MP_ODATA_TYPE_COLLECTION | MP_ODATA_TYPE_ENUM | MP_ODATA_TYPE_NULL

text \<open>The fields of a property that point to other definitions are only ever set to \<open>NULL\<close>, and left out.\<close>

record od_property =
  op_name :: "cstring option"
  op_type :: mp_odata_type
  op_nullable :: bool
  op_is_key :: bool
  op_is_computed :: bool
  op_default_value :: "cstring option"
  op_max_length :: size_t
  op_precision :: u32
  op_scale :: u32
  op_unicode :: bool

record od_complex_type =
  oc_name :: "cstring option"
  oc_namespace :: "cstring option"
  oc_properties :: "od_property list"
  oc_is_abstract :: bool
  oc_is_open :: bool

record od_entity_type =
  oe_name :: "cstring option"
  oe_namespace :: "cstring option"
  oe_properties :: "od_property list"
  oe_key_properties :: "od_property list"
  oe_is_abstract :: bool
  oe_is_open :: bool
  oe_has_stream :: "cstring option"

text \<open>Of its entity type a set only uses the name, which no operation changes.\<close>

record od_entity_set =
  os_name :: "cstring option"
  os_entity_type :: "od_entity_type option"
  os_count :: nat
  os_data :: "json list option"

record od_query_options =
  qo_filter :: "cstring option"
  qo_select :: "cstring list option"
  qo_select_count :: nat
  qo_orderby :: "cstring list option"
  qo_orderby_count :: nat
  qo_top :: int
  qo_top_set :: bool
  qo_skip :: int
  qo_skip_set :: bool
  qo_count :: bool
  qo_count_set :: bool
  qo_expand :: "cstring list option"
  qo_expand_count :: nat
  qo_format :: "cstring option"
  qo_inlinecount :: "cstring option"

record od_metadata =
  md_service_root :: "cstring option"
  md_entity_sets :: "od_entity_set list"
  md_entity_types :: "od_entity_type list"
  md_complex_types :: "od_complex_type list"
  md_service_doc :: "json option"
  md_metadata_doc :: "json option"

text \<open>The request handlers of a service are set to \<open>NULL\<close> and never called.\<close>

record od_service =
  sv_name :: "cstring option"
  sv_namespace :: "cstring option"
  sv_version :: "cstring option"
  sv_metadata :: od_metadata

record od_error =
  er_code :: "cstring option"
  er_message :: "cstring option"
  er_target :: "cstring option"
  er_details :: "cstring option"
  er_inner_error :: "json option"

record od_response =
  rs_data :: "json option"
  rs_content_type :: "cstring option"
  rs_status_code :: u16
  rs_error :: "od_error option"

record od_context =
  cx_base_url :: "cstring option"
  cx_metadata_url :: "cstring option"
  cx_service_root :: "cstring option"

section \<open>The heap\<close>

definition od_strdup :: "cstring \<Rightarrow> json_heap \<Rightarrow> cstring option \<times> json_heap" where
  "od_strdup s h = (case jh_malloc (length s + 1) h of (ok, h') \<Rightarrow> (if ok then Some s else None, h'))"

text \<open>\<open>s ? strdup(s) : NULL\<close> and \<open>s ? strdup(s) : strdup(d)\<close>\<close>

definition od_strdup_opt :: "cstring option \<Rightarrow> json_heap \<Rightarrow> cstring option \<times> json_heap" where
  "od_strdup_opt s h = (case s of None \<Rightarrow> (None, h) | Some t \<Rightarrow> od_strdup t h)"

definition od_strdup_or :: "cstring \<Rightarrow> cstring option \<Rightarrow> json_heap \<Rightarrow> cstring option \<times> json_heap" where
  "od_strdup_or d s h = od_strdup (case s of None \<Rightarrow> d | Some t \<Rightarrow> t) h"

text \<open>The blocks freed by \<open>if (p) free(p)\<close>.\<close>

definition owned :: "'a option \<Rightarrow> nat" where
  "owned p = (case p of None \<Rightarrow> 0 | Some _ \<Rightarrow> 1)"

definition create_json_string :: "cstring option \<Rightarrow> json_heap \<Rightarrow> (json option \<times> json_heap) option" where
  "create_json_string s h = (case s of None \<Rightarrow> Some (mp_json_null h) | Some t \<Rightarrow> mp_json_string (cbuf t) h)"

definition create_json_boolean :: "bool \<Rightarrow> json_heap \<Rightarrow> json option \<times> json_heap" where
  "create_json_boolean b h = mp_json_boolean b h"

definition create_json_number :: "c_double \<Rightarrow> u64 \<Rightarrow> json_heap \<Rightarrow> json option \<times> json_heap" where
  "create_json_number D d h = mp_json_number D d h"

definition create_json_integer :: "c_double \<Rightarrow> u64 \<Rightarrow> json_heap \<Rightarrow> json option \<times> json_heap" where
  "create_json_integer D n h = mp_json_integer D n h"

text \<open>
  A call of \<open>mp_json_object_add\<close> whose return code the code ignores: the object and the heap.  An object left with
  released arrays is used again, which is undefined.  A \<open>NULL\<close> key is refused.
\<close>

definition od_put :: "json option \<Rightarrow> cstring option \<Rightarrow> json option \<Rightarrow> json_heap \<Rightarrow> (json option \<times> json_heap) option" where
  "od_put obj key v h =
     do { (ret, obj', h') \<leftarrow> mp_json_object_add obj (Option.bind key cbuf) v h;
          if obj \<noteq> None \<and> obj' = None then None else Some (obj', h') }"

definition od_put_string ::
  "json option \<Rightarrow> string \<Rightarrow> cstring option \<Rightarrow> json_heap \<Rightarrow> (json option \<times> json_heap) option" where
  "od_put_string obj key s h =
     do { (v, h1) \<leftarrow> create_json_string s h;
          od_put obj (Some (ascii key)) v h1 }"

definition od_push :: "json option \<Rightarrow> json option \<Rightarrow> json_heap \<Rightarrow> json option \<times> json_heap" where
  "od_push arr v h = (case mp_json_array_add arr v h of (ret, arr', h') \<Rightarrow> (arr', h'))"

section \<open>Services and types\<close>

definition blank_metadata :: od_metadata where
  "blank_metadata =
     \<lparr>md_service_root = None, md_entity_sets = [], md_entity_types = [], md_complex_types = [],
      md_service_doc = None, md_metadata_doc = None\<rparr>"

definition mp_odata_service_init ::
  "od_service option \<Rightarrow> cstring option \<Rightarrow> cstring option \<Rightarrow> cstring option \<Rightarrow> json_heap \<Rightarrow>
   int \<times> od_service option \<times> json_heap" where
  "mp_odata_service_init service name namespace version h =
     (case service of
        None \<Rightarrow> (-1, None, h)
      | Some _ \<Rightarrow>
          (case od_strdup_opt name h of (n, h1) \<Rightarrow>
           case od_strdup_opt namespace h1 of (ns, h2) \<Rightarrow>
           case od_strdup_or (ascii ''4.0'') version h2 of (v, h3) \<Rightarrow>
             (0, Some \<lparr>sv_name = n, sv_namespace = ns, sv_version = v, sv_metadata = blank_metadata\<rparr>, h3)))"

text \<open>The three functions that free a definition: their blocks.  The names of the properties are not freed.\<close>

definition mp_odata_entity_set_free :: "od_entity_set \<Rightarrow> nat" where
  "mp_odata_entity_set_free es = owned (os_name es) + owned (os_data es) + 1"

definition mp_odata_entity_type_free :: "od_entity_type \<Rightarrow> nat" where
  "mp_odata_entity_type_free et = owned (oe_name et) + owned (oe_namespace et) + length (oe_properties et) + 1"

definition mp_odata_complex_type_free :: "od_complex_type \<Rightarrow> nat" where
  "mp_odata_complex_type_free ct = owned (oc_name ct) + owned (oc_namespace ct) + length (oc_properties ct) + 1"

definition mp_odata_service_destroy :: "od_service option \<Rightarrow> json_heap \<Rightarrow> od_service option \<times> json_heap" where
  "mp_odata_service_destroy service h =
     (case service of
        None \<Rightarrow> (None, h)
      | Some s \<Rightarrow>
          (Some \<lparr>sv_name = None, sv_namespace = None, sv_version = None, sv_metadata = blank_metadata\<rparr>,
           jh_free
             (owned (sv_name s) + owned (sv_namespace s) + owned (sv_version s)
              + sum_list (map mp_odata_entity_set_free (md_entity_sets (sv_metadata s)))
              + sum_list (map mp_odata_entity_type_free (md_entity_types (sv_metadata s)))
              + sum_list (map mp_odata_complex_type_free (md_complex_types (sv_metadata s)))
              + mp_json_free (md_service_doc (sv_metadata s)) + mp_json_free (md_metadata_doc (sv_metadata s)))
             h))"

definition mp_odata_service_add_entity_type ::
  "od_service option \<Rightarrow> od_entity_type option \<Rightarrow> int \<times> od_service option" where
  "mp_odata_service_add_entity_type service entity_type =
     (case (service, entity_type) of
        (Some s, Some et) \<Rightarrow>
          (0, Some (s\<lparr>sv_metadata := (sv_metadata s)\<lparr>md_entity_types := et # md_entity_types (sv_metadata s)\<rparr>\<rparr>))
      | _ \<Rightarrow> (-1, service))"

definition mp_odata_service_add_complex_type ::
  "od_service option \<Rightarrow> od_complex_type option \<Rightarrow> int \<times> od_service option" where
  "mp_odata_service_add_complex_type service complex_type =
     (case (service, complex_type) of
        (Some s, Some ct) \<Rightarrow>
          (0, Some (s\<lparr>sv_metadata := (sv_metadata s)\<lparr>md_complex_types := ct # md_complex_types (sv_metadata s)\<rparr>\<rparr>))
      | _ \<Rightarrow> (-1, service))"

definition mp_odata_service_add_entity_set ::
  "od_service option \<Rightarrow> od_entity_set option \<Rightarrow> int \<times> od_service option" where
  "mp_odata_service_add_entity_set service entity_set =
     (case (service, entity_set) of
        (Some s, Some es) \<Rightarrow>
          (0, Some (s\<lparr>sv_metadata := (sv_metadata s)\<lparr>md_entity_sets := es # md_entity_sets (sv_metadata s)\<rparr>\<rparr>))
      | _ \<Rightarrow> (-1, service))"

definition sizeof_odata_entity :: nat where "sizeof_odata_entity = 32"
definition sizeof_odata_complex_type :: nat where "sizeof_odata_complex_type = 24"
definition sizeof_odata_entity_set :: nat where "sizeof_odata_entity_set = 28"
definition sizeof_odata_property :: nat where "sizeof_odata_property = 52"
definition sizeof_odata_response :: nat where "sizeof_odata_response = 16"
definition sizeof_odata_error :: nat where "sizeof_odata_error = 20"

definition mp_odata_entity_type_create ::
  "cstring option \<Rightarrow> cstring option \<Rightarrow> json_heap \<Rightarrow> od_entity_type option \<times> json_heap" where
  "mp_odata_entity_type_create name namespace h =
     (case jh_malloc sizeof_odata_entity h of (ok, h1) \<Rightarrow>
        if \<not> ok then (None, h1)
        else
          (case od_strdup_opt name h1 of (n, h2) \<Rightarrow>
           case od_strdup_opt namespace h2 of (ns, h3) \<Rightarrow>
             (Some \<lparr>oe_name = n, oe_namespace = ns, oe_properties = [], oe_key_properties = [],
                    oe_is_abstract = False, oe_is_open = False, oe_has_stream = None\<rparr>, h3)))"

definition new_property :: "cstring option \<Rightarrow> mp_odata_type \<Rightarrow> bool \<Rightarrow> od_property" where
  "new_property name type is_key =
     \<lparr>op_name = name, op_type = type, op_nullable = True, op_is_key = is_key, op_is_computed = False,
      op_default_value = None, op_max_length = 0, op_precision = 0, op_scale = 0, op_unicode = True\<rparr>"

text \<open>
  A property has one \<open>next\<close> field.  A key property is put in front of the list of properties and then in front of the
  key properties, which redirects its \<open>next\<close>: the list of properties continues with the key properties.
\<close>

definition mp_odata_entity_type_add_property ::
  "od_entity_type option \<Rightarrow> cstring option \<Rightarrow> mp_odata_type \<Rightarrow> bool \<Rightarrow> json_heap \<Rightarrow>
   int \<times> od_entity_type option \<times> json_heap" where
  "mp_odata_entity_type_add_property entity_type name type is_key h =
     (case (entity_type, name) of
        (Some et, Some nm) \<Rightarrow>
          (case jh_malloc sizeof_odata_property h of (ok, h1) \<Rightarrow>
             if \<not> ok then (-1, entity_type, h1)
             else
               (case od_strdup nm h1 of (n, h2) \<Rightarrow>
                  let p = new_property n type is_key
                  in (0,
                      Some (if is_key
                            then et\<lparr>oe_properties := p # oe_key_properties et,
                                    oe_key_properties := p # oe_key_properties et\<rparr>
                            else et\<lparr>oe_properties := p # oe_properties et\<rparr>),
                      h2)))
      | _ \<Rightarrow> (-1, entity_type, h))"

definition mp_odata_complex_type_create ::
  "cstring option \<Rightarrow> cstring option \<Rightarrow> json_heap \<Rightarrow> od_complex_type option \<times> json_heap" where
  "mp_odata_complex_type_create name namespace h =
     (case jh_malloc sizeof_odata_complex_type h of (ok, h1) \<Rightarrow>
        if \<not> ok then (None, h1)
        else
          (case od_strdup_opt name h1 of (n, h2) \<Rightarrow>
           case od_strdup_opt namespace h2 of (ns, h3) \<Rightarrow>
             (Some \<lparr>oc_name = n, oc_namespace = ns, oc_properties = [], oc_is_abstract = False, oc_is_open = False\<rparr>, h3)))"

definition mp_odata_complex_type_add_property ::
  "od_complex_type option \<Rightarrow> cstring option \<Rightarrow> mp_odata_type \<Rightarrow> json_heap \<Rightarrow> int \<times> od_complex_type option \<times> json_heap" where
  "mp_odata_complex_type_add_property complex_type name type h =
     (case (complex_type, name) of
        (Some ct, Some nm) \<Rightarrow>
          (case jh_malloc sizeof_odata_property h of (ok, h1) \<Rightarrow>
             if \<not> ok then (-1, complex_type, h1)
             else
               (case od_strdup nm h1 of (n, h2) \<Rightarrow>
                  (0, Some (ct\<lparr>oc_properties := new_property n type False # oc_properties ct\<rparr>), h2)))
      | _ \<Rightarrow> (-1, complex_type, h))"

definition mp_odata_entity_set_create ::
  "cstring option \<Rightarrow> od_entity_type option \<Rightarrow> json_heap \<Rightarrow> od_entity_set option \<times> json_heap" where
  "mp_odata_entity_set_create name entity_type h =
     (case jh_malloc sizeof_odata_entity_set h of (ok, h1) \<Rightarrow>
        if \<not> ok then (None, h1)
        else
          (case od_strdup_opt name h1 of (n, h2) \<Rightarrow>
             (Some \<lparr>os_name = n, os_entity_type = entity_type, os_count = 0, os_data = None\<rparr>, h2)))"

definition mp_odata_entity_set_add_entity ::
  "od_entity_set option \<Rightarrow> json option \<Rightarrow> json_heap \<Rightarrow> int \<times> od_entity_set option \<times> json_heap" where
  "mp_odata_entity_set_add_entity entity_set entity h =
     (case (entity_set, entity) of
        (Some es, Some e) \<Rightarrow>
          (case jh_realloc (os_data es = None) ((os_count es + 1) * sizeof_pointer) h of (ok, h1) \<Rightarrow>
             if \<not> ok then (-1, entity_set, h1)
             else (0, Some (es\<lparr>os_count := os_count es + 1,
                               os_data := Some ((case os_data es of None \<Rightarrow> [] | Some d \<Rightarrow> d) @ [e])\<rparr>), h1))
      | _ \<Rightarrow> (-1, entity_set, h))"

section \<open>Query options\<close>

text \<open>The number of parameters is one more than the number of ampersands.\<close>

definition param_count :: "cstring \<Rightarrow> nat" where
  "param_count q = length (filter (\<lambda>c. c = ch_ampersand) q) + 1"

text \<open>
  One parameter at \<open>p\<close>: its key, its value, what is left.  The length of the key is computed when \<open>p\<close> has moved to the
  end of the value, so the key reaches to there.
\<close>

definition next_pair :: "cstring \<Rightarrow> cstring \<times> cstring \<times> cstring" where
  "next_pair p =
     (let key_start = (if hd p = ch_ampersand \<or> hd p = ch_question then tl p else p);
          name = takeWhile (\<lambda>c. c \<noteq> ch_equals \<and> c \<noteq> ch_ampersand) key_start;
          q = drop (length name) key_start
      in if q \<noteq> [] \<and> hd q = ch_equals
         then let arg = takeWhile (\<lambda>c. c \<noteq> ch_ampersand) (tl q)
              in (name @ [ch_equals] @ arg, arg, drop (length arg) (tl q))
         else (name, [], q))"

text \<open>The loop: the pairs read, or \<^term>\<open>None\<close> when an allocation failed and everything was freed.\<close>

function parse_pairs_loop ::
  "nat \<Rightarrow> cstring \<Rightarrow> (cstring \<times> cstring) list \<Rightarrow> json_heap \<Rightarrow> (cstring \<times> cstring) list option \<times> json_heap" where
  "parse_pairs_loop n p kvs h =
     (if p \<noteq> [] \<and> length kvs < n
      then
        (case next_pair p of (k, v, rest) \<Rightarrow>
         case jh_malloc (length k + 1) h of (kok, h1) \<Rightarrow>
         case jh_malloc (length v + 1) h1 of (vok, h2) \<Rightarrow>
           if \<not> kok \<or> \<not> vok
           then (None, jh_free (2 * length kvs + (if kok then 1 else 0) + (if vok then 1 else 0) + 2) h2)
           else parse_pairs_loop n rest (kvs @ [(k, v)]) h2)
      else (Some kvs, h))"
  by pat_completeness auto

termination parse_pairs_loop
  by (relation "measure (\<lambda>(n, p, kvs, h). n - length kvs)") auto

declare parse_pairs_loop.simps [simp del]

text \<open>The return code, the arrays with their count (\<^term>\<open>None\<close> for \<open>NULL\<close> arrays) and the heap.\<close>

definition parse_query_pairs ::
  "cstring option \<Rightarrow> json_heap \<Rightarrow> int \<times> (cstring \<times> cstring) list option \<times> json_heap" where
  "parse_query_pairs query_string h =
     (case query_string of
        None \<Rightarrow> (0, None, h)
      | Some q \<Rightarrow>
          if q = [] then (0, None, h)
          else
            (case jh_malloc (param_count q * sizeof_pointer) h of (kok, h1) \<Rightarrow>
             case jh_malloc (param_count q * sizeof_pointer) h1 of (vok, h2) \<Rightarrow>
               if \<not> kok \<or> \<not> vok then (-1, None, jh_free ((if kok then 1 else 0) + (if vok then 1 else 0)) h2)
               else (case parse_pairs_loop (param_count q) q [] h2 of
                       (None, h3) \<Rightarrow> (-1, None, h3)
                     | (Some kvs, h3) \<Rightarrow> (0, Some kvs, h3))))"

definition free_query_pairs :: "(cstring \<times> cstring) list option \<Rightarrow> json_heap \<Rightarrow> json_heap" where
  "free_query_pairs kvs h = (case kvs of None \<Rightarrow> h | Some ps \<Rightarrow> jh_free (2 * length ps + 2) h)"

text \<open>
  The loops that append the tokens of a list option: whether they finish, the array with its count, and the heap.  A
  reallocation that fails overwrites the array with \<open>NULL\<close> and keeps the count.
\<close>

fun append_tokens ::
  "cstring list \<Rightarrow> cstring list option \<Rightarrow> nat \<Rightarrow> json_heap \<Rightarrow> bool \<times> cstring list option \<times> nat \<times> json_heap" where
  "append_tokens [] arr n h = (True, arr, n, h)"
| "append_tokens (t # ts) arr n h =
     (case jh_realloc (arr = None) ((n + 1) * sizeof_pointer) h of (ok, h1) \<Rightarrow>
        if \<not> ok then (False, None, n, h1)
        else
          let xs = (case arr of None \<Rightarrow> [] | Some xs \<Rightarrow> xs)
          in (case od_strdup t h1 of
                (None, h2) \<Rightarrow> (False, Some xs, n, h2)
              | (Some s, h2) \<Rightarrow> append_tokens ts (Some (xs @ [s])) (n + 1) h2))"

text \<open>\<open>strtok\<close> over a copy of the value, which is freed at the end; without the copy, \<open>strtok(NULL, ...)\<close>.\<close>

definition append_copied ::
  "cstring \<Rightarrow> cstring list option \<Rightarrow> nat \<Rightarrow> json_heap \<Rightarrow> (bool \<times> cstring list option \<times> nat \<times> json_heap) option" where
  "append_copied v arr n h =
     (case od_strdup v h of
        (None, h1) \<Rightarrow> None
      | (Some p, h1) \<Rightarrow>
          (case append_tokens (tokens [ch_comma] p) arr n h1 of (ok, arr', n', h2) \<Rightarrow>
             Some (ok, arr', n', jh_free 1 h2)))"

text \<open>One round of the loop over the parameters: whether it goes on.\<close>

definition process_pair ::
  "cstring \<times> cstring \<Rightarrow> od_query_options \<Rightarrow> json_heap \<Rightarrow> (bool \<times> od_query_options \<times> json_heap) option" where
  "process_pair kv opt h =
     (case kv of (k, v) \<Rightarrow>
        if k = ascii ''$filter''
        then (case od_strdup v h of (s, h1) \<Rightarrow> Some (True, opt\<lparr>qo_filter := s\<rparr>, h1))
        else if k = ascii ''$select''
        then (case append_tokens (tokens [ch_comma] v) (qo_select opt) (qo_select_count opt) h of
                (ok, arr, n, h1) \<Rightarrow> Some (ok, opt\<lparr>qo_select := arr, qo_select_count := n\<rparr>, h1))
        else if k = ascii ''$orderby''
        then do { (ok, arr, n, h1) \<leftarrow> append_copied v (qo_orderby opt) (qo_orderby_count opt) h;
                  Some (ok, opt\<lparr>qo_orderby := arr, qo_orderby_count := n\<rparr>, h1) }
        else if k = ascii ''$top'' then Some (True, opt\<lparr>qo_top := c_atoll v, qo_top_set := True\<rparr>, h)
        else if k = ascii ''$skip'' then Some (True, opt\<lparr>qo_skip := c_atoll v, qo_skip_set := True\<rparr>, h)
        else if k = ascii ''$count''
        then Some (True, opt\<lparr>qo_count := (v = ascii ''true''), qo_count_set := True\<rparr>, h)
        else if k = ascii ''$expand''
        then do { (ok, arr, n, h1) \<leftarrow> append_copied v (qo_expand opt) (qo_expand_count opt) h;
                  Some (ok, opt\<lparr>qo_expand := arr, qo_expand_count := n\<rparr>, h1) }
        else if k = ascii ''$format''
        then (case od_strdup v h of (s, h1) \<Rightarrow> Some (True, opt\<lparr>qo_format := s\<rparr>, h1))
        else if k = ascii ''$inlinecount''
        then (case od_strdup v h of (s, h1) \<Rightarrow> Some (True, opt\<lparr>qo_inlinecount := s\<rparr>, h1))
        else Some (True, opt, h))"

fun process_pairs ::
  "(cstring \<times> cstring) list \<Rightarrow> od_query_options \<Rightarrow> json_heap \<Rightarrow> (bool \<times> od_query_options \<times> json_heap) option" where
  "process_pairs [] opt h = Some (True, opt, h)"
| "process_pairs (kv # kvs) opt h =
     do { (ok, opt', h') \<leftarrow> process_pair kv opt h;
          if ok then process_pairs kvs opt' h' else Some (False, opt', h') }"

definition blank_options :: od_query_options where
  "blank_options =
     \<lparr>qo_filter = None, qo_select = None, qo_select_count = 0, qo_orderby = None, qo_orderby_count = 0,
      qo_top = 0, qo_top_set = False, qo_skip = 0, qo_skip_set = False, qo_count = False, qo_count_set = False,
      qo_expand = None, qo_expand_count = 0, qo_format = None, qo_inlinecount = None\<rparr>"

definition mp_odata_parse_query_options ::
  "cstring option \<Rightarrow> od_query_options option \<Rightarrow> json_heap \<Rightarrow> (int \<times> od_query_options option \<times> json_heap) option" where
  "mp_odata_parse_query_options query_string options h =
     (if options = None then Some (-1, None, h)
      else if query_string = None \<or> query_string = Some [] then Some (0, Some blank_options, h)
      else
        (case parse_query_pairs query_string h of (ret, kvs, h1) \<Rightarrow>
           if ret \<noteq> 0 then Some (-1, Some blank_options, h1)
           else do { (ok, opt, h2) \<leftarrow> process_pairs (case kvs of None \<Rightarrow> [] | Some ps \<Rightarrow> ps) blank_options h1;
                     Some (if ok then 0 else -1, Some opt, free_query_pairs kvs h2) }))"

text \<open>The loop that frees the strings of a list option, and its array; undefined when the array is \<open>NULL\<close> and the
  count is not zero.\<close>

definition free_tokens :: "cstring list option \<Rightarrow> nat \<Rightarrow> nat option" where
  "free_tokens arr n =
     (case arr of None \<Rightarrow> if n = 0 then Some 0 else None
      | Some xs \<Rightarrow> if n \<le> length xs then Some (n + 1) else None)"

definition mp_odata_query_options_free ::
  "od_query_options option \<Rightarrow> json_heap \<Rightarrow> (od_query_options option \<times> json_heap) option" where
  "mp_odata_query_options_free options h =
     (case options of
        None \<Rightarrow> Some (None, h)
      | Some opt \<Rightarrow>
          do { a \<leftarrow> free_tokens (qo_select opt) (qo_select_count opt);
               b \<leftarrow> free_tokens (qo_orderby opt) (qo_orderby_count opt);
               c \<leftarrow> free_tokens (qo_expand opt) (qo_expand_count opt);
               Some (Some blank_options,
                     jh_free (owned (qo_filter opt) + a + b + c + owned (qo_format opt) + owned (qo_inlinecount opt)) h) })"

end
