(* ===== verification/OdataDocs.thy ===== *)
theory OdataDocs
  imports Odata
begin

text \<open>
  The second half of \<open>odata.c\<close>: the metadata and service documents, \<open>$select\<close>, \<open>$filter\<close>, \<open>$orderby\<close> and paging on
  arrays of entities, the responses, and \<open>mp_odata_generate_response\<close> that puts them together.
\<close>

section \<open>Type names\<close>

fun mp_odata_get_type_name :: "mp_odata_type \<Rightarrow> cstring" where
  "mp_odata_get_type_name MP_ODATA_TYPE_STRING = ascii ''Edm.String''"
| "mp_odata_get_type_name MP_ODATA_TYPE_INT32 = ascii ''Edm.Int32''"
| "mp_odata_get_type_name MP_ODATA_TYPE_INT64 = ascii ''Edm.Int64''"
| "mp_odata_get_type_name MP_ODATA_TYPE_DOUBLE = ascii ''Edm.Double''"
| "mp_odata_get_type_name MP_ODATA_TYPE_BOOLEAN = ascii ''Edm.Boolean''"
| "mp_odata_get_type_name MP_ODATA_TYPE_DATETIME_OFFSET = ascii ''Edm.DateTimeOffset''"
| "mp_odata_get_type_name MP_ODATA_TYPE_DATE = ascii ''Edm.Date''"
| "mp_odata_get_type_name MP_ODATA_TYPE_TIME_OF_DAY = ascii ''Edm.TimeOfDay''"
| "mp_odata_get_type_name MP_ODATA_TYPE_DURATION = ascii ''Edm.Duration''"
| "mp_odata_get_type_name MP_ODATA_TYPE_GUID = ascii ''Edm.Guid''"
| "mp_odata_get_type_name MP_ODATA_TYPE_BINARY = ascii ''Edm.Binary''"
| "mp_odata_get_type_name MP_ODATA_TYPE_COMPLEX = ascii ''Edm.Complex''"
| "mp_odata_get_type_name MP_ODATA_TYPE_ENTITY = ascii ''Edm.Entity''"
| "mp_odata_get_type_name MP_ODATA_TYPE_COLLECTION = ascii ''Edm.Collection''"
| "mp_odata_get_type_name MP_ODATA_TYPE_ENUM = ascii ''Edm.Enum''"
| "mp_odata_get_type_name MP_ODATA_TYPE_NULL = ascii ''Edm.Null''"

definition mp_odata_get_type_from_json :: "json option \<Rightarrow> mp_odata_type" where
  "mp_odata_get_type_from_json v =
     (case v of
        None \<Rightarrow> MP_ODATA_TYPE_NULL
      | Some J_null \<Rightarrow> MP_ODATA_TYPE_NULL
      | Some (J_boolean b) \<Rightarrow> MP_ODATA_TYPE_BOOLEAN
      | Some (J_number d is_integer n) \<Rightarrow>
          if is_integer
          then if sint n \<ge> - (2 ^ 31) \<and> sint n \<le> 2 ^ 31 - 1 then MP_ODATA_TYPE_INT32 else MP_ODATA_TYPE_INT64
          else MP_ODATA_TYPE_DOUBLE
      | Some (J_string s n own) \<Rightarrow> MP_ODATA_TYPE_STRING
      | Some (J_object es cap) \<Rightarrow> MP_ODATA_TYPE_COMPLEX
      | Some (J_array xs cap) \<Rightarrow> MP_ODATA_TYPE_COLLECTION
      | Some J_error \<Rightarrow> MP_ODATA_TYPE_STRING)"

section \<open>Metadata and service documents\<close>

fun key_members :: "od_property list \<Rightarrow> json option \<Rightarrow> json_heap \<Rightarrow> (json option \<times> json_heap) option" where
  "key_members [] key h = Some (key, h)"
| "key_members (p # ps) key h =
     do { (v, h1) \<leftarrow> create_json_string (op_name p) h;
          (key', h2) \<leftarrow> od_put key (op_name p) v h1;
          key_members ps key' h2 }"

definition property_doc :: "od_property \<Rightarrow> json_heap \<Rightarrow> (json option \<times> json_heap) option" where
  "property_doc prop h =
     (case mp_json_object h of (p, h1) \<Rightarrow>
        do { (p, h2) \<leftarrow> od_put_string p ''Name'' (op_name prop) h1;
             (p, h3) \<leftarrow> od_put_string p ''Type'' (Some (mp_odata_get_type_name (op_type prop))) h2;
             (case create_json_boolean (op_nullable prop) h3 of (b, h4) \<Rightarrow> od_put p (Some (ascii ''Nullable'')) b h4) })"

text \<open>The three loops of the document push one object for each node; \<open>doc\<close> builds it.\<close>

fun push_docs ::
  "('a \<Rightarrow> json_heap \<Rightarrow> (json option \<times> json_heap) option) \<Rightarrow> 'a list \<Rightarrow> json option \<Rightarrow> json_heap \<Rightarrow>
   (json option \<times> json_heap) option" where
  "push_docs doc [] arr h = Some (arr, h)"
| "push_docs doc (x # xs) arr h =
     do { (d, h1) \<leftarrow> doc x h;
          case od_push arr d h1 of (arr', h2) \<Rightarrow> push_docs doc xs arr' h2 }"

text \<open>\<open>properties = mp_json_array(); while (prop) { ... } mp_json_object_add(obj, key, properties)\<close>\<close>

definition put_docs ::
  "json option \<Rightarrow> string \<Rightarrow> ('a \<Rightarrow> json_heap \<Rightarrow> (json option \<times> json_heap) option) \<Rightarrow> 'a list \<Rightarrow> json_heap \<Rightarrow>
   (json option \<times> json_heap) option" where
  "put_docs obj key doc xs h =
     (case mp_json_array h of (arr, h1) \<Rightarrow>
        do { (arr', h2) \<leftarrow> push_docs doc xs arr h1;
             od_put obj (Some (ascii key)) arr' h2 })"

definition put_keys :: "od_property list \<Rightarrow> json option \<Rightarrow> json_heap \<Rightarrow> (json option \<times> json_heap) option" where
  "put_keys keys d h =
     (if keys \<noteq> []
      then (case mp_json_object h of (key, h1) \<Rightarrow>
              do { (key, h2) \<leftarrow> key_members keys key h1;
                   od_put d (Some (ascii ''Key'')) key h2 })
      else Some (d, h))"

definition entity_type_doc :: "od_entity_type \<Rightarrow> json_heap \<Rightarrow> (json option \<times> json_heap) option" where
  "entity_type_doc et h =
     (case mp_json_object h of (d, h1) \<Rightarrow>
        do { (d, h2) \<leftarrow> od_put_string d ''Name'' (oe_name et) h1;
             (d, h3) \<leftarrow> od_put_string d ''Namespace'' (oe_namespace et) h2;
             (d, h4) \<leftarrow> put_keys (oe_key_properties et) d h3;
             put_docs d ''Properties'' property_doc (oe_properties et) h4 })"

definition complex_type_doc :: "od_complex_type \<Rightarrow> json_heap \<Rightarrow> (json option \<times> json_heap) option" where
  "complex_type_doc ct h =
     (case mp_json_object h of (d, h1) \<Rightarrow>
        do { (d, h2) \<leftarrow> od_put_string d ''Name'' (oc_name ct) h1;
             (d, h3) \<leftarrow> od_put_string d ''Namespace'' (oc_namespace ct) h2;
             put_docs d ''Properties'' property_doc (oc_properties ct) h3 })"

definition entity_set_doc :: "od_entity_set \<Rightarrow> json_heap \<Rightarrow> (json option \<times> json_heap) option" where
  "entity_set_doc es h =
     (case mp_json_object h of (d, h1) \<Rightarrow>
        do { (d, h2) \<leftarrow> od_put_string d ''Name'' (os_name es) h1;
             et \<leftarrow> os_entity_type es;
             od_put_string d ''EntityType'' (oe_name et) h2 })"

definition mp_odata_generate_metadata :: "od_service option \<Rightarrow> json_heap \<Rightarrow> (json option \<times> json_heap) option" where
  "mp_odata_generate_metadata service h =
     (case service of
        None \<Rightarrow> Some (None, h)
      | Some s \<Rightarrow>
          (case mp_json_object h of
             (None, h1) \<Rightarrow> Some (None, h1)
           | (Some m, h1) \<Rightarrow>
               do { (md, h2) \<leftarrow> od_put_string (Some m) ''$Version'' (sv_version s) h1;
                    (case mp_json_object h2 of (obj, h3) \<Rightarrow>
                       do { (obj, h4) \<leftarrow> put_docs obj ''EntityTypes'' entity_type_doc (md_entity_types (sv_metadata s)) h3;
                            (obj, h5) \<leftarrow> put_docs obj ''ComplexTypes'' complex_type_doc (md_complex_types (sv_metadata s)) h4;
                            (obj, h6) \<leftarrow> put_docs obj ''EntitySets'' entity_set_doc (md_entity_sets (sv_metadata s)) h5;
                            od_put md (Some (ascii ''$Metadata'')) obj h6 }) }))"

definition service_entry :: "od_entity_set \<Rightarrow> json_heap \<Rightarrow> (json option \<times> json_heap) option" where
  "service_entry es h =
     (case mp_json_object h of (d, h1) \<Rightarrow>
        do { (d, h2) \<leftarrow> od_put_string d ''name'' (os_name es) h1;
             (d, h3) \<leftarrow> od_put_string d ''kind'' (Some (ascii ''EntitySet'')) h2;
             od_put_string d ''url'' (os_name es) h3 })"

definition mp_odata_generate_service_document ::
  "od_service option \<Rightarrow> json_heap \<Rightarrow> (json option \<times> json_heap) option" where
  "mp_odata_generate_service_document service h =
     (case service of
        None \<Rightarrow> Some (None, h)
      | Some s \<Rightarrow>
          (case mp_json_object h of
             (None, h1) \<Rightarrow> Some (None, h1)
           | (Some d, h1) \<Rightarrow>
               do { (doc, h2) \<leftarrow> od_put_string (Some d) ''@odata.context'' (Some (ascii ''$metadata#$service'')) h1;
                    put_docs doc ''value'' service_entry (md_entity_sets (sv_metadata s)) h2 }))"

section \<open>Context URLs\<close>

definition mp_odata_generate_context_url ::
  "od_context option \<Rightarrow> cstring option \<Rightarrow> json_heap \<Rightarrow> (cstring option \<times> json_heap) option" where
  "mp_odata_generate_context_url context entity_set_name h =
     (case (context, entity_set_name) of
        (Some cx, Some name) \<Rightarrow>
          do { base \<leftarrow> cx_base_url cx;
               let len = length base + length name + 32;
               (case jh_malloc len h of (ok, h1) \<Rightarrow>
                  Some (if ok then Some (printed len (base @ [ch_slash] @ name)) else None, h1)) }
      | _ \<Rightarrow> Some (None, h))"

definition mp_odata_generate_context ::
  "od_context option \<Rightarrow> cstring option \<Rightarrow> json_heap \<Rightarrow> (json option \<times> json_heap) option" where
  "mp_odata_generate_context context entity_set_name h =
     (if context = None \<or> entity_set_name = None then Some (None, h)
      else
        do { (url, h1) \<leftarrow> mp_odata_generate_context_url context entity_set_name h;
             case url of
               None \<Rightarrow> Some (None, h1)
             | Some u \<Rightarrow> do { (ctx, h2) \<leftarrow> mp_json_string (cbuf u) h1; Some (ctx, jh_free 1 h2) } })"

definition mp_odata_generate_metadata_url :: "od_context option \<Rightarrow> json_heap \<Rightarrow> (json option \<times> json_heap) option" where
  "mp_odata_generate_metadata_url context h =
     (case Option.bind context cx_metadata_url of
        None \<Rightarrow> Some (None, h)
      | Some url \<Rightarrow> mp_json_string (cbuf url) h)"

section \<open>Select\<close>

text \<open>
  The loop over \<open>select\<close> runs to a \<open>NULL\<close> pointer in the array; reading past the end of the array is undefined.
\<close>

fun select_members ::
  "c_double \<Rightarrow> json \<Rightarrow> cstring option list \<Rightarrow> json option \<Rightarrow> json_heap \<Rightarrow> (json option \<times> json_heap) option" where
  "select_members D entity [] result h = None"
| "select_members D entity (None # sel) result h = Some (result, h)"
| "select_members D entity (Some name # sel) result h =
     do { val \<leftarrow> mp_json_object_get (Some entity) (cbuf name);
          (result', h') \<leftarrow>
            (case val of
               None \<Rightarrow> Some (result, h)
             | Some v \<Rightarrow> do { (c, h1) \<leftarrow> mp_json_deep_copy D (Some v) h; od_put result (Some name) c h1 });
          select_members D entity sel result' h' }"

text \<open>The value returned, whether it is the entity itself, and the heap.\<close>

definition mp_odata_apply_select ::
  "c_double \<Rightarrow> json option \<Rightarrow> cstring option list option \<Rightarrow> json_heap \<Rightarrow> (json option \<times> bool \<times> json_heap) option" where
  "mp_odata_apply_select D entity select h =
     (case entity of
        None \<Rightarrow> Some (None, True, h)
      | Some e \<Rightarrow>
          if \<not> mp_json_is_object entity then Some (entity, True, h)
          else
            (case mp_json_object h of
               (None, h1) \<Rightarrow> Some (entity, True, h1)
             | (Some r, h1) \<Rightarrow>
                 (case select of
                    None \<Rightarrow> Some (entity, True, jh_free (mp_json_free (Some r)) h1)
                  | Some [] \<Rightarrow> None
                  | Some (None # _) \<Rightarrow> Some (entity, True, jh_free (mp_json_free (Some r)) h1)
                  | Some sel \<Rightarrow>
                      do { context \<leftarrow> mp_json_object_get entity (cbuf (ascii ''@odata.context''));
                           (result, h2) \<leftarrow>
                             (case context of
                                None \<Rightarrow> Some (Some r, h1)
                              | Some c \<Rightarrow>
                                  do { (c', k) \<leftarrow> mp_json_deep_copy D (Some c) h1;
                                       od_put (Some r) (Some (ascii ''@odata.context'')) c' k });
                           (result', h3) \<leftarrow> select_members D e sel result h2;
                           Some (result', False, h3) })))"

section \<open>Filter\<close>

text \<open>\<open>Property op Value\<close>: the three tokens of a filter; \<^term>\<open>None\<close> when one is missing.\<close>

definition filter_tokens :: "cstring \<Rightarrow> (cstring \<times> cstring \<times> cstring) option" where
  "filter_tokens f =
     do { (property, r1) \<leftarrow> strtok [ch_space] f;
          (opr, r2) \<leftarrow> strtok [ch_space] r1;
          (value_str, r3) \<leftarrow> strtok [] r2;
          Some (property, opr, value_str) }"

text \<open>The closing quote of a string is overwritten with a terminator; the length of the value still counts it.  When the
  value is the opening quote alone, the byte before the buffer is overwritten.\<close>

definition drop_closing_quote :: "cstring \<Rightarrow> json option \<Rightarrow> json option option" where
  "drop_closing_quote value_str v =
     (if last value_str \<noteq> ch_apostrophe then Some v
      else
        (case v of
           Some (J_string (Some buf) n own) \<Rightarrow> if n = 0 then None else Some (Some (J_string (Some (buf[n - 1 := 0])) n own))
         | _ \<Rightarrow> None))"

definition filter_value :: "c_double \<Rightarrow> cstring \<Rightarrow> json_heap \<Rightarrow> (json option \<times> json_heap) option" where
  "filter_value D value_str h =
     (if value_str = ascii ''true'' then Some (mp_json_boolean True h)
      else if value_str = ascii ''false'' then Some (mp_json_boolean False h)
      else if hd value_str = ch_apostrophe
      then do { (v, h1) \<leftarrow> mp_json_string (cbuf (tl value_str)) h;
                v' \<leftarrow> drop_closing_quote value_str v;
                Some (v', h1) }
      else Some (mp_json_number D (c_strtod D value_str) h))"

definition filter_compare :: "cstring \<Rightarrow> json option \<Rightarrow> json option \<Rightarrow> bool option" where
  "filter_compare opr a b =
     (let numbers = (mp_json_is_number a \<and> mp_json_is_number b); x = mp_json_get_number a; y = mp_json_get_number b
      in if opr = ascii ''eq'' then mp_json_equal a b
         else if opr = ascii ''ne'' then do { e \<leftarrow> mp_json_equal a b; Some (\<not> e) }
         else if opr = ascii ''gt'' then Some (numbers \<and> double_less y x)
         else if opr = ascii ''ge'' then Some (numbers \<and> double_le y x)
         else if opr = ascii ''lt'' then Some (numbers \<and> double_less x y)
         else if opr = ascii ''le'' then Some (numbers \<and> double_le x y)
         else Some False)"

definition evaluate_filter ::
  "c_double \<Rightarrow> json option \<Rightarrow> cstring option \<Rightarrow> json_heap \<Rightarrow> (bool \<times> json_heap) option" where
  "evaluate_filter D entity filt h =
     (if entity = None \<or> filt = None \<or> filt = Some [] then Some (True, h)
      else
        do { f \<leftarrow> filt;
             let (p, h1) = od_strdup f h;
             s \<leftarrow> p;
             (case filter_tokens s of
                None \<Rightarrow> Some (True, jh_free 1 h1)
              | Some (property, opr, value_str) \<Rightarrow>
                  do { prop_value \<leftarrow> mp_json_object_get entity (cbuf property);
                       if prop_value = None then Some (False, jh_free 1 h1)
                       else do { (v, h2) \<leftarrow> filter_value D value_str h1;
                                 result \<leftarrow> filter_compare opr prop_value v;
                                 Some (result, jh_free (1 + mp_json_free v) h2) } }) })"

fun filter_loop ::
  "c_double \<Rightarrow> cstring option \<Rightarrow> json option list \<Rightarrow> json_heap \<Rightarrow> (json option list \<times> json_heap) option" where
  "filter_loop D filt [] h = Some ([], h)"
| "filter_loop D filt (e # es) h =
     do { (keep, h1) \<leftarrow> evaluate_filter D e filt h;
          (r, h2) \<leftarrow> filter_loop D filt es h1;
          Some (if keep then e # r else r, h2) }"

text \<open>The return code, the filtered array (when the code is 0) and the heap.\<close>

definition mp_odata_apply_filter ::
  "c_double \<Rightarrow> json option list option \<Rightarrow> cstring option \<Rightarrow> json_heap \<Rightarrow> (int \<times> json option list \<times> json_heap) option" where
  "mp_odata_apply_filter D entities filt h =
     (case entities of
        None \<Rightarrow> Some (-1, [], h)
      | Some es \<Rightarrow>
          if es = [] then Some (-1, [], h)
          else (case jh_malloc (length es * sizeof_pointer) h of (ok, h1) \<Rightarrow>
                  if \<not> ok then Some (-1, [], h1)
                  else do { (r, h2) \<leftarrow> filter_loop D filt es h1; Some (0, r, h2) }))"

section \<open>Order\<close>

definition compare_entities :: "json option \<Rightarrow> json option \<Rightarrow> cstring \<Rightarrow> bool \<Rightarrow> int option" where
  "compare_entities a b property descending =
     do { a_val \<leftarrow> mp_json_object_get a (cbuf property);
          b_val \<leftarrow> mp_json_object_get b (cbuf property);
          if a_val = None \<or> b_val = None then Some 0
          else if mp_json_is_number a_val \<and> mp_json_is_number b_val
          then
            let x = mp_json_get_number a_val; y = mp_json_get_number b_val
            in Some (if double_less x y then if descending then 1 else -1
                     else if double_less y x then if descending then -1 else 1 else 0)
          else if mp_json_is_string a_val \<and> mp_json_is_string b_val
          then do { s \<leftarrow> c_str (mp_json_get_string a_val);
                    t \<leftarrow> c_str (mp_json_get_string b_val);
                    Some (if descending then - strcmp s t else strcmp s t) }
          else Some 0 }"

definition property_size :: nat where "property_size = 256"

text \<open>\<open>Property [asc|desc]\<close>: the property, copied into a buffer of 256 bytes, and the direction.\<close>

definition parse_order :: "cstring \<Rightarrow> (cstring \<times> bool) option" where
  "parse_order order =
     (let descending = (strstr order (ascii '' desc'') \<noteq> None);
          prop_len = (case strchr order ch_space of Some i \<Rightarrow> i | None \<Rightarrow> length order)
      in if prop_len < property_size then Some (take prop_len order, descending) else None)"

fun should_swap :: "cstring list \<Rightarrow> json option \<Rightarrow> json option \<Rightarrow> bool option" where
  "should_swap [] a b = Some False"
| "should_swap (order # orders) a b =
     do { (property, descending) \<leftarrow> parse_order order;
          cmp \<leftarrow> compare_entities a b property descending;
          if cmp > 0 then Some True else if cmp < 0 then Some False else should_swap orders a b }"

text \<open>The inner loop, for \<open>n\<close> more values of \<open>j\<close>, and the outer loop, for \<open>m\<close> more values of \<open>i\<close>.\<close>

fun bubble_pass :: "('a \<Rightarrow> 'a \<Rightarrow> bool option) \<Rightarrow> nat \<Rightarrow> nat \<Rightarrow> 'a list \<Rightarrow> 'a list option" where
  "bubble_pass swap 0 j xs = Some xs"
| "bubble_pass swap (Suc n) j xs =
     do { s \<leftarrow> swap (xs ! j) (xs ! (j + 1));
          bubble_pass swap n (j + 1) (if s then xs[j := xs ! (j + 1), j + 1 := xs ! j] else xs) }"

fun bubble_passes :: "('a \<Rightarrow> 'a \<Rightarrow> bool option) \<Rightarrow> nat \<Rightarrow> nat \<Rightarrow> 'a list \<Rightarrow> 'a list option" where
  "bubble_passes swap 0 i xs = Some xs"
| "bubble_passes swap (Suc m) i xs =
     do { ys \<leftarrow> bubble_pass swap (length xs - i - 1) 0 xs;
          bubble_passes swap m (i + 1) ys }"

definition mp_odata_apply_orderby ::
  "json option list option \<Rightarrow> cstring list option \<Rightarrow> nat \<Rightarrow> json option list option option" where
  "mp_odata_apply_orderby entities orderby orderby_count =
     (case (entities, orderby) of
        (Some es, Some orders) \<Rightarrow>
          if es = [] \<or> orderby_count = 0 then Some entities
          else if orderby_count > length orders then None
          else map_option Some (bubble_passes (should_swap (take orderby_count orders)) (length es - 1) 0 es)
      | _ \<Rightarrow> Some entities)"

section \<open>Paging\<close>

text \<open>
  \<open>size_t\<close> has 32 bits: \<open>skip\<close> and \<open>top\<close> (\<open>limit\<close> here) are truncated and their sum wraps.  The result is the return code, the array
  (\<^term>\<open>None\<close> for \<open>NULL\<close>) with its count, and the heap.  The array holds the entries copied by the loop; when the sum
  wrapped, the count says more.
\<close>

definition mp_odata_apply_paging ::
  "json option list option \<Rightarrow> int \<Rightarrow> int \<Rightarrow> json_heap \<Rightarrow> int \<times> json option list option \<times> size_t \<times> json_heap" where
  "mp_odata_apply_paging entities limit skip h =
     (case entities of
        None \<Rightarrow> (-1, None, 0, h)
      | Some es \<Rightarrow>
          if es = [] then (-1, None, 0, h)
          else
            let cnt = (of_nat (length es) :: size_t); start = (word_of_int skip :: size_t)
            in if start \<ge> cnt then (0, None, 0, h)
               else
                 let sum = start + (word_of_int limit :: size_t);
                     stop = (if limit > 0 then if sum > cnt then cnt else sum else cnt);
                     result_size = stop - start
                 in (case jh_malloc (unat (result_size * of_nat sizeof_pointer)) h of (ok, h1) \<Rightarrow>
                       if \<not> ok then (-1, None, 0, h1)
                       else (0, Some (map (\<lambda>i. es ! i) [unat start..<unat stop]), result_size, h1)))"

section \<open>Responses\<close>

definition mp_odata_response_create ::
  "json option \<Rightarrow> cstring option \<Rightarrow> u16 \<Rightarrow> json_heap \<Rightarrow> od_response option \<times> json_heap" where
  "mp_odata_response_create data content_type status_code h =
     (case jh_malloc sizeof_odata_response h of (ok, h1) \<Rightarrow>
        if \<not> ok then (None, h1)
        else
          (case od_strdup_or (ascii ''application/json'') content_type h1 of (ct, h2) \<Rightarrow>
             (Some \<lparr>rs_data = data, rs_content_type = ct, rs_status_code = status_code, rs_error = None\<rparr>, h2)))"

definition mp_odata_response_free_error :: "od_error option \<Rightarrow> nat" where
  "mp_odata_response_free_error err =
     (case err of
        None \<Rightarrow> 0
      | Some e \<Rightarrow> owned (er_code e) + owned (er_message e) + owned (er_target e) + owned (er_details e)
                  + mp_json_free (er_inner_error e) + 1)"

definition mp_odata_response_free :: "od_response option \<Rightarrow> json_heap \<Rightarrow> json_heap" where
  "mp_odata_response_free response h =
     (case response of
        None \<Rightarrow> h
      | Some r \<Rightarrow>
          jh_free (mp_json_free (rs_data r) + owned (rs_content_type r) + mp_odata_response_free_error (rs_error r) + 1) h)"

text \<open>The member that \<open>mp_json_object_get\<close> finds, updated in place.\<close>

definition update_member :: "json option \<Rightarrow> string \<Rightarrow> json option \<Rightarrow> json option option" where
  "update_member obj key val =
     (case (obj, val) of
        (Some (J_object es cap), Some v) \<Rightarrow>
          do { r \<leftarrow> find_member es (cbuf (ascii key));
               Some (Some (J_object (case r of None \<Rightarrow> es | Some i \<Rightarrow> es[i := (fst (es ! i), v)]) cap)) }
      | _ \<Rightarrow> Some obj)"

definition error_data :: "od_error \<Rightarrow> json_heap \<Rightarrow> (json option \<times> json_heap) option" where
  "error_data err h =
     (case mp_json_object h of (error_obj, h1) \<Rightarrow>
      case mp_json_object h1 of (inner, h2) \<Rightarrow>
        do { (error_obj, h3) \<leftarrow> od_put error_obj (Some (ascii ''error'')) inner h2;
             details \<leftarrow> mp_json_object_get error_obj (cbuf (ascii ''error''));
             (details, h4) \<leftarrow> od_put_string details ''code'' (er_code err) h3;
             (details, h5) \<leftarrow> od_put_string details ''message'' (er_message err) h4;
             (details, h6) \<leftarrow> (if er_target err = None then Some (details, h5)
                               else od_put_string details ''target'' (er_target err) h5);
             (details, h7) \<leftarrow> (if er_details err = None then Some (details, h6)
                               else od_put_string details ''details'' (er_details err) h6);
             error_obj \<leftarrow> update_member error_obj ''error'' details;
             Some (error_obj, h7) })"

definition mp_odata_response_create_error ::
  "cstring option \<Rightarrow> cstring option \<Rightarrow> cstring option \<Rightarrow> cstring option \<Rightarrow> u16 \<Rightarrow> json_heap \<Rightarrow>
   (od_response option \<times> json_heap) option" where
  "mp_odata_response_create_error code message target details status_code h =
     (case jh_malloc sizeof_odata_response h of (ok, h1) \<Rightarrow>
        if \<not> ok then Some (None, h1)
        else
          (case od_strdup (ascii ''application/json'') h1 of (ct, h2) \<Rightarrow>
           case jh_malloc sizeof_odata_error h2 of (eok, h3) \<Rightarrow>
             if \<not> eok then Some (None, jh_free 1 h3)
             else
               (case od_strdup_or (ascii ''500'') code h3 of (c, h4) \<Rightarrow>
                case od_strdup_or (ascii ''Internal Server Error'') message h4 of (m, h5) \<Rightarrow>
                case od_strdup_opt target h5 of (t, h6) \<Rightarrow>
                case od_strdup_opt details h6 of (d, h7) \<Rightarrow>
                  let err = \<lparr>er_code = c, er_message = m, er_target = t, er_details = d, er_inner_error = None\<rparr>
                  in do { (data, h8) \<leftarrow> error_data err h7;
                          Some (Some \<lparr>rs_data = data, rs_content_type = ct, rs_status_code = status_code,
                                      rs_error = Some err\<rparr>, h8) })))"

section \<open>Wrapped entities\<close>

text \<open>\<open>strncmp(key_str, "@odata.", 7) == 0\<close>\<close>

definition is_annotation :: "cstring \<Rightarrow> bool" where
  "is_annotation key \<longleftrightarrow> take 7 key = ascii ''@odata.''"

fun wrap_members ::
  "c_double \<Rightarrow> (json \<times> json) list \<Rightarrow> json option \<Rightarrow> json_heap \<Rightarrow> (json option \<times> json_heap) option" where
  "wrap_members D [] result h = Some (result, h)"
| "wrap_members D ((k, v) # es) result h =
     (case mp_json_get_string (Some k) of
        None \<Rightarrow> wrap_members D es result h
      | Some buf \<Rightarrow>
          do { key \<leftarrow> c_str (Some buf);
               if is_annotation key then wrap_members D es result h
               else do { (c, h1) \<leftarrow> mp_json_deep_copy D (Some v) h;
                         (result', h2) \<leftarrow> od_put result (Some key) c h1;
                         wrap_members D es result' h2 } })"

definition put_context ::
  "json option \<Rightarrow> od_context option \<Rightarrow> cstring option \<Rightarrow> json_heap \<Rightarrow> (json option \<times> json_heap) option" where
  "put_context result context entity_set_name h =
     do { (ctx, h1) \<leftarrow> mp_odata_generate_context context entity_set_name h;
          if ctx = None then Some (result, h1) else od_put result (Some (ascii ''@odata.context'')) ctx h1 }"

definition mp_odata_wrap_entity_with_context ::
  "c_double \<Rightarrow> json option \<Rightarrow> od_context option \<Rightarrow> cstring option \<Rightarrow> json_heap \<Rightarrow> (json option \<times> json_heap) option" where
  "mp_odata_wrap_entity_with_context D entity context entity_set_name h =
     (case entity of
        None \<Rightarrow> Some (None, h)
      | Some e \<Rightarrow>
          (case mp_json_object h of
             (None, h1) \<Rightarrow> Some (None, h1)
           | (Some r, h1) \<Rightarrow>
               do { (result, h2) \<leftarrow> put_context (Some r) context entity_set_name h1;
                    case e of J_object es cap \<Rightarrow> wrap_members D es result h2 | _ \<Rightarrow> Some (result, h2) }))"

fun push_wrapped ::
  "c_double \<Rightarrow> json option list \<Rightarrow> od_context option \<Rightarrow> cstring option \<Rightarrow> json option \<Rightarrow> json_heap \<Rightarrow>
   (json option \<times> json_heap) option" where
  "push_wrapped D [] context name arr h = Some (arr, h)"
| "push_wrapped D (e # es) context name arr h =
     do { (w, h1) \<leftarrow> mp_odata_wrap_entity_with_context D e context name h;
          case od_push arr w h1 of (arr', h2) \<Rightarrow> push_wrapped D es context name arr' h2 }"

definition mp_odata_wrap_collection_with_context ::
  "c_double \<Rightarrow> json option list option \<Rightarrow> od_context option \<Rightarrow> cstring option \<Rightarrow> int \<Rightarrow> json_heap \<Rightarrow>
   (json option \<times> json_heap) option" where
  "mp_odata_wrap_collection_with_context D entities context entity_set_name total_count h =
     (case entities of
        None \<Rightarrow> Some (None, h)
      | Some es \<Rightarrow>
          (case mp_json_object h of
             (None, h1) \<Rightarrow> Some (None, h1)
           | (Some r, h1) \<Rightarrow>
               do { (result, h2) \<leftarrow> put_context (Some r) context entity_set_name h1;
                    (result, h3) \<leftarrow>
                      (if total_count \<ge> 0
                       then (case create_json_integer D (word_of_int total_count) h2 of (n, k) \<Rightarrow>
                               od_put result (Some (ascii ''@odata.count'')) n k)
                       else Some (result, h2));
                    (case mp_json_array h3 of (arr, h4) \<Rightarrow>
                       do { (arr', h5) \<leftarrow> push_wrapped D es context entity_set_name arr h4;
                            od_put result (Some (ascii ''value'')) arr' h5 }) }))"

section \<open>The response to a query\<close>

text \<open>The search for the entity set: whether there is one; undefined at a set without a name.\<close>

fun find_entity_set :: "od_entity_set list \<Rightarrow> cstring \<Rightarrow> bool option" where
  "find_entity_set [] name = Some False"
| "find_entity_set (es # sets) name =
     do { n \<leftarrow> os_name es;
          if n = name then Some True else find_entity_set sets name }"

text \<open>
  The three steps on the entities.  The first component is the caller's array, which \<open>$orderby\<close> sorts in place unless a
  filter has made a new one; \<open>filtered\<close> is \<^term>\<open>None\<close> while it is the caller's array.  The count of a page whose bounds
  wrapped does not describe its array, and the code that follows reads past its end.
\<close>

definition run_filter ::
  "c_double \<Rightarrow> json option list option \<Rightarrow> od_query_options option \<Rightarrow> json_heap \<Rightarrow>
   (json option list option option \<times> json_heap) option" where
  "run_filter D entities options h =
     (case Option.bind options qo_filter of
        None \<Rightarrow> Some (None, h)
      | Some f \<Rightarrow>
          do { (ret, r, h1) \<leftarrow> mp_odata_apply_filter D entities (Some f) h;
               Some (if ret = 0 then Some (Some r) else None, h1) })"

definition run_orderby ::
  "json option list option \<Rightarrow> json option list option option \<Rightarrow> od_query_options option \<Rightarrow>
   (json option list option \<times> json option list option option) option" where
  "run_orderby entities filtered options =
     (case options of
        None \<Rightarrow> Some (entities, filtered)
      | Some opt \<Rightarrow>
          if qo_orderby_count opt = 0 then Some (entities, filtered)
          else
            (case filtered of
               None \<Rightarrow> do { es \<leftarrow> mp_odata_apply_orderby entities (qo_orderby opt) (qo_orderby_count opt); Some (es, None) }
             | Some f \<Rightarrow> do { es \<leftarrow> mp_odata_apply_orderby f (qo_orderby opt) (qo_orderby_count opt);
                              Some (entities, Some es) }))"

definition run_paging ::
  "json option list option \<Rightarrow> json option list option option \<Rightarrow> od_query_options option \<Rightarrow> json_heap \<Rightarrow>
   (json option list option option \<times> json_heap) option" where
  "run_paging entities filtered options h =
     (case options of
        None \<Rightarrow> Some (filtered, h)
      | Some opt \<Rightarrow>
          if \<not> qo_top_set opt \<and> \<not> qo_skip_set opt then Some (filtered, h)
          else
            (case mp_odata_apply_paging (case filtered of None \<Rightarrow> entities | Some f \<Rightarrow> f) (qo_top opt) (qo_skip opt) h of
               (ret, page, n, h1) \<Rightarrow>
                 if ret \<noteq> 0 then Some (filtered, h1)
                 else if page \<noteq> None \<and> map_option length page \<noteq> Some (unat n) then None
                 else Some (Some page, case filtered of Some (Some f) \<Rightarrow> jh_free 1 h1 | _ \<Rightarrow> h1)))"

text \<open>The response, the caller's array afterwards, and the heap.\<close>

definition mp_odata_generate_response ::
  "c_double \<Rightarrow> od_service option \<Rightarrow> cstring option \<Rightarrow> json option list option \<Rightarrow> od_query_options option \<Rightarrow>
   od_context option \<Rightarrow> json_heap \<Rightarrow> (od_response option \<times> json option list option \<times> json_heap) option" where
  "mp_odata_generate_response D service entity_set_name entities options context h =
     (case (service, entity_set_name) of
        (Some s, Some name) \<Rightarrow>
          do { found \<leftarrow> find_entity_set (md_entity_sets (sv_metadata s)) name;
               if \<not> found
               then do { (r, h1) \<leftarrow> mp_odata_response_create_error (Some (ascii ''404'')) (Some (ascii ''Entity set not found''))
                                       entity_set_name None 404 h;
                         Some (r, entities, h1) }
               else
                 do { (f1, h1) \<leftarrow> run_filter D entities options h;
                      (es, f2) \<leftarrow> run_orderby entities f1 options;
                      (f3, h2) \<leftarrow> run_paging es f2 options h1;
                      (data, h3) \<leftarrow> mp_odata_wrap_collection_with_context D (case f3 of None \<Rightarrow> es | Some f \<Rightarrow> f) context
                                      entity_set_name (case entities of None \<Rightarrow> 0 | Some l \<Rightarrow> int (length l)) h2;
                      let h4 = (case f3 of Some (Some f) \<Rightarrow> jh_free 1 h3 | _ \<Rightarrow> h3);
                      case data of
                        None \<Rightarrow>
                          do { (r, h5) \<leftarrow> mp_odata_response_create_error (Some (ascii ''500''))
                                            (Some (ascii ''Failed to create response'')) None None 500 h4;
                               Some (r, es, h5) }
                      | Some d \<Rightarrow>
                          (case mp_odata_response_create (Some d) (Some (ascii ''application/json'')) 200 h4 of
                             (r, h5) \<Rightarrow> Some (r, es, h5)) } }
      | _ \<Rightarrow> Some (None, entities, h))"

section \<open>Entities\<close>

definition id_size :: nat where "id_size = 256"

definition mp_odata_create_entity ::
  "cstring \<Rightarrow> cstring option \<Rightarrow> json_heap \<Rightarrow> (json option \<times> json_heap) option" where
  "mp_odata_create_entity entity_set_name key h =
     (case mp_json_object h of
        (None, h1) \<Rightarrow> Some (None, h1)
      | (Some e, h1) \<Rightarrow>
          let k = (case key of None \<Rightarrow> [] | Some t \<Rightarrow> t);
              ident = printed id_size (entity_set_name @ ascii ''('' @ k @ ascii '')'')
          in od_put_string (Some e) ''@odata.id'' (Some ident) h1)"

definition mp_odata_entity_add_property ::
  "json option \<Rightarrow> cstring option \<Rightarrow> json option \<Rightarrow> json_heap \<Rightarrow> (json option \<times> json_heap) option" where
  "mp_odata_entity_add_property entity name v h =
     (if entity = None \<or> name = None \<or> v = None then Some (entity, h) else od_put entity name v h)"

end
