(* ===== verification/Odata_Query.thy ===== *)
theory Odata_Query
  imports OdataDocs Json_Objects
begin

text \<open>
  What the parser of query options does: it accounts for every block, splits a query into its parameters, and loses
  every value; and the lists of properties of an entity type.
\<close>

section \<open>Heap accounting\<close>

lemma jh_malloc_live: "jh_malloc n h = (ok, h') \<Longrightarrow> jh_live h' = jh_live h + (if ok then 1 else 0)"
  by (auto simp: jh_malloc_def Let_def)

lemma jh_free_live [simp]: "jh_live (jh_free n h) = jh_live h - int n"
  by (simp add: jh_free_def)

lemma parse_pairs_loop_balance:
  "parse_pairs_loop n p kvs h = (r, h') \<Longrightarrow>
   jh_live h' = jh_live h + (case r of None \<Rightarrow> - (2 * int (length kvs) + 2) | Some ps \<Rightarrow> 2 * int (length ps) - 2 * int (length kvs))"
proof (induction n p kvs h rule: parse_pairs_loop.induct)
  case (1 n p kvs h)
  obtain k v rest where np: "next_pair p = (k, v, rest)" by (metis prod_cases3)
  obtain kok h1 where k: "jh_malloc (length k + 1) h = (kok, h1)" by force
  obtain vok h2 where v: "jh_malloc (length v + 1) h1 = (vok, h2)" by force
  note live = jh_malloc_live [OF k] jh_malloc_live [OF v]
  show ?case
  proof (cases "p \<noteq> [] \<and> length kvs < n \<and> kok \<and> vok")
    case True
    then have "parse_pairs_loop n rest (kvs @ [(k, v)]) h2 = (r, h')"
      using 1(2) np k v by (subst (asm) parse_pairs_loop.simps) simp
    then have "jh_live h' = jh_live h2 + (case r of None \<Rightarrow> - (2 * int (length (kvs @ [(k, v)])) + 2)
        | Some ps \<Rightarrow> 2 * int (length ps) - 2 * int (length (kvs @ [(k, v)])))"
      using True np k v by (intro 1(1)) auto
    then show ?thesis using live True by (auto split: option.splits)
  next
    case False
    then show ?thesis
      using 1(2) np k v live by (subst (asm) parse_pairs_loop.simps) (auto split: if_splits)
  qed
qed

text \<open>Whatever allocations fail, the pairs own exactly the blocks that \<open>free_query_pairs\<close> releases.\<close>

lemma parse_query_pairs_balance:
  assumes "parse_query_pairs q h = (ret, kvs, h')"
  shows "jh_live (free_query_pairs kvs h') = jh_live h"
  using assms
  by (auto simp: parse_query_pairs_def free_query_pairs_def split: option.splits if_splits prod.splits
      dest!: jh_malloc_live parse_pairs_loop_balance)

section \<open>Parameters\<close>

text \<open>Neither \<open>&\<close> nor \<open>=\<close>.\<close>

definition plain_text :: "cstring \<Rightarrow> bool" where
  "plain_text s \<longleftrightarrow> ch_equals \<notin> set s \<and> ch_ampersand \<notin> set s"

text \<open>A query with parameters \<open>name=value\<close>.\<close>

fun query_of :: "(cstring \<times> cstring) list \<Rightarrow> cstring" where
  "query_of [] = []"
| "query_of [(k, v)] = k @ [ch_equals] @ v"
| "query_of ((k, v) # kvs) = k @ [ch_equals] @ v @ [ch_ampersand] @ query_of kvs"

lemma next_pair_whole:
  assumes "plain_text k" "k \<noteq> []" "hd k \<noteq> ch_question" "ch_ampersand \<notin> set v" "p = k @ [ch_equals] @ v @ r" "r = [] \<or> hd r = ch_ampersand"
  shows "next_pair p = (k @ [ch_equals] @ v, v, r)" "next_pair (ch_ampersand # p) = (k @ [ch_equals] @ v, v, r)"
    "next_pair (ch_question # p) = (k @ [ch_equals] @ v, v, r)"
proof -
  have h: "hd p \<noteq> ch_ampersand" "hd p \<noteq> ch_question"
    using assms by (cases k; auto simp: plain_text_def)+
  have n: "takeWhile (\<lambda>c. c \<noteq> ch_equals \<and> c \<noteq> ch_ampersand) p = k"
    unfolding assms(5) using assms(1) by (subst takeWhile_append2) (auto simp: plain_text_def)
  have v: "takeWhile (\<lambda>c. c \<noteq> ch_ampersand) (v @ r) = v"
    using assms(4,6) by (subst takeWhile_append2) (auto simp: takeWhile_eq_Nil_iff)
  show "next_pair p = (k @ [ch_equals] @ v, v, r)"
    using h n v assms(5) by (simp add: next_pair_def Let_def)
  show "next_pair (ch_ampersand # p) = (k @ [ch_equals] @ v, v, r)" "next_pair (ch_question # p) = (k @ [ch_equals] @ v, v, r)"
    using n v assms(5) by (simp_all add: next_pair_def Let_def)
qed

text \<open>The key that the code reads: it ends where the value ends.\<close>

definition with_key :: "cstring \<times> cstring \<Rightarrow> cstring \<times> cstring" where
  "with_key kv = (fst kv @ [ch_equals] @ snd kv, snd kv)"

definition good_parameter :: "cstring \<times> cstring \<Rightarrow> bool" where
  "good_parameter kv \<longleftrightarrow> plain_text (fst kv) \<and> fst kv \<noteq> [] \<and> hd (fst kv) \<noteq> ch_question \<and> ch_ampersand \<notin> set (snd kv)"

lemma query_of_Cons:
  "query_of ((k, v) # kvs) = k @ [ch_equals] @ v @ (if kvs = [] then [] else ch_ampersand # query_of kvs)"
  by (cases kvs) auto

lemma param_count_query_of: "\<forall>kv \<in> set kvs. good_parameter kv \<Longrightarrow> kvs \<noteq> [] \<Longrightarrow> param_count (query_of kvs) = length kvs"
proof (induction kvs rule: query_of.induct)
  case (3 k v w kvs)
  then show ?case
    by (auto simp: param_count_def good_parameter_def plain_text_def query_of_Cons filter_empty_conv)
qed (auto simp: param_count_def good_parameter_def plain_text_def filter_empty_conv)

lemma heap_works_malloc: "heap_works h \<Longrightarrow> \<exists>h'. jh_malloc n h = (True, h') \<and> heap_works h' \<and> jh_live h' = jh_live h + 1"
  by (simp add: heap_works_def jh_malloc_def)

lemma heap_works_free [simp]: "heap_works (jh_free n h) = heap_works h"
  by (simp add: heap_works_def jh_free_def)

lemma pairs_loop_query:
  assumes "\<forall>kv \<in> set kvs. good_parameter kv" "heap_works h" "length done + length kvs \<le> n"
    and "p = query_of kvs \<or> kvs \<noteq> [] \<and> (p = ch_ampersand # query_of kvs \<or> p = ch_question # query_of kvs)"
  shows "\<exists>h'. parse_pairs_loop n p done h = (Some (done @ map with_key kvs), h') \<and> heap_works h'"
  using assms
proof (induction kvs arbitrary: p "done" h)
  case Nil
  then show ?case by (subst parse_pairs_loop.simps) auto
next
  case (Cons kv kvs)
  obtain k v where kv: "kv = (k, v)" by force
  define r where "r = (if kvs = [] then [] else ch_ampersand # query_of kvs)"
  have g: "plain_text k" "k \<noteq> []" "hd k \<noteq> ch_question" "ch_ampersand \<notin> set v"
    using Cons.prems(1) kv by (auto simp: good_parameter_def)
  have q: "query_of (kv # kvs) = k @ [ch_equals] @ v @ r" by (simp only: kv query_of_Cons r_def)
  have np: "next_pair p = (k @ [ch_equals] @ v, v, r)" and "p \<noteq> []"
    using Cons.prems(4) next_pair_whole [OF g q, of] q by (auto simp: r_def)
  obtain h1 where h1: "jh_malloc (length (k @ [ch_equals] @ v) + 1) h = (True, h1)" "heap_works h1"
    using heap_works_malloc [OF Cons.prems(2)] by blast
  obtain h2 where h2: "jh_malloc (length v + 1) h1 = (True, h2)" "heap_works h2"
    using heap_works_malloc [OF h1(2)] by blast
  have "\<exists>h'. parse_pairs_loop n r (done @ [with_key kv]) h2 = (Some ((done @ [with_key kv]) @ map with_key kvs), h') \<and> heap_works h'"
    using Cons.prems(1,3) h2(2) by (intro Cons.IH) (auto simp: r_def)
  then show ?case
    using np \<open>p \<noteq> []\<close> h1(1) h2(1) Cons.prems(3) kv
    by (subst parse_pairs_loop.simps) (simp add: with_key_def)
qed

text \<open>The parser splits a query into its parameters and gets every value right and every key wrong: for
  \<open>k1=v1&k2=v2&...\<close>, with or without a leading question mark, it returns the pairs of \<open>k1=v1\<close> and \<open>v1\<close>, of \<open>k2=v2\<close>
  and \<open>v2\<close>, and so on, when every allocation succeeds.  And whatever allocations fail, in whatever query, releasing
  the pairs releases exactly the blocks that the parser allocated.\<close>

theorem odata_query_pairs:
  "(kvs \<noteq> [] \<longrightarrow> (\<forall>kv \<in> set kvs. good_parameter kv) \<longrightarrow> heap_works h \<longrightarrow>
     (\<forall>mark \<in> {[], [ch_question]}. \<exists>h'. parse_query_pairs (Some (mark @ query_of kvs)) h =
        (0, Some (map (\<lambda>(k, v). (k @ [ch_equals] @ v, v)) kvs), h'))) \<and>
   (parse_query_pairs q h = (ret, ps, h'') \<longrightarrow> jh_live (free_query_pairs ps h'') = jh_live h)"
proof (intro conjI impI ballI)
  fix mark
  assume k: "kvs \<noteq> []" and g: "\<forall>kv \<in> set kvs. good_parameter kv" and h: "heap_works h" and mark: "mark \<in> {[], [ch_question]}"
  let ?q = "mark @ query_of kvs"
  have n: "param_count ?q = length kvs"
    using param_count_query_of [OF g k] mark by (auto simp: param_count_def)
  obtain kv kvs' where kv: "kvs = kv # kvs'" using k by (cases kvs) auto
  have ne: "?q \<noteq> []" unfolding kv by (cases kv) (simp add: query_of_Cons)
  obtain h1 where h1: "jh_malloc (length kvs * sizeof_pointer) h = (True, h1)" "heap_works h1"
    using heap_works_malloc [OF h] by blast
  obtain h2 where h2: "jh_malloc (length kvs * sizeof_pointer) h1 = (True, h2)" "heap_works h2"
    using heap_works_malloc [OF h1(2)] by blast
  obtain h3 where h3: "parse_pairs_loop (length kvs) ?q [] h2 = (Some (map with_key kvs), h3)"
    using pairs_loop_query [OF g h2(2), of "[]" "length kvs" ?q] mark k by auto
  have w: "with_key = (\<lambda>(k, v). (k @ [ch_equals] @ v, v))" by (auto simp: with_key_def)
  show "\<exists>h'. parse_query_pairs (Some ?q) h = (0, Some (map (\<lambda>(k, v). (k @ [ch_equals] @ v, v)) kvs), h')"
    unfolding parse_query_pairs_def using ne n h1(1) h2(1) h3 w by simp
next
  assume "parse_query_pairs q h = (ret, ps, h'')"
  then show "jh_live (free_query_pairs ps h'') = jh_live h" by (rule parse_query_pairs_balance)
qed

lemma odata_query_pairs_witness:
  "\<exists>h'. parse_query_pairs (Some (ascii ''?$top=5&$skip=2'')) \<lparr>jh_avail = (\<lambda>k n. True), jh_calls = 0, jh_live = 0\<rparr> =
     (0, Some [(ascii ''$top=5'', ascii ''5''), (ascii ''$skip=2'', ascii ''2'')], h')"
  using odata_query_pairs [of "[(ascii ''$top'', ascii ''5''), (ascii ''$skip'', ascii ''2'')]"
      "\<lparr>jh_avail = (\<lambda>k n. True), jh_calls = 0, jh_live = 0\<rparr>" None 0 None "\<lparr>jh_avail = (\<lambda>k n. True), jh_calls = 0, jh_live = 0\<rparr>"]
  by (auto simp: good_parameter_def plain_text_def ascii_def heap_works_def)

section \<open>Options\<close>

text \<open>A key without an equals sign has the empty value.\<close>

lemma next_pair_bare: "next_pair p = (k, v, rest) \<Longrightarrow> ch_equals \<in> set k \<or> v = []"
  by (auto simp: next_pair_def Let_def split: if_splits)

lemma parse_pairs_loop_bare:
  "parse_pairs_loop n p kvs h = (Some ps, h') \<Longrightarrow> \<forall>(k, v) \<in> set kvs. ch_equals \<in> set k \<or> v = [] \<Longrightarrow>
   \<forall>(k, v) \<in> set ps. ch_equals \<in> set k \<or> v = []"
proof (induction n p kvs h rule: parse_pairs_loop.induct)
  case (1 n p kvs h)
  obtain k v rest where np: "next_pair p = (k, v, rest)" by (metis prod_cases3)
  obtain kok h1 where k: "jh_malloc (length k + 1) h = (kok, h1)" by force
  obtain vok h2 where v: "jh_malloc (length v + 1) h1 = (vok, h2)" by force
  show ?case
  proof (cases "p \<noteq> [] \<and> length kvs < n")
    case True
    then have "kok \<and> vok" "parse_pairs_loop n rest (kvs @ [(k, v)]) h2 = (Some ps, h')"
      using 1(2) np k v by (subst (asm) parse_pairs_loop.simps; simp split: if_splits)+
    then show ?thesis using True np k v next_pair_bare [OF np] 1(3) by (intro 1(1)) auto
  next
    case False
    then show ?thesis using 1(2,3) by (subst (asm) parse_pairs_loop.simps) auto
  qed
qed

text \<open>No option has a value.\<close>

definition valueless :: "od_query_options \<Rightarrow> bool" where
  "valueless opt \<longleftrightarrow> qo_filter opt \<in> {None, Some []} \<and> qo_select opt = None \<and> qo_select_count opt = 0 \<and>
     qo_orderby opt = None \<and> qo_orderby_count opt = 0 \<and> qo_top opt = 0 \<and> qo_skip opt = 0 \<and> \<not> qo_count opt \<and>
     qo_expand opt = None \<and> qo_expand_count opt = 0 \<and> qo_format opt \<in> {None, Some []} \<and>
     qo_inlinecount opt \<in> {None, Some []}"

lemma od_strdup_result: "od_strdup s h = (r, h') \<Longrightarrow> r \<in> {None, Some s}"
  by (auto simp: od_strdup_def split: prod.splits if_splits)

lemma c_atoll_Nil [simp]: "c_atoll [] = 0"
  by (simp add: c_atoll_def c_strtoll_def clamp_int64_def)

lemma append_copied_Nil: "append_copied [] arr n h = Some (ok, arr', n', h') \<Longrightarrow> arr' = arr \<and> n' = n"
  using od_strdup_result [of "[]" h]
  by (auto simp: append_copied_def split: prod.splits option.splits)

lemma ascii_Nil [simp]: "ascii s = [] \<longleftrightarrow> s = []" "[] = ascii s \<longleftrightarrow> s = []"
  by (auto simp: ascii_def)

lemma option_keys_plain:
  "ch_equals \<notin> set (ascii ''$filter'')" "ch_equals \<notin> set (ascii ''$select'')" "ch_equals \<notin> set (ascii ''$orderby'')"
  "ch_equals \<notin> set (ascii ''$top'')" "ch_equals \<notin> set (ascii ''$skip'')" "ch_equals \<notin> set (ascii ''$count'')"
  "ch_equals \<notin> set (ascii ''$expand'')" "ch_equals \<notin> set (ascii ''$format'')" "ch_equals \<notin> set (ascii ''$inlinecount'')"
  by (simp_all add: ascii_def)

lemma valueless_updates:
  assumes "valueless opt"
  shows "s \<in> {None, Some []} \<Longrightarrow> valueless (opt\<lparr>qo_filter := s\<rparr>)" "valueless (opt\<lparr>qo_select := None, qo_select_count := 0\<rparr>)"
    "valueless (opt\<lparr>qo_orderby := None, qo_orderby_count := 0\<rparr>)" "valueless (opt\<lparr>qo_top := 0, qo_top_set := True\<rparr>)"
    "valueless (opt\<lparr>qo_skip := 0, qo_skip_set := True\<rparr>)" "valueless (opt\<lparr>qo_count := False, qo_count_set := True\<rparr>)"
    "valueless (opt\<lparr>qo_expand := None, qo_expand_count := 0\<rparr>)" "s \<in> {None, Some []} \<Longrightarrow> valueless (opt\<lparr>qo_format := s\<rparr>)"
    "s \<in> {None, Some []} \<Longrightarrow> valueless (opt\<lparr>qo_inlinecount := s\<rparr>)"
  using assms by (simp_all add: valueless_def)

lemma if_elim: "(if b then x else y) = z \<Longrightarrow> (b \<Longrightarrow> x = z \<Longrightarrow> P) \<Longrightarrow> (\<not> b \<Longrightarrow> y = z \<Longrightarrow> P) \<Longrightarrow> P"
  by (cases b) simp_all

lemma process_pair_valueless:
  assumes "valueless opt" "ch_equals \<in> set k \<or> v = []" "process_pair (k, v) opt h = Some (ok, opt', h')"
  shows "valueless opt'"
proof (cases "ch_equals \<in> set k")
  case True
  then have "k \<notin> {ascii ''$filter'', ascii ''$select'', ascii ''$orderby'', ascii ''$top'', ascii ''$skip'', ascii ''$count'',
      ascii ''$expand'', ascii ''$format'', ascii ''$inlinecount''}"
    using option_keys_plain by blast
  then show ?thesis using assms(1,3) by (simp add: process_pair_def)
next
  case False
  then have v: "v = []" using assms(2) by simp
  obtain s h1 where s: "od_strdup [] h = (s, h1)" "s \<in> {None, Some []}" by (metis od_strdup_result surj_pair)
  note u = valueless_updates [OF assms(1)]
  have c: "append_copied [] (qo_orderby opt) (qo_orderby_count opt) h = Some (a, b, c, d) \<Longrightarrow> b = None \<and> c = 0"
    "append_copied [] (qo_expand opt) (qo_expand_count opt) h = Some (a, b, c, d) \<Longrightarrow> b = None \<and> c = 0" for a b c d
    using append_copied_Nil assms(1) by (fastforce simp: valueless_def)+
  have sel: "qo_select opt = None" "qo_select_count opt = 0" using assms(1) by (simp_all add: valueless_def)
  show ?thesis
    using assms(3) unfolding v process_pair_def prod.case
    by (elim if_elim; use assms(1) u s c sel in \<open>auto split: bind_splits\<close>)
qed

lemma process_pairs_valueless:
  "process_pairs kvs opt h = Some (ok, opt', h') \<Longrightarrow> valueless opt \<Longrightarrow>
   \<forall>(k, v) \<in> set kvs. ch_equals \<in> set k \<or> v = [] \<Longrightarrow> valueless opt'"
proof (induction kvs opt h rule: process_pairs.induct)
  case (2 kv kvs opt h)
  obtain k v where kv: "kv = (k, v)" by force
  obtain ok1 opt1 h1 where p: "process_pair (k, v) opt h = Some (ok1, opt1, h1)"
    using 2(2) kv by (auto split: bind_splits)
  have "valueless opt1" using process_pair_valueless [OF 2(3) _ p] 2(4) kv by auto
  then show ?case using 2 kv p by (auto split: if_splits)
qed simp

text \<open>No query option ever takes effect: whatever the query string and whatever allocations fail, the options that
  \<open>mp_odata_parse_query_options\<close> leaves have no filter, no selection, no order, no expansion, format or inline count (at
  most the empty string, for a bare key), \<open>top\<close> and \<open>skip\<close> zero and \<open>count\<close> false.\<close>

theorem odata_options_valueless:
  assumes "mp_odata_parse_query_options q (Some opt) h = Some (ret, Some opt', h')"
  shows "qo_filter opt' \<in> {None, Some []} \<and> qo_select opt' = None \<and> qo_orderby opt' = None \<and> qo_top opt' = 0 \<and>
    qo_skip opt' = 0 \<and> \<not> qo_count opt' \<and> qo_expand opt' = None \<and> qo_format opt' \<in> {None, Some []} \<and>
    qo_inlinecount opt' \<in> {None, Some []}"
proof -
  have blank: "valueless blank_options" by (simp add: valueless_def blank_options_def)
  have bare: "\<forall>(k, v) \<in> set ps. ch_equals \<in> set k \<or> v = []" if "parse_query_pairs q h = (0, Some ps, h1)" for ps h1
    using that parse_pairs_loop_bare
    by (fastforce simp: parse_query_pairs_def split: option.splits if_splits prod.splits)
  have "valueless opt'"
    using assms blank process_pairs_valueless [OF _ blank] bare
    by (fastforce simp: mp_odata_parse_query_options_def split: if_splits prod.splits bind_splits option.splits)
  then show ?thesis by (simp add: valueless_def)
qed

lemma odata_options_valueless_witness:
  "\<exists>ret opt' h'. mp_odata_parse_query_options (Some (ascii ''$top=5'')) (Some blank_options)
      \<lparr>jh_avail = (\<lambda>k n. True), jh_calls = 0, jh_live = 0\<rparr> = Some (ret, Some opt', h') \<and> ret = 0 \<and> qo_top opt' = 0"
proof -
  have "\<exists>ret opt' h'. mp_odata_parse_query_options (Some (ascii ''$top=5'')) (Some blank_options)
      \<lparr>jh_avail = (\<lambda>k n. True), jh_calls = 0, jh_live = 0\<rparr> = Some (ret, Some opt', h') \<and> ret = 0"
    by (simp add: ascii_def mp_odata_parse_query_options_def parse_query_pairs_def jh_malloc_def param_count_def
        parse_pairs_loop.simps [of _ "_ # _"] parse_pairs_loop.simps [of _ "[]"] next_pair_def process_pair_def Let_def)
  then show ?thesis using odata_options_valueless by blast
qed

end
