(* ===== verification/Odata_Metadata.thy ===== *)
theory Odata_Metadata
  imports Odata_Query
begin

text \<open>
  The documents that the service generates, against their specification as values: with a heap whose allocations
  succeed, the code builds exactly the specified value.
\<close>

section \<open>Values built on the heap\<close>

text \<open>The capacity of a container that has grown one entry at a time.\<close>

fun room :: "nat \<Rightarrow> nat" where
  "room 0 = 0"
| "room (Suc n) = (if n \<ge> room n then grown_capacity (room n) else room n)"

definition jstr :: "cstring \<Rightarrow> json" where
  "jstr s = J_string (Some (s @ [0])) (length s) True"

definition jtext :: "cstring option \<Rightarrow> json" where
  "jtext s = (case s of None \<Rightarrow> J_null | Some t \<Rightarrow> jstr t)"

definition jobj :: "(cstring \<times> json) list \<Rightarrow> json" where
  "jobj ms = J_object (map (\<lambda>(k, v). (jstr k, v)) ms) (room (length ms))"

definition jarr :: "json list \<Rightarrow> json" where
  "jarr xs = J_array xs (room (length xs))"

text \<open>\<open>f\<close> returns \<open>v\<close> on every heap that works, and leaves one that works.\<close>

definition builds :: "(json_heap \<Rightarrow> (json option \<times> json_heap) option) \<Rightarrow> json \<Rightarrow> bool" where
  "builds f v \<longleftrightarrow> (\<forall>h. heap_works h \<longrightarrow> (\<exists>h'. f h = Some (Some v, h') \<and> heap_works h'))"

lemma buildsD: "builds f v \<Longrightarrow> heap_works h \<Longrightarrow> \<exists>h'. f h = Some (Some v, h') \<and> heap_works h'"
  by (simp add: builds_def)

lemma builds_then:
  assumes "builds f v" and "builds (g (Some v)) w"
  shows "builds (\<lambda>h. do { (d, h1) \<leftarrow> f h; g d h1 }) w"
  unfolding builds_def
proof (intro allI impI)
  fix h
  assume "heap_works h"
  then obtain h1 where "f h = Some (Some v, h1)" "heap_works h1" using buildsD [OF assms(1)] by blast
  then show "\<exists>h'. do { (d, h1) \<leftarrow> f h; g d h1 } = Some (Some w, h') \<and> heap_works h'"
    using buildsD [OF assms(2)] by simp
qed

text \<open>What follows the allocation of an empty object or array.\<close>

lemma builds_object:
  assumes "builds (g (Some (jobj []))) w"
  shows "builds (\<lambda>h. case mp_json_object h of (d, h1) \<Rightarrow> g d h1) w"
  unfolding builds_def
proof (intro allI impI)
  fix h
  assume "heap_works h"
  then obtain h1 where "mp_json_object h = (Some (jobj []), h1)" "heap_works h1"
    using new_value_works [of h "J_object [] 0"] by (auto simp: mp_json_object_def jobj_def)
  then show "\<exists>h'. (case mp_json_object h of (d, h1) \<Rightarrow> g d h1) = Some (Some w, h') \<and> heap_works h'"
    using buildsD [OF assms] by simp
qed

lemma builds_array:
  assumes "builds (g (Some (jarr []))) w"
  shows "builds (\<lambda>h. case mp_json_array h of (d, h1) \<Rightarrow> g d h1) w"
  unfolding builds_def
proof (intro allI impI)
  fix h
  assume "heap_works h"
  then obtain h1 where "mp_json_array h = (Some (jarr []), h1)" "heap_works h1"
    using new_value_works [of h "J_array [] 0"] by (auto simp: mp_json_array_def jarr_def)
  then show "\<exists>h'. (case mp_json_array h of (d, h1) \<Rightarrow> g d h1) = Some (Some w, h') \<and> heap_works h'"
    using buildsD [OF assms] by simp
qed

lemma c_strlen_cstring: "0 \<notin> set s \<Longrightarrow> c_strlen (s @ [0]) = Some (length s)"
  using c_strlen_first [of "length s" "s @ [0]"] by simp

lemma builds_string: "0 \<notin> set s \<Longrightarrow> builds (mp_json_string (cbuf s)) (jstr s)"
  unfolding builds_def
proof (intro allI impI)
  fix h
  assume "0 \<notin> set s" "heap_works h"
  then show "\<exists>h'. mp_json_string (cbuf s) h = Some (Some (jstr s), h') \<and> heap_works h'"
    using string_works [of h "length s" "s @ [0]"] c_strlen_cstring by (auto simp: mp_json_string_def cbuf_def jstr_def)
qed

lemma builds_put:
  assumes "0 \<notin> set k"
  shows "builds (od_put (Some (jobj ms)) (Some k) (Some v)) (jobj (ms @ [(k, v)]))"
  unfolding builds_def
proof (intro allI impI)
  fix h
  assume h: "heap_works h"
  obtain h1 where h1: "mp_json_string (cbuf k) h = Some (Some (jstr k), h1)" "heap_works h1"
    using buildsD [OF builds_string [OF assms] h] by blast
  have string: "\<exists>h'. mp_json_string (cbuf k) g = Some (Some (jstr k), h') \<and> heap_works h'" if "heap_works g" for g
    using buildsD [OF builds_string [OF assms] that] .
  have "\<exists>h'. mp_json_object_add_owning (Some (jobj ms)) (cbuf k) (Some v) h1 = Some (0, Some (jobj (ms @ [(k, v)])), h') \<and> heap_works h'"
  proof (cases "length ms \<ge> room (length ms)")
    case True
    obtain h2 where h2: "jh_realloc (room (length ms) = 0) (grown_capacity (room (length ms)) * sizeof_pointer) h1 = (True, h2)" "heap_works h2"
      using h1(2) by (simp add: jh_realloc_def heap_works_def)
    obtain h3 where h3: "jh_realloc (room (length ms) = 0) (grown_capacity (room (length ms)) * sizeof_pointer) h2 = (True, h3)" "heap_works h3"
      using h2(2) by (simp add: jh_realloc_def heap_works_def)
    then show ?thesis
      using True h2(1) string [OF h3(2)] by (auto simp: mp_json_object_add_owning_def jobj_def add_member_def)
  next
    case False
    then show ?thesis using string [OF h1(2)] by (auto simp: mp_json_object_add_owning_def jobj_def add_member_def)
  qed
  then obtain h4 where "mp_json_object_add_owning (Some (jobj ms)) (cbuf k) (Some v) h1 = Some (0, Some (jobj (ms @ [(k, v)])), h4)" "heap_works h4"
    by blast
  then show "\<exists>h'. od_put (Some (jobj ms)) (Some k) (Some v) h = Some (Some (jobj (ms @ [(k, v)])), h') \<and> heap_works h'"
    using h1(1) by (simp add: od_put_def mp_json_object_add_def jobj_def cbuf_def)
qed

definition clean :: "cstring option \<Rightarrow> bool" where
  "clean s \<longleftrightarrow> (case s of None \<Rightarrow> True | Some t \<Rightarrow> 0 \<notin> set t)"

lemma builds_text: "clean s \<Longrightarrow> builds (create_json_string s) (jtext s)"
  using builds_string new_value_works [of _ J_null]
  by (fastforce simp: create_json_string_def clean_def jtext_def builds_def mp_json_null_def split: option.splits)

lemma builds_put_string:
  assumes "clean s" "0 \<notin> set (ascii key)"
  shows "builds (od_put_string (Some (jobj ms)) key s) (jobj (ms @ [(ascii key, jtext s)]))"
  unfolding od_put_string_def
  by (rule builds_then [OF builds_text [OF assms(1)]], rule builds_put [OF assms(2)])

lemma builds_put_boolean:
  assumes "0 \<notin> set k"
  shows "builds (\<lambda>h. case create_json_boolean b h of (v, h1) \<Rightarrow> od_put (Some (jobj ms)) (Some k) v h1) (jobj (ms @ [(k, J_boolean b)]))"
  unfolding builds_def
proof (intro allI impI)
  fix h
  assume "heap_works h"
  then obtain h1 where "create_json_boolean b h = (Some (J_boolean b), h1)" "heap_works h1"
    using new_value_works [of h "J_boolean b"] by (auto simp: create_json_boolean_def mp_json_boolean_def)
  then show "\<exists>h'. (case create_json_boolean b h of (v, h1) \<Rightarrow> od_put (Some (jobj ms)) (Some k) v h1) =
      Some (Some (jobj (ms @ [(k, J_boolean b)])), h') \<and> heap_works h'"
    using buildsD [OF builds_put [OF assms]] by simp
qed

lemma push_works: "heap_works h \<Longrightarrow> \<exists>h'. od_push (Some (jarr xs)) (Some v) h = (Some (jarr (xs @ [v])), h') \<and> heap_works h'"
  by (auto simp: od_push_def mp_json_array_add_def jarr_def jh_realloc_def heap_works_def)

lemma builds_push_docs:
  assumes "\<forall>x \<in> set xs. builds (doc x) (spec x)"
  shows "builds (push_docs doc xs (Some (jarr acc))) (jarr (acc @ map spec xs))"
  using assms
proof (induction xs arbitrary: acc)
  case Nil
  then show ?case by (simp add: builds_def)
next
  case (Cons x xs)
  have x: "builds (doc x) (spec x)" and xs: "builds (push_docs doc xs (Some (jarr (acc @ [spec x])))) (jarr (acc @ map spec (x # xs)))"
    using Cons.prems Cons.IH [of "acc @ [spec x]"] by simp_all
  show ?case
    unfolding builds_def
  proof (intro allI impI)
    fix h
    assume "heap_works h"
    then obtain h1 where h1: "doc x h = Some (Some (spec x), h1)" "heap_works h1" using buildsD [OF x] by blast
    obtain h2 where "od_push (Some (jarr acc)) (Some (spec x)) h1 = (Some (jarr (acc @ [spec x])), h2)" "heap_works h2"
      using push_works [OF h1(2)] by blast
    then show "\<exists>h'. push_docs doc (x # xs) (Some (jarr acc)) h = Some (Some (jarr (acc @ map spec (x # xs))), h') \<and> heap_works h'"
      using h1(1) buildsD [OF xs] by simp
  qed
qed

lemma builds_put_docs:
  assumes "\<forall>x \<in> set xs. builds (doc x) (spec x)" "0 \<notin> set (ascii key)"
  shows "builds (put_docs (Some (jobj ms)) key doc xs) (jobj (ms @ [(ascii key, jarr (map spec xs))]))"
  unfolding put_docs_def
  by (rule builds_array, rule builds_then, rule builds_push_docs [OF assms(1), of "[]", unfolded append_Nil],
      rule builds_put [OF assms(2)])

section \<open>The specified documents\<close>

definition property_spec :: "od_property \<Rightarrow> json" where
  "property_spec p =
     jobj [(ascii ''Name'', jtext (op_name p)), (ascii ''Type'', jstr (mp_odata_get_type_name (op_type p))),
           (ascii ''Nullable'', J_boolean (op_nullable p))]"

text \<open>The key object maps the name of every key property that has one to itself.\<close>

definition key_spec :: "od_property list \<Rightarrow> (cstring \<times> json) list" where
  "key_spec ps = List.map_filter (\<lambda>p. map_option (\<lambda>n. (n, jstr n)) (op_name p)) ps"

definition entity_type_spec :: "od_entity_type \<Rightarrow> json" where
  "entity_type_spec et =
     jobj ([(ascii ''Name'', jtext (oe_name et)), (ascii ''Namespace'', jtext (oe_namespace et))]
       @ (if oe_key_properties et \<noteq> [] then [(ascii ''Key'', jobj (key_spec (oe_key_properties et)))] else [])
       @ [(ascii ''Properties'', jarr (map property_spec (oe_properties et)))])"

definition complex_type_spec :: "od_complex_type \<Rightarrow> json" where
  "complex_type_spec ct =
     jobj [(ascii ''Name'', jtext (oc_name ct)), (ascii ''Namespace'', jtext (oc_namespace ct)),
           (ascii ''Properties'', jarr (map property_spec (oc_properties ct)))]"

definition entity_set_spec :: "od_entity_set \<Rightarrow> json" where
  "entity_set_spec es =
     jobj [(ascii ''Name'', jtext (os_name es)),
           (ascii ''EntityType'', jtext (Option.bind (os_entity_type es) oe_name))]"

definition metadata_spec :: "od_service \<Rightarrow> json" where
  "metadata_spec s =
     jobj [(ascii ''$Version'', jtext (sv_version s)),
           (ascii ''$Metadata'',
            jobj [(ascii ''EntityTypes'', jarr (map entity_type_spec (md_entity_types (sv_metadata s)))),
                  (ascii ''ComplexTypes'', jarr (map complex_type_spec (md_complex_types (sv_metadata s)))),
                  (ascii ''EntitySets'', jarr (map entity_set_spec (md_entity_sets (sv_metadata s))))])]"

definition service_spec :: "od_service \<Rightarrow> json" where
  "service_spec s =
     jobj [(ascii ''@odata.context'', jstr (ascii ''$metadata#$service'')),
           (ascii ''value'', jarr (map (\<lambda>es. jobj [(ascii ''name'', jtext (os_name es)), (ascii ''kind'', jstr (ascii ''EntitySet'')),
              (ascii ''url'', jtext (os_name es))]) (md_entity_sets (sv_metadata s))))]"

section \<open>The code builds them\<close>

text \<open>Names without zero bytes, and an entity type for every set.\<close>

definition properties_ok :: "od_property list \<Rightarrow> bool" where
  "properties_ok ps \<longleftrightarrow> (\<forall>p \<in> set ps. clean (op_name p))"

definition service_ok :: "od_service \<Rightarrow> bool" where
  "service_ok s \<longleftrightarrow>
     clean (sv_version s) \<and>
     (\<forall>et \<in> set (md_entity_types (sv_metadata s)). clean (oe_name et) \<and> clean (oe_namespace et) \<and>
        properties_ok (oe_properties et) \<and> properties_ok (oe_key_properties et)) \<and>
     (\<forall>ct \<in> set (md_complex_types (sv_metadata s)). clean (oc_name ct) \<and> clean (oc_namespace ct) \<and> properties_ok (oc_properties ct)) \<and>
     (\<forall>es \<in> set (md_entity_sets (sv_metadata s)). clean (os_name es) \<and> (\<exists>et. os_entity_type es = Some et \<and> clean (oe_name et)))"

lemma type_name_clean: "0 \<notin> set (mp_odata_get_type_name t)"
  by (cases t) (simp_all add: ascii_def)

lemma jtext_Some: "jtext (Some t) = jstr t"
  by (simp add: jtext_def)

lemma builds_property:
  assumes "clean (op_name p)"
  shows "builds (property_doc p) (property_spec p)"
proof -
  have c: "clean (Some (mp_odata_get_type_name (op_type p)))" by (simp add: clean_def type_name_clean)
  have k: "0 \<notin> set (ascii ''Name'')" "0 \<notin> set (ascii ''Type'')" "0 \<notin> set (ascii ''Nullable'')"
    by (simp_all add: ascii_def)
  show ?thesis
    unfolding property_doc_def property_spec_def jtext_Some [symmetric]
    by (rule builds_object, rule builds_then [OF builds_put_string [OF assms k(1)]],
        rule builds_then [OF builds_put_string [OF c k(2)]])
      (use builds_put_boolean [OF k(3), of "[(ascii ''Name'', jtext (op_name p)),
         (ascii ''Type'', jtext (Some (mp_odata_get_type_name (op_type p))))]" "op_nullable p"] in simp)
qed

lemma builds_key_members:
  "properties_ok ps \<Longrightarrow> builds (key_members ps (Some (jobj ms))) (jobj (ms @ key_spec ps))"
proof (induction ps arbitrary: ms)
  case Nil
  then show ?case by (simp add: builds_def key_spec_def List.map_filter_simps)
next
  case (Cons p ps)
  have p: "clean (op_name p)" "properties_ok ps" using Cons.prems by (simp_all add: properties_ok_def)
  show ?case
  proof (cases "op_name p")
    case None
    have none: "od_put (Some (jobj ms)) None v h = Some (Some (jobj ms), h)" for v h
      by (simp add: od_put_def mp_json_object_add_def jobj_def)
    show ?thesis
      using builds_then [OF builds_text [OF p(1)], of "\<lambda>v h. key_members ps (Some (jobj ms)) h"] Cons.IH [OF p(2), of ms] None none
      by (simp add: key_spec_def List.map_filter_simps)
  next
    case (Some n)
    have n: "0 \<notin> set n" using p(1) Some by (simp add: clean_def)
    have "builds (\<lambda>h. do { (v, h1) \<leftarrow> create_json_string (op_name p) h; (key', h2) \<leftarrow> od_put (Some (jobj ms)) (Some n) v h1; key_members ps key' h2 })
        (jobj (ms @ key_spec (p # ps)))"
      using Cons.IH [OF p(2), of "ms @ [(n, jstr n)]"] Some
      by (intro builds_then [OF builds_text [OF p(1)]] builds_then [OF builds_put [OF n]])
        (simp add: key_spec_def List.map_filter_simps jtext_def)
    then show ?thesis using Some by simp
  qed
qed

lemma builds_properties:
  assumes "properties_ok ps"
  shows "builds (put_docs (Some (jobj ms)) ''Properties'' property_doc ps) (jobj (ms @ [(ascii ''Properties'', jarr (map property_spec ps))]))"
  using assms by (intro builds_put_docs) (auto simp: properties_ok_def builds_property ascii_def)

lemma builds_put_keys:
  assumes "properties_ok ps"
  shows "builds (put_keys ps (Some (jobj ms))) (jobj (ms @ (if ps \<noteq> [] then [(ascii ''Key'', jobj (key_spec ps))] else [])))"
proof (cases "ps = []")
  case True
  then show ?thesis by (simp add: builds_def put_keys_def)
next
  case False
  have "builds (\<lambda>h. case mp_json_object h of (key, h1) \<Rightarrow>
      do { (key, h2) \<leftarrow> key_members ps key h1; od_put (Some (jobj ms)) (Some (ascii ''Key'')) key h2 })
      (jobj (ms @ [(ascii ''Key'', jobj (key_spec ps))]))"
    by (rule builds_object, rule builds_then [OF builds_key_members [OF assms, of "[]", unfolded append_Nil]], rule builds_put)
      (simp add: ascii_def)
  then show ?thesis using False by (simp add: put_keys_def [abs_def])
qed

lemma builds_entity_type:
  assumes "clean (oe_name et)" "clean (oe_namespace et)" "properties_ok (oe_properties et)" "properties_ok (oe_key_properties et)"
  shows "builds (entity_type_doc et) (entity_type_spec et)"
proof -
  have k: "0 \<notin> set (ascii ''Name'')" "0 \<notin> set (ascii ''Namespace'')" by (simp_all add: ascii_def)
  show ?thesis
    unfolding entity_type_doc_def
    by (rule builds_object, rule builds_then [OF builds_put_string [OF assms(1) k(1)]],
        rule builds_then [OF builds_put_string [OF assms(2) k(2)]], rule builds_then [OF builds_put_keys [OF assms(4)]])
      (use builds_properties [OF assms(3), of "[(ascii ''Name'', jtext (oe_name et)), (ascii ''Namespace'', jtext (oe_namespace et))]
           @ (if oe_key_properties et \<noteq> [] then [(ascii ''Key'', jobj (key_spec (oe_key_properties et)))] else [])"]
         in \<open>simp add: entity_type_spec_def\<close>)
qed

lemma builds_complex_type:
  assumes "clean (oc_name ct)" "clean (oc_namespace ct)" "properties_ok (oc_properties ct)"
  shows "builds (complex_type_doc ct) (complex_type_spec ct)"
proof -
  have k: "0 \<notin> set (ascii ''Name'')" "0 \<notin> set (ascii ''Namespace'')" by (simp_all add: ascii_def)
  show ?thesis
    unfolding complex_type_doc_def complex_type_spec_def
    by (rule builds_object, rule builds_then [OF builds_put_string [OF assms(1) k(1)]],
        rule builds_then [OF builds_put_string [OF assms(2) k(2)]])
      (use builds_properties [OF assms(3), of "[(ascii ''Name'', jtext (oc_name ct)), (ascii ''Namespace'', jtext (oc_namespace ct))]"] in simp)
qed

lemma builds_entity_set:
  assumes "clean (os_name es)" "os_entity_type es = Some et" "clean (oe_name et)"
  shows "builds (entity_set_doc es) (entity_set_spec es)"
proof -
  have k: "0 \<notin> set (ascii ''Name'')" "0 \<notin> set (ascii ''EntityType'')" by (simp_all add: ascii_def)
  show ?thesis
    unfolding entity_set_doc_def entity_set_spec_def assms(2) bind_simps option.case Option.bind.simps
    by (rule builds_object, rule builds_then [OF builds_put_string [OF assms(1) k(1)]])
      (use builds_put_string [OF assms(3) k(2), of "[(ascii ''Name'', jtext (os_name es))]"] in simp)
qed

lemma builds_service_entry:
  assumes "clean (os_name es)"
  shows "builds (service_entry es) (jobj [(ascii ''name'', jtext (os_name es)), (ascii ''kind'', jstr (ascii ''EntitySet'')),
    (ascii ''url'', jtext (os_name es))])"
proof -
  have k: "0 \<notin> set (ascii ''name'')" "0 \<notin> set (ascii ''kind'')" "0 \<notin> set (ascii ''url'')" "clean (Some (ascii ''EntitySet''))"
    by (simp_all add: ascii_def clean_def)
  show ?thesis
    unfolding service_entry_def
    by (rule builds_object, rule builds_then [OF builds_put_string [OF assms k(1)]], rule builds_then [OF builds_put_string [OF k(4) k(2)]])
      (use builds_put_string [OF assms k(3), of "[(ascii ''name'', jtext (os_name es)), (ascii ''kind'', jtext (Some (ascii ''EntitySet'')))]"]
        in \<open>simp add: jtext_Some\<close>)
qed

text \<open>The two documents start with an object whose allocation the code checks.\<close>

lemma builds_checked_object:
  assumes "builds (g (jobj [])) w"
  shows "builds (\<lambda>h. case mp_json_object h of (None, h1) \<Rightarrow> Some (None, h1) | (Some m, h1) \<Rightarrow> g m h1) w"
  using builds_object [of "\<lambda>d h1. case d of None \<Rightarrow> Some (None, h1) | Some m \<Rightarrow> g m h1" w] assms by simp

text \<open>The generated documents.  With a heap whose allocations succeed and names without zero bytes,
  \<open>mp_odata_generate_metadata\<close> returns exactly the specified document: the version, and for every entity type, complex
  type and entity set, in the order of the lists, its names, the key object, and name, type and nullability of every
  property; and \<open>mp_odata_generate_service_document\<close> the specified list of entity sets.\<close>

theorem odata_documents:
  assumes "service_ok s" and "heap_works h"
  shows "(\<exists>h'. mp_odata_generate_metadata (Some s) h = Some (Some (metadata_spec s), h')) \<and>
    (\<exists>h'. mp_odata_generate_service_document (Some s) h = Some (Some (service_spec s), h'))"
proof -
  have k: "0 \<notin> set (ascii ''$Version'')" "0 \<notin> set (ascii ''EntityTypes'')" "0 \<notin> set (ascii ''ComplexTypes'')"
      "0 \<notin> set (ascii ''EntitySets'')" "0 \<notin> set (ascii ''$Metadata'')" "0 \<notin> set (ascii ''@odata.context'')"
      "0 \<notin> set (ascii ''value'')" "clean (Some (ascii ''$metadata#$service''))"
    by (simp_all add: ascii_def clean_def)
  have v: "clean (sv_version s)" using assms(1) by (simp add: service_ok_def)
  have et: "\<forall>et \<in> set (md_entity_types (sv_metadata s)). builds (entity_type_doc et) (entity_type_spec et)"
    using assms(1) builds_entity_type by (auto simp: service_ok_def)
  have ct: "\<forall>ct \<in> set (md_complex_types (sv_metadata s)). builds (complex_type_doc ct) (complex_type_spec ct)"
    using assms(1) builds_complex_type by (auto simp: service_ok_def)
  have es: "\<forall>es \<in> set (md_entity_sets (sv_metadata s)). builds (entity_set_doc es) (entity_set_spec es)"
    using assms(1) builds_entity_set by (fastforce simp: service_ok_def)
  have se: "\<forall>es \<in> set (md_entity_sets (sv_metadata s)). builds (service_entry es) (jobj [(ascii ''name'', jtext (os_name es)),
      (ascii ''kind'', jstr (ascii ''EntitySet'')), (ascii ''url'', jtext (os_name es))])"
    using assms(1) builds_service_entry by (auto simp: service_ok_def)
  let ?a = "(ascii ''EntityTypes'', jarr (map entity_type_spec (md_entity_types (sv_metadata s))))"
  let ?b = "(ascii ''ComplexTypes'', jarr (map complex_type_spec (md_complex_types (sv_metadata s))))"
  let ?c = "(ascii ''EntitySets'', jarr (map entity_set_spec (md_entity_sets (sv_metadata s))))"
  let ?ms = "[(ascii ''$Version'', jtext (sv_version s))]"
  have "builds (mp_odata_generate_metadata (Some s)) (metadata_spec s)"
    unfolding mp_odata_generate_metadata_def option.case
    by (rule builds_checked_object, rule builds_then [OF builds_put_string [OF v k(1), of "[]", unfolded append_Nil]], rule builds_object,
        rule builds_then [OF builds_put_docs [OF et k(2), of "[]", unfolded append_Nil]],
        rule builds_then [OF builds_put_docs [OF ct k(3), of "[?a]", unfolded append_Cons append_Nil]],
        rule builds_then [OF builds_put_docs [OF es k(4), of "[?a, ?b]", unfolded append_Cons append_Nil]])
      (use builds_put [OF k(5), of ?ms "jobj [?a, ?b, ?c]"] in \<open>simp add: metadata_spec_def\<close>)
  moreover have "builds (mp_odata_generate_service_document (Some s)) (service_spec s)"
    unfolding mp_odata_generate_service_document_def option.case
    by (rule builds_checked_object, rule builds_then [OF builds_put_string [OF k(8) k(6), of "[]", unfolded append_Nil]])
      (use builds_put_docs [OF se k(7), of "[(ascii ''@odata.context'', jtext (Some (ascii ''$metadata#$service'')))]"]
        in \<open>simp add: service_spec_def jtext_Some\<close>)
  ultimately show ?thesis using assms(2) by (auto simp: builds_def)
qed

lemma odata_documents_witness:
  "\<exists>h'. mp_odata_generate_service_document (Some \<lparr>sv_name = None, sv_namespace = None, sv_version = Some (ascii ''4.0''),
      sv_metadata = blank_metadata\<lparr>md_entity_sets := [\<lparr>os_name = Some (ascii ''Sensors''),
        os_entity_type = Some \<lparr>oe_name = Some (ascii ''Sensor''), oe_namespace = None, oe_properties = [], oe_key_properties = [],
          oe_is_abstract = False, oe_is_open = False, oe_has_stream = None\<rparr>, os_count = 0, os_data = None\<rparr>]\<rparr>\<rparr>)
      \<lparr>jh_avail = (\<lambda>k n. True), jh_calls = 0, jh_live = 0\<rparr> =
    Some (Some (jobj [(ascii ''@odata.context'', jstr (ascii ''$metadata#$service'')),
      (ascii ''value'', jarr [jobj [(ascii ''name'', jstr (ascii ''Sensors'')), (ascii ''kind'', jstr (ascii ''EntitySet'')),
         (ascii ''url'', jstr (ascii ''Sensors''))]])]), h')"
  using odata_documents [of "\<lparr>sv_name = None, sv_namespace = None, sv_version = Some (ascii ''4.0''),
      sv_metadata = blank_metadata\<lparr>md_entity_sets := [\<lparr>os_name = Some (ascii ''Sensors''),
        os_entity_type = Some \<lparr>oe_name = Some (ascii ''Sensor''), oe_namespace = None, oe_properties = [], oe_key_properties = [],
          oe_is_abstract = False, oe_is_open = False, oe_has_stream = None\<rparr>, os_count = 0, os_data = None\<rparr>]\<rparr>\<rparr>"
      "\<lparr>jh_avail = (\<lambda>k n. True), jh_calls = 0, jh_live = 0\<rparr>"]
  by (auto simp: service_ok_def clean_def blank_metadata_def heap_works_def service_spec_def jtext_def ascii_def)

section \<open>Key properties\<close>

fun add_properties ::
  "(cstring \<times> mp_odata_type \<times> bool) list \<Rightarrow> od_entity_type option \<Rightarrow> json_heap \<Rightarrow> od_entity_type option \<times> json_heap" where
  "add_properties [] et h = (et, h)"
| "add_properties ((name, type, is_key) # ps) et h =
     (case mp_odata_entity_type_add_property et (Some name) type is_key h of (ret, et', h') \<Rightarrow> add_properties ps et' h')"

definition property_of :: "cstring \<times> mp_odata_type \<times> bool \<Rightarrow> od_property" where
  "property_of p = (case p of (name, type, is_key) \<Rightarrow> new_property (Some name) type is_key)"

lemma add_properties_snoc:
  "add_properties (ps @ [(name, type, is_key)]) et h =
    (case add_properties ps et h of (et', h') \<Rightarrow>
       (case mp_odata_entity_type_add_property et' (Some name) type is_key h' of (ret, et'', h'') \<Rightarrow> (et'', h'')))"
  by (induction ps et h rule: add_properties.induct) (auto split: prod.splits)

lemma add_property_works:
  assumes "heap_works h"
  shows "\<exists>h'. mp_odata_entity_type_add_property (Some et) (Some name) type is_key h =
      (0, Some (if is_key then et\<lparr>oe_properties := property_of (name, type, True) # oe_key_properties et,
                                 oe_key_properties := property_of (name, type, True) # oe_key_properties et\<rparr>
                else et\<lparr>oe_properties := property_of (name, type, False) # oe_properties et\<rparr>), h') \<and>
    heap_works h' \<and> jh_live h' = jh_live h + 2"
  using assms
  by (auto simp: mp_odata_entity_type_add_property_def property_of_def od_strdup_def jh_malloc_def heap_works_def Let_def)

abbreviation is_key_spec :: "cstring \<times> mp_odata_type \<times> bool \<Rightarrow> bool" where
  "is_key_spec p \<equiv> snd (snd p)"

lemma length_around_prefix:
  "length (takeWhile Q xs) + length (filter (\<lambda>x. \<not> Q x) xs) + length (filter Q (dropWhile Q xs)) = length xs"
proof -
  have "length (filter (\<lambda>x. \<not> Q x) xs) = length (filter (\<lambda>x. \<not> Q x) (dropWhile Q xs))" by (induction xs) auto
  moreover have "length (takeWhile Q xs) + length (dropWhile Q xs) = length xs"
    by (metis length_append takeWhile_dropWhile_id)
  ultimately show ?thesis using sum_length_filter_compl [of Q "dropWhile Q xs"] by linarith
qed

lemma add_properties_result:
  assumes "heap_works h" "oe_properties et = []" "oe_key_properties et = []"
  shows "\<exists>et' h'. add_properties ps (Some et) h = (Some et', h') \<and> heap_works h' \<and>
    oe_name et' = oe_name et \<and> oe_namespace et' = oe_namespace et \<and>
    oe_key_properties et' = map property_of (filter is_key_spec (rev ps)) \<and>
    oe_properties et' = map property_of (takeWhile (\<lambda>p. \<not> is_key_spec p) (rev ps) @ filter is_key_spec (rev ps)) \<and>
    jh_live h' = jh_live h + 2 * int (length ps)"
proof (induction ps rule: rev_induct)
  case Nil
  then show ?case using assms by simp
next
  case (snoc p ps)
  obtain name type is_key where p: "p = (name, type, is_key)" by (metis prod_cases3)
  obtain et' h' where IH: "add_properties ps (Some et) h = (Some et', h')" "heap_works h'"
      "oe_name et' = oe_name et" "oe_namespace et' = oe_namespace et"
      "oe_key_properties et' = map property_of (filter is_key_spec (rev ps))"
      "oe_properties et' = map property_of (takeWhile (\<lambda>p. \<not> is_key_spec p) (rev ps) @ filter is_key_spec (rev ps))"
      "jh_live h' = jh_live h + 2 * int (length ps)"
    using snoc by blast
  show ?case
    unfolding p add_properties_snoc IH(1) prod.case
    using add_property_works [OF IH(2), of et' name type is_key] IH(3-7) by (cases is_key) auto
qed

text \<open>A key property takes the properties before it out of its entity type.  After adding properties to a fresh
  type, the key properties are all there, the last first; but the list of properties only has those added after the
  last key, and the keys: every other property that is not a key is lost.  The blocks of the lost properties and of all
  names stay allocated when the type is freed.\<close>

theorem odata_key_properties:
  assumes "heap_works h" "oe_properties et = []" "oe_key_properties et = []"
  shows "\<exists>et' h'. add_properties ps (Some et) h = (Some et', h') \<and>
    oe_key_properties et' = map property_of (filter is_key_spec (rev ps)) \<and>
    oe_properties et' = map property_of (takeWhile (\<lambda>p. \<not> is_key_spec p) (rev ps) @ filter is_key_spec (rev ps)) \<and>
    jh_live h' = jh_live h + 2 * int (length ps) \<and>
    mp_odata_entity_type_free et' + length (filter (\<lambda>p. \<not> is_key_spec p) (dropWhile (\<lambda>p. \<not> is_key_spec p) (rev ps))) =
      mp_odata_entity_type_free et + length ps"
  using add_properties_result [OF assms, of ps] length_around_prefix [of "\<lambda>p. \<not> is_key_spec p" "rev ps"] assms(2)
  by (fastforce simp: mp_odata_entity_type_free_def)

lemma odata_key_properties_witness:
  "\<exists>et' h'. add_properties [(ascii ''Name'', MP_ODATA_TYPE_STRING, False), (ascii ''Id'', MP_ODATA_TYPE_INT32, True)]
      (Some \<lparr>oe_name = None, oe_namespace = None, oe_properties = [], oe_key_properties = [], oe_is_abstract = False,
         oe_is_open = False, oe_has_stream = None\<rparr>) \<lparr>jh_avail = (\<lambda>k n. True), jh_calls = 0, jh_live = 1\<rparr> = (Some et', h') \<and>
    oe_properties et' = [property_of (ascii ''Id'', MP_ODATA_TYPE_INT32, True)] \<and> jh_live h' = 5 \<and>
    mp_odata_entity_type_free et' = 2"
  using odata_key_properties [of "\<lparr>jh_avail = (\<lambda>k n. True), jh_calls = 0, jh_live = 1\<rparr>"
      "\<lparr>oe_name = None, oe_namespace = None, oe_properties = [], oe_key_properties = [], oe_is_abstract = False,
         oe_is_open = False, oe_has_stream = None\<rparr>"
      "[(ascii ''Name'', MP_ODATA_TYPE_STRING, False), (ascii ''Id'', MP_ODATA_TYPE_INT32, True)]"]
  by (auto simp: heap_works_def mp_odata_entity_type_free_def owned_def)

end
