(* ===== verification/Odata_Order.thy ===== *)
theory Odata_Order
  imports OdataDocs "HOL-Library.Multiset"
begin

text \<open>
  \<open>mp_odata_apply_orderby\<close> is a stable sort.  The locale \<open>comparison\<close> is the contract of a comparison function; the
  bubble sort of the code is correct for every comparison, and the lexicographic comparison of entities by several
  properties is one when every entity has a comparable value under each of them.
\<close>

section \<open>Comparisons\<close>

text \<open>A comparison on the elements that satisfy \<open>ok\<close>: its sign is antisymmetric and transitive.\<close>

locale comparison =
  fixes ok :: "'a \<Rightarrow> bool" and cmp :: "'a \<Rightarrow> 'a \<Rightarrow> int"
  assumes reversed: "ok a \<Longrightarrow> ok b \<Longrightarrow> sgn (cmp b a) = - sgn (cmp a b)"
    and transitive: "ok a \<Longrightarrow> ok b \<Longrightarrow> ok c \<Longrightarrow> cmp a b \<le> 0 \<Longrightarrow> cmp b c \<le> 0 \<Longrightarrow> cmp a c \<le> 0"
begin

lemma flip: "ok a \<Longrightarrow> ok b \<Longrightarrow> cmp b a > 0 \<longleftrightarrow> cmp a b < 0" "ok a \<Longrightarrow> ok b \<Longrightarrow> cmp b a = 0 \<longleftrightarrow> cmp a b = 0"
    "ok a \<Longrightarrow> ok b \<Longrightarrow> cmp b a \<ge> 0 \<longleftrightarrow> cmp a b \<le> 0"
  using reversed [of a b] by (auto simp: sgn_if split: if_splits)

lemma strict:
  assumes "ok a" "ok b" "ok c" "cmp a b < 0" "cmp b c \<le> 0"
  shows "cmp a c < 0"
proof (rule ccontr)
  assume "\<not> cmp a c < 0"
  then have "cmp b a \<le> 0" using transitive [of b c a] flip(3) [of c a] assms by simp
  then show False using flip(3) [of b a] assms by simp
qed

lemma same_class:
  assumes "ok a" "ok b" "ok c" "cmp a b = 0" "cmp a c = 0"
  shows "cmp b c = 0"
proof -
  have "cmp b a = 0" "cmp c a = 0" using flip(2) [of a b] flip(2) [of a c] assms by simp_all
  then have "cmp b c \<le> 0" "cmp c b \<le> 0" using transitive [of b a c] transitive [of c a b] assms by simp_all
  then show ?thesis using flip(3) [of b c] flip(2) [of b c] assms by simp
qed

text \<open>One pass over a list, as a function of the list.\<close>

fun sink :: "'a list \<Rightarrow> 'a list" where
  "sink [] = []"
| "sink [a] = [a]"
| "sink (a # b # xs) = (if cmp a b > 0 then b # sink (a # xs) else a # sink (b # xs))"

lemma mset_sink [simp]: "mset (sink xs) = mset xs"
  by (induction xs rule: sink.induct) auto

lemma length_sink [simp]: "length (sink xs) = length xs"
  using mset_sink size_mset by metis

lemma set_sink [simp]: "set (sink xs) = set xs"
  using mset_sink set_mset_mset by metis

lemma sink_Nil_iff [simp]: "sink xs = [] \<longleftrightarrow> xs = []"
  using length_sink [of xs] by (metis length_0_conv)

lemma sink_last: "\<forall>x \<in> set xs. ok x \<Longrightarrow> x \<in> set xs \<Longrightarrow> cmp x (last (sink xs)) \<le> 0"
proof (induction xs arbitrary: x rule: sink.induct)
  case (3 a b xs)
  have o: "ok a" "ok b" "\<forall>y \<in> set xs. ok y" using 3(3) by auto
  show ?case
  proof (cases "cmp a b > 0")
    case True
    have l: "last (sink (a # b # xs)) = last (sink (a # xs))" using True by simp
    have la: "y \<in> set (a # xs) \<Longrightarrow> cmp y (last (sink (a # xs))) \<le> 0" for y using 3(1) [OF True] o by auto
    have "ok (last (sink (a # xs)))" using o last_in_set [of "sink (a # xs)"] by auto
    then have "cmp b (last (sink (a # xs))) \<le> 0"
      using transitive [of b a "last (sink (a # xs))"] la [of a] flip(3) [of b a] True o by fastforce
    then show ?thesis using la 3(4) unfolding l by auto
  next
    case False
    have l: "last (sink (a # b # xs)) = last (sink (b # xs))" using False by simp
    have lb: "y \<in> set (b # xs) \<Longrightarrow> cmp y (last (sink (b # xs))) \<le> 0" for y using 3(2) [OF False] o by auto
    have "ok (last (sink (b # xs)))" using o last_in_set [of "sink (b # xs)"] by auto
    then have "cmp a (last (sink (b # xs))) \<le> 0"
      using transitive [of a b "last (sink (b # xs))"] lb [of b] False o by fastforce
    then show ?thesis using lb 3(4) unfolding l by auto
  qed
next
  case (2 v)
  then show ?case using reversed [of v v] by (auto simp: sgn_if split: if_splits)
qed auto

lemma sink_stable: "\<forall>x \<in> set xs. ok x \<Longrightarrow> ok e \<Longrightarrow> filter (\<lambda>x. cmp e x = 0) (sink xs) = filter (\<lambda>x. cmp e x = 0) xs"
proof (induction xs rule: sink.induct)
  case (3 a b xs)
  then show ?case using same_class [of e a b] by auto
qed auto

text \<open>The pass of the code is \<open>sink\<close> on the segment that it visits.\<close>

lemma bubble_pass_sink:
  assumes "j + n < length xs" and "\<forall>a b. ok a \<longrightarrow> ok b \<longrightarrow> swap a b = Some (cmp a b > 0)" and "\<forall>x \<in> set xs. ok x"
  shows "bubble_pass swap n j xs = Some (take j xs @ sink (take (n + 1) (drop j xs)) @ drop (j + n + 1) xs)"
  using assms
proof (induction n arbitrary: j xs)
  case 0
  then have "take 1 (drop j xs) = [xs ! j]" by (simp add: take_Suc_conv_app_nth hd_drop_conv_nth)
  then show ?case using 0 by (simp flip: id_take_nth_drop)
next
  case (Suc n)
  let ?a = "xs ! j" and ?b = "xs ! (j + 1)"
  have len: "j + 1 < length xs" using Suc.prems(1) by simp
  have d: "drop j xs = ?a # ?b # drop (j + 2) xs" using len by (simp add: Cons_nth_drop_Suc)
  have o: "ok ?a" "ok ?b" using Suc.prems(3) len by auto
  have s: "swap ?a ?b = Some (cmp ?a ?b > 0)" using Suc.prems(2) o by blast
  define ys where "ys = (if cmp ?a ?b > 0 then xs[j := ?b, j + 1 := ?a] else xs)"
  have xs: "xs = take j xs @ ?a # ?b # drop (j + 2) xs" using d append_take_drop_id [of j xs] by simp
  have ys: "ys = take j xs @ (if cmp ?a ?b > 0 then [?b, ?a] else [?a, ?b]) @ drop (j + 2) xs"
  proof -
    have "xs[j := ?b, j + 1 := ?a] = take j xs @ [?b, ?a] @ drop (j + 2) xs"
      using len by (subst (1) xs) (simp add: list_update_append min_def)
    then show ?thesis using xs by (simp add: ys_def)
  qed
  have tk: "length (take j xs) = j" using len by simp
  have oky: "\<forall>x \<in> set ys. ok x" using Suc.prems(3) len set_swap [of j xs "j + 1"] by (auto simp: ys_def)
  have leny: "length ys = length xs" by (simp add: ys_def)
  have IH: "bubble_pass swap n (j + 1) ys = Some (take (j + 1) ys @ sink (take (n + 1) (drop (j + 1) ys)) @ drop (j + 1 + n + 1) ys)"
    using Suc.prems leny oky by (intro Suc.IH) auto
  have t: "take (j + 1) ys = take j xs @ [if cmp ?a ?b > 0 then ?b else ?a]"
      "drop (j + 1) ys = (if cmp ?a ?b > 0 then ?a else ?b) # drop (j + 2) xs" "drop (j + 1 + n + 1) ys = drop (j + Suc n + 1) xs"
    unfolding ys using tk by (auto simp: drop_append add.commute)
  have "bubble_pass swap (Suc n) j xs = bubble_pass swap n (j + 1) ys" using s by (simp add: ys_def)
  then show ?case using IH t d by auto
qed

text \<open>After \<open>i\<close> passes the last \<open>i\<close> elements are in place.\<close>

lemma bubble_passes_sort:
  assumes "\<forall>a b. ok a \<longrightarrow> ok b \<longrightarrow> swap a b = Some (cmp a b > 0)" and "\<forall>x \<in> set (front @ rest). ok x"
    and "length front = m + 1" "length rest = i" "sorted_wrt (\<lambda>a b. cmp a b \<le> 0) rest" "\<forall>a \<in> set front. \<forall>b \<in> set rest. cmp a b \<le> 0"
  shows "\<exists>ys. bubble_passes swap m i (front @ rest) = Some ys \<and> mset ys = mset (front @ rest) \<and>
    sorted_wrt (\<lambda>a b. cmp a b \<le> 0) ys \<and> (\<forall>e. ok e \<longrightarrow> filter (\<lambda>x. cmp e x = 0) ys = filter (\<lambda>x. cmp e x = 0) (front @ rest))"
  using assms(2-6)
proof (induction m arbitrary: front rest i)
  case 0
  then obtain a where "front = [a]" by (cases front) auto
  then show ?case using 0 by auto
next
  case (Suc m)
  define s where "s = sink front"
  have ne: "front \<noteq> []" "s \<noteq> []" using Suc.prems(2) by (auto simp: s_def)
  have okf: "\<forall>x \<in> set front. ok x" using Suc.prems(1) by auto
  have "bubble_pass swap (length (front @ rest) - i - 1) 0 (front @ rest) = Some (s @ rest)"
    using Suc.prems(2,3) assms(1) Suc.prems(1) ne
    by (subst bubble_pass_sink) (auto simp: s_def)
  moreover have s: "s = butlast s @ [last s]" using ne(2) by simp
  moreover have "\<exists>ys. bubble_passes swap m (i + 1) (butlast s @ last s # rest) = Some ys \<and> mset ys = mset (butlast s @ last s # rest) \<and>
      sorted_wrt (\<lambda>a b. cmp a b \<le> 0) ys \<and>
      (\<forall>e. ok e \<longrightarrow> filter (\<lambda>x. cmp e x = 0) ys = filter (\<lambda>x. cmp e x = 0) (butlast s @ last s # rest))"
  proof (rule Suc.IH)
    have sets: "set (butlast s) \<subseteq> set front" "last s \<in> set front"
      using in_set_butlastD [of _ s] last_in_set [OF ne(2)] by (auto simp: s_def)
    show "\<forall>x \<in> set (butlast s @ last s # rest). ok x" using sets Suc.prems(1) by auto
    show "length (butlast s) = m + 1" "length (last s # rest) = i + 1" using Suc.prems(2,3) by (simp_all add: s_def)
    show "sorted_wrt (\<lambda>a b. cmp a b \<le> 0) (last s # rest)" using Suc.prems(4,5) sets by auto
    show "\<forall>a \<in> set (butlast s). \<forall>b \<in> set (last s # rest). cmp a b \<le> 0"
      using Suc.prems(5) sets sink_last [OF okf] by (auto simp: s_def)
  qed
  then obtain ys where ys: "bubble_passes swap m (i + 1) (s @ rest) = Some ys" "mset ys = mset (s @ rest)"
      "sorted_wrt (\<lambda>a b. cmp a b \<le> 0) ys" "\<forall>e. ok e \<longrightarrow> filter (\<lambda>x. cmp e x = 0) ys = filter (\<lambda>x. cmp e x = 0) (s @ rest)"
    using s by (metis append.assoc append_Cons append_Nil)
  ultimately show ?case using sink_stable [OF okf] by (auto simp: s_def)
qed

end

end
