(* ===== verification/Odata_Correct.thy ===== *)
theory Odata_Correct
  imports Odata_Metadata Odata_Order
begin

text \<open>
  Queries on entities: the order, the filter, the page, and the response that puts them together.
\<close>

section \<open>Order\<close>

definition one_order :: "cstring \<Rightarrow> json option \<Rightarrow> json option \<Rightarrow> int" where
  "one_order order a b =
     (case do { (p, d) \<leftarrow> parse_order order; compare_entities a b p d } of None \<Rightarrow> 0 | Some c \<Rightarrow> c)"

fun order_cmp :: "cstring list \<Rightarrow> json option \<Rightarrow> json option \<Rightarrow> int" where
  "order_cmp [] a b = 0"
| "order_cmp (order # orders) a b = (if one_order order a b \<noteq> 0 then one_order order a b else order_cmp orders a b)"

text \<open>A number that is not a NaN, or a string, as \<open>numeric\<close> tells.\<close>

definition sort_value :: "bool \<Rightarrow> json \<Rightarrow> bool" where
  "sort_value numeric v \<longleftrightarrow>
     (if numeric then \<exists>x i n. v = J_number x i n \<and> \<not> is_nan x else \<exists>s n own t. v = J_string s n own \<and> c_str s = Some t)"

text \<open>Under every order the entity has a value of the same kind as the other entities.\<close>

definition comparable :: "(cstring \<Rightarrow> bool) \<Rightarrow> cstring list \<Rightarrow> json option \<Rightarrow> bool" where
  "comparable numeric orders e \<longleftrightarrow>
     (\<forall>order \<in> set orders. \<exists>p d v. parse_order order = Some (p, d) \<and> mp_json_object_get e (cbuf p) = Some (Some v) \<and>
        sort_value (numeric order) v)"

lemma comparison_lex:
  assumes "comparison ok f" "comparison ok g"
  shows "comparison ok (\<lambda>a b. if f a b \<noteq> 0 then f a b else g a b)"
proof
  fix a b
  assume "ok a" "ok b"
  then show "sgn (if f b a \<noteq> 0 then f b a else g b a) = - sgn (if f a b \<noteq> 0 then f a b else g a b)"
    using comparison.reversed [OF assms(1), of a b] comparison.reversed [OF assms(2), of a b] comparison.flip(2) [OF assms(1), of a b]
    by auto
next
  fix a b c
  assume o: "ok a" "ok b" "ok c"
    and ab: "(if f a b \<noteq> 0 then f a b else g a b) \<le> 0" and bc: "(if f b c \<noteq> 0 then f b c else g b c) \<le> 0"
  have f: "f a b \<le> 0" "f b c \<le> 0" using ab bc by (auto split: if_splits)
  have le: "f a c \<le> 0" using comparison.transitive [OF assms(1) o f] .
  show "(if f a c \<noteq> 0 then f a c else g a c) \<le> 0"
  proof (cases "f a c = 0")
    case True
    have "f c a = 0" using comparison.flip(2) [OF assms(1) o(1,3)] True by simp
    then have "f b a \<le> 0" "f c b \<le> 0"
      using comparison.transitive [OF assms(1) o(2,3,1) f(2)] comparison.transitive [OF assms(1) o(3,1,2) _ f(1)] by simp_all
    then have "f a b = 0" "f b c = 0"
      using f comparison.flip(3) [OF assms(1) o(2,1)] comparison.flip(3) [OF assms(1) o(3,2)] by linarith+
    then show ?thesis using True ab bc comparison.transitive [OF assms(2) o] by simp
  next
    case False
    then show ?thesis using le by simp
  qed
qed

lemma compare_numbers:
  assumes "mp_json_object_get a (cbuf p) = Some (Some (J_number x i n))" "mp_json_object_get b (cbuf p) = Some (Some (J_number y j m))"
    "\<not> is_nan x" "\<not> is_nan y"
  shows "compare_entities a b p d = Some ((if d then -1 else 1) * sgn (double_rank x - double_rank y))"
  using assms
  by (auto simp: compare_entities_def mp_json_is_number_def has_type_def mp_json_get_type_def mp_json_get_number_def
      double_less_def Let_def)

lemma compare_strings:
  assumes "mp_json_object_get a (cbuf p) = Some (Some (J_string s n own))" "mp_json_object_get b (cbuf p) = Some (Some (J_string t m own'))"
    "c_str s = Some u" "c_str t = Some w"
  shows "compare_entities a b p d = Some (if d then - strcmp u w else strcmp u w)"
  using assms
  by (auto simp: compare_entities_def mp_json_is_number_def mp_json_is_string_def has_type_def mp_json_get_type_def mp_json_get_string_def)

lemma comparison_one_order: "comparison (comparable numeric [order]) (one_order order)"
proof (cases "parse_order order")
  case None
  then show ?thesis by unfold_locales (simp_all add: comparable_def one_order_def)
next
  case (Some pd)
  obtain p d where pd: "parse_order order = Some (p, d)" using Some by (cases pd) auto
  show ?thesis
  proof (cases "numeric order")
    case True
    define r where "r = (\<lambda>e. case mp_json_object_get e (cbuf p) of Some (Some (J_number x i n)) \<Rightarrow> double_rank x | _ \<Rightarrow> 0)"
    have c: "one_order order a b = (if d then -1 else 1) * sgn (r a - r b)"
      if ab: "comparable numeric [order] a" "comparable numeric [order] b" for a b
    proof -
      obtain x i n where x: "mp_json_object_get a (cbuf p) = Some (Some (J_number x i n))" "\<not> is_nan x"
        using ab(1) pd True by (auto simp: comparable_def sort_value_def)
      obtain y j m where y: "mp_json_object_get b (cbuf p) = Some (Some (J_number y j m))" "\<not> is_nan y"
        using ab(2) pd True by (auto simp: comparable_def sort_value_def)
      show ?thesis using compare_numbers [OF x(1) y(1) x(2) y(2)] pd x(1) y(1) by (simp add: one_order_def r_def)
    qed
    show ?thesis by unfold_locales (auto simp: c sgn_if split: if_splits)
  next
    case False
    define r where "r = (\<lambda>e. case mp_json_object_get e (cbuf p) of Some (Some (J_string s n own)) \<Rightarrow> the (c_str s) | _ \<Rightarrow> [])"
    have c: "one_order order a b = (if d then - strcmp (r a) (r b) else strcmp (r a) (r b))"
      if ab: "comparable numeric [order] a" "comparable numeric [order] b" for a b
    proof -
      obtain s n own u where x: "mp_json_object_get a (cbuf p) = Some (Some (J_string s n own))" "c_str s = Some u"
        using ab(1) pd False by (auto simp: comparable_def sort_value_def)
      obtain t m own' w where y: "mp_json_object_get b (cbuf p) = Some (Some (J_string t m own'))" "c_str t = Some w"
        using ab(2) pd False by (auto simp: comparable_def sort_value_def)
      show ?thesis using compare_strings [OF x(1) y(1) x(2) y(2)] pd x y by (simp add: one_order_def r_def)
    qed
    show ?thesis
    proof
      fix a b
      assume "comparable numeric [order] a" "comparable numeric [order] b"
      then show "sgn (one_order order b a) = - sgn (one_order order a b)"
        using strcmp_swap [of "r b" "r a"] by (simp add: c)
    next
      fix a b e
      assume "comparable numeric [order] a" "comparable numeric [order] b" "comparable numeric [order] e"
        "one_order order a b \<le> 0" "one_order order b e \<le> 0"
      then show "one_order order a e \<le> 0"
        using strcmp_trans [of "r a" "r b" "r e"] strcmp_trans [of "r e" "r b" "r a"] strcmp_swap [of "r a" "r b"]
          strcmp_swap [of "r b" "r e"] strcmp_swap [of "r a" "r e"]
        by (auto simp: c split: if_splits)
    qed
  qed
qed

lemma comparison_weaken: "comparison ok f \<Longrightarrow> (\<And>a. ok' a \<Longrightarrow> ok a) \<Longrightarrow> comparison ok' f"
  unfolding comparison_def by blast

interpretation entity_order: comparison "comparable numeric orders" "order_cmp orders" for numeric orders
proof (induction orders)
  case Nil
  show ?case by unfold_locales simp_all
next
  case (Cons order orders)
  have e: "order_cmp (order # orders) = (\<lambda>a b. if one_order order a b \<noteq> 0 then one_order order a b else order_cmp orders a b)"
    by (intro ext) simp
  show ?case
    unfolding e
    by (rule comparison_lex [OF comparison_weaken [OF comparison_one_order] comparison_weaken [OF Cons]])
      (auto simp: comparable_def)
qed

lemma should_swap_cmp:
  "comparable numeric orders a \<Longrightarrow> comparable numeric orders b \<Longrightarrow> should_swap orders a b = Some (order_cmp orders a b > 0)"
proof (induction orders)
  case (Cons order orders)
  obtain p d v where a: "parse_order order = Some (p, d)" "mp_json_object_get a (cbuf p) = Some (Some v)" "sort_value (numeric order) v"
    using Cons.prems(1) by (auto simp: comparable_def)
  obtain w where b: "mp_json_object_get b (cbuf p) = Some (Some w)" "sort_value (numeric order) w"
    using Cons.prems(2) a(1) by (auto simp: comparable_def)
  have "compare_entities a b p d = Some (one_order order a b)"
  proof (cases "numeric order")
    case True
    then show ?thesis using a b compare_numbers by (fastforce simp: sort_value_def one_order_def)
  next
    case False
    then show ?thesis using a b compare_strings by (fastforce simp: sort_value_def one_order_def)
  qed
  moreover have "comparable numeric orders a" "comparable numeric orders b" using Cons.prems by (auto simp: comparable_def)
  ultimately show ?case using a(1) Cons.IH by auto
qed simp

text \<open>C24.  \<open>mp_odata_apply_orderby\<close> is a stable sort.  For every list of orders, when all entities have under each of
  them a number (not a NaN) or all have a string, the code rearranges the entities, none is lost or doubled, into the
  lexicographic order of the comparisons, ascending or descending, and entities that compare equal keep their places.\<close>

theorem odata_orderby_stable_sort:
  assumes "\<forall>e \<in> set es. comparable numeric orders e"
  shows "\<exists>ys. mp_odata_apply_orderby (Some es) (Some orders) (length orders) = Some (Some ys) \<and> mset ys = mset es \<and>
    sorted_wrt (\<lambda>a b. order_cmp orders a b \<le> 0) ys \<and>
    (\<forall>e \<in> set es. filter (\<lambda>x. order_cmp orders e x = 0) ys = filter (\<lambda>x. order_cmp orders e x = 0) es)"
proof (cases "es = [] \<or> orders = []")
  case True
  then show ?thesis by (auto simp: mp_odata_apply_orderby_def sorted_wrt_iff_nth_less)
next
  case False
  have "\<exists>ys. bubble_passes (should_swap orders) (length es - 1) 0 (es @ []) = Some ys \<and> mset ys = mset (es @ []) \<and>
      sorted_wrt (\<lambda>a b. order_cmp orders a b \<le> 0) ys \<and>
      (\<forall>e. comparable numeric orders e \<longrightarrow> filter (\<lambda>x. order_cmp orders e x = 0) ys = filter (\<lambda>x. order_cmp orders e x = 0) (es @ []))"
    using False assms should_swap_cmp by (intro entity_order.bubble_passes_sort) auto
  then show ?thesis using False assms by (auto simp: mp_odata_apply_orderby_def)
qed

lemma get_member_first:
  assumes "0 \<notin> set k" "0 \<notin> set key"
  shows "mp_json_object_get (Some (J_object ((jstr k, v) # es) cap)) (cbuf key) =
    (if k = key then Some (Some v) else mp_json_object_get (Some (J_object es cap)) (cbuf key))"
  using c_str_zero [OF assms(1)] c_str_zero [OF assms(2)]
  by (cases "find_member es (Some (key @ [0]))") (auto simp: mp_json_object_get_def jstr_def cbuf_def str_equal_def option.map_comp comp_def)

lemma get_member_none: "mp_json_object_get (Some (J_object [] cap)) (cbuf key) = Some None"
  by (simp add: mp_json_object_get_def cbuf_def)

lemma odata_orderby_stable_sort_witness:
  "\<exists>ys. mp_odata_apply_orderby (Some [Some (J_object [(jstr (ascii ''a''), J_number 1 False 0)] 8), Some (J_object [(jstr (ascii ''a''), J_number 2 False 0)] 8)])
      (Some [ascii ''a desc'']) 1 = Some (Some ys) \<and>
    mset ys = {#Some (J_object [(jstr (ascii ''a''), J_number 1 False 0)] 8), Some (J_object [(jstr (ascii ''a''), J_number 2 False 0)] 8)#}"
proof -
  have p: "parse_order (ascii ''a desc'') = Some (ascii ''a'', True)"
    by (simp add: parse_order_def ascii_def strstr_def strchr_def property_size_def)
  have z: "0 \<notin> set (ascii ''a'')" by (simp add: ascii_def)
  have "comparable (\<lambda>o'. True) [ascii ''a desc''] (Some (J_object [(jstr (ascii ''a''), J_number x False 0)] 8))" if "\<not> is_nan x" for x
    using that p get_member_first [OF z z] unfolding comparable_def sort_value_def by auto
  then show ?thesis
    using odata_orderby_stable_sort [of "[Some (J_object [(jstr (ascii ''a''), J_number 1 False 0)] 8), Some (J_object [(jstr (ascii ''a''), J_number 2 False 0)] 8)]"
        "\<lambda>o'. True" "[ascii ''a desc'']"]
    by (auto simp: is_nan_def)
qed

text \<open>Without a value the comparison gives up, and the order is lost: an entity without the property between two others
  keeps them unsorted.\<close>

lemma orderby_missing_property:
  assumes "double_less y x" "0 \<notin> set p" "ch_space \<notin> set p" "length p < 256"
  shows "mp_odata_apply_orderby (Some [Some (J_object [(jstr p, J_number x i n)] 8), Some (J_object [] 8), Some (J_object [(jstr p, J_number y j m)] 8)])
      (Some [p]) 1 =
    Some (Some [Some (J_object [(jstr p, J_number x i n)] 8), Some (J_object [] 8), Some (J_object [(jstr p, J_number y j m)] 8)])"
proof -
  have "strchr p ch_space = None" using assms(3) by (simp add: strchr_None)
  moreover have "strstr p (ascii '' desc'') = None"
  proof -
    have "take (length (ascii '' desc'')) (drop i p) \<noteq> ascii '' desc''" for i
    proof
      assume e: "take (length (ascii '' desc'')) (drop i p) = ascii '' desc''"
      have "ch_space \<in> set (ascii '' desc'')" by (simp add: ascii_def)
      then show False using assms(3) set_take_subset [of "length (ascii '' desc'')" "drop i p"] set_drop_subset [of i p] unfolding e by auto
    qed
    then show ?thesis by (auto simp: strstr_def find_None_iff)
  qed
  ultimately have po: "parse_order p = Some (p, False)" using assms(4) by (simp add: parse_order_def property_size_def)
  let ?a = "Some (J_object [(jstr p, J_number x i n)] 8)" and ?b = "Some (J_object [(jstr p, J_number y j m)] 8)"
  have "should_swap [p] ?a (Some (J_object [] 8)) = Some False" "should_swap [p] (Some (J_object [] 8)) ?b = Some False"
    using po get_member_first [OF assms(2,2)] get_member_none by (simp_all add: compare_entities_def)
  then show ?thesis
    by (simp add: mp_odata_apply_orderby_def numeral_2_eq_2 del: should_swap.simps)
qed

section \<open>Filter\<close>

text \<open>The value that a filter compares to; \<^term>\<open>None\<close> when the value is a lone quote.\<close>

definition filter_operand :: "c_double \<Rightarrow> cstring \<Rightarrow> json option" where
  "filter_operand D vs =
     (if vs = ascii ''true'' then Some (J_boolean True)
      else if vs = ascii ''false'' then Some (J_boolean False)
      else if hd vs = ch_apostrophe
      then if last vs = ch_apostrophe
           then if tl vs = [] then None else Some (J_string (Some ((tl vs @ [0])[length (tl vs) - 1 := 0])) (length (tl vs)) True)
           else Some (jstr (tl vs))
      else Some (J_number (c_strtod D vs) False (to_int64 D (c_strtod D vs))))"

text \<open>Whether an entity passes a filter, without the heap.\<close>

definition entity_passes :: "c_double \<Rightarrow> cstring \<Rightarrow> json option \<Rightarrow> bool option" where
  "entity_passes D f entity =
     (if entity = None \<or> f = [] then Some True
      else
        (case filter_tokens f of
           None \<Rightarrow> Some True
         | Some (property, opr, vs) \<Rightarrow>
             do { pv \<leftarrow> mp_json_object_get entity (cbuf property);
                  if pv = None then Some False
                  else do { v \<leftarrow> filter_operand D vs; filter_compare opr pv (Some v) } }))"

lemma strtok_clean: "strtok ds s = Some (t, r) \<Longrightarrow> c \<notin> set s \<Longrightarrow> c \<notin> set t \<and> c \<notin> set r"
  using strtok_token(3,4) by blast

lemma filter_tokens_clean:
  assumes "filter_tokens f = Some (p, opr, vs)" "0 \<notin> set f"
  shows "0 \<notin> set p \<and> 0 \<notin> set vs \<and> vs \<noteq> []"
proof -
  obtain r1 r2 r3 where r: "strtok [ch_space] f = Some (p, r1)" "strtok [ch_space] r1 = Some (opr, r2)" "strtok [] r2 = Some (vs, r3)"
    using assms(1) by (auto simp: filter_tokens_def split: bind_splits)
  show ?thesis
    using strtok_clean [OF r(1) assms(2)] strtok_clean [OF r(2)] strtok_clean [OF r(3)] strtok_token(1) [OF r(3)] by blast
qed

lemma filter_value_works:
  assumes "heap_works h" "0 \<notin> set vs" "vs \<noteq> []" "filter_operand D vs = Some v"
  shows "\<exists>h'. filter_value D vs h = Some (Some v, h') \<and> heap_works h' \<and> jh_live h' = jh_live h + int (mp_json_free (Some v))"
proof (cases "vs = ascii ''true'' \<or> vs = ascii ''false'' \<or> hd vs \<noteq> ch_apostrophe")
  case True
  have "ascii ''true'' \<noteq> ascii ''false''" by (simp add: ascii_def)
  then show ?thesis
    using True assms(4) new_value_works [OF assms(1)]
    by (auto simp: filter_value_def filter_operand_def mp_json_boolean_def mp_json_number_def mp_json_free_def split: if_splits)
next
  case False
  have z: "0 \<notin> set (tl vs)" using assms(2,3) by (cases vs) auto
  obtain h' where h': "mp_json_string (cbuf (tl vs)) h = Some (Some (jstr (tl vs)), h')" "heap_works h'" "jh_live h' = jh_live h + 2"
    using string_works [OF assms(1), of "length (tl vs)" "tl vs @ [0]"] c_strlen_cstring [OF z]
    by (auto simp: mp_json_string_def cbuf_def jstr_def)
  obtain c t where vs: "vs = c # t" using assms(3) by (cases vs) auto
  from h' show ?thesis
    using False assms(4) unfolding vs
    by (auto simp: filter_value_def filter_operand_def drop_closing_quote_def jstr_def mp_json_free_def split: if_splits)
qed

lemma evaluate_filter_works:
  assumes "heap_works h" "0 \<notin> set f" "entity_passes D f e = Some b"
  shows "\<exists>h'. evaluate_filter D e (Some f) h = Some (b, h') \<and> heap_works h' \<and> jh_live h' = jh_live h"
proof (cases "e = None \<or> f = []")
  case True
  then show ?thesis using assms(1,3) by (auto simp: evaluate_filter_def entity_passes_def)
next
  case False
  obtain h1 where h1: "jh_malloc (length f + 1) h = (True, h1)" "heap_works h1" "jh_live h1 = jh_live h + 1"
    using heap_works_malloc [OF assms(1)] by blast
  show ?thesis
  proof (cases "filter_tokens f")
    case None
    then show ?thesis using False h1 assms(3) by (auto simp: evaluate_filter_def entity_passes_def od_strdup_def)
  next
    case (Some t)
    obtain p opr vs where t: "filter_tokens f = Some (p, opr, vs)" using Some by (cases t) auto
    note cl = filter_tokens_clean [OF t assms(2)]
    obtain pv where pv: "mp_json_object_get e (cbuf p) = Some pv"
      using assms(3) False t by (auto simp: entity_passes_def split: bind_splits)
    show ?thesis
    proof (cases "pv = None")
      case True
      then show ?thesis using False h1 assms(3) t pv by (auto simp: evaluate_filter_def entity_passes_def od_strdup_def)
    next
      case ne: False
      obtain v where v: "filter_operand D vs = Some v" "filter_compare opr pv (Some v) = Some b"
        using assms(3) False t pv ne by (auto simp: entity_passes_def split: bind_splits)
      obtain h2 where h2: "filter_value D vs h1 = Some (Some v, h2)" "heap_works h2" "jh_live h2 = jh_live h1 + int (mp_json_free (Some v))"
        using filter_value_works [OF h1(2) _ _ v(1)] cl by blast
      show ?thesis using False h1 t pv ne v(2) h2 by (auto simp: evaluate_filter_def od_strdup_def)
    qed
  qed
qed

lemma filter_loop_works:
  "heap_works h \<Longrightarrow> 0 \<notin> set f \<Longrightarrow> \<forall>e \<in> set es. entity_passes D f e \<noteq> None \<Longrightarrow>
   \<exists>h'. filter_loop D (Some f) es h = Some (filter (\<lambda>e. entity_passes D f e = Some True) es, h') \<and> heap_works h' \<and> jh_live h' = jh_live h"
proof (induction es arbitrary: h)
  case (Cons e es)
  obtain b where b: "entity_passes D f e = Some b" using Cons.prems(3) by auto
  obtain h1 where h1: "evaluate_filter D e (Some f) h = Some (b, h1)" "heap_works h1" "jh_live h1 = jh_live h"
    using evaluate_filter_works [OF Cons.prems(1,2) b] by blast
  obtain h2 where h2: "filter_loop D (Some f) es h1 = Some (filter (\<lambda>e. entity_passes D f e = Some True) es, h2)" "heap_works h2" "jh_live h2 = jh_live h1"
    using Cons.IH [OF h1(2)] Cons.prems by auto
  show ?case using h1 h2 b by (cases b) auto
qed simp

lemma apply_filter_works:
  assumes "heap_works h" "0 \<notin> set f" "\<forall>e \<in> set es. entity_passes D f e \<noteq> None" "es \<noteq> []"
  shows "\<exists>h'. mp_odata_apply_filter D (Some es) (Some f) h = Some (0, filter (\<lambda>e. entity_passes D f e = Some True) es, h') \<and>
    heap_works h' \<and> jh_live h' = jh_live h + 1"
proof -
  obtain h1 where h1: "jh_malloc (length es * sizeof_pointer) h = (True, h1)" "heap_works h1" "jh_live h1 = jh_live h + 1"
    using heap_works_malloc [OF assms(1)] by blast
  then show ?thesis using filter_loop_works [OF h1(2) assms(2,3)] assms(4) by (auto simp: mp_odata_apply_filter_def)
qed

text \<open>\<open>mp_odata_apply_filter\<close> is the filter of a list: with a heap that works it returns, in order and unchanged,
  exactly the entities that pass, in a new array, and leaves nothing else allocated.  It does not accept an empty
  array.\<close>

theorem odata_filter:
  assumes "heap_works h" "0 \<notin> set f" "\<forall>e \<in> set es. entity_passes D f e \<noteq> None"
  shows "if es = [] then mp_odata_apply_filter D (Some es) (Some f) h = Some (-1, [], h)
    else \<exists>h'. mp_odata_apply_filter D (Some es) (Some f) h = Some (0, filter (\<lambda>e. entity_passes D f e = Some True) es, h') \<and>
      jh_live h' = jh_live h + 1"
  using apply_filter_works [OF assms] by (auto simp: mp_odata_apply_filter_def)

lemma odata_filter_witness:
  "\<exists>h'. mp_odata_apply_filter plain_double (Some [None]) (Some [ch_space]) \<lparr>jh_avail = (\<lambda>k n. True), jh_calls = 0, jh_live = 0\<rparr> =
     Some (0, [None], h') \<and> jh_live h' = 1"
  using odata_filter [of "\<lparr>jh_avail = (\<lambda>k n. True), jh_calls = 0, jh_live = 0\<rparr>" "[ch_space]" "[None]" plain_double]
  by (simp add: heap_works_def entity_passes_def)

text \<open>A filter of three parts separated by single spaces.\<close>

definition filter_text :: "cstring \<Rightarrow> string \<Rightarrow> cstring \<Rightarrow> cstring" where
  "filter_text p opr vs = p @ [ch_space] @ ascii opr @ [ch_space] @ vs"

lemma filter_tokens_text:
  assumes "p \<noteq> []" "ch_space \<notin> set p" "opr \<in> {''eq'', ''ne'', ''gt'', ''ge'', ''lt'', ''le''}" "vs \<noteq> []"
  shows "filter_tokens (filter_text p opr vs) = Some (p, ascii opr, vs)"
proof -
  have o: "ascii opr \<noteq> []" "ch_space \<notin> set (ascii opr)" using assms(3) by (auto simp: ascii_def)
  have "strtok [ch_space] (filter_text p opr vs) = Some (p, ascii opr @ ch_space # vs)"
    unfolding filter_text_def using strtok_append [OF assms(1), of "[ch_space]" ch_space "ascii opr @ ch_space # vs"] assms(2) by simp
  moreover have "strtok [ch_space] (ascii opr @ ch_space # vs) = Some (ascii opr, vs)"
    using strtok_append [OF o(1), of "[ch_space]" ch_space vs] o(2) by simp
  moreover have "strtok [] vs = Some (vs, [])" using strtok_whole [OF assms(4), of "[]"] by simp
  ultimately show ?thesis by (simp add: filter_tokens_def)
qed

text \<open>A value that is no string, or a string whose characters are not zero.\<close>

fun proper_text :: "json \<Rightarrow> bool" where
  "proper_text (J_string s n own) = (case s of None \<Rightarrow> False | Some b \<Rightarrow> n \<le> length b \<and> 0 \<notin> set (take n b))"
| "proper_text v = True"

lemma quoted_operand:
  assumes "0 \<notin> set t"
  shows "filter_operand D ([ch_apostrophe] @ t @ [ch_apostrophe]) =
    Some (J_string (Some (t @ [0, 0])) (length t + 1) True)"
proof -
  have "((t @ [ch_apostrophe, 0])[length t := 0]) = t @ [0, 0]" by (simp add: list_update_append)
  then show ?thesis by (simp add: filter_operand_def ascii_def)
qed

lemma quoted_never_equal:
  assumes "proper_text v"
  shows "mp_json_equal (Some v) (Some (J_string (Some (t @ [0, 0])) (length t + 1) True)) = Some False"
proof (cases v)
  case (J_string s n own)
  then obtain b where b: "s = Some b" "n \<le> length b" "0 \<notin> set (take n b)" using assms by (auto split: option.splits)
  have "take n b \<noteq> t @ [0]" using b(3) by (metis in_set_conv_decomp)
  then show ?thesis using J_string b by (auto simp: mp_json_equal_def mem_read_Some)
qed (auto simp: mp_json_equal_def)

text \<open>No filter on a string is ever true.  For \<open>property eq 'text'\<close> the code overwrites the closing quote with a
  terminator and leaves the length, so \<open>mp_json_equal\<close> compares one character more than the text: whatever the text and
  the entities, the result is empty.  And \<open>property ne 'text'\<close> selects every entity that has the property, those whose
  value is the text included.\<close>

theorem odata_string_filters:
  assumes "heap_works h" "es \<noteq> []" "p \<noteq> []" "ch_space \<notin> set p" "0 \<notin> set p" "0 \<notin> set t"
    and "\<forall>e \<in> set es. \<exists>pv. mp_json_object_get (Some e) (cbuf p) = Some pv \<and> (\<forall>v. pv = Some v \<longrightarrow> proper_text v)"
  shows "(\<exists>h'. mp_odata_apply_filter D (Some (map Some es))
        (Some (filter_text p ''eq'' ([ch_apostrophe] @ t @ [ch_apostrophe]))) h = Some (0, [], h')) \<and>
    (\<exists>h'. mp_odata_apply_filter D (Some (map Some es))
        (Some (filter_text p ''ne'' ([ch_apostrophe] @ t @ [ch_apostrophe]))) h =
      Some (0, map Some (filter (\<lambda>e. mp_json_object_get (Some e) (cbuf p) \<noteq> Some None) es), h'))"
proof -
  let ?vs = "[ch_apostrophe] @ t @ [ch_apostrophe]"
  have z: "0 \<notin> set (filter_text p opr ?vs)" if "opr \<in> {''eq'', ''ne''}" for opr
    using that assms(5,6) by (auto simp: filter_text_def ascii_def)
  have ne: "filter_text p opr ?vs \<noteq> []" for opr by (simp add: filter_text_def)
  have tk: "filter_tokens (filter_text p opr ?vs) = Some (p, ascii opr, ?vs)" if "opr \<in> {''eq'', ''ne''}" for opr
    using that filter_tokens_text [OF assms(3,4), of opr ?vs] by auto
  have nn: "ascii ''ne'' \<noteq> ascii ''eq''" by (simp add: ascii_def)
  have "entity_passes D (filter_text p ''eq'' ?vs) (Some e) = Some False \<and>
      entity_passes D (filter_text p ''ne'' ?vs) (Some e) = Some (mp_json_object_get (Some e) (cbuf p) \<noteq> Some None)"
    if ein: "e \<in> set es" for e
  proof -
    obtain pv where pv: "mp_json_object_get (Some e) (cbuf p) = Some pv" "\<forall>v. pv = Some v \<longrightarrow> proper_text v"
      using bspec [OF assms(7) ein] by (elim exE conjE) (rule that)
    have t1: "filter_tokens (filter_text p ''eq'' ?vs) = Some (p, ascii ''eq'', ?vs)"
      and t2: "filter_tokens (filter_text p ''ne'' ?vs) = Some (p, ascii ''ne'', ?vs)" using tk by blast+
    let ?v = "J_string (Some (t @ [0, 0])) (length t + 1) True"
    show ?thesis
    proof (cases pv)
      case None
      then show ?thesis unfolding entity_passes_def t1 t2 using ne pv(1) by simp
    next
      case (Some v)
      have q: "mp_json_equal (Some v) (Some ?v) = Some False" using pv(2) Some quoted_never_equal by blast
      have "filter_compare (ascii ''eq'') (Some v) (Some ?v) = Some False" "filter_compare (ascii ''ne'') (Some v) (Some ?v) = Some True"
        unfolding filter_compare_def Let_def q using nn by simp_all
      then show ?thesis unfolding entity_passes_def t1 t2 using ne pv(1) Some quoted_operand [OF assms(6), of D] by simp
    qed
  qed
  note ep = this
  have "\<exists>h'. mp_odata_apply_filter D (Some (map Some es)) (Some (filter_text p ''eq'' ?vs)) h =
      Some (0, filter (\<lambda>e. entity_passes D (filter_text p ''eq'' ?vs) e = Some True) (map Some es), h')"
    using apply_filter_works [OF assms(1) z, of "''eq''" "map Some es" D] ep assms(2) by auto
  moreover have "\<exists>h'. mp_odata_apply_filter D (Some (map Some es)) (Some (filter_text p ''ne'' ?vs)) h =
      Some (0, filter (\<lambda>e. entity_passes D (filter_text p ''ne'' ?vs) e = Some True) (map Some es), h')"
    using apply_filter_works [OF assms(1) z, of "''ne''" "map Some es" D] ep assms(2) by auto
  moreover have "filter (\<lambda>e. entity_passes D (filter_text p ''eq'' ?vs) e = Some True) (map Some es) = []"
    using ep by (auto simp: filter_empty_conv)
  moreover have "filter (\<lambda>e. entity_passes D (filter_text p ''ne'' ?vs) e = Some True) (map Some es) =
      map Some (filter (\<lambda>e. mp_json_object_get (Some e) (cbuf p) \<noteq> Some None) es)"
    unfolding filter_map comp_def using ep by (intro arg_cong [of _ _ "map Some"] filter_cong) auto
  ultimately show ?thesis by simp
qed

lemma odata_string_filters_witness:
  "\<exists>h'. mp_odata_apply_filter plain_double (Some [Some (J_object [(jstr (ascii ''a''), jstr (ascii ''x''))] 8)])
      (Some (filter_text (ascii ''a'') ''eq'' ([ch_apostrophe] @ ascii ''x'' @ [ch_apostrophe])))
      \<lparr>jh_avail = (\<lambda>k n. True), jh_calls = 0, jh_live = 0\<rparr> = Some (0, [], h')"
proof -
  have z: "0 \<notin> set (ascii ''a'')" "0 \<notin> set (ascii ''x'')" "ch_space \<notin> set (ascii ''a'')" "ascii ''a'' \<noteq> []" by (simp_all add: ascii_def)
  have "proper_text (jstr (ascii ''x''))" using z(2) by (simp add: jstr_def)
  then show ?thesis
    using odata_string_filters [of "\<lparr>jh_avail = (\<lambda>k n. True), jh_calls = 0, jh_live = 0\<rparr>" "[J_object [(jstr (ascii ''a''), jstr (ascii ''x''))] 8]"
        "ascii ''a''" "ascii ''x''" plain_double] z get_member_first [OF z(1) z(1)]
    by (simp add: heap_works_def)
qed

section \<open>Paging\<close>

lemma apply_paging_works:
  assumes "heap_works h" "es \<noteq> []" "length es < 2 ^ 32" "0 \<le> skip" "0 \<le> limit" "limit < 2 ^ 32" "skip < 2 ^ 32"
  shows "(skip + limit < 2 ^ 32 \<longrightarrow> (\<exists>h'. mp_odata_apply_paging (Some es) limit skip h =
      (let page = (if limit = 0 then drop (nat skip) es else take (nat limit) (drop (nat skip) es))
       in (0, if skip \<ge> int (length es) then None else Some page, if skip \<ge> int (length es) then 0 else of_nat (length page), h')))) \<and>
    (skip < int (length es) \<longrightarrow> 2 ^ 32 \<le> skip + limit \<longrightarrow>
      (\<exists>h'. mp_odata_apply_paging (Some es) limit skip h = (0, Some [], word_of_int limit, h')))"
proof -
  obtain s l where sl: "skip = int s" "limit = int l" using assms(4,5) by (metis nonneg_int_cases)
  have b: "s < 2 ^ 32" "l < 2 ^ 32" using assms(6,7) unfolding sl by simp_all
  define cnt start lim where "cnt = (of_nat (length es) :: size_t)" and "start = (of_nat s :: size_t)" and "lim = (of_nat l :: size_t)"
  have u: "unat cnt = length es" "unat start = s" "unat lim = l"
    using assms(3) b by (simp_all add: cnt_def start_def lim_def unat_of_nat)
  have unfold: "mp_odata_apply_paging (Some es) limit skip h =
      (if s \<ge> length es then (0, None, 0, h)
       else let sum = start + lim; stop = (if l > 0 then if sum > cnt then cnt else sum else cnt)
            in (case jh_malloc (unat ((stop - start) * of_nat sizeof_pointer)) h of (ok, h1) \<Rightarrow>
                 if \<not> ok then (-1, None, 0, h1) else (0, Some (map (\<lambda>i. es ! i) [unat start..<unat stop]), stop - start, h1)))"
  proof -
    have w: "(of_nat (length es) :: size_t) = cnt" "(word_of_int skip :: size_t) = start" "(word_of_int limit :: size_t) = lim"
        "(0 < limit) = (0 < l)" "(cnt \<le> start) = (s \<ge> length es)"
      using u by (simp_all add: cnt_def start_def lim_def sl word_le_nat_alt)
    show ?thesis unfolding mp_odata_apply_paging_def option.case Let_def w using assms(2) by simp
  qed
  have m: "\<exists>h'. jh_malloc n h = (True, h')" for n using heap_works_malloc [OF assms(1)] by blast
  have win: "map (\<lambda>i. es ! i) [a..<b] = take (b - a) (drop a es)" if "b \<le> length es" for a b
    using that by (intro nth_equalityI) auto
  have wrap: "unat (start + lim) = (if s + l < 2 ^ 32 then s + l else s + l - 2 ^ 32)"
    using b unat_word_ariths(1) [of start lim] u(2,3) by (auto simp: mod_if)
  show ?thesis
  proof (intro conjI impI)
    assume f: "skip + limit < 2 ^ 32"
    then have sum: "unat (start + lim) = s + l" using wrap sl by auto
    define stop where "stop = (if l > 0 then if start + lim > cnt then cnt else start + lim else cnt)"
    have stop: "unat stop = (if l > 0 then min (s + l) (length es) else length es)"
      using sum u(1) by (simp add: stop_def word_less_nat_alt min_def)
    show "\<exists>h'. mp_odata_apply_paging (Some es) limit skip h =
      (let page = (if limit = 0 then drop (nat skip) es else take (nat limit) (drop (nat skip) es))
       in (0, if skip \<ge> int (length es) then None else Some page, if skip \<ge> int (length es) then 0 else of_nat (length page), h'))"
    proof (cases "s \<ge> length es")
      case True
      then show ?thesis using unfold by (simp add: sl Let_def)
    next
      case False
      let ?page = "if l = 0 then drop s es else take l (drop s es)"
      have page: "map (\<lambda>i. es ! i) [unat start..<unat stop] = ?page"
        using win [of "unat stop" s] stop u(2) False by (auto simp: min_def)
      have "start \<le> stop" using stop u(2) False by (simp add: word_le_nat_alt min_def)
      then have "unat (stop - start) = length ?page"
        using stop u(2) False by (auto simp: unat_sub min_def)
      then have size: "stop - start = of_nat (length ?page)" by (metis of_nat_unat ucast_id)
      obtain h1 where h1: "jh_malloc (unat ((stop - start) * of_nat sizeof_pointer)) h = (True, h1)" using m by blast
      have "mp_odata_apply_paging (Some es) limit skip h = (0, Some (map (\<lambda>i. es ! i) [unat start..<unat stop]), stop - start, h1)"
        using unfold False h1 unfolding Let_def stop_def [symmetric] by simp
      then have "mp_odata_apply_paging (Some es) limit skip h = (0, Some ?page, of_nat (length ?page), h1)"
        unfolding page size .
      then show ?thesis using False by (auto simp: sl Let_def)
    qed
  next
    assume i: "skip < int (length es)" and f: "2 ^ 32 \<le> skip + limit"
    have l: "l > 0" "unat (start + lim) = s + l - 2 ^ 32" "s + l - 2 ^ 32 < s"
      using wrap f b sl by auto
    then have le: "\<not> start + lim > cnt" using u(1) i sl by (simp add: word_less_nat_alt)
    have e: "[unat start..<unat (start + lim)] = []" using l u(2) by simp
    show "\<exists>h'. mp_odata_apply_paging (Some es) limit skip h = (0, Some [], word_of_int limit, h')"
      using unfold l(1) le e i sl m [of "unat ((start + lim - start) * of_nat sizeof_pointer)"]
      by (auto simp: Let_def lim_def)
  qed
qed

text \<open>A page is a window: for \<open>skip\<close> and \<open>top\<close> whose sum fits in 32 bits, \<open>mp_odata_apply_paging\<close> returns the
  entities after the first \<open>skip\<close>, at most \<open>top\<close> of them unless \<open>top\<close> is zero, and \<open>NULL\<close> when there are none.  When
  \<open>skip\<close> is within the array and the sum wraps, the array that it returns is empty but its count is \<open>top\<close>.\<close>

theorem odata_paging:
  assumes "heap_works h" "es \<noteq> []" "length es < 2 ^ 32" "0 \<le> skip" "0 \<le> limit" "limit < 2 ^ 32" "skip < 2 ^ 32"
  shows "(skip + limit < 2 ^ 32 \<longrightarrow> (\<exists>h'. mp_odata_apply_paging (Some es) limit skip h =
      (let page = (if limit = 0 then drop (nat skip) es else take (nat limit) (drop (nat skip) es))
       in (0, if skip \<ge> int (length es) then None else Some page, if skip \<ge> int (length es) then 0 else of_nat (length page), h')))) \<and>
    (skip < int (length es) \<longrightarrow> 2 ^ 32 \<le> skip + limit \<longrightarrow>
      (\<exists>h'. mp_odata_apply_paging (Some es) limit skip h = (0, Some [], word_of_int limit, h')))"
  by (rule apply_paging_works [OF assms])

lemma odata_paging_witness:
  "\<exists>h'. mp_odata_apply_paging (Some [None, None, Some J_null]) 4294967295 1 \<lparr>jh_avail = (\<lambda>k n. True), jh_calls = 0, jh_live = 0\<rparr> =
     (0, Some [], 4294967295, h')"
  using odata_paging [of "\<lparr>jh_avail = (\<lambda>k n. True), jh_calls = 0, jh_live = 0\<rparr>" "[None, None, Some J_null]" 1 4294967295]
  by (simp add: heap_works_def)

end
