(* ===== verification/Odata_Response.thy ===== *)
theory Odata_Response
  imports Odata_Correct
begin

text \<open>
  The response to a query, as a whole: errors, wrapped entities, and \<open>mp_odata_generate_response\<close> on every path that a
  working heap leaves.
\<close>

section \<open>Error responses\<close>

definition error_spec :: "od_error \<Rightarrow> json" where
  "error_spec err =
     jobj [(ascii ''error'',
       jobj ([(ascii ''code'', jtext (er_code err)), (ascii ''message'', jtext (er_message err))]
         @ (if er_target err = None then [] else [(ascii ''target'', jtext (er_target err))])
         @ (if er_details err = None then [] else [(ascii ''details'', jtext (er_details err))])))]"

lemma builds_if_put:
  assumes "clean s" "0 \<notin> set (ascii key)"
  shows "builds (\<lambda>h. if s = None then Some (Some (jobj ms), h) else od_put_string (Some (jobj ms)) key s h)
    (jobj (ms @ (if s = None then [] else [(ascii key, jtext s)])))"
  using builds_put_string [OF assms, of ms] by (auto simp: builds_def)

lemma update_only_member:
  assumes "0 \<notin> set (ascii key)"
  shows "update_member (Some (jobj [(ascii key, v)])) key (Some w) = Some (Some (jobj [(ascii key, w)]))"
  using c_str_zero [OF assms] by (simp add: update_member_def jobj_def cbuf_def jstr_def str_equal_def)

lemma builds_error_data:
  assumes "clean (er_code err)" "clean (er_message err)" "clean (er_target err)" "clean (er_details err)"
  shows "builds (error_data err) (error_spec err)"
proof -
  have k: "0 \<notin> set (ascii ''error'')" "0 \<notin> set (ascii ''code'')" "0 \<notin> set (ascii ''message'')" "0 \<notin> set (ascii ''target'')"
      "0 \<notin> set (ascii ''details'')" by (simp_all add: ascii_def)
  have get: "mp_json_object_get (Some (jobj [(ascii ''error'', jobj [])])) (cbuf (ascii ''error'')) = Some (Some (jobj []))"
    using get_member_first [OF k(1) k(1)] by (simp add: jobj_def)
  let ?a = "[(ascii ''code'', jtext (er_code err)), (ascii ''message'', jtext (er_message err))]"
  let ?t = "if er_target err = None then [] else [(ascii ''target'', jtext (er_target err))]"
  let ?d = "if er_details err = None then [] else [(ascii ''details'', jtext (er_details err))]"
  have fin: "builds (\<lambda>h7. do { error_obj \<leftarrow> update_member (Some (jobj [(ascii ''error'', jobj [])])) ''error'' (Some (jobj (?a @ ?t @ ?d)));
      Some (error_obj, h7) }) (error_spec err)"
    unfolding update_only_member [OF k(1)] by (simp add: builds_def error_spec_def)
  have target: "builds (\<lambda>h5. if er_target err = None then Some (Some (jobj ?a), h5) else od_put_string (Some (jobj ?a)) ''target'' (er_target err) h5)
      (jobj (?a @ ?t))" using builds_if_put [OF assms(3) k(4), of ?a] .
  have details: "builds (\<lambda>h6. if er_details err = None then Some (Some (jobj (?a @ ?t)), h6)
      else od_put_string (Some (jobj (?a @ ?t))) ''details'' (er_details err) h6) (jobj (?a @ ?t @ ?d))"
    using builds_if_put [OF assms(4) k(5), of "?a @ ?t"] by simp
  have rest: "builds (\<lambda>h3. do { details \<leftarrow> mp_json_object_get (Some (jobj [(ascii ''error'', jobj [])])) (cbuf (ascii ''error''));
      (details, h4) \<leftarrow> od_put_string details ''code'' (er_code err) h3;
      (details, h5) \<leftarrow> od_put_string details ''message'' (er_message err) h4;
      (details, h6) \<leftarrow> (if er_target err = None then Some (details, h5) else od_put_string details ''target'' (er_target err) h5);
      (details, h7) \<leftarrow> (if er_details err = None then Some (details, h6) else od_put_string details ''details'' (er_details err) h6);
      error_obj \<leftarrow> update_member (Some (jobj [(ascii ''error'', jobj [])])) ''error'' details;
      Some (error_obj, h7) }) (error_spec err)"
    unfolding get bind.bind_lunit
    by (rule builds_then [OF builds_put_string [OF assms(1) k(2), of "[]", unfolded append_Nil]],
        rule builds_then [OF builds_put_string [OF assms(2) k(3), of "[(ascii ''code'', jtext (er_code err))]", unfolded append_Cons append_Nil]],
        rule builds_then [OF target], rule builds_then [OF details], rule fin)
  show ?thesis
    unfolding error_data_def
    by (rule builds_object, rule builds_object, rule builds_then [OF builds_put [OF k(1), of "[]", unfolded append_Nil]], rule rest)
qed

lemma create_error_works:
  assumes "heap_works h" "0 \<notin> set code" "0 \<notin> set message" "clean target" "clean details"
  shows "\<exists>h'. mp_odata_response_create_error (Some code) (Some message) target details status h =
      (let err = \<lparr>er_code = Some code, er_message = Some message, er_target = target, er_details = details, er_inner_error = None\<rparr>
       in Some (Some \<lparr>rs_data = Some (error_spec err), rs_content_type = Some (ascii ''application/json''),
                      rs_status_code = status, rs_error = Some err\<rparr>, h'))"
proof -
  have dup: "\<exists>g'. od_strdup s g = (Some s, g') \<and> heap_works g'" if "heap_works g" for s g
    using heap_works_malloc [OF that, of "length s + 1"] by (auto simp: od_strdup_def)
  have dup_opt: "\<exists>g'. od_strdup_opt s g = (s, g') \<and> heap_works g'" if "heap_works g" for s g
    using dup [OF that] that by (cases s) (auto simp: od_strdup_opt_def)
  have dup_or: "\<exists>g'. od_strdup_or d (Some s) g = (Some s, g') \<and> heap_works g'" if "heap_works g" for d s g
    using dup [OF that] by (simp add: od_strdup_or_def)
  obtain h1 where h1: "jh_malloc sizeof_odata_response h = (True, h1)" "heap_works h1" using heap_works_malloc [OF assms(1)] by blast
  obtain h2 where h2: "od_strdup (ascii ''application/json'') h1 = (Some (ascii ''application/json''), h2)" "heap_works h2"
    using dup [OF h1(2)] by blast
  obtain h3 where h3: "jh_malloc sizeof_odata_error h2 = (True, h3)" "heap_works h3" using heap_works_malloc [OF h2(2)] by blast
  obtain h4 where h4: "od_strdup_or (ascii ''500'') (Some code) h3 = (Some code, h4)" "heap_works h4" using dup_or [OF h3(2)] by blast
  obtain h5 where h5: "od_strdup_or (ascii ''Internal Server Error'') (Some message) h4 = (Some message, h5)" "heap_works h5"
    using dup_or [OF h4(2)] by blast
  obtain h6 where h6: "od_strdup_opt target h5 = (target, h6)" "heap_works h6" using dup_opt [OF h5(2)] by blast
  obtain h7 where h7: "od_strdup_opt details h6 = (details, h7)" "heap_works h7" using dup_opt [OF h6(2)] by blast
  let ?err = "\<lparr>er_code = Some code, er_message = Some message, er_target = target, er_details = details, er_inner_error = None\<rparr>"
  obtain h8 where "error_data ?err h7 = Some (Some (error_spec ?err), h8)"
    using buildsD [OF builds_error_data h7(2), of ?err] assms(2-5) by (auto simp: clean_def)
  then show ?thesis
    using h1(1) h2(1) h3(1) h4(1) h5(1) h6(1) h7(1) by (simp add: mp_odata_response_create_error_def Let_def)
qed

section \<open>Wrapped entities\<close>

definition url_of :: "cstring \<Rightarrow> cstring \<Rightarrow> cstring" where
  "url_of base name = base @ [ch_slash] @ name"

lemma builds_put_context:
  assumes "0 \<notin> set base" "0 \<notin> set name"
  shows "builds (put_context (Some (jobj ms)) (Some \<lparr>cx_base_url = Some base, cx_metadata_url = u, cx_service_root = r\<rparr>) (Some name))
    (jobj (ms @ [(ascii ''@odata.context'', jstr (url_of base name))]))"
  unfolding builds_def
proof (intro allI impI)
  fix h
  assume h: "heap_works h"
  let ?cx = "\<lparr>cx_base_url = Some base, cx_metadata_url = u, cx_service_root = r\<rparr>"
  have z: "0 \<notin> set (url_of base name)" "0 \<notin> set (ascii ''@odata.context'')" using assms by (auto simp: url_of_def ascii_def)
  obtain h1 where h1: "jh_malloc (length base + length name + 32) h = (True, h1)" "heap_works h1"
    using heap_works_malloc [OF h] by blast
  have url: "mp_odata_generate_context_url (Some ?cx) (Some name) h = Some (Some (url_of base name), h1)"
    using h1(1) by (simp add: mp_odata_generate_context_url_def Let_def printed_fits url_of_def)
  obtain h2 where h2: "mp_json_string (cbuf (url_of base name)) h1 = Some (Some (jstr (url_of base name)), h2)" "heap_works h2"
    using buildsD [OF builds_string [OF z(1)] h1(2)] by blast
  have "mp_odata_generate_context (Some ?cx) (Some name) h = Some (Some (jstr (url_of base name)), jh_free 1 h2)"
    using url h2(1) by (simp add: mp_odata_generate_context_def)
  moreover have "heap_works (jh_free 1 h2)" using h2(2) by simp
  ultimately show "\<exists>h'. put_context (Some (jobj ms)) (Some ?cx) (Some name) h =
      Some (Some (jobj (ms @ [(ascii ''@odata.context'', jstr (url_of base name))])), h') \<and> heap_works h'"
    using buildsD [OF builds_put [OF z(2)]] by (simp add: put_context_def)
qed

text \<open>A copied member: its key, and a value that compares equal.\<close>

definition same_member :: "json \<times> json \<Rightarrow> cstring \<times> json \<Rightarrow> bool" where
  "same_member m c \<longleftrightarrow> key_chars (fst m) = Some (fst c) \<and> json_equal (snd m) (snd c) = Some True"

definition plain_member :: "json \<times> json \<Rightarrow> bool" where
  "plain_member m \<longleftrightarrow> (case key_chars (fst m) of Some k \<Rightarrow> \<not> is_annotation k | None \<Rightarrow> False)"

lemma wrap_members_works:
  assumes "\<forall>(k, v) \<in> set ms. plain_key k \<and> copyable v" "heap_works h"
  shows "\<exists>cs h'. wrap_members D ms (Some (jobj acc)) h = Some (Some (jobj (acc @ cs)), h') \<and> heap_works h' \<and>
    list_all2 same_member (filter plain_member ms) cs"
  using assms
proof (induction ms arbitrary: acc h)
  case Nil
  then show ?case by (intro exI [of _ "[]"]) simp
next
  case (Cons m ms)
  obtain k v where m: "m = (k, v)" by force
  have kv: "plain_key k" "copyable v" using Cons.prems(1) m by auto
  obtain t n own where k: "k = J_string (Some t) n own" "t = take n t @ [0]" "0 \<notin> set (take n t)"
    using kv(1) by (cases k rule: plain_key.cases) auto
  define key where "key = take n t"
  have ck: "c_str (Some t) = Some key" "0 \<notin> set key" using k(2,3) c_str_zero [of key] by (simp_all add: key_def)
  have kc: "key_chars k = Some key" using k(1) ck by simp
  have rest: "\<forall>(k, v) \<in> set ms. plain_key k \<and> copyable v" using Cons.prems(1) by auto
  show ?case
  proof (cases "is_annotation key")
    case True
    then show ?thesis
      using Cons.IH [OF rest Cons.prems(2)] m k(1) ck(1) kc by (auto simp: mp_json_get_string_def plain_member_def)
  next
    case False
    obtain c h1 where c: "deep_copy D v h = Some (Some c, h1)" "heap_works h1" "json_equal v c = Some True"
      using copiesD [OF copyable_copies [OF kv(2)] Cons.prems(2)] by blast
    obtain h2 where h2: "od_put (Some (jobj acc)) (Some key) (Some c) h1 = Some (Some (jobj (acc @ [(key, c)])), h2)" "heap_works h2"
      using buildsD [OF builds_put [OF ck(2)] c(2)] by blast
    obtain cs h3 where h3: "wrap_members D ms (Some (jobj (acc @ [(key, c)]))) h2 = Some (Some (jobj ((acc @ [(key, c)]) @ cs)), h3)"
        "heap_works h3" "list_all2 same_member (filter plain_member ms) cs"
      using Cons.IH [OF rest h2(2)] by blast
    have "wrap_members D (m # ms) (Some (jobj acc)) h = Some (Some (jobj (acc @ (key, c) # cs)), h3)"
      using m k(1) ck(1) False c(1) h2(1) h3(1) by (simp add: mp_json_get_string_def mp_json_deep_copy_def)
    moreover have "list_all2 same_member (filter plain_member (m # ms)) ((key, c) # cs)"
      using m kc False c(3) h3(3) by (simp add: plain_member_def same_member_def)
    ultimately show ?thesis using h3(2) by blast
  qed
qed

text \<open>A wrapped entity: the context, then copies of the members that are not annotations.\<close>

definition wrapped :: "cstring \<Rightarrow> json option \<Rightarrow> json \<Rightarrow> bool" where
  "wrapped url e w \<longleftrightarrow>
     (\<exists>ms cap cs. e = Some (J_object ms cap) \<and> w = jobj ((ascii ''@odata.context'', jstr url) # cs) \<and>
        list_all2 same_member (filter plain_member ms) cs)"

definition entity_ok :: "json option \<Rightarrow> bool" where
  "entity_ok e \<longleftrightarrow> (\<exists>ms cap. e = Some (J_object ms cap) \<and> (\<forall>(k, v) \<in> set ms. plain_key k \<and> copyable v))"

abbreviation context_of :: "cstring \<Rightarrow> od_context option" where
  "context_of base \<equiv> Some \<lparr>cx_base_url = Some base, cx_metadata_url = None, cx_service_root = None\<rparr>"

lemma wrap_entity_works:
  assumes "0 \<notin> set base" "0 \<notin> set name" "entity_ok e" "heap_works h"
  shows "\<exists>w h'. mp_odata_wrap_entity_with_context D e (context_of base) (Some name) h = Some (Some w, h') \<and> heap_works h' \<and>
    wrapped (url_of base name) e w"
proof -
  obtain ms cap where e: "e = Some (J_object ms cap)" "\<forall>(k, v) \<in> set ms. plain_key k \<and> copyable v"
    using assms(3) by (auto simp: entity_ok_def)
  obtain h1 where h1: "mp_json_object h = (Some (jobj []), h1)" "heap_works h1"
    using new_value_works [OF assms(4), of "J_object [] 0"] by (auto simp: mp_json_object_def jobj_def)
  obtain h2 where h2: "put_context (Some (jobj [])) (context_of base) (Some name) h1 =
      Some (Some (jobj [(ascii ''@odata.context'', jstr (url_of base name))]), h2)" "heap_works h2"
    using buildsD [OF builds_put_context [OF assms(1,2), of "[]"] h1(2)] by auto
  show ?thesis
    using wrap_members_works [OF e(2) h2(2), of D "[(ascii ''@odata.context'', jstr (url_of base name))]"] h1(1) h2(1) e(1)
    by (fastforce simp: mp_odata_wrap_entity_with_context_def wrapped_def)
qed

lemma push_wrapped_works:
  assumes "0 \<notin> set base" "0 \<notin> set name" "\<forall>e \<in> set es. entity_ok e" "heap_works h"
  shows "\<exists>ws h'. push_wrapped D es (context_of base) (Some name) (Some (jarr acc)) h = Some (Some (jarr (acc @ ws)), h') \<and> heap_works h' \<and>
    list_all2 (wrapped (url_of base name)) es ws"
  using assms(3,4)
proof (induction es arbitrary: acc h)
  case Nil
  then show ?case by (intro exI [of _ "[]"]) simp
next
  case (Cons e es)
  obtain w h1 where w: "mp_odata_wrap_entity_with_context D e (context_of base) (Some name) h = Some (Some w, h1)" "heap_works h1"
      "wrapped (url_of base name) e w"
    using wrap_entity_works [OF assms(1,2) _ Cons.prems(2), of e D] Cons.prems(1) by auto
  obtain h2 where h2: "od_push (Some (jarr acc)) (Some w) h1 = (Some (jarr (acc @ [w])), h2)" "heap_works h2"
    using push_works [OF w(2)] by blast
  obtain ws h3 where h3: "push_wrapped D es (context_of base) (Some name) (Some (jarr (acc @ [w]))) h2 = Some (Some (jarr ((acc @ [w]) @ ws)), h3)"
      "heap_works h3" "list_all2 (wrapped (url_of base name)) es ws"
    using Cons.IH [OF _ h2(2), of "acc @ [w]"] Cons.prems(1) by auto
  have "push_wrapped D (e # es) (context_of base) (Some name) (Some (jarr acc)) h = Some (Some (jarr (acc @ w # ws)), h3)"
    using w(1) h2(1) h3(1) by simp
  then show ?case using h3(2,3) w(3) by blast
qed

text \<open>The document of a collection.\<close>

definition collection_spec :: "c_double \<Rightarrow> cstring \<Rightarrow> nat \<Rightarrow> json list \<Rightarrow> json" where
  "collection_spec D url n ws =
     jobj [(ascii ''@odata.context'', jstr url),
           (ascii ''@odata.count'', J_number (of_int64 D (of_nat n)) True (of_nat n)),
           (ascii ''value'', jarr ws)]"

lemma wrap_collection_works:
  assumes "0 \<notin> set base" "0 \<notin> set name" "\<forall>e \<in> set es. entity_ok e" "heap_works h"
  shows "\<exists>ws h'. mp_odata_wrap_collection_with_context D (Some es) (context_of base) (Some name) (int n) h =
      Some (Some (collection_spec D (url_of base name) n ws), h') \<and> heap_works h' \<and> list_all2 (wrapped (url_of base name)) es ws"
proof -
  let ?c = "(ascii ''@odata.context'', jstr (url_of base name))" and ?n = "(ascii ''@odata.count'', J_number (of_int64 D (of_nat n)) True (of_nat n))"
  have k: "0 \<notin> set (ascii ''@odata.count'')" "0 \<notin> set (ascii ''value'')" by (simp_all add: ascii_def)
  obtain h1 where h1: "mp_json_object h = (Some (jobj []), h1)" "heap_works h1"
    using new_value_works [OF assms(4), of "J_object [] 0"] by (auto simp: mp_json_object_def jobj_def)
  obtain h2 where h2: "put_context (Some (jobj [])) (context_of base) (Some name) h1 = Some (Some (jobj [?c]), h2)" "heap_works h2"
    using buildsD [OF builds_put_context [OF assms(1,2), of "[]"] h1(2)] by auto
  obtain h3 where h3: "create_json_integer D (word_of_int (int n)) h2 = (Some (J_number (of_int64 D (of_nat n)) True (of_nat n)), h3)" "heap_works h3"
    using new_value_works [OF h2(2)] by (auto simp: create_json_integer_def mp_json_integer_def)
  obtain h4 where h4: "od_put (Some (jobj [?c])) (Some (ascii ''@odata.count'')) (Some (snd ?n)) h3 = Some (Some (jobj [?c, ?n]), h4)" "heap_works h4"
    using buildsD [OF builds_put [OF k(1), of "[?c]"] h3(2)] by auto
  obtain h5 where h5: "mp_json_array h4 = (Some (jarr []), h5)" "heap_works h5"
    using new_value_works [OF h4(2), of "J_array [] 0"] by (auto simp: mp_json_array_def jarr_def)
  obtain ws h6 where h6: "push_wrapped D es (context_of base) (Some name) (Some (jarr [])) h5 = Some (Some (jarr ws), h6)" "heap_works h6"
      "list_all2 (wrapped (url_of base name)) es ws"
    using push_wrapped_works [OF assms(1-3) h5(2), of D "[]"] by auto
  obtain h7 where h7: "od_put (Some (jobj [?c, ?n])) (Some (ascii ''value'')) (Some (jarr ws)) h6 = Some (Some (jobj [?c, ?n, (ascii ''value'', jarr ws)]), h7)"
      "heap_works h7"
    using buildsD [OF builds_put [OF k(2), of "[?c, ?n]"] h6(2)] by auto
  show ?thesis
    using h1(1) h2(1) h3(1) h4(1) h5(1) h6 h7
    by (auto simp: mp_odata_wrap_collection_with_context_def collection_spec_def)
qed

section \<open>Selections\<close>

text \<open>An array of names without a \<open>NULL\<close> behind it, as the parser of query options makes them, is read past its end.\<close>

lemma select_members_unterminated: "select_members D e (map Some names) r h = None"
proof (induction names arbitrary: r h)
  case (Cons n names)
  then show ?case by (simp split: bind_splits option.splits)
qed simp

lemma odata_select_unterminated:
  assumes "jh_avail h (jh_calls h) sizeof_json_value"
  shows "mp_odata_apply_select D (Some (J_object es cap)) (Some (map Some names)) h = None"
  using assms select_members_unterminated
  by (cases names) (auto simp: mp_odata_apply_select_def mp_json_is_object_def has_type_def mp_json_get_type_def mp_json_object_def
      new_value_def jh_malloc_def Let_def split: bind_splits option.splits)

text \<open>The members that a terminated array selects.\<close>

definition selected_member :: "json \<Rightarrow> cstring \<Rightarrow> cstring \<times> json \<Rightarrow> bool" where
  "selected_member e name c \<longleftrightarrow> fst c = name \<and> (\<exists>v. mp_json_object_get (Some e) (cbuf name) = Some (Some v) \<and> json_equal v (snd c) = Some True)"

lemma select_members_works:
  assumes "\<forall>n \<in> set names. 0 \<notin> set n \<and> (\<exists>r. mp_json_object_get (Some e) (cbuf n) = Some r \<and> (\<forall>v. r = Some v \<longrightarrow> copyable v))" "heap_works h"
  shows "\<exists>cs h'. select_members D e (map Some names @ [None]) (Some (jobj acc)) h = Some (Some (jobj (acc @ cs)), h') \<and> heap_works h' \<and>
    list_all2 (selected_member e) (filter (\<lambda>n. mp_json_object_get (Some e) (cbuf n) \<noteq> Some None) names) cs"
  using assms
proof (induction names arbitrary: acc h)
  case Nil
  then show ?case by (intro exI [of _ "[]"]) simp
next
  case (Cons n names)
  obtain r where r: "0 \<notin> set n" "mp_json_object_get (Some e) (cbuf n) = Some r" "\<forall>v. r = Some v \<longrightarrow> copyable v"
    using Cons.prems(1) by auto
  have rest: "\<forall>n \<in> set names. 0 \<notin> set n \<and> (\<exists>r. mp_json_object_get (Some e) (cbuf n) = Some r \<and> (\<forall>v. r = Some v \<longrightarrow> copyable v))"
    using Cons.prems(1) by simp
  show ?case
  proof (cases r)
    case None
    then show ?thesis using Cons.IH [OF rest Cons.prems(2)] r(2) by simp
  next
    case (Some v)
    obtain c h1 where c: "deep_copy D v h = Some (Some c, h1)" "heap_works h1" "json_equal v c = Some True"
      using copiesD [OF copyable_copies Cons.prems(2)] r(3) Some by blast
    obtain h2 where h2: "od_put (Some (jobj acc)) (Some n) (Some c) h1 = Some (Some (jobj (acc @ [(n, c)])), h2)" "heap_works h2"
      using buildsD [OF builds_put [OF r(1)] c(2)] by blast
    obtain cs h3 where h3: "select_members D e (map Some names @ [None]) (Some (jobj (acc @ [(n, c)]))) h2 = Some (Some (jobj ((acc @ [(n, c)]) @ cs)), h3)"
        "heap_works h3" "list_all2 (selected_member e) (filter (\<lambda>n. mp_json_object_get (Some e) (cbuf n) \<noteq> Some None) names) cs"
      using Cons.IH [OF rest h2(2)] by blast
    have "select_members D e (map Some (n # names) @ [None]) (Some (jobj acc)) h = Some (Some (jobj (acc @ (n, c) # cs)), h3)"
      using Some r(2) c(1) h2(1) h3(1) by (simp add: mp_json_deep_copy_def)
    moreover have "list_all2 (selected_member e) (filter (\<lambda>n. mp_json_object_get (Some e) (cbuf n) \<noteq> Some None) (n # names)) ((n, c) # cs)"
      using Some r(2) c(3) h3(3) by (simp add: selected_member_def)
    ultimately show ?thesis using h3(2) by blast
  qed
qed

text \<open>\<open>$select\<close> with a terminated array: a new object with copies of exactly the members that exist, in the order of the
  selection, after the context annotation when the entity has one.\<close>

theorem odata_select:
  assumes "heap_works h" "names \<noteq> []" "\<forall>n \<in> set names. 0 \<notin> set n \<and> (\<exists>r. mp_json_object_get (Some (J_object es cap)) (cbuf n) = Some r \<and>
      (\<forall>v. r = Some v \<longrightarrow> copyable v))" and "mp_json_object_get (Some (J_object es cap)) (cbuf (ascii ''@odata.context'')) = Some None"
  shows "\<exists>cs h'. mp_odata_apply_select D (Some (J_object es cap)) (Some (map Some names @ [None])) h = Some (Some (jobj cs), False, h') \<and>
    list_all2 (selected_member (J_object es cap)) (filter (\<lambda>n. mp_json_object_get (Some (J_object es cap)) (cbuf n) \<noteq> Some None) names) cs"
proof -
  obtain h1 where h1: "mp_json_object h = (Some (jobj []), h1)" "heap_works h1"
    using new_value_works [OF assms(1), of "J_object [] 0"] by (auto simp: mp_json_object_def jobj_def)
  obtain n ns where n: "names = n # ns" using assms(2) by (cases names) auto
  obtain cs h2 where cs: "select_members D (J_object es cap) (map Some names @ [None]) (Some (jobj [])) h1 = Some (Some (jobj ([] @ cs)), h2)"
      "list_all2 (selected_member (J_object es cap)) (filter (\<lambda>n. mp_json_object_get (Some (J_object es cap)) (cbuf n) \<noteq> Some None) names) cs"
    using select_members_works [OF assms(3) h1(2), of D "[]"] by blast
  have "mp_odata_apply_select D (Some (J_object es cap)) (Some (map Some names @ [None])) h = Some (Some (jobj cs), False, h2)"
    using h1(1) cs(1) assms(4) unfolding n
    by (simp add: mp_odata_apply_select_def mp_json_is_object_def has_type_def mp_json_get_type_def del: select_members.simps)
  then show ?thesis using cs(2) by blast
qed

section \<open>Responses\<close>

definition named_sets :: "od_service \<Rightarrow> cstring set" where
  "named_sets s = {n. \<exists>es \<in> set (md_entity_sets (sv_metadata s)). os_name es = Some n}"

definition sets_named :: "od_service \<Rightarrow> bool" where
  "sets_named s \<longleftrightarrow> (\<forall>es \<in> set (md_entity_sets (sv_metadata s)). os_name es \<noteq> None)"

lemma find_entity_set_iff:
  "\<forall>es \<in> set sets. os_name es \<noteq> None \<Longrightarrow> find_entity_set sets name = Some (\<exists>es \<in> set sets. os_name es = Some name)"
  by (induction sets name rule: find_entity_set.induct) auto

text \<open>What the filter and the page leave of the entities.\<close>

definition selected :: "c_double \<Rightarrow> cstring option \<Rightarrow> json option list \<Rightarrow> json option list" where
  "selected D f es = (case f of None \<Rightarrow> es | Some g \<Rightarrow> filter (\<lambda>e. entity_passes D g e = Some True) es)"

definition window :: "int \<Rightarrow> int \<Rightarrow> 'a list \<Rightarrow> 'a list" where
  "window skip limit xs = (if limit = 0 then drop (nat skip) xs else take (nat limit) (drop (nat skip) xs))"

definition success :: "json \<Rightarrow> od_response" where
  "success d = \<lparr>rs_data = Some d, rs_content_type = Some (ascii ''application/json''), rs_status_code = 200, rs_error = None\<rparr>"

definition failure :: "string \<Rightarrow> string \<Rightarrow> cstring option \<Rightarrow> u16 \<Rightarrow> od_response" where
  "failure code message target status =
     (let err = \<lparr>er_code = Some (ascii code), er_message = Some (ascii message), er_target = target, er_details = None, er_inner_error = None\<rparr>
      in \<lparr>rs_data = Some (error_spec err), rs_content_type = Some (ascii ''application/json''), rs_status_code = status, rs_error = Some err\<rparr>)"

text \<open>A query with a filter or none, no order, and a page.\<close>

definition page_query :: "cstring option \<Rightarrow> int \<Rightarrow> int \<Rightarrow> od_query_options" where
  "page_query f limit skip = blank_options\<lparr>qo_filter := f, qo_top := limit, qo_top_set := True, qo_skip := skip, qo_skip_set := True\<rparr>"

lemma run_filter_works:
  assumes "heap_works h" "\<forall>g. f = Some g \<longrightarrow> 0 \<notin> set g \<and> (\<forall>e \<in> set es. entity_passes D g e \<noteq> None)" "es \<noteq> []"
  shows "\<exists>r h'. run_filter D (Some es) (Some (page_query f limit skip)) h = Some (r, h') \<and> heap_works h' \<and>
    (case r of None \<Rightarrow> Some es | Some l \<Rightarrow> l) = Some (selected D f es)"
proof (cases f)
  case None
  then show ?thesis using assms(1) by (simp add: run_filter_def page_query_def blank_options_def selected_def)
next
  case (Some g)
  obtain h1 where "mp_odata_apply_filter D (Some es) (Some g) h = Some (0, filter (\<lambda>e. entity_passes D g e = Some True) es, h1)" "heap_works h1"
    using apply_filter_works [OF assms(1) _ _ assms(3), of g D] assms(2) Some by blast
  then show ?thesis using Some by (simp add: run_filter_def page_query_def blank_options_def selected_def)
qed

lemma run_paging_works:
  assumes "heap_works h" "(case r of None \<Rightarrow> Some es | Some l \<Rightarrow> l) = Some xs" "length xs < 2 ^ 32" "0 \<le> skip" "0 \<le> limit" "skip + limit < 2 ^ 32"
  shows "\<exists>r' h'. run_paging (Some es) r (Some (page_query f limit skip)) h = Some (r', h') \<and> heap_works h' \<and>
    (case r' of None \<Rightarrow> Some es | Some l \<Rightarrow> l) = (if xs \<noteq> [] \<and> skip \<ge> int (length xs) then None else Some (window skip limit xs))"
proof (cases "xs = []")
  case True
  have "mp_odata_apply_paging (Some xs) limit skip h = (-1, None, 0, h)" using True by (simp add: mp_odata_apply_paging_def)
  then show ?thesis using True assms(1,2) by (simp add: run_paging_def page_query_def blank_options_def window_def)
next
  case False
  have b: "limit < 2 ^ 32" "skip < 2 ^ 32" using assms(4-6) by linarith+
  have works: "heap_works h'" if "mp_odata_apply_paging (Some xs) limit skip h = (ret, p, n, h')" for ret p n h'
    using that assms(1) by (auto simp: mp_odata_apply_paging_def Let_def jh_malloc_def heap_works_def split: if_splits)
  obtain h' where h': "mp_odata_apply_paging (Some xs) limit skip h = (0, if skip \<ge> int (length xs) then None else Some (window skip limit xs),
      if skip \<ge> int (length xs) then 0 else of_nat (length (window skip limit xs)), h')" "heap_works h'"
    using apply_paging_works [OF assms(1) False assms(3-5) b] assms(6) works unfolding window_def Let_def by blast
  have "length (window skip limit xs) \<le> length xs" by (auto simp: window_def)
  then have n: "unat (of_nat (length (window skip limit xs)) :: size_t) = length (window skip limit xs)"
    using assms(3) by (simp add: unat_of_nat)
  have live: "heap_works (case r of Some (Some f) \<Rightarrow> jh_free 1 h' | _ \<Rightarrow> h')" using h'(2) by (simp split: option.splits)
  show ?thesis
    using False h'(1) n live assms(2)
    by (auto simp: run_paging_def page_query_def blank_options_def)
qed

text \<open>C23.  The response to a query.  For a query with or without filter, with a page whose bounds fit in 32 bits and a
  heap that works: an unknown entity set gives the 404 error document; a page that starts behind the last selected
  entity gives not an empty page but the error 500; and every other query gives status 200 and the collection of the
  context URL, a count, and the copies of exactly the entities of the page, each with its own context and without its
  annotations.  The count is that of all entities, before the filter, and is there whether or not \<open>$count\<close> asked for
  it.\<close>

theorem odata_response:
  assumes "heap_works h" "sets_named s" "0 \<notin> set base" "0 \<notin> set name" "es \<noteq> []" "length es < 2 ^ 32" "\<forall>e \<in> set es. entity_ok e"
    and "\<forall>g. f = Some g \<longrightarrow> 0 \<notin> set g \<and> (\<forall>e \<in> set es. entity_passes D g e \<noteq> None)"
    and "0 \<le> skip" "0 \<le> limit" "skip + limit < 2 ^ 32"
  shows "(name \<notin> named_sets s \<longrightarrow>
      (\<exists>h'. mp_odata_generate_response D (Some s) (Some name) (Some es) (Some (page_query f limit skip)) (context_of base) h =
        Some (Some (failure ''404'' ''Entity set not found'' (Some name) 404), Some es, h'))) \<and>
    (name \<in> named_sets s \<longrightarrow> selected D f es \<noteq> [] \<longrightarrow> skip \<ge> int (length (selected D f es)) \<longrightarrow>
      (\<exists>h'. mp_odata_generate_response D (Some s) (Some name) (Some es) (Some (page_query f limit skip)) (context_of base) h =
        Some (Some (failure ''500'' ''Failed to create response'' None 500), Some es, h'))) \<and>
    (name \<in> named_sets s \<longrightarrow> selected D f es = [] \<or> skip < int (length (selected D f es)) \<longrightarrow>
      (\<exists>ws h'. mp_odata_generate_response D (Some s) (Some name) (Some es) (Some (page_query f limit skip)) (context_of base) h =
        Some (Some (success (collection_spec D (url_of base name) (length es) ws)), Some es, h') \<and>
        list_all2 (wrapped (url_of base name)) (window skip limit (selected D f es)) ws))"
proof -
  let ?opt = "page_query f limit skip" and ?xs = "selected D f es"
  have found: "find_entity_set (md_entity_sets (sv_metadata s)) name = Some (name \<in> named_sets s)"
    using find_entity_set_iff [of "md_entity_sets (sv_metadata s)" name] assms(2) by (auto simp: sets_named_def named_sets_def)
  have order: "run_orderby (Some es) r (Some ?opt) = Some (Some es, r)" for r
    by (simp add: run_orderby_def page_query_def blank_options_def)
  obtain r h1 where r: "run_filter D (Some es) (Some ?opt) h = Some (r, h1)" "heap_works h1" "(case r of None \<Rightarrow> Some es | Some l \<Rightarrow> l) = Some ?xs"
    using run_filter_works [OF assms(1,8,5), of limit skip] by blast
  have sub: "length ?xs \<le> length es" "set ?xs \<subseteq> set es" by (auto simp: selected_def split: option.splits)
  obtain r' h2 where r': "run_paging (Some es) r (Some ?opt) h1 = Some (r', h2)" "heap_works h2"
      "(case r' of None \<Rightarrow> Some es | Some l \<Rightarrow> l) = (if ?xs \<noteq> [] \<and> skip \<ge> int (length ?xs) then None else Some (window skip limit ?xs))"
    using run_paging_works [OF r(2,3) _ assms(9-11), of f] sub(1) assms(6) by auto
  define h3 where "h3 = (\<lambda>g. case r' of Some (Some f) \<Rightarrow> jh_free 1 g | _ \<Rightarrow> g)"
  have h3: "heap_works (h3 g)" if "heap_works g" for g using that by (simp add: h3_def split: option.splits)
  have c: "clean None" "clean (Some name)" using assms(4) by (simp_all add: clean_def)
  have z: "0 \<notin> set (ascii ''404'')" "0 \<notin> set (ascii ''Entity set not found'')" "0 \<notin> set (ascii ''500'')"
      "0 \<notin> set (ascii ''Failed to create response'')" by (simp_all add: ascii_def)
  have gen: "mp_odata_generate_response D (Some s) (Some name) (Some es) (Some ?opt) (context_of base) h =
      do { (data, g) \<leftarrow> mp_odata_wrap_collection_with_context D (case r' of None \<Rightarrow> Some es | Some f \<Rightarrow> f) (context_of base) (Some name) (int (length es)) h2;
           case data of
             None \<Rightarrow> do { (r, h5) \<leftarrow> mp_odata_response_create_error (Some (ascii ''500'')) (Some (ascii ''Failed to create response'')) None None 500 (h3 g);
                         Some (r, Some es, h5) }
           | Some d \<Rightarrow> (case mp_odata_response_create (Some d) (Some (ascii ''application/json'')) 200 (h3 g) of (r, h5) \<Rightarrow> Some (r, Some es, h5)) }"
    if "name \<in> named_sets s"
    unfolding h3_def Let_def mp_odata_generate_response_def using found r(1) order r'(1) that by simp
  show ?thesis
  proof (intro conjI impI)
    assume "name \<notin> named_sets s"
    then show "\<exists>h'. mp_odata_generate_response D (Some s) (Some name) (Some es) (Some ?opt) (context_of base) h =
        Some (Some (failure ''404'' ''Entity set not found'' (Some name) 404), Some es, h')"
      using found create_error_works [OF assms(1) z(1,2) c(2) c(1), of 404]
      by (auto simp: mp_odata_generate_response_def failure_def Let_def)
  next
    assume n: "name \<in> named_sets s" and x: "?xs \<noteq> []" "skip \<ge> int (length ?xs)"
    have "mp_odata_wrap_collection_with_context D (case r' of None \<Rightarrow> Some es | Some f \<Rightarrow> f) (context_of base) (Some name) (int (length es)) h2 = Some (None, h2)"
      using r'(3) x by (simp add: mp_odata_wrap_collection_with_context_def)
    then show "\<exists>h'. mp_odata_generate_response D (Some s) (Some name) (Some es) (Some ?opt) (context_of base) h =
        Some (Some (failure ''500'' ''Failed to create response'' None 500), Some es, h')"
      using gen [OF n] create_error_works [OF h3 [OF r'(2)] z(3,4) c(1) c(1), of 500] by (auto simp: failure_def Let_def)
  next
    assume n: "name \<in> named_sets s" and x: "?xs = [] \<or> skip < int (length ?xs)"
    have w: "(case r' of None \<Rightarrow> Some es | Some f \<Rightarrow> f) = Some (window skip limit ?xs)" using r'(3) x by auto
    have "set (window skip limit ?xs) \<subseteq> set es"
      using sub(2) unfolding window_def by (auto dest!: in_set_takeD in_set_dropD)
    then have ok: "\<forall>e \<in> set (window skip limit ?xs). entity_ok e" using assms(7) by auto
    obtain ws g where ws: "mp_odata_wrap_collection_with_context D (Some (window skip limit ?xs)) (context_of base) (Some name) (int (length es)) h2 =
        Some (Some (collection_spec D (url_of base name) (length es) ws), g)" "heap_works g" "list_all2 (wrapped (url_of base name)) (window skip limit ?xs) ws"
      using wrap_collection_works [OF assms(3,4) ok r'(2), of D "length es"] by blast
    have "\<exists>g'. mp_odata_response_create (Some d) (Some (ascii ''application/json'')) 200 (h3 g) = (Some (success d), g')" for d
      using h3 [OF ws(2)]
      by (simp add: mp_odata_response_create_def od_strdup_or_def od_strdup_def success_def jh_malloc_def heap_works_def)
    then obtain g' where "mp_odata_response_create (Some (collection_spec D (url_of base name) (length es) ws)) (Some (ascii ''application/json'')) 200 (h3 g) =
        (Some (success (collection_spec D (url_of base name) (length es) ws)), g')" by blast
    then show "\<exists>ws h'. mp_odata_generate_response D (Some s) (Some name) (Some es) (Some ?opt) (context_of base) h =
        Some (Some (success (collection_spec D (url_of base name) (length es) ws)), Some es, h') \<and>
        list_all2 (wrapped (url_of base name)) (window skip limit ?xs) ws"
      using gen [OF n] w ws(1,3) by auto
  qed
qed

abbreviation any_heap :: json_heap where
  "any_heap \<equiv> \<lparr>jh_avail = (\<lambda>k n. True), jh_calls = 0, jh_live = 0\<rparr>"

lemma odata_response_witness:
  "\<exists>h'. mp_odata_generate_response plain_double (Some \<lparr>sv_name = None, sv_namespace = None, sv_version = None,
        sv_metadata = blank_metadata\<lparr>md_entity_sets := [\<lparr>os_name = Some (ascii ''S''), os_entity_type = None, os_count = 0, os_data = None\<rparr>]\<rparr>\<rparr>)
      (Some (ascii ''S'')) (Some [Some (J_object [] 0)]) (Some (page_query None 5 1)) (context_of (ascii ''http://h'')) any_heap =
    Some (Some (failure ''500'' ''Failed to create response'' None 500), Some [Some (J_object [] 0)], h')"
  using odata_response [of any_heap "\<lparr>sv_name = None, sv_namespace = None, sv_version = None,
        sv_metadata = blank_metadata\<lparr>md_entity_sets := [\<lparr>os_name = Some (ascii ''S''), os_entity_type = None, os_count = 0, os_data = None\<rparr>]\<rparr>\<rparr>"
      "ascii ''http://h''" "ascii ''S''" "[Some (J_object [] 0)]" None plain_double 1 5]
  by (simp add: heap_works_def sets_named_def named_sets_def entity_ok_def selected_def ascii_def)

end
