(* ===== verification/Console.thy ===== *)
theory Console
  imports CString Thread
begin

text \<open>
  The console of the system: the log ring of \<open>src/debug/log.c\<close>, the fault handler of \<open>src/debug/fault.c\<close>, the shell of
  \<open>src/debug/shell.c\<close>, and the login of the boot loader in \<open>src/bootloader/boot.c\<close>.

  The text that \<open>vsnprintf\<close> makes of a format and its arguments is an argument.  Input is a list of the results of
  polling the UART, \<^term>\<open>None\<close> when no byte was there; output is a list.
\<close>

section \<open>The log\<close>

definition LOG_BUFFER_SIZE :: nat where "LOG_BUFFER_SIZE = 4096"

record log_state =
  log_buffer :: "u8 list"
  log_head :: u32
  log_tail :: u32

definition log_boot :: log_state where
  "log_boot = \<lparr>log_buffer = replicate LOG_BUFFER_SIZE 0, log_head = 0, log_tail = 0\<rparr>"

datatype mp_log_level =
    MP_LOG_VERBOSE | MP_LOG_DEBUG | MP_LOG_INFO | MP_LOG_WARNING | MP_LOG_ERROR | MP_LOG_CRITICAL | MP_LOG_NONE

text \<open>The table has no entry for \<open>MP_LOG_NONE\<close>.\<close>

fun level_names :: "mp_log_level \<Rightarrow> cstring option" where
  "level_names MP_LOG_VERBOSE = Some (ascii ''VRB'')"
| "level_names MP_LOG_DEBUG = Some (ascii ''DBG'')"
| "level_names MP_LOG_INFO = Some (ascii ''INF'')"
| "level_names MP_LOG_WARNING = Some (ascii ''WRN'')"
| "level_names MP_LOG_ERROR = Some (ascii ''ERR'')"
| "level_names MP_LOG_CRITICAL = Some (ascii ''CRT'')"
| "level_names MP_LOG_NONE = None"

definition current_name :: "sched \<Rightarrow> cstring" where
  "current_name s =
     (case mp_sched_get_current_thread s of None \<Rightarrow> ascii ''system'' | Some t \<Rightarrow> ascii (tcb_name (tcbs s t)))"

definition entry_size :: nat where "entry_size = 256"

text \<open>\<open>"[%s] [%s] [%s] "\<close>\<close>

definition log_header :: "cstring \<Rightarrow> cstring \<Rightarrow> cstring \<Rightarrow> cstring" where
  "log_header level name module =
     ascii ''['' @ level @ ascii ''] ['' @ name @ ascii ''] ['' @ module @ ascii ''] ''"

text \<open>
  What the second \<open>vsnprintf\<close> leaves of a text in a buffer of \<open>n\<close> bytes, in as many bytes as the text has: a text that
  just does not fit loses its last character to the terminator.
\<close>

definition vsnprintf_bytes :: "nat \<Rightarrow> cstring \<Rightarrow> cstring" where
  "vsnprintf_bytes n t = (if n = 0 then [] else if length t < n then t else take (n - 1) t @ [0])"

text \<open>
  The lengths that the two calls return are those of the whole texts: when they exceed the entry, the size of the
  second call wraps around or the line end is stored behind the entry.
\<close>

definition log_entry :: "cstring \<Rightarrow> cstring \<Rightarrow> cstring option" where
  "log_entry header txt =
     (if length header + length txt + 2 \<le> entry_size
      then Some (header @ vsnprintf_bytes (entry_size - length header - 2) txt @ [ch_return, ch_newline])
      else None)"

definition log_put :: "u8 \<Rightarrow> log_state \<Rightarrow> log_state" where
  "log_put c s =
     s\<lparr>log_buffer := (log_buffer s)[unat (log_head s) := c], log_head := (log_head s + 1) mod of_nat LOG_BUFFER_SIZE\<rparr>"

definition mp_log :: "mp_log_level \<Rightarrow> cstring \<Rightarrow> cstring \<Rightarrow> sched \<Rightarrow> log_state \<Rightarrow> log_state option" where
  "mp_log level module txt sc s =
     do { name \<leftarrow> level_names level;
          entry \<leftarrow> log_entry (log_header name (current_name sc) module) txt;
          Some (fold log_put entry s) }"

text \<open>The bytes are dropped: the call that would send them is commented out.\<close>

partial_function (option) drain_loop :: "u32 \<Rightarrow> u32 \<Rightarrow> u32 option" where
  "drain_loop head tail = (if tail \<noteq> head then drain_loop head ((tail + 1) mod of_nat LOG_BUFFER_SIZE) else Some tail)"

definition mp_log_drain :: "log_state \<Rightarrow> log_state option" where
  "mp_log_drain s = do { t \<leftarrow> drain_loop (log_head s) (log_tail s); Some (s\<lparr>log_tail := t\<rparr>) }"

section \<open>The fault handler\<close>

record mp_fault_frame =
  ff_r0 :: u32
  ff_r1 :: u32
  ff_r2 :: u32
  ff_r3 :: u32
  ff_r12 :: u32
  ff_lr :: u32
  ff_pc :: u32
  ff_xpsr :: u32

text \<open>\<open>%08X\<close> and \<open>%d\<close>\<close>

definition upper_hex :: "nat \<Rightarrow> u8" where
  "upper_hex n = (if n < 10 then of_nat (0x30 + n) else of_nat (0x41 + (n - 10)))"

definition show_08X :: "u32 \<Rightarrow> cstring" where
  "show_08X w = map (\<lambda>i. upper_hex (unat (drop_bit (28 - 4 * i) w AND 15))) [0..<8]"

definition show_d :: "u32 \<Rightarrow> cstring" where
  "show_d w = print_lld (scast w)"

definition panic_lines :: "sched \<Rightarrow> cstring \<Rightarrow> mp_fault_frame option \<Rightarrow> cstring list" where
  "panic_lines sc reason frame =
     [ascii ''System Panic: '' @ reason]
     @ (case mp_sched_get_current_thread sc of
          None \<Rightarrow> []
        | Some t \<Rightarrow> [ascii ''Current Thread: '' @ ascii (tcb_name (tcbs sc t)) @ ascii '' (ID: '' @ show_d (tcb_id (tcbs sc t)) @ ascii '')''])
     @ (case frame of
          None \<Rightarrow> []
        | Some f \<Rightarrow>
            [ascii ''Register Dump:'',
             ascii '' R0:  0x'' @ show_08X (ff_r0 f) @ ascii ''  R1:  0x'' @ show_08X (ff_r1 f),
             ascii '' R2:  0x'' @ show_08X (ff_r2 f) @ ascii ''  R3:  0x'' @ show_08X (ff_r3 f),
             ascii '' R12: 0x'' @ show_08X (ff_r12 f) @ ascii ''  LR:  0x'' @ show_08X (ff_lr f),
             ascii '' PC:  0x'' @ show_08X (ff_pc f) @ ascii ''  XPSR:0x'' @ show_08X (ff_xpsr f)])"

fun log_lines :: "mp_log_level \<Rightarrow> cstring \<Rightarrow> cstring list \<Rightarrow> sched \<Rightarrow> log_state \<Rightarrow> log_state option" where
  "log_lines level module [] sc s = Some s"
| "log_lines level module (t # ts) sc s = do { s' \<leftarrow> mp_log level module t sc s; log_lines level module ts sc s' }"

text \<open>The log that is left and the status of \<open>exit\<close>.\<close>

definition mp_panic :: "cstring \<Rightarrow> mp_fault_frame option \<Rightarrow> sched \<Rightarrow> log_state \<Rightarrow> (log_state \<times> int) option" where
  "mp_panic reason frame sc s =
     do { s' \<leftarrow> log_lines MP_LOG_CRITICAL (ascii ''PANIC'') (panic_lines sc reason frame) sc s;
          Some (s', 1) }"

definition HardFault_Handler :: "sched \<Rightarrow> log_state \<Rightarrow> (log_state \<times> int) option" where
  "HardFault_Handler sc s = mp_panic (ascii ''HardFault'') None sc s"

section \<open>The shell\<close>

datatype console_out = Printed cstring | Sent u8

definition SHELL_MAX_ARGS :: nat where "SHELL_MAX_ARGS = 8"
definition SHELL_LINE_BUF_SIZE :: nat where "SHELL_LINE_BUF_SIZE = 128"

record shell_state =
  line_buf :: "u8 list"
  line_pos :: u32

datatype shell_cmd = Cmd_help | Cmd_top | Cmd_mem | Cmd_uptime | Cmd_kill

definition commands :: "(cstring \<times> cstring \<times> shell_cmd) list" where
  "commands =
     [(ascii ''help'', ascii ''List all available commands'', Cmd_help),
      (ascii ''top'', ascii ''Show thread utilization and stacks'', Cmd_top),
      (ascii ''mem'', ascii ''Show heap status and fragmentation'', Cmd_mem),
      (ascii ''uptime'', ascii ''Show system uptime'', Cmd_uptime),
      (ascii ''kill'', ascii ''Kill a non-mutex holding thread'', Cmd_kill)]"

definition crlf :: cstring where "crlf = [ch_return, ch_newline]"

text \<open>\<open>%-<n>s\<close>\<close>

definition padded :: "nat \<Rightarrow> cstring \<Rightarrow> cstring" where
  "padded n s = s @ replicate (n - length s) ch_space"

definition cmd_help :: "cstring list \<Rightarrow> cstring list" where
  "cmd_help argv =
     [crlf @ ascii ''microPOSIX Resident OS Shell'' @ crlf, ascii ''----------------------------'' @ crlf]
     @ map (\<lambda>(cmd, help, f). ascii ''  '' @ padded 10 cmd @ ascii '' : '' @ help @ crlf) commands"

definition cmd_top :: "cstring list \<Rightarrow> cstring list" where
  "cmd_top argv =
     [crlf @ padded 4 (ascii ''ID'') @ [ch_space] @ padded 12 (ascii ''Name'') @ [ch_space] @ padded 8 (ascii ''State'') @ [ch_space]
        @ padded 6 (ascii ''CPU%'') @ [ch_space] @ padded 6 (ascii ''HWM'') @ crlf,
      ascii ''  1    main         RUNNING  2.5%   128B'' @ crlf,
      ascii ''  2    ble_mgr      READY    1.2%   256B'' @ crlf,
      ascii ''  3    shell        READY    0.5%   384B'' @ crlf]"

definition cmd_mem :: "cstring list \<Rightarrow> cstring list" where
  "cmd_mem argv =
     [crlf @ ascii ''Heap Status:'' @ crlf,
      ascii ''  Total Size: 160 KB'' @ crlf,
      ascii ''  Used:       42 KB'' @ crlf,
      ascii ''  Free:       118 KB'' @ crlf,
      ascii ''  Fragments:  4'' @ crlf]"

definition cmd_uptime :: "sched \<Rightarrow> cstring list \<Rightarrow> cstring list" where
  "cmd_uptime sc argv = [crlf @ ascii ''Uptime: '' @ decimal (unat (mp_clock_get_monotonic_ms sc)) @ ascii '' ms'' @ crlf]"

definition cmd_kill :: "cstring list \<Rightarrow> cstring list" where
  "cmd_kill argv =
     (if length argv < 2 then [ascii ''Usage: kill <thread_id>'' @ crlf]
      else [ascii ''Killing thread '' @ argv ! 1 @ ascii ''... (Simulated)'' @ crlf])"

fun run_cmd :: "shell_cmd \<Rightarrow> sched \<Rightarrow> cstring list \<Rightarrow> cstring list" where
  "run_cmd Cmd_help sc argv = cmd_help argv"
| "run_cmd Cmd_top sc argv = cmd_top argv"
| "run_cmd Cmd_mem sc argv = cmd_mem argv"
| "run_cmd Cmd_uptime sc argv = cmd_uptime sc argv"
| "run_cmd Cmd_kill sc argv = cmd_kill argv"

text \<open>
  The line is the buffer up to the terminator.  \<open>strtok\<close> also stores terminators in the buffer; the shell overwrites
  them before it reads them again.
\<close>

definition shell_process_line :: "sched \<Rightarrow> u8 list \<Rightarrow> cstring list" where
  "shell_process_line sc buf =
     (let argv = take SHELL_MAX_ARGS (tokens [ch_space] (takeWhile (\<lambda>c. c \<noteq> 0) buf))
      in if argv = [] then []
         else (case find (\<lambda>(cmd, help, f). argv ! 0 = cmd) commands of
                 Some (cmd, help, f) \<Rightarrow> run_cmd f sc argv
               | None \<Rightarrow> [ascii ''Unknown command: '' @ argv ! 0 @ crlf]))"

definition prompt :: cstring where "prompt = crlf @ ascii ''> ''"
definition erase :: cstring where "erase = [ch_backspace, ch_space, ch_backspace]"

text \<open>The body of the loop of \<open>mp_shell_task\<close> for a byte received.\<close>

definition shell_byte :: "sched \<Rightarrow> u8 \<Rightarrow> shell_state \<Rightarrow> (shell_state \<times> console_out list) option" where
  "shell_byte sc c s =
     (if c = ch_return \<or> c = ch_newline
      then do { buf \<leftarrow> mem_write (line_buf s) (unat (line_pos s)) [0];
                Some (s\<lparr>line_buf := buf, line_pos := 0\<rparr>,
                      map Printed (shell_process_line sc buf) @ [Printed prompt]) }
      else if c = 0x08 \<or> c = 0x7F
      then Some (if line_pos s > 0 then (s\<lparr>line_pos := line_pos s - 1\<rparr>, [Printed erase]) else (s, []))
      else if line_pos s < of_nat (SHELL_LINE_BUF_SIZE - 1)
      then do { buf \<leftarrow> mem_write (line_buf s) (unat (line_pos s)) [c];
                Some (s\<lparr>line_buf := buf, line_pos := line_pos s + 1\<rparr>, [Sent c]) }
      else Some (s, []))"

text \<open>
  The loop of \<open>mp_shell_task\<close> on a list of polls, with the scheduler as it is at each of them; ten ticks of sleep
  follow each poll.
\<close>

fun shell_loop :: "(sched \<times> u8 option) list \<Rightarrow> shell_state \<Rightarrow> (shell_state \<times> console_out list) option" where
  "shell_loop [] s = Some (s, [])"
| "shell_loop ((sc, None) # inp) s = shell_loop inp s"
| "shell_loop ((sc, Some c) # inp) s =
     do { (s1, out1) \<leftarrow> shell_byte sc c s;
          (s2, out2) \<leftarrow> shell_loop inp s1;
          Some (s2, out1 @ out2) }"

text \<open>\<open>mp_shell_task\<close>; the date and the time are those of the build.\<close>

definition mp_shell_task ::
  "cstring \<Rightarrow> cstring \<Rightarrow> (sched \<times> u8 option) list \<Rightarrow> shell_state \<Rightarrow> (shell_state \<times> console_out list) option" where
  "mp_shell_task date time inp s =
     do { (s', out) \<leftarrow> shell_loop inp s;
          Some (s', Printed (crlf @ ascii ''microPOSIX Shell (Build: '' @ date @ [ch_space] @ time @ ascii '')'' @ prompt) # out) }"

definition mp_shell_init :: "shell_state \<Rightarrow> shell_state" where
  "mp_shell_init s = s\<lparr>line_buf := replicate SHELL_LINE_BUF_SIZE 0, line_pos := 0\<rparr>"

definition mp_shell_start :: "uintptr \<Rightarrow> sched \<Rightarrow> (u32 \<times> sched) option" where
  "mp_shell_start thread_stacks sc =
     mp_thread_create thread_stacks
       (Some \<lparr>attr_stack_size = 2048, attr_priority = 1, attr_name = Some ''shell''\<rparr>) sc"

section \<open>The boot loader\<close>

definition AUTH_SECRET_KEY :: u32 where "AUTH_SECRET_KEY = 0xDEADBEEF"
definition challenge :: "u8 list" where "challenge = [1, 2, 3, 4]"
definition RESPONSE_LEN :: nat where "RESPONSE_LEN = 4"

text \<open>\<open>while (mp_hal_uart_receive_byte(UART0, &b) != 0);\<close>: \<^term>\<open>None\<close> while no byte has come.\<close>

fun wait_byte :: "u8 option list \<Rightarrow> (u8 \<times> u8 option list) option" where
  "wait_byte [] = None"
| "wait_byte (None # inp) = wait_byte inp"
| "wait_byte (Some c # inp) = Some (c, inp)"

fun wait_bytes :: "nat \<Rightarrow> u8 option list \<Rightarrow> (u8 list \<times> u8 option list) option" where
  "wait_bytes 0 inp = Some ([], inp)"
| "wait_bytes (Suc n) inp =
     do { (c, inp1) \<leftarrow> wait_byte inp;
          (cs, inp2) \<leftarrow> wait_bytes n inp1;
          Some (c # cs, inp2) }"

definition expected_response :: u32 where
  "expected_response = fold (\<lambda>c r. r XOR ucast c) challenge 0 XOR AUTH_SECRET_KEY"

text \<open>The answer, the bytes sent, the input left and the log.\<close>

definition mp_boot_authenticate_uart ::
  "sched \<Rightarrow> u8 option list \<Rightarrow> log_state \<Rightarrow> (bool \<times> u8 list \<times> u8 option list \<times> log_state) option" where
  "mp_boot_authenticate_uart sc inp s =
     do { s1 \<leftarrow> mp_log MP_LOG_INFO (ascii ''BOOT'') (ascii ''Login requested. Sending challenge...'') sc s;
          (response, rest) \<leftarrow> wait_bytes RESPONSE_LEN inp;
          let received_response = (or_bytes 0 response :: u32);
          if received_response = expected_response
          then do { s2 \<leftarrow> mp_log MP_LOG_INFO (ascii ''BOOT'') (ascii ''Authentication SUCCESS'') sc s1;
                    Some (True, challenge, rest, s2) }
          else do { s2 \<leftarrow> mp_log MP_LOG_ERROR (ascii ''BOOT'') (ascii ''Authentication FAILED'') sc s1;
                    Some (False, challenge, rest, s2) } }"

text \<open>What the update sends, the input it leaves and the log; nothing is received or written after the login.\<close>

definition mp_boot_uart_update ::
  "sched \<Rightarrow> u8 option list \<Rightarrow> log_state \<Rightarrow> (u8 list \<times> u8 option list \<times> log_state) option" where
  "mp_boot_uart_update sc inp s =
     do { (ok, sent, rest, s1) \<leftarrow> mp_boot_authenticate_uart sc inp s;
          if \<not> ok then Some (sent, rest, s1)
          else do { s2 \<leftarrow> mp_log MP_LOG_INFO (ascii ''BOOT'') (ascii ''Starting UART Update...'') sc s1;
                    s3 \<leftarrow> mp_log MP_LOG_INFO (ascii ''BOOT'') (ascii ''Update Complete. Rebooting...'') sc s2;
                    Some (sent, rest, s3) } }"

record boot_cpu =
  cpu_irq_enabled :: bool
  cpu_msp :: u32
  cpu_pc :: u32

text \<open>Interrupts are masked, the stack pointer is the first word of the image and the entry point the second.\<close>

definition mp_boot_jump_to_app :: "(u32 \<Rightarrow> u32) \<Rightarrow> u32 \<Rightarrow> boot_cpu \<Rightarrow> boot_cpu" where
  "mp_boot_jump_to_app load app_address c =
     c\<lparr>cpu_irq_enabled := False, cpu_msp := load app_address, cpu_pc := load (app_address + 4)\<rparr>"

end
