(* ===== verification/Console_Correct.thy ===== *)
theory Console_Correct
  imports Console
begin

text \<open>
  The log ring against the bytes that are not yet drained, the line editor of the shell against a line of text, and the
  login of the boot loader.
\<close>

section \<open>The log ring\<close>

definition log_wf :: "log_state \<Rightarrow> bool" where
  "log_wf s \<longleftrightarrow> length (log_buffer s) = 4096 \<and> unat (log_head s) < 4096 \<and> unat (log_tail s) < 4096"

definition unread :: "log_state \<Rightarrow> nat" where
  "unread s = (unat (log_head s) + 4096 - unat (log_tail s)) mod 4096"

text \<open>The bytes from the tail to the head.\<close>

definition pending :: "log_state \<Rightarrow> cstring" where
  "pending s = map (\<lambda>i. log_buffer s ! ((unat (log_tail s) + i) mod 4096)) [0..<unread s]"

text \<open>A full ring is an empty ring.\<close>

definition ring_put :: "u8 \<Rightarrow> cstring \<Rightarrow> cstring" where
  "ring_put c p = (if length p + 1 < 4096 then p @ [c] else [])"

lemma log_boot_wf: "log_wf log_boot" "pending log_boot = []"
  by (simp_all add: log_wf_def pending_def unread_def log_boot_def LOG_BUFFER_SIZE_def)

lemma length_pending: "length (pending s) = unread s"
  by (simp add: pending_def)

lemma unread_bound: "unread s < 4096"
  by (simp add: unread_def)

lemma ring_diff:
  fixes h t :: nat
  assumes "h < N" "t < N"
  shows "(h + N - t) mod N = (if t \<le> h then h - t else h + N - t)"
proof (cases "t \<le> h")
  case True
  then have e: "h + N - t = h - t + N" by simp
  show ?thesis unfolding e mod_add_self2 using True assms by simp
qed (use assms in simp)

lemma ring_sum:
  fixes t i :: nat
  assumes "t < N" "i < N"
  shows "(t + i) mod N = (if t + i < N then t + i else t + i - N)"
  using assms by (simp add: mod_if)

lemma ring_index:
  fixes h t i :: nat
  assumes "h < N" "t < N" "i < (h + N - t) mod N"
  shows "(t + i) mod N \<noteq> h"
proof -
  have "(h + N - t) mod N < N" using assms(1) by (intro mod_less_divisor) simp
  then have "i < N" using assms(3) by simp
  then show ?thesis using assms by (auto simp: ring_diff ring_sum split: if_splits)
qed

lemma ring_end:
  fixes h t :: nat
  assumes "h < N" "t < N"
  shows "(t + (h + N - t) mod N) mod N = h"
  using assms by (simp add: ring_diff)

lemma ring_next:
  fixes h t :: nat
  assumes "h < N" "t < N"
  shows "((h + 1) mod N + N - t) mod N = (if (h + N - t) mod N + 1 < N then (h + N - t) mod N + 1 else 0)"
proof (cases "h + 1 = N")
  case True
  then have "((h + 1) mod N + N - t) mod N = (0 + N - t) mod N" by simp
  also have "\<dots> = (if t = 0 then 0 else N - t)" using assms ring_diff [of 0 N t] by auto
  finally have l: "((h + 1) mod N + N - t) mod N = (if t = 0 then 0 else N - t)" .
  have "(h + N - t) mod N = h - t" using assms True by (subst ring_diff) auto
  then show ?thesis unfolding l using True assms by auto
next
  case False
  then have "h + 1 < N" using assms by simp
  then show ?thesis using assms ring_diff [of "h + 1" N t] by (auto simp: ring_diff)
qed

lemma log_next: "unat h < 4096 \<Longrightarrow> unat ((h + 1) mod of_nat LOG_BUFFER_SIZE) = (unat h + 1) mod 4096" for h :: u32
proof -
  assume h: "unat h < 4096"
  have "unat (h + 1) = unat h + 1" using h by (simp add: unat_word_ariths(1))
  then show ?thesis by (simp add: unat_mod_distrib LOG_BUFFER_SIZE_def)
qed

lemma log_put_ring:
  assumes "log_wf s"
  shows "log_wf (log_put c s) \<and> pending (log_put c s) = ring_put c (pending s) \<and> log_tail (log_put c s) = log_tail s"
proof -
  define h t where "h = unat (log_head s)" and "t = unat (log_tail s)"
  have ht: "h < 4096" "t < 4096" "length (log_buffer s) = 4096" using assms by (auto simp: log_wf_def h_def t_def)
  have h': "unat (log_head (log_put c s)) = (h + 1) mod 4096"
    using log_next ht(1) by (simp add: log_put_def h_def)
  have b: "log_buffer (log_put c s) = (log_buffer s)[h := c]" "log_tail (log_put c s) = log_tail s"
    by (simp_all add: log_put_def h_def)
  have u: "unread (log_put c s) = (if unread s + 1 < 4096 then unread s + 1 else 0)"
    unfolding unread_def h' b(2) using ring_next [OF ht(1,2)] by (simp add: h_def t_def)
  have same: "(log_buffer s)[h := c] ! ((t + i) mod 4096) = log_buffer s ! ((t + i) mod 4096)" if "i < unread s" for i
    using ring_index [OF ht(1,2), of i] that by (simp add: unread_def h_def t_def)
  have new: "(log_buffer s)[h := c] ! ((t + unread s) mod 4096) = c"
    using ring_end [OF ht(1,2)] ht by (simp add: unread_def h_def t_def)
  have "pending (log_put c s) = ring_put c (pending s)"
    unfolding ring_put_def length_pending pending_def u b t_def [symmetric] using same new by simp
  then show ?thesis using ht h' by (simp add: log_wf_def b t_def)
qed

lemma ring_puts: "length p < 4096 \<Longrightarrow> fold ring_put cs p = drop (length (p @ cs) - length (p @ cs) mod 4096) (p @ cs)"
proof (induction cs rule: rev_induct)
  case (snoc c cs)
  define q where "q = p @ cs"
  have "fold ring_put (cs @ [c]) p = ring_put c (drop (length q - length q mod 4096) q)"
    using snoc by (simp add: q_def)
  also have "\<dots> = drop (length (q @ [c]) - length (q @ [c]) mod 4096) (q @ [c])"
    by (simp add: ring_put_def mod_Suc Suc_diff_le)
  finally show ?case by (simp add: q_def)
qed simp

lemma log_puts:
  assumes "log_wf s"
  shows "log_wf (fold log_put cs s) \<and> pending (fold log_put cs s) = fold ring_put cs (pending s) \<and>
    log_tail (fold log_put cs s) = log_tail s"
  using assms log_put_ring by (induction cs arbitrary: s) (simp_all)

lemma drain_total: "unat h < 4096 \<Longrightarrow> unat t < 4096 \<Longrightarrow> drain_loop h t = Some h"
proof (induction "(unat h + 4096 - unat t) mod 4096" arbitrary: t rule: less_induct)
  case less
  show ?case
  proof (cases "t = h")
    case True
    then show ?thesis by (subst drain_loop.simps) simp
  next
    case False
    then have ne: "unat t \<noteq> unat h" by (simp add: word_unat_eq_iff)
    let ?t = "(t + 1) mod of_nat LOG_BUFFER_SIZE"
    have t': "unat ?t = (unat t + 1) mod 4096" using log_next less.prems(2) by blast
    have "(unat h + 4096 - (unat t + 1) mod 4096) mod 4096 < (unat h + 4096 - unat t) mod 4096"
      using ne less.prems by (auto simp: mod_if)
    then have "drain_loop h ?t = Some h" using t' less.prems(1) by (intro less.hyps) simp_all
    then show ?thesis using False by (subst drain_loop.simps) simp
  qed
qed

lemma log_header_length:
  "level_names level = Some n \<Longrightarrow> length (log_header n name module) = 12 + length name + length module"
  by (cases level) (auto simp: log_header_def ascii_def)

lemma mp_log_None:
  "mp_log level module txt sc s = None \<longleftrightarrow>
     level = MP_LOG_NONE \<or> 242 < length (current_name sc) + length module + length txt"
  using log_header_length [of level _ "current_name sc" module]
  by (cases "level_names level"; cases level) (auto simp: mp_log_def log_entry_def entry_size_def)

text \<open>The entry that a call appends.\<close>

definition entry_bytes :: "mp_log_level \<Rightarrow> cstring \<Rightarrow> cstring \<Rightarrow> sched \<Rightarrow> cstring" where
  "entry_bytes level module txt sc =
     (let h = log_header (the (level_names level)) (current_name sc) module
      in h @ vsnprintf_bytes (254 - length h) txt @ crlf)"

lemma mp_log_Some:
  assumes "mp_log level module txt sc s = Some s'"
  shows "s' = fold log_put (entry_bytes level module txt sc) s"
  using assms
  by (auto simp: mp_log_def log_entry_def entry_size_def entry_bytes_def crlf_def Let_def
      split: option.splits if_splits bind_splits)

lemma drain_empties: "log_wf s \<Longrightarrow> mp_log_drain s = Some (s\<lparr>log_tail := log_head s\<rparr>) \<and> pending (s\<lparr>log_tail := log_head s\<rparr>) = []"
  by (simp add: mp_log_drain_def drain_total log_wf_def pending_def unread_def)

text \<open>
  C25. The log.  A call is defined exactly when the level has a name and the name of the thread, the module and the text
  have at most 242 bytes together: beyond, the entry on the stack overflows.  Within, the bytes not yet drained are those
  there were and the new entry, but whenever they come to the 4096 bytes of the ring they are all forgotten.  Draining
  ends, and forgets them too.
\<close>

theorem log_ring:
  assumes "log_wf s"
  shows "(mp_log level module txt sc s = None \<longleftrightarrow>
       level = MP_LOG_NONE \<or> 242 < length (current_name sc) + length module + length txt) \<and>
    (\<forall>s'. mp_log level module txt sc s = Some s' \<longrightarrow>
       (let q = pending s @ entry_bytes level module txt sc
        in log_wf s' \<and> pending s' = drop (length q - length q mod 4096) q)) \<and>
    mp_log_drain s = Some (s\<lparr>log_tail := log_head s\<rparr>) \<and> pending (s\<lparr>log_tail := log_head s\<rparr>) = []"
proof (intro conjI allI impI)
  show "mp_log level module txt sc s = None \<longleftrightarrow>
      level = MP_LOG_NONE \<or> 242 < length (current_name sc) + length module + length txt"
    by (rule mp_log_None)
  fix s' assume "mp_log level module txt sc s = Some s'"
  then show "let q = pending s @ entry_bytes level module txt sc
      in log_wf s' \<and> pending s' = drop (length q - length q mod 4096) q"
    using log_puts [OF assms, of "entry_bytes level module txt sc"] ring_puts [of "pending s"] unread_bound [of s]
    unfolding mp_log_Some [OF \<open>_ = Some s'\<close>] Let_def length_pending [symmetric] by simp
qed (use drain_empties [OF assms] in simp_all)

lemma log_ring_witness:
  "pending log_boot = [] \<and> mp_log_drain log_boot = Some (log_boot\<lparr>log_tail := log_head log_boot\<rparr>)"
  using log_ring [OF log_boot_wf(1)] log_boot_wf(2) by blast

text \<open>An entry on an empty ring is what is then pending.\<close>

lemma log_after_boot:
  "mp_log level module txt sc log_boot = Some s' \<Longrightarrow> pending s' = entry_bytes level module txt sc"
proof -
  assume l: "mp_log level module txt sc log_boot = Some s'"
  then have "level_names level \<noteq> None" "length (current_name sc) + length module + length txt \<le> 242"
    using mp_log_None [of level module "txt" sc log_boot] by (cases level; simp)+
  then obtain n where n: "level_names level = Some n" by blast
  have "length (entry_bytes level module txt sc) < 4096"
    using log_header_length [OF n] \<open>length (current_name sc) + length module + length txt \<le> 242\<close>
    by (simp add: entry_bytes_def n vsnprintf_bytes_def crlf_def Let_def)
  then show ?thesis
    using mp_log_Some [OF l] log_puts [OF log_boot_wf(1)] log_boot_wf(2) by (simp add: ring_puts)
qed

section \<open>The fault handler\<close>

text \<open>A thread name is at most 15 bytes, so only the reason of a panic can be too long for the log.\<close>

lemma upper_hex_length [simp]: "length (show_08X w) = 8"
  by (simp add: show_08X_def)

lemma log_lines_defined:
  "level \<noteq> MP_LOG_NONE \<Longrightarrow>
     (log_lines level module ts sc s \<noteq> None \<longleftrightarrow> (\<forall>t \<in> set ts. length (current_name sc) + length module + length t \<le> 242))"
proof (induction ts arbitrary: s)
  case (Cons t ts)
  show ?case
  proof (cases "mp_log level module t sc s")
    case None
    then show ?thesis using Cons.prems mp_log_None [of level module t sc s] by auto
  next
    case (Some s')
    then have "length (current_name sc) + length module + length t \<le> 242"
      using mp_log_None [of level module t sc s] by auto
    then show ?thesis using Some Cons by simp
  qed
qed simp

lemma decimal_length: "n < 10 ^ Suc k \<Longrightarrow> length (decimal n) \<le> Suc k"
proof (induction k arbitrary: n)
  case (Suc k)
  then have "n div 10 < 10 ^ Suc k" by (simp add: div_less_iff_less_mult)
  then have "length (decimal (n div 10)) \<le> Suc k" by (rule Suc.IH)
  then show ?case by (subst decimal.simps) simp
qed (subst decimal.simps, simp)

lemma show_d_length: "length (show_d w) \<le> 20"
proof -
  have s: "- (2 ^ 63) \<le> sint (scast w :: u64)" "sint (scast w :: u64) < 2 ^ 63"
    using sint_range_size [of "scast w :: u64"] by (simp_all add: word_size)
  have "nat (- sint (scast w :: u64)) < 10 ^ Suc 18" "nat (sint (scast w :: u64)) < 10 ^ Suc 18"
    using s by (simp_all add: nat_less_iff)
  then show ?thesis
    unfolding show_d_def print_lld_def
    using decimal_length [of "nat (- sint (scast w :: u64))" 18] decimal_length [of "nat (sint (scast w :: u64))" 18]
    by (simp del: power_Suc)
qed

theorem panic_logged:
  assumes "length (current_name sc) \<le> 15"
  shows "mp_panic reason frame sc s \<noteq> None \<longleftrightarrow> length (current_name sc) + length reason \<le> 223"
proof -
  have line: "length (ascii ''Current Thread: '' @ ascii (tcb_name (tcbs sc u)) @ ascii '' (ID: '' @ show_d (tcb_id (tcbs sc u)) @ ascii '')'') \<le> 60"
    if "mp_sched_get_current_thread sc = Some u" for u
    using assms show_d_length [of "tcb_id (tcbs sc u)"] by (simp add: current_name_def that ascii_def)
  have "length t \<le> 60" if "t \<in> set (tl (panic_lines sc reason frame))" for t
    using that line by (cases "mp_sched_get_current_thread sc"; cases frame) (auto simp: panic_lines_def ascii_def)
  then have small: "length (current_name sc) + 5 + length t \<le> 242"
    if "t \<in> set (tl (panic_lines sc reason frame))" for t
    using that assms by fastforce
  have "mp_panic reason frame sc s \<noteq> None \<longleftrightarrow>
      log_lines MP_LOG_CRITICAL (ascii ''PANIC'') (panic_lines sc reason frame) sc s \<noteq> None"
    by (cases "log_lines MP_LOG_CRITICAL (ascii ''PANIC'') (panic_lines sc reason frame) sc s") (simp_all add: mp_panic_def)
  also have "\<dots> \<longleftrightarrow>
      (\<forall>t \<in> set (panic_lines sc reason frame). length (current_name sc) + length (ascii ''PANIC'') + length t \<le> 242)"
    by (rule log_lines_defined) simp
  also have "\<dots> \<longleftrightarrow> length (current_name sc) + length reason \<le> 223"
    using small by (cases "panic_lines sc reason frame") (auto simp: panic_lines_def ascii_def)
  finally show ?thesis .
qed

section \<open>The shell\<close>

text \<open>The line editor as it is meant: a line of at most 127 bytes.\<close>

definition edit_byte :: "sched \<Rightarrow> u8 \<Rightarrow> cstring \<Rightarrow> cstring \<times> console_out list" where
  "edit_byte sc c line =
     (if c = ch_return \<or> c = ch_newline
      then ([], map Printed (shell_process_line sc (line @ [0])) @ [Printed prompt])
      else if c = 0x08 \<or> c = 0x7F then (if line = [] then ([], []) else (butlast line, [Printed erase]))
      else if length line < 127 then (line @ [c], [Sent c]) else (line, []))"

fun edit :: "(sched \<times> u8 option) list \<Rightarrow> cstring \<Rightarrow> cstring \<times> console_out list" where
  "edit [] line = (line, [])"
| "edit ((sc, None) # inp) line = edit inp line"
| "edit ((sc, Some c) # inp) line =
     (let (line1, out1) = edit_byte sc c line; (line2, out2) = edit inp line1 in (line2, out1 @ out2))"

definition shell_line :: "shell_state \<Rightarrow> cstring \<Rightarrow> bool" where
  "shell_line s line \<longleftrightarrow>
     length (line_buf s) = 128 \<and> length line \<le> 127 \<and> unat (line_pos s) = length line \<and>
     take (length line) (line_buf s) = line"

lemma shell_init_line: "shell_line (mp_shell_init s) []"
  by (simp add: shell_line_def mp_shell_init_def SHELL_LINE_BUF_SIZE_def)

lemma process_line_prefix:
  "shell_process_line sc (line @ 0 # rest) = shell_process_line sc (line @ [0])"
proof -
  have "takeWhile (\<lambda>c. c \<noteq> 0) (line @ 0 # rest) = takeWhile (\<lambda>c. c \<noteq> 0) (line @ [0])" by (induction line) auto
  then show ?thesis by (simp add: shell_process_line_def)
qed

lemma shell_byte_edit:
  assumes "shell_line s line"
  shows "\<exists>s'. shell_byte sc c s = Some (s', snd (edit_byte sc c line)) \<and> shell_line s' (fst (edit_byte sc c line))"
proof -
  define n where "n = length line"
  have s: "length (line_buf s) = 128" "n \<le> 127" "unat (line_pos s) = n" "take n (line_buf s) = line"
    using assms by (auto simp: shell_line_def n_def)
  have w: "mem_write (line_buf s) n [d] = Some (line @ d # drop (n + 1) (line_buf s))" for d
    using s by (simp add: mem_write_def)
  have pos: "line_pos s > 0 \<longleftrightarrow> line \<noteq> []"
    using s(3) by (simp add: word_less_nat_alt n_def)
  have room: "line_pos s < of_nat (SHELL_LINE_BUF_SIZE - 1) \<longleftrightarrow> n < 127"
    using s(3) by (simp add: word_less_nat_alt SHELL_LINE_BUF_SIZE_def)
  consider (enter) "c = ch_return \<or> c = ch_newline" | (backspace) "\<not> (c = ch_return \<or> c = ch_newline)" "c = 0x08 \<or> c = 0x7F"
    | (other) "\<not> (c = ch_return \<or> c = ch_newline)" "\<not> (c = 0x08 \<or> c = 0x7F)" by blast
  then show ?thesis
  proof cases
    case enter
    have "shell_byte sc c s = Some (s\<lparr>line_buf := line @ 0 # drop (n + 1) (line_buf s), line_pos := 0\<rparr>,
        map Printed (shell_process_line sc (line @ [0])) @ [Printed prompt])"
      unfolding shell_byte_def if_P [OF enter] s(3) w process_line_prefix [symmetric, of sc line "drop (n + 1) (line_buf s)"]
      by (simp only: bind.simps)
    moreover have "edit_byte sc c line = ([], map Printed (shell_process_line sc (line @ [0])) @ [Printed prompt])"
      unfolding edit_byte_def if_P [OF enter] ..
    ultimately show ?thesis using s by (simp add: shell_line_def n_def)
  next
    case backspace
    have "take (n - 1) (line_buf s) = butlast line"
      using s by (metis butlast_take diff_le_self le_trans n_def nat_le_linear take_all)
    moreover have "unat (line_pos s - 1) = n - 1" if "line \<noteq> []"
      using that s(3) pos by (simp add: unat_minus_one word_gt_0)
    ultimately show ?thesis
      using backspace pos s by (auto simp: shell_byte_def edit_byte_def shell_line_def n_def)
  next
    case other
    have "unat (line_pos s + 1) = n + 1" if "n < 127"
      using that s(3) by (simp add: unat_word_ariths(1))
    then show ?thesis
      using other room w [of c] s by (auto simp: shell_byte_def edit_byte_def shell_line_def n_def)
  qed
qed

lemma shell_loop_edit:
  "shell_line s line \<Longrightarrow>
     \<exists>s'. shell_loop inp s = Some (s', snd (edit inp line)) \<and> shell_line s' (fst (edit inp line))"
proof (induction inp line arbitrary: s rule: edit.induct)
  case (3 sc c inp line)
  obtain s1 where s1: "shell_byte sc c s = Some (s1, snd (edit_byte sc c line))" "shell_line s1 (fst (edit_byte sc c line))"
    using shell_byte_edit [OF 3(2)] by blast
  obtain s2 where "shell_loop inp s1 = Some (s2, snd (edit inp (fst (edit_byte sc c line))))"
    "shell_line s2 (fst (edit inp (fst (edit_byte sc c line))))"
    using 3(1) [OF _ prod.collapse s1(2)] by (metis prod.collapse)
  then show ?case using s1(1) by (simp add: Let_def split_beta)
qed simp_all

text \<open>
  C26. The shell refines the editor of a line: from the state that \<open>mp_shell_init\<close> leaves, for every sequence of polls
  it writes inside its buffer, prints what the editor prints, and its buffer holds the line of the editor.
\<close>

theorem shell_refines_editor:
  "\<exists>s'. mp_shell_task date time inp (mp_shell_init s) =
      Some (s', Printed (crlf @ ascii ''microPOSIX Shell (Build: '' @ date @ [ch_space] @ time @ ascii '')'' @ prompt)
                # snd (edit inp [])) \<and>
    shell_line s' (fst (edit inp []))"
proof -
  obtain s' where "shell_loop inp (mp_shell_init s) = Some (s', snd (edit inp []))" "shell_line s' (fst (edit inp []))"
    using shell_loop_edit [OF shell_init_line] by blast
  then show ?thesis by (simp add: mp_shell_task_def)
qed

text \<open>A line typed without control bytes is executed as it was typed, up to 127 bytes.\<close>

lemma edit_typed:
  assumes "\<forall>c \<in> set line. c \<noteq> ch_return \<and> c \<noteq> ch_newline \<and> c \<noteq> 0x08 \<and> c \<noteq> 0x7F" "length (start @ line) \<le> 127"
  shows "edit (map (\<lambda>c. (sc, Some c)) line @ [(sc, Some ch_return)]) start =
    ([], map Sent line @ map Printed (shell_process_line sc (start @ line @ [0])) @ [Printed prompt])"
  using assms
proof (induction line arbitrary: start)
  case Nil
  then show ?case by (simp add: edit_byte_def)
next
  case (Cons c line)
  then show ?case using Cons.IH [of "start @ [c]"] by (simp add: edit_byte_def)
qed

text \<open>The command is the first of at most eight words; an unknown one is answered with its name.\<close>

lemma process_line_unknown:
  assumes "tokens [ch_space] line = w # ws" "0 \<notin> set line"
    "w \<notin> set [ascii ''help'', ascii ''top'', ascii ''mem'', ascii ''uptime'', ascii ''kill'']"
  shows "shell_process_line sc (line @ [0]) = [ascii ''Unknown command: '' @ w @ crlf]"
proof -
  have "takeWhile (\<lambda>c. c \<noteq> 0) (line @ [0]) = line" using assms(2) by (induction line) auto
  then show ?thesis using assms(1,3) by (auto simp: shell_process_line_def SHELL_MAX_ARGS_def commands_def)
qed

section \<open>The boot loader\<close>

definition received :: "u8 option list \<Rightarrow> u8 list" where
  "received inp = List.map_filter id inp"

lemma received_simps [simp]:
  "received [] = []" "received (None # inp) = received inp" "received (Some c # inp) = c # received inp"
  by (simp_all add: received_def List.map_filter_simps)

lemma wait_byte_received:
  "case wait_byte inp of None \<Rightarrow> received inp = [] | Some (c, inp') \<Rightarrow> received inp = c # received inp'"
proof (induction inp rule: wait_byte.induct)
  case (2 inp)
  then show ?case by (simp only: wait_byte.simps received_simps)
qed simp_all

lemma wait_bytes_received:
  "case wait_bytes n inp of
     None \<Rightarrow> length (received inp) < n
   | Some (cs, inp') \<Rightarrow> n \<le> length (received inp) \<and> cs = take n (received inp) \<and> received inp' = drop n (received inp)"
proof (induction n arbitrary: inp)
  case (Suc n)
  show ?case
    using wait_byte_received [of inp] Suc [of "snd (the (wait_byte inp))"]
    by (auto split: option.splits)
qed simp

lemma fixed32_or_bytes: "length r = 4 \<Longrightarrow> fixed32_bytes (or_bytes 0 r) = r"
proof -
  assume "length r = 4"
  then obtain a b c d where r: "r = [a, b, c, d]" by (auto simp: numeral_eq_Suc length_Suc_conv)
  define v where "v = (or_bytes 0 r :: u32)"
  have v: "bit v n \<longleftrightarrow> bit a n \<or> 8 \<le> n \<and> bit b (n - 8) \<or> 16 \<le> n \<and> bit c (n - 16) \<or> 24 \<le> n \<and> bit d (n - 24)"
    if "n < 32" for n
    using that by (auto simp: v_def r bit_simps)
  have m: "(0xFF :: u32) = mask 8" by (simp add: mask_eq_exp_minus_1)
  have byte: "ucast (drop_bit k v AND 0xFF) = x" if "k \<le> 24" "\<And>n. n < 8 \<Longrightarrow> bit v (n + k) \<longleftrightarrow> bit x n" for k and x :: u8
    unfolding m by (rule bit_word_eqI) (use that in \<open>auto simp: bit_simps add.commute\<close>)
  have "ucast (drop_bit 0 v AND 0xFF) = a" "ucast (drop_bit 8 v AND 0xFF) = b" "ucast (drop_bit 16 v AND 0xFF) = c"
    "ucast (drop_bit 24 v AND 0xFF) = d"
    by (rule byte; auto simp: v dest: bit_imp_le_length)+
  moreover have "drop_bit 0 v = v" by simp
  moreover have "fixed32_bytes v = [a, b, c, d]" unfolding fixed32_bytes_def using calculation by simp
  ultimately show ?thesis by (simp only: v_def r)
qed

lemma response_bytes:
  assumes "length r = 4"
  shows "(or_bytes 0 r :: u32) = expected_response \<longleftrightarrow> r = [0xEB, 0xBE, 0xAD, 0xDE]"
proof -
  have "expected_response = or_bytes 0 [0xEB, 0xBE, 0xAD, 0xDE]"
    by (simp add: expected_response_def challenge_def AUTH_SECRET_KEY_def)
  moreover have "fixed32_bytes (or_bytes 0 r) = r" by (rule fixed32_or_bytes) (rule assms)
  moreover have "fixed32_bytes (or_bytes 0 [0xEB, 0xBE, 0xAD, 0xDE]) = [0xEB, 0xBE, 0xAD, 0xDE]"
    by (rule fixed32_or_bytes) simp
  ultimately show ?thesis by metis
qed

text \<open>
  C27. The login of the boot loader waits until four bytes have come and succeeds exactly when they are EB BE AD DE.  The
  challenge it sends is always the same, so that the answer of one login opens every other one.
\<close>

theorem boot_login:
  assumes "length (current_name sc) \<le> 15"
  shows "if length (received inp) < 4 then mp_boot_authenticate_uart sc inp s = None
    else \<exists>rest s'. mp_boot_authenticate_uart sc inp s =
           Some (take 4 (received inp) = [0xEB, 0xBE, 0xAD, 0xDE], [1, 2, 3, 4], rest, s') \<and>
         received rest = drop 4 (received inp)"
proof -
  have l: "\<exists>s'. mp_log level (ascii ''BOOT'') t sc s = Some s'" if "level \<noteq> MP_LOG_NONE" "length t \<le> 100" for level t s
    using mp_log_None [of level "ascii ''BOOT''" t sc s] that assms by (auto simp: ascii_def)
  show ?thesis
  proof (cases "wait_bytes 4 inp")
    case None
    then show ?thesis
      using wait_bytes_received [where n = 4 and inp = inp] l [of MP_LOG_INFO]
      by (auto simp: mp_boot_authenticate_uart_def RESPONSE_LEN_def split: bind_splits)
  next
    case (Some p)
    then obtain r rest where p: "wait_bytes 4 inp = Some (r, rest)" by force
    then have r: "4 \<le> length (received inp)" "r = take 4 (received inp)" "received rest = drop 4 (received inp)"
      using wait_bytes_received [where n = 4 and inp = inp] by simp_all
    obtain s1 where s1: "mp_log MP_LOG_INFO (ascii ''BOOT'') (ascii ''Login requested. Sending challenge...'') sc s = Some s1"
      using l [of MP_LOG_INFO "ascii ''Login requested. Sending challenge...''" s] by (auto simp: ascii_def)
    obtain s2 where s2: "mp_log MP_LOG_INFO (ascii ''BOOT'') (ascii ''Authentication SUCCESS'') sc s1 = Some s2"
      using l [of MP_LOG_INFO "ascii ''Authentication SUCCESS''" s1] by (auto simp: ascii_def)
    obtain s3 where s3: "mp_log MP_LOG_ERROR (ascii ''BOOT'') (ascii ''Authentication FAILED'') sc s1 = Some s3"
      using l [of MP_LOG_ERROR "ascii ''Authentication FAILED''" s1] by (auto simp: ascii_def)
    have "(or_bytes 0 r :: u32) = expected_response \<longleftrightarrow> r = [0xEB, 0xBE, 0xAD, 0xDE]"
      using r(1,2) by (intro response_bytes) simp
    then show ?thesis
      using r p s1 s2 s3 by (simp add: mp_boot_authenticate_uart_def RESPONSE_LEN_def challenge_def)
  qed
qed

text \<open>With no current thread the name is \<open>system\<close>.\<close>

lemma boot_login_witness:
  "\<exists>rest s'. mp_boot_authenticate_uart (boot_state (\<lambda>_. 0xAA)) [Some 0xEB, None, Some 0xBE, Some 0xAD, Some 0xDE, Some 7] log_boot =
     Some (True, [1, 2, 3, 4], rest, s') \<and> received rest = [7]"
proof -
  have n: "length (current_name (boot_state (\<lambda>_. 0xAA))) \<le> 15"
    by (simp add: current_name_def mp_sched_get_current_thread_def boot_state_def ascii_def)
  show ?thesis
    using boot_login [OF n, of "[Some 0xEB, None, Some 0xBE, Some 0xAD, Some 0xDE, Some 7]" log_boot] by simp
qed

end
