(* ===== verification/Socket.thy ===== *)
theory Socket
  imports CString Thread
begin

text \<open>
  The sockets of \<open>src/network/socket.c\<close> and \<open>include/microposix/network/socket.h\<close>: a table of sixteen slots in front
  of the sockets of the platform, lwIP on the ESP32 and the system's on POSIX.  The platform is a parameter: a record of
  its calls, its constants and its state, in which time passes too.  Addresses are bytes, as the code casts them; the lengths are
  those of the structures.  Lines that are logged are left out.  \<^term>\<open>None\<close> is an access outside an object or a wait
  that nothing ends.
\<close>

section \<open>The platform\<close>

datatype platform = Platform_esp32 | Platform_posix | Platform_other

text \<open>An address as it is given to the platform or comes from it: the bytes of the caller on POSIX, a structure of lwIP
  on the ESP32, which may have been cleared, or not written at all.\<close>

datatype net_addr =
    Native "u8 list"
  | Lwip_in u16 u32
  | Lwip_in6 u16 "u8 list"
  | Lwip_zero
  | Lwip_unset

record mp_hostent =
  h_name :: cstring
  h_aliases :: "cstring list"
  h_addrtype :: int
  h_length :: int
  h_addr_list :: "u8 list list"

record 'n backend =
  platform :: platform
  b_socket :: "int \<Rightarrow> int \<Rightarrow> int \<Rightarrow> 'n \<Rightarrow> int \<times> 'n"
  b_close :: "int \<Rightarrow> 'n \<Rightarrow> 'n"
  b_bind :: "int \<Rightarrow> net_addr \<Rightarrow> nat \<Rightarrow> 'n \<Rightarrow> int \<times> 'n"
  b_connect :: "int \<Rightarrow> net_addr \<Rightarrow> nat \<Rightarrow> 'n \<Rightarrow> int \<times> 'n"
  b_listen :: "int \<Rightarrow> int \<Rightarrow> 'n \<Rightarrow> int \<times> 'n"
  b_accept :: "int \<Rightarrow> 'n \<Rightarrow> int \<times> net_addr \<times> 'n"
  b_send :: "int \<Rightarrow> u8 list \<Rightarrow> int \<Rightarrow> 'n \<Rightarrow> int \<times> 'n"
  b_recv :: "int \<Rightarrow> nat \<Rightarrow> int \<Rightarrow> 'n \<Rightarrow> int \<times> u8 list \<times> 'n"
  b_sendto :: "int \<Rightarrow> u8 list \<Rightarrow> int \<Rightarrow> net_addr \<Rightarrow> nat \<Rightarrow> 'n \<Rightarrow> int \<times> 'n"
  b_recvfrom :: "int \<Rightarrow> nat \<Rightarrow> int \<Rightarrow> 'n \<Rightarrow> int \<times> u8 list \<times> net_addr \<times> 'n"
  b_setsockopt :: "int \<Rightarrow> int \<Rightarrow> int \<Rightarrow> u8 list \<Rightarrow> 'n \<Rightarrow> int \<times> 'n"
  b_getsockopt :: "int \<Rightarrow> int \<Rightarrow> int \<Rightarrow> nat \<Rightarrow> 'n \<Rightarrow> int \<times> u8 list \<times> 'n"
  b_getfl :: "int \<Rightarrow> 'n \<Rightarrow> int \<times> 'n"
  b_setfl :: "int \<Rightarrow> int \<Rightarrow> 'n \<Rightarrow> 'n"
  b_fionread :: "int \<Rightarrow> 'n \<Rightarrow> int \<times> int \<times> 'n"
  b_gethostbyname :: "cstring \<Rightarrow> 'n \<Rightarrow> mp_hostent option \<times> 'n"
  b_clock :: "'n \<Rightarrow> u64"
  b_sleep :: "u32 \<Rightarrow> 'n \<Rightarrow> 'n"
  b_alloc :: "nat \<Rightarrow> 'n \<Rightarrow> u32 \<times> 'n"
  c_AF_INET :: int
  c_AF_INET6 :: int
  c_AF_UNIX :: int
  c_SOCK_STREAM :: int
  c_SOCK_DGRAM :: int
  c_SOCK_RAW :: int
  c_IPPROTO_TCP :: int
  c_IPPROTO_UDP :: int
  c_IPPROTO_ICMP :: int
  c_SOL_SOCKET :: int
  c_SO_ERROR :: int
  c_SO_RCVBUF :: int
  c_O_NONBLOCK :: int
  c_storage_size :: nat

section \<open>The table\<close>

definition MP_SOCKET_MAX_SOCKETS :: nat where "MP_SOCKET_MAX_SOCKETS = 16"
definition MP_SOCKET_INVALID :: int where "MP_SOCKET_INVALID = -1"
definition MP_SOCKET_INVALID_FD :: int where "MP_SOCKET_INVALID_FD = -1"

definition MP_AF_UNIX :: int where "MP_AF_UNIX = 1"
definition MP_AF_INET :: int where "MP_AF_INET = 2"
definition MP_AF_INET6 :: int where "MP_AF_INET6 = 10"
definition MP_SOCK_STREAM :: int where "MP_SOCK_STREAM = 1"
definition MP_SOCK_DGRAM :: int where "MP_SOCK_DGRAM = 2"
definition MP_SOCK_RAW :: int where "MP_SOCK_RAW = 3"
definition MP_IPPROTO_TCP :: int where "MP_IPPROTO_TCP = 6"
definition MP_IPPROTO_UDP :: int where "MP_IPPROTO_UDP = 17"
definition MP_IPPROTO_ICMP :: int where "MP_IPPROTO_ICMP = 1"

record mp_socket_slot =
  fd :: int
  so_domain :: int
  so_type :: int
  so_protocol :: int
  so_blocking :: bool
  so_connected :: bool

record 'n sockets =
  slots :: "mp_socket_slot list"
  socket_mutex_locked :: bool
  env :: 'n

text \<open>The table is cleared, not set to \<^const>\<open>MP_SOCKET_INVALID_FD\<close>.\<close>

definition zero_slot :: mp_socket_slot where
  "zero_slot = \<lparr>fd = 0, so_domain = 0, so_type = 0, so_protocol = 0, so_blocking = False, so_connected = False\<rparr>"

definition sockets_boot :: "'n \<Rightarrow> 'n sockets" where
  "sockets_boot n = \<lparr>slots = replicate MP_SOCKET_MAX_SOCKETS zero_slot, socket_mutex_locked = False, env = n\<rparr>"

text \<open>A thread that finds the flag set sleeps until another thread clears it.\<close>

definition mp_socket_lock :: "'n sockets \<Rightarrow> 'n sockets option" where
  "mp_socket_lock s = (if socket_mutex_locked s then None else Some (s\<lparr>socket_mutex_locked := True\<rparr>))"

definition mp_socket_unlock :: "'n sockets \<Rightarrow> 'n sockets" where
  "mp_socket_unlock s = s\<lparr>socket_mutex_locked := False\<rparr>"

definition mp_socket_find_free_slot :: "'n sockets \<Rightarrow> int" where
  "mp_socket_find_free_slot s =
     (case find (\<lambda>i. fd (slots s ! i) = MP_SOCKET_INVALID_FD) [0..<MP_SOCKET_MAX_SOCKETS] of
        Some i \<Rightarrow> int i | None \<Rightarrow> -1)"

text \<open>The guard of every operation on a socket: \<^term>\<open>Some True\<close> when the descriptor is refused.  A negative one indexes
  before the table.\<close>

definition bad_socket :: "int \<Rightarrow> 'n sockets \<Rightarrow> bool option" where
  "bad_socket sockfd s =
     (if sockfd \<ge> int MP_SOCKET_MAX_SOCKETS then Some True
      else if sockfd < 0 then None else Some (fd (slots s ! nat sockfd) = MP_SOCKET_INVALID_FD))"

definition sock_fd :: "int \<Rightarrow> 'n sockets \<Rightarrow> int" where
  "sock_fd sockfd s = fd (slots s ! nat sockfd)"

definition upd_slot :: "int \<Rightarrow> (mp_socket_slot \<Rightarrow> mp_socket_slot) \<Rightarrow> 'n sockets \<Rightarrow> 'n sockets" where
  "upd_slot i f s = s\<lparr>slots := (slots s)[nat i := f (slots s ! nat i)]\<rparr>"

text \<open>A call of the platform, its result and the state after it.\<close>

definition call :: "('n \<Rightarrow> 'r \<times> 'n) \<Rightarrow> 'n sockets \<Rightarrow> 'r \<times> 'n sockets" where
  "call f s = (let (r, n) = f (env s) in (r, s\<lparr>env := n\<rparr>))"

definition run :: "('n \<Rightarrow> 'n) \<Rightarrow> 'n sockets \<Rightarrow> 'n sockets" where
  "run f s = s\<lparr>env := f (env s)\<rparr>"

section \<open>Conversions for lwIP\<close>

definition mp_socket_domain_to_lwip :: "'n backend \<Rightarrow> int \<Rightarrow> int" where
  "mp_socket_domain_to_lwip b d =
     (if d = MP_AF_INET then c_AF_INET b else if d = MP_AF_INET6 then c_AF_INET6 b
      else if d = MP_AF_UNIX then c_AF_UNIX b else c_AF_INET b)"

definition mp_socket_type_to_lwip :: "'n backend \<Rightarrow> int \<Rightarrow> int" where
  "mp_socket_type_to_lwip b t =
     (if t = MP_SOCK_STREAM then c_SOCK_STREAM b else if t = MP_SOCK_DGRAM then c_SOCK_DGRAM b
      else if t = MP_SOCK_RAW then c_SOCK_RAW b else c_SOCK_STREAM b)"

definition mp_socket_protocol_to_lwip :: "'n backend \<Rightarrow> int \<Rightarrow> int" where
  "mp_socket_protocol_to_lwip b p =
     (if p = MP_IPPROTO_TCP then c_IPPROTO_TCP b else if p = MP_IPPROTO_UDP then c_IPPROTO_UDP b
      else if p = MP_IPPROTO_ICMP then c_IPPROTO_ICMP b else 0)"

text \<open>The fields of an address in memory: the family and the port at 0 and 2, the IPv4 address or the sixteen bytes of
  the IPv6 address at 4.\<close>

definition load_port :: "u8 list \<Rightarrow> nat \<Rightarrow> u16 option" where
  "load_port m off = do { bs \<leftarrow> mem_read m off 2; Some (or_bytes 0 bs) }"

definition load_addr :: "u8 list \<Rightarrow> nat \<Rightarrow> u32 option" where
  "load_addr m off = do { bs \<leftarrow> mem_read m off 4; Some (or_bytes 0 bs) }"

definition mp_sockaddr_to_lwip :: "'n backend \<Rightarrow> u8 list option \<Rightarrow> nat \<Rightarrow> net_addr option" where
  "mp_sockaddr_to_lwip b src addrlen =
     (case src of None \<Rightarrow> Some Lwip_unset
      | Some m \<Rightarrow>
          do { family \<leftarrow> load_port m 0;
               if uint family = MP_AF_INET
               then do { port \<leftarrow> load_port m 2; addr \<leftarrow> load_addr m 4; Some (Lwip_in port addr) }
               else if uint family = MP_AF_INET6
               then do { port \<leftarrow> load_port m 2; addr \<leftarrow> mem_read m 4 16; Some (Lwip_in6 port addr) }
               else if addrlen \<le> c_storage_size b then Some Lwip_zero else None })"

definition sizeof_sockaddr_in :: nat where "sizeof_sockaddr_in = 16"
definition sizeof_sockaddr_in6 :: nat where "sizeof_sockaddr_in6 = 28"

text \<open>The address object and the length that the caller passed; the caller's length is not looked at.\<close>

definition mp_sockaddr_from_lwip ::
  "net_addr \<Rightarrow> u8 list option \<Rightarrow> nat option \<Rightarrow> (u8 list option \<times> nat option) option" where
  "mp_sockaddr_from_lwip src dest dest_len =
     (case (dest, dest_len) of
        (Some d, Some l) \<Rightarrow>
          (case src of
             Lwip_in port addr \<Rightarrow>
               do { d' \<leftarrow> mem_write d 0 (fixed16_bytes (of_int MP_AF_INET) @ fixed16_bytes port @ fixed32_bytes addr);
                    Some (Some d', Some sizeof_sockaddr_in) }
           | Lwip_in6 port addr \<Rightarrow>
               do { d' \<leftarrow> mem_write d 0 (fixed16_bytes (of_int MP_AF_INET6) @ fixed16_bytes port @ addr);
                    Some (Some d', Some sizeof_sockaddr_in6) }
           | _ \<Rightarrow> Some (Some d, Some 0))
      | _ \<Rightarrow> Some (dest, dest_len))"

text \<open>The copy on POSIX is as long as the address that the system has written.\<close>

definition copy_native :: "net_addr \<Rightarrow> u8 list option \<Rightarrow> nat option \<Rightarrow> (u8 list option \<times> nat option) option" where
  "copy_native src dest dest_len =
     (case (src, dest, dest_len) of
        (Native m, Some d, Some l) \<Rightarrow> do { d' \<leftarrow> mem_write d 0 m; Some (Some d', Some (length m)) }
      | _ \<Rightarrow> Some (dest, dest_len))"

text \<open>The address argument that the platform gets.\<close>

definition passed_addr :: "'n backend \<Rightarrow> u8 list option \<Rightarrow> nat \<Rightarrow> net_addr option" where
  "passed_addr b addr addrlen =
     (case platform b of
        Platform_esp32 \<Rightarrow> mp_sockaddr_to_lwip b addr addrlen
      | _ \<Rightarrow> Some (Native (case addr of None \<Rightarrow> [] | Some m \<Rightarrow> m)))"

definition returned_addr ::
  "'n backend \<Rightarrow> net_addr \<Rightarrow> u8 list option \<Rightarrow> nat option \<Rightarrow> (u8 list option \<times> nat option) option" where
  "returned_addr b src dest dest_len =
     (case platform b of
        Platform_esp32 \<Rightarrow> mp_sockaddr_from_lwip src dest dest_len
      | _ \<Rightarrow> copy_native src dest dest_len)"

section \<open>Operations\<close>

definition mp_socket :: "'n backend \<Rightarrow> int \<Rightarrow> int \<Rightarrow> int \<Rightarrow> 'n sockets \<Rightarrow> (int \<times> 'n sockets) option" where
  "mp_socket b domain type protocol s =
     do { s1 \<leftarrow> mp_socket_lock s;
          let slot = mp_socket_find_free_slot s1;
          if slot = -1 then Some (MP_SOCKET_INVALID, mp_socket_unlock s1)
          else if platform b = Platform_other then Some (MP_SOCKET_INVALID, mp_socket_unlock s1)
          else
            let (d, s2) =
              (if platform b = Platform_esp32
               then call (b_socket b (mp_socket_domain_to_lwip b domain) (mp_socket_type_to_lwip b type)
                       (mp_socket_protocol_to_lwip b protocol)) s1
               else call (b_socket b domain type protocol) s1)
            in if d < 0 then Some (MP_SOCKET_INVALID, mp_socket_unlock s2)
               else Some (slot, mp_socket_unlock (upd_slot slot
                      (\<lambda>_. \<lparr>fd = d, so_domain = domain, so_type = type, so_protocol = protocol,
                             so_blocking = True, so_connected = False\<rparr>) s2)) }"

definition mp_close :: "'n backend \<Rightarrow> int \<Rightarrow> 'n sockets \<Rightarrow> (int \<times> 'n sockets) option" where
  "mp_close b sockfd s =
     do { bad \<leftarrow> bad_socket sockfd s;
          if bad then Some (-1, s)
          else do { s1 \<leftarrow> mp_socket_lock s;
                    let s2 = (if platform b = Platform_other then s1 else run (b_close b (sock_fd sockfd s1)) s1);
                    Some (0, mp_socket_unlock
                      (upd_slot sockfd (\<lambda>k. k\<lparr>fd := MP_SOCKET_INVALID_FD, so_connected := False\<rparr>) s2)) } }"

text \<open>The body of an operation on a valid socket, and what it returns otherwise.\<close>

definition on_socket ::
  "'n backend \<Rightarrow> int \<Rightarrow> 'r \<Rightarrow> ('n sockets \<Rightarrow> ('r \<times> 'n sockets) option) \<Rightarrow> 'n sockets \<Rightarrow> ('r \<times> 'n sockets) option" where
  "on_socket b sockfd bad_result body s =
     do { bad \<leftarrow> bad_socket sockfd s;
          if bad then Some (bad_result, s)
          else if platform b = Platform_other then Some (bad_result, s) else body s }"

definition mp_bind :: "'n backend \<Rightarrow> int \<Rightarrow> u8 list option \<Rightarrow> nat \<Rightarrow> 'n sockets \<Rightarrow> (int \<times> 'n sockets) option" where
  "mp_bind b sockfd addr addrlen =
     on_socket b sockfd (-1) (\<lambda>s.
       do { a \<leftarrow> passed_addr b addr addrlen; Some (call (b_bind b (sock_fd sockfd s) a addrlen) s) })"

definition mp_connect :: "'n backend \<Rightarrow> int \<Rightarrow> u8 list option \<Rightarrow> nat \<Rightarrow> 'n sockets \<Rightarrow> (int \<times> 'n sockets) option" where
  "mp_connect b sockfd addr addrlen =
     on_socket b sockfd (-1) (\<lambda>s.
       do { a \<leftarrow> passed_addr b addr addrlen;
            let (result, s1) = call (b_connect b (sock_fd sockfd s) a addrlen) s;
            Some (result, if result = 0 then upd_slot sockfd (\<lambda>k. k\<lparr>so_connected := True\<rparr>) s1 else s1) })"

definition mp_listen :: "'n backend \<Rightarrow> int \<Rightarrow> int \<Rightarrow> 'n sockets \<Rightarrow> (int \<times> 'n sockets) option" where
  "mp_listen b sockfd backlog =
     on_socket b sockfd (-1) (\<lambda>s. Some (call (b_listen b (sock_fd sockfd s) backlog) s))"

text \<open>The socket, and what is left in the address and the length of the caller.\<close>

definition mp_accept ::
  "'n backend \<Rightarrow> int \<Rightarrow> u8 list option \<Rightarrow> nat option \<Rightarrow> 'n sockets \<Rightarrow>
     ((int \<times> u8 list option \<times> nat option) \<times> 'n sockets) option" where
  "mp_accept b sockfd addr addrlen =
     on_socket b sockfd (MP_SOCKET_INVALID, addr, addrlen) (\<lambda>s.
       let ((d, from), s1) =
             call (\<lambda>n. let (d, a, n') = b_accept b (sock_fd sockfd s) n in ((d, a), n')) s
       in if d < 0 then Some ((MP_SOCKET_INVALID, addr, addrlen), s1)
          else
            let slot = mp_socket_find_free_slot s1
            in if slot = -1 then Some ((MP_SOCKET_INVALID, addr, addrlen), run (b_close b d) s1)
               else
                 let k = slots s1 ! nat sockfd;
                     s2 = upd_slot slot
                       (\<lambda>_. \<lparr>fd = d, so_domain = so_domain k, so_type = so_type k, so_protocol = so_protocol k,
                              so_blocking = True, so_connected = True\<rparr>) s1
                 in do { (addr', addrlen') \<leftarrow> returned_addr b from addr addrlen;
                         Some ((slot, addr', addrlen'), s2) })"

definition mp_send :: "'n backend \<Rightarrow> int \<Rightarrow> u8 list \<Rightarrow> int \<Rightarrow> 'n sockets \<Rightarrow> (int \<times> 'n sockets) option" where
  "mp_send b sockfd buf flags =
     on_socket b sockfd (-1) (\<lambda>s. Some (call (b_send b (sock_fd sockfd s) buf flags) s))"

text \<open>The count and the bytes that were stored in the buffer.\<close>

definition mp_recv ::
  "'n backend \<Rightarrow> int \<Rightarrow> nat \<Rightarrow> int \<Rightarrow> 'n sockets \<Rightarrow> ((int \<times> u8 list) \<times> 'n sockets) option" where
  "mp_recv b sockfd len flags =
     on_socket b sockfd (-1, []) (\<lambda>s.
       Some (call (\<lambda>n. let (r, bs, n') = b_recv b (sock_fd sockfd s) len flags n in ((r, bs), n')) s))"

definition mp_sendto ::
  "'n backend \<Rightarrow> int \<Rightarrow> u8 list \<Rightarrow> int \<Rightarrow> u8 list option \<Rightarrow> nat \<Rightarrow> 'n sockets \<Rightarrow> (int \<times> 'n sockets) option" where
  "mp_sendto b sockfd buf flags dest_addr addrlen =
     on_socket b sockfd (-1) (\<lambda>s.
       do { a \<leftarrow> passed_addr b dest_addr addrlen;
            Some (call (b_sendto b (sock_fd sockfd s) buf flags a addrlen) s) })"

definition mp_recvfrom ::
  "'n backend \<Rightarrow> int \<Rightarrow> nat \<Rightarrow> int \<Rightarrow> u8 list option \<Rightarrow> nat option \<Rightarrow> 'n sockets \<Rightarrow>
     ((int \<times> u8 list \<times> u8 list option \<times> nat option) \<times> 'n sockets) option" where
  "mp_recvfrom b sockfd len flags src_addr addrlen =
     on_socket b sockfd (-1, [], src_addr, addrlen) (\<lambda>s.
       let ((result, bs, from), s1) =
             call (\<lambda>n. let (r, bs, a, n') = b_recvfrom b (sock_fd sockfd s) len flags n in ((r, bs, a), n')) s
       in do { (src', len') \<leftarrow> (if result \<ge> 0 then returned_addr b from src_addr addrlen else Some (src_addr, addrlen));
               Some ((result, bs, src', len'), s1) })"

definition mp_setsockopt :: "'n backend \<Rightarrow> int \<Rightarrow> int \<Rightarrow> int \<Rightarrow> u8 list \<Rightarrow> 'n sockets \<Rightarrow> (int \<times> 'n sockets) option" where
  "mp_setsockopt b sockfd level optname optval =
     on_socket b sockfd (-1) (\<lambda>s. Some (call (b_setsockopt b (sock_fd sockfd s) level optname optval) s))"

definition mp_getsockopt ::
  "'n backend \<Rightarrow> int \<Rightarrow> int \<Rightarrow> int \<Rightarrow> nat \<Rightarrow> 'n sockets \<Rightarrow> ((int \<times> u8 list) \<times> 'n sockets) option" where
  "mp_getsockopt b sockfd level optname optlen =
     on_socket b sockfd (-1, []) (\<lambda>s.
       Some (call (\<lambda>n. let (r, bs, n') = b_getsockopt b (sock_fd sockfd s) level optname optlen n in ((r, bs), n')) s))"

definition mp_socket_set_blocking :: "'n backend \<Rightarrow> int \<Rightarrow> bool \<Rightarrow> 'n sockets \<Rightarrow> (int \<times> 'n sockets) option" where
  "mp_socket_set_blocking b sockfd blocking s =
     do { bad \<leftarrow> bad_socket sockfd s;
          if bad then Some (-1, s)
          else
            let s1 = upd_slot sockfd (\<lambda>k. k\<lparr>so_blocking := blocking\<rparr>) s
            in if platform b = Platform_other then Some (-1, s1)
               else
                 let (flags, s2) = call (b_getfl b (sock_fd sockfd s1)) s1
                 in Some (0, run (b_setfl b (sock_fd sockfd s2)
                              (if blocking then flags AND NOT (c_O_NONBLOCK b) else flags OR c_O_NONBLOCK b)) s2) }"

text \<open>An \<open>int\<close> that the platform stores; it is not set when the call fails.\<close>

definition option_int :: "'n backend \<Rightarrow> int \<Rightarrow> int \<Rightarrow> int \<Rightarrow> 'n sockets \<Rightarrow> int \<times> int option \<times> 'n sockets" where
  "option_int b sockfd level optname s =
     (let ((r, bs), s1) =
        call (\<lambda>n. let (r, bs, n') = b_getsockopt b (sock_fd sockfd s) level optname 4 n in ((r, bs), n')) s
      in (r, if r = 0 \<and> length bs = 4 then Some (sint (or_bytes 0 bs :: u32)) else None, s1))"

definition mp_socket_get_error :: "'n backend \<Rightarrow> int \<Rightarrow> 'n sockets \<Rightarrow> (int \<times> 'n sockets) option" where
  "mp_socket_get_error b sockfd =
     on_socket b sockfd (-1) (\<lambda>s.
       let (r, err, s1) = option_int b sockfd (c_SOL_SOCKET b) (c_SO_ERROR b) s
       in do { e \<leftarrow> err; Some (e, s1) })"

definition mp_socket_available :: "'n backend \<Rightarrow> int \<Rightarrow> 'n sockets \<Rightarrow> (bool \<times> 'n sockets) option" where
  "mp_socket_available b sockfd =
     on_socket b sockfd False (\<lambda>s.
       if platform b = Platform_esp32
       then let (r, available, s1) = option_int b sockfd (c_SOL_SOCKET b) (c_SO_RCVBUF b) s
            in if r = 0 then do { v \<leftarrow> available; Some (v > 0, s1) } else Some (False, s1)
       else let ((r, available), s1) =
              call (\<lambda>n. let (r, v, n') = b_fionread b (sock_fd sockfd s) n in ((r, v), n')) s
            in Some (r = 0 \<and> available > 0, s1))"

text \<open>The result and what is left in \<open>*hostent\<close>.\<close>

definition mp_gethostbyname ::
  "'n backend \<Rightarrow> cstring option \<Rightarrow> mp_hostent option \<Rightarrow> 'n sockets \<Rightarrow> (int \<times> mp_hostent option) \<times> 'n sockets" where
  "mp_gethostbyname b name hostent s =
     (case (name, hostent) of
        (Some nm, Some h) \<Rightarrow>
          if platform b = Platform_other then ((-1, hostent), s)
          else let (he, s1) = call (b_gethostbyname b nm) s
               in (case he of None \<Rightarrow> ((-1, hostent), s1) | Some h' \<Rightarrow> ((0, Some h'), s1))
      | _ \<Rightarrow> ((-1, hostent), s))"

section \<open>Byte order and addresses\<close>

definition htons :: "u16 \<Rightarrow> u16" where
  "htons port = push_bit 8 (port AND 0xFF) OR (drop_bit 8 port AND 0xFF)"

definition ntohs :: "u16 \<Rightarrow> u16" where "ntohs port = htons port"

definition htonl :: "u32 \<Rightarrow> u32" where
  "htonl v =
     push_bit 24 (v AND 0xFF) OR push_bit 8 (v AND 0xFF00) OR drop_bit 8 (v AND 0xFF0000) OR (drop_bit 24 v AND 0xFF)"

definition ntohl :: "u32 \<Rightarrow> u32" where "ntohl v = htonl v"

definition dec_byte :: "u32 \<Rightarrow> cstring" where "dec_byte w = decimal (unat w)"

definition mp_ip_to_str :: "u32 \<Rightarrow> cstring" where
  "mp_ip_to_str ip =
     printed 16 (dec_byte (drop_bit 24 ip AND 0xFF) @ [ch_dot] @ dec_byte (drop_bit 16 ip AND 0xFF) @ [ch_dot] @
       dec_byte (drop_bit 8 ip AND 0xFF) @ [ch_dot] @ dec_byte (ip AND 0xFF))"

text \<open>\<open>%u\<close> of \<open>sscanf\<close>, which is \<open>strtoul\<close>: white space, a sign, digits; the value is clamped to the largest \<open>unsigned
  long\<close> before a minus sign negates it.\<close>

definition scan_u :: "cstring \<Rightarrow> (u32 \<times> cstring) option" where
  "scan_u s =
     (let t = dropWhile is_space s;
          neg = (t \<noteq> [] \<and> hd t = ch_minus);
          u = (if t \<noteq> [] \<and> (hd t = ch_minus \<or> hd t = ch_plus) then tl t else t);
          ds = takeWhile is_digit u;
          n = digits_value 0 ds
      in if ds = [] then None
         else Some (if 2 ^ 32 \<le> n then 0xFFFFFFFF else if neg then - of_int n else of_int n, drop (length ds) u))"

fun scan_char :: "u8 \<Rightarrow> cstring \<Rightarrow> cstring option" where
  "scan_char c [] = None"
| "scan_char c (d # s) = (if c = d then Some s else None)"

definition mp_str_to_ip :: "cstring \<Rightarrow> u32" where
  "mp_str_to_ip str =
     (case do { (a, r1) \<leftarrow> scan_u str; r2 \<leftarrow> scan_char ch_dot r1;
                (b, r3) \<leftarrow> scan_u r2; r4 \<leftarrow> scan_char ch_dot r3;
                (c, r5) \<leftarrow> scan_u r4; r6 \<leftarrow> scan_char ch_dot r5;
                (d, r7) \<leftarrow> scan_u r6;
                Some (push_bit 24 a OR push_bit 16 b OR push_bit 8 c OR d) } of
        Some ip \<Rightarrow> ip | None \<Rightarrow> 0)"

text \<open>The bytes of a filled-in \<open>mp_sockaddr_in\<close> and \<open>mp_sockaddr_in6\<close>.\<close>

definition mp_sockaddr_in_init :: "u32 \<Rightarrow> u16 \<Rightarrow> u8 list" where
  "mp_sockaddr_in_init ip port =
     fixed16_bytes (of_int MP_AF_INET) @ fixed16_bytes (htons port) @ fixed32_bytes ip @ replicate 8 0"

definition mp_sockaddr_in6_init :: "u8 list \<Rightarrow> u16 \<Rightarrow> u8 list" where
  "mp_sockaddr_in6_init ip port =
     fixed16_bytes (of_int MP_AF_INET6) @ fixed16_bytes (htons port) @ ip @ replicate 8 0"

end
