(* ===== verification/Http.thy ===== *)
theory Http
  imports Socket Console
begin

text \<open>
  The HTTP client of \<open>src/network/http_client.c\<close> on the sockets: requests, URLs, sending a request and receiving the
  response.  An allocation gives an address, 0 when it fails.  A block that is never released is not tracked.
\<close>

section \<open>Requests\<close>

definition MP_HTTP_MAX_HEADERS :: nat where "MP_HTTP_MAX_HEADERS = 16"
definition MP_HTTP_MAX_PATH_LENGTH :: nat where "MP_HTTP_MAX_PATH_LENGTH = 128"
definition MP_HTTP_MAX_HOST_LENGTH :: nat where "MP_HTTP_MAX_HOST_LENGTH = 64"
definition HTTP_PORT :: u16 where "HTTP_PORT = 80"
definition HTTP_REQUEST_TIMEOUT :: u32 where "HTTP_REQUEST_TIMEOUT = 10000"
definition HTTP_RESPONSE_BUFFER_SIZE :: nat where "HTTP_RESPONSE_BUFFER_SIZE = 2048"

datatype mp_http_method =
    MP_HTTP_METHOD_GET | MP_HTTP_METHOD_POST | MP_HTTP_METHOD_PUT | MP_HTTP_METHOD_DELETE | MP_HTTP_METHOD_HEAD
  | MP_HTTP_METHOD_PATCH | MP_HTTP_METHOD_OPTIONS

text \<open>The headers are those counted by \<open>num_headers\<close>; a response has one byte more, which is never set.\<close>

record mp_http_request =
  rq_host :: "u8 list"
  rq_port :: u16
  rq_path :: "u8 list"
  rq_method :: mp_http_method
  rq_headers :: "(cstring \<times> cstring) list"
  rq_body :: "u8 list option"
  rq_body_len :: u32
  rq_timeout_ms :: u32
  rq_response :: "u8 list option"
  rq_response_len :: u32
  rq_status_code :: int

definition zero_request :: mp_http_request where
  "zero_request =
     \<lparr>rq_host = replicate MP_HTTP_MAX_HOST_LENGTH 0, rq_port = 0, rq_path = replicate MP_HTTP_MAX_PATH_LENGTH 0,
      rq_method = MP_HTTP_METHOD_GET, rq_headers = [], rq_body = None, rq_body_len = 0, rq_timeout_ms = 0,
      rq_response = None, rq_response_len = 0, rq_status_code = 0\<rparr>"

text \<open>The string in an array.\<close>

definition c_string :: "u8 list \<Rightarrow> cstring" where
  "c_string m = takeWhile (\<lambda>c. c \<noteq> 0) m"

section \<open>URLs\<close>

text \<open>What \<open>mp_http_parse_url\<close> has stored through its pointers: a string with the address it is at.\<close>

record url_parts =
  u_host :: "(u32 \<times> cstring) option"
  u_port :: "u16 option"
  u_path :: "(u32 \<times> cstring) option"

definition no_parts :: url_parts where
  "no_parts = \<lparr>u_host = None, u_port = None, u_path = None\<rparr>"

definition c_strdup :: "'n backend \<Rightarrow> cstring \<Rightarrow> 'n \<Rightarrow> (u32 \<times> cstring) \<times> 'n" where
  "c_strdup b t n = (let (a, n') = b_alloc b (length t + 1) n in ((a, t), n'))"

definition url_start :: "cstring \<Rightarrow> cstring" where
  "url_start url = (case strstr url (ascii ''://'') of Some i \<Rightarrow> drop (i + 3) url | None \<Rightarrow> url)"

definition mp_http_parse_url :: "'n backend \<Rightarrow> cstring option \<Rightarrow> 'n \<Rightarrow> (int \<times> url_parts) \<times> 'n" where
  "mp_http_parse_url b url n =
     (case url of None \<Rightarrow> ((-1, no_parts), n)
      | Some u \<Rightarrow>
          let start = url_start u
          in (case (strchr start ch_colon, strchr start ch_slash) of
                (None, None) \<Rightarrow>
                  let (h, n1) = c_strdup b start n; (p, n2) = c_strdup b (ascii ''/'') n1
                  in ((0, \<lparr>u_host = Some h, u_port = Some 0, u_path = Some p\<rparr>), n2)
              | (host_end, path_start) \<Rightarrow>
                  if host_end \<noteq> None \<and> (path_start = None \<or> the host_end < the path_start)
                  then
                    let (h, n1) = c_strdup b (take (the host_end) start) n
                    in if fst h = 0 then ((-1, no_parts\<lparr>u_host := Some h\<rparr>), n1)
                       else
                         let port = of_int (c_atoi (drop (the host_end + 1) start));
                             (p, n2) = c_strdup b (case path_start of Some i \<Rightarrow> drop i start | None \<Rightarrow> ascii ''/'') n1
                         in ((0, \<lparr>u_host = Some h, u_port = Some port, u_path = Some p\<rparr>), n2)
                  else
                    let (h, n1) = c_strdup b (take (the path_start) start) n
                    in if fst h = 0 then ((-1, no_parts\<lparr>u_host := Some h\<rparr>), n1)
                       else
                         let (p, n2) = c_strdup b (drop (the path_start) start) n1
                         in ((0, \<lparr>u_host = Some h, u_port = Some 0, u_path = Some p\<rparr>), n2)))"

text \<open>
  \<open>mp_http_request_create\<close> passes \<open>&request->host\<close> and \<open>&request->path\<close>, the addresses of two arrays, where pointers
  to pointers are expected: the addresses of the strings are stored in the first bytes of the arrays.
\<close>

definition store_pointer :: "(u32 \<times> cstring) option \<Rightarrow> u8 list \<Rightarrow> u8 list" where
  "store_pointer p m = (case p of None \<Rightarrow> m | Some (a, t) \<Rightarrow> fixed32_bytes a @ drop 4 m)"

definition sizeof_http_request :: nat where "sizeof_http_request = 356"

definition mp_http_request_create :: "'n backend \<Rightarrow> cstring option \<Rightarrow> 'n \<Rightarrow> mp_http_request option \<times> 'n" where
  "mp_http_request_create b url n =
     (if url = None then (None, n)
      else
        let (a, n1) = b_alloc b sizeof_http_request n
        in if a = 0 then (None, n1)
           else
             let ((r, parts), n2) = mp_http_parse_url b url n1
             in if r \<noteq> 0 then (None, n2)
                else
                  let port = (case u_port parts of Some p \<Rightarrow> p | None \<Rightarrow> 0)
                  in (Some (zero_request
                        \<lparr>rq_host := store_pointer (u_host parts) (rq_host zero_request),
                         rq_path := store_pointer (u_path parts) (rq_path zero_request),
                         rq_method := MP_HTTP_METHOD_GET,
                         rq_port := (if port = 0 then HTTP_PORT else port),
                         rq_timeout_ms := HTTP_REQUEST_TIMEOUT\<rparr>), n2))"

definition mp_http_request_set_method :: "mp_http_method \<Rightarrow> mp_http_request option \<Rightarrow> mp_http_request option" where
  "mp_http_request_set_method m rq = map_option (\<lambda>q. q\<lparr>rq_method := m\<rparr>) rq"

text \<open>\<open>strncpy\<close> of at most \<open>n\<close> bytes, padded with zeros to \<open>n\<close>.\<close>

definition c_strncpy :: "nat \<Rightarrow> cstring \<Rightarrow> u8 list \<Rightarrow> u8 list" where
  "c_strncpy n src m = take n src @ replicate (n - length src) 0 @ drop n m"

definition mp_http_request_set_path :: "cstring option \<Rightarrow> mp_http_request option \<Rightarrow> mp_http_request option" where
  "mp_http_request_set_path path rq =
     (case (rq, path) of
        (Some q, Some p) \<Rightarrow> Some (q\<lparr>rq_path := c_strncpy (MP_HTTP_MAX_PATH_LENGTH - 1) p (rq_path q)\<rparr>)
      | _ \<Rightarrow> rq)"

definition mp_http_request_add_header ::
  "'n backend \<Rightarrow> cstring option \<Rightarrow> cstring option \<Rightarrow> mp_http_request option \<times> 'n \<Rightarrow> int \<times> mp_http_request option \<times> 'n" where
  "mp_http_request_add_header b name val st =
     (case (st, name, val) of
        ((Some q, n), Some nm, Some v) \<Rightarrow>
          if length (rq_headers q) \<ge> MP_HTTP_MAX_HEADERS then (-1, Some q, n)
          else
            let (p1, n1) = c_strdup b nm n; (p2, n2) = c_strdup b v n1
            in if fst p1 = 0 \<or> fst p2 = 0 then (-1, Some q, n2)
               else (0, Some (q\<lparr>rq_headers := rq_headers q @ [(nm, v)]\<rparr>), n2)
      | ((rq, n), _, _) \<Rightarrow> (-1, rq, n))"

text \<open>When the copy cannot be allocated the body is gone and its length stays.\<close>

definition mp_http_request_set_body ::
  "'n backend \<Rightarrow> u8 list option \<Rightarrow> u32 \<Rightarrow> mp_http_request option \<times> 'n \<Rightarrow> (int \<times> mp_http_request option \<times> 'n) option" where
  "mp_http_request_set_body b body len st =
     (case st of (None, n) \<Rightarrow> Some (-1, None, n)
      | (Some q, n) \<Rightarrow>
          (case body of
             Some m \<Rightarrow>
               if len > 0
               then
                 let (a, n1) = b_alloc b (unat len) n
                 in if a = 0 then Some (-1, Some (q\<lparr>rq_body := None\<rparr>), n1)
                    else do { bs \<leftarrow> mem_read m 0 (unat len);
                              Some (0, Some (q\<lparr>rq_body := Some bs, rq_body_len := len\<rparr>), n1) }
               else Some (0, Some (q\<lparr>rq_body := None, rq_body_len := 0\<rparr>), n)
           | None \<Rightarrow> Some (0, Some (q\<lparr>rq_body := None, rq_body_len := 0\<rparr>), n)))"

definition mp_http_request_set_timeout :: "u32 \<Rightarrow> mp_http_request option \<Rightarrow> mp_http_request option" where
  "mp_http_request_set_timeout t rq = map_option (\<lambda>q. q\<lparr>rq_timeout_ms := t\<rparr>) rq"

section \<open>Sending a request\<close>

fun method_name :: "mp_http_method \<Rightarrow> cstring" where
  "method_name MP_HTTP_METHOD_GET = ascii ''GET''"
| "method_name MP_HTTP_METHOD_POST = ascii ''POST''"
| "method_name MP_HTTP_METHOD_PUT = ascii ''PUT''"
| "method_name MP_HTTP_METHOD_DELETE = ascii ''DELETE''"
| "method_name MP_HTTP_METHOD_HEAD = ascii ''HEAD''"
| "method_name MP_HTTP_METHOD_PATCH = ascii ''GET''"
| "method_name MP_HTTP_METHOD_OPTIONS = ascii ''GET''"

definition line_size :: nat where "line_size = 256"

definition request_line :: "mp_http_request \<Rightarrow> cstring" where
  "request_line q = printed line_size (method_name (rq_method q) @ [ch_space] @ c_string (rq_path q) @ ascii '' HTTP/1.1'' @ crlf)"

definition header_line :: "cstring \<Rightarrow> cstring \<Rightarrow> cstring" where
  "header_line name val = printed line_size (name @ ascii '': '' @ val @ crlf)"

text \<open>What is sent, in order; \<^term>\<open>None\<close> is a null pointer.\<close>

definition request_messages :: "mp_http_request \<Rightarrow> u8 list option list" where
  "request_messages q =
     [Some (request_line q), Some (header_line (ascii ''Host'') (c_string (rq_host q)))]
     @ map (\<lambda>(name, val). Some (header_line name val)) (rq_headers q)
     @ (if rq_body_len q > 0 then [Some (header_line (ascii ''Content-Length'') (show_d (rq_body_len q)))] else [])
     @ [Some crlf]
     @ (if rq_body_len q > 0 then [rq_body q] else [])"

fun send_messages :: "'n backend \<Rightarrow> int \<Rightarrow> u8 list option list \<Rightarrow> 'n sockets \<Rightarrow> (bool \<times> 'n sockets) option" where
  "send_messages b sockfd [] s = Some (True, s)"
| "send_messages b sockfd (None # ms) s = None"
| "send_messages b sockfd (Some m # ms) s =
     do { (r, s1) \<leftarrow> mp_send b sockfd m 0 s;
          if r < 0 then Some (False, s1) else send_messages b sockfd ms s1 }"

text \<open>The clock has 64 bits, the start of a wait 32.\<close>

definition timed_out :: "'n backend \<Rightarrow> u32 \<Rightarrow> u32 \<Rightarrow> 'n sockets \<Rightarrow> bool" where
  "timed_out b start_time timeout_ms s \<longleftrightarrow> b_clock b (env s) - ucast start_time > ucast timeout_ms"

text \<open>The wait for the connection: whether it was over before the timeout.\<close>

partial_function (option) wait_available ::
  "'n backend \<Rightarrow> int \<Rightarrow> u32 \<Rightarrow> u32 \<Rightarrow> 'n sockets \<Rightarrow> (bool \<times> 'n sockets) option" where
  "wait_available b sockfd start_time timeout_ms s =
     do { (available, s1) \<leftarrow> mp_socket_available b sockfd s;
          if available then Some (True, s1)
          else if timed_out b start_time timeout_ms s1 then Some (False, s1)
          else wait_available b sockfd start_time timeout_ms (run (b_sleep b 10) s1) }"

section \<open>Receiving the response\<close>

text \<open>
  A call of \<open>strtok\<close> on a buffer from an offset: where the token starts, how long it is, the buffer in which it has been
  terminated, and where the next call starts.
\<close>

definition strtok_at :: "u8 list \<Rightarrow> u8 list \<Rightarrow> nat \<Rightarrow> (nat \<times> nat \<times> u8 list \<times> nat) option" where
  "strtok_at ds buf start =
     (let s = c_string (drop start buf);
          first = start + length (takeWhile (\<lambda>c. c \<in> set ds) s);
          t = dropWhile (\<lambda>c. c \<in> set ds) s;
          len = length (takeWhile (\<lambda>c. c \<notin> set ds) t)
      in if t = [] then None
         else if len = length t then Some (first, len, buf, first + len)
         else Some (first, len, buf[first + len := 0], first + len + 1))"

text \<open>The buffer after the status line has been taken apart, and the status if it was found.\<close>

definition parse_status :: "u8 list \<Rightarrow> u8 list \<times> int option" where
  "parse_status buf =
     (case strtok_at crlf buf 0 of None \<Rightarrow> (buf, None)
      | Some (status_line, n1, buf1, next1) \<Rightarrow>
          (case strtok_at [ch_space] buf1 status_line of None \<Rightarrow> (buf1, None)
           | Some (t1, n2, buf2, next2) \<Rightarrow>
               (case strtok_at [ch_space] buf2 next2 of None \<Rightarrow> (buf2, None)
                | Some (t2, n3, buf3, next3) \<Rightarrow> (buf3, Some (c_atoi (take n3 (drop t2 buf3)))))))"

text \<open>The bytes received, as they are appended, the status, and whether the headers have been seen at the parse.\<close>

definition receive_chunk :: "bool \<Rightarrow> u8 list \<Rightarrow> mp_http_request \<Rightarrow> u8 list \<times> mp_http_request \<times> bool" where
  "receive_chunk headers_received bytes q =
     (let buffer = bytes @ [0]
      in if \<not> headers_received \<and> take 5 buffer = ascii ''HTTP/''
         then let (buffer', status) = parse_status buffer
              in (take (length bytes) buffer', (case status of Some c \<Rightarrow> q\<lparr>rq_status_code := c\<rparr> | None \<Rightarrow> q), True)
         else (bytes, q, headers_received))"

text \<open>The loop of \<open>mp_http_request_send\<close>: whether it ended without an error.\<close>

partial_function (option) receive_loop ::
  "'n backend \<Rightarrow> int \<Rightarrow> u32 \<Rightarrow> bool \<Rightarrow> mp_http_request \<Rightarrow> 'n sockets \<Rightarrow> (bool \<times> mp_http_request \<times> 'n sockets) option" where
  "receive_loop b sockfd start_time headers_received q s =
     (if timed_out b start_time (rq_timeout_ms q) s then Some (False, q, s)
      else do {
        ((received, bytes), s1) \<leftarrow> mp_recv b sockfd (HTTP_RESPONSE_BUFFER_SIZE - 1) 0 s;
        if received < 0
        then do { (available, s2) \<leftarrow> mp_socket_available b sockfd s1;
                  if \<not> available
                  then receive_loop b sockfd start_time headers_received q (run (b_sleep b 10) s2)
                  else Some (False, q, s2) }
        else if received = 0 then Some (True, q, s1)
        else if int (length bytes) \<noteq> received \<or> length bytes \<ge> HTTP_RESPONSE_BUFFER_SIZE then None
        else do {
          let (appended, q1, seen) = receive_chunk headers_received bytes q;
          let old = (case rq_response q1 of Some m \<Rightarrow> m | None \<Rightarrow> []);
          let (a, s2) = call (b_alloc b (length old + length bytes + 1)) s1;
          if a = 0 then Some (False, q1, s2)
          else receive_loop b sockfd start_time
                 (seen \<or> strstr (c_string (appended @ [0])) (crlf @ crlf) \<noteq> None)
                 (q1\<lparr>rq_response := Some (old @ appended), rq_response_len := of_nat (length old + length bytes)\<rparr>) s2 } })"

text \<open>An error after the socket was made: it is closed.\<close>

definition close_and_fail ::
  "'n backend \<Rightarrow> int \<Rightarrow> mp_http_request \<Rightarrow> 'n sockets \<Rightarrow> (int \<times> mp_http_request \<times> 'n sockets) option" where
  "close_and_fail b sockfd q s = do { (r, s') \<leftarrow> mp_close b sockfd s; Some (-1, q, s') }"

text \<open>The part after the connection is made.\<close>

definition exchange ::
  "'n backend \<Rightarrow> int \<Rightarrow> mp_http_request \<Rightarrow> 'n sockets \<Rightarrow> (int \<times> mp_http_request \<times> 'n sockets) option" where
  "exchange b sockfd q s =
     do { (sent, s1) \<leftarrow> send_messages b sockfd (request_messages q) s;
          if \<not> sent then close_and_fail b sockfd q s1
          else do {
            (ok, q1, s2) \<leftarrow> receive_loop b sockfd (ucast (b_clock b (env s1))) False q s1;
            if \<not> ok then close_and_fail b sockfd q1 s2
            else do { (r, s3) \<leftarrow> mp_close b sockfd s2; Some (0, q1, s3) } } }"

definition zero_hostent :: mp_hostent where
  "zero_hostent = \<lparr>h_name = [], h_aliases = [], h_addrtype = 0, h_length = 0, h_addr_list = []\<rparr>"

definition mp_http_request_send ::
  "'n backend \<Rightarrow> mp_http_request \<Rightarrow> 'n sockets \<Rightarrow> (int \<times> mp_http_request \<times> 'n sockets) option" where
  "mp_http_request_send b rq s =
     do { let q = rq\<lparr>rq_response := None, rq_response_len := 0, rq_status_code := 0\<rparr>;
          (sockfd, s1) \<leftarrow> mp_socket b MP_AF_INET MP_SOCK_STREAM MP_IPPROTO_TCP s;
          if sockfd = MP_SOCKET_INVALID then Some (-1, q, s1)
          else do {
            (r1, s2) \<leftarrow> mp_socket_set_blocking b sockfd False s1;
            let ((r2, he), s3) = mp_gethostbyname b (Some (c_string (rq_host q))) (Some zero_hostent) s2;
            if r2 \<noteq> 0 then close_and_fail b sockfd q s3
            else do {
              he' \<leftarrow> he;
              first \<leftarrow> (case h_addr_list he' of [] \<Rightarrow> None | m # ms \<Rightarrow> load_addr m 0);
              (result, s4) \<leftarrow> mp_connect b sockfd (Some (mp_sockaddr_in_init first (rq_port q))) sizeof_sockaddr_in s3;
              if result \<noteq> 0 then close_and_fail b sockfd q s4
              else do {
                (connected, s5) \<leftarrow> wait_available b sockfd (ucast (b_clock b (env s4))) (rq_timeout_ms q) s4;
                if \<not> connected then close_and_fail b sockfd q s5
                else do {
                  (err, s6) \<leftarrow> mp_socket_get_error b sockfd s5;
                  if err \<noteq> 0 then close_and_fail b sockfd q s6
                  else do {
                    (r7, s7) \<leftarrow> mp_socket_set_blocking b sockfd True s6;
                    exchange b sockfd q s7 } } } } } }"

section \<open>The simple requests\<close>

definition mp_http_status_code_to_str :: "int \<Rightarrow> cstring" where
  "mp_http_status_code_to_str c =
     (case find (\<lambda>(n, t). c = n)
        [(100, ''Continue''), (101, ''Switching Protocols''), (200, ''OK''), (201, ''Created''), (202, ''Accepted''),
         (204, ''No Content''), (301, ''Moved Permanently''), (302, ''Found''), (304, ''Not Modified''),
         (400, ''Bad Request''), (401, ''Unauthorized''), (403, ''Forbidden''), (404, ''Not Found''),
         (500, ''Internal Server Error''), (502, ''Bad Gateway''), (503, ''Service Unavailable''),
         (504, ''Gateway Timeout'')] of
        Some (n, t) \<Rightarrow> ascii t | None \<Rightarrow> ascii ''Unknown'')"

text \<open>
  \<open>strdup\<close> of the response: undefined when there is none, or when no byte of it is zero, because the byte after it was
  never set.
\<close>

definition dup_response :: "'n backend \<Rightarrow> mp_http_request \<Rightarrow> 'n sockets \<Rightarrow> (cstring option \<times> 'n sockets) option" where
  "dup_response b q s =
     (case rq_response q of None \<Rightarrow> None
      | Some m \<Rightarrow>
          if 0 \<in> set m
          then let ((a, t), s1) = call (c_strdup b (c_string m)) s in Some (if a = 0 then None else Some t, s1)
          else None)"

text \<open>The status, the string and the length that the caller gets, \<^term>\<open>None\<close> when they are not set.\<close>

definition finish_simple ::
  "'n backend \<Rightarrow> mp_http_request \<Rightarrow> 'n sockets \<Rightarrow> (int \<times> (cstring option \<times> u32) option \<times> 'n sockets) option" where
  "finish_simple b q s =
     do { (result, q1, s1) \<leftarrow> mp_http_request_send b q s;
          if result = 0
          then do { (t, s2) \<leftarrow> dup_response b q1 s1; Some (rq_status_code q1, Some (t, rq_response_len q1), s2) }
          else Some (rq_status_code q1, Some (None, 0), s1) }"

definition mp_http_get ::
  "'n backend \<Rightarrow> cstring option \<Rightarrow> 'n sockets \<Rightarrow> (int \<times> (cstring option \<times> u32) option \<times> 'n sockets) option" where
  "mp_http_get b url s =
     (let (rq, s1) = call (mp_http_request_create b url) s
      in (case mp_http_request_set_method MP_HTTP_METHOD_GET rq of
            None \<Rightarrow> Some (-1, None, s1) | Some q \<Rightarrow> finish_simple b q s1))"

definition mp_http_post ::
  "'n backend \<Rightarrow> cstring option \<Rightarrow> cstring \<Rightarrow> 'n sockets \<Rightarrow> (int \<times> (cstring option \<times> u32) option \<times> 'n sockets) option" where
  "mp_http_post b url body s =
     (let (rq, s1) = call (mp_http_request_create b url) s
      in (case mp_http_request_set_method MP_HTTP_METHOD_POST rq of
            None \<Rightarrow> Some (-1, None, s1)
          | Some q \<Rightarrow>
              do { (r1, rq1, n1) \<leftarrow> mp_http_request_set_body b (Some (body @ [0])) (of_nat (length body)) (Some q, env s1);
                   let (r2, rq2, n2) = mp_http_request_add_header b (Some (ascii ''Content-Type''))
                          (Some (ascii ''application/x-www-form-urlencoded'')) (rq1, n1);
                   q2 \<leftarrow> rq2;
                   finish_simple b q2 (s1\<lparr>env := n2\<rparr>) }))"

end
