(* ===== verification/Socket_Correct.thy ===== *)
theory Socket_Correct
  imports Socket Json_Roundtrip Console_Correct
begin

text \<open>
  Facts about the sockets: the table as the program clears it has no free slot; whatever is called, it owns exactly the
  descriptors that the platform has open; addresses as text and in memory.
\<close>

section \<open>Sequences of operations\<close>

datatype sock_op =
    Op_socket int int int
  | Op_close int
  | Op_bind int "u8 list option" nat
  | Op_connect int "u8 list option" nat
  | Op_listen int int
  | Op_accept int "u8 list option" "nat option"
  | Op_send int "u8 list" int
  | Op_recv int nat int
  | Op_sendto int "u8 list" int "u8 list option" nat
  | Op_recvfrom int nat int "u8 list option" "nat option"
  | Op_setsockopt int int int "u8 list"
  | Op_getsockopt int int int nat
  | Op_set_blocking int bool
  | Op_get_error int
  | Op_available int
  | Op_gethostbyname "cstring option" "mp_hostent option"

fun sock_step :: "'n backend \<Rightarrow> sock_op \<Rightarrow> 'n sockets \<Rightarrow> 'n sockets option" where
  "sock_step b (Op_socket d t p) s = map_option snd (mp_socket b d t p s)"
| "sock_step b (Op_close i) s = map_option snd (mp_close b i s)"
| "sock_step b (Op_bind i a l) s = map_option snd (mp_bind b i a l s)"
| "sock_step b (Op_connect i a l) s = map_option snd (mp_connect b i a l s)"
| "sock_step b (Op_listen i n) s = map_option snd (mp_listen b i n s)"
| "sock_step b (Op_accept i a l) s = map_option snd (mp_accept b i a l s)"
| "sock_step b (Op_send i m f) s = map_option snd (mp_send b i m f s)"
| "sock_step b (Op_recv i n f) s = map_option snd (mp_recv b i n f s)"
| "sock_step b (Op_sendto i m f a l) s = map_option snd (mp_sendto b i m f a l s)"
| "sock_step b (Op_recvfrom i n f a l) s = map_option snd (mp_recvfrom b i n f a l s)"
| "sock_step b (Op_setsockopt i l n v) s = map_option snd (mp_setsockopt b i l n v s)"
| "sock_step b (Op_getsockopt i l n v) s = map_option snd (mp_getsockopt b i l n v s)"
| "sock_step b (Op_set_blocking i v) s = map_option snd (mp_socket_set_blocking b i v s)"
| "sock_step b (Op_get_error i) s = map_option snd (mp_socket_get_error b i s)"
| "sock_step b (Op_available i) s = map_option snd (mp_socket_available b i s)"
| "sock_step b (Op_gethostbyname n h) s = Some (snd (mp_gethostbyname b n h s))"

fun sock_steps :: "'n backend \<Rightarrow> sock_op list \<Rightarrow> 'n sockets \<Rightarrow> 'n sockets option" where
  "sock_steps b [] s = Some s"
| "sock_steps b (op # ops) s = do { s' \<leftarrow> sock_step b op s; sock_steps b ops s' }"

text \<open>The operations that neither make nor release a descriptor.\<close>

fun plain_op :: "sock_op \<Rightarrow> bool" where
  "plain_op (Op_socket d t p) = False"
| "plain_op (Op_close i) = False"
| "plain_op (Op_accept i a l) = False"
| "plain_op _ = True"

section \<open>Descriptors\<close>

definition used_fds :: "'n sockets \<Rightarrow> int list" where
  "used_fds s = filter (\<lambda>d. d \<noteq> -1) (map fd (slots s))"

text \<open>The descriptors of a table and its lock; the plain operations change neither.\<close>

definition fds_of :: "'n sockets \<Rightarrow> int list \<times> bool" where
  "fds_of s = (map fd (slots s), socket_mutex_locked s)"

lemma fds_simps [simp]:
  "fds_of (s\<lparr>env := n\<rparr>) = fds_of s" "fds_of (run f s) = fds_of s" "fds_of (snd (call g s)) = fds_of s"
  by (simp_all add: fds_of_def run_def call_def split_beta)

lemma call_fds: "call g s = (r, s') \<Longrightarrow> fds_of s' = fds_of s"
  using fds_simps(3) [of g s] by simp

lemma upd_slot_fds [simp]:
  "(\<And>k. fd (f k) = fd k) \<Longrightarrow> fds_of (upd_slot i f s) = fds_of s"
proof -
  assume f: "\<And>k. fd (f k) = fd k"
  have "(map fd (slots s))[nat i := fd (slots s ! nat i)] = map fd (slots s)"
    by (cases "nat i < length (slots s)") (metis list_update_id nth_map, simp add: list_update_beyond)
  then show ?thesis by (simp add: fds_of_def upd_slot_def map_update f)
qed

lemma option_int_fds: "option_int b i l n s = (r, v, s') \<Longrightarrow> fds_of s' = fds_of s"
  by (auto simp: option_int_def Let_def split: prod.splits dest: call_fds)

lemma plain_op_fds:
  assumes "plain_op op" "sock_step b op s = Some s'"
  shows "fds_of s' = fds_of s"
  using assms
  by (cases op)
    (auto simp: mp_bind_def mp_connect_def mp_listen_def mp_send_def mp_recv_def mp_sendto_def mp_recvfrom_def
      mp_setsockopt_def mp_getsockopt_def mp_socket_set_blocking_def mp_socket_get_error_def mp_socket_available_def
      mp_gethostbyname_def on_socket_def Let_def
      split: bind_splits prod.splits if_splits option.splits dest: call_fds option_int_fds)

text \<open>What the three other operations do to the descriptors.\<close>

definition free_slot :: "'n sockets \<Rightarrow> int \<Rightarrow> bool" where
  "free_slot s i \<longleftrightarrow> 0 \<le> i \<and> i < 16 \<and> fd (slots s ! nat i) = -1"

lemma find_free:
  "mp_socket_find_free_slot s = i \<Longrightarrow> i \<noteq> -1 \<Longrightarrow> free_slot s i"
  by (auto simp: mp_socket_find_free_slot_def free_slot_def MP_SOCKET_MAX_SOCKETS_def MP_SOCKET_INVALID_FD_def
      split: option.splits dest!: find_upt_Some)

lemma find_free_none: "mp_socket_find_free_slot s = -1 \<longleftrightarrow> (\<forall>i < 16. fd (slots s ! i) \<noteq> -1)"
  by (auto simp: mp_socket_find_free_slot_def MP_SOCKET_MAX_SOCKETS_def MP_SOCKET_INVALID_FD_def find_upt_None
      split: option.splits dest!: find_upt_Some)

lemma find_free_fds: "fds_of s = fds_of t \<Longrightarrow> length (slots s) = 16 \<Longrightarrow>
    mp_socket_find_free_slot s = mp_socket_find_free_slot t"
proof -
  assume e: "fds_of s = fds_of t" "length (slots s) = 16"
  then have m: "map fd (slots s) = map fd (slots t)" by (simp add: fds_of_def)
  then have l: "length (slots t) = 16" using e(2) by (metis length_map)
  have "fd (slots s ! i) = fd (slots t ! i)" if "i < 16" for i
    using m l e(2) that by (metis nth_map)
  then have "find (\<lambda>i. fd (slots s ! i) = MP_SOCKET_INVALID_FD) [0..<16] =
      find (\<lambda>i. fd (slots t ! i) = MP_SOCKET_INVALID_FD) [0..<16]"
    by (intro find_cong) auto
  then show ?thesis by (simp add: mp_socket_find_free_slot_def MP_SOCKET_MAX_SOCKETS_def)
qed

section \<open>The table as it is cleared\<close>

text \<open>Zero is not the mark of a free slot.\<close>

definition full :: "'n sockets \<Rightarrow> bool" where
  "full s \<longleftrightarrow> length (slots s) = 16 \<and> \<not> socket_mutex_locked s \<and> (\<forall>i < 16. fd (slots s ! i) \<noteq> -1)"

lemma full_fds: "fds_of s' = fds_of s \<Longrightarrow> full s \<Longrightarrow> full s'"
  by (simp add: full_def fds_of_def) (metis length_map nth_map)

lemma full_boot: "full (sockets_boot n)"
  by (simp add: full_def sockets_boot_def zero_slot_def MP_SOCKET_MAX_SOCKETS_def)

lemma unlock_lock: "\<not> socket_mutex_locked s \<Longrightarrow> s\<lparr>socket_mutex_locked := True, socket_mutex_locked := False\<rparr> = s"
  by simp

lemma full_socket: "full s \<Longrightarrow> mp_socket b d t p s = Some (-1, s)"
proof -
  assume f: "full s"
  then have "mp_socket_find_free_slot (s\<lparr>socket_mutex_locked := True\<rparr>) = -1"
    by (simp add: find_free_none full_def)
  moreover have "\<not> socket_mutex_locked s" using f by (simp add: full_def)
  ultimately show ?thesis
    by (simp add: mp_socket_def mp_socket_lock_def mp_socket_unlock_def MP_SOCKET_INVALID_def)
qed

lemma full_accept: "full s \<Longrightarrow> mp_accept b i a l s = Some (r, s') \<Longrightarrow> fds_of s' = fds_of s"
proof -
  assume f: "full s" and a: "mp_accept b i a l s = Some (r, s')"
  have "mp_socket_find_free_slot t = -1" if "fds_of t = fds_of s" for t
    using full_fds [OF that f] by (simp add: find_free_none full_def)
  then show ?thesis using a
    by (auto simp: mp_accept_def on_socket_def Let_def split: bind_splits prod.splits if_splits dest: call_fds)
qed

lemma full_steps:
  "\<forall>op \<in> set ops. \<forall>i. op \<noteq> Op_close i \<Longrightarrow> full s \<Longrightarrow> sock_steps b ops s = Some s' \<Longrightarrow> full s'"
proof (induction ops arbitrary: s)
  case (Cons op ops)
  obtain s1 where s1: "sock_step b op s = Some s1" "sock_steps b ops s1 = Some s'"
    using Cons.prems(3) by (auto split: bind_splits)
  have "full s1"
  proof (cases "plain_op op")
    case True
    then show ?thesis using plain_op_fds s1(1) full_fds Cons.prems(2) by blast
  next
    case False
    then consider d t p where "op = Op_socket d t p" | i a l where "op = Op_accept i a l"
      using Cons.prems(1) by (cases op) auto
    then show ?thesis
    proof cases
      case 1
      then show ?thesis using s1(1) full_socket [OF Cons.prems(2)] Cons.prems(2) by simp
    next
      case 2
      then obtain r where "mp_accept b i a l s = Some (r, s1)" using s1(1) by auto
      then show ?thesis using full_accept full_fds Cons.prems(2) by blast
    qed
  qed
  then show ?case using Cons s1(2) by auto
qed simp

section \<open>Who owns a descriptor\<close>

definition opened :: "('n \<Rightarrow> int set) \<Rightarrow> 'n \<Rightarrow> int \<Rightarrow> 'n \<Rightarrow> bool" where
  "opened opens n r n' \<longleftrightarrow>
     (if r < 0 then opens n' = opens n else r \<notin> opens n \<and> opens n' = insert r (opens n))"

text \<open>
  What the platform promises of descriptors, by the set of those that are open: a new one is not open yet, closing ends
  it, and nothing else changes the set.
\<close>

definition fd_laws :: "'n backend \<Rightarrow> ('n \<Rightarrow> int set) \<Rightarrow> bool" where
  "fd_laws b opens \<longleftrightarrow>
     (\<forall>d t p n. opened opens n (fst (b_socket b d t p n)) (snd (b_socket b d t p n))) \<and>
     (\<forall>d n. opened opens n (fst (b_accept b d n)) (snd (snd (b_accept b d n)))) \<and>
     (\<forall>d n. opens (b_close b d n) = opens n - {d}) \<and>
     (\<forall>d a l n. opens (snd (b_bind b d a l n)) = opens n) \<and>
     (\<forall>d a l n. opens (snd (b_connect b d a l n)) = opens n) \<and>
     (\<forall>d k n. opens (snd (b_listen b d k n)) = opens n) \<and>
     (\<forall>d m f n. opens (snd (b_send b d m f n)) = opens n) \<and>
     (\<forall>d l f n. opens (snd (snd (b_recv b d l f n))) = opens n) \<and>
     (\<forall>d m f a l n. opens (snd (b_sendto b d m f a l n)) = opens n) \<and>
     (\<forall>d l f n. opens (snd (snd (snd (b_recvfrom b d l f n)))) = opens n) \<and>
     (\<forall>d l k v n. opens (snd (b_setsockopt b d l k v n)) = opens n) \<and>
     (\<forall>d l k v n. opens (snd (snd (b_getsockopt b d l k v n))) = opens n) \<and>
     (\<forall>d n. opens (snd (b_getfl b d n)) = opens n) \<and>
     (\<forall>d f n. opens (b_setfl b d f n) = opens n) \<and>
     (\<forall>d n. opens (snd (snd (b_fionread b d n))) = opens n) \<and>
     (\<forall>h n. opens (snd (b_gethostbyname b h n)) = opens n)"

text \<open>
  Each open descriptor is in exactly one slot, and the table holds no other.  The descriptor 0 is left out: the slots of the
  cleared table hold it although nothing was opened.
\<close>

definition shown :: "int \<Rightarrow> bool" where
  "shown d \<longleftrightarrow> d \<noteq> -1 \<and> d \<noteq> 0"

definition owns :: "('n \<Rightarrow> int set) \<Rightarrow> 'n sockets \<Rightarrow> bool" where
  "owns opens s \<longleftrightarrow>
     length (slots s) = 16 \<and> \<not> socket_mutex_locked s \<and>
     (\<forall>i < 16. \<forall>j < 16. fd (slots s ! i) = fd (slots s ! j) \<and> shown (fd (slots s ! i)) \<longrightarrow> i = j) \<and>
     {fd (slots s ! i) |i. i < 16 \<and> shown (fd (slots s ! i))} = opens (env s) - {0}"

lemma owns_intro:
  assumes "slots s = L" "length L = 16" "\<not> socket_mutex_locked s"
    "\<And>i j. i < 16 \<Longrightarrow> j < 16 \<Longrightarrow> fd (L ! i) = fd (L ! j) \<Longrightarrow> shown (fd (L ! i)) \<Longrightarrow> i = j"
    "{fd (L ! i) |i. i < 16 \<and> shown (fd (L ! i))} = opens (env s) - {0}"
  shows "owns opens s"
  using assms unfolding owns_def by blast

text \<open>What owning the descriptors says, part by part.\<close>

lemma owns_slots:
  assumes "owns opens s"
  shows "length (slots s) = 16" and "{fd (slots s ! i) |i. i < 16 \<and> shown (fd (slots s ! i))} = opens (env s) - {0}"
    and "\<And>i j. i < 16 \<Longrightarrow> j < 16 \<Longrightarrow> fd (slots s ! i) = fd (slots s ! j) \<Longrightarrow> shown (fd (slots s ! i)) \<Longrightarrow> i = j"
  using assms unfolding owns_def by blast+

lemma owns_fds:
  assumes "fds_of s' = fds_of s" "opens (env s') = opens (env s)" "owns opens s"
  shows "owns opens s'"
proof -
  have l: "length (slots s') = 16" "length (slots s) = 16" and m: "map fd (slots s') = map fd (slots s)"
    using assms(1,3) by (auto simp: fds_of_def owns_def dest: map_eq_imp_length_eq)
  have e: "fd (slots s' ! i) = fd (slots s ! i)" if "i < 16" for i using that l m by (metis nth_map)
  have "{fd (slots s' ! i) |i. i < 16 \<and> shown (fd (slots s' ! i))} = {fd (slots s ! i) |i. i < 16 \<and> shown (fd (slots s ! i))}"
    using e by (auto) (metis e)+
  moreover have "i = j" if "i < 16" "j < 16" "fd (slots s' ! i) = fd (slots s' ! j)" "shown (fd (slots s' ! i))" for i j
    using that owns_slots(3) [OF assms(3), of i j] by (simp add: e)
  moreover have "\<not> socket_mutex_locked s'" "{fd (slots s ! i) |i. i < 16 \<and> shown (fd (slots s ! i))} = opens (env s') - {0}"
    using assms by (simp_all add: owns_def fds_of_def)
  ultimately show ?thesis by (intro owns_intro [OF refl]) (simp_all add: l)
qed

lemma owns_insert:
  assumes "owns opens s" "free_slot s k" "d \<notin> opens (env s)" "d \<noteq> -1" "fd (f (slots s ! nat k)) = d"
    "opens n = insert d (opens (env s))"
  shows "owns opens ((upd_slot k f s)\<lparr>env := n\<rparr>)"
proof -
  have k: "nat k < 16" "fd (slots s ! nat k) = -1" using assms(2) by (auto simp: free_slot_def)
  note l = owns_slots(1) [OF assms(1)] and o = owns_slots(2) [OF assms(1)] and inj = owns_slots(3) [OF assms(1)]
  define L where "L = (slots s)[nat k := f (slots s ! nat k)]"
  have n: "L ! i = (if i = nat k then f (slots s ! nat k) else slots s ! i)" if "i < 16" for i
    using that l by (simp add: L_def nth_list_update)
  have fresh: "fd (slots s ! i) \<noteq> d" if "i < 16" "shown d" for i using o assms(3) that by blast
  have "{fd (L ! i) |i. i < 16 \<and> shown (fd (L ! i))} = insert d (opens (env s)) - {0}"
  proof (intro set_eqI iffI)
    fix x assume "x \<in> {fd (L ! i) |i. i < 16 \<and> shown (fd (L ! i))}"
    then obtain i where i: "i < 16" "x = fd (L ! i)" "shown x" by blast
    show "x \<in> insert d (opens (env s)) - {0}"
    proof (cases "i = nat k")
      case True
      then show ?thesis using i assms(5) by (simp add: n shown_def)
    next
      case False
      then have "x \<in> opens (env s) - {0}" unfolding o [symmetric] using i by (auto simp: n)
      then show ?thesis by blast
    qed
  next
    fix x assume x: "x \<in> insert d (opens (env s)) - {0}"
    then consider "x = d" | "x \<in> opens (env s) - {0}" by blast
    then show "x \<in> {fd (L ! i) |i. i < 16 \<and> shown (fd (L ! i))}"
    proof cases
      case 1
      then have "x = fd (L ! nat k)" "shown x" using k(1) x assms(4,5) by (simp_all add: n shown_def)
      then show ?thesis using k(1) by blast
    next
      case 2
      then obtain i where i: "i < 16" "x = fd (slots s ! i)" "shown x" unfolding o [symmetric] by blast
      then have "i \<noteq> nat k" using k(2) by (auto simp: shown_def)
      then have "x = fd (L ! i)" using i by (simp add: n)
      then show ?thesis using i by blast
    qed
  qed
  moreover have "i = j" if "i < 16" "j < 16" "fd (L ! i) = fd (L ! j)" "shown (fd (L ! i))" for i j
    using that inj [of i j] fresh [of i] fresh [of j] assms(5) by (auto simp: n split: if_splits)
  moreover have "slots ((upd_slot k f s)\<lparr>env := n\<rparr>) = L" "length L = 16" "\<not> socket_mutex_locked s" "opens n = insert d (opens (env s))"
    using assms(1,6) l by (simp_all add: owns_def upd_slot_def L_def)
  ultimately show ?thesis by (intro owns_intro) (simp_all add: upd_slot_def)
qed

lemma owns_remove:
  assumes "owns opens s" "k < 16" "fd (slots s ! k) = d" "fd (f (slots s ! k)) = -1" "opens n = opens (env s) - {d}"
  shows "owns opens ((upd_slot (int k) f s)\<lparr>env := n\<rparr>)"
proof -
  note l = owns_slots(1) [OF assms(1)] and o = owns_slots(2) [OF assms(1)] and inj = owns_slots(3) [OF assms(1)]
  define L where "L = (slots s)[k := f (slots s ! k)]"
  have n: "L ! i = (if i = k then f (slots s ! k) else slots s ! i)" if "i < 16" for i
    using that l by (simp add: L_def nth_list_update)
  have "{fd (L ! i) |i. i < 16 \<and> shown (fd (L ! i))} = opens (env s) - {d} - {0}"
  proof (intro set_eqI iffI)
    fix x assume "x \<in> {fd (L ! i) |i. i < 16 \<and> shown (fd (L ! i))}"
    then obtain i where i: "i < 16" "x = fd (L ! i)" "shown x" by blast
    then have k: "i \<noteq> k" using assms(2,4) by (auto simp: n shown_def)
    then have x: "x = fd (slots s ! i)" "x \<noteq> d" using i inj [of i k] assms(2,3) by (auto simp: n)
    then have "x \<in> opens (env s) - {0}" unfolding o [symmetric] using i by auto
    then show "x \<in> opens (env s) - {d} - {0}" using x(2) by blast
  next
    fix x assume x: "x \<in> opens (env s) - {d} - {0}"
    then have "x \<in> opens (env s) - {0}" by blast
    then obtain i where i: "i < 16" "x = fd (slots s ! i)" "shown x" unfolding o [symmetric] by blast
    then have "i \<noteq> k" using assms(3) x by auto
    then have "x = fd (L ! i)" using i by (simp add: n)
    then show "x \<in> {fd (L ! i) |i. i < 16 \<and> shown (fd (L ! i))}" using i by blast
  qed
  moreover have "i = j" if "i < 16" "j < 16" "fd (L ! i) = fd (L ! j)" "shown (fd (L ! i))" for i j
    using that inj [of i j] assms(4) by (auto simp: n shown_def split: if_splits)
  moreover have "slots ((upd_slot (int k) f s)\<lparr>env := n\<rparr>) = L" "length L = 16" "\<not> socket_mutex_locked s"
    "opens n = opens (env s) - {d}"
    using assms(1,5) l by (simp_all add: owns_def upd_slot_def L_def)
  ultimately show ?thesis by (intro owns_intro) (simp_all add: upd_slot_def)
qed

lemma owns_same_table: "slots s' = slots s \<Longrightarrow> socket_mutex_locked s' = socket_mutex_locked s \<Longrightarrow>
    opens (env s') = opens (env s) \<Longrightarrow> owns opens s \<Longrightarrow> owns opens s'"
  by (rule owns_fds) (simp_all add: fds_of_def)

lemma mp_socket_calls:
  assumes "mp_socket b d t p s = Some (r, s')" "\<not> socket_mutex_locked s"
  obtains (refused) "r = -1" "s' = s"
  | (failed) x y z where "r = -1" "fst (b_socket b x y z (env s)) < 0" "s' = s\<lparr>env := snd (b_socket b x y z (env s))\<rparr>"
  | (made) x y z k where "free_slot s r" "0 \<le> fst (b_socket b x y z (env s))"
      "s' = (upd_slot r (\<lambda>_. k) s)\<lparr>env := snd (b_socket b x y z (env s))\<rparr>" "fd k = fst (b_socket b x y z (env s))"
proof -
  let ?s = "s\<lparr>socket_mutex_locked := True\<rparr>"
  have f: "free_slot s i" if "mp_socket_find_free_slot ?s = i" "i \<noteq> -1" for i
    using find_free [OF that] by (simp add: free_slot_def)
  show thesis
  proof (cases "mp_socket_find_free_slot ?s = -1 \<or> platform b = Platform_other")
    case True
    then show thesis
      using assms by (intro refused) (auto simp: mp_socket_def mp_socket_lock_def mp_socket_unlock_def Let_def
        MP_SOCKET_INVALID_def split: if_splits)
  next
    case False
    define x y z where
      "x = (if platform b = Platform_esp32 then mp_socket_domain_to_lwip b d else d)" and
      "y = (if platform b = Platform_esp32 then mp_socket_type_to_lwip b t else t)" and
      "z = (if platform b = Platform_esp32 then mp_socket_protocol_to_lwip b p else p)"
    obtain dn n where c: "b_socket b x y z (env s) = (dn, n)" by force
    have c': "(if platform b = Platform_esp32
         then call (b_socket b (mp_socket_domain_to_lwip b d) (mp_socket_type_to_lwip b t) (mp_socket_protocol_to_lwip b p)) ?s
         else call (b_socket b d t p) ?s) = (dn, ?s\<lparr>env := n\<rparr>)"
      using c by (auto simp: call_def x_def y_def z_def)
    let ?i = "mp_socket_find_free_slot ?s"
    let ?k = "\<lparr>fd = dn, so_domain = d, so_type = t, so_protocol = p, so_blocking = True, so_connected = False\<rparr>"
    have "mp_socket b d t p s =
        (if dn < 0 then Some (-1, mp_socket_unlock (?s\<lparr>env := n\<rparr>))
         else Some (?i, mp_socket_unlock (upd_slot ?i (\<lambda>_. ?k) (?s\<lparr>env := n\<rparr>))))"
      using False assms(2) by (simp add: mp_socket_def mp_socket_lock_def Let_def c' MP_SOCKET_INVALID_def del: if_split)
    moreover have "mp_socket_unlock (?s\<lparr>env := n\<rparr>) = s\<lparr>env := n\<rparr>"
      "mp_socket_unlock (upd_slot i f (?s\<lparr>env := n\<rparr>)) = (upd_slot i f s)\<lparr>env := n\<rparr>" for i f
      using assms(2) by (cases s; simp add: mp_socket_unlock_def upd_slot_def)+
    ultimately have e: "mp_socket b d t p s =
        (if dn < 0 then Some (-1, s\<lparr>env := n\<rparr>) else Some (?i, (upd_slot ?i (\<lambda>_. ?k) s)\<lparr>env := n\<rparr>))"
      by simp
    show thesis
    proof (cases "dn < 0")
      case True
      then show thesis using e assms(1) c by (intro failed [of x y z]) auto
    next
      case False
      then show thesis using e assms(1) c f \<open>\<not> (_ \<or> _)\<close> by (intro made [of x y z]) auto
    qed
  qed
qed

lemma owns_socket:
  assumes l: "fd_laws b opens" and o: "owns opens s" and c: "mp_socket b d t p s = Some (r, s')"
  shows "owns opens s'"
proof -
  have u: "\<not> socket_mutex_locked s" using o by (simp add: owns_def)
  have new: "opened opens n (fst (b_socket b x y z n)) (snd (b_socket b x y z n))" for x y z n
    using l by (simp add: fd_laws_def)
  show ?thesis
  proof (rule mp_socket_calls [OF c u])
    fix x y z :: int
    assume "fst (b_socket b x y z (env s)) < 0" "s' = s\<lparr>env := snd (b_socket b x y z (env s))\<rparr>"
    then show ?thesis using new [of "env s" x y z] o by (intro owns_same_table [of s' s]) (auto simp: opened_def)
  next
    fix x y z :: int and k
    assume "free_slot s r" "0 \<le> fst (b_socket b x y z (env s))"
      "s' = (upd_slot r (\<lambda>_. k) s)\<lparr>env := snd (b_socket b x y z (env s))\<rparr>" "fd k = fst (b_socket b x y z (env s))"
    then show ?thesis
      using owns_insert [OF o, of r "fst (b_socket b x y z (env s))" "\<lambda>_. k" "snd (b_socket b x y z (env s))"]
        new [of "env s" x y z] by (auto simp: opened_def)
  qed (use o in simp)
qed

lemma owns_close:
  assumes l: "fd_laws b opens" and pl: "platform b \<noteq> Platform_other" and o: "owns opens s"
    and c: "mp_close b i s = Some (r, s')"
  shows "owns opens s'"
proof -
  obtain bad where bad: "bad_socket i s = Some bad" using c by (auto simp: mp_close_def split: bind_splits)
  show ?thesis
  proof (cases bad)
    case True
    then show ?thesis using bad c o by (simp add: mp_close_def)
  next
    case False
    then have i: "0 \<le> i" "i < 16" "sock_fd i s \<noteq> -1"
      using bad by (auto simp: bad_socket_def sock_fd_def MP_SOCKET_MAX_SOCKETS_def MP_SOCKET_INVALID_FD_def split: if_splits)
    have u: "\<not> socket_mutex_locked s" using o by (simp add: owns_def)
    have s': "s' = (upd_slot (int (nat i)) (\<lambda>k. k\<lparr>fd := -1, so_connected := False\<rparr>) s)
        \<lparr>env := b_close b (sock_fd i s) (env s)\<rparr>"
      using c bad False pl u i(1)
      by (auto simp: mp_close_def mp_socket_lock_def mp_socket_unlock_def run_def upd_slot_def sock_fd_def
          MP_SOCKET_INVALID_FD_def)
    show ?thesis
      unfolding s' using i l by (intro owns_remove [OF o]) (auto simp: sock_fd_def fd_laws_def)
  qed
qed

lemma owns_accept:
  assumes l: "fd_laws b opens" and o: "owns opens s" and c: "mp_accept b i a k s = Some (r, s')"
  shows "owns opens s'"
proof -
  define d where "d = fst (b_accept b (sock_fd i s) (env s))"
  define n where "n = snd (snd (b_accept b (sock_fd i s) (env s)))"
  let ?slot = "mp_socket_find_free_slot (s\<lparr>env := n\<rparr>)"
  have new: "opened opens (env s) d n" using l by (simp add: fd_laws_def d_def n_def)
  have call: "call (\<lambda>m. case b_accept b (sock_fd i s) m of (x, a, m') \<Rightarrow> ((x, a), m')) s =
      ((d, fst (snd (b_accept b (sock_fd i s) (env s)))), s\<lparr>env := n\<rparr>)"
    by (simp add: call_def d_def n_def split_beta)
  consider "s' = s" | "d < 0" "s' = s\<lparr>env := n\<rparr>" | "0 \<le> d" "s' = s\<lparr>env := b_close b d n\<rparr>"
    | k where "0 \<le> d" "?slot \<noteq> -1" "fd k = d" "s' = upd_slot ?slot (\<lambda>_. k) (s\<lparr>env := n\<rparr>)"
  proof -
    obtain bad where bad: "bad_socket i s = Some bad" using c by (auto simp: mp_accept_def on_socket_def split: bind_splits)
    show ?thesis
    proof (cases "bad \<or> platform b = Platform_other")
      case True
      then show ?thesis using that(1) c bad by (cases bad) (auto simp: mp_accept_def on_socket_def)
    next
      case False
      let ?k = "slots s ! nat i"
      let ?new = "\<lparr>fd = d, so_domain = so_domain ?k, so_type = so_type ?k, so_protocol = so_protocol ?k,
        so_blocking = True, so_connected = True\<rparr>"
      have "mp_accept b i a k s =
          (if d < 0 then Some ((MP_SOCKET_INVALID, a, k), s\<lparr>env := n\<rparr>)
           else if ?slot = -1 then Some ((MP_SOCKET_INVALID, a, k), s\<lparr>env := b_close b d n\<rparr>)
           else do { (a', k') \<leftarrow> returned_addr b (fst (snd (b_accept b (sock_fd i s) (env s)))) a k;
                     Some ((?slot, a', k'), upd_slot ?slot (\<lambda>_. ?new) (s\<lparr>env := n\<rparr>)) })"
        using False bad by (simp add: mp_accept_def on_socket_def call Let_def run_def)
      then have "d < 0 \<and> s' = s\<lparr>env := n\<rparr> \<or> \<not> d < 0 \<and> ?slot = -1 \<and> s' = s\<lparr>env := b_close b d n\<rparr>
          \<or> \<not> d < 0 \<and> ?slot \<noteq> -1 \<and> s' = upd_slot ?slot (\<lambda>_. ?new) (s\<lparr>env := n\<rparr>)"
        using c by (auto split: if_splits bind_splits)
      then show ?thesis using that(2-3) that(4) [of ?new] by auto
    qed
  qed
  then show ?thesis
  proof cases
    case 1
    then show ?thesis using o by simp
  next
    case 2
    then show ?thesis using o new by (intro owns_same_table [of s' s]) (auto simp: opened_def)
  next
    case 3
    have "opens (b_close b d n) = opens n - {d}" using l by (simp add: fd_laws_def)
    then show ?thesis using 3 o new by (intro owns_same_table [of s' s]) (auto simp: opened_def)
  next
    case (4 k)
    have f: "free_slot s ?slot" using find_free [OF refl 4(2)] by (simp add: free_slot_def)
    have "upd_slot ?slot (\<lambda>_. k) (s\<lparr>env := n\<rparr>) = (upd_slot ?slot (\<lambda>_. k) s)\<lparr>env := n\<rparr>" for k
      by (cases s) (simp add: upd_slot_def)
    then show ?thesis
      using owns_insert [OF o f, of d "\<lambda>_. k" n] 4 new by (auto simp: opened_def)
  qed
qed

lemma fd_keeps:
  assumes "fd_laws b opens"
  shows "opens (snd (b_bind b d a l n)) = opens n" "opens (snd (b_connect b d a l n)) = opens n"
    "opens (snd (b_listen b d k n)) = opens n" "opens (snd (b_send b d m f n)) = opens n"
    "opens (snd (snd (b_recv b d l f n))) = opens n" "opens (snd (b_sendto b d m f a l n)) = opens n"
    "opens (snd (snd (snd (b_recvfrom b d l f n)))) = opens n" "opens (snd (b_setsockopt b d i j v n)) = opens n"
    "opens (snd (snd (b_getsockopt b d i j l n))) = opens n" "opens (snd (b_getfl b d n)) = opens n"
    "opens (b_setfl b d f n) = opens n" "opens (snd (snd (b_fionread b d n))) = opens n"
    "opens (snd (b_gethostbyname b h n)) = opens n"
  using assms by (simp_all add: fd_laws_def)

lemma fd_keeps_results:
  assumes "fd_laws b opens"
  shows "b_recv b d l f n = (r, bs, n') \<Longrightarrow> opens n' = opens n"
    "b_recvfrom b d l f n = (r, bs, a, n') \<Longrightarrow> opens n' = opens n"
    "b_getsockopt b d i j l n = (r, bs, n') \<Longrightarrow> opens n' = opens n"
    "b_fionread b d n = (r, v, n') \<Longrightarrow> opens n' = opens n"
  using fd_keeps [OF assms] by (metis snd_conv)+

lemma call_env: "call g s = (r, s') \<Longrightarrow> env s' = snd (g (env s))"
  by (auto simp: call_def split_beta)

lemma upd_slot_env [simp]: "env (upd_slot i f s) = env s"
  by (simp add: upd_slot_def)

lemma option_int_env:
  "option_int b i l n s = (r, v, s') \<Longrightarrow> env s' = snd (snd (b_getsockopt b (sock_fd i s) l n 4 (env s)))"
  by (auto simp: option_int_def Let_def split_beta call_def)

lemma plain_op_opens:
  assumes l: "fd_laws b opens" and p: "plain_op op" and c: "sock_step b op s = Some s'"
  shows "opens (env s') = opens (env s)"
  using p c
  by (cases op)
    (auto simp: mp_bind_def mp_connect_def mp_listen_def mp_send_def mp_recv_def mp_sendto_def mp_recvfrom_def
      mp_setsockopt_def mp_getsockopt_def mp_socket_set_blocking_def mp_socket_get_error_def mp_socket_available_def
      mp_gethostbyname_def on_socket_def run_def Let_def fd_keeps [OF l]
      split: bind_splits prod.splits if_splits option.splits dest!: call_env option_int_env
      dest!: fd_keeps_results [OF l])

lemma owns_step:
  assumes "fd_laws b opens" "platform b \<noteq> Platform_other" "owns opens s" "sock_step b op s = Some s'"
  shows "owns opens s'"
proof (cases "plain_op op")
  case True
  show ?thesis
    by (rule owns_fds [where opens = opens, OF plain_op_fds [OF True assms(4)] plain_op_opens [OF assms(1) True assms(4)] assms(3)])
next
  case False
  then consider d t p where "op = Op_socket d t p" | i where "op = Op_close i" | i a l where "op = Op_accept i a l"
    by (cases op) auto
  then show ?thesis
    using owns_socket [OF assms(1,3)] owns_close [OF assms(1-3)] owns_accept [OF assms(1,3)] assms(4)
    by cases auto
qed

lemma owns_steps:
  "fd_laws b opens \<Longrightarrow> platform b \<noteq> Platform_other \<Longrightarrow> owns opens s \<Longrightarrow> sock_steps b ops s = Some s' \<Longrightarrow> owns opens s'"
proof (induction ops arbitrary: s)
  case (Cons op ops)
  obtain s1 where "sock_step b op s = Some s1" "sock_steps b ops s1 = Some s'"
    using Cons.prems(4) by (auto split: bind_splits)
  then show ?case using Cons owns_step by blast
qed simp

lemma owns_boot: "opens n \<subseteq> {0} \<Longrightarrow> owns opens (sockets_boot n)"
  by (auto simp: owns_def sockets_boot_def zero_slot_def MP_SOCKET_MAX_SOCKETS_def shown_def)

text \<open>
  C28. The sockets from the start of the program, where the table is cleared to descriptor 0, which is not the mark of a free
  slot.  Until a socket is closed, which can then only be one that was never opened, every attempt to create a socket fails
  and changes nothing.  After any sequence of calls, whatever calls of the platform fail, the descriptors but 0 that the
  platform has open are exactly those in the table, each in one slot: none is lost or shared.
\<close>

theorem socket_table_owns_descriptors:
  assumes "fd_laws b opens" and "platform b \<noteq> Platform_other" and "opens n \<subseteq> {0}"
    and "sock_steps b ops (sockets_boot n) = Some s"
  shows "owns opens s \<and>
    ((\<forall>op \<in> set ops. \<forall>i. op \<noteq> Op_close i) \<longrightarrow> mp_socket b domain type protocol s = Some (MP_SOCKET_INVALID, s))"
proof
  show "owns opens s" by (rule owns_steps [OF assms(1,2) owns_boot [where opens = opens, OF assms(3)] assms(4)])
  show "(\<forall>op \<in> set ops. \<forall>i. op \<noteq> Op_close i) \<longrightarrow> mp_socket b domain type protocol s = Some (MP_SOCKET_INVALID, s)"
    using full_socket [OF full_steps [OF _ full_boot assms(4)]] by (simp add: MP_SOCKET_INVALID_def)
qed

text \<open>A platform for the witnesses: its state is the list of the open descriptors.\<close>

definition demo_fd :: "int list \<Rightarrow> int" where "demo_fd l = sum_list (map abs l) + 1"

definition demo_backend :: "int list backend" where
  "demo_backend =
     \<lparr>platform = Platform_posix,
      b_socket = (\<lambda>d t p l. (demo_fd l, demo_fd l # l)), b_close = (\<lambda>d l. filter (\<lambda>x. x \<noteq> d) l),
      b_bind = (\<lambda>d a n l. (0, l)), b_connect = (\<lambda>d a n l. (0, l)), b_listen = (\<lambda>d n l. (0, l)),
      b_accept = (\<lambda>d l. (demo_fd l, Native [], demo_fd l # l)), b_send = (\<lambda>d m f l. (int (length m), l)),
      b_recv = (\<lambda>d n f l. (0, [], l)), b_sendto = (\<lambda>d m f a n l. (int (length m), l)),
      b_recvfrom = (\<lambda>d n f l. (0, [], Native [], l)), b_setsockopt = (\<lambda>d l' n v l. (0, l)),
      b_getsockopt = (\<lambda>d l' n k l. (0, replicate k 0, l)), b_getfl = (\<lambda>d l. (0, l)), b_setfl = (\<lambda>d f l. l),
      b_fionread = (\<lambda>d l. (0, 0, l)), b_gethostbyname = (\<lambda>h l. (None, l)), b_clock = (\<lambda>l. 0), b_sleep = (\<lambda>t l. l),
      b_alloc = (\<lambda>n l. (0x1000, l)), c_AF_INET = 2, c_AF_INET6 = 10, c_AF_UNIX = 1, c_SOCK_STREAM = 1, c_SOCK_DGRAM = 2,
      c_SOCK_RAW = 3, c_IPPROTO_TCP = 6, c_IPPROTO_UDP = 17, c_IPPROTO_ICMP = 1, c_SOL_SOCKET = 1, c_SO_ERROR = 4,
      c_SO_RCVBUF = 8, c_O_NONBLOCK = 2048, c_storage_size = 128\<rparr>"

lemma demo_fd_fresh: "demo_fd l \<notin> set l \<and> 0 \<le> demo_fd l"
proof -
  have pos: "0 \<le> sum_list (map abs k)" for k :: "int list" by (induction k) simp_all
  have "x \<in> set k \<Longrightarrow> \<bar>x\<bar> \<le> sum_list (map abs k)" for x and k :: "int list"
    using pos by (induction k) (auto intro: order_trans add_increasing add_increasing2)
  then show ?thesis using pos [of l] by (fastforce simp: demo_fd_def)
qed

lemma demo_laws: "fd_laws demo_backend set"
  using demo_fd_fresh by (auto simp: fd_laws_def demo_backend_def opened_def not_less [symmetric])

text \<open>A socket that was never opened is closed, and its slot is used for one that is connected.\<close>

lemma socket_table_owns_descriptors_witness:
  "\<exists>s. sock_steps demo_backend [Op_socket 2 1 6, Op_close 0, Op_socket 2 1 6, Op_connect 0 None 0, Op_send 0 [1, 2] 0] (sockets_boot []) = Some s \<and>
     owns set s \<and> env s = [1] \<and> fd (slots s ! 0) = 1 \<and>
     mp_socket demo_backend 2 1 6 (sockets_boot []) = Some (MP_SOCKET_INVALID, sockets_boot [])"
proof -
  let ?ops = "[Op_socket 2 1 6, Op_close 0, Op_socket 2 1 6, Op_connect 0 None 0, Op_send 0 [1, 2] 0]"
  have p: "platform demo_backend \<noteq> Platform_other" by (simp add: demo_backend_def)
  obtain s where s: "sock_steps demo_backend ?ops (sockets_boot []) = Some s" "env s = [1]" "fd (slots s ! 0) = 1"
    by (simp add: mp_socket_def mp_socket_lock_def sockets_boot_def zero_slot_def mp_socket_find_free_slot_def upt_conv_Cons call_def
      mp_socket_unlock_def upd_slot_def mp_close_def run_def
      demo_backend_def demo_fd_def mp_connect_def mp_send_def on_socket_def bad_socket_def sock_fd_def passed_addr_def
      MP_SOCKET_MAX_SOCKETS_def MP_SOCKET_INVALID_FD_def)
  then show ?thesis
    using socket_table_owns_descriptors [OF demo_laws p, of "[]" ?ops s] socket_table_owns_descriptors [OF demo_laws p, of "[]" "[]" "sockets_boot []" 2 1 6]
    by auto
qed

section \<open>Addresses\<close>

lemma digits_not_space: "is_digit c \<Longrightarrow> \<not> is_space c \<and> c \<noteq> ch_minus \<and> c \<noteq> ch_plus"
  by (auto simp: is_digit_def is_space_def word_le_nat_alt)

lemma scan_u_decimal:
  assumes "r = [] \<or> \<not> is_digit (hd r)" "n < 2 ^ 32"
  shows "scan_u (decimal n @ r) = Some (of_nat n, r)"
proof -
  obtain c cs where d: "decimal n = c # cs" using decimal_nonempty [of n] by (cases "decimal n") auto
  have c: "is_digit c" using decimal_head d by blast
  have t: "takeWhile is_digit (decimal n @ r) = decimal n"
    using assms(1) decimal_digits by (subst takeWhile_append2) (auto simp: takeWhile_eq_Nil_iff)
  have w: "dropWhile is_space (decimal n @ r) = decimal n @ r" using digits_not_space [OF c] by (simp add: d)
  have v: "digits_value 0 (decimal n) = int n" by (rule digits_value_decimal)
  show ?thesis
    using digits_not_space [OF c] assms(2) decimal_nonempty [of n] t
    by (simp add: scan_u_def w Let_def v) (simp add: d)
qed

text \<open>The four decimal numbers of an address.\<close>

definition dotted :: "u8 list \<Rightarrow> cstring" where
  "dotted bs = decimal (unat (bs ! 0)) @ [ch_dot] @ decimal (unat (bs ! 1)) @ [ch_dot] @
     decimal (unat (bs ! 2)) @ [ch_dot] @ decimal (unat (bs ! 3))"

lemma low_byte: "unat (ucast (w AND 0xFF :: u32) :: u8) = unat (w AND 0xFF)" "unat (w AND 0xFF :: u32) < 256"
proof -
  have m: "(0xFF :: u32) = mask 8" by (simp add: mask_eq_exp_minus_1)
  have "w AND 0xFF < 2 ^ 8" unfolding m by (rule and_mask_less') simp
  then show l: "unat (w AND 0xFF :: u32) < 256" by (simp add: word_less_nat_alt)
  show "unat (ucast (w AND 0xFF :: u32) :: u8) = unat (w AND 0xFF)"
    using l by (simp add: unsigned_ucast_eq take_bit_nat_eq_self)
qed

lemma join_bytes:
  "push_bit 24 (drop_bit 24 ip AND 0xFF) OR push_bit 16 (drop_bit 16 ip AND 0xFF) OR push_bit 8 (drop_bit 8 ip AND 0xFF) OR
     (ip AND 0xFF) = (ip :: u32)"
proof (rule bit_word_eqI)
  fix n assume n: "n < LENGTH(32)"
  have m: "(0xFF :: u32) = mask 8" by (simp add: mask_eq_exp_minus_1)
  consider "n < 8" | "8 \<le> n" "n < 16" | "16 \<le> n" "n < 24" | "24 \<le> n" by linarith
  then show "bit (push_bit 24 (drop_bit 24 ip AND 0xFF) OR push_bit 16 (drop_bit 16 ip AND 0xFF) OR
      push_bit 8 (drop_bit 8 ip AND 0xFF) OR (ip AND 0xFF)) n = bit ip n"
    unfolding m using n by cases (auto simp: bit_simps)
qed

lemma ip_to_str_dotted: "mp_ip_to_str ip = dotted (rev (fixed32_bytes ip))"
proof -
  have l: "length (decimal (unat (w AND 0xFF :: u32))) \<le> Suc 2" for w
    using low_byte(2) [of w] by (intro decimal_length) simp
  have "mp_ip_to_str ip = printed 16 (dotted (rev (fixed32_bytes ip)))"
    using low_byte(1) by (simp add: mp_ip_to_str_def dotted_def fixed32_bytes_def dec_byte_def)
  also have "\<dots> = dotted (rev (fixed32_bytes ip))"
    using l [of ip] l [of "drop_bit 8 ip"] l [of "drop_bit 16 ip"] l [of "drop_bit 24 ip"]
    by (intro printed_fits) (simp add: dotted_def fixed32_bytes_def low_byte(1))
  finally show ?thesis .
qed

lemma str_to_ip_dotted: "mp_str_to_ip (dotted (rev (fixed32_bytes ip))) = ip"
proof -
  have s: "scan_u (decimal (unat (w AND 0xFF)) @ ch_dot # r) = Some (w AND 0xFF, ch_dot # r)"
    "scan_u (decimal (unat (w AND 0xFF))) = Some (w AND 0xFF, [])" for w :: u32 and r
    using scan_u_decimal [of "ch_dot # r" "unat (w AND 0xFF)"] scan_u_decimal [of "[]" "unat (w AND 0xFF)"] low_byte(2) [of w]
    by (simp_all add: is_digit_def)
  show ?thesis
    using join_bytes [of ip] by (simp add: mp_str_to_ip_def dotted_def fixed32_bytes_def low_byte(1) s)
qed

lemma htons_bytes: "fixed16_bytes (htons p) = rev (fixed16_bytes p)"
proof -
  have m: "(0xFF :: u16) = mask 8" by (simp add: mask_eq_exp_minus_1)
  have "ucast (htons p AND 0xFF) = (ucast (drop_bit 8 p AND 0xFF) :: u8)"
    "ucast (drop_bit 8 (htons p) AND 0xFF) = (ucast (p AND 0xFF) :: u8)"
    unfolding htons_def m by (rule bit_word_eqI; auto simp: bit_simps)+
  then show ?thesis by (simp add: fixed16_bytes_def)
qed

lemma htonl_bit:
  assumes "n < 32"
  shows "bit (htonl v) n \<longleftrightarrow> bit v (if n < 8 then n + 24 else if n < 16 then n + 8 else if n < 24 then n - 8 else n - 24)"
proof -
  have m: "(0xFF :: u32) = mask 8" "(0xFF00 :: u32) = push_bit 8 (mask 8)" "(0xFF0000 :: u32) = push_bit 16 (mask 8)"
    by (simp_all add: mask_eq_exp_minus_1)
  consider "n < 8" | "8 \<le> n" "n < 16" | "16 \<le> n" "n < 24" | "24 \<le> n" by linarith
  then show ?thesis unfolding htonl_def m using assms by cases (auto simp: bit_simps add.commute)
qed

lemma ntohl_htonl: "ntohl (htonl ip) = ip"
  unfolding ntohl_def by (rule bit_word_eqI) (auto simp: htonl_bit)

text \<open>
  Addresses.  The text of an address reads back as the address, with the most significant byte first; but the four
  bytes that a filled-in structure has where the network expects that order are in the opposite one, because only the
  port is swapped: 192.168.1.1 is sent as 1.1.168.192.
\<close>

theorem ip_text_and_memory:
  "mp_str_to_ip (mp_ip_to_str ip) = ip \<and>
   mp_ip_to_str ip = dotted (rev (take 4 (drop 4 (mp_sockaddr_in_init ip port)))) \<and>
   take 2 (drop 2 (mp_sockaddr_in_init ip port)) = rev (fixed16_bytes port) \<and>
   ntohs (htons port) = port \<and> ntohl (htonl ip) = ip"
proof (intro conjI)
  show "mp_str_to_ip (mp_ip_to_str ip) = ip" by (simp only: ip_to_str_dotted str_to_ip_dotted)
  have t: "take 4 (drop 4 (mp_sockaddr_in_init ip port)) = fixed32_bytes ip"
    by (simp add: mp_sockaddr_in_init_def fixed16_bytes_def fixed32_bytes_def)
  show "mp_ip_to_str ip = dotted (rev (take 4 (drop 4 (mp_sockaddr_in_init ip port))))"
    unfolding t by (rule ip_to_str_dotted)
  have "take 2 (drop 2 (mp_sockaddr_in_init ip port)) = fixed16_bytes (htons port)"
    by (simp add: mp_sockaddr_in_init_def fixed16_bytes_def fixed32_bytes_def)
  then show "take 2 (drop 2 (mp_sockaddr_in_init ip port)) = rev (fixed16_bytes port)" by (simp only: htons_bytes)
  have m: "(0xFF :: u16) = mask 8" by (simp add: mask_eq_exp_minus_1)
  show "ntohs (htons port) = port"
    unfolding ntohs_def htons_def m by (rule bit_word_eqI) (auto simp: bit_simps)
  show "ntohl (htonl ip) = ip"
    by (rule ntohl_htonl)
qed

lemma str_to_ip_out_of_range: "mp_str_to_ip (ascii ''300.1.1.1'') = mp_str_to_ip (ascii ''44.1.1.1'')"
  by (simp add: mp_str_to_ip_def scan_u_def ascii_def is_space_def is_digit_def)

end
