(* ===== verification/Http_Correct.thy ===== *)
theory Http_Correct
  imports Http Socket_Correct
begin

text \<open>
  What the HTTP client gets right, the parts of a URL, and why no request succeeds: the host is overwritten by an
  address, no socket is free, a connection that does not block is taken for a failure, and the response is cut to its
  first word.
\<close>

section \<open>URLs\<close>

lemma find_upt_least:
  "find P [0..<n] = Some i \<longleftrightarrow> i < n \<and> P i \<and> (\<forall>j < i. \<not> P j)"
  by (auto simp: find_Some_iff)

lemma strchr_skip:
  assumes "c \<notin> set s"
  shows "strchr (s @ r) c = map_option (\<lambda>i. length s + i) (strchr r c)"
proof (cases "strchr r c")
  case None
  then have "strchr (s @ r) c = None" using assms by (simp add: strchr_None)
  then show ?thesis using None by simp
next
  case (Some i)
  then have i: "i < length r" "r ! i = c" "\<forall>j < i. r ! j \<noteq> c"
    by (auto simp: strchr_def find_upt_least)
  have "(s @ r) ! j \<noteq> c" if "j < length s + i" for j
    using that assms i(3) by (cases "j < length s") (auto simp: nth_append in_set_conv_nth)
  then have "strchr (s @ r) c = Some (length s + i)"
    unfolding strchr_def find_upt_least using i by (simp add: nth_append)
  then show ?thesis using Some by simp
qed

lemma strchr_here [simp]: "strchr (c # r) c = Some 0"
  unfolding strchr_def find_upt_least by simp

lemma strchr_Nil [simp]: "strchr [] c = None"
  by (simp add: strchr_None)

lemma url_start_http: "url_start (ascii ''http://'' @ r) = r"
proof -
  have "strstr (ascii ''http://'' @ r) (ascii ''://'') = Some 4"
    unfolding strstr_def find_upt_least
  proof (intro conjI allI impI)
    fix j :: nat assume "j < 4"
    then consider "j = 0" | "j = 1" | "j = 2" | "j = 3" by linarith
    then show "take (length (ascii ''://'')) (drop j (ascii ''http://'' @ r)) \<noteq> ascii ''://''"
      by cases (simp_all add: ascii_def)
  qed (simp_all add: ascii_def)
  then show ?thesis by (simp add: url_start_def ascii_def)
qed

lemma digits_value_stop:
  "\<forall>c \<in> set ds. is_digit c \<Longrightarrow> r = [] \<or> \<not> is_digit (hd r) \<Longrightarrow> digits_value n (ds @ r) = digits_value n ds"
proof (induction ds arbitrary: n)
  case Nil
  then show ?case by (cases r) auto
qed simp

lemma atoi_decimal:
  assumes "k < 2 ^ 31" "r = [] \<or> \<not> is_digit (hd r)"
  shows "c_atoi (decimal k @ r) = int k"
proof -
  obtain c cs where d: "decimal k = c # cs" using decimal_nonempty [of k] by (cases "decimal k") auto
  have c: "is_digit c" using decimal_head d by blast
  have "digits_value 0 (decimal k @ r) = int k"
    using digits_value_stop [of "decimal k" r 0] decimal_digits assms(2) digits_value_decimal by auto
  then have "c_atoll (decimal k @ r) = clamp_int64 (int k)"
    using digits_not_space [OF c] by (simp add: c_atoll_def c_strtoll_def d)
  then show ?thesis using assms(1) by (simp add: c_atoi_def clamp_int64_def)
qed

definition port_text :: "nat option \<Rightarrow> cstring" where
  "port_text p = (case p of None \<Rightarrow> [] | Some k \<Rightarrow> ch_colon # decimal k)"

lemma strdup_parts: "c_strdup b t n = ((fst (b_alloc b (length t + 1) n), t), snd (b_alloc b (length t + 1) n))"
  by (simp add: c_strdup_def split_beta)

text \<open>
  C29. A URL \<open>http://host:port/path\<close>, with or without its port and path, is split into its parts when memory can be
  allocated: an absent port is 0, an absent path is \<open>/\<close>.
\<close>

theorem http_parse_url:
  assumes host: "ch_colon \<notin> set host" "ch_slash \<notin> set host" and path: "path = [] \<or> hd path = ch_slash"
    and port: "case port of None \<Rightarrow> True | Some k \<Rightarrow> k < 2 ^ 16" and mem: "\<And>k n. fst (b_alloc b k n) \<noteq> 0"
  shows "\<exists>a1 a2 n'. mp_http_parse_url b (Some (ascii ''http://'' @ host @ port_text port @ path)) n =
    ((0, \<lparr>u_host = Some (a1, host), u_port = Some (case port of None \<Rightarrow> 0 | Some k \<Rightarrow> of_nat k),
          u_path = Some (a2, if path = [] then ascii ''/'' else path)\<rparr>), n')"
proof -
  have slash: "strchr (host @ port_text port @ path) ch_slash =
      (if path = [] then None else Some (length (host @ port_text port)))"
  proof -
    have d: "ch_slash \<notin> set (host @ port_text port)"
      using host decimal_digits [of ch_slash] by (auto simp: port_text_def is_digit_def split: option.splits)
    show ?thesis
      using path strchr_skip [OF d, of path] by (cases path) auto
  qed
  show ?thesis
  proof (cases port)
    case None
    have "strchr (host @ path) ch_colon = None \<or> (\<exists>i. strchr (host @ path) ch_colon = Some (length host + i) \<and> path \<noteq> [])"
      using strchr_skip [OF host(1), of path] by (cases path) (auto split: option.splits simp: option.map_sel)
    then show ?thesis
      using slash None mem
      by (cases "path = []") (auto simp: mp_http_parse_url_def url_start_http port_text_def Let_def strdup_parts
        split: option.splits)
  next
    case (Some k)
    have k: "k < 2 ^ 31" using port Some by simp
    have "strchr (host @ port_text port @ path) ch_colon = Some (length host)"
      using strchr_skip [OF host(1)] by (simp add: port_text_def Some)
    moreover have "c_atoi (decimal k @ path) = int k"
      using k path by (intro atoi_decimal) (auto simp: is_digit_def)
    ultimately show ?thesis
      using slash Some mem
      by (cases "path = []") (simp_all add: mp_http_parse_url_def url_start_http port_text_def Let_def strdup_parts)
  qed
qed

text \<open>The host of a request is the address of the string that holds it.\<close>

theorem http_host_is_an_address:
  assumes "mp_http_request_create b url n = (Some q, n')"
  shows "\<exists>a. rq_host q = fixed32_bytes a @ replicate 60 0 \<and> length (c_string (rq_host q)) \<le> 4"
proof -
  obtain a where a: "rq_host q = store_pointer a (replicate 64 0)" and some: "a \<noteq> None"
    using assms
    by (auto simp: mp_http_request_create_def Let_def zero_request_def MP_HTTP_MAX_HOST_LENGTH_def split_beta
        mp_http_parse_url_def split: if_splits option.splits)
  then obtain x t where "a = Some (x, t)" by force
  then have h: "rq_host q = fixed32_bytes x @ replicate 60 0" using a by (simp add: store_pointer_def)
  have "takeWhile (\<lambda>c. c \<noteq> 0) (m @ replicate k 0) = takeWhile (\<lambda>c. c \<noteq> 0) m" for m :: "u8 list" and k
    by (induction m) (cases k, auto)
  then have "c_string (rq_host q) = takeWhile (\<lambda>c. c \<noteq> 0) (fixed32_bytes x)"
    unfolding h c_string_def by simp
  then have "length (c_string (rq_host q)) \<le> length (fixed32_bytes x)" by (simp add: length_takeWhile_le)
  then show ?thesis using h by (auto simp: fixed32_bytes_def)
qed

section \<open>No request succeeds\<close>

lemma mp_connect_result:
  assumes "\<forall>d a l n. fst (b_connect b d a l n) \<noteq> 0" "mp_connect b i a l s = Some (r, s')"
  shows "r \<noteq> 0"
  using assms(2) assms(1)
  by (auto simp: mp_connect_def on_socket_def call_def Let_def split_beta split: bind_splits if_splits)

lemma send_fails:
  assumes c: "full s \<or> (\<forall>d a l n. fst (b_connect b d a l n) \<noteq> 0)" and r: "mp_http_request_send b rq s = Some (r, q, s')"
  shows "r = -1 \<and> rq_status_code q = 0"
proof (cases "full s")
  case True
  then show ?thesis
    using r by (auto simp: mp_http_request_send_def full_socket MP_SOCKET_INVALID_def)
next
  case False
  then have "r \<noteq> 0" if "mp_connect b i a l s = Some (r, s')" for i a l s s' r
    using c mp_connect_result that by blast
  then show ?thesis
    using r by (auto simp: mp_http_request_send_def close_and_fail_def Let_def split: bind_splits prod.splits if_splits)
qed

text \<open>
  No simple request succeeds: with the table as the program clears it, or on a platform where a connection that does
  not block is not made at once, \<open>mp_http_get\<close> returns -1 or the status 0 and no response.
\<close>

theorem http_get_never_succeeds:
  assumes "full s \<or> (\<forall>d a l n. fst (b_connect b d a l n) \<noteq> 0)" and "mp_http_get b url s = Some (r, out, s')"
  shows "r = -1 \<and> out = None \<or> r = 0 \<and> out = Some (None, 0)"
proof -
  obtain rq s1 where c: "call (mp_http_request_create b url) s = (rq, s1)" by force
  have f: "full s \<Longrightarrow> full s1" by (rule full_fds [OF call_fds [OF c]])
  show ?thesis
  proof (cases rq)
    case None
    then show ?thesis using assms(2) c by (auto simp: mp_http_get_def mp_http_request_set_method_def)
  next
    case (Some q)
    then have "finish_simple b (q\<lparr>rq_method := MP_HTTP_METHOD_GET\<rparr>) s1 = Some (r, out, s')"
      using assms(2) c by (simp add: mp_http_get_def mp_http_request_set_method_def)
    then obtain result q1 s2 where *: "mp_http_request_send b (q\<lparr>rq_method := MP_HTTP_METHOD_GET\<rparr>) s1 = Some (result, q1, s2)"
      "result \<noteq> 0 \<longrightarrow> r = rq_status_code q1 \<and> out = Some (None, 0)"
      by (auto simp: finish_simple_def split: bind_splits if_splits)
    then have "result = -1 \<and> rq_status_code q1 = 0" using send_fails assms(1) f by blast
    then show ?thesis using * by simp
  qed
qed

lemma http_get_boot_defined: "mp_http_get b url (sockets_boot n) \<noteq> None"
proof -
  obtain rq s1 where c: "call (mp_http_request_create b url) (sockets_boot n) = (rq, s1)" by force
  have f: "full s1" by (rule full_fds [OF call_fds [OF c] full_boot])
  show ?thesis
    using c full_socket [OF f]
    by (cases rq) (simp_all add: mp_http_get_def mp_http_request_set_method_def finish_simple_def mp_http_request_send_def
      MP_SOCKET_INVALID_def)
qed

lemma http_get_never_succeeds_witness:
  "\<exists>r out s'. mp_http_get demo_backend (Some (ascii ''http://a/'')) (sockets_boot []) = Some (r, out, s') \<and>
     (r = -1 \<and> out = None \<or> r = 0 \<and> out = Some (None, 0))"
proof -
  obtain r out s' where g: "mp_http_get demo_backend (Some (ascii ''http://a/'')) (sockets_boot []) = Some (r, out, s')"
    using http_get_boot_defined [of demo_backend "Some (ascii ''http://a/'')" "[]"] by auto
  show ?thesis using g http_get_never_succeeds [OF disjI1 [OF full_boot] g] by blast
qed

section \<open>The response\<close>

lemma strtok_at_token:
  assumes "tok \<noteq> []" "set tok \<inter> set ds = {}" "0 \<notin> set tok" "d \<in> set ds" "d \<noteq> 0" "start = length pre"
  shows "strtok_at ds (pre @ tok @ d # post) start =
    Some (length pre, length tok, pre @ tok @ 0 # post, length pre + length tok + 1)"
proof -
  have b: "drop start (pre @ tok @ d # post) = tok @ d # post" using assms(6) by simp
  have s: "c_string (tok @ d # post) = tok @ d # takeWhile (\<lambda>c. c \<noteq> 0) post"
    unfolding c_string_def using assms(3,5) by (subst takeWhile_append2) auto
  have skip: "takeWhile (\<lambda>c. c \<in> set ds) (tok @ r) = []" "dropWhile (\<lambda>c. c \<in> set ds) (tok @ r) = tok @ r" for r
    using assms(1,2) by (cases tok; auto)+
  have t: "takeWhile (\<lambda>c. c \<notin> set ds) (tok @ d # r) = tok" for r
    using assms(2,4) by (subst takeWhile_append2) auto
  show ?thesis
    unfolding strtok_at_def Let_def b s skip t using assms(6) by (simp add: list_update_append)
qed

lemma c_string_upto: "0 \<notin> set t \<Longrightarrow> c_string (t @ 0 # r) = t"
  by (induction t) (auto simp: c_string_def)

text \<open>The bytes that a status line leaves of a chunk.\<close>

definition cut_chunk :: "cstring \<Rightarrow> cstring \<Rightarrow> cstring \<Rightarrow> u8 list \<Rightarrow> u8 list" where
  "cut_chunk version code reason rest = version @ 0 # code @ 0 # reason @ 0 # rest"

lemma parse_status_line:
  assumes v: "set version \<inter> {ch_space, ch_return, ch_newline, 0} = {}" "version \<noteq> []"
    and r: "set reason \<inter> {ch_return, ch_newline, 0} = {}" and k: "k < 2 ^ 31"
  shows "parse_status (version @ ch_space # decimal k @ ch_space # reason @ ch_return # rest) =
    (cut_chunk version (decimal k) reason rest, Some (int k))"
proof -
  have d: "c \<noteq> ch_space \<and> c \<noteq> ch_return \<and> c \<noteq> ch_newline \<and> c \<noteq> 0" if "c \<in> set (decimal k)" for c
    using decimal_digits [OF that] by (auto simp: is_digit_def)
  let ?line = "version @ ch_space # decimal k @ ch_space # reason"
  have 1: "strtok_at crlf ([] @ ?line @ ch_return # rest) 0 =
      Some (length ([] :: u8 list), length ?line, [] @ ?line @ 0 # rest, length ([] :: u8 list) + length ?line + 1)"
    by (rule strtok_at_token) (use v r d in \<open>auto simp: crlf_def\<close>)
  have 2: "strtok_at [ch_space] ([] @ version @ ch_space # decimal k @ ch_space # reason @ 0 # rest) 0 =
      Some (length ([] :: u8 list), length version, [] @ version @ 0 # decimal k @ ch_space # reason @ 0 # rest,
        length ([] :: u8 list) + length version + 1)"
    by (rule strtok_at_token) (use v in auto)
  have 3: "strtok_at [ch_space] ((version @ [0]) @ decimal k @ ch_space # reason @ 0 # rest) (length version + 1) =
      Some (length (version @ [0]), length (decimal k), (version @ [0]) @ decimal k @ 0 # reason @ 0 # rest,
        length (version @ [0]) + length (decimal k) + 1)"
    by (rule strtok_at_token) (use d decimal_nonempty in auto)
  have a: "c_atoi (decimal k) = int k" using atoi_decimal [OF k, of "[]"] by simp
  show ?thesis
    using 1 2 3 a by (simp add: parse_status_def cut_chunk_def)
qed

text \<open>
  A response that begins with a status line in its first chunk: the status is right, but taking the line apart stores
  zeros in the chunk before it is appended, so that the string a caller gets of the response, whatever is received after
  it, is the version alone.
\<close>

theorem http_response_cut:
  assumes v: "set version \<inter> {ch_space, ch_return, ch_newline, 0} = {}"
    and r: "set reason \<inter> {ch_return, ch_newline, 0} = {}" and k: "k < 2 ^ 31"
  shows "receive_chunk False ((ascii ''HTTP/'' @ version) @ ch_space # decimal k @ ch_space # reason @ crlf @ rest) q =
      (cut_chunk (ascii ''HTTP/'' @ version) (decimal k) reason (ch_newline # rest), q\<lparr>rq_status_code := int k\<rparr>, True) \<and>
    (rq_response q' = Some (cut_chunk (ascii ''HTTP/'' @ version) (decimal k) reason (ch_newline # rest) @ later) \<longrightarrow>
       dup_response b q' s = Some (t, s') \<longrightarrow> t = None \<or> t = Some (ascii ''HTTP/'' @ version))"
proof (intro conjI impI)
  let ?v = "ascii ''HTTP/'' @ version"
  have hv: "set ?v \<inter> {ch_space, ch_return, ch_newline, 0} = {}" "?v \<noteq> []" using v by (auto simp: ascii_def)
  let ?bytes = "?v @ ch_space # decimal k @ ch_space # reason @ crlf @ rest"
  have p: "parse_status (?bytes @ [0]) = (cut_chunk ?v (decimal k) reason (ch_newline # rest) @ [0], Some (int k))"
    using parse_status_line [OF hv r k, of "ch_newline # rest @ [0]"] by (simp add: crlf_def cut_chunk_def)
  have l: "length (cut_chunk ?v (decimal k) reason (ch_newline # rest)) = length ?bytes"
    by (simp add: cut_chunk_def crlf_def)
  have h: "take 5 (?bytes @ [0]) = ascii ''HTTP/''" by (simp add: ascii_def)
  show "receive_chunk False ?bytes q = (cut_chunk ?v (decimal k) reason (ch_newline # rest), q\<lparr>rq_status_code := int k\<rparr>, True)"
    unfolding receive_chunk_def Let_def p h using l by (simp del: append_assoc)
  assume "rq_response q' = Some (cut_chunk ?v (decimal k) reason (ch_newline # rest) @ later)"
    and "dup_response b q' s = Some (t, s')"
  moreover have "c_string (cut_chunk ?v (decimal k) reason (ch_newline # rest) @ later) = ?v"
  proof -
    have e: "cut_chunk ?v (decimal k) reason (ch_newline # rest) @ later =
        ?v @ 0 # (decimal k @ 0 # reason @ 0 # ch_newline # rest @ later)"
      by (simp add: cut_chunk_def)
    show ?thesis unfolding e by (rule c_string_upto) (use hv(1) in blast)
  qed
  ultimately show "t = None \<or> t = Some ?v"
    by (auto simp: dup_response_def call_def c_strdup_def split_beta Let_def split: if_splits)
qed

lemma http_response_cut_witness:
  "receive_chunk False ((ascii ''HTTP/'' @ ascii ''1.1'') @ ch_space # decimal 200 @ ch_space # ascii ''OK'' @ crlf @ []) zero_request =
     (cut_chunk (ascii ''HTTP/'' @ ascii ''1.1'') (decimal 200) (ascii ''OK'') [ch_newline], zero_request\<lparr>rq_status_code := 200\<rparr>, True)"
proof -
  have "set (ascii ''1.1'') \<inter> {ch_space, ch_return, ch_newline, 0} = {}" "set (ascii ''OK'') \<inter> {ch_return, ch_newline, 0} = {}"
    "(200 :: nat) < 2 ^ 31"
    by (simp_all add: ascii_def)
  from conjunct1 [OF http_response_cut [OF this, of "[]" zero_request]] show ?thesis
    by (simp only: append.simps append_Nil2 of_nat_numeral)
qed

section \<open>Time\<close>

text \<open>
  From 2 ^ 32 milliseconds after the start on every response times out at once: the start of the wait is kept in 32
  bits and subtracted from a clock of 64.
\<close>

theorem http_times_out_after_wrap:
  assumes "2 ^ 32 \<le> b_clock b (env s)"
  shows "receive_loop b sockfd (ucast (b_clock b (env s))) headers_received q s = Some (False, q, s)"
proof -
  have "timed_out b (ucast (b_clock b (env s))) t s" for t
  proof -
    define c where "c = b_clock b (env s)"
    have l: "unat (ucast (ucast c :: u32) :: u64) = unat c mod 2 ^ 32"
      by (simp add: unsigned_ucast_eq take_bit_eq_mod unat_mod_distrib)
    have c: "2 ^ 32 \<le> unat c" using assms by (simp add: c_def word_le_nat_alt)
    have "1 \<le> unat c div 2 ^ 32" using c by (simp add: div_greater_zero_iff Suc_le_eq)
    then have "2 ^ 32 * 1 \<le> 2 ^ 32 * (unat c div 2 ^ 32)" by (rule mult_le_mono2)
    then have "2 ^ 32 \<le> unat c - unat c mod 2 ^ 32" unfolding minus_mod_eq_mult_div by simp
    moreover have "unat (c - ucast (ucast c :: u32)) = unat c - unat c mod 2 ^ 32"
      using l by (subst unat_sub) (simp_all add: word_le_nat_alt)
    moreover have "unat (ucast t :: u64) < 2 ^ 32" using unsigned_less [of t, where ?'a = nat] by (simp add: unsigned_ucast_eq take_bit_eq_mod)
    ultimately show ?thesis by (simp add: timed_out_def c_def [symmetric] word_less_nat_alt)
  qed
  then show ?thesis by (subst receive_loop.simps) simp
qed

lemma http_times_out_after_wrap_witness:
  "receive_loop (demo_backend\<lparr>b_clock := \<lambda>_. 2 ^ 32 + 5\<rparr>) 0 (ucast (2 ^ 32 + 5 :: u64)) False zero_request (sockets_boot []) = Some (False, zero_request, (sockets_boot []))"
proof -
  have "2 ^ 32 \<le> b_clock (demo_backend\<lparr>b_clock := \<lambda>_. 2 ^ 32 + 5\<rparr>) (env (sockets_boot []))" by simp
  from http_times_out_after_wrap [OF this, of 0 False zero_request] show ?thesis by simp
qed

lemma http_parse_url_witness:
  "\<exists>a1 a2 n'. mp_http_parse_url demo_backend (Some (ascii ''http://'' @ ascii ''host'' @ port_text (Some 8080) @ ascii ''/x'')) [] =
     ((0, \<lparr>u_host = Some (a1, ascii ''host''), u_port = Some 8080, u_path = Some (a2, ascii ''/x'')\<rparr>), n')"
proof -
  have "\<exists>a1 a2 n'. mp_http_parse_url demo_backend (Some (ascii ''http://'' @ ascii ''host'' @ port_text (Some 8080) @ ascii ''/x'')) [] =
    ((0, \<lparr>u_host = Some (a1, ascii ''host''), u_port = Some (case Some 8080 of None \<Rightarrow> 0 | Some k \<Rightarrow> of_nat k),
          u_path = Some (a2, if ascii ''/x'' = [] then ascii ''/'' else ascii ''/x'')\<rparr>), n')"
    by (rule http_parse_url) (simp_all add: ascii_def demo_backend_def)
  then show ?thesis by (simp add: ascii_def)
qed

end
