(* ===== verification/Handles.thy ===== *)
theory Handles
  imports Prelude
begin

text \<open>
  What the tables of the bus drivers have in common: a list in which each used entry owns a key of its own, and the
  contract of a table that is opened and closed by handle.
\<close>

section \<open>Entries that own keys\<close>

definition owns_keys :: "('x \<Rightarrow> bool) \<Rightarrow> ('x \<Rightarrow> 'k) \<Rightarrow> 'x list \<Rightarrow> 'k set \<Rightarrow> bool" where
  "owns_keys used key xs S \<longleftrightarrow>
     (\<forall>i < length xs. \<forall>j < length xs. used (xs ! i) \<and> used (xs ! j) \<and> key (xs ! i) = key (xs ! j) \<longrightarrow> i = j) \<and>
     (\<forall>k. k \<in> S \<longleftrightarrow> (\<exists>i < length xs. used (xs ! i) \<and> key (xs ! i) = k))"

lemma owns_keys_insert:
  assumes "owns_keys used key xs S" "i < length xs" "\<not> used (xs ! i)" "used y" "key y \<notin> S"
  shows "owns_keys used key (xs[i := y]) (insert (key y) S)"
proof -
  have inj: "a = b" if "a < length xs" "b < length xs" "used (xs ! a)" "used (xs ! b)" "key (xs ! a) = key (xs ! b)" for a b
    using assms(1) that unfolding owns_keys_def by blast
  have S: "k \<in> S \<longleftrightarrow> (\<exists>j < length xs. used (xs ! j) \<and> key (xs ! j) = k)" for k
    using assms(1) unfolding owns_keys_def by blast
  have n: "xs[i := y] ! j = (if j = i then y else xs ! j)" if "j < length xs" for j
    using that assms(2) by (simp add: nth_list_update)
  have "a = b" if "a < length xs" "b < length xs" "used (xs[i := y] ! a)" "used (xs[i := y] ! b)"
    "key (xs[i := y] ! a) = key (xs[i := y] ! b)" for a b
    using that inj [of a b] S [of "key y"] assms(5) by (auto simp: n split: if_splits)
  moreover have "k \<in> insert (key y) S \<longleftrightarrow> (\<exists>j < length xs. used (xs[i := y] ! j) \<and> key (xs[i := y] ! j) = k)" for k
  proof
    assume "k \<in> insert (key y) S"
    then consider "k = key y" | j where "j < length xs" "used (xs ! j)" "key (xs ! j) = k" using S by blast
    then show "\<exists>j < length xs. used (xs[i := y] ! j) \<and> key (xs[i := y] ! j) = k"
    proof cases
      case 1
      then show ?thesis using assms(2,4) by (intro exI [of _ i]) simp
    next
      case 2
      then show ?thesis using assms(3) n by (intro exI [of _ j]) auto
    qed
  next
    assume "\<exists>j < length xs. used (xs[i := y] ! j) \<and> key (xs[i := y] ! j) = k"
    then show "k \<in> insert (key y) S" using S n by (metis insert_iff)
  qed
  ultimately show ?thesis by (simp add: owns_keys_def)
qed

lemma owns_keys_remove:
  assumes "owns_keys used key xs S" "i < length xs" "used (xs ! i)" "\<not> used y"
  shows "owns_keys used key (xs[i := y]) (S - {key (xs ! i)})"
proof -
  have inj: "a = b" if "a < length xs" "b < length xs" "used (xs ! a)" "used (xs ! b)" "key (xs ! a) = key (xs ! b)" for a b
    using assms(1) that unfolding owns_keys_def by blast
  have S: "k \<in> S \<longleftrightarrow> (\<exists>j < length xs. used (xs ! j) \<and> key (xs ! j) = k)" for k
    using assms(1) unfolding owns_keys_def by blast
  have n: "xs[i := y] ! j = (if j = i then y else xs ! j)" if "j < length xs" for j
    using that assms(2) by (simp add: nth_list_update)
  have "a = b" if "a < length xs" "b < length xs" "used (xs[i := y] ! a)" "used (xs[i := y] ! b)"
    "key (xs[i := y] ! a) = key (xs[i := y] ! b)" for a b
    using that inj [of a b] assms(4) by (auto simp: n split: if_splits)
  moreover have "k \<in> S - {key (xs ! i)} \<longleftrightarrow> (\<exists>j < length xs. used (xs[i := y] ! j) \<and> key (xs[i := y] ! j) = k)" for k
  proof
    assume "k \<in> S - {key (xs ! i)}"
    then obtain j where "j < length xs" "used (xs ! j)" "key (xs ! j) = k" "j \<noteq> i" using S by blast
    then show "\<exists>j < length xs. used (xs[i := y] ! j) \<and> key (xs[i := y] ! j) = k" using n by (intro exI [of _ j]) auto
  next
    assume "\<exists>j < length xs. used (xs[i := y] ! j) \<and> key (xs[i := y] ! j) = k"
    then obtain j where j: "j < length xs" "used (xs[i := y] ! j)" "key (xs[i := y] ! j) = k" by blast
    then have "j \<noteq> i" using assms(4) n by auto
    then have "used (xs ! j)" "key (xs ! j) = k" using j n by auto
    then show "k \<in> S - {key (xs ! i)}" using S [of k] inj [of j i] j(1) \<open>j \<noteq> i\<close> assms(2,3) by auto
  qed
  ultimately show ?thesis by (simp add: owns_keys_def)
qed

lemma owns_keys_change:
  assumes "owns_keys used key xs S" "used y = used (xs ! i)" "key y = key (xs ! i)"
  shows "owns_keys used key (xs[i := y]) S"
proof (cases "i < length xs")
  case True
  have "used (xs[i := y] ! j) = used (xs ! j) \<and> key (xs[i := y] ! j) = key (xs ! j)" if "j < length xs" for j
    using that True assms(2,3) by (simp add: nth_list_update)
  then show ?thesis using assms(1) by (simp add: owns_keys_def cong: conj_cong)
qed (use assms(1) in \<open>simp add: list_update_beyond\<close>)

text \<open>The key of an unused entry does not matter.\<close>

lemma owns_keys_unused:
  assumes "owns_keys used key xs S" "\<not> used (xs ! i)" "\<not> used y"
  shows "owns_keys used key (xs[i := y]) S"
proof (cases "i < length xs")
  case True
  have "used (xs[i := y] ! j) = used (xs ! j) \<and> (used (xs ! j) \<longrightarrow> key (xs[i := y] ! j) = key (xs ! j))"
    if "j < length xs" for j
    using that True assms(2,3) by (cases "i = j") auto
  then show ?thesis using assms(1) unfolding owns_keys_def length_list_update by (metis (no_types, lifting))
qed (use assms(1) in \<open>simp add: list_update_beyond\<close>)

text \<open>There are no more used entries than keys.\<close>

lemma owns_keys_card:
  assumes "owns_keys used key xs S" "finite S"
  shows "card {i. i < length xs \<and> used (xs ! i)} \<le> card S"
proof (rule card_inj_on_le [where f = "\<lambda>i. key (xs ! i)"])
  show "inj_on (\<lambda>i. key (xs ! i)) {i. i < length xs \<and> used (xs ! i)}"
    using assms(1) by (auto simp: owns_keys_def inj_on_def)
  show "(\<lambda>i. key (xs ! i)) ` {i. i < length xs \<and> used (xs ! i)} \<subseteq> S"
    using assms(1) by (auto simp: owns_keys_def)
qed (rule assms(2))

section \<open>Tables of handles\<close>

datatype ('a, 'h) handle_op = Open_h 'a | Close_h 'h

fun handle_run ::
  "('a \<Rightarrow> 's \<Rightarrow> 'h option \<times> 's) \<Rightarrow> ('h \<Rightarrow> 's \<Rightarrow> 's) \<Rightarrow> ('a, 'h) handle_op list \<Rightarrow> 's \<Rightarrow> 'h option list \<times> 's" where
  "handle_run opn cls [] s = ([], s)"
| "handle_run opn cls (Open_h a # ops) s =
     (let (h, s1) = opn a s; (hs, s2) = handle_run opn cls ops s1 in (h # hs, s2))"
| "handle_run opn cls (Close_h h # ops) s = handle_run opn cls ops (cls h s)"

text \<open>The handles in use after a sequence of operations, given the answers to the opens; \<^term>\<open>None\<close> when an answer is
  a handle that was in use.\<close>

fun handles_live :: "('a, 'h) handle_op list \<Rightarrow> 'h option list \<Rightarrow> 'h set \<Rightarrow> 'h set option" where
  "handles_live [] hs L = (if hs = [] then Some L else None)"
| "handles_live (Open_h a # ops) [] L = None"
| "handles_live (Open_h a # ops) (None # hs) L = handles_live ops hs L"
| "handles_live (Open_h a # ops) (Some h # hs) L = (if h \<in> L then None else handles_live ops hs (insert h L))"
| "handles_live (Close_h h # ops) hs L = handles_live ops hs (L - {h})"

locale handle_table =
  fixes inv :: "'s \<Rightarrow> bool"
    and used :: "'s \<Rightarrow> 'h set"
    and opn :: "'a \<Rightarrow> 's \<Rightarrow> 'h option \<times> 's"
    and cls :: "'h \<Rightarrow> 's \<Rightarrow> 's"
  assumes open_some: "inv s \<Longrightarrow> opn a s = (Some h, s') \<Longrightarrow> inv s' \<and> h \<notin> used s \<and> used s' = insert h (used s)"
    and open_none: "inv s \<Longrightarrow> opn a s = (None, s') \<Longrightarrow> inv s' \<and> used s' = used s"
    and close: "inv s \<Longrightarrow> inv (cls h s) \<and> used (cls h s) = used s - {h}"
begin

text \<open>No handle is given twice, and those in use are those that were given and not closed since.\<close>

lemma run_live:
  "inv s \<Longrightarrow> handle_run opn cls ops s = (hs, s') \<Longrightarrow> inv s' \<and> handles_live ops hs (used s) = Some (used s')"
proof (induction ops arbitrary: s hs)
  case (Cons op ops)
  show ?case
  proof (cases op)
    case (Open_h a)
    obtain r s1 where o: "opn a s = (r, s1)" by force
    obtain hs' where r: "handle_run opn cls ops s1 = (hs', s')" "hs = r # hs'"
      using Cons.prems(2) Open_h o by (auto split: prod.splits)
    show ?thesis
    proof (cases r)
      case None
      then have "inv s1" "used s1 = used s" using open_none [OF Cons.prems(1)] o by auto
      then show ?thesis using Cons.IH [OF _ r(1)] r(2) None Open_h by simp
    next
      case (Some h)
      then have "inv s1" "h \<notin> used s" "used s1 = insert h (used s)" using open_some [OF Cons.prems(1)] o by auto
      then show ?thesis using Cons.IH [OF _ r(1)] r(2) Some Open_h by simp
    qed
  next
    case (Close_h h)
    then have "handle_run opn cls ops (cls h s) = (hs, s')" using Cons.prems(2) by simp
    then show ?thesis using Cons.IH [of "cls h s" hs] close [OF Cons.prems(1)] Close_h by simp
  qed
qed simp

end

end
