(* ===== verification/I2c.thy ===== *)
theory I2c
  imports Prelude
begin

text \<open>
  The I2C driver \<open>src/drivers/i2c.c\<close>: a table of eight devices, opened and closed by handle, in front of the driver of
  ESP-IDF, or of nothing on the other platforms.  The driver of ESP-IDF is a parameter, a record of its calls on a state
  of its own; \<open>ESP_OK\<close> is 0.  Lines that are logged are left out.
\<close>

definition ESP_OK :: int where "ESP_OK = 0"

definition MP_I2C_MAX_DEVICES :: nat where "MP_I2C_MAX_DEVICES = 8"
definition MP_I2C_MAX_PORTS :: u8 where "MP_I2C_MAX_PORTS = 2"
definition MP_I2C_INVALID_HANDLE :: u8 where "MP_I2C_INVALID_HANDLE = 0xFF"

text \<open>What ESP-IDF is told of a port, and a transfer on it: the shifted address, and the data to write or the number of
  bytes to read.\<close>

record i2c_config =
  sda_io_num :: nat
  scl_io_num :: nat
  clk_speed :: u32

datatype i2c_cmd = I2C_write int "u8 list" | I2C_read int nat

record 'd i2c_idf =
  i2c_param_config :: "nat \<Rightarrow> i2c_config \<Rightarrow> 'd \<Rightarrow> int \<times> 'd"
  i2c_driver_install :: "nat \<Rightarrow> 'd \<Rightarrow> int \<times> 'd"
  i2c_driver_delete :: "nat \<Rightarrow> 'd \<Rightarrow> 'd"
  i2c_master_cmd_begin :: "nat \<Rightarrow> i2c_cmd \<Rightarrow> u32 \<Rightarrow> 'd \<Rightarrow> int \<times> u8 list \<times> 'd"
  i2c_get_config :: "nat \<Rightarrow> 'd \<Rightarrow> int \<times> i2c_config"
  i2c_ticks :: "u32 \<Rightarrow> u32"

record i2c_device =
  i2c_port_no :: u8
  i2c_address :: u8
  i2c_speed :: u32
  i2c_initialized :: bool

record 'd i2c_state =
  i2c_devices :: "i2c_device list"
  i2c_hw :: 'd

definition zero_i2c_device :: i2c_device where
  "zero_i2c_device = \<lparr>i2c_port_no = 0, i2c_address = 0, i2c_speed = 0, i2c_initialized = False\<rparr>"

definition i2c_boot :: "'d \<Rightarrow> 'd i2c_state" where
  "i2c_boot d = \<lparr>i2c_devices = replicate MP_I2C_MAX_DEVICES zero_i2c_device, i2c_hw = d\<rparr>"

definition mp_i2c_init :: "'d i2c_state \<Rightarrow> int \<times> 'd i2c_state" where
  "mp_i2c_init s = (0, s\<lparr>i2c_devices := replicate MP_I2C_MAX_DEVICES zero_i2c_device\<rparr>)"

definition i2c_open_at :: "'d i2c_state \<Rightarrow> nat \<Rightarrow> bool" where
  "i2c_open_at s i \<longleftrightarrow> i < MP_I2C_MAX_DEVICES \<and> i2c_initialized (i2c_devices s ! i)"

definition upd_i2c :: "nat \<Rightarrow> (i2c_device \<Rightarrow> i2c_device) \<Rightarrow> 'd i2c_state \<Rightarrow> 'd i2c_state" where
  "upd_i2c i f s = s\<lparr>i2c_devices := (i2c_devices s)[i := f (i2c_devices s ! i)]\<rparr>"

section \<open>The port on the ESP32\<close>

definition esp32_i2c_port :: "u8 \<Rightarrow> nat" where "esp32_i2c_port port = (if port = 0 then 0 else 1)"

definition mp_i2c_esp32_init_port :: "'d i2c_idf \<Rightarrow> u8 \<Rightarrow> u32 \<Rightarrow> 'd \<Rightarrow> int \<times> 'd" where
  "mp_i2c_esp32_init_port idf port speed d =
     (if port \<ge> MP_I2C_MAX_PORTS then (-1, d)
      else
        let conf = \<lparr>sda_io_num = (if port = 0 then 21 else 19), scl_io_num = (if port = 0 then 22 else 23), clk_speed = speed\<rparr>;
            (err, d1) = i2c_param_config idf (esp32_i2c_port port) conf d
        in if err \<noteq> ESP_OK then (-1, d1)
           else
             let (err2, d2) = i2c_driver_install idf (esp32_i2c_port port) d1
             in if err2 \<noteq> ESP_OK then (-1, d2) else (0, d2))"

definition mp_i2c_esp32_deinit_port :: "'d i2c_idf \<Rightarrow> u8 \<Rightarrow> 'd \<Rightarrow> 'd" where
  "mp_i2c_esp32_deinit_port idf port d =
     (if port \<ge> MP_I2C_MAX_PORTS then d else i2c_driver_delete idf (esp32_i2c_port port) d)"

text \<open>The byte of the address: shifted, in an \<open>int\<close>.\<close>

definition addr_shifted :: "u8 \<Rightarrow> int" where "addr_shifted address = push_bit 1 (uint address)"

definition mp_i2c_esp32_write :: "'d i2c_idf \<Rightarrow> u8 \<Rightarrow> u8 \<Rightarrow> u8 list \<Rightarrow> u16 \<Rightarrow> u32 \<Rightarrow> 'd \<Rightarrow> (int \<times> 'd) option" where
  "mp_i2c_esp32_write idf port address data len timeout_ms d =
     (if port \<ge> MP_I2C_MAX_PORTS then Some (-1, d)
      else do {
        bytes \<leftarrow> mem_read data 0 (unat len);
        let (err, r, d1) = i2c_master_cmd_begin idf (esp32_i2c_port port) (I2C_write (addr_shifted address) bytes)
               (i2c_ticks idf timeout_ms) d;
        Some (if err \<noteq> ESP_OK then -1 else uint len, d1) })"

text \<open>The result, the buffer and the state; the bytes that came are stored at its start.\<close>

definition mp_i2c_esp32_read :: "'d i2c_idf \<Rightarrow> u8 \<Rightarrow> u8 \<Rightarrow> u8 list \<Rightarrow> u16 \<Rightarrow> u32 \<Rightarrow> 'd \<Rightarrow> (int \<times> u8 list \<times> 'd) option" where
  "mp_i2c_esp32_read idf port address data len timeout_ms d =
     (if port \<ge> MP_I2C_MAX_PORTS then Some (-1, data, d)
      else
        let (err, bytes, d1) = i2c_master_cmd_begin idf (esp32_i2c_port port) (I2C_read (addr_shifted address) (unat len))
               (i2c_ticks idf timeout_ms) d
        in do { data' \<leftarrow> mem_write data 0 bytes; Some (if err \<noteq> ESP_OK then -1 else uint len, data', d1) })"

definition mp_i2c_esp32_write_read ::
  "'d i2c_idf \<Rightarrow> u8 \<Rightarrow> u8 \<Rightarrow> u8 list \<Rightarrow> u16 \<Rightarrow> u8 list \<Rightarrow> u16 \<Rightarrow> u32 \<Rightarrow> 'd \<Rightarrow> (int \<times> u8 list \<times> 'd) option" where
  "mp_i2c_esp32_write_read idf port address write_data write_len read_data read_len timeout_ms d =
     (if port \<ge> MP_I2C_MAX_PORTS then Some (-1, read_data, d)
      else if write_len > 0 \<and> read_len > 0
      then do {
        (r1, d1) \<leftarrow> mp_i2c_esp32_write idf port address write_data write_len (timeout_ms div 2) d;
        if r1 < 0 then Some (-1, read_data, d1)
        else do {
          (r2, data', d2) \<leftarrow> mp_i2c_esp32_read idf port address read_data read_len (timeout_ms div 2) d1;
          Some (if r2 < 0 then -1 else uint write_len + uint read_len, data', d2) } }
      else if write_len > 0
      then do { (r, d1) \<leftarrow> mp_i2c_esp32_write idf port address write_data write_len timeout_ms d; Some (r, read_data, d1) }
      else if read_len > 0 then mp_i2c_esp32_read idf port address read_data read_len timeout_ms d
      else Some (0, read_data, d))"

definition mp_i2c_esp32_set_speed :: "'d i2c_idf \<Rightarrow> u8 \<Rightarrow> u32 \<Rightarrow> 'd \<Rightarrow> int \<times> 'd" where
  "mp_i2c_esp32_set_speed idf port speed d =
     (if port \<ge> MP_I2C_MAX_PORTS then (-1, d)
      else
        let (err, conf) = i2c_get_config idf (esp32_i2c_port port) d
        in if err \<noteq> ESP_OK then (-1, d)
           else
             let (err2, d1) = i2c_param_config idf (esp32_i2c_port port) (conf\<lparr>clk_speed := speed\<rparr>) d
             in (if err2 \<noteq> ESP_OK then -1 else 0, d1))"

section \<open>The driver\<close>

text \<open>The platform is the ESP32 when its drivers are given.\<close>

definition mp_i2c_open :: "'d i2c_idf option \<Rightarrow> u8 \<Rightarrow> u32 \<Rightarrow> 'd i2c_state \<Rightarrow> u8 \<times> 'd i2c_state" where
  "mp_i2c_open esp port speed s =
     (if port \<ge> MP_I2C_MAX_PORTS then (MP_I2C_INVALID_HANDLE, s)
      else
        (case find (\<lambda>i. \<not> i2c_initialized (i2c_devices s ! i)) [0..<MP_I2C_MAX_DEVICES] of
           None \<Rightarrow> (MP_I2C_INVALID_HANDLE, s)
         | Some i \<Rightarrow>
             let s1 = upd_i2c i (\<lambda>k. k\<lparr>i2c_port_no := port, i2c_speed := speed, i2c_initialized := True\<rparr>) s
             in (case esp of None \<Rightarrow> (of_nat i, s1)
                 | Some idf \<Rightarrow>
                     let (r, d) = mp_i2c_esp32_init_port idf port speed (i2c_hw s1); s2 = s1\<lparr>i2c_hw := d\<rparr>
                     in if r \<noteq> 0 then (MP_I2C_INVALID_HANDLE, upd_i2c i (\<lambda>k. k\<lparr>i2c_initialized := False\<rparr>) s2)
                        else (of_nat i, s2))))"

definition mp_i2c_close :: "'d i2c_idf option \<Rightarrow> u8 \<Rightarrow> 'd i2c_state \<Rightarrow> 'd i2c_state" where
  "mp_i2c_close esp handle s =
     (let i = unat handle
      in if \<not> i2c_open_at s i then s
         else
           let s1 = (case esp of None \<Rightarrow> s
                     | Some idf \<Rightarrow> s\<lparr>i2c_hw := mp_i2c_esp32_deinit_port idf (i2c_port_no (i2c_devices s ! i)) (i2c_hw s)\<rparr>)
           in upd_i2c i (\<lambda>k. k\<lparr>i2c_initialized := False\<rparr>) s1)"

definition mp_i2c_write ::
  "'d i2c_idf option \<Rightarrow> u8 \<Rightarrow> u8 \<Rightarrow> u8 list option \<Rightarrow> u16 \<Rightarrow> u32 \<Rightarrow> 'd i2c_state \<Rightarrow> (int \<times> 'd i2c_state) option" where
  "mp_i2c_write esp handle address data len timeout_ms s =
     (if \<not> i2c_open_at s (unat handle) then Some (-1, s)
      else
        (case data of None \<Rightarrow> Some (-1, s)
         | Some m \<Rightarrow>
             if len = 0 then Some (-1, s)
             else
               (case esp of None \<Rightarrow> Some (uint len, s)
                | Some idf \<Rightarrow>
                    do { (r, d) \<leftarrow> mp_i2c_esp32_write idf (i2c_port_no (i2c_devices s ! unat handle)) address m len timeout_ms
                           (i2c_hw s);
                         Some (r, s\<lparr>i2c_hw := d\<rparr>) })))"

definition mp_i2c_read ::
  "'d i2c_idf option \<Rightarrow> u8 \<Rightarrow> u8 \<Rightarrow> u8 list option \<Rightarrow> u16 \<Rightarrow> u32 \<Rightarrow> 'd i2c_state \<Rightarrow>
     (int \<times> u8 list option \<times> 'd i2c_state) option" where
  "mp_i2c_read esp handle address data len timeout_ms s =
     (if \<not> i2c_open_at s (unat handle) then Some (-1, data, s)
      else
        (case data of None \<Rightarrow> Some (-1, None, s)
         | Some m \<Rightarrow>
             if len = 0 then Some (-1, Some m, s)
             else
               (case esp of
                  None \<Rightarrow> do { m' \<leftarrow> mem_write m 0 (replicate (unat len) 0); Some (uint len, Some m', s) }
                | Some idf \<Rightarrow>
                    do { (r, m', d) \<leftarrow> mp_i2c_esp32_read idf (i2c_port_no (i2c_devices s ! unat handle)) address m len
                           timeout_ms (i2c_hw s);
                         Some (r, Some m', s\<lparr>i2c_hw := d\<rparr>) })))"

definition mp_i2c_write_read ::
  "'d i2c_idf option \<Rightarrow> u8 \<Rightarrow> u8 \<Rightarrow> u8 list option \<Rightarrow> u16 \<Rightarrow> u8 list option \<Rightarrow> u16 \<Rightarrow> u32 \<Rightarrow> 'd i2c_state \<Rightarrow>
     (int \<times> u8 list option \<times> 'd i2c_state) option" where
  "mp_i2c_write_read esp handle address write_data write_len read_data read_len timeout_ms s =
     (if \<not> i2c_open_at s (unat handle) then Some (-1, read_data, s)
      else if write_data = None \<and> write_len > 0 \<or> read_data = None \<and> read_len > 0 then Some (-1, read_data, s)
      else
        let w = (case write_data of None \<Rightarrow> [] | Some m \<Rightarrow> m); r = (case read_data of None \<Rightarrow> [] | Some m \<Rightarrow> m)
        in (case esp of
              None \<Rightarrow>
                do { r' \<leftarrow> mem_write r 0 (replicate (unat read_len) 0);
                     Some (uint write_len + uint read_len, map_option (\<lambda>_. r') read_data, s) }
            | Some idf \<Rightarrow>
                do { (v, r', d) \<leftarrow> mp_i2c_esp32_write_read idf (i2c_port_no (i2c_devices s ! unat handle)) address w write_len r
                       read_len timeout_ms (i2c_hw s);
                     Some (v, map_option (\<lambda>_. r') read_data, s\<lparr>i2c_hw := d\<rparr>) }))"

definition mp_i2c_set_speed :: "'d i2c_idf option \<Rightarrow> u8 \<Rightarrow> u32 \<Rightarrow> 'd i2c_state \<Rightarrow> int \<times> 'd i2c_state" where
  "mp_i2c_set_speed esp handle speed s =
     (if \<not> i2c_open_at s (unat handle) then (-1, s)
      else
        let s1 = upd_i2c (unat handle) (\<lambda>k. k\<lparr>i2c_speed := speed\<rparr>) s
        in (case esp of None \<Rightarrow> (0, s1)
            | Some idf \<Rightarrow>
                let (r, d) = mp_i2c_esp32_set_speed idf (i2c_port_no (i2c_devices s1 ! unat handle)) speed (i2c_hw s1)
                in (r, s1\<lparr>i2c_hw := d\<rparr>)))"

definition mp_i2c_get_speed :: "u8 \<Rightarrow> 'd i2c_state \<Rightarrow> u32" where
  "mp_i2c_get_speed handle s = (if i2c_open_at s (unat handle) then i2c_speed (i2c_devices s ! unat handle) else 0)"

end
