(* ===== verification/Spi.thy ===== *)
theory Spi
  imports I2c
begin

text \<open>
  The SPI driver \<open>src/drivers/spi.c\<close>: a table of eight devices in front of the SPI master of ESP-IDF, a parameter as for
  I2C, with the chip select line driven by hand.
\<close>

definition MP_SPI_MAX_DEVICES :: nat where "MP_SPI_MAX_DEVICES = 8"
definition MP_SPI_MAX_BUSES :: u8 where "MP_SPI_MAX_BUSES = 4"
definition MP_SPI_INVALID_HANDLE :: u8 where "MP_SPI_INVALID_HANDLE = 0xFF"

record spi_bus_config =
  miso_io_num :: int
  mosi_io_num :: int
  sclk_io_num :: int
  quadwp_io_num :: int
  quadhd_io_num :: int
  max_transfer_sz :: int

record spi_devcfg =
  clock_speed_hz :: u32
  dev_mode :: u8
  spics_io_num :: int
  queue_size :: int

text \<open>Devices of ESP-IDF are pointers, 0 for \<open>NULL\<close>.  A transfer has a length in bits, a buffer to send and one to fill.\<close>

record 'd spi_idf =
  spi_bus_initialize :: "nat \<Rightarrow> spi_bus_config \<Rightarrow> 'd \<Rightarrow> int \<times> 'd"
  spi_bus_add_device :: "nat \<Rightarrow> spi_devcfg \<Rightarrow> 'd \<Rightarrow> int \<times> u32 \<times> 'd"
  spi_bus_remove_device :: "u32 \<Rightarrow> 'd \<Rightarrow> 'd"
  spi_bus_free :: "nat \<Rightarrow> 'd \<Rightarrow> 'd"
  spi_device_transmit :: "u32 \<Rightarrow> nat \<Rightarrow> u8 list option \<Rightarrow> u8 list option \<Rightarrow> 'd \<Rightarrow> int \<times> u8 list option \<times> 'd"
  spi_get_device_config :: "u32 \<Rightarrow> 'd \<Rightarrow> int \<times> spi_devcfg"
  spi_update_device_config :: "u32 \<Rightarrow> spi_devcfg \<Rightarrow> 'd \<Rightarrow> int \<times> 'd"
  gpio_set_level :: "u8 \<Rightarrow> u32 \<Rightarrow> 'd \<Rightarrow> 'd"

record spi_device =
  spi_bus_no :: u8
  spi_cs_pin :: u8
  spi_speed :: u32
  spi_mode :: u8
  spi_initialized :: bool

record 'd spi_state =
  spi_devices :: "spi_device list"
  spi_handles :: "u32 list"
  spi_hw :: 'd

definition zero_spi_device :: spi_device where
  "zero_spi_device = \<lparr>spi_bus_no = 0, spi_cs_pin = 0, spi_speed = 0, spi_mode = 0, spi_initialized = False\<rparr>"

definition spi_boot :: "'d \<Rightarrow> 'd spi_state" where
  "spi_boot d = \<lparr>spi_devices = replicate MP_SPI_MAX_DEVICES zero_spi_device, spi_handles = replicate (unat MP_SPI_MAX_BUSES) 0,
     spi_hw = d\<rparr>"

definition mp_spi_init :: "'d spi_state \<Rightarrow> int \<times> 'd spi_state" where
  "mp_spi_init s = (0, s\<lparr>spi_devices := replicate MP_SPI_MAX_DEVICES zero_spi_device\<rparr>)"

definition spi_open_at :: "'d spi_state \<Rightarrow> nat \<Rightarrow> bool" where
  "spi_open_at s i \<longleftrightarrow> i < MP_SPI_MAX_DEVICES \<and> spi_initialized (spi_devices s ! i)"

definition upd_spi :: "nat \<Rightarrow> (spi_device \<Rightarrow> spi_device) \<Rightarrow> 'd spi_state \<Rightarrow> 'd spi_state" where
  "upd_spi i f s = s\<lparr>spi_devices := (spi_devices s)[i := f (spi_devices s ! i)]\<rparr>"

section \<open>The bus on the ESP32\<close>

text \<open>SPI2 for bus 0, SPI3 for every other one.\<close>

definition esp32_spi_host :: "u8 \<Rightarrow> nat" where "esp32_spi_host bus = (if bus = 0 then 1 else 2)"

definition esp32_spi_buscfg :: "u8 \<Rightarrow> spi_bus_config" where
  "esp32_spi_buscfg bus =
     \<lparr>miso_io_num = (if bus = 0 then 12 else 19), mosi_io_num = (if bus = 0 then 13 else 23),
      sclk_io_num = (if bus = 0 then 14 else 18), quadwp_io_num = -1, quadhd_io_num = -1, max_transfer_sz = 32\<rparr>"

definition mp_spi_esp32_init_bus :: "'d spi_idf \<Rightarrow> u8 \<Rightarrow> u32 \<Rightarrow> u8 \<Rightarrow> 'd spi_state \<Rightarrow> int \<times> 'd spi_state" where
  "mp_spi_esp32_init_bus idf bus speed mode s =
     (if bus \<ge> MP_SPI_MAX_BUSES then (-1, s)
      else
        let devcfg = \<lparr>clock_speed_hz = speed, dev_mode = mode, spics_io_num = -1, queue_size = 7\<rparr>;
            host = esp32_spi_host bus;
            (err, d1) = spi_bus_initialize idf host (esp32_spi_buscfg bus) (spi_hw s)
        in if err \<noteq> ESP_OK then (-1, s\<lparr>spi_hw := d1\<rparr>)
           else
             let (err2, handle, d2) = spi_bus_add_device idf host devcfg d1
             in if err2 \<noteq> ESP_OK then (-1, s\<lparr>spi_hw := spi_bus_free idf host d2\<rparr>)
                else (0, s\<lparr>spi_handles := (spi_handles s)[unat bus := handle], spi_hw := d2\<rparr>))"

definition mp_spi_esp32_deinit_bus :: "'d spi_idf \<Rightarrow> u8 \<Rightarrow> 'd spi_state \<Rightarrow> 'd spi_state" where
  "mp_spi_esp32_deinit_bus idf bus s =
     (if bus \<ge> MP_SPI_MAX_BUSES then s
      else
        let s1 = (if spi_handles s ! unat bus \<noteq> 0
                  then s\<lparr>spi_handles := (spi_handles s)[unat bus := 0],
                         spi_hw := spi_bus_remove_device idf (spi_handles s ! unat bus) (spi_hw s)\<rparr>
                  else s)
        in s1\<lparr>spi_hw := spi_bus_free idf (esp32_spi_host bus) (spi_hw s1)\<rparr>)"

text \<open>The result and the buffer that was to be filled.\<close>

definition mp_spi_esp32_transfer ::
  "'d spi_idf \<Rightarrow> u8 \<Rightarrow> u8 \<Rightarrow> u8 list option \<Rightarrow> u8 list option \<Rightarrow> u16 \<Rightarrow> u32 \<Rightarrow> 'd spi_state \<Rightarrow>
     int \<times> u8 list option \<times> 'd spi_state" where
  "mp_spi_esp32_transfer idf bus cs_pin tx_data rx_data len timeout_ms s =
     (if bus \<ge> MP_SPI_MAX_BUSES then (-1, rx_data, s)
      else
        let d1 = gpio_set_level idf cs_pin 0 (spi_hw s);
            (err, rx, d2) = spi_device_transmit idf (spi_handles s ! unat bus) (unat len * 8) tx_data rx_data d1;
            d3 = gpio_set_level idf cs_pin 1 d2
        in (if err \<noteq> ESP_OK then -1 else uint len, rx, s\<lparr>spi_hw := d3\<rparr>))"

definition mp_spi_esp32_reconfigure ::
  "'d spi_idf \<Rightarrow> u8 \<Rightarrow> (spi_devcfg \<Rightarrow> spi_devcfg) \<Rightarrow> 'd spi_state \<Rightarrow> int \<times> 'd spi_state" where
  "mp_spi_esp32_reconfigure idf bus f s =
     (if bus \<ge> MP_SPI_MAX_BUSES \<or> spi_handles s ! unat bus = 0 then (-1, s)
      else
        let h = spi_handles s ! unat bus; (err, devcfg) = spi_get_device_config idf h (spi_hw s)
        in if err \<noteq> ESP_OK then (-1, s)
           else
             let (err2, d) = spi_update_device_config idf h (f devcfg) (spi_hw s)
             in (if err2 \<noteq> ESP_OK then -1 else 0, s\<lparr>spi_hw := d\<rparr>))"

definition mp_spi_esp32_set_speed :: "'d spi_idf \<Rightarrow> u8 \<Rightarrow> u32 \<Rightarrow> 'd spi_state \<Rightarrow> int \<times> 'd spi_state" where
  "mp_spi_esp32_set_speed idf bus speed = mp_spi_esp32_reconfigure idf bus (\<lambda>c. c\<lparr>clock_speed_hz := speed\<rparr>)"

definition mp_spi_esp32_set_mode :: "'d spi_idf \<Rightarrow> u8 \<Rightarrow> u8 \<Rightarrow> 'd spi_state \<Rightarrow> int \<times> 'd spi_state" where
  "mp_spi_esp32_set_mode idf bus mode = mp_spi_esp32_reconfigure idf bus (\<lambda>c. c\<lparr>dev_mode := mode\<rparr>)"

definition mp_spi_esp32_assert_cs :: "'d spi_idf \<Rightarrow> u8 \<Rightarrow> 'd spi_state \<Rightarrow> 'd spi_state" where
  "mp_spi_esp32_assert_cs idf cs_pin s = s\<lparr>spi_hw := gpio_set_level idf cs_pin 0 (spi_hw s)\<rparr>"

definition mp_spi_esp32_deassert_cs :: "'d spi_idf \<Rightarrow> u8 \<Rightarrow> 'd spi_state \<Rightarrow> 'd spi_state" where
  "mp_spi_esp32_deassert_cs idf cs_pin s = s\<lparr>spi_hw := gpio_set_level idf cs_pin 1 (spi_hw s)\<rparr>"

section \<open>The driver\<close>

definition mp_spi_open :: "'d spi_idf option \<Rightarrow> u8 \<Rightarrow> u8 \<Rightarrow> u32 \<Rightarrow> u8 \<Rightarrow> 'd spi_state \<Rightarrow> u8 \<times> 'd spi_state" where
  "mp_spi_open esp bus cs_pin speed mode s =
     (if bus \<ge> MP_SPI_MAX_BUSES then (MP_SPI_INVALID_HANDLE, s)
      else
        (case find (\<lambda>i. \<not> spi_initialized (spi_devices s ! i)) [0..<MP_SPI_MAX_DEVICES] of
           None \<Rightarrow> (MP_SPI_INVALID_HANDLE, s)
         | Some i \<Rightarrow>
             let s1 = upd_spi i (\<lambda>_. \<lparr>spi_bus_no = bus, spi_cs_pin = cs_pin, spi_speed = speed, spi_mode = mode AND 3,
                        spi_initialized = True\<rparr>) s
             in (case esp of None \<Rightarrow> (of_nat i, s1)
                 | Some idf \<Rightarrow>
                     let (r, s2) = mp_spi_esp32_init_bus idf bus speed mode s1
                     in if r \<noteq> 0 then (MP_SPI_INVALID_HANDLE, upd_spi i (\<lambda>k. k\<lparr>spi_initialized := False\<rparr>) s2)
                        else (of_nat i, s2))))"

definition mp_spi_close :: "'d spi_idf option \<Rightarrow> u8 \<Rightarrow> 'd spi_state \<Rightarrow> 'd spi_state" where
  "mp_spi_close esp handle s =
     (let i = unat handle
      in if \<not> spi_open_at s i then s
         else
           let s1 = (case esp of None \<Rightarrow> s
                     | Some idf \<Rightarrow> mp_spi_esp32_deinit_bus idf (spi_bus_no (spi_devices s ! i)) s)
           in upd_spi i (\<lambda>k. k\<lparr>spi_initialized := False\<rparr>) s1)"

definition mp_spi_transfer ::
  "'d spi_idf option \<Rightarrow> u8 \<Rightarrow> u8 list option \<Rightarrow> u8 list option \<Rightarrow> u16 \<Rightarrow> u32 \<Rightarrow> 'd spi_state \<Rightarrow>
     (int \<times> u8 list option \<times> 'd spi_state) option" where
  "mp_spi_transfer esp handle tx_data rx_data len timeout_ms s =
     (if \<not> spi_open_at s (unat handle) then Some (-1, rx_data, s)
      else if len = 0 then Some (0, rx_data, s)
      else if tx_data = None \<and> rx_data = None then Some (-1, rx_data, s)
      else
        let k = spi_devices s ! unat handle
        in (case esp of
              Some idf \<Rightarrow> Some (mp_spi_esp32_transfer idf (spi_bus_no k) (spi_cs_pin k) tx_data rx_data len timeout_ms s)
            | None \<Rightarrow>
                (case rx_data of
                   None \<Rightarrow> Some (uint len, None, s)
                 | Some m \<Rightarrow> do { m' \<leftarrow> mem_write m 0 (replicate (unat len) 0); Some (uint len, Some m', s) })))"

definition mp_spi_write ::
  "'d spi_idf option \<Rightarrow> u8 \<Rightarrow> u8 list option \<Rightarrow> u16 \<Rightarrow> u32 \<Rightarrow> 'd spi_state \<Rightarrow>
     (int \<times> u8 list option \<times> 'd spi_state) option" where
  "mp_spi_write esp handle data len timeout_ms = mp_spi_transfer esp handle data None len timeout_ms"

definition mp_spi_read ::
  "'d spi_idf option \<Rightarrow> u8 \<Rightarrow> u8 list option \<Rightarrow> u16 \<Rightarrow> u32 \<Rightarrow> 'd spi_state \<Rightarrow>
     (int \<times> u8 list option \<times> 'd spi_state) option" where
  "mp_spi_read esp handle data len timeout_ms = mp_spi_transfer esp handle None data len timeout_ms"

definition mp_spi_set_speed :: "'d spi_idf option \<Rightarrow> u8 \<Rightarrow> u32 \<Rightarrow> 'd spi_state \<Rightarrow> int \<times> 'd spi_state" where
  "mp_spi_set_speed esp handle speed s =
     (if \<not> spi_open_at s (unat handle) then (-1, s)
      else
        let s1 = upd_spi (unat handle) (\<lambda>k. k\<lparr>spi_speed := speed\<rparr>) s
        in (case esp of None \<Rightarrow> (0, s1)
            | Some idf \<Rightarrow> mp_spi_esp32_set_speed idf (spi_bus_no (spi_devices s1 ! unat handle)) speed s1))"

definition mp_spi_get_speed :: "u8 \<Rightarrow> 'd spi_state \<Rightarrow> u32" where
  "mp_spi_get_speed handle s = (if spi_open_at s (unat handle) then spi_speed (spi_devices s ! unat handle) else 0)"

definition mp_spi_set_mode :: "'d spi_idf option \<Rightarrow> u8 \<Rightarrow> u8 \<Rightarrow> 'd spi_state \<Rightarrow> int \<times> 'd spi_state" where
  "mp_spi_set_mode esp handle mode s =
     (if \<not> spi_open_at s (unat handle) then (-1, s)
      else
        let s1 = upd_spi (unat handle) (\<lambda>k. k\<lparr>spi_mode := mode AND 3\<rparr>) s
        in (case esp of None \<Rightarrow> (0, s1)
            | Some idf \<Rightarrow> mp_spi_esp32_set_mode idf (spi_bus_no (spi_devices s1 ! unat handle)) mode s1))"

definition mp_spi_get_mode :: "u8 \<Rightarrow> 'd spi_state \<Rightarrow> u8" where
  "mp_spi_get_mode handle s = (if spi_open_at s (unat handle) then spi_mode (spi_devices s ! unat handle) else 0)"

definition mp_spi_assert_cs :: "'d spi_idf option \<Rightarrow> u8 \<Rightarrow> 'd spi_state \<Rightarrow> 'd spi_state" where
  "mp_spi_assert_cs esp handle s =
     (if \<not> spi_open_at s (unat handle) then s
      else (case esp of None \<Rightarrow> s | Some idf \<Rightarrow> mp_spi_esp32_assert_cs idf (spi_cs_pin (spi_devices s ! unat handle)) s))"

definition mp_spi_deassert_cs :: "'d spi_idf option \<Rightarrow> u8 \<Rightarrow> 'd spi_state \<Rightarrow> 'd spi_state" where
  "mp_spi_deassert_cs esp handle s =
     (if \<not> spi_open_at s (unat handle) then s
      else (case esp of None \<Rightarrow> s | Some idf \<Rightarrow> mp_spi_esp32_deassert_cs idf (spi_cs_pin (spi_devices s ! unat handle)) s))"

end
