(* ===== verification/Bus_Correct.thy ===== *)
theory Bus_Correct
  imports Handles Spi
begin

text \<open>
  The tables of the I2C and the SPI driver as tables of handles, and, on the ESP32, what the open handles own: a port of
  the I2C driver, a host of the SPI master.
\<close>

section \<open>I2C\<close>

subsection \<open>Handles\<close>

definition i2c_used :: "'d i2c_state \<Rightarrow> u8 set" where
  "i2c_used s = {h. i2c_open_at s (unat h)}"

text \<open>\<open>mp_i2c_open\<close> and \<open>mp_i2c_close\<close> with the invalid handle as no handle.\<close>

definition i2c_opn :: "'d i2c_idf option \<Rightarrow> u8 \<times> u32 \<Rightarrow> 'd i2c_state \<Rightarrow> u8 option \<times> 'd i2c_state" where
  "i2c_opn esp a s =
     (let (h, s') = mp_i2c_open esp (fst a) (snd a) s in (if h = MP_I2C_INVALID_HANDLE then None else Some h, s'))"

lemma unat_index: "i < 8 \<Longrightarrow> unat (of_nat i :: u8) = i" "i < 8 \<Longrightarrow> (of_nat i :: u8) \<noteq> 0xFF"
proof -
  assume i: "i < 8"
  then show u: "unat (of_nat i :: u8) = i" by (simp add: unat_of_nat)
  have "unat (0xFF :: u8) = 255" by simp
  then show "(of_nat i :: u8) \<noteq> 0xFF" using u i by auto
qed

lemma unat_index_iff: "i < 8 \<Longrightarrow> unat (h :: u8) = i \<longleftrightarrow> h = of_nat i"
  using unat_index(1) [of i] by (metis word_unat_eq_iff)

lemma i2c_open_cases:
  assumes "mp_i2c_open esp port speed s = (h, s')"
  obtains (refused) "h = 0xFF" "s' = s"
  | (opened) i where "i < 8" "\<not> i2c_initialized (i2c_devices s ! i)" "port < 2" "h = of_nat i" "esp = None"
      "s' = upd_i2c i (\<lambda>k. k\<lparr>i2c_port_no := port, i2c_speed := speed, i2c_initialized := True\<rparr>) s"
  | (installed) i idf d where "i < 8" "\<not> i2c_initialized (i2c_devices s ! i)" "port < 2" "h = of_nat i" "esp = Some idf"
      "mp_i2c_esp32_init_port idf port speed (i2c_hw s) = (0, d)"
      "s' = (upd_i2c i (\<lambda>k. k\<lparr>i2c_port_no := port, i2c_speed := speed, i2c_initialized := True\<rparr>) s)\<lparr>i2c_hw := d\<rparr>"
  | (failed) i idf r d where "i < 8" "\<not> i2c_initialized (i2c_devices s ! i)" "h = 0xFF" "esp = Some idf" "r \<noteq> 0"
      "mp_i2c_esp32_init_port idf port speed (i2c_hw s) = (r, d)"
      "s' = (upd_i2c i (\<lambda>k. k\<lparr>i2c_port_no := port, i2c_speed := speed, i2c_initialized := False\<rparr>) s)\<lparr>i2c_hw := d\<rparr>"
proof (cases "port \<ge> MP_I2C_MAX_PORTS \<or> find (\<lambda>i. \<not> i2c_initialized (i2c_devices s ! i)) [0..<8] = None")
  case True
  then show thesis
    using assms by (intro refused) (auto simp: mp_i2c_open_def MP_I2C_MAX_DEVICES_def MP_I2C_INVALID_HANDLE_def split: if_splits)
next
  case False
  then obtain i where f: "find (\<lambda>i. \<not> i2c_initialized (i2c_devices s ! i)) [0..<8] = Some i" by auto
  then have i: "i < 8" "\<not> i2c_initialized (i2c_devices s ! i)" using find_upt_Some by blast+
  have p: "port < 2" using False by (auto simp: MP_I2C_MAX_PORTS_def)
  have hw: "i2c_hw (upd_i2c i g s) = i2c_hw s" for g by (simp add: upd_i2c_def)
  have twice: "upd_i2c i (\<lambda>k. k\<lparr>i2c_initialized := False\<rparr>) ((upd_i2c i (\<lambda>k. k\<lparr>i2c_port_no := port, i2c_speed := speed,
      i2c_initialized := True\<rparr>) s)\<lparr>i2c_hw := d\<rparr>) =
    (upd_i2c i (\<lambda>k. k\<lparr>i2c_port_no := port, i2c_speed := speed, i2c_initialized := False\<rparr>) s)\<lparr>i2c_hw := d\<rparr>" for d
    by (cases s; cases "i < length (i2c_devices s)") (auto simp: upd_i2c_def list_update_beyond)
  show thesis
  proof (cases esp)
    case None
    then show thesis
      using assms f False p i by (intro opened [OF i p]) (simp_all add: mp_i2c_open_def MP_I2C_MAX_DEVICES_def Let_def)
  next
    case (Some idf)
    obtain r d where r: "mp_i2c_esp32_init_port idf port speed (i2c_hw s) = (r, d)" by force
    show thesis
    proof (cases "r = 0")
      case True
      then show thesis
        using assms f False Some r hw
        by (intro installed [OF i p _ Some]) (auto simp: mp_i2c_open_def MP_I2C_MAX_DEVICES_def Let_def)
    next
      case nz: False
      then show thesis
        using assms f False Some r hw twice
        by (intro failed [OF i _ Some nz r])
          (simp_all add: mp_i2c_open_def MP_I2C_MAX_DEVICES_def MP_I2C_INVALID_HANDLE_def Let_def)
    qed
  qed
qed

lemma upd_i2c_used:
  assumes "length (i2c_devices s) = 8" "i < 8" "\<And>k. i2c_initialized (f k) = b"
  shows "i2c_used (upd_i2c i f s) = (if b then insert (of_nat i) (i2c_used s) else i2c_used s - {of_nat i})"
proof (rule set_eqI)
  fix x :: u8
  show "x \<in> i2c_used (upd_i2c i f s) \<longleftrightarrow> x \<in> (if b then insert (of_nat i) (i2c_used s) else i2c_used s - {of_nat i})"
    using assms unat_index_iff [OF assms(2), of x] unat_index(1) [OF assms(2)]
    by (cases "unat x = i") (simp_all add: i2c_used_def i2c_open_at_def upd_i2c_def MP_I2C_MAX_DEVICES_def)
qed

lemma upd_i2c_length [simp]: "length (i2c_devices (upd_i2c i f s)) = length (i2c_devices s)"
  by (simp add: upd_i2c_def)

lemma i2c_hw_used [simp]: "i2c_used (s\<lparr>i2c_hw := d\<rparr>) = i2c_used s"
  by (simp add: i2c_used_def i2c_open_at_def)

lemma i2c_closed_index:
  "i < 8 \<Longrightarrow> \<not> i2c_initialized (i2c_devices s ! i) \<Longrightarrow> of_nat i \<notin> i2c_used s"
  by (simp add: i2c_used_def i2c_open_at_def unat_index)

interpretation i2c_handles: handle_table "\<lambda>s. length (i2c_devices s) = 8" i2c_used "i2c_opn esp" "mp_i2c_close esp"
  for esp :: "'d i2c_idf option"
proof
  fix s s' :: "'d i2c_state" and a :: "u8 \<times> u32" and h
  assume l: "length (i2c_devices s) = 8" and "i2c_opn esp a s = (Some h, s')"
  then have c: "mp_i2c_open esp (fst a) (snd a) s = (h, s')" "h \<noteq> 0xFF"
    by (auto simp: i2c_opn_def MP_I2C_INVALID_HANDLE_def split: prod.splits if_splits)
  show "length (i2c_devices s') = 8 \<and> h \<notin> i2c_used s \<and> i2c_used s' = insert h (i2c_used s)"
    by (rule i2c_open_cases [OF c(1)]) (use c(2) l i2c_closed_index in \<open>auto simp: upd_i2c_used\<close>)
next
  fix s s' :: "'d i2c_state" and a :: "u8 \<times> u32"
  assume l: "length (i2c_devices s) = 8" and "i2c_opn esp a s = (None, s')"
  then have c: "mp_i2c_open esp (fst a) (snd a) s = (0xFF, s')"
    by (auto simp: i2c_opn_def MP_I2C_INVALID_HANDLE_def split: prod.splits if_splits)
  show "length (i2c_devices s') = 8 \<and> i2c_used s' = i2c_used s"
    by (rule i2c_open_cases [OF c])
      (use l i2c_closed_index unat_index(2) in \<open>auto simp: upd_i2c_used\<close>)
next
  fix s :: "'d i2c_state" and h
  assume l: "length (i2c_devices s) = 8"
  show "length (i2c_devices (mp_i2c_close esp h s)) = 8 \<and> i2c_used (mp_i2c_close esp h s) = i2c_used s - {h}"
  proof (cases "i2c_open_at s (unat h)")
    case False
    then show ?thesis using l by (auto simp: mp_i2c_close_def i2c_used_def)
  next
    case True
    then have i: "unat h < 8" by (simp add: i2c_open_at_def MP_I2C_MAX_DEVICES_def)
    have "mp_i2c_close esp h s = upd_i2c (unat h) (\<lambda>k. k\<lparr>i2c_initialized := False\<rparr>)
        (s\<lparr>i2c_hw := i2c_hw (mp_i2c_close esp h s)\<rparr>)"
      using True by (cases esp) (simp_all add: mp_i2c_close_def Let_def upd_i2c_def)
    moreover have "length (i2c_devices (upd_i2c (unat h) f (s\<lparr>i2c_hw := d\<rparr>))) = 8" for f d using l by simp
    moreover have "i2c_used (upd_i2c (unat h) (\<lambda>k. k\<lparr>i2c_initialized := False\<rparr>) (s\<lparr>i2c_hw := d\<rparr>)) = i2c_used s - {h}" for d
      using l i by (subst upd_i2c_used [where b = False]) simp_all
    ultimately show ?thesis by metis
  qed
qed

subsection \<open>Ports on the ESP32\<close>

text \<open>
  What ESP-IDF promises of its I2C drivers, by the set of the ports that have one: a port that has one is not given a
  second, deleting ends it, and nothing else changes the set.
\<close>

definition i2c_laws :: "'d i2c_idf \<Rightarrow> ('d \<Rightarrow> nat set) \<Rightarrow> bool" where
  "i2c_laws idf ports \<longleftrightarrow>
     (\<forall>p c d. ports (snd (i2c_param_config idf p c d)) = ports d) \<and>
     (\<forall>p d. if fst (i2c_driver_install idf p d) = 0
            then p \<notin> ports d \<and> ports (snd (i2c_driver_install idf p d)) = insert p (ports d)
            else ports (snd (i2c_driver_install idf p d)) = ports d) \<and>
     (\<forall>p d. ports (i2c_driver_delete idf p d) = ports d - {p}) \<and>
     (\<forall>p c t d. ports (snd (snd (i2c_master_cmd_begin idf p c t d))) = ports d)"

definition i2c_key :: "i2c_device \<Rightarrow> nat" where
  "i2c_key k = esp32_i2c_port (i2c_port_no k)"

text \<open>Each open handle has a port of its own, and these are the ports with a driver.\<close>

definition i2c_owns :: "('d \<Rightarrow> nat set) \<Rightarrow> 'd i2c_state \<Rightarrow> bool" where
  "i2c_owns ports s \<longleftrightarrow>
     length (i2c_devices s) = 8 \<and> owns_keys i2c_initialized i2c_key (i2c_devices s) (ports (i2c_hw s)) \<and>
     (\<forall>i < 8. i2c_initialized (i2c_devices s ! i) \<longrightarrow> i2c_port_no (i2c_devices s ! i) < 2)"

datatype i2c_op =
    I2c_open u8 u32
  | I2c_close u8
  | I2c_write_op u8 u8 "u8 list option" u16 u32
  | I2c_read_op u8 u8 "u8 list option" u16 u32
  | I2c_write_read_op u8 u8 "u8 list option" u16 "u8 list option" u16 u32
  | I2c_speed u8 u32

fun i2c_step :: "'d i2c_idf option \<Rightarrow> i2c_op \<Rightarrow> 'd i2c_state \<Rightarrow> 'd i2c_state option" where
  "i2c_step esp (I2c_open p v) s = Some (snd (mp_i2c_open esp p v s))"
| "i2c_step esp (I2c_close h) s = Some (mp_i2c_close esp h s)"
| "i2c_step esp (I2c_write_op h a m l t) s = map_option snd (mp_i2c_write esp h a m l t s)"
| "i2c_step esp (I2c_read_op h a m l t) s = map_option (\<lambda>r. snd (snd r)) (mp_i2c_read esp h a m l t s)"
| "i2c_step esp (I2c_write_read_op h a m l n k t) s = map_option (\<lambda>r. snd (snd r)) (mp_i2c_write_read esp h a m l n k t s)"
| "i2c_step esp (I2c_speed h v) s = Some (snd (mp_i2c_set_speed esp h v s))"

fun i2c_steps :: "'d i2c_idf option \<Rightarrow> i2c_op list \<Rightarrow> 'd i2c_state \<Rightarrow> 'd i2c_state option" where
  "i2c_steps esp [] s = Some s"
| "i2c_steps esp (op # ops) s = do { s' \<leftarrow> i2c_step esp op s; i2c_steps esp ops s' }"

lemma i2c_keeps:
  assumes "i2c_laws idf ports"
  shows "ports (snd (i2c_param_config idf p c d)) = ports d" "ports (snd (snd (i2c_master_cmd_begin idf p k t d))) = ports d"
    "ports (i2c_driver_delete idf p d) = ports d - {p}"
  using assms by (auto simp: i2c_laws_def)

lemma i2c_init_port:
  assumes l: "i2c_laws idf ports" and p: "port < 2" and r: "mp_i2c_esp32_init_port idf port speed d = (r, d')"
  shows "if r = 0 then esp32_i2c_port port \<notin> ports d \<and> ports d' = insert (esp32_i2c_port port) (ports d) else ports d' = ports d"
proof -
  define c where "c = \<lparr>sda_io_num = (if port = 0 then 21 else 19), scl_io_num = (if port = 0 then 22 else 23), clk_speed = speed\<rparr>"
  obtain e1 d1 where 1: "i2c_param_config idf (esp32_i2c_port port) c d = (e1, d1)" by force
  obtain e2 d2 where 2: "i2c_driver_install idf (esp32_i2c_port port) d1 = (e2, d2)" by force
  have k: "ports d1 = ports d" using i2c_keeps(1) [OF l, of "esp32_i2c_port port" c d] 1 by simp
  have "if e2 = 0 then esp32_i2c_port port \<notin> ports d1 \<and> ports d2 = insert (esp32_i2c_port port) (ports d1) else ports d2 = ports d1"
    using l 2 unfolding i2c_laws_def by (metis fst_conv snd_conv)
  moreover have "mp_i2c_esp32_init_port idf port speed d = (if e1 \<noteq> 0 then (-1, d1) else if e2 \<noteq> 0 then (-1, d2) else (0, d2))"
    using p [folded not_le] 1 2 by (simp add: mp_i2c_esp32_init_port_def MP_I2C_MAX_PORTS_def ESP_OK_def c_def Let_def)
  ultimately show ?thesis using r k by (auto split: if_splits)
qed

lemma i2c_owns_hw: "i2c_owns ports s \<Longrightarrow> ports d = ports (i2c_hw s) \<Longrightarrow> i2c_owns ports (s\<lparr>i2c_hw := d\<rparr>)"
  by (simp add: i2c_owns_def)

lemma i2c_owns_upd:
  assumes "i2c_owns ports s" "i < 8" "i2c_initialized (f (i2c_devices s ! i)) \<Longrightarrow> i2c_port_no (f (i2c_devices s ! i)) < 2"
    and "owns_keys i2c_initialized i2c_key ((i2c_devices s)[i := f (i2c_devices s ! i)]) (ports d)"
  shows "i2c_owns ports ((upd_i2c i f s)\<lparr>i2c_hw := d\<rparr>)"
  using assms by (auto simp: i2c_owns_def upd_i2c_def nth_list_update)

lemma i2c_owns_open:
  assumes l: "i2c_laws idf ports" and o: "i2c_owns ports s" and c: "mp_i2c_open (Some idf) port speed s = (h, s')"
  shows "i2c_owns ports s'"
proof (rule i2c_open_cases [OF c])
  have w: "length (i2c_devices s) = 8" "owns_keys i2c_initialized i2c_key (i2c_devices s) (ports (i2c_hw s))"
    using o by (simp_all add: i2c_owns_def)
  {
    assume "s' = s"
    then show ?thesis using o by simp
  next
    fix i idf' d
    assume i: "i < 8" "\<not> i2c_initialized (i2c_devices s ! i)" and p: "port < 2" and e: "Some idf = Some idf'"
      and r: "mp_i2c_esp32_init_port idf' port speed (i2c_hw s) = (0, d)"
      and s': "s' = (upd_i2c i (\<lambda>k. k\<lparr>i2c_port_no := port, i2c_speed := speed, i2c_initialized := True\<rparr>) s)\<lparr>i2c_hw := d\<rparr>"
    have d: "esp32_i2c_port port \<notin> ports (i2c_hw s)" "ports d = insert (esp32_i2c_port port) (ports (i2c_hw s))"
      using i2c_init_port [OF l p] r e by auto
    show ?thesis
      unfolding s'
      using owns_keys_insert [OF w(2), of i "(i2c_devices s ! i)\<lparr>i2c_port_no := port, i2c_speed := speed, i2c_initialized := True\<rparr>"]
        i w(1) d p by (intro i2c_owns_upd [OF o]) (simp_all add: i2c_key_def)
  next
    fix i idf' r d
    assume i: "i < 8" "\<not> i2c_initialized (i2c_devices s ! i)" and e: "Some idf = Some idf'" and nz: "r \<noteq> 0"
      and r: "mp_i2c_esp32_init_port idf' port speed (i2c_hw s) = (r, d)"
      and s': "s' = (upd_i2c i (\<lambda>k. k\<lparr>i2c_port_no := port, i2c_speed := speed, i2c_initialized := False\<rparr>) s)\<lparr>i2c_hw := d\<rparr>"
    have d: "ports d = ports (i2c_hw s)"
    proof (cases "port < 2")
      case True
      then show ?thesis using i2c_init_port [OF l True] r e nz by auto
    next
      case False
      then show ?thesis using r by (simp add: mp_i2c_esp32_init_port_def MP_I2C_MAX_PORTS_def not_less)
    qed
    show ?thesis
      unfolding s' using i w d by (intro i2c_owns_upd [OF o]) (simp_all add: owns_keys_unused)
  }
qed simp_all

lemma i2c_owns_close:
  assumes l: "i2c_laws idf ports" and o: "i2c_owns ports s"
  shows "i2c_owns ports (mp_i2c_close (Some idf) h s)"
proof (cases "i2c_open_at s (unat h)")
  case False
  then show ?thesis using o by (simp add: mp_i2c_close_def)
next
  case True
  let ?k = "i2c_devices s ! unat h"
  have i: "unat h < 8" "i2c_initialized ?k" using True by (simp_all add: i2c_open_at_def MP_I2C_MAX_DEVICES_def)
  have w: "length (i2c_devices s) = 8" "owns_keys i2c_initialized i2c_key (i2c_devices s) (ports (i2c_hw s))" "i2c_port_no ?k < 2"
    using o i by (simp_all add: i2c_owns_def)
  have c: "mp_i2c_close (Some idf) h s =
      (upd_i2c (unat h) (\<lambda>k. k\<lparr>i2c_initialized := False\<rparr>) s)\<lparr>i2c_hw := i2c_driver_delete idf (i2c_key ?k) (i2c_hw s)\<rparr>"
    using True w(3) [folded not_le]
    by (cases s) (simp add: mp_i2c_close_def Let_def upd_i2c_def mp_i2c_esp32_deinit_port_def MP_I2C_MAX_PORTS_def i2c_key_def)
  show ?thesis
    unfolding c using owns_keys_remove [OF w(2), of "unat h" "?k\<lparr>i2c_initialized := False\<rparr>"] i w(1)
    by (intro i2c_owns_upd [OF o]) (simp_all add: i2c_keeps(3) [OF l])
qed

lemma i2c_write_port_keeps:
  assumes l: "i2c_laws idf ports" and r: "mp_i2c_esp32_write idf p a m n t d = Some (r, d')"
  shows "ports d' = ports d"
proof (cases "p \<ge> MP_I2C_MAX_PORTS")
  case False
  obtain bytes where "mem_read m 0 (unat n) = Some bytes"
      "d' = snd (snd (i2c_master_cmd_begin idf (esp32_i2c_port p) (I2C_write (addr_shifted a) bytes) (i2c_ticks idf t) d))"
    using r False by (auto simp: mp_i2c_esp32_write_def split_beta split: bind_splits)
  then show ?thesis by (simp add: i2c_keeps [OF l])
qed (use r in \<open>simp add: mp_i2c_esp32_write_def\<close>)

lemma i2c_read_port_keeps:
  assumes l: "i2c_laws idf ports" and r: "mp_i2c_esp32_read idf p a b n t d = Some (r, b', d')"
  shows "ports d' = ports d"
proof (cases "p \<ge> MP_I2C_MAX_PORTS")
  case False
  obtain e bytes d1 where b:
      "i2c_master_cmd_begin idf (esp32_i2c_port p) (I2C_read (addr_shifted a) (unat n)) (i2c_ticks idf t) d = (e, bytes, d1)"
    by (rule prod_cases3)
  then have "d' = d1" using r False by (simp add: mp_i2c_esp32_read_def split: bind_splits)
  then show ?thesis using i2c_keeps(2) [OF l] b by (metis snd_conv)
qed (use r in \<open>simp add: mp_i2c_esp32_read_def\<close>)

lemma i2c_set_speed_keeps:
  assumes l: "i2c_laws idf ports"
  shows "ports (snd (mp_i2c_esp32_set_speed idf p v d)) = ports d"
  by (simp add: mp_i2c_esp32_set_speed_def Let_def i2c_keeps(1) [OF l] split: prod.split)
    (metis i2c_keeps(1) [OF l] snd_conv)

lemma i2c_write_read_keeps:
  assumes l: "i2c_laws idf ports" and r: "mp_i2c_esp32_write_read idf p a m n b k t d = Some (r, b', d')"
  shows "ports d' = ports d"
proof -
  note w = i2c_write_port_keeps [OF l] and k = i2c_read_port_keeps [OF l]
  consider "d' = d"
    | r' where "mp_i2c_esp32_write idf p a m n t d = Some (r', d')"
    | r' b'' where "mp_i2c_esp32_read idf p a b k t d = Some (r', b'', d')"
    | r' where "mp_i2c_esp32_write idf p a m n (t div 2) d = Some (r', d')"
    | r' d1 r2 b'' where "mp_i2c_esp32_write idf p a m n (t div 2) d = Some (r', d1)"
        "mp_i2c_esp32_read idf p a b k (t div 2) d1 = Some (r2, b'', d')"
    using r unfolding mp_i2c_esp32_write_read_def
    by (simp split: bind_splits if_splits) (auto split: prod.splits if_splits bind_splits)
  then show ?thesis
  proof cases
    case (5 r' d1 r2 b'')
    then show ?thesis using w [OF 5(1)] k [OF 5(2)] by simp
  qed (use w k in blast)+
qed

lemma i2c_owns_step:
  assumes l: "i2c_laws idf ports" and o: "i2c_owns ports s" and c: "i2c_step (Some idf) op s = Some s'"
  shows "i2c_owns ports s'"
proof (cases op)
  case (I2c_open p v)
  then show ?thesis using c i2c_owns_open [OF l o, of p v] by (auto simp: prod_eq_iff)
next
  case (I2c_close h)
  then show ?thesis using c i2c_owns_close [OF l o] by auto
next
  case (I2c_write_op h a m n t)
  have "s' = s \<or> (\<exists>d. s' = s\<lparr>i2c_hw := d\<rparr> \<and> ports d = ports (i2c_hw s))"
    using c I2c_write_op
    by (auto simp: mp_i2c_write_def split: bind_splits if_splits option.splits dest: i2c_write_port_keeps [OF l])
  then show ?thesis using o i2c_owns_hw by auto
next
  case (I2c_read_op h a m n t)
  have "s' = s \<or> (\<exists>d. s' = s\<lparr>i2c_hw := d\<rparr> \<and> ports d = ports (i2c_hw s))"
    using c I2c_read_op
    by (auto simp: mp_i2c_read_def split: bind_splits if_splits option.splits dest: i2c_read_port_keeps [OF l])
  then show ?thesis using o i2c_owns_hw by auto
next
  case (I2c_write_read_op h a m n b k t)
  have "s' = s \<or> (\<exists>d. s' = s\<lparr>i2c_hw := d\<rparr> \<and> ports d = ports (i2c_hw s))"
    using c I2c_write_read_op
    by (auto simp: mp_i2c_write_read_def Let_def split: bind_splits if_splits option.splits dest: i2c_write_read_keeps [OF l])
  then show ?thesis using o i2c_owns_hw by auto
next
  case (I2c_speed h v)
  show ?thesis
  proof (cases "i2c_open_at s (unat h)")
    case False
    then show ?thesis using c I2c_speed o by (simp add: mp_i2c_set_speed_def)
  next
    case True
    then have i: "unat h < 8" by (simp add: i2c_open_at_def MP_I2C_MAX_DEVICES_def)
    let ?s = "upd_i2c (unat h) (\<lambda>k. k\<lparr>i2c_speed := v\<rparr>) s"
    let ?d = "snd (mp_i2c_esp32_set_speed idf (i2c_port_no (i2c_devices ?s ! unat h)) v (i2c_hw ?s))"
    have "s' = ?s\<lparr>i2c_hw := ?d\<rparr>" using c I2c_speed True by (simp add: mp_i2c_set_speed_def Let_def split_beta)
    moreover have "ports ?d = ports (i2c_hw s)" unfolding i2c_set_speed_keeps [OF l] by (simp add: upd_i2c_def)
    moreover have "i2c_owns ports (?s\<lparr>i2c_hw := d\<rparr>)" if "ports d = ports (i2c_hw s)" for d
      using o i that by (intro i2c_owns_upd [OF o i]) (auto simp: i2c_owns_def i2c_key_def intro: owns_keys_change)
    ultimately show ?thesis by simp
  qed
qed

lemma i2c_owns_steps:
  "i2c_laws idf ports \<Longrightarrow> i2c_owns ports s \<Longrightarrow> i2c_steps (Some idf) ops s = Some s' \<Longrightarrow> i2c_owns ports s'"
proof (induction ops arbitrary: s)
  case (Cons op ops)
  obtain s1 where s1: "i2c_step (Some idf) op s = Some s1" "i2c_steps (Some idf) ops s1 = Some s'"
    using Cons.prems(3) by (auto split: bind_splits)
  show ?case by (rule Cons.IH [OF Cons.prems(1) i2c_owns_step [OF Cons.prems(1,2) s1(1)] s1(2)])
qed simp

lemma i2c_boot_owns: "ports d = {} \<Longrightarrow> i2c_owns ports (i2c_boot d)"
  by (auto simp: i2c_owns_def i2c_boot_def MP_I2C_MAX_DEVICES_def owns_keys_def zero_i2c_device_def)

text \<open>
  On the ESP32 every open I2C handle has a port of its own with a driver installed, and no driver is left without a
  handle, after any sequence of calls from the start, whatever calls fail; so at most two of the eight devices can be open.
\<close>

theorem i2c_handles_own_ports:
  assumes "i2c_laws idf ports" and "ports d = {}" and "i2c_steps (Some idf) ops (i2c_boot d) = Some s"
  shows "owns_keys i2c_initialized i2c_key (i2c_devices s) (ports (i2c_hw s)) \<and> card {i. i2c_open_at s i} \<le> 2"
proof
  have o: "i2c_owns ports s" by (rule i2c_owns_steps [OF assms(1) i2c_boot_owns assms(3)]) (rule assms(2))
  then show w: "owns_keys i2c_initialized i2c_key (i2c_devices s) (ports (i2c_hw s))" by (simp add: i2c_owns_def)
  have sub: "ports (i2c_hw s) \<subseteq> {0, 1}" using w by (auto simp: owns_keys_def i2c_key_def esp32_i2c_port_def)
  have "{i. i2c_open_at s i} = {i. i < length (i2c_devices s) \<and> i2c_initialized (i2c_devices s ! i)}"
    using o by (auto simp: i2c_open_at_def MP_I2C_MAX_DEVICES_def i2c_owns_def)
  also have "card \<dots> \<le> card (ports (i2c_hw s))" using w finite_subset [OF sub] by (intro owns_keys_card) auto
  also have "\<dots> \<le> card {0 :: nat, 1}" using sub by (intro card_mono) auto
  finally show "card {i. i2c_open_at s i} \<le> 2" by simp
qed

text \<open>An ESP-IDF for the witness: its state is the list of the ports with a driver.\<close>

definition demo_i2c :: "nat list i2c_idf" where
  "demo_i2c =
     \<lparr>i2c_param_config = (\<lambda>p c d. (0, d)), i2c_driver_install = (\<lambda>p d. if p \<in> set d then (-1, d) else (0, p # d)),
      i2c_driver_delete = (\<lambda>p d. filter (\<lambda>x. x \<noteq> p) d), i2c_master_cmd_begin = (\<lambda>p c t d. (0, [], d)),
      i2c_get_config = (\<lambda>p d. (0, \<lparr>sda_io_num = 0, scl_io_num = 0, clk_speed = 0\<rparr>)), i2c_ticks = (\<lambda>t. t)\<rparr>"

lemma i2c_handles_own_ports_witness:
  "\<exists>s. i2c_steps (Some demo_i2c) [I2c_open 1 100000, I2c_open 1 400000, I2c_open 0 100000, I2c_close 0] (i2c_boot []) = Some s \<and>
     owns_keys i2c_initialized i2c_key (i2c_devices s) (set (i2c_hw s)) \<and> card {i. i2c_open_at s i} \<le> 2"
proof -
  have "i2c_laws demo_i2c set" by (auto simp: i2c_laws_def demo_i2c_def)
  then show ?thesis
    using i2c_handles_own_ports [of demo_i2c set "[]" "[I2c_open 1 100000, I2c_open 1 400000, I2c_open 0 100000, I2c_close 0]"]
    by simp
qed

section \<open>SPI\<close>

subsection \<open>Handles\<close>

definition spi_used :: "'d spi_state \<Rightarrow> u8 set" where
  "spi_used s = {h. spi_open_at s (unat h)}"

definition spi_opn :: "'d spi_idf option \<Rightarrow> u8 \<times> u8 \<times> u32 \<times> u8 \<Rightarrow> 'd spi_state \<Rightarrow> u8 option \<times> 'd spi_state" where
  "spi_opn esp a s =
     (let (h, s') = mp_spi_open esp (fst a) (fst (snd a)) (fst (snd (snd a))) (snd (snd (snd a))) s
      in (if h = MP_SPI_INVALID_HANDLE then None else Some h, s'))"

text \<open>What an open leaves in the entry.\<close>

definition spi_entry :: "u8 \<Rightarrow> u8 \<Rightarrow> u32 \<Rightarrow> u8 \<Rightarrow> bool \<Rightarrow> spi_device" where
  "spi_entry bus cs speed mode b =
     \<lparr>spi_bus_no = bus, spi_cs_pin = cs, spi_speed = speed, spi_mode = mode AND 3, spi_initialized = b\<rparr>"

lemma spi_entry_simps [simp]:
  "spi_initialized (spi_entry bus cs speed mode b) = b" "spi_bus_no (spi_entry bus cs speed mode b) = bus"
  by (simp_all add: spi_entry_def)

lemma spi_init_bus_devices:
  "spi_devices (snd (mp_spi_esp32_init_bus idf bus speed mode s)) = spi_devices s"
  by (simp add: mp_spi_esp32_init_bus_def Let_def split: prod.split)

lemma spi_deinit_bus_devices: "spi_devices (mp_spi_esp32_deinit_bus idf bus s) = spi_devices s"
  by (simp add: mp_spi_esp32_deinit_bus_def Let_def)

text \<open>The entry is written before the bus is initialised, which does not look at it.\<close>

lemma spi_init_bus_upd:
  "mp_spi_esp32_init_bus idf bus speed mode (upd_spi i f s) =
     (let (r, s') = mp_spi_esp32_init_bus idf bus speed mode s in (r, upd_spi i f s'))"
  by (cases s) (simp add: mp_spi_esp32_init_bus_def upd_spi_def Let_def split: prod.split)

lemma spi_open_cases:
  assumes "mp_spi_open esp bus cs speed mode s = (h, s')"
  obtains (refused) "h = 0xFF" "s' = s"
  | (opened) i where "i < 8" "\<not> spi_initialized (spi_devices s ! i)" "bus < 4" "h = of_nat i" "esp = None"
      "s' = upd_spi i (\<lambda>_. spi_entry bus cs speed mode True) s"
  | (installed) i idf s1 where "i < 8" "\<not> spi_initialized (spi_devices s ! i)" "bus < 4" "h = of_nat i" "esp = Some idf"
      "mp_spi_esp32_init_bus idf bus speed mode s = (0, s1)" "s' = upd_spi i (\<lambda>_. spi_entry bus cs speed mode True) s1"
  | (failed) i idf r s1 where "i < 8" "\<not> spi_initialized (spi_devices s ! i)" "bus < 4" "h = 0xFF" "esp = Some idf" "r \<noteq> 0"
      "mp_spi_esp32_init_bus idf bus speed mode s = (r, s1)" "s' = upd_spi i (\<lambda>_. spi_entry bus cs speed mode False) s1"
proof (cases "bus \<ge> MP_SPI_MAX_BUSES \<or> find (\<lambda>i. \<not> spi_initialized (spi_devices s ! i)) [0..<8] = None")
  case True
  then show thesis
    using assms by (intro refused) (auto simp: mp_spi_open_def MP_SPI_MAX_DEVICES_def MP_SPI_INVALID_HANDLE_def split: if_splits)
next
  case False
  then obtain i where f: "find (\<lambda>i. \<not> spi_initialized (spi_devices s ! i)) [0..<8] = Some i" by auto
  then have i: "i < 8" "\<not> spi_initialized (spi_devices s ! i)" using find_upt_Some by blast+
  have p: "bus < 4" using False by (auto simp: MP_SPI_MAX_BUSES_def)
  have twice: "upd_spi i (\<lambda>k. k\<lparr>spi_initialized := False\<rparr>) (upd_spi i (\<lambda>_. spi_entry bus cs speed mode True) x) =
      upd_spi i (\<lambda>_. spi_entry bus cs speed mode False) x" for x :: "'a spi_state"
    by (cases x; cases "i < length (spi_devices x)") (auto simp: upd_spi_def spi_entry_def list_update_beyond)
  show thesis
  proof (cases esp)
    case None
    then show thesis
      using assms f False p i
      by (intro opened [OF i p]) (simp_all add: mp_spi_open_def MP_SPI_MAX_DEVICES_def Let_def spi_entry_def)
  next
    case (Some idf)
    obtain r s1 where r: "mp_spi_esp32_init_bus idf bus speed mode s = (r, s1)" by force
    show thesis
    proof (cases "r = 0")
      case True
      then show thesis
        using assms f False Some r
        by (intro installed [OF i p _ Some])
          (auto simp: mp_spi_open_def MP_SPI_MAX_DEVICES_def Let_def spi_init_bus_upd spi_entry_def)
    next
      case nz: False
      then show thesis
        using assms f False Some r twice [unfolded spi_entry_def]
        by (intro failed [OF i p _ Some nz r])
          (simp_all add: mp_spi_open_def MP_SPI_MAX_DEVICES_def MP_SPI_INVALID_HANDLE_def Let_def spi_init_bus_upd spi_entry_def)
    qed
  qed
qed

lemma upd_spi_used:
  assumes "length (spi_devices s) = 8" "i < 8" "\<And>k. spi_initialized (f k) = b"
  shows "spi_used (upd_spi i f s) = (if b then insert (of_nat i) (spi_used s) else spi_used s - {of_nat i})"
proof (rule set_eqI)
  fix x :: u8
  show "x \<in> spi_used (upd_spi i f s) \<longleftrightarrow> x \<in> (if b then insert (of_nat i) (spi_used s) else spi_used s - {of_nat i})"
    using assms unat_index_iff [OF assms(2), of x] unat_index(1) [OF assms(2)]
    by (cases "unat x = i") (simp_all add: spi_used_def spi_open_at_def upd_spi_def MP_SPI_MAX_DEVICES_def)
qed

lemma upd_spi_length [simp]: "length (spi_devices (upd_spi i f s)) = length (spi_devices s)"
  by (simp add: upd_spi_def)

lemma spi_used_cong: "spi_devices s = spi_devices s' \<Longrightarrow> spi_used s = spi_used s'"
  by (simp add: spi_used_def spi_open_at_def)

lemma spi_closed_index:
  "i < 8 \<Longrightarrow> \<not> spi_initialized (spi_devices s ! i) \<Longrightarrow> of_nat i \<notin> spi_used s"
  by (simp add: spi_used_def spi_open_at_def unat_index)

lemma spi_entry_used:
  assumes "length (spi_devices s) = 8" "i < 8" "\<not> spi_initialized (spi_devices s ! i)" "spi_devices s1 = spi_devices s"
  shows "length (spi_devices (upd_spi i (\<lambda>_. spi_entry bus cs speed mode b) s1)) = 8 \<and> of_nat i \<notin> spi_used s \<and>
    spi_used (upd_spi i (\<lambda>_. spi_entry bus cs speed mode b) s1) = (if b then insert (of_nat i) (spi_used s) else spi_used s)"
  using assms spi_closed_index [of i s] spi_used_cong [OF assms(4)]
  by (simp add: upd_spi_used [where b = b])

lemma spi_init_bus_used:
  "mp_spi_esp32_init_bus idf bus speed mode s = (r, s1) \<Longrightarrow> spi_devices s1 = spi_devices s"
  using spi_init_bus_devices [of idf bus speed mode s] by simp

interpretation spi_handles: handle_table "\<lambda>s. length (spi_devices s) = 8" spi_used "spi_opn esp" "mp_spi_close esp"
  for esp :: "'d spi_idf option"
proof
  fix s s' :: "'d spi_state" and a :: "u8 \<times> u8 \<times> u32 \<times> u8" and h
  assume l: "length (spi_devices s) = 8" and "spi_opn esp a s = (Some h, s')"
  then have c: "mp_spi_open esp (fst a) (fst (snd a)) (fst (snd (snd a))) (snd (snd (snd a))) s = (h, s')" "h \<noteq> 0xFF"
    by (auto simp: spi_opn_def MP_SPI_INVALID_HANDLE_def split: prod.splits if_splits)
  show "length (spi_devices s') = 8 \<and> h \<notin> spi_used s \<and> spi_used s' = insert h (spi_used s)"
  proof (rule spi_open_cases [OF c(1)])
    fix i assume "i < 8" "\<not> spi_initialized (spi_devices s ! i)" "h = of_nat i"
      "s' = upd_spi i (\<lambda>_. spi_entry (fst a) (fst (snd a)) (fst (snd (snd a))) (snd (snd (snd a))) True) s"
    then show ?thesis using spi_entry_used [OF l, of i s _ _ _ _ True] by simp
  next
    fix i idf s1 assume "i < 8" "\<not> spi_initialized (spi_devices s ! i)" "h = of_nat i"
      and b: "mp_spi_esp32_init_bus idf (fst a) (fst (snd (snd a))) (snd (snd (snd a))) s = (0, s1)"
      and "s' = upd_spi i (\<lambda>_. spi_entry (fst a) (fst (snd a)) (fst (snd (snd a))) (snd (snd (snd a))) True) s1"
    then show ?thesis using spi_entry_used [OF l, of i s1 _ _ _ _ True] spi_init_bus_used [OF b] by simp
  qed (use c(2) in simp_all)
next
  fix s s' :: "'d spi_state" and a :: "u8 \<times> u8 \<times> u32 \<times> u8"
  assume l: "length (spi_devices s) = 8" and "spi_opn esp a s = (None, s')"
  then have c: "mp_spi_open esp (fst a) (fst (snd a)) (fst (snd (snd a))) (snd (snd (snd a))) s = (0xFF, s')"
    by (auto simp: spi_opn_def MP_SPI_INVALID_HANDLE_def split: prod.splits if_splits)
  show "length (spi_devices s') = 8 \<and> spi_used s' = spi_used s"
  proof (rule spi_open_cases [OF c])
    fix i idf r s1 assume "i < 8" "\<not> spi_initialized (spi_devices s ! i)"
      and b: "mp_spi_esp32_init_bus idf (fst a) (fst (snd (snd a))) (snd (snd (snd a))) s = (r, s1)"
      and "s' = upd_spi i (\<lambda>_. spi_entry (fst a) (fst (snd a)) (fst (snd (snd a))) (snd (snd (snd a))) False) s1"
    then show ?thesis using spi_entry_used [OF l, of i s1 _ _ _ _ False] spi_init_bus_used [OF b] by simp
  qed (use l unat_index(2) in fastforce)+
next
  fix s :: "'d spi_state" and h
  assume l: "length (spi_devices s) = 8"
  show "length (spi_devices (mp_spi_close esp h s)) = 8 \<and> spi_used (mp_spi_close esp h s) = spi_used s - {h}"
  proof (cases "spi_open_at s (unat h)")
    case False
    then show ?thesis using l by (auto simp: mp_spi_close_def spi_used_def)
  next
    case True
    then have i: "unat h < 8" by (simp add: spi_open_at_def MP_SPI_MAX_DEVICES_def)
    define s1 where "s1 = (case esp of None \<Rightarrow> s
      | Some idf \<Rightarrow> mp_spi_esp32_deinit_bus idf (spi_bus_no (spi_devices s ! unat h)) s)"
    have d: "spi_devices s1 = spi_devices s" by (cases esp) (simp_all add: s1_def spi_deinit_bus_devices)
    have "mp_spi_close esp h s = upd_spi (unat h) (\<lambda>k. k\<lparr>spi_initialized := False\<rparr>) s1"
      using True by (simp add: mp_spi_close_def Let_def s1_def)
    then show ?thesis using d l i spi_used_cong [OF d] by (simp add: upd_spi_used [where b = False])
  qed
qed

text \<open>
  C30. The handles of the I2C and of the SPI driver: whatever sequence of opens and closes runs from the start, on the
  ESP32 or not, and whatever calls of the platform fail, no handle that is open is given again, and the open ones are
  exactly those that were given and not closed since.
\<close>

theorem bus_handles_live:
  "(let (hs, s) = handle_run (i2c_opn esp) (mp_i2c_close esp) ops (i2c_boot d)
    in handles_live ops hs {} = Some (i2c_used s)) \<and>
   (let (hs, s) = handle_run (spi_opn spi) (mp_spi_close spi) ops' (spi_boot d')
    in handles_live ops' hs {} = Some (spi_used s))"
proof
  have l: "length (i2c_devices (i2c_boot d)) = 8" "i2c_used (i2c_boot d) = {}"
    by (auto simp: i2c_boot_def MP_I2C_MAX_DEVICES_def i2c_used_def i2c_open_at_def zero_i2c_device_def)
  obtain hs s where r: "handle_run (i2c_opn esp) (mp_i2c_close esp) ops (i2c_boot d) = (hs, s)" by force
  show "let (hs, s) = handle_run (i2c_opn esp) (mp_i2c_close esp) ops (i2c_boot d)
    in handles_live ops hs {} = Some (i2c_used s)"
    using i2c_handles.run_live [OF l(1) r] l(2) r by simp
next
  have l: "length (spi_devices (spi_boot d')) = 8" "spi_used (spi_boot d') = {}"
    by (auto simp: spi_boot_def MP_SPI_MAX_DEVICES_def spi_used_def spi_open_at_def zero_spi_device_def)
  obtain hs s where r: "handle_run (spi_opn spi) (mp_spi_close spi) ops' (spi_boot d') = (hs, s)" by force
  show "let (hs, s) = handle_run (spi_opn spi) (mp_spi_close spi) ops' (spi_boot d')
    in handles_live ops' hs {} = Some (spi_used s)"
    using spi_handles.run_live [OF l(1) r] l(2) r by simp
qed

subsection \<open>Hosts on the ESP32\<close>

text \<open>
  What ESP-IDF promises of its SPI master, by the hosts that are initialised and the devices attached to them: an
  initialised host is not initialised again, a new device has a handle that is not \<open>NULL\<close> and not in use, and a host is
  freed unless a device is attached to it.
\<close>

definition spi_laws :: "'d spi_idf \<Rightarrow> ('d \<Rightarrow> nat set) \<Rightarrow> ('d \<Rightarrow> u32 \<Rightarrow> nat option) \<Rightarrow> bool" where
  "spi_laws idf hosts dev \<longleftrightarrow>
     (\<forall>p c d. dev (snd (spi_bus_initialize idf p c d)) = dev d \<and>
        (if fst (spi_bus_initialize idf p c d) = 0
         then p \<notin> hosts d \<and> hosts (snd (spi_bus_initialize idf p c d)) = insert p (hosts d)
         else hosts (snd (spi_bus_initialize idf p c d)) = hosts d)) \<and>
     (\<forall>p c d e h d'. spi_bus_add_device idf p c d = (e, h, d') \<longrightarrow> hosts d' = hosts d \<and>
        (if e = 0 then h \<noteq> 0 \<and> dev d h = None \<and> dev d' = (dev d)(h \<mapsto> p) else dev d' = dev d)) \<and>
     (\<forall>h d. hosts (spi_bus_remove_device idf h d) = hosts d \<and> dev (spi_bus_remove_device idf h d) = (dev d)(h := None)) \<and>
     (\<forall>p d. dev (spi_bus_free idf p d) = dev d \<and>
        (p \<notin> ran (dev d) \<longrightarrow> hosts (spi_bus_free idf p d) = hosts d - {p})) \<and>
     (\<forall>h n t r d e r' d'. spi_device_transmit idf h n t r d = (e, r', d') \<longrightarrow> hosts d' = hosts d \<and> dev d' = dev d) \<and>
     (\<forall>h c d. hosts (snd (spi_update_device_config idf h c d)) = hosts d \<and>
        dev (snd (spi_update_device_config idf h c d)) = dev d) \<and>
     (\<forall>p v d. hosts (gpio_set_level idf p v d) = hosts d \<and> dev (gpio_set_level idf p v d) = dev d)"

lemma spi_initialize_law:
  assumes "spi_laws idf hosts dev" "spi_bus_initialize idf p c d = (e, d')"
  shows "dev d' = dev d \<and> (if e = 0 then p \<notin> hosts d \<and> hosts d' = insert p (hosts d) else hosts d' = hosts d)"
  using assms unfolding spi_laws_def by (metis fst_conv snd_conv)

lemma spi_add_law:
  assumes "spi_laws idf hosts dev" "spi_bus_add_device idf p c d = (e, h, d')"
  shows "hosts d' = hosts d \<and>
    (if e = 0 then h \<noteq> 0 \<and> dev d h = None \<and> dev d' = (dev d)(h \<mapsto> p) else dev d' = dev d)"
proof -
  have "\<forall>p c d e h d'. spi_bus_add_device idf p c d = (e, h, d') \<longrightarrow> hosts d' = hosts d \<and>
      (if e = 0 then h \<noteq> 0 \<and> dev d h = None \<and> dev d' = (dev d)(h \<mapsto> p) else dev d' = dev d)"
    using assms(1) unfolding spi_laws_def by (elim conjE)
  then show ?thesis using assms(2) by simp
qed

lemma spi_other_laws:
  assumes "spi_laws idf hosts dev"
  shows "hosts (spi_bus_remove_device idf h d) = hosts d" "dev (spi_bus_remove_device idf h d) = (dev d)(h := None)"
    "dev (spi_bus_free idf p d) = dev d" "p \<notin> ran (dev d) \<Longrightarrow> hosts (spi_bus_free idf p d) = hosts d - {p}"
    "hosts (snd (spi_update_device_config idf h c d)) = hosts d" "dev (snd (spi_update_device_config idf h c d)) = dev d"
    "hosts (gpio_set_level idf q v d) = hosts d" "dev (gpio_set_level idf q v d) = dev d"
  using assms unfolding spi_laws_def by simp_all

lemma spi_transmit_law:
  assumes "spi_laws idf hosts dev" "spi_device_transmit idf h n t r d = (e, r', d')"
  shows "hosts d' = hosts d \<and> dev d' = dev d"
proof -
  have "\<forall>h n t r d e r' d'. spi_device_transmit idf h n t r d = (e, r', d') \<longrightarrow> hosts d' = hosts d \<and> dev d' = dev d"
    using assms(1) unfolding spi_laws_def by (elim conjE)
  then show ?thesis using assms(2) by blast
qed

definition spi_key :: "spi_device \<Rightarrow> nat" where
  "spi_key k = esp32_spi_host (spi_bus_no k)"

text \<open>Each open handle has a host of its own, with one device attached, whose handle is kept for its bus.\<close>

definition spi_owns :: "('d \<Rightarrow> nat set) \<Rightarrow> ('d \<Rightarrow> u32 \<Rightarrow> nat option) \<Rightarrow> 'd spi_state \<Rightarrow> bool" where
  "spi_owns hosts dev s \<longleftrightarrow>
     length (spi_devices s) = 8 \<and> length (spi_handles s) = 4 \<and>
     owns_keys spi_initialized spi_key (spi_devices s) (hosts (spi_hw s)) \<and>
     (\<forall>i < 8. spi_initialized (spi_devices s ! i) \<longrightarrow>
        spi_bus_no (spi_devices s ! i) < 4 \<and> spi_handles s ! unat (spi_bus_no (spi_devices s ! i)) \<noteq> 0) \<and>
     (\<forall>h p. dev (spi_hw s) h = Some p \<longleftrightarrow>
        (\<exists>i < 8. spi_initialized (spi_devices s ! i) \<and> spi_handles s ! unat (spi_bus_no (spi_devices s ! i)) = h \<and>
           spi_key (spi_devices s ! i) = p))"

datatype spi_op =
    Spi_open u8 u8 u32 u8
  | Spi_close u8
  | Spi_transfer u8 "u8 list option" "u8 list option" u16 u32
  | Spi_write_op u8 "u8 list option" u16 u32
  | Spi_read_op u8 "u8 list option" u16 u32
  | Spi_speed u8 u32
  | Spi_mode u8 u8
  | Spi_assert u8
  | Spi_deassert u8

fun spi_step :: "'d spi_idf option \<Rightarrow> spi_op \<Rightarrow> 'd spi_state \<Rightarrow> 'd spi_state option" where
  "spi_step esp (Spi_open b c v m) s = Some (snd (mp_spi_open esp b c v m s))"
| "spi_step esp (Spi_close h) s = Some (mp_spi_close esp h s)"
| "spi_step esp (Spi_transfer h m r n t) s = map_option (\<lambda>x. snd (snd x)) (mp_spi_transfer esp h m r n t s)"
| "spi_step esp (Spi_write_op h m n t) s = map_option (\<lambda>x. snd (snd x)) (mp_spi_write esp h m n t s)"
| "spi_step esp (Spi_read_op h m n t) s = map_option (\<lambda>x. snd (snd x)) (mp_spi_read esp h m n t s)"
| "spi_step esp (Spi_speed h v) s = Some (snd (mp_spi_set_speed esp h v s))"
| "spi_step esp (Spi_mode h v) s = Some (snd (mp_spi_set_mode esp h v s))"
| "spi_step esp (Spi_assert h) s = Some (mp_spi_assert_cs esp h s)"
| "spi_step esp (Spi_deassert h) s = Some (mp_spi_deassert_cs esp h s)"

fun spi_steps :: "'d spi_idf option \<Rightarrow> spi_op list \<Rightarrow> 'd spi_state \<Rightarrow> 'd spi_state option" where
  "spi_steps esp [] s = Some s"
| "spi_steps esp (op # ops) s = do { s' \<leftarrow> spi_step esp op s; spi_steps esp ops s' }"

lemma unat_bus: "b < 4 \<Longrightarrow> unat (b :: u8) < 4" "a < 4 \<Longrightarrow> b < 4 \<Longrightarrow> unat a = unat b \<longleftrightarrow> a = (b :: u8)"
  by (simp_all add: word_less_nat_alt word_unat_eq_iff)

lemma spi_owns_D:
  assumes "spi_owns hosts dev s"
  shows "length (spi_devices s) = 8" "length (spi_handles s) = 4"
    "owns_keys spi_initialized spi_key (spi_devices s) (hosts (spi_hw s))"
    "i < 8 \<Longrightarrow> spi_initialized (spi_devices s ! i) \<Longrightarrow> spi_bus_no (spi_devices s ! i) < 4"
    "i < 8 \<Longrightarrow> spi_initialized (spi_devices s ! i) \<Longrightarrow> spi_handles s ! unat (spi_bus_no (spi_devices s ! i)) \<noteq> 0"
    "dev (spi_hw s) h = Some p \<longleftrightarrow>
        (\<exists>i < 8. spi_initialized (spi_devices s ! i) \<and> spi_handles s ! unat (spi_bus_no (spi_devices s ! i)) = h \<and>
           spi_key (spi_devices s ! i) = p)"
  using assms by (simp_all add: spi_owns_def)

lemma spi_owns_attached:
  assumes o: "spi_owns hosts dev s" and d: "dev (spi_hw s) h = Some p"
  shows "p \<in> hosts (spi_hw s)"
proof -
  note w = spi_owns_D [OF o]
  obtain i where "i < 8" "spi_initialized (spi_devices s ! i)" "spi_key (spi_devices s ! i) = p" using d unfolding w(6) by blast
  then show ?thesis using w(1,3) unfolding owns_keys_def by metis
qed

text \<open>An initialised bus: a host that was free, a new device on it, its handle kept.\<close>

lemma spi_init_bus_law:
  assumes l: "spi_laws idf hosts dev" and o: "spi_owns hosts dev s" and b: "bus < 4"
    and r: "mp_spi_esp32_init_bus idf bus speed mode s = (r, s1)"
  shows "if r = 0
    then \<exists>h d. s1 = s\<lparr>spi_handles := (spi_handles s)[unat bus := h], spi_hw := d\<rparr> \<and> h \<noteq> 0 \<and> dev (spi_hw s) h = None \<and>
      dev d = (dev (spi_hw s))(h \<mapsto> esp32_spi_host bus) \<and>
      esp32_spi_host bus \<notin> hosts (spi_hw s) \<and> hosts d = insert (esp32_spi_host bus) (hosts (spi_hw s))
    else \<exists>d. s1 = s\<lparr>spi_hw := d\<rparr> \<and> hosts d = hosts (spi_hw s) \<and> dev d = dev (spi_hw s)"
proof -
  let ?p = "esp32_spi_host bus"
  obtain e1 d1 where 1: "spi_bus_initialize idf ?p (esp32_spi_buscfg bus) (spi_hw s) = (e1, d1)" by force
  obtain e2 h d2 where 2: "spi_bus_add_device idf ?p
      \<lparr>clock_speed_hz = speed, dev_mode = mode, spics_io_num = -1, queue_size = 7\<rparr> d1 = (e2, h, d2)"
    by (rule prod_cases3)
  have s1: "(r, s1) = (if e1 \<noteq> 0 then (-1, s\<lparr>spi_hw := d1\<rparr>)
      else if e2 \<noteq> 0 then (-1, s\<lparr>spi_hw := spi_bus_free idf ?p d2\<rparr>)
      else (0, s\<lparr>spi_handles := (spi_handles s)[unat bus := h], spi_hw := d2\<rparr>))"
    using r b [folded not_le] 1 2
    by (auto simp: mp_spi_esp32_init_bus_def MP_SPI_MAX_BUSES_def ESP_OK_def Let_def split: if_splits)
  note k1 = spi_initialize_law [OF l 1] and k2 = spi_add_law [OF l 2]
  show ?thesis
  proof (cases "e1 = 0 \<and> e2 = 0")
    case True
    then show ?thesis using s1 k1 k2 by (simp; intro exI [of _ h] exI [of _ d2]; simp)
  next
    case False
    show ?thesis
    proof (cases "e1 = 0")
      case True
      have "?p \<notin> ran (dev (spi_hw s))"
        using spi_owns_attached [OF o] True k1 by (auto simp: ran_def)
      then show ?thesis using s1 True False k1 k2 spi_other_laws(3,4) [OF l, of ?p d2] by auto
    qed (use s1 k1 in auto)
  qed
qed

lemma spi_owns_hw:
  "spi_owns hosts dev s \<Longrightarrow> hosts d = hosts (spi_hw s) \<Longrightarrow> dev d = dev (spi_hw s) \<Longrightarrow> spi_owns hosts dev (s\<lparr>spi_hw := d\<rparr>)"
  by (simp add: spi_owns_def)

text \<open>An entry may change as long as its bus and whether it is used stay, or it stays unused.\<close>

lemma spi_owns_upd:
  assumes o: "spi_owns hosts dev s" and i: "i < 8"
    and u: "spi_initialized y = spi_initialized (spi_devices s ! i)"
      "spi_initialized y \<Longrightarrow> spi_bus_no y = spi_bus_no (spi_devices s ! i)"
  shows "spi_owns hosts dev (upd_spi i (\<lambda>_. y) s)"
proof -
  note w = spi_owns_D [OF o]
  have n: "spi_initialized ((spi_devices s)[i := y] ! j) = spi_initialized (spi_devices s ! j)"
      "spi_initialized (spi_devices s ! j) \<Longrightarrow> spi_bus_no ((spi_devices s)[i := y] ! j) = spi_bus_no (spi_devices s ! j)"
    if "j < 8" for j
    using that u i w(1) by (simp_all add: nth_list_update)
  have "owns_keys spi_initialized spi_key ((spi_devices s)[i := y]) (hosts (spi_hw s))"
  proof (cases "spi_initialized y")
    case True
    then show ?thesis using u by (intro owns_keys_change [OF w(3)]) (simp_all add: spi_key_def)
  next
    case False
    then show ?thesis using u by (intro owns_keys_unused [OF w(3)]) simp_all
  qed
  moreover have "(\<exists>j < 8. spi_initialized ((spi_devices s)[i := y] ! j) \<and>
        spi_handles s ! unat (spi_bus_no ((spi_devices s)[i := y] ! j)) = h \<and> spi_key ((spi_devices s)[i := y] ! j) = p) \<longleftrightarrow>
      dev (spi_hw s) h = Some p" for h p
    unfolding w(6) using n by (metis spi_key_def)
  ultimately show ?thesis using w(1,2,4,5) n by (simp add: spi_owns_def upd_spi_def)
qed

lemma spi_owns_installed:
  assumes o: "spi_owns hosts dev s" and i: "i < 8" "\<not> spi_initialized (spi_devices s ! i)"
    and y: "spi_initialized y" "spi_bus_no y < 4" and h: "h \<noteq> 0" "dev (spi_hw s) h = None"
    and d: "dev d = (dev (spi_hw s))(h \<mapsto> spi_key y)" "spi_key y \<notin> hosts (spi_hw s)" "hosts d = insert (spi_key y) (hosts (spi_hw s))"
  shows "spi_owns hosts dev (upd_spi i (\<lambda>_. y) (s\<lparr>spi_handles := (spi_handles s)[unat (spi_bus_no y) := h], spi_hw := d\<rparr>))"
proof -
  note w = spi_owns_D [OF o]
  let ?b = "unat (spi_bus_no y)"
  let ?n = "\<lambda>j. (spi_devices s)[i := y] ! j"
  let ?hs = "(spi_handles s)[?b := h]"
  have n: "?n j = (if j = i then y else spi_devices s ! j)" if "j < 8" for j using that w(1) by (simp add: nth_list_update)
  have hb: "?hs ! ?b = h" using w(2) unat_bus(1) [OF y(2)] by simp
  have other: "?hs ! unat (spi_bus_no (spi_devices s ! j)) = spi_handles s ! unat (spi_bus_no (spi_devices s ! j))"
    if "j < 8" "spi_initialized (spi_devices s ! j)" for j
  proof -
    have "spi_key (spi_devices s ! j) \<in> hosts (spi_hw s)" using w(1,3) that unfolding owns_keys_def by metis
    then have "spi_bus_no (spi_devices s ! j) \<noteq> spi_bus_no y" using d(2) by (metis spi_key_def)
    then have "unat (spi_bus_no (spi_devices s ! j)) \<noteq> ?b" using unat_bus(2) [OF w(4) [OF that] y(2)] by simp
    then show ?thesis by simp
  qed
  have "owns_keys spi_initialized spi_key ((spi_devices s)[i := y]) (hosts d)"
    unfolding d(3) using w(1) i y(1) d(2) by (intro owns_keys_insert [OF w(3)]) simp_all
  moreover have "spi_initialized (?n j) \<Longrightarrow> spi_bus_no (?n j) < 4 \<and> ?hs ! unat (spi_bus_no (?n j)) \<noteq> 0" if "j < 8" for j
    using n [OF that] hb h(1) y(2) other [OF that] w(4,5) [OF that] by (simp split: if_splits)
  moreover have "dev d g = Some p \<longleftrightarrow> (\<exists>j < 8. spi_initialized (?n j) \<and> ?hs ! unat (spi_bus_no (?n j)) = g \<and> spi_key (?n j) = p)"
    for g p
  proof -
    have "(\<exists>j < 8. spi_initialized (?n j) \<and> ?hs ! unat (spi_bus_no (?n j)) = g \<and> spi_key (?n j) = p) \<longleftrightarrow>
        g = h \<and> p = spi_key y \<or> dev (spi_hw s) g = Some p"
      unfolding w(6) using n hb other i y(1) by (metis (no_types, lifting))
    then show ?thesis using d(1) h(2) by auto
  qed
  ultimately show ?thesis using w(1,2) by (simp add: spi_owns_def upd_spi_def)
qed

text \<open>A closed entry: its device is removed first, so that its host is freed.\<close>

lemma spi_owns_closed:
  assumes l: "spi_laws idf hosts dev" and o: "spi_owns hosts dev s"
  shows "spi_owns hosts dev (mp_spi_close (Some idf) h s)"
proof (cases "spi_open_at s (unat h)")
  case False
  then show ?thesis using o by (simp add: mp_spi_close_def)
next
  case True
  note w = spi_owns_D [OF o]
  let ?i = "unat h"
  let ?k = "spi_devices s ! ?i"
  let ?b = "unat (spi_bus_no ?k)"
  let ?g = "spi_handles s ! ?b"
  let ?d1 = "spi_bus_remove_device idf ?g (spi_hw s)"
  let ?d = "spi_bus_free idf (spi_key ?k) ?d1"
  let ?y = "?k\<lparr>spi_initialized := False\<rparr>"
  have i: "?i < 8" "spi_initialized ?k" using True by (simp_all add: spi_open_at_def MP_SPI_MAX_DEVICES_def)
  have b: "spi_bus_no ?k < 4" "?g \<noteq> 0" using w(4,5) i by simp_all
  have c: "mp_spi_close (Some idf) h s = upd_spi ?i (\<lambda>_. ?y) (s\<lparr>spi_handles := (spi_handles s)[?b := 0], spi_hw := ?d\<rparr>)"
    using True b(1) [folded not_le] b(2)
    by (simp add: mp_spi_close_def Let_def mp_spi_esp32_deinit_bus_def MP_SPI_MAX_BUSES_def upd_spi_def spi_key_def)
  have inj: "j = ?i" if "j < 8" "spi_initialized (spi_devices s ! j)" "spi_key (spi_devices s ! j) = spi_key ?k" for j
    using w(1,3) that i unfolding owns_keys_def by metis
  have at: "dev (spi_hw s) ?g = Some (spi_key ?k)" unfolding w(6) using i by blast
  have only: "g = ?g" if "dev (spi_hw s) g = Some (spi_key ?k)" for g using that inj unfolding w(6) by metis
  have dev: "dev ?d = (dev (spi_hw s))(?g := None)" by (simp add: spi_other_laws [OF l])
  have "spi_key ?k \<notin> ran (dev ?d1)" using only by (auto simp: spi_other_laws [OF l] ran_def)
  then have hosts: "hosts ?d = hosts (spi_hw s) - {spi_key ?k}" by (simp add: spi_other_laws [OF l])
  have own: "owns_keys spi_initialized spi_key ((spi_devices s)[?i := ?y]) (hosts ?d)"
    unfolding hosts using w(1) i by (intro owns_keys_remove [OF w(3)]) simp_all
  let ?n = "\<lambda>j. (spi_devices s)[?i := ?y] ! j"
  let ?hs = "(spi_handles s)[?b := 0]"
  have n: "?n j = (if j = ?i then ?y else spi_devices s ! j)" if "j < 8" for j using that w(1) by (simp add: nth_list_update)
  have other: "?hs ! unat (spi_bus_no (spi_devices s ! j)) = spi_handles s ! unat (spi_bus_no (spi_devices s ! j))"
    if "j < 8" "spi_initialized (spi_devices s ! j)" "j \<noteq> ?i" for j
  proof -
    have "spi_bus_no (spi_devices s ! j) \<noteq> spi_bus_no ?k" using inj that by (metis spi_key_def)
    then have "unat (spi_bus_no (spi_devices s ! j)) \<noteq> ?b" using unat_bus(2) [OF w(4) [OF that(1,2)] b(1)] by simp
    then show ?thesis by simp
  qed
  have u: "spi_initialized (?n j) \<longleftrightarrow> j \<noteq> ?i \<and> spi_initialized (spi_devices s ! j)" if "j < 8" for j
    using n [OF that] by simp
  have reg: "spi_bus_no (?n j) < 4 \<and> ?hs ! unat (spi_bus_no (?n j)) \<noteq> 0" if "j < 8" "spi_initialized (?n j)" for j
    using that u [OF that(1)] n [OF that(1)] other w(4,5) by auto
  have map: "dev ?d g = Some p \<longleftrightarrow> (\<exists>j < 8. spi_initialized (?n j) \<and> ?hs ! unat (spi_bus_no (?n j)) = g \<and> spi_key (?n j) = p)"
    for g p
  proof -
    have "(\<exists>j < 8. spi_initialized (?n j) \<and> ?hs ! unat (spi_bus_no (?n j)) = g \<and> spi_key (?n j) = p) \<longleftrightarrow>
        (\<exists>j < 8. j \<noteq> ?i \<and> spi_initialized (spi_devices s ! j) \<and> spi_handles s ! unat (spi_bus_no (spi_devices s ! j)) = g \<and>
           spi_key (spi_devices s ! j) = p)"
      using u n other by (metis (no_types, lifting))
    also have "\<dots> \<longleftrightarrow> g \<noteq> ?g \<and> dev (spi_hw s) g = Some p"
    proof
      assume "\<exists>j < 8. j \<noteq> ?i \<and> spi_initialized (spi_devices s ! j) \<and>
          spi_handles s ! unat (spi_bus_no (spi_devices s ! j)) = g \<and> spi_key (spi_devices s ! j) = p"
      then obtain j where j: "j < 8" "j \<noteq> ?i" "spi_initialized (spi_devices s ! j)"
          "spi_handles s ! unat (spi_bus_no (spi_devices s ! j)) = g" "spi_key (spi_devices s ! j) = p"
        by blast
      then have d: "dev (spi_hw s) g = Some p" unfolding w(6) by blast
      have "g \<noteq> ?g"
      proof
        assume "g = ?g"
        then have "p = spi_key ?k" using d at by simp
        then show False using inj [OF j(1,3)] j(2,5) by simp
      qed
      then show "g \<noteq> ?g \<and> dev (spi_hw s) g = Some p" using d by simp
    next
      assume "g \<noteq> ?g \<and> dev (spi_hw s) g = Some p"
      then show "\<exists>j < 8. j \<noteq> ?i \<and> spi_initialized (spi_devices s ! j) \<and>
          spi_handles s ! unat (spi_bus_no (spi_devices s ! j)) = g \<and> spi_key (spi_devices s ! j) = p"
        unfolding w(6) by metis
    qed
    finally show ?thesis unfolding dev by simp
  qed
  show ?thesis unfolding c using w(1,2) own reg map by (simp add: spi_owns_def upd_spi_def)
qed

lemma spi_owns_open:
  assumes l: "spi_laws idf hosts dev" and o: "spi_owns hosts dev s" and c: "mp_spi_open (Some idf) bus cs speed mode s = (h, s')"
  shows "spi_owns hosts dev s'"
proof (rule spi_open_cases [OF c])
  fix i idf' s1
  assume i: "i < 8" "\<not> spi_initialized (spi_devices s ! i)" and b: "bus < 4" and e: "Some idf = Some idf'"
    and r: "mp_spi_esp32_init_bus idf' bus speed mode s = (0, s1)"
    and s': "s' = upd_spi i (\<lambda>_. spi_entry bus cs speed mode True) s1"
  have r': "mp_spi_esp32_init_bus idf bus speed mode s = (0, s1)" using r e by simp
  obtain g d where g: "s1 = s\<lparr>spi_handles := (spi_handles s)[unat bus := g], spi_hw := d\<rparr>" "g \<noteq> 0" "dev (spi_hw s) g = None"
      "dev d = (dev (spi_hw s))(g \<mapsto> esp32_spi_host bus)" "esp32_spi_host bus \<notin> hosts (spi_hw s)"
      "hosts d = insert (esp32_spi_host bus) (hosts (spi_hw s))"
    using spi_init_bus_law [OF l o b r'] by auto
  have k: "spi_key (spi_entry bus cs speed mode True) = esp32_spi_host bus" by (simp add: spi_key_def)
  show ?thesis
    using spi_owns_installed [OF o i, of "spi_entry bus cs speed mode True" g d] b g(2-) unfolding s' g(1) k by simp
next
  fix i idf' r s1
  assume i: "i < 8" "\<not> spi_initialized (spi_devices s ! i)" and b: "bus < 4" and e: "Some idf = Some idf'" and nz: "r \<noteq> 0"
    and r: "mp_spi_esp32_init_bus idf' bus speed mode s = (r, s1)"
    and s': "s' = upd_spi i (\<lambda>_. spi_entry bus cs speed mode False) s1"
  have r': "mp_spi_esp32_init_bus idf bus speed mode s = (r, s1)" using r e by simp
  obtain d where d: "s1 = s\<lparr>spi_hw := d\<rparr>" "hosts d = hosts (spi_hw s)" "dev d = dev (spi_hw s)"
    using spi_init_bus_law [OF l o b r'] nz by auto
  show ?thesis unfolding s' d(1) using i by (intro spi_owns_upd spi_owns_hw [OF o d(2,3)]) simp_all
qed (use o in simp_all)

text \<open>Every other operation leaves the hosts and the devices as they are, and the buses of the entries.\<close>

lemma spi_transfer_keeps:
  assumes l: "spi_laws idf hosts dev" and o: "spi_owns hosts dev s" and c: "mp_spi_transfer (Some idf) h m r n t s = Some (v, r', s')"
  shows "spi_owns hosts dev s'"
proof -
  let ?k = "spi_devices s ! unat h"
  consider "s' = s" | "mp_spi_esp32_transfer idf (spi_bus_no ?k) (spi_cs_pin ?k) m r n t s = (v, r', s')"
    using c by (auto simp: mp_spi_transfer_def Let_def split: if_splits)
  then show ?thesis
  proof cases
    case 2
    let ?d1 = "gpio_set_level idf (spi_cs_pin ?k) 0 (spi_hw s)"
    obtain e x d2 where x: "spi_device_transmit idf (spi_handles s ! unat (spi_bus_no ?k)) (unat n * 8) m r ?d1 = (e, x, d2)"
      by (rule prod_cases3)
    have "s' = s \<or> s' = s\<lparr>spi_hw := gpio_set_level idf (spi_cs_pin ?k) 1 d2\<rparr>"
      using 2 x by (auto simp: mp_spi_esp32_transfer_def Let_def split: if_splits)
    then show ?thesis
      using o spi_transmit_law [OF l x] by (auto simp: spi_other_laws(7,8) [OF l] intro: spi_owns_hw)
  qed (use o in simp)
qed

lemma spi_reconfigure_keeps:
  assumes l: "spi_laws idf hosts dev" and o: "spi_owns hosts dev s"
  shows "spi_owns hosts dev (snd (mp_spi_esp32_reconfigure idf bus f s))"
proof -
  let ?h = "spi_handles s ! unat bus"
  obtain e c where 1: "spi_get_device_config idf ?h (spi_hw s) = (e, c)" by force
  have "snd (mp_spi_esp32_reconfigure idf bus f s) = s \<or>
      snd (mp_spi_esp32_reconfigure idf bus f s) = s\<lparr>spi_hw := snd (spi_update_device_config idf ?h (f c) (spi_hw s))\<rparr>"
    using 1 by (auto simp: mp_spi_esp32_reconfigure_def Let_def split: prod.split)
  then show ?thesis using o spi_owns_hw [OF o spi_other_laws(5,6) [OF l]] by auto
qed

lemma spi_level_keeps:
  "spi_laws idf hosts dev \<Longrightarrow> spi_owns hosts dev s \<Longrightarrow> spi_owns hosts dev (mp_spi_esp32_assert_cs idf p s)"
  "spi_laws idf hosts dev \<Longrightarrow> spi_owns hosts dev s \<Longrightarrow> spi_owns hosts dev (mp_spi_esp32_deassert_cs idf p s)"
  by (simp_all add: mp_spi_esp32_assert_cs_def mp_spi_esp32_deassert_cs_def spi_owns_hw spi_other_laws(7,8))

lemma spi_owns_set:
  assumes o: "spi_owns hosts dev s" and h: "spi_open_at s (unat h)"
    and f: "\<And>k. spi_initialized (f k) = spi_initialized k" "\<And>k. spi_bus_no (f k) = spi_bus_no k"
  shows "spi_owns hosts dev (upd_spi (unat h) f s)"
proof -
  have "upd_spi (unat h) f s = upd_spi (unat h) (\<lambda>_. f (spi_devices s ! unat h)) s" by (simp add: upd_spi_def)
  then show ?thesis using h f spi_owns_upd [OF o, of "unat h"] by (simp add: spi_open_at_def MP_SPI_MAX_DEVICES_def)
qed

lemma spi_owns_step:
  assumes l: "spi_laws idf hosts dev" and o: "spi_owns hosts dev s" and c: "spi_step (Some idf) op s = Some s'"
  shows "spi_owns hosts dev s'"
proof (cases op)
  case (Spi_open b cs v m)
  then show ?thesis using c spi_owns_open [OF l o, of b cs v m] by (auto simp: prod_eq_iff)
next
  case (Spi_close h)
  then show ?thesis using c spi_owns_closed [OF l o] by auto
next
  case (Spi_transfer h m r n t)
  then show ?thesis using c spi_transfer_keeps [OF l o] by auto
next
  case (Spi_write_op h m n t)
  then show ?thesis using c spi_transfer_keeps [OF l o] by (auto simp: mp_spi_write_def)
next
  case (Spi_read_op h m n t)
  then show ?thesis using c spi_transfer_keeps [OF l o] by (auto simp: mp_spi_read_def)
next
  case (Spi_speed h v)
  then show ?thesis
    using c o spi_reconfigure_keeps [OF l spi_owns_set [OF o, of h "\<lambda>k. k\<lparr>spi_speed := v\<rparr>"]]
    by (auto simp: mp_spi_set_speed_def mp_spi_esp32_set_speed_def Let_def)
next
  case (Spi_mode h v)
  then show ?thesis
    using c o spi_reconfigure_keeps [OF l spi_owns_set [OF o, of h "\<lambda>k. k\<lparr>spi_mode := v AND 3\<rparr>"]]
    by (auto simp: mp_spi_set_mode_def mp_spi_esp32_set_mode_def Let_def)
next
  case (Spi_assert h)
  then show ?thesis using c o spi_level_keeps [OF l o] by (auto simp: mp_spi_assert_cs_def split: if_splits)
next
  case (Spi_deassert h)
  then show ?thesis using c o spi_level_keeps [OF l o] by (auto simp: mp_spi_deassert_cs_def split: if_splits)
qed

lemma spi_owns_steps:
  "spi_laws idf hosts dev \<Longrightarrow> spi_owns hosts dev s \<Longrightarrow> spi_steps (Some idf) ops s = Some s' \<Longrightarrow> spi_owns hosts dev s'"
proof (induction ops arbitrary: s)
  case (Cons op ops)
  obtain s1 where s1: "spi_step (Some idf) op s = Some s1" "spi_steps (Some idf) ops s1 = Some s'"
    using Cons.prems(3) by (auto split: bind_splits)
  show ?case by (rule Cons.IH [OF Cons.prems(1) spi_owns_step [OF Cons.prems(1,2) s1(1)] s1(2)])
qed simp

lemma spi_boot_owns: "hosts d = {} \<Longrightarrow> dev d = Map.empty \<Longrightarrow> spi_owns hosts dev (spi_boot d)"
  by (auto simp: spi_owns_def spi_boot_def MP_SPI_MAX_DEVICES_def MP_SPI_MAX_BUSES_def owns_keys_def zero_spi_device_def)

text \<open>
  C31. On the ESP32 every open SPI handle has a host of its own, initialised and with one device attached to it, after any
  sequence of calls from the start, whatever calls fail, and no host stays initialised without a handle; buses 1 to 3 are
  the same host, so at most two of the eight devices can be open, although each could have a chip select of its own.
\<close>

theorem spi_handles_own_hosts:
  assumes "spi_laws idf hosts dev" and "hosts d = {}" and "dev d = Map.empty"
    and "spi_steps (Some idf) ops (spi_boot d) = Some s"
  shows "owns_keys spi_initialized spi_key (spi_devices s) (hosts (spi_hw s)) \<and> ran (dev (spi_hw s)) = hosts (spi_hw s) \<and>
    card {i. spi_open_at s i} \<le> 2"
proof (intro conjI)
  have o: "spi_owns hosts dev s" by (rule spi_owns_steps [OF assms(1) spi_boot_owns assms(4)]) (rule assms(2,3))+
  note w = spi_owns_D [OF o]
  show own: "owns_keys spi_initialized spi_key (spi_devices s) (hosts (spi_hw s))" by (rule w(3))
  show "ran (dev (spi_hw s)) = hosts (spi_hw s)"
  proof (intro equalityI subsetI)
    fix p assume "p \<in> ran (dev (spi_hw s))"
    then show "p \<in> hosts (spi_hw s)" using spi_owns_attached [OF o] by (auto simp: ran_def)
  next
    fix p assume "p \<in> hosts (spi_hw s)"
    then obtain i where "i < 8" "spi_initialized (spi_devices s ! i)" "spi_key (spi_devices s ! i) = p"
      using own w(1) unfolding owns_keys_def by metis
    then have "dev (spi_hw s) (spi_handles s ! unat (spi_bus_no (spi_devices s ! i))) = Some p" unfolding w(6) by blast
    then show "p \<in> ran (dev (spi_hw s))" by (rule ranI)
  qed
  have sub: "hosts (spi_hw s) \<subseteq> {1, 2}" using own by (auto simp: owns_keys_def spi_key_def esp32_spi_host_def)
  have "{i. spi_open_at s i} = {i. i < length (spi_devices s) \<and> spi_initialized (spi_devices s ! i)}"
    using w(1) by (auto simp: spi_open_at_def MP_SPI_MAX_DEVICES_def)
  also have "card \<dots> \<le> card (hosts (spi_hw s))" using own finite_subset [OF sub] by (intro owns_keys_card) auto
  also have "\<dots> \<le> card {1 :: nat, 2}" using sub by (intro card_mono) auto
  finally show "card {i. spi_open_at s i} \<le> 2" by simp
qed

text \<open>An ESP-IDF for the witness: the hosts that are initialised and, for each, its device; a device is numbered by its host.\<close>

definition demo_spi :: "(nat list \<times> (u32 \<times> nat) list) spi_idf" where
  "demo_spi =
     \<lparr>spi_bus_initialize = (\<lambda>p c d. if p \<in> set (fst d) then (-1, d) else (0, (p # fst d, snd d))),
      spi_bus_add_device = (\<lambda>p c d.
        let h = (if p = 1 then 1 else 2)
        in if map_of (snd d) h \<noteq> None then (-1, 0, d) else (0, h, (fst d, (h, p) # snd d))),
      spi_bus_remove_device = (\<lambda>h d. (fst d, filter (\<lambda>x. fst x \<noteq> h) (snd d))),
      spi_bus_free = (\<lambda>p d. (filter (\<lambda>x. x \<noteq> p) (fst d), snd d)), spi_device_transmit = (\<lambda>h n t r d. (0, r, d)),
      spi_get_device_config = (\<lambda>h d. (0, \<lparr>clock_speed_hz = 0, dev_mode = 0, spics_io_num = 0, queue_size = 0\<rparr>)),
      spi_update_device_config = (\<lambda>h c d. (0, d)), gpio_set_level = (\<lambda>p v d. d)\<rparr>"

lemma map_of_filter_other: "map_of (filter (\<lambda>x. fst x \<noteq> h) xs) = (map_of xs)(h := None)"
  by (induction xs) (auto simp: fun_eq_iff)

lemma demo_spi_laws: "spi_laws demo_spi (\<lambda>d. set (fst d)) (\<lambda>d. map_of (snd d))"
  by (auto simp: spi_laws_def demo_spi_def map_of_filter_other Let_def split: if_splits)

lemma spi_handles_own_hosts_witness:
  "\<exists>s. spi_steps (Some demo_spi) [Spi_open 1 5 1000000 0, Spi_open 2 6 1000000 0, Spi_open 0 7 1000000 1, Spi_close 0]
       (spi_boot ([], [])) = Some s \<and>
     owns_keys spi_initialized spi_key (spi_devices s) (set (fst (spi_hw s))) \<and> ran (map_of (snd (spi_hw s))) = set (fst (spi_hw s)) \<and>
     card {i. spi_open_at s i} \<le> 2"
  using spi_handles_own_hosts [OF demo_spi_laws, of "([], [])"
      "[Spi_open 1 5 1000000 0, Spi_open 2 6 1000000 0, Spi_open 0 7 1000000 1, Spi_close 0]"]
  by simp

end
