(* ===== verification/BleEsp32.thy ===== *)
theory BleEsp32
  imports MsgQueue Memory
begin

text \<open>
  The BLE backend of the ESP32, \<open>src/ble/ble_esp32.c\<close>, with the types of \<open>src/ble/ble_mgr.h\<close>.  The Bluetooth stack of
  ESP-IDF is a parameter, a record of its calls on a state of its own; what it reports back is given to the callbacks.
  Lines that are logged are left out.
\<close>

section \<open>Types\<close>

datatype ble_state = MP_BLE_DISCONNECTED | MP_BLE_READY | MP_BLE_ADVERTISING | MP_BLE_CONNECTED | MP_BLE_ERROR

record ble_conn_params =
  min_interval :: u16
  max_interval :: u16
  latency :: u16
  supervision_timeout :: u16

definition default_conn_params :: ble_conn_params where
  "default_conn_params = \<lparr>min_interval = 0x0006, max_interval = 0x000C, latency = 0, supervision_timeout = 1000\<rparr>"

definition MP_BLE_EVENT_ADV_STARTED :: u32 where "MP_BLE_EVENT_ADV_STARTED = 0"
definition MP_BLE_EVENT_ADV_STOPPED :: u32 where "MP_BLE_EVENT_ADV_STOPPED = 1"
definition MP_BLE_EVENT_CONNECTED :: u32 where "MP_BLE_EVENT_CONNECTED = 2"
definition MP_BLE_EVENT_DISCONNECTED :: u32 where "MP_BLE_EVENT_DISCONNECTED = 3"
definition MP_BLE_EVENT_DATA_RECEIVED :: u32 where "MP_BLE_EVENT_DATA_RECEIVED = 4"
definition MP_BLE_EVENT_CONN_PARAM_UPDATE :: u32 where "MP_BLE_EVENT_CONN_PARAM_UPDATE = 6"

lemmas ble_event_types = MP_BLE_EVENT_ADV_STARTED_def MP_BLE_EVENT_ADV_STOPPED_def MP_BLE_EVENT_CONNECTED_def
  MP_BLE_EVENT_DISCONNECTED_def MP_BLE_EVENT_DATA_RECEIVED_def MP_BLE_EVENT_CONN_PARAM_UPDATE_def

text \<open>An event as the queue copies it: 20 bytes, two of them between the fields.\<close>

record ble_event =
  ev_type :: u32
  ev_conn_handle :: u16
  ev_address :: "u8 list"
  ev_data_length :: u16
  ev_padding :: "u8 list"
  ev_data :: u32

definition sizeof_ble_event :: size_t where "sizeof_ble_event = 20"

definition event_bytes :: "ble_event \<Rightarrow> u8 list" where
  "event_bytes e = le_bytes 4 (unat (ev_type e)) @ le_bytes 2 (unat (ev_conn_handle e)) @ ev_address e @
     le_bytes 2 (unat (ev_data_length e)) @ ev_padding e @ le_bytes 4 (unat (ev_data e))"

definition event_of_bytes :: "u8 list \<Rightarrow> ble_event" where
  "event_of_bytes b =
     \<lparr>ev_type = of_nat (le_val (take 4 b)), ev_conn_handle = of_nat (le_val (take 2 (drop 4 b))),
      ev_address = take 6 (drop 6 b), ev_data_length = of_nat (le_val (take 2 (drop 12 b))),
      ev_padding = take 2 (drop 14 b), ev_data = of_nat (le_val (take 4 (drop 16 b)))\<rparr>"

section \<open>The Bluetooth stack\<close>

datatype gatt_uuid = ESP_GATT_UUID_PRI_SERVICE | ESP_GATT_UUID_CHAR_DECLARE | ESP_GATT_UUID_MP_DATA

datatype gatt_perm = ESP_GATT_PERM_READ | ESP_GATT_PERM_WRITE | ESP_GATT_PERM_NOTIFY

record gatt_attr =
  attr_uuid :: gatt_uuid
  attr_perm :: "gatt_perm list"
  attr_max_length :: nat
  attr_length :: nat
  attr_val :: "u8 list option"

record ble_adv_data =
  set_scan_rsp :: bool
  adv_min_interval :: u16
  adv_max_interval :: u16

datatype bt_call =
    Bt_controller_init
  | Bt_controller_enable
  | Bluedroid_init
  | Bluedroid_enable
  | Gap_register_callback
  | Gatts_register_callback
  | Gattc_register_callback
  | Gap_set_device_name "char list"
  | Gatts_app_register nat "gatt_attr list"
  | Gap_config_adv_data ble_adv_data
  | Gap_config_scan_rsp_data ble_adv_data
  | Gap_set_adv_params nat nat
  | Gap_start_advertising
  | Gap_stop_advertising
  | Gatts_send_indicate u16 u16 u16 "u8 list"
  | Bluedroid_disable
  | Bluedroid_deinit
  | Bt_controller_disable
  | Bt_controller_deinit

text \<open>\<open>bt_malloc\<close> tells whether the allocator has that many bytes.\<close>

record 'e bt_stack =
  config_bt_enable :: bool
  bt_call :: "bt_call \<Rightarrow> 'e \<Rightarrow> int \<times> 'e"
  bt_dev_get_address :: "'e \<Rightarrow> int \<times> u8 list \<times> 'e"
  bt_malloc :: "nat \<Rightarrow> 'e \<Rightarrow> bool \<times> 'e"

section \<open>State\<close>

record 'e ble_esp32 =
  e_state :: ble_state
  e_params :: ble_conn_params
  ble_rx_mq :: mp_mq
  ble_tx_mq :: mp_mq
  ble_event_mq :: mp_mq
  device_address :: "u8 list"
  bt :: 'e

definition MP_BLE_ESP32_MTU :: u16 where "MP_BLE_ESP32_MTU = 247"
definition MP_BLE_ESP32_RX_QUEUE_SIZE :: nat where "MP_BLE_ESP32_RX_QUEUE_SIZE = 32"
definition MP_BLE_ESP32_TX_QUEUE_SIZE :: nat where "MP_BLE_ESP32_TX_QUEUE_SIZE = 32"

definition gatt_service_handle :: u16 where "gatt_service_handle = 0"
definition gatt_char_handle :: u16 where "gatt_char_handle = 0"

definition device_name :: "char list" where "device_name = ''microPOSIX-ESP32''"

text \<open>A queue before it is initialised; its storage is static.\<close>

definition static_mq :: "nat \<Rightarrow> mp_mq" where
  "static_mq n = \<lparr>mq_buffer = replicate n 0, msg_size = 0, max_msgs = 0, cur_msgs = 0, mq_head = 0, mq_tail = 0,
     waiting_send = None, waiting_recv = None\<rparr>"

definition ble_esp32_boot :: "'e \<Rightarrow> 'e ble_esp32" where
  "ble_esp32_boot e =
     \<lparr>e_state = MP_BLE_DISCONNECTED, e_params = default_conn_params,
      ble_rx_mq = static_mq (MP_BLE_ESP32_RX_QUEUE_SIZE * unat MP_BLE_ESP32_MTU),
      ble_tx_mq = static_mq (MP_BLE_ESP32_TX_QUEUE_SIZE * unat MP_BLE_ESP32_MTU),
      ble_event_mq = static_mq (32 * unat sizeof_ble_event), device_address = replicate 6 0, bt = e\<rparr>"

section \<open>Operations\<close>

definition bt_do :: "'e bt_stack \<Rightarrow> bt_call \<Rightarrow> 'e ble_esp32 \<Rightarrow> 'e ble_esp32" where
  "bt_do b c s = s\<lparr>bt := snd (bt_call b c (bt s))\<rparr>"

definition gatt_db :: "gatt_attr list" where
  "gatt_db =
    [\<lparr>attr_uuid = ESP_GATT_UUID_PRI_SERVICE, attr_perm = [ESP_GATT_PERM_READ], attr_max_length = 2, attr_length = 2,
      attr_val = Some [0x00, 0x18]\<rparr>,
     \<lparr>attr_uuid = ESP_GATT_UUID_CHAR_DECLARE, attr_perm = [ESP_GATT_PERM_READ], attr_max_length = 1, attr_length = 1,
      attr_val = Some [0x02]\<rparr>,
     \<lparr>attr_uuid = ESP_GATT_UUID_MP_DATA, attr_perm = [ESP_GATT_PERM_READ, ESP_GATT_PERM_WRITE, ESP_GATT_PERM_NOTIFY],
      attr_max_length = unat MP_BLE_ESP32_MTU, attr_length = 0, attr_val = None\<rparr>]"

definition mp_ble_esp32_gatt_server_init :: "'e bt_stack \<Rightarrow> 'e ble_esp32 \<Rightarrow> 'e ble_esp32" where
  "mp_ble_esp32_gatt_server_init b s = bt_do b (Gatts_app_register 0 gatt_db) s"

definition static_mq_init :: "size_t \<Rightarrow> size_t \<Rightarrow> mp_mq \<Rightarrow> mp_mq" where
  "static_mq_init sz n q = (case mp_mq_init (Some q) (Some (mq_buffer q)) sz n of (_, Some q') \<Rightarrow> q' | (_, None) \<Rightarrow> q)"

definition ble_start_calls :: "bt_call list" where
  "ble_start_calls = [Bt_controller_init, Bt_controller_enable, Bluedroid_init, Bluedroid_enable, Gap_register_callback,
     Gatts_register_callback, Gattc_register_callback]"

definition mp_ble_esp32_init :: "'e bt_stack \<Rightarrow> 'e ble_esp32 \<Rightarrow> (int \<times> 'e ble_esp32) option" where
  "mp_ble_esp32_init b s =
     (if \<not> config_bt_enable b then Some (-1, s)
      else
        let s1 = s\<lparr>ble_rx_mq := static_mq_init (ucast MP_BLE_ESP32_MTU) (of_nat MP_BLE_ESP32_RX_QUEUE_SIZE) (ble_rx_mq s),
                   ble_tx_mq := static_mq_init (ucast MP_BLE_ESP32_MTU) (of_nat MP_BLE_ESP32_TX_QUEUE_SIZE) (ble_tx_mq s),
                   ble_event_mq := static_mq_init sizeof_ble_event 32 (ble_event_mq s)\<rparr>;
            (ok, e1) = calls_until (bt_call b) ble_start_calls (bt s1)
        in if \<not> ok then Some (-1, s1\<lparr>bt := e1\<rparr>)
           else
             let (_, addr, e2) = bt_dev_get_address b e1
             in do {
               a \<leftarrow> mem_write (device_address s1) 0 addr;
               let s2 = bt_do b (Gap_set_device_name device_name) (s1\<lparr>device_address := a, bt := e2\<rparr>);
               Some (0, (mp_ble_esp32_gatt_server_init b s2)\<lparr>e_state := MP_BLE_READY\<rparr>) })"

definition mp_ble_esp32_deinit :: "'e bt_stack \<Rightarrow> 'e ble_esp32 \<Rightarrow> 'e ble_esp32" where
  "mp_ble_esp32_deinit b s =
     bt_do b Bt_controller_deinit (bt_do b Bt_controller_disable (bt_do b Bluedroid_deinit (bt_do b Bluedroid_disable
       (s\<lparr>e_state := MP_BLE_DISCONNECTED\<rparr>))))"

definition adv_data_of :: "bool \<Rightarrow> ble_conn_params \<Rightarrow> ble_adv_data" where
  "adv_data_of rsp p = \<lparr>set_scan_rsp = rsp, adv_min_interval = min_interval p, adv_max_interval = max_interval p\<rparr>"

definition mp_ble_esp32_start_adv :: "'e bt_stack \<Rightarrow> 'e ble_esp32 \<Rightarrow> 'e ble_esp32" where
  "mp_ble_esp32_start_adv b s =
     (if e_state s \<noteq> MP_BLE_READY \<and> e_state s \<noteq> MP_BLE_DISCONNECTED then s
      else
        let (ok, e) = calls_until (bt_call b) [Gap_config_adv_data (adv_data_of False (e_params s)),
               Gap_config_scan_rsp_data (adv_data_of True (e_params s)), Gap_set_adv_params 0x20 0x40, Gap_start_advertising] (bt s);
            s1 = s\<lparr>bt := e\<rparr>
        in if ok then s1\<lparr>e_state := MP_BLE_ADVERTISING\<rparr> else s1)"

definition mp_ble_esp32_stop_adv :: "'e bt_stack \<Rightarrow> 'e ble_esp32 \<Rightarrow> 'e ble_esp32" where
  "mp_ble_esp32_stop_adv b s =
     (if e_state s \<noteq> MP_BLE_ADVERTISING then s
      else
        let (err, e) = bt_call b Gap_stop_advertising (bt s); s1 = s\<lparr>bt := e\<rparr>
        in if err \<noteq> 0 then s1 else s1\<lparr>e_state := MP_BLE_READY\<rparr>)"

definition mp_ble_esp32_get_state :: "'e ble_esp32 \<Rightarrow> ble_state" where "mp_ble_esp32_get_state s = e_state s"

definition mp_ble_esp32_set_conn_params :: "ble_conn_params option \<Rightarrow> 'e ble_esp32 \<Rightarrow> 'e ble_esp32" where
  "mp_ble_esp32_set_conn_params p s = (case p of None \<Rightarrow> s | Some q \<Rightarrow> s\<lparr>e_params := q\<rparr>)"

definition mp_ble_esp32_get_conn_params :: "ble_conn_params option \<Rightarrow> 'e ble_esp32 \<Rightarrow> ble_conn_params option" where
  "mp_ble_esp32_get_conn_params p s = map_option (\<lambda>_. e_params s) p"

text \<open>\<open>data\<close> is the memory the pointer points into.  A message queued for later is copied at the size of the queue's.\<close>

definition mp_ble_esp32_send_data ::
  "'e bt_stack \<Rightarrow> u16 \<Rightarrow> u8 list option \<Rightarrow> u16 \<Rightarrow> 'e ble_esp32 \<Rightarrow> (int \<times> 'e ble_esp32) option" where
  "mp_ble_esp32_send_data b conn_handle data len s =
     (if e_state s \<noteq> MP_BLE_CONNECTED then Some (-1, s)
      else
        (case data of None \<Rightarrow> Some (-1, s)
         | Some m \<Rightarrow>
             if len = 0 \<or> len > MP_BLE_ESP32_MTU then Some (-1, s)
             else do {
               bytes \<leftarrow> mem_read m 0 (unat len);
               let (err, e) = bt_call b (Gatts_send_indicate gatt_service_handle conn_handle gatt_char_handle bytes) (bt s);
               let s1 = s\<lparr>bt := e\<rparr>;
               if err \<noteq> 0
               then do { (r, q) \<leftarrow> mp_mq_send (ble_tx_mq s1) m 100; Some (if r \<noteq> 0 then -1 else 0, s1\<lparr>ble_tx_mq := q\<rparr>) }
               else Some (uint len, s1) }))"

text \<open>The result, the buffer and the state: a whole message is stored in the buffer, whatever its length.\<close>

definition mp_ble_esp32_receive_data ::
  "u8 list option \<Rightarrow> u16 \<Rightarrow> u32 \<Rightarrow> 'e ble_esp32 \<Rightarrow> (int \<times> u8 list option \<times> 'e ble_esp32) option" where
  "mp_ble_esp32_receive_data data max_len timeout_ms s =
     (case data of None \<Rightarrow> Some (-1, None, s)
      | Some m \<Rightarrow>
          if max_len = 0 then Some (-1, Some m, s)
          else do {
            (r, q, d) \<leftarrow> mp_mq_receive (ble_rx_mq s) timeout_ms;
            m' \<leftarrow> (case d of None \<Rightarrow> Some m | Some x \<Rightarrow> mem_write m 0 x);
            Some (r, Some m', s\<lparr>ble_rx_mq := q\<rparr>) })"

text \<open>A product by \<open>0.8\<close> in floating point, truncated: four fifths, rounded down, for every 16-bit interval.\<close>

definition mp_ble_esp32_get_next_anchor_ticks :: "'e ble_esp32 \<Rightarrow> u32" where
  "mp_ble_esp32_get_next_anchor_ticks s =
     (if e_state s = MP_BLE_CONNECTED then of_nat (unat (min_interval (e_params s)) * 4 div 5)
      else if e_state s = MP_BLE_ADVERTISING then 15
      else 0xFFFFFFFF)"

section \<open>What the stack reports\<close>

datatype gap_event =
    ESP_GAP_BLE_ADV_DATA_SET_COMPLETE
  | ESP_GAP_BLE_SCAN_RSP_DATA_SET_COMPLETE
  | ESP_GAP_BLE_SCAN_RESULT "u8 list"
  | ESP_GAP_BLE_SCAN_STOP_COMPLETE
  | ESP_GAP_BLE_ADV_START_COMPLETE
  | ESP_GAP_BLE_ADV_STOP_COMPLETE
  | ESP_GAP_BLE_CONNECT u16 "u8 list"
  | ESP_GAP_BLE_DISCONNECT u16
  | ESP_GAP_BLE_CONN_PARAM_UPDATE u16
  | ESP_GAP_BLE_SET_STATIC_RAND_ADDR
  | ESP_GAP_BLE_UPDATE_CONN_PARAMS
  | ESP_GAP_BLE_OTHER int

text \<open>The result of the send is not looked at.\<close>

definition post_event :: "ble_event \<Rightarrow> 'e ble_esp32 \<Rightarrow> 'e ble_esp32 option" where
  "post_event ev s = do { (r, q) \<leftarrow> mp_mq_send (ble_event_mq s) (event_bytes ev) 0; Some (s\<lparr>ble_event_mq := q\<rparr>) }"

text \<open>\<open>stk\<close> is what the event on the stack holds before its fields are assigned.\<close>

fun mp_ble_esp32_gap_callback :: "'e bt_stack \<Rightarrow> ble_event \<Rightarrow> gap_event \<Rightarrow> 'e ble_esp32 \<Rightarrow> 'e ble_esp32 option" where
  "mp_ble_esp32_gap_callback b stk ESP_GAP_BLE_ADV_START_COMPLETE s =
     post_event (stk\<lparr>ev_type := MP_BLE_EVENT_ADV_STARTED\<rparr>) (s\<lparr>e_state := MP_BLE_ADVERTISING\<rparr>)"
| "mp_ble_esp32_gap_callback b stk ESP_GAP_BLE_ADV_STOP_COMPLETE s =
     post_event (stk\<lparr>ev_type := MP_BLE_EVENT_ADV_STOPPED\<rparr>) (s\<lparr>e_state := MP_BLE_READY\<rparr>)"
| "mp_ble_esp32_gap_callback b stk (ESP_GAP_BLE_CONNECT conn_handle bda) s =
     post_event (stk\<lparr>ev_type := MP_BLE_EVENT_CONNECTED, ev_conn_handle := conn_handle, ev_address := bda\<rparr>)
       (s\<lparr>e_state := MP_BLE_CONNECTED\<rparr>)"
| "mp_ble_esp32_gap_callback b stk (ESP_GAP_BLE_DISCONNECT conn_handle) s =
     do { s1 \<leftarrow> post_event (stk\<lparr>ev_type := MP_BLE_EVENT_DISCONNECTED, ev_conn_handle := conn_handle\<rparr>)
            (s\<lparr>e_state := MP_BLE_DISCONNECTED\<rparr>);
          Some (mp_ble_esp32_start_adv b s1) }"
| "mp_ble_esp32_gap_callback b stk (ESP_GAP_BLE_CONN_PARAM_UPDATE conn_handle) s =
     post_event (stk\<lparr>ev_type := MP_BLE_EVENT_CONN_PARAM_UPDATE, ev_conn_handle := conn_handle\<rparr>) s"
| "mp_ble_esp32_gap_callback b stk _ s = Some s"

text \<open>A write has a handle, a connection, a length and a value; only writes have an effect.\<close>

datatype gatts_event =
    ESP_GATTS_WRITE u16 u16 u16 "u8 list option"
  | ESP_GATTS_REG | ESP_GATTS_READ | ESP_GATTS_EXEC_WRITE | ESP_GATTS_MTU | ESP_GATTS_CONF | ESP_GATTS_START
  | ESP_GATTS_STOP | ESP_GATTS_CONNECT | ESP_GATTS_DISCONNECT | ESP_GATTS_CREAT_ATTR_TAB | ESP_GATTS_SET_ATTR_VAL
  | ESP_GATTS_OTHER int

text \<open>The value is copied to a block of its own length, from which the queue reads a message of its own size.\<close>

definition forward_write :: "'e bt_stack \<Rightarrow> u16 \<Rightarrow> u8 list option \<Rightarrow> 'e ble_esp32 \<Rightarrow> 'e ble_esp32 option" where
  "forward_write b len val s =
     (case val of None \<Rightarrow> Some s
      | Some v \<Rightarrow>
          if len = 0 then Some s
          else
            let (ok, e) = bt_malloc b (unat len) (bt s); s1 = s\<lparr>bt := e\<rparr>
            in if \<not> ok then Some s1
               else do {
                 data \<leftarrow> mem_read v 0 (unat len);
                 (r, q) \<leftarrow> mp_mq_send (ble_rx_mq s1) data 0;
                 Some (s1\<lparr>ble_rx_mq := q\<rparr>) })"

fun mp_ble_esp32_gatts_callback :: "'e bt_stack \<Rightarrow> ble_event \<Rightarrow> gatts_event \<Rightarrow> 'e ble_esp32 \<Rightarrow> 'e ble_esp32 option" where
  "mp_ble_esp32_gatts_callback b stk (ESP_GATTS_WRITE attr conn_id len val) s =
     do { s1 \<leftarrow> forward_write b len val s;
          post_event (stk\<lparr>ev_type := MP_BLE_EVENT_DATA_RECEIVED, ev_conn_handle := conn_id, ev_data_length := len\<rparr>) s1 }"
| "mp_ble_esp32_gatts_callback b stk _ s = Some s"

datatype gattc_event =
    ESP_GATTC_REG | ESP_GATTC_CONNECT | ESP_GATTC_DISCONNECT | ESP_GATTC_SEARCH_CMPL | ESP_GATTC_SEARCH_RES
  | ESP_GATTC_READ_CHAR | ESP_GATTC_WRITE_CHAR | ESP_GATTC_NOTIFY | ESP_GATTC_INDICATE | ESP_GATTC_OTHER int

text \<open>Every event is only logged.\<close>

definition mp_ble_esp32_gattc_callback :: "gattc_event \<Rightarrow> 'e ble_esp32 \<Rightarrow> 'e ble_esp32" where
  "mp_ble_esp32_gattc_callback ev s = s"

section \<open>The host task\<close>

text \<open>Events are only logged, queued messages are dropped.\<close>

definition mp_ble_esp32_process_event :: "ble_event \<Rightarrow> 'e ble_esp32 \<Rightarrow> 'e ble_esp32" where
  "mp_ble_esp32_process_event ev s = s"

definition mp_ble_esp32_host_step :: "'e ble_esp32 \<Rightarrow> 'e ble_esp32 option" where
  "mp_ble_esp32_host_step s = do {
     (r, q, d) \<leftarrow> mp_mq_receive (ble_event_mq s) 100;
     let s1 = s\<lparr>ble_event_mq := q\<rparr>;
     let s2 = (case d of Some m \<Rightarrow> if r = 0 then mp_ble_esp32_process_event (event_of_bytes m) s1 else s1 | None \<Rightarrow> s1);
     (r', q', d') \<leftarrow> mp_mq_receive (ble_tx_mq s2) 0;
     Some (s2\<lparr>ble_tx_mq := q'\<rparr>) }"

text \<open>The task returns at once when the initialisation fails; otherwise it loops, here for \<open>n\<close> rounds.\<close>

fun esp32_host_rounds :: "nat \<Rightarrow> 'e ble_esp32 \<Rightarrow> 'e ble_esp32 option" where
  "esp32_host_rounds 0 s = Some s"
| "esp32_host_rounds (Suc n) s = do { s1 \<leftarrow> mp_ble_esp32_host_step s; esp32_host_rounds n s1 }"

definition mp_ble_esp32_host_task :: "nat \<Rightarrow> 'e bt_stack \<Rightarrow> 'e ble_esp32 \<Rightarrow> 'e ble_esp32 option" where
  "mp_ble_esp32_host_task n b s = do {
     (r, s1) \<leftarrow> mp_ble_esp32_init b s;
     if r \<noteq> 0 then Some s1 else esp32_host_rounds n (mp_ble_esp32_start_adv b s1) }"

end
