(* ===== verification/BleMgr.thy ===== *)
theory BleMgr
  imports BleEsp32
begin

text \<open>
  The BLE manager \<open>src/ble/ble_mgr.c\<close>: its state over a table of functions of a backend, the ESP32's or the simulation's.
  The callbacks of the application are outputs.  Lines that are logged are left out.
\<close>

section \<open>State\<close>

text \<open>The table of functions as it is before \<open>mp_ble_init\<close> and as each platform fills it.\<close>

datatype 'b ble_backend = No_backend | Sim_backend | Esp32_backend 'b

record 'e ble_mgr =
  ble_state :: ble_state
  conn_params :: ble_conn_params
  event_callback :: bool
  data_callback :: bool
  ble_backend :: "'e bt_stack ble_backend"
  sim_ble_state :: ble_state
  esp32 :: "'e ble_esp32"

datatype ble_data_direction = MP_BLE_DATA_RECEIVED | MP_BLE_DATA_SENT

text \<open>A call of the application: of its event callback, with the address when there is one, or of its data callback.\<close>

datatype ble_out =
    Event_callback u32 u16 "u8 list option" u16
  | Data_callback u16 "u8 list" u16 ble_data_direction

definition ble_mgr_boot :: "'e \<Rightarrow> 'e ble_mgr" where
  "ble_mgr_boot e =
     \<lparr>ble_state = MP_BLE_DISCONNECTED, conn_params = default_conn_params, event_callback = False, data_callback = False,
      ble_backend = No_backend, sim_ble_state = MP_BLE_DISCONNECTED, esp32 = ble_esp32_boot e\<rparr>"

section \<open>The simulation\<close>

definition mp_ble_sim_get_state :: "'e ble_mgr \<Rightarrow> ble_state" where "mp_ble_sim_get_state m = sim_ble_state m"

definition mp_ble_sim_start_adv :: "'e ble_mgr \<Rightarrow> 'e ble_mgr" where
  "mp_ble_sim_start_adv m = m\<lparr>sim_ble_state := MP_BLE_ADVERTISING\<rparr>"

definition mp_ble_sim_stop_adv :: "'e ble_mgr \<Rightarrow> 'e ble_mgr" where
  "mp_ble_sim_stop_adv m = m\<lparr>sim_ble_state := MP_BLE_READY\<rparr>"

section \<open>Operations\<close>

text \<open>The platform is the ESP32 when its stack is given.  The simulation has no \<open>init\<close>.\<close>

definition mp_ble_init :: "'e bt_stack option \<Rightarrow> 'e ble_mgr \<Rightarrow> 'e ble_mgr option" where
  "mp_ble_init plat m =
     (case plat of
        Some b \<Rightarrow>
          do { (r, s) \<leftarrow> mp_ble_esp32_init b (esp32 m);
               let m1 = m\<lparr>ble_backend := Esp32_backend b, esp32 := s\<rparr>;
               Some (m1\<lparr>ble_state := (if r \<noteq> 0 then MP_BLE_ERROR else MP_BLE_READY)\<rparr>) }
      | None \<Rightarrow> Some (m\<lparr>ble_backend := Sim_backend, ble_state := MP_BLE_READY\<rparr>))"

definition mp_ble_deinit :: "'e ble_mgr \<Rightarrow> 'e ble_mgr" where
  "mp_ble_deinit m =
     (case ble_backend m of Esp32_backend b \<Rightarrow> m\<lparr>esp32 := mp_ble_esp32_deinit b (esp32 m)\<rparr> | _ \<Rightarrow> m)
       \<lparr>ble_state := MP_BLE_DISCONNECTED\<rparr>"

definition mp_ble_start_adv :: "'e ble_mgr \<Rightarrow> ble_out list \<times> 'e ble_mgr" where
  "mp_ble_start_adv m =
     (if ble_state m \<noteq> MP_BLE_READY \<and> ble_state m \<noteq> MP_BLE_DISCONNECTED then ([], m)
      else
        let m1 = (case ble_backend m of No_backend \<Rightarrow> m | Sim_backend \<Rightarrow> mp_ble_sim_start_adv m
                  | Esp32_backend b \<Rightarrow> m\<lparr>esp32 := mp_ble_esp32_start_adv b (esp32 m)\<rparr>)
        in (if event_callback m then [Event_callback MP_BLE_EVENT_ADV_STARTED 0 None 0] else [],
            m1\<lparr>ble_state := MP_BLE_ADVERTISING\<rparr>))"

definition mp_ble_stop_adv :: "'e ble_mgr \<Rightarrow> ble_out list \<times> 'e ble_mgr" where
  "mp_ble_stop_adv m =
     (if ble_state m \<noteq> MP_BLE_ADVERTISING then ([], m)
      else
        let m1 = (case ble_backend m of No_backend \<Rightarrow> m | Sim_backend \<Rightarrow> mp_ble_sim_stop_adv m
                  | Esp32_backend b \<Rightarrow> m\<lparr>esp32 := mp_ble_esp32_stop_adv b (esp32 m)\<rparr>)
        in (if event_callback m then [Event_callback MP_BLE_EVENT_ADV_STOPPED 0 None 0] else [],
            m1\<lparr>ble_state := MP_BLE_READY\<rparr>))"

definition mp_ble_get_state :: "'e ble_mgr \<Rightarrow> ble_state" where
  "mp_ble_get_state m =
     (case ble_backend m of No_backend \<Rightarrow> ble_state m | Sim_backend \<Rightarrow> mp_ble_sim_get_state m
      | Esp32_backend b \<Rightarrow> mp_ble_esp32_get_state (esp32 m))"

definition mp_ble_set_conn_params :: "ble_conn_params option \<Rightarrow> 'e ble_mgr \<Rightarrow> 'e ble_mgr" where
  "mp_ble_set_conn_params params m =
     (case params of None \<Rightarrow> m
      | Some p \<Rightarrow>
          (case ble_backend m of Esp32_backend b \<Rightarrow> m\<lparr>esp32 := mp_ble_esp32_set_conn_params params (esp32 m)\<rparr> | _ \<Rightarrow> m)
            \<lparr>conn_params := p\<rparr>)"

definition mp_ble_get_conn_params :: "ble_conn_params option \<Rightarrow> 'e ble_mgr \<Rightarrow> ble_conn_params option" where
  "mp_ble_get_conn_params params m =
     (case params of None \<Rightarrow> None
      | Some p \<Rightarrow>
          (case ble_backend m of Esp32_backend b \<Rightarrow> mp_ble_esp32_get_conn_params params (esp32 m)
           | _ \<Rightarrow> Some (conn_params m)))"

definition mp_ble_send_data :: "u16 \<Rightarrow> u8 list option \<Rightarrow> u16 \<Rightarrow> 'e ble_mgr \<Rightarrow> (int \<times> ble_out list \<times> 'e ble_mgr) option" where
  "mp_ble_send_data conn_handle data len m =
     (if ble_state m \<noteq> MP_BLE_CONNECTED then Some (-1, [], m)
      else
        (case data of None \<Rightarrow> Some (-1, [], m)
         | Some d \<Rightarrow>
             if len = 0 then Some (-1, [], m)
             else
               (case ble_backend m of
                  Esp32_backend b \<Rightarrow>
                    do { (r, s) \<leftarrow> mp_ble_esp32_send_data b conn_handle data len (esp32 m);
                         Some (r, if r > 0 \<and> data_callback m then [Data_callback conn_handle d len MP_BLE_DATA_SENT] else [],
                           m\<lparr>esp32 := s\<rparr>) }
                | _ \<Rightarrow> Some (-1, [], m))))"

definition mp_ble_receive_data ::
  "u8 list option \<Rightarrow> u16 \<Rightarrow> u32 \<Rightarrow> 'e ble_mgr \<Rightarrow> (int \<times> u8 list option \<times> 'e ble_mgr) option" where
  "mp_ble_receive_data data max_len timeout_ms m =
     (if data = None \<or> max_len = 0 then Some (-1, data, m)
      else
        (case ble_backend m of
           Esp32_backend b \<Rightarrow>
             do { (r, d, s) \<leftarrow> mp_ble_esp32_receive_data data max_len timeout_ms (esp32 m); Some (r, d, m\<lparr>esp32 := s\<rparr>) }
         | _ \<Rightarrow> Some (-1, data, m)))"

definition mp_ble_get_next_anchor_ticks :: "'e ble_mgr \<Rightarrow> u32" where
  "mp_ble_get_next_anchor_ticks m =
     (case ble_backend m of Esp32_backend b \<Rightarrow> mp_ble_esp32_get_next_anchor_ticks (esp32 m) | _ \<Rightarrow> 0xFFFFFFFF)"

definition mp_ble_set_event_callback :: "bool \<Rightarrow> 'e ble_mgr \<Rightarrow> 'e ble_mgr" where
  "mp_ble_set_event_callback c m = m\<lparr>event_callback := c\<rparr>"

definition mp_ble_set_data_callback :: "bool \<Rightarrow> 'e ble_mgr \<Rightarrow> 'e ble_mgr" where
  "mp_ble_set_data_callback c m = m\<lparr>data_callback := c\<rparr>"

definition mp_ble_get_rx_mq :: "'e ble_mgr \<Rightarrow> mp_mq option" where
  "mp_ble_get_rx_mq m = (case ble_backend m of Esp32_backend b \<Rightarrow> Some (ble_rx_mq (esp32 m)) | _ \<Rightarrow> None)"

definition mp_ble_get_tx_mq :: "'e ble_mgr \<Rightarrow> mp_mq option" where
  "mp_ble_get_tx_mq m = (case ble_backend m of Esp32_backend b \<Rightarrow> Some (ble_tx_mq (esp32 m)) | _ \<Rightarrow> None)"

definition mp_ble_get_event_mq :: "'e ble_mgr \<Rightarrow> mp_mq option" where
  "mp_ble_get_event_mq m = (case ble_backend m of Esp32_backend b \<Rightarrow> Some (ble_event_mq (esp32 m)) | _ \<Rightarrow> None)"

section \<open>The host task\<close>

definition ble_report :: "ble_event \<Rightarrow> 'e ble_mgr \<Rightarrow> ble_out list" where
  "ble_report ev m =
     (if event_callback m
      then [Event_callback (ev_type ev) (ev_conn_handle ev) (Some (ev_address ev)) (ev_data_length ev)] else [])"

text \<open>\<open>stk\<close> is what the 256 bytes of the data buffer hold before; the length that is compared is the result of the
  receive, converted to 16 bits for the callback.\<close>

definition ble_deliver_data :: "u8 list \<Rightarrow> ble_event \<Rightarrow> 'e ble_mgr \<Rightarrow> (ble_out list \<times> 'e ble_mgr) option" where
  "ble_deliver_data stk ev m =
     (if \<not> data_callback m then Some ([], m)
      else do {
        (len, data, m1) \<leftarrow> mp_ble_receive_data (Some stk) 256 0 m;
        Some (case data of
                Some d \<Rightarrow> if len > 0 then [Data_callback (ev_conn_handle ev) d (of_int len) MP_BLE_DATA_RECEIVED] else []
              | None \<Rightarrow> [], m1) })"

definition ble_handle_event :: "u8 list \<Rightarrow> ble_event \<Rightarrow> 'e ble_mgr \<Rightarrow> (ble_out list \<times> 'e ble_mgr) option" where
  "ble_handle_event stk ev m =
     (if ev_type ev = MP_BLE_EVENT_ADV_STARTED \<or> ev_type ev = MP_BLE_EVENT_ADV_STOPPED then Some (ble_report ev m, m)
      else if ev_type ev = MP_BLE_EVENT_CONNECTED then Some (ble_report ev m, m\<lparr>ble_state := MP_BLE_CONNECTED\<rparr>)
      else if ev_type ev = MP_BLE_EVENT_DISCONNECTED
      then (let (out, m1) = mp_ble_start_adv (m\<lparr>ble_state := MP_BLE_DISCONNECTED\<rparr>) in Some (ble_report ev m @ out, m1))
      else if ev_type ev = MP_BLE_EVENT_DATA_RECEIVED then ble_deliver_data stk ev m
      else if ev_type ev = MP_BLE_EVENT_CONN_PARAM_UPDATE then Some (ble_report ev m, m)
      else Some ([], m))"

definition mp_ble_host_step :: "u8 list \<Rightarrow> 'e ble_mgr \<Rightarrow> (ble_out list \<times> 'e ble_mgr) option" where
  "mp_ble_host_step stk m =
     (case mp_ble_get_event_mq m of
        None \<Rightarrow> Some ([], m)
      | Some q \<Rightarrow>
          do { (r, q', d) \<leftarrow> mp_mq_receive q 100;
               let m1 = m\<lparr>esp32 := (esp32 m)\<lparr>ble_event_mq := q'\<rparr>\<rparr>;
               (case d of Some b \<Rightarrow> if r = 0 then ble_handle_event stk (event_of_bytes b) m1 else Some ([], m1)
                | None \<Rightarrow> Some ([], m1)) })"

text \<open>\<open>n\<close> rounds of its loop, with what the application is told.\<close>

fun ble_host_rounds :: "nat \<Rightarrow> u8 list \<Rightarrow> 'e ble_mgr \<Rightarrow> (ble_out list \<times> 'e ble_mgr) option" where
  "ble_host_rounds 0 stk m = Some ([], m)"
| "ble_host_rounds (Suc n) stk m =
     do { (o1, m1) \<leftarrow> mp_ble_host_step stk m; (o2, m2) \<leftarrow> ble_host_rounds n stk m1; Some (o1 @ o2, m2) }"

definition mp_ble_host_task :: "nat \<Rightarrow> u8 list \<Rightarrow> 'e bt_stack option \<Rightarrow> 'e ble_mgr \<Rightarrow> (ble_out list \<times> 'e ble_mgr) option" where
  "mp_ble_host_task n stk plat m = do {
     m1 \<leftarrow> mp_ble_init plat m;
     let (o1, m2) = mp_ble_start_adv m1;
     (o2, m3) \<leftarrow> ble_host_rounds n stk m2;
     Some (o1 @ o2, m3) }"

end
