(* ===== verification/Ble_Correct.thy ===== *)
theory Ble_Correct
  imports BleMgr
begin

text \<open>
  What the stack reports reaches the application through the event queue, in order, except the data that is received.
\<close>

section \<open>Events in the queue\<close>

definition event_ok :: "ble_event \<Rightarrow> bool" where
  "event_ok e \<longleftrightarrow> length (ev_address e) = 6 \<and> length (ev_padding e) = 2"

lemma event_bytes_length: "event_ok e \<Longrightarrow> length (event_bytes e) = 20"
  by (simp add: event_bytes_def event_ok_def)

lemma event_roundtrip:
  assumes "event_ok e"
  shows "event_of_bytes (event_bytes e) = e"
proof -
  have 4: "of_nat (unat w mod 4294967296) = w" for w :: u32 using unat_less_2p32 [of w] by simp
  have 2: "of_nat (unat w mod 65536) = w" for w :: u16 using unat_bound [of w] by simp
  show ?thesis
    using assms by (cases e) (simp add: event_of_bytes_def event_bytes_def event_ok_def le_val_bytes 4 2)
qed

definition ev_queue :: "mp_mq \<Rightarrow> bool" where
  "ev_queue q \<longleftrightarrow> mq_inv q \<and> msg_size q = 20 \<and> max_msgs q = 32"

lemma ev_queue_items: "ev_queue q \<Longrightarrow> length (mq_items q) \<le> 32"
  by (auto simp: ev_queue_def mq_inv_def word_le_nat_alt)

lemma post_event_queue:
  assumes q: "ev_queue (ble_event_mq s)" and e: "event_ok e"
  obtains q' where "post_event e s = Some (s\<lparr>ble_event_mq := q'\<rparr>)" "ev_queue q'"
    "mq_items q' = take 32 (mq_items (ble_event_mq s) @ [event_bytes e])"
proof (cases "cur_msgs (ble_event_mq s) < max_msgs (ble_event_mq s)")
  case True
  have f: "mq_fits (ble_event_mq s) (event_bytes e)" using q event_bytes_length [OF e] by (simp add: mq_fits_def ev_queue_def)
  have i: "mq_inv (ble_event_mq s)" using q by (simp add: ev_queue_def)
  obtain q' where q': "mp_mq_send (ble_event_mq s) (event_bytes e) 0 = Some (0, q')" "mq_inv q'"
      "mq_items q' = mq_items (ble_event_mq s) @ [event_bytes e]" "max_msgs q' = max_msgs (ble_event_mq s)"
      "msg_size q' = msg_size (ble_event_mq s)"
    using send_room [OF i f True] by blast
  have "ev_queue q'" using q' q by (simp add: ev_queue_def)
  then show thesis using q' ev_queue_items [of q'] by (intro that [of q']) (simp_all add: post_event_def)
next
  case False
  have "length (mq_items (ble_event_mq s)) = 32"
    using False q by (auto simp: ev_queue_def mq_inv_def word_le_nat_alt word_less_nat_alt)
  then show thesis using q send_full [OF False] by (intro that [of "ble_event_mq s"]) (simp_all add: post_event_def)
qed

section \<open>Reports of the stack\<close>

text \<open>The event that a report puts in the queue, if any.\<close>

fun gap_posts :: "ble_event \<times> gap_event \<Rightarrow> ble_event list" where
  "gap_posts (stk, ESP_GAP_BLE_ADV_START_COMPLETE) = [stk\<lparr>ev_type := MP_BLE_EVENT_ADV_STARTED\<rparr>]"
| "gap_posts (stk, ESP_GAP_BLE_ADV_STOP_COMPLETE) = [stk\<lparr>ev_type := MP_BLE_EVENT_ADV_STOPPED\<rparr>]"
| "gap_posts (stk, ESP_GAP_BLE_CONNECT h a) =
     [stk\<lparr>ev_type := MP_BLE_EVENT_CONNECTED, ev_conn_handle := h, ev_address := a\<rparr>]"
| "gap_posts (stk, ESP_GAP_BLE_DISCONNECT h) = [stk\<lparr>ev_type := MP_BLE_EVENT_DISCONNECTED, ev_conn_handle := h\<rparr>]"
| "gap_posts (stk, ESP_GAP_BLE_CONN_PARAM_UPDATE h) =
     [stk\<lparr>ev_type := MP_BLE_EVENT_CONN_PARAM_UPDATE, ev_conn_handle := h\<rparr>]"
| "gap_posts _ = []"

fun gap_ok :: "ble_event \<times> gap_event \<Rightarrow> bool" where
  "gap_ok (stk, ESP_GAP_BLE_CONNECT h a) = (event_ok stk \<and> length a = 6)"
| "gap_ok (stk, g) = event_ok stk"

fun ble_gap_run :: "'e bt_stack \<Rightarrow> (ble_event \<times> gap_event) list \<Rightarrow> 'e ble_esp32 \<Rightarrow> 'e ble_esp32 option" where
  "ble_gap_run b [] s = Some s"
| "ble_gap_run b ((stk, g) # gs) s = do { s' \<leftarrow> mp_ble_esp32_gap_callback b stk g s; ble_gap_run b gs s' }"

lemma start_adv_queue [simp]: "ble_event_mq (mp_ble_esp32_start_adv b s) = ble_event_mq s"
  by (simp add: mp_ble_esp32_start_adv_def Let_def split: prod.split)

lemma gap_callback_queue:
  assumes q: "ev_queue (ble_event_mq s)" and g: "gap_ok (stk, g)"
  shows "\<exists>s'. mp_ble_esp32_gap_callback b stk g s = Some s' \<and> ev_queue (ble_event_mq s') \<and>
    mq_items (ble_event_mq s') = take 32 (mq_items (ble_event_mq s) @ map event_bytes (gap_posts (stk, g)))"
proof -
  have post: "\<exists>s'. post_event e (s\<lparr>e_state := x\<rparr>) = Some s' \<and> ev_queue (ble_event_mq s') \<and>
      mq_items (ble_event_mq s') = take 32 (mq_items (ble_event_mq s) @ [event_bytes e])" if "event_ok e" for e x
  proof -
    note ok = that
    have "ev_queue (ble_event_mq (s\<lparr>e_state := x\<rparr>))" using q by simp
    then obtain q' where "post_event e (s\<lparr>e_state := x\<rparr>) = Some ((s\<lparr>e_state := x\<rparr>)\<lparr>ble_event_mq := q'\<rparr>)" "ev_queue q'"
        "mq_items q' = take 32 (mq_items (ble_event_mq (s\<lparr>e_state := x\<rparr>)) @ [event_bytes e])"
      by (rule post_event_queue [OF _ ok])
    then show ?thesis by simp
  qed
  have keep: "take 32 (mq_items (ble_event_mq s)) = mq_items (ble_event_mq s)" using ev_queue_items [OF q] by simp
  have e: "event_ok stk" using g by (cases g) simp_all
  show ?thesis
  proof (cases g)
    case ESP_GAP_BLE_ADV_START_COMPLETE
    then show ?thesis using post [of "stk\<lparr>ev_type := MP_BLE_EVENT_ADV_STARTED\<rparr>"] e by (simp add: event_ok_def)
  next
    case ESP_GAP_BLE_ADV_STOP_COMPLETE
    then show ?thesis using post [of "stk\<lparr>ev_type := MP_BLE_EVENT_ADV_STOPPED\<rparr>"] e by (simp add: event_ok_def)
  next
    case (ESP_GAP_BLE_CONNECT h a)
    then show ?thesis
      using post [of "stk\<lparr>ev_type := MP_BLE_EVENT_CONNECTED, ev_conn_handle := h, ev_address := a\<rparr>"] e g
      by (simp add: event_ok_def)
  next
    case (ESP_GAP_BLE_DISCONNECT h)
    then show ?thesis
      using post [of "stk\<lparr>ev_type := MP_BLE_EVENT_DISCONNECTED, ev_conn_handle := h\<rparr>" MP_BLE_DISCONNECTED] e
      by (auto simp: event_ok_def)
  next
    case (ESP_GAP_BLE_CONN_PARAM_UPDATE h)
    then show ?thesis
      using post [of "stk\<lparr>ev_type := MP_BLE_EVENT_CONN_PARAM_UPDATE, ev_conn_handle := h\<rparr>" "e_state s"] e
      by (simp add: event_ok_def)
  qed (use q keep in simp_all)
qed

lemma take_take_append: "take n (take n xs @ ys) = take n (xs @ ys)"
  by (cases "length xs \<le> n") simp_all

lemma ble_gap_run_queue:
  assumes "ev_queue (ble_event_mq s)" and "\<forall>g \<in> set gs. gap_ok g"
  shows "\<exists>s'. ble_gap_run b gs s = Some s' \<and> ev_queue (ble_event_mq s') \<and>
    mq_items (ble_event_mq s') = take 32 (mq_items (ble_event_mq s) @ map event_bytes (concat (map gap_posts gs)))"
  using assms
proof (induction gs arbitrary: s)
  case Nil
  then show ?case using ev_queue_items [of "ble_event_mq s"] by simp
next
  case (Cons x gs)
  obtain stk g where x: "x = (stk, g)" by force
  obtain s1 where s1: "mp_ble_esp32_gap_callback b stk g s = Some s1" "ev_queue (ble_event_mq s1)"
      "mq_items (ble_event_mq s1) = take 32 (mq_items (ble_event_mq s) @ map event_bytes (gap_posts (stk, g)))"
    using gap_callback_queue [OF Cons.prems(1), of stk g b] Cons.prems(2) x by auto
  obtain s2 where s2: "ble_gap_run b gs s1 = Some s2" "ev_queue (ble_event_mq s2)"
      "mq_items (ble_event_mq s2) = take 32 (mq_items (ble_event_mq s1) @ map event_bytes (concat (map gap_posts gs)))"
    using Cons.IH [OF s1(2)] Cons.prems(2) by auto
  have "mq_items (ble_event_mq s2) = take 32 (mq_items (ble_event_mq s) @ map event_bytes (concat (map gap_posts (x # gs))))"
    unfolding s2(3) s1(3) take_take_append x by (simp only: append_assoc list.map concat.simps map_append)
  then show ?case using s1(1) s2(1,2) x by simp
qed

section \<open>What the application is told\<close>

definition event_report :: "ble_event \<Rightarrow> ble_out list" where
  "event_report e =
     Event_callback (ev_type e) (ev_conn_handle e) (Some (ev_address e)) (ev_data_length e) #
     (if ev_type e = MP_BLE_EVENT_DISCONNECTED then [Event_callback MP_BLE_EVENT_ADV_STARTED 0 None 0] else [])"

definition event_state :: "ble_event \<Rightarrow> ble_state \<Rightarrow> ble_state" where
  "event_state e st =
     (if ev_type e = MP_BLE_EVENT_CONNECTED then MP_BLE_CONNECTED
      else if ev_type e = MP_BLE_EVENT_DISCONNECTED then MP_BLE_ADVERTISING else st)"

definition gap_type :: "ble_event \<Rightarrow> bool" where
  "gap_type e \<longleftrightarrow> ev_type e \<in> {MP_BLE_EVENT_ADV_STARTED, MP_BLE_EVENT_ADV_STOPPED, MP_BLE_EVENT_CONNECTED,
     MP_BLE_EVENT_DISCONNECTED, MP_BLE_EVENT_CONN_PARAM_UPDATE}"

lemma gap_posts_ok: "gap_ok g \<Longrightarrow> e \<in> set (gap_posts g) \<Longrightarrow> event_ok e \<and> gap_type e"
  by (cases g rule: gap_posts.cases) (auto simp: event_ok_def gap_type_def)

definition mgr_on :: "'e bt_stack \<Rightarrow> 'e ble_mgr \<Rightarrow> bool" where
  "mgr_on b m \<longleftrightarrow> ble_backend m = Esp32_backend b \<and> event_callback m \<and> ev_queue (ble_event_mq (esp32 m))"

lemma handle_event_report:
  assumes m: "mgr_on b m" and t: "gap_type e"
  shows "\<exists>m'. ble_handle_event stk e m = Some (event_report e, m') \<and> mgr_on b m' \<and>
    mq_items (ble_event_mq (esp32 m')) = mq_items (ble_event_mq (esp32 m)) \<and> ble_state m' = event_state e (ble_state m)"
proof (cases "ev_type e = MP_BLE_EVENT_DISCONNECTED")
  case True
  have b: "ble_backend m = Esp32_backend b" "event_callback m" using m by (simp_all add: mgr_on_def)
  let ?m = "m\<lparr>ble_state := MP_BLE_ADVERTISING, esp32 := mp_ble_esp32_start_adv b (esp32 m)\<rparr>"
  have "ble_handle_event stk e m = Some (event_report e, ?m)"
    using True b by (cases m) (simp add: ble_handle_event_def ble_report_def event_report_def mp_ble_start_adv_def ble_event_types)
  moreover have "mgr_on b ?m" using m by (simp add: mgr_on_def)
  ultimately show ?thesis using True by (simp add: event_state_def ble_event_types)
next
  case False
  have on: "mgr_on b (m\<lparr>ble_state := st\<rparr>)" for st using m by (simp add: mgr_on_def)
  have c: "ble_report e m = event_report e" using m False by (simp add: ble_report_def event_report_def mgr_on_def)
  show ?thesis
  proof (cases "ev_type e = MP_BLE_EVENT_CONNECTED")
    case True
    then show ?thesis using on c by (simp add: ble_handle_event_def event_state_def ble_event_types)
  next
    case nc: False
    then have "ble_handle_event stk e m = Some (event_report e, m)"
      using False t c unfolding ble_handle_event_def gap_type_def ble_event_types by auto
    then show ?thesis using m False nc by (simp add: event_state_def)
  qed
qed

lemma host_step_report:
  assumes m: "mgr_on b m" and q: "mq_items (ble_event_mq (esp32 m)) = map event_bytes (e # es)"
    and e: "event_ok e" "gap_type e"
  shows "\<exists>m'. mp_ble_host_step stk m = Some (event_report e, m') \<and> mgr_on b m' \<and>
    mq_items (ble_event_mq (esp32 m')) = map event_bytes es \<and> ble_state m' = event_state e (ble_state m)"
proof -
  let ?q = "ble_event_mq (esp32 m)"
  have i: "mq_inv ?q" using m by (simp add: mgr_on_def ev_queue_def)
  have "length (mq_items ?q) \<noteq> 0" using q by simp
  then have ne: "cur_msgs ?q \<noteq> 0" by auto
  obtain q' where q': "mp_mq_receive ?q 100 = Some (0, q', Some (event_bytes e))" "mq_inv q'" "mq_items q' = map event_bytes es"
      "max_msgs q' = max_msgs ?q" "msg_size q' = msg_size ?q"
    by (rule receive_item [OF i ne, of 100]) (simp add: q)
  let ?m = "m\<lparr>esp32 := (esp32 m)\<lparr>ble_event_mq := q'\<rparr>\<rparr>"
  have on: "mgr_on b ?m" using m q' by (simp add: mgr_on_def ev_queue_def)
  have "mp_ble_host_step stk m = ble_handle_event stk e ?m"
    using m q'(1) event_roundtrip [OF e(1)] by (simp add: mp_ble_host_step_def mp_ble_get_event_mq_def mgr_on_def)
  then show ?thesis using handle_event_report [OF on e(2), of stk] q'(3) by simp
qed

lemma host_step_idle:
  assumes m: "mgr_on b m" and q: "mq_items (ble_event_mq (esp32 m)) = []"
  shows "mp_ble_host_step stk m = Some ([], m)"
proof -
  have "length (mq_items (ble_event_mq (esp32 m))) = 0" using q by simp
  then have "cur_msgs (ble_event_mq (esp32 m)) = 0" by (simp add: unat_eq_0)
  then show ?thesis
    using m by (cases m) (simp add: mp_ble_host_step_def mp_ble_get_event_mq_def mgr_on_def receive_empty)
qed

lemma host_rounds_report:
  assumes "mgr_on b m" and "mq_items (ble_event_mq (esp32 m)) = map event_bytes es" and "length es \<le> n"
    and "\<forall>e \<in> set es. event_ok e \<and> gap_type e"
  shows "\<exists>m'. ble_host_rounds n stk m = Some (concat (map event_report es), m') \<and> ble_state m' = fold event_state es (ble_state m)"
  using assms
proof (induction n arbitrary: m es)
  case (Suc n)
  show ?case
  proof (cases es)
    case Nil
    then show ?thesis using Suc.IH [of m "[]"] Suc.prems host_step_idle [of b m stk] by simp
  next
    case (Cons e es')
    obtain m1 where m1: "mp_ble_host_step stk m = Some (event_report e, m1)" "mgr_on b m1"
        "mq_items (ble_event_mq (esp32 m1)) = map event_bytes es'" "ble_state m1 = event_state e (ble_state m)"
      using host_step_report [of b m e es' stk] Suc.prems Cons by auto
    then show ?thesis using Suc.IH [OF m1(2,3)] Suc.prems Cons by auto
  qed
qed simp

lemma ble_init_on:
  assumes "mp_ble_init (Some b) (ble_mgr_boot e) = Some m" and "ble_state m = MP_BLE_READY"
  shows "mgr_on b (m\<lparr>event_callback := True\<rparr>)" "mq_items (ble_event_mq (esp32 m)) = []"
proof -
  obtain r s where s: "mp_ble_esp32_init b (ble_esp32_boot e) = Some (r, s)" and m: "ble_backend m = Esp32_backend b" "esp32 m = s"
      "r = 0"
    using assms by (auto simp: mp_ble_init_def ble_mgr_boot_def Let_def split: bind_splits if_splits)
  let ?q = "static_mq_init sizeof_ble_event 32 (static_mq (32 * unat sizeof_ble_event))"
  have "ble_event_mq s = ?q"
    using s m(3) unfolding mp_ble_esp32_init_def ble_esp32_boot_def
    by (auto simp: Let_def bt_do_def mp_ble_esp32_gatt_server_init_def split: bind_splits if_splits prod.splits)
  moreover have "ev_queue ?q" "cur_msgs ?q = 0"
    by (simp_all add: ev_queue_def mq_inv_def static_mq_init_def mp_mq_init_def static_mq_def sizeof_ble_event_def)
  ultimately show "mgr_on b (m\<lparr>event_callback := True\<rparr>)" "mq_items (ble_event_mq (esp32 m)) = []"
    using m by (simp_all add: mgr_on_def mq_items_def)
qed

text \<open>
  C32. After a successful start on the ESP32, what the stack reports (advertising started or stopped, connections,
  disconnections, changed parameters) reaches the application: the host task takes the first 32 events, which the queue
  keeps, in their order and unchanged, and calls the event callback for each, and after a disconnection once more for the
  advertising it restarts; the state of the manager follows the connections.
\<close>

theorem ble_events_in_order:
  assumes "mp_ble_init (Some b) (ble_mgr_boot e) = Some m" and "ble_state m = MP_BLE_READY"
    and "\<forall>g \<in> set gs. gap_ok g"
  shows "\<exists>s m'. ble_gap_run b gs (esp32 m) = Some s \<and>
    ble_host_rounds 32 stk (m\<lparr>event_callback := True, esp32 := s\<rparr>) =
      Some (concat (map event_report (take 32 (concat (map gap_posts gs)))), m') \<and>
    ble_state m' = fold event_state (take 32 (concat (map gap_posts gs))) MP_BLE_READY"
proof -
  let ?es = "take 32 (concat (map gap_posts gs))"
  note on = ble_init_on [OF assms(1,2)]
  obtain s where s: "ble_gap_run b gs (esp32 m) = Some s" "ev_queue (ble_event_mq s)"
      "mq_items (ble_event_mq s) = map event_bytes ?es"
    using ble_gap_run_queue [of "esp32 m" gs b] on assms(3) by (auto simp: mgr_on_def take_map)
  have "mgr_on b (m\<lparr>event_callback := True, esp32 := s\<rparr>)" using on(1) s(2) by (simp add: mgr_on_def)
  moreover have "\<forall>e \<in> set ?es. event_ok e \<and> gap_type e"
    using gap_posts_ok assms(3) by (fastforce dest!: in_set_takeD)
  ultimately show ?thesis
    using host_rounds_report [of b "m\<lparr>event_callback := True, esp32 := s\<rparr>" ?es 32 stk] s assms(2) by auto
qed

text \<open>A stack for the witness, whose calls all succeed.\<close>

definition demo_bt :: "unit bt_stack" where
  "demo_bt = \<lparr>config_bt_enable = True, bt_call = (\<lambda>c e. (0, e)), bt_dev_get_address = (\<lambda>e. (0, [1, 2, 3, 4, 5, 6], e)),
     bt_malloc = (\<lambda>n e. (True, e))\<rparr>"

definition demo_stk :: ble_event where
  "demo_stk = \<lparr>ev_type = 9, ev_conn_handle = 7, ev_address = [0, 0, 0, 0, 0, 0], ev_data_length = 5, ev_padding = [0, 0],
     ev_data = 0\<rparr>"

lemma demo_bt_init: "\<exists>m. mp_ble_init (Some demo_bt) (ble_mgr_boot ()) = Some m \<and> ble_state m = MP_BLE_READY"
  by (simp add: mp_ble_init_def ble_mgr_boot_def mp_ble_esp32_init_def demo_bt_def ble_start_calls_def ble_esp32_boot_def
      mem_write_def Let_def)

lemma ble_events_in_order_witness:
  "\<exists>m s m'. mp_ble_init (Some demo_bt) (ble_mgr_boot ()) = Some m \<and>
     ble_gap_run demo_bt [(demo_stk, ESP_GAP_BLE_CONNECT 3 [1, 2, 3, 4, 5, 6]), (demo_stk, ESP_GAP_BLE_DISCONNECT 3)] (esp32 m) =
       Some s \<and>
     ble_host_rounds 32 [] (m\<lparr>event_callback := True, esp32 := s\<rparr>) =
       Some ([Event_callback 2 3 (Some [1, 2, 3, 4, 5, 6]) 5, Event_callback 3 3 (Some [0, 0, 0, 0, 0, 0]) 5,
         Event_callback 0 0 None 0], m') \<and>
     ble_state m' = MP_BLE_ADVERTISING"
proof -
  obtain m where m: "mp_ble_init (Some demo_bt) (ble_mgr_boot ()) = Some m" "ble_state m = MP_BLE_READY"
    using demo_bt_init by blast
  show ?thesis
    using ble_events_in_order [OF m, of "[(demo_stk, ESP_GAP_BLE_CONNECT 3 [1, 2, 3, 4, 5, 6]), (demo_stk, ESP_GAP_BLE_DISCONNECT 3)]" "[]"] m(1)
    by (simp add: event_ok_def demo_stk_def event_report_def event_state_def ble_event_types)
qed

section \<open>Received data\<close>

lemma receive_data_result:
  assumes "mp_ble_receive_data d n t m = Some (r, d', m')"
  shows "r \<le> 0"
proof -
  have q: "r \<le> 0" if "mp_mq_receive q t = Some (r, q', x)" for q t r q' x
    using that by (auto simp: mp_mq_receive_def split: if_splits bind_splits)
  show ?thesis
    using assms by (auto simp: mp_ble_receive_data_def mp_ble_esp32_receive_data_def split: if_splits ble_backend.splits
        bind_splits option.splits dest: q)
qed

lemma handle_event_no_data:
  assumes "ble_handle_event stk ev m = Some (outs, m')"
  shows "Data_callback h d n MP_BLE_DATA_RECEIVED \<notin> set outs"
  using assms
  by (auto simp: ble_handle_event_def ble_report_def ble_deliver_data_def mp_ble_start_adv_def Let_def
      split: if_splits bind_splits option.splits prod.splits dest!: receive_data_result)

lemma host_step_no_data:
  assumes "mp_ble_host_step stk m = Some (outs, m')"
  shows "Data_callback h d n MP_BLE_DATA_RECEIVED \<notin> set outs"
proof (cases "mp_ble_get_event_mq m")
  case (Some q)
  then obtain r q' x where r: "mp_mq_receive q 100 = Some (r, q', x)"
    using assms by (auto simp: mp_ble_host_step_def split: bind_splits)
  let ?m = "m\<lparr>esp32 := (esp32 m)\<lparr>ble_event_mq := q'\<rparr>\<rparr>"
  consider "outs = []" | b where "ble_handle_event stk (event_of_bytes b) ?m = Some (outs, m')"
    using assms Some r by (auto simp: mp_ble_host_step_def Let_def split: option.splits if_splits)
  then show ?thesis
  proof cases
    case 2
    then show ?thesis by (rule handle_event_no_data)
  qed simp
qed (use assms in \<open>simp add: mp_ble_host_step_def\<close>)

lemma host_rounds_no_data:
  "ble_host_rounds k stk m = Some (outs, m') \<Longrightarrow> Data_callback h d n MP_BLE_DATA_RECEIVED \<notin> set outs"
proof (induction k arbitrary: m outs)
  case (Suc k)
  then obtain o1 m1 o2 where r: "mp_ble_host_step stk m = Some (o1, m1)" "ble_host_rounds k stk m1 = Some (o2, m')"
      and "outs = o1 @ o2"
    by (auto split: bind_splits)
  then show ?case using Suc.IH [OF r(2)] host_step_no_data [OF r(1)] by simp
qed simp

text \<open>
  Data that a peer writes never reaches the application.  A write shorter than 247 bytes is copied to a block of its
  own length, from which the queue then reads 247: the call has no defined result.  And whatever is queued, the host task
  never calls the data callback for received data, because the queue returns 0 where it expects the length.
\<close>

theorem ble_received_data_lost:
  assumes "0 < len" and "len < MP_BLE_ESP32_MTU" and "fst (bt_malloc b (unat len) (bt s))"
    and "cur_msgs (ble_rx_mq s) < max_msgs (ble_rx_mq s)" and "msg_size (ble_rx_mq s) = ucast MP_BLE_ESP32_MTU"
  shows "mp_ble_esp32_gatts_callback b stk (ESP_GATTS_WRITE attr conn len (Some v)) s = None \<and>
    (case ble_host_rounds n buf m of None \<Rightarrow> True | Some r \<Rightarrow> Data_callback h d k MP_BLE_DATA_RECEIVED \<notin> set (fst r))"
proof
  have u: "unat len < 247" using assms(2) by (simp add: MP_BLE_ESP32_MTU_def word_less_nat_alt)
  obtain e where e: "bt_malloc b (unat len) (bt s) = (True, e)" using assms(3) by (metis eq_fst_iff)
  have "forward_write b len (Some v) s = None"
  proof (cases "mem_read v 0 (unat len)")
    case None
    then show ?thesis using assms(1) e by (simp add: forward_write_def)
  next
    case (Some w)
    then have "length w = unat len" by (auto simp: mem_read_def split: if_splits)
    then have "mem_read w 0 (unat (msg_size (ble_rx_mq s))) = None"
      using u assms(5) by (simp add: mem_read_def MP_BLE_ESP32_MTU_def)
    then show ?thesis
      using assms(1) e Some assms(4) by (simp add: forward_write_def mp_mq_send_def not_le [symmetric])
  qed
  then show "mp_ble_esp32_gatts_callback b stk (ESP_GATTS_WRITE attr conn len (Some v)) s = None" by simp
next
  show "case ble_host_rounds n buf m of None \<Rightarrow> True | Some r \<Rightarrow> Data_callback h d k MP_BLE_DATA_RECEIVED \<notin> set (fst r)"
    using host_rounds_no_data [of n buf m] by (auto split: option.split)
qed

definition demo_esp :: "unit ble_esp32" where
  "demo_esp = (ble_esp32_boot ())\<lparr>ble_rx_mq := static_mq_init (ucast MP_BLE_ESP32_MTU) 32 (static_mq 7904)\<rparr>"

lemma ble_received_data_lost_witness:
  "mp_ble_esp32_gatts_callback demo_bt demo_stk (ESP_GATTS_WRITE 1 3 2 (Some [65, 66])) demo_esp = None \<and>
   (case ble_host_rounds 9 (replicate 256 0) ((ble_mgr_boot ())\<lparr>ble_backend := Esp32_backend demo_bt, esp32 := demo_esp\<rparr>) of
      None \<Rightarrow> True | Some r \<Rightarrow> Data_callback 3 [65, 66] 2 MP_BLE_DATA_RECEIVED \<notin> set (fst r))"
  by (rule ble_received_data_lost)
    (simp_all add: MP_BLE_ESP32_MTU_def demo_bt_def demo_esp_def static_mq_init_def mp_mq_init_def static_mq_def)

end
