(* ===== verification/Wifi.thy ===== *)
theory Wifi
  imports Socket
begin

text \<open>
  The Wi-Fi driver \<open>src/network/wifi.c\<close>: a state machine over the Wi-Fi driver of ESP-IDF, a parameter, or over nothing on
  the other platforms.  What the driver reports is given to the event handler; the callbacks of the application are
  outputs.  Lines that are logged are left out.
\<close>

section \<open>Types\<close>

datatype wifi_state =
    MP_WIFI_DISCONNECTED | MP_WIFI_READY | MP_WIFI_CONNECTING | MP_WIFI_CONNECTED | MP_WIFI_AP_MODE | MP_WIFI_SCANNING
  | MP_WIFI_ERROR

datatype wifi_authmode =
    MP_WIFI_AUTH_OPEN | MP_WIFI_AUTH_WEP | MP_WIFI_AUTH_WPA_PSK | MP_WIFI_AUTH_WPA2_PSK | MP_WIFI_AUTH_WPA_WPA2_PSK
  | MP_WIFI_AUTH_WPA2_ENTERPRISE | MP_WIFI_AUTH_WPA3_PSK | MP_WIFI_AUTH_WPA2_WPA3_PSK

datatype wifi_auth_mode_t =
    WIFI_AUTH_OPEN | WIFI_AUTH_WEP | WIFI_AUTH_WPA_PSK | WIFI_AUTH_WPA2_PSK | WIFI_AUTH_WPA_WPA2_PSK
  | WIFI_AUTH_WPA2_ENTERPRISE | WIFI_AUTH_WPA3_PSK | WIFI_AUTH_WPA2_WPA3_PSK | WIFI_AUTH_OTHER int

text \<open>\<open>char ssid[32]\<close> and \<open>char password[64]\<close> are arrays of bytes, terminated or not.\<close>

record wifi_config =
  cfg_ssid :: "u8 list"
  cfg_password :: "u8 list"
  cfg_bssid :: "u8 list"
  cfg_channel :: u8
  cfg_authmode :: wifi_authmode

record wifi_ap_config =
  apc_ssid :: "u8 list"
  apc_password :: "u8 list"
  apc_channel :: u8
  apc_authmode :: wifi_authmode
  apc_max_connections :: u8
  apc_hidden :: bool

record wifi_status =
  st_connected :: bool
  st_rssi :: int
  st_channel :: u8
  st_bssid :: "u8 list"
  st_ip_addr :: u32
  st_netmask :: u32
  st_gateway :: u32

record wifi_ap_info =
  ap_ssid :: "u8 list"
  ap_rssi :: int
  ap_channel :: u8
  ap_authmode :: wifi_authmode
  ap_bssid :: "u8 list"

datatype wifi_event_type =
    MP_WIFI_EVENT_CONNECTED | MP_WIFI_EVENT_DISCONNECTED | MP_WIFI_EVENT_GOT_IP | MP_WIFI_EVENT_LOST_IP
  | MP_WIFI_EVENT_AP_STARTED | MP_WIFI_EVENT_AP_STOPPED | MP_WIFI_EVENT_AP_STA_CONNECTED
  | MP_WIFI_EVENT_AP_STA_DISCONNECTED | MP_WIFI_EVENT_SCAN_DONE

section \<open>The driver of ESP-IDF\<close>

record esp_sta_config =
  sta_ssid :: "u8 list"
  sta_password :: "u8 list"
  sta_authmode :: wifi_auth_mode_t

record esp_ap_config =
  eap_ssid :: "u8 list"
  eap_ssid_len :: u8
  eap_channel :: u8
  eap_password :: "u8 list"
  eap_max_connection :: u8
  eap_authmode :: wifi_auth_mode_t

datatype wifi_call =
    Nvs_flash_init
  | Wifi_init
  | Event_loop_create_default
  | Register_wifi_handler
  | Register_ip_handler
  | Wifi_set_mode_sta
  | Wifi_set_mode_ap
  | Wifi_set_sta_config esp_sta_config
  | Wifi_set_ap_config esp_ap_config
  | Wifi_start
  | Wifi_connect
  | Wifi_disconnect
  | Wifi_stop
  | Wifi_deinit
  | Wifi_scan_start bool

record esp_ap_record =
  rec_ssid :: "u8 list"
  rec_rssi :: int
  rec_primary :: u8
  rec_authmode :: wifi_auth_mode_t
  rec_bssid :: "u8 list"

record esp_ip_info =
  ip_addr :: u32
  ip_netmask :: u32
  ip_gw :: u32

text \<open>\<open>scan_get_ap_records\<close> is given the size of its buffer and gives the number of records and the records it stored;
  \<open>wifi_malloc\<close> tells whether the allocator has a buffer for so many records.\<close>

record 'w wifi_idf =
  wifi_call :: "wifi_call \<Rightarrow> 'w \<Rightarrow> int \<times> 'w"
  sta_get_ap_info :: "'w \<Rightarrow> int \<times> esp_ap_record"
  tcpip_get_ip_info :: "'w \<Rightarrow> int \<times> esp_ip_info"
  scan_get_ap_num :: "'w \<Rightarrow> int \<times> u16"
  scan_get_ap_records :: "u16 \<Rightarrow> 'w \<Rightarrow> int \<times> u16 \<times> esp_ap_record list \<times> 'w"
  wifi_malloc :: "u16 \<Rightarrow> 'w \<Rightarrow> bool"

section \<open>State\<close>

record 'w wifi =
  wf_state :: wifi_state
  wf_config :: wifi_config
  wf_event_callback :: bool
  wf_conn_status_callback :: bool
  wf_scan_callback :: bool
  wf_task_id :: u32
  wf_mutex_locked :: bool
  wf_drv :: 'w

datatype wifi_out = Wifi_event wifi_event_type | Wifi_conn_status bool "wifi_status option" | Wifi_scan_done

definition wifi_boot :: "'w \<Rightarrow> 'w wifi" where
  "wifi_boot d =
     \<lparr>wf_state = MP_WIFI_DISCONNECTED,
      wf_config = \<lparr>cfg_ssid = replicate 32 0, cfg_password = replicate 64 0, cfg_bssid = replicate 6 0, cfg_channel = 0,
        cfg_authmode = MP_WIFI_AUTH_WPA2_PSK\<rparr>,
      wf_event_callback = False, wf_conn_status_callback = False, wf_scan_callback = False, wf_task_id = 0,
      wf_mutex_locked = False, wf_drv = d\<rparr>"

text \<open>A locked flag is waited for; \<^term>\<open>None\<close> when no other thread is there to clear it.\<close>

definition mp_wifi_lock :: "'w wifi \<Rightarrow> 'w wifi option" where
  "mp_wifi_lock s = (if wf_mutex_locked s then None else Some (s\<lparr>wf_mutex_locked := True\<rparr>))"

definition mp_wifi_unlock :: "'w wifi \<Rightarrow> 'w wifi" where
  "mp_wifi_unlock s = s\<lparr>wf_mutex_locked := False\<rparr>"

section \<open>Conversions\<close>

fun mp_wifi_auth_to_esp :: "wifi_authmode \<Rightarrow> wifi_auth_mode_t" where
  "mp_wifi_auth_to_esp MP_WIFI_AUTH_OPEN = WIFI_AUTH_OPEN"
| "mp_wifi_auth_to_esp MP_WIFI_AUTH_WEP = WIFI_AUTH_WEP"
| "mp_wifi_auth_to_esp MP_WIFI_AUTH_WPA_PSK = WIFI_AUTH_WPA_PSK"
| "mp_wifi_auth_to_esp MP_WIFI_AUTH_WPA2_PSK = WIFI_AUTH_WPA2_PSK"
| "mp_wifi_auth_to_esp MP_WIFI_AUTH_WPA_WPA2_PSK = WIFI_AUTH_WPA_WPA2_PSK"
| "mp_wifi_auth_to_esp MP_WIFI_AUTH_WPA2_ENTERPRISE = WIFI_AUTH_WPA2_ENTERPRISE"
| "mp_wifi_auth_to_esp MP_WIFI_AUTH_WPA3_PSK = WIFI_AUTH_WPA3_PSK"
| "mp_wifi_auth_to_esp MP_WIFI_AUTH_WPA2_WPA3_PSK = WIFI_AUTH_WPA2_WPA3_PSK"

fun mp_wifi_auth_from_esp :: "wifi_auth_mode_t \<Rightarrow> wifi_authmode" where
  "mp_wifi_auth_from_esp WIFI_AUTH_OPEN = MP_WIFI_AUTH_OPEN"
| "mp_wifi_auth_from_esp WIFI_AUTH_WEP = MP_WIFI_AUTH_WEP"
| "mp_wifi_auth_from_esp WIFI_AUTH_WPA_PSK = MP_WIFI_AUTH_WPA_PSK"
| "mp_wifi_auth_from_esp WIFI_AUTH_WPA2_PSK = MP_WIFI_AUTH_WPA2_PSK"
| "mp_wifi_auth_from_esp WIFI_AUTH_WPA_WPA2_PSK = MP_WIFI_AUTH_WPA_WPA2_PSK"
| "mp_wifi_auth_from_esp WIFI_AUTH_WPA2_ENTERPRISE = MP_WIFI_AUTH_WPA2_ENTERPRISE"
| "mp_wifi_auth_from_esp WIFI_AUTH_WPA3_PSK = MP_WIFI_AUTH_WPA3_PSK"
| "mp_wifi_auth_from_esp WIFI_AUTH_WPA2_WPA3_PSK = MP_WIFI_AUTH_WPA2_WPA3_PSK"
| "mp_wifi_auth_from_esp (WIFI_AUTH_OTHER m) = MP_WIFI_AUTH_OPEN"

text \<open>\<open>strncpy\<close> from an array of at least \<open>n\<close> bytes, or one that is terminated: padded with zeros, and without a
  terminator when the string has \<open>n\<close> bytes or more.\<close>

definition strncpy :: "u8 list \<Rightarrow> nat \<Rightarrow> u8 list" where
  "strncpy src n = take n (takeWhile (\<lambda>c. c \<noteq> 0) src @ replicate n 0)"

section \<open>Reports of the driver\<close>

datatype wifi_event =
    WIFI_EVENT_WIFI_READY | WIFI_EVENT_SCAN_DONE | WIFI_EVENT_STA_START | WIFI_EVENT_STA_STOP | WIFI_EVENT_STA_CONNECTED
  | WIFI_EVENT_STA_DISCONNECTED | WIFI_EVENT_STA_AUTHMODE_CHANGE | WIFI_EVENT_AP_START | WIFI_EVENT_AP_STOP
  | WIFI_EVENT_AP_STACONNECTED | WIFI_EVENT_AP_STADISCONNECTED | WIFI_EVENT_OTHER int
  | IP_EVENT_STA_GOT_IP | IP_EVENT_STA_LOST_IP | IP_EVENT_OTHER int

definition wifi_notify :: "wifi_event_type \<Rightarrow> 'w wifi \<Rightarrow> wifi_out list" where
  "wifi_notify e s = (if wf_event_callback s then [Wifi_event e] else [])"

text \<open>The call of the scan callback is to the name of its type; it is taken as the call the condition asks for.\<close>

fun mp_wifi_esp32_event_handler :: "wifi_event \<Rightarrow> 'w wifi \<Rightarrow> wifi_out list \<times> 'w wifi" where
  "mp_wifi_esp32_event_handler WIFI_EVENT_WIFI_READY s = ([], s)"
| "mp_wifi_esp32_event_handler WIFI_EVENT_SCAN_DONE s =
     (if wf_scan_callback s then [Wifi_scan_done] else [], s\<lparr>wf_state := MP_WIFI_READY\<rparr>)"
| "mp_wifi_esp32_event_handler WIFI_EVENT_STA_START s = ([], s)"
| "mp_wifi_esp32_event_handler WIFI_EVENT_STA_STOP s = ([], s\<lparr>wf_state := MP_WIFI_READY\<rparr>)"
| "mp_wifi_esp32_event_handler WIFI_EVENT_STA_CONNECTED s =
     (wifi_notify MP_WIFI_EVENT_CONNECTED s, s\<lparr>wf_state := MP_WIFI_CONNECTED\<rparr>)"
| "mp_wifi_esp32_event_handler WIFI_EVENT_STA_DISCONNECTED s =
     (wifi_notify MP_WIFI_EVENT_DISCONNECTED s, s\<lparr>wf_state := MP_WIFI_DISCONNECTED\<rparr>)"
| "mp_wifi_esp32_event_handler WIFI_EVENT_STA_AUTHMODE_CHANGE s = ([], s)"
| "mp_wifi_esp32_event_handler WIFI_EVENT_AP_START s =
     (wifi_notify MP_WIFI_EVENT_AP_STARTED s, s\<lparr>wf_state := MP_WIFI_AP_MODE\<rparr>)"
| "mp_wifi_esp32_event_handler WIFI_EVENT_AP_STOP s =
     (wifi_notify MP_WIFI_EVENT_AP_STOPPED s, s\<lparr>wf_state := MP_WIFI_READY\<rparr>)"
| "mp_wifi_esp32_event_handler WIFI_EVENT_AP_STACONNECTED s = (wifi_notify MP_WIFI_EVENT_AP_STA_CONNECTED s, s)"
| "mp_wifi_esp32_event_handler WIFI_EVENT_AP_STADISCONNECTED s = (wifi_notify MP_WIFI_EVENT_AP_STA_DISCONNECTED s, s)"
| "mp_wifi_esp32_event_handler (WIFI_EVENT_OTHER n) s = ([], s)"
| "mp_wifi_esp32_event_handler IP_EVENT_STA_GOT_IP s = (wifi_notify MP_WIFI_EVENT_GOT_IP s, s)"
| "mp_wifi_esp32_event_handler IP_EVENT_STA_LOST_IP s = (wifi_notify MP_WIFI_EVENT_LOST_IP s, s)"
| "mp_wifi_esp32_event_handler (IP_EVENT_OTHER n) s = ([], s)"

fun wifi_reports :: "wifi_event list \<Rightarrow> 'w wifi \<Rightarrow> wifi_out list \<times> 'w wifi" where
  "wifi_reports [] s = ([], s)"
| "wifi_reports (e # es) s =
     (let (o1, s1) = mp_wifi_esp32_event_handler e s; (o2, s2) = wifi_reports es s1 in (o1 @ o2, s2))"

section \<open>Operations\<close>

definition wifi_do :: "'w wifi_idf \<Rightarrow> wifi_call list \<Rightarrow> 'w wifi \<Rightarrow> bool \<times> 'w wifi" where
  "wifi_do idf cs s = (let (ok, d) = calls_until (wifi_call idf) cs (wf_drv s) in (ok, s\<lparr>wf_drv := d\<rparr>))"

text \<open>Calls whose results are not looked at.\<close>

definition wifi_ignore :: "'w wifi_idf \<Rightarrow> wifi_call list \<Rightarrow> 'w wifi \<Rightarrow> 'w wifi" where
  "wifi_ignore idf cs s = s\<lparr>wf_drv := fold (\<lambda>c d. snd (wifi_call idf c d)) cs (wf_drv s)\<rparr>"

text \<open>\<open>tid\<close> is the thread that \<open>mp_thread_create\<close> gives for \<open>mp_wifi_task\<close>, 0 when it fails.\<close>

definition mp_wifi_init :: "'w wifi_idf option \<Rightarrow> u32 \<Rightarrow> 'w wifi \<Rightarrow> int \<times> 'w wifi" where
  "mp_wifi_init esp tid s =
     (case esp of
        None \<Rightarrow> (0, s\<lparr>wf_state := MP_WIFI_READY\<rparr>)
      | Some idf \<Rightarrow>
          let (ok, s1) = wifi_do idf [Nvs_flash_init, Wifi_init, Event_loop_create_default, Register_wifi_handler,
                Register_ip_handler] s
          in if \<not> ok then (-1, s1)
             else
               let s2 = s1\<lparr>wf_task_id := tid\<rparr>
               in if tid = 0 then (-1, s2) else (0, s2\<lparr>wf_state := MP_WIFI_READY\<rparr>))"

definition mp_wifi_disconnect :: "'w wifi_idf option \<Rightarrow> 'w wifi \<Rightarrow> 'w wifi" where
  "mp_wifi_disconnect esp s =
     (if wf_state s \<noteq> MP_WIFI_CONNECTED \<and> wf_state s \<noteq> MP_WIFI_CONNECTING then s
      else (case esp of None \<Rightarrow> s | Some idf \<Rightarrow> wifi_ignore idf [Wifi_disconnect, Wifi_stop] s)\<lparr>wf_state := MP_WIFI_DISCONNECTED\<rparr>)"

definition mp_wifi_deinit :: "'w wifi_idf option \<Rightarrow> 'w wifi \<Rightarrow> 'w wifi" where
  "mp_wifi_deinit esp s =
     (let s1 = mp_wifi_disconnect esp s
      in (case esp of None \<Rightarrow> s1 | Some idf \<Rightarrow> wifi_ignore idf [Wifi_stop, Wifi_deinit] s1)\<lparr>wf_state := MP_WIFI_DISCONNECTED\<rparr>)"

definition mp_wifi_set_config :: "wifi_config option \<Rightarrow> 'w wifi \<Rightarrow> 'w wifi option" where
  "mp_wifi_set_config config s =
     (case config of None \<Rightarrow> Some s
      | Some c \<Rightarrow> do { s1 \<leftarrow> mp_wifi_lock s; Some (mp_wifi_unlock (s1\<lparr>wf_config := c\<rparr>)) })"

definition mp_wifi_get_config :: "wifi_config option \<Rightarrow> 'w wifi \<Rightarrow> (wifi_config option \<times> 'w wifi) option" where
  "mp_wifi_get_config config s =
     (case config of None \<Rightarrow> Some (None, s)
      | Some _ \<Rightarrow> do { s1 \<leftarrow> mp_wifi_lock s; Some (Some (wf_config s1), mp_wifi_unlock s1) })"

definition sta_config_of :: "wifi_config \<Rightarrow> esp_sta_config" where
  "sta_config_of c =
     \<lparr>sta_ssid = strncpy (cfg_ssid c) 32, sta_password = strncpy (cfg_password c) 64,
      sta_authmode = mp_wifi_auth_to_esp (cfg_authmode c)\<rparr>"

definition mp_wifi_connect :: "'w wifi_idf option \<Rightarrow> 'w wifi \<Rightarrow> int \<times> 'w wifi" where
  "mp_wifi_connect esp s =
     (if wf_state s \<noteq> MP_WIFI_READY \<and> wf_state s \<noteq> MP_WIFI_DISCONNECTED then (-1, s)
      else if cfg_ssid (wf_config s) ! 0 = 0 then (-1, s)
      else
        let (ok, s1) = (case esp of None \<Rightarrow> (True, s)
              | Some idf \<Rightarrow> wifi_do idf [Wifi_set_mode_sta, Wifi_set_sta_config (sta_config_of (wf_config s)), Wifi_start,
                  Wifi_connect] s)
        in if ok then (0, s1\<lparr>wf_state := MP_WIFI_CONNECTING\<rparr>) else (-1, s1))"

definition mp_wifi_get_state :: "'w wifi \<Rightarrow> wifi_state" where "mp_wifi_get_state s = wf_state s"

text \<open>What the fields of \<open>*status\<close> are set to; nothing for \<open>NULL\<close>.\<close>

definition wifi_status_now :: "'w wifi_idf option \<Rightarrow> 'w wifi \<Rightarrow> wifi_status" where
  "wifi_status_now esp s =
     (case esp of
        Some idf \<Rightarrow>
          (let (err, ap) = sta_get_ap_info idf (wf_drv s); (err2, ip) = tcpip_get_ip_info idf (wf_drv s)
           in \<lparr>st_connected = (err = 0), st_rssi = (if err = 0 then rec_rssi ap else 0),
               st_channel = (if err = 0 then rec_primary ap else 0),
               st_bssid = (if err = 0 then rec_bssid ap else replicate 6 0),
               st_ip_addr = (if err2 = 0 then ip_addr ip else 0), st_netmask = (if err2 = 0 then ip_netmask ip else 0),
               st_gateway = (if err2 = 0 then ip_gw ip else 0)\<rparr>)
      | None \<Rightarrow>
          \<lparr>st_connected = (wf_state s = MP_WIFI_CONNECTED), st_rssi = -50, st_channel = 6, st_bssid = replicate 6 0,
           st_ip_addr = 0xC0A80101, st_netmask = 0xFFFFFF00, st_gateway = 0xC0A80101\<rparr>)"

definition mp_wifi_get_status :: "'w wifi_idf option \<Rightarrow> wifi_status option \<Rightarrow> 'w wifi \<Rightarrow> wifi_status option" where
  "mp_wifi_get_status esp status s = map_option (\<lambda>_. wifi_status_now esp s) status"

text \<open>\<open>strlen\<close> has no defined result for a name that fills its array; the length is stored in a byte.\<close>

definition ap_config_of :: "wifi_ap_config \<Rightarrow> esp_ap_config option" where
  "ap_config_of c =
     (if 0 \<notin> set (apc_ssid c) then None
      else Some
        \<lparr>eap_ssid = strncpy (apc_ssid c) 32, eap_ssid_len = of_nat (length (takeWhile (\<lambda>x. x \<noteq> 0) (apc_ssid c))),
         eap_channel = apc_channel c,
         eap_password = (if apc_password c ! 0 \<noteq> 0 then strncpy (apc_password c) 64 else replicate 64 0),
         eap_max_connection = apc_max_connections c, eap_authmode = mp_wifi_auth_to_esp (apc_authmode c)\<rparr>)"

definition mp_wifi_start_ap :: "'w wifi_idf option \<Rightarrow> wifi_ap_config option \<Rightarrow> 'w wifi \<Rightarrow> (int \<times> 'w wifi) option" where
  "mp_wifi_start_ap esp config s =
     (case config of None \<Rightarrow> Some (-1, s)
      | Some c \<Rightarrow>
          (case esp of
             None \<Rightarrow> Some (0, s\<lparr>wf_state := MP_WIFI_AP_MODE\<rparr>)
           | Some idf \<Rightarrow>
               let (ok, s1) = wifi_do idf [Wifi_set_mode_ap] s
               in if \<not> ok then Some (-1, s1)
                  else do {
                    a \<leftarrow> ap_config_of c;
                    let (ok2, s2) = wifi_do idf [Wifi_set_ap_config a, Wifi_start] s1;
                    Some (if ok2 then (0, s2\<lparr>wf_state := MP_WIFI_AP_MODE\<rparr>) else (-1, s2)) }))"

definition mp_wifi_stop_ap :: "'w wifi_idf option \<Rightarrow> 'w wifi \<Rightarrow> 'w wifi" where
  "mp_wifi_stop_ap esp s =
     (if wf_state s \<noteq> MP_WIFI_AP_MODE then s
      else (case esp of None \<Rightarrow> s | Some idf \<Rightarrow> wifi_ignore idf [Wifi_stop] s)\<lparr>wf_state := MP_WIFI_READY\<rparr>)"

text \<open>The scan is started blocking; \<open>during\<close> is what the driver reports before the call returns.\<close>

definition mp_wifi_scan_start ::
  "'w wifi_idf option \<Rightarrow> wifi_event list \<Rightarrow> 'w wifi \<Rightarrow> int \<times> wifi_out list \<times> 'w wifi" where
  "mp_wifi_scan_start esp during s =
     (if wf_state s \<noteq> MP_WIFI_READY then (-1, [], s)
      else
        (case esp of
           None \<Rightarrow> (0, [], s\<lparr>wf_state := MP_WIFI_SCANNING\<rparr>)
         | Some idf \<Rightarrow>
             let (ok, s1) = wifi_do idf [Wifi_set_mode_sta, Wifi_start, Wifi_scan_start True] s
             in if \<not> ok then (-1, [], s1)
                else let (out, s2) = wifi_reports during s1 in (0, out, s2\<lparr>wf_state := MP_WIFI_SCANNING\<rparr>)))"

definition ap_info_of :: "esp_ap_record \<Rightarrow> wifi_ap_info" where
  "ap_info_of r =
     \<lparr>ap_ssid = strncpy (rec_ssid r) 32, ap_rssi = rec_rssi r, ap_channel = rec_primary r,
      ap_authmode = mp_wifi_auth_from_esp (rec_authmode r), ap_bssid = rec_bssid r\<rparr>"

definition test_network :: wifi_ap_info where
  "test_network =
     \<lparr>ap_ssid = strncpy (ascii ''TestNetwork'') 32, ap_rssi = -50, ap_channel = 6, ap_authmode = MP_WIFI_AUTH_WPA2_PSK,
      ap_bssid = replicate 6 0\<rparr>"

text \<open>The array \<open>aps\<close> is overwritten from its start; \<^term>\<open>None\<close> when it is shorter than what is stored, or when fewer
  records were given than were counted.\<close>

definition store_aps :: "wifi_ap_info list \<Rightarrow> wifi_ap_info list \<Rightarrow> wifi_ap_info list option" where
  "store_aps aps new = (if length new \<le> length aps then Some (new @ drop (length new) aps) else None)"

definition mp_wifi_scan_get_results ::
  "'w wifi_idf option \<Rightarrow> wifi_ap_info list option \<Rightarrow> int \<Rightarrow> 'w wifi \<Rightarrow> (int \<times> wifi_ap_info list option \<times> 'w wifi) option" where
  "mp_wifi_scan_get_results esp aps max_aps s =
     (case aps of None \<Rightarrow> Some (-1, None, s)
      | Some m \<Rightarrow>
          if max_aps \<le> 0 then Some (-1, Some m, s)
          else
            (case esp of
               None \<Rightarrow> do { m' \<leftarrow> store_aps m [test_network]; Some (1, Some m', s) }
             | Some idf \<Rightarrow>
                 let (err, n) = scan_get_ap_num idf (wf_drv s)
                 in if err \<noteq> 0 then Some (-1, Some m, s)
                    else if n = 0 then Some (0, Some m, s)
                    else if \<not> wifi_malloc idf n (wf_drv s) then Some (-1, Some m, s)
                    else
                      let (err2, n', recs, d) = scan_get_ap_records idf n (wf_drv s); s1 = s\<lparr>wf_drv := d\<rparr>
                      in if err2 \<noteq> 0 then Some (-1, Some m, s1)
                         else
                           let count = (if uint n' < max_aps then uint n' else max_aps)
                           in if length recs < nat count then None
                              else do { m' \<leftarrow> store_aps m (map ap_info_of (take (nat count) recs)); Some (count, Some m', s1) }))"

definition mp_wifi_set_event_callback :: "bool \<Rightarrow> 'w wifi \<Rightarrow> 'w wifi" where
  "mp_wifi_set_event_callback c s = s\<lparr>wf_event_callback := c\<rparr>"

definition mp_wifi_set_conn_status_callback :: "bool \<Rightarrow> 'w wifi \<Rightarrow> 'w wifi" where
  "mp_wifi_set_conn_status_callback c s = s\<lparr>wf_conn_status_callback := c\<rparr>"

definition mp_wifi_set_scan_callback :: "bool \<Rightarrow> 'w wifi \<Rightarrow> 'w wifi" where
  "mp_wifi_set_scan_callback c s = s\<lparr>wf_scan_callback := c\<rparr>"

text \<open>A round of the task: what the application is told and the time it sleeps.\<close>

definition mp_wifi_task :: "'w wifi_idf option \<Rightarrow> 'w wifi \<Rightarrow> wifi_out list \<times> u32" where
  "mp_wifi_task esp s =
     (case wf_state s of
        MP_WIFI_CONNECTED \<Rightarrow>
          (if wf_conn_status_callback s then [Wifi_conn_status True (Some (wifi_status_now esp s))] else [], 1000)
      | MP_WIFI_DISCONNECTED \<Rightarrow> (if wf_conn_status_callback s then [Wifi_conn_status False None] else [], 100)
      | _ \<Rightarrow> ([], 100))"

section \<open>Text\<close>

definition mp_wifi_ip_to_str :: "u32 \<Rightarrow> cstring" where
  "mp_wifi_ip_to_str ip =
     printed 16 (dec_byte (drop_bit 24 ip AND 0xFF) @ [ch_dot] @ dec_byte (drop_bit 16 ip AND 0xFF) @ [ch_dot] @
       dec_byte (drop_bit 8 ip AND 0xFF) @ [ch_dot] @ dec_byte (ip AND 0xFF))"

definition hex_upper :: "nat \<Rightarrow> u8" where
  "hex_upper n = (if n < 10 then of_nat (0x30 + n) else of_nat (0x37 + n))"

definition show_02X :: "u8 \<Rightarrow> cstring" where
  "show_02X b = [hex_upper (unat b div 16), hex_upper (unat b mod 16)]"

definition mp_wifi_mac_to_str :: "u8 list \<Rightarrow> cstring" where
  "mp_wifi_mac_to_str mac =
     printed 18 (show_02X (mac ! 0) @ concat (map (\<lambda>i. 0x3A # show_02X (mac ! i)) [1..<6]))"

end
