(* ===== verification/Wifi_Correct.thy ===== *)
theory Wifi_Correct
  imports Wifi
begin

text \<open>What a connection asks of the driver, and why a scan is never over.\<close>

section \<open>Connecting\<close>

lemma auth_from_to [simp]: "mp_wifi_auth_from_esp (mp_wifi_auth_to_esp m) = m"
  by (cases m) simp_all

lemma wifi_do_state:
  "wifi_do idf cs s = (ok, s1) \<Longrightarrow> s1 = s\<lparr>wf_drv := wf_drv s1\<rparr>"
  by (cases s) (auto simp: wifi_do_def split: prod.splits)

text \<open>
  A connection is accepted exactly when the state allows it, there is a name, and the driver accepts the four calls; then
  the state is CONNECTING, and otherwise nothing but the driver has changed.  The mode of authentication the driver is
  given stands for the configured one.
\<close>

theorem wifi_connect_accepted:
  assumes "mp_wifi_connect (Some idf) s = (r, s')"
  shows "(r = 0 \<longleftrightarrow> (wf_state s = MP_WIFI_READY \<or> wf_state s = MP_WIFI_DISCONNECTED) \<and> cfg_ssid (wf_config s) ! 0 \<noteq> 0 \<and>
      fst (calls_until (wifi_call idf) [Wifi_set_mode_sta, Wifi_set_sta_config (sta_config_of (wf_config s)), Wifi_start,
        Wifi_connect] (wf_drv s))) \<and>
    s' = s\<lparr>wf_state := (if r = 0 then MP_WIFI_CONNECTING else wf_state s), wf_drv := wf_drv s'\<rparr> \<and>
    mp_wifi_auth_from_esp (sta_authmode (sta_config_of (wf_config s))) = cfg_authmode (wf_config s)"
proof (cases "(wf_state s \<noteq> MP_WIFI_READY \<and> wf_state s \<noteq> MP_WIFI_DISCONNECTED) \<or> cfg_ssid (wf_config s) ! 0 = 0")
  case True
  then have "r = -1 \<and> s' = s" using assms by (auto simp: mp_wifi_connect_def split: if_splits)
  then show ?thesis using True by (cases s) (auto simp: sta_config_of_def)
next
  case False
  let ?cs = "[Wifi_set_mode_sta, Wifi_set_sta_config (sta_config_of (wf_config s)), Wifi_start, Wifi_connect]"
  obtain ok d where c: "calls_until (wifi_call idf) ?cs (wf_drv s) = (ok, d)" by force
  have "mp_wifi_connect (Some idf) s =
      (if ok then (0, s\<lparr>wf_drv := d\<rparr>\<lparr>wf_state := MP_WIFI_CONNECTING\<rparr>) else (-1, s\<lparr>wf_drv := d\<rparr>))"
    using False c unfolding mp_wifi_connect_def wifi_do_def by auto
  then show ?thesis using assms False c by (cases s; cases ok) (auto simp: sta_config_of_def)
qed

section \<open>Scanning\<close>

text \<open>Every operation that changes the state, and the reports of the driver.\<close>

datatype wifi_op =
    W_init u32
  | W_deinit
  | W_start_ap "wifi_ap_config option"
  | W_report wifi_event
  | W_connect
  | W_disconnect
  | W_scan "wifi_event list"
  | W_stop_ap
  | W_set_config "wifi_config option"
  | W_get_config "wifi_config option"
  | W_results "wifi_ap_info list option" int
  | W_callbacks bool bool bool

fun wifi_step :: "'w wifi_idf option \<Rightarrow> wifi_op \<Rightarrow> 'w wifi \<Rightarrow> (int \<times> 'w wifi) option" where
  "wifi_step esp (W_init tid) s = Some (mp_wifi_init esp tid s)"
| "wifi_step esp W_deinit s = Some (0, mp_wifi_deinit esp s)"
| "wifi_step esp (W_start_ap c) s = mp_wifi_start_ap esp c s"
| "wifi_step esp (W_report e) s = Some (0, snd (mp_wifi_esp32_event_handler e s))"
| "wifi_step esp W_connect s = Some (mp_wifi_connect esp s)"
| "wifi_step esp W_disconnect s = Some (0, mp_wifi_disconnect esp s)"
| "wifi_step esp (W_scan during) s = (let (r, out, s') = mp_wifi_scan_start esp during s in Some (r, s'))"
| "wifi_step esp W_stop_ap s = Some (0, mp_wifi_stop_ap esp s)"
| "wifi_step esp (W_set_config c) s = map_option (\<lambda>s'. (0, s')) (mp_wifi_set_config c s)"
| "wifi_step esp (W_get_config c) s = map_option (\<lambda>x. (0, snd x)) (mp_wifi_get_config c s)"
| "wifi_step esp (W_results aps n) s = map_option (\<lambda>x. (fst x, snd (snd x))) (mp_wifi_scan_get_results esp aps n s)"
| "wifi_step esp (W_callbacks a b c) s =
     Some (0, mp_wifi_set_event_callback a (mp_wifi_set_conn_status_callback b (mp_wifi_set_scan_callback c s)))"

fun wifi_steps :: "'w wifi_idf option \<Rightarrow> wifi_op list \<Rightarrow> 'w wifi \<Rightarrow> (int list \<times> 'w wifi) option" where
  "wifi_steps esp [] s = Some ([], s)"
| "wifi_steps esp (op # ops) s =
     do { (r, s1) \<leftarrow> wifi_step esp op s; (rs, s2) \<leftarrow> wifi_steps esp ops s1; Some (r # rs, s2) }"

text \<open>Connections and scans.\<close>

fun wifi_starts :: "wifi_op \<Rightarrow> bool" where
  "wifi_starts W_connect = True"
| "wifi_starts (W_scan during) = True"
| "wifi_starts _ = False"

text \<open>The ways out of a scan, by the operation and its result: the state it leads to.\<close>

fun report_exit :: "wifi_event \<Rightarrow> wifi_state option" where
  "report_exit WIFI_EVENT_SCAN_DONE = Some MP_WIFI_READY"
| "report_exit WIFI_EVENT_STA_STOP = Some MP_WIFI_READY"
| "report_exit WIFI_EVENT_STA_CONNECTED = Some MP_WIFI_CONNECTED"
| "report_exit WIFI_EVENT_STA_DISCONNECTED = Some MP_WIFI_DISCONNECTED"
| "report_exit WIFI_EVENT_AP_START = Some MP_WIFI_AP_MODE"
| "report_exit WIFI_EVENT_AP_STOP = Some MP_WIFI_READY"
| "report_exit _ = None"

fun scan_exit :: "wifi_op \<Rightarrow> int \<Rightarrow> wifi_state option" where
  "scan_exit (W_init tid) r = (if r = 0 then Some MP_WIFI_READY else None)"
| "scan_exit W_deinit r = Some MP_WIFI_DISCONNECTED"
| "scan_exit (W_start_ap c) r = (if r = 0 then Some MP_WIFI_AP_MODE else None)"
| "scan_exit (W_report e) r = report_exit e"
| "scan_exit _ r = None"

lemma scan_results_state:
  assumes "mp_wifi_scan_get_results esp aps n s = Some (r, aps', s')"
  shows "wf_state s' = wf_state s"
proof (cases "aps = None \<or> n \<le> 0 \<or> esp = None")
  case True
  then show ?thesis
    using assms by (auto simp: mp_wifi_scan_get_results_def split: option.splits if_splits bind_splits)
next
  case False
  then obtain m idf where m: "aps = Some m" "esp = Some idf" "\<not> n \<le> 0" by auto
  obtain e k where 1: "scan_get_ap_num idf (wf_drv s) = (e, k)" by force
  obtain e2 k2 recs d where 2: "scan_get_ap_records idf k (wf_drv s) = (e2, k2, recs, d)" by (rule prod_cases4)
  have "s' = s \<or> s' = s\<lparr>wf_drv := d\<rparr>"
    using assms m 1 2 by (auto simp: mp_wifi_scan_get_results_def Let_def split: if_splits bind_splits)
  then show ?thesis by auto
qed

lemma wifi_do_keeps: "wifi_do idf cs s = (ok, s1) \<Longrightarrow> wf_state s1 = wf_state s"
  by (auto simp: wifi_do_def split: prod.splits)

lemma start_ap_state:
  assumes "mp_wifi_start_ap esp c s = Some (r, s')"
  shows "wf_state s' = (if r = 0 then MP_WIFI_AP_MODE else wf_state s)"
  using assms
  by (auto simp: mp_wifi_start_ap_def Let_def split: option.splits prod.splits if_splits bind_splits dest!: wifi_do_keeps)

lemma init_state: "mp_wifi_init esp tid s = (r, s') \<Longrightarrow> wf_state s' = (if r = 0 then MP_WIFI_READY else wf_state s)"
  by (auto simp: mp_wifi_init_def Let_def split: option.splits prod.splits if_splits dest!: wifi_do_keeps)

lemma report_state:
  "wf_state (snd (mp_wifi_esp32_event_handler e s)) = (case report_exit e of None \<Rightarrow> wf_state s | Some w \<Rightarrow> w)"
  by (cases e) simp_all

lemma wifi_step_scanning:
  assumes st: "wf_state s = MP_WIFI_SCANNING" and c: "wifi_step esp op s = Some (r, s')"
  shows "wf_state s' = (case scan_exit op r of None \<Rightarrow> MP_WIFI_SCANNING | Some w \<Rightarrow> w) \<and> (wifi_starts op \<longrightarrow> r = -1)"
proof (cases op)
  case (W_init tid)
  then show ?thesis using assms init_state [of esp tid s r s'] by simp
next
  case (W_start_ap c)
  then show ?thesis using assms start_ap_state [of esp c s r s'] by simp
next
  case (W_report e)
  then show ?thesis using assms report_state [of e s] by (auto split: option.split)
next
  case (W_set_config x)
  then show ?thesis
    using assms by (auto simp: mp_wifi_set_config_def mp_wifi_lock_def mp_wifi_unlock_def split: option.splits if_splits bind_splits)
next
  case (W_get_config x)
  then show ?thesis
    using assms by (auto simp: mp_wifi_get_config_def mp_wifi_lock_def mp_wifi_unlock_def split: option.splits if_splits bind_splits)
next
  case (W_results aps n)
  then show ?thesis using assms scan_results_state [of esp aps n s] by auto
qed (use assms in \<open>auto simp: mp_wifi_connect_def mp_wifi_disconnect_def mp_wifi_deinit_def Let_def mp_wifi_scan_start_def
  mp_wifi_stop_ap_def mp_wifi_set_event_callback_def mp_wifi_set_conn_status_callback_def mp_wifi_set_scan_callback_def\<close>)

lemma wifi_steps_scanning:
  "wf_state s = MP_WIFI_SCANNING \<Longrightarrow> wifi_steps esp ops s = Some (rs, s') \<Longrightarrow>
   list_all2 (\<lambda>op r. scan_exit op r = None) ops rs \<Longrightarrow>
   wf_state s' = MP_WIFI_SCANNING \<and> list_all2 (\<lambda>op r. wifi_starts op \<longrightarrow> r = -1) ops rs"
proof (induction ops arbitrary: s rs)
  case (Cons op ops)
  obtain r s1 rs' where s1: "wifi_step esp op s = Some (r, s1)" "wifi_steps esp ops s1 = Some (rs', s')" "rs = r # rs'"
    using Cons.prems(2) by (auto split: bind_splits)
  then show ?case using Cons.IH [OF _ s1(2)] wifi_step_scanning [OF Cons.prems(1) s1(1)] Cons.prems(3) by simp
qed simp

lemma scan_start_scanning: "mp_wifi_scan_start esp during s = (0, out, s1) \<Longrightarrow> wf_state s1 = MP_WIFI_SCANNING"
  by (auto simp: mp_wifi_scan_start_def split: if_splits option.splits prod.splits)

text \<open>
  C33. After a scan was started the driver is scanning, also when the end of the scan was reported before the blocking call
  returned: that report is lost, because the scanning state is entered only after the call.  From then on every connection
  and every scan is refused and the state stays, whatever else is called, until one of the ways out of \<open>scan_exit\<close>: the
  driver is initialised again or deinitialised, an access point is started, or another report changes the state; each of
  them leads to the state given there.
\<close>

theorem wifi_scan_sticks:
  assumes "mp_wifi_scan_start esp during s = (0, out, s1)" and "wifi_steps esp ops s1 = Some (rs, s2)"
    and "list_all2 (\<lambda>op r. scan_exit op r = None) ops rs"
  shows "wf_state s2 = MP_WIFI_SCANNING \<and> list_all2 (\<lambda>op r. wifi_starts op \<longrightarrow> r = -1) ops rs \<and>
    (\<forall>op r s3. wifi_step esp op s2 = Some (r, s3) \<longrightarrow>
       wf_state s3 = (case scan_exit op r of None \<Rightarrow> MP_WIFI_SCANNING | Some w \<Rightarrow> w))"
  using wifi_steps_scanning [OF scan_start_scanning [OF assms(1)] assms(2,3)] wifi_step_scanning by blast

definition demo_wifi :: "unit wifi_idf" where
  "demo_wifi =
     \<lparr>wifi_call = (\<lambda>c d. (0, d)),
      sta_get_ap_info = (\<lambda>d. (0, \<lparr>rec_ssid = [], rec_rssi = 0, rec_primary = 0, rec_authmode = WIFI_AUTH_OPEN, rec_bssid = []\<rparr>)),
      tcpip_get_ip_info = (\<lambda>d. (0, \<lparr>ip_addr = 0, ip_netmask = 0, ip_gw = 0\<rparr>)), scan_get_ap_num = (\<lambda>d. (0, 0)),
      scan_get_ap_records = (\<lambda>n d. (0, 0, [], d)), wifi_malloc = (\<lambda>n d. True)\<rparr>"

lemma wifi_connect_accepted_witness:
  "let s = (wifi_boot ())\<lparr>wf_state := MP_WIFI_READY\<rparr>;
       s' = s\<lparr>wf_config := (wf_config s)\<lparr>cfg_ssid := 65 # replicate 31 0\<rparr>\<rparr>
   in fst (mp_wifi_connect (Some demo_wifi) s) = -1 \<and> fst (mp_wifi_connect (Some demo_wifi) s') = 0"
proof -
  let ?s = "(wifi_boot ())\<lparr>wf_state := MP_WIFI_READY\<rparr>"
  let ?s' = "?s\<lparr>wf_config := (wf_config ?s)\<lparr>cfg_ssid := 65 # replicate 31 0\<rparr>\<rparr>"
  have "fst (mp_wifi_connect (Some demo_wifi) ?s) \<noteq> 0"
    using wifi_connect_accepted [of demo_wifi ?s "fst (mp_wifi_connect (Some demo_wifi) ?s)"
        "snd (mp_wifi_connect (Some demo_wifi) ?s)"] by (simp add: wifi_boot_def)
  then have 1: "fst (mp_wifi_connect (Some demo_wifi) ?s) = -1" by (simp add: mp_wifi_connect_def wifi_boot_def)
  have 2: "fst (mp_wifi_connect (Some demo_wifi) ?s') = 0"
    using wifi_connect_accepted [of demo_wifi ?s' "fst (mp_wifi_connect (Some demo_wifi) ?s')"
        "snd (mp_wifi_connect (Some demo_wifi) ?s')"]
    by (simp add: wifi_boot_def demo_wifi_def)
  from 1 2 show ?thesis by simp
qed

lemma wifi_scan_sticks_witness:
  "\<exists>out s1 rs s2 s3. mp_wifi_scan_start (Some demo_wifi) [WIFI_EVENT_STA_START, WIFI_EVENT_SCAN_DONE]
       ((wifi_boot ())\<lparr>wf_state := MP_WIFI_READY, wf_scan_callback := True\<rparr>) = (0, out, s1) \<and> out = [Wifi_scan_done] \<and>
     wifi_steps (Some demo_wifi) [W_results None 4, W_connect, W_disconnect, W_start_ap None, W_scan []] s1 = Some (rs, s2) \<and>
     wf_state s2 = MP_WIFI_SCANNING \<and> rs = [-1, -1, 0, -1, -1] \<and>
     wifi_step (Some demo_wifi) (W_init 3) s2 = Some (0, s3) \<and> wf_state s3 = MP_WIFI_READY"
proof -
  let ?s = "(wifi_boot ())\<lparr>wf_state := MP_WIFI_READY, wf_scan_callback := True\<rparr>"
  let ?ops = "[W_results None 4, W_connect, W_disconnect, W_start_ap None, W_scan []]"
  obtain s1 where s1: "mp_wifi_scan_start (Some demo_wifi) [WIFI_EVENT_STA_START, WIFI_EVENT_SCAN_DONE] ?s = (0, [Wifi_scan_done], s1)"
    by (simp add: mp_wifi_scan_start_def wifi_boot_def wifi_do_def demo_wifi_def)
  obtain r2 r3 r5 s2 where s2: "wifi_steps (Some demo_wifi) ?ops s1 = Some ([-1, r2, r3, -1, r5], s2)" "r3 = 0"
    by (simp add: mp_wifi_scan_get_results_def mp_wifi_start_ap_def split_beta)
  obtain s3 where s3: "wifi_step (Some demo_wifi) (W_init 3) s2 = Some (0, s3)"
    by (simp add: mp_wifi_init_def wifi_do_def demo_wifi_def)
  have l: "list_all2 (\<lambda>op r. scan_exit op r = None) ?ops [-1, r2, r3, -1, r5]" by simp
  note t = wifi_scan_sticks [OF s1 s2(1) l]
  have "wf_state s3 = (case scan_exit (W_init 3) 0 of None \<Rightarrow> MP_WIFI_SCANNING | Some w \<Rightarrow> w)" using t s3 by blast
  then have "wf_state s3 = MP_WIFI_READY" by simp
  moreover have "wf_state s2 = MP_WIFI_SCANNING" "r2 = -1" "r5 = -1" using t by simp_all
  ultimately show ?thesis using s1 s2 s3 by blast
qed

end
