(* ===== verification/Esp32Tasks.thy ===== *)
theory Esp32Tasks
  imports Scheduler
begin

text \<open>
  The threads of the ESP32, \<open>platform/esp32/context_switch.c\<close>: every thread gets a task of FreeRTOS, which is a parameter,
  and a slot in two tables.  A slot is remembered in \<open>tcb->platform_data\<close>; the type \<open>mp_tcb_t\<close> of \<open>thread.h\<close> has no such
  field, so it is kept beside the TCBs here.  Pointers to tasks, semaphores and functions are words, 0 for \<open>NULL\<close>.
\<close>

section \<open>State\<close>

definition MAX_MICROPOSIX_THREADS :: nat where "MAX_MICROPOSIX_THREADS = 32"

text \<open>\<open>xTaskCreate\<close> gives whether it passed and the handle; the fields in capitals are the constants of its configuration.\<close>

record 'p rtos =
  stack_word :: u32
  configMINIMAL_STACK_SIZE :: u32
  configMAX_PRIORITIES :: u32
  xTaskCreate :: "u32 \<Rightarrow> string \<Rightarrow> u32 \<Rightarrow> u32 \<Rightarrow> u32 \<Rightarrow> 'p \<Rightarrow> bool \<times> u32 \<times> 'p"
  vTaskDelete :: "u32 \<Rightarrow> 'p \<Rightarrow> 'p"
  vTaskSuspend :: "u32 \<Rightarrow> 'p \<Rightarrow> 'p"
  vTaskResume :: "u32 \<Rightarrow> 'p \<Rightarrow> 'p"
  xSemaphoreCreateMutex :: "'p \<Rightarrow> u32 \<times> 'p"
  xTaskGetCurrentTaskHandle :: "'p \<Rightarrow> u32"

record 'p esp_tasks =
  freertos_tasks :: "u32 list"
  freertos_tcb_map :: "tcb_ref option list"
  thread_map_mutex :: u32
  platform_data :: "tcb_ref \<Rightarrow> u32"
  rtos_hw :: 'p

definition esp_tasks_boot :: "'p \<Rightarrow> 'p esp_tasks" where
  "esp_tasks_boot p =
     \<lparr>freertos_tasks = replicate MAX_MICROPOSIX_THREADS 0, freertos_tcb_map = replicate MAX_MICROPOSIX_THREADS None,
      thread_map_mutex = 0, platform_data = (\<lambda>_. 0), rtos_hw = p\<rparr>"

section \<open>Operations\<close>

definition mp_hal_esp32_context_switch_init :: "'p rtos \<Rightarrow> 'p esp_tasks \<Rightarrow> 'p esp_tasks" where
  "mp_hal_esp32_context_switch_init os t =
     (if thread_map_mutex t = 0
      then let (m, p) = xSemaphoreCreateMutex os (rtos_hw t) in t\<lparr>thread_map_mutex := m, rtos_hw := p\<rparr>
      else t)"

text \<open>The size of the stack in words, at least the minimum of FreeRTOS.\<close>

definition task_stack_words :: "'p rtos \<Rightarrow> u32 \<Rightarrow> u32" where
  "task_stack_words os sz =
     (let n = (sz + stack_word os - 1) div stack_word os; k = configMINIMAL_STACK_SIZE os div stack_word os
      in if n < k then k else n)"

definition task_priority :: "'p rtos \<Rightarrow> u8 \<Rightarrow> u32" where
  "task_priority os pr = (if ucast pr \<ge> configMAX_PRIORITIES os then configMAX_PRIORITIES os - 1 else ucast pr)"

text \<open>
  The tables are searched before the mutex is taken.  Taking a mutex that could not be created is undefined,
  \<^term>\<open>None\<close>; the task has been created by then.
\<close>

definition mp_hal_esp32_create_freertos_task ::
  "'p rtos \<Rightarrow> sched \<Rightarrow> tcb_ref \<Rightarrow> u32 \<Rightarrow> u32 \<Rightarrow> 'p esp_tasks \<Rightarrow> (int \<times> 'p esp_tasks) option" where
  "mp_hal_esp32_create_freertos_task os s tcb func arg t =
     (let t1 = (if thread_map_mutex t = 0 then mp_hal_esp32_context_switch_init os t else t)
      in case find (\<lambda>i. freertos_tasks t1 ! i = 0) [0..<MAX_MICROPOSIX_THREADS] of
           None \<Rightarrow> Some (-1, t1)
         | Some free_slot \<Rightarrow>
             let (ok, task_handle, p) = xTaskCreate os func (tcb_name (tcbs s tcb)) (task_stack_words os (stack_size (tcbs s tcb)))
                   arg (task_priority os (priority (tcbs s tcb))) (rtos_hw t1)
             in if \<not> ok then Some (-1, t1\<lparr>rtos_hw := p\<rparr>)
                else if thread_map_mutex t1 = 0 then None
                else Some (0, t1\<lparr>freertos_tasks := (freertos_tasks t1)[free_slot := task_handle],
                     freertos_tcb_map := (freertos_tcb_map t1)[free_slot := Some tcb],
                     platform_data := (platform_data t1)(tcb := of_nat free_slot), rtos_hw := p\<rparr>))"

definition mp_hal_esp32_destroy_freertos_task :: "'p rtos \<Rightarrow> tcb_ref \<Rightarrow> 'p esp_tasks \<Rightarrow> 'p esp_tasks option" where
  "mp_hal_esp32_destroy_freertos_task os tcb t =
     (let d = platform_data t tcb
      in if d = 0 then Some t
         else if sint d < 0 \<or> sint d \<ge> int MAX_MICROPOSIX_THREADS then Some t
         else if thread_map_mutex t = 0 then None
         else
           let slot = unat d; task_handle = freertos_tasks t ! slot
           in Some (t\<lparr>freertos_tasks := (freertos_tasks t)[slot := 0], freertos_tcb_map := (freertos_tcb_map t)[slot := None],
                platform_data := (platform_data t)(tcb := 0),
                rtos_hw := if task_handle \<noteq> 0 then vTaskDelete os task_handle (rtos_hw t) else rtos_hw t\<rparr>))"

text \<open>The stack of a thread is that of its task; whether the task could be created is not looked at.\<close>

definition esp32_cpu_init_stack :: "'p rtos \<Rightarrow> sched \<Rightarrow> tcb_ref \<Rightarrow> u32 \<Rightarrow> u32 \<Rightarrow> 'p esp_tasks \<Rightarrow> 'p esp_tasks option" where
  "esp32_cpu_init_stack os s tcb func arg t = map_option snd (mp_hal_esp32_create_freertos_task os s tcb func arg t)"

text \<open>The thread of the running task, \<^term>\<open>None\<close> for \<open>NULL\<close>.\<close>

definition mp_hal_esp32_get_current_tcb :: "'p rtos \<Rightarrow> 'p esp_tasks \<Rightarrow> tcb_ref option" where
  "mp_hal_esp32_get_current_tcb os t =
     (if thread_map_mutex t = 0 then None
      else case find (\<lambda>i. freertos_tasks t ! i = xTaskGetCurrentTaskHandle os (rtos_hw t)) [0..<MAX_MICROPOSIX_THREADS] of
             Some i \<Rightarrow> freertos_tcb_map t ! i | None \<Rightarrow> None)"

text \<open>Suspending and resuming: \<open>f\<close> is the call of FreeRTOS.\<close>

definition on_task :: "(u32 \<Rightarrow> 'p \<Rightarrow> 'p) \<Rightarrow> tcb_ref \<Rightarrow> 'p esp_tasks \<Rightarrow> 'p esp_tasks" where
  "on_task f tcb t =
     (let d = platform_data t tcb
      in if d = 0 then t
         else if sint d < 0 \<or> sint d \<ge> int MAX_MICROPOSIX_THREADS then t
         else
           let task_handle = freertos_tasks t ! unat d
           in if task_handle \<noteq> 0 then t\<lparr>rtos_hw := f task_handle (rtos_hw t)\<rparr> else t)"

definition mp_hal_esp32_suspend_task :: "'p rtos \<Rightarrow> tcb_ref \<Rightarrow> 'p esp_tasks \<Rightarrow> 'p esp_tasks" where
  "mp_hal_esp32_suspend_task os = on_task (vTaskSuspend os)"

definition mp_hal_esp32_resume_task :: "'p rtos \<Rightarrow> tcb_ref \<Rightarrow> 'p esp_tasks \<Rightarrow> 'p esp_tasks" where
  "mp_hal_esp32_resume_task os = on_task (vTaskResume os)"

datatype task_call =
    Task_create sched tcb_ref u32 u32
  | Task_destroy tcb_ref
  | Task_suspend tcb_ref
  | Task_resume tcb_ref

fun task_step :: "'p rtos \<Rightarrow> task_call \<Rightarrow> 'p esp_tasks \<Rightarrow> 'p esp_tasks option" where
  "task_step os (Task_create s p f a) t = map_option snd (mp_hal_esp32_create_freertos_task os s p f a t)"
| "task_step os (Task_destroy p) t = mp_hal_esp32_destroy_freertos_task os p t"
| "task_step os (Task_suspend p) t = Some (mp_hal_esp32_suspend_task os p t)"
| "task_step os (Task_resume p) t = Some (mp_hal_esp32_resume_task os p t)"

fun task_steps :: "'p rtos \<Rightarrow> task_call list \<Rightarrow> 'p esp_tasks \<Rightarrow> 'p esp_tasks option" where
  "task_steps os [] t = Some t"
| "task_steps os (c # cs) t = do { t' \<leftarrow> task_step os c t; task_steps os cs t' }"

section \<open>Slots and tasks\<close>

text \<open>
  What FreeRTOS promises, by the set of its live tasks: a created task is new, deleting ends one, nothing else changes
  the set.
\<close>

definition rtos_laws :: "'p rtos \<Rightarrow> ('p \<Rightarrow> u32 set) \<Rightarrow> bool" where
  "rtos_laws os live \<longleftrightarrow>
     (\<forall>f n w a pr u h u'. xTaskCreate os f n w a pr u = (True, h, u') \<longrightarrow> h \<noteq> 0 \<and> h \<notin> live u \<and> live u' = insert h (live u)) \<and>
     (\<forall>f n w a pr u h u'. xTaskCreate os f n w a pr u = (False, h, u') \<longrightarrow> live u' = live u) \<and>
     (\<forall>h u. live (vTaskDelete os h u) = live u - {h}) \<and>
     (\<forall>h u. live (vTaskSuspend os h u) = live u) \<and>
     (\<forall>h u. live (vTaskResume os h u) = live u) \<and>
     (\<forall>u m u'. xSemaphoreCreateMutex os u = (m, u') \<longrightarrow> live u' = live u)"

lemma rtos_task_laws:
  assumes l: "rtos_laws os live"
  shows rtos_create_law: "\<And>f n w a pr u h u'. xTaskCreate os f n w a pr u = (True, h, u') \<Longrightarrow>
      h \<noteq> 0 \<and> h \<notin> live u \<and> live u' = insert h (live u)"
    and rtos_fail_law: "\<And>f n w a pr u h u'. xTaskCreate os f n w a pr u = (False, h, u') \<Longrightarrow> live u' = live u"
    and rtos_delete_law: "\<And>h u. live (vTaskDelete os h u) = live u - {h}"
    and rtos_suspend_law: "\<And>h u. live (vTaskSuspend os h u) = live u"
    and rtos_resume_law: "\<And>h u. live (vTaskResume os h u) = live u"
    and rtos_mutex_law: "\<And>u m u'. xSemaphoreCreateMutex os u = (m, u') \<Longrightarrow> live u' = live u"
proof -
  have "\<forall>f n w a pr u h u'. xTaskCreate os f n w a pr u = (True, h, u') \<longrightarrow> h \<noteq> 0 \<and> h \<notin> live u \<and> live u' = insert h (live u)"
    using l unfolding rtos_laws_def by (elim conjE)
  then show "\<And>f n w a pr u h u'. xTaskCreate os f n w a pr u = (True, h, u') \<Longrightarrow>
      h \<noteq> 0 \<and> h \<notin> live u \<and> live u' = insert h (live u)" by blast
  have "\<forall>f n w a pr u h u'. xTaskCreate os f n w a pr u = (False, h, u') \<longrightarrow> live u' = live u"
    using l unfolding rtos_laws_def by (elim conjE)
  then show "\<And>f n w a pr u h u'. xTaskCreate os f n w a pr u = (False, h, u') \<Longrightarrow> live u' = live u" by blast
  show "\<And>h u. live (vTaskDelete os h u) = live u - {h}" using l unfolding rtos_laws_def by (elim conjE) simp
  show "\<And>h u. live (vTaskSuspend os h u) = live u" using l unfolding rtos_laws_def by (elim conjE) simp
  show "\<And>h u. live (vTaskResume os h u) = live u" using l unfolding rtos_laws_def by (elim conjE) simp
  have "\<forall>u m u'. xSemaphoreCreateMutex os u = (m, u') \<longrightarrow> live u' = live u" using l unfolding rtos_laws_def by (elim conjE)
  then show "\<And>u m u'. xSemaphoreCreateMutex os u = (m, u') \<Longrightarrow> live u' = live u" by blast
qed

text \<open>
  Used slots hold live tasks, no two the same, each with a thread; a slot that a thread remembers is its own.  Slot 0
  cannot be remembered.
\<close>

definition tasks_inv :: "('p \<Rightarrow> u32 set) \<Rightarrow> 'p esp_tasks \<Rightarrow> bool" where
  "tasks_inv live t \<longleftrightarrow>
     length (freertos_tasks t) = 32 \<and> length (freertos_tcb_map t) = 32 \<and>
     (\<forall>i < 32. freertos_tasks t ! i \<noteq> 0 \<longrightarrow> freertos_tasks t ! i \<in> live (rtos_hw t) \<and> freertos_tcb_map t ! i \<noteq> None) \<and>
     (\<forall>i < 32. \<forall>j < 32. freertos_tasks t ! i \<noteq> 0 \<longrightarrow> freertos_tasks t ! i = freertos_tasks t ! j \<longrightarrow> i = j) \<and>
     (\<forall>p. platform_data t p \<noteq> 0 \<longrightarrow> unat (platform_data t p) < 32 \<and> freertos_tasks t ! unat (platform_data t p) \<noteq> 0 \<and>
        freertos_tcb_map t ! unat (platform_data t p) = Some p)"

text \<open>The task of slot 0 and its thread.\<close>

definition first_kept :: "'p esp_tasks \<Rightarrow> 'p esp_tasks \<Rightarrow> bool" where
  "first_kept t t' \<longleftrightarrow> (freertos_tasks t ! 0 \<noteq> 0 \<longrightarrow>
     freertos_tasks t' ! 0 = freertos_tasks t ! 0 \<and> freertos_tcb_map t' ! 0 = freertos_tcb_map t ! 0)"

lemma first_kept_refl [simp]: "first_kept t t" by (simp add: first_kept_def)

lemma first_kept_trans: "first_kept t t' \<Longrightarrow> first_kept t' t'' \<Longrightarrow> first_kept t t''"
  by (auto simp: first_kept_def)

lemma tasks_inv_same:
  assumes "tasks_inv live t" and "live u = live (rtos_hw t)"
  shows "tasks_inv live (t\<lparr>rtos_hw := u\<rparr>)" and "tasks_inv live (t\<lparr>thread_map_mutex := m, rtos_hw := u\<rparr>)"
  using assms by (simp_all add: tasks_inv_def)

lemma tasks_init_keeps:
  assumes "rtos_laws os live" and "tasks_inv live t"
  shows "tasks_inv live (mp_hal_esp32_context_switch_init os t) \<and>
    freertos_tasks (mp_hal_esp32_context_switch_init os t) = freertos_tasks t \<and>
    freertos_tcb_map (mp_hal_esp32_context_switch_init os t) = freertos_tcb_map t"
  using assms tasks_inv_same(2) [OF assms(2)] rtos_mutex_law [OF assms(1)]
  by (auto simp: mp_hal_esp32_context_switch_init_def split: prod.split)

lemma small_slot: "k < 32 \<Longrightarrow> unat (of_nat k :: u32) = k"
  by (simp add: unsigned_of_nat take_bit_eq_mod)

lemma small_word_sint:
  assumes "unat (d :: u32) < 32"
  shows "0 \<le> sint d \<and> sint d < 32"
proof -
  have "sint (of_nat n :: u32) = int n" if "n < 32" for n
    using that by (simp add: signed_of_nat signed_take_bit_int_eq_self)
  from this [OF assms] have "sint d = int (unat d)" by simp
  then show ?thesis using assms by linarith
qed

lemma tasks_store_keeps:
  assumes v: "tasks_inv live t" and k: "k < 32" "freertos_tasks t ! k = 0"
    and h: "h \<noteq> 0" "h \<notin> live (rtos_hw t)" "live u = insert h (live (rtos_hw t))"
  shows "tasks_inv live (t\<lparr>freertos_tasks := (freertos_tasks t)[k := h], freertos_tcb_map := (freertos_tcb_map t)[k := Some p],
     platform_data := (platform_data t)(p := of_nat k), rtos_hw := u\<rparr>)"
proof -
  let ?T = "freertos_tasks t"
  have len: "length ?T = 32" "length (freertos_tcb_map t) = 32" using v by (simp_all add: tasks_inv_def)
  have in_live: "?T ! i \<in> live (rtos_hw t)" "freertos_tcb_map t ! i \<noteq> None" if "i < 32" "?T ! i \<noteq> 0" for i
    using v that by (simp_all add: tasks_inv_def)
  have dist: "i = j" if "i < 32" "j < 32" "?T ! i \<noteq> 0" "?T ! i = ?T ! j" for i j
    using v that unfolding tasks_inv_def by blast
  have own: "unat (platform_data t q) < 32" "?T ! unat (platform_data t q) \<noteq> 0"
      "freertos_tcb_map t ! unat (platform_data t q) = Some q" if "platform_data t q \<noteq> 0" for q
    using v that by (auto simp: tasks_inv_def)
  have a: "\<forall>i < 32. ?T[k := h] ! i \<noteq> 0 \<longrightarrow> ?T[k := h] ! i \<in> live u \<and> (freertos_tcb_map t)[k := Some p] ! i \<noteq> None"
  proof (intro allI impI)
    fix i
    assume "i < 32" "?T[k := h] ! i \<noteq> 0"
    then show "?T[k := h] ! i \<in> live u \<and> (freertos_tcb_map t)[k := Some p] ! i \<noteq> None"
      using in_live [of i] h(3) len by (cases "i = k") simp_all
  qed
  have b: "\<forall>i < 32. \<forall>j < 32. ?T[k := h] ! i \<noteq> 0 \<longrightarrow> ?T[k := h] ! i = ?T[k := h] ! j \<longrightarrow> i = j"
  proof (intro allI impI)
    fix i j
    assume ij: "i < 32" "j < 32" "?T[k := h] ! i \<noteq> 0" "?T[k := h] ! i = ?T[k := h] ! j"
    show "i = j"
    proof (cases "i = k \<or> j = k")
      case True
      then show ?thesis using ij in_live h(1,2) len by (auto simp: nth_list_update split: if_splits)
    next
      case False
      then show ?thesis using ij dist len by simp
    qed
  qed
  have c: "unat (((platform_data t)(p := of_nat k)) q) < 32 \<and> ?T[k := h] ! unat (((platform_data t)(p := of_nat k)) q) \<noteq> 0 \<and>
      (freertos_tcb_map t)[k := Some p] ! unat (((platform_data t)(p := of_nat k)) q) = Some q"
    if "((platform_data t)(p := of_nat k)) q \<noteq> 0" for q
  proof (cases "q = p")
    case True
    then show ?thesis using k len h(1) by (simp add: small_slot)
  next
    case False
    then have d: "platform_data t q \<noteq> 0" using that by simp
    then have "unat (platform_data t q) \<noteq> k" using own(2) k(2) by auto
    then show ?thesis using own [OF d] False by simp
  qed
  show ?thesis unfolding tasks_inv_def using len a b c by simp
qed

lemma create_keeps:
  assumes l: "rtos_laws os live" and v: "tasks_inv live t" and c: "mp_hal_esp32_create_freertos_task os s p f a t = Some (r, t')"
  shows "tasks_inv live t' \<and> first_kept t t'"
proof -
  define t1 where "t1 = (if thread_map_mutex t = 0 then mp_hal_esp32_context_switch_init os t else t)"
  have t1: "tasks_inv live t1" "freertos_tasks t1 = freertos_tasks t" "freertos_tcb_map t1 = freertos_tcb_map t"
    using v tasks_init_keeps [OF l v] by (auto simp: t1_def)
  show ?thesis
  proof (cases "find (\<lambda>i. freertos_tasks t1 ! i = 0) [0..<MAX_MICROPOSIX_THREADS]")
    case None
    then show ?thesis using c t1 by (simp add: mp_hal_esp32_create_freertos_task_def Let_def t1_def [symmetric] first_kept_def)
  next
    case (Some k)
    then have k: "k < 32" "freertos_tasks t1 ! k = 0" by (auto simp: find_Some_iff MAX_MICROPOSIX_THREADS_def)
    obtain ok h u where x: "xTaskCreate os f (tcb_name (tcbs s p)) (task_stack_words os (stack_size (tcbs s p))) a
        (task_priority os (priority (tcbs s p))) (rtos_hw t1) = (ok, h, u)" by (rule prod_cases3)
    have r: "(if \<not> ok then Some (-1, t1\<lparr>rtos_hw := u\<rparr>) else if thread_map_mutex t1 = 0 then None
         else Some (0, t1\<lparr>freertos_tasks := (freertos_tasks t1)[k := h], freertos_tcb_map := (freertos_tcb_map t1)[k := Some p],
           platform_data := (platform_data t1)(p := of_nat k), rtos_hw := u\<rparr>)) = Some (r, t')"
      using c Some x by (simp add: mp_hal_esp32_create_freertos_task_def Let_def t1_def [symmetric])
    show ?thesis
    proof (cases "ok = True")
      case ok: True
      then have t': "t' = t1\<lparr>freertos_tasks := (freertos_tasks t1)[k := h], freertos_tcb_map := (freertos_tcb_map t1)[k := Some p],
           platform_data := (platform_data t1)(p := of_nat k), rtos_hw := u\<rparr>"
        using r by (simp split: if_splits)
      have "tasks_inv live t'"
        unfolding t' using rtos_create_law [OF l x [unfolded ok]] by (intro tasks_store_keeps [OF t1(1) k]) simp_all
      moreover have "first_kept t t'" using t1(2,3) k by (cases k) (auto simp: first_kept_def t')
      ultimately show ?thesis by simp
    next
      case False
      then show ?thesis using r rtos_fail_law [OF l] x tasks_inv_same(1) [OF t1(1)] t1 by (auto simp: first_kept_def)
    qed
  qed
qed

lemma destroy_keeps:
  assumes l: "rtos_laws os live" and v: "tasks_inv live t" and c: "mp_hal_esp32_destroy_freertos_task os p t = Some t'"
  shows "tasks_inv live t' \<and> first_kept t t'"
proof (cases "platform_data t p = 0")
  case True
  then show ?thesis using c v by (simp add: mp_hal_esp32_destroy_freertos_task_def)
next
  case False
  let ?T = "freertos_tasks t" and ?k = "unat (platform_data t p)"
  have k: "?k < 32" "?T ! ?k \<noteq> 0" "freertos_tcb_map t ! ?k = Some p" using v False by (auto simp: tasks_inv_def)
  have t': "t' = t\<lparr>freertos_tasks := ?T[?k := 0], freertos_tcb_map := (freertos_tcb_map t)[?k := None],
      platform_data := (platform_data t)(p := 0), rtos_hw := vTaskDelete os (?T ! ?k) (rtos_hw t)\<rparr>"
    using c False k small_word_sint [OF k(1)]
    by (simp add: mp_hal_esp32_destroy_freertos_task_def Let_def MAX_MICROPOSIX_THREADS_def split: if_splits)
  have len: "length ?T = 32" "length (freertos_tcb_map t) = 32" using v by (simp_all add: tasks_inv_def)
  have dist: "i = j" if "i < 32" "j < 32" "?T ! i \<noteq> 0" "?T ! i = ?T ! j" for i j
    using v that unfolding tasks_inv_def by blast
  have a: "\<forall>i < 32. ?T[?k := 0] ! i \<noteq> 0 \<longrightarrow>
      ?T[?k := 0] ! i \<in> live (vTaskDelete os (?T ! ?k) (rtos_hw t)) \<and> (freertos_tcb_map t)[?k := None] ! i \<noteq> None"
  proof (intro allI impI)
    fix i
    assume i: "i < 32" "?T[?k := 0] ! i \<noteq> 0"
    then have n: "i \<noteq> ?k" using len by (cases "i = ?k") auto
    then have "?T ! i \<noteq> ?T ! ?k" using dist [of i ?k] i k by auto
    then show "?T[?k := 0] ! i \<in> live (vTaskDelete os (?T ! ?k) (rtos_hw t)) \<and> (freertos_tcb_map t)[?k := None] ! i \<noteq> None"
      using v i n rtos_delete_law [OF l] by (simp add: tasks_inv_def)
  qed
  have b: "\<forall>i < 32. \<forall>j < 32. ?T[?k := 0] ! i \<noteq> 0 \<longrightarrow> ?T[?k := 0] ! i = ?T[?k := 0] ! j \<longrightarrow> i = j"
    using dist len k(1) by (auto simp: nth_list_update)
  have c: "\<forall>q. ((platform_data t)(p := 0)) q \<noteq> 0 \<longrightarrow> unat (((platform_data t)(p := 0)) q) < 32 \<and>
      ?T[?k := 0] ! unat (((platform_data t)(p := 0)) q) \<noteq> 0 \<and>
      (freertos_tcb_map t)[?k := None] ! unat (((platform_data t)(p := 0)) q) = Some q"
  proof (intro allI impI)
    fix q
    assume "((platform_data t)(p := 0)) q \<noteq> 0"
    then have q: "q \<noteq> p" "platform_data t q \<noteq> 0" by (auto split: if_splits)
    then have o: "unat (platform_data t q) < 32" "?T ! unat (platform_data t q) \<noteq> 0"
        "freertos_tcb_map t ! unat (platform_data t q) = Some q"
      using v by (auto simp: tasks_inv_def)
    then have "unat (platform_data t q) \<noteq> ?k" using k q by auto
    then show "unat (((platform_data t)(p := 0)) q) < 32 \<and> ?T[?k := 0] ! unat (((platform_data t)(p := 0)) q) \<noteq> 0 \<and>
        (freertos_tcb_map t)[?k := None] ! unat (((platform_data t)(p := 0)) q) = Some q"
      using o q by simp
  qed
  have "?k \<noteq> 0" using False by (simp add: unat_eq_0)
  then have "first_kept t t'" unfolding t' first_kept_def by simp
  moreover have "tasks_inv live t'" unfolding t' tasks_inv_def using len a b c by simp
  ultimately show ?thesis by simp
qed

lemma on_task_keeps:
  assumes v: "tasks_inv live t" and f: "\<And>h u. live (f h u) = live u"
  shows "tasks_inv live (on_task f p t) \<and> first_kept t (on_task f p t)"
proof -
  have "tasks_inv live (t\<lparr>rtos_hw := f h (rtos_hw t)\<rparr>)" for h by (rule tasks_inv_same(1) [OF v f])
  then show ?thesis using v by (simp add: on_task_def Let_def first_kept_def)
qed

lemma task_step_keeps:
  assumes l: "rtos_laws os live" and v: "tasks_inv live t" and c: "task_step os c t = Some t'"
  shows "tasks_inv live t' \<and> first_kept t t'"
proof (cases c)
  case (Task_create s p f a)
  then show ?thesis using c create_keeps [OF l v] by auto
next
  case (Task_destroy p)
  then show ?thesis using c destroy_keeps [OF l v] by simp
next
  case (Task_suspend p)
  then show ?thesis using c on_task_keeps [OF v, of "vTaskSuspend os"] rtos_suspend_law [OF l] by (auto simp: mp_hal_esp32_suspend_task_def)
next
  case (Task_resume p)
  then show ?thesis using c on_task_keeps [OF v, of "vTaskResume os"] rtos_resume_law [OF l] by (auto simp: mp_hal_esp32_resume_task_def)
qed

lemma task_steps_keep:
  "rtos_laws os live \<Longrightarrow> tasks_inv live t \<Longrightarrow> task_steps os cs t = Some t' \<Longrightarrow> tasks_inv live t' \<and> first_kept t t'"
proof (induction cs arbitrary: t)
  case (Cons c cs)
  obtain t1 where t1: "task_step os c t = Some t1" "task_steps os cs t1 = Some t'"
    using Cons.prems(3) by (auto split: bind_splits)
  have 1: "tasks_inv live t1 \<and> first_kept t t1" by (rule task_step_keeps [OF Cons.prems(1,2) t1(1)])
  then have "tasks_inv live t' \<and> first_kept t1 t'" using Cons.IH [OF Cons.prems(1) _ t1(2)] by simp
  then show ?case using 1 first_kept_trans by blast
qed simp

lemma tasks_boot_inv: "tasks_inv live (esp_tasks_boot u)"
  by (simp add: tasks_inv_def esp_tasks_boot_def MAX_MICROPOSIX_THREADS_def)

text \<open>
  After any sequence of calls from the start: the slot that a thread remembers holds a live task of its own, different
  threads have different tasks, and the thread of the running task is found in its slot.
\<close>

theorem esp32_tasks_owned:
  assumes "rtos_laws os live" and "task_steps os cs (esp_tasks_boot u) = Some t"
  shows "(\<forall>p. platform_data t p \<noteq> 0 \<longrightarrow> freertos_tasks t ! unat (platform_data t p) \<in> live (rtos_hw t) \<and>
        freertos_tcb_map t ! unat (platform_data t p) = Some p) \<and>
     (\<forall>i < 32. freertos_tasks t ! i \<noteq> 0 \<longrightarrow> thread_map_mutex t \<noteq> 0 \<longrightarrow>
        xTaskGetCurrentTaskHandle os (rtos_hw t) = freertos_tasks t ! i \<longrightarrow>
        mp_hal_esp32_get_current_tcb os t = freertos_tcb_map t ! i)"
proof -
  have v: "tasks_inv live t" using task_steps_keep [OF assms(1) tasks_boot_inv assms(2)] by simp
  have "mp_hal_esp32_get_current_tcb os t = freertos_tcb_map t ! i"
    if i: "i < 32" "freertos_tasks t ! i \<noteq> 0" and m: "thread_map_mutex t \<noteq> 0"
      and c: "xTaskGetCurrentTaskHandle os (rtos_hw t) = freertos_tasks t ! i" for i
  proof -
    have "\<forall>i < 32. \<forall>j < 32. freertos_tasks t ! i \<noteq> 0 \<longrightarrow> freertos_tasks t ! i = freertos_tasks t ! j \<longrightarrow> i = j"
      using v unfolding tasks_inv_def by (elim conjE)
    then have d: "j < 32 \<Longrightarrow> freertos_tasks t ! i = freertos_tasks t ! j \<Longrightarrow> i = j" for j using i by simp
    have "\<forall>j < i. freertos_tasks t ! j \<noteq> freertos_tasks t ! i"
    proof (intro allI impI notI)
      fix j assume "j < i" "freertos_tasks t ! j = freertos_tasks t ! i"
      then show False using d [of j] i by simp
    qed
    then have "find (\<lambda>j. freertos_tasks t ! j = freertos_tasks t ! i) [0..<MAX_MICROPOSIX_THREADS] = Some i"
      using i by (intro find_upt_prefix) (auto simp: MAX_MICROPOSIX_THREADS_def)
    then show ?thesis using m c by (simp add: mp_hal_esp32_get_current_tcb_def)
  qed
  then show ?thesis using v by (simp add: tasks_inv_def)
qed

section \<open>The first task\<close>

text \<open>What FreeRTOS promises of the set of its suspended tasks: a created task is not suspended.\<close>

definition suspend_laws :: "'p rtos \<Rightarrow> ('p \<Rightarrow> u32 set) \<Rightarrow> bool" where
  "suspend_laws os susp \<longleftrightarrow>
     (\<forall>f n w a pr u h u'. xTaskCreate os f n w a pr u = (True, h, u') \<longrightarrow> susp u' = susp u - {h}) \<and>
     (\<forall>f n w a pr u h u'. xTaskCreate os f n w a pr u = (False, h, u') \<longrightarrow> susp u' = susp u) \<and>
     (\<forall>h u. susp (vTaskDelete os h u) = susp u - {h}) \<and>
     (\<forall>h u. susp (vTaskSuspend os h u) = insert h (susp u)) \<and>
     (\<forall>h u. susp (vTaskResume os h u) = susp u - {h}) \<and>
     (\<forall>u m u'. xSemaphoreCreateMutex os u = (m, u') \<longrightarrow> susp u' = susp u)"

lemma rtos_suspend_laws:
  assumes l: "suspend_laws os susp"
  shows susp_create_law: "\<And>f n w a pr u h u'. xTaskCreate os f n w a pr u = (True, h, u') \<Longrightarrow> susp u' = susp u - {h}"
    and susp_fail_law: "\<And>f n w a pr u h u'. xTaskCreate os f n w a pr u = (False, h, u') \<Longrightarrow> susp u' = susp u"
    and susp_delete_law: "\<And>h u. susp (vTaskDelete os h u) = susp u - {h}"
    and susp_suspend_law: "\<And>h u. susp (vTaskSuspend os h u) = insert h (susp u)"
    and susp_resume_law: "\<And>h u. susp (vTaskResume os h u) = susp u - {h}"
    and susp_mutex_law: "\<And>u m u'. xSemaphoreCreateMutex os u = (m, u') \<Longrightarrow> susp u' = susp u"
proof -
  have "\<forall>f n w a pr u h u'. xTaskCreate os f n w a pr u = (True, h, u') \<longrightarrow> susp u' = susp u - {h}"
    using l unfolding suspend_laws_def by (elim conjE)
  then show "\<And>f n w a pr u h u'. xTaskCreate os f n w a pr u = (True, h, u') \<Longrightarrow> susp u' = susp u - {h}" by blast
  have "\<forall>f n w a pr u h u'. xTaskCreate os f n w a pr u = (False, h, u') \<longrightarrow> susp u' = susp u"
    using l unfolding suspend_laws_def by (elim conjE)
  then show "\<And>f n w a pr u h u'. xTaskCreate os f n w a pr u = (False, h, u') \<Longrightarrow> susp u' = susp u" by blast
  show "\<And>h u. susp (vTaskDelete os h u) = susp u - {h}" using l unfolding suspend_laws_def by (elim conjE) simp
  show "\<And>h u. susp (vTaskSuspend os h u) = insert h (susp u)" using l unfolding suspend_laws_def by (elim conjE) simp
  show "\<And>h u. susp (vTaskResume os h u) = susp u - {h}" using l unfolding suspend_laws_def by (elim conjE) simp
  have "\<forall>u m u'. xSemaphoreCreateMutex os u = (m, u') \<longrightarrow> susp u' = susp u" using l unfolding suspend_laws_def by (elim conjE)
  then show "\<And>u m u'. xSemaphoreCreateMutex os u = (m, u') \<Longrightarrow> susp u' = susp u" by blast
qed

text \<open>The task of slot 0 is not suspended.\<close>

definition first_awake :: "('p \<Rightarrow> u32 set) \<Rightarrow> 'p esp_tasks \<Rightarrow> bool" where
  "first_awake susp t \<longleftrightarrow> (freertos_tasks t ! 0 \<noteq> 0 \<longrightarrow> freertos_tasks t ! 0 \<notin> susp (rtos_hw t))"

lemma create_cases:
  assumes "mp_hal_esp32_create_freertos_task os s p f a t = Some (r, t')"
  defines "t1 \<equiv> (if thread_map_mutex t = 0 then mp_hal_esp32_context_switch_init os t else t)"
  obtains "r = -1" and "t' = t1"
  | h u where "r = -1" and "t' = t1\<lparr>rtos_hw := u\<rparr>"
      and "xTaskCreate os f (tcb_name (tcbs s p)) (task_stack_words os (stack_size (tcbs s p))) a
        (task_priority os (priority (tcbs s p))) (rtos_hw t1) = (False, h, u)"
  | k h u where "r = 0" and "k < 32" and "freertos_tasks t1 ! k = 0" and "\<forall>i < k. freertos_tasks t1 ! i \<noteq> 0"
      and "t' = t1\<lparr>freertos_tasks := (freertos_tasks t1)[k := h], freertos_tcb_map := (freertos_tcb_map t1)[k := Some p],
        platform_data := (platform_data t1)(p := of_nat k), rtos_hw := u\<rparr>"
      and "xTaskCreate os f (tcb_name (tcbs s p)) (task_stack_words os (stack_size (tcbs s p))) a
        (task_priority os (priority (tcbs s p))) (rtos_hw t1) = (True, h, u)"
proof (cases "find (\<lambda>i. freertos_tasks t1 ! i = 0) [0..<MAX_MICROPOSIX_THREADS]")
  case None
  then have "r = -1" "t' = t1" using assms by (simp_all add: mp_hal_esp32_create_freertos_task_def Let_def)
  then show thesis by (rule that(1))
next
  case (Some k)
  then have k: "k < 32" "freertos_tasks t1 ! k = 0" "\<forall>i < k. freertos_tasks t1 ! i \<noteq> 0"
    by (auto simp: find_Some_iff MAX_MICROPOSIX_THREADS_def)
  obtain ok h u where x: "xTaskCreate os f (tcb_name (tcbs s p)) (task_stack_words os (stack_size (tcbs s p))) a
      (task_priority os (priority (tcbs s p))) (rtos_hw t1) = (ok, h, u)" by (rule prod_cases3)
  have c: "(if \<not> ok then Some (-1, t1\<lparr>rtos_hw := u\<rparr>) else if thread_map_mutex t1 = 0 then None
       else Some (0, t1\<lparr>freertos_tasks := (freertos_tasks t1)[k := h], freertos_tcb_map := (freertos_tcb_map t1)[k := Some p],
         platform_data := (platform_data t1)(p := of_nat k), rtos_hw := u\<rparr>)) = Some (r, t')"
    using assms(1) Some x unfolding t1_def by (simp add: mp_hal_esp32_create_freertos_task_def Let_def)
  show thesis
  proof (cases ok)
    case True
    then show thesis using c x k by (intro that(3) [of k u h]) (simp_all split: if_splits)
  next
    case False
    then show thesis using c x by (intro that(2) [of u h]) simp_all
  qed
qed

lemma init_same_tables:
  "freertos_tasks (mp_hal_esp32_context_switch_init os t) = freertos_tasks t"
  "platform_data (mp_hal_esp32_context_switch_init os t) = platform_data t"
  "freertos_tcb_map (mp_hal_esp32_context_switch_init os t) = freertos_tcb_map t"
  by (simp_all add: mp_hal_esp32_context_switch_init_def split: prod.split)

lemma init_susp: "suspend_laws os susp \<Longrightarrow> susp (rtos_hw (mp_hal_esp32_context_switch_init os t)) = susp (rtos_hw t)"
  by (cases "xSemaphoreCreateMutex os (rtos_hw t)") (auto simp: mp_hal_esp32_context_switch_init_def dest: susp_mutex_law)

lemma on_task_cases:
  "on_task f p t = t \<or> platform_data t p \<noteq> 0 \<and>
     on_task f p t = t\<lparr>rtos_hw := f (freertos_tasks t ! unat (platform_data t p)) (rtos_hw t)\<rparr>"
  by (simp add: on_task_def Let_def)

text \<open>A thread that remembers a slot has a task other than that of slot 0.\<close>

lemma remembered_not_first:
  assumes v: "tasks_inv live t" and d: "platform_data t p \<noteq> 0" and z: "freertos_tasks t ! 0 \<noteq> 0"
  shows "freertos_tasks t ! unat (platform_data t p) \<noteq> freertos_tasks t ! 0" and "unat (platform_data t p) \<noteq> 0"
proof -
  show k: "unat (platform_data t p) \<noteq> 0" using d by (simp add: unat_eq_0)
  have o: "unat (platform_data t p) < 32" using v d by (simp add: tasks_inv_def)
  have "i = j" if "i < 32" "j < 32" "freertos_tasks t ! i \<noteq> 0" "freertos_tasks t ! i = freertos_tasks t ! j" for i j
    using v that unfolding tasks_inv_def by blast
  then have "freertos_tasks t ! 0 = freertos_tasks t ! unat (platform_data t p) \<Longrightarrow> 0 = unat (platform_data t p)"
    using o z by simp
  then show "freertos_tasks t ! unat (platform_data t p) \<noteq> freertos_tasks t ! 0" using k by metis
qed

lemma task_step_awake:
  assumes l: "suspend_laws os susp" and v: "tasks_inv live t" and g: "first_awake susp t" and c: "task_step os c t = Some t'"
  shows "first_awake susp t'"
proof (cases c)
  case (Task_create s p f a)
  define t1 where "t1 = (if thread_map_mutex t = 0 then mp_hal_esp32_context_switch_init os t else t)"
  have g1: "first_awake susp t1" using g init_susp [OF l] by (simp add: t1_def first_awake_def init_same_tables)
  have len: "length (freertos_tasks t1) = 32" using v by (simp add: t1_def init_same_tables tasks_inv_def)
  obtain r where r: "mp_hal_esp32_create_freertos_task os s p f a t = Some (r, t')" using c Task_create by auto
  show ?thesis
  proof (rule create_cases [OF r, folded t1_def])
    assume "t' = t1"
    then show ?thesis using g1 by simp
  next
    fix h u assume "t' = t1\<lparr>rtos_hw := u\<rparr>"
      "xTaskCreate os f (tcb_name (tcbs s p)) (task_stack_words os (stack_size (tcbs s p))) a
        (task_priority os (priority (tcbs s p))) (rtos_hw t1) = (False, h, u)"
    then show ?thesis using g1 susp_fail_law [OF l] by (auto simp: first_awake_def)
  next
    fix k h u assume t': "k < 32" "t' = t1\<lparr>freertos_tasks := (freertos_tasks t1)[k := h],
        freertos_tcb_map := (freertos_tcb_map t1)[k := Some p], platform_data := (platform_data t1)(p := of_nat k), rtos_hw := u\<rparr>"
      and x: "xTaskCreate os f (tcb_name (tcbs s p)) (task_stack_words os (stack_size (tcbs s p))) a
        (task_priority os (priority (tcbs s p))) (rtos_hw t1) = (True, h, u)"
    show ?thesis using g1 t' len susp_create_law [OF l x] by (cases k) (auto simp: first_awake_def)
  qed
next
  case (Task_destroy p)
  show ?thesis
  proof (cases "platform_data t p = 0")
    case True
    then show ?thesis using c Task_destroy g by (simp add: mp_hal_esp32_destroy_freertos_task_def)
  next
    case False
    then have "freertos_tasks t' ! 0 = freertos_tasks t ! 0 \<and>
        (rtos_hw t' = rtos_hw t \<or> (\<exists>h. rtos_hw t' = vTaskDelete os h (rtos_hw t)))"
      using c Task_destroy
      by (auto simp: mp_hal_esp32_destroy_freertos_task_def Let_def unat_eq_0 split: if_splits)
    then show ?thesis using g susp_delete_law [OF l] by (auto simp: first_awake_def)
  qed
next
  case (Task_suspend p)
  then have "t' = on_task (vTaskSuspend os) p t" using c by (simp add: mp_hal_esp32_suspend_task_def)
  then show ?thesis
    using on_task_cases [of "vTaskSuspend os" p t] g remembered_not_first(1) [OF v, of p] susp_suspend_law [OF l]
    by (auto simp: first_awake_def)
next
  case (Task_resume p)
  then have "t' = on_task (vTaskResume os) p t" using c by (simp add: mp_hal_esp32_resume_task_def)
  then show ?thesis
    using on_task_cases [of "vTaskResume os" p t] g susp_resume_law [OF l] by (auto simp: first_awake_def)
qed

lemma task_steps_awake:
  "rtos_laws os live \<Longrightarrow> suspend_laws os susp \<Longrightarrow> tasks_inv live t \<Longrightarrow> first_awake susp t \<Longrightarrow>
   task_steps os cs t = Some t' \<Longrightarrow> first_awake susp t'"
proof (induction cs arbitrary: t)
  case (Cons c cs)
  obtain t1 where t1: "task_step os c t = Some t1" "task_steps os cs t1 = Some t'"
    using Cons.prems(5) by (auto split: bind_splits)
  have "tasks_inv live t1" using task_step_keeps [OF Cons.prems(1,3) t1(1)] by simp
  then show ?case by (intro Cons.IH [OF Cons.prems(1,2) _ task_step_awake [OF Cons.prems(2-4) t1(1)] t1(2)])
qed simp

text \<open>Only a creation gives a thread a slot to remember.\<close>

lemma task_step_unnamed:
  assumes "\<forall>s f a. c \<noteq> Task_create s p f a" and "platform_data t p = 0" and "task_step os c t = Some t'"
  shows "platform_data t' p = 0"
proof (cases c)
  case (Task_create s q f a)
  then obtain r where r: "mp_hal_esp32_create_freertos_task os s q f a t = Some (r, t')" using assms(3) by auto
  have "q \<noteq> p" using assms(1) Task_create by auto
  show ?thesis by (rule create_cases [OF r]) (use \<open>q \<noteq> p\<close> assms(2) in \<open>simp_all add: init_same_tables\<close>)
next
  case (Task_destroy q)
  then show ?thesis using assms(2,3) by (auto simp: mp_hal_esp32_destroy_freertos_task_def Let_def split: if_splits)
qed (use assms(2,3) in \<open>auto simp: mp_hal_esp32_suspend_task_def mp_hal_esp32_resume_task_def on_task_def Let_def\<close>)

lemma task_steps_unnamed:
  "\<forall>s f a. Task_create s p f a \<notin> set cs \<Longrightarrow> platform_data t p = 0 \<Longrightarrow> task_steps os cs t = Some t' \<Longrightarrow> platform_data t' p = 0"
proof (induction cs arbitrary: t)
  case (Cons c cs)
  obtain t1 where t1: "task_step os c t = Some t1" "task_steps os cs t1 = Some t'"
    using Cons.prems(3) by (auto split: bind_splits)
  have "platform_data t1 p = 0" by (rule task_step_unnamed [OF _ Cons.prems(2) t1(1)]) (use Cons.prems(1) in auto)
  then show ?case by (intro Cons.IH [OF _ _ t1(2)]) (use Cons.prems(1) in auto)
qed simp

text \<open>
  C36. The first thread is given slot 0, which its \<open>platform_data\<close> cannot tell from \<open>NULL\<close>.  Whatever is called afterwards,
  destroying and suspending the thread included, its task stays in the slot, stays alive and is never suspended; and as long
  as the thread is not given a second task, destroying, suspending and resuming it do nothing at all.
\<close>

theorem esp32_first_task_stays:
  assumes "rtos_laws os live" and "suspend_laws os susp"
    and "mp_hal_esp32_create_freertos_task os s p f a (esp_tasks_boot u) = Some (0, t1)" and "task_steps os cs t1 = Some t"
  shows "freertos_tasks t1 ! 0 \<noteq> 0 \<and> freertos_tasks t ! 0 = freertos_tasks t1 ! 0 \<and> freertos_tcb_map t ! 0 = Some p \<and>
     freertos_tasks t1 ! 0 \<in> live (rtos_hw t) \<and> freertos_tasks t1 ! 0 \<notin> susp (rtos_hw t) \<and>
     ((\<forall>s' f' a'. Task_create s' p f' a' \<notin> set cs) \<longrightarrow>
       mp_hal_esp32_destroy_freertos_task os p t = Some t \<and> mp_hal_esp32_suspend_task os p t = t \<and>
       mp_hal_esp32_resume_task os p t = t)"
proof -
  define b1 where "b1 = (if thread_map_mutex (esp_tasks_boot u) = 0 then mp_hal_esp32_context_switch_init os (esp_tasks_boot u)
    else esp_tasks_boot u)"
  have b: "freertos_tasks b1 = replicate 32 0" "freertos_tcb_map b1 = replicate 32 None"
    by (simp_all add: b1_def init_same_tables esp_tasks_boot_def MAX_MICROPOSIX_THREADS_def)
  have f: "freertos_tasks t1 ! 0 \<noteq> 0 \<and> freertos_tcb_map t1 ! 0 = Some p \<and> platform_data t1 p = 0 \<and> first_awake susp t1"
  proof (rule create_cases [OF assms(3), folded b1_def])
    fix k h u1
    assume "\<forall>i < k. freertos_tasks b1 ! i \<noteq> 0" and k: "k < 32"
    then have "k = 0" using b(1) by (cases k) auto
    moreover assume "t1 = b1\<lparr>freertos_tasks := (freertos_tasks b1)[k := h], freertos_tcb_map := (freertos_tcb_map b1)[k := Some p],
        platform_data := (platform_data b1)(p := of_nat k), rtos_hw := u1\<rparr>"
    moreover assume x: "xTaskCreate os f (tcb_name (tcbs s p)) (task_stack_words os (stack_size (tcbs s p))) a
        (task_priority os (priority (tcbs s p))) (rtos_hw b1) = (True, h, u1)"
    ultimately show ?thesis
      using b rtos_create_law [OF assms(1) x] susp_create_law [OF assms(2) x] by (simp add: first_awake_def)
  qed simp_all
  have v1: "tasks_inv live t1" by (rule conjunct1 [OF create_keeps [OF assms(1) tasks_boot_inv assms(3)]])
  have k: "tasks_inv live t" "first_kept t1 t" using task_steps_keep [OF assms(1) v1 assms(4)] by simp_all
  have g: "first_awake susp t" using task_steps_awake [OF assms(1,2) v1 _ assms(4)] f by simp
  have z: "freertos_tasks t ! 0 = freertos_tasks t1 ! 0" "freertos_tcb_map t ! 0 = Some p" using f k(2) by (simp_all add: first_kept_def)
  have "freertos_tasks t1 ! 0 \<in> live (rtos_hw t)" using k(1) f unfolding tasks_inv_def z(1) [symmetric] by auto
  moreover have "mp_hal_esp32_destroy_freertos_task os p t = Some t \<and> mp_hal_esp32_suspend_task os p t = t \<and>
      mp_hal_esp32_resume_task os p t = t" if "\<forall>s' f' a'. Task_create s' p f' a' \<notin> set cs"
    using task_steps_unnamed [OF that _ assms(4)] f
    by (simp add: mp_hal_esp32_destroy_freertos_task_def mp_hal_esp32_suspend_task_def mp_hal_esp32_resume_task_def on_task_def)
  ultimately show ?thesis using f z g by (simp add: first_awake_def)
qed

text \<open>A platform for the witness: its state is the list of its tasks and that of the suspended ones; the semaphore is 7.\<close>

definition demo_rtos :: "(u32 list \<times> u32 list) rtos" where
  "demo_rtos =
     \<lparr>stack_word = 1, configMINIMAL_STACK_SIZE = 768, configMAX_PRIORITIES = 25,
      xTaskCreate = (\<lambda>f n w a pr (u, v). let h = foldr max u 0 + 1
        in if h = 0 \<or> h \<in> set u then (False, 0, u, v) else (True, h, h # u, filter (\<lambda>x. x \<noteq> h) v)),
      vTaskDelete = (\<lambda>h (u, v). (filter (\<lambda>x. x \<noteq> h) u, filter (\<lambda>x. x \<noteq> h) v)),
      vTaskSuspend = (\<lambda>h (u, v). (u, h # v)), vTaskResume = (\<lambda>h (u, v). (u, filter (\<lambda>x. x \<noteq> h) v)),
      xSemaphoreCreateMutex = (\<lambda>u. (7, u)), xTaskGetCurrentTaskHandle = (\<lambda>u. 0)\<rparr>"

lemma demo_rtos_laws: "rtos_laws demo_rtos (\<lambda>u. set (fst u))" "suspend_laws demo_rtos (\<lambda>u. set (snd u))"
  by (auto simp: rtos_laws_def suspend_laws_def demo_rtos_def Let_def split: if_splits)

lemma esp32_first_task_stays_witness:
  "\<exists>t1 t. mp_hal_esp32_create_freertos_task demo_rtos (boot_state (\<lambda>_. 0)) (Tcb_pool 0) 100 0 (esp_tasks_boot ([], [])) = Some (0, t1) \<and>
     task_steps demo_rtos [Task_create (boot_state (\<lambda>_. 0)) (Tcb_pool 1) 200 0, Task_suspend (Tcb_pool 0), Task_suspend (Tcb_pool 1),
       Task_destroy (Tcb_pool 0)] t1 = Some t \<and>
     freertos_tasks t ! 0 = freertos_tasks t1 ! 0 \<and> rtos_hw t = ([2, 1], [2]) \<and>
     mp_hal_esp32_destroy_freertos_task demo_rtos (Tcb_pool 0) t = Some t"
proof -
  let ?s = "boot_state (\<lambda>_. 0)"
  let ?cs = "[Task_create ?s (Tcb_pool 1) 200 0, Task_suspend (Tcb_pool 0), Task_suspend (Tcb_pool 1), Task_destroy (Tcb_pool 0)]"
  obtain t1 where t1: "mp_hal_esp32_create_freertos_task demo_rtos ?s (Tcb_pool 0) 100 0 (esp_tasks_boot ([], [])) = Some (0, t1)"
    "case task_steps demo_rtos ?cs t1 of None \<Rightarrow> False | Some t \<Rightarrow> rtos_hw t = ([2, 1], [2])"
    by (simp add: mp_hal_esp32_create_freertos_task_def mp_hal_esp32_context_switch_init_def esp_tasks_boot_def
        MAX_MICROPOSIX_THREADS_def demo_rtos_def Let_def mp_hal_esp32_destroy_freertos_task_def mp_hal_esp32_suspend_task_def
        on_task_def upt_rec)
  then obtain t where t: "task_steps demo_rtos ?cs t1 = Some t" "rtos_hw t = ([2, 1], [2])" by (auto split: option.splits)
  show ?thesis using esp32_first_task_stays [OF demo_rtos_laws t1(1) t(1)] t1(1) t by auto
qed

end
