(* ===== verification/Esp32Uart.thy ===== *)
theory Esp32Uart
  imports Prelude
begin

text \<open>
  The serial ports of the ESP32, \<open>platform/esp32/uart.c\<close>: a table of three ports in front of the UART driver of ESP-IDF and
  the queues of FreeRTOS, which are parameters.  Queues are pointers, 0 for \<open>NULL\<close>.  Lines that are logged are left out.
\<close>

definition MP_HAL_ESP32_UART_TX_BUFFER_SIZE :: u32 where "MP_HAL_ESP32_UART_TX_BUFFER_SIZE = 4096"
definition MP_HAL_ESP32_UART_RX_BUFFER_SIZE :: u32 where "MP_HAL_ESP32_UART_RX_BUFFER_SIZE = 512"
definition MP_HAL_ESP32_UART_SHELL_BAUD :: u32 where "MP_HAL_ESP32_UART_SHELL_BAUD = 115200"

text \<open>A port is configured with 8 data bits, no parity, one stop bit and no flow control; the baud rate is given.\<close>

record 'u uart_idf =
  uart_driver_install :: "nat \<Rightarrow> u32 \<Rightarrow> u32 \<Rightarrow> 'u \<Rightarrow> int \<times> 'u"
  uart_driver_delete :: "nat \<Rightarrow> 'u \<Rightarrow> 'u"
  uart_param_config :: "nat \<Rightarrow> u32 \<Rightarrow> 'u \<Rightarrow> int \<times> 'u"
  uart_set_pin :: "nat \<Rightarrow> int \<Rightarrow> int \<Rightarrow> 'u \<Rightarrow> int \<times> 'u"
  queue_create :: "u32 \<Rightarrow> nat \<Rightarrow> 'u \<Rightarrow> u32 \<times> 'u"
  queue_delete :: "u32 \<Rightarrow> 'u \<Rightarrow> 'u"
  uart_write_bytes :: "nat \<Rightarrow> u8 list \<Rightarrow> 'u \<Rightarrow> int \<times> 'u"
  uart_read_bytes :: "nat \<Rightarrow> u32 \<Rightarrow> 'u \<Rightarrow> int \<times> u8 list \<times> 'u"
  uart_buffered_len :: "nat \<Rightarrow> 'u \<Rightarrow> int \<times> u32"
  uart_wait_tx_done :: "nat \<Rightarrow> 'u \<Rightarrow> 'u"
  uart_flush_input :: "nat \<Rightarrow> 'u \<Rightarrow> 'u"
  uart_enable_rx_intr :: "nat \<Rightarrow> u32 \<Rightarrow> 'u \<Rightarrow> int \<times> 'u"
  uart_isr_register :: "nat \<Rightarrow> 'u \<Rightarrow> int \<times> 'u"

record uart_config =
  uc_port :: nat
  uc_tx_queue :: u32
  uc_rx_queue :: u32
  uc_initialized :: bool

record 'u uarts =
  uart_configs :: "uart_config list"
  uart_hw :: 'u

definition uart_boot :: "'u \<Rightarrow> 'u uarts" where
  "uart_boot u =
     \<lparr>uart_configs = replicate 3 \<lparr>uc_port = 0, uc_tx_queue = 0, uc_rx_queue = 0, uc_initialized = False\<rparr>, uart_hw = u\<rparr>"

definition upd_uart :: "nat \<Rightarrow> (uart_config \<Rightarrow> uart_config) \<Rightarrow> 'u uarts \<Rightarrow> 'u uarts" where
  "upd_uart i f s = s\<lparr>uart_configs := (uart_configs s)[i := f (uart_configs s ! i)]\<rparr>"

definition uart_is_open :: "'u uarts \<Rightarrow> u32 \<Rightarrow> bool" where
  "uart_is_open s port_num \<longleftrightarrow> port_num < 3 \<and> uc_initialized (uart_configs s ! unat port_num)"

definition mp_hal_esp32_uart_init :: "'u uart_idf \<Rightarrow> u32 \<Rightarrow> u32 \<Rightarrow> int \<Rightarrow> int \<Rightarrow> 'u uarts \<Rightarrow> int \<times> 'u uarts" where
  "mp_hal_esp32_uart_init idf port_num baud_rate tx_pin rx_pin s =
     (if port_num \<ge> 3 then (-1, s)
      else if uc_initialized (uart_configs s ! unat port_num) then (0, s)
      else
        let i = unat port_num;
            (e1, u1) = uart_driver_install idf i MP_HAL_ESP32_UART_TX_BUFFER_SIZE MP_HAL_ESP32_UART_RX_BUFFER_SIZE (uart_hw s)
        in if e1 \<noteq> 0 then (-1, s\<lparr>uart_hw := u1\<rparr>)
           else
             let (e2, u2) = uart_param_config idf i baud_rate u1
             in if e2 \<noteq> 0 then (-1, s\<lparr>uart_hw := uart_driver_delete idf i u2\<rparr>)
                else
                  let (e3, u3) = uart_set_pin idf i tx_pin rx_pin u2
                  in if e3 \<noteq> 0 then (-1, s\<lparr>uart_hw := uart_driver_delete idf i u3\<rparr>)
                     else
                       let (tq, u4) = queue_create idf MP_HAL_ESP32_UART_TX_BUFFER_SIZE 1 u3;
                           (rq, u5) = queue_create idf MP_HAL_ESP32_UART_RX_BUFFER_SIZE 1 u4;
                           s1 = upd_uart i (\<lambda>c. c\<lparr>uc_tx_queue := tq, uc_rx_queue := rq\<rparr>) s
                       in if tq = 0 \<or> rq = 0 then (-1, s1\<lparr>uart_hw := uart_driver_delete idf i u5\<rparr>)
                          else (0, (upd_uart i (\<lambda>c. c\<lparr>uc_port := i, uc_initialized := True\<rparr>) s1)\<lparr>uart_hw := u5\<rparr>))"

text \<open>A queue that is there is deleted.\<close>

definition drop_queue :: "'u uart_idf \<Rightarrow> u32 \<Rightarrow> 'u \<Rightarrow> 'u" where
  "drop_queue idf q u = (if q \<noteq> 0 then queue_delete idf q u else u)"

definition mp_hal_esp32_uart_deinit :: "'u uart_idf \<Rightarrow> u32 \<Rightarrow> 'u uarts \<Rightarrow> 'u uarts" where
  "mp_hal_esp32_uart_deinit idf port_num s =
     (if \<not> uart_is_open s port_num then s
      else
        let i = unat port_num; c = uart_configs s ! i;
            u = drop_queue idf (uc_rx_queue c) (drop_queue idf (uc_tx_queue c) (uart_hw s))
        in (upd_uart i (\<lambda>c. c\<lparr>uc_tx_queue := 0, uc_rx_queue := 0, uc_initialized := False\<rparr>) s)
             \<lparr>uart_hw := uart_driver_delete idf (uc_port c) u\<rparr>)"

definition mp_hal_esp32_uart_send_byte :: "'u uart_idf \<Rightarrow> u32 \<Rightarrow> u8 \<Rightarrow> 'u uarts \<Rightarrow> int \<times> 'u uarts" where
  "mp_hal_esp32_uart_send_byte idf port_num byte s =
     (if \<not> uart_is_open s port_num then (-1, s)
      else
        let (n, u) = uart_write_bytes idf (uc_port (uart_configs s ! unat port_num)) [byte] (uart_hw s)
        in (if n < 0 then -1 else 0, s\<lparr>uart_hw := u\<rparr>))"

definition mp_hal_esp32_uart_send_data :: "'u uart_idf \<Rightarrow> u32 \<Rightarrow> u8 list \<Rightarrow> u32 \<Rightarrow> 'u uarts \<Rightarrow> (int \<times> 'u uarts) option" where
  "mp_hal_esp32_uart_send_data idf port_num data len s =
     (if \<not> uart_is_open s port_num then Some (-1, s)
      else do {
        bytes \<leftarrow> mem_read data 0 (unat len);
        let (n, u) = uart_write_bytes idf (uc_port (uart_configs s ! unat port_num)) bytes (uart_hw s);
        Some (if n < 0 then -1 else n, s\<lparr>uart_hw := u\<rparr>) })"

text \<open>The result, the buffer and the state.\<close>

definition mp_hal_esp32_uart_receive_byte ::
  "'u uart_idf \<Rightarrow> u32 \<Rightarrow> u8 list \<Rightarrow> 'u uarts \<Rightarrow> (int \<times> u8 list \<times> 'u uarts) option" where
  "mp_hal_esp32_uart_receive_byte idf port_num byte s =
     (if \<not> uart_is_open s port_num then Some (-1, byte, s)
      else
        let (n, bytes, u) = uart_read_bytes idf (uc_port (uart_configs s ! unat port_num)) 1 (uart_hw s)
        in do { b \<leftarrow> mem_write byte 0 bytes; Some (if n > 0 then 0 else -1, b, s\<lparr>uart_hw := u\<rparr>) })"

definition mp_hal_esp32_uart_receive_data ::
  "'u uart_idf \<Rightarrow> u32 \<Rightarrow> u8 list \<Rightarrow> u32 \<Rightarrow> 'u uarts \<Rightarrow> (int \<times> u8 list \<times> 'u uarts) option" where
  "mp_hal_esp32_uart_receive_data idf port_num data max_len s =
     (if \<not> uart_is_open s port_num then Some (-1, data, s)
      else
        let (n, bytes, u) = uart_read_bytes idf (uc_port (uart_configs s ! unat port_num)) max_len (uart_hw s)
        in do { b \<leftarrow> mem_write data 0 bytes; Some (if n > 0 then n else 0, b, s\<lparr>uart_hw := u\<rparr>) })"

definition mp_hal_esp32_uart_available :: "'u uart_idf \<Rightarrow> u32 \<Rightarrow> 'u uarts \<Rightarrow> bool" where
  "mp_hal_esp32_uart_available idf port_num s =
     (uart_is_open s port_num \<and>
      (let (err, n) = uart_buffered_len idf (uc_port (uart_configs s ! unat port_num)) (uart_hw s) in err = 0 \<and> n > 0))"

definition mp_hal_esp32_uart_flush :: "'u uart_idf \<Rightarrow> u32 \<Rightarrow> 'u uarts \<Rightarrow> 'u uarts" where
  "mp_hal_esp32_uart_flush idf port_num s =
     (if \<not> uart_is_open s port_num then s
      else s\<lparr>uart_hw := uart_wait_tx_done idf (uc_port (uart_configs s ! unat port_num)) (uart_hw s)\<rparr>)"

text \<open>A round of the event handler, with the event its queue gave: the bytes are read into 128 bytes and dropped.\<close>

datatype uart_event = UART_DATA u32 | UART_FIFO_OVF | UART_BUFFER_FULL | UART_OTHER int

fun mp_hal_esp32_uart_event_handler :: "'u uart_idf \<Rightarrow> nat \<Rightarrow> uart_event \<Rightarrow> 'u uarts \<Rightarrow> 'u uarts option" where
  "mp_hal_esp32_uart_event_handler idf port (UART_DATA sz) s =
     (let (n, bytes, u) = uart_read_bytes idf port sz (uart_hw s)
      in if length bytes > 128 then None else Some (s\<lparr>uart_hw := u\<rparr>))"
| "mp_hal_esp32_uart_event_handler idf port UART_FIFO_OVF s = Some (s\<lparr>uart_hw := uart_flush_input idf port (uart_hw s)\<rparr>)"
| "mp_hal_esp32_uart_event_handler idf port UART_BUFFER_FULL s = Some (s\<lparr>uart_hw := uart_flush_input idf port (uart_hw s)\<rparr>)"
| "mp_hal_esp32_uart_event_handler idf port (UART_OTHER n) s = Some s"

text \<open>\<open>sz_event\<close> is the size of an event of the driver.  The result of the initialisation is not looked at.\<close>

definition mp_hal_esp32_uart_setup_ringbuffer ::
  "'u uart_idf \<Rightarrow> nat \<Rightarrow> u32 \<Rightarrow> u32 \<Rightarrow> u32 \<Rightarrow> 'u uarts \<Rightarrow> int \<times> 'u uarts" where
  "mp_hal_esp32_uart_setup_ringbuffer idf sz_event port_num tx_buffer_size rx_buffer_size s =
     (if port_num \<ge> 3 then (-1, s)
      else
        let i = unat port_num;
            s1 = (if uc_initialized (uart_configs s ! i) then s
                  else if port_num = 0 then snd (mp_hal_esp32_uart_init idf port_num MP_HAL_ESP32_UART_SHELL_BAUD 1 3 s)
                  else snd (mp_hal_esp32_uart_init idf port_num 115200 17 16 s));
            c = uart_configs s1 ! i;
            u = drop_queue idf (uc_rx_queue c) (drop_queue idf (uc_tx_queue c) (uart_hw s1));
            (tq, u1) = queue_create idf tx_buffer_size 1 u;
            (rq, u2) = queue_create idf rx_buffer_size 1 u1;
            s2 = upd_uart i (\<lambda>c. c\<lparr>uc_tx_queue := tq, uc_rx_queue := rq\<rparr>) s1
        in if tq = 0 \<or> rq = 0 then (-1, s2\<lparr>uart_hw := u2\<rparr>)
           else
             let (e1, u3) = uart_enable_rx_intr idf (uc_port c) tx_buffer_size u2
             in if e1 \<noteq> 0 then (-1, s2\<lparr>uart_hw := u3\<rparr>)
                else
                  let (eq, u4) = queue_create idf 10 sz_event u3
                  in if eq = 0 then (-1, s2\<lparr>uart_hw := u4\<rparr>)
                     else
                       let (e2, u5) = uart_isr_register idf (uc_port c) u4
                       in (if e2 \<noteq> 0 then -1 else 0, s2\<lparr>uart_hw := u5\<rparr>))"

section \<open>Drivers and initialised ports\<close>

text \<open>
  What the driver promises, by the set of ports that have one: a port that has one is not given a second, deleting ends
  it, nothing else changes the set.
\<close>

definition uart_laws :: "'u uart_idf \<Rightarrow> ('u \<Rightarrow> nat set) \<Rightarrow> bool" where
  "uart_laws idf drv \<longleftrightarrow>
     (\<forall>p a b u e u'. uart_driver_install idf p a b u = (e, u') \<longrightarrow>
        (if e = 0 then p \<notin> drv u \<and> drv u' = insert p (drv u) else drv u' = drv u)) \<and>
     (\<forall>p u. drv (uart_driver_delete idf p u) = drv u - {p}) \<and>
     (\<forall>p b u e u'. uart_param_config idf p b u = (e, u') \<longrightarrow> drv u' = drv u) \<and>
     (\<forall>p a b u e u'. uart_set_pin idf p a b u = (e, u') \<longrightarrow> drv u' = drv u) \<and>
     (\<forall>n z u q u'. queue_create idf n z u = (q, u') \<longrightarrow> drv u' = drv u) \<and>
     (\<forall>q u. drv (queue_delete idf q u) = drv u) \<and>
     (\<forall>p b u n u'. uart_write_bytes idf p b u = (n, u') \<longrightarrow> drv u' = drv u) \<and>
     (\<forall>p k u n b u'. uart_read_bytes idf p k u = (n, b, u') \<longrightarrow> drv u' = drv u) \<and>
     (\<forall>p u. drv (uart_wait_tx_done idf p u) = drv u) \<and>
     (\<forall>p n u e u'. uart_enable_rx_intr idf p n u = (e, u') \<longrightarrow> drv u' = drv u) \<and>
     (\<forall>p u e u'. uart_isr_register idf p u = (e, u') \<longrightarrow> drv u' = drv u)"

definition uart_inv :: "('u \<Rightarrow> nat set) \<Rightarrow> 'u uarts \<Rightarrow> bool" where
  "uart_inv drv s \<longleftrightarrow> length (uart_configs s) = 3 \<and> drv (uart_hw s) \<subseteq> {0, 1, 2} \<and>
     (\<forall>i < 3. (uc_initialized (uart_configs s ! i) \<longleftrightarrow> i \<in> drv (uart_hw s)) \<and>
        (uc_initialized (uart_configs s ! i) \<longrightarrow> uc_port (uart_configs s ! i) = i))"

lemma uart_law:
  assumes "uart_laws idf drv"
  shows uart_install_law: "\<And>p a b u e u'. uart_driver_install idf p a b u = (e, u') \<Longrightarrow>
        if e = 0 then p \<notin> drv u \<and> drv u' = insert p (drv u) else drv u' = drv u"
    and uart_delete_law: "\<And>p u. drv (uart_driver_delete idf p u) = drv u - {p}"
    and uart_param_law: "\<And>p b u e u'. uart_param_config idf p b u = (e, u') \<Longrightarrow> drv u' = drv u"
    and uart_pin_law: "\<And>p a b u e u'. uart_set_pin idf p a b u = (e, u') \<Longrightarrow> drv u' = drv u"
    and uart_create_law: "\<And>n z u q u'. queue_create idf n z u = (q, u') \<Longrightarrow> drv u' = drv u"
    and uart_drop_law: "\<And>q u. drv (drop_queue idf q u) = drv u"
    and uart_write_law: "\<And>p b u n u'. uart_write_bytes idf p b u = (n, u') \<Longrightarrow> drv u' = drv u"
    and uart_read_law: "\<And>p k u n b u'. uart_read_bytes idf p k u = (n, b, u') \<Longrightarrow> drv u' = drv u"
    and uart_wait_law: "\<And>p u. drv (uart_wait_tx_done idf p u) = drv u"
    and uart_intr_law: "\<And>p n u e u'. uart_enable_rx_intr idf p n u = (e, u') \<Longrightarrow> drv u' = drv u"
    and uart_isr_law: "\<And>p u e u'. uart_isr_register idf p u = (e, u') \<Longrightarrow> drv u' = drv u"
proof -
  note l = assms [unfolded uart_laws_def]
  have "\<forall>p a b u e u'. uart_driver_install idf p a b u = (e, u') \<longrightarrow>
        (if e = 0 then p \<notin> drv u \<and> drv u' = insert p (drv u) else drv u' = drv u)"
    using l by (elim conjE)
  then show "\<And>p a b u e u'. uart_driver_install idf p a b u = (e, u') \<Longrightarrow>
        if e = 0 then p \<notin> drv u \<and> drv u' = insert p (drv u) else drv u' = drv u" by simp
  have "\<forall>p u. drv (uart_driver_delete idf p u) = drv u - {p}" using l by (elim conjE)
  then show "\<And>p u. drv (uart_driver_delete idf p u) = drv u - {p}" by blast
  have "\<forall>p b u e u'. uart_param_config idf p b u = (e, u') \<longrightarrow> drv u' = drv u" using l by (elim conjE)
  then show "\<And>p b u e u'. uart_param_config idf p b u = (e, u') \<Longrightarrow> drv u' = drv u" by blast
  have "\<forall>p a b u e u'. uart_set_pin idf p a b u = (e, u') \<longrightarrow> drv u' = drv u" using l by (elim conjE)
  then show "\<And>p a b u e u'. uart_set_pin idf p a b u = (e, u') \<Longrightarrow> drv u' = drv u" by blast
  have "\<forall>n z u q u'. queue_create idf n z u = (q, u') \<longrightarrow> drv u' = drv u" using l by (elim conjE)
  then show "\<And>n z u q u'. queue_create idf n z u = (q, u') \<Longrightarrow> drv u' = drv u" by blast
  have "\<forall>q u. drv (queue_delete idf q u) = drv u" using l by (elim conjE)
  then show "\<And>q u. drv (drop_queue idf q u) = drv u" by (simp add: drop_queue_def)
  have "\<forall>p b u n u'. uart_write_bytes idf p b u = (n, u') \<longrightarrow> drv u' = drv u" using l by (elim conjE)
  then show "\<And>p b u n u'. uart_write_bytes idf p b u = (n, u') \<Longrightarrow> drv u' = drv u" by blast
  have "\<forall>p k u n b u'. uart_read_bytes idf p k u = (n, b, u') \<longrightarrow> drv u' = drv u" using l by (elim conjE)
  then show "\<And>p k u n b u'. uart_read_bytes idf p k u = (n, b, u') \<Longrightarrow> drv u' = drv u" by blast
  have "\<forall>p u. drv (uart_wait_tx_done idf p u) = drv u" using l by (elim conjE)
  then show "\<And>p u. drv (uart_wait_tx_done idf p u) = drv u" by blast
  have "\<forall>p n u e u'. uart_enable_rx_intr idf p n u = (e, u') \<longrightarrow> drv u' = drv u" using l by (elim conjE)
  then show "\<And>p n u e u'. uart_enable_rx_intr idf p n u = (e, u') \<Longrightarrow> drv u' = drv u" by blast
  have "\<forall>p u e u'. uart_isr_register idf p u = (e, u') \<longrightarrow> drv u' = drv u" using l by (elim conjE)
  then show "\<And>p u e u'. uart_isr_register idf p u = (e, u') \<Longrightarrow> drv u' = drv u" by blast
qed

lemma uart_inv_upd:
  assumes v: "uart_inv drv s" and d: "drv u = drv (uart_hw s)"
    and f: "\<And>c. uc_initialized (f c) = uc_initialized c" "\<And>c. uc_port (f c) = uc_port c"
  shows "uart_inv drv ((upd_uart i f s)\<lparr>uart_hw := u\<rparr>)"
proof -
  have "uc_initialized ((uart_configs s)[i := f (uart_configs s ! i)] ! j) = uc_initialized (uart_configs s ! j)"
    "uc_port ((uart_configs s)[i := f (uart_configs s ! i)] ! j) = uc_port (uart_configs s ! j)" if "j < 3" for j
    using v that f by (cases "i = j"; cases "i < 3"; simp add: uart_inv_def)+
  then show ?thesis using v d by (simp add: uart_inv_def upd_uart_def)
qed

lemma uart_inv_hw: "uart_inv drv s \<Longrightarrow> drv u = drv (uart_hw s) \<Longrightarrow> uart_inv drv (s\<lparr>uart_hw := u\<rparr>)"
  by (simp add: uart_inv_def)

lemma uart_init_keeps:
  assumes l: "uart_laws idf drv" and v: "uart_inv drv s"
  shows "uart_inv drv (snd (mp_hal_esp32_uart_init idf p baud tx rx s))"
proof (cases "p \<ge> 3 \<or> uc_initialized (uart_configs s ! unat p)")
  case True
  then show ?thesis using v by (auto simp: mp_hal_esp32_uart_init_def)
next
  case False
  let ?i = "unat p" and ?D = "drv (uart_hw s)"
  have i: "?i < 3" using False by (simp add: word_less_nat_alt not_le)
  obtain e1 u1 where 1: "uart_driver_install idf ?i MP_HAL_ESP32_UART_TX_BUFFER_SIZE MP_HAL_ESP32_UART_RX_BUFFER_SIZE (uart_hw s)
      = (e1, u1)" by force
  obtain e2 u2 where 2: "uart_param_config idf ?i baud u1 = (e2, u2)" by force
  obtain e3 u3 where 3: "uart_set_pin idf ?i tx rx u2 = (e3, u3)" by force
  obtain tq u4 where 4: "queue_create idf MP_HAL_ESP32_UART_TX_BUFFER_SIZE 1 u3 = (tq, u4)" by force
  obtain rq u5 where 5: "queue_create idf MP_HAL_ESP32_UART_RX_BUFFER_SIZE 1 u4 = (rq, u5)" by force
  let ?q = "\<lambda>c. c\<lparr>uc_tx_queue := tq, uc_rx_queue := rq\<rparr>"
  let ?o = "\<lambda>c. c\<lparr>uc_port := ?i, uc_initialized := True\<rparr>"
  have r: "snd (mp_hal_esp32_uart_init idf p baud tx rx s) =
      (if e1 \<noteq> 0 then s\<lparr>uart_hw := u1\<rparr> else if e2 \<noteq> 0 then s\<lparr>uart_hw := uart_driver_delete idf ?i u2\<rparr>
       else if e3 \<noteq> 0 then s\<lparr>uart_hw := uart_driver_delete idf ?i u3\<rparr>
       else if tq = 0 \<or> rq = 0 then (upd_uart ?i ?q s)\<lparr>uart_hw := uart_driver_delete idf ?i u5\<rparr>
       else (upd_uart ?i ?o (upd_uart ?i ?q s))\<lparr>uart_hw := u5\<rparr>)"
    using False 1 2 3 4 5 unfolding mp_hal_esp32_uart_init_def by (simp add: Let_def)
  note k1 = uart_install_law [OF l 1] and k2 = uart_param_law [OF l 2] and k3 = uart_pin_law [OF l 3]
    and k4 = uart_create_law [OF l 4] and k5 = uart_create_law [OF l 5] and k6 = uart_delete_law [OF l]
  show ?thesis
  proof (cases "e1 = 0")
    case e1: True
    then have d: "?i \<notin> ?D" "drv u1 = insert ?i ?D" using k1 by simp_all
    have q: "uart_inv drv ((upd_uart ?i ?q s)\<lparr>uart_hw := u\<rparr>)" if "drv u = ?D" for u
      using that by (intro uart_inv_upd [OF v]) simp_all
    show ?thesis
    proof (cases "e2 = 0 \<and> e3 = 0 \<and> tq \<noteq> 0 \<and> rq \<noteq> 0")
      case True
      let ?s = "(upd_uart ?i ?o (upd_uart ?i ?q s))\<lparr>uart_hw := u5\<rparr>"
      have du: "drv u5 = insert ?i ?D" using d k2 k3 k4 k5 by simp
      have "uart_configs ?s ! j = (if j = ?i then ?o (?q (uart_configs s ! ?i)) else uart_configs s ! j)" if "j < 3" for j
        using that v i by (simp add: upd_uart_def uart_inv_def nth_list_update)
      moreover have "length (uart_configs ?s) = 3" using v by (simp add: upd_uart_def uart_inv_def)
      moreover have "insert ?i ?D \<subseteq> {0, 1, 2}" using v i by (auto simp: uart_inv_def)
      ultimately have "uart_inv drv ?s" using v du d(1) by (simp add: uart_inv_def)
      then show ?thesis using r True e1 by simp
    next
      case False
      then show ?thesis
        using r e1 d k2 k3 k4 k5 k6 q by (auto intro!: uart_inv_hw [OF v])
    qed
  qed (use r k1 uart_inv_hw [OF v] in simp)
qed

lemma uart_deinit_keeps:
  assumes l: "uart_laws idf drv" and v: "uart_inv drv s"
  shows "uart_inv drv (mp_hal_esp32_uart_deinit idf p s)"
proof (cases "uart_is_open s p")
  case False
  then show ?thesis using v by (simp add: mp_hal_esp32_uart_deinit_def)
next
  case True
  let ?i = "unat p" and ?f = "\<lambda>c. c\<lparr>uc_tx_queue := 0, uc_rx_queue := 0, uc_initialized := False\<rparr>"
  have i: "?i < 3" "uc_port (uart_configs s ! ?i) = ?i"
    using True v by (simp_all add: uart_is_open_def uart_inv_def word_less_nat_alt)
  obtain u where s': "mp_hal_esp32_uart_deinit idf p s = (upd_uart ?i ?f s)\<lparr>uart_hw := uart_driver_delete idf ?i u\<rparr>"
      "drv u = drv (uart_hw s)"
    using True i(2) uart_drop_law [OF l] by (simp add: mp_hal_esp32_uart_deinit_def Let_def)
  have "uart_configs (upd_uart ?i ?f s) ! j = (if j = ?i then ?f (uart_configs s ! ?i) else uart_configs s ! j)" if "j < 3" for j
    using that v i by (simp add: upd_uart_def uart_inv_def nth_list_update)
  moreover have "length (uart_configs (upd_uart ?i ?f s)) = 3" using v by (simp add: upd_uart_def uart_inv_def)
  moreover have "drv (uart_hw s) \<subseteq> {0, 1, 2}" using v by (simp add: uart_inv_def)
  ultimately show ?thesis unfolding s'(1) using v s'(2) uart_delete_law [OF l] by (auto simp: uart_inv_def)
qed

lemma uart_setup_keeps:
  assumes l: "uart_laws idf drv" and v: "uart_inv drv s"
  shows "uart_inv drv (snd (mp_hal_esp32_uart_setup_ringbuffer idf z p n m s))"
proof (cases "p \<ge> 3")
  case True
  then show ?thesis using v by (simp add: mp_hal_esp32_uart_setup_ringbuffer_def)
next
  case False
  let ?i = "unat p"
  define s1 where "s1 = (if uc_initialized (uart_configs s ! ?i) then s
    else if p = 0 then snd (mp_hal_esp32_uart_init idf p MP_HAL_ESP32_UART_SHELL_BAUD 1 3 s)
    else snd (mp_hal_esp32_uart_init idf p 115200 17 16 s))"
  have v1: "uart_inv drv s1" using v uart_init_keeps [OF l v] by (simp add: s1_def)
  define c where "c = uart_configs s1 ! ?i"
  define u where "u = drop_queue idf (uc_rx_queue c) (drop_queue idf (uc_tx_queue c) (uart_hw s1))"
  have du: "drv u = drv (uart_hw s1)" by (simp add: u_def uart_drop_law [OF l])
  obtain tq u1 where 1: "queue_create idf n 1 u = (tq, u1)" by force
  obtain rq u2 where 2: "queue_create idf m 1 u1 = (rq, u2)" by force
  obtain e1 u3 where 3: "uart_enable_rx_intr idf (uc_port c) n u2 = (e1, u3)" by force
  obtain eq u4 where 4: "queue_create idf 10 z u3 = (eq, u4)" by force
  obtain e2 u5 where 5: "uart_isr_register idf (uc_port c) u4 = (e2, u5)" by force
  let ?s2 = "upd_uart ?i (\<lambda>c. c\<lparr>uc_tx_queue := tq, uc_rx_queue := rq\<rparr>) s1"
  have "snd (mp_hal_esp32_uart_setup_ringbuffer idf z p n m s) =
      (if tq = 0 \<or> rq = 0 then ?s2\<lparr>uart_hw := u2\<rparr> else if e1 \<noteq> 0 then ?s2\<lparr>uart_hw := u3\<rparr>
       else if eq = 0 then ?s2\<lparr>uart_hw := u4\<rparr> else ?s2\<lparr>uart_hw := u5\<rparr>)"
    using False 1 2 3 4 5 unfolding mp_hal_esp32_uart_setup_ringbuffer_def
    by (simp add: Let_def s1_def [symmetric] c_def [symmetric] u_def [symmetric])
  moreover have "uart_inv drv (?s2\<lparr>uart_hw := x\<rparr>)" if "drv x = drv (uart_hw s1)" for x
    using that by (intro uart_inv_upd [OF v1]) simp_all
  ultimately show ?thesis
    using du uart_create_law [OF l 1] uart_create_law [OF l 2] uart_intr_law [OF l 3] uart_create_law [OF l 4] uart_isr_law [OF l 5]
    by simp
qed

datatype uart_op =
    Uart_init u32 u32 int int
  | Uart_deinit u32
  | Uart_setup nat u32 u32 u32
  | Uart_send_byte u32 u8
  | Uart_send u32 "u8 list" u32
  | Uart_receive_byte u32 "u8 list"
  | Uart_receive u32 "u8 list" u32
  | Uart_flush u32

fun uart_step :: "'u uart_idf \<Rightarrow> uart_op \<Rightarrow> 'u uarts \<Rightarrow> 'u uarts option" where
  "uart_step idf (Uart_init p b t r) s = Some (snd (mp_hal_esp32_uart_init idf p b t r s))"
| "uart_step idf (Uart_deinit p) s = Some (mp_hal_esp32_uart_deinit idf p s)"
| "uart_step idf (Uart_setup z p n m) s = Some (snd (mp_hal_esp32_uart_setup_ringbuffer idf z p n m s))"
| "uart_step idf (Uart_send_byte p b) s = Some (snd (mp_hal_esp32_uart_send_byte idf p b s))"
| "uart_step idf (Uart_send p d n) s = map_option snd (mp_hal_esp32_uart_send_data idf p d n s)"
| "uart_step idf (Uart_receive_byte p d) s = map_option (\<lambda>x. snd (snd x)) (mp_hal_esp32_uart_receive_byte idf p d s)"
| "uart_step idf (Uart_receive p d n) s = map_option (\<lambda>x. snd (snd x)) (mp_hal_esp32_uart_receive_data idf p d n s)"
| "uart_step idf (Uart_flush p) s = Some (mp_hal_esp32_uart_flush idf p s)"

fun uart_steps :: "'u uart_idf \<Rightarrow> uart_op list \<Rightarrow> 'u uarts \<Rightarrow> 'u uarts option" where
  "uart_steps idf [] s = Some s"
| "uart_steps idf (op # ops) s = do { s' \<leftarrow> uart_step idf op s; uart_steps idf ops s' }"

text \<open>Sending and receiving change the driver only.\<close>

lemma uart_transfer_keeps:
  assumes l: "uart_laws idf drv" and v: "uart_inv drv s"
  shows "uart_inv drv (snd (mp_hal_esp32_uart_send_byte idf p b s))"
    and "mp_hal_esp32_uart_send_data idf p d n s = Some (r, s') \<Longrightarrow> uart_inv drv s'"
    and "mp_hal_esp32_uart_receive_byte idf p d s = Some (r, d', s') \<Longrightarrow> uart_inv drv s'"
    and "mp_hal_esp32_uart_receive_data idf p d n s = Some (r, d', s') \<Longrightarrow> uart_inv drv s'"
    and "uart_inv drv (mp_hal_esp32_uart_flush idf p s)"
proof -
  let ?p = "uc_port (uart_configs s ! unat p)"
  show "uart_inv drv (snd (mp_hal_esp32_uart_send_byte idf p b s))"
    using v uart_write_law [OF l] uart_inv_hw [OF v] by (simp add: mp_hal_esp32_uart_send_byte_def split: prod.split)
  show "mp_hal_esp32_uart_send_data idf p d n s = Some (r, s') \<Longrightarrow> uart_inv drv s'"
    using v uart_write_law [OF l] uart_inv_hw [OF v]
    by (auto simp: mp_hal_esp32_uart_send_data_def split: if_splits bind_splits prod.splits)
  obtain k b1 u1 where 1: "uart_read_bytes idf ?p 1 (uart_hw s) = (k, b1, u1)" by (rule prod_cases3)
  show "mp_hal_esp32_uart_receive_byte idf p d s = Some (r, d', s') \<Longrightarrow> uart_inv drv s'"
    using v uart_inv_hw [OF v uart_read_law [OF l 1]] 1
    by (auto simp: mp_hal_esp32_uart_receive_byte_def split: if_splits bind_splits)
  obtain k2 b2 u2 where 2: "uart_read_bytes idf ?p n (uart_hw s) = (k2, b2, u2)" by (rule prod_cases3)
  show "mp_hal_esp32_uart_receive_data idf p d n s = Some (r, d', s') \<Longrightarrow> uart_inv drv s'"
    using v uart_inv_hw [OF v uart_read_law [OF l 2]] 2
    by (auto simp: mp_hal_esp32_uart_receive_data_def split: if_splits bind_splits)
  show "uart_inv drv (mp_hal_esp32_uart_flush idf p s)"
    using v uart_inv_hw [OF v uart_wait_law [OF l]] by (simp add: mp_hal_esp32_uart_flush_def)
qed

lemma uart_step_keeps:
  assumes l: "uart_laws idf drv" and v: "uart_inv drv s" and c: "uart_step idf op s = Some s'"
  shows "uart_inv drv s'"
  using c uart_init_keeps [OF l v] uart_deinit_keeps [OF l v] uart_setup_keeps [OF l v] uart_transfer_keeps [OF l v]
  by (cases op) auto

lemma uart_steps_keeps:
  "uart_laws idf drv \<Longrightarrow> uart_inv drv s \<Longrightarrow> uart_steps idf ops s = Some s' \<Longrightarrow> uart_inv drv s'"
proof (induction ops arbitrary: s)
  case (Cons op ops)
  obtain s1 where s1: "uart_step idf op s = Some s1" "uart_steps idf ops s1 = Some s'"
    using Cons.prems(3) by (auto split: bind_splits)
  show ?case by (rule Cons.IH [OF Cons.prems(1) uart_step_keeps [OF Cons.prems(1,2) s1(1)] s1(2)])
qed simp

lemma uart_boot_inv: "drv u = {} \<Longrightarrow> uart_inv drv (uart_boot u)"
  by (auto simp: uart_inv_def uart_boot_def less_Suc_eq numeral_3_eq_3)

text \<open>
  C37. A serial port has a driver exactly when its entry is initialised, and no other port has one, after any sequence of
  calls from the start, whatever calls of the platform fail on the way.
\<close>

theorem uart_driver_iff_initialized:
  assumes "uart_laws idf drv" and "drv u = {}" and "uart_steps idf ops (uart_boot u) = Some s"
  shows "drv (uart_hw s) = {i. i < 3 \<and> uc_initialized (uart_configs s ! i)}"
proof -
  have v: "uart_inv drv s" using uart_steps_keeps [OF assms(1) uart_boot_inv assms(3)] assms(2) by blast
  then have "i \<in> drv (uart_hw s) \<longleftrightarrow> i < 3 \<and> uc_initialized (uart_configs s ! i)" for i by (auto simp: uart_inv_def)
  then show ?thesis by blast
qed

text \<open>A platform for the witness: its state is the list of the ports with a driver; pin 99 does not exist.\<close>

definition demo_uart :: "nat list uart_idf" where
  "demo_uart =
     \<lparr>uart_driver_install = (\<lambda>p a b u. if p \<in> set u then (-1, u) else (0, p # u)),
      uart_driver_delete = (\<lambda>p u. filter (\<lambda>x. x \<noteq> p) u), uart_param_config = (\<lambda>p b u. (0, u)),
      uart_set_pin = (\<lambda>p t r u. (if t = 99 then -1 else 0, u)), queue_create = (\<lambda>n z u. (n, u)), queue_delete = (\<lambda>q u. u),
      uart_write_bytes = (\<lambda>p b u. (int (length b), u)), uart_read_bytes = (\<lambda>p n u. (0, [], u)),
      uart_buffered_len = (\<lambda>p u. (0, 0)), uart_wait_tx_done = (\<lambda>p u. u), uart_flush_input = (\<lambda>p u. u),
      uart_enable_rx_intr = (\<lambda>p n u. (0, u)), uart_isr_register = (\<lambda>p u. (0, u))\<rparr>"

lemma demo_uart_laws: "uart_laws demo_uart set"
  by (auto simp: uart_laws_def demo_uart_def)

lemma uart_driver_iff_initialized_witness:
  "\<exists>s. uart_steps demo_uart [Uart_init 0 115200 1 3, Uart_init 1 9600 99 16, Uart_setup 12 2 64 64, Uart_deinit 0] (uart_boot []) = Some s \<and>
     set (uart_hw s) = {i. i < 3 \<and> uc_initialized (uart_configs s ! i)}"
  using uart_driver_iff_initialized [OF demo_uart_laws, of "[]"
      "[Uart_init 0 115200 1 3, Uart_init 1 9600 99 16, Uart_setup 12 2 64 64, Uart_deinit 0]"]
  by simp

end
