(* ===== verification/Esp32Wdt.thy ===== *)
theory Esp32Wdt
  imports Prelude
begin

text \<open>
  The watchdogs of the ESP32, \<open>platform/esp32/wdt.c\<close>: the task watchdog of ESP-IDF, a parameter, and the table in which
  threads check in.  \<open>now\<close> is what \<open>esp_timer_get_time\<close> gives, in microseconds.
\<close>

section \<open>State\<close>

definition MAX_THREAD_WDT :: nat where "MAX_THREAD_WDT = 32"
definition MP_HAL_ESP32_WDT_TIMEOUT_MS :: u32 where "MP_HAL_ESP32_WDT_TIMEOUT_MS = 5000"

datatype reset_reason =
    ESP_RST_UNKNOWN | ESP_RST_POWERON | ESP_RST_EXT | ESP_RST_SW | ESP_RST_PANIC | ESP_RST_INT_WDT | ESP_RST_TASK_WDT
  | ESP_RST_WDT | ESP_RST_DEEPSLEEP | ESP_RST_BROWNOUT | ESP_RST_SDIO | ESP_RST_OTHER

text \<open>A task is a handle; the current one is given by \<open>current_task\<close>.\<close>

record 'p twdt_idf =
  task_wdt_init :: "u32 \<Rightarrow> bool \<Rightarrow> 'p \<Rightarrow> int \<times> 'p"
  task_wdt_add :: "u32 \<Rightarrow> 'p \<Rightarrow> 'p"
  task_wdt_delete :: "u32 \<Rightarrow> 'p \<Rightarrow> 'p"
  task_wdt_reset :: "'p \<Rightarrow> 'p"
  current_task :: "'p \<Rightarrow> u32"
  last_reset_reason :: "'p \<Rightarrow> reset_reason"
  create_monitor :: "'p \<Rightarrow> 'p"

record thread_wdt =
  tw_thread_id :: u32
  tw_last_checkin :: u64
  tw_active :: bool

record 'p esp_wdt =
  wdt_callback :: bool
  thread_wdt_table :: "thread_wdt list"
  wdt_timeout_ms :: u32
  wdt_hw :: 'p

definition no_thread_wdt :: thread_wdt where
  "no_thread_wdt = \<lparr>tw_thread_id = 0, tw_last_checkin = 0, tw_active = False\<rparr>"

definition esp_wdt_boot :: "'p \<Rightarrow> 'p esp_wdt" where
  "esp_wdt_boot p = \<lparr>wdt_callback = False, thread_wdt_table = replicate MAX_THREAD_WDT no_thread_wdt,
     wdt_timeout_ms = MP_HAL_ESP32_WDT_TIMEOUT_MS, wdt_hw = p\<rparr>"

section \<open>The task watchdog\<close>

definition mp_hal_esp32_task_wdt_init :: "'p twdt_idf \<Rightarrow> u32 \<Rightarrow> 'p esp_wdt \<Rightarrow> int \<times> 'p esp_wdt" where
  "mp_hal_esp32_task_wdt_init idf timeout_ms s =
     (let s1 = s\<lparr>wdt_timeout_ms := timeout_ms\<rparr>; (err, p) = task_wdt_init idf (timeout_ms div 1000) True (wdt_hw s1)
      in (if err \<noteq> 0 then -1 else 0, s1\<lparr>wdt_hw := p\<rparr>))"

definition mp_hal_esp32_wdt_init :: "'p twdt_idf \<Rightarrow> u32 \<Rightarrow> 'p esp_wdt \<Rightarrow> int \<times> 'p esp_wdt" where
  "mp_hal_esp32_wdt_init idf timeout_ms s =
     (let s1 = s\<lparr>wdt_timeout_ms := timeout_ms\<rparr>; (err, p) = task_wdt_init idf (timeout_ms div 1000) True (wdt_hw s1)
      in if err \<noteq> 0 then (-1, s1\<lparr>wdt_hw := p\<rparr>) else (0, s1\<lparr>wdt_hw := task_wdt_add idf (current_task idf p) p\<rparr>))"

definition mp_hal_esp32_wdt_feed :: "'p twdt_idf \<Rightarrow> 'p esp_wdt \<Rightarrow> 'p esp_wdt" where
  "mp_hal_esp32_wdt_feed idf s = s\<lparr>wdt_hw := task_wdt_reset idf (wdt_hw s)\<rparr>"

definition mp_hal_esp32_wdt_disable :: "'p twdt_idf \<Rightarrow> 'p esp_wdt \<Rightarrow> 'p esp_wdt" where
  "mp_hal_esp32_wdt_disable idf s = s\<lparr>wdt_hw := task_wdt_delete idf (current_task idf (wdt_hw s)) (wdt_hw s)\<rparr>"

definition mp_hal_esp32_wdt_was_reset_cause :: "'p twdt_idf \<Rightarrow> 'p esp_wdt \<Rightarrow> bool" where
  "mp_hal_esp32_wdt_was_reset_cause idf s =
     (last_reset_reason idf (wdt_hw s) = ESP_RST_TASK_WDT \<or> last_reset_reason idf (wdt_hw s) = ESP_RST_INT_WDT)"

fun reset_cause_code :: "reset_reason \<Rightarrow> u32" where
  "reset_cause_code ESP_RST_UNKNOWN = 0"
| "reset_cause_code ESP_RST_POWERON = 1"
| "reset_cause_code ESP_RST_EXT = 2"
| "reset_cause_code ESP_RST_SW = 3"
| "reset_cause_code ESP_RST_PANIC = 4"
| "reset_cause_code ESP_RST_INT_WDT = 5"
| "reset_cause_code ESP_RST_TASK_WDT = 6"
| "reset_cause_code ESP_RST_WDT = 7"
| "reset_cause_code ESP_RST_DEEPSLEEP = 8"
| "reset_cause_code ESP_RST_BROWNOUT = 9"
| "reset_cause_code ESP_RST_SDIO = 10"
| "reset_cause_code ESP_RST_OTHER = 0"

definition mp_hal_esp32_wdt_get_reset_cause :: "'p twdt_idf \<Rightarrow> 'p esp_wdt \<Rightarrow> u32" where
  "mp_hal_esp32_wdt_get_reset_cause idf s = reset_cause_code (last_reset_reason idf (wdt_hw s))"

definition mp_hal_esp32_task_wdt_add :: "'p twdt_idf \<Rightarrow> u32 \<Rightarrow> 'p esp_wdt \<Rightarrow> 'p esp_wdt" where
  "mp_hal_esp32_task_wdt_add idf task s = s\<lparr>wdt_hw := task_wdt_add idf task (wdt_hw s)\<rparr>"

text \<open>The task that is given is not used: the current one is reset.\<close>

definition mp_hal_esp32_task_wdt_reset :: "'p twdt_idf \<Rightarrow> u32 \<Rightarrow> 'p esp_wdt \<Rightarrow> 'p esp_wdt" where
  "mp_hal_esp32_task_wdt_reset idf task s = s\<lparr>wdt_hw := task_wdt_reset idf (wdt_hw s)\<rparr>"

section \<open>The table of threads\<close>

definition mp_hal_esp32_thread_wdt_init :: "u32 \<Rightarrow> 'p esp_wdt \<Rightarrow> int \<times> 'p esp_wdt" where
  "mp_hal_esp32_thread_wdt_init timeout_ms s =
     (0, s\<lparr>wdt_timeout_ms := timeout_ms, thread_wdt_table := replicate MAX_THREAD_WDT no_thread_wdt\<rparr>)"

definition mp_hal_esp32_thread_wdt_checkin :: "u64 \<Rightarrow> u32 \<Rightarrow> 'p esp_wdt \<Rightarrow> 'p esp_wdt" where
  "mp_hal_esp32_thread_wdt_checkin now thread_id s =
     (let tab = thread_wdt_table s
      in (case find (\<lambda>i. tw_thread_id (tab ! i) = thread_id \<and> tw_active (tab ! i)) [0..<MAX_THREAD_WDT] of
            Some i \<Rightarrow> s\<lparr>thread_wdt_table := tab[i := (tab ! i)\<lparr>tw_last_checkin := now\<rparr>]\<rparr>
          | None \<Rightarrow>
              (case find (\<lambda>i. \<not> tw_active (tab ! i)) [0..<MAX_THREAD_WDT] of
                 Some i \<Rightarrow> s\<lparr>thread_wdt_table := tab[i := \<lparr>tw_thread_id = thread_id, tw_last_checkin = now, tw_active = True\<rparr>]\<rparr>
               | None \<Rightarrow> s)))"

text \<open>The product is computed with 32 bits, the difference with 64.\<close>

definition wdt_late :: "u64 \<Rightarrow> u32 \<Rightarrow> u64 \<Rightarrow> bool" where
  "wdt_late now timeout_ms prev \<longleftrightarrow> now - prev > ucast (timeout_ms * 1000)"

definition mp_hal_esp32_thread_wdt_get_offending_thread :: "u64 \<Rightarrow> 'p esp_wdt \<Rightarrow> u32" where
  "mp_hal_esp32_thread_wdt_get_offending_thread now s =
     (let tab = thread_wdt_table s
      in (case find (\<lambda>i. tw_active (tab ! i) \<and> wdt_late now (wdt_timeout_ms s) (tw_last_checkin (tab ! i))) [0..<MAX_THREAD_WDT] of
            Some i \<Rightarrow> tw_thread_id (tab ! i) | None \<Rightarrow> 0))"

definition mp_hal_esp32_wdt_set_callback :: "bool \<Rightarrow> 'p esp_wdt \<Rightarrow> 'p esp_wdt" where
  "mp_hal_esp32_wdt_set_callback c s = s\<lparr>wdt_callback := c\<rparr>"

text \<open>A round of the monitor: whether the callback is called, and the delay in milliseconds that follows.\<close>

definition mp_hal_esp32_wdt_monitor_round :: "'p twdt_idf \<Rightarrow> u64 \<Rightarrow> 'p esp_wdt \<Rightarrow> bool \<times> u32 \<times> 'p esp_wdt" where
  "mp_hal_esp32_wdt_monitor_round idf now s =
     (mp_hal_esp32_thread_wdt_get_offending_thread now s \<noteq> 0 \<and> wdt_callback s, wdt_timeout_ms s div 10,
      mp_hal_esp32_wdt_feed idf s)"

definition mp_hal_esp32_wdt_start_monitor :: "'p twdt_idf \<Rightarrow> 'p esp_wdt \<Rightarrow> 'p esp_wdt" where
  "mp_hal_esp32_wdt_start_monitor idf s = s\<lparr>wdt_hw := create_monitor idf (wdt_hw s)\<rparr>"

section \<open>What is monitored\<close>

text \<open>The threads and their last times, in the order of their first check-ins: at most \<open>n\<close>.\<close>

fun keep_time :: "nat \<Rightarrow> u32 \<times> u64 \<Rightarrow> (u32 \<times> u64) list \<Rightarrow> (u32 \<times> u64) list" where
  "keep_time n (t, now) [] = (if n = 0 then [] else [(t, now)])"
| "keep_time n (t, now) ((t', l) # xs) = (if t' = t then (t, now) # xs else (t', l) # keep_time (n - 1) (t, now) xs)"

definition wdt_entries :: "(u32 \<times> u64) list \<Rightarrow> thread_wdt list" where
  "wdt_entries xs = map (\<lambda>(t, l). \<lparr>tw_thread_id = t, tw_last_checkin = l, tw_active = True\<rparr>) xs @
     replicate (MAX_THREAD_WDT - length xs) no_thread_wdt"

lemma keep_time_length: "length xs \<le> n \<Longrightarrow> length (keep_time n c xs) \<le> n"
proof (induction n c xs rule: keep_time.induct)
  case (2 n t now t' l xs)
  then show ?case by (cases n) auto
qed simp

lemma keep_time_keys: "set (map fst (keep_time n c xs)) \<subseteq> insert (fst c) (set (map fst xs))"
  by (induction n c xs rule: keep_time.induct) auto

lemma keep_time_distinct: "distinct (map fst xs) \<Longrightarrow> distinct (map fst (keep_time n c xs))"
proof (induction n c xs rule: keep_time.induct)
  case (2 n t now t' l xs)
  then show ?case using keep_time_keys [of "n - 1" "(t, now)" xs] by auto
qed simp

text \<open>A time is kept in the entry of its thread, in a new entry, or not at all.\<close>

lemma keep_time_cases:
  assumes "length xs \<le> n"
  shows "(\<exists>i < length xs. fst (xs ! i) = t \<and> (\<forall>j < i. fst (xs ! j) \<noteq> t) \<and> keep_time n (t, now) xs = xs[i := (t, now)]) \<or>
    (\<forall>j < length xs. fst (xs ! j) \<noteq> t) \<and> keep_time n (t, now) xs = (if length xs < n then xs @ [(t, now)] else xs)"
  using assms
proof (induction n "(t, now)" xs rule: keep_time.induct)
  case (2 n t' l xs)
  show ?case
  proof (cases "t' = t")
    case True
    then show ?thesis by (intro disjI1 exI [of _ 0]) simp
  next
    case False
    have "length xs \<le> n - 1" using "2.prems" by simp
    from "2.hyps" [OF False this] show ?thesis
    proof (elim disjE exE conjE)
      fix i
      assume i: "i < length xs" "fst (xs ! i) = t" "\<forall>j < i. fst (xs ! j) \<noteq> t" "keep_time (n - 1) (t, now) xs = xs[i := (t, now)]"
      have "\<forall>j < Suc i. fst (((t', l) # xs) ! j) \<noteq> t" using i(3) False by (auto simp: less_Suc_eq_0_disj)
      then show ?thesis using i False by (intro disjI1 exI [of _ "Suc i"]) simp
    next
      assume a: "\<forall>j < length xs. fst (xs ! j) \<noteq> t" "keep_time (n - 1) (t, now) xs = (if length xs < n - 1 then xs @ [(t, now)] else xs)"
      have "\<forall>j < Suc (length xs). fst (((t', l) # xs) ! j) \<noteq> t" using a(1) False by (auto simp: less_Suc_eq_0_disj)
      moreover have "length xs < n - 1 \<longleftrightarrow> Suc (length xs) < n" by auto
      ultimately show ?thesis using a(2) False by simp
    qed
  qed
qed simp

lemma wdt_entries_nth:
  "i < length xs \<Longrightarrow> wdt_entries xs ! i = \<lparr>tw_thread_id = fst (xs ! i), tw_last_checkin = snd (xs ! i), tw_active = True\<rparr>"
  "length xs \<le> i \<Longrightarrow> i < 32 \<Longrightarrow> wdt_entries xs ! i = no_thread_wdt"
  by (simp_all add: wdt_entries_def nth_append split_beta MAX_THREAD_WDT_def)

lemma wdt_entries_length: "length xs \<le> 32 \<Longrightarrow> length (wdt_entries xs) = 32"
  by (simp add: wdt_entries_def MAX_THREAD_WDT_def)

lemma find_upt_not: "(\<And>j. j < n \<Longrightarrow> \<not> P j) \<Longrightarrow> find P [0..<n] = None"
  by (simp add: find_upt_None)

lemma wdt_entries_update:
  "i < length xs \<Longrightarrow> (wdt_entries xs)[i := \<lparr>tw_thread_id = t, tw_last_checkin = now, tw_active = True\<rparr>] = wdt_entries (xs[i := (t, now)])"
  by (simp add: wdt_entries_def list_update_append map_update)

lemma wdt_entries_append:
  assumes "length xs < 32"
  shows "(wdt_entries xs)[length xs := \<lparr>tw_thread_id = t, tw_last_checkin = now, tw_active = True\<rparr>] = wdt_entries (xs @ [(t, now)])"
proof -
  obtain k where k: "32 - length xs = Suc k" using assms by (cases "32 - length xs") auto
  then have "32 - length (xs @ [(t, now)]) = k" by simp
  then show ?thesis using k by (simp add: wdt_entries_def MAX_THREAD_WDT_def list_update_append)
qed

lemma checkin_keeps_time:
  assumes tab: "thread_wdt_table s = wdt_entries xs" and l: "length xs \<le> 32"
  shows "mp_hal_esp32_thread_wdt_checkin now t s = s\<lparr>thread_wdt_table := wdt_entries (keep_time 32 (t, now) xs)\<rparr>"
proof -
  let ?e = "wdt_entries xs"
  from keep_time_cases [OF l, of t now] show ?thesis
  proof (elim disjE exE conjE)
    fix i
    assume i: "i < length xs" "fst (xs ! i) = t" "\<forall>j < i. fst (xs ! j) \<noteq> t" "keep_time 32 (t, now) xs = xs[i := (t, now)]"
    have "find (\<lambda>i. tw_thread_id (?e ! i) = t \<and> tw_active (?e ! i)) [0..<MAX_THREAD_WDT] = Some i"
      using i l by (intro find_upt_prefix) (auto simp: wdt_entries_nth MAX_THREAD_WDT_def)
    moreover have "(?e ! i)\<lparr>tw_last_checkin := now\<rparr> = \<lparr>tw_thread_id = t, tw_last_checkin = now, tw_active = True\<rparr>"
      using i by (simp add: wdt_entries_nth)
    ultimately show ?thesis using i tab by (simp add: mp_hal_esp32_thread_wdt_checkin_def wdt_entries_update)
  next
    assume a: "\<forall>j < length xs. fst (xs ! j) \<noteq> t" "keep_time 32 (t, now) xs = (if length xs < 32 then xs @ [(t, now)] else xs)"
    have n: "find (\<lambda>i. tw_thread_id (?e ! i) = t \<and> tw_active (?e ! i)) [0..<MAX_THREAD_WDT] = None"
    proof (rule find_upt_not)
      fix j assume "j < MAX_THREAD_WDT"
      then show "\<not> (tw_thread_id (?e ! j) = t \<and> tw_active (?e ! j))"
        using a(1) by (cases "j < length xs") (simp_all add: wdt_entries_nth no_thread_wdt_def MAX_THREAD_WDT_def)
    qed
    show ?thesis
    proof (cases "length xs < 32")
      case True
      then have "find (\<lambda>i. \<not> tw_active (?e ! i)) [0..<MAX_THREAD_WDT] = Some (length xs)"
        by (intro find_upt_prefix) (auto simp: wdt_entries_nth no_thread_wdt_def MAX_THREAD_WDT_def)
      then show ?thesis using n tab a(2) True by (simp add: mp_hal_esp32_thread_wdt_checkin_def wdt_entries_append)
    next
      case False
      then have "find (\<lambda>i. \<not> tw_active (?e ! i)) [0..<MAX_THREAD_WDT] = None"
        using l by (intro find_upt_not) (auto simp: wdt_entries_nth MAX_THREAD_WDT_def)
      then show ?thesis using n tab a(2) False by (cases s) (simp add: mp_hal_esp32_thread_wdt_checkin_def)
    qed
  qed
qed

definition checkins :: "(u32 \<times> u64) list \<Rightarrow> 'p esp_wdt \<Rightarrow> 'p esp_wdt" where
  "checkins cs s = fold (\<lambda>(t, now) s. mp_hal_esp32_thread_wdt_checkin now t s) cs s"

lemma checkins_keep_times:
  "thread_wdt_table s = wdt_entries xs \<Longrightarrow> length xs \<le> 32 \<Longrightarrow>
   checkins cs s = s\<lparr>thread_wdt_table := wdt_entries (fold (keep_time 32) cs xs)\<rparr> \<and> length (fold (keep_time 32) cs xs) \<le> 32"
proof (induction cs arbitrary: s xs)
  case (Cons c cs)
  obtain t now where c: "c = (t, now)" by force
  let ?s = "s\<lparr>thread_wdt_table := wdt_entries (keep_time 32 c xs)\<rparr>"
  have "checkins (c # cs) s = checkins cs ?s"
    using checkin_keeps_time [OF Cons.prems] c by (simp add: checkins_def)
  then show ?case using Cons.IH [of ?s "keep_time 32 c xs"] keep_time_length [OF Cons.prems(2)] by simp
qed (simp add: checkins_def)

lemma fold_keep_time_distinct: "distinct (map fst xs) \<Longrightarrow> distinct (map fst (fold (keep_time n) cs xs))"
  by (induction cs arbitrary: xs) (simp_all add: keep_time_distinct)

lemma find_entries:
  assumes "length xs \<le> 32"
  shows "(case find (\<lambda>i. tw_active (wdt_entries xs ! i) \<and> P (tw_last_checkin (wdt_entries xs ! i))) [0..<MAX_THREAD_WDT] of
       Some i \<Rightarrow> tw_thread_id (wdt_entries xs ! i) | None \<Rightarrow> 0) =
     (case find (\<lambda>(t, l). P l) xs of Some (t, l) \<Rightarrow> t | None \<Rightarrow> 0)"
proof (cases "find (\<lambda>(t, l). P l) xs")
  case None
  then have no: "\<forall>x \<in> set xs. \<not> P (snd x)" by (auto simp: find_None_iff)
  have "find (\<lambda>i. tw_active (wdt_entries xs ! i) \<and> P (tw_last_checkin (wdt_entries xs ! i))) [0..<MAX_THREAD_WDT] = None"
  proof (rule find_upt_not)
    fix j assume "j < MAX_THREAD_WDT"
    then show "\<not> (tw_active (wdt_entries xs ! j) \<and> P (tw_last_checkin (wdt_entries xs ! j)))"
      using no by (cases "j < length xs") (simp_all add: wdt_entries_nth no_thread_wdt_def MAX_THREAD_WDT_def)
  qed
  then show ?thesis using None by simp
next
  case (Some x)
  then obtain i where i: "i < length xs" "P (snd (xs ! i))" "x = xs ! i" "\<forall>j < i. \<not> P (snd (xs ! j))"
    by (auto simp: find_Some_iff split_beta)
  have "find (\<lambda>i. tw_active (wdt_entries xs ! i) \<and> P (tw_last_checkin (wdt_entries xs ! i))) [0..<MAX_THREAD_WDT] = Some i"
    using i assms by (intro find_upt_prefix) (auto simp: wdt_entries_nth MAX_THREAD_WDT_def)
  then show ?thesis using Some i by (simp add: wdt_entries_nth split_beta)
qed

text \<open>
  C35. After any sequence of check-ins the table holds the first 32 threads that checked in, once each, with the times of
  their last check-ins, and the thread that is reported is the first of them, in the order of their first check-ins, whose
  last check-in is too long ago; 0 when there is none.  Later threads are not monitored, however late they are.
\<close>

theorem thread_wdt_monitors_first:
  "let s = checkins cs (snd (mp_hal_esp32_thread_wdt_init timeout s0)); xs = fold (keep_time 32) cs []
   in thread_wdt_table s = wdt_entries xs \<and> distinct (map fst xs) \<and> length xs \<le> 32 \<and>
     mp_hal_esp32_thread_wdt_get_offending_thread now s =
       (case find (\<lambda>(t, l). wdt_late now timeout l) xs of Some (t, l) \<Rightarrow> t | None \<Rightarrow> 0)"
proof -
  let ?s = "snd (mp_hal_esp32_thread_wdt_init timeout s0)"
  have "thread_wdt_table ?s = wdt_entries []" by (simp add: mp_hal_esp32_thread_wdt_init_def wdt_entries_def)
  from checkins_keep_times [OF this, of cs] show ?thesis
    using fold_keep_time_distinct [of "[]" 32 cs] find_entries [of "fold (keep_time 32) cs []" "wdt_late now timeout"]
    by (simp add: Let_def mp_hal_esp32_thread_wdt_get_offending_thread_def mp_hal_esp32_thread_wdt_init_def cong: option.case_cong)
qed

end
