(* ===== verification/Esp32Gpio.thy ===== *)
theory Esp32Gpio
  imports Prelude
begin

text \<open>
  The pins of the ESP32, \<open>platform/esp32/gpio.c\<close>, in front of the GPIO driver of ESP-IDF, a parameter.  A pin is a value of
  \<open>gpio_num_t\<close>, which is signed; only pins from \<open>GPIO_NUM_MAX\<close> on are refused.  Callbacks and their arguments are words, 0
  for \<open>NULL\<close>; lines that are logged are left out.
\<close>

section \<open>State\<close>

datatype gpio_dir =
    MP_HAL_ESP32_GPIO_INPUT | MP_HAL_ESP32_GPIO_OUTPUT | MP_HAL_ESP32_GPIO_INPUT_OUTPUT | Gpio_dir_other u32

datatype gpio_pull = MP_HAL_ESP32_GPIO_NOPULL | MP_HAL_ESP32_GPIO_PULLUP | MP_HAL_ESP32_GPIO_PULLDOWN | Gpio_pull_other u32

datatype gpio_intr =
    MP_HAL_ESP32_GPIO_INTR_DISABLE | MP_HAL_ESP32_GPIO_INTR_POSEDGE | MP_HAL_ESP32_GPIO_INTR_NEGEDGE
  | MP_HAL_ESP32_GPIO_INTR_ANYEDGE | MP_HAL_ESP32_GPIO_INTR_LOWLEVEL | MP_HAL_ESP32_GPIO_INTR_HIGHLEVEL | Gpio_intr_other u32

datatype gpio_mode = GPIO_MODE_DISABLE | GPIO_MODE_INPUT | GPIO_MODE_OUTPUT | GPIO_MODE_INPUT_OUTPUT

datatype gpio_intr_type =
    GPIO_INTR_DISABLE | GPIO_INTR_POSEDGE | GPIO_INTR_NEGEDGE | GPIO_INTR_ANYEDGE | GPIO_INTR_LOW_LEVEL | GPIO_INTR_HIGH_LEVEL

record gpio_conf =
  pin_bit_mask :: u64
  gc_mode :: gpio_mode
  pull_up_en :: bool
  pull_down_en :: bool
  gc_intr_type :: gpio_intr_type

record 'g gpio_idf =
  GPIO_NUM_MAX :: nat
  gpio_config :: "gpio_conf \<Rightarrow> 'g \<Rightarrow> int \<times> 'g"
  gpio_reset_pin :: "int \<Rightarrow> 'g \<Rightarrow> 'g"
  gpio_set_level :: "int \<Rightarrow> u32 \<Rightarrow> 'g \<Rightarrow> 'g"
  gpio_get_level :: "int \<Rightarrow> 'g \<Rightarrow> int"
  gpio_set_intr_type :: "int \<Rightarrow> gpio_intr_type \<Rightarrow> 'g \<Rightarrow> int \<times> 'g"
  gpio_intr_clear :: "int \<Rightarrow> 'g \<Rightarrow> 'g"
  gpio_install_isr_service :: "'g \<Rightarrow> int \<times> 'g"
  gpio_isr_handler_add :: "int \<Rightarrow> 'g \<Rightarrow> int \<times> 'g"
  gpio_isr_handler_remove :: "int \<Rightarrow> 'g \<Rightarrow> 'g"
  gpio_set_open_drain :: "int \<Rightarrow> bool \<Rightarrow> 'g \<Rightarrow> 'g"
  gpio_set_drive_capability :: "int \<Rightarrow> u32 \<Rightarrow> 'g \<Rightarrow> 'g"
  gpio_set_glitch_filter :: "int \<Rightarrow> bool \<Rightarrow> 'g \<Rightarrow> 'g"

record gpio_callback =
  gcb_callback :: u32
  gcb_arg :: u32

record 'g gpios =
  gpio_callbacks :: "gpio_callback list"
  isr_service_installed :: bool
  gpio_hw :: 'g

definition gpio_boot :: "'g gpio_idf \<Rightarrow> 'g \<Rightarrow> 'g gpios" where
  "gpio_boot idf g =
     \<lparr>gpio_callbacks = replicate (GPIO_NUM_MAX idf) \<lparr>gcb_callback = 0, gcb_arg = 0\<rparr>, isr_service_installed = False, gpio_hw = g\<rparr>"

section \<open>Pins\<close>

text \<open>\<open>pin >= GPIO_NUM_MAX\<close>\<close>

definition gpio_refused :: "'g gpio_idf \<Rightarrow> int \<Rightarrow> bool" where
  "gpio_refused idf pin \<longleftrightarrow> pin \<ge> int (GPIO_NUM_MAX idf)"

definition gpio_conf_of :: "int \<Rightarrow> gpio_dir \<Rightarrow> gpio_pull \<Rightarrow> gpio_conf" where
  "gpio_conf_of pin dir pull =
     \<lparr>pin_bit_mask = push_bit (nat pin) 1,
      gc_mode = (case dir of MP_HAL_ESP32_GPIO_INPUT \<Rightarrow> GPIO_MODE_INPUT | MP_HAL_ESP32_GPIO_OUTPUT \<Rightarrow> GPIO_MODE_OUTPUT
         | MP_HAL_ESP32_GPIO_INPUT_OUTPUT \<Rightarrow> GPIO_MODE_INPUT_OUTPUT | Gpio_dir_other _ \<Rightarrow> GPIO_MODE_DISABLE),
      pull_up_en = (pull = MP_HAL_ESP32_GPIO_PULLUP), pull_down_en = (pull = MP_HAL_ESP32_GPIO_PULLDOWN),
      gc_intr_type = GPIO_INTR_DISABLE\<rparr>"

text \<open>A shift by a negative number is undefined.\<close>

definition mp_hal_esp32_gpio_init ::
  "'g gpio_idf \<Rightarrow> int \<Rightarrow> gpio_dir \<Rightarrow> gpio_pull \<Rightarrow> 'g gpios \<Rightarrow> (int \<times> 'g gpios) option" where
  "mp_hal_esp32_gpio_init idf pin dir pull s =
     (if gpio_refused idf pin then Some (-1, s)
      else if pin < 0 then None
      else let (err, g) = gpio_config idf (gpio_conf_of pin dir pull) (gpio_hw s)
           in Some (if err \<noteq> 0 then -1 else 0, s\<lparr>gpio_hw := g\<rparr>))"

definition mp_hal_esp32_gpio_deinit :: "'g gpio_idf \<Rightarrow> int \<Rightarrow> 'g gpios \<Rightarrow> 'g gpios" where
  "mp_hal_esp32_gpio_deinit idf pin s = (if gpio_refused idf pin then s else s\<lparr>gpio_hw := gpio_reset_pin idf pin (gpio_hw s)\<rparr>)"

definition mp_hal_esp32_gpio_write :: "'g gpio_idf \<Rightarrow> int \<Rightarrow> u32 \<Rightarrow> 'g gpios \<Rightarrow> 'g gpios" where
  "mp_hal_esp32_gpio_write idf pin level s =
     (if gpio_refused idf pin then s else s\<lparr>gpio_hw := gpio_set_level idf pin (if level \<noteq> 0 then 1 else 0) (gpio_hw s)\<rparr>)"

definition mp_hal_esp32_gpio_read :: "'g gpio_idf \<Rightarrow> int \<Rightarrow> 'g gpios \<Rightarrow> u32" where
  "mp_hal_esp32_gpio_read idf pin s = (if gpio_refused idf pin then 0 else of_int (gpio_get_level idf pin (gpio_hw s)))"

definition mp_hal_esp32_gpio_toggle :: "'g gpio_idf \<Rightarrow> int \<Rightarrow> 'g gpios \<Rightarrow> 'g gpios" where
  "mp_hal_esp32_gpio_toggle idf pin s =
     (if gpio_refused idf pin then s
      else let current = (of_int (gpio_get_level idf pin (gpio_hw s)) :: u32)
           in s\<lparr>gpio_hw := gpio_set_level idf pin (if current \<noteq> 0 then 0 else 1) (gpio_hw s)\<rparr>)"

fun esp_intr_type :: "gpio_intr \<Rightarrow> gpio_intr_type" where
  "esp_intr_type MP_HAL_ESP32_GPIO_INTR_DISABLE = GPIO_INTR_DISABLE"
| "esp_intr_type MP_HAL_ESP32_GPIO_INTR_POSEDGE = GPIO_INTR_POSEDGE"
| "esp_intr_type MP_HAL_ESP32_GPIO_INTR_NEGEDGE = GPIO_INTR_NEGEDGE"
| "esp_intr_type MP_HAL_ESP32_GPIO_INTR_ANYEDGE = GPIO_INTR_ANYEDGE"
| "esp_intr_type MP_HAL_ESP32_GPIO_INTR_LOWLEVEL = GPIO_INTR_LOW_LEVEL"
| "esp_intr_type MP_HAL_ESP32_GPIO_INTR_HIGHLEVEL = GPIO_INTR_HIGH_LEVEL"
| "esp_intr_type (Gpio_intr_other _) = GPIO_INTR_DISABLE"

definition mp_hal_esp32_gpio_set_intr :: "'g gpio_idf \<Rightarrow> int \<Rightarrow> gpio_intr \<Rightarrow> 'g gpios \<Rightarrow> int \<times> 'g gpios" where
  "mp_hal_esp32_gpio_set_intr idf pin intr_type s =
     (if gpio_refused idf pin then (-1, s)
      else let (err, g) = gpio_set_intr_type idf pin (esp_intr_type intr_type) (gpio_hw s)
           in (if err \<noteq> 0 then -1 else 0, s\<lparr>gpio_hw := g\<rparr>))"

definition mp_hal_esp32_gpio_clear_intr :: "'g gpio_idf \<Rightarrow> int \<Rightarrow> 'g gpios \<Rightarrow> 'g gpios" where
  "mp_hal_esp32_gpio_clear_intr idf pin s = (if gpio_refused idf pin then s else s\<lparr>gpio_hw := gpio_intr_clear idf pin (gpio_hw s)\<rparr>)"

definition mp_hal_esp32_gpio_set_opendrain :: "'g gpio_idf \<Rightarrow> int \<Rightarrow> bool \<Rightarrow> 'g gpios \<Rightarrow> 'g gpios" where
  "mp_hal_esp32_gpio_set_opendrain idf pin enable s =
     (if gpio_refused idf pin then s else s\<lparr>gpio_hw := gpio_set_open_drain idf pin enable (gpio_hw s)\<rparr>)"

definition mp_hal_esp32_gpio_set_drive_strength :: "'g gpio_idf \<Rightarrow> int \<Rightarrow> u32 \<Rightarrow> 'g gpios \<Rightarrow> 'g gpios" where
  "mp_hal_esp32_gpio_set_drive_strength idf pin strength s =
     (if gpio_refused idf pin then s else s\<lparr>gpio_hw := gpio_set_drive_capability idf pin strength (gpio_hw s)\<rparr>)"

definition mp_hal_esp32_gpio_set_glitch_filter :: "'g gpio_idf \<Rightarrow> int \<Rightarrow> bool \<Rightarrow> 'g gpios \<Rightarrow> 'g gpios" where
  "mp_hal_esp32_gpio_set_glitch_filter idf pin enable s =
     (if gpio_refused idf pin then s else s\<lparr>gpio_hw := gpio_set_glitch_filter idf pin enable (gpio_hw s)\<rparr>)"

section \<open>Interrupts\<close>

text \<open>
  The interrupt clears itself and gives the callback that is called with its argument, if any.
\<close>

definition mp_hal_esp32_gpio_isr_handler :: "'g gpio_idf \<Rightarrow> u32 \<Rightarrow> 'g gpios \<Rightarrow> (u32 \<times> u32) option \<times> 'g gpios" where
  "mp_hal_esp32_gpio_isr_handler idf gpio_num s =
     (if unat gpio_num \<ge> GPIO_NUM_MAX idf then (None, s)
      else let c = gpio_callbacks s ! unat gpio_num
           in (if gcb_callback c \<noteq> 0 then Some (gcb_callback c, gcb_arg c) else None,
               s\<lparr>gpio_hw := gpio_intr_clear idf (uint gpio_num) (gpio_hw s)\<rparr>))"

text \<open>The table is written at a negative index before anything else is looked at: undefined.\<close>

definition mp_hal_esp32_gpio_register_callback ::
  "'g gpio_idf \<Rightarrow> int \<Rightarrow> u32 \<Rightarrow> u32 \<Rightarrow> 'g gpios \<Rightarrow> (int \<times> 'g gpios) option" where
  "mp_hal_esp32_gpio_register_callback idf pin callback arg s =
     (if gpio_refused idf pin then Some (-1, s)
      else if pin < 0 then None
      else
        let s1 = s\<lparr>gpio_callbacks := (gpio_callbacks s)[nat pin := \<lparr>gcb_callback = callback, gcb_arg = arg\<rparr>]\<rparr>;
            (err1, s2) = (if isr_service_installed s1 then (0, s1)
              else let (err, g) = gpio_install_isr_service idf (gpio_hw s1)
                   in (err, s1\<lparr>isr_service_installed := (err = 0), gpio_hw := g\<rparr>))
        in if err1 \<noteq> 0 then Some (-1, s2)
           else let (err2, g) = gpio_isr_handler_add idf pin (gpio_hw s2)
                in Some (if err2 \<noteq> 0 then -1 else 0, s2\<lparr>gpio_hw := g\<rparr>))"

definition mp_hal_esp32_gpio_unregister_callback :: "'g gpio_idf \<Rightarrow> int \<Rightarrow> 'g gpios \<Rightarrow> 'g gpios option" where
  "mp_hal_esp32_gpio_unregister_callback idf pin s =
     (if gpio_refused idf pin then Some s
      else if pin < 0 then None
      else Some (s\<lparr>gpio_hw := gpio_isr_handler_remove idf pin (gpio_hw s),
             gpio_callbacks := (gpio_callbacks s)[nat pin := \<lparr>gcb_callback = 0, gcb_arg = 0\<rparr>]\<rparr>))"

section \<open>Which callback is called\<close>

datatype gpio_call =
    Gpio_register int u32 u32
  | Gpio_unregister int
  | Gpio_interrupt u32
  | Gpio_write int u32
  | Gpio_toggle int
  | Gpio_set_intr int gpio_intr
  | Gpio_init int gpio_dir gpio_pull

text \<open>The calls of callbacks that interrupts make, in order.\<close>

fun gpio_run :: "'g gpio_idf \<Rightarrow> gpio_call list \<Rightarrow> 'g gpios \<Rightarrow> ((u32 \<times> u32) list \<times> 'g gpios) option" where
  "gpio_run idf [] s = Some ([], s)"
| "gpio_run idf (Gpio_register pin cb arg # cs) s =
     do { (r, s') \<leftarrow> mp_hal_esp32_gpio_register_callback idf pin cb arg s; gpio_run idf cs s' }"
| "gpio_run idf (Gpio_unregister pin # cs) s = do { s' \<leftarrow> mp_hal_esp32_gpio_unregister_callback idf pin s; gpio_run idf cs s' }"
| "gpio_run idf (Gpio_interrupt n # cs) s =
     (let (c, s') = mp_hal_esp32_gpio_isr_handler idf n s
      in do { (calls, s'') \<leftarrow> gpio_run idf cs s'; Some ((case c of Some x \<Rightarrow> x # calls | None \<Rightarrow> calls), s'') })"
| "gpio_run idf (Gpio_write pin l # cs) s = gpio_run idf cs (mp_hal_esp32_gpio_write idf pin l s)"
| "gpio_run idf (Gpio_toggle pin # cs) s = gpio_run idf cs (mp_hal_esp32_gpio_toggle idf pin s)"
| "gpio_run idf (Gpio_set_intr pin i # cs) s = gpio_run idf cs (snd (mp_hal_esp32_gpio_set_intr idf pin i s))"
| "gpio_run idf (Gpio_init pin d p # cs) s = do { (r, s') \<leftarrow> mp_hal_esp32_gpio_init idf pin d p s; gpio_run idf cs s' }"

text \<open>The same for a table of callbacks: what a registration gives back plays no part.\<close>

fun handlers_run :: "nat \<Rightarrow> gpio_call list \<Rightarrow> (nat \<Rightarrow> u32 \<times> u32) \<Rightarrow> (u32 \<times> u32) list" where
  "handlers_run n [] h = []"
| "handlers_run n (Gpio_register pin cb arg # cs) h =
     handlers_run n cs (if 0 \<le> pin \<and> nat pin < n then h(nat pin := (cb, arg)) else h)"
| "handlers_run n (Gpio_unregister pin # cs) h = handlers_run n cs (if 0 \<le> pin \<and> nat pin < n then h(nat pin := (0, 0)) else h)"
| "handlers_run n (Gpio_interrupt k # cs) h =
     (if unat k < n \<and> fst (h (unat k)) \<noteq> 0 then h (unat k) # handlers_run n cs h else handlers_run n cs h)"
| "handlers_run n (_ # cs) h = handlers_run n cs h"

definition gpio_handlers :: "'g gpio_idf \<Rightarrow> 'g gpios \<Rightarrow> (nat \<Rightarrow> u32 \<times> u32) \<Rightarrow> bool" where
  "gpio_handlers idf s h \<longleftrightarrow> length (gpio_callbacks s) = GPIO_NUM_MAX idf \<and>
     (\<forall>i < GPIO_NUM_MAX idf. gpio_callbacks s ! i = \<lparr>gcb_callback = fst (h i), gcb_arg = snd (h i)\<rparr>)"

lemma gpio_handlers_set:
  "gpio_handlers idf s h \<Longrightarrow>
   length (gpio_callbacks s') = length (gpio_callbacks s) \<Longrightarrow> gpio_callbacks s' = (gpio_callbacks s)[k := \<lparr>gcb_callback = a, gcb_arg = b\<rparr>] \<Longrightarrow>
   gpio_handlers idf s' (h(k := (a, b)))"
  by (auto simp: gpio_handlers_def nth_list_update)

lemma gpio_handlers_same: "gpio_handlers idf s h \<Longrightarrow> gpio_callbacks s' = gpio_callbacks s \<Longrightarrow> gpio_handlers idf s' h"
  by (simp add: gpio_handlers_def)

lemma register_callbacks:
  assumes "mp_hal_esp32_gpio_register_callback idf pin cb arg s = Some (r, s')"
  shows "gpio_callbacks s' = (if 0 \<le> pin \<and> nat pin < GPIO_NUM_MAX idf
     then (gpio_callbacks s)[nat pin := \<lparr>gcb_callback = cb, gcb_arg = arg\<rparr>] else gpio_callbacks s)"
  using assms
  by (auto simp: mp_hal_esp32_gpio_register_callback_def gpio_refused_def Let_def nat_less_iff split: if_splits prod.splits)

lemma unregister_callbacks:
  assumes "mp_hal_esp32_gpio_unregister_callback idf pin s = Some s'"
  shows "gpio_callbacks s' = (if 0 \<le> pin \<and> nat pin < GPIO_NUM_MAX idf
     then (gpio_callbacks s)[nat pin := \<lparr>gcb_callback = 0, gcb_arg = 0\<rparr>] else gpio_callbacks s)"
  using assms by (auto simp: mp_hal_esp32_gpio_unregister_callback_def gpio_refused_def nat_less_iff split: if_splits)

lemma pin_callbacks:
  "gpio_callbacks (mp_hal_esp32_gpio_write idf pin l s) = gpio_callbacks s"
  "gpio_callbacks (mp_hal_esp32_gpio_toggle idf pin s) = gpio_callbacks s"
  "gpio_callbacks (snd (mp_hal_esp32_gpio_set_intr idf pin i s)) = gpio_callbacks s"
  "mp_hal_esp32_gpio_init idf pin d p s = Some (r, s') \<Longrightarrow> gpio_callbacks s' = gpio_callbacks s"
  by (auto simp: mp_hal_esp32_gpio_write_def mp_hal_esp32_gpio_toggle_def mp_hal_esp32_gpio_set_intr_def Let_def
      mp_hal_esp32_gpio_init_def split: if_splits prod.splits)

lemma gpio_run_handlers:
  "gpio_handlers idf s h \<Longrightarrow> gpio_run idf cs s = Some (calls, s') \<Longrightarrow> calls = handlers_run (GPIO_NUM_MAX idf) cs h"
proof (induction idf cs s arbitrary: h calls s' rule: gpio_run.induct)
  case (2 idf pin cb arg cs s)
  obtain r s1 where s1: "mp_hal_esp32_gpio_register_callback idf pin cb arg s = Some (r, s1)" "gpio_run idf cs s1 = Some (calls, s')"
    using "2.prems"(2) by (auto split: bind_splits)
  let ?h = "if 0 \<le> pin \<and> nat pin < GPIO_NUM_MAX idf then h(nat pin := (cb, arg)) else h"
  have "gpio_handlers idf s1 ?h"
    using register_callbacks [OF s1(1)] "2.prems"(1) by (auto intro: gpio_handlers_set gpio_handlers_same)
  then show ?case using "2.IH" [OF s1(1) refl _ s1(2)] by simp
next
  case (3 idf pin cs s)
  obtain s1 where s1: "mp_hal_esp32_gpio_unregister_callback idf pin s = Some s1" "gpio_run idf cs s1 = Some (calls, s')"
    using "3.prems"(2) by (auto split: bind_splits)
  let ?h = "if 0 \<le> pin \<and> nat pin < GPIO_NUM_MAX idf then h(nat pin := (0, 0)) else h"
  have "gpio_handlers idf s1 ?h"
    using unregister_callbacks [OF s1(1)] "3.prems"(1) by (auto intro: gpio_handlers_set gpio_handlers_same)
  then show ?case using "3.IH" [OF s1(1) _ s1(2)] by simp
next
  case (4 idf n cs s)
  obtain c s1 where c: "mp_hal_esp32_gpio_isr_handler idf n s = (c, s1)" by force
  obtain cl where cl: "gpio_run idf cs s1 = Some (cl, s')" "calls = (case c of Some x \<Rightarrow> x # cl | None \<Rightarrow> cl)"
    using "4.prems"(2) c by (auto split: bind_splits)
  have "gpio_handlers idf s1 h"
    using "4.prems"(1) c by (auto simp: mp_hal_esp32_gpio_isr_handler_def Let_def gpio_handlers_def split: if_splits)
  then have "cl = handlers_run (GPIO_NUM_MAX idf) cs h" using "4.IH" [OF c [symmetric] refl _ cl(1)] by simp
  moreover have "c = (if unat n < GPIO_NUM_MAX idf \<and> fst (h (unat n)) \<noteq> 0 then Some (h (unat n)) else None)"
    using "4.prems"(1) c by (auto simp: mp_hal_esp32_gpio_isr_handler_def Let_def gpio_handlers_def split: if_splits)
  ultimately show ?case using cl(2) by simp
next
  case (5 idf pin l cs s)
  show ?case using "5.IH" [OF gpio_handlers_same [OF "5.prems"(1) pin_callbacks(1)]] "5.prems"(2) by simp
next
  case (6 idf pin cs s)
  show ?case using "6.IH" [OF gpio_handlers_same [OF "6.prems"(1) pin_callbacks(2)]] "6.prems"(2) by simp
next
  case (7 idf pin i cs s)
  show ?case using "7.IH" [OF gpio_handlers_same [OF "7.prems"(1) pin_callbacks(3)]] "7.prems"(2) by simp
next
  case (8 idf pin d p cs s)
  obtain r s1 where s1: "mp_hal_esp32_gpio_init idf pin d p s = Some (r, s1)" "gpio_run idf cs s1 = Some (calls, s')"
    using "8.prems"(2) by (auto split: bind_splits)
  then show ?case using "8.IH" [OF s1(1) refl gpio_handlers_same [OF "8.prems"(1) pin_callbacks(4) [OF s1(1)]] s1(2)] by simp
qed simp

text \<open>
  From the start, an interrupt of a pin calls the callback that was last registered for it, with its argument, and nothing
  after it was unregistered or when none was; a registration that the driver refused counts like any other.
\<close>

theorem gpio_interrupts_call_registered:
  assumes "gpio_run idf cs (gpio_boot idf g) = Some (calls, s)"
  shows "calls = handlers_run (GPIO_NUM_MAX idf) cs (\<lambda>_. (0, 0))"
  by (rule gpio_run_handlers [OF _ assms]) (simp add: gpio_handlers_def gpio_boot_def)

section \<open>Toggling\<close>

text \<open>
  What the driver promises, by the output level of a pin and whether its input is enabled: configuring a pin enables its
  input in the two input modes only, setting a level sets the output, and reading a pin whose input is not enabled gives 0.
\<close>

definition gpio_laws :: "'g gpio_idf \<Rightarrow> ('g \<Rightarrow> int \<Rightarrow> u32) \<Rightarrow> ('g \<Rightarrow> int \<Rightarrow> bool) \<Rightarrow> bool" where
  "gpio_laws idf lvl inp \<longleftrightarrow>
     (\<forall>pin dir pull g g'. gpio_config idf (gpio_conf_of pin dir pull) g = (0, g') \<longrightarrow>
        inp g' pin = (dir = MP_HAL_ESP32_GPIO_INPUT \<or> dir = MP_HAL_ESP32_GPIO_INPUT_OUTPUT)) \<and>
     (\<forall>pin l g. lvl (gpio_set_level idf pin l g) pin = l) \<and>
     (\<forall>pin l g. inp (gpio_set_level idf pin l g) pin = inp g pin) \<and>
     (\<forall>pin g. \<not> inp g pin \<longrightarrow> gpio_get_level idf pin g = 0)"

lemma gpio_driver_laws:
  assumes l: "gpio_laws idf lvl inp"
  shows gpio_config_law: "\<And>pin dir pull g g'. gpio_config idf (gpio_conf_of pin dir pull) g = (0, g') \<Longrightarrow>
      inp g' pin = (dir = MP_HAL_ESP32_GPIO_INPUT \<or> dir = MP_HAL_ESP32_GPIO_INPUT_OUTPUT)"
    and gpio_level_law: "\<And>pin l g. lvl (gpio_set_level idf pin l g) pin = l"
    and gpio_input_law: "\<And>pin l g. inp (gpio_set_level idf pin l g) pin = inp g pin"
    and gpio_read_law: "\<And>pin g. \<not> inp g pin \<Longrightarrow> gpio_get_level idf pin g = 0"
proof -
  have "\<forall>pin dir pull g g'. gpio_config idf (gpio_conf_of pin dir pull) g = (0, g') \<longrightarrow>
      inp g' pin = (dir = MP_HAL_ESP32_GPIO_INPUT \<or> dir = MP_HAL_ESP32_GPIO_INPUT_OUTPUT)"
    using l unfolding gpio_laws_def by (elim conjE)
  then show "\<And>pin dir pull g g'. gpio_config idf (gpio_conf_of pin dir pull) g = (0, g') \<Longrightarrow>
      inp g' pin = (dir = MP_HAL_ESP32_GPIO_INPUT \<or> dir = MP_HAL_ESP32_GPIO_INPUT_OUTPUT)" by blast
  show "\<And>pin l g. lvl (gpio_set_level idf pin l g) pin = l" using l unfolding gpio_laws_def by (elim conjE) simp
  show "\<And>pin l g. inp (gpio_set_level idf pin l g) pin = inp g pin" using l unfolding gpio_laws_def by (elim conjE) simp
  have "\<forall>pin g. \<not> inp g pin \<longrightarrow> gpio_get_level idf pin g = 0" using l unfolding gpio_laws_def by (elim conjE)
  then show "\<And>pin g. \<not> inp g pin \<Longrightarrow> gpio_get_level idf pin g = 0" by blast
qed

lemma toggle_output_only:
  assumes l: "gpio_laws idf lvl inp" and p: "\<not> gpio_refused idf pin" and i: "\<not> inp (gpio_hw s) pin"
  shows "lvl (gpio_hw (mp_hal_esp32_gpio_toggle idf pin s)) pin = 1 \<and> \<not> inp (gpio_hw (mp_hal_esp32_gpio_toggle idf pin s)) pin"
  using p i gpio_read_law [OF l i] gpio_level_law [OF l] gpio_input_law [OF l]
  by (simp add: mp_hal_esp32_gpio_toggle_def)

text \<open>
  A pin that was initialised as an output cannot be toggled: reading it gives 0, so every toggle sets it to 1, however
  often it is called.
\<close>

theorem gpio_toggle_sticks:
  assumes "gpio_laws idf lvl inp" and "pin < int (GPIO_NUM_MAX idf)"
    and "mp_hal_esp32_gpio_init idf pin MP_HAL_ESP32_GPIO_OUTPUT pull s = Some (0, s1)"
  shows "lvl (gpio_hw ((mp_hal_esp32_gpio_toggle idf pin ^^ Suc n) s1)) pin = 1"
proof -
  have p: "\<not> gpio_refused idf pin" using assms(2) by (simp add: gpio_refused_def)
  obtain g where g: "gpio_config idf (gpio_conf_of pin MP_HAL_ESP32_GPIO_OUTPUT pull) (gpio_hw s) = (0, g)" "s1 = s\<lparr>gpio_hw := g\<rparr>"
    using assms(3) p by (auto simp: mp_hal_esp32_gpio_init_def split: if_splits prod.splits)
  have "\<not> inp (gpio_hw ((mp_hal_esp32_gpio_toggle idf pin ^^ n) s1)) pin"
  proof (induction n)
    case 0
    then show ?case using gpio_config_law [OF assms(1) g(1)] g(2) by simp
  next
    case (Suc n)
    then show ?case using toggle_output_only [OF assms(1) p] by simp
  qed
  then show ?thesis using toggle_output_only [OF assms(1) p] by simp
qed

text \<open>A platform for the witness: its state is the list of the masks whose input is enabled and the levels.\<close>

definition demo_gpio :: "(u64 list \<times> (int \<Rightarrow> u32)) gpio_idf" where
  "demo_gpio =
     \<lparr>GPIO_NUM_MAX = 40,
      gpio_config = (\<lambda>c g. (0, (if gc_mode c = GPIO_MODE_INPUT \<or> gc_mode c = GPIO_MODE_INPUT_OUTPUT then pin_bit_mask c # fst g
         else filter (\<lambda>m. m \<noteq> pin_bit_mask c) (fst g), snd g))),
      gpio_reset_pin = (\<lambda>p g. g), gpio_set_level = (\<lambda>p l g. (fst g, (snd g)(p := l))),
      gpio_get_level = (\<lambda>p g. if push_bit (nat p) 1 \<in> set (fst g) then uint (snd g p) else 0),
      gpio_set_intr_type = (\<lambda>p i g. (0, g)), gpio_intr_clear = (\<lambda>p g. g), gpio_install_isr_service = (\<lambda>g. (0, g)),
      gpio_isr_handler_add = (\<lambda>p g. (if p = 34 then -1 else 0, g)), gpio_isr_handler_remove = (\<lambda>p g. g),
      gpio_set_open_drain = (\<lambda>p e g. g), gpio_set_drive_capability = (\<lambda>p n g. g), gpio_set_glitch_filter = (\<lambda>p e g. g)\<rparr>"

lemma demo_gpio_laws: "gpio_laws demo_gpio snd (\<lambda>g p. push_bit (nat p) 1 \<in> set (fst g))"
  by (auto simp: gpio_laws_def demo_gpio_def gpio_conf_of_def split: gpio_dir.splits)

lemma gpio_toggle_sticks_witness:
  "\<exists>s1. mp_hal_esp32_gpio_init demo_gpio 2 MP_HAL_ESP32_GPIO_OUTPUT MP_HAL_ESP32_GPIO_NOPULL (gpio_boot demo_gpio ([], \<lambda>_. 0)) = Some (0, s1) \<and>
     snd (gpio_hw ((mp_hal_esp32_gpio_toggle demo_gpio 2 ^^ Suc 1) s1)) 2 = 1"
proof -
  obtain s1 where s1: "mp_hal_esp32_gpio_init demo_gpio 2 MP_HAL_ESP32_GPIO_OUTPUT MP_HAL_ESP32_GPIO_NOPULL
      (gpio_boot demo_gpio ([], \<lambda>_. 0)) = Some (0, s1)"
    by (simp add: mp_hal_esp32_gpio_init_def gpio_refused_def demo_gpio_def)
  have "(2 :: int) < int (GPIO_NUM_MAX demo_gpio)" by (simp add: demo_gpio_def)
  from gpio_toggle_sticks [OF demo_gpio_laws this s1, of 1] show ?thesis using s1 by blast
qed

text \<open>Pin 34 is refused by the driver of the witness; its interrupt calls the callback all the same.\<close>

lemma gpio_interrupts_call_registered_witness:
  "\<exists>calls s. gpio_run demo_gpio [Gpio_register 34 7 1, Gpio_interrupt 34, Gpio_register 2 8 5, Gpio_unregister 34, Gpio_interrupt 34,
       Gpio_interrupt 2] (gpio_boot demo_gpio ([], \<lambda>_. 0)) = Some (calls, s) \<and> calls = [(7, 1), (8, 5)]"
proof -
  let ?cs = "[Gpio_register 34 7 1, Gpio_interrupt 34, Gpio_register 2 8 5, Gpio_unregister 34, Gpio_interrupt 34, Gpio_interrupt 2]"
  obtain calls s where r: "gpio_run demo_gpio ?cs (gpio_boot demo_gpio ([], \<lambda>_. 0)) = Some (calls, s)"
    by (simp add: mp_hal_esp32_gpio_register_callback_def mp_hal_esp32_gpio_unregister_callback_def
        mp_hal_esp32_gpio_isr_handler_def gpio_refused_def gpio_boot_def demo_gpio_def Let_def)
  have "calls = [(7, 1), (8, 5)]"
    unfolding gpio_interrupts_call_registered [OF r] by (simp add: demo_gpio_def)
  then show ?thesis using r by blast
qed

end
