(* ===== verification/Esp32Mpu.thy ===== *)
theory Esp32Mpu
  imports Prelude
begin

text \<open>
  The memory protection of the ESP32, \<open>platform/esp32/mpu.c\<close>.  No register is written yet: what a region would be set to
  is logged, and the log is what the definitions give besides the result.
\<close>

datatype esp_chip = Chip_esp32 | Chip_esp32_s3_c3 | Chip_other

definition MP_HAL_ESP32_MPU_NO_ACCESS :: u32 where "MP_HAL_ESP32_MPU_NO_ACCESS = 0"
definition MP_HAL_ESP32_MPU_READ_WRITE :: u32 where "MP_HAL_ESP32_MPU_READ_WRITE = 2"
definition MP_HAL_ESP32_MPU_READ_EXECUTE :: u32 where "MP_HAL_ESP32_MPU_READ_EXECUTE = 3"
definition MP_HAL_ESP32_MPU_FULL_ACCESS :: u32 where "MP_HAL_ESP32_MPU_FULL_ACCESS = 7"

record mpu_region =
  base_addr :: u32
  region_size :: u32
  permissions :: u32
  region_enable :: bool

text \<open>A logged region: its index, base, size and permissions.\<close>

datatype mpu_log = Mpu_region u32 u32 u32 u32 | Pmp_region u32 u32 u32 u32 | Mpu_enabled | Mpu_disabled | Mpu_cache u32 bool

definition mp_hal_esp32_mpu_is_supported :: "esp_chip \<Rightarrow> bool" where
  "mp_hal_esp32_mpu_is_supported chip = (chip = Chip_esp32 \<or> chip = Chip_esp32_s3_c3)"

definition mp_hal_esp32_mpu_init :: "esp_chip \<Rightarrow> int" where
  "mp_hal_esp32_mpu_init chip = (if \<not> mp_hal_esp32_mpu_is_supported chip then -1 else 0)"

definition mp_hal_esp32_mpu_enable :: "esp_chip \<Rightarrow> mpu_log list" where
  "mp_hal_esp32_mpu_enable chip = (if \<not> mp_hal_esp32_mpu_is_supported chip then [] else [Mpu_enabled])"

definition mp_hal_esp32_mpu_disable :: "esp_chip \<Rightarrow> mpu_log list" where
  "mp_hal_esp32_mpu_disable chip = (if \<not> mp_hal_esp32_mpu_is_supported chip then [] else [Mpu_disabled])"

text \<open>\<open>while (size > 1) { size >>= 1; size_encoding++; }\<close>\<close>

function size_encoding :: "u32 \<Rightarrow> nat \<Rightarrow> nat" where
  "size_encoding sz enc = (if sz > 1 then size_encoding (drop_bit 1 sz) (enc + 1) else enc)"
  by pat_completeness auto

lemma unat_drop_bit_1: "unat (drop_bit 1 w :: u32) = unat w div 2"
  by (simp add: drop_bit_eq_div unat_div)

termination size_encoding
proof (relation "measure (\<lambda>(sz, enc). unat sz)")
  fix sz :: u32 and enc :: nat
  assume "sz > 1"
  then have "unat (drop_bit 1 sz) < unat sz" unfolding unat_drop_bit_1 by (simp add: word_less_nat_alt)
  then show "((drop_bit 1 sz, enc + 1), sz, enc) \<in> measure (\<lambda>(sz, enc). unat sz)" by simp
qed simp

declare size_encoding.simps [simp del]

definition mp_hal_esp32_mpu_configure_region :: "esp_chip \<Rightarrow> u32 \<Rightarrow> u32 \<Rightarrow> u32 \<Rightarrow> u32 \<Rightarrow> int \<times> mpu_log list" where
  "mp_hal_esp32_mpu_configure_region chip region_idx base sz perm =
     (if \<not> mp_hal_esp32_mpu_is_supported chip then (-1, [])
      else if region_idx \<ge> 8 then (-1, [])
      else if sz AND (sz - 1) \<noteq> 0 then (-1, [])
      else
        (0, if chip = Chip_esp32 then [Mpu_region region_idx base (push_bit (size_encoding sz 0) 1) perm]
            else [Pmp_region region_idx base sz perm]))"

text \<open>The loop over the regions stops at the first that is refused; those before it stay configured.\<close>

fun configure_regions :: "esp_chip \<Rightarrow> u32 \<Rightarrow> mpu_region list \<Rightarrow> int \<times> mpu_log list" where
  "configure_regions chip i [] = (0, [])"
| "configure_regions chip i (r # rs) =
     (let (err, out) = mp_hal_esp32_mpu_configure_region chip i (base_addr r) (region_size r) (permissions r)
      in if err \<noteq> 0 then (-1, out)
         else let (err2, out2) = configure_regions chip (i + 1) rs in (err2, out @ out2))"

text \<open>The array, of which \<open>num_regions\<close> entries are read; \<^term>\<open>None\<close> when it is shorter.\<close>

definition mp_hal_esp32_mpu_configure :: "esp_chip \<Rightarrow> mpu_region list \<Rightarrow> u32 \<Rightarrow> (int \<times> mpu_log list) option" where
  "mp_hal_esp32_mpu_configure chip regions num_regions =
     (if \<not> mp_hal_esp32_mpu_is_supported chip then Some (-1, [])
      else if num_regions > 8 then Some (-1, [])
      else if length regions < unat num_regions then None
      else Some (configure_regions chip 0 (take (unat num_regions) regions)))"

definition mp_hal_esp32_mpu_set_app_code_protection :: "esp_chip \<Rightarrow> u32 \<Rightarrow> u32 \<Rightarrow> (int \<times> mpu_log list) option" where
  "mp_hal_esp32_mpu_set_app_code_protection chip start_addr sz =
     mp_hal_esp32_mpu_configure chip
       [\<lparr>base_addr = start_addr, region_size = sz, permissions = MP_HAL_ESP32_MPU_READ_EXECUTE, region_enable = True\<rparr>] 1"

definition mp_hal_esp32_mpu_set_app_data_protection :: "esp_chip \<Rightarrow> u32 \<Rightarrow> u32 \<Rightarrow> (int \<times> mpu_log list) option" where
  "mp_hal_esp32_mpu_set_app_data_protection chip start_addr sz =
     mp_hal_esp32_mpu_configure chip
       [\<lparr>base_addr = start_addr, region_size = sz, permissions = MP_HAL_ESP32_MPU_READ_WRITE, region_enable = True\<rparr>] 1"

definition mp_hal_esp32_mpu_set_os_protection :: "esp_chip \<Rightarrow> u32 \<Rightarrow> u32 \<Rightarrow> (int \<times> mpu_log list) option" where
  "mp_hal_esp32_mpu_set_os_protection chip start_addr sz =
     mp_hal_esp32_mpu_configure chip
       [\<lparr>base_addr = start_addr, region_size = sz, permissions = MP_HAL_ESP32_MPU_FULL_ACCESS, region_enable = True\<rparr>] 1"

definition mp_hal_esp32_mpu_set_stack_guard :: "esp_chip \<Rightarrow> u32 \<Rightarrow> u32 \<Rightarrow> (int \<times> mpu_log list) option" where
  "mp_hal_esp32_mpu_set_stack_guard chip stack_base stack_size =
     mp_hal_esp32_mpu_configure chip
       [\<lparr>base_addr = stack_base + stack_size - 32, region_size = 32, permissions = MP_HAL_ESP32_MPU_NO_ACCESS,
         region_enable = True\<rparr>] 1"

definition mp_hal_esp32_pmp_configure_region :: "u32 \<Rightarrow> u32 \<Rightarrow> u32 \<Rightarrow> u32 \<Rightarrow> int \<times> mpu_log list" where
  "mp_hal_esp32_pmp_configure_region region_idx base sz perm = (0, [Pmp_region region_idx base sz perm])"

definition mp_hal_esp32_mpu_set_cache_attributes :: "esp_chip \<Rightarrow> u32 \<Rightarrow> bool \<Rightarrow> mpu_log list" where
  "mp_hal_esp32_mpu_set_cache_attributes chip region_idx cacheable =
     (if \<not> mp_hal_esp32_mpu_is_supported chip then [] else [Mpu_cache region_idx cacheable])"

section \<open>Sizes\<close>

lemma nat_and_pred:
  fixes n :: nat
  shows "n AND (n - 1) = 0 \<longleftrightarrow> n = 0 \<or> (\<exists>k. n = 2 ^ k)"
proof (induction n rule: less_induct)
  case (less n)
  consider "n = 0" | m where "n = 2 * m" "m > 0" | m where "n = 2 * m + 1"
    by (metis evenE gr0I mult_0_right oddE)
  then show ?case
  proof cases
    case (2 m)
    obtain j where j: "m = Suc j" using 2(2) by (cases m) auto
    have pred: "n - 1 = 2 * (m - 1) + 1" using 2 by simp
    have "n AND (n - 1) = 2 * (m AND (m - 1))" unfolding pred by (simp add: 2(1) and_nat_rec [of "2 * m"])
    then have "n AND (n - 1) = 0 \<longleftrightarrow> (\<exists>k. m = 2 ^ k)" using less [of m] 2 by auto
    also have "\<dots> \<longleftrightarrow> (\<exists>k. n = 2 ^ k)"
    proof
      assume "\<exists>k. m = 2 ^ k"
      then obtain k where "m = 2 ^ k" ..
      then have "n = 2 ^ Suc k" using 2(1) by simp
      then show "\<exists>k. n = 2 ^ k" ..
    next
      assume "\<exists>k. n = 2 ^ k"
      then obtain k where k: "2 * m = 2 ^ k" using 2(1) by auto
      then obtain k' where "k = Suc k'" by (cases k) (auto dest: arg_cong [where f = even])
      then show "\<exists>k. m = 2 ^ k" using k by auto
    qed
    finally show ?thesis using 2 by simp
  next
    case (3 m)
    have "n AND (n - 1) = 2 * m" unfolding 3 by (simp add: and_nat_rec [of "Suc (2 * m)"])
    moreover have "(\<exists>k. n = 2 ^ k) \<longleftrightarrow> m = 0"
    proof
      assume "\<exists>k. n = 2 ^ k"
      then obtain k where k: "2 * m + 1 = 2 ^ k" using 3 by auto
      then have "k = 0" by (cases k) (auto dest: arg_cong [where f = even])
      then show "m = 0" using k by simp
    next
      assume "m = 0"
      then have "n = 2 ^ 0" using 3 by simp
      then show "\<exists>k. n = 2 ^ k" ..
    qed
    ultimately show ?thesis using 3 by simp
  qed simp
qed

lemma word_and_pred: "sz AND (sz - 1) = 0 \<longleftrightarrow> sz = 0 \<or> (\<exists>k < 32. unat (sz :: u32) = 2 ^ k)"
proof (cases "sz = 0")
  case False
  have "unat (sz - 1) = unat sz - 1" using False by (simp add: unat_minus_one)
  then have "sz AND (sz - 1) = 0 \<longleftrightarrow> unat sz AND (unat sz - 1) = 0"
    by (metis unsigned_and_eq unat_eq_0)
  also have "\<dots> \<longleftrightarrow> (\<exists>k. unat sz = 2 ^ k)" using False nat_and_pred [of "unat sz"] by (simp add: unat_eq_0)
  also have "\<dots> \<longleftrightarrow> (\<exists>k < 32. unat sz = 2 ^ k)"
  proof
    assume "\<exists>k. unat sz = 2 ^ k"
    then obtain k where k: "unat sz = 2 ^ k" ..
    then have "(2 :: nat) ^ k < 2 ^ 32" using unat_less_2p32 [of sz] by simp
    then have "k < 32" by (rule power_less_imp_less_exp [rotated]) simp
    then show "\<exists>k < 32. unat sz = 2 ^ k" using k by blast
  qed blast
  finally show ?thesis using False by simp
qed simp

lemma size_encoding_power: "unat sz = 2 ^ k \<Longrightarrow> size_encoding sz enc = enc + k"
proof (induction k arbitrary: sz enc)
  case 0
  then show ?case by (subst size_encoding.simps) (simp add: word_less_nat_alt)
next
  case (Suc k)
  have "(1 :: nat) < 2 * 2 ^ k" by (induction k) simp_all
  then have "sz > 1" using Suc.prems by (simp add: word_less_nat_alt)
  moreover have "unat (drop_bit 1 sz) = 2 ^ k" unfolding unat_drop_bit_1 using Suc.prems by simp
  ultimately show ?case using Suc.IH by (subst size_encoding.simps) simp
qed

text \<open>
  A region is accepted exactly when the chip has protection, the index is one of eight, and the size is a power of two or
  0; the size that is set on the ESP32 is the one asked for, and 1 for a region of size 0.
\<close>

theorem mpu_region_accepted:
  "(fst (mp_hal_esp32_mpu_configure_region chip i base sz perm) = 0 \<longleftrightarrow>
      chip \<noteq> Chip_other \<and> i < 8 \<and> (sz = 0 \<or> (\<exists>k < 32. unat sz = 2 ^ k))) \<and>
   (mp_hal_esp32_mpu_configure_region Chip_esp32 i base sz perm = (0, [Mpu_region i base (if sz = 0 then 1 else sz) perm]) \<or>
    mp_hal_esp32_mpu_configure_region Chip_esp32 i base sz perm = (-1, []))"
proof
  show "fst (mp_hal_esp32_mpu_configure_region chip i base sz perm) = 0 \<longleftrightarrow>
      chip \<noteq> Chip_other \<and> i < 8 \<and> (sz = 0 \<or> (\<exists>k < 32. unat sz = 2 ^ k))"
    unfolding word_and_pred [symmetric]
    by (cases chip) (auto simp: mp_hal_esp32_mpu_configure_region_def mp_hal_esp32_mpu_is_supported_def)
  show "mp_hal_esp32_mpu_configure_region Chip_esp32 i base sz perm = (0, [Mpu_region i base (if sz = 0 then 1 else sz) perm]) \<or>
      mp_hal_esp32_mpu_configure_region Chip_esp32 i base sz perm = (-1, [])"
  proof (cases "i < 8 \<and> sz AND (sz - 1) = 0")
    case True
    have "push_bit (size_encoding sz 0) 1 = (if sz = 0 then 1 else sz)"
    proof (cases "sz = 0")
      case True
      then show ?thesis by (subst size_encoding.simps) simp
    next
      case False
      then obtain k where k: "k < 32" "unat sz = 2 ^ k" using True word_and_pred [of sz] by auto
      have "sz = of_nat (unat sz)" by simp
      also have "\<dots> = 2 ^ k" using k by simp
      finally have s: "sz = 2 ^ k" .
      show ?thesis using False size_encoding_power [OF k(2), of 0] s by (simp add: push_bit_eq_mult)
    qed
    then show ?thesis
      using True by (simp add: mp_hal_esp32_mpu_configure_region_def mp_hal_esp32_mpu_is_supported_def not_le)
  qed (auto simp: mp_hal_esp32_mpu_configure_region_def mp_hal_esp32_mpu_is_supported_def)
qed

text \<open>
  The protections of code, data, the system and the stack all set region 0, so that each replaces the one before; the guard
  of a stack is placed at its end, from which it grows down, not at its bottom.
\<close>

theorem mpu_one_region:
  "mp_hal_esp32_mpu_set_app_code_protection Chip_esp32 0x1000 0x400 = Some (0, [Mpu_region 0 0x1000 0x400 3]) \<and>
   mp_hal_esp32_mpu_set_app_data_protection Chip_esp32 0x2000 0x400 = Some (0, [Mpu_region 0 0x2000 0x400 2]) \<and>
   mp_hal_esp32_mpu_set_stack_guard Chip_esp32 stack_base stack_size =
     Some (0, [Mpu_region 0 (stack_base + stack_size - 32) 32 0])"
  by (simp add: mp_hal_esp32_mpu_set_app_code_protection_def mp_hal_esp32_mpu_set_app_data_protection_def
      mp_hal_esp32_mpu_set_stack_guard_def mp_hal_esp32_mpu_configure_def mp_hal_esp32_mpu_configure_region_def
      mp_hal_esp32_mpu_is_supported_def MP_HAL_ESP32_MPU_READ_EXECUTE_def MP_HAL_ESP32_MPU_READ_WRITE_def
      MP_HAL_ESP32_MPU_NO_ACCESS_def size_encoding.simps)

end
