(* ===== verification/Esp32Cpu.thy ===== *)
theory Esp32Cpu
  imports Esp32Mpu
begin

text \<open>
  The processor of the ESP32, \<open>platform/esp32/cpu.c\<close>, for each chip it is compiled for.  The registers and the calls of
  ESP-IDF and FreeRTOS are parameters; what is logged is left out.
\<close>

record 'c cpu_idf =
  esp_clk_cpu_freq :: "'c \<Rightarrow> u32"
  esp_set_cpu_freq :: "u32 \<Rightarrow> 'c \<Rightarrow> int \<times> 'c"
  xPortGetCoreID :: "'c \<Rightarrow> int"
  cycle_register :: "'c \<Rightarrow> u32"
  riscv_compiler :: bool
  vTaskDelay :: "u32 \<Rightarrow> 'c \<Rightarrow> 'c"
  taskENTER_CRITICAL :: "'c \<Rightarrow> 'c"
  taskEXIT_CRITICAL :: "'c \<Rightarrow> 'c"
  read_ps :: "'c \<Rightarrow> u32"
  write_ps :: "u32 \<Rightarrow> 'c \<Rightarrow> 'c"
  efuse_read_empty_field :: "'c \<Rightarrow> u32"

record 'c esp_cpu =
  current_cpu_freq :: u32
  cpu_hw :: 'c

definition MICROPOSIX_CPU_FREQ_MHZ :: u32 where "MICROPOSIX_CPU_FREQ_MHZ = 160"

definition esp_cpu_boot :: "'c \<Rightarrow> 'c esp_cpu" where
  "esp_cpu_boot c = \<lparr>current_cpu_freq = MICROPOSIX_CPU_FREQ_MHZ, cpu_hw = c\<rparr>"

definition mp_hal_esp32_cpu_init :: "'c cpu_idf \<Rightarrow> 'c esp_cpu \<Rightarrow> 'c esp_cpu" where
  "mp_hal_esp32_cpu_init idf s = s\<lparr>current_cpu_freq := esp_clk_cpu_freq idf (cpu_hw s) div 1000000\<rparr>"

definition mp_hal_esp32_set_cpu_freq :: "'c cpu_idf \<Rightarrow> u32 \<Rightarrow> 'c esp_cpu \<Rightarrow> 'c esp_cpu" where
  "mp_hal_esp32_set_cpu_freq idf freq_mhz s =
     (let (err, c) = esp_set_cpu_freq idf (freq_mhz * 1000000) (cpu_hw s); s1 = s\<lparr>cpu_hw := c\<rparr>
      in if err = 0 then s1\<lparr>current_cpu_freq := freq_mhz\<rparr> else s1)"

definition mp_hal_esp32_get_cpu_freq :: "'c esp_cpu \<Rightarrow> u32" where "mp_hal_esp32_get_cpu_freq s = current_cpu_freq s"

definition mp_hal_esp32_get_core_id :: "'c cpu_idf \<Rightarrow> 'c esp_cpu \<Rightarrow> int" where
  "mp_hal_esp32_get_core_id idf s = xPortGetCoreID idf (cpu_hw s)"

definition mp_hal_esp32_get_cycle_count :: "'c cpu_idf \<Rightarrow> esp_chip \<Rightarrow> 'c esp_cpu \<Rightarrow> u32" where
  "mp_hal_esp32_get_cycle_count idf chip s =
     (case chip of Chip_esp32 \<Rightarrow> cycle_register idf (cpu_hw s)
      | Chip_esp32_s3_c3 \<Rightarrow> (if riscv_compiler idf then cycle_register idf (cpu_hw s) else 0)
      | Chip_other \<Rightarrow> 0)"

definition mp_hal_esp32_wfi :: "'c cpu_idf \<Rightarrow> 'c esp_cpu \<Rightarrow> 'c esp_cpu" where
  "mp_hal_esp32_wfi idf s = s\<lparr>cpu_hw := vTaskDelay idf 0 (cpu_hw s)\<rparr>"

definition mp_hal_esp32_enter_critical :: "'c cpu_idf \<Rightarrow> esp_chip \<Rightarrow> 'c esp_cpu \<Rightarrow> u32 \<times> 'c esp_cpu" where
  "mp_hal_esp32_enter_critical idf chip s =
     (if chip = Chip_esp32 then read_ps idf (cpu_hw s) else 0, s\<lparr>cpu_hw := taskENTER_CRITICAL idf (cpu_hw s)\<rparr>)"

definition mp_hal_esp32_exit_critical :: "'c cpu_idf \<Rightarrow> esp_chip \<Rightarrow> u32 \<Rightarrow> 'c esp_cpu \<Rightarrow> 'c esp_cpu" where
  "mp_hal_esp32_exit_critical idf chip state s =
     (let c = taskEXIT_CRITICAL idf (cpu_hw s) in s\<lparr>cpu_hw := if chip = Chip_esp32 then write_ps idf state c else c\<rparr>)"

text \<open>
  On the ESP32 the result is that of reading a field of no bits; on the other chips \<open>esp_read_mac\<close> stores its six bytes
  into the four of the result, which is undefined.
\<close>

definition mp_hal_esp32_get_chip_id :: "'c cpu_idf \<Rightarrow> esp_chip \<Rightarrow> 'c esp_cpu \<Rightarrow> u32 option" where
  "mp_hal_esp32_get_chip_id idf chip s =
     (case chip of Chip_esp32 \<Rightarrow> Some (efuse_read_empty_field idf (cpu_hw s)) | Chip_esp32_s3_c3 \<Rightarrow> None | Chip_other \<Rightarrow> Some 0)"

definition mp_hal_esp32_get_instruction_count :: u32 where "mp_hal_esp32_get_instruction_count = 0"

text \<open>
  Critical sections nest: between the two calls anything may happen that leaves the nesting as it was; then the register
  of the processor is what it was before, on the ESP32.  \<open>depth\<close> is the nesting of FreeRTOS.
\<close>

theorem esp32_critical_section_restores:
  assumes "\<forall>v c. read_ps idf (write_ps idf v c) = v" and "\<forall>c. depth (taskENTER_CRITICAL idf c) = depth c + (1 :: nat)"
    and "\<forall>c. depth (taskEXIT_CRITICAL idf c) = depth c - 1" and "\<forall>v c. depth (write_ps idf v c) = depth c"
    and "mp_hal_esp32_enter_critical idf Chip_esp32 s = (state, s1)" and "depth (cpu_hw s2) = depth (cpu_hw s1)"
  shows "read_ps idf (cpu_hw (mp_hal_esp32_exit_critical idf Chip_esp32 state s2)) = read_ps idf (cpu_hw s) \<and>
    depth (cpu_hw (mp_hal_esp32_exit_critical idf Chip_esp32 state s2)) = depth (cpu_hw s)"
  using assms by (auto simp: mp_hal_esp32_enter_critical_def mp_hal_esp32_exit_critical_def Let_def)

text \<open>The frequency is the one last set; a request that is refused keeps it.\<close>

theorem esp32_cpu_freq:
  "mp_hal_esp32_get_cpu_freq (mp_hal_esp32_set_cpu_freq idf f s) =
     (if fst (esp_set_cpu_freq idf (f * 1000000) (cpu_hw s)) = 0 then f else mp_hal_esp32_get_cpu_freq s)"
  by (simp add: mp_hal_esp32_get_cpu_freq_def mp_hal_esp32_set_cpu_freq_def split: prod.split)

end
