(* ===== verification/Abi.thy ===== *)
theory Abi
  imports Thread Tlsf BleEsp32 Esp32Wdt Esp32Gpio Esp32Cpu
begin

text \<open>
  The system calls, \<open>kernel/abi.c\<close> and \<open>kernel/abi_esp32.c\<close>: the two handlers that take the number of a call and its
  arguments, and the jump table of the ESP32.  They compose the threads, the first-fit heap, the pins, the watchdog, the
  processor and BLE.
\<close>

section \<open>State\<close>

definition SYS_MALLOC :: u32 where "SYS_MALLOC = 1"
definition SYS_FREE :: u32 where "SYS_FREE = 2"
definition SYS_PTHREAD_CREATE :: u32 where "SYS_PTHREAD_CREATE = 3"
definition SYS_PTHREAD_JOIN :: u32 where "SYS_PTHREAD_JOIN = 4"
definition SYS_PTHREAD_EXIT :: u32 where "SYS_PTHREAD_EXIT = 5"
definition SYS_THREAD_SLEEP :: u32 where "SYS_THREAD_SLEEP = 6"
definition SYS_LOG :: u32 where "SYS_LOG = 7"
definition SYS_GPIO_INIT :: u32 where "SYS_GPIO_INIT = 8"
definition SYS_GPIO_WRITE :: u32 where "SYS_GPIO_WRITE = 9"
definition SYS_GPIO_READ :: u32 where "SYS_GPIO_READ = 10"
definition SYS_GATT_SEND :: u32 where "SYS_GATT_SEND = 11"
definition SYS_ESP32_GET_CYCLE_COUNT :: u32 where "SYS_ESP32_GET_CYCLE_COUNT = 50"
definition SYS_ESP32_GET_CORE_ID :: u32 where "SYS_ESP32_GET_CORE_ID = 51"
definition SYS_ESP32_WFI :: u32 where "SYS_ESP32_WFI = 52"
definition SYS_ESP32_RESET :: u32 where "SYS_ESP32_RESET = 53"
definition SYS_ESP32_UART_SEND :: u32 where "SYS_ESP32_UART_SEND = 54"
definition SYS_ESP32_UART_RECEIVE :: u32 where "SYS_ESP32_UART_RECEIVE = 55"
definition SYS_ESP32_BLE_INIT :: u32 where "SYS_ESP32_BLE_INIT = 56"
definition SYS_ESP32_BLE_SEND :: u32 where "SYS_ESP32_BLE_SEND = 57"
definition SYS_ESP32_WDT_FEED :: u32 where "SYS_ESP32_WDT_FEED = 58"

lemmas sys_ids = SYS_MALLOC_def SYS_FREE_def SYS_PTHREAD_CREATE_def SYS_PTHREAD_JOIN_def SYS_PTHREAD_EXIT_def
  SYS_THREAD_SLEEP_def SYS_LOG_def SYS_GPIO_INIT_def SYS_GPIO_WRITE_def SYS_GPIO_READ_def SYS_GATT_SEND_def
  SYS_ESP32_GET_CYCLE_COUNT_def SYS_ESP32_GET_CORE_ID_def SYS_ESP32_WFI_def SYS_ESP32_RESET_def SYS_ESP32_UART_SEND_def
  SYS_ESP32_UART_RECEIVE_def SYS_ESP32_BLE_INIT_def SYS_ESP32_BLE_SEND_def SYS_ESP32_WDT_FEED_def

text \<open>The platform, and the parts a system call reaches.\<close>

record ('g, 'e, 'w, 'c) esp_platform =
  p_chip :: esp_chip
  p_gpio :: "'g gpio_idf"
  p_ble :: "'e bt_stack"
  p_wdt :: "'w twdt_idf"
  p_cpu :: "'c cpu_idf"

record ('g, 'e, 'w, 'c) esp_world =
  w_sched :: sched
  w_mem :: memory
  w_gpio :: "'g gpios"
  w_ble :: "'e ble_esp32"
  w_wdt :: "'w esp_wdt"
  w_cpu :: "'c esp_cpu"

text \<open>A call returns with the arguments changed in place, or the processor restarts.\<close>

datatype 'w abi_result = Abi_done "u32 list" 'w | Abi_restart

section \<open>Calls\<close>

definition arg_at :: "u32 list \<Rightarrow> nat \<Rightarrow> u32 option" where
  "arg_at args i = (if i < length args then Some (args ! i) else None)"

text \<open>The bytes at a pointer, as far as they are mapped and at most \<open>n\<close>.\<close>

fun mapped_bytes :: "memory \<Rightarrow> nat \<Rightarrow> uintptr \<Rightarrow> u8 list" where
  "mapped_bytes m 0 p = []"
| "mapped_bytes m (Suc n) p = (case m p of None \<Rightarrow> [] | Some b \<Rightarrow> b # mapped_bytes m n (p + 1))"

definition data_at :: "memory \<Rightarrow> uintptr \<Rightarrow> u8 list option" where
  "data_at m p = (if p = NULL then None else Some (mapped_bytes m 65535 p))"

definition gatt_send_call :: "('g, 'e, 'w, 'c) esp_platform \<Rightarrow> u32 list \<Rightarrow> ('g, 'e, 'w, 'c) esp_world \<Rightarrow>
    ('g, 'e, 'w, 'c) esp_world abi_result option" where
  "gatt_send_call P args w =
     do { a0 \<leftarrow> arg_at args 0; a1 \<leftarrow> arg_at args 1; a2 \<leftarrow> arg_at args 2;
          (r, b) \<leftarrow> mp_ble_esp32_send_data (p_ble P) (ucast a0) (data_at (w_mem w) a1) (ucast a2) (w_ble w);
          Some (Abi_done (args[0 := of_int r]) (w\<lparr>w_ble := b\<rparr>)) }"

text \<open>The heap is \<open>NULL\<close>: allocation reads its pool, which is undefined; freeing does not look at it.\<close>

definition mp_abi_esp32_syscall_handler :: "('g, 'e, 'w, 'c) esp_platform \<Rightarrow> u32 \<Rightarrow> u32 list \<Rightarrow> ('g, 'e, 'w, 'c) esp_world \<Rightarrow>
    ('g, 'e, 'w, 'c) esp_world abi_result option" where
  "mp_abi_esp32_syscall_handler P syscall_id args w =
     (if syscall_id = SYS_MALLOC then None
      else if syscall_id = SYS_FREE then
        do { a0 \<leftarrow> arg_at args 0; m \<leftarrow> mp_tlsf_free a0 (w_mem w); Some (Abi_done args (w\<lparr>w_mem := m\<rparr>)) }
      else if syscall_id = SYS_THREAD_SLEEP then
        do { a0 \<leftarrow> arg_at args 0; s \<leftarrow> mp_thread_sleep a0 (w_sched w); Some (Abi_done args (w\<lparr>w_sched := s\<rparr>)) }
      else if syscall_id = SYS_GPIO_WRITE then
        do { a0 \<leftarrow> arg_at args 0; a1 \<leftarrow> arg_at args 1;
             Some (Abi_done args (w\<lparr>w_gpio := mp_hal_esp32_gpio_write (p_gpio P) (sint a0) a1 (w_gpio w)\<rparr>)) }
      else if syscall_id = SYS_GPIO_READ then
        do { a0 \<leftarrow> arg_at args 0;
             Some (Abi_done (args[0 := mp_hal_esp32_gpio_read (p_gpio P) (sint a0) (w_gpio w)]) w) }
      else if syscall_id = SYS_GATT_SEND then gatt_send_call P args w
      else if syscall_id = SYS_LOG then Some (Abi_done args w)
      else if syscall_id = SYS_ESP32_GET_CYCLE_COUNT then
        do { a0 \<leftarrow> arg_at args 0; Some (Abi_done (args[0 := mp_hal_esp32_get_cycle_count (p_cpu P) (p_chip P) (w_cpu w)]) w) }
      else if syscall_id = SYS_ESP32_GET_CORE_ID then
        do { a0 \<leftarrow> arg_at args 0; Some (Abi_done (args[0 := of_int (mp_hal_esp32_get_core_id (p_cpu P) (w_cpu w))]) w) }
      else if syscall_id = SYS_ESP32_WFI then Some (Abi_done args (w\<lparr>w_cpu := mp_hal_esp32_wfi (p_cpu P) (w_cpu w)\<rparr>))
      else if syscall_id = SYS_ESP32_RESET then Some Abi_restart
      else if syscall_id = SYS_ESP32_BLE_INIT then
        do { a0 \<leftarrow> arg_at args 0; (r, b) \<leftarrow> mp_ble_esp32_init (p_ble P) (w_ble w);
             Some (Abi_done (args[0 := of_int r]) (w\<lparr>w_ble := b\<rparr>)) }
      else if syscall_id = SYS_ESP32_BLE_SEND then gatt_send_call P args w
      else if syscall_id = SYS_ESP32_WDT_FEED then Some (Abi_done args (w\<lparr>w_wdt := mp_hal_esp32_wdt_feed (p_wdt P) (w_wdt w)\<rparr>))
      else Some (Abi_done args w))"

text \<open>The handler of the Cortex-M33: allocation, again without a heap, and sleeping.\<close>

definition mp_kernel_svc_router :: "u32 \<Rightarrow> u32 list \<Rightarrow> sched \<Rightarrow> (u32 list \<times> sched) option" where
  "mp_kernel_svc_router svc_id args s =
     (if svc_id = SYS_MALLOC then None
      else if svc_id = SYS_THREAD_SLEEP then do { a0 \<leftarrow> arg_at args 0; s' \<leftarrow> mp_thread_sleep a0 s; Some (args, s') }
      else if svc_id = SYS_LOG then Some (args, s)
      else Some (args, s))"

section \<open>The jump table\<close>

datatype sys_entry =
    Entry_malloc | Entry_free | Entry_pthread_create | Entry_pthread_join | Entry_pthread_exit | Entry_thread_sleep
  | Entry_gpio_init | Entry_gpio_write | Entry_gpio_read | Entry_gatt_send | Entry_log
  | Entry_get_cycle_count | Entry_get_core_id | Entry_wfi | Entry_reset | Entry_uart_send | Entry_uart_receive
  | Entry_ble_init | Entry_ble_send | Entry_wdt_feed | Entry_mpu_configure | Entry_get_chip_id | Entry_get_flash_size
  | Entry_get_ram_size

definition MICROPOSIX_ABI_MAGIC :: u32 where "MICROPOSIX_ABI_MAGIC = 0xDEADBEEF"
definition MICROPOSIX_ABI_VERSION :: u32 where "MICROPOSIX_ABI_VERSION = 0x01000000"

text \<open>An entry holds the name of its function, none for \<open>NULL\<close>.\<close>

record sys_table =
  st_magic :: u32
  st_version :: u32
  st_entry :: "sys_entry \<Rightarrow> string option"

definition esp32_sys_table :: sys_table where
  "esp32_sys_table = \<lparr>st_magic = MICROPOSIX_ABI_MAGIC, st_version = MICROPOSIX_ABI_VERSION, st_entry = (\<lambda>_. None)\<rparr>"

fun esp32_entry :: "sys_entry \<Rightarrow> string option" where
  "esp32_entry Entry_malloc = Some ''mp_tlsf_alloc''"
| "esp32_entry Entry_free = Some ''mp_tlsf_free''"
| "esp32_entry Entry_pthread_create = Some ''pthread_create''"
| "esp32_entry Entry_pthread_join = Some ''pthread_join''"
| "esp32_entry Entry_pthread_exit = Some ''pthread_exit''"
| "esp32_entry Entry_thread_sleep = Some ''mp_thread_sleep''"
| "esp32_entry Entry_gpio_init = Some ''mp_hal_esp32_gpio_init''"
| "esp32_entry Entry_gpio_write = Some ''mp_hal_esp32_gpio_write''"
| "esp32_entry Entry_gpio_read = Some ''mp_hal_esp32_gpio_read''"
| "esp32_entry Entry_gatt_send = Some ''mp_ble_esp32_send_data''"
| "esp32_entry Entry_log = Some ''mp_log''"
| "esp32_entry Entry_get_cycle_count = Some ''mp_hal_esp32_get_cycle_count''"
| "esp32_entry Entry_get_core_id = Some ''mp_hal_esp32_get_core_id''"
| "esp32_entry Entry_wfi = Some ''mp_hal_esp32_wfi''"
| "esp32_entry Entry_reset = Some ''mp_hal_esp32_reset''"
| "esp32_entry Entry_uart_send = Some ''mp_hal_esp32_uart_send_data''"
| "esp32_entry Entry_uart_receive = Some ''mp_hal_esp32_uart_receive_data''"
| "esp32_entry Entry_ble_init = Some ''mp_ble_esp32_init''"
| "esp32_entry Entry_ble_send = Some ''mp_ble_esp32_send_data''"
| "esp32_entry Entry_wdt_feed = Some ''mp_hal_esp32_wdt_feed''"
| "esp32_entry Entry_mpu_configure = Some ''mp_hal_esp32_mpu_configure_region''"
| "esp32_entry Entry_get_chip_id = Some ''mp_hal_esp32_get_chip_id''"
| "esp32_entry Entry_get_flash_size = None"
| "esp32_entry Entry_get_ram_size = None"

text \<open>The heap of the table is initialised in the memory of its pool.\<close>

definition mp_abi_esp32_init :: "uintptr \<Rightarrow> memory \<Rightarrow> (mp_tlsf option \<times> memory \<times> sys_table) option" where
  "mp_abi_esp32_init pool m =
     do { (r, heap, m') \<leftarrow> mp_tlsf_init (Some \<lparr>tlsf_pool = 0, tlsf_size = 0\<rparr>) pool 16384 m;
          Some (heap, m', \<lparr>st_magic = MICROPOSIX_ABI_MAGIC, st_version = MICROPOSIX_ABI_VERSION, st_entry = esp32_entry\<rparr>) }"

section \<open>What a system call reaches\<close>

lemma free_reads_only: "mp_tlsf_free p m = Some m' \<Longrightarrow> m' = m"
  by (auto simp: mp_tlsf_free_def split: if_splits bind_splits)

text \<open>The numbers for which the handler does something.\<close>

definition handled_calls :: "u32 list" where
  "handled_calls = [SYS_MALLOC, SYS_FREE, SYS_THREAD_SLEEP, SYS_GPIO_WRITE, SYS_GPIO_READ, SYS_GATT_SEND,
     SYS_ESP32_GET_CYCLE_COUNT, SYS_ESP32_GET_CORE_ID, SYS_ESP32_WFI, SYS_ESP32_RESET, SYS_ESP32_BLE_INIT, SYS_ESP32_BLE_SEND,
     SYS_ESP32_WDT_FEED]"

lemma syscall_other:
  "n \<notin> set handled_calls \<Longrightarrow> mp_abi_esp32_syscall_handler P n args w = Some (Abi_done args w)"
  by (simp add: handled_calls_def mp_abi_esp32_syscall_handler_def)

text \<open>The handler, call by call.\<close>

lemma syscall_simps:
  "mp_abi_esp32_syscall_handler P SYS_MALLOC args w = None"
  "mp_abi_esp32_syscall_handler P SYS_FREE args w =
     do { a0 \<leftarrow> arg_at args 0; m \<leftarrow> mp_tlsf_free a0 (w_mem w); Some (Abi_done args (w\<lparr>w_mem := m\<rparr>)) }"
  "mp_abi_esp32_syscall_handler P SYS_THREAD_SLEEP args w =
     do { a0 \<leftarrow> arg_at args 0; s \<leftarrow> mp_thread_sleep a0 (w_sched w); Some (Abi_done args (w\<lparr>w_sched := s\<rparr>)) }"
  "mp_abi_esp32_syscall_handler P SYS_GPIO_WRITE args w =
     do { a0 \<leftarrow> arg_at args 0; a1 \<leftarrow> arg_at args 1;
          Some (Abi_done args (w\<lparr>w_gpio := mp_hal_esp32_gpio_write (p_gpio P) (sint a0) a1 (w_gpio w)\<rparr>)) }"
  "mp_abi_esp32_syscall_handler P SYS_GPIO_READ args w =
     do { a0 \<leftarrow> arg_at args 0; Some (Abi_done (args[0 := mp_hal_esp32_gpio_read (p_gpio P) (sint a0) (w_gpio w)]) w) }"
  "mp_abi_esp32_syscall_handler P SYS_GATT_SEND args w = gatt_send_call P args w"
  "mp_abi_esp32_syscall_handler P SYS_ESP32_GET_CYCLE_COUNT args w =
     do { a0 \<leftarrow> arg_at args 0; Some (Abi_done (args[0 := mp_hal_esp32_get_cycle_count (p_cpu P) (p_chip P) (w_cpu w)]) w) }"
  "mp_abi_esp32_syscall_handler P SYS_ESP32_GET_CORE_ID args w =
     do { a0 \<leftarrow> arg_at args 0; Some (Abi_done (args[0 := of_int (mp_hal_esp32_get_core_id (p_cpu P) (w_cpu w))]) w) }"
  "mp_abi_esp32_syscall_handler P SYS_ESP32_WFI args w = Some (Abi_done args (w\<lparr>w_cpu := mp_hal_esp32_wfi (p_cpu P) (w_cpu w)\<rparr>))"
  "mp_abi_esp32_syscall_handler P SYS_ESP32_RESET args w = Some Abi_restart"
  "mp_abi_esp32_syscall_handler P SYS_ESP32_BLE_INIT args w =
     do { a0 \<leftarrow> arg_at args 0; (r, b) \<leftarrow> mp_ble_esp32_init (p_ble P) (w_ble w);
          Some (Abi_done (args[0 := of_int r]) (w\<lparr>w_ble := b\<rparr>)) }"
  "mp_abi_esp32_syscall_handler P SYS_ESP32_BLE_SEND args w = gatt_send_call P args w"
  "mp_abi_esp32_syscall_handler P SYS_ESP32_WDT_FEED args w =
     Some (Abi_done args (w\<lparr>w_wdt := mp_hal_esp32_wdt_feed (p_wdt P) (w_wdt w)\<rparr>))"
  by (simp_all add: mp_abi_esp32_syscall_handler_def sys_ids)

lemma handled_cases [consumes 1, case_names free sleep write_pin read_pin send cycles core wfi ble_start feed other]:
  assumes "mp_abi_esp32_syscall_handler P n args w = Some (Abi_done args' w')"
  obtains "n = SYS_FREE" "w' = w"
  | a0 s where "n = SYS_THREAD_SLEEP" "mp_thread_sleep a0 (w_sched w) = Some s" "w' = w\<lparr>w_sched := s\<rparr>"
  | "n = SYS_GPIO_WRITE" "1 < length args" "w' = w\<lparr>w_gpio := mp_hal_esp32_gpio_write (p_gpio P) (sint (args ! 0)) (args ! 1) (w_gpio w)\<rparr>"
  | "n = SYS_GPIO_READ" "w' = w"
  | "n = SYS_GATT_SEND \<or> n = SYS_ESP32_BLE_SEND" "gatt_send_call P args w = Some (Abi_done args' w')"
  | "n = SYS_ESP32_GET_CYCLE_COUNT" "w' = w"
  | "n = SYS_ESP32_GET_CORE_ID" "w' = w"
  | "n = SYS_ESP32_WFI" "w' = w\<lparr>w_cpu := mp_hal_esp32_wfi (p_cpu P) (w_cpu w)\<rparr>"
  | b where "n = SYS_ESP32_BLE_INIT" "w' = w\<lparr>w_ble := b\<rparr>"
  | "n = SYS_ESP32_WDT_FEED" "w' = w\<lparr>w_wdt := mp_hal_esp32_wdt_feed (p_wdt P) (w_wdt w)\<rparr>"
  | "n \<notin> set handled_calls" "w' = w"
proof (cases "n \<in> set handled_calls")
  case True
  then have "n = SYS_MALLOC \<or> n = SYS_FREE \<or> n = SYS_THREAD_SLEEP \<or> n = SYS_GPIO_WRITE \<or> n = SYS_GPIO_READ \<or> n = SYS_GATT_SEND \<or>
      n = SYS_ESP32_GET_CYCLE_COUNT \<or> n = SYS_ESP32_GET_CORE_ID \<or> n = SYS_ESP32_WFI \<or> n = SYS_ESP32_RESET \<or>
      n = SYS_ESP32_BLE_INIT \<or> n = SYS_ESP32_BLE_SEND \<or> n = SYS_ESP32_WDT_FEED"
    by (simp add: handled_calls_def)
  then show thesis
    using assms
    by (elim disjE) (auto simp: syscall_simps arg_at_def split: bind_splits if_splits dest!: free_reads_only intro: that)
next
  case False
  then show thesis using assms syscall_other [of n P args w] by (intro that(11)) auto
qed

section \<open>Sequences of system calls\<close>

text \<open>Calls with their arguments, up to the last; there is no result when one is undefined or restarts the processor.\<close>

fun syscalls :: "('g, 'e, 'w, 'c) esp_platform \<Rightarrow> (u32 \<times> u32 list) list \<Rightarrow> ('g, 'e, 'w, 'c) esp_world \<Rightarrow>
    ('g, 'e, 'w, 'c) esp_world option" where
  "syscalls P [] w = Some w"
| "syscalls P ((n, args) # cs) w =
     (case mp_abi_esp32_syscall_handler P n args w of Some (Abi_done args' w') \<Rightarrow> syscalls P cs w' | _ \<Rightarrow> None)"

lemma syscalls_Cons:
  assumes "syscalls P ((n, args) # cs) w = Some w'"
  obtains args1 w1 where "mp_abi_esp32_syscall_handler P n args w = Some (Abi_done args1 w1)" "syscalls P cs w1 = Some w'"
  using assms by (auto split: option.splits abi_result.splits)

text \<open>What the driver promises of the pins that can be outputs: setting the level of one sets that level and no other.\<close>

definition pin_laws :: "'g gpio_idf \<Rightarrow> int set \<Rightarrow> ('g \<Rightarrow> int \<Rightarrow> u32) \<Rightarrow> bool" where
  "pin_laws idf outs lvl \<longleftrightarrow>
     (\<forall>pin l g. lvl (gpio_set_level idf pin l g) = (if pin \<in> outs then (lvl g)(pin := l) else lvl g))"

text \<open>The levels after a call, and the message that a call sends.\<close>

definition written_level :: "nat \<Rightarrow> int set \<Rightarrow> u32 \<times> u32 list \<Rightarrow> (int \<Rightarrow> u32) \<Rightarrow> int \<Rightarrow> u32" where
  "written_level pins outs c L =
     (let pin = sint (snd c ! 0)
      in if fst c = SYS_GPIO_WRITE \<and> pin < int pins \<and> pin \<in> outs then L(pin := if snd c ! 1 = 0 then 0 else 1) else L)"

definition messages_of :: "memory \<Rightarrow> u32 \<times> u32 list \<Rightarrow> (u16 \<times> u8 list) list" where
  "messages_of m c =
     (let conn = ucast (snd c ! 0); p = snd c ! 1; len = (ucast (snd c ! 2) :: u16)
      in if (fst c = SYS_GATT_SEND \<or> fst c = SYS_ESP32_BLE_SEND) \<and> p \<noteq> NULL \<and> 0 < len \<and> len \<le> 247
         then [(conn, the (load_bytes m (unat len) p))] else [])"

definition indicate :: "'e bt_stack \<Rightarrow> u16 \<times> u8 list \<Rightarrow> 'e \<Rightarrow> 'e" where
  "indicate b msg e = snd (bt_call b (Gatts_send_indicate 0 (fst msg) 0 (snd msg)) e)"

definition accepts :: "'e bt_stack \<Rightarrow> bool" where
  "accepts b \<longleftrightarrow> (\<forall>conn bs e. fst (bt_call b (Gatts_send_indicate 0 conn 0 bs) e) = 0)"

lemma mapped_bytes_load:
  "n \<le> length (mapped_bytes m k p) \<Longrightarrow> load_bytes m n p = Some (take n (mapped_bytes m k p))"
proof (induction m k p arbitrary: n rule: mapped_bytes.induct)
  case (2 m k p)
  then show ?case by (cases n) (auto split: option.splits)
qed simp

lemma data_at_read: "mem_read (mapped_bytes m k p) 0 n = Some bs \<Longrightarrow> load_bytes m n p = Some bs"
  using mapped_bytes_load [of n m k p] by (auto simp: mem_read_def split: if_splits)

lemma gatt_send_call_args:
  "2 < length args \<Longrightarrow> gatt_send_call P args w =
    do { (r, b) \<leftarrow> mp_ble_esp32_send_data (p_ble P) (ucast (args ! 0)) (data_at (w_mem w) (args ! 1)) (ucast (args ! 2)) (w_ble w);
         Some (Abi_done (args[0 := of_int r]) (w\<lparr>w_ble := b\<rparr>)) }"
  by (auto simp: gatt_send_call_def arg_at_def)

lemma gatt_send_call_sends:
  assumes "gatt_send_call P args w = Some (Abi_done args' w')" and "accepts (p_ble P)" and "e_state (w_ble w) = MP_BLE_CONNECTED"
    and "n = SYS_GATT_SEND \<or> n = SYS_ESP32_BLE_SEND"
  shows "w' = w\<lparr>w_ble := (w_ble w)\<lparr>bt := fold (indicate (p_ble P)) (messages_of (w_mem w) (n, args)) (bt (w_ble w))\<rparr>\<rparr>"
proof -
  let ?len = "ucast (args ! 2) :: u16"
  have l: "2 < length args" using assms(1) by (auto simp: gatt_send_call_def arg_at_def split: bind_splits if_splits)
  have g: "gatt_service_handle = 0" "gatt_char_handle = 0" by (simp_all add: gatt_service_handle_def gatt_char_handle_def)
  have ok: "fst (bt_call (p_ble P) (Gatts_send_indicate 0 conn 0 bs) e) = 0" for conn bs e
    using assms(2) unfolding accepts_def by blast
  show ?thesis
  proof (cases "args ! 1 = NULL \<or> ?len = 0 \<or> ?len > 247")
    case True
    then have "mp_ble_esp32_send_data (p_ble P) (ucast (args ! 0)) (data_at (w_mem w) (args ! 1)) ?len (w_ble w) = Some (-1, w_ble w)"
      using assms(3) by (auto simp: mp_ble_esp32_send_data_def data_at_def MP_BLE_ESP32_MTU_def)
    moreover have "messages_of (w_mem w) (n, args) = []" using True by (auto simp: messages_of_def Let_def)
    ultimately show ?thesis using assms(1) by (simp add: gatt_send_call_args [OF l])
  next
    case False
    then obtain bs where bs: "mem_read (mapped_bytes (w_mem w) 65535 (args ! 1)) 0 (unat ?len) = Some bs"
      using assms(1,3) by (auto simp: gatt_send_call_args [OF l] mp_ble_esp32_send_data_def data_at_def
          MP_BLE_ESP32_MTU_def split: bind_splits)
    have m: "messages_of (w_mem w) (n, args) = [(ucast (args ! 0), bs)]"
      using False assms(4) data_at_read [OF bs] by (auto simp: messages_of_def Let_def word_neq_0_conv)
    show ?thesis
      using False assms(1,3) bs ok [of "ucast (args ! 0)" bs "bt (w_ble w)"]
      by (auto simp: m indicate_def gatt_send_call_args [OF l] mp_ble_esp32_send_data_def data_at_def g Let_def split_beta
          MP_BLE_ESP32_MTU_def split: bind_splits)
  qed
qed

lemma gatt_send_call_refused:
  assumes "e_state (w_ble w) \<noteq> MP_BLE_CONNECTED"
  shows "gatt_send_call P args w = (if 2 < length args then Some (Abi_done (args[0 := -1]) w) else None)"
  using assms by (simp add: gatt_send_call_def arg_at_def mp_ble_esp32_send_data_def)

lemma gatt_send_call_ble: "gatt_send_call P args w = Some (Abi_done args' w') \<Longrightarrow> \<exists>b. w' = w\<lparr>w_ble := b\<rparr>"
  by (auto simp: gatt_send_call_def split: bind_splits)

lemma gpio_write_levels:
  assumes "pin_laws idf outs lvl"
  shows "lvl (gpio_hw (mp_hal_esp32_gpio_write idf (sint (args ! 0)) (args ! 1) g)) =
    written_level (GPIO_NUM_MAX idf) outs (SYS_GPIO_WRITE, args) (lvl (gpio_hw g))"
  using assms by (auto simp: pin_laws_def mp_hal_esp32_gpio_write_def gpio_refused_def written_level_def Let_def)

lemma thread_sleep_current: "mp_thread_sleep n s = Some s' \<Longrightarrow> current_thread s' = current_thread s"
  by (auto simp: mp_thread_sleep_def mp_sched_get_current_thread_def split: option.splits dest!: reschedule_frame)

text \<open>One call of a sequence.\<close>

lemma syscall_step:
  assumes c: "mp_abi_esp32_syscall_handler P n args w = Some (Abi_done args' w')"
  shows "w_mem w' = w_mem w"
    and "pin_laws (p_gpio P) outs lvl \<Longrightarrow>
      lvl (gpio_hw (w_gpio w')) = written_level (GPIO_NUM_MAX (p_gpio P)) outs (n, args) (lvl (gpio_hw (w_gpio w)))"
    and "wdt_hw (w_wdt w') = (task_wdt_reset (p_wdt P) ^^ (if n = SYS_ESP32_WDT_FEED then 1 else 0)) (wdt_hw (w_wdt w))"
    and "thread_table (w_sched w) k \<Longrightarrow> thread_table (w_sched w') k \<and> current_thread (w_sched w') = current_thread (w_sched w)"
    and "n \<noteq> SYS_ESP32_BLE_INIT \<Longrightarrow> e_state (w_ble w) \<noteq> MP_BLE_CONNECTED \<Longrightarrow> w_ble w' = w_ble w"
    and "n \<noteq> SYS_ESP32_BLE_INIT \<Longrightarrow> accepts (p_ble P) \<Longrightarrow> e_state (w_ble w) = MP_BLE_CONNECTED \<Longrightarrow>
      w_ble w' = (w_ble w)\<lparr>bt := fold (indicate (p_ble P)) (messages_of (w_mem w) (n, args)) (bt (w_ble w))\<rparr>"
proof -
  show "w_mem w' = w_mem w" using c by (cases rule: handled_cases) (auto dest!: gatt_send_call_ble)
  show "lvl (gpio_hw (w_gpio w')) = written_level (GPIO_NUM_MAX (p_gpio P)) outs (n, args) (lvl (gpio_hw (w_gpio w)))"
    if "pin_laws (p_gpio P) outs lvl"
  proof (cases "n = SYS_GPIO_WRITE")
    case True
    then show ?thesis
      using c gpio_write_levels [OF that, of args "w_gpio w"] by (auto simp: syscall_simps arg_at_def split: bind_splits if_splits)
  next
    case False
    then have l: "written_level (GPIO_NUM_MAX (p_gpio P)) outs (n, args) L = L" for L by (simp add: written_level_def Let_def)
    have "w_gpio w' = w_gpio w" using c by (cases rule: handled_cases) (use False in \<open>auto dest!: gatt_send_call_ble\<close>)
    then show ?thesis using l by simp
  qed
  show "wdt_hw (w_wdt w') = (task_wdt_reset (p_wdt P) ^^ (if n = SYS_ESP32_WDT_FEED then 1 else 0)) (wdt_hw (w_wdt w))"
    using c by (cases rule: handled_cases)
      (auto dest!: gatt_send_call_ble simp: mp_hal_esp32_wdt_feed_def sys_ids handled_calls_def)
  show "thread_table (w_sched w') k \<and> current_thread (w_sched w') = current_thread (w_sched w)" if "thread_table (w_sched w) k"
    using c by (cases rule: handled_cases)
      (auto dest!: gatt_send_call_ble simp: that thread_sleep_table [OF that] thread_sleep_current)
  show "w_ble w' = w_ble w" if "n \<noteq> SYS_ESP32_BLE_INIT" "e_state (w_ble w) \<noteq> MP_BLE_CONNECTED"
    using c by (cases rule: handled_cases) (use that in \<open>auto simp: gatt_send_call_refused split: if_splits\<close>)
  show "w_ble w' = (w_ble w)\<lparr>bt := fold (indicate (p_ble P)) (messages_of (w_mem w) (n, args)) (bt (w_ble w))\<rparr>"
    if t: "n \<noteq> SYS_ESP32_BLE_INIT" "accepts (p_ble P)" "e_state (w_ble w) = MP_BLE_CONNECTED"
  proof (cases "n = SYS_GATT_SEND \<or> n = SYS_ESP32_BLE_SEND")
    case True
    then have g: "gatt_send_call P args w = Some (Abi_done args' w')" using c by (auto simp: syscall_simps)
    show ?thesis unfolding gatt_send_call_sends [OF g t(2,3) True] by simp
  next
    case False
    then have m: "messages_of (w_mem w) (n, args) = []" by (auto simp: messages_of_def Let_def)
    have "w_ble w' = w_ble w" using c by (cases rule: handled_cases) (use False t(1) in auto)
    then show ?thesis unfolding m by simp
  qed
qed

lemma syscalls_induct [consumes 1, case_names Nil Cons]:
  assumes "syscalls P cs w = Some w'" and "Q [] w'"
    and "\<And>n args cs w args1 w1. mp_abi_esp32_syscall_handler P n args w = Some (Abi_done args1 w1) \<Longrightarrow> Q cs w1 \<Longrightarrow>
      Q ((n, args) # cs) w"
  shows "Q cs w"
  using assms(1)
proof (induction cs arbitrary: w)
  case (Cons c cs)
  obtain n args where c: "c = (n, args)" by force
  show ?case
    by (rule syscalls_Cons [OF Cons.prems [unfolded c]]) (use Cons.IH assms(3) c in blast)
qed (use assms(2) in simp)

lemma syscalls_mem: "syscalls P cs w = Some w' \<Longrightarrow> w_mem w' = w_mem w"
  by (induction rule: syscalls_induct) (simp_all add: syscall_step(1))

lemma syscalls_levels:
  assumes "syscalls P cs w = Some w'" and "pin_laws (p_gpio P) outs lvl"
  shows "lvl (gpio_hw (w_gpio w')) = fold (written_level (GPIO_NUM_MAX (p_gpio P)) outs) cs (lvl (gpio_hw (w_gpio w)))"
  using assms(1) by (induction rule: syscalls_induct) (simp_all add: syscall_step(2) [OF _ assms(2)])

lemma syscalls_feeds:
  "syscalls P cs w = Some w' \<Longrightarrow>
    wdt_hw (w_wdt w') = (task_wdt_reset (p_wdt P) ^^ length (filter (\<lambda>c. fst c = SYS_ESP32_WDT_FEED) cs)) (wdt_hw (w_wdt w))"
  by (induction rule: syscalls_induct) (simp_all add: syscall_step(3) funpow_swap1)

lemma syscalls_threads:
  "syscalls P cs w = Some w' \<Longrightarrow> thread_table (w_sched w) k \<longrightarrow>
    thread_table (w_sched w') k \<and> current_thread (w_sched w') = current_thread (w_sched w)"
  by (induction rule: syscalls_induct) (auto simp: syscall_step(4))

lemma syscalls_refused:
  "syscalls P cs w = Some w' \<Longrightarrow> SYS_ESP32_BLE_INIT \<notin> fst ` set cs \<and> e_state (w_ble w) \<noteq> MP_BLE_CONNECTED \<longrightarrow> w_ble w' = w_ble w"
  by (induction rule: syscalls_induct) (auto simp: syscall_step(5))

lemma syscalls_sent:
  assumes "syscalls P cs w = Some w'" and "accepts (p_ble P)"
  shows "SYS_ESP32_BLE_INIT \<notin> fst ` set cs \<and> e_state (w_ble w) = MP_BLE_CONNECTED \<longrightarrow>
    w_ble w' = (w_ble w)\<lparr>bt := fold (indicate (p_ble P)) (concat (map (messages_of (w_mem w)) cs)) (bt (w_ble w))\<rparr>"
  using assms(1)
  by (induction rule: syscalls_induct) (auto simp: syscall_step(1) syscall_step(6) [OF _ _ assms(2)])

text \<open>A thread that sleeps by a system call.\<close>

lemma sleep_call:
  assumes tt: "thread_table (w_sched w) k" and cur: "current_thread (w_sched w) = Some c" and c: "c \<in> set (created k)"
  obtains w' where "mp_abi_esp32_syscall_handler P SYS_THREAD_SLEEP [n] w = Some (Abi_done [n] w')"
    and "\<forall>j < max 1 (unat n). \<exists>s. sched_ticks j (w_sched w') = Some s \<and> tcb_state (tcbs s c) = MP_THREAD_SLEEPING"
    and "\<exists>s. sched_ticks (max 1 (unat n)) (w_sched w') = Some s \<and> tcb_state (tcbs s c) = MP_THREAD_READY"
proof -
  let ?s = "upd_tcb c (\<lambda>t. t\<lparr>tcb_state := MP_THREAD_SLEEPING, sleep_ticks := n\<rparr>) (w_sched w)"
  have t: "thread_table ?s k" using tt by (simp add: thread_table_upd)
  obtain s where s: "mp_sched_reschedule ?s = Some s" by (rule reschedule_table [OF t]) blast
  then have sl: "mp_thread_sleep n (w_sched w) = Some s" by (simp add: mp_thread_sleep_def mp_sched_get_current_thread_def cur)
  have rt: "ready_threads s (created k)" by (rule thread_table_ready [OF thread_sleep_table [OF tt sl]])
  have a: "tcb_state (tcbs s c) = MP_THREAD_SLEEPING" "sleep_ticks (tcbs s c) = n"
    using reschedule_frame [OF s] by (auto simp: upd_tcb_def)
  show thesis
  proof (rule that [of "w\<lparr>w_sched := s\<rparr>"])
    show "mp_abi_esp32_syscall_handler P SYS_THREAD_SLEEP [n] w = Some (Abi_done [n] (w\<lparr>w_sched := s\<rparr>))"
      using sl by (simp add: syscall_simps arg_at_def)
    show "\<exists>s'. sched_ticks (max 1 (unat n)) (w_sched (w\<lparr>w_sched := s\<rparr>)) = Some s' \<and> tcb_state (tcbs s' c) = MP_THREAD_READY"
      using ticks_wake [OF rt c a(1)] by (simp add: a(2))
    show "\<forall>j < max 1 (unat n). \<exists>s'. sched_ticks j (w_sched (w\<lparr>w_sched := s\<rparr>)) = Some s' \<and> tcb_state (tcbs s' c) = MP_THREAD_SLEEPING"
      using ticks_sleeping [OF rt] c a by fastforce
  qed
qed

text \<open>
  C34. What system calls do, by any sequence of them that returns.  The level of every pin is the one written by the last
  call that names it, 0 or 1, if the pin exists and can be an output, and as it was otherwise; a read returns the level that the
  driver reports.  The watchdog is fed once per call that feeds it.  While BLE is not initialised anew, the messages in memory
  that the calls of either number name are sent in their order, each with its connection and length, if there is a connection
  and the stack accepts them; without a connection none is and the caller gets -1.  Memory is as it was: nothing is freed.
  A thread that then calls to sleep for \<open>n\<close> ticks sleeps until tick \<open>max 1 n\<close>, when it becomes ready.
\<close>

theorem syscalls_take_effect:
  assumes "syscalls P cs w = Some w'" and "pin_laws (p_gpio P) outs lvl" and "accepts (p_ble P)"
    and "thread_table (w_sched w) k" and "current_thread (w_sched w) = Some c" and "c \<in> set (created k)"
  shows "lvl (gpio_hw (w_gpio w')) = fold (written_level (GPIO_NUM_MAX (p_gpio P)) outs) cs (lvl (gpio_hw (w_gpio w))) \<and>
    mp_abi_esp32_syscall_handler P SYS_GPIO_READ [pin] w' =
      Some (Abi_done [if sint pin < int (GPIO_NUM_MAX (p_gpio P)) then of_int (gpio_get_level (p_gpio P) (sint pin) (gpio_hw (w_gpio w'))) else 0] w') \<and>
    wdt_hw (w_wdt w') = (task_wdt_reset (p_wdt P) ^^ length (filter (\<lambda>c. fst c = SYS_ESP32_WDT_FEED) cs)) (wdt_hw (w_wdt w)) \<and>
    (SYS_ESP32_BLE_INIT \<notin> fst ` set cs \<longrightarrow>
       (if e_state (w_ble w) = MP_BLE_CONNECTED
        then bt (w_ble w') = fold (indicate (p_ble P)) (concat (map (messages_of (w_mem w)) cs)) (bt (w_ble w))
        else bt (w_ble w') = bt (w_ble w) \<and>
          mp_abi_esp32_syscall_handler P SYS_ESP32_BLE_SEND [conn, p, len] w' = Some (Abi_done [-1, p, len] w'))) \<and>
    w_mem w' = w_mem w \<and>
    (\<exists>w''. mp_abi_esp32_syscall_handler P SYS_THREAD_SLEEP [n] w' = Some (Abi_done [n] w'') \<and>
       (\<forall>j < max 1 (unat n). \<exists>s. sched_ticks j (w_sched w'') = Some s \<and> tcb_state (tcbs s c) = MP_THREAD_SLEEPING) \<and>
       (\<exists>s. sched_ticks (max 1 (unat n)) (w_sched w'') = Some s \<and> tcb_state (tcbs s c) = MP_THREAD_READY))"
proof (intro conjI impI)
  show "lvl (gpio_hw (w_gpio w')) = fold (written_level (GPIO_NUM_MAX (p_gpio P)) outs) cs (lvl (gpio_hw (w_gpio w)))"
    by (rule syscalls_levels [OF assms(1,2)])
  show "w_mem w' = w_mem w" by (rule syscalls_mem [OF assms(1)])
  show "if e_state (w_ble w) = MP_BLE_CONNECTED
      then bt (w_ble w') = fold (indicate (p_ble P)) (concat (map (messages_of (w_mem w)) cs)) (bt (w_ble w))
      else bt (w_ble w') = bt (w_ble w) \<and>
        mp_abi_esp32_syscall_handler P SYS_ESP32_BLE_SEND [conn, p, len] w' = Some (Abi_done [-1, p, len] w')"
    if "SYS_ESP32_BLE_INIT \<notin> fst ` set cs"
    using that syscalls_sent [OF assms(1,3)] syscalls_refused [OF assms(1)] by (simp add: syscall_simps gatt_send_call_refused)
  have "thread_table (w_sched w') k" "current_thread (w_sched w') = Some c"
    using syscalls_threads [OF assms(1), of k] assms(4,5) by simp_all
  then show "\<exists>w''. mp_abi_esp32_syscall_handler P SYS_THREAD_SLEEP [n] w' = Some (Abi_done [n] w'') \<and>
       (\<forall>j < max 1 (unat n). \<exists>s. sched_ticks j (w_sched w'') = Some s \<and> tcb_state (tcbs s c) = MP_THREAD_SLEEPING) \<and>
       (\<exists>s. sched_ticks (max 1 (unat n)) (w_sched w'') = Some s \<and> tcb_state (tcbs s c) = MP_THREAD_READY)"
    by (rule sleep_call [OF _ _ assms(6)]) blast
qed (use syscalls_feeds [OF assms(1)] in \<open>simp_all add: syscall_simps arg_at_def mp_hal_esp32_gpio_read_def gpio_refused_def\<close>)

text \<open>A platform for the witness, whose BLE stack keeps the messages it sends and whose watchdog counts how often it is fed.\<close>

definition demo_platform :: "(u64 list \<times> (int \<Rightarrow> u32), (u16 \<times> u8 list) list, nat, unit) esp_platform" where
  "demo_platform =
     \<lparr>p_chip = Chip_esp32, p_gpio = demo_gpio,
      p_ble = \<lparr>config_bt_enable = True,
        bt_call = (\<lambda>c e. (0, case c of Gatts_send_indicate g conn h bs \<Rightarrow> e @ [(conn, bs)] | _ \<Rightarrow> e)),
        bt_dev_get_address = (\<lambda>e. (0, [1, 2, 3, 4, 5, 6], e)), bt_malloc = (\<lambda>n e. (True, e))\<rparr>,
      p_wdt = \<lparr>task_wdt_init = (\<lambda>t b p. (0, p)), task_wdt_add = (\<lambda>t p. p), task_wdt_delete = (\<lambda>t p. p), task_wdt_reset = Suc,
        current_task = (\<lambda>p. 1), last_reset_reason = (\<lambda>p. ESP_RST_POWERON), create_monitor = (\<lambda>p. p)\<rparr>,
      p_cpu = \<lparr>esp_clk_cpu_freq = (\<lambda>c. 160000000), esp_set_cpu_freq = (\<lambda>f c. (0, c)), xPortGetCoreID = (\<lambda>c. 0),
        cycle_register = (\<lambda>c. 1234), riscv_compiler = False, vTaskDelay = (\<lambda>n c. c), taskENTER_CRITICAL = (\<lambda>c. c),
        taskEXIT_CRITICAL = (\<lambda>c. c), read_ps = (\<lambda>c. 0), write_ps = (\<lambda>v c. c), efuse_read_empty_field = (\<lambda>c. 0)\<rparr>\<rparr>"

text \<open>The parts as they start, with a connection, and two bytes of memory.\<close>

definition demo_world :: "sched \<Rightarrow> (u64 list \<times> (int \<Rightarrow> u32), (u16 \<times> u8 list) list, nat, unit) esp_world" where
  "demo_world s =
     \<lparr>w_sched = s, w_mem = [0x3FFC0000 \<mapsto> 0x48, 0x3FFC0001 \<mapsto> 0x69], w_gpio = gpio_boot demo_gpio ([], \<lambda>_. 0),
      w_ble = (ble_esp32_boot [])\<lparr>e_state := MP_BLE_CONNECTED\<rparr>, w_wdt = esp_wdt_boot 0, w_cpu = esp_cpu_boot ()\<rparr>"

lemma demo_pin_laws: "pin_laws (p_gpio demo_platform) UNIV snd"
  by (simp add: pin_laws_def demo_platform_def demo_gpio_def)

lemma demo_accepts: "accepts (p_ble demo_platform)"
  by (simp add: accepts_def demo_platform_def)

lemma load_mapped_bytes:
  "load_bytes m n p = Some bs \<Longrightarrow> n \<le> k \<Longrightarrow> mem_read (mapped_bytes m k p) 0 n = Some bs"
proof -
  have "load_bytes m n p = Some bs \<Longrightarrow> n \<le> k \<Longrightarrow> n \<le> length (mapped_bytes m k p)" for n
  proof (induction m k p arbitrary: n bs rule: mapped_bytes.induct)
    case (2 m k p)
    then show ?case by (cases n) (auto split: bind_splits)
  qed simp
  then show "load_bytes m n p = Some bs \<Longrightarrow> n \<le> k \<Longrightarrow> mem_read (mapped_bytes m k p) 0 n = Some bs"
    using mapped_bytes_load [of n m k p] by (simp add: mem_read_def)
qed

lemma syscalls_take_effect_witness:
  "\<exists>s w' w''. syscalls demo_platform [(SYS_GPIO_WRITE, [2, 1]), (SYS_ESP32_WDT_FEED, []), (SYS_ESP32_BLE_SEND, [7, 0x3FFC0000, 2]),
       (SYS_GPIO_WRITE, [4, 9]), (SYS_GATT_SEND, [7, 0x3FFC0001, 1]), (SYS_GPIO_WRITE, [2, 0])] (demo_world s) = Some w' \<and>
     map (snd (gpio_hw (w_gpio w'))) [2, 4, 5] = [0, 1, 0] \<and> wdt_hw (w_wdt w') = 1 \<and> bt (w_ble w') = [(7, [0x48, 0x69]), (7, [0x69])] \<and>
     mp_abi_esp32_syscall_handler demo_platform SYS_THREAD_SLEEP [3] w' = Some (Abi_done [3] w'') \<and>
     (\<exists>s. sched_ticks 2 (w_sched w'') = Some s \<and> tcb_state (tcbs s (Tcb_pool 0)) = MP_THREAD_SLEEPING) \<and>
     (\<exists>s. sched_ticks 3 (w_sched w'') = Some s \<and> tcb_state (tcbs s (Tcb_pool 0)) = MP_THREAD_READY)"
proof -
  let ?cs = "[(SYS_GPIO_WRITE, [2, 1]), (SYS_ESP32_WDT_FEED, []), (SYS_ESP32_BLE_SEND, [7, 0x3FFC0000, 2]),
       (SYS_GPIO_WRITE, [4, 9]), (SYS_GATT_SEND, [7, 0x3FFC0001, 1]), (SYS_GPIO_WRITE, [2, 0])]"
  obtain s2 where "thread_table s2 (Suc 0)"
  proof (rule thread_create_table [OF thread_table_boot])
    show "0 < MAX_THREADS" by (simp add: MAX_THREADS_def)
  qed (rule that)
  define s where "s = s2\<lparr>current_thread := Some (Tcb_pool 0)\<rparr>"
  have s: "thread_table (w_sched (demo_world s)) 1" "current_thread (w_sched (demo_world s)) = Some (Tcb_pool 0)"
    "Tcb_pool 0 \<in> set (created 1)"
    using \<open>thread_table s2 (Suc 0)\<close> by (simp_all add: s_def demo_world_def)
  have m: "load_bytes (w_mem (demo_world s)) 2 0x3FFC0000 = Some [0x48, 0x69]" "load_bytes (w_mem (demo_world s)) 1 0x3FFC0001 = Some [0x69]"
    by (simp_all add: demo_world_def numeral_2_eq_2)
  note b = load_mapped_bytes [OF m(1), of 65535, simplified] load_mapped_bytes [OF m(2), of 65535, simplified]
  have bt: "bt_call (p_ble demo_platform) c e = (0, case c of Gatts_send_indicate g conn h bs \<Rightarrow> e @ [(conn, bs)] | _ \<Rightarrow> e)"
    and e: "e_state (w_ble (demo_world s)) = MP_BLE_CONNECTED" "bt (w_ble (demo_world s)) = []" for c e
    by (simp_all add: demo_platform_def demo_world_def ble_esp32_boot_def)
  obtain w' where w': "syscalls demo_platform ?cs (demo_world s) = Some w'"
    by (simp add: syscall_simps gatt_send_call_args arg_at_def mp_ble_esp32_send_data_def data_at_def MP_BLE_ESP32_MTU_def NULL_def Let_def b bt e
        del: mapped_bytes.simps)
  note run = syscalls_take_effect [OF w' demo_pin_laws demo_accepts s]
  have "snd (gpio_hw (w_gpio w')) = fold (written_level 40 UNIV) ?cs (\<lambda>_. 0)"
    using run by (simp add: demo_world_def gpio_boot_def demo_platform_def demo_gpio_def)
  then have "map (snd (gpio_hw (w_gpio w'))) [2, 4, 5] = [0, 1, 0]" by (simp add: written_level_def sys_ids)
  moreover have "wdt_hw (w_wdt w') = 1"
    using run by (simp add: demo_world_def demo_platform_def esp_wdt_boot_def sys_ids)
  moreover have "bt (w_ble w') = [(7, [0x48, 0x69]), (7, [0x69])]"
    using run by (simp add: e m m(2) [simplified] indicate_def bt messages_of_def NULL_def sys_ids)
  moreover obtain w'' where "mp_abi_esp32_syscall_handler demo_platform SYS_THREAD_SLEEP [3] w' = Some (Abi_done [3] w'')"
    "\<exists>s. sched_ticks 2 (w_sched w'') = Some s \<and> tcb_state (tcbs s (Tcb_pool 0)) = MP_THREAD_SLEEPING"
    "\<exists>s. sched_ticks 3 (w_sched w'') = Some s \<and> tcb_state (tcbs s (Tcb_pool 0)) = MP_THREAD_READY"
  proof -
    have u: "max 1 (unat (3 :: u32)) = 3" "(2 :: nat) < 3" by simp_all
    show thesis using run(1) [where n = 3, THEN conjunct2, THEN conjunct2, THEN conjunct2, THEN conjunct2, THEN conjunct2] u
      unfolding u(1) by (elim exE conjE) (rule that, blast+)
  qed
  ultimately show ?thesis using w' by - (rule exI [of _ s], rule exI [of _ w'], rule exI [of _ w''], intro conjI)
qed

text \<open>
  The calls that are numbered but not handled, like every number that names no call, return with nothing done and the
  arguments as they were, so that the caller cannot tell; allocation has no defined result on either processor.
\<close>

theorem syscall_not_handled:
  assumes "n \<in> {SYS_PTHREAD_CREATE, SYS_PTHREAD_JOIN, SYS_PTHREAD_EXIT, SYS_LOG, SYS_GPIO_INIT, SYS_ESP32_UART_SEND,
      SYS_ESP32_UART_RECEIVE}"
  shows "mp_abi_esp32_syscall_handler P n args w = Some (Abi_done args w)" and "mp_kernel_svc_router n args s = Some (args, s)"
    and "mp_abi_esp32_syscall_handler P SYS_MALLOC args w = None" and "mp_kernel_svc_router SYS_MALLOC args s = None"
proof -
  have n: "n \<notin> set handled_calls" using assms by (auto simp: handled_calls_def sys_ids)
  show "mp_abi_esp32_syscall_handler P n args w = Some (Abi_done args w)" by (rule syscall_other [OF n])
  show "mp_kernel_svc_router n args s = Some (args, s)"
    using n by (simp add: mp_kernel_svc_router_def handled_calls_def)
qed (simp_all add: mp_abi_esp32_syscall_handler_def mp_kernel_svc_router_def)

text \<open>The two handlers put the same thread to sleep.\<close>

theorem sleep_syscalls_agree:
  "mp_kernel_svc_router SYS_THREAD_SLEEP args (w_sched w) =
     (case mp_abi_esp32_syscall_handler P SYS_THREAD_SLEEP args w of
        Some (Abi_done args' w') \<Rightarrow> Some (args', w_sched w') | _ \<Rightarrow> None)"
  by (cases "arg_at args 0"; cases "mp_thread_sleep (the (arg_at args 0)) (w_sched w)")
    (simp_all add: mp_abi_esp32_syscall_handler_def mp_kernel_svc_router_def sys_ids)

text \<open>After the initialisation of the table every entry has a function but those of the two sizes.\<close>

theorem abi_table_filled:
  assumes "mp_abi_esp32_init pool m = Some (heap, m', t)"
  shows "st_entry t e = None \<longleftrightarrow> e = Entry_get_flash_size \<or> e = Entry_get_ram_size"
proof -
  have "st_entry t = esp32_entry" using assms by (auto simp: mp_abi_esp32_init_def split: bind_splits)
  then show ?thesis by (cases e) simp_all
qed

end
