(* ===== verification/PortStack.thy ===== *)
theory PortStack
  imports Thread Memory
begin

text \<open>
  The stacks of the ports: the frame each port puts on the stack of a new thread (\<open>mp_hal_cpu_init_stack\<close> of the
  Cortex-M4, of the Cortex-M33 and the RISC-V core of the nRF54L15, and of RV32IMAC), and the interrupts that switch
  threads, as far as they are written in C.  Functions are addresses; \<open>exit\<close> is that of \<open>mp_thread_exit\<close>.
\<close>

section \<open>Frames\<close>

text \<open>\<open>*(--stack) = w;\<close>\<close>

fun push_words :: "u32 list \<Rightarrow> uintptr \<Rightarrow> memory \<Rightarrow> (uintptr \<times> memory) option" where
  "push_words [] sp m = Some (sp, m)"
| "push_words (w # ws) sp m = do { m' \<leftarrow> store32 w (sp - 4) m; push_words ws (sp - 4) m' }"

text \<open>XPSR, PC, LR, R12 and R3 to R0, then R11 to R4.\<close>

definition m4_frame :: "u32 \<Rightarrow> u32 \<Rightarrow> u32 \<Rightarrow> u32 list" where
  "m4_frame func arg exit =
     [0x01000000, func, exit, 0, 0, 0, 0, arg,
      0x11111111, 0x10101010, 0x09090909, 0x08080808, 0x07070707, 0x06060606, 0x05050505, 0x04040404]"

definition m4_init_stack :: "u32 \<Rightarrow> u32 \<Rightarrow> u32 \<Rightarrow> mp_tcb \<Rightarrow> memory \<Rightarrow> (mp_tcb \<times> memory) option" where
  "m4_init_stack func arg exit tcb m =
     do { (sp, m') \<leftarrow> push_words (m4_frame func arg exit) (stack_ptr tcb) m; Some (tcb\<lparr>stack_ptr := sp\<rparr>, m') }"

definition m33_frame :: "u32 \<Rightarrow> u32 \<Rightarrow> u32 \<Rightarrow> u32 list" where
  "m33_frame func arg exit =
     [0x01000000, func, exit, 0x12121212, 0x03030303, 0x02020202, arg, 0x00000000,
      0x11111111, 0x10101010, 0x09090909, 0x08080808, 0x07070707, 0x06060606, 0x05050505, 0x04040404]"

definition m33_init_stack :: "u32 \<Rightarrow> u32 \<Rightarrow> u32 \<Rightarrow> mp_tcb \<Rightarrow> memory \<Rightarrow> (mp_tcb \<times> memory) option" where
  "m33_init_stack func arg exit tcb m =
     do { (sp, m') \<leftarrow> push_words (m33_frame func arg exit) (stack_ptr tcb AND NOT 7) m; Some (tcb\<lparr>stack_ptr := sp\<rparr>, m') }"

definition RISCV_STACK_FRAME_SIZE :: nat where "RISCV_STACK_FRAME_SIZE = 31"

text \<open>\<open>stack[30]\<close>, \<open>stack[1]\<close> and \<open>stack[10]\<close> are the program counter, the return address and the first argument.\<close>

definition rv32imac_init_stack :: "u32 \<Rightarrow> u32 \<Rightarrow> u32 \<Rightarrow> mp_tcb \<Rightarrow> memory \<Rightarrow> (mp_tcb \<times> memory) option" where
  "rv32imac_init_stack func arg exit tcb m =
     do { (sp, m0) \<leftarrow> push_words (replicate RISCV_STACK_FRAME_SIZE 0) (stack_ptr tcb) m;
          m1 \<leftarrow> store32 func (sp + 4 * 30) m0;
          m2 \<leftarrow> store32 exit (sp + 4 * 1) m1;
          m3 \<leftarrow> store32 arg (sp + 4 * 10) m2;
          Some (tcb\<lparr>stack_ptr := sp\<rparr>, m3) }"

text \<open>The argument is not stored.\<close>

definition nrf_rv32_init_stack :: "u32 \<Rightarrow> u32 \<Rightarrow> u32 \<Rightarrow> mp_tcb \<Rightarrow> memory \<Rightarrow> (mp_tcb \<times> memory) option" where
  "nrf_rv32_init_stack func arg exit tcb m =
     do { (sp, m') \<leftarrow> push_words (replicate 29 0 @ [exit, func]) (stack_ptr tcb AND NOT 15) m; Some (tcb\<lparr>stack_ptr := sp\<rparr>, m') }"

lemma frame_length: "length (m4_frame func arg exit) = 16" "length (m33_frame func arg exit) = 16"
  by (simp_all add: m4_frame_def m33_frame_def)

section \<open>Switching\<close>

text \<open>The handler in \<open>nrf54l15/m33/irq_handlers.c\<close>, with the stack pointer \<open>msp\<close>.\<close>

definition m33_pendsv_handler :: "uintptr \<Rightarrow> sched \<Rightarrow> uintptr \<times> sched" where
  "m33_pendsv_handler msp s =
     (let s1 = (case current_thread s of Some c \<Rightarrow> upd_tcb c (\<lambda>t. t\<lparr>stack_ptr := msp\<rparr>) s | None \<Rightarrow> s)
      in case next_thread s1 of
           Some n \<Rightarrow> (let s2 = s1\<lparr>current_thread := Some n, next_thread := None\<rparr> in (stack_ptr (tcbs s2 n), s2))
         | None \<Rightarrow> (msp, s1))"

text \<open>The one in \<open>nrf54l15/m33/context_switch.c\<close>, which leaves the stack pointers to assembly.\<close>

definition m33_pendsv_select :: "sched \<Rightarrow> sched" where
  "m33_pendsv_select s =
     (case next_thread s of Some n \<Rightarrow> s\<lparr>current_thread := Some n, next_thread := None\<rparr> | None \<Rightarrow> s)"

text \<open>The stack pointer and the pending interrupts of the RISC-V core.\<close>

definition rv32_software_interrupt_handler :: "uintptr \<Rightarrow> u32 \<Rightarrow> sched \<Rightarrow> uintptr \<times> u32 \<times> sched" where
  "rv32_software_interrupt_handler sp mip s =
     (let s1 = (case current_thread s of Some c \<Rightarrow> upd_tcb c (\<lambda>t. t\<lparr>stack_ptr := sp\<rparr>) s | None \<Rightarrow> s)
      in case next_thread s1 of
           Some n \<Rightarrow> (let s2 = s1\<lparr>current_thread := Some n, next_thread := None\<rparr> in (stack_ptr (tcbs s2 n), mip AND NOT 8, s2))
         | None \<Rightarrow> (sp, mip AND NOT 8, s1))"

text \<open>Every cause but a software interrupt ends in an endless loop.\<close>

definition mp_hal_rv32_trap_handler :: "u32 \<Rightarrow> uintptr \<Rightarrow> u32 \<Rightarrow> sched \<Rightarrow> (uintptr \<times> u32 \<times> sched) option" where
  "mp_hal_rv32_trap_handler mcause sp mip s =
     (if mcause AND 0x80000000 \<noteq> 0 \<and> mcause AND 0x7FFFFFFF = 3 then Some (rv32_software_interrupt_handler sp mip s) else None)"

section \<open>What a frame holds\<close>

definition frame_word :: "memory \<Rightarrow> uintptr \<Rightarrow> nat \<Rightarrow> u32 option" where
  "frame_word m b i = load32 m (b + of_nat (4 * i))"

lemma word_place:
  assumes "fits b (4 * n)" and "i < n"
  shows "unat (b + of_nat (4 * i)) = unat b + 4 * i" and "fits (b + of_nat (4 * i)) 4"
    and "span (b + of_nat (4 * i)) 4 \<subseteq> span b (4 * n)"
proof -
  show u: "unat (b + of_nat (4 * i)) = unat b + 4 * i" by (rule unat_offset [OF assms(1)]) (use assms(2) in simp)
  show f: "fits (b + of_nat (4 * i)) 4" unfolding fits_def u using assms by (simp add: fits_def)
  show "span (b + of_nat (4 * i)) 4 \<subseteq> span b (4 * n)"
  proof
    fix q assume "q \<in> span (b + of_nat (4 * i)) 4"
    then have "unat b + 4 * i \<le> unat q \<and> unat q < unat b + 4 * i + 4" unfolding in_span_iff [OF f] u .
    then show "q \<in> span b (4 * n)" using assms(2) unfolding in_span_iff [OF assms(1)] by linarith
  qed
qed

lemma frame_word_store:
  assumes "fits b (4 * n)" and "i < n" and "j < n" and "store32 w (b + of_nat (4 * j)) m = Some m'"
  shows "frame_word m' b i = (if i = j then Some w else frame_word m b i)"
proof (cases "i = j")
  case True
  then show ?thesis
    using load32_store32_same [OF assms(4) word_place(2) [OF assms(1,3)]] by (simp add: frame_word_def)
next
  case False
  have "span (b + of_nat (4 * j)) 4 \<inter> span (b + of_nat (4 * i)) 4 = {}"
    using False by (intro span_disjoint word_place [OF assms(1)] assms) (simp only: word_place(1) [OF assms(1)] assms; linarith)
  then show ?thesis using False load32_store32_other [OF assms(4)] by (simp add: frame_word_def)
qed

lemma store_word_defined:
  assumes "fits b (4 * n)" and "j < n" and "span b (4 * n) \<subseteq> dom m"
  shows "\<exists>m'. store32 w (b + of_nat (4 * j)) m = Some m'"
  by (rule store32_defined) (use word_place(3) [OF assms(1,2)] assms(3) in blast)

lemma push_words_frame:
  assumes "fits b (4 * n)" and "length ws \<le> n" and "span b (4 * n) \<subseteq> dom m"
  shows "\<exists>m'. push_words ws (b + of_nat (4 * length ws)) m = Some (b, m') \<and> dom m' = dom m \<and>
    (\<forall>q. q \<notin> span b (4 * n) \<longrightarrow> m' q = m q) \<and>
    (\<forall>i < n. frame_word m' b i = (if i < length ws then Some (rev ws ! i) else frame_word m b i))"
  using assms(2,3)
proof (induction ws arbitrary: m)
  case (Cons w ws)
  let ?k = "length ws"
  have k: "?k < n" using Cons.prems(1) by simp
  obtain m1 where m1: "store32 w (b + of_nat (4 * ?k)) m = Some m1"
    using store_word_defined [OF assms(1) k Cons.prems(2)] by blast
  have d1: "dom m1 = dom m" by (rule store32_dom [OF m1])
  obtain m' where m': "push_words ws (b + of_nat (4 * ?k)) m1 = Some (b, m')" "dom m' = dom m1"
      "\<forall>q. q \<notin> span b (4 * n) \<longrightarrow> m' q = m1 q"
      "\<forall>i < n. frame_word m' b i = (if i < ?k then Some (rev ws ! i) else frame_word m1 b i)"
    using Cons.IH [of m1] Cons.prems d1 by auto
  have "b + of_nat (4 * length (w # ws)) - 4 = b + of_nat (4 * ?k)" by simp
  then have "push_words (w # ws) (b + of_nat (4 * length (w # ws))) m = Some (b, m')"
    using m1 m'(1) by (simp only: push_words.simps Option.bind_lunit)
  moreover have "m' q = m q" if "q \<notin> span b (4 * n)" for q
    using that m'(3) store32_other [OF m1] word_place(3) [OF assms(1) k] by auto
  moreover have "frame_word m' b i = (if i < length (w # ws) then Some (rev (w # ws) ! i) else frame_word m b i)" if "i < n" for i
    using that m'(4) frame_word_store [OF assms(1) that k m1] by (auto simp: nth_append less_Suc_eq)
  ultimately show ?case using m'(2) d1 by blast
qed simp

text \<open>Words of a frame below a stack pointer.\<close>

lemma frame_below:
  assumes "4 * n \<le> unat sp" and "n < 2 ^ 30"
  shows "unat (sp - of_nat (4 * n)) = unat sp - 4 * n" and "fits (sp - of_nat (4 * n)) (4 * n)"
    and "sp - of_nat (4 * n) + of_nat (4 * n) = sp"
proof -
  have "4 * n < 2 ^ 32" using assms(2) by simp
  then have k: "unat (of_nat (4 * n) :: u32) = 4 * n"
    by (simp only: unsigned_of_nat take_bit_eq_mod) simp
  have "(of_nat (4 * n) :: u32) \<le> sp" unfolding word_le_nat_alt k by (rule assms(1))
  then show u: "unat (sp - of_nat (4 * n)) = unat sp - 4 * n" by (simp only: unat_sub k)
  show "fits (sp - of_nat (4 * n)) (4 * n)" unfolding fits_def u using assms(1) unat_bound [of sp] by simp
  show "sp - of_nat (4 * n) + of_nat (4 * n) = sp" by simp
qed

lemma push_frame:
  assumes "4 * length ws \<le> unat sp" and "length ws < 2 ^ 30" and "span (sp - of_nat (4 * length ws)) (4 * length ws) \<subseteq> dom m"
  shows "\<exists>m'. push_words ws sp m = Some (sp - of_nat (4 * length ws), m') \<and> dom m' = dom m \<and>
    (\<forall>q. q \<notin> span (sp - of_nat (4 * length ws)) (4 * length ws) \<longrightarrow> m' q = m q) \<and>
    (\<forall>i < length ws. frame_word m' (sp - of_nat (4 * length ws)) i = Some (rev ws ! i))"
  using push_words_frame [OF frame_below(2) [OF assms(1,2)] order_refl assms(3)] frame_below(3) [OF assms(1,2)] by auto

text \<open>
  On RV32IMAC the frame has the function, the exit function and the argument where the comment says; the RISC-V core of the
  nRF54L15 is given a frame in which the argument does not occur.
\<close>

theorem rv32imac_first_frame:
  assumes "124 \<le> unat (stack_ptr t)" and "span (stack_ptr t - 124) 124 \<subseteq> dom m"
  shows "\<exists>m'. rv32imac_init_stack func arg exit t m = Some (t\<lparr>stack_ptr := stack_ptr t - 124\<rparr>, m') \<and>
    (\<forall>i < 31. frame_word m' (stack_ptr t - 124) i =
       Some (if i = 30 then func else if i = 1 then exit else if i = 10 then arg else 0))"
proof -
  let ?b = "stack_ptr t - 124"
  have f: "fits ?b (4 * 31)" using frame_below(2) [of 31 "stack_ptr t"] assms(1) by simp
  obtain m0 where m0: "push_words (replicate 31 0) (stack_ptr t) m = Some (?b, m0)" "dom m0 = dom m"
      "\<forall>i < 31. frame_word m0 ?b i = Some 0"
    using push_frame [of "replicate 31 0" "stack_ptr t" m] assms by auto
  have d: "span ?b (4 * 31) \<subseteq> dom m0" using assms(2) m0(2) by simp
  obtain m1 where m1: "store32 func (?b + of_nat (4 * 30)) m0 = Some m1" using store_word_defined [OF f _ d, of 30] by auto
  have d1: "span ?b (4 * 31) \<subseteq> dom m1" using d store32_dom [OF m1] by simp
  obtain m2 where m2: "store32 exit (?b + of_nat (4 * 1)) m1 = Some m2" using store_word_defined [OF f _ d1, of 1] by auto
  have d2: "span ?b (4 * 31) \<subseteq> dom m2" using d1 store32_dom [OF m2] by simp
  obtain m3 where m3: "store32 arg (?b + of_nat (4 * 10)) m2 = Some m3" using store_word_defined [OF f _ d2, of 10] by auto
  have "frame_word m3 ?b i = Some (if i = 30 then func else if i = 1 then exit else if i = 10 then arg else 0)" if "i < 31" for i
    using that m0(3) frame_word_store [OF f that _ m1] frame_word_store [OF f that _ m2] frame_word_store [OF f that _ m3] by auto
  then show ?thesis using m0(1) m1 m2 m3 by (simp add: rv32imac_init_stack_def RISCV_STACK_FRAME_SIZE_def)
qed

theorem nrf_rv32_first_frame:
  assumes "stack_ptr t AND NOT 15 = stack_ptr t" and "124 \<le> unat (stack_ptr t)" and "span (stack_ptr t - 124) 124 \<subseteq> dom m"
  shows "\<exists>m'. nrf_rv32_init_stack func arg exit t m = Some (t\<lparr>stack_ptr := stack_ptr t - 124\<rparr>, m') \<and>
    (\<forall>i < 31. frame_word m' (stack_ptr t - 124) i = Some (if i = 0 then func else if i = 1 then exit else 0))"
proof -
  let ?ws = "replicate 29 0 @ [exit, func]" and ?b = "stack_ptr t - 124"
  obtain m' where m': "push_words ?ws (stack_ptr t) m = Some (?b, m')" "\<forall>i < 31. frame_word m' ?b i = Some (rev ?ws ! i)"
    using push_frame [of ?ws "stack_ptr t" m] assms(2,3) by auto
  have "rev ?ws ! i = (if i = 0 then func else if i = 1 then exit else 0)" if "i < 31" for i
    using that by (auto simp: nth_Cons split: nat.split)
  then show ?thesis using m' assms(1) by (intro exI [of _ m']) (simp add: nrf_rv32_init_stack_def)
qed

section \<open>Threads keep to their stacks\<close>

lemma align_down: "unat (x :: u32) - unat m \<le> unat (x AND NOT m)" "unat (x AND NOT m) \<le> unat x"
proof -
  have "x AND NOT m = x - (x AND m)"
    by (subst disjunctive_diff_eq_and_not) (auto simp: bit_eq_iff bit_simps)
  moreover have le: "x AND m \<le> x" "x AND m \<le> m" by (rule word_and_le2, rule word_and_le1)
  ultimately have "unat (x AND NOT m) = unat x - unat (x AND m)" by (simp add: unat_sub)
  moreover have "unat (x AND m) \<le> unat m" using le(2) by (simp add: word_le_nat_alt)
  ultimately show "unat x - unat m \<le> unat (x AND NOT m)" "unat (x AND NOT m) \<le> unat x" by simp_all
qed

lemma span_in_span:
  assumes "fits p n" and "fits q k" and "unat q \<le> unat p" and "unat p + n \<le> unat q + k"
  shows "span p n \<subseteq> span q k"
  using assms by (auto simp: in_span_iff)

lemma push_in_stack:
  assumes "unat base + 4096 \<le> 2 ^ 32" and "span base 4096 \<subseteq> dom m" and "unat base + 4 * length ws \<le> unat sp"
    and "unat sp \<le> unat base + 4096"
  shows "\<exists>m'. push_words ws sp m = Some (sp - of_nat (4 * length ws), m') \<and> dom m' = dom m \<and> (\<forall>q. q \<notin> span base 4096 \<longrightarrow> m' q = m q) \<and>
    (\<forall>i < length ws. frame_word m' (sp - of_nat (4 * length ws)) i = Some (rev ws ! i))"
proof -
  have sub: "b \<le> s - k \<and> s - k + k \<le> b + 4096" if "b + k \<le> s" "s \<le> b + 4096" for b k s :: nat using that by simp
  have n: "4 * length ws \<le> unat sp" "length ws < 2 ^ 30" using assms(1,3,4) by simp_all
  have "span (sp - of_nat (4 * length ws)) (4 * length ws) \<subseteq> span base 4096"
  proof (rule span_in_span [OF frame_below(2) [OF n]])
    show "fits base 4096" using assms(1) by (simp add: fits_def)
    show "unat base \<le> unat (sp - of_nat (4 * length ws))"
      "unat (sp - of_nat (4 * length ws)) + 4 * length ws \<le> unat base + 4096"
      unfolding frame_below(1) [OF n] using sub [OF assms(3,4)] by simp_all
  qed
  note within = this
  have d: "span (sp - of_nat (4 * length ws)) (4 * length ws) \<subseteq> dom m" using within assms(2) by (rule subset_trans)
  obtain m' where m': "push_words ws sp m = Some (sp - of_nat (4 * length ws), m')" "dom m' = dom m"
      "\<forall>q. q \<notin> span (sp - of_nat (4 * length ws)) (4 * length ws) \<longrightarrow> m' q = m q"
      "\<forall>i < length ws. frame_word m' (sp - of_nat (4 * length ws)) i = Some (rev ws ! i)"
    using push_frame [OF n d] by (elim exE conjE) (rule that)
  have "m' q = m q" if "q \<notin> span base 4096" for q
    using m'(3) within that by (meson subsetD)
  then show ?thesis using m'(1,2,4) by (intro exI [of _ m']) simp
qed

text \<open>The stack of the thread in slot \<open>idx\<close>: room for a frame, also when the pointer is rounded down.\<close>

lemma slot_stack:
  assumes "idx < 32" and "unat thread_stacks + 32 * 4096 \<le> 2 ^ 32" and "span thread_stacks (32 * 4096) \<subseteq> dom m"
    and "t = init_tcb thread_stacks attr i idx t0"
  shows "unat (stack_base t) + 4096 \<le> 2 ^ 32" and "span (stack_base t) 4096 \<subseteq> dom m"
    and "unat (stack_ptr t) = unat (stack_base t) + 4092"
    and "unat k \<le> 15 \<Longrightarrow> unat (stack_base t) + 124 \<le> unat (stack_ptr t AND NOT k) \<and> unat (stack_ptr t AND NOT k) \<le> unat (stack_base t) + 4096"
proof -
  have f: "fits thread_stacks (32 * 4096)" using assms(2) by (simp add: fits_def)
  have b: "stack_base t = thread_stacks + of_nat (idx * 4096)" and s: "stack_ptr t = thread_stacks + of_nat (idx * 4096 + 4092)"
    using assms(4) by (simp_all add: init_tcb_def)
  have ub: "unat (stack_base t) = unat thread_stacks + idx * 4096" unfolding b by (rule unat_offset [OF f]) (use assms(1) in simp)
  show us: "unat (stack_ptr t) = unat (stack_base t) + 4092"
    unfolding ub s by (subst unat_offset [OF f]) (use assms(1) in simp_all)
  show fb: "unat (stack_base t) + 4096 \<le> 2 ^ 32" using ub assms(1,2) by simp
  have "span (stack_base t) 4096 \<subseteq> span thread_stacks (32 * 4096)"
  proof (rule span_in_span [OF _ f])
    show "fits (stack_base t) 4096" using fb by (simp only: fits_def)
  qed (use ub assms(1) in linarith)+
  then show "span (stack_base t) 4096 \<subseteq> dom m" using assms(3) by blast
  show "unat (stack_base t) + 124 \<le> unat (stack_ptr t AND NOT k) \<and> unat (stack_ptr t AND NOT k) \<le> unat (stack_base t) + 4096"
    if "unat k \<le> 15" using align_down [of "stack_ptr t" k] us that by simp
qed

text \<open>
  On the two Cortex-M cores and the RISC-V core of the nRF54L15, the first frame of the thread in slot \<open>idx\<close> of the pool is
  written within its own stack of the array, so that it changes neither another thread's stack nor anything else.
\<close>

theorem first_frame_in_own_stack:
  assumes "idx < 32" and "unat thread_stacks + 32 * 4096 \<le> 2 ^ 32" and "span thread_stacks (32 * 4096) \<subseteq> dom m"
    and "t = init_tcb thread_stacks attr i idx t0"
  shows "(\<exists>t' m'. m4_init_stack func arg exit t m = Some (t', m') \<and> (\<forall>q. q \<notin> span (stack_base t) 4096 \<longrightarrow> m' q = m q)) \<and>
    (\<exists>t' m'. m33_init_stack func arg exit t m = Some (t', m') \<and> (\<forall>q. q \<notin> span (stack_base t) 4096 \<longrightarrow> m' q = m q)) \<and>
    (\<exists>t' m'. nrf_rv32_init_stack func arg exit t m = Some (t', m') \<and> (\<forall>q. q \<notin> span (stack_base t) 4096 \<longrightarrow> m' q = m q))"
proof -
  note st = slot_stack [OF assms]
  note fb = st(1) and d = st(2) and us = st(3) and a = conjunct1 [OF st(4)] conjunct2 [OF st(4)]
  show ?thesis
  proof (intro conjI)
    show "\<exists>t' m'. m4_init_stack func arg exit t m = Some (t', m') \<and> (\<forall>q. q \<notin> span (stack_base t) 4096 \<longrightarrow> m' q = m q)"
      using push_in_stack [OF fb d, of "m4_frame func arg exit" "stack_ptr t"] us
      by (auto simp: m4_init_stack_def frame_length)
    show "\<exists>t' m'. m33_init_stack func arg exit t m = Some (t', m') \<and> (\<forall>q. q \<notin> span (stack_base t) 4096 \<longrightarrow> m' q = m q)"
      using push_in_stack [OF fb d, of "m33_frame func arg exit" "stack_ptr t AND NOT 7"] a [of 7]
      by (auto simp: m33_init_stack_def frame_length)
    show "\<exists>t' m'. nrf_rv32_init_stack func arg exit t m = Some (t', m') \<and> (\<forall>q. q \<notin> span (stack_base t) 4096 \<longrightarrow> m' q = m q)"
      using push_in_stack [OF fb d, of "replicate 29 0 @ [exit, func]" "stack_ptr t AND NOT 15"] a [of 15]
      by (auto simp: nrf_rv32_init_stack_def)
  qed
qed

section \<open>The argument of a thread\<close>

lemma align_frame: "(x AND NOT 7) - 64 AND 7 = (0 :: u32)"
proof -
  have m: "(7 :: u32) = mask 3" by (simp add: mask_eq_exp_minus_1)
  have "take_bit 3 (x AND NOT 7) = (0 :: u32)" unfolding m by (rule bit_word_eqI) (auto simp: bit_simps)
  then have "uint (take_bit 3 (x AND NOT 7) :: u32) = 0" by (simp only: unsigned_0)
  then have "uint (x AND NOT 7) mod 8 = 0" by (simp only: unsigned_take_bit_eq) (simp add: take_bit_eq_mod)
  then have "(uint (x AND NOT 7) - 64) mod 2 ^ 32 mod 8 = 0" by (simp add: mod_mod_cancel) presburger
  then have "uint ((x AND NOT 7) - 64) mod 8 = 0" by (simp add: uint_word_ariths)
  then have "uint (take_bit 3 ((x AND NOT 7) - 64) :: u32) = 0" by (simp only: unsigned_take_bit_eq) (simp add: take_bit_eq_mod)
  then have "take_bit 3 ((x AND NOT 7) - 64) = (0 :: u32)" by (simp only: unsigned_eq_0_iff)
  then show ?thesis by (simp only: m take_bit_eq_mask)
qed

text \<open>
  C40. The first frame of a thread as \<open>mp_thread_create\<close> leaves it, with the stack pointer at the last word of its stack.  On the
  Cortex-M4 the words that the processor takes for R0, LR and PC are the argument, the exit function and the function of the
  thread, so the function is called with its argument.  On the Cortex-M33 of the nRF54L15 the pointer is first rounded down
  to a multiple of 8, and the argument is in R1 while R0 is 0: the function gets 0.  Both write nothing outside the stack.
\<close>

theorem arm_thread_argument:
  assumes "idx < 32" and "unat thread_stacks + 32 * 4096 \<le> 2 ^ 32" and "span thread_stacks (32 * 4096) \<subseteq> dom m"
    and "t = init_tcb thread_stacks attr i idx t0"
  shows "(\<exists>m'. m4_init_stack func arg exit t m = Some (t\<lparr>stack_ptr := stack_ptr t - 64\<rparr>, m') \<and>
       (\<forall>q. q \<notin> span (stack_base t) 4096 \<longrightarrow> m' q = m q) \<and>
       frame_word m' (stack_ptr t - 64) 8 = Some arg \<and> frame_word m' (stack_ptr t - 64) 13 = Some exit \<and>
       frame_word m' (stack_ptr t - 64) 14 = Some func \<and> frame_word m' (stack_ptr t - 64) 15 = Some 0x01000000) \<and>
    (\<exists>t' m'. m33_init_stack func arg exit t m = Some (t', m') \<and> t' = t\<lparr>stack_ptr := (stack_ptr t AND NOT 7) - 64\<rparr> \<and>
       stack_ptr t' AND 7 = 0 \<and> (\<forall>q. q \<notin> span (stack_base t) 4096 \<longrightarrow> m' q = m q) \<and>
       frame_word m' (stack_ptr t') 8 = Some 0 \<and> frame_word m' (stack_ptr t') 9 = Some arg \<and>
       frame_word m' (stack_ptr t') 13 = Some exit \<and> frame_word m' (stack_ptr t') 14 = Some func \<and>
       frame_word m' (stack_ptr t') 15 = Some 0x01000000)"
proof
  note st = slot_stack [OF assms]
  obtain m' where m': "push_words (m4_frame func arg exit) (stack_ptr t) m = Some (stack_ptr t - 64, m')"
      "\<forall>q. q \<notin> span (stack_base t) 4096 \<longrightarrow> m' q = m q"
      "\<forall>i < 16. frame_word m' (stack_ptr t - 64) i = Some (rev (m4_frame func arg exit) ! i)"
    using push_in_stack [OF st(1,2), of "m4_frame func arg exit" "stack_ptr t"] st(3) by (auto simp: frame_length)
  then show "\<exists>m'. m4_init_stack func arg exit t m = Some (t\<lparr>stack_ptr := stack_ptr t - 64\<rparr>, m') \<and>
       (\<forall>q. q \<notin> span (stack_base t) 4096 \<longrightarrow> m' q = m q) \<and>
       frame_word m' (stack_ptr t - 64) 8 = Some arg \<and> frame_word m' (stack_ptr t - 64) 13 = Some exit \<and>
       frame_word m' (stack_ptr t - 64) 14 = Some func \<and> frame_word m' (stack_ptr t - 64) 15 = Some 0x01000000"
    by (intro exI [of _ m']) (simp add: m4_init_stack_def m4_frame_def eval_nat_numeral)
next
  note st = slot_stack [OF assms]
  let ?b = "(stack_ptr t AND NOT 7) - 64"
  obtain m' where m': "push_words (m33_frame func arg exit) (stack_ptr t AND NOT 7) m = Some (?b, m')"
      "\<forall>q. q \<notin> span (stack_base t) 4096 \<longrightarrow> m' q = m q"
      "\<forall>i < 16. frame_word m' ?b i = Some (rev (m33_frame func arg exit) ! i)"
    using push_in_stack [OF st(1,2), of "m33_frame func arg exit" "stack_ptr t AND NOT 7"] st(4) [of 7] by (auto simp: frame_length)
  have w: "frame_word m' ?b 8 = Some 0" "frame_word m' ?b 9 = Some arg" "frame_word m' ?b 13 = Some exit"
      "frame_word m' ?b 14 = Some func" "frame_word m' ?b 15 = Some 0x01000000"
    using m'(3) by (simp_all add: m33_frame_def eval_nat_numeral)
  show "\<exists>t' m'. m33_init_stack func arg exit t m = Some (t', m') \<and> t' = t\<lparr>stack_ptr := (stack_ptr t AND NOT 7) - 64\<rparr> \<and>
       stack_ptr t' AND 7 = 0 \<and> (\<forall>q. q \<notin> span (stack_base t) 4096 \<longrightarrow> m' q = m q) \<and>
       frame_word m' (stack_ptr t') 8 = Some 0 \<and> frame_word m' (stack_ptr t') 9 = Some arg \<and>
       frame_word m' (stack_ptr t') 13 = Some exit \<and> frame_word m' (stack_ptr t') 14 = Some func \<and>
       frame_word m' (stack_ptr t') 15 = Some 0x01000000"
    using m'(1,2) w align_frame [of "stack_ptr t"]
    by (intro exI [of _ "t\<lparr>stack_ptr := ?b\<rparr>"] exI [of _ m']) (simp add: m33_init_stack_def)
qed

text \<open>The second thread of a pool of stacks at a multiple of 8: the frame is at another place on the two processors.\<close>

lemma arm_thread_argument_witness:
  "let t = init_tcb 0x20001000 None 2 1 zero_tcb; m = (\<lambda>_. Some 0) in
   (\<exists>m'. m4_init_stack 0x8001 5 0x9001 t m = Some (t\<lparr>stack_ptr := 0x20002FBC\<rparr>, m') \<and> frame_word m' 0x20002FBC 8 = Some 5) \<and>
   (\<exists>m'. m33_init_stack 0x8001 5 0x9001 t m = Some (t\<lparr>stack_ptr := 0x20002FB8\<rparr>, m') \<and> frame_word m' 0x20002FB8 8 = Some 0)"
proof -
  let ?t = "init_tcb 0x20001000 None 2 1 zero_tcb" and ?m = "\<lambda>_. Some 0 :: u8 option"
  have p: "stack_ptr ?t - 64 = 0x20002FBC" "(stack_ptr ?t AND NOT 7) - 64 = 0x20002FB8" by (simp_all add: init_tcb_def)
  have h: "(1 :: nat) < 32" "unat (0x20001000 :: u32) + 32 * 4096 \<le> 2 ^ 32" "span 0x20001000 (32 * 4096) \<subseteq> dom ?m"
    by (simp_all add: dom_def)
  from arm_thread_argument [OF h refl, of "0x8001" 5 "0x9001" None 2 zero_tcb] show ?thesis unfolding Let_def p by auto
qed

section \<open>A thread continues where it was\<close>

text \<open>
  Switches one after another: each names the thread the scheduler has chosen and the stack pointer at the interrupt.
\<close>

fun switches :: "(tcb_ref \<times> uintptr) list \<Rightarrow> uintptr \<times> sched \<Rightarrow> uintptr \<times> sched" where
  "switches [] x = x"
| "switches ((n, sp) # sws) (p, s) = switches sws (m33_pendsv_handler sp (s\<lparr>next_thread := Some n\<rparr>))"

lemma pendsv_step:
  assumes "current_thread s = Some c"
  shows "m33_pendsv_handler sp (s\<lparr>next_thread := Some n\<rparr>) =
    (if n = c then sp else stack_ptr (tcbs s n),
     (upd_tcb c (\<lambda>t. t\<lparr>stack_ptr := sp\<rparr>) s)\<lparr>current_thread := Some n, next_thread := None\<rparr>)"
  using assms by (simp add: m33_pendsv_handler_def upd_tcb_def Let_def)

lemma switches_keep:
  "current_thread s = Some c \<Longrightarrow> c \<noteq> a \<Longrightarrow> a \<notin> fst ` set sws \<Longrightarrow>
   \<exists>p' s' c'. switches sws (p, s) = (p', s') \<and> current_thread s' = Some c' \<and> c' \<noteq> a \<and> stack_ptr (tcbs s' a) = stack_ptr (tcbs s a)"
proof (induction sws arbitrary: p s c)
  case (Cons sw sws)
  obtain n sp where sw: "sw = (n, sp)" by force
  let ?s = "(upd_tcb c (\<lambda>t. t\<lparr>stack_ptr := sp\<rparr>) s)\<lparr>current_thread := Some n, next_thread := None\<rparr>"
  have "switches (sw # sws) (p, s) = switches sws (if n = c then sp else stack_ptr (tcbs s n), ?s)"
    using pendsv_step [OF Cons.prems(1)] sw by simp
  moreover have "stack_ptr (tcbs ?s a) = stack_ptr (tcbs s a)" using Cons.prems(2) by (simp add: upd_tcb_def)
  moreover have "\<exists>p' s' c'. switches sws (q, ?s) = (p', s') \<and> current_thread s' = Some c' \<and> c' \<noteq> a \<and>
      stack_ptr (tcbs s' a) = stack_ptr (tcbs ?s a)" for q
    by (rule Cons.IH [where c = n]) (use Cons.prems(3) sw in auto)
  ultimately show ?case by (simp only:)
qed simp

lemma switches_append: "switches (xs @ ys) x = switches ys (switches xs x)"
proof (induction xs arbitrary: x)
  case (Cons sw xs)
  then show ?case by (cases x; cases sw) simp
qed simp

text \<open>
  C38. On the Cortex-M33 a thread that is switched away from and, after any switches among the other threads, switched back
  to continues with the stack pointer it was interrupted with.
\<close>

theorem switch_restores_stack_pointer:
  assumes "current_thread s = Some a" and "n \<noteq> a" and "a \<notin> fst ` set sws"
  shows "fst (switches ((n, sp) # sws @ [(a, sp')]) (p, s)) = sp"
proof -
  let ?s = "(upd_tcb a (\<lambda>t. t\<lparr>stack_ptr := sp\<rparr>) s)\<lparr>current_thread := Some n, next_thread := None\<rparr>"
  obtain p' s' c' where k: "switches sws (stack_ptr (tcbs s n), ?s) = (p', s')" "current_thread s' = Some c'" "c' \<noteq> a"
      "stack_ptr (tcbs s' a) = stack_ptr (tcbs ?s a)"
    using switches_keep [of ?s n a sws "stack_ptr (tcbs s n)"] assms(2,3) by (simp, blast)
  have "switches ((n, sp) # sws @ [(a, sp')]) (p, s) = switches [(a, sp')] (p', s')"
    using pendsv_step [OF assms(1)] assms(2) k(1) by (simp add: switches_append)
  then show ?thesis using pendsv_step [OF k(2), of sp' a] k(3,4) by (simp add: upd_tcb_def)
qed

lemma switch_restores_stack_pointer_witness:
  "fst (switches [(Idle_tcb, 0x2000), (Tcb_pool 1, 0x100), (Idle_tcb, 0x3000), (Tcb_pool 0, 0x104)]
     (0, (boot_state (\<lambda>_. 0))\<lparr>current_thread := Some (Tcb_pool 0)\<rparr>)) = 0x2000"
  using switch_restores_stack_pointer [of "(boot_state (\<lambda>_. 0))\<lparr>current_thread := Some (Tcb_pool 0)\<rparr>" "Tcb_pool 0" Idle_tcb
      "[(Tcb_pool 1, 0x100), (Idle_tcb, 0x3000)]" "0x2000" "0x104" 0]
  by simp

text \<open>The interrupt of the RISC-V core switches in the same way, and clears its pending bit.\<close>

theorem rv32_switches_alike:
  "rv32_software_interrupt_handler sp mip s = (let (sp', s') = m33_pendsv_handler sp s in (sp', mip AND NOT 8, s'))"
  by (simp add: rv32_software_interrupt_handler_def m33_pendsv_handler_def Let_def split: option.split)

end
