(* ===== verification/PortStart.thy ===== *)
theory PortStart
  imports PortStack
begin

text \<open>
  The start of the two cores of the nRF54L15, \<open>nrf54l15/m33/startup.c\<close> and \<open>nrf54l15/rv32/startup.c\<close> under
  \<open>src/platform\<close>: the copy of the initialised data, the clearing of the rest, the vector table, and the traps of the RISC-V
  core.  The symbols of the linker script are addresses.
\<close>

section \<open>Data\<close>

text \<open>\<open>while (data_dst < &__data_end__) *data_dst++ = *data_src++;\<close>\<close>

partial_function (option) copy_data :: "uintptr \<Rightarrow> uintptr \<Rightarrow> uintptr \<Rightarrow> memory \<Rightarrow> memory option" where
  "copy_data src dst end_addr m =
     (if dst < end_addr then do { w \<leftarrow> load32 m src; m' \<leftarrow> store32 w dst m; copy_data (src + 4) (dst + 4) end_addr m' }
      else Some m)"

text \<open>\<open>while (bss_dst < &__bss_end__) *bss_dst++ = 0;\<close>\<close>

partial_function (option) clear_bss :: "uintptr \<Rightarrow> uintptr \<Rightarrow> memory \<Rightarrow> memory option" where
  "clear_bss dst end_addr m =
     (if dst < end_addr then do { m' \<leftarrow> store32 0 dst m; clear_bss (dst + 4) end_addr m' } else Some m)"

record sections =
  data_load :: uintptr
  data_start :: uintptr
  data_end :: uintptr
  bss_start :: uintptr
  bss_end :: uintptr

text \<open>What both entry points do before the first call.\<close>

definition reset_sections :: "sections \<Rightarrow> memory \<Rightarrow> memory option" where
  "reset_sections k m = do { m1 \<leftarrow> copy_data (data_load k) (data_start k) (data_end k) m; clear_bss (bss_start k) (bss_end k) m1 }"

section \<open>Vectors and traps\<close>

datatype vector = Stack_top | Reset_Handler | Default_Handler

text \<open>The table of the Cortex-M33: the exceptions from 1 on, then two interrupts.\<close>

definition m33_vector_table :: "vector list" where
  "m33_vector_table = [Stack_top, Reset_Handler, Default_Handler, Default_Handler, Default_Handler, Default_Handler, Default_Handler,
     Default_Handler, Default_Handler, Default_Handler, Default_Handler, Default_Handler, Default_Handler, Default_Handler,
     Default_Handler, Default_Handler, Default_Handler, Default_Handler]"

text \<open>A handler that never returns has no result; the others are entered once.\<close>

fun m33_vector :: "vector \<Rightarrow> 's \<Rightarrow> 's option" where
  "m33_vector Default_Handler s = None"
| "m33_vector Reset_Handler s = Some s"
| "m33_vector Stack_top s = None"

text \<open>The traps of the RISC-V core as \<open>startup.c\<close> defines them.\<close>

definition rv32_start_trap_handler :: "u32 \<Rightarrow> uintptr \<Rightarrow> u32 \<Rightarrow> sched \<Rightarrow> (uintptr \<times> u32 \<times> sched) option" where
  "rv32_start_trap_handler mcause sp mip s =
     (if mcause AND 0x80000000 \<noteq> 0
      then (if mcause AND 0x7FFFFFFF = 3 then Some (rv32_software_interrupt_handler sp mip s) else None)
      else None)"

theorem rv32_trap_handlers_agree: "rv32_start_trap_handler mcause sp mip s = mp_hal_rv32_trap_handler mcause sp mip s"
  by (simp add: rv32_start_trap_handler_def mp_hal_rv32_trap_handler_def)

section \<open>The sections after the start\<close>

lemma frame_word_next: "frame_word m (b + 4) i = frame_word m b (Suc i)"
  by (simp add: frame_word_def add.assoc)

lemma frame_word_outside:
  assumes "\<forall>q. q \<notin> span b (4 * n) \<longrightarrow> m' q = m q" and "fits c (4 * k)" and "i < k" and "span b (4 * n) \<inter> span c (4 * k) = {}"
  shows "frame_word m' c i = frame_word m c i"
proof -
  have "m' q = m q" if "q \<in> span (c + of_nat (4 * i)) 4" for q
    using that assms(1,4) word_place(3) [OF assms(2,3)] by blast
  then have "load_bytes m' 4 (c + of_nat (4 * i)) = load_bytes m 4 (c + of_nat (4 * i))" by (rule load_bytes_cong)
  then show ?thesis by (simp add: frame_word_def load32_def)
qed

text \<open>An area of words that ends below the end of the address space.\<close>

lemma words_below_end:
  fixes b :: uintptr
  assumes "unat b + 4 * Suc n < 2 ^ 32"
  shows "b < b + of_nat (4 * Suc n)" and "unat (b + 4) = unat b + 4" and "fits b 4" and "fits (b + 4) (4 * n)"
    and "span b 4 \<inter> span (b + 4) (4 * n) = {}" and "span b (4 * Suc n) = span b 4 \<union> span (b + 4) (4 * n)"
proof -
  have k: "unat (of_nat (4 * Suc n) :: u32) = 4 * Suc n"
    using assms by (simp only: unsigned_of_nat take_bit_eq_mod) simp
  have "unat (b + of_nat (4 * Suc n)) = unat b + 4 * Suc n"
    unfolding unat_word_ariths(1) k using assms by simp
  then show "b < b + of_nat (4 * Suc n)" unfolding word_less_nat_alt by simp
  show u: "unat (b + 4) = unat b + 4" unfolding unat_word_ariths(1) using assms by simp
  show f: "fits b 4" "fits (b + 4) (4 * n)" using assms unfolding fits_def u by simp_all
  show "span b 4 \<inter> span (b + 4) (4 * n) = {}" by (rule span_disjoint [OF f]) (simp add: u)
  have "fits b (4 * Suc n)" using assms by (simp add: fits_def)
  then show "span b (4 * Suc n) = span b 4 \<union> span (b + 4) (4 * n)"
    using u by (auto simp: set_eq_iff in_span_iff [OF f(1)] in_span_iff [OF f(2)] in_span_iff)
qed

lemma frame_word_0: "frame_word m b 0 = load32 m b"
  by (simp add: frame_word_def)

lemma load32_outside:
  "\<forall>q. q \<notin> X \<longrightarrow> m' q = m q \<Longrightarrow> span p 4 \<inter> X = {} \<Longrightarrow> load32 m' p = load32 m p"
  unfolding load32_def by (intro arg_cong [where f = "map_option _"] load_bytes_cong) blast

lemma clear_bss_zero:
  assumes "unat b + 4 * n < 2 ^ 32" and "span b (4 * n) \<subseteq> dom m"
  shows "\<exists>m'. clear_bss b (b + of_nat (4 * n)) m = Some m' \<and> dom m' = dom m \<and>
    (\<forall>q. q \<notin> span b (4 * n) \<longrightarrow> m' q = m q) \<and> (\<forall>i < n. frame_word m' b i = Some 0)"
  using assms
proof (induction n arbitrary: b m)
  case 0
  then show ?case by (simp add: clear_bss.simps [of b])
next
  case (Suc n)
  note w = words_below_end [OF Suc.prems(1)]
  obtain m1 where m1: "store32 0 b m = Some m1" using store32_defined [of b m 0] Suc.prems(2) w(6) by blast
  have e: "b + of_nat (4 * Suc n) = b + 4 + of_nat (4 * n)" by simp
  have "unat (b + 4) + 4 * n < 2 ^ 32" "span (b + 4) (4 * n) \<subseteq> dom m1"
    using Suc.prems w(2,6) store32_dom [OF m1] by auto
  from Suc.IH [OF this] obtain m' where m': "clear_bss (b + 4) (b + of_nat (4 * Suc n)) m1 = Some m'" "dom m' = dom m1"
      "\<forall>q. q \<notin> span (b + 4) (4 * n) \<longrightarrow> m' q = m1 q" "\<forall>i < n. frame_word m' (b + 4) i = Some 0"
    unfolding e by blast
  have "clear_bss b (b + of_nat (4 * Suc n)) m = Some m'"
    unfolding clear_bss.simps [of b] using w(1) m1 m'(1) by (simp only: if_True Option.bind_lunit)
  moreover have "m' q = m q" if "q \<notin> span b (4 * Suc n)" for q
    using that m'(3) store32_other [OF m1] unfolding w(6) by simp
  moreover have "load32 m' b = Some 0"
    using load32_outside [OF m'(3) w(5)] load32_store32_same [OF m1 w(3)] by simp
  then have "frame_word m' b i = Some 0" if "i < Suc n" for i
    using that m'(4) by (cases i) (simp_all add: frame_word_0 flip: frame_word_next)
  ultimately show ?case using m'(2) store32_dom [OF m1] by blast
qed

lemma copy_data_image:
  assumes "unat src + 4 * n < 2 ^ 32" and "unat b + 4 * n < 2 ^ 32" and "span src (4 * n) \<subseteq> dom m" and "span b (4 * n) \<subseteq> dom m"
    and "span src (4 * n) \<inter> span b (4 * n) = {}"
  shows "\<exists>m'. copy_data src b (b + of_nat (4 * n)) m = Some m' \<and> dom m' = dom m \<and>
    (\<forall>q. q \<notin> span b (4 * n) \<longrightarrow> m' q = m q) \<and> (\<forall>i < n. frame_word m' b i = frame_word m src i)"
  using assms
proof (induction n arbitrary: src b m)
  case 0
  then show ?case by (simp add: copy_data.simps [of src b])
next
  case (Suc n)
  note w = words_below_end [OF Suc.prems(2)] and v = words_below_end [OF Suc.prems(1)]
  obtain x where x: "load32 m src = Some x" using load32_mapped [of src m] Suc.prems(3) v(6) by blast
  obtain m1 where m1: "store32 x b m = Some m1" using store32_defined [of b m x] Suc.prems(4) w(6) by blast
  have d1: "dom m1 = dom m" by (rule store32_dom [OF m1])
  have e: "b + of_nat (4 * Suc n) = b + 4 + of_nat (4 * n)" by simp
  have "unat (src + 4) + 4 * n < 2 ^ 32" "unat (b + 4) + 4 * n < 2 ^ 32" "span (src + 4) (4 * n) \<subseteq> dom m1"
    "span (b + 4) (4 * n) \<subseteq> dom m1" "span (src + 4) (4 * n) \<inter> span (b + 4) (4 * n) = {}"
    using Suc.prems w(2,6) v(2,6) d1 by auto
  from Suc.IH [OF this] obtain m' where m': "copy_data (src + 4) (b + 4) (b + of_nat (4 * Suc n)) m1 = Some m'"
      "dom m' = dom m1" "\<forall>q. q \<notin> span (b + 4) (4 * n) \<longrightarrow> m' q = m1 q"
      "\<forall>i < n. frame_word m' (b + 4) i = frame_word m1 (src + 4) i"
    unfolding e by blast
  have "copy_data src b (b + of_nat (4 * Suc n)) m = Some m'"
    unfolding copy_data.simps [of src b] using w(1) x m1 m'(1) by (simp only: if_True Option.bind_lunit)
  moreover have "m' q = m q" if "q \<notin> span b (4 * Suc n)" for q
    using that m'(3) store32_other [OF m1] unfolding w(6) by simp
  moreover have "load32 m' b = load32 m src"
    using load32_outside [OF m'(3) w(5)] load32_store32_same [OF m1 w(3)] x by simp
  moreover have "frame_word m1 (src + 4) i = frame_word m (src + 4) i" if "i < n" for i
  proof (rule frame_word_outside [OF _ v(4) that])
    show "\<forall>q. q \<notin> span b (4 * 1) \<longrightarrow> m1 q = m q" using store32_other [OF m1] by simp
    show "span b (4 * 1) \<inter> span (src + 4) (4 * n) = {}" using Suc.prems(5) w(6) v(6) by auto
  qed
  ultimately have "frame_word m' b i = frame_word m src i" if "i < Suc n" for i
    using that m'(4) by (cases i) (simp_all add: frame_word_0 flip: frame_word_next)
  then show ?case using \<open>copy_data src b _ m = Some m'\<close> \<open>\<And>q. q \<notin> span b _ \<Longrightarrow> m' q = m q\<close> m'(2) d1 by blast
qed

text \<open>
  The state in which the first call of either core finds its variables: the initialised ones hold the words of the load
  image, the others 0, and nothing else has changed.
\<close>

theorem reset_sections_correct:
  assumes "data_end k = data_start k + of_nat (4 * d)" and "bss_end k = bss_start k + of_nat (4 * b)"
    and "unat (data_load k) + 4 * d < 2 ^ 32" and "unat (data_start k) + 4 * d < 2 ^ 32" and "unat (bss_start k) + 4 * b < 2 ^ 32"
    and "span (data_load k) (4 * d) \<union> span (data_start k) (4 * d) \<union> span (bss_start k) (4 * b) \<subseteq> dom m"
    and "span (data_load k) (4 * d) \<inter> span (data_start k) (4 * d) = {}"
    and "span (bss_start k) (4 * b) \<inter> span (data_start k) (4 * d) = {}"
  shows "\<exists>m'. reset_sections k m = Some m' \<and> dom m' = dom m \<and>
    (\<forall>i < d. frame_word m' (data_start k) i = frame_word m (data_load k) i) \<and>
    (\<forall>i < b. frame_word m' (bss_start k) i = Some 0) \<and>
    (\<forall>q. q \<notin> span (data_start k) (4 * d) \<union> span (bss_start k) (4 * b) \<longrightarrow> m' q = m q)"
proof -
  obtain m1 where m1: "copy_data (data_load k) (data_start k) (data_end k) m = Some m1" "dom m1 = dom m"
      "\<forall>q. q \<notin> span (data_start k) (4 * d) \<longrightarrow> m1 q = m q"
      "\<forall>i < d. frame_word m1 (data_start k) i = frame_word m (data_load k) i"
    using copy_data_image [OF assms(3,4) _ _ assms(7), of m] assms(6) unfolding assms(1) by blast
  obtain m' where m': "clear_bss (bss_start k) (bss_end k) m1 = Some m'" "dom m' = dom m1"
      "\<forall>q. q \<notin> span (bss_start k) (4 * b) \<longrightarrow> m' q = m1 q" "\<forall>i < b. frame_word m' (bss_start k) i = Some 0"
    using clear_bss_zero [OF assms(5), of m1] assms(6) m1(2) unfolding assms(2) by blast
  have "fits (data_start k) (4 * d)" using assms(4) by (simp add: fits_def)
  then have "frame_word m' (data_start k) i = frame_word m1 (data_start k) i" if "i < d" for i
    using frame_word_outside [OF m'(3) _ that assms(8)] by blast
  moreover have "reset_sections k m = Some m'" unfolding reset_sections_def m1(1) Option.bind_lunit by (rule m'(1))
  ultimately show ?thesis using m1(2-4) m'(2-4) by (intro exI [of _ m']) simp
qed

lemma reset_sections_correct_witness:
  "\<exists>m'. reset_sections \<lparr>data_load = 0x1000, data_start = 0x2000, data_end = 0x2010, bss_start = 0x2010, bss_end = 0x2020\<rparr>
      (\<lambda>_. Some 7) = Some m' \<and> frame_word m' 0x2000 3 = frame_word (\<lambda>_. Some 7) 0x1000 3 \<and> frame_word m' 0x2010 3 = Some 0"
proof -
  let ?k = "\<lparr>data_load = 0x1000, data_start = 0x2000, data_end = 0x2010, bss_start = 0x2010, bss_end = 0x2020\<rparr> :: sections"
  have f: "fits (0x1000 :: u32) 16" "fits (0x2000 :: u32) 16" "fits (0x2010 :: u32) 16" by (simp_all add: fits_def)
  have s: "span (0x1000 :: u32) 16 \<inter> span 0x2000 16 = {}" "span (0x2010 :: u32) 16 \<inter> span 0x2000 16 = {}"
    by (rule span_disjoint [OF f(1,2)], simp, rule span_disjoint [OF f(3,2)], simp)
  show ?thesis using reset_sections_correct [of ?k 4 4 "\<lambda>_. Some 7"] s by (auto simp: dom_def)
qed

section \<open>The interrupts of the scheduler\<close>

text \<open>
  Every exception after the reset, PendSV (14) and SysTick (15) among them, enters the default handler and never returns:
  with this table the first tick, or the first switch, stops the Cortex-M33.
\<close>

theorem m33_exceptions_hang: "\<forall>n \<in> {2..<length m33_vector_table}. m33_vector (m33_vector_table ! n) s = None"
proof -
  have "v = Default_Handler" if "v \<in> set (drop 2 m33_vector_table)" for v
    using that by (auto simp: m33_vector_table_def)
  moreover have "m33_vector_table ! n \<in> set (drop 2 m33_vector_table)" if n: "n \<in> {2..<length m33_vector_table}" for n
  proof -
    have k: "2 + (n - 2) = n" "2 \<le> length m33_vector_table" using n by auto
    have "n - 2 < length (drop 2 m33_vector_table)" using n by (simp add: diff_less_mono)
    then have "drop 2 m33_vector_table ! (n - 2) \<in> set (drop 2 m33_vector_table)" by (rule nth_mem)
    then show ?thesis unfolding nth_drop [OF k(2)] k(1) .
  qed
  ultimately show ?thesis by force
qed

end
