(* ===== verification/PortRegs.thy ===== *)
theory PortRegs
  imports CoreShared
begin

text \<open>
  What the ports of ARM and RISC-V write to registers: critical sections, the trigger of a context switch, the start of the
  timer, the FPU and the interrupts, and the protection of memory (\<open>arm/cortex-m4\<close>, \<open>riscv/rv32imac\<close> and
  \<open>nrf54l15/m33\<close>, \<open>nrf54l15/rv32\<close> under \<open>src/platform\<close>).  The registers of the processor are fields; a register in memory
  has the value last written, and the writes are kept in order.
\<close>

section \<open>Registers\<close>

record port_regs =
  primask :: u32
  control :: u32
  mstatus :: u32
  mie :: u32
  mip :: u32
  mtvec :: u32
  mmio :: "u32 \<Rightarrow> u32"
  mmio_log :: "(u32 \<times> u32) list"

definition rd :: "u32 \<Rightarrow> port_regs \<Rightarrow> u32" where "rd a r = mmio r a"

definition wr :: "u32 \<Rightarrow> u32 \<Rightarrow> port_regs \<Rightarrow> port_regs" where
  "wr a v r = r\<lparr>mmio := (mmio r)(a := v), mmio_log := mmio_log r @ [(a, v)]\<rparr>"

definition SCB_ICSR :: u32 where "SCB_ICSR = 0xE000ED04"
definition SCB_SHPR3 :: u32 where "SCB_SHPR3 = 0xE000ED20"
definition SCB_CPACR :: u32 where "SCB_CPACR = 0xE000ED88"
definition MPU_CTRL :: u32 where "MPU_CTRL = 0xE000ED94"
definition MPU_RNR :: u32 where "MPU_RNR = 0xE000ED98"
definition MPU_RBAR :: u32 where "MPU_RBAR = 0xE000ED9C"
definition MPU_RLAR :: u32 where "MPU_RLAR = 0xE000EDA0"

lemmas port_addresses = SCB_ICSR_def SCB_SHPR3_def SCB_CPACR_def MPU_CTRL_def MPU_RNR_def MPU_RBAR_def MPU_RLAR_def

section \<open>Critical sections and context switches\<close>

definition arm_enter_critical :: "port_regs \<Rightarrow> u32 \<times> port_regs" where
  "arm_enter_critical r = (primask r, r\<lparr>primask := 1\<rparr>)"

definition arm_exit_critical :: "u32 \<Rightarrow> port_regs \<Rightarrow> port_regs" where
  "arm_exit_critical status r = r\<lparr>primask := status\<rparr>"

definition riscv_enter_critical :: "port_regs \<Rightarrow> u32 \<times> port_regs" where
  "riscv_enter_critical r = (mstatus r, r\<lparr>mstatus := mstatus r AND NOT 8\<rparr>)"

definition riscv_exit_critical :: "u32 \<Rightarrow> port_regs \<Rightarrow> port_regs" where
  "riscv_exit_critical status r = r\<lparr>mstatus := status\<rparr>"

definition arm_trigger_context_switch :: "port_regs \<Rightarrow> port_regs" where
  "arm_trigger_context_switch r = wr SCB_ICSR (rd SCB_ICSR r OR push_bit 28 1) r"

definition nrf_rv32_trigger_context_switch :: "port_regs \<Rightarrow> port_regs" where
  "nrf_rv32_trigger_context_switch r = r\<lparr>mip := mip r OR 8\<rparr>"

definition rv32imac_trigger_context_switch :: "port_regs \<Rightarrow> port_regs" where
  "rv32imac_trigger_context_switch r = r"

section \<open>Start of the cores\<close>

definition mp_hal_m33_fpu_init :: "port_regs \<Rightarrow> port_regs" where
  "mp_hal_m33_fpu_init r =
     (let cpacr = rd SCB_CPACR r; r1 = wr SCB_CPACR (cpacr OR push_bit 20 0xF) r in r1\<lparr>control := control r1 OR push_bit 2 1\<rparr>)"

text \<open>Region by region, from number \<open>i\<close> on; what the code writes as the limit goes to another register.\<close>

definition m33_mpu_clear :: "u32 \<Rightarrow> port_regs \<Rightarrow> port_regs" where
  "m33_mpu_clear i r = wr 0xE000EDA4 0 (wr MPU_RNR i r)"

definition mp_hal_m33_mpu_init :: "port_regs \<Rightarrow> port_regs" where
  "mp_hal_m33_mpu_init r =
     (let mpu_ctrl = rd MPU_CTRL r AND NOT 1; r1 = wr MPU_CTRL mpu_ctrl r; r2 = fold m33_mpu_clear (map of_nat [0..<16]) r1
      in wr MPU_CTRL (mpu_ctrl OR 1) r2)"

definition m33_reload_value :: u32 where
  "m33_reload_value = (let cpu_clock = 96000000 :: u32; systick_clock = cpu_clock div 8 in systick_clock div 1000 - 1)"

definition mp_hal_m33_systick_init :: "port_regs \<Rightarrow> port_regs" where
  "mp_hal_m33_systick_init r =
     wr 0xE000E010 (push_bit 0 1 OR push_bit 1 1 OR push_bit 2 1) (wr 0xE000E018 0 (wr 0xE000E014 m33_reload_value r))"

definition mp_hal_m33_pendsv_init :: "port_regs \<Rightarrow> port_regs" where
  "mp_hal_m33_pendsv_init r = wr SCB_SHPR3 ((rd SCB_SHPR3 r AND NOT (push_bit 24 0xFF)) OR push_bit 24 0xFF) r"

definition m33_cpu_init :: "port_regs \<Rightarrow> port_regs" where
  "m33_cpu_init r = mp_hal_m33_pendsv_init (mp_hal_m33_systick_init (mp_hal_m33_mpu_init (mp_hal_m33_fpu_init r)))"

text \<open>The other definition of the same function, in \<open>context_switch.c\<close>.\<close>

definition m33_switch_cpu_init :: "port_regs \<Rightarrow> port_regs" where
  "m33_switch_cpu_init r =
     (let r1 = wr SCB_SHPR3 ((rd SCB_SHPR3 r AND NOT (push_bit 24 0xFF)) OR push_bit 24 0xFF) r;
          r2 = wr SCB_SHPR3 ((rd SCB_SHPR3 r1 AND NOT (push_bit 16 0xFF)) OR push_bit 16 0xFF) r1;
          r3 = wr SCB_CPACR (rd SCB_CPACR r2 OR push_bit 20 0xF) r2
      in r3\<lparr>control := control r3 OR 4\<rparr>)"

text \<open>Every processor is taken for a Cortex-M33.\<close>

definition m33_get_core_id :: "port_regs \<Rightarrow> nat" where
  "m33_get_core_id r = (if rd 0xE000ED00 r AND 0xFF = 0xD then CORE_ID_M33 else CORE_ID_M33)"

definition mp_hal_m33_fpu_enable_lazy_stacking :: "port_regs \<Rightarrow> port_regs" where
  "mp_hal_m33_fpu_enable_lazy_stacking r = wr 0xE000EF34 (rd 0xE000EF34 r OR push_bit 30 1 OR push_bit 31 1) r"

text \<open>\<open>systick_val\<close> is the address of the reload register.\<close>

definition m33_get_ticks :: "port_regs \<Rightarrow> u32" where
  "m33_get_ticks r = 0xFFFFFF - rd 0xE000E014 r"

definition mp_hal_rv32_trap_init :: "u32 \<Rightarrow> port_regs \<Rightarrow> port_regs" where
  "mp_hal_rv32_trap_init trap_handler r = r\<lparr>mtvec := trap_handler, mstatus := mstatus r OR push_bit 3 1\<rparr>"

definition mp_hal_rv32_software_interrupt_init :: "port_regs \<Rightarrow> port_regs" where
  "mp_hal_rv32_software_interrupt_init r = r\<lparr>mie := mie r OR push_bit 3 1\<rparr>"

definition rv32_cpu_init :: "u32 \<Rightarrow> port_regs \<Rightarrow> port_regs" where
  "rv32_cpu_init trap_handler r = mp_hal_rv32_software_interrupt_init (mp_hal_rv32_trap_init trap_handler r)"

text \<open>The other definition, in \<open>context_switch.c\<close>, leaves interrupts as they are.\<close>

definition rv32_switch_cpu_init :: "u32 \<Rightarrow> port_regs \<Rightarrow> port_regs" where
  "rv32_switch_cpu_init trap_handler r = r\<lparr>mie := mie r OR 8, mtvec := trap_handler\<rparr>"

definition rv32_get_core_id :: nat where "rv32_get_core_id = CORE_ID_RV32"

definition mp_hal_rv32_enable_interrupts :: "port_regs \<Rightarrow> port_regs" where
  "mp_hal_rv32_enable_interrupts r = r\<lparr>mstatus := mstatus r OR push_bit 3 1\<rparr>"

definition mp_hal_rv32_disable_interrupts :: "port_regs \<Rightarrow> port_regs" where
  "mp_hal_rv32_disable_interrupts r = r\<lparr>mstatus := mstatus r AND NOT (push_bit 3 1)\<rparr>"

definition mp_hal_rv32_get_interrupt_status :: "port_regs \<Rightarrow> u32" where "mp_hal_rv32_get_interrupt_status r = mstatus r"

definition mp_hal_rv32_set_interrupt_status :: "u32 \<Rightarrow> port_regs \<Rightarrow> port_regs" where
  "mp_hal_rv32_set_interrupt_status status r = r\<lparr>mstatus := status\<rparr>"

definition NRF54L15_IPC_INTENSET :: u32 where "NRF54L15_IPC_INTENSET = 0x50000030"

definition m33_ipc_enable_interrupts :: "port_regs \<Rightarrow> port_regs" where
  "m33_ipc_enable_interrupts r = wr NRF54L15_IPC_INTENSET 0xFFFFFFFF r"

definition rv32_ipc_enable_interrupts :: "port_regs \<Rightarrow> port_regs" where
  "rv32_ipc_enable_interrupts r = wr NRF54L15_IPC_INTENSET 0xFFFFFFFF (r\<lparr>mie := mie r OR 8\<rparr>)"

text \<open>The ticks of the RISC-V core count the calls.\<close>

definition rv32_get_ticks :: "u32 \<Rightarrow> u32 \<times> u32" where "rv32_get_ticks tick_count = (tick_count, tick_count + 1)"

section \<open>Protection of memory\<close>

definition MPU_REGION_APP_CODE :: u32 where "MPU_REGION_APP_CODE = 2"
definition MPU_REGION_APP_DATA :: u32 where "MPU_REGION_APP_DATA = 3"
definition MPU_REGION_APP_STACK :: u32 where "MPU_REGION_APP_STACK = 4"

definition mp_hal_mpu_init :: "port_regs \<Rightarrow> port_regs" where
  "mp_hal_mpu_init r = wr MPU_CTRL (push_bit 2 1 OR push_bit 0 1) r"

definition mpu_set_region :: "u32 \<Rightarrow> u32 \<Rightarrow> u32 \<Rightarrow> port_regs \<Rightarrow> port_regs" where
  "mpu_set_region n start sz r =
     wr MPU_RLAR (((start + sz - 1) AND 0xFFFFFFE0) OR push_bit 0 1) (wr MPU_RBAR (start AND 0xFFFFFFE0) (wr MPU_RNR n r))"

definition mp_hal_mpu_enable_app_sandboxing :: "u32 \<Rightarrow> u32 \<Rightarrow> u32 \<Rightarrow> u32 \<Rightarrow> u32 \<Rightarrow> u32 \<Rightarrow> port_regs \<Rightarrow> port_regs" where
  "mp_hal_mpu_enable_app_sandboxing code_start code_size data_start data_size stack_start stk_size r =
     mpu_set_region MPU_REGION_APP_STACK stack_start stk_size
       (mpu_set_region MPU_REGION_APP_DATA data_start data_size (mpu_set_region MPU_REGION_APP_CODE code_start code_size r))"



text \<open>One test after another, from \<open>1 << 5\<close> to \<open>1 << 31\<close>; the last that holds counts.\<close>

definition m33_size_encoding :: "u32 \<Rightarrow> u32" where
  "m33_size_encoding sz = foldl (\<lambda>enc k. if sz \<ge> push_bit k 1 then of_nat (k - 3) else enc) 0 [5..<32]"

definition mp_hal_m33_mpu_configure_region :: "u32 \<Rightarrow> u32 \<Rightarrow> u32 \<Rightarrow> u32 \<Rightarrow> port_regs \<Rightarrow> port_regs" where
  "mp_hal_m33_mpu_configure_region region_num base sz permissions r =
     wr MPU_RLAR ((base + sz - 1) OR push_bit 24 permissions OR push_bit 1 (m33_size_encoding sz) OR 1)
       (wr MPU_RBAR (base OR 1) (wr MPU_RNR region_num r))"

section \<open>Critical sections nest\<close>

text \<open>A program of accesses and nested sections; a run gives, for every access, whether interrupts were masked.\<close>

datatype crit = Access | Then crit crit | Section crit

fun run_crit :: "('s \<Rightarrow> u32 \<times> 's) \<Rightarrow> (u32 \<Rightarrow> 's \<Rightarrow> 's) \<Rightarrow> ('s \<Rightarrow> bool) \<Rightarrow> crit \<Rightarrow> 's \<Rightarrow> bool list \<times> 's" where
  "run_crit enter leave masked Access s = ([masked s], s)"
| "run_crit enter leave masked (Then c d) s =
     (let (xs, s1) = run_crit enter leave masked c s; (ys, s2) = run_crit enter leave masked d s1 in (xs @ ys, s2))"
| "run_crit enter leave masked (Section c) s =
     (let (v, s1) = enter s; (xs, s2) = run_crit enter leave masked c s1 in (xs, leave v s2))"

text \<open>What they should be: masked within a section, as before outside.\<close>

fun masked_inside :: "crit \<Rightarrow> bool \<Rightarrow> bool list" where
  "masked_inside Access d = [d]"
| "masked_inside (Then b c) d = masked_inside b d @ masked_inside c d"
| "masked_inside (Section c) d = masked_inside c True"

locale critical_section =
  fixes enter :: "'s \<Rightarrow> u32 \<times> 's"
    and leave :: "u32 \<Rightarrow> 's \<Rightarrow> 's"
    and masked :: "'s \<Rightarrow> bool"
  assumes enter_masks: "masked (snd (enter s))"
    and leave_restores: "masked (leave (fst (enter s)) s') = masked s"
begin

lemma sections_nest:
  "fst (run_crit enter leave masked c s) = masked_inside c (masked s) \<and> masked (snd (run_crit enter leave masked c s)) = masked s"
proof (induction c arbitrary: s)
  case (Then c d)
  obtain xs s1 where c: "run_crit enter leave masked c s = (xs, s1)" by force
  then show ?case using Then.IH(1) [of s] Then.IH(2) [of s1] by (auto split: prod.splits)
next
  case (Section c)
  obtain v s1 where e: "enter s = (v, s1)" by force
  then have "masked s1" using enter_masks [of s] by simp
  then show ?case using Section.IH [of s1] e leave_restores [of s] by (auto split: prod.splits)
qed simp

end

text \<open>Masked are the interrupts on ARM by the lowest bit of PRIMASK, on RISC-V by the missing bit 3 of \<open>mstatus\<close>.\<close>

definition arm_masked :: "port_regs \<Rightarrow> bool" where "arm_masked r = bit (primask r) 0"
definition riscv_masked :: "port_regs \<Rightarrow> bool" where "riscv_masked r = (\<not> bit (mstatus r) 3)"

interpretation arm: critical_section arm_enter_critical arm_exit_critical arm_masked
  by unfold_locales (simp_all add: arm_enter_critical_def arm_exit_critical_def arm_masked_def)

interpretation riscv: critical_section riscv_enter_critical riscv_exit_critical riscv_masked
  by unfold_locales (simp_all add: riscv_enter_critical_def riscv_exit_critical_def riscv_masked_def bit_simps)

text \<open>
  On ARM and on RISC-V, critical sections nest: in any program interrupts are masked at every access within a section, as
  before it at every other, and at the end as at the start.
\<close>

theorem critical_sections_nest:
  "fst (run_crit arm_enter_critical arm_exit_critical arm_masked c r) = masked_inside c (arm_masked r) \<and>
   arm_masked (snd (run_crit arm_enter_critical arm_exit_critical arm_masked c r)) = arm_masked r \<and>
   fst (run_crit riscv_enter_critical riscv_exit_critical riscv_masked c r) = masked_inside c (riscv_masked r) \<and>
   riscv_masked (snd (run_crit riscv_enter_critical riscv_exit_critical riscv_masked c r)) = riscv_masked r"
  using arm.sections_nest [of c r] riscv.sections_nest [of c r] by blast

section \<open>What an application may reach\<close>

text \<open>The registers of the regions: the number selected, the bases and the limits, after the writes that were made.\<close>

fun mpu_apply :: "u32 \<times> u32 \<Rightarrow> u32 \<times> (u32 \<Rightarrow> u32) \<times> (u32 \<Rightarrow> u32) \<Rightarrow> u32 \<times> (u32 \<Rightarrow> u32) \<times> (u32 \<Rightarrow> u32)" where
  "mpu_apply (a, v) (n, b, l) =
     (if a = MPU_RNR then (v, b, l) else if a = MPU_RBAR then (n, b(n := v), l) else if a = MPU_RLAR then (n, b, l(n := v))
      else (n, b, l))"

definition mpu_after :: "port_regs \<Rightarrow> u32 \<times> (u32 \<Rightarrow> u32) \<times> (u32 \<Rightarrow> u32)" where
  "mpu_after r = fold mpu_apply (mmio_log r) (0, \<lambda>_. 0, \<lambda>_. 0)"

text \<open>A region that is enabled holds the addresses between its base and its limit, in units of 32 bytes.\<close>

definition in_region :: "port_regs \<Rightarrow> u32 \<Rightarrow> u32 \<Rightarrow> bool" where
  "in_region r n a =
     (let (_, b, l) = mpu_after r in bit (l n) 0 \<and> drop_bit 5 (b n) \<le> drop_bit 5 a \<and> drop_bit 5 a \<le> drop_bit 5 (l n))"

lemma mpu_after_wr: "mpu_after (wr a v r) = mpu_apply (a, v) (mpu_after r)"
  by (simp add: mpu_after_def wr_def)










text \<open>
  The bases are written without attributes: code, data and stack are all readable, writable and executable by the privileged
  mode only.
\<close>

theorem sandbox_attributes:
  "\<exists>ws. mmio_log (mp_hal_mpu_enable_app_sandboxing cs csz ds dsz ss ssz r) = mmio_log r @ ws \<and>
     (\<forall>v. (MPU_RBAR, v) \<in> set ws \<longrightarrow> v AND 0x1F = 0) \<and> length ws = 9"
  by (auto simp: mp_hal_mpu_enable_app_sandboxing_def mpu_set_region_def wr_def port_addresses and.assoc)

section \<open>The Cortex-M33 of the nRF54L15\<close>

text \<open>
  The start of the protection is meant to disable all regions; it writes to another register than the limits, and every
  region stays as it was.
\<close>

theorem m33_mpu_init_keeps_regions: "in_region (mp_hal_m33_mpu_init r) n a = in_region r n a"
proof -
  have clear: "\<exists>m'. mpu_after (fold m33_mpu_clear is r) = (m', b, l)" if "mpu_after r = (m, b, l)" for "is" r m b l
    using that by (induction "is" arbitrary: r m) (simp_all add: m33_mpu_clear_def mpu_after_wr port_addresses)
  obtain m b l where m: "mpu_after r = (m, b, l)" by (rule prod_cases3)
  let ?r1 = "wr MPU_CTRL (rd MPU_CTRL r AND NOT 1) r"
  have "mpu_after ?r1 = (m, b, l)" by (simp add: mpu_after_wr m port_addresses)
  from clear [OF this, of "map of_nat [0..<16]"] obtain m' where
    "mpu_after (fold m33_mpu_clear (map of_nat [0..<16]) ?r1) = (m', b, l)" by blast
  then have "mpu_after (mp_hal_m33_mpu_init r) = (m', b, l)"
    unfolding mp_hal_m33_mpu_init_def Let_def by (simp only: mpu_after_wr) (simp add: port_addresses)
  then show ?thesis using m by (simp add: in_region_def)
qed

text \<open>
  The reload value is that of a clock of an eighth of the processor's, but the processor's clock is selected: there are
  8000 ticks in a second and not 1000.
\<close>

theorem m33_systick_rate:
  "rd 0xE000E014 (mp_hal_m33_systick_init r) = 11999 \<and> bit (rd 0xE000E010 (mp_hal_m33_systick_init r)) 2 \<and>
   (96000000 :: nat) div (unat (rd 0xE000E014 (mp_hal_m33_systick_init r)) + 1) = 8000"
  by (simp add: mp_hal_m33_systick_init_def rd_def wr_def m33_reload_value_def bit_simps)

text \<open>The encoding of a size from 32 on is its logarithm, rounded down, less 3; of a smaller one 0.\<close>

lemma last_bound: "foldl (\<lambda>e k. if P k then f k else e) e0 [a..<b] =
    (case filter P [a..<b] of [] \<Rightarrow> e0 | k # ks \<Rightarrow> f (last (k # ks)))"
proof (induction b)
  case (Suc b)
  show ?case
  proof (cases "a \<le> b")
    case True
    then show ?thesis using Suc by (auto split: list.splits)
  qed simp
qed simp

lemma shift_le:
  assumes "j < 32"
  shows "push_bit j 1 \<le> (sz :: u32) \<longleftrightarrow> 2 ^ j \<le> unat sz"
proof -
  have lt: "(2 :: nat) ^ j < 2 ^ 32" using assms by (intro power_strict_increasing) simp_all
  have "(push_bit j 1 :: u32) = of_nat (2 ^ j)" by (simp add: push_bit_eq_mult)
  then have "unat (push_bit j 1 :: u32) = take_bit 32 (2 ^ j)" by (simp only: unsigned_of_nat) simp
  also have "\<dots> = 2 ^ j" by (rule take_bit_nat_eq_self [OF lt])
  finally have "unat (push_bit j 1 :: u32) = 2 ^ j" .
  then show ?thesis by (simp only: word_le_nat_alt)
qed

lemma shifts_below:
  assumes "k < 32" and "2 ^ k \<le> unat (sz :: u32)" and "unat sz < 2 ^ Suc k"
  shows "j < 32 \<Longrightarrow> push_bit j 1 \<le> sz \<longleftrightarrow> j \<le> k"
proof -
  assume "j < 32"
  have "2 ^ j \<le> unat sz \<longleftrightarrow> j \<le> k"
  proof
    assume "2 ^ j \<le> unat sz"
    then have "(2 :: nat) ^ j < 2 ^ Suc k" using assms(3) by (rule le_less_trans)
    then have "j < Suc k" by (rule power_less_imp_less_exp [rotated]) simp
    then show "j \<le> k" by simp
  next
    assume "j \<le> k"
    then have "(2 :: nat) ^ j \<le> 2 ^ k" by simp
    then show "2 ^ j \<le> unat sz" using assms(2) by (rule le_trans)
  qed
  then show ?thesis using shift_le [OF \<open>j < 32\<close>] by simp
qed

theorem m33_size_encoding_log:
  "(\<forall>k. 5 \<le> k \<and> k < 32 \<and> 2 ^ k \<le> unat sz \<and> unat sz < 2 ^ Suc k \<longrightarrow> m33_size_encoding sz = of_nat (k - 3)) \<and>
   (unat sz < 32 \<longrightarrow> m33_size_encoding sz = 0)"
proof (intro conjI allI impI)
  fix k
  assume k: "5 \<le> k \<and> k < 32 \<and> 2 ^ k \<le> unat sz \<and> unat sz < 2 ^ Suc k"
  have "[5..<Suc k + (32 - Suc k)] = [5..<Suc k] @ [Suc k..<Suc k + (32 - Suc k)]"
    by (rule upt_add_eq_append) (use k in simp)
  moreover have "Suc k + (32 - Suc k) = 32" using k by simp
  ultimately have split: "[5..<32] = [5..<Suc k] @ [Suc k..<32]" by (simp only:)
  have "filter (\<lambda>j. push_bit j 1 \<le> sz) [5..<32] = filter (\<lambda>j. j < Suc k) [5..<32]"
  proof (rule filter_cong [OF refl])
    fix j
    assume "j \<in> set [5..<32]"
    then have "j < 32" by (simp only: set_upt atLeastLessThan_iff)
    then show "push_bit j 1 \<le> sz \<longleftrightarrow> j < Suc k" using shifts_below [of k sz j] k by (simp only: less_Suc_eq_le)
  qed
  also have "\<dots> = [5..<Suc k]" unfolding split by (simp del: upt_Suc)
  also have "\<dots> = 5 # [6..<Suc k]" using k by (subst upt_conv_Cons) simp_all
  finally have "filter (\<lambda>j. push_bit j 1 \<le> sz) [5..<32] = 5 # [6..<Suc k]" .
  moreover have "last (5 # [6..<Suc k]) = k" using k by (cases "k = 5") simp_all
  ultimately show "m33_size_encoding sz = of_nat (k - 3)" by (simp only: m33_size_encoding_def last_bound list.case)
next
  assume s: "unat sz < 32"
  have "filter (\<lambda>j. push_bit j 1 \<le> sz) [5..<32] = []"
  proof (rule filter_False, intro ballI)
    fix j
    assume "j \<in> set [5..<32]"
    then have j: "5 \<le> j" "j < 32" by (simp_all only: set_upt atLeastLessThan_iff)
    have "(2 :: nat) ^ 5 \<le> 2 ^ j" using j(1) by (intro power_increasing) simp_all
    then show "\<not> push_bit j 1 \<le> sz" using shift_le [OF j(2), of sz] s by simp
  qed
  then show "m33_size_encoding sz = 0" by (simp only: m33_size_encoding_def last_bound list.case)
qed

end
