(* ===== verification/Spec2Isabelle.thy ===== *)
theory Spec2Isabelle
  imports Prelude Scheduler Thread Sync MsgQueue Timer Watchdog MemoryView Pool Tlsf SharedHeap_Correct
    Gc_Correct Protobuf_Correct Edf_Correct Json_Roundtrip Json_Objects
    CoreShared_Correct Odata_Response Console_Correct Http_Correct Bus_Correct Ble_Correct Wifi_Correct
    Esp32Tasks Esp32Uart Abi PortStart PortRegs
begin

text \<open>
  microPOSIX is a small real-time kernel in C for 32-bit microcontrollers, with the services an embedded application
  needs around it.  This development models the kernel, the memory managers, the serialisers and OData, the layer between
  the two cores of the nRF54L15, the console and the boot loader, and the network, BLE and bus drivers up to the calls of
  the platform below them.

  \<^bold>\<open>The program and the theories.\<close>  Paths are under \<open>src/src/\<close>, headers under \<open>src/include/microposix/\<close>.

  \<^item> \<open>Prelude\<close>: machine words, bounded searches, byte buffers, null-terminated lists in a store and the interface
    \<open>threaded_list\<close> of a component that keeps one.
  \<^item> \<open>Scheduler\<close> (\<open>kernel/scheduler.c\<close>): the ready list threaded through the thread control blocks, the choice of the next
    thread, the tick with sleeping threads and stack marks, the tickless-idle computation.
  \<^item> \<open>Thread\<close> (\<open>kernel/thread.c\<close>): thread creation from the static pool, exit, sleep, join.
  \<^item> \<open>Sync\<close> (\<open>kernel/ipc.c\<close>): mutexes and semaphores; \<open>kstep\<close> is the step relation of the kernel, in which threads
    create, exit, sleep, lock, unlock and wait between ticks, so the properties about blocking hold in every
    interleaving.
  \<^item> \<open>MsgQueue\<close> (\<open>kernel/mq.c\<close>): the ring buffer of messages, an implementation of the locale \<open>bounded_fifo\<close>.
  \<^item> \<open>Timer\<close> (\<open>kernel/timer.c\<close>) and \<open>Watchdog\<close> (\<open>kernel/watchdog.c\<close>): the list of active timers and its tick;
    check-ins and late threads.
  \<^item> \<open>Memory\<close>: byte-addressed memory with partial loads and stores, used by \<open>MemoryView\<close> (\<open>mm/memory_view.c\<close>: views,
    slices and arenas), \<open>Pool\<close> (\<open>mm/pool.c\<close>: the block pool with its embedded free list) and \<open>Tlsf\<close> (\<open>mm/tlsf.c\<close>: the
    first-fit heap).  Their allocators are interpretations of the locales of \<open>Memory\<close>.
  \<^item> \<open>SharedHeap\<close>, \<open>SharedHeap_Correct\<close> (\<open>mm/shared_heap.c\<close>): block headers and bytes, splitting, merging, typed and
    aligned allocation, statistics.
  \<^item> \<open>Gc\<close>, \<open>Gc_Correct\<close> (\<open>mm/gc.c\<close>): objects with reference counts on doubly linked lists, roots, mark and sweep.  The
    locale \<open>counted_store\<close> is what a client that counts references relies on; the collector is an interpretation of it.
  \<^item> \<open>Codec\<close>: the writers, readers and varints that the two binary serialisers share, with the interface \<open>wire_codec\<close> of a
    pair of write and read operations; \<open>Protobuf\<close>, \<open>Protobuf_Correct\<close> (\<open>serialization/protobuf.c\<close>) and \<open>Edf\<close>,
    \<open>Edf_Correct\<close> (\<open>serialization/edf.c\<close>) build on it.
  \<^item> \<open>Json\<close> (\<open>serialization/json.c\<close>): parser, generator and values.  \<open>Json_Correct\<close> shows that the parser terminates and
    that the generator implements a reference printer, \<open>Json_Roundtrip\<close> what the parser makes of printed texts,
    \<open>Json_Objects\<close> the laws of objects (locale \<open>dictionary\<close>), copies and comparison.
  \<^item> \<open>CString\<close>: strings of the C library (tokens, comparison, searches, numbers, formatted text).  \<open>Odata\<close> (query strings,
    filters, metadata) and \<open>OdataDocs\<close> (ordering, paging, projection, responses) model \<open>serialization/odata.c\<close>;
    \<open>Odata_Order\<close>, \<open>Odata_Query\<close>, \<open>Odata_Metadata\<close>, \<open>Odata_Correct\<close> and \<open>Odata_Response\<close> have their lemmas.
  \<^item> \<open>TwoCores\<close>: programs as trees of actions on shared words, run by two cores that interleave at every access, with three
    ways to reason about them: what every core keeps in every interleaving (\<open>keeps\<close>), what a core does alone (\<open>ends\<close>,
    \<open>endless\<close>), and what would hold if critical sections excluded the other core (\<open>guarded\<close>).  \<open>CoreShared\<close>,
    \<open>CoreShared_Correct\<close> (\<open>platform/nrf54l15/shared\<close>, beside \<open>src/src\<close>): spinlocks, cross-core mutexes, barrier,
    rendezvous, handshake, mailbox, semaphores, events and the thread registry.

  \<^item> \<open>Console\<close>, \<open>Console_Correct\<close> (\<open>debug/log.c\<close>, \<open>debug/shell.c\<close>, \<open>debug/fault.c\<close>, \<open>bootloader/boot.c\<close>): the ring of log entries, the
    line editor and commands of the shell, the fault report, the login of the boot loader.
  \<^item> \<open>Socket\<close>, \<open>Socket_Correct\<close> (\<open>network/socket.c\<close>): the table of sockets over the sockets of the platform; \<open>Http\<close>,
    \<open>Http_Correct\<close> (\<open>network/http_client.c\<close>) on top of it; \<open>Wifi\<close>, \<open>Wifi_Correct\<close> (\<open>network/wifi.c\<close>): the state machine of
    the Wi-Fi driver.
  \<^item> \<open>Handles\<close>: entries that own keys and the interface \<open>handle_table\<close> of a table opened and closed by handle; \<open>I2c\<close> and
    \<open>Spi\<close> (\<open>drivers/i2c.c\<close>, \<open>drivers/spi.c\<close>) are interpretations of it in \<open>Bus_Correct\<close>.
  \<^item> \<open>BleEsp32\<close>, \<open>BleMgr\<close>, \<open>Ble_Correct\<close> (\<open>ble/ble_esp32.c\<close>, \<open>ble/ble_mgr.c\<close>): the backend over the Bluetooth stack, which
    posts events to a queue of \<open>MsgQueue\<close>, and the manager, whose host task takes them from it.
  \<^item> \<open>Esp32Wdt\<close>, \<open>Esp32Mpu\<close>, \<open>Esp32Uart\<close>, \<open>Esp32Gpio\<close>, \<open>Esp32Cpu\<close>, \<open>Esp32Tasks\<close> (\<open>platform/esp32\<close>, beside \<open>src/src\<close>): the
    watchdogs, the protection of memory, the serial ports, the pins, the processor, and the tasks of FreeRTOS behind the
    threads.  \<open>Abi\<close> (\<open>kernel/abi.c\<close>, \<open>kernel/abi_esp32.c\<close>): the handlers of system calls, which compose the threads, the
    heap, the pins, BLE, the watchdog and the processor, and the jump table.
  \<^item> \<open>PortStack\<close>, \<open>PortStart\<close>, \<open>PortRegs\<close> (\<open>platform/arm\<close>, \<open>platform/riscv\<close>, \<open>platform/nrf54l15/m33\<close> and \<open>rv32\<close>): the first frame of a thread
    on each core and the interrupts that switch threads; the sections of variables at the start and the vector table; critical sections (locale \<open>critical_section\<close>, with an
    interpretation for ARM and one for RISC-V), the start of the timer and of the protection of memory.

  \<^bold>\<open>How code becomes definitions.\<close>  A struct is a record, a field of a struct that is reached through pointers is a field
  of a store indexed by the node, an enum or tagged union a datatype.  A function has the name it has in the source and
  returns its return value with the state it changes.  \<open>size_t\<close> and pointers are 32-bit words wherever their arithmetic
  can wrap.  A result of type \<^typ>\<open>'a option\<close> whose \<^term>\<open>None\<close> is not a \<open>NULL\<close> pointer stands for a call without a
  defined result: a wild access, or a loop that never ends.  Loops over lists are recursive functions; loops whose
  termination is not obvious are \<open>partial_function (option)\<close>, and theorems that a call returns show that the result is
  \<^term>\<open>Some\<close>.  No fuel is used.

  \<^bold>\<open>Parameters.\<close>  Allocators of the C library are functions or oracles whose documented behaviour is a hypothesis
  (\<open>good_malloc\<close>, \<open>good_gc_malloc\<close>, \<open>good_realloc\<close>, \<open>heap_works\<close>); conversions between text and \<open>double\<close> are fields of \<open>c_double\<close>; the
  clock, the callbacks of timers and the platform's context switch are parameters of the kernel's definitions.  The
  drivers and stacks of a platform are records of their calls on a state of their own: the sockets (\<open>backend\<close>), the I2C and
  SPI drivers (\<open>i2c_idf\<close>, \<open>spi_idf\<close>), the Bluetooth stack (\<open>bt_stack\<close>), the Wi-Fi driver (\<open>wifi_idf\<close>), the serial ports, pins,
  watchdog and processor (\<open>uart_idf\<close>, \<open>gpio_idf\<close>, \<open>twdt_idf\<close>, \<open>cpu_idf\<close>) of ESP-IDF and the tasks of FreeRTOS (\<open>rtos\<close>); where a
  property relies on what they promise, it is a hypothesis with an instance (\<open>i2c_laws\<close>, \<open>spi_laws\<close>, \<open>uart_laws\<close>,
  \<open>gpio_laws\<close>, \<open>pin_laws\<close>, \<open>rtos_laws\<close>, \<open>suspend_laws\<close>, \<open>fd_laws\<close>, and that the Bluetooth stack accepts what is sent, \<open>accepts\<close>).  What they report is an
  argument of the callbacks that receive it, and the callbacks of the application are outputs.

  \<^bold>\<open>What the lemmas show.\<close>  Each theory has the properties of its component: invariants kept by every operation (the
  pool's partition of its blocks, the tiling of the heap by headers, the ready list), refinements of abstract objects
  (the bounded queue, the recursive lock, the reference printer of JSON), round trips of the serialisers, liveness of
  sleeping and joining, safety on arbitrary input, and termination of the parsers.  Where the code does not do what it
  means to, the property states what it does: blocked threads never wake, slots of threads are never reclaimed, a
  freed block of the shared heap makes the next search endless, an oversized length makes the EDF reader loop, strings
  are never parsed by the JSON parser, a deep copy leaks, the garbage collector reads the objects it has freed.  Until a
  socket is closed that was never opened none can be created, because the table is cleared to a descriptor that does not
  mark a slot as free; a request over HTTP never succeeds, data that a BLE peer writes is lost, a Wi-Fi scan whose end is
  reported early lasts until the driver is initialised again, deinitialised or made an access point, or until a later
  report; the first task of the ESP32 can be neither deleted nor suspended, an output pin cannot be toggled, allocation by
  a system call has no result, a thread of the Cortex-M33 never gets its argument, and the core that releases a barrier
  after its own wait gets past it only by a timeout.  Further theorems of the same kind stand beside the properties (the
  collections of the garbage collector, deep copies, objects of JSON, the documents of OData, the mutexes between the
  cores, the ports of I2C).

  \<^bold>\<open>Not modelled.\<close>  What the ports of ARM and RISC-V have in assembly, and their timer interrupts, which call a
  function that does not exist.  The applications, the demonstrations and the tests.  Logged lines
  are left out of the drivers.  In the kernel, interrupts are ticks between kernel steps and a context switch in the
  middle of an operation is not modelled: an operation runs to its end, as the code intends with the critical sections
  that are commented out in its sources.  Between the two cores every access interleaves, but the threads of one core do
  not.  A callback of the application that calls the driver back is not modelled, nor a report that arrives in the middle
  of a driver's operation other than a blocking scan.
\<close>

end
